(* ===== verification/Prelude.thy ===== *)
theory Prelude
  imports Main "HOL-Library.Word" "HOL-Library.Monad_Syntax" "HOL-Library.Signed_Division"
begin

text \<open>
  Shared vocabulary of the development: the C integer conversions the code performs, byte
  blocks with checked access, little-endian encodings, NUL-terminated strings, and the shape
  of the values a Lua binding returns.

  Conventions used by every component theory.
  \<^item> A C \<open>int\<close>, \<open>long\<close>, \<open>size_t\<close> is an \<open>int\<close>; every conversion the code makes to a
    narrower type is written out with \<open>c_int\<close>, \<open>c_short\<close> and so on.
  \<^item> A bit mask is a \<open>32 word\<close>.
  \<^item> A computation whose C original may have no defined result returns an \<open>option\<close>:
    \<open>None\<close> stands for undefined behaviour (an access outside a block, a null or dangling
    pointer) or, for the loops defined by \<^theory_text>\<open>partial_function\<close>, for not returning.
    Error codes are ordinary values.
\<close>

unbundle bit_operations_syntax

named_theorems mem_simps \<open>rules for checked access to byte blocks\<close>
named_theorems cint_simps \<open>rules for the C integer conversions\<close>

type_synonym byte = "8 word"
type_synonym mask = "32 word"
type_synonym block = "byte list"

section \<open>C integers\<close>

definition INT_MAX :: int where
  "INT_MAX = 2147483647"

definition INT_MIN :: int where
  "INT_MIN = - 2147483648"

definition in_int :: "int \<Rightarrow> bool" where
  "in_int x \<longleftrightarrow> INT_MIN \<le> x \<and> x \<le> INT_MAX"

text \<open>Conversion to the signed types \<open>int\<close>, \<open>short\<close>, \<open>char\<close> and to \<open>long long\<close>.\<close>

definition c_int :: "int \<Rightarrow> int" where
  "c_int x = signed_take_bit 31 x"

definition c_short :: "int \<Rightarrow> int" where
  "c_short x = signed_take_bit 15 x"

definition c_char :: "int \<Rightarrow> int" where
  "c_char x = signed_take_bit 7 x"

definition c_long :: "int \<Rightarrow> int" where
  "c_long x = signed_take_bit 63 x"

text \<open>Conversion to the unsigned types \<open>unsigned short\<close>, \<open>unsigned int\<close>, \<open>size_t\<close>.\<close>

definition c_ushort :: "int \<Rightarrow> int" where
  "c_ushort x = take_bit 16 x"

definition c_uint :: "int \<Rightarrow> int" where
  "c_uint x = take_bit 32 x"

definition c_size :: "int \<Rightarrow> int" where
  "c_size x = take_bit 64 x"

lemma signed_take_bit_id:
  "- (2 ^ n) \<le> x \<Longrightarrow> x < 2 ^ n \<Longrightarrow> signed_take_bit n x = (x :: int)"
  by (simp add: signed_take_bit_int_eq_self)

lemma c_int_id [cint_simps]: "in_int x \<Longrightarrow> c_int x = x"
  by (simp add: c_int_def in_int_def INT_MIN_def INT_MAX_def signed_take_bit_id)

lemma c_int_range: "in_int (c_int x)"
  using signed_take_bit_int_greater_eq_minus_exp [of 31 x]
    signed_take_bit_int_less_exp [of 31 x]
  by (simp add: c_int_def in_int_def INT_MIN_def INT_MAX_def)

lemma c_int_small: "0 \<le> x \<Longrightarrow> x \<le> INT_MAX \<Longrightarrow> c_int x = x"
  by (simp add: c_int_id in_int_def INT_MIN_def)

lemma c_size_id [cint_simps]: "0 \<le> x \<Longrightarrow> x < 2 ^ 64 \<Longrightarrow> c_size x = x"
  by (simp add: c_size_def take_bit_int_eq_self)

lemma c_long_id [cint_simps]: "- (2 ^ 63) \<le> x \<Longrightarrow> x < 2 ^ 63 \<Longrightarrow> c_long x = x"
  by (simp add: c_long_def signed_take_bit_id)

section \<open>Byte blocks\<close>

text \<open>
  A block is what \<open>malloc\<close> returns or an array holds: a list of bytes of fixed length.
  \<open>mem_get b off n\<close> copies \<open>n\<close> bytes out from offset \<open>off\<close>, \<open>mem_put b off bs\<close> copies
  \<open>bs\<close> in; both are undefined when the range is not inside the block.
\<close>

definition mem_get :: "block \<Rightarrow> int \<Rightarrow> int \<Rightarrow> byte list option" where
  "mem_get b off n =
     (if 0 \<le> off \<and> 0 \<le> n \<and> off + n \<le> int (length b)
      then Some (take (nat n) (drop (nat off) b)) else None)"

definition mem_put :: "block \<Rightarrow> int \<Rightarrow> byte list \<Rightarrow> block option" where
  "mem_put b off bs =
     (if 0 \<le> off \<and> off + int (length bs) \<le> int (length b)
      then Some (take (nat off) b @ bs @ drop (nat off + length bs) b) else None)"

text \<open>The bytes of \<open>b\<close> in the half-open range \<open>[i, j)\<close>.\<close>

definition slice :: "block \<Rightarrow> int \<Rightarrow> int \<Rightarrow> byte list" where
  "slice b i j = take (nat (j - i)) (drop (nat i) b)"

lemma mem_get_Some:
  "mem_get b off n = Some bs \<longleftrightarrow>
     0 \<le> off \<and> 0 \<le> n \<and> off + n \<le> int (length b) \<and> bs = slice b off (off + n)"
  by (auto simp: mem_get_def slice_def)

lemma mem_get_inside [mem_simps]:
  "0 \<le> off \<Longrightarrow> 0 \<le> n \<Longrightarrow> off + n \<le> int (length b) \<Longrightarrow>
   mem_get b off n = Some (slice b off (off + n))"
  by (simp add: mem_get_Some)

lemma mem_get_length [mem_simps]: "mem_get b off n = Some bs \<Longrightarrow> length bs = nat n"
  by (auto simp: mem_get_def split: if_splits)

lemma length_slice [mem_simps]:
  "0 \<le> i \<Longrightarrow> i \<le> j \<Longrightarrow> j \<le> int (length b) \<Longrightarrow> length (slice b i j) = nat (j - i)"
  by (simp add: slice_def)

lemma slice_empty [simp]: "j \<le> i \<Longrightarrow> slice b i j = []"
  by (simp add: slice_def)

lemma slice_append:
  assumes "0 \<le> i" "i \<le> j" "j \<le> k"
  shows "slice b i j @ slice b j k = slice b i k"
proof -
  have "nat j = nat i + nat (j - i)" and "nat (k - i) = nat (j - i) + nat (k - j)"
    using assms by simp_all
  then show ?thesis by (simp add: slice_def take_add add.commute)
qed

lemma slice_drop:
  "0 \<le> i \<Longrightarrow> 0 \<le> n \<Longrightarrow> slice b (i + n) j = drop (nat n) (slice b i j)"
  by (cases "i + n \<le> j")
     (auto simp: slice_def drop_take nat_add_distrib nat_diff_distrib add.commute)

lemma slice_take: "0 \<le> i \<Longrightarrow> i + n \<le> j \<Longrightarrow> slice b i (i + n) = take (nat n) (slice b i j)"
  by (simp add: slice_def min_def)

lemma mem_put_length [mem_simps]: "mem_put b off bs = Some b' \<Longrightarrow> length b' = length b"
  by (auto simp: mem_put_def split: if_splits)

lemma mem_put_defined:
  "(\<exists>b'. mem_put b off bs = Some b') \<longleftrightarrow> 0 \<le> off \<and> off + int (length bs) \<le> int (length b)"
  by (auto simp: mem_put_def)

lemma mem_put_same [mem_simps]:
  "mem_put b off bs = Some b' \<Longrightarrow> slice b' off (off + int (length bs)) = bs"
  by (auto simp: mem_put_def slice_def split: if_splits)

lemma mem_put_below [mem_simps]:
  assumes "mem_put b off bs = Some b'" "0 \<le> i" "j \<le> off"
  shows "slice b' i j = slice b i j"
proof (cases "i \<le> j")
  case True
  from assms have b': "b' = take (nat off) b @ bs @ drop (nat off + length bs) b"
    and off: "0 \<le> off" "off + int (length bs) \<le> int (length b)"
    by (auto simp: mem_put_def split: if_splits)
  have "nat (j - i) \<le> nat off - nat i" using True assms by simp
  then show ?thesis using b' off assms True
    by (simp add: slice_def drop_take)
qed simp

lemma mem_put_above [mem_simps]:
  assumes "mem_put b off bs = Some b'" "off + int (length bs) \<le> i"
  shows "slice b' i j = slice b i j"
proof -
  from assms have b': "b' = take (nat off) b @ bs @ drop (nat off + length bs) b"
    and off: "0 \<le> off" "off + int (length bs) \<le> int (length b)"
    by (auto simp: mem_put_def split: if_splits)
  have "nat i = nat off + (length bs + (nat i - nat off - length bs))"
    using assms off by simp
  then obtain k where k: "nat i = nat off + (length bs + k)" ..
  have "drop (nat i) b' = drop (nat i) b"
    unfolding k b' using off by (simp add: ac_simps)
  then show ?thesis by (simp add: slice_def)
qed

lemma mem_put_frame_get:
  assumes "mem_put b off bs = Some b'" "mem_get b i n = Some v"
    and "i + n \<le> off \<or> off + int (length bs) \<le> i"
  shows "mem_get b' i n = Some v"
  using assms mem_put_length [OF assms(1)]
  by (auto simp: mem_get_Some mem_put_below mem_put_above)

section \<open>Little-endian encodings\<close>

fun le_bytes :: "nat \<Rightarrow> int \<Rightarrow> byte list" where
  "le_bytes 0 v = []"
| "le_bytes (Suc n) v = word_of_int v # le_bytes n (v div 256)"

fun le_val :: "byte list \<Rightarrow> int" where
  "le_val [] = 0"
| "le_val (b # bs) = uint b + 256 * le_val bs"

lemma length_le_bytes [simp]: "length (le_bytes n v) = n"
  by (induction n arbitrary: v) auto

lemma le_val_le_bytes: "le_val (le_bytes n v) = v mod 256 ^ n"
proof (induction n arbitrary: v)
  case (Suc n)
  have "v mod (256 * 256 ^ n) = v mod 256 + 256 * (v div 256 mod 256 ^ n)"
    by (simp add: zmod_zmult2_eq add.commute)
  with Suc show ?case by (simp add: uint_word_of_int)
qed simp

lemma le_bytes_numeral:
  "le_bytes (numeral k) v = word_of_int v # le_bytes (pred_numeral k) (v div 256)"
  by (simp add: numeral_eq_Suc)

lemma le_val_nonneg: "0 \<le> le_val bs"
  by (induction bs) auto

lemma le_val_bound: "le_val bs < 256 ^ length bs"
proof (induction bs)
  case (Cons b bs)
  have "uint b < 256" using uint_lt2p [of b] by simp
  moreover have "256 * (le_val bs + 1) \<le> 256 * 256 ^ length bs"
    using Cons by simp
  ultimately show ?case by simp
qed simp

lemma le_bytes_le_val: "le_bytes (length bs) (le_val bs) = bs"
proof (induction bs)
  case (Cons b bs)
  have b: "uint b < 256" "0 \<le> uint b" using uint_lt2p [of b] by simp_all
  then have "(uint b + 256 * le_val bs) div 256 = le_val bs" by simp
  moreover have "word_of_int (uint b + 256 * le_val bs) = b"
  proof -
    have "(word_of_int (256 * le_val bs) :: byte) = 0"
      by (simp only: word_of_int_eq_0_iff) simp
    then show ?thesis by (simp add: wi_hom_add [symmetric])
  qed
  ultimately show ?case using Cons by simp
qed simp

lemma signed_take_bit_mod: "signed_take_bit n (v mod 2 ^ Suc n) = signed_take_bit n (v :: int)"
  by (simp only: take_bit_eq_mod [symmetric]) (simp add: signed_take_bit_eq_iff_take_bit_eq)

lemma c_int_wrap:
  assumes "INT_MAX < x" "x \<le> INT_MAX + 2147483648"
  shows "c_int x = x - 4294967296"
proof -
  have "x mod 2 ^ Suc 31 = (x - 4294967296) mod 2 ^ Suc 31"
    using minus_mod_self2 [of x "4294967296 :: int"] by simp
  then have "c_int x = c_int (x - 4294967296)"
    using signed_take_bit_mod [of 31 x] signed_take_bit_mod [of 31 "x - 4294967296"] by (simp add: c_int_def)
  also have "\<dots> = x - 4294967296"
    using assms by (intro c_int_id) (simp add: in_int_def INT_MAX_def INT_MIN_def)
  finally show ?thesis .
qed

lemma le_int32_roundtrip: "c_int (le_val (le_bytes 4 v)) = c_int v"
  using signed_take_bit_mod [of 31 v] by (simp add: le_val_le_bytes c_int_def)

lemma le_int64_roundtrip: "c_long (le_val (le_bytes 8 v)) = c_long v"
  using signed_take_bit_mod [of 63 v] by (simp add: le_val_le_bytes c_long_def)

section \<open>NUL-terminated strings\<close>

text \<open>
  \<open>strlen b off\<close> is C's \<open>strlen(b + off)\<close>: undefined when the block ends before a NUL.
  A C string value is a byte list without NUL; its storage is the list followed by a zero.
\<close>

definition strlen :: "block \<Rightarrow> int \<Rightarrow> int option" where
  "strlen b off =
     (if 0 \<le> off \<and> 0 \<in> set (drop (nat off) b)
      then Some (int (length (takeWhile (\<lambda>c. c \<noteq> 0) (drop (nat off) b)))) else None)"

definition cstring_ok :: "byte list \<Rightarrow> bool" where
  "cstring_ok s \<longleftrightarrow> 0 \<notin> set s"

lemma strlen_nonneg: "strlen b off = Some n \<Longrightarrow> 0 \<le> n"
  by (auto simp: strlen_def split: if_splits)

section \<open>Values a Lua binding returns\<close>

text \<open>
  A C function called from Lua pushes values and returns how many of them are its results; a
  binding of the model returns both. Its arguments are what \<open>lua_tointeger\<close> and the like
  returned for the stack slots, before the conversions the C code makes.
\<close>

datatype 'p lua_value =
    LNil
  | LBool bool
  | LInt int
  | LStr "byte list"
  | LPtr 'p

type_synonym 'p lua_out = "'p lua_value list \<times> int"

section \<open>The slots of a C function\<close>

text \<open>
  A C function that is called from Lua has \<open>LUA_MINSTACK\<close> slots above its arguments. The bindings
  never call \<open>lua_checkstack\<close>, so a push above these slots is undefined: \<open>lua_pushed ctop st\<close> is the
  stack \<open>st\<close>, with its top in front, after one or more pushes, when it has no more than \<open>ctop\<close> values.
\<close>

definition LUA_MINSTACK :: nat where "LUA_MINSTACK = 20"

definition frame_top :: "'v list \<Rightarrow> nat" where
  "frame_top args = length args + LUA_MINSTACK"

definition lua_pushed :: "nat \<Rightarrow> 'v list \<Rightarrow> 'v list option" where
  "lua_pushed ctop st = (if length st \<le> ctop then Some st else None)"

lemma lua_pushed_fits [simp]: "length st \<le> ctop \<Longrightarrow> lua_pushed ctop st = Some st"
  by (simp add: lua_pushed_def)

end
