(* ===== verification/Os.thy ===== *)
theory Os
  imports Prelude
begin

text \<open>
  The operating system as a parameter of the model. The world is a type variable \<open>'w\<close>; every
  system or C library call whose result the program does not determine is a function of the
  world, a field of the record \<open>os\<close>. Nothing is assumed of these fields here: a theorem that
  relies on documented behaviour of a call states it as a hypothesis.
\<close>

text \<open>A \<open>struct timeval\<close>: seconds and microseconds.\<close>

record timeval =
  tv_sec :: int
  tv_usec :: int

text \<open>The operations of \<open>epoll_ctl\<close>.\<close>

datatype epoll_op = EPOLL_CTL_ADD | EPOLL_CTL_MOD | EPOLL_CTL_DEL

text \<open>
  \<^item> \<open>os_malloc os n w\<close>: whether \<open>malloc(n)\<close> succeeds, and the world after; \<open>os_free\<close>.
  \<^item> \<open>os_junk os w i\<close>: the indeterminate contents of freshly allocated memory.
  \<^item> \<open>os_time\<close>, \<open>os_gettimeofday\<close> (seconds and microseconds).
  \<^item> \<open>os_select os nfds r w tv\<close>: the return value and the two descriptor sets after the call.
  \<^item> \<open>os_epoll_create\<close>, \<open>os_epoll_ctl os epfd op fd events\<close> and
    \<open>os_epoll_wait os epfd maxevents timeout\<close>, which returns the return value and the
    \<open>struct epoll_event\<close>s written, as pairs of a descriptor and an event mask.
  \<^item> \<open>os_poll os fd events timeout\<close>: the return value and \<open>revents\<close>.
  \<^item> \<open>os_close os fd\<close>.
\<close>

record 'w os =
  os_malloc :: "int \<Rightarrow> 'w \<Rightarrow> bool \<times> 'w"
  os_free :: "'w \<Rightarrow> 'w"
  os_junk :: "'w \<Rightarrow> nat \<Rightarrow> mask"
  os_time :: "'w \<Rightarrow> int \<times> 'w"
  os_gettimeofday :: "'w \<Rightarrow> (int \<times> int) \<times> 'w"
  os_select :: "int \<Rightarrow> int set \<Rightarrow> int set \<Rightarrow> timeval option \<Rightarrow> 'w \<Rightarrow> (int \<times> int set \<times> int set) \<times> 'w"
  os_epoll_create :: "'w \<Rightarrow> int \<times> 'w"
  os_epoll_ctl :: "int \<Rightarrow> epoll_op \<Rightarrow> int \<Rightarrow> mask \<Rightarrow> 'w \<Rightarrow> int \<times> 'w"
  os_epoll_wait :: "int \<Rightarrow> int \<Rightarrow> int \<Rightarrow> 'w \<Rightarrow> (int \<times> (int \<times> mask) list) \<times> 'w"
  os_poll :: "int \<Rightarrow> mask \<Rightarrow> int \<Rightarrow> 'w \<Rightarrow> (int \<times> mask) \<times> 'w"
  os_close :: "int \<Rightarrow> 'w \<Rightarrow> 'w"

end
