(* ===== verification/Ae.thy ===== *)
theory Ae
  imports Os
begin

text \<open>
  The event loop of \<open>src/src/ae/ae.h\<close> and \<open>src/src/ae/ae.cc\<close>.

  \<open>aeEventLoop\<close> is the loop's record; the file events are a list indexed by descriptor and the
  time events a list in the order of the linked list (a new event is pushed at its head), in
  which an event's identifier stands for its address. Function pointers are values of a type
  \<open>'p\<close>, interpreted by the record \<open>procs\<close>; \<open>void *\<close> client data is a type \<open>'c\<close>. The
  multiplexing layer that \<open>ae.cc\<close> includes textually is the record \<open>ae_api\<close>; its providers
  are the theories \<open>Ae_Select\<close> and \<open>Ae_Epoll\<close>, and the laws the loop relies on are the
  locale \<open>ae_multiplexer\<close>.
\<close>

section \<open>Constants and data\<close>

definition AE_OK :: int where "AE_OK = 0"
definition AE_ERR :: int where "AE_ERR = - 1"
definition AE_NONE :: mask where "AE_NONE = 0"
definition AE_READABLE :: mask where "AE_READABLE = 1"
definition AE_WRITABLE :: mask where "AE_WRITABLE = 2"
definition AE_FILE_EVENTS :: mask where "AE_FILE_EVENTS = 1"
definition AE_TIME_EVENTS :: mask where "AE_TIME_EVENTS = 2"
definition AE_ALL_EVENTS :: mask where "AE_ALL_EVENTS = (AE_FILE_EVENTS OR AE_TIME_EVENTS)"
definition AE_DONT_WAIT :: mask where "AE_DONT_WAIT = 4"
definition AE_NOMORE :: int where "AE_NOMORE = - 1"

lemmas ae_consts = AE_OK_def AE_ERR_def AE_NONE_def AE_READABLE_def AE_WRITABLE_def
  AE_FILE_EVENTS_def AE_TIME_EVENTS_def AE_ALL_EVENTS_def AE_DONT_WAIT_def AE_NOMORE_def

text \<open>
  A C test \<open>if (x & y)\<close>. \<open>None\<close> in a pointer field of a file event means that the field has
  not been written since the array was allocated.
\<close>

definition has :: "mask \<Rightarrow> mask \<Rightarrow> bool" where
  "has x y \<longleftrightarrow> x AND y \<noteq> 0"

record ('p, 'c) aeFileEvent =
  fe_mask :: mask
  rfileProc :: "'p option"
  wfileProc :: "'p option"
  fe_clientData :: "'c option"

text \<open>A \<open>None\<close> finalizer is the null pointer.\<close>

record ('p, 'c) aeTimeEvent =
  te_id :: int
  when_sec :: int
  when_ms :: int
  timeProc :: 'p
  finalizerProc :: "'p option"
  te_clientData :: 'c

record aeFiredEvent =
  fired_fd :: int
  fired_mask :: mask

record ('p, 'c, 'a) aeEventLoop =
  maxfd :: int
  setsize :: int
  timeEventNextId :: int
  lastTime :: int
  events :: "('p, 'c) aeFileEvent list"
  fired :: "aeFiredEvent option list"
  timeEventHead :: "('p, 'c) aeTimeEvent list"
  stop :: bool
  apidata :: "'a option"
  beforesleep :: "'p option"

text \<open>What calling a function pointer does: the effect on the loop and on the world.\<close>

record ('p, 'c, 'a, 'w) procs =
  call_file :: "'p \<Rightarrow> ('p, 'c, 'a) aeEventLoop \<Rightarrow> int \<Rightarrow> 'c \<Rightarrow> mask \<Rightarrow> 'w
    \<Rightarrow> (('p, 'c, 'a) aeEventLoop \<times> 'w) option"
  call_time :: "'p \<Rightarrow> ('p, 'c, 'a) aeEventLoop \<Rightarrow> int \<Rightarrow> 'c \<Rightarrow> 'w
    \<Rightarrow> (int \<times> ('p, 'c, 'a) aeEventLoop \<times> 'w) option"
  call_final :: "'p \<Rightarrow> ('p, 'c, 'a) aeEventLoop \<Rightarrow> 'c \<Rightarrow> 'w
    \<Rightarrow> (('p, 'c, 'a) aeEventLoop \<times> 'w) option"
  call_before :: "'p \<Rightarrow> ('p, 'c, 'a) aeEventLoop \<Rightarrow> 'w
    \<Rightarrow> (('p, 'c, 'a) aeEventLoop \<times> 'w) option"

text \<open>The multiplexing layer: \<open>aeApiCreate\<close>, \<open>aeApiFree\<close>, \<open>aeApiAddEvent\<close>,
  \<open>aeApiDelEvent\<close>, \<open>aeApiPoll\<close>, \<open>aeApiName\<close>.\<close>

record ('p, 'c, 'a, 'w) ae_api =
  api_create :: "('p, 'c, 'a) aeEventLoop \<Rightarrow> 'w \<Rightarrow> int \<times> ('p, 'c, 'a) aeEventLoop \<times> 'w"
  api_free :: "('p, 'c, 'a) aeEventLoop \<Rightarrow> 'w \<Rightarrow> 'w option"
  api_add :: "('p, 'c, 'a) aeEventLoop \<Rightarrow> int \<Rightarrow> mask \<Rightarrow> 'w
    \<Rightarrow> (int \<times> ('p, 'c, 'a) aeEventLoop \<times> 'w) option"
  api_del :: "('p, 'c, 'a) aeEventLoop \<Rightarrow> int \<Rightarrow> mask \<Rightarrow> 'w
    \<Rightarrow> (('p, 'c, 'a) aeEventLoop \<times> 'w) option"
  api_poll :: "('p, 'c, 'a) aeEventLoop \<Rightarrow> timeval option \<Rightarrow> 'w
    \<Rightarrow> (int \<times> ('p, 'c, 'a) aeEventLoop \<times> 'w) option"
  api_name :: string

section \<open>Creating and deleting the loop\<close>

definition SIZEOF_aeEventLoop :: int where "SIZEOF_aeEventLoop = 80"
definition SIZEOF_aeFileEvent :: int where "SIZEOF_aeFileEvent = 32"
definition SIZEOF_aeFiredEvent :: int where "SIZEOF_aeFiredEvent = 8"
definition SIZEOF_aeTimeEvent :: int where "SIZEOF_aeTimeEvent = 56"

definition aeCreateEventLoop ::
  "'w os \<Rightarrow> ('p, 'c, 'a, 'w) ae_api \<Rightarrow> int \<Rightarrow> 'w \<Rightarrow> ('p, 'c, 'a) aeEventLoop option \<times> 'w" where
  "aeCreateEventLoop os api sz w =
     (let (ok, w) = os_malloc os SIZEOF_aeEventLoop w in
      if \<not> ok then (None, w)
      else
        let (ok_events, w) = os_malloc os (c_size (SIZEOF_aeFileEvent * sz)) w;
            (ok_fired, w) = os_malloc os (c_size (SIZEOF_aeFiredEvent * sz)) w
        in
        if \<not> ok_events \<or> \<not> ok_fired then (None, os_free os (os_free os (os_free os w)))
        else
          let (t, w) = os_time os w;
              l = \<lparr>maxfd = - 1, setsize = sz, timeEventNextId = 0, lastTime = t,
                   events = map (\<lambda>i. \<lparr>fe_mask = os_junk os w i, rfileProc = None,
                                      wfileProc = None, fe_clientData = None\<rparr>) [0..<nat sz],
                   fired = replicate (nat sz) None, timeEventHead = [], stop = False,
                   apidata = None, beforesleep = None\<rparr>;
              (r, l, w) = api_create api l w
          in
          if r = - 1 then (None, os_free os (os_free os (os_free os w)))
          else (Some (l\<lparr>events := map (\<lambda>fe. fe\<lparr>fe_mask := AE_NONE\<rparr>) (events l)\<rparr>), w))"

definition aeDeleteEventLoop ::
  "'w os \<Rightarrow> ('p, 'c, 'a, 'w) ae_api \<Rightarrow> ('p, 'c, 'a) aeEventLoop \<Rightarrow> 'w \<Rightarrow> 'w option" where
  "aeDeleteEventLoop os api l w =
     do { w \<leftarrow> api_free api l w; Some (os_free os (os_free os (os_free os w))) }"

definition aeStop :: "('p, 'c, 'a) aeEventLoop \<Rightarrow> ('p, 'c, 'a) aeEventLoop" where
  "aeStop l = l\<lparr>stop := True\<rparr>"

section \<open>File events\<close>

text \<open>\<open>eventLoop->events[fd]\<close>: undefined outside the array.\<close>

definition event_at :: "('p, 'c, 'a) aeEventLoop \<Rightarrow> int \<Rightarrow> ('p, 'c) aeFileEvent option" where
  "event_at l fd = (if 0 \<le> fd \<and> nat fd < length (events l) then Some (events l ! nat fd) else None)"

definition aeCreateFileEvent ::
  "('p, 'c, 'a, 'w) ae_api \<Rightarrow> ('p, 'c, 'a) aeEventLoop \<Rightarrow> int \<Rightarrow> mask \<Rightarrow> 'p \<Rightarrow> 'c \<Rightarrow> 'w
    \<Rightarrow> (int \<times> ('p, 'c, 'a) aeEventLoop \<times> 'w) option" where
  "aeCreateFileEvent api l fd m proc cd w =
     (if setsize l \<le> fd then Some (AE_ERR, l, w)
      else do {
        _ \<leftarrow> event_at l fd;
        (r, l, w) \<leftarrow> api_add api l fd m w;
        if r = - 1 then Some (AE_ERR, l, w)
        else do {
          fe \<leftarrow> event_at l fd;
          let fe = fe\<lparr>fe_mask := fe_mask fe OR m\<rparr>;
          let fe = (if has m AE_READABLE then fe\<lparr>rfileProc := Some proc\<rparr> else fe);
          let fe = (if has m AE_WRITABLE then fe\<lparr>wfileProc := Some proc\<rparr> else fe);
          let fe = fe\<lparr>fe_clientData := Some cd\<rparr>;
          let l = l\<lparr>events := (events l)[nat fd := fe]\<rparr>;
          let l = (if maxfd l < fd then l\<lparr>maxfd := fd\<rparr> else l);
          Some (AE_OK, l, w)
        }
      })"

text \<open>The loop that looks for the next lower registered descriptor, from \<open>j - 1\<close> down.\<close>

fun scan_maxfd :: "('p, 'c) aeFileEvent list \<Rightarrow> nat \<Rightarrow> int" where
  "scan_maxfd evs 0 = - 1"
| "scan_maxfd evs (Suc j) = (if fe_mask (evs ! j) \<noteq> AE_NONE then int j else scan_maxfd evs j)"

definition aeDeleteFileEvent ::
  "('p, 'c, 'a, 'w) ae_api \<Rightarrow> ('p, 'c, 'a) aeEventLoop \<Rightarrow> int \<Rightarrow> mask \<Rightarrow> 'w
    \<Rightarrow> (('p, 'c, 'a) aeEventLoop \<times> 'w) option" where
  "aeDeleteFileEvent api l fd m w =
     (if setsize l \<le> fd then Some (l, w)
      else do {
        fe \<leftarrow> event_at l fd;
        if fe_mask fe = AE_NONE then Some (l, w)
        else do {
          let fe = fe\<lparr>fe_mask := fe_mask fe AND NOT m\<rparr>;
          let l = l\<lparr>events := (events l)[nat fd := fe]\<rparr>;
          let l = (if fd = maxfd l \<and> fe_mask fe = AE_NONE
                   then l\<lparr>maxfd := scan_maxfd (events l) (nat (maxfd l))\<rparr> else l);
          api_del api l fd m w
        }
      })"

definition aeGetFileEvents :: "('p, 'c, 'a) aeEventLoop \<Rightarrow> int \<Rightarrow> mask option" where
  "aeGetFileEvents l fd =
     (if setsize l \<le> fd then Some 0 else do { fe \<leftarrow> event_at l fd; Some (fe_mask fe) })"

section \<open>Time events\<close>

definition aeGetTime :: "'w os \<Rightarrow> 'w \<Rightarrow> (int \<times> int) \<times> 'w" where
  "aeGetTime os w =
     (let ((sec, usec), w) = os_gettimeofday os w in ((sec, usec sdiv 1000), w))"

definition aeAddMillisecondsToNow :: "'w os \<Rightarrow> int \<Rightarrow> 'w \<Rightarrow> (int \<times> int) \<times> 'w" where
  "aeAddMillisecondsToNow os ms w =
     (let ((cur_sec, cur_ms), w) = aeGetTime os w;
          sec = cur_sec + ms sdiv 1000;
          msec = cur_ms + ms smod 1000
      in if 1000 \<le> msec then ((sec + 1, msec - 1000), w) else ((sec, msec), w))"

definition aeCreateTimeEvent ::
  "'w os \<Rightarrow> ('p, 'c, 'a) aeEventLoop \<Rightarrow> int \<Rightarrow> 'p \<Rightarrow> 'c \<Rightarrow> 'p option \<Rightarrow> 'w
    \<Rightarrow> int \<times> ('p, 'c, 'a) aeEventLoop \<times> 'w" where
  "aeCreateTimeEvent os l ms proc cd fin w =
     (let i = timeEventNextId l;
          l = l\<lparr>timeEventNextId := timeEventNextId l + 1\<rparr>;
          (ok, w) = os_malloc os SIZEOF_aeTimeEvent w
      in if \<not> ok then (AE_ERR, l, w)
         else
           let ((sec, msec), w) = aeAddMillisecondsToNow os ms w;
               te = \<lparr>te_id = i, when_sec = sec, when_ms = msec, timeProc = proc,
                     finalizerProc = fin, te_clientData = cd\<rparr>
           in (i, l\<lparr>timeEventHead := te # timeEventHead l\<rparr>, w))"

text \<open>The traversal with \<open>prev\<close>: the first event with the identifier, and the list without it.\<close>

fun unlink :: "int \<Rightarrow> ('p, 'c) aeTimeEvent list
    \<Rightarrow> (('p, 'c) aeTimeEvent \<times> ('p, 'c) aeTimeEvent list) option" where
  "unlink i [] = None"
| "unlink i (te # ts) =
     (if te_id te = i then Some (te, ts)
      else map_option (\<lambda>(t, rest). (t, te # rest)) (unlink i ts))"

definition aeDeleteTimeEvent ::
  "'w os \<Rightarrow> ('p, 'c, 'a, 'w) procs \<Rightarrow> ('p, 'c, 'a) aeEventLoop \<Rightarrow> int \<Rightarrow> 'w
    \<Rightarrow> (int \<times> ('p, 'c, 'a) aeEventLoop \<times> 'w) option" where
  "aeDeleteTimeEvent os P l i w =
     (case unlink i (timeEventHead l) of
        None \<Rightarrow> Some (AE_ERR, l, w)
      | Some (te, rest) \<Rightarrow>
          let l = l\<lparr>timeEventHead := rest\<rparr> in
          (case finalizerProc te of
             None \<Rightarrow> Some (AE_OK, l, os_free os w)
           | Some f \<Rightarrow> do { (l, w) \<leftarrow> call_final P f l (te_clientData te) w;
                          Some (AE_OK, l, os_free os w) }))"

text \<open>Whether \<open>te\<close> is due before \<open>n\<close>, and the scan for the nearest timer.\<close>

definition te_before :: "('p, 'c) aeTimeEvent \<Rightarrow> ('p, 'c) aeTimeEvent \<Rightarrow> bool" where
  "te_before te n \<longleftrightarrow>
     when_sec te < when_sec n \<or> when_sec te = when_sec n \<and> when_ms te < when_ms n"

fun search_nearest :: "('p, 'c) aeTimeEvent list \<Rightarrow> ('p, 'c) aeTimeEvent option
    \<Rightarrow> ('p, 'c) aeTimeEvent option" where
  "search_nearest [] nearest = nearest"
| "search_nearest (te # ts) None = search_nearest ts (Some te)"
| "search_nearest (te # ts) (Some n) = search_nearest ts (Some (if te_before te n then te else n))"

definition aeSearchNearestTimer ::
  "('p, 'c, 'a) aeEventLoop \<Rightarrow> ('p, 'c) aeTimeEvent option" where
  "aeSearchNearestTimer l = search_nearest (timeEventHead l) None"

section \<open>Processing events\<close>

text \<open>
  \<open>aeAddMillisecondsToNow(retval, &te->when_sec, &te->when_ms)\<close> after the callback: it writes
  through \<open>te\<close>, so the event must still be in the list (the callback may have deleted it,
  and then the write is to freed memory).
\<close>

definition te_set_when :: "('p, 'c) aeTimeEvent list \<Rightarrow> int \<Rightarrow> int \<Rightarrow> int
    \<Rightarrow> ('p, 'c) aeTimeEvent list option" where
  "te_set_when ts i sec msec =
     (if i \<in> te_id ` set ts
      then Some (map (\<lambda>te. if te_id te = i then te\<lparr>when_sec := sec, when_ms := msec\<rparr> else te) ts)
      else None)"

definition rearm_or_delete ::
  "'w os \<Rightarrow> ('p, 'c, 'a, 'w) procs \<Rightarrow> int \<Rightarrow> int \<Rightarrow> ('p, 'c, 'a) aeEventLoop \<Rightarrow> 'w
    \<Rightarrow> (('p, 'c, 'a) aeEventLoop \<times> 'w) option" where
  "rearm_or_delete os P i retval l w =
     (if retval \<noteq> AE_NOMORE
      then
        (let ((sec, msec), w) = aeAddMillisecondsToNow os retval w in
         do { ts \<leftarrow> te_set_when (timeEventHead l) i sec msec;
              Some (l\<lparr>timeEventHead := ts\<rparr>, w) })
      else do { (r, l, w) \<leftarrow> aeDeleteTimeEvent os P l i w; Some (l, w) })"

definition te_due :: "int \<Rightarrow> int \<Rightarrow> ('p, 'c) aeTimeEvent \<Rightarrow> bool" where
  "te_due now_sec now_ms te \<longleftrightarrow>
     when_sec te < now_sec \<or> now_sec = when_sec te \<and> when_ms te \<le> now_ms"

text \<open>
  The \<open>while (te)\<close> loop: \<open>ts\<close> is the list from the current event on. After a callback the
  scan restarts from the head of the list.
\<close>

partial_function (option) time_loop ::
  "'w os \<Rightarrow> ('p, 'c, 'a, 'w) procs \<Rightarrow> int \<Rightarrow> int \<Rightarrow> int \<Rightarrow> ('p, 'c) aeTimeEvent list
    \<Rightarrow> ('p, 'c, 'a) aeEventLoop \<Rightarrow> 'w \<Rightarrow> int \<Rightarrow> (int \<times> ('p, 'c, 'a) aeEventLoop \<times> 'w) option" where
  "time_loop os P maxId now_sec now_ms ts l w n =
     (case ts of
        [] \<Rightarrow> Some (n, l, w)
      | te # rest \<Rightarrow>
          if maxId < te_id te then time_loop os P maxId now_sec now_ms rest l w n
          else if te_due now_sec now_ms te then
            Option.bind (call_time P (timeProc te) l (te_id te) (te_clientData te) w)
              (\<lambda>(retval, l, w).
                Option.bind (rearm_or_delete os P (te_id te) retval l w)
                  (\<lambda>(l, w). time_loop os P maxId now_sec now_ms (timeEventHead l) l w (n + 1)))
          else time_loop os P maxId now_sec now_ms rest l w n)"

definition processTimeEvents ::
  "'w os \<Rightarrow> ('p, 'c, 'a, 'w) procs \<Rightarrow> ('p, 'c, 'a) aeEventLoop \<Rightarrow> 'w
    \<Rightarrow> (int \<times> ('p, 'c, 'a) aeEventLoop \<times> 'w) option" where
  "processTimeEvents os P l w =
     (let (now, w) = os_time os w;
          l = (if now < lastTime l
               then l\<lparr>timeEventHead := map (\<lambda>te. te\<lparr>when_sec := 0\<rparr>) (timeEventHead l)\<rparr> else l);
          l = l\<lparr>lastTime := now\<rparr>;
          maxId = timeEventNextId l - 1;
          ((now_sec, now_ms), w) = aeGetTime os w
      in time_loop os P maxId now_sec now_ms (timeEventHead l) l w 0)"

text \<open>The time the poll may sleep: until the nearest timer, not at all, or for ever.\<close>

definition timer_timeout :: "('p, 'c) aeTimeEvent \<Rightarrow> int \<Rightarrow> int \<Rightarrow> timeval" where
  "timer_timeout shortest now_sec now_ms =
     (let sec = when_sec shortest - now_sec;
          (sec, usec) = (if when_ms shortest < now_ms
                         then (sec - 1, (when_ms shortest + 1000 - now_ms) * 1000)
                         else (sec, (when_ms shortest - now_ms) * 1000));
          sec = (if sec < 0 then 0 else sec);
          usec = (if usec < 0 then 0 else usec)
      in \<lparr>tv_sec = sec, tv_usec = usec\<rparr>)"

definition poll_timeout ::
  "'w os \<Rightarrow> ('p, 'c, 'a) aeEventLoop \<Rightarrow> mask \<Rightarrow> 'w \<Rightarrow> timeval option \<times> 'w" where
  "poll_timeout os l flags w =
     (let shortest = (if has flags AE_TIME_EVENTS \<and> \<not> has flags AE_DONT_WAIT
                      then aeSearchNearestTimer l else None)
      in case shortest of
           Some te \<Rightarrow>
             (let ((now_sec, now_ms), w) = aeGetTime os w
              in (Some (timer_timeout te now_sec now_ms), w))
         | None \<Rightarrow>
             if has flags AE_DONT_WAIT then (Some \<lparr>tv_sec = 0, tv_usec = 0\<rparr>, w)
             else (None, w))"

definition fired_at :: "('p, 'c, 'a) aeEventLoop \<Rightarrow> nat \<Rightarrow> aeFiredEvent option" where
  "fired_at l j = (if j < length (fired l) then fired l ! j else None)"

text \<open>
  The body of the loop over the fired events. The file event is read again after the read
  callback, which may have changed it.
\<close>

definition dispatch ::
  "('p, 'c, 'a, 'w) procs \<Rightarrow> nat \<Rightarrow> ('p, 'c, 'a) aeEventLoop \<Rightarrow> 'w
    \<Rightarrow> (('p, 'c, 'a) aeEventLoop \<times> 'w) option" where
  "dispatch P j l w =
     do {
       f \<leftarrow> fired_at l j;
       let fd = fired_fd f;
       let m = fired_mask f;
       fe \<leftarrow> event_at l fd;
       (rfired, l, w) \<leftarrow>
         (if has (fe_mask fe AND m) AE_READABLE
          then do { p \<leftarrow> rfileProc fe; c \<leftarrow> fe_clientData fe;
                    (l, w) \<leftarrow> call_file P p l fd c m w; Some (True, l, w) }
          else Some (False, l, w));
       fe \<leftarrow> event_at l fd;
       if has (fe_mask fe AND m) AE_WRITABLE
       then (if \<not> rfired \<or> wfileProc fe \<noteq> rfileProc fe
             then do { p \<leftarrow> wfileProc fe; c \<leftarrow> fe_clientData fe; call_file P p l fd c m w }
             else Some (l, w))
       else Some (l, w)
     }"

text \<open>\<open>file_loop P j k\<close> runs the iterations \<open>j\<close>, \dots, \<open>j + k - 1\<close>.\<close>

fun file_loop ::
  "('p, 'c, 'a, 'w) procs \<Rightarrow> nat \<Rightarrow> nat \<Rightarrow> ('p, 'c, 'a) aeEventLoop \<Rightarrow> 'w
    \<Rightarrow> (('p, 'c, 'a) aeEventLoop \<times> 'w) option" where
  "file_loop P j 0 l w = Some (l, w)"
| "file_loop P j (Suc k) l w = do { (l, w) \<leftarrow> dispatch P j l w; file_loop P (Suc j) k l w }"

definition aeProcessEvents ::
  "'w os \<Rightarrow> ('p, 'c, 'a, 'w) ae_api \<Rightarrow> ('p, 'c, 'a, 'w) procs \<Rightarrow> ('p, 'c, 'a) aeEventLoop
    \<Rightarrow> mask \<Rightarrow> 'w \<Rightarrow> (int \<times> ('p, 'c, 'a) aeEventLoop \<times> 'w) option" where
  "aeProcessEvents os api P l flags w =
     (if \<not> has flags AE_TIME_EVENTS \<and> \<not> has flags AE_FILE_EVENTS then Some (0, l, w)
      else do {
        (processed, l, w) \<leftarrow>
          (if maxfd l \<noteq> - 1 \<or> has flags AE_TIME_EVENTS \<and> \<not> has flags AE_DONT_WAIT
           then
             (let (tvp, w) = poll_timeout os l flags w in
              do {
                (numevents, l, w) \<leftarrow> api_poll api l tvp w;
                (l, w) \<leftarrow> file_loop P 0 (nat numevents) l w;
                Some (max 0 numevents, l, w)
              })
           else Some (0, l, w));
        if has flags AE_TIME_EVENTS
        then do { (n, l, w) \<leftarrow> processTimeEvents os P l w; Some (processed + n, l, w) }
        else Some (processed, l, w)
      })"

definition POLLIN :: mask where "POLLIN = 1"
definition POLLOUT :: mask where "POLLOUT = 4"
definition POLLERR :: mask where "POLLERR = 8"
definition POLLHUP :: mask where "POLLHUP = 16"

text \<open>The timeout of \<open>poll\<close> is an \<open>int\<close>: the \<open>long long\<close> argument is converted.\<close>

definition aeWait :: "'w os \<Rightarrow> int \<Rightarrow> mask \<Rightarrow> int \<Rightarrow> 'w \<Rightarrow> int \<times> 'w" where
  "aeWait os fd m milliseconds w =
     (let evs = (if has m AE_READABLE then POLLIN else 0)
                OR (if has m AE_WRITABLE then POLLOUT else 0);
          ((retval, revents), w) = os_poll os fd evs (c_int milliseconds) w
      in if retval = 1
         then (uint ((if has revents POLLIN then AE_READABLE else 0)
                     OR (if has revents POLLOUT then AE_WRITABLE else 0)
                     OR (if has revents POLLERR then AE_WRITABLE else 0)
                     OR (if has revents POLLHUP then AE_WRITABLE else 0)), w)
         else (retval, w))"

definition aeOnce ::
  "'w os \<Rightarrow> ('p, 'c, 'a, 'w) ae_api \<Rightarrow> ('p, 'c, 'a, 'w) procs \<Rightarrow> ('p, 'c, 'a) aeEventLoop
    \<Rightarrow> 'w \<Rightarrow> (('p, 'c, 'a) aeEventLoop \<times> 'w) option" where
  "aeOnce os api P l w =
     do { (n, l, w) \<leftarrow> aeProcessEvents os api P l (AE_ALL_EVENTS OR AE_DONT_WAIT) w; Some (l, w) }"

partial_function (option) main_loop ::
  "'w os \<Rightarrow> ('p, 'c, 'a, 'w) ae_api \<Rightarrow> ('p, 'c, 'a, 'w) procs \<Rightarrow> ('p, 'c, 'a) aeEventLoop
    \<Rightarrow> 'w \<Rightarrow> (('p, 'c, 'a) aeEventLoop \<times> 'w) option" where
  "main_loop os api P l w =
     (if stop l then Some (l, w)
      else
        Option.bind (case beforesleep l of None \<Rightarrow> Some (l, w) | Some b \<Rightarrow> call_before P b l w)
          (\<lambda>(l, w). Option.bind (aeProcessEvents os api P l AE_ALL_EVENTS w)
            (\<lambda>(n, l, w). main_loop os api P l w)))"

definition aeMain ::
  "'w os \<Rightarrow> ('p, 'c, 'a, 'w) ae_api \<Rightarrow> ('p, 'c, 'a, 'w) procs \<Rightarrow> ('p, 'c, 'a) aeEventLoop
    \<Rightarrow> 'w \<Rightarrow> (('p, 'c, 'a) aeEventLoop \<times> 'w) option" where
  "aeMain os api P l w = main_loop os api P (l\<lparr>stop := False\<rparr>) w"

definition aeGetApiName :: "('p, 'c, 'a, 'w) ae_api \<Rightarrow> string" where
  "aeGetApiName api = api_name api"

definition aeSetBeforeSleepProc ::
  "('p, 'c, 'a) aeEventLoop \<Rightarrow> 'p option \<Rightarrow> ('p, 'c, 'a) aeEventLoop" where
  "aeSetBeforeSleepProc l b = l\<lparr>beforesleep := b\<rparr>"

end
