(* ===== verification/Ae_Laws.thy ===== *)
theory Ae_Laws
  imports Ae
begin

text \<open>
  Well-formed event loops and the contract of the multiplexing layer.

  \<open>ae_wf\<close> is the representation invariant of \<open>aeEventLoop\<close>. The locale \<open>ae_frame\<close> says
  which fields a layer may write; it is enough for every operation of the loop to keep
  \<open>ae_wf\<close>. The locale \<open>ae_multiplexer\<close> adds what the layer watches: after every operation
  of the loop the layer watches exactly the registered masks (\<open>synced\<close>).
\<close>

section \<open>Masks\<close>

lemma has_readable: "has m AE_READABLE \<longleftrightarrow> bit m 0"
  by (simp add: has_def AE_READABLE_def and_one_eq even_iff_mod_2_eq_zero [symmetric] bit_0)

lemma has_writable: "has m AE_WRITABLE \<longleftrightarrow> bit m 1"
proof -
  have "m AND 2 = 0 \<longleftrightarrow> \<not> bit m 1"
    using and_exp_eq_0_iff_not_bit [of m 1] by simp
  then show ?thesis by (simp add: has_def AE_WRITABLE_def)
qed

lemma bit_ae_consts:
  "bit AE_READABLE n \<longleftrightarrow> n = 0" "bit AE_WRITABLE n \<longleftrightarrow> n = 1" "\<not> bit AE_NONE n"
  by (auto simp: ae_consts bit_1_iff bit_2_iff)

text \<open>A mask with no bit beside readable and writable.\<close>

definition rw_mask :: "mask \<Rightarrow> bool" where
  "rw_mask m \<longleftrightarrow> m AND 3 = m"

lemma rw_mask_bit: "rw_mask m \<Longrightarrow> bit m n \<Longrightarrow> n = 0 \<or> n = 1"
proof -
  assume "rw_mask m" "bit m n"
  then have "bit (3 :: mask) n" by (metis bit_and_iff rw_mask_def)
  moreover have "(3 :: mask) = mask 2" by (simp add: mask_eq_exp_minus_1)
  ultimately have "n < 2" by (simp add: bit_mask_iff)
  then show ?thesis by auto
qed

lemma rw_mask_or: "rw_mask m \<Longrightarrow> rw_mask m' \<Longrightarrow> rw_mask (m OR m')"
  by (simp add: rw_mask_def bit.conj_disj_distrib2)

lemma rw_mask_andnot: "rw_mask m \<Longrightarrow> rw_mask (m AND m')"
  unfolding rw_mask_def by (simp add: and.assoc and.commute [of m'])
     (simp flip: and.assoc)

lemma rw_mask_consts: "rw_mask AE_NONE" "rw_mask AE_READABLE" "rw_mask AE_WRITABLE"
  by (simp_all add: rw_mask_def ae_consts)

text \<open>The mask with the two bits given.\<close>

definition rw :: "bool \<Rightarrow> bool \<Rightarrow> mask" where
  "rw x y = ((if x then AE_READABLE else 0) OR (if y then AE_WRITABLE else 0))"

lemma bit_rw [simp]: "bit (rw x y) 0 \<longleftrightarrow> x" "bit (rw x y) (Suc 0) \<longleftrightarrow> y"
  by (simp_all add: rw_def bit_or_iff bit_ae_consts)

lemma rw_mask_rw [simp]: "rw_mask (rw x y)"
  by (simp add: rw_def rw_mask_def ae_consts)

lemma rw_mask_eqI:
  "rw_mask a \<Longrightarrow> rw_mask b \<Longrightarrow> (bit a 0 \<longleftrightarrow> bit b 0) \<Longrightarrow> (bit a (Suc 0) \<longleftrightarrow> bit b (Suc 0)) \<Longrightarrow> a = b"
  by (rule bit_eqI) (metis One_nat_def rw_mask_bit)

section \<open>The representation invariant\<close>

definition arrays_ok :: "('p, 'c, 'a) aeEventLoop \<Rightarrow> bool" where
  "arrays_ok l \<longleftrightarrow> 0 \<le> setsize l \<and> length (events l) = nat (setsize l)
     \<and> length (fired l) = nat (setsize l)"

definition mask_at :: "('p, 'c, 'a) aeEventLoop \<Rightarrow> nat \<Rightarrow> mask" where
  "mask_at l i = fe_mask (events l ! i)"

definition maxfd_ok :: "('p, 'c, 'a) aeEventLoop \<Rightarrow> bool" where
  "maxfd_ok l \<longleftrightarrow> - 1 \<le> maxfd l \<and> maxfd l < setsize l
     \<and> (\<forall>i < length (events l). maxfd l < int i \<longrightarrow> mask_at l i = AE_NONE)
     \<and> (0 \<le> maxfd l \<longrightarrow> mask_at l (nat (maxfd l)) \<noteq> AE_NONE)"

definition fe_ok :: "('p, 'c) aeFileEvent \<Rightarrow> bool" where
  "fe_ok fe \<longleftrightarrow> rw_mask (fe_mask fe)
     \<and> (has (fe_mask fe) AE_READABLE \<longrightarrow> rfileProc fe \<noteq> None)
     \<and> (has (fe_mask fe) AE_WRITABLE \<longrightarrow> wfileProc fe \<noteq> None)
     \<and> (fe_mask fe \<noteq> AE_NONE \<longrightarrow> fe_clientData fe \<noteq> None)"

definition timers_ok :: "('p, 'c, 'a) aeEventLoop \<Rightarrow> bool" where
  "timers_ok l \<longleftrightarrow> 0 \<le> timeEventNextId l \<and> distinct (map te_id (timeEventHead l))
     \<and> (\<forall>te \<in> set (timeEventHead l). 0 \<le> te_id te \<and> te_id te < timeEventNextId l)"

definition ae_wf :: "('p, 'c, 'a) aeEventLoop \<Rightarrow> bool" where
  "ae_wf l \<longleftrightarrow> arrays_ok l \<and> maxfd_ok l \<and> (\<forall>fe \<in> set (events l). fe_ok fe) \<and> timers_ok l"

lemmas ae_wf_defs = ae_wf_def arrays_ok_def maxfd_ok_def timers_ok_def mask_at_def

lemma ae_wf_cong:
  assumes "ae_wf l" "setsize l' = setsize l" "events l' = events l" "maxfd l' = maxfd l"
    and "length (fired l') = length (fired l)" "timeEventHead l' = timeEventHead l"
    and "timeEventNextId l' = timeEventNextId l"
  shows "ae_wf l'"
  using assms by (simp add: ae_wf_defs)

lemma ae_wf_timers:
  assumes "ae_wf l" "timers_ok l'" "setsize l' = setsize l" "events l' = events l"
    and "maxfd l' = maxfd l" "length (fired l') = length (fired l)"
  shows "ae_wf l'"
  using assms by (simp add: ae_wf_def arrays_ok_def maxfd_ok_def mask_at_def)

lemma event_at_Some:
  "event_at l fd = Some fe \<longleftrightarrow> 0 \<le> fd \<and> nat fd < length (events l) \<and> fe = events l ! nat fd"
  by (auto simp: event_at_def)

lemma event_at_defined:
  "ae_wf l \<Longrightarrow> 0 \<le> fd \<Longrightarrow> fd < setsize l \<Longrightarrow> event_at l fd = Some (events l ! nat fd)"
  by (auto simp: event_at_Some ae_wf_defs)

subsection \<open>The scan for the highest descriptor\<close>

lemma scan_maxfd_less: "scan_maxfd evs j < int j"
  by (induction j) auto

lemma scan_maxfd_lower: "- 1 \<le> scan_maxfd evs j"
  by (induction j) auto

lemma scan_maxfd_hit: "0 \<le> scan_maxfd evs j \<Longrightarrow> fe_mask (evs ! nat (scan_maxfd evs j)) \<noteq> AE_NONE"
  by (induction j) (auto split: if_splits)

lemma scan_maxfd_above:
  "scan_maxfd evs j < int i \<Longrightarrow> i < j \<Longrightarrow> fe_mask (evs ! i) = AE_NONE"
proof (induction j)
  case (Suc j)
  then show ?case by (cases "i = j") (auto split: if_splits)
qed simp

lemma maxfd_ok_scan:
  assumes "maxfd l = int m" "m < length (events l)" "length (events l) = nat (setsize l)"
    and "0 \<le> setsize l" "mask_at l m = AE_NONE"
    and "\<forall>i < length (events l). maxfd l < int i \<longrightarrow> mask_at l i = AE_NONE"
  shows "maxfd_ok (l\<lparr>maxfd := scan_maxfd (events l) m\<rparr>)"
proof -
  have "mask_at l i = AE_NONE" if "i < length (events l)" "scan_maxfd (events l) m < int i" for i
  proof (cases i m rule: linorder_cases)
    case less
    then show ?thesis using scan_maxfd_above that by (metis mask_at_def)
  qed (use assms that in auto)
  then show ?thesis
    using assms scan_maxfd_less [of "events l" m] scan_maxfd_lower [of "events l" m]
      scan_maxfd_hit [of "events l" m]
    by (auto simp: maxfd_ok_def mask_at_def)
qed

subsection \<open>Updates of one file event\<close>

lemma maxfd_ok_register:
  assumes "maxfd_ok l" "arrays_ok l" "0 \<le> fd" "fd < setsize l" "fe_mask fe \<noteq> AE_NONE"
  shows "maxfd_ok (l\<lparr>events := (events l)[nat fd := fe],
                    maxfd := (if maxfd l < fd then fd else maxfd l)\<rparr>)"
  using assms by (auto simp: maxfd_ok_def arrays_ok_def mask_at_def nth_list_update)

lemma maxfd_ok_unregister:
  assumes "maxfd_ok l" "arrays_ok l" "0 \<le> fd" "fd < setsize l" "mask_at l (nat fd) \<noteq> AE_NONE"
    and "l1 = l\<lparr>events := (events l)[nat fd := fe]\<rparr>"
  shows "maxfd_ok (if fd = maxfd l \<and> fe_mask fe = AE_NONE
                   then l1\<lparr>maxfd := scan_maxfd (events l1) (nat (maxfd l1))\<rparr> else l1)"
proof (cases "fd = maxfd l \<and> fe_mask fe = AE_NONE")
  case True
  have "maxfd_ok (l1\<lparr>maxfd := scan_maxfd (events l1) (nat (maxfd l1))\<rparr>)"
    by (rule maxfd_ok_scan)
       (use assms True in \<open>auto simp: maxfd_ok_def arrays_ok_def mask_at_def nth_list_update\<close>)
  with True show ?thesis by simp
next
  case False
  have "fd \<le> maxfd l"
    using assms by (metis arrays_ok_def int_nat_eq linorder_not_less maxfd_ok_def nat_less_iff)
  with False assms show ?thesis
    by (auto simp: maxfd_ok_def arrays_ok_def mask_at_def nth_list_update)
qed

text \<open>The file event \<open>aeCreateFileEvent\<close> writes.\<close>

definition registered :: "('p, 'c) aeFileEvent \<Rightarrow> mask \<Rightarrow> 'p \<Rightarrow> 'c \<Rightarrow> ('p, 'c) aeFileEvent" where
  "registered fe m proc cd =
     fe\<lparr>fe_mask := fe_mask fe OR m,
        rfileProc := (if has m AE_READABLE then Some proc else rfileProc fe),
        wfileProc := (if has m AE_WRITABLE then Some proc else wfileProc fe),
        fe_clientData := Some cd\<rparr>"

lemma fe_ok_registered: "fe_ok fe \<Longrightarrow> rw_mask m \<Longrightarrow> fe_ok (registered fe m proc cd)"
  by (auto simp: fe_ok_def registered_def rw_mask_or has_readable has_writable bit_or_iff)

lemma fe_ok_masked: "fe_ok fe \<Longrightarrow> fe_ok (fe\<lparr>fe_mask := fe_mask fe AND m\<rparr>)"
  by (auto simp: fe_ok_def rw_mask_andnot has_readable has_writable bit_and_iff AE_NONE_def)

lemma or_eq_0_word: "(m :: mask) \<noteq> 0 \<Longrightarrow> x OR m \<noteq> 0"
  by (metis or_eq_0_iff)

section \<open>The contract of the multiplexing layer\<close>

locale ae_frame =
  fixes api :: "('p, 'c, 'a, 'w) ae_api"
  assumes add_frame: "api_add api l fd m w = Some (r, l', w') \<Longrightarrow> \<exists>a. l' = l\<lparr>apidata := a\<rparr>"
    and del_frame: "api_del api l fd m w = Some (l', w') \<Longrightarrow> \<exists>a. l' = l\<lparr>apidata := a\<rparr>"
    and poll_frame: "api_poll api l tv w = Some (n, l', w') \<Longrightarrow>
          \<exists>a f. l' = l\<lparr>apidata := a, fired := f\<rparr> \<and> length f = length (fired l)"
    and create_frame: "api_create api l w = (r, l', w') \<Longrightarrow> \<exists>a. l' = l\<lparr>apidata := a\<rparr>"
begin

lemma create_file_event_cases:
  assumes "aeCreateFileEvent api l fd m proc cd w = Some (r, l', w')"
  obtains (range) "setsize l \<le> fd" "r = AE_ERR" "l' = l" "w' = w"
  | (fail) fe a where "fd < setsize l" "event_at l fd = Some fe" "r = AE_ERR"
      "api_add api l fd m w = Some (- 1, l', w')" "l' = l\<lparr>apidata := a\<rparr>"
  | (ok) fe q a where "fd < setsize l" "event_at l fd = Some fe" "r = AE_OK"
      "api_add api l fd m w = Some (q, l\<lparr>apidata := a\<rparr>, w')" "q \<noteq> - 1"
      "l' = l\<lparr>apidata := a, events := (events l)[nat fd := registered fe m proc cd],
              maxfd := (if maxfd l < fd then fd else maxfd l)\<rparr>"
proof (cases "setsize l \<le> fd")
  case True
  with assms have "r = AE_ERR \<and> l' = l \<and> w' = w" by (auto simp: aeCreateFileEvent_def)
  with True range show ?thesis by blast
next
  case False
  from assms False obtain fe q l1 w1 where fe: "event_at l fd = Some fe"
    and add: "api_add api l fd m w = Some (q, l1, w1)"
    unfolding aeCreateFileEvent_def
    by (cases "event_at l fd"; cases "api_add api l fd m w") (simp, simp, simp, force)
  from add_frame [OF add] obtain a where l1: "l1 = l\<lparr>apidata := a\<rparr>" by blast
  have ev: "event_at (l\<lparr>apidata := a\<rparr>) fd = Some fe" using fe by (simp add: event_at_Some)
  show ?thesis
  proof (cases "q = - 1")
    case True
    with assms False fe add have "r = AE_ERR \<and> l' = l1 \<and> w' = w1"
      by (auto simp: aeCreateFileEvent_def)
    with False fe add True l1 show ?thesis by (intro fail [of fe a]) simp_all
  next
    case q: False
    have "r = AE_OK \<and> w' = w1 \<and>
      l' = l\<lparr>apidata := a, events := (events l)[nat fd := registered fe m proc cd],
             maxfd := (if maxfd l < fd then fd else maxfd l)\<rparr>"
      using assms False fe add ev q l1
      by (auto simp: aeCreateFileEvent_def registered_def Let_def split: if_splits)
    with False fe add q l1 show ?thesis by (intro ok [of fe q a]) simp_all
  qed
qed

lemma create_file_event_wf:
  assumes wf: "ae_wf l" and m: "rw_mask m" "m \<noteq> AE_NONE"
    and run: "aeCreateFileEvent api l fd m proc cd w = Some (r, l', w')"
  shows "ae_wf l'"
  using run
proof (cases rule: create_file_event_cases)
  case range
  with wf show ?thesis by simp
next
  case (fail fe a)
  with wf show ?thesis by (simp add: ae_wf_defs)
next
  case (ok fe q a)
  let ?fe = "registered fe m proc cd"
  have fd: "0 \<le> fd" "nat fd < length (events l)" "fe = events l ! nat fd"
    using ok(2) by (auto simp: event_at_Some)
  have nz: "fe_mask ?fe \<noteq> AE_NONE"
    using m by (simp add: registered_def ae_consts or_eq_0_word)
  have mx: "maxfd_ok (l\<lparr>events := (events l)[nat fd := ?fe],
                        maxfd := (if maxfd l < fd then fd else maxfd l)\<rparr>)"
    by (rule maxfd_ok_register) (use wf fd ok(1) nz in \<open>auto simp: ae_wf_def\<close>)
  have fe: "fe_ok ?fe" using wf fd m by (auto simp: ae_wf_def intro: fe_ok_registered)
  then have "\<forall>f \<in> set ((events l)[nat fd := ?fe]). fe_ok f"
    using wf by (auto simp: ae_wf_def dest!: set_update_subset_insert [THEN subsetD])
  then have "ae_wf (l\<lparr>events := (events l)[nat fd := ?fe],
                 maxfd := (if maxfd l < fd then fd else maxfd l)\<rparr>)"
    using wf mx by (simp add: ae_wf_def arrays_ok_def timers_ok_def)
  then show ?thesis by (rule ae_wf_cong) (simp_all add: ok(6))
qed

lemma delete_file_event_cases:
  assumes "aeDeleteFileEvent api l fd m w = Some (l', w')"
  obtains (skip) "l' = l" "w' = w" "setsize l \<le> fd \<or> aeGetFileEvents l fd = Some AE_NONE"
  | (del) fe fe' l1 a where "fd < setsize l" "event_at l fd = Some fe" "fe_mask fe \<noteq> AE_NONE"
      "fe' = fe\<lparr>fe_mask := fe_mask fe AND NOT m\<rparr>"
      "l1 = (let l2 = l\<lparr>events := (events l)[nat fd := fe']\<rparr>
             in if fd = maxfd l \<and> fe_mask fe' = AE_NONE
                then l2\<lparr>maxfd := scan_maxfd (events l2) (nat (maxfd l2))\<rparr> else l2)"
      "api_del api l1 fd m w = Some (l', w')" "l' = l1\<lparr>apidata := a\<rparr>"
proof (cases "setsize l \<le> fd")
  case True
  with assms have "l' = l \<and> w' = w" by (auto simp: aeDeleteFileEvent_def)
  with True skip show ?thesis by blast
next
  case False
  from assms False obtain fe where fe: "event_at l fd = Some fe"
    by (auto simp: aeDeleteFileEvent_def bind_eq_Some_conv split: if_splits)
  show ?thesis
  proof (cases "fe_mask fe = AE_NONE")
    case True
    with assms False fe have "l' = l \<and> w' = w \<and> aeGetFileEvents l fd = Some AE_NONE"
      by (auto simp: aeDeleteFileEvent_def aeGetFileEvents_def)
    with skip show ?thesis by blast
  next
    case nz: False
    define fe' where "fe' = fe\<lparr>fe_mask := fe_mask fe AND NOT m\<rparr>"
    define l1 where "l1 = (let l2 = l\<lparr>events := (events l)[nat fd := fe']\<rparr>
             in if fd = maxfd l \<and> fe_mask fe' = AE_NONE
                then l2\<lparr>maxfd := scan_maxfd (events l2) (nat (maxfd l2))\<rparr> else l2)"
    have api: "api_del api l1 fd m w = Some (l', w')"
      using assms False fe nz by (simp add: aeDeleteFileEvent_def l1_def fe'_def Let_def)
    from del_frame [OF api] obtain a where "l' = l1\<lparr>apidata := a\<rparr>" by blast
    with del [OF _ fe nz fe'_def l1_def api] False show ?thesis by simp
  qed
qed

lemma delete_file_event_wf:
  assumes wf: "ae_wf l" and run: "aeDeleteFileEvent api l fd m w = Some (l', w')"
  shows "ae_wf l'"
  using run
proof (cases rule: delete_file_event_cases)
  case skip
  with wf show ?thesis by simp
next
  case (del fe fe' l1 a)
  have fd: "0 \<le> fd" "nat fd < length (events l)" "fe = events l ! nat fd"
    using del(2) by (auto simp: event_at_Some)
  let ?l2 = "l\<lparr>events := (events l)[nat fd := fe']\<rparr>"
  have mx: "maxfd_ok l1"
    unfolding del(5) Let_def
    by (rule maxfd_ok_unregister) (use wf fd del in \<open>auto simp: ae_wf_def mask_at_def\<close>)
  have "fe_ok fe'" using wf fd by (auto simp: ae_wf_def del(4) intro: fe_ok_masked)
  then have "\<forall>f \<in> set (events ?l2). fe_ok f"
    using wf by (auto simp: ae_wf_def dest!: set_update_subset_insert [THEN subsetD])
  moreover have "events l1 = events ?l2" by (simp add: del(5) Let_def)
  ultimately have "ae_wf l1"
    using wf mx by (simp add: ae_wf_def arrays_ok_def timers_ok_def del(5) Let_def)
  then show ?thesis by (rule ae_wf_cong) (simp_all add: del(7))
qed

lemma poll_wf: "ae_wf l \<Longrightarrow> api_poll api l tv w = Some (n, l', w') \<Longrightarrow> ae_wf l'"
  by (drule poll_frame) (auto intro: ae_wf_cong)

lemma create_loop_wf:
  assumes "aeCreateEventLoop os api sz w = (Some l, w')" "0 \<le> sz"
  shows "ae_wf l \<and> setsize l = sz \<and> maxfd l = - 1 \<and> (\<forall>i < nat sz. mask_at l i = AE_NONE)"
proof -
  have "\<exists>t a. l = \<lparr>maxfd = - 1, setsize = sz, timeEventNextId = 0, lastTime = t,
      events = map (\<lambda>i. \<lparr>fe_mask = AE_NONE, rfileProc = None, wfileProc = None,
                         fe_clientData = None\<rparr>) [0..<nat sz],
      fired = replicate (nat sz) None, timeEventHead = [], stop = False, apidata = a,
      beforesleep = None\<rparr>"
    using assms(1)
    by (auto simp: aeCreateEventLoop_def Let_def split: prod.splits if_splits dest!: create_frame)
  with assms(2) show ?thesis
    by (auto simp: ae_wf_defs fe_ok_def rw_mask_def has_def ae_consts)
qed

end

subsection \<open>What the layer watches\<close>

text \<open>
  \<open>watching l w fd\<close> is the set of conditions the layer waits for on \<open>fd\<close>. The laws are
  stated for a descriptor whose registration the layer already agrees with: adding \<open>m\<close> either
  fails and changes nothing or extends the watched mask by \<open>m\<close>; deleting \<open>m\<close>, after the loop
  has cleared \<open>m\<close> in the registered mask, leaves the registered mask watched.
\<close>

locale ae_multiplexer = ae_frame api
  for api :: "('p, 'c, 'a, 'w) ae_api" +
  fixes watching :: "('p, 'c, 'a) aeEventLoop \<Rightarrow> 'w \<Rightarrow> int \<Rightarrow> mask"
  assumes watching_local: "apidata l' = apidata l \<Longrightarrow> watching l' w = watching l w"
    and add_fails: "api_add api l fd m w = Some (- 1, l', w') \<Longrightarrow> watching l' w' = watching l w"
    and add_watches: "api_add api l fd m w = Some (r, l', w') \<Longrightarrow> r \<noteq> - 1 \<Longrightarrow>
          event_at l fd = Some fe \<Longrightarrow> watching l w fd = fe_mask fe \<Longrightarrow>
          rw_mask (fe_mask fe) \<Longrightarrow> rw_mask m \<Longrightarrow>
          watching l' w' = (watching l w)(fd := fe_mask fe OR m)"
    and del_watches: "api_del api l fd m w = Some (l', w') \<Longrightarrow> event_at l fd = Some fe \<Longrightarrow>
          fe_mask fe = watching l w fd AND NOT m \<Longrightarrow> watching l w fd \<noteq> AE_NONE \<Longrightarrow>
          rw_mask (watching l w fd) \<Longrightarrow>
          watching l' w' = (watching l w)(fd := fe_mask fe)"
begin

definition synced :: "('p, 'c, 'a) aeEventLoop \<Rightarrow> 'w \<Rightarrow> bool" where
  "synced l w \<longleftrightarrow> (\<forall>i < length (events l). watching l w (int i) = mask_at l i)"

lemma create_file_event_synced:
  assumes wf: "ae_wf l" and sync: "synced l w" and m: "rw_mask m"
    and run: "aeCreateFileEvent api l fd m proc cd w = Some (r, l', w')"
  shows "synced l' w'"
  using run
proof (cases rule: create_file_event_cases)
  case range
  with sync show ?thesis by simp
next
  case (fail fe a)
  have "watching l' w' = watching l w" using fail(4) by (rule add_fails)
  with sync fail(5) show ?thesis by (simp add: synced_def mask_at_def)
next
  case (ok fe q a)
  have fd: "0 \<le> fd" "nat fd < length (events l)" "fe = events l ! nat fd"
    using ok(2) by (auto simp: event_at_Some)
  have fe: "watching l w fd = fe_mask fe" "rw_mask (fe_mask fe)"
    using sync fd wf by (auto simp: synced_def mask_at_def ae_wf_def fe_ok_def)
  have "watching l' w' = watching (l\<lparr>apidata := a\<rparr>) w'"
    by (rule watching_local) (simp add: ok(6))
  also have "\<dots> = (watching l w)(fd := fe_mask fe OR m)"
    using ok(4,5,2) fe m by (rule add_watches)
  finally show ?thesis
    using sync fd by (auto simp: synced_def mask_at_def ok(6) registered_def nth_list_update)
qed

lemma delete_file_event_synced:
  assumes wf: "ae_wf l" and sync: "synced l w"
    and run: "aeDeleteFileEvent api l fd m w = Some (l', w')"
  shows "synced l' w'"
  using run
proof (cases rule: delete_file_event_cases)
  case skip
  with sync show ?thesis by simp
next
  case (del fe fe' l1 a)
  have fd: "0 \<le> fd" "nat fd < length (events l)" "fe = events l ! nat fd"
    using del(2) by (auto simp: event_at_Some)
  have l1: "events l1 = (events l)[nat fd := fe']" "apidata l1 = apidata l"
    by (simp_all add: del(5) Let_def)
  have w1: "watching l1 w = watching l w" using l1(2) by (rule watching_local)
  have w: "watching l w fd = fe_mask fe"
    using sync fd by (auto simp: synced_def mask_at_def)
  have "watching l' w' = (watching l1 w)(fd := fe_mask fe')"
  proof (rule del_watches [OF del(6)])
    show "event_at l1 fd = Some fe'" using fd l1 by (simp add: event_at_def)
    show "fe_mask fe' = watching l1 w fd AND NOT m" by (simp add: w1 w del(4))
    show "watching l1 w fd \<noteq> AE_NONE" using del(3) by (simp add: w1 w)
    show "rw_mask (watching l1 w fd)"
      using wf fd by (auto simp: w1 w ae_wf_def fe_ok_def)
  qed
  then show ?thesis
    using sync fd by (auto simp: synced_def mask_at_def del(7) l1 w1 nth_list_update)
qed

end

section \<open>Timers\<close>

subsection \<open>The nearest timer\<close>

definition te_key :: "('p, 'c) aeTimeEvent \<Rightarrow> int \<times> int" where
  "te_key te = (when_sec te, when_ms te)"

lemma search_nearest_sound:
  "search_nearest ts acc = Some n \<Longrightarrow>
     (n \<in> set ts \<or> acc = Some n) \<and> (\<forall>te \<in> set ts. \<not> te_before te n)
     \<and> (\<forall>a. acc = Some a \<longrightarrow> \<not> te_before a n)"
proof (induction ts acc rule: search_nearest.induct)
  case (3 te ts a)
  from "3.prems" have "search_nearest ts (Some (if te_before te a then te else a)) = Some n"
    by simp
  note ih = "3.IH" [OF this]
  show ?case
  proof (cases "te_before te a")
    case True
    with ih have "\<not> te_before te n" by simp
    with True have "\<not> te_before a n" by (auto simp: te_before_def)
    with ih True show ?thesis by auto
  next
    case False
    with ih have "\<not> te_before a n" by simp
    with False have "\<not> te_before te n" by (auto simp: te_before_def)
    with ih False show ?thesis by auto
  qed
qed (auto simp: te_before_def)

lemma search_nearest_None: "search_nearest ts acc = None \<longleftrightarrow> ts = [] \<and> acc = None"
  by (induction ts acc rule: search_nearest.induct) auto

subsection \<open>Creating and deleting timers\<close>

lemma unlink_None: "unlink i ts = None \<longleftrightarrow> i \<notin> te_id ` set ts"
  by (induction ts) auto

lemma unlink_Some:
  "unlink i ts = Some (te, rest) \<Longrightarrow>
     \<exists>xs ys. ts = xs @ te # ys \<and> rest = xs @ ys \<and> te_id te = i \<and> i \<notin> te_id ` set xs"
proof (induction ts arbitrary: rest)
  case (Cons t ts)
  show ?case
  proof (cases "te_id t = i")
    case True
    with Cons.prems have "t # ts = [] @ te # rest \<and> rest = [] @ rest \<and> te_id te = i" by simp
    then show ?thesis by (metis empty_iff image_empty list.set(1))
  next
    case False
    with Cons.prems obtain r where r: "unlink i ts = Some (te, r)" and rest: "rest = t # r"
      by auto
    from Cons.IH [OF r] obtain xs ys where "ts = xs @ te # ys" "r = xs @ ys" "te_id te = i"
      "i \<notin> te_id ` set xs" by blast
    with False rest have "t # ts = (t # xs) @ te # ys \<and> rest = (t # xs) @ ys \<and> te_id te = i
      \<and> i \<notin> te_id ` set (t # xs)" by auto
    then show ?thesis by blast
  qed
qed simp

lemma unlink_filter:
  assumes "distinct (map te_id ts)" "unlink i ts = Some (te, rest)"
  shows "rest = filter (\<lambda>t. te_id t \<noteq> i) ts \<and> te \<in> set ts \<and> te_id te = i"
proof -
  from unlink_Some [OF assms(2)] obtain xs ys where
    "ts = xs @ te # ys" "rest = xs @ ys" "te_id te = i" "i \<notin> te_id ` set xs" by blast
  moreover from this assms(1) have "i \<notin> te_id ` set ys" by simp
  ultimately have "filter (\<lambda>t. te_id t \<noteq> i) xs = xs" "filter (\<lambda>t. te_id t \<noteq> i) ys = ys"
    by (auto simp: filter_id_conv image_iff)
  with \<open>ts = xs @ te # ys\<close> \<open>rest = xs @ ys\<close> \<open>te_id te = i\<close> show ?thesis by simp
qed

lemma create_time_event_cases:
  obtains (fail) w' where "aeCreateTimeEvent os l ms proc cd fin w =
      (AE_ERR, l\<lparr>timeEventNextId := timeEventNextId l + 1\<rparr>, w')"
  | (ok) te w' where "aeCreateTimeEvent os l ms proc cd fin w =
      (timeEventNextId l, l\<lparr>timeEventNextId := timeEventNextId l + 1,
         timeEventHead := te # timeEventHead l\<rparr>, w')"
      "te_id te = timeEventNextId l" "timeProc te = proc" "te_clientData te = cd"
      "finalizerProc te = fin"
proof -
  obtain ok1 w1 where m: "os_malloc os SIZEOF_aeTimeEvent w = (ok1, w1)" by fastforce
  obtain sec msec w2 where t: "aeAddMillisecondsToNow os ms w1 = ((sec, msec), w2)"
    by (metis surj_pair)
  show thesis
  proof (cases ok1)
    case True
    show thesis
      by (rule ok [of "\<lparr>te_id = timeEventNextId l, when_sec = sec, when_ms = msec,
            timeProc = proc, finalizerProc = fin, te_clientData = cd\<rparr>" w2])
         (simp_all add: aeCreateTimeEvent_def Let_def m t True)
  next
    case False
    show thesis by (rule fail [of w1]) (simp add: aeCreateTimeEvent_def m False)
  qed
qed

lemma create_time_event_wf:
  assumes "ae_wf l" "aeCreateTimeEvent os l ms proc cd fin w = (r, l', w')"
  shows "ae_wf l'"
proof (rule create_time_event_cases [of os l ms proc cd fin w])
  fix w''
  assume "aeCreateTimeEvent os l ms proc cd fin w =
    (AE_ERR, l\<lparr>timeEventNextId := timeEventNextId l + 1\<rparr>, w'')"
  with assms(2) have l': "l' = l\<lparr>timeEventNextId := timeEventNextId l + 1\<rparr>" by simp
  then have "timers_ok l'" using assms(1) by (auto simp: ae_wf_def timers_ok_def less_imp_le)
  with assms(1) show ?thesis by (rule ae_wf_timers) (simp_all add: l')
next
  fix te w''
  assume "aeCreateTimeEvent os l ms proc cd fin w =
      (timeEventNextId l, l\<lparr>timeEventNextId := timeEventNextId l + 1,
         timeEventHead := te # timeEventHead l\<rparr>, w'')" and te: "te_id te = timeEventNextId l"
  with assms(2) have l': "l' = l\<lparr>timeEventNextId := timeEventNextId l + 1,
         timeEventHead := te # timeEventHead l\<rparr>" by (metis Pair_inject)
  then have "timers_ok l'"
    using assms(1) te by (auto simp: ae_wf_def timers_ok_def less_imp_le)
  with assms(1) show ?thesis by (rule ae_wf_timers) (simp_all add: l')
qed

end
