(* ===== verification/Ae_Timers.thy ===== *)
theory Ae_Timers
  imports Ae_Laws
begin

text \<open>
  Time events: when \<open>processTimeEvents\<close> returns and what it has done.

  The loop restarts from the head of the list after every callback, so it returns only if the
  callbacks let it. \<open>steady_clock\<close> says that the clock does not run backwards, \<open>polite\<close>
  that a callback keeps the timers it finds, gives new ones fresh identifiers, and asks to be
  called again after a positive time or not at all. Under these two the loop calls every due
  timer exactly once, in the order of the list. \<open>traces\<close> says that the world keeps a log of the
  timer callbacks, by which the theorems tell what was called.
\<close>

section \<open>Time in milliseconds\<close>

definition ms_of :: "int \<Rightarrow> int \<Rightarrow> int" where
  "ms_of sec msec = sec * 1000 + msec"

definition te_when :: "('p, 'c) aeTimeEvent \<Rightarrow> int" where
  "te_when te = ms_of (when_sec te) (when_ms te)"

definition ms_ok :: "('p, 'c) aeTimeEvent \<Rightarrow> bool" where
  "ms_ok te \<longleftrightarrow> 0 \<le> when_ms te \<and> when_ms te < 1000"

lemma te_due_ms:
  "ms_ok te \<Longrightarrow> 0 \<le> m \<Longrightarrow> m < 1000 \<Longrightarrow> te_due s m te \<longleftrightarrow> te_when te \<le> ms_of s m"
  by (auto simp: te_due_def te_when_def ms_of_def ms_ok_def)

lemma te_before_ms:
  "ms_ok te \<Longrightarrow> ms_ok n \<Longrightarrow> te_before te n \<longleftrightarrow> te_when te < te_when n"
  by (auto simp: te_before_def te_when_def ms_of_def ms_ok_def)

text \<open>The clock: \<open>clk w\<close> is a lower bound, in milliseconds, of every later reading.\<close>

definition steady_clock :: "'w os \<Rightarrow> ('w \<Rightarrow> int) \<Rightarrow> bool" where
  "steady_clock os clk \<longleftrightarrow>
     (\<forall>w s us w'. os_gettimeofday os w = ((s, us), w') \<longrightarrow>
        0 \<le> us \<and> us < 1000000 \<and> clk w \<le> ms_of s (us div 1000) \<and> clk w' = ms_of s (us div 1000))
     \<and> (\<forall>w. clk w \<le> clk (os_free os w))
     \<and> (\<forall>w t w'. os_time os w = (t, w') \<longrightarrow> clk w \<le> clk w')"

lemma get_time_steady:
  assumes "steady_clock os clk" "aeGetTime os w = ((s, m), w')"
  shows "0 \<le> m \<and> m < 1000 \<and> clk w \<le> ms_of s m \<and> clk w' = ms_of s m"
proof -
  obtain s1 us w1 where g: "os_gettimeofday os w = ((s1, us), w1)" by (metis surj_pair)
  with assms(1) have us: "0 \<le> us" "us < 1000000" "clk w \<le> ms_of s1 (us div 1000)"
    "clk w1 = ms_of s1 (us div 1000)"
    unfolding steady_clock_def by blast+
  have "us sdiv 1000 = us div 1000" using us by (simp add: signed_divide_int_def sgn_if)
  with assms(2) g have "s = s1" "m = us div 1000" "w' = w1" by (auto simp: aeGetTime_def)
  with us show ?thesis by auto
qed

lemma add_ms_steady:
  assumes "steady_clock os clk" "aeAddMillisecondsToNow os d w = ((s, m), w')" "0 \<le> d"
  shows "0 \<le> m \<and> m < 1000 \<and> clk w + d \<le> ms_of s m \<and> clk w \<le> clk w' \<and> ms_of s m = clk w' + d"
proof -
  obtain cs cm w1 where t: "aeGetTime os w = ((cs, cm), w1)" by (metis surj_pair)
  note st = get_time_steady [OF assms(1) t]
  have d: "d sdiv 1000 = d div 1000" "d smod 1000 = d mod 1000"
    using assms(3) by (auto simp: signed_divide_int_def signed_modulo_int_def sgn_if)
  have "d = 1000 * (d div 1000) + d mod 1000" by simp
  moreover have "0 \<le> d mod 1000" "d mod 1000 < 1000" by simp_all
  moreover have "w' = w1 \<and> (s, m) = (if 1000 \<le> cm + d mod 1000
      then (cs + d div 1000 + 1, cm + d mod 1000 - 1000) else (cs + d div 1000, cm + d mod 1000))"
    using assms(2) by (auto simp: aeAddMillisecondsToNow_def t d Let_def split: if_splits)
  ultimately show ?thesis using st unfolding ms_of_def by (auto split: if_splits)
qed

section \<open>Callbacks that let the loop return\<close>

definition polite ::
  "('p, 'c, 'a, 'w) procs \<Rightarrow> ('w \<Rightarrow> int) \<Rightarrow> bool" where
  "polite P clk \<longleftrightarrow>
     (\<forall>p l i c w. \<exists>ret l' w' new. call_time P p l i c w = Some (ret, l', w')
        \<and> (ret = AE_NOMORE \<or> 0 < ret)
        \<and> timeEventHead l' = new @ timeEventHead l \<and> timeEventNextId l \<le> timeEventNextId l'
        \<and> distinct (map te_id new)
        \<and> (\<forall>te \<in> set new. timeEventNextId l \<le> te_id te \<and> te_id te < timeEventNextId l' \<and> ms_ok te)
        \<and> clk w \<le> clk w')
     \<and> (\<forall>f l c w. \<exists>l' w'. call_final P f l c w = Some (l', w')
        \<and> timeEventHead l' = timeEventHead l \<and> timeEventNextId l' = timeEventNextId l
        \<and> clk w \<le> clk w')"

text \<open>A log of the timer callbacks: each one adds its function and arguments, nothing else changes it.\<close>

definition te_call :: "('p, 'c) aeTimeEvent \<Rightarrow> 'p \<times> int \<times> 'c" where
  "te_call te = (timeProc te, te_id te, te_clientData te)"

definition traces :: "'w os \<Rightarrow> ('p, 'c, 'a, 'w) procs \<Rightarrow> ('w \<Rightarrow> ('p \<times> int \<times> 'c) list) \<Rightarrow> bool" where
  "traces os P tr \<longleftrightarrow>
     (\<forall>p l i c w ret l' w'. call_time P p l i c w = Some (ret, l', w') \<longrightarrow> tr w' = tr w @ [(p, i, c)])
     \<and> (\<forall>f l c w l' w'. call_final P f l c w = Some (l', w') \<longrightarrow> tr w' = tr w)
     \<and> (\<forall>w. tr (os_free os w) = tr w)
     \<and> (\<forall>w. tr (snd (os_time os w)) = tr w)
     \<and> (\<forall>w. tr (snd (os_gettimeofday os w)) = tr w)"

lemma traces_call: "traces os P tr \<Longrightarrow> call_time P p l i c w = Some (ret, l', w') \<Longrightarrow> tr w' = tr w @ [(p, i, c)]"
  by (simp add: traces_def)

lemma traces_final: "traces os P tr \<Longrightarrow> call_final P f l c w = Some (l', w') \<Longrightarrow> tr w' = tr w"
  unfolding traces_def by blast

lemma traces_free: "traces os P tr \<Longrightarrow> tr (os_free os w) = tr w"
  by (simp add: traces_def)

lemma traces_time: "traces os P tr \<Longrightarrow> os_time os w = (t, w') \<Longrightarrow> tr w' = tr w"
  unfolding traces_def by (metis snd_conv)

lemma traces_get_time: "traces os P tr \<Longrightarrow> aeGetTime os w = (r, w') \<Longrightarrow> tr w' = tr w"
  unfolding traces_def by (auto simp: aeGetTime_def split: prod.splits) (metis snd_conv)

lemma traces_add_ms: "traces os P tr \<Longrightarrow> aeAddMillisecondsToNow os d w = (r, w') \<Longrightarrow> tr w' = tr w"
  using traces_get_time [of os P tr w] by (auto simp: aeAddMillisecondsToNow_def Let_def split: prod.splits if_splits)

text \<open>The timers the current run has still to call.\<close>

definition pending :: "int \<Rightarrow> int \<Rightarrow> int \<Rightarrow> ('p, 'c) aeTimeEvent list \<Rightarrow> ('p, 'c) aeTimeEvent list" where
  "pending maxId s m ts = filter (\<lambda>te. te_id te \<le> maxId \<and> te_due s m te) ts"

definition timers_ms_ok :: "('p, 'c, 'a) aeEventLoop \<Rightarrow> bool" where
  "timers_ms_ok l \<longleftrightarrow> timers_ok l \<and> (\<forall>te \<in> set (timeEventHead l). ms_ok te)"

lemma pending_append: "pending k s m (xs @ ys) = pending k s m xs @ pending k s m ys"
  by (simp add: pending_def)

lemma pending_fresh: "\<forall>te \<in> set new. k < te_id te \<Longrightarrow> pending k s m new = []"
  by (auto simp: pending_def filter_empty_conv)

lemma pending_filter: "pending k s m (filter p ts) = filter p (pending k s m ts)"
  by (simp add: pending_def conj_commute)

lemma set_when_Some:
  assumes "te_set_when ts i sec msec = Some ts'"
  shows "ts' = map (\<lambda>te. if te_id te = i then te\<lparr>when_sec := sec, when_ms := msec\<rparr> else te) ts"
  using assms by (simp add: te_set_when_def split: if_splits)

lemma set_when_ids: "te_set_when ts i sec msec = Some ts' \<Longrightarrow> map te_id ts' = map te_id ts"
  by (drule set_when_Some) (simp add: o_def if_distrib cong: if_cong)

lemma pending_set_when:
  assumes "te_set_when ts i sec msec = Some ts'" "\<not> (sec < s \<or> s = sec \<and> msec \<le> m)"
  shows "pending k s m ts' = filter (\<lambda>t. te_id t \<noteq> i) (pending k s m ts)"
proof -
  have "pending k s m (map (\<lambda>te. if te_id te = i then te\<lparr>when_sec := sec, when_ms := msec\<rparr> else te) ts)
      = pending k s m (filter (\<lambda>t. te_id t \<noteq> i) ts)"
    using assms(2) by (induction ts) (auto simp: pending_def te_due_def)
  then show ?thesis using set_when_Some [OF assms(1)] by (simp add: pending_filter)
qed

section \<open>One callback\<close>

text \<open>
  After the callback of a pending timer and \<open>rearm_or_delete\<close>, the other timers are pending, the
  callback is in the log, and the loop is as well-formed as before.
\<close>

lemma timers_ms_ok_prepend:
  assumes "timers_ms_ok l" "timeEventHead l' = new @ timeEventHead l"
    and "timeEventNextId l \<le> timeEventNextId l'" "distinct (map te_id new)"
    and "\<forall>te \<in> set new. timeEventNextId l \<le> te_id te \<and> te_id te < timeEventNextId l' \<and> ms_ok te"
  shows "timers_ms_ok l'"
proof -
  have "te_id ` set new \<inter> te_id ` set (timeEventHead l) = {}"
    using assms(1,5) by (force simp: timers_ms_ok_def timers_ok_def)
  with assms show ?thesis by (fastforce simp: timers_ms_ok_def timers_ok_def)
qed

lemma rearm_step:
  assumes st: "steady_clock os clk" and po: "polite P clk" and ok: "timers_ms_ok l"
    and te: "te \<in> set (pending k s m (timeEventHead l))" and m: "0 \<le> m" "m < 1000"
    and now: "ms_of s m \<le> clk w" and ret: "ret = AE_NOMORE \<or> 0 < ret"
  shows "\<exists>l' w'. rearm_or_delete os P (te_id te) ret l w = Some (l', w') \<and> timers_ms_ok l'
    \<and> timeEventNextId l' = timeEventNextId l \<and> clk w \<le> clk w'
    \<and> pending k s m (timeEventHead l') = filter (\<lambda>t. te_id t \<noteq> te_id te) (pending k s m (timeEventHead l))
    \<and> (\<forall>tr. traces os P tr \<longrightarrow> tr w' = tr w)"
proof (cases "ret = AE_NOMORE")
  case False
  with ret have ret: "0 < ret" by simp
  obtain sec msec w1 where a: "aeAddMillisecondsToNow os ret w = ((sec, msec), w1)"
    by (metis surj_pair)
  note a' = add_ms_steady [OF st a less_imp_le [OF ret]]
  have mem: "te_id te \<in> te_id ` set (timeEventHead l)" using te by (simp add: pending_def)
  then obtain ts where ts: "te_set_when (timeEventHead l) (te_id te) sec msec = Some ts"
    by (simp add: te_set_when_def)
  have "\<not> (sec < s \<or> s = sec \<and> msec \<le> m)"
    using a' now ret m by (auto simp: ms_of_def)
  then have "pending k s m ts = filter (\<lambda>t. te_id t \<noteq> te_id te) (pending k s m (timeEventHead l))"
    by (rule pending_set_when [OF ts])
  moreover have "\<forall>tr. traces os P tr \<longrightarrow> tr w1 = tr w" using traces_add_ms [OF _ a] by blast
  moreover have "timers_ms_ok (l\<lparr>timeEventHead := ts\<rparr>)"
  proof -
    have "distinct (map te_id ts)" using ok set_when_ids [OF ts]
      by (simp add: timers_ms_ok_def timers_ok_def)
    moreover have "\<forall>t \<in> set ts. 0 \<le> te_id t \<and> te_id t < timeEventNextId l \<and> ms_ok t"
      using ok set_when_Some [OF ts] a' by (auto simp: timers_ms_ok_def timers_ok_def ms_ok_def)
    ultimately show ?thesis using ok by (simp add: timers_ms_ok_def timers_ok_def)
  qed
  ultimately show ?thesis
    using a' False by (auto simp: rearm_or_delete_def a ts)
next
  case True
  have mem: "te \<in> set (timeEventHead l)" using te by (simp add: pending_def)
  then obtain te' rest where u: "unlink (te_id te) (timeEventHead l) = Some (te', rest)"
    using unlink_None [of "te_id te" "timeEventHead l"] by fastforce
  have rest: "rest = filter (\<lambda>t. te_id t \<noteq> te_id te) (timeEventHead l)"
    using unlink_filter [OF _ u] ok by (simp add: timers_ms_ok_def timers_ok_def)
  have cnt: "pending k s m rest = filter (\<lambda>t. te_id t \<noteq> te_id te) (pending k s m (timeEventHead l))"
    using rest by (simp add: pending_filter)
  have ok': "timers_ms_ok (l\<lparr>timeEventHead := rest\<rparr>)"
    using ok rest by (auto simp: timers_ms_ok_def timers_ok_def distinct_map_filter)
  have free: "\<And>w. clk w \<le> clk (os_free os w)" using st by (simp add: steady_clock_def)
  show ?thesis
  proof (cases "finalizerProc te'")
    case None
    with True u cnt ok' free [of w] show ?thesis
      by (auto simp: rearm_or_delete_def aeDeleteTimeEvent_def traces_free)
  next
    case (Some f)
    obtain l2 w2 where f: "call_final P f (l\<lparr>timeEventHead := rest\<rparr>) (te_clientData te') w = Some (l2, w2)"
      and hd2: "timeEventHead l2 = timeEventHead (l\<lparr>timeEventHead := rest\<rparr>)"
        "timeEventNextId l2 = timeEventNextId (l\<lparr>timeEventHead := rest\<rparr>)" "clk w \<le> clk w2"
      using po unfolding polite_def by blast
    then have l2: "timeEventHead l2 = rest" "timeEventNextId l2 = timeEventNextId l" "clk w \<le> clk w2"
      by simp_all
    have "timers_ms_ok l2" using ok' l2 by (simp add: timers_ms_ok_def timers_ok_def)
    moreover have "clk w \<le> clk (os_free os w2)" using l2(3) free [of w2] by simp
    moreover have "\<forall>tr. traces os P tr \<longrightarrow> tr (os_free os w2) = tr w"
      using traces_final [OF _ f] traces_free by metis
    ultimately show ?thesis using True u Some f cnt l2
      by (auto simp: rearm_or_delete_def aeDeleteTimeEvent_def)
  qed
qed

lemma callback_step:
  assumes st: "steady_clock os clk" and po: "polite P clk" and ok: "timers_ms_ok l"
    and te: "te \<in> set (pending k s m (timeEventHead l))" and m: "0 \<le> m" "m < 1000"
    and now: "ms_of s m \<le> clk w" and k: "k < timeEventNextId l"
  shows "\<exists>ret l1 w1 l' w'. call_time P (timeProc te) l (te_id te) (te_clientData te) w = Some (ret, l1, w1)
    \<and> rearm_or_delete os P (te_id te) ret l1 w1 = Some (l', w') \<and> timers_ms_ok l'
    \<and> k < timeEventNextId l' \<and> clk w \<le> clk w'
    \<and> pending k s m (timeEventHead l') = filter (\<lambda>t. te_id t \<noteq> te_id te) (pending k s m (timeEventHead l))
    \<and> (\<forall>tr. traces os P tr \<longrightarrow> tr w' = tr w @ [te_call te])"
proof -
  obtain ret l1 w1 new where c: "call_time P (timeProc te) l (te_id te) (te_clientData te) w = Some (ret, l1, w1)"
    and ret: "ret = AE_NOMORE \<or> 0 < ret" and hd: "timeEventHead l1 = new @ timeEventHead l"
    and nx: "timeEventNextId l \<le> timeEventNextId l1" and d: "distinct (map te_id new)"
    and new: "\<forall>t \<in> set new. timeEventNextId l \<le> te_id t \<and> te_id t < timeEventNextId l1 \<and> ms_ok t"
    and w1: "clk w \<le> clk w1"
    using po unfolding polite_def by blast
  have ok1: "timers_ms_ok l1" using ok hd nx d new by (rule timers_ms_ok_prepend)
  have p: "pending k s m (timeEventHead l1) = pending k s m (timeEventHead l)"
    using new k by (auto simp: hd pending_append intro!: pending_fresh)
  have te1: "te \<in> set (pending k s m (timeEventHead l1))" using te p by simp
  from rearm_step [OF st po ok1 te1 m _ ret, of w1] now w1 obtain l' w' where
    "rearm_or_delete os P (te_id te) ret l1 w1 = Some (l', w')" "timers_ms_ok l'"
    "timeEventNextId l' = timeEventNextId l1" "clk w1 \<le> clk w'"
    "pending k s m (timeEventHead l') = filter (\<lambda>t. te_id t \<noteq> te_id te) (pending k s m (timeEventHead l1))"
    and tr: "\<forall>tr. traces os P tr \<longrightarrow> tr w' = tr w1"
    by auto
  moreover have "\<forall>tr. traces os P tr \<longrightarrow> tr w' = tr w @ [te_call te]"
    using tr traces_call [OF _ c] by (simp add: te_call_def)
  ultimately show ?thesis using c p nx k w1 by force
qed

section \<open>The loop\<close>

lemma time_loop_total:
  assumes st: "steady_clock os clk" and po: "polite P clk" and m: "0 \<le> m" "m < 1000"
  shows "\<lbrakk>timers_ms_ok l; ms_of s m \<le> clk w; k < timeEventNextId l; timeEventHead l = pre @ ts;
     pending k s m pre = []; c = length (pending k s m (timeEventHead l))\<rbrakk> \<Longrightarrow>
    \<exists>l' w'. time_loop os P k s m ts l w n = Some (n + int c, l', w')
      \<and> timers_ms_ok l' \<and> pending k s m (timeEventHead l') = [] \<and> clk w \<le> clk w'
      \<and> (\<forall>tr. traces os P tr \<longrightarrow> tr w' = tr w @ map te_call (pending k s m (timeEventHead l)))"
proof (induction "(c, length ts)" arbitrary: c ts pre l w n rule: wf_induct_rule
    [OF wf_lex_prod [OF wf_less_than wf_less_than]])
  case (1 c ts pre l w n)
  note ih = "1.hyps" and ok = "1.prems"(1) and now = "1.prems"(2) and k = "1.prems"(3)
  note hd = "1.prems"(4) and pre = "1.prems"(5) and c = "1.prems"(6)
  show ?case
  proof (cases ts)
    case Nil
    with hd pre c ok show ?thesis by (simp add: time_loop.simps)
  next
    case (Cons te rest)
    show ?thesis
    proof (cases "te_id te \<le> k \<and> te_due s m te")
      case False
      then have step: "time_loop os P k s m ts l w n = time_loop os P k s m rest l w n"
        by (subst time_loop.simps) (auto simp: Cons)
      have "\<exists>l' w'. time_loop os P k s m rest l w n = Some (n + int c, l', w')
        \<and> timers_ms_ok l' \<and> pending k s m (timeEventHead l') = [] \<and> clk w \<le> clk w'
        \<and> (\<forall>tr. traces os P tr \<longrightarrow> tr w' = tr w @ map te_call (pending k s m (timeEventHead l)))"
        by (rule ih [of c rest l w "pre @ [te]" n])
           (use False ok now k hd pre c Cons in \<open>auto simp: pending_append pending_def\<close>)
      then show ?thesis using step by simp
    next
      case True
      have q: "pending k s m (timeEventHead l) = te # pending k s m rest"
        using True hd Cons pre by (simp add: pending_append) (simp add: pending_def)
      then have te: "te \<in> set (pending k s m (timeEventHead l))" by simp
      have "te_id te \<notin> te_id ` set rest" using ok hd Cons by (simp add: timers_ms_ok_def timers_ok_def)
      then have "filter (\<lambda>t. te_id t \<noteq> te_id te) (pending k s m rest) = pending k s m rest"
        by (auto simp: pending_def image_iff intro!: filter_cong)
      with callback_step [OF st po ok te m now k] obtain ret l1 w1 l2 w2 where
        call: "call_time P (timeProc te) l (te_id te) (te_clientData te) w = Some (ret, l1, w1)"
          "rearm_or_delete os P (te_id te) ret l1 w1 = Some (l2, w2)"
        and l2: "timers_ms_ok l2" "k < timeEventNextId l2" "clk w \<le> clk w2"
        and q2: "pending k s m (timeEventHead l2) = pending k s m rest"
        and tr: "\<forall>tr. traces os P tr \<longrightarrow> tr w2 = tr w @ [te_call te]"
        unfolding q by auto
      let ?c2 = "length (pending k s m (timeEventHead l2))"
      have step: "time_loop os P k s m ts l w n = time_loop os P k s m (timeEventHead l2) l2 w2 (n + 1)"
        by (subst time_loop.simps) (use True call in \<open>auto simp: Cons\<close>)
      have "\<exists>l' w'. time_loop os P k s m (timeEventHead l2) l2 w2 (n + 1) = Some (n + 1 + int ?c2, l', w')
        \<and> timers_ms_ok l' \<and> pending k s m (timeEventHead l') = [] \<and> clk w2 \<le> clk w'
        \<and> (\<forall>tr. traces os P tr \<longrightarrow> tr w' = tr w2 @ map te_call (pending k s m (timeEventHead l2)))"
        by (rule ih [of ?c2 "timeEventHead l2" l2 w2 "[]" "n + 1"])
           (use l2 q q2 c now in \<open>auto simp: pending_def\<close>)
      then obtain l' w' where "time_loop os P k s m (timeEventHead l2) l2 w2 (n + 1) = Some (n + 1 + int ?c2, l', w')"
        "timers_ms_ok l'" "pending k s m (timeEventHead l') = []" "clk w2 \<le> clk w'"
        and tr2: "\<forall>tr. traces os P tr \<longrightarrow> tr w' = tr w2 @ map te_call (pending k s m (timeEventHead l2))" by blast
      moreover have "n + int c = n + 1 + int ?c2" using q q2 c by simp
      moreover have "clk w \<le> clk w'" using l2(3) calculation(4) by simp
      moreover have "\<forall>tr. traces os P tr \<longrightarrow> tr w' = tr w @ map te_call (pending k s m (timeEventHead l))"
      proof (intro allI impI)
        fix tr assume t: "traces os P tr"
        show "tr w' = tr w @ map te_call (pending k s m (timeEventHead l))"
          using tr [rule_format, OF t] tr2 [rule_format, OF t] q q2 by simp
      qed
      ultimately show ?thesis using step by simp
    qed
  qed
qed

end
