(* ===== verification/Ae_Dispatch.thy ===== *)
theory Ae_Dispatch
  imports Ae_Timers
begin

text \<open>
  Dispatching file events. \<open>tame\<close> says that a file callback has a defined result on a
  well-formed loop and leaves it well-formed, without touching the array of fired events; the
  locale \<open>ae_poller\<close> adds to the contract of the multiplexing layer that a poll fills the first
  entries of that array with descriptors of the loop. Then processing file events never reads
  outside an array nor calls through an unset pointer.
\<close>

definition tame :: "('p, 'c, 'a, 'w) procs \<Rightarrow> (('p, 'c, 'a) aeEventLoop \<Rightarrow> bool) \<Rightarrow> bool" where
  "tame P usable \<longleftrightarrow>
     (\<forall>p l fd c m w. ae_wf l \<longrightarrow> usable l \<longrightarrow>
        (\<exists>l' w'. call_file P p l fd c m w = Some (l', w') \<and> ae_wf l' \<and> usable l'
           \<and> fired l' = fired l \<and> setsize l' = setsize l))"

definition fired_valid :: "nat \<Rightarrow> ('p, 'c, 'a) aeEventLoop \<Rightarrow> bool" where
  "fired_valid n l \<longleftrightarrow> n \<le> length (fired l)
     \<and> (\<forall>j < n. \<exists>f. fired l ! j = Some f \<and> 0 \<le> fired_fd f \<and> fired_fd f < setsize l)"

lemma fired_valid_cong:
  "fired l' = fired l \<Longrightarrow> setsize l' = setsize l \<Longrightarrow> fired_valid n l' = fired_valid n l"
  by (simp add: fired_valid_def)

lemma fired_at_valid:
  assumes "fired_valid n l" "j < n"
  obtains f where "fired_at l j = Some f" "0 \<le> fired_fd f" "fired_fd f < setsize l"
  using assms by (force simp: fired_valid_def fired_at_def)

text \<open>One of the two conditional calls of the loop body.\<close>

lemma call_registered:
  assumes "ae_wf l" "usable l" "tame P usable" "event_at l fd = Some fe" "fe_mask fe \<noteq> AE_NONE"
    and "proc = Some p"
  shows "\<exists>l' w'. do { p \<leftarrow> proc; c \<leftarrow> fe_clientData fe; call_file P p l fd c m w } = Some (l', w')
    \<and> ae_wf l' \<and> usable l' \<and> fired l' = fired l \<and> setsize l' = setsize l"
proof -
  have "fe_ok fe" using assms(1,4) by (auto simp: ae_wf_def event_at_Some)
  with assms(5) obtain c where "fe_clientData fe = Some c" by (auto simp: fe_ok_def)
  with assms show ?thesis by (simp add: tame_def)
qed

lemma has_and_nonzero: "has (x AND m) b \<Longrightarrow> x \<noteq> AE_NONE"
  by (auto simp: has_def AE_NONE_def)

lemma has_and_left: "has (x AND m) AE_READABLE \<Longrightarrow> has x AE_READABLE"
  "has (x AND m) AE_WRITABLE \<Longrightarrow> has x AE_WRITABLE"
  by (simp_all add: has_readable has_writable bit_and_iff)

lemma dispatch_safe:
  assumes wf: "ae_wf l" and us: "usable l" and P: "tame P usable" and n: "fired_valid n l" "j < n"
  shows "\<exists>l' w'. dispatch P j l w = Some (l', w') \<and> ae_wf l' \<and> usable l'
    \<and> fired l' = fired l \<and> setsize l' = setsize l"
proof -
  from n obtain f where f: "fired_at l j = Some f" "0 \<le> fired_fd f" "fired_fd f < setsize l"
    by (rule fired_at_valid)
  define fe where "fe = events l ! nat (fired_fd f)"
  have fe: "event_at l (fired_fd f) = Some fe" using event_at_defined [OF wf f(2,3)] fe_def by simp
  define rd where "rd = has (fe_mask fe AND fired_mask f) AE_READABLE"
  have "\<exists>l1 w1. (if rd then do { p \<leftarrow> rfileProc fe; c \<leftarrow> fe_clientData fe;
            (l, w) \<leftarrow> call_file P p l (fired_fd f) c (fired_mask f) w; Some (True, l, w) }
          else Some (False, l, w)) = Some (rd, l1, w1) \<and> ae_wf l1 \<and> usable l1
          \<and> fired l1 = fired l \<and> setsize l1 = setsize l"
  proof (cases rd)
    case True
    then have h: "has (fe_mask fe) AE_READABLE" "fe_mask fe \<noteq> AE_NONE"
      unfolding rd_def by (auto dest: has_and_left has_and_nonzero)
    have "fe_ok fe" using wf fe by (auto simp: ae_wf_def event_at_Some)
    with h obtain p where p: "rfileProc fe = Some p" by (auto simp: fe_ok_def)
    from call_registered [OF wf us P fe h(2) p, of "fired_mask f" w] True
    show ?thesis by (auto simp: bind_eq_Some_conv)
  qed (use wf us in simp)
  then obtain l1 w1 where r: "(if rd then do { p \<leftarrow> rfileProc fe; c \<leftarrow> fe_clientData fe;
            (l, w) \<leftarrow> call_file P p l (fired_fd f) c (fired_mask f) w; Some (True, l, w) }
          else Some (False, l, w)) = Some (rd, l1, w1)"
    and l1: "ae_wf l1" "usable l1" "fired l1 = fired l" "setsize l1 = setsize l" by blast
  define fe1 where "fe1 = events l1 ! nat (fired_fd f)"
  have fe1: "event_at l1 (fired_fd f) = Some fe1"
    using event_at_defined [OF l1(1) f(2)] f(3) l1(4) fe1_def by simp
  have disp: "dispatch P j l w =
      (if has (fe_mask fe1 AND fired_mask f) AE_WRITABLE
       then (if \<not> rd \<or> wfileProc fe1 \<noteq> rfileProc fe1
             then do { p \<leftarrow> wfileProc fe1; c \<leftarrow> fe_clientData fe1;
                       call_file P p l1 (fired_fd f) c (fired_mask f) w1 }
             else Some (l1, w1))
       else Some (l1, w1))"
    using r by (simp add: dispatch_def f(1) fe fe1 rd_def [symmetric])
  show ?thesis
  proof (cases "has (fe_mask fe1 AND fired_mask f) AE_WRITABLE \<and> (\<not> rd \<or> wfileProc fe1 \<noteq> rfileProc fe1)")
    case True
    then have h: "has (fe_mask fe1) AE_WRITABLE" "fe_mask fe1 \<noteq> AE_NONE"
      by (auto dest: has_and_left has_and_nonzero)
    have "fe_ok fe1" using l1(1) fe1 by (auto simp: ae_wf_def event_at_Some)
    with h obtain p where p: "wfileProc fe1 = Some p" by (auto simp: fe_ok_def)
    from call_registered [OF l1(1,2) P fe1 h(2) p, of "fired_mask f" w1] True l1
    show ?thesis by (simp add: disp)
  next
    case False
    with l1 show ?thesis by (auto simp: disp)
  qed
qed

lemma file_loop_safe:
  assumes "ae_wf l" "usable l" "tame P usable" "fired_valid (j + k) l"
  shows "\<exists>l' w'. file_loop P j k l w = Some (l', w') \<and> ae_wf l' \<and> usable l'"
  using assms
proof (induction k arbitrary: j l w)
  case (Suc k)
  from dispatch_safe [OF Suc.prems(1-4), of j w] obtain l1 w1 where
    d: "dispatch P j l w = Some (l1, w1)" and l1: "ae_wf l1" "usable l1"
      "fired l1 = fired l" "setsize l1 = setsize l" by auto
  have "fired_valid (Suc j + k) l1" using Suc.prems(4) fired_valid_cong [OF l1(3,4)] by simp
  from Suc.IH [OF l1(1,2) Suc.prems(3) this] show ?case by (simp add: d)
qed simp

locale ae_poller = ae_frame api
  for api :: "('p, 'c, 'a, 'w) ae_api" +
  fixes usable :: "('p, 'c, 'a) aeEventLoop \<Rightarrow> bool"
  assumes poll_defined: "ae_wf l \<Longrightarrow> usable l \<Longrightarrow>
      \<exists>n l' w'. api_poll api l tv w = Some (n, l', w') \<and> usable l' \<and> fired_valid (nat n) l'"
begin

lemma file_events_safe:
  assumes wf: "ae_wf l" and us: "usable l" and P: "tame P usable"
    and fl: "has flags AE_FILE_EVENTS" "\<not> has flags AE_TIME_EVENTS"
  shows "\<exists>n l' w'. aeProcessEvents os api P l flags w = Some (n, l', w') \<and> ae_wf l' \<and> usable l' \<and> 0 \<le> n"
proof (cases "maxfd l = - 1")
  case True
  with assms show ?thesis by (simp add: aeProcessEvents_def)
next
  case False
  obtain tv w1 where t: "poll_timeout os l flags w = (tv, w1)" by fastforce
  from poll_defined [OF wf us, of tv w1] obtain n l1 w2 where
    p: "api_poll api l tv w1 = Some (n, l1, w2)" "usable l1" "fired_valid (nat n) l1" by blast
  have "ae_wf l1" using wf p(1) by (rule poll_wf)
  from file_loop_safe [OF this p(2) P, of 0 "nat n" w2] p(3) obtain l2 w3 where
    "file_loop P 0 (nat n) l1 w2 = Some (l2, w3)" "ae_wf l2" "usable l2" by auto
  with False fl t p(1) show ?thesis by (simp add: aeProcessEvents_def)
qed

end

end
