(* ===== verification/Ae_Select.thy ===== *)
theory Ae_Select
  imports Ae_Dispatch
begin

text \<open>
  The \<open>select(2)\<close> multiplexing layer, \<open>src/src/ae/ae_select.cc\<close>. \<open>ae.cc\<close> includes it when
  neither \<open>HAVE_EVPORT\<close> nor \<open>HAVE_EPOLL\<close> nor \<open>HAVE_KQUEUE\<close> is defined, which is how
  \<open>src/src/ae/makefile\<close> builds it. An \<open>fd_set\<close> is a set of descriptors; the macros
  \<open>FD_SET\<close>, \<open>FD_CLR\<close> and \<open>FD_ISSET\<close> are undefined outside \<open>0 .. FD_SETSIZE - 1\<close>.
\<close>

definition FD_SETSIZE :: int where "FD_SETSIZE = 1024"

definition fd_ok :: "int \<Rightarrow> bool" where
  "fd_ok fd \<longleftrightarrow> 0 \<le> fd \<and> fd < FD_SETSIZE"

record select_state =
  rfds :: "int set"
  wfds :: "int set"
  rfds_copy :: "int set"
  wfds_copy :: "int set"

definition SIZEOF_select_state :: int where "SIZEOF_select_state = 512"

definition select_aeApiCreate ::
  "'w os \<Rightarrow> ('p, 'c, select_state) aeEventLoop \<Rightarrow> 'w
    \<Rightarrow> int \<times> ('p, 'c, select_state) aeEventLoop \<times> 'w" where
  "select_aeApiCreate os l w =
     (let (ok, w) = os_malloc os SIZEOF_select_state w
      in if \<not> ok then (- 1, l, w)
         else (0, l\<lparr>apidata := Some \<lparr>rfds = {}, wfds = {}, rfds_copy = {}, wfds_copy = {}\<rparr>\<rparr>, w))"

definition select_aeApiFree ::
  "'w os \<Rightarrow> ('p, 'c, select_state) aeEventLoop \<Rightarrow> 'w \<Rightarrow> 'w option" where
  "select_aeApiFree os l w = Some (os_free os w)"

definition select_aeApiAddEvent ::
  "('p, 'c, select_state) aeEventLoop \<Rightarrow> int \<Rightarrow> mask \<Rightarrow> 'w
    \<Rightarrow> (int \<times> ('p, 'c, select_state) aeEventLoop \<times> 'w) option" where
  "select_aeApiAddEvent l fd m w =
     do {
       st \<leftarrow> apidata l;
       st \<leftarrow> (if has m AE_READABLE
              then (if fd_ok fd then Some (st\<lparr>rfds := insert fd (rfds st)\<rparr>) else None)
              else Some st);
       st \<leftarrow> (if has m AE_WRITABLE
              then (if fd_ok fd then Some (st\<lparr>wfds := insert fd (wfds st)\<rparr>) else None)
              else Some st);
       Some (0, l\<lparr>apidata := Some st\<rparr>, w)
     }"

definition select_aeApiDelEvent ::
  "('p, 'c, select_state) aeEventLoop \<Rightarrow> int \<Rightarrow> mask \<Rightarrow> 'w
    \<Rightarrow> (('p, 'c, select_state) aeEventLoop \<times> 'w) option" where
  "select_aeApiDelEvent l fd m w =
     do {
       st \<leftarrow> apidata l;
       st \<leftarrow> (if has m AE_READABLE
              then (if fd_ok fd then Some (st\<lparr>rfds := rfds st - {fd}\<rparr>) else None)
              else Some st);
       st \<leftarrow> (if has m AE_WRITABLE
              then (if fd_ok fd then Some (st\<lparr>wfds := wfds st - {fd}\<rparr>) else None)
              else Some st);
       Some (l\<lparr>apidata := Some st\<rparr>, w)
     }"

text \<open>
  The loop of \<open>aeApiPoll\<close> over the descriptors \<open>j .. j + k - 1\<close>, filling \<open>fired\<close> from
  position \<open>n\<close> on. \<open>FD_ISSET\<close> is asked for the conditions that are registered.
\<close>

fun select_scan ::
  "int set \<Rightarrow> int set \<Rightarrow> nat \<Rightarrow> nat \<Rightarrow> nat \<Rightarrow> ('p, 'c, 'a) aeEventLoop
    \<Rightarrow> (nat \<times> ('p, 'c, 'a) aeEventLoop) option" where
  "select_scan rs ws j 0 n l = Some (n, l)"
| "select_scan rs ws j (Suc k) n l =
     do {
       fe \<leftarrow> event_at l (int j);
       if fe_mask fe = AE_NONE then select_scan rs ws (Suc j) k n l
       else if (has (fe_mask fe) AE_READABLE \<or> has (fe_mask fe) AE_WRITABLE) \<and> \<not> fd_ok (int j) then None
       else
         (let m = (if has (fe_mask fe) AE_READABLE \<and> int j \<in> rs then AE_READABLE else 0)
                  OR (if has (fe_mask fe) AE_WRITABLE \<and> int j \<in> ws then AE_WRITABLE else 0)
          in if n < length (fired l)
             then select_scan rs ws (Suc j) k (Suc n)
                    (l\<lparr>fired := (fired l)[n := Some \<lparr>fired_fd = int j, fired_mask = m\<rparr>]\<rparr>)
             else None)
     }"

definition select_aeApiPoll ::
  "'w os \<Rightarrow> ('p, 'c, select_state) aeEventLoop \<Rightarrow> timeval option \<Rightarrow> 'w
    \<Rightarrow> (int \<times> ('p, 'c, select_state) aeEventLoop \<times> 'w) option" where
  "select_aeApiPoll os l tvp w =
     do {
       st \<leftarrow> apidata l;
       let ((retval, rs, ws), w) = os_select os (maxfd l + 1) (rfds st) (wfds st) tvp w;
       let l = l\<lparr>apidata := Some (st\<lparr>rfds_copy := rs, wfds_copy := ws\<rparr>)\<rparr>;
       if 0 < retval
       then do { (n, l) \<leftarrow> select_scan rs ws 0 (nat (maxfd l + 1)) 0 l; Some (int n, l, w) }
       else Some (0, l, w)
     }"

definition select_api :: "'w os \<Rightarrow> ('p, 'c, select_state, 'w) ae_api" where
  "select_api os =
     \<lparr>api_create = select_aeApiCreate os, api_free = select_aeApiFree os,
      api_add = select_aeApiAddEvent, api_del = select_aeApiDelEvent,
      api_poll = select_aeApiPoll os, api_name = ''select''\<rparr>"

section \<open>The layer meets the contract\<close>

definition select_watching :: "('p, 'c, select_state) aeEventLoop \<Rightarrow> 'w \<Rightarrow> int \<Rightarrow> mask" where
  "select_watching l w fd =
     (case apidata l of
        None \<Rightarrow> 0
      | Some st \<Rightarrow> rw (fd \<in> rfds st) (fd \<in> wfds st))"

lemmas select_api_simps = select_api_def select_aeApiCreate_def select_aeApiFree_def
  select_aeApiAddEvent_def select_aeApiDelEvent_def select_aeApiPoll_def

lemma select_scan_frame:
  "select_scan rs ws j k n l = Some (n', l') \<Longrightarrow>
     \<exists>f. l' = l\<lparr>fired := f\<rparr> \<and> length f = length (fired l)"
proof (induction k arbitrary: j n l)
  case 0
  then have "l' = l\<lparr>fired := fired l\<rparr>" by simp
  then show ?case by blast
next
  case (Suc k)
  from Suc.prems obtain fe where fe: "event_at l (int j) = Some fe"
    by (auto simp: bind_eq_Some_conv)
  show ?case
  proof (cases "fe_mask fe = AE_NONE")
    case True
    with Suc.prems fe have "select_scan rs ws (Suc j) k n l = Some (n', l')" by simp
    then show ?thesis by (rule Suc.IH)
  next
    case False
    with Suc.prems fe obtain x where
      "select_scan rs ws (Suc j) k (Suc n) (l\<lparr>fired := (fired l)[n := x]\<rparr>) = Some (n', l')"
      by (auto simp: Let_def split: if_splits)
    from Suc.IH [OF this] show ?thesis by auto
  qed
qed

lemma select_add_Some:
  assumes "select_aeApiAddEvent l fd m w = Some (r, l', w')"
  obtains st where "apidata l = Some st" "r = 0" "w' = w"
    "l' = l\<lparr>apidata := Some (st\<lparr>rfds := (if has m AE_READABLE then insert fd (rfds st) else rfds st),
                               wfds := (if has m AE_WRITABLE then insert fd (wfds st) else wfds st)\<rparr>)\<rparr>"
proof -
  from assms obtain st where st: "apidata l = Some st"
    by (cases "apidata l") (simp_all add: select_aeApiAddEvent_def)
  show thesis
    by (rule that [OF st]) (use assms st in \<open>auto simp: select_aeApiAddEvent_def split: if_splits\<close>)
qed

lemma select_del_Some:
  assumes "select_aeApiDelEvent l fd m w = Some (l', w')"
  obtains st where "apidata l = Some st" "w' = w"
    "l' = l\<lparr>apidata := Some (st\<lparr>rfds := (if has m AE_READABLE then rfds st - {fd} else rfds st),
                               wfds := (if has m AE_WRITABLE then wfds st - {fd} else wfds st)\<rparr>)\<rparr>"
proof -
  from assms obtain st where st: "apidata l = Some st"
    by (cases "apidata l") (simp_all add: select_aeApiDelEvent_def)
  show thesis
    by (rule that [OF st]) (use assms st in \<open>auto simp: select_aeApiDelEvent_def split: if_splits\<close>)
qed

lemma select_poll_Some:
  assumes "select_aeApiPoll os l tv w = Some (n, l', w')"
  obtains st rs ws rv l1 where "apidata l = Some st"
    "os_select os (maxfd l + 1) (rfds st) (wfds st) tv w = ((rv, rs, ws), w')"
    "l1 = l\<lparr>apidata := Some (st\<lparr>rfds_copy := rs, wfds_copy := ws\<rparr>)\<rparr>"
    "if 0 < rv then 0 \<le> n \<and> select_scan rs ws 0 (nat (maxfd l + 1)) 0 l1 = Some (nat n, l')
     else n = 0 \<and> l' = l1"
proof -
  from assms obtain st where st: "apidata l = Some st"
    by (auto simp: select_aeApiPoll_def bind_eq_Some_conv)
  obtain rv rs ws w1 where o: "os_select os (maxfd l + 1) (rfds st) (wfds st) tv w = ((rv, rs, ws), w1)"
    by (metis surj_pair)
  let ?l1 = "l\<lparr>apidata := Some (st\<lparr>rfds_copy := rs, wfds_copy := ws\<rparr>)\<rparr>"
  have "w' = w1 \<and> (if 0 < rv then 0 \<le> n \<and> select_scan rs ws 0 (nat (maxfd l + 1)) 0 ?l1 = Some (nat n, l')
     else n = 0 \<and> l' = ?l1)"
    using assms by (auto simp: select_aeApiPoll_def st o Let_def bind_eq_Some_conv split: if_splits)
  with st o that show thesis by blast
qed

lemma select_poll_frame:
  assumes "select_aeApiPoll os l tv w = Some (n, l', w')"
  shows "\<exists>a f. l' = l\<lparr>apidata := a, fired := f\<rparr> \<and> length f = length (fired l)"
  using assms
proof (rule select_poll_Some)
  fix st rs ws rv l1
  assume l1: "l1 = l\<lparr>apidata := Some (st\<lparr>rfds_copy := rs, wfds_copy := ws\<rparr>)\<rparr>"
    and c: "if 0 < rv then 0 \<le> n \<and> select_scan rs ws 0 (nat (maxfd l + 1)) 0 l1 = Some (nat n, l')
         else n = 0 \<and> l' = l1"
  have "\<exists>f. l' = l1\<lparr>fired := f\<rparr> \<and> length f = length (fired l1)"
  proof (cases "0 < rv")
    case True
    with c have "select_scan rs ws 0 (nat (maxfd l + 1)) 0 l1 = Some (nat n, l')" by simp
    then show ?thesis by (rule select_scan_frame)
  next
    case False
    with c have "l' = l1\<lparr>fired := fired l1\<rparr>" by simp
    then show ?thesis by blast
  qed
  then show ?thesis using l1 by auto
qed

lemma select_add_watches:
  assumes "select_aeApiAddEvent l fd m w = Some (r, l', w')" "select_watching l w fd = x"
    and "rw_mask x" "rw_mask m"
  shows "select_watching l' w' = (select_watching l w)(fd := x OR m)"
proof (rule select_add_Some [OF assms(1)])
  fix st assume st: "apidata l = Some st" and l': "l' = l\<lparr>apidata := Some (st\<lparr>rfds :=
      (if has m AE_READABLE then insert fd (rfds st) else rfds st),
       wfds := (if has m AE_WRITABLE then insert fd (wfds st) else wfds st)\<rparr>)\<rparr>"
  have x: "bit x 0 \<longleftrightarrow> fd \<in> rfds st" "bit x (Suc 0) \<longleftrightarrow> fd \<in> wfds st"
    using assms(2) st by (auto simp: select_watching_def)
  have "select_watching l' w' fd = x OR m"
    by (rule rw_mask_eqI)
       (use assms(3,4) st in \<open>auto simp: rw_mask_or select_watching_def l' x
          has_readable has_writable bit_or_iff\<close>)
  then show ?thesis using st by (auto simp: select_watching_def l')
qed

lemma select_del_watches:
  assumes "select_aeApiDelEvent l fd m w = Some (l', w')" "select_watching l w fd = x" "rw_mask x"
  shows "select_watching l' w' = (select_watching l w)(fd := x AND NOT m)"
proof (rule select_del_Some [OF assms(1)])
  fix st assume st: "apidata l = Some st" and l': "l' = l\<lparr>apidata := Some (st\<lparr>rfds :=
      (if has m AE_READABLE then rfds st - {fd} else rfds st),
       wfds := (if has m AE_WRITABLE then wfds st - {fd} else wfds st)\<rparr>)\<rparr>"
  have x: "bit x 0 \<longleftrightarrow> fd \<in> rfds st" "bit x (Suc 0) \<longleftrightarrow> fd \<in> wfds st"
    using assms(2) st by (auto simp: select_watching_def)
  have "select_watching l' w' fd = x AND NOT m"
    by (rule rw_mask_eqI)
       (use assms(3) st in \<open>auto simp: rw_mask_andnot select_watching_def l' x
          has_readable has_writable bit_and_iff bit_not_iff\<close>)
  then show ?thesis using st by (auto simp: select_watching_def l')
qed

interpretation select: ae_multiplexer "select_api os" select_watching for os :: "'w os"
proof
  fix l :: "('p, 'c, select_state) aeEventLoop" and l' fd m w r w' n tv fe
  show "api_add (select_api os) l fd m w = Some (r, l', w') \<Longrightarrow> \<exists>a. l' = l\<lparr>apidata := a\<rparr>"
    by (auto simp: select_api_def elim!: select_add_Some)
  show "api_del (select_api os) l fd m w = Some (l', w') \<Longrightarrow> \<exists>a. l' = l\<lparr>apidata := a\<rparr>"
    by (auto simp: select_api_def elim!: select_del_Some)
  show "\<exists>a f. l' = l\<lparr>apidata := a, fired := f\<rparr> \<and> length f = length (fired l)"
    if poll: "api_poll (select_api os) l tv w = Some (n, l', w')"
    using poll by (simp add: select_api_def select_poll_frame)
  show "api_create (select_api os) l w = (r, l', w') \<Longrightarrow> \<exists>a. l' = l\<lparr>apidata := a\<rparr>"
    by (auto simp: select_api_simps split: prod.splits if_splits intro: exI [of _ "apidata l"])
  show "apidata l' = apidata l \<Longrightarrow> select_watching l' w = select_watching l w"
    by (rule ext) (simp add: select_watching_def)
  show "api_add (select_api os) l fd m w = Some (- 1, l', w') \<Longrightarrow> select_watching l' w' = select_watching l w"
    by (auto simp: select_api_def elim!: select_add_Some)
  show "select_watching l' w' = (select_watching l w)(fd := fe_mask fe OR m)"
    if "api_add (select_api os) l fd m w = Some (r, l', w')" "r \<noteq> - 1" "event_at l fd = Some fe"
      "select_watching l w fd = fe_mask fe" "rw_mask (fe_mask fe)" "rw_mask m"
    using that by (intro select_add_watches) (simp_all add: select_api_def)
  show "select_watching l' w' = (select_watching l w)(fd := fe_mask fe)"
    if "api_del (select_api os) l fd m w = Some (l', w')" "event_at l fd = Some fe"
      "fe_mask fe = select_watching l w fd AND NOT m" "select_watching l w fd \<noteq> AE_NONE"
      "rw_mask (select_watching l w fd)"
    using that by (simp add: select_api_def select_del_watches)
qed

section \<open>What a poll reports\<close>

text \<open>
  The entries a successful \<open>select\<close> leaves in \<open>fired\<close>: one per registered descriptor among
  \<open>j .. j + k - 1\<close>, in ascending order, whether or not the descriptor is ready.
\<close>

definition select_entry :: "int set \<Rightarrow> int set \<Rightarrow> ('p, 'c, 'a) aeEventLoop \<Rightarrow> nat \<Rightarrow> aeFiredEvent" where
  "select_entry rs ws l i =
     \<lparr>fired_fd = int i,
      fired_mask = rw (has (mask_at l i) AE_READABLE \<and> int i \<in> rs)
                      (has (mask_at l i) AE_WRITABLE \<and> int i \<in> ws)\<rparr>"

definition select_entries ::
  "int set \<Rightarrow> int set \<Rightarrow> ('p, 'c, 'a) aeEventLoop \<Rightarrow> nat \<Rightarrow> nat \<Rightarrow> aeFiredEvent list" where
  "select_entries rs ws l j k =
     map (select_entry rs ws l) (filter (\<lambda>i. mask_at l i \<noteq> AE_NONE) [j..<j + k])"

lemma select_entries_fired: "select_entries rs ws (l\<lparr>fired := f\<rparr>) j k = select_entries rs ws l j k"
  by (simp add: select_entries_def select_entry_def mask_at_def)

lemma select_entries_Suc:
  "select_entries rs ws l j (Suc k) =
     (if mask_at l j \<noteq> AE_NONE then [select_entry rs ws l j] else []) @ select_entries rs ws l (Suc j) k"
proof -
  have "[j..<j + Suc k] = j # [Suc j..<Suc j + k]" by (simp add: upt_conv_Cons)
  then show ?thesis by (simp add: select_entries_def del: upt_Suc)
qed

lemma take_update_snoc: "n < length xs \<Longrightarrow> take (Suc n) (xs[n := x]) = take n xs @ [x]"
  by (simp add: take_Suc_conv_app_nth)

text \<open>The registered descriptors fit in an \<open>fd_set\<close>.\<close>

definition fds_in_range :: "('p, 'c, 'a) aeEventLoop \<Rightarrow> bool" where
  "fds_in_range l \<longleftrightarrow> (\<forall>i < length (events l). mask_at l i \<noteq> AE_NONE \<longrightarrow> int i < FD_SETSIZE)"

lemma fds_in_range_cong: "events l' = events l \<Longrightarrow> fds_in_range l' = fds_in_range l"
  by (simp add: fds_in_range_def mask_at_def)

lemma select_scan_result:
  assumes "fds_in_range l" "j + k \<le> length (events l)" "n \<le> j" "length (fired l) = length (events l)"
  shows "\<exists>f. select_scan rs ws j k n l = Some (n + length (select_entries rs ws l j k), l\<lparr>fired := f\<rparr>)
    \<and> length f = length (fired l)
    \<and> take (n + length (select_entries rs ws l j k)) f
        = take n (fired l) @ map Some (select_entries rs ws l j k)"
  using assms
proof (induction k arbitrary: j n l)
  case 0
  show ?case by (rule exI [of _ "fired l"]) (simp add: select_entries_def)
next
  case (Suc k)
  have ev: "event_at l (int j) = Some (events l ! j)" using Suc.prems by (simp add: event_at_def)
  show ?case
  proof (cases "mask_at l j = AE_NONE")
    case True
    have step: "select_scan rs ws j (Suc k) n l = select_scan rs ws (Suc j) k n l"
      using True by (simp add: ev mask_at_def)
    show ?thesis
      using Suc.IH [of l "Suc j" n] Suc.prems True by (simp add: step select_entries_Suc del: select_scan.simps)
  next
    case False
    let ?l = "l\<lparr>fired := (fired l)[n := Some (select_entry rs ws l j)]\<rparr>"
    have n: "n < length (fired l)" using Suc.prems by simp
    have "fd_ok (int j)" using Suc.prems False by (auto simp: fds_in_range_def fd_ok_def)
    then have step: "select_scan rs ws j (Suc k) n l = select_scan rs ws (Suc j) k (Suc n) ?l"
      using False n by (simp add: ev mask_at_def select_entry_def rw_def Let_def)
    have "\<exists>f. select_scan rs ws (Suc j) k (Suc n) ?l
          = Some (Suc n + length (select_entries rs ws ?l (Suc j) k), ?l\<lparr>fired := f\<rparr>)
        \<and> length f = length (fired ?l)
        \<and> take (Suc n + length (select_entries rs ws ?l (Suc j) k)) f
            = take (Suc n) (fired ?l) @ map Some (select_entries rs ws ?l (Suc j) k)"
      by (rule Suc.IH) (use Suc.prems fds_in_range_cong [of ?l l] in simp_all)
    then show ?thesis using False n
      by (simp add: step select_entries_fired select_entries_Suc take_update_snoc del: select_scan.simps)
  qed
qed

text \<open>A loop the layer has been created for.\<close>

definition select_usable :: "('p, 'c, select_state) aeEventLoop \<Rightarrow> bool" where
  "select_usable l \<longleftrightarrow> apidata l \<noteq> None"

lemma select_poll_result:
  assumes wf: "ae_wf l" and rg: "fds_in_range l" and st: "apidata l = Some st"
    and sel: "os_select os (maxfd l + 1) (rfds st) (wfds st) tv w = ((rv, rs, ws), w')" "0 < rv"
  shows "\<exists>l'. select_aeApiPoll os l tv w = Some (int (length (select_entries rs ws l 0 (nat (maxfd l + 1)))), l', w')
    \<and> take (length (select_entries rs ws l 0 (nat (maxfd l + 1)))) (fired l')
        = map Some (select_entries rs ws l 0 (nat (maxfd l + 1)))
    \<and> apidata l' = Some (st\<lparr>rfds_copy := rs, wfds_copy := ws\<rparr>)"
proof -
  let ?k = "nat (maxfd l + 1)"
  let ?l = "l\<lparr>apidata := Some (st\<lparr>rfds_copy := rs, wfds_copy := ws\<rparr>)\<rparr>"
  have eq: "select_entries rs ws ?l 0 ?k = select_entries rs ws l 0 ?k"
    by (simp add: select_entries_def select_entry_def mask_at_def)
  have "\<exists>f. select_scan rs ws 0 ?k 0 ?l = Some (0 + length (select_entries rs ws ?l 0 ?k), ?l\<lparr>fired := f\<rparr>)
    \<and> length f = length (fired ?l)
    \<and> take (0 + length (select_entries rs ws ?l 0 ?k)) f
        = take 0 (fired ?l) @ map Some (select_entries rs ws ?l 0 ?k)"
    by (rule select_scan_result) (use wf rg fds_in_range_cong [of ?l l] in \<open>auto simp: ae_wf_defs\<close>)
  then show ?thesis using st sel by (auto simp: select_aeApiPoll_def eq)
qed

definition select_pollable :: "('p, 'c, select_state) aeEventLoop \<Rightarrow> bool" where
  "select_pollable l \<longleftrightarrow> select_usable l \<and> fds_in_range l"

interpretation select: ae_poller "select_api os" select_pollable for os :: "'w os"
proof
  fix l :: "('p, 'c, select_state) aeEventLoop" and tv and w :: 'w
  assume wf: "ae_wf l" and us: "select_pollable l"
  from us obtain st where st: "apidata l = Some st" and rg: "fds_in_range l" by (auto simp: select_pollable_def select_usable_def)
  obtain rv rs ws w' where sel: "os_select os (maxfd l + 1) (rfds st) (wfds st) tv w = ((rv, rs, ws), w')"
    by (metis surj_pair)
  show "\<exists>n l' w'. api_poll (select_api os) l tv w = Some (n, l', w') \<and> select_pollable l' \<and> fired_valid (nat n) l'"
  proof (cases "0 < rv")
    case False
    with st sel rg show ?thesis
      by (simp add: select_api_def select_aeApiPoll_def select_pollable_def select_usable_def fired_valid_def
          fds_in_range_def mask_at_def)
  next
    case True
    let ?es = "select_entries rs ws l 0 (nat (maxfd l + 1))"
    from select_poll_result [OF wf rg st sel True] obtain l' where
      p: "select_aeApiPoll os l tv w = Some (int (length ?es), l', w')"
      and t: "take (length ?es) (fired l') = map Some ?es" and a: "select_usable l'"
      by (auto simp: select_usable_def)
    from select_poll_frame [OF p] have l': "length (fired l') = length (fired l)" "setsize l' = setsize l" "events l' = events l" by auto
    have pl: "select_pollable l'" using a rg fds_in_range_cong [OF l'(3)] by (simp add: select_pollable_def)
    have "fired_valid (length ?es) l'"
      unfolding fired_valid_def
    proof (intro conjI allI impI)
      show "length ?es \<le> length (fired l')" using arg_cong [OF t, of length] by simp
      fix j assume j: "j < length ?es"
      have "fired l' ! j = Some (?es ! j)" using arg_cong [OF t, of "\<lambda>xs. xs ! j"] j by simp
      moreover have "?es ! j \<in> set ?es" using j by simp
      then have "0 \<le> fired_fd (?es ! j) \<and> fired_fd (?es ! j) < setsize l"
        using wf by (auto simp: select_entries_def select_entry_def ae_wf_defs simp del: nth_map)
      ultimately show "\<exists>f. fired l' ! j = Some f \<and> 0 \<le> fired_fd f \<and> fired_fd f < setsize l'"
        using l' by auto
    qed
    with p pl show ?thesis by (simp add: select_api_def)
  qed
qed

end
