(* ===== verification/Ae_Epoll.thy ===== *)
theory Ae_Epoll
  imports Ae_Dispatch
begin

text \<open>
  The \<open>epoll(2)\<close> multiplexing layer, \<open>src/src/ae/ae_epoll.c\<close> (\<open>ae_epoll.cc\<close>, which
  \<open>ae.cc\<close> includes, is a byte-identical copy). The interest list is kept by the kernel, so it
  is part of the world; the layer's own state is the epoll descriptor and the array that
  \<open>epoll_wait\<close> fills.
\<close>

definition EPOLLIN :: mask where "EPOLLIN = 1"
definition EPOLLOUT :: mask where "EPOLLOUT = 4"
definition EPOLLERR :: mask where "EPOLLERR = 8"
definition EPOLLHUP :: mask where "EPOLLHUP = 16"

record epoll_state =
  epfd :: int
  ep_events :: "(int \<times> mask) list"

definition SIZEOF_epoll_state :: int where "SIZEOF_epoll_state = 16"
definition SIZEOF_epoll_event :: int where "SIZEOF_epoll_event = 12"

definition epoll_aeApiCreate ::
  "'w os \<Rightarrow> ('p, 'c, epoll_state) aeEventLoop \<Rightarrow> 'w
    \<Rightarrow> int \<times> ('p, 'c, epoll_state) aeEventLoop \<times> 'w" where
  "epoll_aeApiCreate os l w =
     (let (ok, w) = os_malloc os SIZEOF_epoll_state w in
      if \<not> ok then (- 1, l, w)
      else
        let (ok, w) = os_malloc os (c_size (SIZEOF_epoll_event * setsize l)) w in
        if \<not> ok then (- 1, l, os_free os w)
        else
          let (fd, w) = os_epoll_create os w in
          if fd = - 1 then (- 1, l, os_free os (os_free os w))
          else (0, l\<lparr>apidata := Some \<lparr>epfd = fd, ep_events = []\<rparr>\<rparr>, w))"

definition epoll_aeApiFree ::
  "'w os \<Rightarrow> ('p, 'c, epoll_state) aeEventLoop \<Rightarrow> 'w \<Rightarrow> 'w option" where
  "epoll_aeApiFree os l w =
     do { st \<leftarrow> apidata l; Some (os_free os (os_free os (os_close os (epfd st) w))) }"

text \<open>The translation of an event mask into epoll's.\<close>

definition to_epoll :: "mask \<Rightarrow> mask" where
  "to_epoll m = (if has m AE_READABLE then EPOLLIN else 0)
                OR (if has m AE_WRITABLE then EPOLLOUT else 0)"

definition epoll_aeApiAddEvent ::
  "'w os \<Rightarrow> ('p, 'c, epoll_state) aeEventLoop \<Rightarrow> int \<Rightarrow> mask \<Rightarrow> 'w
    \<Rightarrow> (int \<times> ('p, 'c, epoll_state) aeEventLoop \<times> 'w) option" where
  "epoll_aeApiAddEvent os l fd m w =
     do {
       st \<leftarrow> apidata l;
       fe \<leftarrow> event_at l fd;
       let op = (if fe_mask fe = AE_NONE then EPOLL_CTL_ADD else EPOLL_CTL_MOD);
       let m = m OR fe_mask fe;
       let (r, w) = os_epoll_ctl os (epfd st) op fd (to_epoll m) w;
       if r = - 1 then Some (- 1, l, w) else Some (0, l, w)
     }"

definition epoll_aeApiDelEvent ::
  "'w os \<Rightarrow> ('p, 'c, epoll_state) aeEventLoop \<Rightarrow> int \<Rightarrow> mask \<Rightarrow> 'w
    \<Rightarrow> (('p, 'c, epoll_state) aeEventLoop \<times> 'w) option" where
  "epoll_aeApiDelEvent os l fd delmask w =
     do {
       st \<leftarrow> apidata l;
       fe \<leftarrow> event_at l fd;
       let m = fe_mask fe AND NOT delmask;
       let op = (if m \<noteq> AE_NONE then EPOLL_CTL_MOD else EPOLL_CTL_DEL);
       let (r, w) = os_epoll_ctl os (epfd st) op fd (to_epoll m) w;
       Some (l, w)
     }"

text \<open>The translation of what \<open>epoll_wait\<close> reports; errors and hang-ups count as writable.\<close>

definition from_epoll :: "mask \<Rightarrow> mask" where
  "from_epoll e = (if has e EPOLLIN then AE_READABLE else 0)
                  OR (if has e EPOLLOUT then AE_WRITABLE else 0)
                  OR (if has e EPOLLERR then AE_WRITABLE else 0)
                  OR (if has e EPOLLHUP then AE_WRITABLE else 0)"

fun epoll_fill :: "nat \<Rightarrow> nat \<Rightarrow> (int \<times> mask) list \<Rightarrow> aeFiredEvent option list
    \<Rightarrow> aeFiredEvent option list option" where
  "epoll_fill j 0 evs fs = Some fs"
| "epoll_fill j (Suc k) evs fs =
     (if j < length evs \<and> j < length fs
      then epoll_fill (Suc j) k evs
             (fs[j := Some \<lparr>fired_fd = fst (evs ! j), fired_mask = from_epoll (snd (evs ! j))\<rparr>])
      else None)"

definition epoll_timeout :: "timeval option \<Rightarrow> int" where
  "epoll_timeout tvp =
     (case tvp of None \<Rightarrow> - 1 | Some tv \<Rightarrow> c_int (tv_sec tv * 1000 + tv_usec tv sdiv 1000))"

definition epoll_aeApiPoll ::
  "'w os \<Rightarrow> ('p, 'c, epoll_state) aeEventLoop \<Rightarrow> timeval option \<Rightarrow> 'w
    \<Rightarrow> (int \<times> ('p, 'c, epoll_state) aeEventLoop \<times> 'w) option" where
  "epoll_aeApiPoll os l tvp w =
     do {
       st \<leftarrow> apidata l;
       let ((retval, evs), w) = os_epoll_wait os (epfd st) (setsize l) (epoll_timeout tvp) w;
       let l = l\<lparr>apidata := Some (st\<lparr>ep_events := evs\<rparr>)\<rparr>;
       if 0 < retval
       then do { fs \<leftarrow> epoll_fill 0 (nat retval) evs (fired l);
                 Some (retval, l\<lparr>fired := fs\<rparr>, w) }
       else Some (0, l, w)
     }"

definition epoll_api :: "'w os \<Rightarrow> ('p, 'c, epoll_state, 'w) ae_api" where
  "epoll_api os =
     \<lparr>api_create = epoll_aeApiCreate os, api_free = epoll_aeApiFree os,
      api_add = epoll_aeApiAddEvent os, api_del = epoll_aeApiDelEvent os,
      api_poll = epoll_aeApiPoll os, api_name = ''epoll''\<rparr>"

section \<open>The layer meets the contract\<close>

lemma epoll_add_Some:
  assumes "epoll_aeApiAddEvent os l fd m w = Some (r, l', w')"
  obtains st fe q where "apidata l = Some st" "event_at l fd = Some fe" "l' = l"
    "os_epoll_ctl os (epfd st) (if fe_mask fe = AE_NONE then EPOLL_CTL_ADD else EPOLL_CTL_MOD) fd
       (to_epoll (m OR fe_mask fe)) w = (q, w')" "r = (if q = - 1 then - 1 else 0)"
proof -
  from assms obtain st fe where st: "apidata l = Some st" "event_at l fd = Some fe"
    by (cases "apidata l"; cases "event_at l fd") (simp_all add: epoll_aeApiAddEvent_def)
  obtain q w1 where q: "os_epoll_ctl os (epfd st)
      (if fe_mask fe = AE_NONE then EPOLL_CTL_ADD else EPOLL_CTL_MOD) fd
      (to_epoll (m OR fe_mask fe)) w = (q, w1)" by fastforce
  with assms st have "l' = l \<and> w1 = w' \<and> r = (if q = - 1 then - 1 else 0)"
    by (auto simp: epoll_aeApiAddEvent_def Let_def split: if_splits)
  with that [OF st] q show thesis by simp
qed

lemma epoll_del_Some:
  assumes "epoll_aeApiDelEvent os l fd m w = Some (l', w')"
  obtains st fe q where "apidata l = Some st" "event_at l fd = Some fe" "l' = l"
    "os_epoll_ctl os (epfd st) (if fe_mask fe AND NOT m \<noteq> AE_NONE then EPOLL_CTL_MOD else EPOLL_CTL_DEL) fd
       (to_epoll (fe_mask fe AND NOT m)) w = (q, w')"
proof -
  from assms obtain st fe where st: "apidata l = Some st" "event_at l fd = Some fe"
    by (cases "apidata l"; cases "event_at l fd") (simp_all add: epoll_aeApiDelEvent_def)
  obtain q w1 where q: "os_epoll_ctl os (epfd st)
      (if fe_mask fe AND NOT m \<noteq> AE_NONE then EPOLL_CTL_MOD else EPOLL_CTL_DEL) fd
      (to_epoll (fe_mask fe AND NOT m)) w = (q, w1)" by fastforce
  with assms st have "l' = l \<and> w1 = w'"
    by (auto simp: epoll_aeApiDelEvent_def Let_def)
  with that [OF st] q show thesis by simp
qed

lemma epoll_fill_length: "epoll_fill j k evs fs = Some fs' \<Longrightarrow> length fs' = length fs"
  by (induction j k evs fs rule: epoll_fill.induct) (auto split: if_splits)

lemma epoll_poll_frame:
  assumes "epoll_aeApiPoll os l tv w = Some (n, l', w')"
  shows "\<exists>a f. l' = l\<lparr>apidata := a, fired := f\<rparr> \<and> length f = length (fired l)"
proof -
  from assms obtain st where st: "apidata l = Some st"
    by (cases "apidata l") (simp_all add: epoll_aeApiPoll_def)
  obtain rv evs w1 where o: "os_epoll_wait os (epfd st) (setsize l) (epoll_timeout tv) w = ((rv, evs), w1)"
    by (metis surj_pair)
  show ?thesis
  proof (cases "0 < rv")
    case True
    with assms st o obtain fs where "epoll_fill 0 (nat rv) evs (fired l) = Some fs"
      "l' = l\<lparr>apidata := Some (st\<lparr>ep_events := evs\<rparr>), fired := fs\<rparr>"
      by (auto simp: epoll_aeApiPoll_def bind_eq_Some_conv)
    with epoll_fill_length show ?thesis by blast
  next
    case False
    with assms st o have "l' = l\<lparr>apidata := Some (st\<lparr>ep_events := evs\<rparr>)\<rparr>"
      by (simp add: epoll_aeApiPoll_def)
    then have "l' = l\<lparr>apidata := Some (st\<lparr>ep_events := evs\<rparr>), fired := fired l\<rparr>" by simp
    then show ?thesis by blast
  qed
qed

interpretation epoll: ae_frame "epoll_api os" for os :: "'w os"
proof
  fix l :: "('p, 'c, epoll_state) aeEventLoop" and l' fd m w r w' n tv
  show "api_add (epoll_api os) l fd m w = Some (r, l', w') \<Longrightarrow> \<exists>a. l' = l\<lparr>apidata := a\<rparr>"
    by (auto simp: epoll_api_def elim!: epoll_add_Some intro: exI [of _ "apidata l"])
  show "api_del (epoll_api os) l fd m w = Some (l', w') \<Longrightarrow> \<exists>a. l' = l\<lparr>apidata := a\<rparr>"
    by (auto simp: epoll_api_def elim!: epoll_del_Some intro: exI [of _ "apidata l"])
  show "\<exists>a f. l' = l\<lparr>apidata := a, fired := f\<rparr> \<and> length f = length (fired l)"
    if "api_poll (epoll_api os) l tv w = Some (n, l', w')"
    using that by (simp add: epoll_api_def epoll_poll_frame)
  show "api_create (epoll_api os) l w = (r, l', w') \<Longrightarrow> \<exists>a. l' = l\<lparr>apidata := a\<rparr>"
    by (auto simp: epoll_api_def epoll_aeApiCreate_def Let_def split: prod.splits if_splits
        intro: exI [of _ "apidata l"])
qed

section \<open>The interest list in the kernel\<close>

text \<open>
  \<open>interest w ep fd\<close> reads the interest list of the epoll instance \<open>ep\<close>. The documented
  behaviour of \<open>epoll_ctl\<close> the layer relies on: a call that fails leaves the lists unchanged, a
  call that succeeds sets or removes exactly the one entry, and changing or removing a
  descriptor that is in the list succeeds.
\<close>

definition epoll_kernel :: "'w os \<Rightarrow> ('w \<Rightarrow> int \<Rightarrow> int \<Rightarrow> mask option) \<Rightarrow> bool" where
  "epoll_kernel os interest \<longleftrightarrow>
     (\<forall>ep op fd e w r w'. os_epoll_ctl os ep op fd e w = (r, w') \<longrightarrow>
        (if r = - 1 then interest w' = interest w
         else interest w' = (interest w)(ep := (interest w ep)(fd :=
                (if op = EPOLL_CTL_DEL then None else Some e))))
        \<and> (op \<noteq> EPOLL_CTL_ADD \<longrightarrow> interest w ep fd \<noteq> None \<longrightarrow> r \<noteq> - 1))"

definition epoll_watching ::
  "('w \<Rightarrow> int \<Rightarrow> int \<Rightarrow> mask option) \<Rightarrow> ('p, 'c, epoll_state) aeEventLoop \<Rightarrow> 'w \<Rightarrow> int \<Rightarrow> mask" where
  "epoll_watching interest l w fd =
     (case apidata l of
        None \<Rightarrow> 0
      | Some st \<Rightarrow> (case interest w (epfd st) fd of
          None \<Rightarrow> 0
        | Some e \<Rightarrow> rw (has e EPOLLIN) (has e EPOLLOUT)))"

lemma has_to_epoll: "has (to_epoll m) EPOLLIN = has m AE_READABLE" "has (to_epoll m) EPOLLOUT = has m AE_WRITABLE"
  by (cases "has m AE_READABLE"; cases "has m AE_WRITABLE";
      simp add: to_epoll_def; simp add: has_def EPOLLIN_def EPOLLOUT_def)+

lemma rw_has: "rw_mask m \<Longrightarrow> rw (has m AE_READABLE) (has m AE_WRITABLE) = m"
  by (rule rw_mask_eqI) (simp_all add: has_readable has_writable)

lemma rw_False [simp]: "rw False False = AE_NONE"
  by (simp add: rw_def AE_NONE_def)

lemma interest_of_watching:
  "epoll_watching interest l w fd \<noteq> AE_NONE \<Longrightarrow> apidata l = Some st \<Longrightarrow>
   interest w (epfd st) fd \<noteq> None"
  by (auto simp: epoll_watching_def AE_NONE_def split: option.splits)

lemma epoll_watching_upd:
  assumes "apidata l = Some st"
    and "interest w' = (interest w)(epfd st := (interest w (epfd st))(fd := e))"
  shows "epoll_watching interest l w' = (epoll_watching interest l w)(fd :=
           (case e of None \<Rightarrow> 0 | Some e \<Rightarrow> rw (has e EPOLLIN) (has e EPOLLOUT)))"
  using assms by (auto simp: epoll_watching_def split: option.splits)

lemma epoll_add_watches:
  fixes l l' :: "('b, 'c, epoll_state) aeEventLoop"
  assumes k: "epoll_kernel os interest"
    and add: "epoll_aeApiAddEvent os l fd m w = Some (r, l', w')" "r \<noteq> - 1" "event_at l fd = Some fe"
    and m: "rw_mask (fe_mask fe)" "rw_mask m"
  shows "epoll_watching interest l' w' = (epoll_watching interest l w)(fd := fe_mask fe OR m)"
  using add(1)
proof (rule epoll_add_Some)
  fix st q and fe' :: "('b, 'c) aeFileEvent"
  let ?op = "if fe_mask fe' = AE_NONE then EPOLL_CTL_ADD else EPOLL_CTL_MOD"
  let ?e = "to_epoll (m OR fe_mask fe')"
  assume a: "apidata l = Some st" "event_at l fd = Some fe'" "l' = l"
    "os_epoll_ctl os (epfd st) ?op fd ?e w = (q, w')" "r = (if q = - 1 then - 1 else 0)"
  from add a have q: "q \<noteq> - 1" "fe' = fe" by auto
  with k a(4) have "interest w' = (interest w)(epfd st := (interest w (epfd st))(fd := Some ?e))"
    unfolding epoll_kernel_def by (smt (verit, best) epoll_op.distinct)
  from epoll_watching_upd [OF a(1) this] show ?thesis
    using a q m by (simp add: has_to_epoll rw_has rw_mask_or or.commute)
qed

lemma epoll_del_watches:
  fixes l l' :: "('b, 'c, epoll_state) aeEventLoop"
  assumes k: "epoll_kernel os interest"
    and del: "epoll_aeApiDelEvent os l fd m w = Some (l', w')" "event_at l fd = Some fe"
    and fe: "fe_mask fe = epoll_watching interest l w fd AND NOT m"
      "epoll_watching interest l w fd \<noteq> AE_NONE" "rw_mask (epoll_watching interest l w fd)"
  shows "epoll_watching interest l' w' = (epoll_watching interest l w)(fd := fe_mask fe)"
  using del(1)
proof (rule epoll_del_Some)
  fix st q and fe' :: "('b, 'c) aeFileEvent"
  let ?m = "fe_mask fe' AND NOT m"
  let ?op = "if ?m \<noteq> AE_NONE then EPOLL_CTL_MOD else EPOLL_CTL_DEL"
  assume a: "apidata l = Some st" "event_at l fd = Some fe'" "l' = l"
    "os_epoll_ctl os (epfd st) ?op fd (to_epoll ?m) w = (q, w')"
  from del a have fe': "fe' = fe" by simp
  have m: "?m = fe_mask fe" by (simp add: fe' fe(1) and.assoc)
  have "q \<noteq> - 1" using k a(4) interest_of_watching [OF fe(2) a(1)]
    unfolding epoll_kernel_def by (smt (verit, best) epoll_op.distinct)
  with k a(4) have "interest w' = (interest w)(epfd st := (interest w (epfd st))(fd :=
      (if fe_mask fe = AE_NONE then None else Some (to_epoll (fe_mask fe)))))"
    unfolding epoll_kernel_def m by (smt (verit, best) epoll_op.distinct)
  from epoll_watching_upd [OF a(1) this] show ?thesis
    using a fe by (simp add: has_to_epoll rw_has rw_mask_andnot AE_NONE_def)
qed

lemma epoll_multiplexer:
  assumes k: "epoll_kernel os interest"
  shows "ae_multiplexer (epoll_api os) (epoll_watching interest)"
proof
  fix l l' :: "('p, 'c, epoll_state) aeEventLoop" and fd m w r w' fe
  show "apidata l' = apidata l \<Longrightarrow> epoll_watching interest l' w = epoll_watching interest l w"
    by (rule ext) (simp add: epoll_watching_def)
  show "epoll_watching interest l' w' = epoll_watching interest l w"
    if "api_add (epoll_api os) l fd m w = Some (- 1, l', w')"
  proof -
    from that have "epoll_aeApiAddEvent os l fd m w = Some (- 1, l', w')" by (simp add: epoll_api_def)
    then show ?thesis
    proof (rule epoll_add_Some)
      fix st fe' q
      assume "l' = l" "- 1 = (if q = - 1 then - 1 else 0 :: int)"
        "os_epoll_ctl os (epfd st) (if fe_mask fe' = AE_NONE then EPOLL_CTL_ADD else EPOLL_CTL_MOD) fd
           (to_epoll (m OR fe_mask fe')) w = (q, w')"
      with k have "interest w' = interest w" unfolding epoll_kernel_def by (metis zero_neq_neg_one)
      with \<open>l' = l\<close> show ?thesis by (auto simp: epoll_watching_def split: option.splits)
    qed
  qed
  show "epoll_watching interest l' w' = (epoll_watching interest l w)(fd := fe_mask fe OR m)"
    if "api_add (epoll_api os) l fd m w = Some (r, l', w')" "r \<noteq> - 1" "event_at l fd = Some fe"
      "rw_mask (fe_mask fe)" "rw_mask m"
    using that by (intro epoll_add_watches [OF k]) (simp_all add: epoll_api_def)
  show "epoll_watching interest l' w' = (epoll_watching interest l w)(fd := fe_mask fe)"
    if "api_del (epoll_api os) l fd m w = Some (l', w')" "event_at l fd = Some fe"
      "fe_mask fe = epoll_watching interest l w fd AND NOT m" "epoll_watching interest l w fd \<noteq> AE_NONE"
      "rw_mask (epoll_watching interest l w fd)"
    using that by (intro epoll_del_watches [OF k]) (simp_all add: epoll_api_def)
qed

end
