(* ===== verification/Ae_Spec.thy ===== *)
theory Ae_Spec
  imports Ae_Select Ae_Epoll
begin

text \<open>
  The properties of the event loop, on the multiplexing layers the code has. A witness runs in
  a world that is a clock in milliseconds (\<open>demo_os\<close>), on a loop with one callback.
\<close>

section \<open>A concrete world\<close>

definition demo_os :: "int os" where
  "demo_os =
     \<lparr>os_malloc = (\<lambda>n w. (True, w)), os_free = (\<lambda>w. w), os_junk = (\<lambda>w i. 7),
      os_time = (\<lambda>w. (w div 1000, w)),
      os_gettimeofday = (\<lambda>w. ((w div 1000, (w mod 1000) * 1000), w)),
      os_select = (\<lambda>n r s tv w. ((int (card (r \<union> s)), r, s), w)),
      os_epoll_create = (\<lambda>w. (5, w)), os_epoll_ctl = (\<lambda>ep op fd e w. (- 1, w)),
      os_epoll_wait = (\<lambda>ep n t w. ((1, [(2, 5)]), w)),
      os_poll = (\<lambda>fd e t w. ((1, e), w)), os_close = (\<lambda>fd w. w)\<rparr>"

definition demo_loop :: "'a \<Rightarrow> (nat, nat, 'a) aeEventLoop" where
  "demo_loop a =
     \<lparr>maxfd = - 1, setsize = 4, timeEventNextId = 2, lastTime = 0,
      events = replicate 4 \<lparr>fe_mask = AE_NONE, rfileProc = None, wfileProc = None, fe_clientData = None\<rparr>,
      fired = replicate 4 None,
      timeEventHead = [\<lparr>te_id = 1, when_sec = 3, when_ms = 250, timeProc = 9, finalizerProc = None, te_clientData = 0\<rparr>,
                       \<lparr>te_id = 0, when_sec = 1, when_ms = 500, timeProc = 9, finalizerProc = None, te_clientData = 0\<rparr>],
      stop = False, apidata = Some a, beforesleep = None\<rparr>"

definition demo_select :: select_state where
  "demo_select = \<lparr>rfds = {}, wfds = {}, rfds_copy = {}, wfds_copy = {}\<rparr>"

definition demo_epoll :: epoll_state where
  "demo_epoll = \<lparr>epfd = 5, ep_events = []\<rparr>"

definition demo_procs :: "(nat, nat, 'a, int) procs" where
  "demo_procs =
     \<lparr>call_file = (\<lambda>p l fd c m w. Some (l, w)), call_time = (\<lambda>p l i c w. Some (AE_NOMORE, l, w)),
      call_final = (\<lambda>p l c w. Some (l, w)), call_before = (\<lambda>p l w. Some (l, w))\<rparr>"

lemma demo_wf: "ae_wf (demo_loop a)"
  by (simp add: ae_wf_defs demo_loop_def fe_ok_def rw_mask_def has_def AE_NONE_def)

definition demo_loop2 :: "'a \<Rightarrow> (nat, nat, 'a) aeEventLoop" where
  "demo_loop2 a = (demo_loop a)\<lparr>maxfd := 2,
     events := (let z = \<lparr>fe_mask = AE_NONE, rfileProc = None, wfileProc = None, fe_clientData = None\<rparr>
                in [z, z, \<lparr>fe_mask = 3, rfileProc = Some 1, wfileProc = Some 2, fe_clientData = Some 0\<rparr>, z])\<rparr>"

definition demo_select2 :: select_state where
  "demo_select2 = \<lparr>rfds = {2}, wfds = {2}, rfds_copy = {}, wfds_copy = {}\<rparr>"

lemma demo_wf2: "ae_wf (demo_loop2 a)"
  by (auto simp: ae_wf_defs demo_loop2_def demo_loop_def fe_ok_def rw_mask_def has_def AE_NONE_def
      AE_READABLE_def AE_WRITABLE_def Let_def less_Suc_eq)

lemma demo_range2: "fds_in_range (demo_loop2 a)"
  by (auto simp: fds_in_range_def demo_loop2_def demo_loop_def FD_SETSIZE_def Let_def)

lemma demo_polite: "polite demo_procs (\<lambda>w. w)"
  by (simp add: polite_def demo_procs_def AE_NOMORE_def)

lemma demo_steady: "steady_clock demo_os (\<lambda>w. w)"
proof -
  have "(w mod 1000 * 1000) div 1000 = w mod 1000" "ms_of (w div 1000) (w mod 1000) = w" for w :: int
    by (simp_all add: ms_of_def)
  then show ?thesis by (auto simp: steady_clock_def demo_os_def)
qed

section \<open>Registering descriptors\<close>

definition agrees :: "(int \<Rightarrow> mask) \<Rightarrow> ('p, 'c, 'a) aeEventLoop \<Rightarrow> bool" where
  "agrees watched l \<longleftrightarrow> (\<forall>i < length (events l). watched (int i) = mask_at l i)"

lemma select_agrees: "agrees (select_watching l w) l \<longleftrightarrow> select.synced l w"
  by (simp add: agrees_def select.synced_def)

lemma select_add_defined:
  "apidata l = Some st \<Longrightarrow> fd_ok fd \<Longrightarrow> \<exists>st'. select_aeApiAddEvent l fd m w = Some (0, l\<lparr>apidata := Some st'\<rparr>, w)"
  by (auto simp: select_aeApiAddEvent_def)

lemma select_del_defined:
  "apidata l = Some st \<Longrightarrow> fd_ok fd \<Longrightarrow> \<exists>st'. select_aeApiDelEvent l fd m w = Some (l\<lparr>apidata := Some st'\<rparr>, w)"
  by (auto simp: select_aeApiDelEvent_def)

lemma select_create_defined:
  assumes "ae_wf l" "select_usable l" "0 \<le> fd" "fd < setsize l" "fd < FD_SETSIZE"
  shows "\<exists>l'. aeCreateFileEvent (select_api os) l fd m proc cd w = Some (AE_OK, l', w)
    \<and> events l' = (events l)[nat fd := registered (events l ! nat fd) m proc cd] \<and> setsize l' = setsize l"
proof -
  from assms obtain st where "apidata l = Some st" "fd_ok fd" by (auto simp: select_usable_def fd_ok_def)
  from select_add_defined [OF this, of m w] obtain st' where
    add: "api_add (select_api os) l fd m w = Some (0, l\<lparr>apidata := Some st'\<rparr>, w)"
    by (auto simp: select_api_def)
  have ev: "event_at l fd = Some (events l ! nat fd)"
    "event_at (l\<lparr>apidata := Some st'\<rparr>) fd = Some (events l ! nat fd)"
    using assms by (auto simp: event_at_defined event_at_Some ae_wf_defs)
  with add assms(4) show ?thesis
    by (auto simp: aeCreateFileEvent_def registered_def Let_def)
qed

lemma select_delete_defined:
  assumes "ae_wf l" "select_usable l" "0 \<le> fd" "fd < setsize l" "fd < FD_SETSIZE"
  shows "\<exists>l' fe'. aeDeleteFileEvent (select_api os) l fd m w = Some (l', w)
    \<and> events l' = (events l)[nat fd := fe'] \<and> fe_mask fe' = mask_at l (nat fd) AND NOT m \<and> setsize l' = setsize l"
proof (cases "mask_at l (nat fd) = AE_NONE")
  case True
  with assms show ?thesis
    by (intro exI [of _ l] exI [of _ "events l ! nat fd"])
       (auto simp: aeDeleteFileEvent_def event_at_defined mask_at_def AE_NONE_def)
next
  case False
  have ev: "event_at l fd = Some (events l ! nat fd)" using assms by (simp add: event_at_defined)
  from assms obtain st where st: "apidata l = Some st" "fd_ok fd" by (auto simp: select_usable_def fd_ok_def)
  let ?fe = "(events l ! nat fd)\<lparr>fe_mask := mask_at l (nat fd) AND NOT m\<rparr>"
  let ?l = "l\<lparr>events := (events l)[nat fd := ?fe]\<rparr>"
  define l1 where "l1 = (if fd = maxfd ?l \<and> fe_mask ?fe = AE_NONE
      then ?l\<lparr>maxfd := scan_maxfd (events ?l) (nat (maxfd ?l))\<rparr> else ?l)"
  have "apidata l1 = Some st" using st by (simp add: l1_def)
  from select_del_defined [OF this st(2), of m w] obtain st' where
    del: "api_del (select_api os) l1 fd m w = Some (l1\<lparr>apidata := Some st'\<rparr>, w)"
    by (auto simp: select_api_def)
  have "aeDeleteFileEvent (select_api os) l fd m w = api_del (select_api os) l1 fd m w"
    using assms(4) False ev by (auto simp: aeDeleteFileEvent_def Let_def l1_def mask_at_def)
  with del show ?thesis
    by (intro exI [of _ "l1\<lparr>apidata := Some st'\<rparr>"] exI [of _ ?fe]) (simp add: l1_def)
qed

lemma get_file_events:
  "ae_wf l \<Longrightarrow> 0 \<le> fd \<Longrightarrow> fd < setsize l \<Longrightarrow> aeGetFileEvents l fd = Some (mask_at l (nat fd))"
  by (simp add: aeGetFileEvents_def event_at_defined mask_at_def)

text \<open>C1: on the select layer, registering a descriptor that is in range (below the size of the
  loop and below \<open>FD_SETSIZE\<close>) always succeeds without undefined behaviour, keeps the loop
  well-formed, adds exactly the requested conditions to that descriptor's mask and to no other,
  and afterwards the layer watches exactly the registered masks.\<close>

theorem select_register:
  assumes wf: "ae_wf l" and us: "select_usable l" and sync: "agrees (select_watching l w) l"
    and fd: "0 \<le> fd" "fd < setsize l" "fd < FD_SETSIZE" and m: "rw_mask m" "m \<noteq> AE_NONE"
  shows "\<exists>l'. aeCreateFileEvent (select_api os) l fd m proc cd w = Some (AE_OK, l', w)
    \<and> ae_wf l' \<and> agrees (select_watching l' w) l'
    \<and> aeGetFileEvents l' fd = map_option (\<lambda>x. x OR m) (aeGetFileEvents l fd)
    \<and> (\<forall>i < nat (setsize l). int i \<noteq> fd \<longrightarrow> mask_at l' i = mask_at l i)"
proof -
  from select_create_defined [OF wf us fd, of os m proc cd w] obtain l' where
    run: "aeCreateFileEvent (select_api os) l fd m proc cd w = Some (AE_OK, l', w)"
    and ev: "events l' = (events l)[nat fd := registered (events l ! nat fd) m proc cd]" "setsize l' = setsize l"
    by blast
  have wf': "ae_wf l'" using wf m run by (rule select.create_file_event_wf)
  have "select.synced l' w" using wf sync [unfolded select_agrees] m(1) run
    by (rule select.create_file_event_synced)
  moreover have "nat fd < length (events l)" using wf fd by (auto simp: ae_wf_defs)
  ultimately show ?thesis
    using run wf wf' fd ev by (auto simp: select_agrees get_file_events mask_at_def registered_def nth_list_update)
qed

theorem select_register_witness:
  "\<exists>l'. aeCreateFileEvent (select_api demo_os) (demo_loop demo_select) 3 AE_READABLE 1 1 0 = Some (AE_OK, l', 0)
    \<and> ae_wf l' \<and> agrees (select_watching l' (0::int)) l'
    \<and> aeGetFileEvents l' 3 = map_option (\<lambda>x. x OR AE_READABLE) (aeGetFileEvents (demo_loop demo_select) 3)
    \<and> (\<forall>i < nat (setsize (demo_loop demo_select)). int i \<noteq> 3 \<longrightarrow> mask_at l' i = mask_at (demo_loop demo_select) i)"
proof (rule select_register [OF demo_wf])
  show "select_usable (demo_loop demo_select)" by (simp add: select_usable_def demo_loop_def)
  show "agrees (select_watching (demo_loop demo_select) 0) (demo_loop demo_select)"
    by (auto simp: agrees_def select_watching_def demo_loop_def demo_select_def rw_def mask_at_def
        AE_NONE_def nth_Cons split: nat.split)
qed (simp_all add: demo_loop_def FD_SETSIZE_def rw_mask_consts AE_READABLE_def AE_NONE_def rw_mask_def)

text \<open>C13: on the select layer, removing conditions from a descriptor that is in range is always
  defined, keeps the loop well-formed, so that \<open>maxfd\<close> is again the highest registered
  descriptor, clears exactly the given conditions of that descriptor and no other, and
  afterwards the layer watches exactly the registered masks.\<close>

theorem select_unregister:
  assumes wf: "ae_wf l" and us: "select_usable l" and sync: "agrees (select_watching l w) l"
    and fd: "0 \<le> fd" "fd < setsize l" "fd < FD_SETSIZE"
  shows "\<exists>l'. aeDeleteFileEvent (select_api os) l fd m w = Some (l', w)
    \<and> ae_wf l' \<and> agrees (select_watching l' w) l'
    \<and> aeGetFileEvents l' fd = map_option (\<lambda>x. x AND NOT m) (aeGetFileEvents l fd)
    \<and> (\<forall>i < nat (setsize l). int i \<noteq> fd \<longrightarrow> mask_at l' i = mask_at l i)"
proof -
  from select_delete_defined [OF wf us fd, of os m w] obtain l' fe' where
    run: "aeDeleteFileEvent (select_api os) l fd m w = Some (l', w)"
    and ev: "events l' = (events l)[nat fd := fe']" "fe_mask fe' = mask_at l (nat fd) AND NOT m" "setsize l' = setsize l"
    by blast
  have wf': "ae_wf l'" using wf run by (rule select.delete_file_event_wf)
  have "select.synced l' w" using wf sync [unfolded select_agrees] run
    by (rule select.delete_file_event_synced)
  moreover have "nat fd < length (events l)" using wf fd by (auto simp: ae_wf_defs)
  ultimately show ?thesis
    using run wf wf' fd ev by (auto simp: select_agrees get_file_events mask_at_def nth_list_update)
qed

theorem select_unregister_witness:
  "\<exists>l'. aeDeleteFileEvent (select_api demo_os) (demo_loop2 demo_select2) 2 AE_READABLE 0 = Some (l', 0)
    \<and> ae_wf l' \<and> agrees (select_watching l' (0::int)) l'
    \<and> aeGetFileEvents l' 2 = map_option (\<lambda>x. x AND NOT AE_READABLE) (aeGetFileEvents (demo_loop2 demo_select2) 2)
    \<and> (\<forall>i < nat (setsize (demo_loop2 demo_select2)). int i \<noteq> 2 \<longrightarrow> mask_at l' i = mask_at (demo_loop2 demo_select2) i)"
proof (rule select_unregister [OF demo_wf2])
  show "select_usable (demo_loop2 demo_select2)" by (simp add: select_usable_def demo_loop_def demo_loop2_def)
  show "agrees (select_watching (demo_loop2 demo_select2) 0) (demo_loop2 demo_select2)"
    by (auto simp: agrees_def select_watching_def demo_loop2_def demo_loop_def demo_select2_def rw_def
        mask_at_def AE_NONE_def AE_READABLE_def AE_WRITABLE_def Let_def less_Suc_eq)
qed (simp_all add: demo_loop_def demo_loop2_def FD_SETSIZE_def)

lemma epoll_create_defined:
  assumes "ae_wf l" "apidata l \<noteq> None" "0 \<le> fd" "fd < setsize l"
  shows "\<exists>r l' w'. aeCreateFileEvent (epoll_api os) l fd m proc cd w = Some (r, l', w')
    \<and> (r = AE_ERR \<and> l' = l
       \<or> r = AE_OK \<and> events l' = (events l)[nat fd := registered (events l ! nat fd) m proc cd] \<and> setsize l' = setsize l)"
proof -
  have ev: "event_at l fd = Some (events l ! nat fd)" using assms by (simp add: event_at_defined)
  from assms(2) obtain st where st: "apidata l = Some st" by auto
  obtain q w1 where q: "os_epoll_ctl os (epfd st)
      (if fe_mask (events l ! nat fd) = AE_NONE then EPOLL_CTL_ADD else EPOLL_CTL_MOD) fd
      (to_epoll (m OR fe_mask (events l ! nat fd))) w = (q, w1)" by fastforce
  have "api_add (epoll_api os) l fd m w = Some (if q = - 1 then - 1 else 0, l, w1)"
    by (simp add: epoll_api_def epoll_aeApiAddEvent_def st ev q)
  with ev assms(4) show ?thesis
    by (auto simp: aeCreateFileEvent_def registered_def Let_def AE_OK_def AE_ERR_def)
qed

text \<open>C29: on the epoll layer, given the documented behaviour of \<open>epoll_ctl\<close>, registering a
  descriptor of the loop is always defined; it either reports an error and leaves the loop and
  the kernel's interest list as they were, or adds exactly the requested conditions; in both
  cases the loop stays well-formed and the interest list holds exactly the registered
  masks.\<close>

theorem epoll_register:
  assumes k: "epoll_kernel os interest" and wf: "ae_wf l" and us: "apidata l \<noteq> None"
    and sync: "agrees (epoll_watching interest l w) l"
    and fd: "0 \<le> fd" "fd < setsize l" and m: "rw_mask m" "m \<noteq> AE_NONE"
  shows "\<exists>r l' w'. aeCreateFileEvent (epoll_api os) l fd m proc cd w = Some (r, l', w')
    \<and> ae_wf l' \<and> agrees (epoll_watching interest l' w') l'
    \<and> (r = AE_ERR \<and> l' = l
       \<or> r = AE_OK \<and> aeGetFileEvents l' fd = map_option (\<lambda>x. x OR m) (aeGetFileEvents l fd)
         \<and> (\<forall>i < nat (setsize l). int i \<noteq> fd \<longrightarrow> mask_at l' i = mask_at l i))"
proof -
  note mux = epoll_multiplexer [OF k]
  have syn: "agrees (epoll_watching interest l w) l \<longleftrightarrow> ae_multiplexer.synced (epoll_watching interest) l w" for l w
    by (simp add: agrees_def ae_multiplexer.synced_def [OF mux])
  from epoll_create_defined [OF wf us fd, of os m proc cd w] obtain r l' w' where
    run: "aeCreateFileEvent (epoll_api os) l fd m proc cd w = Some (r, l', w')"
    and res: "r = AE_ERR \<and> l' = l \<or> r = AE_OK
      \<and> events l' = (events l)[nat fd := registered (events l ! nat fd) m proc cd] \<and> setsize l' = setsize l"
    by blast
  have wf': "ae_wf l'" using wf m run by (rule epoll.create_file_event_wf)
  have "agrees (epoll_watching interest l' w') l'"
    using ae_multiplexer.create_file_event_synced [OF mux wf sync [unfolded syn] m(1) run] by (simp add: syn)
  moreover have "nat fd < length (events l)" using wf fd by (auto simp: ae_wf_defs)
  ultimately show ?thesis
    using run wf wf' fd res by (auto simp: get_file_events mask_at_def registered_def nth_list_update)
qed

definition kernel_ctl :: "int \<Rightarrow> epoll_op \<Rightarrow> int \<Rightarrow> mask \<Rightarrow> (int \<Rightarrow> int \<Rightarrow> mask option)
    \<Rightarrow> int \<times> (int \<Rightarrow> int \<Rightarrow> mask option)" where
  "kernel_ctl ep op fd e w =
     (if (w ep fd = None) = (op = EPOLL_CTL_ADD)
      then (0, w(ep := (w ep)(fd := (if op = EPOLL_CTL_DEL then None else Some e))))
      else (- 1, w))"

definition kernel_os :: "(int \<Rightarrow> int \<Rightarrow> mask option) os" where
  "kernel_os =
     \<lparr>os_malloc = (\<lambda>n w. (True, w)), os_free = (\<lambda>w. w), os_junk = (\<lambda>w i. 7),
      os_time = (\<lambda>w. (0, w)), os_gettimeofday = (\<lambda>w. ((0, 0), w)),
      os_select = (\<lambda>n r s tv w. ((- 1, r, s), w)),
      os_epoll_create = (\<lambda>w. (5, w)), os_epoll_ctl = kernel_ctl,
      os_epoll_wait = (\<lambda>ep n t w. ((0, []), w)),
      os_poll = (\<lambda>fd e t w. ((0, e), w)), os_close = (\<lambda>fd w. w(fd := (\<lambda>_. None)))\<rparr>"

lemma kernel_os_ok: "epoll_kernel kernel_os (\<lambda>w. w)"
  by (auto simp: epoll_kernel_def kernel_os_def kernel_ctl_def)

theorem epoll_register_witness:
  "\<exists>r l' w'. aeCreateFileEvent (epoll_api kernel_os) (demo_loop demo_epoll) 2 AE_WRITABLE 1 1 (\<lambda>_ _. None) = Some (r, l', w')
    \<and> ae_wf l' \<and> agrees (epoll_watching (\<lambda>w. w) l' w') l'
    \<and> (r = AE_ERR \<and> l' = demo_loop demo_epoll
       \<or> r = AE_OK \<and> aeGetFileEvents l' 2 = map_option (\<lambda>x. x OR AE_WRITABLE) (aeGetFileEvents (demo_loop demo_epoll) 2)
         \<and> (\<forall>i < nat (setsize (demo_loop demo_epoll)). int i \<noteq> 2 \<longrightarrow> mask_at l' i = mask_at (demo_loop demo_epoll) i))"
proof (rule epoll_register [OF kernel_os_ok demo_wf])
  show "agrees (epoll_watching (\<lambda>w. w) (demo_loop demo_epoll) (\<lambda>_ _. None)) (demo_loop demo_epoll)"
    by (auto simp: agrees_def epoll_watching_def demo_loop_def demo_epoll_def mask_at_def AE_NONE_def)
qed (simp_all add: demo_loop_def rw_mask_consts AE_WRITABLE_def AE_NONE_def rw_mask_def)

text \<open>on the epoll layer, given the documented behaviour of \<open>epoll_ctl\<close>, removing
  conditions from a descriptor keeps the loop well-formed and the interest list equal to the
  registered masks, although the return value of \<open>epoll_ctl\<close> is ignored there.\<close>

theorem epoll_unregister:
  assumes k: "epoll_kernel os interest" and wf: "ae_wf l"
    and sync: "agrees (epoll_watching interest l w) l"
    and run: "aeDeleteFileEvent (epoll_api os) l fd m w = Some (l', w')"
  shows "ae_wf l' \<and> agrees (epoll_watching interest l' w') l'"
proof -
  note mux = epoll_multiplexer [OF k]
  have syn: "agrees (epoll_watching interest l w) l \<longleftrightarrow> ae_multiplexer.synced (epoll_watching interest) l w" for l w
    by (simp add: agrees_def ae_multiplexer.synced_def [OF mux])
  from epoll.delete_file_event_wf [OF wf run]
    ae_multiplexer.delete_file_event_synced [OF mux wf sync [unfolded syn] run]
  show ?thesis by (simp add: syn)
qed

definition demo_interest :: "int \<Rightarrow> int \<Rightarrow> mask option" where
  "demo_interest ep fd = (if ep = 5 \<and> fd = 2 then Some 5 else None)"

theorem epoll_unregister_witness:
  "\<exists>l' w'. aeDeleteFileEvent (epoll_api kernel_os) (demo_loop2 demo_epoll) 2 3 demo_interest = Some (l', w')
    \<and> ae_wf l' \<and> agrees (epoll_watching (\<lambda>w. w) l' w') l'"
proof -
  have "\<exists>l' w'. aeDeleteFileEvent (epoll_api kernel_os) (demo_loop2 demo_epoll) 2 3 demo_interest = Some (l', w')"
    by (simp add: aeDeleteFileEvent_def epoll_api_def epoll_aeApiDelEvent_def demo_loop2_def demo_loop_def
        event_at_def demo_epoll_def Let_def split: prod.split)
  moreover have "agrees (epoll_watching (\<lambda>w. w) (demo_loop2 demo_epoll) demo_interest) (demo_loop2 demo_epoll)"
    by (auto simp: agrees_def epoll_watching_def demo_loop2_def demo_loop_def demo_epoll_def mask_at_def
        demo_interest_def rw_def has_def EPOLLIN_def EPOLLOUT_def ae_consts Let_def less_Suc_eq)
  ultimately show ?thesis using epoll_unregister [OF kernel_os_ok demo_wf2] by blast
qed

section \<open>Polling\<close>

lemma select_entries_sorted: "sorted_wrt (<) (map fired_fd (select_entries rs ws l j k))"
  by (simp add: select_entries_def sorted_wrt_map select_entry_def sorted_wrt_filter)

lemma rw_and_mask:
  "rw_mask x \<Longrightarrow> rw (has x AE_READABLE \<and> a) (has x AE_WRITABLE \<and> b) = x AND rw a b"
  by (rule rw_mask_eqI) (simp_all add: rw_mask_andnot has_readable has_writable bit_and_iff)

lemma select_entries_set:
  assumes "ae_wf l" "m \<noteq> AE_NONE"
  shows "\<lparr>fired_fd = fd, fired_mask = m\<rparr> \<in> set (select_entries rs ws l 0 (nat (maxfd l + 1))) \<longleftrightarrow>
    (\<exists>i < nat (setsize l). fd = int i \<and> m = mask_at l i AND rw (fd \<in> rs) (fd \<in> ws))" (is "?L \<longleftrightarrow> ?R")
proof -
  have rw: "rw_mask (mask_at l i)" if "i < nat (setsize l)" for i
    using assms(1) that by (auto simp: ae_wf_defs fe_ok_def)
  have sz: "nat (maxfd l + 1) \<le> nat (setsize l)" using assms(1) by (auto simp: ae_wf_defs)
  have "?L \<longleftrightarrow> (\<exists>i < nat (maxfd l + 1). mask_at l i \<noteq> AE_NONE \<and> fd = int i
      \<and> m = mask_at l i AND rw (fd \<in> rs) (fd \<in> ws))"
    using rw sz by (fastforce simp: select_entries_def select_entry_def rw_and_mask image_iff)
  also have "\<dots> \<longleftrightarrow> ?R"
  proof
    assume ?R
    then obtain i where i: "i < nat (setsize l)" "fd = int i" "m = mask_at l i AND rw (fd \<in> rs) (fd \<in> ws)" by blast
    with assms(2) have nz: "mask_at l i \<noteq> AE_NONE" by (auto simp: AE_NONE_def)
    then have "int i \<le> maxfd l" using assms(1) i(1) by (force simp: ae_wf_defs)
    with i nz show "\<exists>i < nat (maxfd l + 1). mask_at l i \<noteq> AE_NONE \<and> fd = int i
      \<and> m = mask_at l i AND rw (fd \<in> rs) (fd \<in> ws)" by auto
  qed (use sz in auto)
  finally show ?thesis .
qed

text \<open>when \<open>select\<close> reports readiness and the registered descriptors are below \<open>FD_SETSIZE\<close>, the poll is defined, fills the first entries of
  \<open>fired\<close> in ascending order of descriptors without overrunning the array, and the entries with
  a non-empty mask are exactly the registered descriptors that are ready, each with the
  conditions that are both registered and ready.\<close>

theorem select_poll_exact:
  assumes "ae_wf l" "fds_in_range l" "apidata l = Some st"
    and "os_select os (maxfd l + 1) (rfds st) (wfds st) tv w = ((rv, rs, ws), w')" "0 < rv"
  shows "\<exists>l' fs. select_aeApiPoll os l tv w = Some (int (length fs), l', w')
    \<and> take (length fs) (fired l') = map Some fs \<and> sorted_wrt (<) (map fired_fd fs)
    \<and> (\<forall>fd m. m \<noteq> AE_NONE \<longrightarrow>
         (\<lparr>fired_fd = fd, fired_mask = m\<rparr> \<in> set fs \<longleftrightarrow>
          (\<exists>i < nat (setsize l). fd = int i \<and> m = mask_at l i AND rw (fd \<in> rs) (fd \<in> ws))))"
  using select_poll_result [OF assms] select_entries_sorted select_entries_set [OF assms(1)] by blast

theorem select_poll_exact_witness:
  "\<exists>l' fs. select_aeApiPoll demo_os (demo_loop2 demo_select2) None 0 = Some (int (length fs), l', 0)
    \<and> take (length fs) (fired l') = map Some fs \<and> sorted_wrt (<) (map fired_fd fs)
    \<and> (\<forall>fd m. m \<noteq> AE_NONE \<longrightarrow>
         (\<lparr>fired_fd = fd, fired_mask = m\<rparr> \<in> set fs \<longleftrightarrow>
          (\<exists>i < nat (setsize (demo_loop2 demo_select2)). fd = int i
             \<and> m = mask_at (demo_loop2 demo_select2) i AND rw (fd \<in> {2}) (fd \<in> {2}))))"
  by (rule select_poll_exact [OF demo_wf2, where st = demo_select2 and rv = 1])
     (simp_all add: demo_range2, simp_all add: demo_loop2_def demo_loop_def demo_os_def demo_select2_def)

text \<open>What \<open>epoll_wait\<close> wrote, as entries of \<open>fired\<close>.\<close>

definition epoll_entry :: "int \<times> mask \<Rightarrow> aeFiredEvent" where
  "epoll_entry e = \<lparr>fired_fd = fst e, fired_mask = from_epoll (snd e)\<rparr>"

lemma epoll_fill_result:
  "j + k \<le> length evs \<Longrightarrow> j + k \<le> length fs \<Longrightarrow>
     epoll_fill j k evs fs = Some (take j fs @ map (Some \<circ> epoll_entry) (take k (drop j evs)) @ drop (j + k) fs)"
proof (induction k arbitrary: j fs)
  case (Suc k)
  have j: "j < length evs" "j < length fs" using Suc.prems by simp_all
  have "drop j evs = evs ! j # drop (Suc j) evs" using j(1) by (simp add: Cons_nth_drop_Suc)
  moreover have "take (Suc j) (fs[j := x]) = take j fs @ [x]" for x using j(2) by (rule take_update_snoc)
  ultimately show ?case using Suc.prems Suc.IH [of "Suc j"] j by (simp add: epoll_entry_def)
qed simp

lemma has_or: "has (a OR b) c \<longleftrightarrow> has a c \<or> has b c"
  by (simp add: has_def bit.conj_disj_distrib2 or_eq_0_iff)

text \<open>when \<open>epoll_wait\<close> returns events, at most as many as it was asked for, the poll is
  defined and the entries of \<open>fired\<close> are these events in order, readable when \<open>EPOLLIN\<close> is
  set and writable when one of \<open>EPOLLOUT\<close>, \<open>EPOLLERR\<close>, \<open>EPOLLHUP\<close> is; the registrations are
  not changed.\<close>

theorem epoll_poll_exact:
  assumes "ae_wf l" "apidata l = Some st"
    and "os_epoll_wait os (epfd st) (setsize l) (epoll_timeout tv) w = ((rv, evs), w')"
    and "0 < rv" "rv \<le> setsize l" "nat rv \<le> length evs"
  shows "\<exists>l' fs. epoll_aeApiPoll os l tv w = Some (rv, l', w') \<and> length fs = nat rv
    \<and> take (nat rv) (fired l') = map Some fs \<and> ae_wf l' \<and> events l' = events l
    \<and> (\<forall>j < nat rv. fired_fd (fs ! j) = fst (evs ! j)
         \<and> (has (fired_mask (fs ! j)) AE_READABLE \<longleftrightarrow> has (snd (evs ! j)) EPOLLIN)
         \<and> (has (fired_mask (fs ! j)) AE_WRITABLE \<longleftrightarrow> has (snd (evs ! j)) (EPOLLOUT OR EPOLLERR OR EPOLLHUP)))"
proof -
  let ?fs = "map epoll_entry (take (nat rv) evs)"
  have "nat rv \<le> length (fired l)" using assms(1,5) by (simp add: ae_wf_defs)
  with assms(6) have "epoll_fill 0 (nat rv) evs (fired l) = Some (map Some ?fs @ drop (nat rv) (fired l))"
    using epoll_fill_result [of 0 "nat rv" evs "fired l"] by simp
  then have p: "epoll_aeApiPoll os l tv w = Some (rv, l\<lparr>apidata := Some (st\<lparr>ep_events := evs\<rparr>),
      fired := map Some ?fs @ drop (nat rv) (fired l)\<rparr>, w')"
    using assms by (simp add: epoll_aeApiPoll_def)
  have wf: "ae_wf (l\<lparr>apidata := Some (st\<lparr>ep_events := evs\<rparr>),
      fired := map Some ?fs @ drop (nat rv) (fired l)\<rparr>)"
    using epoll.poll_wf [OF assms(1), of os tv w] p by (simp add: epoll_api_def)
  have "(has (from_epoll e) AE_READABLE \<longleftrightarrow> has e EPOLLIN)
      \<and> (has (from_epoll e) AE_WRITABLE \<longleftrightarrow> has e (EPOLLOUT OR EPOLLERR OR EPOLLHUP))" for e
  proof -
    have "has e (EPOLLOUT OR EPOLLERR OR EPOLLHUP) \<longleftrightarrow> has e EPOLLOUT \<or> has e EPOLLERR \<or> has e EPOLLHUP"
      by (simp add: has_def bit.conj_disj_distrib or_eq_0_iff)
    then show ?thesis
      by (simp add: from_epoll_def has_readable has_writable bit_or_iff bit_ae_consts)
  qed
  with assms(6) p wf show ?thesis
    by (intro exI [of _ "l\<lparr>apidata := Some (st\<lparr>ep_events := evs\<rparr>),
      fired := map Some ?fs @ drop (nat rv) (fired l)\<rparr>"] exI [of _ ?fs]) (simp add: epoll_entry_def)
qed

theorem epoll_poll_exact_witness:
  "\<exists>l' fs. epoll_aeApiPoll demo_os (demo_loop2 demo_epoll) None 0 = Some (1, l', 0) \<and> length fs = nat 1
    \<and> take (nat 1) (fired l') = map Some fs \<and> ae_wf l' \<and> events l' = events (demo_loop2 demo_epoll)
    \<and> (\<forall>j < nat 1. fired_fd (fs ! j) = fst ([(2, 5 :: mask)] ! j)
         \<and> (has (fired_mask (fs ! j)) AE_READABLE \<longleftrightarrow> has (snd ([(2 :: int, 5)] ! j)) EPOLLIN)
         \<and> (has (fired_mask (fs ! j)) AE_WRITABLE \<longleftrightarrow> has (snd ([(2 :: int, 5)] ! j)) (EPOLLOUT OR EPOLLERR OR EPOLLHUP)))"
  by (rule epoll_poll_exact [OF demo_wf2, where st = demo_epoll])
     (simp_all add: demo_loop2_def demo_loop_def demo_os_def demo_epoll_def)

section \<open>Timers\<close>

lemma nearest_min:
  assumes "\<forall>te \<in> set ts. ms_ok te" "ts \<noteq> []"
  obtains n where "search_nearest ts None = Some n" "n \<in> set ts" "te_when n = Min (te_when ` set ts)"
proof -
  from assms(2) obtain n where n: "search_nearest ts None = Some n"
    using search_nearest_None [of ts None] by auto
  have mem: "n \<in> set ts" and le: "\<forall>te \<in> set ts. \<not> te_before te n"
    using search_nearest_sound [OF n] by auto
  have "te_when n \<le> te_when te" if "te \<in> set ts" for te
    using le mem that assms(1) te_before_ms [of te n] by (meson linorder_not_less)
  then have "te_when n = Min (te_when ` set ts)" using mem by (intro Min_eqI [symmetric]) auto
  with that n mem show thesis by blast
qed

lemma timer_timeout_eq:
  assumes "ms_ok te" "0 \<le> m" "m < 1000" "d = te_when te - ms_of s m"
  shows "timer_timeout te s m = \<lparr>tv_sec = (if 0 \<le> d then d div 1000 else 0), tv_usec = (d mod 1000) * 1000\<rparr>"
proof -
  define u where "u = (if when_ms te < m then when_ms te + 1000 - m else when_ms te - m)"
  define q where "q = (if when_ms te < m then when_sec te - s - 1 else when_sec te - s)"
  have u: "0 \<le> u" "u < 1000" using assms(1-3) by (auto simp: u_def ms_ok_def)
  have d: "d = u + q * 1000" by (auto simp: assms(4) te_when_def ms_of_def u_def q_def algebra_simps)
  with u have "d div 1000 = q" "d mod 1000 = u" by simp_all
  moreover have "0 \<le> d \<longleftrightarrow> 0 \<le> q" using d u by linarith
  ultimately show ?thesis using u by (auto simp: timer_timeout_def u_def q_def Let_def)
qed

text \<open>C30: the time \<open>aeProcessEvents\<close> lets the poll sleep when it may wait and there are timers.
  With \<open>d\<close> the milliseconds until the nearest timer, the timeout is exactly \<open>d\<close> when the timer
  is not yet due. When it is overdue (\<open>d < 0\<close>) the seconds are cut to zero but the fraction is
  not: the poll may still sleep \<open>d mod 1000\<close> milliseconds.\<close>

theorem poll_timeout_nearest:
  assumes ok: "timers_ms_ok l" and ne: "timeEventHead l \<noteq> []"
    and fl: "has flags AE_TIME_EVENTS" "\<not> has flags AE_DONT_WAIT"
    and now: "aeGetTime os w = ((s, m), w')" "0 \<le> m" "m < 1000"
    and d: "d = Min (te_when ` set (timeEventHead l)) - ms_of s m"
  shows "poll_timeout os l flags w =
    (Some \<lparr>tv_sec = (if 0 \<le> d then d div 1000 else 0), tv_usec = (d mod 1000) * 1000\<rparr>, w')"
proof -
  from ok have msok: "\<forall>te \<in> set (timeEventHead l). ms_ok te" by (simp add: timers_ms_ok_def)
  from nearest_min [OF this ne] obtain n where n: "aeSearchNearestTimer l = Some n"
    "n \<in> set (timeEventHead l)" "te_when n = Min (te_when ` set (timeEventHead l))"
    by (metis aeSearchNearestTimer_def)
  with msok d have "timer_timeout n s m = \<lparr>tv_sec = (if 0 \<le> d then d div 1000 else 0), tv_usec = (d mod 1000) * 1000\<rparr>"
    by (intro timer_timeout_eq [OF _ now(2,3)]) auto
  with fl now(1) n(1) show ?thesis by (simp add: poll_timeout_def)
qed

lemma demo_timers: "timers_ms_ok (demo_loop a)"
  by (simp add: timers_ms_ok_def timers_ok_def demo_loop_def ms_ok_def)

text \<open>At 2,001 ms the timer of 1,500 ms is overdue, and the poll is allowed to sleep 499 ms.\<close>

theorem poll_timeout_nearest_witness:
  "poll_timeout demo_os (demo_loop demo_select) AE_ALL_EVENTS 2001 =
     (Some \<lparr>tv_sec = (if (0 :: int) \<le> - 501 then - 501 div 1000 else 0), tv_usec = (- 501 mod 1000) * 1000\<rparr>, 2001)"
  by (rule poll_timeout_nearest [OF demo_timers, where s = 2 and m = 1])
     (simp_all add: demo_loop_def has_def ae_consts aeGetTime_def demo_os_def ms_of_def te_when_def
       signed_divide_int_def)

text \<open>The list after the correction for a clock that was set back.\<close>

definition skewed :: "int \<Rightarrow> ('p, 'c, 'a) aeEventLoop \<Rightarrow> ('p, 'c) aeTimeEvent list" where
  "skewed now l = (if now < lastTime l then map (\<lambda>te. te\<lparr>when_sec := 0\<rparr>) (timeEventHead l) else timeEventHead l)"

lemma skewed_ok: "timers_ms_ok l \<Longrightarrow> timers_ms_ok (l\<lparr>timeEventHead := skewed t l, lastTime := t\<rparr>)"
  by (auto simp: timers_ms_ok_def timers_ok_def skewed_def ms_ok_def o_def)

lemma process_time_events_total:
  assumes st: "steady_clock os clk" and po: "polite P clk" and ok: "timers_ms_ok l"
    and t: "os_time os w = (t, w1)" and g: "aeGetTime os w1 = ((s, m), w2)"
  shows "\<exists>l' w'. processTimeEvents os P l w = Some (int (length (filter (te_due s m) (skewed t l))), l', w')
    \<and> timers_ms_ok l' \<and> pending (timeEventNextId l - 1) s m (timeEventHead l') = []
    \<and> (\<forall>tr. traces os P tr \<longrightarrow> tr w' = tr w @ map te_call (filter (te_due s m) (skewed t l)))"
proof -
  let ?l = "l\<lparr>timeEventHead := skewed t l, lastTime := t\<rparr>" and ?k = "timeEventNextId l - 1"
  note gs = get_time_steady [OF st g]
  have ok': "timers_ms_ok ?l" using ok by (rule skewed_ok)
  have q: "pending ?k s m (timeEventHead ?l) = filter (te_due s m) (skewed t l)"
    using ok' by (auto simp: pending_def timers_ms_ok_def timers_ok_def intro!: filter_cong)
  have "\<exists>l' w'. time_loop os P ?k s m (skewed t l) ?l w2 0
      = Some (0 + int (length (pending ?k s m (timeEventHead ?l))), l', w')
      \<and> timers_ms_ok l' \<and> pending ?k s m (timeEventHead l') = [] \<and> clk w2 \<le> clk w'
      \<and> (\<forall>tr. traces os P tr \<longrightarrow> tr w' = tr w2 @ map te_call (pending ?k s m (timeEventHead ?l)))"
    by (rule time_loop_total [OF st po _ _ ok', where pre = "[]"]) (use gs in \<open>simp_all add: pending_def\<close>)
  moreover have "processTimeEvents os P l w = time_loop os P ?k s m (skewed t l) ?l w2 0"
    by (auto simp: processTimeEvents_def t g skewed_def Let_def)
  ultimately obtain l' w' where run: "processTimeEvents os P l w = Some (int (length (filter (te_due s m) (skewed t l))), l', w')"
    "timers_ms_ok l'" "pending ?k s m (timeEventHead l') = []"
    and tr: "\<forall>tr. traces os P tr \<longrightarrow> tr w' = tr w2 @ map te_call (filter (te_due s m) (skewed t l))"
    unfolding q by auto
  have "tr w' = tr w @ map te_call (filter (te_due s m) (skewed t l))" if p: "traces os P tr" for tr
    using traces_time [OF p t] traces_get_time [OF p g] tr [rule_format, OF p] by simp
  with run show ?thesis by blast
qed

text \<open>C10: with a clock that does not run backwards and callbacks that keep the timers they find
  and ask for a positive delay or none, \<open>processTimeEvents\<close> returns, and it has called exactly the timers
  that are due at the time it read, each one once, with its own identifier and data, in the order of the
  list: the log of the callbacks, which the world keeps, has grown by these calls. The count it
  returns is their number. Every timer counts as due at its milliseconds of second zero when the clock was
  set back since the last call; afterwards no timer that existed at the start is due at that time.\<close>

theorem time_events_run_once:
  assumes "steady_clock os clk" "polite P clk" "timers_ms_ok l" "traces os P tr"
    and "os_time os w = (t, wa)" "aeGetTime os wa = ((s, m), wb)"
  shows "\<exists>l' w'. processTimeEvents os P l w = Some (int (length (filter (te_due s m) (skewed t l))), l', w')
    \<and> tr w' = tr w @ map (\<lambda>te. (timeProc te, te_id te, te_clientData te)) (filter (te_due s m) (skewed t l))
    \<and> timers_ms_ok l'
    \<and> (\<forall>te \<in> set (timeEventHead l'). te_id te < timeEventNextId l \<longrightarrow> \<not> te_due s m te)"
proof -
  have c: "te_call = (\<lambda>te. (timeProc te, te_id te, te_clientData te))" by (rule ext) (simp add: te_call_def)
  from process_time_events_total [OF assms(1,2,3,5,6)] assms(4) obtain l' w' where
    "processTimeEvents os P l w = Some (int (length (filter (te_due s m) (skewed t l))), l', w')"
    "tr w' = tr w @ map te_call (filter (te_due s m) (skewed t l))" "timers_ms_ok l'"
    and q: "pending (timeEventNextId l - 1) s m (timeEventHead l') = []" by blast
  moreover have "\<forall>te \<in> set (timeEventHead l'). te_id te < timeEventNextId l \<longrightarrow> \<not> te_due s m te"
    using q by (auto simp: pending_def filter_empty_conv)
  ultimately show ?thesis unfolding c by blast
qed

text \<open>Witness: a world that is the log and the clock, and a callback that writes the log.\<close>

definition log_os :: "((nat \<times> int \<times> nat) list \<times> int) os" where
  "log_os =
     \<lparr>os_malloc = (\<lambda>n w. (True, w)), os_free = (\<lambda>w. w), os_junk = (\<lambda>w i. 7),
      os_time = (\<lambda>w. (snd w div 1000, w)),
      os_gettimeofday = (\<lambda>w. ((snd w div 1000, (snd w mod 1000) * 1000), w)),
      os_select = (\<lambda>n r s tv w. ((0, {}, {}), w)),
      os_epoll_create = (\<lambda>w. (5, w)), os_epoll_ctl = (\<lambda>ep op fd e w. (- 1, w)),
      os_epoll_wait = (\<lambda>ep n t w. ((0, []), w)),
      os_poll = (\<lambda>fd e t w. ((1, e), w)), os_close = (\<lambda>fd w. w)\<rparr>"

definition log_procs :: "(nat, nat, 'a, (nat \<times> int \<times> nat) list \<times> int) procs" where
  "log_procs =
     \<lparr>call_file = (\<lambda>p l fd c m w. Some (l, w)), call_time = (\<lambda>p l i c w. Some (100, l, (fst w @ [(p, i, c)], snd w))),
      call_final = (\<lambda>p l c w. Some (l, w)), call_before = (\<lambda>p l w. Some (l, w))\<rparr>"

lemma log_steady: "steady_clock log_os snd"
proof -
  have "(w mod 1000 * 1000) div 1000 = w mod 1000" "ms_of (w div 1000) (w mod 1000) = w" for w :: int
    by (simp_all add: ms_of_def)
  then show ?thesis by (auto simp: steady_clock_def log_os_def)
qed

theorem time_events_run_once_witness:
  "\<exists>l' w'. processTimeEvents log_os log_procs (demo_loop demo_select) ([], 2001) = Some (1, l', w') \<and> fst w' = [(9, 0, 0)]"
proof -
  let ?P = "log_procs :: (nat, nat, select_state, (nat \<times> int \<times> nat) list \<times> int) procs"
  have "polite ?P snd" by (simp add: polite_def log_procs_def)
  moreover have "traces log_os ?P fst" by (simp add: traces_def log_os_def log_procs_def)
  moreover have "filter (te_due 2 1) (skewed 2 (demo_loop demo_select)) =
      [\<lparr>te_id = 0, when_sec = 1, when_ms = 500, timeProc = 9, finalizerProc = None, te_clientData = 0\<rparr>]"
    by (simp add: skewed_def demo_loop_def te_due_def)
  moreover have "os_time log_os ([], 2001) = (2, ([], 2001))" "aeGetTime log_os ([], 2001) = ((2, 1), ([], 2001))"
    by (simp_all add: log_os_def aeGetTime_def signed_divide_int_def)
  ultimately show ?thesis
    using time_events_run_once [OF log_steady, of log_procs "demo_loop demo_select" fst "([], 2001)" 2 "([], 2001)" 2 1 "([], 2001)"]
      demo_timers [of demo_select] by auto
qed

text \<open>a timer gets an identifier no other timer has; deleting it by that identifier gives back
  the list of timers from before its creation, and a second deletion reports an error and
  changes nothing.\<close>

theorem timer_create_delete:
  assumes wf: "ae_wf l" and run: "aeCreateTimeEvent os l ms proc cd None w = (i, l', w')" and i: "i \<noteq> AE_ERR"
  shows "i \<notin> te_id ` set (timeEventHead l) \<and> ae_wf l'
    \<and> aeDeleteTimeEvent os P l' i w' = Some (AE_OK, l'\<lparr>timeEventHead := timeEventHead l\<rparr>, os_free os w')
    \<and> aeDeleteTimeEvent os P (l'\<lparr>timeEventHead := timeEventHead l\<rparr>) i w'' =
        Some (AE_ERR, l'\<lparr>timeEventHead := timeEventHead l\<rparr>, w'')"
proof -
  have fresh: "timeEventNextId l \<notin> te_id ` set (timeEventHead l)"
    using wf by (force simp: ae_wf_def timers_ok_def)
  have wf': "ae_wf l'" using wf run by (rule create_time_event_wf)
  show ?thesis
  proof (rule create_time_event_cases [of os l ms proc cd None w])
    fix te w2
    assume c: "aeCreateTimeEvent os l ms proc cd None w =
        (timeEventNextId l, l\<lparr>timeEventNextId := timeEventNextId l + 1, timeEventHead := te # timeEventHead l\<rparr>, w2)"
      and te: "te_id te = timeEventNextId l" "finalizerProc te = None"
    from c run have l': "i = timeEventNextId l"
      "l' = l\<lparr>timeEventNextId := timeEventNextId l + 1, timeEventHead := te # timeEventHead l\<rparr>"
      by (metis Pair_inject)+
    have u: "unlink i (timeEventHead l) = None" using fresh l'(1) by (simp add: unlink_None)
    have "aeDeleteTimeEvent os P l' i w' = Some (AE_OK, l'\<lparr>timeEventHead := timeEventHead l\<rparr>, os_free os w')"
      using te by (simp add: aeDeleteTimeEvent_def l')
    moreover have "aeDeleteTimeEvent os P (l'\<lparr>timeEventHead := timeEventHead l\<rparr>) i w'' =
        Some (AE_ERR, l'\<lparr>timeEventHead := timeEventHead l\<rparr>, w'')"
      using u by (simp add: aeDeleteTimeEvent_def)
    ultimately show ?thesis using fresh wf' l'(1) by simp
  qed (use run i in simp)
qed

theorem timer_create_delete_witness:
  "\<exists>l'. aeCreateTimeEvent demo_os (demo_loop demo_select) 70 9 0 None 2001 = (2, l', 2001)
    \<and> 2 \<notin> te_id ` set (timeEventHead (demo_loop demo_select)) \<and> ae_wf l'
    \<and> aeDeleteTimeEvent demo_os demo_procs l' 2 2001
        = Some (AE_OK, l'\<lparr>timeEventHead := timeEventHead (demo_loop demo_select)\<rparr>, os_free demo_os 2001)"
proof -
  obtain l' where run: "aeCreateTimeEvent demo_os (demo_loop demo_select) 70 9 0 None 2001 = (2, l', 2001)"
    by (simp add: aeCreateTimeEvent_def demo_os_def demo_loop_def aeAddMillisecondsToNow_def aeGetTime_def)
  from timer_create_delete [OF demo_wf run, of demo_procs 0] run show ?thesis by (simp add: AE_ERR_def)
qed

section \<open>One iteration and the main loop\<close>

definition select_ready :: "('p, 'c, select_state) aeEventLoop \<Rightarrow> bool" where
  "select_ready l \<longleftrightarrow> select_usable l \<and> fds_in_range l \<and> (\<forall>te \<in> set (timeEventHead l). ms_ok te)"

lemma select_poll_ready:
  assumes "ae_wf l" "select_ready l"
  shows "\<exists>n l' w'. select_aeApiPoll os l tv w = Some (n, l', w') \<and> ae_wf l' \<and> select_ready l' \<and> fired_valid (nat n) l'"
proof -
  from assms(2) have us: "select_pollable l" by (simp add: select_ready_def select_pollable_def)
  from select.poll_defined [OF assms(1) us, of os tv w] obtain n l' w' where
    p: "api_poll (select_api os) l tv w = Some (n, l', w')" "select_pollable l'" "fired_valid (nat n) l'" by blast
  from select.poll_frame [OF p(1)] have "timeEventHead l' = timeEventHead l" by auto
  with assms(2) p select.poll_wf [OF assms(1) p(1)] show ?thesis by (auto simp: select_ready_def select_pollable_def select_api_def)
qed



section \<open>Every loop the interface can build\<close>

text \<open>
  The loops a program can build with the functions of \<open>ae.h\<close> on the select layer: it creates
  a loop, registers and removes conditions on descriptors in range, creates and deletes timers
  (without finalizers, which may do anything), and asks the loop to stop.
\<close>

inductive built :: "'w os \<Rightarrow> ('p, 'c, select_state, 'w) procs \<Rightarrow> ('p, 'c, select_state) aeEventLoop \<Rightarrow> bool"
  for os P where
  create: "aeCreateEventLoop os (select_api os) sz w = (Some l, w') \<Longrightarrow> 0 \<le> sz \<Longrightarrow> built os P l"
| register: "built os P l \<Longrightarrow> 0 \<le> fd \<Longrightarrow> fd < FD_SETSIZE \<Longrightarrow> rw_mask m \<Longrightarrow> m \<noteq> AE_NONE \<Longrightarrow>
    aeCreateFileEvent (select_api os) l fd m proc cd w = Some (r, l', w') \<Longrightarrow> built os P l'"
| unregister: "built os P l \<Longrightarrow> 0 \<le> fd \<Longrightarrow> fd < FD_SETSIZE \<Longrightarrow>
    aeDeleteFileEvent (select_api os) l fd m w = Some (l', w') \<Longrightarrow> built os P l'"
| timer: "built os P l \<Longrightarrow> aeCreateTimeEvent os l ms proc cd None w = (i, l', w') \<Longrightarrow> built os P l'"
| untimer: "built os P l \<Longrightarrow> aeDeleteTimeEvent os P l i w = Some (r, l', w') \<Longrightarrow> built os P l'"
| stopped: "built os P l \<Longrightarrow> built os P (aeStop l)"

lemma delete_time_event_wf:
  assumes "ae_wf l" "aeDeleteTimeEvent os P l i w = Some (r, l', w')" "\<forall>te \<in> set (timeEventHead l). finalizerProc te = None"
  shows "ae_wf l' \<and> (\<exists>ts. l' = l\<lparr>timeEventHead := ts\<rparr> \<and> set ts \<subseteq> set (timeEventHead l))"
proof (cases "unlink i (timeEventHead l)")
  case None
  with assms have "l' = l\<lparr>timeEventHead := timeEventHead l\<rparr>" "ae_wf l'" by (simp_all add: aeDeleteTimeEvent_def)
  then show ?thesis by blast
next
  case (Some a)
  then obtain te rest where u: "unlink i (timeEventHead l) = Some (te, rest)" by (cases a) simp
  have d: "distinct (map te_id (timeEventHead l))" using assms(1) by (simp add: ae_wf_def timers_ok_def)
  from unlink_filter [OF d u] have rest: "rest = filter (\<lambda>t. te_id t \<noteq> i) (timeEventHead l)"
    and te: "te \<in> set (timeEventHead l)" by auto
  with assms u have l': "l' = l\<lparr>timeEventHead := rest\<rparr>" by (auto simp: aeDeleteTimeEvent_def)
  have "timers_ok l'" using assms(1) rest l' by (auto simp: ae_wf_def timers_ok_def distinct_map_filter)
  with assms(1) have "ae_wf l'" by (rule ae_wf_timers) (simp_all add: l')
  with l' rest show ?thesis by auto
qed

definition built_inv :: "('p, 'c, select_state) aeEventLoop \<Rightarrow> 'w \<Rightarrow> bool" where
  "built_inv l w \<longleftrightarrow> ae_wf l \<and> select_usable l \<and> agrees (select_watching l w) l
     \<and> fds_in_range l \<and> (\<forall>te \<in> set (timeEventHead l). finalizerProc te = None)"

text \<open>Registering and removing conditions keeps the descriptors below \<open>FD_SETSIZE\<close>.\<close>

lemma create_keeps_range:
  assumes "ae_wf l" "fds_in_range l" "select_usable l" "0 \<le> fd" "fd < FD_SETSIZE"
    and run: "aeCreateFileEvent (select_api os) l fd m proc cd w = Some (r, l', w')"
  shows "fds_in_range l'"
proof (cases "fd < setsize l")
  case True
  from select_create_defined [OF assms(1,3,4) True assms(5), of os m proc cd w] run
  have "events l' = (events l)[nat fd := registered (events l ! nat fd) m proc cd]" by auto
  then show ?thesis using assms(2,4,5) by (auto simp: fds_in_range_def mask_at_def nth_list_update)
next
  case False
  then have "events l' = events l" using run by (auto simp: aeCreateFileEvent_def)
  then show ?thesis using assms(2) fds_in_range_cong [of l' l] by simp
qed

lemma delete_keeps_range:
  assumes "ae_wf l" "fds_in_range l" "select_usable l" "0 \<le> fd" "fd < FD_SETSIZE"
    and run: "aeDeleteFileEvent (select_api os) l fd m w = Some (l', w')"
  shows "fds_in_range l'"
proof (cases "fd < setsize l")
  case True
  from select_delete_defined [OF assms(1,3,4) True assms(5), of os m w] run obtain fe' where
    "events l' = (events l)[nat fd := fe']" by auto
  then show ?thesis using assms(2,4,5) by (auto simp: fds_in_range_def mask_at_def nth_list_update)
next
  case False
  then have "events l' = events l" using run by (auto simp: aeDeleteFileEvent_def)
  then show ?thesis using assms(2) fds_in_range_cong [of l' l] by simp
qed

lemma select_watching_world: "select_watching l w = select_watching l w'"
  by (rule ext) (simp add: select_watching_def)

lemma built_register_inv:
  assumes inv: "built_inv l w" and fd: "0 \<le> fd" "fd < FD_SETSIZE" and m: "rw_mask m" "m \<noteq> AE_NONE"
    and run: "aeCreateFileEvent (select_api os) l fd m proc cd w = Some (r, l', w')"
  shows "built_inv l' w'"
proof -
  from inv have wf: "ae_wf l" and us: "select_usable l" and sync: "select.synced l w"
    and fin: "\<forall>te \<in> set (timeEventHead l). finalizerProc te = None"
    by (simp_all add: built_inv_def select_agrees)
  have "ae_wf l'" using wf m run by (rule select.create_file_event_wf)
  moreover have "select.synced l' w'" using wf sync m(1) run by (rule select.create_file_event_synced)
  moreover have "timeEventHead l' = timeEventHead l \<and> apidata l' \<noteq> None"
    using run
  proof (cases rule: select.create_file_event_cases)
    case (fail fe a)
    then have "select_aeApiAddEvent l fd m w = Some (- 1, l', w')" by (simp add: select_api_def)
    then have "apidata l' \<noteq> None" by (rule select_add_Some) simp
    with fail show ?thesis by simp
  next
    case (ok fe q a)
    then have "select_aeApiAddEvent l fd m w = Some (q, l\<lparr>apidata := a\<rparr>, w')" by (simp add: select_api_def)
    then have "apidata (l\<lparr>apidata := a\<rparr>) \<noteq> None" by (rule select_add_Some) simp
    with ok show ?thesis by simp
  qed (use us in \<open>simp add: select_usable_def\<close>)
  moreover have "fds_in_range l'" using wf _ us fd run by (rule create_keeps_range) (use inv in \<open>simp add: built_inv_def\<close>)
  ultimately show ?thesis using fin by (simp add: built_inv_def select_agrees select_usable_def)
qed

lemma built_unregister_inv:
  assumes inv: "built_inv l w" and fd: "0 \<le> fd" "fd < FD_SETSIZE" and run: "aeDeleteFileEvent (select_api os) l fd m w = Some (l', w')"
  shows "built_inv l' w'"
proof -
  from inv have wf: "ae_wf l" and us: "select_usable l" and sync: "select.synced l w"
    and fin: "\<forall>te \<in> set (timeEventHead l). finalizerProc te = None"
    by (simp_all add: built_inv_def select_agrees)
  have "ae_wf l'" using wf run by (rule select.delete_file_event_wf)
  moreover have "select.synced l' w'" using wf sync run by (rule select.delete_file_event_synced)
  moreover have "timeEventHead l' = timeEventHead l \<and> apidata l' \<noteq> None"
    using run
  proof (cases rule: select.delete_file_event_cases)
    case (del fe fe' l1 a)
    then have "select_aeApiDelEvent l1 fd m w = Some (l', w')" by (simp add: select_api_def)
    then have "apidata l' \<noteq> None" by (rule select_del_Some) simp
    with del show ?thesis by (simp add: Let_def)
  qed (use us in \<open>simp add: select_usable_def\<close>)
  moreover have "fds_in_range l'" using wf _ us fd run by (rule delete_keeps_range) (use inv in \<open>simp add: built_inv_def\<close>)
  ultimately show ?thesis using fin by (simp add: built_inv_def select_agrees select_usable_def)
qed

lemma select_create_usable:
  assumes "aeCreateEventLoop os (select_api os) sz w = (Some l, w')"
  shows "select_usable l \<and> select_watching l v i = AE_NONE \<and> timeEventHead l = []"
  using assms
  by (auto simp: aeCreateEventLoop_def select_api_def select_aeApiCreate_def Let_def select_usable_def
      select_watching_def rw_def AE_NONE_def split: prod.splits if_splits)

lemma built_invariant:
  fixes os :: "'w os" and w :: 'w
  shows "built os P l \<Longrightarrow> built_inv l w"
proof (induction arbitrary: w rule: built.induct)
  case (create sz w0 l w' w)
  note sc = select_create_usable [OF create(1)]
  have "select_usable l" "timeEventHead l = []" using sc [of w 0] by blast+
  moreover have "select_watching l w i = AE_NONE" for i using sc [of w i] by blast
  ultimately show ?case using select.create_loop_wf [OF create]
    by (auto simp: built_inv_def agrees_def ae_wf_def arrays_ok_def fds_in_range_def)
next
  case (register l fd m proc cd w0 r l' w')
  then have "built_inv l' w'" by (intro built_register_inv [OF register.IH]) 
  then show ?case using select_watching_world by (metis built_inv_def)
next
  case (unregister l fd m w0 l' w')
  then have "built_inv l' w'" by (intro built_unregister_inv [OF unregister.IH])
  then show ?case using select_watching_world by (metis built_inv_def)
next
  case (timer l ms proc cd w0 i l' w')
  have wf: "ae_wf l'" using timer by (auto simp: built_inv_def intro: create_time_event_wf)
  show ?case
  proof (rule create_time_event_cases [of os l ms proc cd None w0])
  qed (use timer wf in \<open>auto simp: built_inv_def select_usable_def agrees_def select_watching_def fds_in_range_def mask_at_def\<close>)
next
  case (untimer l i w0 r l' w' w)
  then have "ae_wf l' \<and> (\<exists>ts. l' = l\<lparr>timeEventHead := ts\<rparr> \<and> set ts \<subseteq> set (timeEventHead l))"
    by (intro delete_time_event_wf) (auto simp: built_inv_def)
  with untimer.IH [of w] show ?case
    by (auto simp: built_inv_def select_usable_def agrees_def select_watching_def fds_in_range_def mask_at_def)
next
  case (stopped l w)
  then have "built_inv l w" by simp
  moreover have "ae_wf (aeStop l)" using calculation by (auto simp: built_inv_def aeStop_def intro: ae_wf_cong)
  ultimately show ?case
    by (simp add: built_inv_def select_usable_def agrees_def select_watching_def fds_in_range_def mask_at_def aeStop_def)
qed

lemma maxfd_bound:
  assumes "ae_wf l" "0 \<le> fd" "fd < setsize l" "mask_at l (nat fd) \<noteq> AE_NONE"
  shows "fd \<le> maxfd l"
proof (rule ccontr)
  assume "\<not> fd \<le> maxfd l"
  moreover have "nat fd < length (events l)" using assms(1-3) by (simp add: ae_wf_def arrays_ok_def)
  ultimately have "mask_at l (nat fd) = AE_NONE" using assms(1,2) by (simp add: ae_wf_def maxfd_ok_def)
  with assms(4) show False by contradiction
qed

text \<open>C12: every loop built through the interface on the select layer, in any order of calls,
  is well-formed and its layer watches exactly the registered masks: the bit sets handed to
  \<open>select\<close> are those of the registered descriptors, and every descriptor in them is below the
  \<open>maxfd + 1\<close> that is passed with them.\<close>

theorem built_watches:
  assumes "built os P l"
  shows "ae_wf l \<and> (\<exists>st. apidata l = Some st \<and>
    (\<forall>fd. 0 \<le> fd \<and> fd < setsize l \<longrightarrow>
       (fd \<in> rfds st \<longleftrightarrow> has (mask_at l (nat fd)) AE_READABLE)
       \<and> (fd \<in> wfds st \<longleftrightarrow> has (mask_at l (nat fd)) AE_WRITABLE)
       \<and> (fd \<in> rfds st \<union> wfds st \<longrightarrow> fd < maxfd l + 1)))"
proof -
  define v where "v = snd (os_time os undefined)"
  from built_invariant [OF assms, of v] have wf: "ae_wf l" and us: "select_usable l"
    and ag: "agrees (select_watching l v) l" by (simp_all add: built_inv_def)
  from us obtain st where st: "apidata l = Some st" by (auto simp: select_usable_def)
  have "(fd \<in> rfds st \<longleftrightarrow> has (mask_at l (nat fd)) AE_READABLE)
       \<and> (fd \<in> wfds st \<longleftrightarrow> has (mask_at l (nat fd)) AE_WRITABLE)
       \<and> (fd \<in> rfds st \<union> wfds st \<longrightarrow> fd < maxfd l + 1)" if fd: "0 \<le> fd" "fd < setsize l" for fd
  proof -
    have len: "nat fd < length (events l)" using wf fd by (auto simp: ae_wf_defs)
    with ag fd have w: "rw (fd \<in> rfds st) (fd \<in> wfds st) = mask_at l (nat fd)"
      by (auto simp: agrees_def select_watching_def st)
    have "fd \<le> maxfd l" if "mask_at l (nat fd) \<noteq> AE_NONE"
      using wf fd that by (rule maxfd_bound)
    moreover have "mask_at l (nat fd) \<noteq> AE_NONE" if "fd \<in> rfds st \<union> wfds st"
      using that unfolding w [symmetric] by (auto simp: rw_def ae_consts or_eq_0_iff)
    moreover have "has (mask_at l (nat fd)) AE_READABLE \<longleftrightarrow> fd \<in> rfds st"
      "has (mask_at l (nat fd)) AE_WRITABLE \<longleftrightarrow> fd \<in> wfds st"
      unfolding w [symmetric] by (simp_all add: has_readable has_writable)
    ultimately show ?thesis by auto
  qed
  with wf st show ?thesis by blast
qed

theorem built_watches_witness:
  "\<exists>l :: (nat, nat, select_state) aeEventLoop. built demo_os demo_procs l \<and> ae_wf l \<and> (\<exists>st. apidata l = Some st \<and>
    (\<forall>fd. 0 \<le> fd \<and> fd < setsize l \<longrightarrow>
       (fd \<in> rfds st \<longleftrightarrow> has (mask_at l (nat fd)) AE_READABLE)
       \<and> (fd \<in> wfds st \<longleftrightarrow> has (mask_at l (nat fd)) AE_WRITABLE)
       \<and> (fd \<in> rfds st \<union> wfds st \<longrightarrow> fd < maxfd l + 1)))"
proof -
  obtain l :: "(nat, nat, select_state) aeEventLoop" where c: "aeCreateEventLoop demo_os (select_api demo_os) 8 0 = (Some l, 0)"
    by (simp add: aeCreateEventLoop_def demo_os_def select_api_def select_aeApiCreate_def)
  then have l: "built demo_os demo_procs l" by (rule create) simp
  have wf: "ae_wf l" "setsize l = 8" using select.create_loop_wf [OF c] by simp_all
  have us: "select_usable l" using select_create_usable [OF c, of "()" 0] by simp
  from select_create_defined [OF wf(1) us, of 5 demo_os AE_READABLE 1 1 0] wf(2) obtain l' where
    "aeCreateFileEvent (select_api demo_os) l 5 AE_READABLE 1 1 0 = Some (AE_OK, l', 0)"
    by (auto simp: FD_SETSIZE_def)
  then have "built demo_os demo_procs l'"
    by (rule register [OF l, rotated 4]) (simp_all add: FD_SETSIZE_def rw_mask_consts ae_consts rw_mask_def)
  then show ?thesis using built_watches [of demo_os demo_procs l'] by blast
qed

end
