(* ===== verification/Lsendbuf.thy ===== *)
theory Lsendbuf
  imports Os
begin

text \<open>
  The send buffers, \<open>src/src/ae/lsendbuf.cc\<close>. Every socket has a chain of blocks; blocks that
  have been read are kept in free lists by size class and never given back. The blocks live in
  an explicit heap, so that sharing of a block between two lists can be expressed. A pointer
  into a block is the block's address and an offset into its \<open>buf\<close>.

  The bound checks of the macro \<open>assert_sockfd\<close> are not used by these functions: a socket
  number outside the array \<open>bbufs\<close> is undefined behaviour.
\<close>

section \<open>Data\<close>

type_synonym addr = nat
type_synonym bptr = "addr \<times> int"

record BBuf_Block =
  bb_next :: "addr option"
  bb_buf_size :: int
  bb_buf_len :: int
  bb_rptr :: int
  bb_buf :: block

definition SIZEOF_BBuf_Block :: int where "SIZEOF_BBuf_Block = 24"

record BBuf =
  block_head :: "addr option"
  block_tail :: "addr option"

definition MAX_SOCKET :: int where "MAX_SOCKET = 65536"
definition MAX_TABLE :: nat where "MAX_TABLE = 32"

text \<open>
  The static variables \<open>bbufs\<close> and \<open>block_table\<close> with the blocks they point to. \<open>brk\<close> is
  the next address \<open>malloc\<close> hands out: these blocks are never freed, so a new block has an
  address no block had before.
\<close>

record sendbuf =
  heap :: "addr \<Rightarrow> BBuf_Block option"
  bbufs :: "int \<Rightarrow> BBuf"
  block_table :: "nat \<Rightarrow> addr option"
  brk :: addr

definition sendbuf_init :: sendbuf where
  "sendbuf_init =
     \<lparr>heap = (\<lambda>_. None), bbufs = (\<lambda>_. \<lparr>block_head = None, block_tail = None\<rparr>),
      block_table = (\<lambda>_. None), brk = 0\<rparr>"

definition fd2bbuf :: "sendbuf \<Rightarrow> int \<Rightarrow> BBuf option" where
  "fd2bbuf st sockfd = (if 0 \<le> sockfd \<and> sockfd < MAX_SOCKET then Some (bbufs st sockfd) else None)"

definition set_bbuf :: "sendbuf \<Rightarrow> int \<Rightarrow> BBuf \<Rightarrow> sendbuf" where
  "set_bbuf st sockfd b = st\<lparr>bbufs := (bbufs st)(sockfd := b)\<rparr>"

definition set_block :: "sendbuf \<Rightarrow> addr \<Rightarrow> BBuf_Block \<Rightarrow> sendbuf" where
  "set_block st a b = st\<lparr>heap := (heap st)(a \<mapsto> b)\<rparr>"

section \<open>Size classes and free lists\<close>

text \<open>
  \<open>hash\<close>: the loop over \<open>index\<close>. A shift of \<open>1\<close> by 32 or more is undefined, so the loop
  has a result only if it stops before.
\<close>

function hash_loop :: "nat \<Rightarrow> int \<Rightarrow> nat option" where
  "hash_loop index sz =
     (if MAX_TABLE \<le> index then None
      else if 2 ^ index < sz then hash_loop (Suc index) sz else Some index)"
  by pat_completeness auto
termination by (relation "measure (\<lambda>(index, sz). MAX_TABLE - index)") (auto simp: MAX_TABLE_def)

declare hash_loop.simps [simp del]

definition hash :: "int \<Rightarrow> nat option" where
  "hash sz = hash_loop 0 (c_uint sz)"

definition bbuf_free_block :: "sendbuf \<Rightarrow> addr \<Rightarrow> sendbuf option" where
  "bbuf_free_block st a =
     do {
       b \<leftarrow> heap st a;
       idx \<leftarrow> hash (c_size (bb_buf_size b + SIZEOF_BBuf_Block));
       if block_table st idx = None
       then (let st = set_block st a (b\<lparr>bb_next := None\<rparr>)
             in Some (st\<lparr>block_table := (block_table st)(idx := Some a)\<rparr>))
       else (let st = set_block st a (b\<lparr>bb_next := block_table st idx\<rparr>)
             in Some (st\<lparr>block_table := (block_table st)(idx := Some a)\<rparr>))
     }"

text \<open>The length of the list from \<open>head\<close> on, as \<open>lstat\<close> counts it.\<close>

partial_function (option) count_list :: "(addr \<Rightarrow> BBuf_Block option) \<Rightarrow> addr option \<Rightarrow> int \<Rightarrow> int option" where
  "count_list h p n =
     (case p of
        None \<Rightarrow> Some n
      | Some a \<Rightarrow> Option.bind (h a) (\<lambda>b. count_list h (bb_next b) (n + 1)))"

text \<open>The lines \<open>lstat\<close> prints: the size classes in use with their number of free blocks, and
  the total in kilobytes. \<open>stat_loop\<close> runs the iterations \<open>i\<close>, \dots, \<open>i + k - 1\<close>.\<close>

fun stat_loop :: "sendbuf \<Rightarrow> nat \<Rightarrow> nat \<Rightarrow> int \<Rightarrow> (nat \<times> int) list \<Rightarrow> ((nat \<times> int) list \<times> int) option" where
  "stat_loop st i 0 acc out = Some (out, acc)"
| "stat_loop st i (Suc k) acc out =
     do {
       count \<leftarrow> count_list (heap st) (block_table st i) 0;
       stat_loop st (Suc i) k (c_int (acc + c_int (2 ^ i) * count))
         (if 0 < count then out @ [(i, count)] else out)
     }"

definition lstat :: "sendbuf \<Rightarrow> ((nat \<times> int) list \<times> int) option" where
  "lstat st = do { (out, s) \<leftarrow> stat_loop st 0 MAX_TABLE 0 []; Some (out, s sdiv 1024) }"

section \<open>The operations\<close>

definition sendbuf_create :: "sendbuf \<Rightarrow> int \<Rightarrow> (int \<times> sendbuf) option" where
  "sendbuf_create st sockfd =
     do {
       _ \<leftarrow> fd2bbuf st sockfd;
       Some (0, set_bbuf st sockfd \<lparr>block_head = None, block_tail = None\<rparr>)
     }"

text \<open>The \<open>while\<close> loop of \<open>sendbuf_free\<close>: \<open>next\<close> is read before the block is put into its
  free list. The fields of \<open>bbufs[sockfd]\<close> are left as they are.\<close>

partial_function (option) free_blocks :: "sendbuf \<Rightarrow> addr option \<Rightarrow> sendbuf option" where
  "free_blocks st p =
     (case p of
        None \<Rightarrow> Some st
      | Some a \<Rightarrow>
          Option.bind (heap st a) (\<lambda>b.
            Option.bind (bbuf_free_block st a) (\<lambda>st. free_blocks st (bb_next b))))"

definition sendbuf_free :: "sendbuf \<Rightarrow> int \<Rightarrow> (int \<times> sendbuf) option" where
  "sendbuf_free st sockfd =
     do {
       self \<leftarrow> fd2bbuf st sockfd;
       st \<leftarrow> free_blocks st (block_head self);
       Some (0, st)
     }"

definition sendbuf_get_read_ptr :: "sendbuf \<Rightarrow> int \<Rightarrow> bptr option option" where
  "sendbuf_get_read_ptr st sockfd =
     do {
       self \<leftarrow> fd2bbuf st sockfd;
       case block_head self of
         None \<Rightarrow> Some None
       | Some a \<Rightarrow> do { b \<leftarrow> heap st a; Some (Some (a, bb_rptr b)) }
     }"

definition sendbuf_datalen :: "sendbuf \<Rightarrow> int \<Rightarrow> int option" where
  "sendbuf_datalen st sockfd =
     do {
       self \<leftarrow> fd2bbuf st sockfd;
       case block_head self of
         None \<Rightarrow> Some 0
       | Some a \<Rightarrow> do { b \<leftarrow> heap st a; Some (c_int (bb_buf_len b - bb_rptr b)) }
     }"

definition sendbuf_skip_read_ptr :: "sendbuf \<Rightarrow> int \<Rightarrow> int \<Rightarrow> (int \<times> sendbuf) option" where
  "sendbuf_skip_read_ptr st sockfd len =
     do {
       self \<leftarrow> fd2bbuf st sockfd;
       case block_head self of
         None \<Rightarrow> Some (1, st)
       | Some a \<Rightarrow> do {
           b \<leftarrow> heap st a;
           let b = b\<lparr>bb_rptr := c_int (bb_rptr b + len)\<rparr>;
           let st = set_block st a b;
           if bb_buf_len b \<le> bb_rptr b
           then do {
             let self = self\<lparr>block_head := bb_next b\<rparr>;
             let self = (if block_head self = None then self\<lparr>block_tail := None\<rparr> else self);
             st \<leftarrow> bbuf_free_block (set_bbuf st sockfd self) a;
             Some (0, st)
           }
           else Some (0, st)
         }
     }"

text \<open>The argument \<open>buf\<close> of \<open>sendbuf_flush\<close> is not used by the code.\<close>

definition sendbuf_flush :: "sendbuf \<Rightarrow> int \<Rightarrow> bptr option \<Rightarrow> int \<Rightarrow> (int \<times> sendbuf) option" where
  "sendbuf_flush st sockfd buf len =
     do {
       self \<leftarrow> fd2bbuf st sockfd;
       case block_tail self of
         None \<Rightarrow> Some (1, st)
       | Some a \<Rightarrow> do {
           b \<leftarrow> heap st a;
           if c_int (bb_buf_size b - bb_buf_len b) < len then Some (1, st)
           else Some (0, set_block st a (b\<lparr>bb_buf_len := c_int (bb_buf_len b + len)\<rparr>))
         }
     }"

text \<open>
  The block of size class \<open>idx\<close> that \<open>malloc\<close> returns, put into the (empty) free list. The
  contents are indeterminate; \<open>buf_len\<close> and \<open>rptr\<close> are written before they are read.
\<close>

definition new_block :: "'w os \<Rightarrow> sendbuf \<Rightarrow> nat \<Rightarrow> 'w \<Rightarrow> (bool \<times> sendbuf) \<times> 'w" where
  "new_block os st idx w =
     (let malloc_size = c_int (2 ^ idx);
          (ok, w) = os_malloc os (c_size malloc_size) w
      in if \<not> ok then ((False, st), w)
         else
           let a = brk st;
               b = \<lparr>bb_next = None, bb_buf_size = c_int (malloc_size - SIZEOF_BBuf_Block),
                    bb_buf_len = 0, bb_rptr = 0,
                    bb_buf = map (\<lambda>i. ucast (os_junk os w i))
                               [0..<nat (c_size malloc_size - SIZEOF_BBuf_Block)]\<rparr>;
               st = (set_block st a b)\<lparr>brk := Suc a\<rparr>
           in ((True, st\<lparr>block_table := (block_table st)(idx := Some a)\<rparr>), w))"

text \<open>Taking the first block of free list \<open>idx\<close> and appending it to the chain of \<open>sockfd\<close>.\<close>

definition take_block :: "sendbuf \<Rightarrow> int \<Rightarrow> nat \<Rightarrow> (bptr option \<times> sendbuf) option" where
  "take_block st sockfd idx =
     (case block_table st idx of
        None \<Rightarrow> Some (None, st)
      | Some a \<Rightarrow>
          do {
            b \<leftarrow> heap st a;
            let st = st\<lparr>block_table := (block_table st)(idx := bb_next b)\<rparr>;
            let st = set_block st a (b\<lparr>bb_next := None, bb_rptr := 0, bb_buf_len := 0\<rparr>);
            self \<leftarrow> fd2bbuf st sockfd;
            case block_tail self of
              None \<Rightarrow> Some (Some (a, 0), set_bbuf st sockfd \<lparr>block_head = Some a, block_tail = Some a\<rparr>)
            | Some t \<Rightarrow>
                do {
                  tb \<leftarrow> heap st t;
                  let st = set_block st t (tb\<lparr>bb_next := Some a\<rparr>);
                  let st = set_bbuf st sockfd (self\<lparr>block_tail := Some a\<rparr>);
                  b \<leftarrow> heap st a;
                  Some (Some (a, 0), set_block st a (b\<lparr>bb_next := None\<rparr>))
                }
          })"

text \<open>The part of \<open>sendbuf_alloc\<close> after the comment: a block from the free list of the size
  class, filled by \<open>malloc\<close> if it is empty.\<close>

definition alloc_new :: "'w os \<Rightarrow> sendbuf \<Rightarrow> int \<Rightarrow> int \<Rightarrow> 'w \<Rightarrow> (bptr option \<times> sendbuf \<times> 'w) option" where
  "alloc_new os st sockfd need_size w =
     (let real_size = c_int (c_size (need_size + SIZEOF_BBuf_Block));
          real_size = (if real_size \<le> 4096 then 4096 else real_size)
      in do {
        idx \<leftarrow> hash real_size;
        let ((ok, st), w) = (if block_table st idx = None then new_block os st idx w else ((True, st), w));
        if \<not> ok then Some (None, st, w)
        else do { (p, st) \<leftarrow> take_block st sockfd idx; Some (p, st, w) }
      })"

definition sendbuf_alloc :: "'w os \<Rightarrow> sendbuf \<Rightarrow> int \<Rightarrow> int \<Rightarrow> 'w \<Rightarrow> (bptr option \<times> sendbuf \<times> 'w) option" where
  "sendbuf_alloc os st sockfd need_size w =
     do {
       self \<leftarrow> fd2bbuf st sockfd;
       reuse \<leftarrow> (case block_tail self of
           None \<Rightarrow> Some None
         | Some a \<Rightarrow> do {
             b \<leftarrow> heap st a;
             Some (if need_size \<le> c_int (bb_buf_size b - bb_buf_len b)
                   then Some (a, bb_buf_len b) else None) });
       case reuse of
         Some p \<Rightarrow> Some (Some p, st, w)
       | None \<Rightarrow> alloc_new os st sockfd need_size w
     }"

section \<open>The Lua bindings\<close>

definition sb_lcreate :: "sendbuf \<Rightarrow> int \<Rightarrow> (bptr lua_out \<times> sendbuf) option" where
  "sb_lcreate st a1 = do { (_, st) \<leftarrow> sendbuf_create st (c_int a1); Some (([], 0), st) }"

definition sb_lfree :: "sendbuf \<Rightarrow> int \<Rightarrow> (bptr lua_out \<times> sendbuf) option" where
  "sb_lfree st a1 = do { (_, st) \<leftarrow> sendbuf_free st (c_int a1); Some (([], 0), st) }"

definition lget_read_ptr :: "sendbuf \<Rightarrow> int \<Rightarrow> bptr lua_out option" where
  "lget_read_ptr st a1 =
     do { p \<leftarrow> sendbuf_get_read_ptr st (c_int a1);
          Some (case p of None \<Rightarrow> ([], 0) | Some q \<Rightarrow> ([LPtr q], 1)) }"

definition sb_ldatalen :: "sendbuf \<Rightarrow> int \<Rightarrow> bptr lua_out option" where
  "sb_ldatalen st a1 = do { n \<leftarrow> sendbuf_datalen st (c_int a1); Some ([LInt n], 1) }"

definition lskip_read_ptr :: "sendbuf \<Rightarrow> int \<Rightarrow> int \<Rightarrow> (bptr lua_out \<times> sendbuf) option" where
  "lskip_read_ptr st a1 a2 =
     do { (r, st) \<leftarrow> sendbuf_skip_read_ptr st (c_int a1) (c_int a2);
          Some (if r \<noteq> 0 then ([], 0) else ([LBool True], 1), st) }"

definition lflush :: "sendbuf \<Rightarrow> int \<Rightarrow> bptr option \<Rightarrow> int \<Rightarrow> (bptr lua_out \<times> sendbuf) option" where
  "lflush st a1 p a3 =
     do { (r, st) \<leftarrow> sendbuf_flush st (c_int a1) p (c_int a3);
          Some (if r \<noteq> 0 then ([], 0) else ([LBool True], 1), st) }"

definition lalloc :: "'w os \<Rightarrow> sendbuf \<Rightarrow> int \<Rightarrow> int \<Rightarrow> 'w \<Rightarrow> (bptr lua_out \<times> sendbuf \<times> 'w) option" where
  "lalloc os st a1 a2 w =
     do { (p, st, w) \<leftarrow> sendbuf_alloc os st (c_int a1) (c_int a2) w;
          Some (case p of None \<Rightarrow> ([], 0) | Some q \<Rightarrow> ([LPtr q], 1), st, w) }"

section \<open>What the callers do with the pointers\<close>

text \<open>A copy of \<open>bs\<close> to a pointer into a block, and a copy of \<open>n\<close> bytes from one.\<close>

definition copy_to :: "sendbuf \<Rightarrow> bptr \<Rightarrow> byte list \<Rightarrow> sendbuf option" where
  "copy_to st p bs =
     do { b \<leftarrow> heap st (fst p); m \<leftarrow> mem_put (bb_buf b) (snd p) bs;
          Some (set_block st (fst p) (b\<lparr>bb_buf := m\<rparr>)) }"

definition copy_from :: "sendbuf \<Rightarrow> bptr \<Rightarrow> int \<Rightarrow> byte list option" where
  "copy_from st p n = do { b \<leftarrow> heap st (fst p); mem_get (bb_buf b) (snd p) n }"

end
