(* ===== verification/Lsendbuf_Laws.thy ===== *)
theory Lsendbuf_Laws
  imports Lsendbuf
begin

text \<open>
  The invariant of the send buffers and the effect of every operation on the byte streams.
  \<open>blocks_of\<close> reads the list of blocks of a socket's chain or of a free list; \<open>owned\<close> says
  that these lists are disjoint and made of sound blocks, and \<open>sendbuf_stream\<close> is the sequence
  of bytes a socket has still to send.
\<close>

section \<open>Lists in the heap\<close>

fun chain :: "(addr \<Rightarrow> BBuf_Block option) \<Rightarrow> addr option \<Rightarrow> addr list \<Rightarrow> bool" where
  "chain h p [] \<longleftrightarrow> p = None"
| "chain h p (a # as) \<longleftrightarrow> p = Some a \<and> (\<exists>b. h a = Some b \<and> chain h (bb_next b) as)"

fun walk :: "(addr \<Rightarrow> BBuf_Block option) \<Rightarrow> addr option \<Rightarrow> nat \<Rightarrow> addr list" where
  "walk h p 0 = []"
| "walk h p (Suc n) =
     (case p of None \<Rightarrow> []
      | Some a \<Rightarrow> (case h a of None \<Rightarrow> [] | Some b \<Rightarrow> a # walk h (bb_next b) n))"

lemma walk_chain: "chain h p as \<Longrightarrow> length as \<le> n \<Longrightarrow> walk h p n = as"
proof (induction as arbitrary: p n)
  case Nil
  then show ?case by (cases n) simp_all
next
  case (Cons a as)
  then show ?case by (cases n) auto
qed

lemma chain_cong:
  "(\<And>a. a \<in> set as \<Longrightarrow> map_option bb_next (h' a) = map_option bb_next (h a)) \<Longrightarrow>
   chain h' p as = chain h p as"
proof (induction as arbitrary: p)
  case (Cons a as)
  have "map_option bb_next (h' a) = map_option bb_next (h a)" using Cons.prems by simp
  then have "(\<exists>b. h' a = Some b \<and> chain h' (bb_next b) as) \<longleftrightarrow> (\<exists>b. h a = Some b \<and> chain h' (bb_next b) as)"
    by (cases "h a"; cases "h' a") auto
  with Cons show ?case by simp
qed simp

lemma chain_upd_other [simp]: "a \<notin> set as \<Longrightarrow> chain (h(a \<mapsto> b)) p as = chain h p as"
  by (rule chain_cong) auto

lemma chain_upd_next:
  "h a = Some b \<Longrightarrow> bb_next b' = bb_next b \<Longrightarrow> chain (h(a \<mapsto> b')) p as = chain h p as"
  by (rule chain_cong) auto

text \<open>Appending a block whose \<open>next\<close> is null.\<close>

lemma chain_snoc:
  assumes "chain h p as" "as \<noteq> []" "distinct as" "a \<notin> set as" "h (last as) = Some tb"
    and "h a = Some b" "bb_next b = None"
  shows "chain (h(last as \<mapsto> tb\<lparr>bb_next := Some a\<rparr>)) p (as @ [a])"
  using assms
proof (induction as arbitrary: p)
  case (Cons x xs)
  show ?case
  proof (cases "xs = []")
    case True
    with Cons.prems show ?thesis by auto
  next
    case False
    then have x: "x \<noteq> last xs" using Cons.prems(3) by auto
    from Cons.prems(1) obtain bx where bx: "h x = Some bx" "chain h (bb_next bx) xs" "p = Some x" by auto
    have "chain (h(last xs \<mapsto> tb\<lparr>bb_next := Some a\<rparr>)) (bb_next bx) (xs @ [a])"
      by (rule Cons.IH [OF bx(2) False]) (use Cons.prems False in simp_all)
    then have "chain (h(last (x # xs) \<mapsto> tb\<lparr>bb_next := Some a\<rparr>)) (bb_next bx) (xs @ [a])"
      using False by (simp only: last_ConsR simp_thms)
    moreover have "(h(last (x # xs) \<mapsto> tb\<lparr>bb_next := Some a\<rparr>)) x = Some bx" using bx(1) x False by simp
    ultimately show ?thesis using bx(3) by (simp only: append_Cons chain.simps) blast
  qed
qed simp

section \<open>Blocks, ownership and streams\<close>

definition class_size :: "nat \<Rightarrow> int" where
  "class_size i = 2 ^ i - SIZEOF_BBuf_Block"

definition block_ok :: "BBuf_Block \<Rightarrow> bool" where
  "block_ok b \<longleftrightarrow> length (bb_buf b) = nat (bb_buf_size b) \<and> 0 \<le> bb_rptr b \<and> bb_rptr b \<le> bb_buf_len b
     \<and> bb_buf_len b \<le> bb_buf_size b \<and> (\<exists>i \<in> {12..30}. bb_buf_size b = class_size i)"

datatype slot = Sock int | Free nat

fun head_of :: "sendbuf \<Rightarrow> slot \<Rightarrow> addr option" where
  "head_of st (Sock fd) = block_head (bbufs st fd)"
| "head_of st (Free i) = block_table st i"

definition blocks_of :: "sendbuf \<Rightarrow> slot \<Rightarrow> addr list" where
  "blocks_of st s = walk (heap st) (head_of st s) (brk st)"

definition tail_ok :: "sendbuf \<Rightarrow> (slot \<Rightarrow> addr list) \<Rightarrow> int \<Rightarrow> bool" where
  "tail_ok st L fd \<longleftrightarrow> block_tail (bbufs st fd) = (if L (Sock fd) = [] then None else Some (last (L (Sock fd))))"

definition owned :: "sendbuf \<Rightarrow> (slot \<Rightarrow> addr list) \<Rightarrow> bool" where
  "owned st L \<longleftrightarrow>
     (\<forall>s. chain (heap st) (head_of st s) (L s) \<and> distinct (L s)) \<and>
     (\<forall>s t. s \<noteq> t \<longrightarrow> set (L s) \<inter> set (L t) = {}) \<and>
     (\<forall>fd. tail_ok st L fd) \<and>
     (\<forall>s. \<forall>a \<in> set (L s). a < brk st \<and> (\<exists>b. heap st a = Some b \<and> block_ok b)) \<and>
     (\<forall>i. \<forall>a \<in> set (L (Free i)). \<exists>b. heap st a = Some b \<and> bb_buf_size b = class_size i)"

definition sendbuf_wf :: "sendbuf \<Rightarrow> bool" where
  "sendbuf_wf st \<longleftrightarrow> owned st (blocks_of st)"

definition bytes_of :: "(addr \<Rightarrow> BBuf_Block option) \<Rightarrow> addr \<Rightarrow> byte list" where
  "bytes_of h a = (case h a of None \<Rightarrow> [] | Some b \<Rightarrow> slice (bb_buf b) (bb_rptr b) (bb_buf_len b))"

definition sendbuf_stream :: "sendbuf \<Rightarrow> int \<Rightarrow> byte list" where
  "sendbuf_stream st fd = concat (map (bytes_of (heap st)) (blocks_of st (Sock fd)))"

lemma ownedD:
  assumes "owned st L"
  shows owned_chain: "chain (heap st) (head_of st s) (L s)"
    and owned_distinct: "distinct (L s)"
    and owned_disjoint: "s \<noteq> t \<Longrightarrow> set (L s) \<inter> set (L t) = {}"
    and owned_tail: "block_tail (bbufs st fd) = (if L (Sock fd) = [] then None else Some (last (L (Sock fd))))"
    and owned_brk: "a \<in> set (L s) \<Longrightarrow> a < brk st"
    and owned_block: "a \<in> set (L s) \<Longrightarrow> \<exists>b. heap st a = Some b \<and> block_ok b"
    and owned_class: "a \<in> set (L (Free i)) \<Longrightarrow> \<exists>b. heap st a = Some b \<and> bb_buf_size b = class_size i"
  using assms by (auto simp: owned_def tail_ok_def)

lemma owned_blocks_of: "owned st L \<Longrightarrow> blocks_of st s = L s"
proof -
  assume o: "owned st L"
  have "set (L s) \<subseteq> {..<brk st}" using owned_brk [OF o] by auto
  then have "length (L s) \<le> brk st"
    using distinct_card [OF owned_distinct [OF o]] card_mono [of "{..<brk st}" "set (L s)"] by (metis card_lessThan finite_lessThan)
  then show ?thesis using owned_chain [OF o] by (simp add: blocks_of_def walk_chain)
qed

lemma owned_wf: "owned st L \<Longrightarrow> sendbuf_wf st"
proof -
  assume o: "owned st L"
  have "blocks_of st = L" using owned_blocks_of [OF o] by (rule ext)
  with o show ?thesis by (simp add: sendbuf_wf_def)
qed

lemma owned_stream: "owned st L \<Longrightarrow> sendbuf_stream st fd = concat (map (bytes_of (heap st)) (L (Sock fd)))"
  by (simp add: sendbuf_stream_def owned_blocks_of)

lemma bytes_of_cong:
  "map_option (\<lambda>b. b\<lparr>bb_next := None\<rparr>) (h' a) = map_option (\<lambda>b. b\<lparr>bb_next := None\<rparr>) (h a) \<Longrightarrow>
   bytes_of h' a = bytes_of h a"
  by (cases "h a"; cases "h' a") (auto simp: bytes_of_def dest!: arg_cong [of _ _ "\<lambda>b. slice (bb_buf b) (bb_rptr b) (bb_buf_len b)"])

section \<open>Size classes\<close>

lemma hash_loop_least:
  "i \<le> k \<Longrightarrow> k < MAX_TABLE \<Longrightarrow> sz \<le> 2 ^ k \<Longrightarrow> (\<And>j. i \<le> j \<Longrightarrow> j < k \<Longrightarrow> 2 ^ j < sz) \<Longrightarrow>
   hash_loop i sz = Some k"
proof (induction "k - i" arbitrary: i)
  case 0
  then have "i = k" by simp
  with 0 show ?case by (subst hash_loop.simps) (simp add: linorder_not_less)
next
  case (Suc d)
  then have "i < k" by simp
  moreover have "hash_loop (Suc i) sz = Some k" using Suc by (intro Suc.hyps(1)) auto
  ultimately show ?case using Suc.prems by (subst hash_loop.simps) simp
qed

lemma c_uint_id: "0 \<le> x \<Longrightarrow> x < 2 ^ 32 \<Longrightarrow> c_uint x = x"
  by (simp add: c_uint_def take_bit_int_eq_self)

lemma hash_least:
  assumes "0 < sz" "sz \<le> 2 ^ 31"
  shows "\<exists>k < MAX_TABLE. hash sz = Some k \<and> sz \<le> 2 ^ k \<and> (\<forall>j < k. 2 ^ j < sz)"
proof -
  define k where "k = (LEAST k. sz \<le> 2 ^ k)"
  have k: "sz \<le> 2 ^ k" unfolding k_def using assms(2) by (rule LeastI)
  have small: "2 ^ j < sz" if "j < k" for j using not_less_Least [of j] that by (force simp: k_def)
  have "k \<le> 31" unfolding k_def using assms(2) by (rule Least_le)
  then have "k < MAX_TABLE" by (simp add: MAX_TABLE_def)
  moreover have "c_uint sz = sz" using assms by (intro c_uint_id) simp_all
  ultimately show ?thesis using hash_loop_least [of 0 k sz] k small by (auto simp: hash_def)
qed

lemma hash_power: "k < MAX_TABLE \<Longrightarrow> hash (2 ^ k) = Some k"
proof -
  assume k: "k < MAX_TABLE"
  have "(2 :: int) ^ k < 2 ^ 32" using k by (intro power_strict_increasing) (simp_all add: MAX_TABLE_def)
  then have "c_uint (2 ^ k) = 2 ^ k" by (intro c_uint_id) simp_all
  with k show ?thesis by (simp add: hash_def hash_loop_least)
qed

lemma class_bounds: "12 \<le> i \<Longrightarrow> i \<le> 30 \<Longrightarrow> 4072 \<le> class_size i \<and> class_size i \<le> 1073741800"
proof -
  assume i: "12 \<le> i" "i \<le> 30"
  then show ?thesis using power_increasing [of 12 i "2 :: int"] power_increasing [of i 30 "2 :: int"] by (simp add: class_size_def SIZEOF_BBuf_Block_def)
qed

lemma class_inj: "class_size i = class_size j \<longleftrightarrow> i = j"
  by (simp add: class_size_def)

lemma hash_class: "12 \<le> i \<Longrightarrow> i \<le> 30 \<Longrightarrow> hash (c_size (class_size i + SIZEOF_BBuf_Block)) = Some i"
proof -
  assume i: "12 \<le> i" "i \<le> 30"
  have "(2 :: int) ^ i < 2 ^ 64" using i by (intro power_strict_increasing) simp_all
  then have "c_size (2 ^ i) = 2 ^ i" by (intro c_size_id) simp_all
  with i show ?thesis by (simp add: class_size_def hash_power MAX_TABLE_def)
qed

section \<open>Putting a block into its free list\<close>

lemma free_block_owned:
  assumes o: "owned st L" and b: "heap st a = Some b" "block_ok b" "a < brk st" "\<And>s. a \<notin> set (L s)"
    and i: "bb_buf_size b = class_size i" "12 \<le> i" "i \<le> 30"
  shows "\<exists>st'. bbuf_free_block st a = Some st' \<and> owned st' (L(Free i := a # L (Free i)))
    \<and> bbufs st' = bbufs st \<and> brk st' = brk st
    \<and> heap st' = (heap st)(a \<mapsto> b\<lparr>bb_next := block_table st i\<rparr>)"
proof -
  let ?b = "b\<lparr>bb_next := block_table st i\<rparr>"
  let ?st = "(set_block st a ?b)\<lparr>block_table := (block_table st)(i := Some a)\<rparr>"
  let ?L = "L(Free i := a # L (Free i))"
  have run: "bbuf_free_block st a = Some ?st"
    using b i hash_class [OF i(2,3)] by (simp add: bbuf_free_block_def set_block_def)
  have "owned ?st ?L"
    unfolding owned_def
  proof (intro conjI allI ballI impI)
    fix s
    have "chain (heap st) (block_table st i) (L (Free i))" using owned_chain [OF o, of "Free i"] by simp
    then show "chain (heap ?st) (head_of ?st s) (?L s)"
      using owned_chain [OF o, of s] b(4) by (cases s) (auto simp: set_block_def)
    show "distinct (?L s)" using owned_distinct [OF o] b(4) by simp
  next
    fix s t :: slot assume "s \<noteq> t"
    then show "set (?L s) \<inter> set (?L t) = {}" using owned_disjoint [OF o] b(4) by auto
  next
    fix fd show "tail_ok ?st ?L fd" using owned_tail [OF o, of fd] by (simp add: tail_ok_def set_block_def)
  next
    fix s x assume "x \<in> set (?L s)"
    then have "x = a \<or> x \<in> set (L s)" by (auto split: if_splits)
    then show "x < brk ?st" "\<exists>b. heap ?st x = Some b \<and> block_ok b"
      using owned_brk [OF o] owned_block [OF o] b by (auto simp: set_block_def block_ok_def)
  next
    fix j x assume "x \<in> set (?L (Free j))"
    then show "\<exists>b. heap ?st x = Some b \<and> bb_buf_size b = class_size j"
      using owned_class [OF o] b i by (auto simp: set_block_def split: if_splits)
  qed
  with run show ?thesis by (simp add: set_block_def)
qed

section \<open>Changing one block\<close>

lemma owned_set_block:
  assumes o: "owned st L" and b: "heap st a = Some b" "bb_next b' = bb_next b" "block_ok b'" "bb_buf_size b' = bb_buf_size b"
  shows "owned (set_block st a b') L"
  unfolding owned_def
proof (intro conjI allI ballI impI)
  fix s show "chain (heap (set_block st a b')) (head_of (set_block st a b') s) (L s)"
    using owned_chain [OF o, of s] chain_upd_next [of "heap st" a b b', OF b(1,2)]
    by (cases s) (simp_all add: set_block_def)
  show "distinct (L s)" using o by (rule owned_distinct)
next
  fix s t :: slot assume "s \<noteq> t"
  then show "set (L s) \<inter> set (L t) = {}" using o by (intro owned_disjoint)
next
  fix fd show "tail_ok (set_block st a b') L fd" using owned_tail [OF o] by (simp add: tail_ok_def set_block_def)
next
  fix s x assume "x \<in> set (L s)"
  then show "x < brk (set_block st a b')" "\<exists>c. heap (set_block st a b') x = Some c \<and> block_ok c"
    using owned_brk [OF o] owned_block [OF o] b by (auto simp: set_block_def)
next
  fix i x assume "x \<in> set (L (Free i))"
  then show "\<exists>c. heap (set_block st a b') x = Some c \<and> bb_buf_size c = class_size i"
    using owned_class [OF o] b by (fastforce simp: set_block_def)
qed

lemma bytes_of_upd: "bytes_of (h(a \<mapsto> b)) x = (if x = a then slice (bb_buf b) (bb_rptr b) (bb_buf_len b) else bytes_of h x)"
  by (simp add: bytes_of_def)

lemma map_bytes_upd_other: "a \<notin> set xs \<Longrightarrow> map (bytes_of (h(a \<mapsto> b))) xs = map (bytes_of h) xs"
  by (auto simp: bytes_of_upd)

section \<open>Taking the first block off a chain\<close>

lemma detach_owned:
  assumes o: "owned st L" and l: "L (Sock fd) = a # as" and b: "heap st a = Some b"
    and self: "self = \<lparr>block_head = bb_next b, block_tail = (if bb_next b = None then None else block_tail (bbufs st fd))\<rparr>"
  shows "owned (set_bbuf st fd self) (L(Sock fd := as))"
  unfolding owned_def
proof (intro conjI allI ballI impI)
  have c: "chain (heap st) (bb_next b) as" using owned_chain [OF o, of "Sock fd"] l b by auto
  fix s show "chain (heap (set_bbuf st fd self)) (head_of (set_bbuf st fd self) s) ((L(Sock fd := as)) s)"
    using owned_chain [OF o, of s] c by (cases s) (auto simp: set_bbuf_def self)
  show "distinct ((L(Sock fd := as)) s)" using owned_distinct [OF o, of s] owned_distinct [OF o, of "Sock fd"] l by simp
next
  fix s t :: slot assume "s \<noteq> t"
  moreover have "set as \<subseteq> set (L (Sock fd))" using l by auto
  ultimately show "set ((L(Sock fd := as)) s) \<inter> set ((L(Sock fd := as)) t) = {}"
    using owned_disjoint [OF o, of s t] owned_disjoint [OF o, of "Sock fd" t] owned_disjoint [OF o, of s "Sock fd"]
    by (auto split: if_splits)
next
  fix fd'
  have c: "chain (heap st) (bb_next b) as" using owned_chain [OF o, of "Sock fd"] l b by auto
  then have "bb_next b = None \<longleftrightarrow> as = []" by (cases as) auto
  then show "tail_ok (set_bbuf st fd self) (L(Sock fd := as)) fd'"
    using owned_tail [OF o, of fd'] l by (auto simp: tail_ok_def set_bbuf_def self)
next
  fix s x assume "x \<in> set ((L(Sock fd := as)) s)"
  then have "x \<in> set (L s)" using l by (auto split: if_splits)
  then show "x < brk (set_bbuf st fd self)" "\<exists>c. heap (set_bbuf st fd self) x = Some c \<and> block_ok c"
    using owned_brk [OF o] owned_block [OF o] by (auto simp: set_bbuf_def)
next
  fix i x assume "x \<in> set ((L(Sock fd := as)) (Free i))"
  then show "\<exists>c. heap (set_bbuf st fd self) x = Some c \<and> bb_buf_size c = class_size i"
    using owned_class [OF o] by (auto simp: set_bbuf_def)
qed

section \<open>Reading\<close>

lemma sock_block:
  assumes "owned st L" "L (Sock fd) = a # as"
  obtains b where "heap st a = Some b" "block_ok b" "block_head (bbufs st fd) = Some a"
  using owned_block [OF assms(1), of a "Sock fd"] owned_chain [OF assms(1), of "Sock fd"] assms(2) by auto

lemma block_ints:
  assumes "block_ok b"
  shows "0 \<le> bb_rptr b" "bb_rptr b \<le> bb_buf_len b" "bb_buf_len b \<le> bb_buf_size b"
    "bb_buf_size b \<le> 1073741800" "length (bb_buf b) = nat (bb_buf_size b)"
  using assms class_bounds by (auto simp: block_ok_def)

lemma block_class: "block_ok b \<Longrightarrow> \<exists>i. bb_buf_size b = class_size i \<and> 12 \<le> i \<and> i \<le> 30"
  by (auto simp: block_ok_def)

lemma c_int_1g: "- 1073741824 \<le> x \<Longrightarrow> x \<le> 1073741824 \<Longrightarrow> c_int x = x"
  by (simp add: c_int_id in_int_def INT_MAX_def INT_MIN_def)

lemma bbuf_upd_head: "r\<lparr>block_head := x\<rparr> = \<lparr>block_head = x, block_tail = block_tail r\<rparr>"
  by (cases r) simp

lemma skip_owned:
  assumes o: "owned st L" and l: "L (Sock fd) = a # as" and b: "heap st a = Some b"
    and fd: "0 \<le> fd" "fd < MAX_SOCKET" and len: "0 \<le> len" "len \<le> bb_buf_len b - bb_rptr b"
  shows "\<exists>st' L'. sendbuf_skip_read_ptr st fd len = Some (0, st') \<and> owned st' L'
    \<and> sendbuf_stream st' fd = drop (nat len) (sendbuf_stream st fd)
    \<and> (\<forall>fd'. fd' \<noteq> fd \<longrightarrow> sendbuf_stream st' fd' = sendbuf_stream st fd')"
proof -
  from sock_block [OF o l] b have ok: "block_ok b" and hd: "block_head (bbufs st fd) = Some a" by auto
  note bi = block_ints [OF ok]
  let ?b = "b\<lparr>bb_rptr := bb_rptr b + len\<rparr>"
  let ?st = "set_block st a ?b"
  have r: "c_int (bb_rptr b + len) = bb_rptr b + len" using bi len by (intro c_int_1g) simp_all
  have ok': "block_ok ?b" using ok len by (auto simp: block_ok_def)
  have o1: "owned ?st L" using o b by (rule owned_set_block) (simp_all add: ok')
  have hp: "heap ?st = (heap st)(a \<mapsto> ?b)" by (simp add: set_block_def)
  have dis: "a \<notin> set as" using owned_distinct [OF o, of "Sock fd"] l by simp
  have cut: "slice (bb_buf b) (bb_rptr b + len) (bb_buf_len b) = drop (nat len) (slice (bb_buf b) (bb_rptr b) (bb_buf_len b))"
    using bi len by (intro slice_drop) simp_all
  have sz: "nat len \<le> length (bytes_of (heap st) a)"
    using len bi b by (simp add: bytes_of_def length_slice)
  have s1: "sendbuf_stream ?st fd = drop (nat len) (sendbuf_stream st fd)"
  proof -
    have "bytes_of (heap ?st) a = drop (nat len) (bytes_of (heap st) a)"
      using cut b by (simp add: hp bytes_of_upd) (simp add: bytes_of_def)
    then show ?thesis using sz
      by (simp add: owned_stream [OF o1] owned_stream [OF o] l) (simp add: hp map_bytes_upd_other [OF dis])
  qed
  have s2: "sendbuf_stream ?st fd' = sendbuf_stream st fd'" if "fd' \<noteq> fd" for fd'
  proof -
    have "a \<notin> set (L (Sock fd'))" using owned_disjoint [OF o, of "Sock fd" "Sock fd'"] that l by auto
    then show ?thesis by (simp add: owned_stream [OF o1] owned_stream [OF o] hp map_bytes_upd_other)
  qed
  show ?thesis
  proof (cases "bb_buf_len b \<le> bb_rptr b + len")
    case False
    then have "sendbuf_skip_read_ptr st fd len = Some (0, ?st)"
      using fd hd b r by (simp add: sendbuf_skip_read_ptr_def fd2bbuf_def Let_def)
    with o1 s1 s2 show ?thesis by blast
  next
    case True
    let ?self = "\<lparr>block_head = bb_next b, block_tail = (if bb_next b = None then None else block_tail (bbufs st fd))\<rparr>"
    let ?st2 = "set_bbuf ?st fd ?self"
    have o2: "owned ?st2 (L(Sock fd := as))"
      by (rule detach_owned [OF o1 l, of ?b]) (simp_all add: set_block_def)
    from block_class [OF ok'] obtain i where i: "bb_buf_size ?b = class_size i" "12 \<le> i" "i \<le> 30" by blast
    have fresh: "a \<notin> set ((L(Sock fd := as)) s)" for s
      using dis owned_disjoint [OF o, of "Sock fd" s] l by auto
    have h2: "heap ?st2 a = Some ?b" "a < brk ?st2"
      using owned_brk [OF o, of a "Sock fd"] l by (simp_all add: set_bbuf_def set_block_def)
    from free_block_owned [OF o2 h2(1) ok' h2(2) fresh i] obtain st' where
      f: "bbuf_free_block ?st2 a = Some st'" "owned st' ((L(Sock fd := as))(Free i := a # (L(Sock fd := as)) (Free i)))"
      and hp': "heap st' = (heap ?st2)(a \<mapsto> ?b\<lparr>bb_next := block_table ?st2 i\<rparr>)" by blast
    have "sendbuf_skip_read_ptr st fd len = Some (0, st')"
      using fd hd b r True f(1)
      by (cases "bb_next b") (simp_all add: sendbuf_skip_read_ptr_def fd2bbuf_def Let_def bbuf_upd_head)
    moreover have "bytes_of (heap st') = bytes_of (heap ?st)"
      by (rule ext) (simp add: hp' bytes_of_upd set_bbuf_def set_block_def)
    then have "sendbuf_stream st' fd' = concat (map (bytes_of (heap ?st)) ((L(Sock fd := as)) (Sock fd')))" for fd'
      by (simp add: owned_stream [OF f(2)])
    moreover have "bytes_of (heap ?st) a = []" using True by (simp add: hp bytes_of_upd)
    ultimately show ?thesis using f(2) s1 s2 l by (auto simp: owned_stream [OF o1])
  qed
qed

section \<open>Allocating\<close>

lemma free_empty: "owned st L \<Longrightarrow> block_table st i = None \<longleftrightarrow> L (Free i) = []"
  using owned_chain [of st L "Free i"] by (cases "L (Free i)") auto

lemma new_block_owned:
  assumes o: "owned st L" and e: "block_table st i = None" and i: "12 \<le> i" "i \<le> 30"
  shows "\<exists>ok st' w' L'. new_block os st i w = ((ok, st'), w') \<and> owned st' L'
    \<and> (if ok then L' = L(Free i := [brk st]) else st' = st \<and> L' = L)
    \<and> bbufs st' = bbufs st \<and> (\<forall>s. \<forall>a \<in> set (L s). heap st' a = heap st a)"
proof -
  obtain ok w' where m: "os_malloc os (c_size (c_int (2 ^ i))) w = (ok, w')" by fastforce
  show ?thesis
  proof (cases ok)
    case False
    with m o show ?thesis by (auto simp: new_block_def)
  next
    case True
    have p: "(4096 :: int) \<le> 2 ^ i" "(2 :: int) ^ i \<le> 1073741824"
      using class_bounds [OF i] by (simp_all add: class_size_def SIZEOF_BBuf_Block_def)
    have ci: "c_int (2 ^ i) = 2 ^ i" "c_size (2 ^ i) = 2 ^ i" "c_int (2 ^ i - SIZEOF_BBuf_Block) = class_size i"
      using p by (auto intro!: c_int_1g c_size_id simp: class_size_def SIZEOF_BBuf_Block_def)
    define b where "b = \<lparr>bb_next = None, bb_buf_size = class_size i, bb_buf_len = 0, bb_rptr = 0,
        bb_buf = map (\<lambda>j. ucast (os_junk os w' j)) [0..<nat (class_size i)] :: block\<rparr>"
    have bok: "block_ok b" using i class_bounds [OF i] by (auto simp: block_ok_def b_def)
    let ?a = "brk st"
    let ?st = "st\<lparr>heap := (heap st)(?a \<mapsto> b), brk := Suc ?a, block_table := (block_table st)(i := Some ?a)\<rparr>"
    let ?L = "L(Free i := [?a])"
    have run: "new_block os st i w = ((True, ?st), w')"
      using True m ci by (simp add: new_block_def Let_def set_block_def b_def class_size_def)
    have li: "L (Free i) = []" using free_empty [OF o] e by simp
    have fresh: "?a \<notin> set (L s)" for s using owned_brk [OF o] by blast
    have "owned ?st ?L"
      unfolding owned_def
    proof (intro conjI allI ballI impI)
      fix s show "chain (heap ?st) (head_of ?st s) (?L s)"
        using owned_chain [OF o, of s] fresh [of s] by (cases s) (auto simp: b_def)
      show "distinct (?L s)" using owned_distinct [OF o] by simp
    next
      fix s t :: slot assume "s \<noteq> t"
      then show "set (?L s) \<inter> set (?L t) = {}" using owned_disjoint [OF o, of s t] fresh by auto
    next
      fix fd show "tail_ok ?st ?L fd" using owned_tail [OF o] by (simp add: tail_ok_def)
    next
      fix s x assume "x \<in> set (?L s)"
      then have "x = ?a \<or> x \<in> set (L s)" by (auto split: if_splits)
      then show "x < brk ?st" "\<exists>c. heap ?st x = Some c \<and> block_ok c"
        using owned_brk [OF o, of x s] owned_block [OF o, of x s] bok by auto
    next
      fix j x assume x: "x \<in> set (?L (Free j))"
      show "\<exists>c. heap ?st x = Some c \<and> bb_buf_size c = class_size j"
        using x owned_class [OF o, of x j] fresh [of "Free j"] by (auto simp: b_def split: if_splits)
    qed
    with run fresh show ?thesis by (intro exI [of _ True] exI [of _ ?st] exI [of _ w'] exI [of _ ?L]) auto
  qed
qed

text \<open>Taking the first block off a free list, and appending a block to a chain.\<close>

lemma pop_owned:
  assumes o: "owned st L" and l: "L (Free i) = a # as" and b: "heap st a = Some b"
    and st': "st' = (st\<lparr>block_table := (block_table st)(i := bb_next b), heap := (heap st)(a \<mapsto> b')\<rparr>)"
  shows "owned st' (L(Free i := as))" "a \<notin> set ((L(Free i := as)) s)"
proof -
  have das: "a \<notin> set as" using owned_distinct [OF o, of "Free i"] l by simp
  have nin: "a \<notin> set (L s)" if "s \<noteq> Free i" for s
    using owned_disjoint [OF o, of s "Free i"] that l by auto
  show fresh: "a \<notin> set ((L(Free i := as)) s)" for s using das nin by simp
  have cas: "chain (heap st) (bb_next b) as" using owned_chain [OF o, of "Free i"] l b by auto
  have sub: "set ((L(Free i := as)) s) \<subseteq> set (L s)" for s using l by auto
  show "owned st' (L(Free i := as))"
    unfolding owned_def
  proof (intro conjI allI ballI impI)
    fix s show "chain (heap st') (head_of st' s) ((L(Free i := as)) s)"
      using owned_chain [OF o, of s] cas fresh [of s] by (cases s) (auto simp: st')
    show "distinct ((L(Free i := as)) s)" using owned_distinct [OF o, of s] owned_distinct [OF o, of "Free i"] l by simp
  next
    fix s t :: slot assume "s \<noteq> t"
    then show "set ((L(Free i := as)) s) \<inter> set ((L(Free i := as)) t) = {}"
      using owned_disjoint [OF o] sub by blast
  next
    fix fd show "tail_ok st' (L(Free i := as)) fd" using owned_tail [OF o] by (simp add: tail_ok_def st')
  next
    fix s x assume x: "x \<in> set ((L(Free i := as)) s)"
    then have "x \<in> set (L s)" "x \<noteq> a" using sub fresh by blast+
    then show "x < brk st'" "\<exists>c. heap st' x = Some c \<and> block_ok c"
      using owned_brk [OF o] owned_block [OF o] by (auto simp: st')
  next
    fix j x assume x: "x \<in> set ((L(Free i := as)) (Free j))"
    then have "x \<in> set (L (Free j))" "x \<noteq> a" using sub fresh by blast+
    then show "\<exists>c. heap st' x = Some c \<and> bb_buf_size c = class_size j"
      using owned_class [OF o] by (auto simp: st')
  qed
qed

text \<open>The chain of \<open>fd\<close> after the block \<open>a\<close> has been linked in at its end.\<close>

definition linked :: "sendbuf \<Rightarrow> int \<Rightarrow> addr \<Rightarrow> sendbuf" where
  "linked st fd a =
     (case block_tail (bbufs st fd) of
        None \<Rightarrow> set_bbuf st fd \<lparr>block_head = Some a, block_tail = Some a\<rparr>
      | Some t \<Rightarrow> set_bbuf (set_block st t ((the (heap st t))\<lparr>bb_next := Some a\<rparr>)) fd
                    ((bbufs st fd)\<lparr>block_tail := Some a\<rparr>))"

lemma linked_heap:
  "heap (linked st fd a) x = heap st x \<or>
   (\<exists>tb. block_tail (bbufs st fd) = Some x \<and> heap (linked st fd a) x = Some ((the (heap st x))\<lparr>bb_next := Some a\<rparr>))"
  by (auto simp: linked_def set_bbuf_def set_block_def split: option.splits)

lemma link_chain:
  assumes o: "owned st L" and b: "heap st a = Some b" "bb_next b = None" "\<And>s. a \<notin> set (L s)"
  shows "chain (heap (linked st fd a)) (head_of (linked st fd a) s) ((L(Sock fd := L (Sock fd) @ [a])) s)"
proof (cases "L (Sock fd) = []")
  case True
  then show ?thesis using owned_chain [OF o, of s] owned_tail [OF o, of fd] b
    by (cases s) (auto simp: linked_def set_bbuf_def)
next
  case False
  let ?t = "last (L (Sock fd))"
  have t: "?t \<in> set (L (Sock fd))" using False by simp
  from owned_block [OF o t] obtain tb where tb: "heap st ?t = Some tb" by blast
  have tl: "block_tail (bbufs st fd) = Some ?t" using owned_tail [OF o, of fd] False by simp
  have hp: "heap (linked st fd a) = (heap st)(?t \<mapsto> tb\<lparr>bb_next := Some a\<rparr>)"
    using tl tb by (simp add: linked_def set_bbuf_def set_block_def)
  have hd: "head_of (linked st fd a) s = head_of st s" for s
    using tl by (cases s) (simp_all add: linked_def set_bbuf_def set_block_def)
  show ?thesis
  proof (cases "s = Sock fd")
    case True
    have "chain ((heap st)(?t \<mapsto> tb\<lparr>bb_next := Some a\<rparr>)) (head_of st (Sock fd)) (L (Sock fd) @ [a])"
      using chain_snoc [OF owned_chain [OF o] False owned_distinct [OF o] b(3) tb b(1,2)] .
    then show ?thesis by (simp only: True hp hd fun_upd_same)
  next
    case s: False
    have "?t \<notin> set (L s)" using owned_disjoint [OF o, of s "Sock fd"] s t by auto
    then show ?thesis using owned_chain [OF o, of s] s hp hd by simp
  qed
qed

lemma link_owned:
  assumes o: "owned st L" and b: "heap st a = Some b" "bb_next b = None" "\<And>s. a \<notin> set (L s)" "a < brk st" "block_ok b"
  shows "owned (linked st fd a) (L(Sock fd := L (Sock fd) @ [a]))"
  unfolding owned_def
proof (intro conjI allI ballI impI)
  let ?st = "linked st fd a" and ?L = "L(Sock fd := L (Sock fd) @ [a])"
  have hp: "\<exists>c'. heap ?st x = Some c' \<and> bb_buf_size c' = bb_buf_size c \<and> (block_ok c \<longrightarrow> block_ok c')"
    if "heap st x = Some c" for x c
    using linked_heap [of st fd a x] that by (auto simp: block_ok_def)
  have same: "brk ?st = brk st" by (simp add: linked_def set_bbuf_def set_block_def split: option.split)
  fix s
  show "chain (heap ?st) (head_of ?st s) (?L s)" using o b(1-3) by (rule link_chain)
  show "distinct (?L s)" using owned_distinct [OF o] b(3) by simp
  show "x < brk ?st" "\<exists>c. heap ?st x = Some c \<and> block_ok c" if "x \<in> set (?L s)" for x
  proof -
    from that have x: "x = a \<or> x \<in> set (L s)" by (auto split: if_splits)
    then show "x < brk ?st" using owned_brk [OF o] b(4) same by auto
    from x obtain c where "heap st x = Some c" "block_ok c" using owned_block [OF o] b by blast
    then show "\<exists>c. heap ?st x = Some c \<and> block_ok c" using hp by blast
  qed
  show "set (?L s) \<inter> set (?L t) = {}" if "s \<noteq> t" for t using owned_disjoint [OF o that] b(3) that by auto
  show "tail_ok ?st ?L fd'" for fd'
    using owned_tail [OF o, of fd'] by (auto simp: tail_ok_def linked_def set_bbuf_def set_block_def split: option.split)
  show "\<exists>c. heap ?st x = Some c \<and> bb_buf_size c = class_size i" if "x \<in> set (?L (Free i))" for i x
    using owned_class [OF o, of x i] that hp by fastforce
qed

lemma bytes_of_linked:
  assumes "owned st L"
  shows "bytes_of (heap (linked st fd a)) x = bytes_of (heap st) x"
proof -
  have "\<exists>b. heap st x = Some b" if "block_tail (bbufs st fd) = Some x"
    using owned_tail [OF assms, of fd] owned_block [OF assms, of x "Sock fd"] that by (auto split: if_splits)
  then show ?thesis using linked_heap [of st fd a x] by (auto simp: bytes_of_def)
qed

lemma take_block_owned:
  assumes o: "owned st L" and l: "L (Free i) = a # as" and fd: "0 \<le> fd" "fd < MAX_SOCKET"
  shows "\<exists>st' b'. take_block st fd i = Some (Some (a, 0), st')
    \<and> owned st' (L(Free i := as, Sock fd := L (Sock fd) @ [a]))
    \<and> heap st' a = Some b' \<and> bb_buf_len b' = 0 \<and> bb_rptr b' = 0 \<and> bb_buf_size b' = class_size i
    \<and> (\<forall>x. x \<noteq> a \<longrightarrow> bytes_of (heap st') x = bytes_of (heap st) x)"
proof -
  from owned_class [OF o, of a i] owned_block [OF o, of a "Free i"] l obtain b where
    b: "heap st a = Some b" "bb_buf_size b = class_size i" "block_ok b" by auto
  have tbl: "block_table st i = Some a" using owned_chain [OF o, of "Free i"] l by auto
  let ?b = "b\<lparr>bb_next := None, bb_rptr := 0, bb_buf_len := 0\<rparr>"
  define st1 where "st1 = st\<lparr>block_table := (block_table st)(i := bb_next b), heap := (heap st)(a \<mapsto> ?b)\<rparr>"
  note pop = pop_owned [OF o l b(1) st1_def]
  have b1: "heap st1 a = Some ?b" "a < brk st1" "block_ok ?b"
    using b(3) owned_brk [OF o, of a "Free i"] l by (auto simp: st1_def block_ok_def)
  have o2: "owned (linked st1 fd a) ((L(Free i := as))(Sock fd := (L(Free i := as)) (Sock fd) @ [a]))"
    by (rule link_owned [OF pop(1) b1(1) _ pop(2) b1(2,3)]) simp
  have self: "bbufs st1 = bbufs st" by (simp add: st1_def)
  have ta: "block_tail (bbufs st fd) \<noteq> Some a"
    using owned_tail [OF o, of fd] pop(2) [of "Sock fd"] by (auto simp: self)
  have tb: "\<exists>tb. heap st t = Some tb" if "block_tail (bbufs st fd) = Some t" for t
    using owned_tail [OF o, of fd] owned_block [OF o, of t "Sock fd"] that by (auto split: if_splits)
  have a2: "heap (linked st1 fd a) a = Some ?b"
    using ta self b1(1) by (auto simp: linked_def set_bbuf_def set_block_def split: option.split)
  have "take_block st fd i = Some (Some (a, 0), linked st1 fd a)"
  proof (cases "block_tail (bbufs st fd)")
    case None
    then show ?thesis using fd tbl b(1)
      by (simp add: take_block_def fd2bbuf_def set_block_def set_bbuf_def linked_def st1_def Let_def)
  next
    case (Some t)
    with tb ta obtain tb where "heap st t = Some tb" "t \<noteq> a" by auto
    with Some show ?thesis using fd tbl b(1)
      by (cases st; cases b)
         (simp add: take_block_def fd2bbuf_def set_block_def set_bbuf_def linked_def st1_def Let_def fun_upd_twist)
  qed
  moreover have "bytes_of (heap (linked st1 fd a)) x = bytes_of (heap st) x" if "x \<noteq> a" for x
    using bytes_of_linked [OF pop(1), of fd a x] that by (simp add: st1_def bytes_of_upd)
  ultimately show ?thesis using o2 a2 b(2) by (intro exI [of _ "linked st1 fd a"] exI [of _ ?b]) simp
qed

text \<open>The size class of a request: between 12 and 30, and large enough.\<close>

lemma request_class:
  assumes "0 \<le> need" "need \<le> 1073741800"
  shows "\<exists>i. hash (if c_int (c_size (need + SIZEOF_BBuf_Block)) \<le> 4096 then 4096
                  else c_int (c_size (need + SIZEOF_BBuf_Block))) = Some i
    \<and> 12 \<le> i \<and> i \<le> 30 \<and> need \<le> class_size i"
proof -
  let ?r = "if need + 24 \<le> 4096 then 4096 else need + 24"
  have r: "c_int (c_size (need + SIZEOF_BBuf_Block)) = need + 24"
    using assms by (simp add: SIZEOF_BBuf_Block_def c_size_id c_int_1g)
  have "0 < ?r" "?r \<le> 2 ^ 31" using assms by auto
  from hash_least [OF this] obtain k where k: "hash ?r = Some k" "?r \<le> 2 ^ k" "\<forall>j < k. 2 ^ j < ?r" by blast
  have "\<not> k < 12"
  proof
    assume "k < 12"
    then have "(2 :: int) ^ k < 2 ^ 12" by (intro power_strict_increasing) simp_all
    with k(2) show False by (simp split: if_splits)
  qed
  moreover have "\<not> 30 < k"
  proof
    assume "30 < k"
    with k(3) have "2 ^ 30 < ?r" by blast
    with assms(2) show False by (simp split: if_splits)
  qed
  moreover have "need \<le> class_size k" using k(2) by (simp add: class_size_def SIZEOF_BBuf_Block_def split: if_splits)
  ultimately show ?thesis using k(1) unfolding r by (intro exI [of _ k] conjI) simp_all
qed

text \<open>
  A successful allocation: the pointer is to the end of the data of the last block of the
  chain, which has room for the request; no stream changes.
\<close>

definition ready :: "sendbuf \<Rightarrow> (slot \<Rightarrow> addr list) \<Rightarrow> int \<Rightarrow> int \<Rightarrow> addr \<Rightarrow> int \<Rightarrow> bool" where
  "ready st L fd need a off \<longleftrightarrow>
     (\<exists>as b. L (Sock fd) = as @ [a] \<and> heap st a = Some b \<and> off = bb_buf_len b \<and> need \<le> bb_buf_size b - bb_buf_len b)"

lemma alloc_new_owned:
  assumes o: "owned st L" and fd: "0 \<le> fd" "fd < MAX_SOCKET" and need: "0 \<le> need" "need \<le> 1073741800"
  shows "\<exists>p st' w' L'. alloc_new os st fd need w = Some (p, st', w') \<and> owned st' L'
    \<and> (\<forall>fd'. sendbuf_stream st' fd' = sendbuf_stream st fd')
    \<and> (\<forall>a off. p = Some (a, off) \<longrightarrow> ready st' L' fd need a off)"
proof -
  from request_class [OF need] obtain i where
    h: "hash (if c_int (c_size (need + SIZEOF_BBuf_Block)) \<le> 4096 then 4096
              else c_int (c_size (need + SIZEOF_BBuf_Block))) = Some i"
    and i: "12 \<le> i" "i \<le> 30" "need \<le> class_size i" by blast
  have "\<exists>ok st1 w1 L1. (if block_table st i = None then new_block os st i w else ((True, st), w)) = ((ok, st1), w1)
    \<and> owned st1 L1 \<and> (ok \<longrightarrow> L1 (Free i) \<noteq> []) \<and> (\<forall>fd'. sendbuf_stream st1 fd' = sendbuf_stream st fd')"
  proof (cases "block_table st i = None")
    case True
    from new_block_owned [OF o True i(1,2), of os w] obtain ok st1 w1 L1 where
      n: "new_block os st i w = ((ok, st1), w1)" "owned st1 L1"
      "if ok then L1 = L(Free i := [brk st]) else st1 = st \<and> L1 = L"
      "\<forall>s. \<forall>a \<in> set (L s). heap st1 a = heap st a" by blast
    have "L1 (Sock fd') = L (Sock fd')" for fd' using n(3) by (auto split: if_splits)
    moreover have "map (bytes_of (heap st1)) (L (Sock fd')) = map (bytes_of (heap st)) (L (Sock fd'))" for fd'
      using n(4) by (auto simp: bytes_of_def)
    ultimately have "sendbuf_stream st1 fd' = sendbuf_stream st fd'" for fd'
      by (simp only: owned_stream [OF n(2)] owned_stream [OF o])
    with True n show ?thesis by auto
  next
    case False
    with o free_empty [OF o, of i] show ?thesis by auto
  qed
  then obtain ok st1 w1 L1 where
    n: "(if block_table st i = None then new_block os st i w else ((True, st), w)) = ((ok, st1), w1)"
    and o1: "owned st1 L1" and ne: "ok \<longrightarrow> L1 (Free i) \<noteq> []"
    and s1: "\<And>fd'. sendbuf_stream st1 fd' = sendbuf_stream st fd'" by blast
  have run: "alloc_new os st fd need w =
      (if \<not> ok then Some (None, st1, w1) else do { (p, st2) \<leftarrow> take_block st1 fd i; Some (p, st2, w1) })"
    unfolding alloc_new_def Let_def h by (simp add: n)
  show ?thesis
  proof (cases ok)
    case False
    with run o1 s1 show ?thesis by auto
  next
    case True
    with ne obtain a as where l: "L1 (Free i) = a # as" by (cases "L1 (Free i)") auto
    from take_block_owned [OF o1 l fd] obtain st' b' where
      t: "take_block st1 fd i = Some (Some (a, 0), st')"
      and o': "owned st' (L1(Free i := as, Sock fd := L1 (Sock fd) @ [a]))"
      and b': "heap st' a = Some b'" "bb_buf_len b' = 0" "bb_rptr b' = 0" "bb_buf_size b' = class_size i"
      and byt: "\<forall>x. x \<noteq> a \<longrightarrow> bytes_of (heap st') x = bytes_of (heap st1) x" by blast
    have "a \<notin> set (L1 (Sock fd'))" for fd' using owned_disjoint [OF o1, of "Sock fd'" "Free i"] l by auto
    then have "map (bytes_of (heap st')) (L1 (Sock fd')) = map (bytes_of (heap st1)) (L1 (Sock fd'))" for fd'
      using byt by (metis (no_types, lifting) map_eq_conv)
    moreover have "bytes_of (heap st') a = []" using b' by (simp add: bytes_of_def)
    ultimately have "sendbuf_stream st' fd' = sendbuf_stream st1 fd'" for fd'
      by (auto simp: owned_stream [OF o'] owned_stream [OF o1] simp del: map_eq_conv)
    moreover have "ready st' (L1(Free i := as, Sock fd := L1 (Sock fd) @ [a])) fd need a 0"
      using b' i(3) by (simp add: ready_def)
    ultimately show ?thesis using True run t o' s1
      by (intro exI [of _ "Some (a, 0)"] exI [of _ st'] exI [of _ w1]
            exI [of _ "L1(Free i := as, Sock fd := L1 (Sock fd) @ [a])"]) simp
  qed
qed

lemma tail_block:
  assumes o: "owned st L" and t: "block_tail (bbufs st fd) = Some a"
  obtains as b where "L (Sock fd) = as @ [a]" "heap st a = Some b" "block_ok b"
proof -
  from owned_tail [OF o, of fd] t have ne: "L (Sock fd) \<noteq> []" "a = last (L (Sock fd))" by (auto split: if_splits)
  then have "L (Sock fd) = butlast (L (Sock fd)) @ [a]" by simp
  moreover from owned_block [OF o, of a "Sock fd"] ne obtain b where "heap st a = Some b" "block_ok b" by auto
  ultimately show thesis using that by blast
qed

lemma alloc_owned:
  assumes o: "owned st L" and fd: "0 \<le> fd" "fd < MAX_SOCKET" and need: "0 \<le> need" "need \<le> 1073741800"
  shows "\<exists>p st' w' L'. sendbuf_alloc os st fd need w = Some (p, st', w') \<and> owned st' L'
    \<and> (\<forall>fd'. sendbuf_stream st' fd' = sendbuf_stream st fd')
    \<and> (\<forall>a off. p = Some (a, off) \<longrightarrow> ready st' L' fd need a off)"
proof (cases "block_tail (bbufs st fd)")
  case None
  then have "sendbuf_alloc os st fd need w = alloc_new os st fd need w"
    using fd by (simp add: sendbuf_alloc_def fd2bbuf_def)
  then show ?thesis using alloc_new_owned [OF assms, of os w] by simp
next
  case (Some a)
  from tail_block [OF o Some] obtain as b where b: "L (Sock fd) = as @ [a]" "heap st a = Some b" "block_ok b" .
  have room: "c_int (bb_buf_size b - bb_buf_len b) = bb_buf_size b - bb_buf_len b"
    using block_ints [OF b(3)] by (intro c_int_1g) simp_all
  show ?thesis
  proof (cases "need \<le> bb_buf_size b - bb_buf_len b")
    case True
    then have "sendbuf_alloc os st fd need w = Some (Some (a, bb_buf_len b), st, w)"
      using fd Some b room by (simp add: sendbuf_alloc_def fd2bbuf_def)
    with o b True show ?thesis by (auto simp: ready_def)
  next
    case False
    then have "sendbuf_alloc os st fd need w = alloc_new os st fd need w"
      using fd Some b room by (simp add: sendbuf_alloc_def fd2bbuf_def)
    then show ?thesis using alloc_new_owned [OF assms, of os w] by simp
  qed
qed

section \<open>Writing\<close>

lemma copy_to_owned:
  assumes o: "owned st L" and r: "ready st L fd need a off" and bs: "int (length bs) \<le> need"
  shows "\<exists>st' as b. copy_to st (a, off) bs = Some st' \<and> owned st' L
    \<and> (\<forall>fd'. sendbuf_stream st' fd' = sendbuf_stream st fd') \<and> bbufs st' = bbufs st
    \<and> L (Sock fd) = as @ [a] \<and> heap st' a = Some b \<and> block_ok b \<and> off = bb_buf_len b
    \<and> int (length bs) \<le> bb_buf_size b - bb_buf_len b \<and> slice (bb_buf b) off (off + int (length bs)) = bs"
proof -
  from r obtain as b where b: "L (Sock fd) = as @ [a]" "heap st a = Some b" "off = bb_buf_len b"
    "need \<le> bb_buf_size b - bb_buf_len b" by (auto simp: ready_def)
  from owned_block [OF o, of a "Sock fd"] b have ok: "block_ok b" by auto
  note bi = block_ints [OF ok]
  obtain m where m: "mem_put (bb_buf b) off bs = Some m"
    using mem_put_defined [of "bb_buf b" off bs] b bi bs by auto
  let ?b = "b\<lparr>bb_buf := m\<rparr>"
  have ok': "block_ok ?b" using ok mem_put_length [OF m] by (simp add: block_ok_def)
  have o': "owned (set_block st a ?b) L" using o b(2) by (rule owned_set_block) (simp_all add: ok')
  have "slice m (bb_rptr b) (bb_buf_len b) = slice (bb_buf b) (bb_rptr b) (bb_buf_len b)"
    by (rule mem_put_below [OF m]) (use bi b(3) in simp_all)
  then have "bytes_of (heap (set_block st a ?b)) = bytes_of (heap st)"
    using b(2) by (intro ext) (simp add: set_block_def bytes_of_def)
  then have "sendbuf_stream (set_block st a ?b) fd' = sendbuf_stream st fd'" for fd'
    by (simp only: owned_stream [OF o'] owned_stream [OF o])
  moreover have "copy_to st (a, off) bs = Some (set_block st a ?b)" using b m by (simp add: copy_to_def)
  ultimately show ?thesis using o' ok' b bs mem_put_same [OF m]
    by (intro exI [of _ "set_block st a ?b"] exI [of _ as] exI [of _ ?b]) (simp add: set_block_def)
qed

lemma flush_owned:
  assumes o: "owned st L" and fd: "0 \<le> fd" "fd < MAX_SOCKET" and l: "L (Sock fd) = as @ [a]"
    and b: "heap st a = Some b" and n: "0 \<le> n" "n \<le> bb_buf_size b - bb_buf_len b"
  shows "\<exists>st'. sendbuf_flush st fd p n = Some (0, st') \<and> owned st' L
    \<and> sendbuf_stream st' fd = sendbuf_stream st fd @ slice (bb_buf b) (bb_buf_len b) (bb_buf_len b + n)
    \<and> (\<forall>fd'. fd' \<noteq> fd \<longrightarrow> sendbuf_stream st' fd' = sendbuf_stream st fd')"
proof -
  from owned_block [OF o, of a "Sock fd"] l b have ok: "block_ok b" by auto
  note bi = block_ints [OF ok]
  let ?b = "b\<lparr>bb_buf_len := bb_buf_len b + n\<rparr>"
  let ?st = "set_block st a ?b"
  have ok': "block_ok ?b" using ok n by (auto simp: block_ok_def)
  have o': "owned ?st L" using o b by (rule owned_set_block) (simp_all add: ok')
  have tl: "block_tail (bbufs st fd) = Some a" using owned_tail [OF o, of fd] l by simp
  have ci: "c_int (bb_buf_size b - bb_buf_len b) = bb_buf_size b - bb_buf_len b"
    "c_int (bb_buf_len b + n) = bb_buf_len b + n" using bi n by (auto intro!: c_int_1g)
  have run: "sendbuf_flush st fd p n = Some (0, ?st)"
    using fd tl b n ci by (simp add: sendbuf_flush_def fd2bbuf_def)
  have ba: "bytes_of (heap ?st) a = bytes_of (heap st) a @ slice (bb_buf b) (bb_buf_len b) (bb_buf_len b + n)"
    using b bi n slice_append [of "bb_rptr b" "bb_buf_len b" "bb_buf_len b + n" "bb_buf b"]
    by (simp add: set_block_def bytes_of_def)
  have other: "map (bytes_of (heap ?st)) xs = map (bytes_of (heap st)) xs" if "a \<notin> set xs" for xs
    using that by (simp add: set_block_def map_bytes_upd_other del: map_eq_conv)
  have das: "a \<notin> set as" using owned_distinct [OF o, of "Sock fd"] l by simp
  have "sendbuf_stream ?st fd = sendbuf_stream st fd @ slice (bb_buf b) (bb_buf_len b) (bb_buf_len b + n)"
    using ba other [OF das] by (simp add: owned_stream [OF o'] owned_stream [OF o] l del: map_eq_conv)
  moreover have "sendbuf_stream ?st fd' = sendbuf_stream st fd'" if "fd' \<noteq> fd" for fd'
  proof -
    have "a \<notin> set (L (Sock fd'))" using owned_disjoint [OF o, of "Sock fd" "Sock fd'"] that l by auto
    then show ?thesis by (simp only: owned_stream [OF o'] owned_stream [OF o] other not_False_eq_True)
  qed
  ultimately show ?thesis using run o' by blast
qed

text \<open>
  The protocol of the header comment of the file: a writer allocates, copies and flushes; a
  reader asks for the read pointer and the length, sends some bytes and skips them.
\<close>

definition put_bytes :: "'w os \<Rightarrow> sendbuf \<Rightarrow> int \<Rightarrow> byte list \<Rightarrow> 'w \<Rightarrow> (bool \<times> sendbuf \<times> 'w) option" where
  "put_bytes os st fd bs w =
     do {
       (p, st, w) \<leftarrow> sendbuf_alloc os st fd (int (length bs)) w;
       case p of
         None \<Rightarrow> Some (False, st, w)
       | Some q \<Rightarrow> do {
           st \<leftarrow> copy_to st q bs;
           (r, st) \<leftarrow> sendbuf_flush st fd p (int (length bs));
           Some (r = 0, st, w) }
     }"

definition take_bytes :: "sendbuf \<Rightarrow> int \<Rightarrow> nat \<Rightarrow> (byte list \<times> sendbuf) option" where
  "take_bytes st fd k =
     do {
       n \<leftarrow> sendbuf_datalen st fd;
       p \<leftarrow> sendbuf_get_read_ptr st fd;
       case p of
         None \<Rightarrow> Some ([], st)
       | Some q \<Rightarrow> do {
           bs \<leftarrow> copy_from st q (min (int k) n);
           (r, st) \<leftarrow> sendbuf_skip_read_ptr st fd (min (int k) n);
           Some (bs, st) }
     }"

lemma put_bytes_owned:
  assumes o: "owned st L" and fd: "0 \<le> fd" "fd < MAX_SOCKET" and bs: "int (length bs) \<le> 1073741800"
  shows "\<exists>ok st' w' L'. put_bytes os st fd bs w = Some (ok, st', w') \<and> owned st' L'
    \<and> sendbuf_stream st' fd = sendbuf_stream st fd @ (if ok then bs else [])
    \<and> (\<forall>fd'. fd' \<noteq> fd \<longrightarrow> sendbuf_stream st' fd' = sendbuf_stream st fd')"
proof -
  from alloc_owned [OF o fd _ bs, of os w] obtain p st1 w1 L1 where
    al: "sendbuf_alloc os st fd (int (length bs)) w = Some (p, st1, w1)" and o1: "owned st1 L1"
    and s1: "\<And>fd'. sendbuf_stream st1 fd' = sendbuf_stream st fd'"
    and rd: "\<forall>a off. p = Some (a, off) \<longrightarrow> ready st1 L1 fd (int (length bs)) a off" by auto
  show ?thesis
  proof (cases p)
    case None
    with al o1 s1 show ?thesis by (auto simp: put_bytes_def)
  next
    case (Some q)
    obtain a off where q: "q = (a, off)" by fastforce
    with Some rd have "ready st1 L1 fd (int (length bs)) a off" by simp
    from copy_to_owned [OF o1 this order_refl] obtain st2 as b where
      c: "copy_to st1 (a, off) bs = Some st2" and o2: "owned st2 L1"
      and s2: "\<And>fd'. sendbuf_stream st2 fd' = sendbuf_stream st1 fd'"
      and b: "L1 (Sock fd) = as @ [a]" "heap st2 a = Some b" "off = bb_buf_len b"
        "int (length bs) \<le> bb_buf_size b - bb_buf_len b" "slice (bb_buf b) off (off + int (length bs)) = bs"
      by auto
    from flush_owned [OF o2 fd b(1,2) _ b(4), of p] obtain st3 where
      f: "sendbuf_flush st2 fd p (int (length bs)) = Some (0, st3)" "owned st3 L1"
      "sendbuf_stream st3 fd = sendbuf_stream st2 fd @ bs"
      "\<forall>fd'. fd' \<noteq> fd \<longrightarrow> sendbuf_stream st3 fd' = sendbuf_stream st2 fd'" using b by auto
    have "put_bytes os st fd bs w = Some (True, st3, w1)"
      using al c f(1) Some q by (simp add: put_bytes_def)
    with f s1 s2 show ?thesis by auto
  qed
qed

lemma take_bytes_owned:
  assumes o: "owned st L" and fd: "0 \<le> fd" "fd < MAX_SOCKET"
  shows "\<exists>bs st' L'. take_bytes st fd k = Some (bs, st') \<and> owned st' L'
    \<and> sendbuf_stream st fd = bs @ sendbuf_stream st' fd \<and> length bs \<le> k
    \<and> (\<forall>fd'. fd' \<noteq> fd \<longrightarrow> sendbuf_stream st' fd' = sendbuf_stream st fd')"
proof (cases "L (Sock fd)")
  case Nil
  then have "block_head (bbufs st fd) = None" using owned_chain [OF o, of "Sock fd"] by simp
  then have "take_bytes st fd k = Some ([], st)"
    using fd by (simp add: take_bytes_def sendbuf_datalen_def sendbuf_get_read_ptr_def fd2bbuf_def)
  with o show ?thesis by auto
next
  case (Cons a as)
  from sock_block [OF o Cons] obtain b where b: "heap st a = Some b" "block_ok b" "block_head (bbufs st fd) = Some a" .
  note bi = block_ints [OF b(2)]
  define n where "n = min (int k) (bb_buf_len b - bb_rptr b)"
  have ci: "c_int (bb_buf_len b - bb_rptr b) = bb_buf_len b - bb_rptr b" using bi by (intro c_int_1g) simp_all
  have n: "0 \<le> n" "n \<le> bb_buf_len b - bb_rptr b" using bi by (auto simp: n_def)
  from skip_owned [OF o Cons b(1) fd n] obtain st' L' where
    s: "sendbuf_skip_read_ptr st fd n = Some (0, st')" "owned st' L'"
    "sendbuf_stream st' fd = drop (nat n) (sendbuf_stream st fd)"
    "\<forall>fd'. fd' \<noteq> fd \<longrightarrow> sendbuf_stream st' fd' = sendbuf_stream st fd'" by blast
  let ?bs = "slice (bb_buf b) (bb_rptr b) (bb_rptr b + n)"
  have get: "mem_get (bb_buf b) (bb_rptr b) n = Some ?bs" using bi n by (intro mem_get_inside) simp_all
  have run: "take_bytes st fd k = Some (?bs, st')"
    using fd b get s(1) ci
    by (simp add: take_bytes_def sendbuf_datalen_def sendbuf_get_read_ptr_def fd2bbuf_def copy_from_def n_def)
  have len: "length ?bs = nat n" using mem_get_length [OF get] .
  have "?bs = take (nat n) (bytes_of (heap st) a)"
    using b(1) n bi slice_append [of "bb_rptr b" "bb_rptr b + n" "bb_buf_len b" "bb_buf b"] len
    by (simp add: bytes_of_def) (metis append_eq_conv_conj)
  moreover have "nat n \<le> length (bytes_of (heap st) a)" using b(1) n bi by (simp add: bytes_of_def length_slice)
  ultimately have "?bs = take (nat n) (sendbuf_stream st fd)" by (simp add: owned_stream [OF o] Cons)
  then have "sendbuf_stream st fd = ?bs @ sendbuf_stream st' fd" using s(3) by simp
  moreover have "length ?bs \<le> k" using len by (simp add: n_def)
  ultimately show ?thesis using run s(2,4) by blast
qed

section \<open>Releasing a chain\<close>

text \<open>
  \<open>sendbuf_free\<close> does not reset the pointers of the socket, so while it runs and after it the
  freed blocks are reachable from the socket as well. The state is therefore described with
  other socket pointers \<open>f\<close> in the place of \<open>bbufs\<close>.
\<close>

lemma free_block_bbufs:
  "bbuf_free_block (st\<lparr>bbufs := f\<rparr>) a = map_option (\<lambda>st. st\<lparr>bbufs := f\<rparr>) (bbuf_free_block st a)"
  by (cases "heap st a")
     (auto simp: bbuf_free_block_def set_block_def Let_def intro!: option.expand split: Option.bind_splits)

lemma free_block_frame: "bbuf_free_block st a = Some st' \<Longrightarrow> bbufs st' = bbufs st"
  by (auto simp: bbuf_free_block_def set_block_def Let_def bind_eq_Some_conv split: if_splits)

lemma free_blocks_owned:
  assumes "owned (st\<lparr>bbufs := f\<rparr>) L" "chain (heap st) p as" "distinct as"
    and "\<And>a s. a \<in> set as \<Longrightarrow> a \<notin> set (L s)"
    and "\<And>a. a \<in> set as \<Longrightarrow> a < brk st \<and> (\<exists>b. heap st a = Some b \<and> block_ok b)"
  shows "\<exists>st' L'. free_blocks st p = Some st' \<and> owned (st'\<lparr>bbufs := f\<rparr>) L' \<and> bbufs st' = bbufs st
    \<and> (\<forall>fd. L' (Sock fd) = L (Sock fd)) \<and> bytes_of (heap st') = bytes_of (heap st)
    \<and> (\<forall>a \<in> set as. \<exists>i. a \<in> set (L' (Free i))) \<and> (\<forall>i. set (L (Free i)) \<subseteq> set (L' (Free i)))"
  using assms
proof (induction as arbitrary: st p L)
  case Nil
  then show ?case by (intro exI [of _ st] exI [of _ L]) (simp add: free_blocks.simps)
next
  case (Cons a as)
  from Cons.prems(2) obtain b where b: "p = Some a" "heap st a = Some b" "chain (heap st) (bb_next b) as" by auto
  have ab: "a < brk st" "block_ok b" using Cons.prems(5) [of a] b(2) by auto
  from block_class [OF ab(2)] obtain i where i: "bb_buf_size b = class_size i" "12 \<le> i" "i \<le> 30" by blast
  let ?L = "L(Free i := a # L (Free i))"
  from free_block_owned [OF Cons.prems(1) _ ab(2) _ _ i, of a] b(2) ab(1) Cons.prems(4)
  obtain sa where sa: "bbuf_free_block (st\<lparr>bbufs := f\<rparr>) a = Some sa" "owned sa ?L" "bbufs sa = f"
    "brk sa = brk st" "heap sa = (heap st)(a \<mapsto> b\<lparr>bb_next := block_table st i\<rparr>)" by auto
  then obtain s1 where s1: "bbuf_free_block st a = Some s1" "sa = s1\<lparr>bbufs := f\<rparr>"
    by (auto simp: free_block_bbufs)
  have h1: "heap s1 = (heap st)(a \<mapsto> b\<lparr>bb_next := block_table st i\<rparr>)" "brk s1 = brk st"
    using sa s1 by simp_all
  have da: "a \<notin> set as" using Cons.prems(3) by simp
  have "\<exists>st' L'. free_blocks s1 (bb_next b) = Some st' \<and> owned (st'\<lparr>bbufs := f\<rparr>) L' \<and> bbufs st' = bbufs s1
    \<and> (\<forall>fd. L' (Sock fd) = ?L (Sock fd)) \<and> bytes_of (heap st') = bytes_of (heap s1)
    \<and> (\<forall>a \<in> set as. \<exists>i. a \<in> set (L' (Free i))) \<and> (\<forall>i. set (?L (Free i)) \<subseteq> set (L' (Free i)))"
  proof (rule Cons.IH)
    show "owned (s1\<lparr>bbufs := f\<rparr>) ?L" using sa s1 by simp
    show "chain (heap s1) (bb_next b) as" using b(3) da h1 by simp
    show "distinct as" using Cons.prems(3) by simp
    show "x \<notin> set (?L s)" if "x \<in> set as" for x s using Cons.prems(4) [of x] that da by auto
    show "x < brk s1 \<and> (\<exists>b. heap s1 x = Some b \<and> block_ok b)" if "x \<in> set as" for x
      using Cons.prems(5) [of x] that da h1 by auto
  qed
  then obtain st' L' where st': "free_blocks s1 (bb_next b) = Some st'" "owned (st'\<lparr>bbufs := f\<rparr>) L'"
    "bbufs st' = bbufs s1" "\<forall>fd. L' (Sock fd) = ?L (Sock fd)" "bytes_of (heap st') = bytes_of (heap s1)"
    "\<forall>a \<in> set as. \<exists>i. a \<in> set (L' (Free i))" "\<forall>i. set (?L (Free i)) \<subseteq> set (L' (Free i))" by blast
  have "bytes_of (heap s1) = bytes_of (heap st)"
    using b(2) by (intro ext) (simp add: h1 bytes_of_upd bytes_of_def)
  moreover have "free_blocks st p = Some st'"
    by (subst free_blocks.simps) (simp add: b s1 st'(1))
  moreover have "a \<in> set (L' (Free i))" using st'(7) [rule_format, of i] by simp
  moreover have "set (L (Free j)) \<subseteq> set (L' (Free j))" for j
    using st'(7) [rule_format, of j] by (cases "j = i") simp_all
  moreover have "bbufs st' = bbufs st" using st'(3) free_block_frame [OF s1(1)] by simp
  ultimately show ?case using st' by (intro exI [of _ st'] exI [of _ L']) auto
qed

lemma release_owned:
  assumes o: "owned st L" and fd: "0 \<le> fd" "fd < MAX_SOCKET"
  shows "\<exists>st' L'. sendbuf_free st fd = Some (0, st') \<and> bbufs st' = bbufs st
    \<and> owned (set_bbuf st' fd \<lparr>block_head = None, block_tail = None\<rparr>) L'
    \<and> L' (Sock fd) = [] \<and> (\<forall>fd'. fd' \<noteq> fd \<longrightarrow> L' (Sock fd') = L (Sock fd'))
    \<and> bytes_of (heap st') = bytes_of (heap st) \<and> (\<forall>a \<in> set (L (Sock fd)). \<exists>i. a \<in> set (L' (Free i)))"
proof -
  let ?f = "(bbufs st)(fd := \<lparr>block_head = None, block_tail = None\<rparr>)"
  let ?L = "L(Sock fd := [])"
  have o1: "owned (st\<lparr>bbufs := ?f\<rparr>) ?L"
    unfolding owned_def
  proof (intro conjI allI ballI impI)
    fix s show "chain (heap (st\<lparr>bbufs := ?f\<rparr>)) (head_of (st\<lparr>bbufs := ?f\<rparr>) s) (?L s)"
      using owned_chain [OF o, of s] by (cases s) auto
    show "distinct (?L s)" using owned_distinct [OF o] by simp
  next
    fix s t :: slot assume "s \<noteq> t"
    then show "set (?L s) \<inter> set (?L t) = {}" using owned_disjoint [OF o, of s t] by auto
  next
    fix fd' show "tail_ok (st\<lparr>bbufs := ?f\<rparr>) ?L fd'" using owned_tail [OF o, of fd'] by (simp add: tail_ok_def)
  next
    fix s x assume "x \<in> set (?L s)"
    then have "x \<in> set (L s)" by (auto split: if_splits)
    then show "x < brk (st\<lparr>bbufs := ?f\<rparr>)" "\<exists>c. heap (st\<lparr>bbufs := ?f\<rparr>) x = Some c \<and> block_ok c"
      using owned_brk [OF o] owned_block [OF o] by auto
  next
    fix i x assume "x \<in> set (?L (Free i))"
    then show "\<exists>c. heap (st\<lparr>bbufs := ?f\<rparr>) x = Some c \<and> bb_buf_size c = class_size i"
      using owned_class [OF o] by auto
  qed
  have "\<exists>st' L'. free_blocks st (block_head (bbufs st fd)) = Some st' \<and> owned (st'\<lparr>bbufs := ?f\<rparr>) L' \<and> bbufs st' = bbufs st
    \<and> (\<forall>fd'. L' (Sock fd') = ?L (Sock fd')) \<and> bytes_of (heap st') = bytes_of (heap st)
    \<and> (\<forall>a \<in> set (L (Sock fd)). \<exists>i. a \<in> set (L' (Free i))) \<and> (\<forall>i. set (?L (Free i)) \<subseteq> set (L' (Free i)))"
  proof (rule free_blocks_owned [OF o1])
    show "chain (heap st) (block_head (bbufs st fd)) (L (Sock fd))" using owned_chain [OF o, of "Sock fd"] by simp
    show "distinct (L (Sock fd))" using o by (rule owned_distinct)
    show "a \<notin> set (?L s)" if "a \<in> set (L (Sock fd))" for a s
      using owned_disjoint [OF o, of "Sock fd" s] that by auto
    show "a < brk st \<and> (\<exists>b. heap st a = Some b \<and> block_ok b)" if "a \<in> set (L (Sock fd))" for a
      using owned_brk [OF o that] owned_block [OF o that] by simp
  qed
  then obtain st' L' where st': "free_blocks st (block_head (bbufs st fd)) = Some st'" "owned (st'\<lparr>bbufs := ?f\<rparr>) L'"
    "bbufs st' = bbufs st" "\<forall>fd'. L' (Sock fd') = ?L (Sock fd')" "bytes_of (heap st') = bytes_of (heap st)"
    "\<forall>a \<in> set (L (Sock fd)). \<exists>i. a \<in> set (L' (Free i))" by blast
  have "sendbuf_free st fd = Some (0, st')" using fd st'(1) by (simp add: sendbuf_free_def fd2bbuf_def)
  then show ?thesis using st' by (intro exI [of _ st'] exI [of _ L']) (simp add: set_bbuf_def)
qed

end
