(* ===== verification/Byte_Queues.thy ===== *)
theory Byte_Queues
  imports Prelude
begin

text \<open>
  The interface of the send and of the receive buffers: a family of byte queues, one per socket.
  Its client lemma is the order of the bytes over any sequence of writes and reads.
\<close>

datatype queue_op = Put int "byte list" | Take int nat

text \<open>
  A run of operations: the writes that were accepted and the bytes that were read, each with
  its socket, in order.
\<close>

fun run_ops ::
  "('s \<Rightarrow> int \<Rightarrow> byte list \<Rightarrow> (bool \<times> 's) option) \<Rightarrow> ('s \<Rightarrow> int \<Rightarrow> nat \<Rightarrow> (byte list \<times> 's) option)
    \<Rightarrow> 's \<Rightarrow> queue_op list \<Rightarrow> ((int \<times> byte list) list \<times> (int \<times> byte list) list \<times> 's) option" where
  "run_ops put get s [] = Some ([], [], s)"
| "run_ops put get s (Put fd bs # ops) =
     do {
       (ok, s) \<leftarrow> put s fd bs;
       (ins, outs, s) \<leftarrow> run_ops put get s ops;
       Some (if ok then (fd, bs) # ins else ins, outs, s)
     }"
| "run_ops put get s (Take fd k # ops) =
     do {
       (bs, s) \<leftarrow> get s fd k;
       (ins, outs, s) \<leftarrow> run_ops put get s ops;
       Some (ins, (fd, bs) # outs, s)
     }"

definition bytes_on :: "int \<Rightarrow> (int \<times> byte list) list \<Rightarrow> byte list" where
  "bytes_on fd xs = concat (map snd (filter (\<lambda>x. fst x = fd) xs))"

lemma bytes_on_simps [simp]:
  "bytes_on fd [] = []" "bytes_on fd ((fd', bs) # xs) = (if fd' = fd then bs @ bytes_on fd xs else bytes_on fd xs)"
  by (simp_all add: bytes_on_def)

locale byte_queues =
  fixes wf :: "'s \<Rightarrow> bool" and stream :: "'s \<Rightarrow> int \<Rightarrow> byte list"
    and good_fd :: "int \<Rightarrow> bool" and good_data :: "byte list \<Rightarrow> bool"
    and put :: "'s \<Rightarrow> int \<Rightarrow> byte list \<Rightarrow> (bool \<times> 's) option"
    and get :: "'s \<Rightarrow> int \<Rightarrow> nat \<Rightarrow> (byte list \<times> 's) option"
  assumes put_law: "wf s \<Longrightarrow> good_fd fd \<Longrightarrow> good_data bs \<Longrightarrow>
      \<exists>ok s'. put s fd bs = Some (ok, s') \<and> wf s'
        \<and> stream s' fd = stream s fd @ (if ok then bs else [])
        \<and> (\<forall>fd'. fd' \<noteq> fd \<longrightarrow> stream s' fd' = stream s fd')"
    and get_law: "wf s \<Longrightarrow> good_fd fd \<Longrightarrow>
      \<exists>bs s'. get s fd k = Some (bs, s') \<and> wf s' \<and> stream s fd = bs @ stream s' fd \<and> length bs \<le> k
        \<and> (\<forall>fd'. fd' \<noteq> fd \<longrightarrow> stream s' fd' = stream s fd')"
begin

fun good_op :: "queue_op \<Rightarrow> bool" where
  "good_op (Put fd bs) \<longleftrightarrow> good_fd fd \<and> good_data bs"
| "good_op (Take fd k) \<longleftrightarrow> good_fd fd"

lemma run_fifo:
  "wf s \<Longrightarrow> \<forall>op \<in> set ops. good_op op \<Longrightarrow>
     \<exists>ins outs s'. run_ops put get s ops = Some (ins, outs, s') \<and> wf s'
       \<and> (\<forall>fd. stream s fd @ bytes_on fd ins = bytes_on fd outs @ stream s' fd)"
proof (induction ops arbitrary: s)
  case (Cons op ops)
  show ?case
  proof (cases op)
    case (Put fd bs)
    with Cons.prems put_law [of s fd bs] obtain ok s1 where
      p: "put s fd bs = Some (ok, s1)" "wf s1" "stream s1 fd = stream s fd @ (if ok then bs else [])"
      "\<forall>fd'. fd' \<noteq> fd \<longrightarrow> stream s1 fd' = stream s fd'" by auto
    from Cons.IH [OF p(2)] Cons.prems(2) obtain ins outs s' where
      r: "run_ops put get s1 ops = Some (ins, outs, s')" "wf s'"
      "\<forall>fd. stream s1 fd @ bytes_on fd ins = bytes_on fd outs @ stream s' fd" by auto
    have "stream s fd' @ bytes_on fd' (if ok then (fd, bs) # ins else ins) = bytes_on fd' outs @ stream s' fd'" for fd'
      using p(3,4) r(3) [rule_format, of fd'] by (cases "fd' = fd") auto
    with Put p(1) r(1,2) show ?thesis by simp
  next
    case (Take fd k)
    with Cons.prems get_law [of s fd k] obtain bs s1 where
      p: "get s fd k = Some (bs, s1)" "wf s1" "stream s fd = bs @ stream s1 fd"
      "\<forall>fd'. fd' \<noteq> fd \<longrightarrow> stream s1 fd' = stream s fd'" by auto
    from Cons.IH [OF p(2)] Cons.prems(2) obtain ins outs s' where
      r: "run_ops put get s1 ops = Some (ins, outs, s')" "wf s'"
      "\<forall>fd. stream s1 fd @ bytes_on fd ins = bytes_on fd outs @ stream s' fd" by auto
    have "stream s fd' @ bytes_on fd' ins = bytes_on fd' ((fd, bs) # outs) @ stream s' fd'" for fd'
      using p(3,4) r(3) [rule_format, of fd'] by (cases "fd' = fd") auto
    with Take p(1) r(1,2) show ?thesis by simp
  qed
qed simp

end

end
