(* ===== verification/Lsendbuf_Spec.thy ===== *)
theory Lsendbuf_Spec
  imports Lsendbuf_Laws Byte_Queues
begin

text \<open>
  What the send buffers promise: the interpretation of \<open>byte_queues\<close> shows that the buffers of
  \<open>lsendbuf.cc\<close> are byte queues, and the properties follow.
\<close>

section \<open>The buffers provide the interface\<close>

definition sb_put :: "'w os \<Rightarrow> sendbuf \<times> 'w \<Rightarrow> int \<Rightarrow> byte list \<Rightarrow> (bool \<times> sendbuf \<times> 'w) option" where
  "sb_put os s fd bs = put_bytes os (fst s) fd bs (snd s)"

definition sb_get :: "sendbuf \<times> 'w \<Rightarrow> int \<Rightarrow> nat \<Rightarrow> (byte list \<times> sendbuf \<times> 'w) option" where
  "sb_get s fd k = map_option (\<lambda>(bs, st). (bs, st, snd s)) (take_bytes (fst s) fd k)"

definition good_socket :: "int \<Rightarrow> bool" where
  "good_socket fd \<longleftrightarrow> 0 \<le> fd \<and> fd < MAX_SOCKET"

definition good_size :: "byte list \<Rightarrow> bool" where
  "good_size bs \<longleftrightarrow> int (length bs) \<le> 1073741800"

interpretation sb: byte_queues "\<lambda>s :: sendbuf \<times> 'w. sendbuf_wf (fst s)" "\<lambda>s. sendbuf_stream (fst s)"
  good_socket good_size "sb_put os" sb_get for os :: "'w os"
proof
  fix s :: "sendbuf \<times> 'w" and fd bs k
  assume wf: "sendbuf_wf (fst s)" and fd: "good_socket fd"
  from wf have o: "owned (fst s) (blocks_of (fst s))" by (simp add: sendbuf_wf_def)
  from fd have fd': "0 \<le> fd" "fd < MAX_SOCKET" by (simp_all add: good_socket_def)
  show "\<exists>ok s'. sb_put os s fd bs = Some (ok, s') \<and> sendbuf_wf (fst s')
      \<and> sendbuf_stream (fst s') fd = sendbuf_stream (fst s) fd @ (if ok then bs else [])
      \<and> (\<forall>fd'. fd' \<noteq> fd \<longrightarrow> sendbuf_stream (fst s') fd' = sendbuf_stream (fst s) fd')"
    if "good_size bs"
  proof -
    from that have "int (length bs) \<le> 1073741800" by (simp add: good_size_def)
    from put_bytes_owned [OF o fd' this, of os "snd s"] show ?thesis
      unfolding sb_put_def using owned_wf by fastforce
  qed
  show "\<exists>bs s'. sb_get s fd k = Some (bs, s') \<and> sendbuf_wf (fst s')
      \<and> sendbuf_stream (fst s) fd = bs @ sendbuf_stream (fst s') fd \<and> length bs \<le> k
      \<and> (\<forall>fd'. fd' \<noteq> fd \<longrightarrow> sendbuf_stream (fst s') fd' = sendbuf_stream (fst s) fd')"
    using take_bytes_owned [OF o fd', of k] unfolding sb_get_def using owned_wf by fastforce
qed

lemma init_owned: "owned sendbuf_init (\<lambda>_. [])"
proof -
  have "head_of sendbuf_init s = None" for s by (cases s) (simp_all add: sendbuf_init_def)
  then show ?thesis by (simp add: owned_def tail_ok_def) (simp add: sendbuf_init_def)
qed

lemma init_wf: "sendbuf_wf sendbuf_init"
  using init_owned by (rule owned_wf)

section \<open>Properties\<close>

text \<open>The operations the order of bytes is stated for: sockets of the table, requests of at most
  one gigabyte.\<close>

fun in_scope :: "queue_op \<Rightarrow> bool" where
  "in_scope (Put fd bs) \<longleftrightarrow> good_socket fd \<and> good_size bs"
| "in_scope (Take fd k) \<longleftrightarrow> good_socket fd"

text \<open>C2: over any sequence of writes (allocate, copy, flush) and reads (read pointer, length,
  skip) on any sockets, whatever \<open>malloc\<close> answers, nothing is undefined and on every socket the
  bytes read so far followed by the bytes still buffered are the bytes that were buffered at the
  start followed by those of the accepted writes, in order: no byte is lost, repeated, moved to
  another socket or reordered.\<close>

theorem send_fifo:
  assumes "sendbuf_wf st" "\<forall>op \<in> set ops. in_scope op"
  shows "\<exists>ins outs st' w'. run_ops (sb_put os) sb_get (st, w) ops = Some (ins, outs, st', w') \<and> sendbuf_wf st'
    \<and> (\<forall>fd. sendbuf_stream st fd @ bytes_on fd ins = bytes_on fd outs @ sendbuf_stream st' fd)"
proof -
  have "\<forall>op \<in> set ops. sb.good_op op"
  proof
    fix op assume "op \<in> set ops"
    with assms(2) have "in_scope op" by blast
    then show "sb.good_op op" by (cases op) simp_all
  qed
  with assms(1) sb.run_fifo [of "(st, w)" ops os] show ?thesis by auto
qed

definition lucky_os :: "unit os" where
  "lucky_os =
     \<lparr>os_malloc = (\<lambda>n w. (True, w)), os_free = (\<lambda>w. w), os_junk = (\<lambda>w i. 7),
      os_time = (\<lambda>w. (0, w)), os_gettimeofday = (\<lambda>w. ((0, 0), w)),
      os_select = (\<lambda>n r s tv w. ((- 1, r, s), w)), os_epoll_create = (\<lambda>w. (5, w)),
      os_epoll_ctl = (\<lambda>ep op fd e w. (- 1, w)), os_epoll_wait = (\<lambda>ep n t w. ((0, []), w)),
      os_poll = (\<lambda>fd e t w. ((0, e), w)), os_close = (\<lambda>fd w. w)\<rparr>"

theorem send_fifo_witness:
  "\<exists>ins outs st' w'. run_ops (sb_put lucky_os) sb_get (sendbuf_init, ())
      [Put 3 [1, 2, 3], Put 4 [9], Take 3 2, Put 3 [4], Take 3 9] = Some (ins, outs, st', w') \<and> sendbuf_wf st'
    \<and> (\<forall>fd. sendbuf_stream sendbuf_init fd @ bytes_on fd ins = bytes_on fd outs @ sendbuf_stream st' fd)"
  by (rule send_fifo [OF init_wf]) (simp add: good_socket_def good_size_def MAX_SOCKET_def)

text \<open>\<open>hash\<close> returns for every size up to \<open>2\<^sup>3\<^sup>1\<close> the least exponent of two that is large
  enough, and the loop ends before the shift leaves the range of the type.\<close>

theorem hash_exact:
  assumes "0 < sz" "sz \<le> 2 ^ 31"
  shows "\<exists>k < MAX_TABLE. hash sz = Some k \<and> sz \<le> 2 ^ k \<and> (\<forall>j < k. 2 ^ j < sz)"
  using assms by (rule hash_least)

theorem hash_exact_witness:
  "\<exists>k < MAX_TABLE. hash 4097 = Some k \<and> 4097 \<le> (2 :: int) ^ k \<and> (\<forall>j < k. (2 :: int) ^ j < 4097)"
  by (rule hash_exact) simp_all

text \<open>a request of at most one gigabyte either fails because \<open>malloc\<close> does, or returns a
  pointer behind which the whole request fits: copying any data of that length to it is defined,
  keeps the buffers well-formed and changes no socket's pending bytes.\<close>

theorem alloc_room:
  assumes wf: "sendbuf_wf st" and fd: "0 \<le> fd" "fd < MAX_SOCKET" and need: "0 \<le> need" "need \<le> 1073741800"
  shows "\<exists>p st' w'. sendbuf_alloc os st fd need w = Some (p, st', w') \<and> sendbuf_wf st'
    \<and> (\<forall>fd'. sendbuf_stream st' fd' = sendbuf_stream st fd')
    \<and> (\<forall>q bs. p = Some q \<and> int (length bs) \<le> need \<longrightarrow>
         (\<exists>st''. copy_to st' q bs = Some st'' \<and> sendbuf_wf st'' \<and> (\<forall>fd'. sendbuf_stream st'' fd' = sendbuf_stream st fd')))"
proof -
  from wf have o: "owned st (blocks_of st)" by (simp add: sendbuf_wf_def)
  from alloc_owned [OF o fd need, of os w] obtain p st' w' L' where
    a: "sendbuf_alloc os st fd need w = Some (p, st', w')" "owned st' L'"
      "\<forall>fd'. sendbuf_stream st' fd' = sendbuf_stream st fd'"
    and r: "\<forall>a off. p = Some (a, off) \<longrightarrow> ready st' L' fd need a off" by blast
  have "\<exists>st''. copy_to st' q bs = Some st'' \<and> sendbuf_wf st'' \<and> (\<forall>fd'. sendbuf_stream st'' fd' = sendbuf_stream st fd')"
    if "p = Some q" "int (length bs) \<le> need" for q bs
  proof -
    from r that(1) have "ready st' L' fd need (fst q) (snd q)" by (cases q) simp
    from copy_to_owned [OF a(2) this that(2)] obtain st'' where
      c: "copy_to st' (fst q, snd q) bs = Some st''" "owned st'' L'"
        "\<forall>fd'. sendbuf_stream st'' fd' = sendbuf_stream st' fd'" by blast
    with owned_wf [OF c(2)] a(3) show ?thesis by simp
  qed
  with a owned_wf [OF a(2)] show ?thesis by blast
qed

theorem alloc_room_witness:
  "\<exists>p st' w'. sendbuf_alloc lucky_os sendbuf_init 3 5000 () = Some (p, st', w') \<and> sendbuf_wf st'
    \<and> (\<forall>fd'. sendbuf_stream st' fd' = sendbuf_stream sendbuf_init fd')
    \<and> (\<forall>q bs. p = Some q \<and> int (length bs) \<le> 5000 \<longrightarrow>
         (\<exists>st''. copy_to st' q bs = Some st'' \<and> sendbuf_wf st''
            \<and> (\<forall>fd'. sendbuf_stream st'' fd' = sendbuf_stream sendbuf_init fd')))"
  by (rule alloc_room [OF init_wf]) (simp_all add: MAX_SOCKET_def)

text \<open>for a request within 24 of \<open>INT_MAX\<close> the sum with the size of the block header does not
  fit into an \<open>int\<close> and becomes negative; a block of the smallest class is handed out for it,
  4,072 bytes for more than two thousand million requested.\<close>

theorem alloc_overflow:
  assumes wf: "sendbuf_wf st" and fd: "0 \<le> fd" "fd < MAX_SOCKET" and need: "INT_MAX - 24 < need" "need \<le> INT_MAX"
    and run: "sendbuf_alloc os st fd need w = Some (Some (a, off), st', w')"
  shows "off = 0 \<and> (\<exists>b. heap st' a = Some b \<and> bb_buf_size b = 4072)"
proof -
  from wf have o: "owned st (blocks_of st)" by (simp add: sendbuf_wf_def)
  have cs: "c_size (need + SIZEOF_BBuf_Block) = need + 24"
    using need by (simp add: SIZEOF_BBuf_Block_def INT_MAX_def c_size_id)
  have "c_int (need + 24) = need + 24 - 4294967296"
    using need by (intro c_int_wrap) (simp_all add: INT_MAX_def)
  then have small: "c_int (c_size (need + SIZEOF_BBuf_Block)) \<le> 4096" using need cs by (simp add: INT_MAX_def)
  have h: "hash 4096 = Some 12" using hash_power [of 12] by (simp add: MAX_TABLE_def)
  have big: "sendbuf_alloc os st fd need w = alloc_new os st fd need w"
  proof (cases "block_tail (bbufs st fd)")
    case None
    then show ?thesis using fd by (simp add: sendbuf_alloc_def fd2bbuf_def)
  next
    case (Some t)
    from tail_block [OF o Some] obtain as b where b: "heap st t = Some b" "block_ok b" .
    note bi = block_ints [OF b(2)]
    have "c_int (bb_buf_size b - bb_buf_len b) = bb_buf_size b - bb_buf_len b" using bi by (intro c_int_1g) simp_all
    with bi need have "\<not> need \<le> c_int (bb_buf_size b - bb_buf_len b)" by (simp add: INT_MAX_def)
    then show ?thesis using fd Some b by (simp add: sendbuf_alloc_def fd2bbuf_def)
  qed
  obtain ok st1 w1 L1 where
    n: "(if block_table st 12 = None then new_block os st 12 w else ((True, st), w)) = ((ok, st1), w1)"
    and o1: "owned st1 L1" and ne: "ok \<longrightarrow> L1 (Free 12) \<noteq> []"
  proof (cases "block_table st 12 = None")
    case True
    from new_block_owned [OF o True, of os w] obtain ok st1 w1 L1 where
      nb: "new_block os st 12 w = ((ok, st1), w1)" "owned st1 L1"
        "if ok then L1 = (blocks_of st)(Free 12 := [brk st]) else st1 = st \<and> L1 = blocks_of st" by auto
    show thesis by (rule that [of ok st1 w1 L1]) (use nb True in simp_all)
  next
    case False
    with that [of True st w] o free_empty [OF o, of 12] show thesis by simp
  qed
  have an: "alloc_new os st fd need w =
      (if \<not> ok then Some (None, st1, w1) else do { (p, st2) \<leftarrow> take_block st1 fd 12; Some (p, st2, w1) })"
    unfolding alloc_new_def Let_def using small h n by simp
  with run big have ok by (auto split: if_splits)
  with ne obtain c cs where l: "L1 (Free 12) = c # cs" by (cases "L1 (Free 12)") auto
  from take_block_owned [OF o1 l fd] run big an \<open>ok\<close> show ?thesis
    by (auto simp: class_size_def SIZEOF_BBuf_Block_def)
qed

theorem alloc_overflow_witness:
  "\<exists>a off st' w'. sendbuf_alloc lucky_os sendbuf_init 3 INT_MAX () = Some (Some (a, off), st', w')
    \<and> off = 0 \<and> (\<exists>b. heap st' a = Some b \<and> bb_buf_size b = 4072)"
proof -
  have "hash 4096 = Some 12" using hash_power [of 12] by (simp add: MAX_TABLE_def)
  then have "\<exists>a off st' w'. sendbuf_alloc lucky_os sendbuf_init 3 INT_MAX () = Some (Some (a, off), st', w')"
    by (simp add: sendbuf_alloc_def sendbuf_init_def fd2bbuf_def MAX_SOCKET_def alloc_new_def new_block_def
        lucky_os_def take_block_def SIZEOF_BBuf_Block_def INT_MAX_def c_size_def c_int_def set_block_def Let_def
        signed_take_bit_eq_take_bit_shift take_bit_eq_mod)
  with alloc_overflow [OF init_wf, of 3 INT_MAX lucky_os "()"] show ?thesis
    by (auto simp: MAX_SOCKET_def)
qed

text \<open>releasing a socket's buffers always ends; after the socket is created again its stream is
  empty, every other socket's is what it was, the buffers are well-formed, and every block of the
  released chain is in a free list.\<close>

theorem free_then_create:
  assumes wf: "sendbuf_wf st" and fd: "0 \<le> fd" "fd < MAX_SOCKET"
  shows "\<exists>st' st''. sendbuf_free st fd = Some (0, st') \<and> sendbuf_create st' fd = Some (0, st'')
    \<and> sendbuf_wf st'' \<and> sendbuf_stream st'' fd = []
    \<and> (\<forall>fd'. fd' \<noteq> fd \<longrightarrow> sendbuf_stream st'' fd' = sendbuf_stream st fd')
    \<and> (\<forall>a \<in> set (blocks_of st (Sock fd)). \<exists>i. a \<in> set (blocks_of st'' (Free i)))"
proof -
  from wf have o: "owned st (blocks_of st)" by (simp add: sendbuf_wf_def)
  from release_owned [OF o fd] obtain st' L' where r: "sendbuf_free st fd = Some (0, st')"
    and o': "owned (set_bbuf st' fd \<lparr>block_head = None, block_tail = None\<rparr>) L'" (is "owned ?st L'")
    and L': "L' (Sock fd) = []" "\<forall>fd'. fd' \<noteq> fd \<longrightarrow> L' (Sock fd') = blocks_of st (Sock fd')"
    and b: "bytes_of (heap st') = bytes_of (heap st)"
    and fr: "\<forall>a \<in> set (blocks_of st (Sock fd)). \<exists>i. a \<in> set (L' (Free i))" by blast
  have c: "sendbuf_create st' fd = Some (0, ?st)" using fd by (simp add: sendbuf_create_def fd2bbuf_def)
  have "heap ?st = heap st'" by (simp add: set_bbuf_def)
  then have s: "sendbuf_stream ?st fd' = concat (map (bytes_of (heap st)) (L' (Sock fd')))" for fd'
    by (simp add: owned_stream [OF o'] b)
  then have "sendbuf_stream ?st fd' = sendbuf_stream st fd'" if "fd' \<noteq> fd" for fd'
    using that L'(2) by (simp add: owned_stream [OF o])
  moreover have "sendbuf_stream ?st fd = []" using s L'(1) by simp
  moreover have "blocks_of ?st (Free i) = L' (Free i)" for i using o' by (rule owned_blocks_of)
  ultimately show ?thesis using r c fr owned_wf [OF o'] by (intro exI [of _ st'] exI [of _ ?st]) simp
qed

theorem free_then_create_witness:
  "\<exists>st' st''. sendbuf_free sendbuf_init 3 = Some (0, st') \<and> sendbuf_create st' 3 = Some (0, st'')
    \<and> sendbuf_wf st'' \<and> sendbuf_stream st'' 3 = []
    \<and> (\<forall>fd'. fd' \<noteq> 3 \<longrightarrow> sendbuf_stream st'' fd' = sendbuf_stream sendbuf_init fd')
    \<and> (\<forall>a \<in> set (blocks_of sendbuf_init (Sock 3)). \<exists>i. a \<in> set (blocks_of st'' (Free i)))"
  by (rule free_then_create [OF init_wf]) (simp_all add: MAX_SOCKET_def)

text \<open>\<open>sendbuf_free\<close> alone does not leave the buffers well-formed when the socket had a block:
  the pointers of the socket are not reset, so the first block of its chain is at the same time
  in a free list, from which the next allocation of any socket takes it.\<close>

theorem free_leaves_dangling:
  assumes wf: "sendbuf_wf st" and fd: "0 \<le> fd" "fd < MAX_SOCKET" and ne: "blocks_of st (Sock fd) \<noteq> []"
  shows "\<exists>st' a i. sendbuf_free st fd = Some (0, st') \<and> block_head (bbufs st' fd) = Some a
    \<and> a \<in> set (blocks_of st' (Free i)) \<and> \<not> sendbuf_wf st'"
proof -
  from wf have o: "owned st (blocks_of st)" by (simp add: sendbuf_wf_def)
  from ne obtain a as where l: "blocks_of st (Sock fd) = a # as" by (cases "blocks_of st (Sock fd)") auto
  from release_owned [OF o fd] obtain st' L' where r: "sendbuf_free st fd = Some (0, st')" "bbufs st' = bbufs st"
    and o': "owned (set_bbuf st' fd \<lparr>block_head = None, block_tail = None\<rparr>) L'" (is "owned ?st L'")
    and fr: "\<forall>a \<in> set (blocks_of st (Sock fd)). \<exists>i. a \<in> set (L' (Free i))" by blast
  from fr l obtain i where i: "a \<in> set (L' (Free i))" by auto
  have "blocks_of st' (Free i) = blocks_of ?st (Free i)" by (simp add: blocks_of_def set_bbuf_def)
  then have fi: "a \<in> set (blocks_of st' (Free i))" using owned_blocks_of [OF o'] i by simp
  from sock_block [OF o l] r(2) have hd: "block_head (bbufs st' fd) = Some a" by auto
  have "\<not> sendbuf_wf st'"
  proof
    assume "sendbuf_wf st'"
    then have w: "owned st' (blocks_of st')" by (simp add: sendbuf_wf_def)
    have "a \<in> set (blocks_of st' (Sock fd))"
      using owned_chain [OF w, of "Sock fd"] hd by (cases "blocks_of st' (Sock fd)") auto
    with owned_disjoint [OF w, of "Sock fd" "Free i"] fi show False by auto
  qed
  with r(1) hd fi show ?thesis by blast
qed

text \<open>A socket with one block of the smallest class.\<close>

definition one_block :: sendbuf where
  "one_block = sendbuf_init\<lparr>heap := [0 \<mapsto> \<lparr>bb_next = None, bb_buf_size = 4072, bb_buf_len = 0, bb_rptr = 0, bb_buf = replicate 4072 0\<rparr>],
     bbufs := (\<lambda>fd. if fd = 3 then \<lparr>block_head = Some 0, block_tail = Some 0\<rparr> else \<lparr>block_head = None, block_tail = None\<rparr>),
     brk := 1\<rparr>"

lemma one_block_owned: "owned one_block (\<lambda>s. if s = Sock 3 then [0] else [])"
proof -
  have "head_of one_block s = (if s = Sock 3 then Some 0 else None)" for s
    by (cases s) (simp_all add: one_block_def sendbuf_init_def)
  moreover have "\<exists>i \<in> {12..30}. 4072 = class_size i"
    by (rule bexI [of _ 12]) (simp_all add: class_size_def SIZEOF_BBuf_Block_def)
  ultimately show ?thesis
    by (auto simp: owned_def tail_ok_def) (auto simp: one_block_def sendbuf_init_def block_ok_def)
qed

theorem free_leaves_dangling_witness:
  "\<exists>st' a i. sendbuf_free one_block 3 = Some (0, st') \<and> block_head (bbufs st' 3) = Some a
    \<and> a \<in> set (blocks_of st' (Free i)) \<and> \<not> sendbuf_wf st'"
  by (rule free_leaves_dangling [OF owned_wf [OF one_block_owned]])
     (simp_all add: MAX_SOCKET_def owned_blocks_of [OF one_block_owned])

end
