(* ===== verification/Lrecvbuf.thy ===== *)
theory Lrecvbuf
  imports Os
begin

text \<open>
  The receive buffers, \<open>src/src/ae/lrecvbuf.cc\<close>: one flat buffer per socket with a read and a
  write position. A pointer into a buffer is the socket and an offset. Some of the functions
  check the socket number (\<open>assert_sockfd\<close>), the others are undefined outside the table.
\<close>

section \<open>Data\<close>

record RBuf =
  rb_buf_len :: int
  rb_rptr :: int
  rb_wptr :: int
  rb_buf :: "block option"

definition RB_MAX_SOCKET :: int where "RB_MAX_SOCKET = 1048576"

type_synonym rptr = "int \<times> int"

record recvbuf =
  rbufs :: "int \<Rightarrow> RBuf"
  mem_total :: int

definition recvbuf_init :: recvbuf where
  "recvbuf_init = \<lparr>rbufs = (\<lambda>_. \<lparr>rb_buf_len = 0, rb_rptr = 0, rb_wptr = 0, rb_buf = None\<rparr>), mem_total = 0\<rparr>"

definition fd2rbuf :: "recvbuf \<Rightarrow> int \<Rightarrow> RBuf option" where
  "fd2rbuf st sockfd = (if 0 \<le> sockfd \<and> sockfd < RB_MAX_SOCKET then Some (rbufs st sockfd) else None)"

definition set_rbuf :: "recvbuf \<Rightarrow> int \<Rightarrow> RBuf \<Rightarrow> recvbuf" where
  "set_rbuf st sockfd r = st\<lparr>rbufs := (rbufs st)(sockfd := r)\<rparr>"

definition bad_sockfd :: "int \<Rightarrow> bool" where
  "bad_sockfd sockfd \<longleftrightarrow> sockfd \<le> 0 \<or> RB_MAX_SOCKET \<le> sockfd"

section \<open>Helpers\<close>

text \<open>The bytes copied; both functions return \<open>buf_len\<close>.\<close>

definition get_buf :: "recvbuf \<Rightarrow> int \<Rightarrow> int \<Rightarrow> byte list option" where
  "get_buf st sockfd n =
     do { self \<leftarrow> fd2rbuf st sockfd; b \<leftarrow> rb_buf self; mem_get b (rb_rptr self) n }"

definition read_buf :: "recvbuf \<Rightarrow> int \<Rightarrow> int \<Rightarrow> (byte list \<times> recvbuf) option" where
  "read_buf st sockfd n =
     do {
       self \<leftarrow> fd2rbuf st sockfd;
       b \<leftarrow> rb_buf self;
       bs \<leftarrow> mem_get b (rb_rptr self) n;
       Some (bs, set_rbuf st sockfd (self\<lparr>rb_rptr := c_int (rb_rptr self + n)\<rparr>))
     }"

definition recvbuf_free :: "recvbuf \<Rightarrow> int \<Rightarrow> int \<times> recvbuf" where
  "recvbuf_free st sockfd = (0, st)"

definition rb_lfree :: "recvbuf \<Rightarrow> rptr lua_out \<times> recvbuf" where
  "rb_lfree st = (([], 0), st)"

section \<open>Positions and lengths\<close>

definition lbufremain :: "recvbuf \<Rightarrow> int \<Rightarrow> rptr lua_out" where
  "lbufremain st a1 =
     (let sockfd = c_int a1 in
      if bad_sockfd sockfd then ([], 0)
      else ([LInt (c_int (rb_buf_len (rbufs st sockfd) - rb_wptr (rbufs st sockfd)))], 1))"

text \<open>\<open>lbuflen\<close> returns the length as the number of its results and pushes nothing.\<close>

definition lbuflen :: "recvbuf \<Rightarrow> int \<Rightarrow> rptr lua_out" where
  "lbuflen st a1 =
     (let sockfd = c_int a1 in
      if bad_sockfd sockfd then ([], 0) else ([], rb_buf_len (rbufs st sockfd)))"

definition rb_ldatalen :: "recvbuf \<Rightarrow> int \<Rightarrow> rptr lua_out" where
  "rb_ldatalen st a1 =
     (let sockfd = c_int a1 in
      if bad_sockfd sockfd then ([], 0)
      else ([LInt (c_int (rb_wptr (rbufs st sockfd) - rb_rptr (rbufs st sockfd)))], 1))"

text \<open>Adding to a null pointer is undefined.\<close>

definition lgetrptr :: "recvbuf \<Rightarrow> int \<Rightarrow> rptr lua_out option" where
  "lgetrptr st a1 =
     (let sockfd = c_int a1 in
      if bad_sockfd sockfd then Some ([], 0)
      else do { _ \<leftarrow> rb_buf (rbufs st sockfd); Some ([LPtr (sockfd, rb_rptr (rbufs st sockfd))], 1) })"

definition lgetwptr :: "recvbuf \<Rightarrow> int \<Rightarrow> rptr lua_out option" where
  "lgetwptr st a1 =
     do {
       self \<leftarrow> fd2rbuf st (c_int a1);
       _ \<leftarrow> rb_buf self;
       Some ([LPtr (c_int a1, rb_wptr self)], 1)
     }"

section \<open>Searching\<close>

text \<open>
  \<open>strncmp(buf + i, str, str_len) = 0\<close>: the bytes are compared one by one up to the first
  difference, the first NUL or the length of \<open>str\<close>; reading outside the buffer is undefined.
\<close>

fun strncmp_eq :: "block \<Rightarrow> int \<Rightarrow> byte list \<Rightarrow> bool option" where
  "strncmp_eq b i [] = Some True"
| "strncmp_eq b i (c # cs) =
     (if 0 \<le> i \<and> i < int (length b)
      then (if b ! nat i \<noteq> c then Some False
            else if c = 0 then Some True
            else strncmp_eq b (i + 1) cs)
      else None)"

text \<open>The loop from \<open>i\<close> on, \<open>k\<close> iterations at most: the position of the first match.\<close>

fun find_loop :: "block \<Rightarrow> int \<Rightarrow> nat \<Rightarrow> byte list \<Rightarrow> int option option" where
  "find_loop b i 0 str = Some None"
| "find_loop b i (Suc k) str =
     do {
       eq \<leftarrow> strncmp_eq b i str;
       if eq then Some (Some i) else find_loop b (i + 1) k str
     }"

definition lfind :: "recvbuf \<Rightarrow> int \<Rightarrow> byte list \<Rightarrow> int option \<Rightarrow> rptr lua_out option" where
  "lfind st a1 str a3 =
     (let startpos = (case a3 of None \<Rightarrow> 0 | Some n \<Rightarrow> c_int n) in
      do {
        self \<leftarrow> fd2rbuf st (c_int a1);
        if rb_wptr self \<le> c_int (rb_rptr self + c_int (int (length str))) then Some ([], 0)
        else
          (let i = c_int (rb_rptr self + startpos) in
           if rb_wptr self \<le> i then Some ([], 0)
           else do {
             b \<leftarrow> rb_buf self;
             r \<leftarrow> find_loop b i (nat (rb_wptr self - i)) str;
             Some (case r of None \<Rightarrow> ([], 0) | Some j \<Rightarrow> ([LInt (c_int (j - rb_rptr self))], 1))
           })
      })"

section \<open>Moving the positions\<close>

definition lrskip :: "recvbuf \<Rightarrow> int \<Rightarrow> int \<Rightarrow> (rptr lua_out \<times> recvbuf) option" where
  "lrskip st a1 a2 =
     (let sockfd = c_int a1; len = c_int a2 in
      do {
        self \<leftarrow> fd2rbuf st sockfd;
        if c_int (rb_wptr self - rb_rptr self) < len then Some (([], 0), st)
        else Some (([LInt len], 1), set_rbuf st sockfd (self\<lparr>rb_rptr := c_int (rb_rptr self + len)\<rparr>))
      })"

definition lwskip :: "recvbuf \<Rightarrow> int \<Rightarrow> int \<Rightarrow> (rptr lua_out \<times> recvbuf) option" where
  "lwskip st a1 a2 =
     (let sockfd = c_int a1; len = c_int a2 in
      do {
        self \<leftarrow> fd2rbuf st sockfd;
        Some (([LInt len], 1), set_rbuf st sockfd (self\<lparr>rb_wptr := c_int (rb_wptr self + len)\<rparr>))
      })"

definition lbuf2line :: "recvbuf \<Rightarrow> int \<Rightarrow> (rptr lua_out \<times> recvbuf) option" where
  "lbuf2line st a1 =
     (let sockfd = c_int a1 in
      do {
        self \<leftarrow> fd2rbuf st sockfd;
        if rb_rptr self = 0 then Some (([], 0), st)
        else do {
          b \<leftarrow> rb_buf self;
          let len = c_int (rb_wptr self - rb_rptr self);
          bs \<leftarrow> mem_get b (rb_rptr self) len;
          b \<leftarrow> mem_put b 0 bs;
          Some (([], 0), set_rbuf st sockfd (self\<lparr>rb_buf := Some b, rb_rptr := 0, rb_wptr := len\<rparr>))
        }
      })"

definition lreadbuf :: "recvbuf \<Rightarrow> int \<Rightarrow> int \<Rightarrow> (rptr lua_out \<times> recvbuf) option" where
  "lreadbuf st a1 a2 =
     (let sockfd = c_int a1; buflen = c_int a2 in
      do {
        self \<leftarrow> fd2rbuf st sockfd;
        if c_int (rb_wptr self - rb_rptr self) < buflen then Some (([], 0), st)
        else do {
          b \<leftarrow> rb_buf self;
          bs \<leftarrow> mem_get b (rb_rptr self) buflen;
          Some (([LStr bs], 1), set_rbuf st sockfd (self\<lparr>rb_rptr := c_int (rb_rptr self + buflen)\<rparr>))
        }
      })"

section \<open>Integers\<close>

text \<open>The macros \<open>int8\<close>, \<open>int16\<close>, \<open>int32\<close>, \<open>uint16\<close> and \<open>uint32\<close>: the size of the type the
  value is copied into, and its value. \<open>uint32\<close> is defined as \<open>unsigned short\<close>.\<close>

definition lreadint8 :: "recvbuf \<Rightarrow> int \<Rightarrow> (rptr lua_out \<times> recvbuf) option" where
  "lreadint8 st a1 = do { (bs, st) \<leftarrow> read_buf st (c_int a1) 1; Some (([LInt (c_char (le_val bs))], 1), st) }"

definition lreadint16 :: "recvbuf \<Rightarrow> int \<Rightarrow> (rptr lua_out \<times> recvbuf) option" where
  "lreadint16 st a1 = do { (bs, st) \<leftarrow> read_buf st (c_int a1) 2; Some (([LInt (c_short (le_val bs))], 1), st) }"

definition lreadint32 :: "recvbuf \<Rightarrow> int \<Rightarrow> (rptr lua_out \<times> recvbuf) option" where
  "lreadint32 st a1 = do { (bs, st) \<leftarrow> read_buf st (c_int a1) 4; Some (([LInt (c_int (le_val bs))], 1), st) }"

definition lgetint8 :: "recvbuf \<Rightarrow> int \<Rightarrow> rptr lua_out option" where
  "lgetint8 st a1 = do { bs \<leftarrow> get_buf st (c_int a1) 1; Some ([LInt (c_char (le_val bs))], 1) }"

definition lgetuint32 :: "recvbuf \<Rightarrow> int \<Rightarrow> rptr lua_out option" where
  "lgetuint32 st a1 = do { bs \<leftarrow> get_buf st (c_int a1) 2; Some ([LInt (c_ushort (le_val bs))], 1) }"

definition lgetuint16 :: "recvbuf \<Rightarrow> int \<Rightarrow> rptr lua_out option" where
  "lgetuint16 st a1 = do { bs \<leftarrow> get_buf st (c_int a1) 2; Some ([LInt (c_ushort (le_val bs))], 1) }"

definition lgetint16 :: "recvbuf \<Rightarrow> int \<Rightarrow> rptr lua_out option" where
  "lgetint16 st a1 = do { bs \<leftarrow> get_buf st (c_int a1) 2; Some ([LInt (c_short (le_val bs))], 1) }"

definition lgetint32 :: "recvbuf \<Rightarrow> int \<Rightarrow> rptr lua_out option" where
  "lgetint32 st a1 = do { bs \<leftarrow> get_buf st (c_int a1) 4; Some ([LInt (c_int (le_val bs))], 1) }"

section \<open>Creating\<close>

definition recvbuf_create :: "'w os \<Rightarrow> recvbuf \<Rightarrow> int \<Rightarrow> int \<Rightarrow> 'w \<Rightarrow> (int \<times> recvbuf \<times> 'w) option" where
  "recvbuf_create os st sockfd sz w =
     do {
       self \<leftarrow> fd2rbuf st sockfd;
       let reset = (\<lambda>st self w. Some (0, set_rbuf st sockfd (self\<lparr>rb_rptr := 0, rb_wptr := 0\<rparr>), w));
       if rb_buf_len self < sz
       then
         (let (self, st, w) =
                (if rb_buf self \<noteq> None
                 then (let self = self\<lparr>rb_buf_len := 0, rb_buf := None\<rparr>
                       in (self, st\<lparr>mem_total := c_int (mem_total st - rb_buf_len self)\<rparr>, os_free os w))
                 else (self, st, w));
              (ok, w) = os_malloc os (c_size sz) w
          in if \<not> ok then Some (1, set_rbuf st sockfd self, w)
             else
               reset (st\<lparr>mem_total := c_int (mem_total st + sz)\<rparr>)
                 (self\<lparr>rb_buf := Some (map (\<lambda>i. ucast (os_junk os w i)) [0..<nat (c_size sz)]),
                       rb_buf_len := sz\<rparr>) w)
       else reset st self w
     }"

definition rb_lcreate :: "'w os \<Rightarrow> recvbuf \<Rightarrow> int \<Rightarrow> int \<Rightarrow> 'w \<Rightarrow> (rptr lua_out \<times> recvbuf \<times> 'w) option" where
  "rb_lcreate os st a1 a2 w =
     do { (r, st, w) \<leftarrow> recvbuf_create os st (c_int a1) (c_int a2) w;
          Some (if r \<noteq> 0 then ([], 0) else ([LBool True], 1), st, w) }"

section \<open>What the callers do with the pointers\<close>

definition rb_copy_to :: "recvbuf \<Rightarrow> rptr \<Rightarrow> byte list \<Rightarrow> recvbuf option" where
  "rb_copy_to st p bs =
     do { self \<leftarrow> fd2rbuf st (fst p); b \<leftarrow> rb_buf self; b \<leftarrow> mem_put b (snd p) bs;
          Some (set_rbuf st (fst p) (self\<lparr>rb_buf := Some b\<rparr>)) }"

end
