(* ===== verification/Lrecvbuf_Spec.thy ===== *)
theory Lrecvbuf_Spec
  imports Lrecvbuf Byte_Queues
begin

text \<open>
  What the receive buffers promise: the invariant of a buffer, the pending bytes, the effect of
  every operation on them, and the interpretation of \<open>byte_queues\<close>.
\<close>

section \<open>Invariant and pending bytes\<close>

definition rbuf_ok :: "RBuf \<Rightarrow> bool" where
  "rbuf_ok r \<longleftrightarrow> 0 \<le> rb_rptr r \<and> rb_rptr r \<le> rb_wptr r \<and> rb_wptr r \<le> rb_buf_len r \<and> rb_buf_len r \<le> INT_MAX
     \<and> (case rb_buf r of None \<Rightarrow> rb_buf_len r = 0 | Some b \<Rightarrow> length b = nat (rb_buf_len r))"

definition recvbuf_wf :: "recvbuf \<Rightarrow> bool" where
  "recvbuf_wf st \<longleftrightarrow> (\<forall>fd. rbuf_ok (rbufs st fd))"

definition rbuf_bytes :: "RBuf \<Rightarrow> byte list" where
  "rbuf_bytes r = (case rb_buf r of None \<Rightarrow> [] | Some b \<Rightarrow> slice b (rb_rptr r) (rb_wptr r))"

definition recvbuf_stream :: "recvbuf \<Rightarrow> int \<Rightarrow> byte list" where
  "recvbuf_stream st fd = rbuf_bytes (rbufs st fd)"

lemma rbuf_bounds:
  assumes "rbuf_ok r"
  shows "0 \<le> rb_rptr r" "rb_rptr r \<le> rb_wptr r" "rb_wptr r \<le> rb_buf_len r" "rb_buf_len r \<le> INT_MAX"
  using assms by (simp_all add: rbuf_ok_def)

lemma c_int_len: "0 \<le> x \<Longrightarrow> x \<le> y \<Longrightarrow> y \<le> INT_MAX \<Longrightarrow> c_int x = x"
  by (rule c_int_small) simp_all

lemma c_int_room: "0 \<le> a \<Longrightarrow> a \<le> b \<Longrightarrow> b \<le> INT_MAX \<Longrightarrow> c_int (b - a) = b - a"
  by (rule c_int_small) simp_all

lemma recvbuf_init_wf: "recvbuf_wf recvbuf_init"
  by (simp add: recvbuf_wf_def recvbuf_init_def rbuf_ok_def INT_MAX_def)

lemma wf_set_rbuf: "recvbuf_wf st \<Longrightarrow> rbuf_ok r \<Longrightarrow> recvbuf_wf (set_rbuf st fd r)"
  by (simp add: recvbuf_wf_def set_rbuf_def)

lemma stream_set_rbuf [simp]:
  "recvbuf_stream (set_rbuf st fd r) fd' = (if fd' = fd then rbuf_bytes r else recvbuf_stream st fd')"
  by (simp add: recvbuf_stream_def set_rbuf_def)

lemma fd_int: "0 \<le> fd \<Longrightarrow> fd < RB_MAX_SOCKET \<Longrightarrow> c_int fd = fd"
  by (rule c_int_small) (simp_all add: RB_MAX_SOCKET_def INT_MAX_def)

lemma length_rbuf_bytes: "rbuf_ok r \<Longrightarrow> int (length (rbuf_bytes r)) = rb_wptr r - rb_rptr r"
  by (cases "rb_buf r") (auto simp: rbuf_ok_def rbuf_bytes_def length_slice)

section \<open>Reading and writing\<close>

text \<open>Consuming the first \<open>n\<close> pending bytes.\<close>

lemma consume:
  assumes ok: "rbuf_ok r" and n: "0 \<le> n" "n \<le> rb_wptr r - rb_rptr r" and b: "rb_buf r = Some b"
  shows "mem_get b (rb_rptr r) n = Some (take (nat n) (rbuf_bytes r))"
    and "rbuf_ok (r\<lparr>rb_rptr := rb_rptr r + n\<rparr>)"
    and "rbuf_bytes (r\<lparr>rb_rptr := rb_rptr r + n\<rparr>) = drop (nat n) (rbuf_bytes r)"
proof -
  note rb = rbuf_bounds [OF ok]
  have len: "int (length b) = rb_buf_len r" using ok b by (simp add: rbuf_ok_def)
  show "rbuf_ok (r\<lparr>rb_rptr := rb_rptr r + n\<rparr>)" using ok n b by (simp add: rbuf_ok_def)
  have cut: "slice b (rb_rptr r) (rb_rptr r + n) @ slice b (rb_rptr r + n) (rb_wptr r) = slice b (rb_rptr r) (rb_wptr r)"
    using n rb by (intro slice_append) simp_all
  moreover have "length (slice b (rb_rptr r) (rb_rptr r + n)) = nat n" using n rb len by (simp add: length_slice)
  ultimately have "slice b (rb_rptr r) (rb_rptr r + n) = take (nat n) (rbuf_bytes r)"
    by (simp add: rbuf_bytes_def b) (metis append_eq_conv_conj)
  then show "mem_get b (rb_rptr r) n = Some (take (nat n) (rbuf_bytes r))"
    using n rb len by (simp add: mem_get_inside)
  show "rbuf_bytes (r\<lparr>rb_rptr := rb_rptr r + n\<rparr>) = drop (nat n) (rbuf_bytes r)"
    using n rb by (simp add: rbuf_bytes_def b slice_drop)
qed

lemma nonempty_buf: "rbuf_ok r \<Longrightarrow> rb_rptr r < rb_wptr r \<Longrightarrow> \<exists>b. rb_buf r = Some b"
  by (cases "rb_buf r") (auto simp: rbuf_ok_def)

lemma readbuf_law:
  assumes wf: "recvbuf_wf st" and fd: "0 \<le> fd" "fd < RB_MAX_SOCKET"
    and n: "0 < n" "n \<le> int (length (recvbuf_stream st fd))"
  shows "\<exists>st'. lreadbuf st fd n = Some (([LStr (take (nat n) (recvbuf_stream st fd))], 1), st') \<and> recvbuf_wf st'
    \<and> recvbuf_stream st' fd = drop (nat n) (recvbuf_stream st fd)
    \<and> (\<forall>fd'. fd' \<noteq> fd \<longrightarrow> recvbuf_stream st' fd' = recvbuf_stream st fd')"
proof -
  let ?r = "rbufs st fd"
  have ok: "rbuf_ok ?r" using wf by (simp add: recvbuf_wf_def)
  note rb = rbuf_bounds [OF ok]
  have n': "n \<le> rb_wptr ?r - rb_rptr ?r" using n(2) length_rbuf_bytes [OF ok] by (simp add: recvbuf_stream_def)
  with n(1) nonempty_buf [OF ok] obtain b where b: "rb_buf ?r = Some b" by auto
  note c = consume [OF ok _ n' b]
  have ci: "c_int n = n" "c_int (rb_wptr ?r - rb_rptr ?r) = rb_wptr ?r - rb_rptr ?r" "c_int (rb_rptr ?r + n) = rb_rptr ?r + n"
    using n n' rb by (auto intro!: c_int_small)
  have "lreadbuf st fd n = Some (([LStr (take (nat n) (rbuf_bytes ?r))], 1), set_rbuf st fd (?r\<lparr>rb_rptr := rb_rptr ?r + n\<rparr>))"
    using fd n n' b c(1) ci by (simp add: lreadbuf_def fd_int fd2rbuf_def Let_def)
  moreover have "recvbuf_wf (set_rbuf st fd (?r\<lparr>rb_rptr := rb_rptr ?r + n\<rparr>))"
    using wf c(2) n(1) by (intro wf_set_rbuf) simp_all
  ultimately show ?thesis using c(3) n(1) by (simp add: recvbuf_stream_def [of st fd])
qed

text \<open>A writer of the protocol: as many bytes as there is room for behind the write pointer, then
  \<open>wskip\<close>; a reader: \<open>readbuf\<close> of at most what is pending.\<close>

definition rb_put :: "recvbuf \<Rightarrow> int \<Rightarrow> byte list \<Rightarrow> (bool \<times> recvbuf) option" where
  "rb_put st fd bs =
     (case lbufremain st fd of
        ([LInt room], _) \<Rightarrow>
          if room < int (length bs) \<or> bs = [] then Some (False, st)
          else do {
            out \<leftarrow> lgetwptr st fd;
            case out of
              ([LPtr p], _) \<Rightarrow> do { st \<leftarrow> rb_copy_to st p bs; (_, st) \<leftarrow> lwskip st fd (int (length bs)); Some (True, st) }
            | _ \<Rightarrow> None
          }
      | _ \<Rightarrow> None)"

definition rb_get :: "recvbuf \<Rightarrow> int \<Rightarrow> nat \<Rightarrow> (byte list \<times> recvbuf) option" where
  "rb_get st fd k =
     (case rb_ldatalen st fd of
        ([LInt n], _) \<Rightarrow>
          if n = 0 \<or> k = 0 then Some ([], st)
          else do {
            (out, st) \<leftarrow> lreadbuf st fd (min (int k) n);
            case out of ([LStr bs], _) \<Rightarrow> Some (bs, st) | _ \<Rightarrow> None
          }
      | _ \<Rightarrow> None)"

lemma rb_put_law:
  assumes wf: "recvbuf_wf st" and fd: "0 < fd" "fd < RB_MAX_SOCKET"
  shows "\<exists>ok st'. rb_put st fd bs = Some (ok, st') \<and> recvbuf_wf st'
    \<and> recvbuf_stream st' fd = recvbuf_stream st fd @ (if ok then bs else [])
    \<and> (\<forall>fd'. fd' \<noteq> fd \<longrightarrow> recvbuf_stream st' fd' = recvbuf_stream st fd')"
proof -
  let ?r = "rbufs st fd"
  have ok: "rbuf_ok ?r" using wf by (simp add: recvbuf_wf_def)
  note rb = rbuf_bounds [OF ok]
  have room: "lbufremain st fd = ([LInt (rb_buf_len ?r - rb_wptr ?r)], 1)"
    using fd rb by (simp add: lbufremain_def fd_int bad_sockfd_def c_int_room)
  show ?thesis
  proof (cases "rb_buf_len ?r - rb_wptr ?r < int (length bs) \<or> bs = []")
    case True
    then show ?thesis using wf room by (auto simp: rb_put_def)
  next
    case False
    then have ne: "bs \<noteq> []" and fit: "int (length bs) \<le> rb_buf_len ?r - rb_wptr ?r" by auto
    have "0 < rb_buf_len ?r" using ne fit rb by (cases bs) auto
    then obtain b where b: "rb_buf ?r = Some b" using ok by (cases "rb_buf ?r") (auto simp: rbuf_ok_def)
    have len: "int (length b) = rb_buf_len ?r" using ok b rb by (simp add: rbuf_ok_def)
    obtain b' where b': "mem_put b (rb_wptr ?r) bs = Some b'"
      using mem_put_defined [of b "rb_wptr ?r" bs] rb fit len by auto
    let ?r' = "?r\<lparr>rb_buf := Some b', rb_wptr := rb_wptr ?r + int (length bs)\<rparr>"
    have ci: "c_int (int (length bs)) = int (length bs)"
      "c_int (rb_wptr ?r + int (length bs)) = rb_wptr ?r + int (length bs)"
      using rb fit by (auto intro!: c_int_small)
    have run: "rb_put st fd bs = Some (True, set_rbuf st fd ?r')"
      using fd room False b b' ci
      by (simp add: rb_put_def lgetwptr_def rb_copy_to_def lwskip_def fd_int fd2rbuf_def set_rbuf_def Let_def)
    have ok': "rbuf_ok ?r'" using ok b fit mem_put_length [OF b'] by (simp add: rbuf_ok_def)
    have "slice b' (rb_rptr ?r) (rb_wptr ?r) = slice b (rb_rptr ?r) (rb_wptr ?r)"
      by (rule mem_put_below [OF b']) (use rb in simp_all)
    moreover have "slice b' (rb_rptr ?r) (rb_wptr ?r) @ slice b' (rb_wptr ?r) (rb_wptr ?r + int (length bs))
        = slice b' (rb_rptr ?r) (rb_wptr ?r + int (length bs))" using rb by (intro slice_append) simp_all
    ultimately have "rbuf_bytes ?r' = rbuf_bytes ?r @ bs"
      using b mem_put_same [OF b'] by (simp add: rbuf_bytes_def)
    then have "recvbuf_stream (set_rbuf st fd ?r') fd = recvbuf_stream st fd @ bs"
      by (simp add: recvbuf_stream_def set_rbuf_def)
    with run wf_set_rbuf [OF wf ok', of fd] show ?thesis
      by (intro exI [of _ True] exI [of _ "set_rbuf st fd ?r'"]) simp
  qed
qed

lemma rb_get_law:
  assumes wf: "recvbuf_wf st" and fd: "0 < fd" "fd < RB_MAX_SOCKET"
  shows "\<exists>bs st'. rb_get st fd k = Some (bs, st') \<and> recvbuf_wf st'
    \<and> recvbuf_stream st fd = bs @ recvbuf_stream st' fd \<and> length bs \<le> k
    \<and> (\<forall>fd'. fd' \<noteq> fd \<longrightarrow> recvbuf_stream st' fd' = recvbuf_stream st fd')"
proof -
  let ?r = "rbufs st fd"
  have ok: "rbuf_ok ?r" using wf by (simp add: recvbuf_wf_def)
  define n where "n = int (length (recvbuf_stream st fd))"
  have n: "rb_wptr ?r - rb_rptr ?r = n" using length_rbuf_bytes [OF ok] by (simp add: n_def recvbuf_stream_def)
  have dl: "rb_ldatalen st fd = ([LInt n], 1)"
    using fd rbuf_bounds [OF ok] c_int_room [of "rb_rptr ?r" "rb_wptr ?r"] n
    by (simp add: rb_ldatalen_def fd_int bad_sockfd_def)
  show ?thesis
  proof (cases "n = 0 \<or> k = 0")
    case True
    then have "rb_get st fd k = Some ([], st)" using dl by (simp add: rb_get_def)
    with wf show ?thesis by simp
  next
    case False
    then have "0 < min (int k) n" "min (int k) n \<le> int (length (recvbuf_stream st fd))" by (auto simp: n_def)
    from readbuf_law [OF wf _ fd(2) this] fd(1) obtain st' where
      r: "lreadbuf st fd (min (int k) n) = Some (([LStr (take (nat (min (int k) n)) (recvbuf_stream st fd))], 1), st')"
        "recvbuf_wf st'" "recvbuf_stream st' fd = drop (nat (min (int k) n)) (recvbuf_stream st fd)"
        "\<forall>fd'. fd' \<noteq> fd \<longrightarrow> recvbuf_stream st' fd' = recvbuf_stream st fd'" by auto
    with False dl show ?thesis by (simp add: rb_get_def)
  qed
qed

definition rb_good_socket :: "int \<Rightarrow> bool" where
  "rb_good_socket fd \<longleftrightarrow> 0 < fd \<and> fd < RB_MAX_SOCKET"

interpretation rb: byte_queues recvbuf_wf recvbuf_stream rb_good_socket "\<lambda>_. True" rb_put rb_get
  by unfold_locales (use rb_put_law rb_get_law in \<open>auto simp: rb_good_socket_def\<close>)

section \<open>Searching\<close>

lemma strncmp_eq_slice:
  "cstring_ok str \<Longrightarrow> 0 \<le> i \<Longrightarrow> i + int (length str) \<le> int (length b) \<Longrightarrow>
   strncmp_eq b i str = Some (slice b i (i + int (length str)) = str)"
proof (induction str arbitrary: i)
  case Nil
  then show ?case by simp
next
  case (Cons c cs)
  have c: "c \<noteq> 0" "cstring_ok cs" using Cons.prems(1) by (auto simp: cstring_ok_def)
  have i: "i < int (length b)" using Cons.prems(2,3) by simp
  have ih: "strncmp_eq b (i + 1) cs = Some (slice b (i + 1) (i + 1 + int (length cs)) = cs)"
    using Cons.prems c(2) by (intro Cons.IH) simp_all
  have "slice b i (i + 1) @ slice b (i + 1) (i + 1 + int (length cs)) = slice b i (i + 1 + int (length cs))"
    using Cons.prems(2) by (intro slice_append) simp_all
  moreover have "slice b i (i + 1) = [b ! nat i]"
    using i Cons.prems(2) by (simp add: slice_def take_Suc_conv_app_nth hd_drop_conv_nth take_Suc)
  ultimately have "slice b i (i + int (length (c # cs))) = b ! nat i # slice b (i + 1) (i + 1 + int (length cs))"
    by (simp add: algebra_simps)
  with c i ih Cons.prems(2) show ?case by simp
qed

lemma find_loop_first:
  assumes "cstring_ok str" "0 \<le> i" "i + int k + int (length str) \<le> int (length b) + 1"
  shows "find_loop b i k str = Some (map_option (\<lambda>j. i + int j)
    (List.find (\<lambda>j. slice b (i + int j) (i + int j + int (length str)) = str) [0..<k]))"
  using assms
proof (induction k arbitrary: i)
  case (Suc k)
  have e: "strncmp_eq b i str = Some (slice b i (i + int (length str)) = str)"
    using Suc.prems by (intro strncmp_eq_slice) simp_all
  have ih: "find_loop b (i + 1) k str = Some (map_option (\<lambda>j. i + 1 + int j)
      (List.find (\<lambda>j. slice b (i + 1 + int j) (i + 1 + int j + int (length str)) = str) [0..<k]))"
    using Suc.prems by (intro Suc.IH) simp_all
  have up: "[0..<Suc k] = 0 # map Suc [0..<k]" by (simp add: upt_conv_Cons map_Suc_upt del: upt_Suc)
  have fm: "List.find P (map Suc xs) = map_option Suc (List.find (P \<circ> Suc) xs)" for P and xs :: "nat list"
    by (induction xs) simp_all
  show ?case
    unfolding up fm List.find.simps using e ih
    by (auto simp: o_def option.map_comp algebra_simps)
qed simp

section \<open>Properties\<close>

text \<open>C14: over any sequence of writes behind the write pointer that fit into the room left and
  of reads, on any sockets, nothing is undefined and on every socket the bytes read followed by
  the bytes still pending are the bytes that were pending followed by those written, in
  order.\<close>

theorem recv_fifo:
  assumes "recvbuf_wf st" "\<forall>op \<in> set ops. case op of Put fd bs \<Rightarrow> rb_good_socket fd | Take fd k \<Rightarrow> rb_good_socket fd"
  shows "\<exists>ins outs st'. run_ops rb_put rb_get st ops = Some (ins, outs, st') \<and> recvbuf_wf st'
    \<and> (\<forall>fd. recvbuf_stream st fd @ bytes_on fd ins = bytes_on fd outs @ recvbuf_stream st' fd)"
proof -
  have "\<forall>op \<in> set ops. rb.good_op op"
  proof
    fix op assume "op \<in> set ops"
    with assms(2) show "rb.good_op op" by (cases op) auto
  qed
  with assms(1) show ?thesis by (rule rb.run_fifo)
qed

definition demo_recv :: recvbuf where
  "demo_recv = recvbuf_init\<lparr>rbufs := (rbufs recvbuf_init)(7 :=
     \<lparr>rb_buf_len = 16, rb_rptr = 2, rb_wptr = 8, rb_buf = Some [1, 2, 65, 66, 13, 10, 67, 68, 0, 0, 0, 0, 0, 0, 0, 0]\<rparr>)\<rparr>"

lemma demo_recv_wf: "recvbuf_wf demo_recv"
  by (simp add: recvbuf_wf_def demo_recv_def recvbuf_init_def rbuf_ok_def INT_MAX_def)

lemma demo_recv_stream: "recvbuf_stream demo_recv 7 = [65, 66, 13, 10, 67, 68]"
  by (simp add: recvbuf_stream_def demo_recv_def rbuf_bytes_def slice_def)

theorem recv_fifo_witness:
  "\<exists>ins outs st'. run_ops rb_put rb_get demo_recv [Put 7 [1, 2], Take 7 3, Put 8 [5], Take 7 20] = Some (ins, outs, st')
    \<and> recvbuf_wf st' \<and> (\<forall>fd. recvbuf_stream demo_recv fd @ bytes_on fd ins = bytes_on fd outs @ recvbuf_stream st' fd)"
  by (rule recv_fifo [OF demo_recv_wf]) (simp add: rb_good_socket_def RB_MAX_SOCKET_def)

text \<open>\<open>buf2line\<close> moves the pending bytes to the start of the buffer: they stay the same, the
  read position becomes zero and the room behind the write position grows by what had been
  read.\<close>

theorem buf2line_moves:
  assumes wf: "recvbuf_wf st" and fd: "0 \<le> fd" "fd < RB_MAX_SOCKET"
  shows "\<exists>st'. lbuf2line st fd = Some (([], 0), st') \<and> recvbuf_wf st'
    \<and> (\<forall>fd'. recvbuf_stream st' fd' = recvbuf_stream st fd') \<and> rb_rptr (rbufs st' fd) = 0
    \<and> rb_buf_len (rbufs st' fd) - rb_wptr (rbufs st' fd)
        = rb_buf_len (rbufs st fd) - rb_wptr (rbufs st fd) + rb_rptr (rbufs st fd)"
proof -
  let ?r = "rbufs st fd"
  have ok: "rbuf_ok ?r" using wf by (simp add: recvbuf_wf_def)
  note rb = rbuf_bounds [OF ok]
  show ?thesis
  proof (cases "rb_rptr ?r = 0")
    case True
    then have "lbuf2line st fd = Some (([], 0), st)" using fd by (simp add: lbuf2line_def fd_int fd2rbuf_def)
    with wf True show ?thesis by simp
  next
    case False
    then obtain b where b: "rb_buf ?r = Some b" using ok by (cases "rb_buf ?r") (auto simp: rbuf_ok_def)
    have len: "int (length b) = rb_buf_len ?r" using ok b rb by (simp add: rbuf_ok_def)
    define n where "n = rb_wptr ?r - rb_rptr ?r"
    have n: "0 \<le> n" "c_int n = n" using rb by (simp_all add: n_def c_int_room)
    define bs where "bs = slice b (rb_rptr ?r) (rb_wptr ?r)"
    have get: "mem_get b (rb_rptr ?r) n = Some bs"
      using rb len by (auto simp: n_def bs_def mem_get_inside)
    have lbs: "int (length bs) = n" using mem_get_length [OF get] n(1) by simp
    obtain b' where b': "mem_put b 0 bs = Some b'"
      using mem_put_defined [of b 0 bs] rb len lbs by (auto simp: n_def)
    let ?r' = "?r\<lparr>rb_buf := Some b', rb_rptr := 0, rb_wptr := n\<rparr>"
    have run: "lbuf2line st fd = Some (([], 0), set_rbuf st fd ?r')"
      using fd False b get b' n by (simp add: lbuf2line_def fd_int fd2rbuf_def Let_def n_def)
    have "rbuf_ok ?r'" using ok b mem_put_length [OF b'] rb n by (simp add: rbuf_ok_def n_def)
    moreover have "rbuf_bytes ?r' = rbuf_bytes ?r"
      using mem_put_same [OF b'] lbs b by (simp add: rbuf_bytes_def bs_def)
    ultimately have "recvbuf_wf (set_rbuf st fd ?r')" "\<forall>fd'. recvbuf_stream (set_rbuf st fd ?r') fd' = recvbuf_stream st fd'"
      using wf by (simp_all add: recvbuf_stream_def set_rbuf_def recvbuf_wf_def)
    moreover have "rbufs (set_rbuf st fd ?r') fd = ?r'" by (simp add: set_rbuf_def)
    ultimately show ?thesis using run by (intro exI [of _ "set_rbuf st fd ?r'"]) (simp add: n_def)
  qed
qed

theorem buf2line_moves_witness:
  "\<exists>st'. lbuf2line demo_recv 7 = Some (([], 0), st') \<and> recvbuf_wf st'
    \<and> (\<forall>fd'. recvbuf_stream st' fd' = recvbuf_stream demo_recv fd') \<and> rb_rptr (rbufs st' 7) = 0
    \<and> rb_buf_len (rbufs st' 7) - rb_wptr (rbufs st' 7)
        = rb_buf_len (rbufs demo_recv 7) - rb_wptr (rbufs demo_recv 7) + rb_rptr (rbufs demo_recv 7)"
  by (rule buf2line_moves [OF demo_recv_wf]) (simp_all add: RB_MAX_SOCKET_def)

text \<open>an integer that was received in little-endian order is read back: \<open>readint32\<close> returns
  the 32-bit value of the first four pending bytes and consumes them.\<close>

theorem readint32_value:
  assumes wf: "recvbuf_wf st" and fd: "0 \<le> fd" "fd < RB_MAX_SOCKET"
    and s: "recvbuf_stream st fd = le_bytes 4 v @ rest"
  shows "\<exists>st'. lreadint32 st fd = Some (([LInt (c_int v)], 1), st') \<and> recvbuf_wf st' \<and> recvbuf_stream st' fd = rest
    \<and> lgetint32 st fd = Some ([LInt (c_int v)], 1)"
proof -
  let ?r = "rbufs st fd"
  have ok: "rbuf_ok ?r" using wf by (simp add: recvbuf_wf_def)
  note rb = rbuf_bounds [OF ok]
  have "int (length (rbuf_bytes ?r)) = 4 + int (length rest)" using s by (simp add: recvbuf_stream_def)
  then have n: "4 \<le> rb_wptr ?r - rb_rptr ?r" using length_rbuf_bytes [OF ok] by simp
  then obtain b where b: "rb_buf ?r = Some b" using nonempty_buf [OF ok] by auto
  note c = consume [OF ok _ n b]
  have bytes: "take (nat 4) (rbuf_bytes ?r) = le_bytes 4 v" "drop (nat 4) (rbuf_bytes ?r) = rest"
    using s by (simp_all add: recvbuf_stream_def)
  have ci: "c_int (rb_rptr ?r + 4) = rb_rptr ?r + 4" using rb n by (intro c_int_small) simp_all
  have v: "c_int (le_val (le_bytes 4 v)) = c_int v" by (rule le_int32_roundtrip)
  have run: "lreadint32 st fd = Some (([LInt (c_int v)], 1), set_rbuf st fd (?r\<lparr>rb_rptr := rb_rptr ?r + 4\<rparr>))"
    using fd b c(1) bytes ci v by (simp add: lreadint32_def read_buf_def fd_int fd2rbuf_def del: le_bytes.simps)
  moreover have "lgetint32 st fd = Some ([LInt (c_int v)], 1)"
    using fd b c(1) bytes v by (simp add: lgetint32_def get_buf_def fd_int fd2rbuf_def del: le_bytes.simps)
  moreover have "recvbuf_wf (set_rbuf st fd (?r\<lparr>rb_rptr := rb_rptr ?r + 4\<rparr>))" using wf c(2) by (intro wf_set_rbuf) simp_all
  ultimately show ?thesis using c(3) bytes(2) by auto
qed

definition demo_int :: recvbuf where
  "demo_int = recvbuf_init\<lparr>rbufs := (rbufs recvbuf_init)(7 :=
     \<lparr>rb_buf_len = 8, rb_rptr = 0, rb_wptr = 5, rb_buf = Some [1, 0, 1, 0, 9, 0, 0, 0]\<rparr>)\<rparr>"

lemma demo_int_wf: "recvbuf_wf demo_int"
  by (simp add: recvbuf_wf_def demo_int_def recvbuf_init_def rbuf_ok_def INT_MAX_def)

lemma demo_int_stream: "recvbuf_stream demo_int 7 = le_bytes 4 65537 @ [9]"
  by (simp add: recvbuf_stream_def demo_int_def rbuf_bytes_def slice_def le_bytes_numeral)

theorem readint32_value_witness:
  "\<exists>st'. lreadint32 demo_int 7 = Some (([LInt (c_int 65537)], 1), st') \<and> recvbuf_wf st' \<and> recvbuf_stream st' 7 = [9]
    \<and> lgetint32 demo_int 7 = Some ([LInt (c_int 65537)], 1)"
  by (rule readint32_value [OF demo_int_wf _ _ demo_int_stream]) (simp_all add: RB_MAX_SOCKET_def)

text \<open>\<open>getuint32\<close> returns only the low sixteen bits of the four-byte integer that is pending,
  because the macro \<open>uint32\<close> is defined as \<open>unsigned short\<close>.\<close>

theorem getuint32_truncates:
  assumes wf: "recvbuf_wf st" and fd: "0 \<le> fd" "fd < RB_MAX_SOCKET"
    and s: "recvbuf_stream st fd = le_bytes 4 v @ rest"
  shows "lgetuint32 st fd = Some ([LInt (v mod 65536)], 1)"
proof -
  let ?r = "rbufs st fd"
  have ok: "rbuf_ok ?r" using wf by (simp add: recvbuf_wf_def)
  have "int (length (rbuf_bytes ?r)) = 4 + int (length rest)" using s by (simp add: recvbuf_stream_def)
  then have n: "2 \<le> rb_wptr ?r - rb_rptr ?r" using length_rbuf_bytes [OF ok] by simp
  then obtain b where b: "rb_buf ?r = Some b" using nonempty_buf [OF ok] by auto
  have "take (nat 2) (rbuf_bytes ?r) = le_bytes 2 v" using s by (simp add: recvbuf_stream_def le_bytes_numeral)
  with consume(1) [OF ok _ n b] have get: "mem_get b (rb_rptr ?r) 2 = Some (le_bytes 2 v)" by simp
  have "c_ushort (le_val (le_bytes 2 v)) = v mod 65536"
    by (simp add: le_val_le_bytes c_ushort_def take_bit_eq_mod del: le_bytes.simps)
  with get fd b show ?thesis by (simp add: lgetuint32_def get_buf_def fd_int fd2rbuf_def del: le_bytes.simps)
qed

theorem getuint32_truncates_witness: "lgetuint32 demo_int 7 = Some ([LInt (65537 mod 65536)], 1)"
  by (rule getuint32_truncates [OF demo_int_wf _ _ demo_int_stream]) (simp_all add: RB_MAX_SOCKET_def)

text \<open>the integer readers do not look at how many bytes are pending: with nothing pending but
  four more bytes in the buffer, \<open>readint32\<close> returns a value and leaves the read position behind
  the write position, so the buffer is no longer well-formed.\<close>

theorem readint32_past_end:
  assumes wf: "recvbuf_wf st" and fd: "0 \<le> fd" "fd < RB_MAX_SOCKET"
    and e: "recvbuf_stream st fd = []" "rb_wptr (rbufs st fd) + 4 \<le> rb_buf_len (rbufs st fd)"
  shows "\<exists>v st'. lreadint32 st fd = Some (([LInt v], 1), st') \<and> rb_wptr (rbufs st' fd) < rb_rptr (rbufs st' fd)
    \<and> \<not> recvbuf_wf st'"
proof -
  let ?r = "rbufs st fd"
  have ok: "rbuf_ok ?r" using wf by (simp add: recvbuf_wf_def)
  note rb = rbuf_bounds [OF ok]
  have eq: "rb_wptr ?r = rb_rptr ?r" using length_rbuf_bytes [OF ok] e(1) by (simp add: recvbuf_stream_def)
  obtain b where b: "rb_buf ?r = Some b" using ok e(2) by (cases "rb_buf ?r") (auto simp: rbuf_ok_def)
  have "int (length b) = rb_buf_len ?r" using ok b rb by (simp add: rbuf_ok_def)
  then obtain bs where get: "mem_get b (rb_rptr ?r) 4 = Some bs" using rb e(2) eq by (simp add: mem_get_def)
  let ?r' = "?r\<lparr>rb_rptr := rb_rptr ?r + 4\<rparr>"
  have "c_int (rb_rptr ?r + 4) = rb_rptr ?r + 4" using rb e(2) eq by (intro c_int_small) simp_all
  then have "lreadint32 st fd = Some (([LInt (c_int (le_val bs))], 1), set_rbuf st fd ?r')"
    using fd b get by (simp add: lreadint32_def read_buf_def fd_int fd2rbuf_def)
  moreover have "rbufs (set_rbuf st fd ?r') fd = ?r'" by (simp add: set_rbuf_def)
  moreover have "\<not> recvbuf_wf (set_rbuf st fd ?r')"
    using eq unfolding recvbuf_wf_def by (intro notI) (drule spec [of _ fd], simp add: set_rbuf_def rbuf_ok_def)
  ultimately show ?thesis using eq by (intro exI [of _ "c_int (le_val bs)"] exI [of _ "set_rbuf st fd ?r'"]) simp
qed

definition demo_fresh :: recvbuf where
  "demo_fresh = recvbuf_init\<lparr>rbufs := (rbufs recvbuf_init)(7 :=
     \<lparr>rb_buf_len = 8, rb_rptr = 0, rb_wptr = 0, rb_buf = Some [1, 0, 1, 0, 9, 0, 0, 0]\<rparr>)\<rparr>"

theorem readint32_past_end_witness:
  "\<exists>v st'. lreadint32 demo_fresh 7 = Some (([LInt v], 1), st') \<and> rb_wptr (rbufs st' 7) < rb_rptr (rbufs st' 7)
    \<and> \<not> recvbuf_wf st'"
  by (rule readint32_past_end)
     (simp_all add: RB_MAX_SOCKET_def demo_fresh_def recvbuf_wf_def recvbuf_init_def rbuf_ok_def INT_MAX_def
       recvbuf_stream_def rbuf_bytes_def)

text \<open>\<open>find\<close> with a pattern without NUL bytes that is shorter than what is pending, and a buffer
  with room for a pattern at the last pending byte, returns the offset of the first position from
  the start position on, among the pending ones, at which the buffer holds the pattern.\<close>

theorem find_first:
  assumes wf: "recvbuf_wf st" and fd: "0 \<le> fd" "fd < RB_MAX_SOCKET" and b: "rb_buf (rbufs st fd) = Some b"
    and str: "cstring_ok str" "length str < length (recvbuf_stream st fd)"
    and room: "rb_wptr (rbufs st fd) + int (length str) \<le> rb_buf_len (rbufs st fd) + 1"
    and start: "start \<le> length (recvbuf_stream st fd)" and r: "r = rb_rptr (rbufs st fd)"
  shows "lfind st fd str (Some (int start)) = Some
    (case List.find (\<lambda>j. slice b (r + int j) (r + int j + int (length str)) = str)
            [start..<length (recvbuf_stream st fd)] of
       None \<Rightarrow> ([], 0) | Some j \<Rightarrow> ([LInt (int j)], 1))"
proof -
  let ?r = "rbufs st fd"
  define n where "n = length (recvbuf_stream st fd)"
  have ok: "rbuf_ok ?r" using wf by (simp add: recvbuf_wf_def)
  note rb = rbuf_bounds [OF ok]
  have n: "rb_wptr ?r = r + int n" using length_rbuf_bytes [OF ok] r by (simp add: n_def recvbuf_stream_def)
  have len: "int (length b) = rb_buf_len ?r" using ok b rb by (simp add: rbuf_ok_def)
  have ci: "c_int (int (length str)) = int (length str)" "c_int (int start) = int start"
    "c_int (r + int (length str)) = r + int (length str)" "c_int (r + int start) = r + int start"
    using rb n r str(2) start by (auto intro!: c_int_small simp: n_def)
  have up: "[start..<n] = map (\<lambda>j. start + j) [0..<n - start]"
    using start map_add_upt [of start "n - start"] by (simp add: n_def add.commute)
  have fm: "List.find P (map (\<lambda>j. start + j) xs) = map_option (\<lambda>j. start + j) (List.find (\<lambda>j. P (start + j)) xs)" for P xs
    by (induction xs) simp_all
  let ?f = "List.find (\<lambda>j. slice b (r + int start + int j) (r + int start + int j + int (length str)) = str) [0..<n - start]"
  have loop: "find_loop b (r + int start) (n - start) str = Some (map_option (\<lambda>j. r + int start + int j) ?f)"
    using str(1) by (rule find_loop_first) (use rb r room len n start n_def in auto)
  have res: "c_int (r + int start + int j - r) = int start + int j" if "?f = Some j" for j
  proof -
    from that have "j < n - start" by (auto simp: find_Some_iff)
    then show ?thesis using rb n r by (intro trans [OF c_int_small]) (auto)
  qed
  have lhs: "lfind st fd str (Some (int start)) = Some (case ?f of None \<Rightarrow> ([], 0) | Some j \<Rightarrow> ([LInt (int start + int j)], 1))"
  proof (cases "n \<le> start")
    case True
    then show ?thesis using fd n r ci str(2)
      by (simp add: lfind_def fd_int fd2rbuf_def Let_def n_def)
  next
    case False
    then have "nat (rb_wptr ?r - (r + int start)) = n - start" using n by simp
    with False fd n r ci str(2) b loop res show ?thesis
      by (simp add: lfind_def fd_int fd2rbuf_def Let_def n_def split: option.split)
  qed
  show ?thesis
    unfolding lhs n_def [symmetric] up fm by (auto simp: algebra_simps split: option.split)
qed

theorem find_first_witness:
  "lfind demo_recv 7 [13, 10] (Some (int 0)) = Some
    (case List.find (\<lambda>j. slice [1, 2, 65, 66, 13, 10, 67, 68, 0, 0, 0, 0, 0, 0, 0, 0] (2 + int j) (2 + int j + int (length [13, 10 :: byte])) = [13, 10])
            [0..<length (recvbuf_stream demo_recv 7)] of
       None \<Rightarrow> ([], 0) | Some j \<Rightarrow> ([LInt (int j)], 1))"
  by (rule find_first [OF demo_recv_wf])
     (simp_all add: demo_recv_stream RB_MAX_SOCKET_def, simp_all add: demo_recv_def cstring_ok_def)

text \<open>\<open>find\<close> never finds a pattern that is all that is pending: the test before the loop gives up
  when the pattern is as long as the pending bytes.\<close>

theorem find_misses_whole:
  assumes wf: "recvbuf_wf st" and fd: "0 \<le> fd" "fd < RB_MAX_SOCKET" and s: "recvbuf_stream st fd = str"
  shows "lfind st fd str a3 = Some ([], 0)"
proof -
  let ?r = "rbufs st fd"
  have ok: "rbuf_ok ?r" using wf by (simp add: recvbuf_wf_def)
  note rb = rbuf_bounds [OF ok]
  have n: "int (length str) = rb_wptr ?r - rb_rptr ?r" using length_rbuf_bytes [OF ok] s by (simp add: recvbuf_stream_def)
  have ci: "c_int (int (length str)) = int (length str)" "c_int (rb_rptr ?r + int (length str)) = rb_wptr ?r"
    using rb n by (auto intro!: c_int_small trans [OF c_int_small])
  then show ?thesis using fd by (simp add: lfind_def fd_int fd2rbuf_def)
qed

theorem find_misses_whole_witness: "lfind demo_recv 7 [65, 66, 13, 10, 67, 68] None = Some ([], 0)"
  by (rule find_misses_whole [OF demo_recv_wf]) (simp_all add: RB_MAX_SOCKET_def demo_recv_stream)

text \<open>creating a socket's buffer with a size of at least zero returns zero with an empty,
  well-formed buffer of at least that size, keeping a larger one; or it returns one because
  \<open>malloc\<close> failed, and then the socket has no buffer. Other sockets are not touched. Whenever a
  buffer is replaced the new size is added to \<open>mem_total\<close> and nothing is subtracted for the old
  one.\<close>

theorem recvbuf_create_spec:
  assumes wf: "recvbuf_wf st" and fd: "0 \<le> fd" "fd < RB_MAX_SOCKET" and sz: "0 \<le> sz" "sz \<le> INT_MAX"
    and mt: "in_int (mem_total st)"
  shows "\<exists>r st' w'. recvbuf_create os st fd sz w = Some (r, st', w') \<and> (\<forall>fd'. fd' \<noteq> fd \<longrightarrow> rbufs st' fd' = rbufs st fd')
    \<and> (if r = 0
       then recvbuf_wf st' \<and> recvbuf_stream st' fd = [] \<and> rb_buf_len (rbufs st' fd) = max sz (rb_buf_len (rbufs st fd))
         \<and> mem_total st' = (if rb_buf_len (rbufs st fd) < sz then c_int (mem_total st + sz) else mem_total st)
       else r = 1 \<and> rb_buf (rbufs st' fd) = None \<and> rb_buf_len (rbufs st' fd) = 0 \<and> mem_total st' = mem_total st)"
proof -
  let ?r = "rbufs st fd"
  have ok: "rbuf_ok ?r" using wf by (simp add: recvbuf_wf_def)
  note rb = rbuf_bounds [OF ok]
  have mt': "c_int (mem_total st) = mem_total st" using mt by (rule c_int_id)
  show ?thesis
  proof (cases "rb_buf_len ?r < sz")
    case False
    let ?r' = "?r\<lparr>rb_rptr := 0, rb_wptr := 0\<rparr>"
    have "recvbuf_create os st fd sz w = Some (0, set_rbuf st fd ?r', w)"
      using fd False by (simp add: recvbuf_create_def fd2rbuf_def Let_def)
    moreover have "recvbuf_wf (set_rbuf st fd ?r')"
      using wf ok by (intro wf_set_rbuf) (auto simp: rbuf_ok_def split: option.splits)
    moreover have "rbuf_bytes ?r' = []" by (simp add: rbuf_bytes_def split: option.split)
    ultimately show ?thesis using False
      by (intro exI [of _ 0] exI [of _ "set_rbuf st fd ?r'"] exI [of _ w]) (simp add: recvbuf_stream_def set_rbuf_def)
  next
    case True
    define w0 where "w0 = (if rb_buf ?r \<noteq> None then os_free os w else w)"
    obtain okm w1 where m: "os_malloc os (c_size sz) w0 = (okm, w1)" by fastforce
    let ?z = "?r\<lparr>rb_buf_len := 0, rb_buf := None\<rparr>"
    have r0: "?z = ?r" if "rb_buf ?r = None"
      using that ok by (cases ?r) (auto simp: rbuf_ok_def)
    have cs: "c_size sz = sz" using sz by (intro c_size_id) (simp_all add: INT_MAX_def)
    show ?thesis
    proof (cases okm)
      case False
      have "recvbuf_create os st fd sz w = Some (1, set_rbuf st fd ?z, w1)"
      proof (cases "rb_buf ?r = None")
        case b: True
        have "recvbuf_create os st fd sz w = Some (1, set_rbuf st fd ?r, w1)"
          using fd True False m b by (simp add: recvbuf_create_def fd2rbuf_def Let_def w0_def)
        then show ?thesis by (simp only: r0 [OF b])
      next
        case b: False
        with b fd True False m mt' show ?thesis by (simp add: recvbuf_create_def fd2rbuf_def Let_def w0_def)
      qed
      then show ?thesis
        by (intro exI [of _ 1] exI [of _ "set_rbuf st fd ?z"] exI [of _ w1]) (simp add: set_rbuf_def)
    next
      case ok1: True
      let ?b = "map (\<lambda>i. ucast (os_junk os w1 i)) [0..<nat sz] :: block"
      let ?r' = "\<lparr>rb_buf_len = sz, rb_rptr = 0, rb_wptr = 0, rb_buf = Some ?b\<rparr>"
      let ?st = "set_rbuf (st\<lparr>mem_total := c_int (mem_total st + sz)\<rparr>) fd ?r'"
      have "recvbuf_create os st fd sz w = Some (0, ?st, w1)"
      proof -
        have upd: "?r\<lparr>rb_buf := Some ?b, rb_buf_len := sz, rb_rptr := 0, rb_wptr := 0\<rparr> = ?r'"
          by (cases ?r) simp
        show ?thesis
        proof (cases "rb_buf ?r = None")
          case b: True
          with b fd True ok1 m cs show ?thesis
            by (simp add: recvbuf_create_def fd2rbuf_def Let_def w0_def upd)
        next
          case b: False
          with b fd True ok1 m cs mt' show ?thesis
            by (simp add: recvbuf_create_def fd2rbuf_def Let_def w0_def upd)
        qed
      qed
      moreover have "rbuf_ok ?r'" using sz by (simp add: rbuf_ok_def)
      then have "recvbuf_wf ?st" using wf by (simp add: recvbuf_wf_def set_rbuf_def)
      moreover have "recvbuf_stream ?st fd = []" by (simp add: rbuf_bytes_def)
      ultimately show ?thesis using True
        by (intro exI [of _ 0] exI [of _ ?st] exI [of _ w1]) (simp add: set_rbuf_def)
    qed
  qed
qed

definition rb_demo_os :: "unit os" where
  "rb_demo_os =
     \<lparr>os_malloc = (\<lambda>n w. (True, w)), os_free = (\<lambda>w. w), os_junk = (\<lambda>w i. 7),
      os_time = (\<lambda>w. (0, w)), os_gettimeofday = (\<lambda>w. ((0, 0), w)),
      os_select = (\<lambda>n r s tv w. ((- 1, r, s), w)), os_epoll_create = (\<lambda>w. (5, w)),
      os_epoll_ctl = (\<lambda>ep op fd e w. (- 1, w)), os_epoll_wait = (\<lambda>ep n t w. ((0, []), w)),
      os_poll = (\<lambda>fd e t w. ((0, e), w)), os_close = (\<lambda>fd w. w)\<rparr>"

theorem recvbuf_create_spec_witness:
  "\<exists>r st' w'. recvbuf_create rb_demo_os demo_recv 7 64 () = Some (r, st', w')
    \<and> (\<forall>fd'. fd' \<noteq> 7 \<longrightarrow> rbufs st' fd' = rbufs demo_recv fd')
    \<and> (if r = 0
       then recvbuf_wf st' \<and> recvbuf_stream st' 7 = [] \<and> rb_buf_len (rbufs st' 7) = max 64 (rb_buf_len (rbufs demo_recv 7))
         \<and> mem_total st' = (if rb_buf_len (rbufs demo_recv 7) < 64 then c_int (mem_total demo_recv + 64) else mem_total demo_recv)
       else r = 1 \<and> rb_buf (rbufs st' 7) = None \<and> rb_buf_len (rbufs st' 7) = 0 \<and> mem_total st' = mem_total demo_recv)"
  by (rule recvbuf_create_spec [OF demo_recv_wf])
     (simp_all add: RB_MAX_SOCKET_def INT_MAX_def in_int_def INT_MIN_def demo_recv_def recvbuf_init_def)

end
