(* ===== verification/Bson.thy ===== *)
theory Bson
  imports Prelude
begin

text \<open>
  The BSON library, \<open>src/src/bson/bson.c\<close> with the types of \<open>bson.h\<close>, on a little-endian
  machine (\<open>MONGO_BIG_ENDIAN\<close> not defined).

  A \<open>bson\<close> is a block of data, a position in it and a stack of the positions of the open
  sub-objects. A pointer into the data is an offset from its start. Data that a \<open>bson\<close> does not
  own is the block from the pointer on.

  \<open>encoding.h\<close>, with \<open>bson_check_field_name\<close> and \<open>bson_check_string\<close>, and \<open>bson_numstrs\<close> are
  not in the repository: the checks are fields of the record \<open>bson_env\<close>, as are the allocator
  and the conversions between \<open>double\<close> (its eight bytes) and integers. \<open>None\<close> stands for
  undefined behaviour and for \<open>exit\<close>, which \<open>bson_fatal_msg\<close> calls.
\<close>

section \<open>Data\<close>

definition BSON_OK :: int where "BSON_OK = 0"
definition BSON_ERROR :: int where "BSON_ERROR = - 1"

definition BSON_SIZE_OVERFLOW :: mask where "BSON_SIZE_OVERFLOW = 1"
definition BSON_ALREADY_FINISHED :: mask where "BSON_ALREADY_FINISHED = 16"
definition BSON_NOT_IN_SUBOBJECT :: mask where "BSON_NOT_IN_SUBOBJECT = 32"
definition BSON_DOES_NOT_OWN_DATA :: mask where "BSON_DOES_NOT_OWN_DATA = 64"
definition BSON_NOT_UTF8 :: mask where "BSON_NOT_UTF8 = 2"

definition BSON_BIN_BINARY_OLD :: int where "BSON_BIN_BINARY_OLD = 2"

definition BSON_EOO :: int where "BSON_EOO = 0"
definition BSON_DOUBLE :: int where "BSON_DOUBLE = 1"
definition BSON_STRING :: int where "BSON_STRING = 2"
definition BSON_OBJECT :: int where "BSON_OBJECT = 3"
definition BSON_ARRAY :: int where "BSON_ARRAY = 4"
definition BSON_BINDATA :: int where "BSON_BINDATA = 5"
definition BSON_UNDEFINED :: int where "BSON_UNDEFINED = 6"
definition BSON_OID :: int where "BSON_OID = 7"
definition BSON_BOOL :: int where "BSON_BOOL = 8"
definition BSON_DATE :: int where "BSON_DATE = 9"
definition BSON_NULL :: int where "BSON_NULL = 10"
definition BSON_REGEX :: int where "BSON_REGEX = 11"
definition BSON_DBREF :: int where "BSON_DBREF = 12"
definition BSON_CODE :: int where "BSON_CODE = 13"
definition BSON_SYMBOL :: int where "BSON_SYMBOL = 14"
definition BSON_CODEWSCOPE :: int where "BSON_CODEWSCOPE = 15"
definition BSON_INT :: int where "BSON_INT = 16"
definition BSON_TIMESTAMP :: int where "BSON_TIMESTAMP = 17"
definition BSON_LONG :: int where "BSON_LONG = 18"

lemmas bson_types = BSON_EOO_def BSON_DOUBLE_def BSON_STRING_def BSON_OBJECT_def BSON_ARRAY_def
  BSON_BINDATA_def BSON_UNDEFINED_def BSON_OID_def BSON_BOOL_def BSON_DATE_def BSON_NULL_def
  BSON_REGEX_def BSON_DBREF_def BSON_CODE_def BSON_SYMBOL_def BSON_CODEWSCOPE_def BSON_INT_def
  BSON_TIMESTAMP_def BSON_LONG_def

record bson_env =
  env_alloc :: "int \<Rightarrow> block option"
  env_check_field_name :: "byte list \<Rightarrow> mask \<Rightarrow> int \<times> mask"
  env_check_string :: "byte list \<Rightarrow> mask \<Rightarrow> int \<times> mask"
  env_double_to_int :: "byte list \<Rightarrow> int"
  env_double_to_long :: "byte list \<Rightarrow> int"
  env_int_to_double :: "int \<Rightarrow> byte list"
  env_double_nonzero :: "byte list \<Rightarrow> bool"

text \<open>Where \<open>stackPtr\<close> points: nowhere, to the array inside the structure, to the heap.\<close>

datatype stack_ptr = StackNull | StackLocal | StackHeap

text \<open>\<open>b_stack\<close> is the array \<open>stackPtr\<close> points to; \<open>b_cur\<close> is \<open>None\<close> for a null pointer.\<close>

record bson =
  b_data :: "block option"
  b_cur :: "int option"
  b_dataSize :: int
  b_finished :: bool
  b_ownsData :: bool
  b_stack :: "int list"
  b_stackPos :: nat
  b_err :: mask
  b_stackPtr :: stack_ptr
  b_stackSize :: nat

record bson_iterator =
  it_buf :: block
  it_cur :: int
  it_first :: bool

definition initialBufferSize :: int where "initialBufferSize = 128"

definition bson_shared_empty_data :: block where "bson_shared_empty_data = [5, 0, 0, 0, 0]"

text \<open>\<open>bson_little_endian32\<close> and \<open>bson_little_endian64\<close> read at an offset.\<close>

definition read32 :: "block \<Rightarrow> int \<Rightarrow> int option" where
  "read32 b off = map_option (\<lambda>bs. c_int (le_val bs)) (mem_get b off 4)"

definition read64 :: "block \<Rightarrow> int \<Rightarrow> int option" where
  "read64 b off = map_option (\<lambda>bs. c_long (le_val bs)) (mem_get b off 8)"

text \<open>\<open>bson_malloc\<close> and \<open>bson_realloc\<close>: they return only if the allocator succeeds.\<close>

definition bson_malloc :: "bson_env \<Rightarrow> int \<Rightarrow> block option" where
  "bson_malloc E n = env_alloc E n"

definition bson_realloc :: "bson_env \<Rightarrow> block option \<Rightarrow> int \<Rightarrow> block option" where
  "bson_realloc E p n =
     map_option (\<lambda>new. case p of None \<Rightarrow> new | Some old \<Rightarrow> take (nat n) (old @ drop (length old) new)) (env_alloc E n)"

section \<open>Building: the buffer\<close>

definition bson_zero :: bson where
  "bson_zero =
     \<lparr>b_data = None, b_cur = None, b_dataSize = 0, b_finished = False, b_ownsData = False,
      b_stack = [], b_stackPos = 0, b_err = 0, b_stackPtr = StackNull, b_stackSize = 0\<rparr>"

definition bson_position :: "bson \<Rightarrow> int option" where
  "bson_position b = b_cur b"

definition bson_buffer_size :: "bson \<Rightarrow> int option" where
  "bson_buffer_size b = map_option (\<lambda>p. p + 1) (bson_position b)"

definition bson_init_size :: "bson_env \<Rightarrow> int \<Rightarrow> (int \<times> bson) option" where
  "bson_init_size E sz =
     do {
       b \<leftarrow> (if sz \<noteq> 0
             then do { d \<leftarrow> bson_malloc E (c_size sz); Some (bson_zero\<lparr>b_data := Some d, b_dataSize := sz\<rparr>) }
             else Some bson_zero);
       Some (BSON_OK, b\<lparr>b_ownsData := True, b_cur := Some 4\<rparr>)
     }"

definition bson_init :: "bson_env \<Rightarrow> (int \<times> bson) option" where
  "bson_init E = bson_init_size E initialBufferSize"

definition bson_init_unfinished_data :: "block \<Rightarrow> int \<Rightarrow> bool \<Rightarrow> int \<times> bson" where
  "bson_init_unfinished_data d n owns =
     (BSON_OK, bson_zero\<lparr>b_data := Some d, b_dataSize := n, b_ownsData := owns\<rparr>)"

text \<open>
  The stack grows from the array in the structure (32 entries) to one of 64 entries on the heap,
  which is then doubled. The value of new entries does not matter and is zero here.
\<close>

definition bson_append_grow_stack :: "bson_env \<Rightarrow> bson \<Rightarrow> (int \<times> bson) option" where
  "bson_append_grow_stack E b =
     (case b_stackPtr b of
        StackNull \<Rightarrow> Some (BSON_OK, b\<lparr>b_stackPtr := StackLocal, b_stack := replicate 32 0, b_stackSize := 32\<rparr>)
      | StackLocal \<Rightarrow>
          do { _ \<leftarrow> bson_malloc E (2 * 256);
               Some (BSON_OK, b\<lparr>b_stackPtr := StackHeap, b_stackSize := 64,
                                b_stack := b_stack b @ replicate 32 0\<rparr>) }
      | StackHeap \<Rightarrow>
          do { _ \<leftarrow> bson_malloc E (int (b_stackSize b) * 2 * 8);
               Some (BSON_OK, b\<lparr>b_stackSize := b_stackSize b * 2,
                                b_stack := b_stack b @ replicate (b_stackSize b) 0\<rparr>) })"

text \<open>A copy to \<open>b->cur\<close>, which then moves on: \<open>bson_append\<close> and its variants.\<close>

definition bson_append :: "bson \<Rightarrow> byte list \<Rightarrow> bson option" where
  "bson_append b bs =
     do {
       d \<leftarrow> b_data b;
       c \<leftarrow> b_cur b;
       d \<leftarrow> mem_put d c bs;
       Some (b\<lparr>b_data := Some d, b_cur := Some (c + int (length bs))\<rparr>)
     }"

definition bson_append_byte :: "bson \<Rightarrow> int \<Rightarrow> bson option" where
  "bson_append_byte b c = bson_append b [word_of_int c]"

definition bson_append32_as_int :: "bson \<Rightarrow> int \<Rightarrow> bson option" where
  "bson_append32_as_int b i = bson_append b (le_bytes 4 i)"

definition bson_append64 :: "bson \<Rightarrow> int \<Rightarrow> bson option" where
  "bson_append64 b i = bson_append b (le_bytes 8 i)"

text \<open>
  \<open>(int)(1.5 * n)\<close>: the product is computed in \<open>double\<close>; when it does not fit an \<open>int\<close> the
  conversion gives \<open>INT_MIN\<close>, as the x86 instruction does.
\<close>

definition grown_size :: "int \<Rightarrow> int" where
  "grown_size n = (if 3 * n div 2 \<le> INT_MAX then 3 * n div 2 else INT_MIN)"

definition bson_ensure_space :: "bson_env \<Rightarrow> bson \<Rightarrow> int \<Rightarrow> (int \<times> bson) option" where
  "bson_ensure_space E b bytesNeeded =
     do {
       pos \<leftarrow> bson_position b;
       if c_size (pos + bytesNeeded) \<le> c_size (b_dataSize b) then Some (BSON_OK, b)
       else
         (let total = c_size (b_dataSize b + bytesNeeded);
              new_size = grown_size total
          in if new_size < b_dataSize b \<and> \<not> total < INT_MAX
             then Some (BSON_ERROR, b\<lparr>b_err := BSON_SIZE_OVERFLOW\<rparr>)
             else
               (let new_size = (if new_size < b_dataSize b then INT_MAX else new_size)
                in if \<not> b_ownsData b then Some (BSON_ERROR, b\<lparr>b_err := BSON_DOES_NOT_OWN_DATA\<rparr>)
                   else do {
                     d \<leftarrow> bson_realloc E (b_data b) new_size;
                     Some (BSON_OK, b\<lparr>b_data := Some d, b_dataSize := new_size\<rparr>)
                   }))
     }"

definition bson_finish :: "bson_env \<Rightarrow> bson \<Rightarrow> (int \<times> bson) option" where
  "bson_finish E b =
     (if b_err b AND BSON_NOT_UTF8 \<noteq> 0 then Some (BSON_ERROR, b)
      else if b_finished b then Some (BSON_OK, b)
      else if b_stackPos b \<noteq> 0 then None
      else do {
        (r, b) \<leftarrow> bson_ensure_space E b 1;
        if r = BSON_ERROR then Some (BSON_ERROR, b)
        else do {
          b \<leftarrow> bson_append_byte b 0;
          pos \<leftarrow> bson_position b;
          if INT_MAX \<le> pos then Some (BSON_ERROR, b\<lparr>b_err := BSON_SIZE_OVERFLOW\<rparr>)
          else do {
            d \<leftarrow> b_data b;
            d \<leftarrow> mem_put d 0 (le_bytes 4 pos);
            Some (BSON_OK, b\<lparr>b_data := Some d, b_finished := True\<rparr>)
          }
        }
      })"

definition bson_destroy :: "bson \<Rightarrow> bson" where
  "bson_destroy b =
     b\<lparr>b_data := None, b_dataSize := 0, b_ownsData := False,
       b_stackPtr := (if b_stackPtr b = StackHeap then StackNull else b_stackPtr b),
       b_stackSize := 0, b_stackPos := 0, b_err := 0, b_cur := None, b_finished := True\<rparr>"

text \<open>The head of an element: its type and its name with the NUL.\<close>

definition bson_append_estart :: "bson_env \<Rightarrow> bson \<Rightarrow> int \<Rightarrow> byte list \<Rightarrow> int \<Rightarrow> (int \<times> bson) option" where
  "bson_append_estart E b type name dataSize =
     (let len = int (length name) + 1 in
      if b_finished b then Some (BSON_ERROR, b\<lparr>b_err := b_err b OR BSON_ALREADY_FINISHED\<rparr>)
      else do {
        (r, b) \<leftarrow> bson_ensure_space E b (c_size (1 + len + dataSize));
        if r = BSON_ERROR then Some (BSON_ERROR, b)
        else
          (let (r, err) = env_check_field_name E name (b_err b);
               b = b\<lparr>b_err := err\<rparr>
           in if r = BSON_ERROR then Some (BSON_ERROR, b)
              else do {
                b \<leftarrow> bson_append_byte b type;
                b \<leftarrow> bson_append b (name @ [0]);
                Some (BSON_OK, b)
              })
      })"

text \<open>An element whose data is a fixed sequence of bytes.\<close>

definition append_fixed :: "bson_env \<Rightarrow> bson \<Rightarrow> int \<Rightarrow> byte list \<Rightarrow> int \<Rightarrow> byte list \<Rightarrow> (int \<times> bson) option" where
  "append_fixed E b type name n bs =
     do {
       (r, b) \<leftarrow> bson_append_estart E b type name n;
       if r = BSON_ERROR then Some (BSON_ERROR, b)
       else do { b \<leftarrow> bson_append b bs; Some (BSON_OK, b) }
     }"

section \<open>Building: the types\<close>

definition bson_append_int :: "bson_env \<Rightarrow> bson \<Rightarrow> byte list \<Rightarrow> int \<Rightarrow> (int \<times> bson) option" where
  "bson_append_int E b name i = append_fixed E b BSON_INT name 4 (le_bytes 4 i)"

definition bson_append_long :: "bson_env \<Rightarrow> bson \<Rightarrow> byte list \<Rightarrow> int \<Rightarrow> (int \<times> bson) option" where
  "bson_append_long E b name i = append_fixed E b BSON_LONG name 8 (le_bytes 8 i)"

text \<open>A \<open>double\<close> is given by its eight bytes.\<close>

definition bson_append_double :: "bson_env \<Rightarrow> bson \<Rightarrow> byte list \<Rightarrow> byte list \<Rightarrow> (int \<times> bson) option" where
  "bson_append_double E b name d = append_fixed E b BSON_DOUBLE name 8 d"

definition bson_append_bool :: "bson_env \<Rightarrow> bson \<Rightarrow> byte list \<Rightarrow> int \<Rightarrow> (int \<times> bson) option" where
  "bson_append_bool E b name i = append_fixed E b BSON_BOOL name 1 [if i \<noteq> 0 then 1 else 0]"

definition bson_append_null :: "bson_env \<Rightarrow> bson \<Rightarrow> byte list \<Rightarrow> (int \<times> bson) option" where
  "bson_append_null E b name = bson_append_estart E b BSON_NULL name 0"

definition bson_append_undefined :: "bson_env \<Rightarrow> bson \<Rightarrow> byte list \<Rightarrow> (int \<times> bson) option" where
  "bson_append_undefined E b name = bson_append_estart E b BSON_UNDEFINED name 0"

text \<open>\<open>value\<close> is the memory from the pointer on; \<open>len\<close> bytes of it are used.\<close>

definition bson_append_string_base ::
  "bson_env \<Rightarrow> bson \<Rightarrow> byte list \<Rightarrow> block \<Rightarrow> int \<Rightarrow> int \<Rightarrow> (int \<times> bson) option" where
  "bson_append_string_base E b name val len type =
     (let sl = c_size (len + 1) in
      if INT_MAX < sl then Some (BSON_ERROR, b\<lparr>b_err := BSON_SIZE_OVERFLOW\<rparr>)
      else do {
        s \<leftarrow> mem_get val 0 (sl - 1);
        let (r, err) = env_check_string E s (b_err b);
        let b = b\<lparr>b_err := err\<rparr>;
        if r = BSON_ERROR then Some (BSON_ERROR, b)
        else do {
          (r, b) \<leftarrow> bson_append_estart E b type name (4 + sl);
          if r = BSON_ERROR then Some (BSON_ERROR, b)
          else do {
            b \<leftarrow> bson_append32_as_int b (c_int sl);
            b \<leftarrow> bson_append b s;
            b \<leftarrow> bson_append b [0];
            Some (BSON_OK, b)
          }
        }
      })"

text \<open>The variants for NUL-terminated strings: the memory is the string and its NUL.\<close>

definition bson_append_string :: "bson_env \<Rightarrow> bson \<Rightarrow> byte list \<Rightarrow> byte list \<Rightarrow> (int \<times> bson) option" where
  "bson_append_string E b name val = bson_append_string_base E b name (val @ [0]) (int (length val)) BSON_STRING"

definition bson_append_symbol :: "bson_env \<Rightarrow> bson \<Rightarrow> byte list \<Rightarrow> byte list \<Rightarrow> (int \<times> bson) option" where
  "bson_append_symbol E b name val = bson_append_string_base E b name (val @ [0]) (int (length val)) BSON_SYMBOL"

definition bson_append_code :: "bson_env \<Rightarrow> bson \<Rightarrow> byte list \<Rightarrow> byte list \<Rightarrow> (int \<times> bson) option" where
  "bson_append_code E b name val = bson_append_string_base E b name (val @ [0]) (int (length val)) BSON_CODE"

definition bson_append_string_n :: "bson_env \<Rightarrow> bson \<Rightarrow> byte list \<Rightarrow> block \<Rightarrow> int \<Rightarrow> (int \<times> bson) option" where
  "bson_append_string_n E b name val len = bson_append_string_base E b name val len BSON_STRING"

definition bson_append_symbol_n :: "bson_env \<Rightarrow> bson \<Rightarrow> byte list \<Rightarrow> block \<Rightarrow> int \<Rightarrow> (int \<times> bson) option" where
  "bson_append_symbol_n E b name val len = bson_append_string_base E b name val len BSON_SYMBOL"

definition bson_append_code_n :: "bson_env \<Rightarrow> bson \<Rightarrow> byte list \<Rightarrow> block \<Rightarrow> int \<Rightarrow> (int \<times> bson) option" where
  "bson_append_code_n E b name val len = bson_append_string_base E b name val len BSON_CODE"

definition bson_size :: "bson option \<Rightarrow> int option" where
  "bson_size b =
     (case b of None \<Rightarrow> Some 0
      | Some b \<Rightarrow> (case b_data b of None \<Rightarrow> Some 0 | Some d \<Rightarrow> read32 d 0))"

text \<open>\<open>len + 1\<close> bytes of the code are copied, one more than the length passed.\<close>

definition bson_append_code_w_scope_n ::
  "bson_env \<Rightarrow> bson \<Rightarrow> byte list \<Rightarrow> block \<Rightarrow> int \<Rightarrow> bson option \<Rightarrow> (int \<times> bson) option" where
  "bson_append_code_w_scope_n E b name code len scope =
     (case scope of
        None \<Rightarrow> Some (BSON_ERROR, b)
      | Some sc \<Rightarrow>
          do {
            let sl = c_size (len + 1);
            scn \<leftarrow> bson_size scope;
            let sz = c_size (4 + 4 + sl + scn);
            if INT_MAX < sz then Some (BSON_ERROR, b\<lparr>b_err := BSON_SIZE_OVERFLOW\<rparr>)
            else do {
              (r, b) \<leftarrow> bson_append_estart E b BSON_CODEWSCOPE name sz;
              if r = BSON_ERROR then Some (BSON_ERROR, b)
              else do {
                b \<leftarrow> bson_append32_as_int b (c_int sz);
                b \<leftarrow> bson_append b (le_bytes 4 sl);
                cs \<leftarrow> mem_get code 0 sl;
                b \<leftarrow> bson_append b cs;
                d \<leftarrow> b_data sc;
                ds \<leftarrow> mem_get d 0 scn;
                b \<leftarrow> bson_append b ds;
                Some (BSON_OK, b)
              }
            }
          })"

definition bson_append_code_w_scope ::
  "bson_env \<Rightarrow> bson \<Rightarrow> byte list \<Rightarrow> byte list \<Rightarrow> bson option \<Rightarrow> (int \<times> bson) option" where
  "bson_append_code_w_scope E b name code scope =
     bson_append_code_w_scope_n E b name (code @ [0]) (int (length code)) scope"

definition bson_append_binary ::
  "bson_env \<Rightarrow> bson \<Rightarrow> byte list \<Rightarrow> int \<Rightarrow> block \<Rightarrow> int \<Rightarrow> (int \<times> bson) option" where
  "bson_append_binary E b name type str len =
     (if type = BSON_BIN_BINARY_OLD
      then do {
        (r, b) \<leftarrow> bson_append_estart E b BSON_BINDATA name (c_size (4 + 1 + 4 + len));
        if r = BSON_ERROR then Some (BSON_ERROR, b)
        else do {
          b \<leftarrow> bson_append32_as_int b (c_int (len + 4));
          b \<leftarrow> bson_append_byte b type;
          b \<leftarrow> bson_append32_as_int b (c_int len);
          s \<leftarrow> mem_get str 0 len;
          b \<leftarrow> bson_append b s;
          Some (BSON_OK, b)
        }
      }
      else do {
        (r, b) \<leftarrow> bson_append_estart E b BSON_BINDATA name (c_size (4 + 1 + len));
        if r = BSON_ERROR then Some (BSON_ERROR, b)
        else do {
          b \<leftarrow> bson_append32_as_int b (c_int len);
          b \<leftarrow> bson_append_byte b type;
          s \<leftarrow> mem_get str 0 len;
          b \<leftarrow> bson_append b s;
          Some (BSON_OK, b)
        }
      })"

definition bson_append_oid :: "bson_env \<Rightarrow> bson \<Rightarrow> byte list \<Rightarrow> byte list \<Rightarrow> (int \<times> bson) option" where
  "bson_append_oid E b name oid = append_fixed E b BSON_OID name 12 oid"

definition bson_append_regex ::
  "bson_env \<Rightarrow> bson \<Rightarrow> byte list \<Rightarrow> byte list \<Rightarrow> byte list \<Rightarrow> (int \<times> bson) option" where
  "bson_append_regex E b name pattern opts =
     do {
       (r, b) \<leftarrow> bson_append_estart E b BSON_REGEX name (int (length pattern) + 1 + (int (length opts) + 1));
       if r = BSON_ERROR then Some (BSON_ERROR, b)
       else
         (let (r, err) = env_check_string E pattern (b_err b);
              b = b\<lparr>b_err := err\<rparr>
          in if r = BSON_ERROR then Some (BSON_ERROR, b)
             else do {
               b \<leftarrow> bson_append b (pattern @ [0]);
               b \<leftarrow> bson_append b (opts @ [0]);
               Some (BSON_OK, b)
             })
     }"

definition bson_append_bson :: "bson_env \<Rightarrow> bson \<Rightarrow> byte list \<Rightarrow> bson option \<Rightarrow> (int \<times> bson) option" where
  "bson_append_bson E b name sub =
     (case sub of
        None \<Rightarrow> Some (BSON_ERROR, b)
      | Some s \<Rightarrow>
          do {
            n \<leftarrow> bson_size sub;
            (r, b) \<leftarrow> bson_append_estart E b BSON_OBJECT name (c_size n);
            if r = BSON_ERROR then Some (BSON_ERROR, b)
            else do { d \<leftarrow> b_data s; ds \<leftarrow> mem_get d 0 n; b \<leftarrow> bson_append b ds; Some (BSON_OK, b) }
          })"

text \<open>A \<open>bson_timestamp_t\<close> is the pair of its fields \<open>i\<close> and \<open>t\<close>.\<close>

definition bson_append_timestamp :: "bson_env \<Rightarrow> bson \<Rightarrow> byte list \<Rightarrow> int \<times> int \<Rightarrow> (int \<times> bson) option" where
  "bson_append_timestamp E b name ts =
     append_fixed E b BSON_TIMESTAMP name 8 (le_bytes 4 (fst ts) @ le_bytes 4 (snd ts))"

definition bson_append_timestamp2 :: "bson_env \<Rightarrow> bson \<Rightarrow> byte list \<Rightarrow> int \<Rightarrow> int \<Rightarrow> (int \<times> bson) option" where
  "bson_append_timestamp2 E b name time increment =
     append_fixed E b BSON_TIMESTAMP name 8 (le_bytes 4 increment @ le_bytes 4 time)"

definition bson_append_date :: "bson_env \<Rightarrow> bson \<Rightarrow> byte list \<Rightarrow> int \<Rightarrow> (int \<times> bson) option" where
  "bson_append_date E b name millis = append_fixed E b BSON_DATE name 8 (le_bytes 8 millis)"

definition bson_append_time_t :: "bson_env \<Rightarrow> bson \<Rightarrow> byte list \<Rightarrow> int \<Rightarrow> (int \<times> bson) option" where
  "bson_append_time_t E b name secs = bson_append_date E b name (c_long (secs * 1000))"

section \<open>Building: sub-objects\<close>

text \<open>Remembering the position of the length field, which is filled in at the end.\<close>

definition append_start :: "bson_env \<Rightarrow> bson \<Rightarrow> int \<Rightarrow> byte list \<Rightarrow> (int \<times> bson) option" where
  "append_start E b type name =
     do {
       (r, b) \<leftarrow> bson_append_estart E b type name 5;
       if r = BSON_ERROR then Some (BSON_ERROR, b)
       else do {
         (r, b) \<leftarrow> (if b_stackSize b \<le> b_stackPos b then bson_append_grow_stack E b else Some (BSON_OK, b));
         if r = BSON_ERROR then Some (BSON_ERROR, b)
         else do {
           pos \<leftarrow> bson_position b;
           b \<leftarrow> (if b_stackPos b < length (b_stack b)
                 then Some (b\<lparr>b_stack := (b_stack b)[b_stackPos b := pos], b_stackPos := b_stackPos b + 1\<rparr>)
                 else None);
           b \<leftarrow> bson_append b (le_bytes 4 0);
           Some (BSON_OK, b)
         }
       }
     }"

definition bson_append_start_object :: "bson_env \<Rightarrow> bson \<Rightarrow> byte list \<Rightarrow> (int \<times> bson) option" where
  "bson_append_start_object E b name = append_start E b BSON_OBJECT name"

definition bson_append_start_array :: "bson_env \<Rightarrow> bson \<Rightarrow> byte list \<Rightarrow> (int \<times> bson) option" where
  "bson_append_start_array E b name = append_start E b BSON_ARRAY name"

definition bson_append_finish_object :: "bson_env \<Rightarrow> bson \<Rightarrow> (int \<times> bson) option" where
  "bson_append_finish_object E b =
     (if b_stackPos b = 0 then Some (BSON_ERROR, b\<lparr>b_err := BSON_NOT_IN_SUBOBJECT\<rparr>)
      else do {
        (r, b) \<leftarrow> bson_ensure_space E b 1;
        if r = BSON_ERROR then Some (BSON_ERROR, b)
        else do {
          b \<leftarrow> bson_append_byte b 0;
          start \<leftarrow> (if b_stackPos b - 1 < length (b_stack b) then Some (b_stack b ! (b_stackPos b - 1)) else None);
          let b = b\<lparr>b_stackPos := b_stackPos b - 1\<rparr>;
          c \<leftarrow> b_cur b;
          if INT_MAX \<le> c - start then Some (BSON_ERROR, b\<lparr>b_err := BSON_SIZE_OVERFLOW\<rparr>)
          else do {
            d \<leftarrow> b_data b;
            d \<leftarrow> mem_put d start (le_bytes 4 (c - start));
            Some (BSON_OK, b\<lparr>b_data := Some d\<rparr>)
          }
        }
      })"

definition bson_append_finish_array :: "bson_env \<Rightarrow> bson \<Rightarrow> (int \<times> bson) option" where
  "bson_append_finish_array E b = bson_append_finish_object E b"

end
