(* ===== verification/Bson_Iter.thy ===== *)
theory Bson_Iter
  imports Bson
begin

text \<open>
  The reading half of \<open>src/src/bson/bson.c\<close>: finished data, object identifiers and iterators. An
  iterator is a position in a block; a pointer it returns is an offset into that block.
\<close>

section \<open>Finished data\<close>

definition bson_finished_data_size :: "block \<Rightarrow> int \<Rightarrow> int option" where
  "bson_finished_data_size d off = read32 d off"

definition bson_init_finished_data :: "block \<Rightarrow> bool \<Rightarrow> (int \<times> bson) option" where
  "bson_init_finished_data d owns =
     do {
       n \<leftarrow> bson_finished_data_size d 0;
       Some (BSON_OK, bson_zero\<lparr>b_data := Some d, b_dataSize := n, b_ownsData := owns, b_finished := True\<rparr>)
     }"

definition bson_init_finished_data_with_copy :: "bson_env \<Rightarrow> block \<Rightarrow> (int \<times> bson) option" where
  "bson_init_finished_data_with_copy E d =
     do {
       n \<leftarrow> bson_finished_data_size d 0;
       (r, b) \<leftarrow> bson_init_size E n;
       if r = BSON_ERROR then Some (BSON_ERROR, b)
       else do {
         bs \<leftarrow> mem_get d 0 n;
         m \<leftarrow> b_data b;
         m \<leftarrow> mem_put m 0 bs;
         Some (BSON_OK, b\<lparr>b_data := Some m, b_finished := True\<rparr>)
       }
     }"

definition bson_init_empty :: "(int \<times> bson) option" where
  "bson_init_empty = bson_init_finished_data bson_shared_empty_data False"

definition bson_shared_empty :: bson where
  "bson_shared_empty =
     \<lparr>b_data = Some bson_shared_empty_data, b_cur = Some 0, b_dataSize = 128, b_finished = True,
      b_ownsData = False, b_stack = replicate 32 0, b_stackPos = 0, b_err = 0,
      b_stackPtr = StackNull, b_stackSize = 0\<rparr>"

definition bson_copy :: "bson_env \<Rightarrow> bson option \<Rightarrow> bson option \<Rightarrow> (int \<times> bson option) option" where
  "bson_copy E out inp =
     (case (out, inp) of
        (Some o', Some i) \<Rightarrow>
          if \<not> b_finished i then Some (BSON_ERROR, out)
          else do {
            d \<leftarrow> b_data i;
            (r, b) \<leftarrow> bson_init_finished_data_with_copy E d;
            Some (r, Some b)
          }
      | _ \<Rightarrow> Some (BSON_ERROR, out))"

definition bson_data :: "bson \<Rightarrow> block option" where
  "bson_data b = b_data b"

section \<open>Object identifiers\<close>

text \<open>An identifier is its twelve bytes, a character its code.\<close>

definition hexbyte :: "byte \<Rightarrow> byte" where
  "hexbyte hex =
     (let c = c_char (uint hex) in
      if 48 \<le> c \<and> c \<le> 57 then hex - 48
      else if 65 \<le> c \<and> c \<le> 70 then hex - 65 + 10
      else if 97 \<le> c \<and> c \<le> 102 then hex - 97 + 10
      else 0)"

text \<open>The loop from \<open>i\<close> on; reading outside the string is undefined.\<close>

fun oid_from_loop :: "nat \<Rightarrow> nat \<Rightarrow> block \<Rightarrow> byte list option" where
  "oid_from_loop i 0 str = Some []"
| "oid_from_loop i (Suc k) str =
     (if 2 * i + 1 < length str
      then map_option ((#) (push_bit 4 (hexbyte (str ! (2 * i))) OR hexbyte (str ! (2 * i + 1))))
             (oid_from_loop (Suc i) k str)
      else None)"

definition bson_oid_from_string :: "block \<Rightarrow> byte list option" where
  "bson_oid_from_string str = oid_from_loop 0 12 str"

definition hex_digits :: "byte list" where
  "hex_digits = [48, 49, 50, 51, 52, 53, 54, 55, 56, 57, 97, 98, 99, 100, 101, 102]"

definition bson_oid_to_string :: "byte list \<Rightarrow> block" where
  "bson_oid_to_string oid =
     concat (map (\<lambda>x. [hex_digits ! unat (drop_bit 4 (x AND 240)), hex_digits ! unat (x AND 15)]) (take 12 oid)) @ [0]"

text \<open>\<open>bson_swap_endian32\<close> and \<open>bson_swap_endian64\<close> reverse four and eight bytes.\<close>

definition bson_swap_endian32 :: "byte list \<Rightarrow> byte list" where
  "bson_swap_endian32 bs = [bs ! 3, bs ! 2, bs ! 1, bs ! 0]"

definition bson_swap_endian64 :: "byte list \<Rightarrow> byte list" where
  "bson_swap_endian64 bs = [bs ! 7, bs ! 6, bs ! 5, bs ! 4, bs ! 3, bs ! 2, bs ! 1, bs ! 0]"

text \<open>
  The static variables of \<open>bson_oid_gen\<close> and the hooks \<open>oid_inc_func\<close> and \<open>oid_fuzz_func\<close>, given
  by the value they return. \<open>rnd\<close> is what \<open>rand\<close> returns after the seeding.
\<close>

record oid_state =
  oid_incr :: int
  oid_fuzz :: int
  oid_inc_func :: "int option"
  oid_fuzz_func :: "int option"

definition bson_set_oid_fuzz :: "int option \<Rightarrow> oid_state \<Rightarrow> oid_state" where
  "bson_set_oid_fuzz f s = s\<lparr>oid_fuzz_func := f\<rparr>"

definition bson_set_oid_inc :: "int option \<Rightarrow> oid_state \<Rightarrow> oid_state" where
  "bson_set_oid_inc f s = s\<lparr>oid_inc_func := f\<rparr>"

definition bson_oid_gen :: "int \<Rightarrow> int \<Rightarrow> oid_state \<Rightarrow> byte list \<times> oid_state" where
  "bson_oid_gen t rnd s =
     (let (i, s) = (case oid_inc_func s of
                      Some n \<Rightarrow> (n, s)
                    | None \<Rightarrow> (oid_incr s, s\<lparr>oid_incr := c_int (oid_incr s + 1)\<rparr>));
          s = (if oid_fuzz s = 0
               then s\<lparr>oid_fuzz := (case oid_fuzz_func s of Some n \<Rightarrow> n | None \<Rightarrow> rnd)\<rparr> else s)
      in (bson_swap_endian32 (le_bytes 8 t) @ le_bytes 4 (oid_fuzz s) @ bson_swap_endian32 (le_bytes 4 i), s))"

text \<open>Only four of the eight bytes of the result are written; \<open>junk\<close> are the others.\<close>

definition bson_oid_generated_time :: "byte list \<Rightarrow> byte list \<Rightarrow> int" where
  "bson_oid_generated_time junk oid = c_long (le_val (bson_swap_endian32 (take 4 oid) @ junk))"

section \<open>Iterators\<close>

definition bson_iterator_from_buffer :: "block \<Rightarrow> bson_iterator" where
  "bson_iterator_from_buffer buf = \<lparr>it_buf = buf, it_cur = 4, it_first = True\<rparr>"

definition bson_iterator_init :: "bson \<Rightarrow> bson_iterator option" where
  "bson_iterator_init b = map_option bson_iterator_from_buffer (b_data b)"

text \<open>The byte at an offset, as a \<open>char\<close>.\<close>

definition char_at :: "block \<Rightarrow> int \<Rightarrow> int option" where
  "char_at b off = (if 0 \<le> off \<and> off < int (length b) then Some (c_char (uint (b ! nat off))) else None)"

definition bson_iterator_more :: "bson_iterator \<Rightarrow> int option" where
  "bson_iterator_more i = char_at (it_buf i) (it_cur i)"

definition bson_iterator_type :: "bson_iterator \<Rightarrow> int option" where
  "bson_iterator_type i = char_at (it_buf i) (it_cur i)"

definition bson_iterator_key :: "bson_iterator \<Rightarrow> int" where
  "bson_iterator_key i = it_cur i + 1"

definition bson_iterator_value :: "bson_iterator \<Rightarrow> int option" where
  "bson_iterator_value i =
     do { n \<leftarrow> strlen (it_buf i) (it_cur i + 1); Some (it_cur i + 1 + n + 1) }"

definition bson_iterator_int_raw :: "bson_iterator \<Rightarrow> int option" where
  "bson_iterator_int_raw i = do { v \<leftarrow> bson_iterator_value i; read32 (it_buf i) v }"

definition bson_iterator_double_raw :: "bson_iterator \<Rightarrow> byte list option" where
  "bson_iterator_double_raw i = do { v \<leftarrow> bson_iterator_value i; mem_get (it_buf i) v 8 }"

definition bson_iterator_long_raw :: "bson_iterator \<Rightarrow> int option" where
  "bson_iterator_long_raw i = do { v \<leftarrow> bson_iterator_value i; read64 (it_buf i) v }"

definition bson_iterator_bool_raw :: "bson_iterator \<Rightarrow> int option" where
  "bson_iterator_bool_raw i = do { v \<leftarrow> bson_iterator_value i; char_at (it_buf i) v }"

definition bson_iterator_oid :: "bson_iterator \<Rightarrow> int option" where
  "bson_iterator_oid i = bson_iterator_value i"

text \<open>The size of the data of the current element (the \<open>switch\<close> of \<open>bson_iterator_next\<close>); an
  unknown type is fatal.\<close>

definition element_size :: "bson_iterator \<Rightarrow> int \<Rightarrow> int option" where
  "element_size i t =
     (if t = BSON_UNDEFINED \<or> t = BSON_NULL then Some 0
      else if t = BSON_BOOL then Some 1
      else if t = BSON_INT then Some 4
      else if t = BSON_LONG \<or> t = BSON_DOUBLE \<or> t = BSON_TIMESTAMP \<or> t = BSON_DATE then Some 8
      else if t = BSON_OID then Some 12
      else if t = BSON_STRING \<or> t = BSON_SYMBOL \<or> t = BSON_CODE
        then map_option (\<lambda>n. c_int (4 + n)) (bson_iterator_int_raw i)
      else if t = BSON_BINDATA then map_option (\<lambda>n. c_int (5 + n)) (bson_iterator_int_raw i)
      else if t = BSON_OBJECT \<or> t = BSON_ARRAY \<or> t = BSON_CODEWSCOPE then bson_iterator_int_raw i
      else if t = BSON_DBREF then map_option (\<lambda>n. c_int (4 + 12 + n)) (bson_iterator_int_raw i)
      else if t = BSON_REGEX then
        do {
          s \<leftarrow> bson_iterator_value i;
          n \<leftarrow> strlen (it_buf i) s;
          m \<leftarrow> strlen (it_buf i) (s + n + 1);
          Some (n + 1 + m + 1)
        }
      else None)"

definition bson_iterator_next :: "bson_iterator \<Rightarrow> (int \<times> bson_iterator) option" where
  "bson_iterator_next i =
     (if it_first i
      then do { t \<leftarrow> bson_iterator_type i; Some (t, i\<lparr>it_first := False\<rparr>) }
      else do {
        t \<leftarrow> bson_iterator_type i;
        if t = BSON_EOO then Some (BSON_EOO, i)
        else do {
          ds \<leftarrow> element_size i t;
          n \<leftarrow> strlen (it_buf i) (it_cur i + 1);
          let i = i\<lparr>it_cur := it_cur i + (1 + n + 1 + ds)\<rparr>;
          t \<leftarrow> bson_iterator_type i;
          Some (t, i)
        }
      })"

text \<open>The key as a string.\<close>

definition key_string :: "bson_iterator \<Rightarrow> byte list option" where
  "key_string i =
     do { n \<leftarrow> strlen (it_buf i) (bson_iterator_key i); mem_get (it_buf i) (bson_iterator_key i) n }"

partial_function (option) find_key :: "byte list \<Rightarrow> bson_iterator \<Rightarrow> bson_iterator option" where
  "find_key name i =
     Option.bind (bson_iterator_next i) (\<lambda>(t, i).
       if t = 0 then Some i
       else Option.bind (key_string i) (\<lambda>k. if k = name then Some i else find_key name i))"

definition bson_find :: "bson \<Rightarrow> byte list \<Rightarrow> (int \<times> bson_iterator) option" where
  "bson_find obj name =
     do {
       it \<leftarrow> bson_iterator_init obj;
       it \<leftarrow> find_key name it;
       t \<leftarrow> bson_iterator_type it;
       Some (t, it)
     }"

section \<open>Values\<close>

definition bson_iterator_int :: "bson_env \<Rightarrow> bson_iterator \<Rightarrow> int option" where
  "bson_iterator_int E i =
     do {
       t \<leftarrow> bson_iterator_type i;
       if t = BSON_INT then bson_iterator_int_raw i
       else if t = BSON_LONG then map_option c_int (bson_iterator_long_raw i)
       else if t = BSON_DOUBLE then map_option (env_double_to_int E) (bson_iterator_double_raw i)
       else Some 0
     }"

definition bson_iterator_double :: "bson_env \<Rightarrow> bson_iterator \<Rightarrow> byte list option" where
  "bson_iterator_double E i =
     do {
       t \<leftarrow> bson_iterator_type i;
       if t = BSON_INT then map_option (env_int_to_double E) (bson_iterator_int_raw i)
       else if t = BSON_LONG then map_option (env_int_to_double E) (bson_iterator_long_raw i)
       else if t = BSON_DOUBLE then bson_iterator_double_raw i
       else Some (env_int_to_double E 0)
     }"

definition bson_iterator_long :: "bson_env \<Rightarrow> bson_iterator \<Rightarrow> int option" where
  "bson_iterator_long E i =
     do {
       t \<leftarrow> bson_iterator_type i;
       if t = BSON_INT then bson_iterator_int_raw i
       else if t = BSON_LONG then bson_iterator_long_raw i
       else if t = BSON_DOUBLE then map_option (env_double_to_long E) (bson_iterator_double_raw i)
       else Some 0
     }"

definition bson_iterator_timestamp :: "bson_iterator \<Rightarrow> (int \<times> int) option" where
  "bson_iterator_timestamp i =
     do {
       v \<leftarrow> bson_iterator_value i;
       n \<leftarrow> read32 (it_buf i) v;
       t \<leftarrow> read32 (it_buf i) (v + 4);
       Some (n, t)
     }"

definition bson_iterator_timestamp_time :: "bson_iterator \<Rightarrow> int option" where
  "bson_iterator_timestamp_time i = do { v \<leftarrow> bson_iterator_value i; read32 (it_buf i) (v + 4) }"

definition bson_iterator_timestamp_increment :: "bson_iterator \<Rightarrow> int option" where
  "bson_iterator_timestamp_increment i = do { v \<leftarrow> bson_iterator_value i; read32 (it_buf i) v }"

definition bson_iterator_bool :: "bson_env \<Rightarrow> bson_iterator \<Rightarrow> int option" where
  "bson_iterator_bool E i =
     do {
       t \<leftarrow> bson_iterator_type i;
       if t = BSON_BOOL then bson_iterator_bool_raw i
       else if t = BSON_INT then map_option (\<lambda>n. if n \<noteq> 0 then 1 else 0) (bson_iterator_int_raw i)
       else if t = BSON_LONG then map_option (\<lambda>n. if n \<noteq> 0 then 1 else 0) (bson_iterator_long_raw i)
       else if t = BSON_DOUBLE
         then map_option (\<lambda>d. if env_double_nonzero E d then 1 else 0) (bson_iterator_double_raw i)
       else if t = BSON_EOO \<or> t = BSON_NULL then Some 0
       else Some 1
     }"

text \<open>The string functions return an offset into the buffer; \<open>None\<close> inside is the constant empty
  string (\<open>bson_iterator_string\<close>) or the null pointer (\<open>bson_iterator_code\<close>).\<close>

definition bson_iterator_string :: "bson_iterator \<Rightarrow> int option option" where
  "bson_iterator_string i =
     do {
       t \<leftarrow> bson_iterator_type i;
       if t = BSON_STRING \<or> t = BSON_SYMBOL then do { v \<leftarrow> bson_iterator_value i; Some (Some (v + 4)) }
       else Some None
     }"

definition bson_iterator_string_len :: "bson_iterator \<Rightarrow> int option" where
  "bson_iterator_string_len i = bson_iterator_int_raw i"

definition bson_iterator_code :: "bson_iterator \<Rightarrow> int option option" where
  "bson_iterator_code i =
     do {
       t \<leftarrow> bson_iterator_type i;
       if t = BSON_STRING \<or> t = BSON_CODE then do { v \<leftarrow> bson_iterator_value i; Some (Some (v + 4)) }
       else if t = BSON_CODEWSCOPE then do { v \<leftarrow> bson_iterator_value i; Some (Some (v + 8)) }
       else Some None
     }"

definition bson_iterator_code_scope_init :: "bson_env \<Rightarrow> bson_iterator \<Rightarrow> bool \<Rightarrow> (int \<times> bson) option" where
  "bson_iterator_code_scope_init E i copyData =
     do {
       t \<leftarrow> bson_iterator_type i;
       if t = BSON_CODEWSCOPE
       then do {
         v \<leftarrow> bson_iterator_value i;
         codeLen \<leftarrow> bson_finished_data_size (it_buf i) (v + 4);
         d \<leftarrow> (if 0 \<le> v + 8 + codeLen then Some (drop (nat (v + 8 + codeLen)) (it_buf i)) else None);
         if copyData then bson_init_finished_data_with_copy E d else bson_init_finished_data d False
       }
       else bson_init_empty
     }"

definition bson_iterator_date :: "bson_iterator \<Rightarrow> int option" where
  "bson_iterator_date i = bson_iterator_long_raw i"

definition bson_iterator_time_t :: "bson_iterator \<Rightarrow> int option" where
  "bson_iterator_time_t i = map_option (\<lambda>d. d sdiv 1000) (bson_iterator_date i)"

definition bson_iterator_bin_type :: "bson_iterator \<Rightarrow> int option" where
  "bson_iterator_bin_type i = do { v \<leftarrow> bson_iterator_value i; char_at (it_buf i) (v + 4) }"

definition bson_iterator_bin_len :: "bson_iterator \<Rightarrow> int option" where
  "bson_iterator_bin_len i =
     do {
       t \<leftarrow> bson_iterator_bin_type i;
       n \<leftarrow> bson_iterator_int_raw i;
       Some (if t = BSON_BIN_BINARY_OLD then c_int (n - 4) else n)
     }"

definition bson_iterator_bin_data :: "bson_iterator \<Rightarrow> int option" where
  "bson_iterator_bin_data i =
     do {
       t \<leftarrow> bson_iterator_bin_type i;
       v \<leftarrow> bson_iterator_value i;
       Some (if t = BSON_BIN_BINARY_OLD then v + 9 else v + 5)
     }"

definition bson_iterator_regex :: "bson_iterator \<Rightarrow> int option" where
  "bson_iterator_regex i = bson_iterator_value i"

definition bson_iterator_regex_opts :: "bson_iterator \<Rightarrow> int option" where
  "bson_iterator_regex_opts i =
     do { p \<leftarrow> bson_iterator_value i; n \<leftarrow> strlen (it_buf i) p; Some (p + n + 1) }"

definition bson_iterator_subobject_init :: "bson_env \<Rightarrow> bson_iterator \<Rightarrow> bool \<Rightarrow> (int \<times> bson) option" where
  "bson_iterator_subobject_init E i copyData =
     do {
       v \<leftarrow> bson_iterator_value i;
       if copyData then bson_init_finished_data_with_copy E (drop (nat v) (it_buf i))
       else bson_init_finished_data (drop (nat v) (it_buf i)) False
     }"

definition bson_iterator_subiterator :: "bson_iterator \<Rightarrow> bson_iterator option" where
  "bson_iterator_subiterator i =
     do { v \<leftarrow> bson_iterator_value i; Some (bson_iterator_from_buffer (drop (nat v) (it_buf i))) }"

section \<open>Copying an element\<close>

text \<open>
  \<open>bson_append_element\<close>: the whole element, or its data under another name. The result of
  \<open>bson_append_estart\<close> is not looked at in the second case.
\<close>

definition bson_append_element :: "bson_env \<Rightarrow> bson \<Rightarrow> byte list option \<Rightarrow> bson_iterator \<Rightarrow> (int \<times> bson) option" where
  "bson_append_element E b name elem =
     do {
       (t, nxt) \<leftarrow> bson_iterator_next elem;
       let sz = it_cur nxt - it_cur elem;
       case name of
         None \<Rightarrow> do {
           (r, b) \<leftarrow> bson_ensure_space E b (c_size sz);
           if r = BSON_ERROR then Some (BSON_ERROR, b)
           else do { bs \<leftarrow> mem_get (it_buf elem) (it_cur elem) sz; b \<leftarrow> bson_append b bs; Some (BSON_OK, b) }
         }
       | Some name \<Rightarrow> do {
           n \<leftarrow> strlen (it_buf elem) (bson_iterator_key elem);
           let data_size = sz - 2 - n;
           et \<leftarrow> bson_iterator_type elem;
           (r, b) \<leftarrow> bson_append_estart E b et name (c_size data_size);
           v \<leftarrow> bson_iterator_value elem;
           bs \<leftarrow> mem_get (it_buf elem) v data_size;
           b \<leftarrow> bson_append b bs;
           Some (BSON_OK, b)
         }
     }"

definition bson_append_new_oid ::
  "bson_env \<Rightarrow> bson \<Rightarrow> byte list \<Rightarrow> int \<Rightarrow> int \<Rightarrow> oid_state \<Rightarrow> (int \<times> bson \<times> oid_state) option" where
  "bson_append_new_oid E b name t rnd s =
     (let (oid, s) = bson_oid_gen t rnd s
      in do { (r, b) \<leftarrow> bson_append_oid E b name oid; Some (r, b, s) })"

end
