(* ===== verification/Bson_Laws.thy ===== *)
theory Bson_Laws
  imports Bson
begin

text \<open>
  The builder: the invariant of a \<open>bson\<close> under construction, its content, and the effect of the
  appending functions on the content. The abstract value is a document, a list of named values;
  \<open>enc_doc\<close> is its encoding by the BSON specification.
\<close>

section \<open>Documents and their encoding\<close>

datatype bval =
    VDouble "byte list"
  | VString "byte list"
  | VSymbol "byte list"
  | VCode "byte list"
  | VObject "(byte list \<times> bval) list"
  | VArray "(byte list \<times> bval) list"
  | VBin int "byte list"
  | VUndefined
  | VOid "byte list"
  | VBool bool
  | VDate int
  | VNull
  | VRegex "byte list" "byte list"
  | VInt int
  | VTimestamp int int
  | VLong int

fun val_type :: "bval \<Rightarrow> int" where
  "val_type (VDouble _) = BSON_DOUBLE"
| "val_type (VString _) = BSON_STRING"
| "val_type (VSymbol _) = BSON_SYMBOL"
| "val_type (VCode _) = BSON_CODE"
| "val_type (VObject _) = BSON_OBJECT"
| "val_type (VArray _) = BSON_ARRAY"
| "val_type (VBin _ _) = BSON_BINDATA"
| "val_type VUndefined = BSON_UNDEFINED"
| "val_type (VOid _) = BSON_OID"
| "val_type (VBool _) = BSON_BOOL"
| "val_type (VDate _) = BSON_DATE"
| "val_type VNull = BSON_NULL"
| "val_type (VRegex _ _) = BSON_REGEX"
| "val_type (VInt _) = BSON_INT"
| "val_type (VTimestamp _ _) = BSON_TIMESTAMP"
| "val_type (VLong _) = BSON_LONG"

definition enc_head :: "int \<Rightarrow> byte list \<Rightarrow> byte list" where
  "enc_head t k = word_of_int t # k @ [0]"

definition enc_frame :: "byte list \<Rightarrow> byte list" where
  "enc_frame body = le_bytes 4 (int (length body) + 5) @ body @ [0]"

definition enc_str :: "byte list \<Rightarrow> byte list" where
  "enc_str s = le_bytes 4 (int (length s) + 1) @ s @ [0]"

fun enc_val :: "bval \<Rightarrow> byte list" where
  "enc_val (VDouble d) = d"
| "enc_val (VString s) = enc_str s"
| "enc_val (VSymbol s) = enc_str s"
| "enc_val (VCode s) = enc_str s"
| "enc_val (VObject es) = enc_frame (concat (map (\<lambda>(k, v). enc_head (val_type v) k @ enc_val v) es))"
| "enc_val (VArray es) = enc_frame (concat (map (\<lambda>(k, v). enc_head (val_type v) k @ enc_val v) es))"
| "enc_val (VBin t s) =
     (if t = BSON_BIN_BINARY_OLD
      then le_bytes 4 (int (length s) + 4) @ [word_of_int t] @ le_bytes 4 (int (length s)) @ s
      else le_bytes 4 (int (length s)) @ [word_of_int t] @ s)"
| "enc_val VUndefined = []"
| "enc_val (VOid x) = x"
| "enc_val (VBool x) = [if x then 1 else 0]"
| "enc_val (VDate x) = le_bytes 8 x"
| "enc_val VNull = []"
| "enc_val (VRegex p q) = p @ [0] @ q @ [0]"
| "enc_val (VInt x) = le_bytes 4 x"
| "enc_val (VTimestamp i t) = le_bytes 4 i @ le_bytes 4 t"
| "enc_val (VLong x) = le_bytes 8 x"

definition enc_elem :: "byte list \<times> bval \<Rightarrow> byte list" where
  "enc_elem e = enc_head (val_type (snd e)) (fst e) @ enc_val (snd e)"

definition enc_elems :: "(byte list \<times> bval) list \<Rightarrow> byte list" where
  "enc_elems es = concat (map enc_elem es)"

definition enc_doc :: "(byte list \<times> bval) list \<Rightarrow> byte list" where
  "enc_doc es = enc_frame (enc_elems es)"

lemma enc_object: "enc_val (VObject es) = enc_doc es" "enc_val (VArray es) = enc_doc es"
proof -
  have "(\<lambda>(k, v). enc_head (val_type v) k @ enc_val v) = enc_elem"
    by (auto simp: fun_eq_iff enc_elem_def)
  then show "enc_val (VObject es) = enc_doc es" "enc_val (VArray es) = enc_doc es"
    by (simp_all add: enc_doc_def enc_elems_def)
qed

lemma enc_elems_simps [simp]: "enc_elems [] = []" "enc_elems (e # es) = enc_elem e @ enc_elems es"
  by (simp_all add: enc_elems_def)

section \<open>A builder under construction\<close>

definition bson_wf :: "bson \<Rightarrow> bool" where
  "bson_wf b \<longleftrightarrow>
     (\<exists>d c. b_data b = Some d \<and> b_cur b = Some c \<and> int (length d) = b_dataSize b \<and> 4 \<le> c \<and> c \<le> b_dataSize b
        \<and> b_dataSize b \<le> INT_MAX) \<and> b_ownsData b \<and> \<not> b_finished b
     \<and> length (b_stack b) = b_stackSize b \<and> b_stackPos b \<le> b_stackSize b
     \<and> (b_stackPtr b = StackNull \<longrightarrow> b_stackSize b = 0) \<and> (b_stackPtr b = StackLocal \<longrightarrow> b_stackSize b = 32)
     \<and> (b_stackPtr b = StackHeap \<longrightarrow> 0 < b_stackSize b)"

definition content :: "bson \<Rightarrow> byte list" where
  "content b = slice (the (b_data b)) 4 (the (b_cur b))"

text \<open>The positions of the open sub-objects, innermost last.\<close>

definition opens :: "bson \<Rightarrow> int list" where
  "opens b = take (b_stackPos b) (b_stack b)"

text \<open>\<open>b'\<close> is a later state of \<open>b\<close>, with the bytes \<open>bs\<close> appended.\<close>

definition extends :: "bson \<Rightarrow> byte list \<Rightarrow> bson \<Rightarrow> bool" where
  "extends b bs b' \<longleftrightarrow> bson_wf b' \<and> content b' = content b @ bs \<and> opens b' = opens b"

definition env_good :: "bson_env \<Rightarrow> bool" where
  "env_good E \<longleftrightarrow> (\<forall>n \<ge> 0. \<exists>bs. env_alloc E n = Some bs \<and> length bs = nat n)"

lemma env_goodD: "env_good E \<Longrightarrow> 0 \<le> n \<Longrightarrow> \<exists>bs. env_alloc E n = Some bs \<and> length bs = nat n"
  by (simp add: env_good_def)

lemma bson_wfE:
  assumes "bson_wf b"
  obtains d c where "b_data b = Some d" "b_cur b = Some c" "int (length d) = b_dataSize b" "4 \<le> c" "c \<le> b_dataSize b"
    "b_dataSize b \<le> INT_MAX"
  using assms by (auto simp: bson_wf_def)

lemma content_length: "bson_wf b \<Longrightarrow> b_cur b = Some (4 + int (length (content b)))"
  by (auto simp: bson_wf_def content_def length_slice)

lemma extends_trans: "extends b xs b' \<Longrightarrow> extends b' ys b'' \<Longrightarrow> extends b (xs @ ys) b''"
  by (simp add: extends_def)

lemma extends_refl: "bson_wf b \<Longrightarrow> extends b [] b"
  by (simp add: extends_def)

lemma extends_wf: "extends b bs b' \<Longrightarrow> bson_wf b'"
  by (simp add: extends_def)

text \<open>Room behind the current position.\<close>

definition room :: "bson \<Rightarrow> int" where
  "room b = b_dataSize b - the (b_cur b)"

lemma append_law:
  assumes wf: "bson_wf b" and r: "int (length bs) \<le> room b"
  shows "\<exists>b'. bson_append b bs = Some b' \<and> extends b bs b' \<and> room b' = room b - int (length bs)
    \<and> b_err b' = b_err b \<and> b_stackPos b' = b_stackPos b \<and> b_stack b' = b_stack b \<and> b_stackSize b' = b_stackSize b"
proof -
  from wf obtain d c where d: "b_data b = Some d" "b_cur b = Some c" "int (length d) = b_dataSize b" "4 \<le> c"
    "c \<le> b_dataSize b" "b_dataSize b \<le> INT_MAX" by (rule bson_wfE)
  obtain d' where d': "mem_put d c bs = Some d'"
    using mem_put_defined [of d c bs] d r by (auto simp: room_def)
  let ?b = "b\<lparr>b_data := Some d', b_cur := Some (c + int (length bs))\<rparr>"
  have run: "bson_append b bs = Some ?b" using d d' by (simp add: bson_append_def)
  have len: "length d' = length d" using d' by (rule mem_put_length)
  have "bson_wf ?b" using wf d r len by (auto simp: bson_wf_def room_def)
  moreover have "slice d' 4 c = slice d 4 c" by (rule mem_put_below [OF d']) (use d in simp_all)
  then have "slice d' 4 (c + int (length bs)) = slice d 4 c @ bs"
    using slice_append [of 4 c "c + int (length bs)" d'] mem_put_same [OF d'] d by simp
  then have "content ?b = content b @ bs" using d by (simp add: content_def)
  ultimately have "extends b bs ?b" by (simp add: extends_def opens_def)
  with run d show ?thesis by (simp add: room_def)
qed

section \<open>Making room\<close>

text \<open>The buffer is at most about three times what is used, as long as it started small.\<close>

definition lean :: "bson \<Rightarrow> bool" where
  "lean b \<longleftrightarrow> b_dataSize b \<le> 131 + 3 * the (b_cur b)"

lemma grown_size_bounds:
  assumes "0 \<le> n" "\<not> grown_size n < m" "m \<le> n" "0 \<le> m"
  shows "n \<le> grown_size n \<and> grown_size n \<le> INT_MAX \<and> grown_size n \<le> 3 * n div 2"
  using assms by (auto simp: grown_size_def INT_MIN_def split: if_splits)

lemma grown_size_overflow: "grown_size n < m \<Longrightarrow> m \<le> n \<Longrightarrow> 0 \<le> m \<Longrightarrow> INT_MAX \<le> 3 * n div 2"
  by (auto simp: grown_size_def split: if_splits)

text \<open>What a step leaves alone.\<close>

definition same_stack :: "bson \<Rightarrow> bson \<Rightarrow> bool" where
  "same_stack b b' \<longleftrightarrow> b_stackPos b' = b_stackPos b \<and> b_stack b' = b_stack b \<and> b_stackSize b' = b_stackSize b"

lemma realloc_good:
  assumes E: "env_good E" and n: "int (length d) \<le> n"
  shows "\<exists>x. bson_realloc E (Some d) n = Some (d @ x) \<and> int (length (d @ x)) = n"
proof -
  have "0 \<le> n" using n by simp
  with E obtain new where new: "env_alloc E n = Some new" "length new = nat n"
    unfolding env_good_def by blast
  let ?x = "drop (length d) new"
  have "take (nat n) (d @ ?x) = d @ ?x" using n new by simp
  then have "bson_realloc E (Some d) n = Some (d @ ?x)"
    unfolding bson_realloc_def new(1) option.simps(9) option.simps(5) by simp
  moreover have "int (length (d @ ?x)) = n" using n new by simp
  ultimately show ?thesis by blast
qed

lemma ensure_space_law:
  assumes wf: "bson_wf b" and E: "env_good E" and n: "0 \<le> n" "n < 2 ^ 40"
  shows "\<exists>r b'. bson_ensure_space E b n = Some (r, b') \<and> extends b [] b' \<and> same_stack b b'
    \<and> (r = BSON_OK \<and> n \<le> room b' \<and> b_err b' = b_err b \<and> b_dataSize b' \<le> max (b_dataSize b) (3 * (the (b_cur b) + n))
       \<or> r = BSON_ERROR \<and> INT_MAX \<le> b_dataSize b + n)"
proof -
  from wf obtain d c where d: "b_data b = Some d" "b_cur b = Some c" "int (length d) = b_dataSize b" "4 \<le> c"
    "c \<le> b_dataSize b" "b_dataSize b \<le> INT_MAX" by (rule bson_wfE)
  have ci: "c_size (c + n) = c + n" "c_size (b_dataSize b) = b_dataSize b" "c_size (b_dataSize b + n) = b_dataSize b + n"
    using d n by (auto intro!: c_size_id simp: INT_MAX_def)
  show ?thesis
  proof (cases "c + n \<le> b_dataSize b")
    case True
    then have "bson_ensure_space E b n = Some (BSON_OK, b)"
      using d ci by (simp add: bson_ensure_space_def bson_position_def)
    with True d wf show ?thesis by (simp add: extends_refl room_def same_stack_def)
  next
    case False
    let ?t = "b_dataSize b + n"
    define ns where "ns = (if grown_size ?t < b_dataSize b then INT_MAX else grown_size ?t)"
    have own: "b_ownsData b" using wf by (simp add: bson_wf_def)
    show ?thesis
    proof (cases "grown_size ?t < b_dataSize b \<and> \<not> ?t < INT_MAX")
      case True
      then have "bson_ensure_space E b n = Some (BSON_ERROR, b\<lparr>b_err := BSON_SIZE_OVERFLOW\<rparr>)"
        using False d ci by (simp add: bson_ensure_space_def bson_position_def Let_def)
      moreover have "extends b [] (b\<lparr>b_err := BSON_SIZE_OVERFLOW\<rparr>)"
        using wf by (simp add: extends_def content_def opens_def bson_wf_def)
      ultimately show ?thesis using True by (simp add: same_stack_def)
    next
      case ok: False
      have ns: "?t \<le> ns" "ns \<le> INT_MAX" "ns \<le> 3 * ?t div 2"
        using ok n d grown_size_bounds [of ?t "b_dataSize b"] grown_size_overflow [of ?t "b_dataSize b"]
        by (auto simp: ns_def split: if_splits)
      obtain x where x: "bson_realloc E (Some d) ns = Some (d @ x)" "int (length (d @ x)) = ns"
        using realloc_good [OF E, of d ns] ns n d by auto
      let ?b = "b\<lparr>b_data := Some (d @ x), b_dataSize := ns\<rparr>"
      have run: "bson_ensure_space E b n = Some (BSON_OK, ?b)"
        using False ok d ci own x(1) unfolding bson_ensure_space_def bson_position_def Let_def ns_def by auto
      have "slice (d @ x) 4 c = slice d 4 c" using d by (simp add: slice_def)
      then have "extends b [] ?b"
        using wf d ns n x(2) by (auto simp: extends_def content_def opens_def bson_wf_def)
      moreover have "ns \<le> 3 * (c + n)" using ns(3) False n d(4) by simp
      ultimately show ?thesis using run ns d by (auto simp: room_def same_stack_def)
    qed
  qed
qed

section \<open>Elements\<close>

text \<open>
  The checks of \<open>encoding.h\<close> pass: they report success and leave the error mask alone. A builder
  has space for \<open>n\<close> bytes when it stays below \<open>2^29\<close>, which keeps the growth of the buffer below
  \<open>INT_MAX\<close>.
\<close>

definition name_passes :: "bson_env \<Rightarrow> byte list \<Rightarrow> bool" where
  "name_passes E s \<longleftrightarrow> (\<forall>e. env_check_field_name E s e = (BSON_OK, e))"

definition string_passes :: "bson_env \<Rightarrow> byte list \<Rightarrow> bool" where
  "string_passes E s \<longleftrightarrow> (\<forall>e. env_check_string E s e = (BSON_OK, e))"

definition fits :: "bson \<Rightarrow> int \<Rightarrow> bool" where
  "fits b n \<longleftrightarrow> the (b_cur b) + n \<le> 2 ^ 29"

text \<open>
  The contract of an appending function: it is defined, it leaves a builder, it appends \<open>bs\<close> when
  it succeeds, and it succeeds, with the error mask unchanged, when \<open>good\<close> holds.
\<close>

definition appends :: "bson \<Rightarrow> byte list \<Rightarrow> bool \<Rightarrow> (int \<times> bson) option \<Rightarrow> bool" where
  "appends b bs good res \<longleftrightarrow>
     (\<exists>r b'. res = Some (r, b') \<and> bson_wf b'
        \<and> (r = BSON_OK \<and> extends b bs b' \<and> lean b' \<and> (good \<longrightarrow> b_err b' = b_err b) \<or> r = BSON_ERROR \<and> \<not> good))"

lemma appendsE:
  assumes "appends b bs good res"
  obtains (ok) b' where "res = Some (BSON_OK, b')" "extends b bs b'" "bson_wf b'" "lean b'" "good \<Longrightarrow> b_err b' = b_err b"
  | (error) b' where "res = Some (BSON_ERROR, b')" "bson_wf b'" "\<not> good"
  using assms unfolding appends_def by blast

lemma appends_ok:
  "extends b bs b' \<Longrightarrow> lean b' \<Longrightarrow> (good \<Longrightarrow> b_err b' = b_err b) \<Longrightarrow> appends b bs good (Some (BSON_OK, b'))"
  by (auto simp: appends_def extends_wf)

lemma appends_error: "bson_wf b' \<Longrightarrow> \<not> good \<Longrightarrow> appends b bs good (Some (BSON_ERROR, b'))"
  by (auto simp: appends_def)

lemma OK_not_ERROR [simp]: "BSON_OK \<noteq> BSON_ERROR" "BSON_ERROR \<noteq> BSON_OK"
  by (simp_all add: BSON_OK_def BSON_ERROR_def)

lemma err_irrelevant [simp]:
  "bson_wf (b\<lparr>b_err := e\<rparr>) = bson_wf b" "content (b\<lparr>b_err := e\<rparr>) = content b" "opens (b\<lparr>b_err := e\<rparr>) = opens b"
  "lean (b\<lparr>b_err := e\<rparr>) = lean b" "room (b\<lparr>b_err := e\<rparr>) = room b" "fits (b\<lparr>b_err := e\<rparr>) n = fits b n"
  "extends b bs (c\<lparr>b_err := e\<rparr>) = extends b bs c" "extends (b\<lparr>b_err := e\<rparr>) bs c = extends b bs c"
  by (simp_all add: bson_wf_def content_def opens_def lean_def room_def fits_def extends_def)

lemma extends_cur:
  "bson_wf b \<Longrightarrow> extends b bs b' \<Longrightarrow> the (b_cur b') = the (b_cur b) + int (length bs)"
  using content_length [of b] content_length [of b'] by (simp add: extends_def)

lemma extends_fits: "bson_wf b \<Longrightarrow> extends b bs b' \<Longrightarrow> fits b' n \<longleftrightarrow> fits b (int (length bs) + n)"
  by (simp add: fits_def extends_cur add.assoc)

lemma lean_fits: "lean b \<Longrightarrow> bson_wf b \<Longrightarrow> fits b n \<Longrightarrow> 0 \<le> n \<Longrightarrow> b_dataSize b + n < INT_MAX"
  by (auto simp: lean_def fits_def INT_MAX_def bson_wf_def)

lemma length_enc_head [simp]: "length (enc_head t k) = length k + 2"
  by (simp add: enc_head_def)

lemma append_lean:
  "bson_wf b \<Longrightarrow> extends b bs b' \<Longrightarrow> b_dataSize b' \<le> 131 + 3 * (the (b_cur b) + int (length bs)) \<Longrightarrow> lean b'"
  by (simp add: lean_def extends_cur)

lemma append_size: "bson_append b bs = Some b' \<Longrightarrow> b_dataSize b' = b_dataSize b"
  by (auto simp: bson_append_def split: bind_splits)

definition small :: "byte list \<Rightarrow> bool" where
  "small s \<longleftrightarrow> int (length s) < 2 ^ 34"

lemma estart_law:
  assumes wf: "bson_wf b" and L: "lean b" and E: "env_good E" and n: "0 \<le> n" "n < 2 ^ 36" and nm: "small name"
  shows "\<exists>r b'. bson_append_estart E b t name n = Some (r, b') \<and> bson_wf b' \<and>
    (r = BSON_OK \<and> extends b (enc_head t name) b' \<and> same_stack b b' \<and> n \<le> room b'
       \<and> b_dataSize b' \<le> max (131 + 3 * the (b_cur b')) (3 * (the (b_cur b') + n)) \<and> b_err b' = snd (env_check_field_name E name (b_err b))
     \<or> r = BSON_ERROR \<and> extends b [] b' \<and> \<not> (name_passes E name \<and> fits b (int (length name) + 2 + n)))"
proof -
  let ?n = "int (length name) + 2 + n"
  have sz: "c_size (1 + (int (length name) + 1) + n) = ?n"
    using n nm by (subst c_size_id) (auto simp: small_def)
  have fin: "\<not> b_finished b" using wf by (simp add: bson_wf_def)
  obtain r b1 where e: "bson_ensure_space E b ?n = Some (r, b1)" "extends b [] b1" "same_stack b b1"
    and r: "r = BSON_OK \<and> ?n \<le> room b1 \<and> b_err b1 = b_err b
        \<and> b_dataSize b1 \<le> max (b_dataSize b) (3 * (the (b_cur b) + ?n))
       \<or> r = BSON_ERROR \<and> INT_MAX \<le> b_dataSize b + ?n"
    using ensure_space_law [OF wf E, of ?n] n nm by (auto simp: small_def)
  show ?thesis
  proof (cases "r = BSON_ERROR")
    case True
    then have "\<not> fits b ?n" using r lean_fits [OF L wf, of ?n] n by auto
    then show ?thesis using True e fin sz by (auto simp: bson_append_estart_def Let_def extends_wf)
  next
    case False
    then have ok: "r = BSON_OK" "?n \<le> room b1" "b_err b1 = b_err b"
      "b_dataSize b1 \<le> max (b_dataSize b) (3 * (the (b_cur b) + ?n))" using r by auto
    obtain q err where q: "env_check_field_name E name (b_err b) = (q, err)" by (metis surj_pair)
    have wf1: "bson_wf (b1\<lparr>b_err := err\<rparr>)" using e by (simp add: extends_wf)
    show ?thesis
    proof (cases "q = BSON_ERROR")
      case True
      then have "\<not> name_passes E name" using q by (auto simp: name_passes_def intro!: exI [of _ "b_err b"])
      then show ?thesis using True e fin sz ok q wf1 False by (auto simp: bson_append_estart_def Let_def)
    next
      case qok: False
      obtain b2 where b2: "bson_append (b1\<lparr>b_err := err\<rparr>) [word_of_int t] = Some b2"
        "extends (b1\<lparr>b_err := err\<rparr>) [word_of_int t] b2" "room b2 = room b1 - 1" "b_err b2 = err" "same_stack b1 b2"
        using append_law [OF wf1, of "[word_of_int t]"] ok n by (auto simp: same_stack_def)
      obtain b3 where b3: "bson_append b2 (name @ [0]) = Some b3" "extends b2 (name @ [0]) b3"
        "room b3 = room b2 - int (length (name @ [0]))" "b_err b3 = b_err b2" "same_stack b2 b3"
        using append_law [OF extends_wf [OF b2(2)], of "name @ [0]"] ok n b2 by (auto simp: same_stack_def)
      have run: "bson_append_estart E b t name n = Some (BSON_OK, b3)"
        using e fin sz ok q qok b2(1) b3(1) by (simp add: bson_append_estart_def Let_def bson_append_byte_def)
      have x: "extends b (enc_head t name) b3"
        using extends_trans [OF extends_trans [OF e(2), of "[word_of_int t]" b2] b3(2)] b2(2) by (simp add: enc_head_def)
      have "b_dataSize b3 = b_dataSize b1" using append_size [OF b2(1)] append_size [OF b3(1)] by simp
      moreover have "the (b_cur b3) = the (b_cur b) + int (length name) + 2" using extends_cur [OF wf x] by simp
      ultimately have "b_dataSize b3 \<le> max (131 + 3 * the (b_cur b3)) (3 * (the (b_cur b3) + n))" using ok L n by (auto simp: lean_def)
      then show ?thesis using run x ok b2 b3 e q by (auto simp: extends_wf same_stack_def)
    qed
  qed
qed

text \<open>Writing behind the current position, in one or several pieces.\<close>

definition writes :: "bson \<Rightarrow> byte list \<Rightarrow> bson \<Rightarrow> bool" where
  "writes b bs b' \<longleftrightarrow> extends b bs b' \<and> room b' = room b - int (length bs) \<and> b_err b' = b_err b
     \<and> b_dataSize b' = b_dataSize b \<and> same_stack b b'"

lemma writes_wf: "writes b bs b' \<Longrightarrow> bson_wf b'"
  by (auto simp: writes_def intro: extends_wf)

lemma writes_room: "writes b bs b' \<Longrightarrow> room b' = room b - int (length bs)"
  by (simp add: writes_def)

lemma append_writes:
  "bson_wf b \<Longrightarrow> int (length bs) \<le> room b \<Longrightarrow> \<exists>b'. bson_append b bs = Some b' \<and> writes b bs b'"
  using append_law [of b bs] append_size [of b bs] by (auto simp: writes_def same_stack_def)

lemma writes_trans: "writes b xs b' \<Longrightarrow> writes b' ys b'' \<Longrightarrow> writes b (xs @ ys) b''"
  by (auto simp: writes_def same_stack_def extends_def)

lemma append_return:
  "bson_wf b \<Longrightarrow> int (length bs) \<le> room b \<Longrightarrow>
   \<exists>b'. Option.bind (bson_append b bs) (\<lambda>b. Some (BSON_OK, b)) = Some (BSON_OK, b') \<and> writes b bs b'"
  using append_writes [of b bs] by auto

lemma append_bind:
  assumes "bson_wf b" "int (length bs) \<le> room b"
    and "\<And>b1. bson_wf b1 \<Longrightarrow> room b1 = room b - int (length bs) \<Longrightarrow> \<exists>b2. F b1 = Some (BSON_OK, b2) \<and> writes b1 cs b2"
  shows "\<exists>b2. Option.bind (bson_append b bs) F = Some (BSON_OK, b2) \<and> writes b (bs @ cs) b2"
proof -
  obtain b1 where b1: "bson_append b bs = Some b1" "writes b bs b1" using append_writes assms(1,2) by blast
  obtain b2 where "F b1 = Some (BSON_OK, b2)" "writes b1 cs b2"
    using assms(3) [OF writes_wf [OF b1(2)] writes_room [OF b1(2)]] by blast
  then show ?thesis using b1 writes_trans by auto
qed

text \<open>An element: its head, then exactly the bytes announced to \<open>bson_append_estart\<close>.\<close>

lemma element_law_guarded:
  assumes wf: "bson_wf b" and L: "lean b" and E: "env_good E" and nm: "small name"
    and n: "n = int (length bs)" "n < 2 ^ 36"
    and F: "\<And>b'. bson_wf b' \<Longrightarrow> n \<le> room b' \<Longrightarrow>
        (\<exists>b''. F b' = Some (BSON_OK, b'') \<and> extends b' bs b'' \<and> b_dataSize b'' = b_dataSize b' \<and> (good \<longrightarrow> b_err b'' = b_err b'))
      \<or> (\<exists>b''. F b' = Some (BSON_ERROR, b'') \<and> bson_wf b'' \<and> \<not> good)"
  shows "appends b (enc_head t name @ bs) (name_passes E name \<and> good \<and> fits b (int (length (enc_head t name @ bs))))
    (Option.bind (bson_append_estart E b t name n) (\<lambda>(r, b). if r = BSON_ERROR then Some (BSON_ERROR, b) else F b))"
proof -
  have n0: "0 \<le> n" using n by simp
  have len: "int (length (enc_head t name @ bs)) = int (length name) + 2 + n" using n by simp
  obtain r b1 where e: "bson_append_estart E b t name n = Some (r, b1)" "bson_wf b1"
    and r: "r = BSON_OK \<and> extends b (enc_head t name) b1 \<and> same_stack b b1 \<and> n \<le> room b1
       \<and> b_dataSize b1 \<le> max (131 + 3 * the (b_cur b1)) (3 * (the (b_cur b1) + n)) \<and> b_err b1 = snd (env_check_field_name E name (b_err b))
     \<or> r = BSON_ERROR \<and> extends b [] b1 \<and> \<not> (name_passes E name \<and> fits b (int (length name) + 2 + n))"
    using estart_law [OF wf L E n0 n(2) nm, of t] by blast
  show ?thesis
  proof (cases "r = BSON_ERROR")
    case True
    then have "\<not> (name_passes E name \<and> good \<and> fits b (int (length (enc_head t name @ bs))))" using r unfolding len by auto
    from appends_error [OF e(2) this] show ?thesis using True e(1) by simp
  next
    case False
    then have ok: "r = BSON_OK" "extends b (enc_head t name) b1" "n \<le> room b1"
      "b_dataSize b1 \<le> max (131 + 3 * the (b_cur b1)) (3 * (the (b_cur b1) + n))" "b_err b1 = snd (env_check_field_name E name (b_err b))"
      using r by auto
    show ?thesis using F [OF e(2) ok(3)]
    proof (elim disjE exE conjE)
      fix b2 assume b2: "F b1 = Some (BSON_OK, b2)" "extends b1 bs b2" "b_dataSize b2 = b_dataSize b1"
        "good \<longrightarrow> b_err b2 = b_err b1"
      have x: "extends b (enc_head t name @ bs) b2" using extends_trans [OF ok(2) b2(2)] .
      have "lean b2" "name_passes E name \<and> good \<Longrightarrow> b_err b2 = b_err b"
        using ok b2 append_lean [OF e(2) b2(2)] n by (simp_all add: name_passes_def)
      then show ?thesis using e ok b2 x by (auto intro!: appends_ok)
    next
      fix b2 assume b2: "F b1 = Some (BSON_ERROR, b2)" "bson_wf b2" "\<not> good"
      then show ?thesis using e ok by (auto intro!: appends_error)
    qed
  qed
qed

lemma element_law:
  assumes "bson_wf b" "lean b" "env_good E" "small name" "n = int (length bs)" "n < 2 ^ 36"
    and F: "\<And>b'. bson_wf b' \<Longrightarrow> n \<le> room b' \<Longrightarrow> \<exists>b''. F b' = Some (BSON_OK, b'') \<and> writes b' bs b''"
  shows "appends b (enc_head t name @ bs) (name_passes E name \<and> fits b (int (length (enc_head t name @ bs))))
    (Option.bind (bson_append_estart E b t name n) (\<lambda>(r, b). if r = BSON_ERROR then Some (BSON_ERROR, b) else F b))"
  using element_law_guarded [OF assms(1-6), of F True t] F by (fastforce simp: writes_def)

lemma fixed_law:
  assumes "bson_wf b" "lean b" "env_good E" "small name" "n = int (length bs)" "n < 2 ^ 36"
  shows "appends b (enc_head t name @ bs) (name_passes E name \<and> fits b (int (length (enc_head t name @ bs))))
    (append_fixed E b t name n bs)"
  unfolding append_fixed_def
  by (rule element_law [OF assms]) (use assms in \<open>auto intro!: append_return\<close>)

lemma appends_weaken: "appends b bs good res \<Longrightarrow> (good' \<Longrightarrow> good) \<Longrightarrow> appends b bs good' res"
  unfolding appends_def by blast

end
