(* ===== verification/Bson_Build.thy ===== *)
theory Bson_Build
  imports Bson_Laws
begin

text \<open>
  The appending functions of \<open>bson.c\<close> one by one, sub-objects included, each against the contract
  \<open>appends\<close>, and a client that builds a whole document with them.
\<close>

section \<open>Strings and binary data\<close>

lemma appends_err:
  "appends (b\<lparr>b_err := e\<rparr>) bs good res \<Longrightarrow> (good' \<Longrightarrow> good \<and> e = b_err b) \<Longrightarrow> appends b bs good' res"
  unfolding appends_def by auto

lemma length_enc_str [simp]: "length (enc_str s) = length s + 5"
  by (simp add: enc_str_def)

lemma string_base_law:
  assumes wf: "bson_wf b" and L: "lean b" and E: "env_good E" and nm: "small name" and s: "small s"
  shows "appends b (enc_head t name @ enc_str s)
     (name_passes E name \<and> string_passes E s \<and> fits b (int (length (enc_head t name @ enc_str s))))
     (bson_append_string_base E b name (s @ z) (int (length s)) t)"
proof -
  let ?sl = "int (length s) + 1"
  have sl: "c_size ?sl = ?sl" using s by (intro c_size_id) (auto simp: small_def)
  have get: "mem_get (s @ z) 0 (?sl - 1) = Some s" by (simp add: mem_get_def)
  obtain q err where q: "env_check_string E s (b_err b) = (q, err)" by (metis surj_pair)
  have pass: "q = BSON_OK" "err = b_err b" if "string_passes E s" using q that by (simp_all add: string_passes_def)
  consider (big) "INT_MAX < ?sl" | (bad) "\<not> INT_MAX < ?sl" "q = BSON_ERROR"
    | (ok) "\<not> INT_MAX < ?sl" "q \<noteq> BSON_ERROR" by blast
  then show ?thesis
  proof cases
    case big
    then have "\<not> fits b (int (length (enc_head t name @ enc_str s)))"
      using wf by (auto simp: fits_def INT_MAX_def bson_wf_def)
    then show ?thesis using big sl wf by (auto simp: bson_append_string_base_def intro!: appends_error)
  next
    case bad
    then have "\<not> string_passes E s" using pass by auto
    then show ?thesis using bad sl get q wf by (auto simp: bson_append_string_base_def intro!: appends_error)
  next
    case ok
    let ?F = "\<lambda>b. do { b \<leftarrow> bson_append32_as_int b (c_int ?sl); b \<leftarrow> bson_append b s; b \<leftarrow> bson_append b [0];
      Some (BSON_OK, b) }"
    have w: "\<exists>b''. ?F b' = Some (BSON_OK, b'') \<and> writes b' (enc_str s) b''" if "bson_wf b'" "4 + ?sl \<le> room b'" for b'
    proof -
      have "c_int ?sl = ?sl" using ok by (intro c_int_small) auto
      then show ?thesis unfolding enc_str_def bson_append32_as_int_def
        by (simp only:) (intro append_bind append_return; use that in simp)
    qed
    have "appends (b\<lparr>b_err := err\<rparr>) (enc_head t name @ enc_str s)
      (name_passes E name \<and> fits (b\<lparr>b_err := err\<rparr>) (int (length (enc_head t name @ enc_str s))))
      (Option.bind (bson_append_estart E (b\<lparr>b_err := err\<rparr>) t name (4 + ?sl))
        (\<lambda>(r, b). if r = BSON_ERROR then Some (BSON_ERROR, b) else ?F b))"
      by (rule element_law) (use wf L E nm w ok in \<open>auto simp: INT_MAX_def\<close>)
    then have "appends b (enc_head t name @ enc_str s)
      (name_passes E name \<and> string_passes E s \<and> fits b (int (length (enc_head t name @ enc_str s))))
      (Option.bind (bson_append_estart E (b\<lparr>b_err := err\<rparr>) t name (4 + ?sl))
        (\<lambda>(r, b). if r = BSON_ERROR then Some (BSON_ERROR, b) else ?F b))"
      by (rule appends_err) (use pass in auto)
    then show ?thesis using ok sl get q by (simp add: bson_append_string_base_def Let_def)
  qed
qed

lemmas append_bind1 = append_bind [where bs = "[x]" for x, unfolded append_Cons append_Nil]

lemma binary_law:
  assumes wf: "bson_wf b" and L: "lean b" and E: "env_good E" and nm: "small name" and s: "int (length s) \<le> INT_MAX - 4"
  shows "appends b (enc_head BSON_BINDATA name @ enc_val (VBin t s))
     (name_passes E name \<and> fits b (int (length (enc_head BSON_BINDATA name @ enc_val (VBin t s)))))
     (bson_append_binary E b name t (s @ z) (int (length s)))"
proof -
  let ?n = "int (length s)"
  have get: "mem_get (s @ z) 0 ?n = Some s" by (simp add: mem_get_def)
  have sz: "c_size (4 + 1 + 4 + ?n) = 9 + ?n" "c_size (4 + 1 + ?n) = 5 + ?n" "c_int (?n + 4) = ?n + 4" "c_int ?n = ?n"
    using s by (auto simp: INT_MAX_def intro!: c_size_id c_int_small)
  note unf = bson_append_binary_def bson_append32_as_int_def bson_append_byte_def sz get
  show ?thesis
  proof (cases "t = BSON_BIN_BINARY_OLD")
    case True
    show ?thesis unfolding unf if_P [OF True]
      by (rule element_law [OF wf L E nm])
         (use s True in \<open>auto simp: INT_MAX_def intro!: append_bind append_bind1 append_return\<close>)
  next
    case False
    show ?thesis unfolding unf if_not_P [OF False]
      by (rule element_law [OF wf L E nm])
         (use s False in \<open>auto simp: INT_MAX_def intro!: append_bind append_bind1 append_return\<close>)
  qed
qed

lemma regex_law:
  assumes wf: "bson_wf b" and L: "lean b" and E: "env_good E" and nm: "small name" and s: "small p" "small q"
  shows "appends b (enc_head BSON_REGEX name @ p @ [0] @ q @ [0])
     (name_passes E name \<and> string_passes E p \<and> fits b (int (length (enc_head BSON_REGEX name @ p @ [0] @ q @ [0]))))
     (bson_append_regex E b name p q)"
  unfolding bson_append_regex_def
proof (rule element_law_guarded [OF wf L E nm])
  show "int (length p) + 1 + (int (length q) + 1) = int (length (p @ [0] @ q @ [0]))" by simp
  show "int (length p) + 1 + (int (length q) + 1) < 2 ^ 36" using s by (simp add: small_def)
  fix b' assume wf': "bson_wf b'" and room: "int (length p) + 1 + (int (length q) + 1) \<le> room b'"
  obtain c err where c: "env_check_string E p (b_err b') = (c, err)" by (metis surj_pair)
  have pass: "string_passes E p \<Longrightarrow> c = BSON_OK \<and> err = b_err b'" using c by (simp add: string_passes_def)
  let ?F = "\<lambda>b. do { b \<leftarrow> bson_append b (p @ [0]); b \<leftarrow> bson_append b (q @ [0]); Some (BSON_OK, b) }"
  have "\<exists>b''. ?F (b'\<lparr>b_err := err\<rparr>) = Some (BSON_OK, b'') \<and> writes (b'\<lparr>b_err := err\<rparr>) ((p @ [0]) @ q @ [0]) b''"
    by (intro append_bind append_return) (use wf' room in auto)
  then show "(\<exists>b''. (let (r, err) = env_check_string E p (b_err b'); b = b'\<lparr>b_err := err\<rparr>
         in if r = BSON_ERROR then Some (BSON_ERROR, b) else ?F b) = Some (BSON_OK, b'') \<and>
        extends b' (p @ [0] @ q @ [0]) b'' \<and> b_dataSize b'' = b_dataSize b' \<and> (string_passes E p \<longrightarrow> b_err b'' = b_err b')) \<or>
    (\<exists>b''. (let (r, err) = env_check_string E p (b_err b'); b = b'\<lparr>b_err := err\<rparr>
         in if r = BSON_ERROR then Some (BSON_ERROR, b) else ?F b) = Some (BSON_ERROR, b'') \<and> bson_wf b'' \<and> \<not> string_passes E p)"
    using c wf' pass by (auto simp: writes_def Let_def)
qed

lemma empty_law:
  assumes "bson_wf b" "lean b" "env_good E" "small name"
  shows "appends b (enc_head t name) (name_passes E name \<and> fits b (int (length (enc_head t name))))
    (bson_append_estart E b t name 0)"
proof -
  have "\<exists>b''. Some (BSON_OK, b') = Some (BSON_OK, b'') \<and> writes b' [] b''" if "bson_wf b'" for b'
    using that by (simp add: writes_def extends_refl same_stack_def)
  from element_law [OF assms, of 0 "[]" "\<lambda>b. Some (BSON_OK, b)" t, OF _ _ this]
  have a: "appends b (enc_head t name) (name_passes E name \<and> fits b (int (length (enc_head t name))))
    (Option.bind (bson_append_estart E b t name 0) (\<lambda>(r, b). if r = BSON_ERROR then Some (BSON_ERROR, b) else Some (BSON_OK, b)))"
    by simp
  obtain r b' where "bson_append_estart E b t name 0 = Some (r, b')" "r = BSON_OK \<or> r = BSON_ERROR"
    using estart_law [OF assms(1-3) _ _ assms(4), of 0 t] by auto
  then show ?thesis using a by auto
qed

section \<open>Sub-objects\<close>

lemma grow_stack_law:
  assumes wf: "bson_wf b" and E: "env_good E"
  shows "\<exists>b'. bson_append_grow_stack E b = Some (BSON_OK, b') \<and> extends b [] b' \<and> b_stackPos b' = b_stackPos b
    \<and> b_stackSize b < b_stackSize b' \<and> room b' = room b \<and> b_err b' = b_err b \<and> b_dataSize b' = b_dataSize b"
proof -
  have al: "\<exists>x. env_alloc E n = Some x" if "0 \<le> n" for n using E that by (auto simp: env_good_def)
  show ?thesis
    using wf al [of "2 * 256"] al [of "int (b_stackSize b) * 2 * 8"]
    by (cases "b_stackPtr b")
       (auto simp: bson_append_grow_stack_def bson_malloc_def extends_def bson_wf_def content_def opens_def room_def)
qed

text \<open>
  Opening a sub-object: the head and a length field, whose position goes on the stack.
\<close>

lemma start_law:
  assumes wf: "bson_wf b" and L: "lean b" and E: "env_good E" and nm: "small name"
  shows "\<exists>r b'. append_start E b t name = Some (r, b') \<and> bson_wf b' \<and>
    (r = BSON_OK \<and> content b' = content b @ enc_head t name @ le_bytes 4 0 \<and> lean b'
       \<and> opens b' = opens b @ [the (b_cur b) + int (length name) + 2] \<and> (name_passes E name \<longrightarrow> b_err b' = b_err b)
     \<or> r = BSON_ERROR \<and> \<not> (name_passes E name \<and> fits b (int (length name) + 7)))"
proof -
  obtain r b1 where e: "bson_append_estart E b t name 5 = Some (r, b1)" "bson_wf b1"
    and r: "r = BSON_OK \<and> extends b (enc_head t name) b1 \<and> same_stack b b1 \<and> 5 \<le> room b1
       \<and> b_dataSize b1 \<le> max (131 + 3 * the (b_cur b1)) (3 * (the (b_cur b1) + 5)) \<and> b_err b1 = snd (env_check_field_name E name (b_err b))
     \<or> r = BSON_ERROR \<and> extends b [] b1 \<and> \<not> (name_passes E name \<and> fits b (int (length name) + 2 + 5))"
    using estart_law [OF wf L E _ _ nm, of 5 t] by auto
  show ?thesis
  proof (cases "r = BSON_ERROR")
    case True
    then show ?thesis using e r by (auto simp: append_start_def add.commute)
  next
    case False
    then have ok: "r = BSON_OK" "extends b (enc_head t name) b1" "5 \<le> room b1"
      "b_dataSize b1 \<le> 131 + 3 * (the (b_cur b1) + 4)" "b_err b1 = snd (env_check_field_name E name (b_err b))"
      using r by auto
    obtain b2 where b2: "(if b_stackSize b1 \<le> b_stackPos b1 then bson_append_grow_stack E b1 else Some (BSON_OK, b1)) = Some (BSON_OK, b2)"
      "extends b1 [] b2" "b_stackPos b2 < b_stackSize b2" "room b2 = room b1" "b_err b2 = b_err b1" "b_dataSize b2 = b_dataSize b1"
    proof (cases "b_stackSize b1 \<le> b_stackPos b1")
      case True
      then show thesis using grow_stack_law [OF e(2) E] that e(2) by (fastforce simp: bson_wf_def)
    next
      case False
      then show thesis using that [of b1] e(2) by (simp add: extends_refl)
    qed
    have wf2: "bson_wf b2" using b2(2) by (rule extends_wf)
    obtain c where c: "b_cur b2 = Some c" using wf2 by (auto simp: bson_wf_def)
    let ?b3 = "b2\<lparr>b_stack := (b_stack b2)[b_stackPos b2 := c], b_stackPos := b_stackPos b2 + 1\<rparr>"
    have st: "b_stackPos b2 < length (b_stack b2)" using wf2 b2(3) by (simp add: bson_wf_def)
    have wf3: "bson_wf ?b3" using wf2 b2(3) by (auto simp: bson_wf_def)
    obtain b4 where b4: "bson_append ?b3 (le_bytes 4 0) = Some b4" "writes ?b3 (le_bytes 4 0) b4"
      using append_writes [OF wf3, of "le_bytes 4 0"] b2(4) ok(3) by (auto simp: room_def)
    have run: "append_start E b t name = Some (BSON_OK, b4)"
      using e ok b2(1) c st b4(1) by (simp add: append_start_def bson_position_def)
    have x: "extends b (enc_head t name) b2" using extends_trans [OF ok(2) b2(2)] by simp
    have cc: "c = the (b_cur b) + int (length name) + 2" using extends_cur [OF wf x] c by simp
    have "opens ?b3 = opens b2 @ [c]" using st by (simp add: opens_def take_Suc_conv_app_nth)
    then have op: "opens b4 = opens b @ [c]" using b4(2) x by (simp add: writes_def extends_def)
    have "content ?b3 = content b2" by (simp add: content_def)
    then have ct: "content b4 = content b @ enc_head t name @ le_bytes 4 0"
      using b4(2) x by (simp add: writes_def extends_def)
    have "the (b_cur b4) = c + 4" using extends_cur [OF wf3, of _ b4] b4(2) c by (auto simp: writes_def)
    moreover have "the (b_cur b1) = c" using extends_cur [OF e(2) b2(2)] c by simp
    ultimately have "lean b4" using ok(4) b4(2) b2(6) by (simp add: lean_def writes_def)
    moreover have "name_passes E name \<longrightarrow> b_err b4 = b_err b"
      using b4(2) b2(5) ok(5) by (simp add: writes_def name_passes_def)
    ultimately show ?thesis using run writes_wf [OF b4(2)] ct op cc by auto
  qed
qed

text \<open>Closing it: the terminating NUL, and the length written into the field.\<close>

lemma finish_object_law:
  assumes wf: "bson_wf b" and L: "lean b" and E: "env_good E"
    and op: "opens b = os @ [4 + int (length pre)]" and ct: "content b = pre @ le_bytes 4 0 @ body"
  shows "\<exists>r b'. bson_append_finish_object E b = Some (r, b') \<and> bson_wf b' \<and>
    (r = BSON_OK \<and> content b' = pre @ enc_frame body \<and> lean b' \<and> opens b' = os \<and> b_err b' = b_err b
     \<or> r = BSON_ERROR \<and> \<not> fits b 1)"
proof -
  have pos: "b_stackPos b \<noteq> 0" using op by (cases "b_stackPos b") (auto simp: opens_def)
  obtain r b1 where e: "bson_ensure_space E b 1 = Some (r, b1)" "extends b [] b1" "same_stack b b1"
    and r: "r = BSON_OK \<and> 1 \<le> room b1 \<and> b_err b1 = b_err b
        \<and> b_dataSize b1 \<le> max (b_dataSize b) (3 * (the (b_cur b) + 1)) \<or> r = BSON_ERROR \<and> INT_MAX \<le> b_dataSize b + 1"
    using ensure_space_law [OF wf E, of 1] by auto
  show ?thesis
  proof (cases "r = BSON_ERROR")
    case True
    then have "\<not> fits b 1" using r lean_fits [OF L wf, of 1] by auto
    then show ?thesis using True e pos by (auto simp: bson_append_finish_object_def extends_wf)
  next
    case False
    then have ok: "r = BSON_OK" "1 \<le> room b1" "b_err b1 = b_err b" "b_dataSize b1 \<le> max (b_dataSize b) (3 * (the (b_cur b) + 1))"
      using r by auto
    obtain b2 where b2: "bson_append b1 [0] = Some b2" "writes b1 [0] b2"
      using append_writes [OF extends_wf [OF e(2)], of "[0]"] ok by auto
    have wf2: "bson_wf b2" using b2(2) by (rule writes_wf)
    have ss: "same_stack b b2" using b2(2) e(3) by (auto simp: writes_def same_stack_def)
    have x: "extends b [0] b2" using extends_trans [OF e(2), of "[0]" b2] b2(2) by (simp add: writes_def)
    from wf2 obtain d c where d: "b_data b2 = Some d" "b_cur b2 = Some c" "int (length d) = b_dataSize b2" "4 \<le> c"
      "c \<le> b_dataSize b2" "b_dataSize b2 \<le> INT_MAX" by (rule bson_wfE)
    let ?s = "4 + int (length pre)" and ?n = "c - (4 + int (length pre))"
    have sl: "slice d 4 c = pre @ le_bytes 4 0 @ body @ [0]" using x ct d by (simp add: extends_def content_def)
    have "the (b_cur b2) = 4 + int (length (content b2))" using content_length [OF wf2] by simp
    then have c: "c = 4 + int (length pre) + 4 + int (length body) + 1" using sl d by (simp add: content_def)
    have top: "b_stackPos b2 - 1 < length (b_stack b2)" "b_stack b2 ! (b_stackPos b2 - 1) = ?s" "opens b2 = os @ [?s]"
    proof -
      show o2: "opens b2 = os @ [?s]" using x op by (simp add: extends_def)
      have p: "b_stackPos b2 \<noteq> 0" using o2 by (cases "b_stackPos b2") (auto simp: opens_def)
      moreover have le: "b_stackPos b2 \<le> length (b_stack b2)" using wf2 by (auto simp: bson_wf_def)
      ultimately show "b_stackPos b2 - 1 < length (b_stack b2)" by simp
      then have "last (opens b2) = b_stack b2 ! (b_stackPos b2 - 1)"
        using p le by (subst last_conv_nth) (auto simp: opens_def min_def)
      then show "b_stack b2 ! (b_stackPos b2 - 1) = ?s" using o2 by simp
    qed
    let ?b3 = "b2\<lparr>b_stackPos := b_stackPos b2 - 1\<rparr>"
    have op3: "opens ?b3 = os"
    proof -
      have "opens ?b3 = butlast (opens b2)" using top(1) by (simp add: opens_def butlast_take)
      then show ?thesis using top(3) by simp
    qed
    have wf3: "bson_wf ?b3" using wf2 by (auto simp: bson_wf_def)
    have small: "?n < INT_MAX" using d c by simp
    obtain d' where d': "mem_put d ?s (le_bytes 4 ?n) = Some d'"
      using mem_put_defined [of d ?s "le_bytes 4 ?n"] d c by auto
    let ?b4 = "?b3\<lparr>b_data := Some d'\<rparr>"
    have run: "bson_append_finish_object E b = Some (BSON_OK, ?b4)"
      using pos e ok b2(1) top(1,2) d small d'
      by (simp add: bson_append_finish_object_def bson_append_byte_def Let_def not_le)
    have "slice d' 4 c = slice d' 4 ?s @ slice d' ?s (?s + 4) @ slice d' (?s + 4) c"
      using c by (simp add: slice_append)
    also have "slice d' 4 ?s = slice d 4 ?s" by (rule mem_put_below [OF d']) simp_all
    also have "slice d' ?s (?s + 4) = le_bytes 4 ?n" using mem_put_same [OF d'] by simp
    also have "slice d' (?s + 4) c = slice d (?s + 4) c" by (rule mem_put_above [OF d']) simp
    also have "slice d 4 ?s = pre"
      using slice_take [of 4 "int (length pre)" c d] sl c by simp
    also have "slice d (?s + 4) c = body @ [0]"
      using slice_drop [of 4 "int (length pre) + 4" d c] sl by (simp add: nat_add_distrib add.assoc)
    finally have "content ?b4 = pre @ enc_frame body" using d c by (simp add: content_def enc_frame_def add.commute)
    moreover have "bson_wf ?b4" using wf3 mem_put_length [OF d'] by (auto simp: bson_wf_def d)
    moreover have "opens ?b4 = os" using op3 by (simp add: opens_def)
    moreover have "lean ?b4"
      using ok(4) L b2(2) extends_cur [OF wf x] d by (auto simp: lean_def writes_def)
    moreover have "b_err ?b4 = b_err b" using ok(3) b2(2) by (simp add: writes_def)
    ultimately show ?thesis using run by auto
  qed
qed

section \<open>A whole document\<close>

text \<open>A client of the library: one call per element, stopping at the first failure.\<close>

fun build_val :: "bson_env \<Rightarrow> bson \<Rightarrow> byte list \<Rightarrow> bval \<Rightarrow> (int \<times> bson) option"
  and build_all :: "bson_env \<Rightarrow> bson \<Rightarrow> (byte list \<times> bval) list \<Rightarrow> (int \<times> bson) option" where
  "build_val E b k (VDouble d) = bson_append_double E b k d"
| "build_val E b k (VString s) = bson_append_string E b k s"
| "build_val E b k (VSymbol s) = bson_append_symbol E b k s"
| "build_val E b k (VCode s) = bson_append_code E b k s"
| "build_val E b k (VBin t s) = bson_append_binary E b k t s (int (length s))"
| "build_val E b k VUndefined = bson_append_undefined E b k"
| "build_val E b k (VOid x) = bson_append_oid E b k x"
| "build_val E b k (VBool x) = bson_append_bool E b k (if x then 1 else 0)"
| "build_val E b k (VDate x) = bson_append_date E b k x"
| "build_val E b k VNull = bson_append_null E b k"
| "build_val E b k (VRegex p q) = bson_append_regex E b k p q"
| "build_val E b k (VInt x) = bson_append_int E b k x"
| "build_val E b k (VTimestamp i t) = bson_append_timestamp E b k (i, t)"
| "build_val E b k (VLong x) = bson_append_long E b k x"
| "build_val E b k (VObject es) =
     do {
       (r, b) \<leftarrow> bson_append_start_object E b k;
       if r = BSON_ERROR then Some (BSON_ERROR, b)
       else do {
         (r, b) \<leftarrow> build_all E b es;
         if r = BSON_ERROR then Some (BSON_ERROR, b) else bson_append_finish_object E b
       }
     }"
| "build_val E b k (VArray es) =
     do {
       (r, b) \<leftarrow> bson_append_start_array E b k;
       if r = BSON_ERROR then Some (BSON_ERROR, b)
       else do {
         (r, b) \<leftarrow> build_all E b es;
         if r = BSON_ERROR then Some (BSON_ERROR, b) else bson_append_finish_array E b
       }
     }"
| "build_all E b [] = Some (BSON_OK, b)"
| "build_all E b ((k, v) # es) =
     do {
       (r, b) \<leftarrow> build_val E b k v;
       if r = BSON_ERROR then Some (BSON_ERROR, b) else build_all E b es
     }"

text \<open>Values of the sizes their types have, and of a length the library can address at all.\<close>

fun sized :: "bval \<Rightarrow> bool" where
  "sized (VDouble d) \<longleftrightarrow> length d = 8"
| "sized (VString s) \<longleftrightarrow> small s"
| "sized (VSymbol s) \<longleftrightarrow> small s"
| "sized (VCode s) \<longleftrightarrow> small s"
| "sized (VObject es) \<longleftrightarrow> (\<forall>(k, v) \<in> set es. small k \<and> sized v)"
| "sized (VArray es) \<longleftrightarrow> (\<forall>(k, v) \<in> set es. small k \<and> sized v)"
| "sized (VBin t s) \<longleftrightarrow> int (length s) \<le> INT_MAX - 4"
| "sized (VOid x) \<longleftrightarrow> length x = 12"
| "sized (VRegex p q) \<longleftrightarrow> small p \<and> small q"
| "sized _ \<longleftrightarrow> True"

text \<open>Names and strings the checks accept.\<close>

fun passes :: "bson_env \<Rightarrow> bval \<Rightarrow> bool" where
  "passes E (VString s) \<longleftrightarrow> string_passes E s"
| "passes E (VSymbol s) \<longleftrightarrow> string_passes E s"
| "passes E (VCode s) \<longleftrightarrow> string_passes E s"
| "passes E (VObject es) \<longleftrightarrow> (\<forall>(k, v) \<in> set es. name_passes E k \<and> passes E v)"
| "passes E (VArray es) \<longleftrightarrow> (\<forall>(k, v) \<in> set es. name_passes E k \<and> passes E v)"
| "passes E (VRegex p q) \<longleftrightarrow> string_passes E p"
| "passes E _ \<longleftrightarrow> True"

lemma enc_elem_pair: "enc_elem (k, v) = enc_head (val_type v) k @ enc_val v"
  by (simp add: enc_elem_def)

text \<open>What is claimed of every element.\<close>

definition elem_good :: "bson_env \<Rightarrow> bson \<Rightarrow> byte list \<Rightarrow> bval \<Rightarrow> bool" where
  "elem_good E b k v \<longleftrightarrow> name_passes E k \<and> passes E v \<and> fits b (int (length (enc_elem (k, v))))"

lemmas calls = elem_good_def enc_elem_pair bson_append_double_def bson_append_string_def bson_append_symbol_def
  bson_append_code_def bson_append_undefined_def bson_append_oid_def bson_append_bool_def bson_append_date_def
  bson_append_null_def bson_append_int_def bson_append_timestamp_def bson_append_long_def

lemma leaf_law:
  assumes "bson_wf b" "lean b" "env_good E" "small k" "sized v" and leaf: "\<And>es. v \<noteq> VObject es" "\<And>es. v \<noteq> VArray es"
  shows "appends b (enc_elem (k, v)) (elem_good E b k v) (build_val E b k v)"
proof (cases v)
  case (VBin t s)
  then show ?thesis
    using binary_law [OF assms(1-4), of s t "[]"] assms(5) by (simp add: elem_good_def enc_elem_pair del: enc_val.simps)
next
  case (VRegex p q)
  then show ?thesis
    using regex_law [OF assms(1-4), of p q] assms(5) by (simp add: elem_good_def enc_elem_pair)
next
  case (VDouble d)
  then show ?thesis using fixed_law [OF assms(1-4), of 8 d BSON_DOUBLE] assms(5) by (simp add: calls)
next
  case (VOid x)
  then show ?thesis using fixed_law [OF assms(1-4), of 12 x BSON_OID] assms(5) by (simp add: calls)
next
  case (VBool x)
  then show ?thesis using fixed_law [OF assms(1-4), of 1 "[if x then 1 else 0]" BSON_BOOL] by (cases x) (simp_all add: calls)
next
  case (VDate x)
  then show ?thesis using fixed_law [OF assms(1-4), of 8 "le_bytes 8 x" BSON_DATE] assms(5) by (simp add: calls)
next
  case (VInt x)
  then show ?thesis using fixed_law [OF assms(1-4), of 4 "le_bytes 4 x" BSON_INT] assms(5) by (simp add: calls)
next
  case (VTimestamp i t)
  then show ?thesis using fixed_law [OF assms(1-4), of 8 "le_bytes 4 i @ le_bytes 4 t" BSON_TIMESTAMP] assms(5) by (simp add: calls)
next
  case (VLong x)
  then show ?thesis using fixed_law [OF assms(1-4), of 8 "le_bytes 8 x" BSON_LONG] assms(5) by (simp add: calls)
qed (use assms(5) leaf string_base_law [OF assms(1-4)] empty_law [OF assms(1-4)] in \<open>simp_all add: calls\<close>)

definition elems_good :: "bson_env \<Rightarrow> bson \<Rightarrow> (byte list \<times> bval) list \<Rightarrow> bool" where
  "elems_good E b es \<longleftrightarrow> (\<forall>(k, v) \<in> set es. name_passes E k \<and> passes E v) \<and> fits b (int (length (enc_elems es)))"

lemma length_enc_frame [simp]: "length (enc_frame body) = length body + 5"
  by (simp add: enc_frame_def)

lemma fits_mono: "fits b n \<Longrightarrow> m \<le> n \<Longrightarrow> fits b m"
  by (simp add: fits_def)

lemma content_cur: "bson_wf b \<Longrightarrow> the (b_cur b) = 4 + int (length (content b))"
  by (simp add: content_length)

lemma sub_law:
  assumes wf: "bson_wf b" and L: "lean b" and E: "env_good E" and nm: "small k"
    and IH: "\<And>b1. bson_wf b1 \<Longrightarrow> lean b1 \<Longrightarrow> appends b1 (enc_elems es) (elems_good E b1 es) (build_all E b1 es)"
  shows "appends b (enc_head t k @ enc_doc es)
     (name_passes E k \<and> (\<forall>(k, v) \<in> set es. name_passes E k \<and> passes E v) \<and> fits b (int (length (enc_head t k @ enc_doc es))))
     (do { (r, b) \<leftarrow> append_start E b t k;
           if r = BSON_ERROR then Some (BSON_ERROR, b)
           else do { (r, b) \<leftarrow> build_all E b es;
                     if r = BSON_ERROR then Some (BSON_ERROR, b) else bson_append_finish_object E b } })"
    (is "appends b ?bs ?good ?res")
proof -
  let ?ps = "\<forall>(k, v) \<in> set es. name_passes E k \<and> passes E v"
  let ?pre = "content b @ enc_head t k"
  obtain r b1 where s: "append_start E b t k = Some (r, b1)" "bson_wf b1"
    and r: "r = BSON_OK \<and> content b1 = content b @ enc_head t k @ le_bytes 4 0 \<and> lean b1
       \<and> opens b1 = opens b @ [the (b_cur b) + int (length k) + 2] \<and> (name_passes E k \<longrightarrow> b_err b1 = b_err b)
     \<or> r = BSON_ERROR \<and> \<not> (name_passes E k \<and> fits b (int (length k) + 7))"
    using start_law [OF wf L E nm, of t] by blast
  show ?thesis
  proof (cases "r = BSON_ERROR")
    case True
    then have "\<not> ?good" using r by (auto simp: enc_doc_def fits_def)
    from appends_error [OF s(2) this] show ?thesis using True s(1) by simp
  next
    case False
    then have ok: "r = BSON_OK" "content b1 = ?pre @ le_bytes 4 0" "lean b1"
      "opens b1 = opens b @ [4 + int (length ?pre)]" "name_passes E k \<longrightarrow> b_err b1 = b_err b"
      using r content_cur [OF wf] by auto
    have cur1: "the (b_cur b1) = the (b_cur b) + int (length k) + 6"
      using content_cur [OF s(2)] content_cur [OF wf] ok(2) by simp
    have f1: "fits b1 (int (length (enc_elems es)) + 1)" if "fits b (int (length ?bs))"
      using that cur1 by (simp add: fits_def enc_doc_def)
    from IH [OF s(2) ok(3)] show ?thesis
    proof (cases rule: appendsE)
      case (error b2)
      then have "\<not> ?good" using f1 fits_mono [of b1 "int (length (enc_elems es)) + 1"] by (auto simp: elems_good_def)
      from appends_error [OF error(2) this] show ?thesis using error(1) s(1) ok(1) by simp
    next
      case b2: (ok b2)
      have c2: "content b2 = ?pre @ le_bytes 4 0 @ enc_elems es" "opens b2 = opens b @ [4 + int (length ?pre)]"
        using b2(2) ok by (simp_all add: extends_def)
      obtain r' b3 where f: "bson_append_finish_object E b2 = Some (r', b3)" "bson_wf b3"
        and r': "r' = BSON_OK \<and> content b3 = ?pre @ enc_doc es \<and> lean b3 \<and> opens b3 = opens b \<and> b_err b3 = b_err b2
           \<or> r' = BSON_ERROR \<and> \<not> fits b2 1"
        using finish_object_law [OF b2(3,4) E c2(2,1)] unfolding enc_doc_def by blast
      have f2: "fits b2 1" "elems_good E b1 es" if ?good
        using that f1 extends_fits [OF s(2) b2(2), of 1] fits_mono [of b1 "int (length (enc_elems es)) + 1"]
        by (auto simp: elems_good_def)
      show ?thesis
      proof (cases "r' = BSON_ERROR")
        case True
        then have "\<not> ?good" using r' f2 by auto
        from appends_error [OF f(2) this] show ?thesis using True f(1) s(1) ok(1) b2(1) by simp
      next
        case False
        then have "r' = BSON_OK" "extends b ?bs b3" "lean b3" "b_err b3 = b_err b2" using r' f(2) by (auto simp: extends_def)
        moreover have "?good \<Longrightarrow> b_err b2 = b_err b" using f2(2) b2(5) ok(5) by auto
        ultimately show ?thesis using f s ok(1) b2(1) appends_ok [of b ?bs b3 ?good] by simp
      qed
    qed
  qed
qed

lemma all_law:
  assumes wf: "bson_wf b" and v: "appends b (enc_elem (k, v)) (elem_good E b k v) (build_val E b k v)"
    and es: "\<And>b1. bson_wf b1 \<Longrightarrow> lean b1 \<Longrightarrow> appends b1 (enc_elems es) (elems_good E b1 es) (build_all E b1 es)"
  shows "appends b (enc_elems ((k, v) # es)) (elems_good E b ((k, v) # es)) (build_all E b ((k, v) # es))"
proof -
  have first: "elem_good E b k v" if "elems_good E b ((k, v) # es)"
    using that by (auto simp: elems_good_def elem_good_def fits_def)
  from v show ?thesis
  proof (cases rule: appendsE)
    case (error b1)
    then show ?thesis using first by (auto intro!: appends_error)
  next
    case b1: (ok b1)
    have rest: "elems_good E b1 es" if "elems_good E b ((k, v) # es)"
      using that extends_fits [OF wf b1(2), of "int (length (enc_elems es))"] by (simp add: elems_good_def)
    from es [OF b1(3,4)] show ?thesis
    proof (cases rule: appendsE)
      case (error b2)
      then show ?thesis using rest b1(1) by (auto intro!: appends_error)
    next
      case b2: (ok b2)
      have "extends b (enc_elems ((k, v) # es)) b2" using extends_trans [OF b1(2) b2(2)] by simp
      then show ?thesis using b1(1,5) b2(1,4,5) first rest by (auto intro!: appends_ok)
    qed
  qed
qed

lemma all_from_elements:
  assumes "\<And>k v b1. (k, v) \<in> set es \<Longrightarrow> bson_wf b1 \<Longrightarrow> lean b1 \<Longrightarrow>
      appends b1 (enc_elem (k, v)) (elem_good E b1 k v) (build_val E b1 k v)"
    and "bson_wf b" "lean b"
  shows "appends b (enc_elems es) (elems_good E b es) (build_all E b es)"
  using assms
proof (induction es arbitrary: b)
  case Nil
  then show ?case by (simp add: appends_ok extends_refl)
next
  case (Cons e es)
  obtain k v where e: "e = (k, v)" by (metis surj_pair)
  show ?case unfolding e by (rule all_law) (use Cons e in auto)
qed

lemma build_val_law:
  "env_good E \<Longrightarrow> bson_wf b \<Longrightarrow> lean b \<Longrightarrow> small k \<Longrightarrow> sized v \<Longrightarrow>
     appends b (enc_elem (k, v)) (elem_good E b k v) (build_val E b k v)"
proof (induction v arbitrary: b k)
  case (VObject es)
  have "appends b1 (enc_elem (k, v)) (elem_good E b1 k v) (build_val E b1 k v)"
    if "(k, v) \<in> set es" "bson_wf b1" "lean b1" for k v b1
    by (rule VObject.IH [OF that(1)]) (use that VObject.prems in auto)
  then have "appends b1 (enc_elems es) (elems_good E b1 es) (build_all E b1 es)" if "bson_wf b1" "lean b1" for b1
    using all_from_elements that by blast
  from sub_law [OF VObject.prems(2,3,1,4) this, where t = BSON_OBJECT] show ?case
    by (simp add: elem_good_def enc_elem_pair enc_object bson_append_start_object_def del: enc_val.simps)
next
  case (VArray es)
  have "appends b1 (enc_elem (k, v)) (elem_good E b1 k v) (build_val E b1 k v)"
    if "(k, v) \<in> set es" "bson_wf b1" "lean b1" for k v b1
    by (rule VArray.IH [OF that(1)]) (use that VArray.prems in auto)
  then have "appends b1 (enc_elems es) (elems_good E b1 es) (build_all E b1 es)" if "bson_wf b1" "lean b1" for b1
    using all_from_elements that by blast
  from sub_law [OF VArray.prems(2,3,1,4) this, where t = BSON_ARRAY] show ?case
    unfolding build_val.simps bson_append_start_array_def bson_append_finish_array_def
    by (simp add: elem_good_def enc_elem_pair enc_object del: enc_val.simps)
qed (rule leaf_law; simp)+

lemma build_all_law:
  assumes "env_good E" "bson_wf b" "lean b" "\<forall>(k, v) \<in> set es. small k \<and> sized v"
  shows "appends b (enc_elems es) (elems_good E b es) (build_all E b es)"
  by (rule all_from_elements) (use assms build_val_law in auto)

section \<open>From start to finish\<close>

lemma init_law:
  assumes "env_good E"
  shows "\<exists>b. bson_init E = Some (BSON_OK, b) \<and> bson_wf b \<and> lean b \<and> content b = [] \<and> opens b = [] \<and> b_err b = 0"
proof -
  obtain d where "env_alloc E 128 = Some d" "length d = nat 128" using env_goodD [OF assms, of 128] by auto
  then show ?thesis
    by (auto simp: bson_init_def bson_init_size_def initialBufferSize_def bson_malloc_def c_size_def bson_wf_def lean_def
        content_def opens_def bson_zero_def INT_MAX_def take_bit_int_eq_self)
qed

text \<open>The data of a finished document is its encoding, in the front of the buffer.\<close>

lemma finish_law:
  assumes wf: "bson_wf b" and L: "lean b" and E: "env_good E" and op: "opens b = []"
  shows "\<exists>r b'. bson_finish E b = Some (r, b') \<and>
    (r = BSON_OK \<and> b_finished b' \<and> (\<exists>d. b_data b' = Some d \<and> int (length d) = b_dataSize b'
       \<and> take (length (enc_frame (content b))) d = enc_frame (content b))
     \<or> r = BSON_ERROR \<and> (b_err b AND BSON_NOT_UTF8 \<noteq> 0 \<or> \<not> fits b 1))"
proof (cases "b_err b AND BSON_NOT_UTF8 = 0")
  case False
  then show ?thesis by (simp add: bson_finish_def)
next
  case e: True
  have pos: "b_stackPos b = 0" using op wf by (auto simp: opens_def bson_wf_def)
  have fin: "\<not> b_finished b" using wf by (simp add: bson_wf_def)
  obtain r b1 where s: "bson_ensure_space E b 1 = Some (r, b1)" "extends b [] b1"
    and r: "r = BSON_OK \<and> 1 \<le> room b1 \<or> r = BSON_ERROR \<and> INT_MAX \<le> b_dataSize b + 1"
    using ensure_space_law [OF wf E, of 1] by auto
  show ?thesis
  proof (cases "r = BSON_ERROR")
    case True
    then have "\<not> fits b 1" using r lean_fits [OF L wf, of 1] by auto
    then show ?thesis using True s e fin pos by (auto simp: bson_finish_def)
  next
    case False
    then have ok: "r = BSON_OK" "1 \<le> room b1" using r by auto
    obtain b2 where b2: "bson_append b1 [0] = Some b2" "writes b1 [0] b2"
      using append_writes [OF extends_wf [OF s(2)], of "[0]"] ok by auto
    have wf2: "bson_wf b2" using b2(2) by (rule writes_wf)
    from wf2 obtain d c where d: "b_data b2 = Some d" "b_cur b2 = Some c" "int (length d) = b_dataSize b2" "4 \<le> c"
      "c \<le> b_dataSize b2" "b_dataSize b2 \<le> INT_MAX" by (rule bson_wfE)
    have ct: "slice d 4 c = content b @ [0]" using b2(2) s(2) d by (simp add: writes_def extends_def content_def)
    have c: "c = int (length (content b)) + 5" using content_cur [OF wf2] d ct by (simp add: content_def)
    show ?thesis
    proof (cases "INT_MAX \<le> c")
      case True
      then have "\<not> fits b 1" using c content_cur [OF wf] by (simp add: fits_def INT_MAX_def)
      then show ?thesis using True s e fin pos ok b2(1) d by (simp add: bson_finish_def bson_append_byte_def bson_position_def)
    next
      case False
      obtain d' where d': "mem_put d 0 (le_bytes 4 c) = Some d'" using mem_put_defined [of d 0 "le_bytes 4 c"] d by auto
      have "slice d' 0 c = slice d' 0 4 @ slice d' 4 c" using d by (simp add: slice_append)
      also have "slice d' 0 4 = le_bytes 4 c" using mem_put_same [OF d'] by simp
      also have "slice d' 4 c = slice d 4 c" by (rule mem_put_above [OF d']) simp
      finally have "take (nat c) d' = enc_frame (content b)" using ct c by (simp add: slice_def enc_frame_def)
      moreover have "nat c = length (enc_frame (content b))" using c by simp
      moreover have "int (length d') = b_dataSize b2" using mem_put_length [OF d'] d by simp
      ultimately show ?thesis
        using False s e fin pos ok b2(1) d d' by (simp add: bson_finish_def bson_append_byte_def bson_position_def)
    qed
  qed
qed

end
