(* ===== verification/Bson_Walk.thy ===== *)
theory Bson_Walk
  imports Bson_Iter Bson_Build
begin

text \<open>
  Reading an encoded document with the iterators of \<open>bson.c\<close>: an iterator that stands on the
  encoding of an element sees its type, its name and its value, and \<open>bson_iterator_next\<close> takes it
  to the next element or to the end.
\<close>

section \<open>Reading inside a block\<close>

lemma mem_get_mid: "mem_get (pre @ xs @ rest) (int (length pre)) (int (length xs)) = Some xs"
  by (simp add: mem_get_def)

lemma mem_get_at: "p = int (length pre) \<Longrightarrow> n = int (length xs) \<Longrightarrow> mem_get (pre @ xs @ rest) p n = Some xs"
  by (simp add: mem_get_mid)

lemma read32_at:
  "p = int (length pre) \<Longrightarrow> read32 (pre @ le_bytes 4 x @ rest) p = Some (c_int x)"
  by (simp add: read32_def mem_get_at le_int32_roundtrip)

lemma read64_at:
  "p = int (length pre) \<Longrightarrow> read64 (pre @ le_bytes 8 x @ rest) p = Some (c_long x)"
  by (simp add: read64_def mem_get_at le_int64_roundtrip)

lemma strlen_at:
  assumes "cstring_ok s" "p = int (length pre)"
  shows "strlen (pre @ s @ 0 # rest) p = Some (int (length s))"
proof -
  have "takeWhile (\<lambda>c. c \<noteq> 0) (s @ 0 # rest) = s" using assms by (subst takeWhile_append2) (auto simp: cstring_ok_def)
  then show ?thesis using assms by (simp add: strlen_def)
qed

lemma char_at_at: "p = int (length pre) \<Longrightarrow> char_at (pre @ c # rest) p = Some (c_char (uint c))"
  by (simp add: char_at_def)

lemma char_at_type:
  assumes "0 \<le> t" "t < 128" "p = int (length pre)"
  shows "char_at (pre @ word_of_int t # rest) p = Some t"
proof -
  have "uint (word_of_int t :: byte) = t" using assms by (simp add: uint_word_of_int)
  then have "c_char (uint (word_of_int t :: byte)) = t" using assms by (simp add: c_char_def signed_take_bit_id)
  then show ?thesis using assms by (simp add: char_at_at)
qed

lemma val_type_range: "1 \<le> val_type v" "val_type v < 19"
  by (cases v; simp add: bson_types)+

section \<open>An iterator on an element\<close>

definition stands_on :: "bson_iterator \<Rightarrow> byte list \<Rightarrow> byte list \<Rightarrow> bval \<Rightarrow> byte list \<Rightarrow> bool" where
  "stands_on i pre k v rest \<longleftrightarrow>
     it_buf i = pre @ enc_elem (k, v) @ rest \<and> it_cur i = int (length pre) \<and> cstring_ok k"

text \<open>What a value must satisfy to be read back: its length fields are not negative, a regular
  expression has no NUL.\<close>

fun readable :: "bval \<Rightarrow> bool" where
  "readable (VRegex p q) \<longleftrightarrow> cstring_ok p \<and> cstring_ok q"
| "readable v \<longleftrightarrow> sized v \<and> int (length (enc_val v)) \<le> INT_MAX"

lemma on_buf:
  "stands_on i pre k v rest \<Longrightarrow> it_buf i = pre @ word_of_int (val_type v) # k @ 0 # enc_val v @ rest"
  by (simp add: stands_on_def enc_elem_pair enc_head_def)

lemma on_type: "stands_on i pre k v rest \<Longrightarrow> bson_iterator_type i = Some (val_type v)"
  using val_type_range [of v] char_at_type [of "val_type v" "it_cur i" pre "k @ 0 # enc_val v @ rest"]
  by (simp add: bson_iterator_type_def on_buf) (simp add: stands_on_def)

lemma on_keylen: "stands_on i pre k v rest \<Longrightarrow> strlen (it_buf i) (it_cur i + 1) = Some (int (length k))"
  using strlen_at [of k "it_cur i + 1" "pre @ [word_of_int (val_type v)]" "enc_val v @ rest"]
  by (simp add: on_buf) (simp add: stands_on_def)

lemma on_key:
  assumes "stands_on i pre k v rest"
  shows "key_string i = Some k"
proof -
  have "mem_get (it_buf i) (it_cur i + 1) (int (length k)) = Some k"
    using mem_get_at [of "it_cur i + 1" "pre @ [word_of_int (val_type v)]" "int (length k)" k "0 # enc_val v @ rest"] assms
    by (simp add: on_buf) (simp add: stands_on_def)
  then show ?thesis using on_keylen [OF assms] by (simp add: key_string_def bson_iterator_key_def)
qed

text \<open>The bytes before the value.\<close>

definition val_pre :: "byte list \<Rightarrow> byte list \<Rightarrow> bval \<Rightarrow> byte list" where
  "val_pre pre k v = pre @ enc_head (val_type v) k"

lemma on_value: "stands_on i pre k v rest \<Longrightarrow> bson_iterator_value i = Some (int (length (val_pre pre k v)))"
  using on_keylen [of i pre k v rest] by (simp add: bson_iterator_value_def val_pre_def stands_on_def)

lemma on_buf_val: "stands_on i pre k v rest \<Longrightarrow> it_buf i = val_pre pre k v @ enc_val v @ rest"
  by (simp add: on_buf val_pre_def enc_head_def)

lemma on_int_raw:
  assumes "stands_on i pre k v rest" "enc_val v = le_bytes 4 x @ tail"
  shows "bson_iterator_int_raw i = Some (c_int x)"
  using assms on_value [OF assms(1)] read32_at [of _ "val_pre pre k v" x "tail @ rest"]
  by (simp add: bson_iterator_int_raw_def on_buf_val [OF assms(1)])

lemma on_element_size:
  assumes on: "stands_on i pre k v rest" and r: "readable v"
  shows "element_size i (val_type v) = Some (int (length (enc_val v)))"
proof (cases v)
  case (VRegex p q)
  let ?p = "val_pre pre k v"
  have "strlen (it_buf i) (int (length ?p)) = Some (int (length p))"
    using strlen_at [of p _ ?p "q @ 0 # rest"] on VRegex r by (simp add: on_buf_val)
  moreover have "strlen (it_buf i) (int (length ?p) + int (length p) + 1) = Some (int (length q))"
    using strlen_at [of q "int (length ?p) + int (length p) + 1" "?p @ p @ [0]" rest] on VRegex r by (simp add: on_buf_val)
  ultimately show ?thesis using VRegex on_value [OF on] by (simp add: element_size_def bson_types)
next
  case (VObject es)
  then have "enc_val v = le_bytes 4 (int (length (enc_val v))) @ enc_elems es @ [0]"
    by (simp add: enc_object enc_doc_def enc_frame_def add.commute del: enc_val.simps)
  from on_int_raw [OF on this] show ?thesis
    using VObject r by (simp add: element_size_def bson_types c_int_small del: enc_val.simps)
next
  case (VArray es)
  then have "enc_val v = le_bytes 4 (int (length (enc_val v))) @ enc_elems es @ [0]"
    by (simp add: enc_object enc_doc_def enc_frame_def add.commute del: enc_val.simps)
  from on_int_raw [OF on this] show ?thesis
    using VArray r by (simp add: element_size_def bson_types c_int_small del: enc_val.simps)
next
  case (VBin t s)
  let ?n = "int (length (enc_val v)) - 5"
  obtain tail where "enc_val v = le_bytes 4 ?n @ tail"
    using VBin by (cases "t = BSON_BIN_BINARY_OLD") (auto simp: add.commute)
  from on_int_raw [OF on this] show ?thesis
    using VBin r by (simp add: element_size_def bson_types c_int_small)
qed (use r on_int_raw [OF on] in \<open>simp_all add: element_size_def bson_types enc_str_def c_int_small\<close>)

text \<open>The end of a document.\<close>

definition at_end :: "bson_iterator \<Rightarrow> bool" where
  "at_end i \<longleftrightarrow> (\<exists>pre rest. it_buf i = pre @ 0 # rest \<and> it_cur i = int (length pre))"

lemma end_type: "at_end i \<Longrightarrow> bson_iterator_type i = Some BSON_EOO"
  using char_at_at [of "it_cur i" _ 0] by (auto simp: at_end_def bson_iterator_type_def bson_types c_char_def)

text \<open>
  \<open>upto\<close>: the elements \<open>es\<close> from the iterator to the end of the document, the first of them not
  yet visited.
\<close>

definition ahead :: "bson_iterator \<Rightarrow> byte list \<Rightarrow> (byte list \<times> bval) list \<Rightarrow> byte list \<Rightarrow> bool" where
  "ahead i pre es rest \<longleftrightarrow> it_buf i = pre @ enc_elems es @ 0 # rest \<and> it_cur i = int (length pre)
     \<and> (\<forall>(k, v) \<in> set es. cstring_ok k \<and> readable v)"

lemma ahead_Cons: "ahead i pre ((k, v) # es) rest \<Longrightarrow> stands_on i pre k v (enc_elems es @ 0 # rest) \<and> readable v"
  by (simp add: ahead_def stands_on_def)

lemma ahead_Nil: "ahead i pre [] rest \<Longrightarrow> at_end i"
  by (auto simp: ahead_def at_end_def)

lemma ahead_type: "ahead i pre es rest \<Longrightarrow> bson_iterator_type i = Some (case es of [] \<Rightarrow> BSON_EOO | (k, v) # _ \<Rightarrow> val_type v)"
  using ahead_Cons ahead_Nil on_type end_type by (cases es) (auto, blast)

lemma ahead_first [simp]: "ahead (i\<lparr>it_first := x\<rparr>) pre es rest = ahead i pre es rest"
  by (simp add: ahead_def)

lemma next_first:
  "ahead i pre es rest \<Longrightarrow> it_first i \<Longrightarrow>
   bson_iterator_next i = Some (case es of [] \<Rightarrow> BSON_EOO | (k, v) # _ \<Rightarrow> val_type v, i\<lparr>it_first := False\<rparr>)"
  by (simp add: bson_iterator_next_def ahead_type)

lemma next_step:
  assumes a: "ahead i pre ((k, v) # es) rest" and f: "\<not> it_first i"
  shows "\<exists>i'. bson_iterator_next i = Some (case es of [] \<Rightarrow> BSON_EOO | (k, v) # _ \<Rightarrow> val_type v, i')
    \<and> ahead i' (pre @ enc_elem (k, v)) es rest \<and> \<not> it_first i'"
proof -
  have on: "stands_on i pre k v (enc_elems es @ 0 # rest)" and r: "readable v" using ahead_Cons [OF a] by auto
  let ?i = "i\<lparr>it_cur := it_cur i + (1 + int (length k) + 1 + int (length (enc_val v)))\<rparr>"
  have a': "ahead ?i (pre @ enc_elem (k, v)) es rest" using a by (simp add: ahead_def enc_elem_pair)
  have "val_type v \<noteq> BSON_EOO" using val_type_range [of v] by (simp add: bson_types)
  then have "bson_iterator_next i = Some (case es of [] \<Rightarrow> BSON_EOO | (k, v) # _ \<Rightarrow> val_type v, ?i)"
    using f on_type [OF on] on_element_size [OF on r] on_keylen [OF on] ahead_type [OF a']
    by (simp add: bson_iterator_next_def Let_def)
  with a' f show ?thesis by auto
qed

text \<open>The search visits the elements in order and stops at the first of the name.\<close>

definition found :: "byte list \<Rightarrow> (byte list \<times> bval) list \<Rightarrow> byte list \<Rightarrow> bson_iterator \<Rightarrow> bool" where
  "found name es rest i \<longleftrightarrow>
     name \<notin> fst ` set es \<and> at_end i \<or>
     (\<exists>as v bs pre. es = as @ (name, v) # bs \<and> name \<notin> fst ` set as \<and> ahead i pre ((name, v) # bs) rest)"

lemma found_Cons: "found name es rest i \<Longrightarrow> k \<noteq> name \<Longrightarrow> found name ((k, v) # es) rest i"
  unfolding found_def
proof (elim disjE exE conjE)
  fix as w bs pre
  assume "es = as @ (name, w) # bs" "name \<notin> fst ` set as" "ahead i pre ((name, w) # bs) rest" "k \<noteq> name"
  then show "name \<notin> fst ` set ((k, v) # es) \<and> at_end i \<or>
    (\<exists>as' v' bs pre. (k, v) # es = as' @ (name, v') # bs \<and> name \<notin> fst ` set as' \<and> ahead i pre ((name, v') # bs) rest)"
    by (intro disjI2 exI [of _ "(k, v) # as"] exI [of _ w] exI [of _ bs] exI [of _ pre]) auto
qed auto

text \<open>After a step: the element reached is the one searched for, or the search goes on behind it.\<close>

lemma found_here: "ahead i pre ((name, v) # es) rest \<Longrightarrow> found name ((name, v) # es) rest i"
  unfolding found_def by (intro disjI2 exI [of _ "[]"]) auto

lemma find_key_from:
  assumes nx: "bson_iterator_next i = Some (case es of [] \<Rightarrow> BSON_EOO | (k, v) # _ \<Rightarrow> val_type v, i')"
    and a: "ahead i' pre es rest" and f: "\<not> it_first i'"
  shows "\<exists>j. find_key name i = Some j \<and> found name es rest j"
  using assms
proof (induction es arbitrary: i i' pre)
  case Nil
  then show ?case using ahead_Nil [of i' pre rest] by (subst find_key.simps) (simp add: bson_types found_def)
next
  case (Cons e es)
  obtain k v where e: "e = (k, v)" by (metis surj_pair)
  have on: "stands_on i' pre k v (enc_elems es @ 0 # rest)" using ahead_Cons Cons.prems(2) e by blast
  have t: "val_type v \<noteq> 0" using val_type_range [of v] by simp
  show ?case
  proof (cases "k = name")
    case True
    then have "find_key name i = Some i'"
      using Cons.prems(1) e t on_key [OF on] by (subst find_key.simps) simp
    then show ?thesis using True found_here [of i' pre name v es rest] Cons.prems(2) e by simp
  next
    case False
    obtain i2 where i2: "bson_iterator_next i' = Some (case es of [] \<Rightarrow> BSON_EOO | (k, v) # _ \<Rightarrow> val_type v, i2)"
      "ahead i2 (pre @ enc_elem (k, v)) es rest" "\<not> it_first i2"
      using next_step [of i' pre k v es rest] Cons.prems(2,3) e by auto
    obtain j where j: "find_key name i' = Some j" "found name es rest j" using Cons.IH [OF i2] by blast
    have "find_key name i = find_key name i'"
      using Cons.prems(1) e t on_key [OF on] False by (subst find_key.simps) simp
    then show ?thesis using j found_Cons [OF j(2) False] e by simp
  qed
qed

text \<open>The document at the front of a block.\<close>

lemma document_ahead:
  assumes "b_data b = Some (enc_doc es @ rest)" "\<forall>(k, v) \<in> set es. cstring_ok k \<and> readable v"
  shows "\<exists>i. bson_iterator_init b = Some i \<and> it_first i \<and> ahead i (le_bytes 4 (int (length (enc_elems es)) + 5)) es rest"
  using assms by (simp add: bson_iterator_init_def bson_iterator_from_buffer_def ahead_def enc_doc_def enc_frame_def)

lemma find_law:
  assumes "b_data b = Some (enc_doc es @ rest)" "\<forall>(k, v) \<in> set es. cstring_ok k \<and> readable v"
  shows "\<exists>t i. bson_find b name = Some (t, i) \<and> found name es rest i
    \<and> t = (case map_of es name of None \<Rightarrow> BSON_EOO | Some v \<Rightarrow> val_type v)"
proof -
  obtain i where i: "bson_iterator_init b = Some i" "it_first i" "ahead i (le_bytes 4 (int (length (enc_elems es)) + 5)) es rest"
    using document_ahead [OF assms] by blast
  obtain j where j: "find_key name i = Some j" "found name es rest j"
    using find_key_from [OF next_first [OF i(3,2)], of _ rest name] i(3) by auto
  have "bson_iterator_type j = Some (case map_of es name of None \<Rightarrow> BSON_EOO | Some v \<Rightarrow> val_type v)"
    using j(2) unfolding found_def
  proof (elim disjE exE conjE)
    assume "name \<notin> fst ` set es" "at_end j"
    moreover from this have "map_of es name = None" by (simp add: map_of_eq_None_iff)
    ultimately show ?thesis using end_type [of j] by simp
  next
    fix as v bs pre
    assume "es = as @ (name, v) # bs" "name \<notin> fst ` set as" "ahead j pre ((name, v) # bs) rest"
    moreover from this have "map_of as name = None" by (simp add: map_of_eq_None_iff)
    ultimately show ?thesis using ahead_type [of j] by (auto simp: map_add_def)
  qed
  then show ?thesis using i(1) j by (simp add: bson_find_def)
qed

section \<open>Values\<close>

text \<open>
  What the accessor of each type returns on an element that holds the value. An offset is checked
  by the bytes that follow it; a sub-document by the block its iterator is set on.
\<close>

fun reads :: "bson_env \<Rightarrow> bson_iterator \<Rightarrow> bval \<Rightarrow> bool" where
  "reads E i (VDouble d) \<longleftrightarrow> bson_iterator_double E i = Some d"
| "reads E i (VString s) \<longleftrightarrow> bson_iterator_string_len i = Some (int (length s) + 1)
     \<and> (\<exists>p. bson_iterator_string i = Some (Some p) \<and> mem_get (it_buf i) p (int (length s) + 1) = Some (s @ [0]))"
| "reads E i (VSymbol s) \<longleftrightarrow> bson_iterator_string_len i = Some (int (length s) + 1)
     \<and> (\<exists>p. bson_iterator_string i = Some (Some p) \<and> mem_get (it_buf i) p (int (length s) + 1) = Some (s @ [0]))"
| "reads E i (VCode s) \<longleftrightarrow>
     (\<exists>p. bson_iterator_code i = Some (Some p) \<and> mem_get (it_buf i) p (int (length s) + 1) = Some (s @ [0]))"
| "reads E i (VObject es) \<longleftrightarrow>
     (\<exists>rest. bson_iterator_subiterator i = Some (bson_iterator_from_buffer (enc_doc es @ rest)))"
| "reads E i (VArray es) \<longleftrightarrow>
     (\<exists>rest. bson_iterator_subiterator i = Some (bson_iterator_from_buffer (enc_doc es @ rest)))"
| "reads E i (VBin t s) \<longleftrightarrow> bson_iterator_bin_type i = Some t \<and> bson_iterator_bin_len i = Some (int (length s))
     \<and> (\<exists>p. bson_iterator_bin_data i = Some p \<and> mem_get (it_buf i) p (int (length s)) = Some s)"
| "reads E i VUndefined \<longleftrightarrow> bson_iterator_type i = Some BSON_UNDEFINED"
| "reads E i (VOid x) \<longleftrightarrow> (\<exists>p. bson_iterator_oid i = Some p \<and> mem_get (it_buf i) p 12 = Some x)"
| "reads E i (VBool x) \<longleftrightarrow> bson_iterator_bool E i = Some (if x then 1 else 0)"
| "reads E i (VDate x) \<longleftrightarrow> bson_iterator_date i = Some x"
| "reads E i VNull \<longleftrightarrow> bson_iterator_type i = Some BSON_NULL"
| "reads E i (VRegex p q) \<longleftrightarrow>
     (\<exists>x y. bson_iterator_regex i = Some x \<and> mem_get (it_buf i) x (int (length p) + 1) = Some (p @ [0])
        \<and> bson_iterator_regex_opts i = Some y \<and> mem_get (it_buf i) y (int (length q) + 1) = Some (q @ [0]))"
| "reads E i (VInt x) \<longleftrightarrow> bson_iterator_int E i = Some x"
| "reads E i (VTimestamp n t) \<longleftrightarrow> bson_iterator_timestamp i = Some (n, t)"
| "reads E i (VLong x) \<longleftrightarrow> bson_iterator_long E i = Some x"

text \<open>Integers in the range of their type.\<close>

fun in_range :: "bval \<Rightarrow> bool" where
  "in_range (VInt x) \<longleftrightarrow> in_int x"
| "in_range (VLong x) \<longleftrightarrow> - (2 ^ 63) \<le> x \<and> x < 2 ^ 63"
| "in_range (VDate x) \<longleftrightarrow> - (2 ^ 63) \<le> x \<and> x < 2 ^ 63"
| "in_range (VTimestamp n t) \<longleftrightarrow> in_int n \<and> in_int t"
| "in_range (VBin t s) \<longleftrightarrow> 0 \<le> t \<and> t < 128"
| "in_range _ \<longleftrightarrow> True"

lemma on_get:
  assumes "stands_on i pre k v rest" "enc_val v = xs @ ys @ tail" "p = int (length (val_pre pre k v)) + int (length xs)"
    "n = int (length ys)"
  shows "mem_get (it_buf i) p n = Some ys"
  using mem_get_at [of p "val_pre pre k v @ xs" n ys "tail @ rest"] assms by (simp add: on_buf_val)

lemma on_long_raw:
  assumes "stands_on i pre k v rest" "enc_val v = le_bytes 8 x"
  shows "bson_iterator_long_raw i = Some (c_long x)"
  using assms on_value [OF assms(1)] read64_at [of _ "val_pre pre k v" x rest]
  by (simp add: bson_iterator_long_raw_def on_buf_val [OF assms(1)])

lemma on_string:
  assumes on: "stands_on i pre k v rest" and v: "enc_val v = enc_str s" and n: "int (length (enc_val v)) \<le> INT_MAX"
  shows "bson_iterator_int_raw i = Some (int (length s) + 1)"
    "mem_get (it_buf i) (int (length (val_pre pre k v)) + 4) (int (length s) + 1) = Some (s @ [0])"
proof -
  show "bson_iterator_int_raw i = Some (int (length s) + 1)"
    using on_int_raw [OF on, of "int (length s) + 1" "s @ [0]"] v n by (simp add: enc_str_def c_int_small)
  show "mem_get (it_buf i) (int (length (val_pre pre k v)) + 4) (int (length s) + 1) = Some (s @ [0])"
    by (rule on_get [OF on, of "le_bytes 4 (int (length s) + 1)" _ "[]"]) (simp_all add: v enc_str_def)
qed

lemma on_sub:
  assumes on: "stands_on i pre k v rest" and v: "enc_val v = enc_doc es"
  shows "bson_iterator_subiterator i = Some (bson_iterator_from_buffer (enc_doc es @ rest))"
  using on_value [OF on] on_buf_val [OF on] v by (simp add: bson_iterator_subiterator_def)

lemma on_bin:
  assumes on: "stands_on i pre k (VBin t s) rest" and r: "readable (VBin t s)" "in_range (VBin t s)"
  shows "reads E i (VBin t s)"
proof -
  let ?v = "VBin t s" and ?p = "int (length (val_pre pre k (VBin t s)))"
  define n where "n = (if t = BSON_BIN_BINARY_OLD then int (length s) + 4 else int (length s))"
  obtain tail where v: "enc_val ?v = le_bytes 4 n @ word_of_int t # tail"
    by (cases "t = BSON_BIN_BINARY_OLD") (auto simp: n_def)
  have len: "bson_iterator_int_raw i = Some n"
    using on_int_raw [OF on v] r(1) by (cases "t = BSON_BIN_BINARY_OLD") (auto simp: n_def c_int_small)
  have buf: "it_buf i = (val_pre pre k ?v @ le_bytes 4 n) @ word_of_int t # tail @ rest"
    using on_buf_val [OF on] v by (simp del: enc_val.simps)
  have ty: "bson_iterator_bin_type i = Some t"
    using char_at_type [of t "?p + 4" "val_pre pre k ?v @ le_bytes 4 n" "tail @ rest"] r(2) on_value [OF on]
    unfolding bson_iterator_bin_type_def buf by (simp del: enc_val.simps)
  show ?thesis
  proof (cases "t = BSON_BIN_BINARY_OLD")
    case True
    have "mem_get (it_buf i) (?p + 9) (int (length s)) = Some s"
      by (rule on_get [OF on, of "le_bytes 4 (int (length s) + 4) @ [word_of_int t] @ le_bytes 4 (int (length s))" s "[]"])
         (simp_all add: True)
    then show ?thesis using True ty len on_value [OF on] r(1)
      by (simp add: n_def bson_iterator_bin_len_def bson_iterator_bin_data_def c_int_small)
  next
    case False
    have "mem_get (it_buf i) (?p + 5) (int (length s)) = Some s"
      by (rule on_get [OF on, of "le_bytes 4 (int (length s)) @ [word_of_int t]" s "[]"]) (simp_all add: False)
    then show ?thesis using False ty len on_value [OF on]
      by (simp add: n_def bson_iterator_bin_len_def bson_iterator_bin_data_def)
  qed
qed

lemma on_regex:
  assumes on: "stands_on i pre k (VRegex p q) rest" and r: "readable (VRegex p q)"
  shows "reads E i (VRegex p q)"
proof -
  let ?p = "int (length (val_pre pre k (VRegex p q)))"
  have "strlen (it_buf i) ?p = Some (int (length p))"
    using strlen_at [of p _ "val_pre pre k (VRegex p q)" "q @ 0 # rest"] on_buf_val [OF on] r by simp
  moreover have "mem_get (it_buf i) ?p (int (length p) + 1) = Some (p @ [0])"
    by (rule on_get [OF on, of "[]" _ "q @ [0]"]) simp_all
  moreover have "mem_get (it_buf i) (?p + int (length p) + 1) (int (length q) + 1) = Some (q @ [0])"
    by (rule on_get [OF on, of "p @ [0]" _ "[]"]) simp_all
  ultimately show ?thesis
    using on_value [OF on] by (simp add: bson_iterator_regex_def bson_iterator_regex_opts_def)
qed

lemma on_timestamp:
  assumes on: "stands_on i pre k (VTimestamp n t) rest" and r: "in_range (VTimestamp n t)"
  shows "reads E i (VTimestamp n t)"
proof -
  let ?pre = "val_pre pre k (VTimestamp n t)"
  have "read32 (it_buf i) (int (length ?pre)) = Some n"
    using read32_at [of _ ?pre n "le_bytes 4 t @ rest"] on_buf_val [OF on] r by (simp add: c_int_id)
  moreover have "read32 (it_buf i) (int (length ?pre) + 4) = Some t"
    using read32_at [of "int (length ?pre) + 4" "?pre @ le_bytes 4 n" t rest] on_buf_val [OF on] r by (simp add: c_int_id)
  ultimately show ?thesis using on_value [OF on] by (simp add: bson_iterator_timestamp_def)
qed

lemma on_reads:
  assumes on: "stands_on i pre k v rest" and r: "readable v" and g: "in_range v"
  shows "reads E i v"
proof (cases v)
  case (VDouble d)
  then have "mem_get (it_buf i) (int (length (val_pre pre k v))) 8 = Some d"
    using on_get [OF on, of "[]" d "[]"] r by simp
  then show ?thesis using VDouble on_type [OF on] on_value [OF on]
    by (simp add: bson_iterator_double_def bson_iterator_double_raw_def bson_types)
next
  case (VBool x)
  have "char_at (it_buf i) (int (length (val_pre pre k v))) = Some (if x then 1 else 0)"
    using char_at_at [of "int (length (val_pre pre k v))" "val_pre pre k v" _ rest] on_buf_val [OF on] VBool
    by (cases x) (simp_all add: c_char_def signed_take_bit_id)
  then show ?thesis using VBool on_type [OF on] on_value [OF on]
    by (simp add: bson_iterator_bool_def bson_iterator_bool_raw_def bson_types)
next
  case (VOid x)
  then have "mem_get (it_buf i) (int (length (val_pre pre k v))) 12 = Some x"
    using on_get [OF on, of "[]" x "[]"] r by simp
  then show ?thesis using VOid on_value [OF on] by (simp add: bson_iterator_oid_def)
next
  case (VObject es)
  then show ?thesis using on_sub [OF on, of es] by (auto simp: enc_object simp del: enc_val.simps)
next
  case (VArray es)
  then show ?thesis using on_sub [OF on, of es] by (auto simp: enc_object simp del: enc_val.simps)
next
  case (VBin t s)
  then show ?thesis using on_bin on r g by blast
next
  case (VRegex p q)
  then show ?thesis using on_regex on r by blast
next
  case (VTimestamp n t)
  then show ?thesis using on_timestamp on g by blast
next
  case (VInt x)
  then show ?thesis using on_type [OF on] on_int_raw [OF on, of x "[]"] g
    by (simp add: bson_iterator_int_def bson_types c_int_id)
qed (use on_type [OF on] on_value [OF on] on_string [OF on] on_long_raw [OF on] r g in
     \<open>simp_all add: bson_iterator_string_def bson_iterator_string_len_def bson_iterator_code_def bson_iterator_date_def
        bson_iterator_long_def bson_types c_long_id\<close>)

end
