(* ===== verification/Bson_Spec.thy ===== *)
theory Bson_Spec
  imports Bson_Walk
begin

text \<open>
  The properties of the BSON library: what a sequence of appending calls builds, and what the
  iterators read back from it.
\<close>

section \<open>Building\<close>

definition build_doc :: "bson_env \<Rightarrow> (byte list \<times> bval) list \<Rightarrow> (int \<times> bson) option" where
  "build_doc E es =
     do {
       (r, b) \<leftarrow> bson_init E;
       (r, b) \<leftarrow> build_all E b es;
       if r = BSON_ERROR then Some (BSON_ERROR, b) else bson_finish E b
     }"

definition doc_sized :: "(byte list \<times> bval) list \<Rightarrow> bool" where
  "doc_sized es \<longleftrightarrow> (\<forall>(k, v) \<in> set es. small k \<and> sized v)"

definition doc_passes :: "bson_env \<Rightarrow> (byte list \<times> bval) list \<Rightarrow> bool" where
  "doc_passes E es \<longleftrightarrow> (\<forall>(k, v) \<in> set es. name_passes E k \<and> passes E v) \<and> length (enc_doc es) \<le> 2 ^ 29"

lemma finish_doc:
  assumes E: "env_good E" and b: "bson_wf b" "lean b" "opens b = []" and c: "content b = enc_elems es"
  shows "\<exists>r b'. bson_finish E b = Some (r, b')
    \<and> (r = BSON_OK \<longrightarrow> b_finished b' \<and> (\<exists>rest. b_data b' = Some (enc_doc es @ rest)))
    \<and> (b_err b = 0 \<and> fits b 1 \<longrightarrow> r = BSON_OK)"
proof -
  obtain r b' where f: "bson_finish E b = Some (r, b')"
    and r: "r = BSON_OK \<and> b_finished b' \<and> (\<exists>d. b_data b' = Some d \<and> int (length d) = b_dataSize b'
       \<and> take (length (enc_doc es)) d = enc_doc es)
     \<or> r = BSON_ERROR \<and> (b_err b AND BSON_NOT_UTF8 \<noteq> 0 \<or> \<not> fits b 1)"
    using finish_law [OF b(1,2) E b(3)] c unfolding enc_doc_def by auto
  have "\<exists>rest. b_data b' = Some (enc_doc es @ rest)" if "r = BSON_OK"
    using r that by (metis OK_not_ERROR(1) append_take_drop_id)
  then show ?thesis using f r by auto
qed

lemma build_doc_law:
  assumes E: "env_good E" and s: "doc_sized es"
  shows "\<exists>r b. build_doc E es = Some (r, b)
    \<and> (r = BSON_OK \<longrightarrow> b_finished b \<and> (\<exists>rest. b_data b = Some (enc_doc es @ rest)))
    \<and> (doc_passes E es \<longrightarrow> r = BSON_OK)"
proof -
  obtain b where b: "bson_init E = Some (BSON_OK, b)" "bson_wf b" "lean b" "content b = []" "opens b = []" "b_err b = 0"
    using init_law [OF E] by blast
  have g: "elems_good E b es" if "doc_passes E es"
    using that content_cur [OF b(2)] b(4) by (simp add: doc_passes_def elems_good_def fits_def enc_doc_def)
  from build_all_law [OF E b(2,3)] s have "appends b (enc_elems es) (elems_good E b es) (build_all E b es)"
    by (simp add: doc_sized_def)
  then show ?thesis
  proof (cases rule: appendsE)
    case (error b1)
    then show ?thesis using b(1) g by (auto simp: build_doc_def)
  next
    case (ok b1)
    have c: "content b1 = enc_elems es" "opens b1 = []" using ok(2) b by (simp_all add: extends_def)
    have "fits b1 1" if "doc_passes E es"
      using that extends_fits [OF b(2) ok(2), of 1] content_cur [OF b(2)] b(4)
      by (simp add: doc_passes_def fits_def enc_doc_def)
    then show ?thesis using finish_doc [OF E ok(3,4) c(2,1)] g ok(1,5) b(1,6) by (auto simp: build_doc_def)
  qed
qed

section \<open>Claims on building\<close>

text \<open>C3: Building a document with the library, one call per element and \<open>bson_finish\<close> at the end, has a
  defined result for every document: no call reads or writes outside the buffer however often it grows. When it
  succeeds the data is the encoding of the document by the BSON format, with every length field right, nested
  objects and arrays included. It succeeds when the name and string checks accept the document and it has at most
  \<open>2^29\<close> bytes.\<close>

theorem bson_build_encodes:
  assumes E: "env_good E" and s: "doc_sized es"
  shows "\<exists>r b. build_doc E es = Some (r, b)
    \<and> (r = BSON_OK \<longrightarrow> b_finished b \<and> (\<exists>rest. b_data b = Some (enc_doc es @ rest)))
    \<and> (doc_passes E es \<longrightarrow> r = BSON_OK)"
  using assms by (rule build_doc_law)

definition lib_env :: bson_env where
  "lib_env = \<lparr>env_alloc = (\<lambda>n. Some (replicate (nat n) 0)), env_check_field_name = (\<lambda>s e. (BSON_OK, e)),
     env_check_string = (\<lambda>s e. (BSON_OK, e)), env_double_to_int = (\<lambda>_. 0), env_double_to_long = (\<lambda>_. 0),
     env_int_to_double = (\<lambda>_. replicate 8 0), env_double_nonzero = (\<lambda>_. False)\<rparr>"

definition sample_doc :: "(byte list \<times> bval) list" where
  "sample_doc = [([97], VInt 5), ([98], VObject [([99], VString [120, 121]), ([100], VArray [([48], VBool True)])])]"

lemma lib_env_good: "env_good lib_env"
  by (simp add: env_good_def lib_env_def)

lemma sample_sized: "doc_sized sample_doc"
  by (simp add: doc_sized_def sample_doc_def small_def)

lemma sample_passes: "doc_passes lib_env sample_doc"
  by (simp add: doc_passes_def sample_doc_def name_passes_def string_passes_def lib_env_def enc_doc_def enc_elem_pair
      enc_str_def enc_frame_def enc_head_def)

theorem bson_build_encodes_witness:
  "\<exists>b rest. build_doc lib_env sample_doc = Some (BSON_OK, b) \<and> b_data b = Some (enc_doc sample_doc @ rest)"
  using bson_build_encodes [OF lib_env_good sample_sized] sample_passes by auto

section \<open>Identifiers\<close>

lemma hexbyte_digit:
  assumes "n < 16"
  shows "hexbyte (hex_digits ! n) = of_nat n"
proof -
  have "\<forall>n \<in> set [0..<16]. hexbyte (hex_digits ! n) = of_nat n" by code_simp
  then show ?thesis using assms by simp
qed

lemma nibbles: "push_bit 4 (drop_bit 4 (x AND 240)) OR (x AND 15) = (x :: byte)"
proof -
  have m: "(15 :: byte) = mask 4" "(240 :: byte) = NOT (mask 4)" by (simp_all add: mask_eq_exp_minus_1)
  show ?thesis unfolding m by (rule bit_word_eqI) (auto simp: bit_simps)
qed

lemma nibble_bounds:
  fixes x :: byte
  shows "unat (drop_bit 4 (x AND 240)) < 16" "unat (x AND 15) < 16"
proof -
  have "unat (drop_bit 4 y) < 16" for y :: byte
    using unsigned_less [of y, where 'a = nat] by (simp add: unsigned_drop_bit_eq drop_bit_eq_div unat_div_distrib)
  then show "unat (drop_bit 4 (x AND 240)) < 16" .
  have "x AND 15 = take_bit 4 x" by (simp add: take_bit_eq_mask mask_eq_exp_minus_1)
  then show "unat (x AND 15) < 16" using take_bit_nat_less_exp [of 4 "unat x"] by (simp add: unsigned_take_bit_eq)
qed

lemma byte_hex:
  fixes x :: byte
  shows "push_bit 4 (hexbyte (hex_digits ! unat (drop_bit 4 (x AND 240)))) OR hexbyte (hex_digits ! unat (x AND 15)) = x"
proof -
  have "hexbyte (hex_digits ! unat (drop_bit 4 (x AND 240))) = drop_bit 4 (x AND 240)"
    using hexbyte_digit [OF nibble_bounds(1) [of x]] by simp
  moreover have "hexbyte (hex_digits ! unat (x AND 15)) = x AND 15"
    using hexbyte_digit [OF nibble_bounds(2) [of x]] by simp
  ultimately show ?thesis by (simp only: nibbles)
qed

lemma oid_loop:
  assumes "i + k \<le> length bs" "length str \<ge> 2 * length bs"
    and "\<And>j. j < length bs \<Longrightarrow> push_bit 4 (hexbyte (str ! (2 * j))) OR hexbyte (str ! (2 * j + 1)) = bs ! j"
  shows "oid_from_loop i k str = Some (take k (drop i bs))"
  using assms
proof (induction k arbitrary: i)
  case (Suc k)
  then have "oid_from_loop (Suc i) k str = Some (take k (drop (Suc i) bs))" by simp
  moreover have "take (Suc k) (drop i bs) = bs ! i # take k (drop (Suc i) bs)"
    using Suc.prems(1) by (simp add: Cons_nth_drop_Suc [symmetric])
  ultimately show ?case using Suc.prems by simp
qed simp

lemma nth_concat_pairs:
  "j < length xs \<Longrightarrow> concat (map (\<lambda>x. [f x, g x]) xs) ! (2 * j) = f (xs ! j) \<and> concat (map (\<lambda>x. [f x, g x]) xs) ! (2 * j + 1) = g (xs ! j)"
  by (induction xs arbitrary: j) (auto simp: less_Suc_eq_0_disj)

lemma length_concat_pairs [simp]: "length (concat (map (\<lambda>x. [f x, g x]) xs)) = 2 * length xs"
  by (induction xs) auto

section \<open>Claims on reading\<close>

definition doc_readable :: "(byte list \<times> bval) list \<Rightarrow> bool" where
  "doc_readable es \<longleftrightarrow> (\<forall>(k, v) \<in> set es. cstring_ok k \<and> readable v \<and> in_range v)"

text \<open>C11: \<open>bson_find\<close> on data that holds an encoded document returns, for every name: the search ends, and it
  finds the first element of that name, whose type it returns and whose value the accessor of that type reads
  back, or the end of the document when no element has the name.\<close>

theorem bson_find_reads:
  assumes "b_data b = Some (enc_doc es @ rest)" "doc_readable es"
  shows "case map_of es name of
      None \<Rightarrow> \<exists>i. bson_find b name = Some (BSON_EOO, i)
    | Some v \<Rightarrow> \<exists>i. bson_find b name = Some (val_type v, i) \<and> reads E i v"
proof -
  have r: "\<forall>(k, v) \<in> set es. cstring_ok k \<and> readable v" using assms(2) by (auto simp: doc_readable_def)
  obtain t i where f: "bson_find b name = Some (t, i)" "found name es rest i"
    "t = (case map_of es name of None \<Rightarrow> BSON_EOO | Some v \<Rightarrow> val_type v)"
    using find_law [OF assms(1) r, of name] by blast
  show ?thesis
  proof (cases "map_of es name")
    case None
    then show ?thesis using f by simp
  next
    case (Some v)
    have "reads E i v" using f(2) unfolding found_def
    proof (elim disjE exE conjE)
      assume "name \<notin> fst ` set es"
      then have "map_of es name = None" by (simp add: map_of_eq_None_iff)
      then show ?thesis using Some by simp
    next
      fix as w bs pre
      assume e: "es = as @ (name, w) # bs" and n: "name \<notin> fst ` set as" and a: "ahead i pre ((name, w) # bs) rest"
      have "map_of as name = None" using n by (simp add: map_of_eq_None_iff)
      then have "w = v" using Some e by (simp add: map_add_def)
      moreover have "in_range w" using assms(2) e by (auto simp: doc_readable_def)
      ultimately show ?thesis using ahead_Cons [OF a] on_reads by blast
    qed
    then show ?thesis using Some f by simp
  qed
qed

lemma sample_readable: "doc_readable sample_doc"
  by (simp add: doc_readable_def sample_doc_def cstring_ok_def small_def INT_MAX_def in_int_def INT_MIN_def
      enc_str_def enc_frame_def enc_head_def)

theorem bson_find_reads_witness:
  "\<exists>i. bson_find (bson_zero\<lparr>b_data := Some (enc_doc sample_doc @ [])\<rparr>) [97] = Some (BSON_INT, i)
     \<and> bson_iterator_int lib_env i = Some 5"
  using bson_find_reads [of "bson_zero\<lparr>b_data := Some (enc_doc sample_doc @ [])\<rparr>" sample_doc "[]" "[97]" lib_env]
    sample_readable by (simp add: sample_doc_def)

text \<open>The text form of an identifier, 24 hexadecimal digits and a NUL, is read back as the identifier.\<close>

theorem oid_string_roundtrip:
  assumes "length oid = 12"
  shows "length (bson_oid_to_string oid) = 25 \<and> bson_oid_from_string (bson_oid_to_string oid) = Some oid"
proof -
  let ?f = "\<lambda>x :: byte. hex_digits ! unat (drop_bit 4 (x AND 240))" and ?g = "\<lambda>x :: byte. hex_digits ! unat (x AND 15)"
  let ?c = "concat (map (\<lambda>x. [?f x, ?g x]) oid)"
  have str: "bson_oid_to_string oid = ?c @ [0]" using assms by (simp add: bson_oid_to_string_def)
  have len: "length ?c = 24" using assms by simp
  have "push_bit 4 (hexbyte ((?c @ [0]) ! (2 * j))) OR hexbyte ((?c @ [0]) ! (2 * j + 1)) = oid ! j" if "j < length oid" for j
  proof -
    have "(?c @ [0]) ! (2 * j) = ?f (oid ! j)" "(?c @ [0]) ! (2 * j + 1) = ?g (oid ! j)"
      using nth_concat_pairs [OF that, of ?f ?g] that len assms by (simp_all only: nth_append) simp_all
    then show ?thesis by (simp only: byte_hex)
  qed
  then have "oid_from_loop 0 12 (?c @ [0]) = Some (take 12 (drop 0 oid))"
    by (intro oid_loop) (use assms len in simp_all)
  then show ?thesis using assms len str by (simp add: bson_oid_from_string_def)
qed

theorem oid_string_roundtrip_witness:
  "bson_oid_from_string (bson_oid_to_string [1, 35, 69, 103, 137, 171, 205, 239, 16, 50, 84, 118])
   = Some [1, 35, 69, 103, 137, 171, 205, 239, 16, 50, 84, 118]"
  using oid_string_roundtrip [of "[1, 35, 69, 103, 137, 171, 205, 239, 16, 50, 84, 118]"] by simp

section \<open>Claims on failing calls\<close>

text \<open>\<open>bson_append_regex\<close> checks the pattern after it has written the head of the element: when the pattern is
  rejected the call fails, but the type and the name stay in the buffer, and whatever is appended next is taken for
  the pattern.\<close>

theorem regex_leaves_head:
  assumes wf: "bson_wf b" "lean b" and E: "env_good E" and nm: "small name" "name_passes E name"
    and s: "small p" "small q" and bad: "fst (env_check_string E p (b_err b)) = BSON_ERROR"
    and f: "fits b (int (length name) + int (length p) + int (length q) + 4)"
  shows "\<exists>b'. bson_append_regex E b name p q = Some (BSON_ERROR, b') \<and> content b' = content b @ enc_head BSON_REGEX name"
proof -
  let ?n = "int (length p) + 1 + (int (length q) + 1)"
  obtain r b1 where e: "bson_append_estart E b BSON_REGEX name ?n = Some (r, b1)"
    and r: "r = BSON_OK \<and> extends b (enc_head BSON_REGEX name) b1 \<and> same_stack b b1 \<and> ?n \<le> room b1
       \<and> b_dataSize b1 \<le> max (131 + 3 * the (b_cur b1)) (3 * (the (b_cur b1) + ?n))
       \<and> b_err b1 = snd (env_check_field_name E name (b_err b))
     \<or> r = BSON_ERROR \<and> extends b [] b1 \<and> \<not> (name_passes E name \<and> fits b (int (length name) + 2 + ?n))"
    using estart_law [OF wf E _ _ nm(1), of ?n BSON_REGEX] s by (auto simp: small_def)
  have "fits b (int (length name) + 2 + ?n)" using f by (simp add: fits_def)
  then have ok: "r = BSON_OK" "extends b (enc_head BSON_REGEX name) b1" "b_err b1 = b_err b"
    using r nm(2) by (auto simp: name_passes_def)
  then show ?thesis using e bad
    by (auto simp: bson_append_regex_def Let_def extends_def split: prod.splits)
qed

definition picky_env :: bson_env where
  "picky_env = lib_env\<lparr>env_check_string := (\<lambda>s e. (BSON_ERROR, e OR BSON_NOT_UTF8))\<rparr>"

definition fresh_bson :: bson where
  "fresh_bson = bson_zero\<lparr>b_data := Some (replicate 128 0), b_dataSize := 128, b_ownsData := True, b_cur := Some 4\<rparr>"

lemma fresh_wf: "bson_wf fresh_bson" "lean fresh_bson"
  by (simp_all add: fresh_bson_def bson_zero_def bson_wf_def lean_def INT_MAX_def)

theorem regex_leaves_head_witness:
  "\<exists>b'. bson_append_regex picky_env fresh_bson [114] [255] [] = Some (BSON_ERROR, b')
     \<and> content b' = content fresh_bson @ enc_head BSON_REGEX [114]"
proof -
  have "env_good picky_env" "name_passes picky_env [114]" "fst (env_check_string picky_env [255] (b_err fresh_bson)) = BSON_ERROR"
    by (simp_all add: picky_env_def lib_env_def env_good_def name_passes_def)
  moreover have "fits fresh_bson (int (length [114 :: byte]) + int (length [255 :: byte]) + int (length ([] :: byte list)) + 4)"
    by (simp add: fits_def fresh_bson_def)
  ultimately show ?thesis using regex_leaves_head [OF fresh_wf, of picky_env "[114]" "[255]" "[]"] by (simp add: small_def)
qed

text \<open>\<open>bson_append_code_w_scope_n\<close> copies one byte more than the length it is given: code that is exactly
  \<open>len\<close> bytes long is read past its end, where \<open>bson_append_string_n\<close> and \<open>bson_append_code_n\<close> copy \<open>len\<close> bytes
  and add the NUL themselves.\<close>

theorem code_w_scope_overread:
  assumes wf: "bson_wf b" "lean b" and E: "env_good E" and nm: "small name" "name_passes E name"
    and sc: "bson_size (Some sc) = Some n" "0 \<le> n"
    and f: "fits b (int (length name) + 2 + (9 + int (length code) + n))"
  shows "bson_append_code_w_scope_n E b name code (int (length code)) (Some sc) = None"
proof -
  let ?sl = "int (length code) + 1" let ?sz = "4 + 4 + ?sl + n"
  have b4: "4 \<le> the (b_cur b)" using wf(1) by (auto simp: bson_wf_def)
  have c: "c_size ?sl = ?sl" "c_size ?sz = ?sz" "\<not> INT_MAX < ?sz"
    using f b4 sc(2) by (auto simp: fits_def INT_MAX_def intro!: c_size_id)
  obtain r b1 where e: "bson_append_estart E b BSON_CODEWSCOPE name ?sz = Some (r, b1)" "bson_wf b1"
    and r: "r = BSON_OK \<and> extends b (enc_head BSON_CODEWSCOPE name) b1 \<and> same_stack b b1 \<and> ?sz \<le> room b1
       \<and> b_dataSize b1 \<le> max (131 + 3 * the (b_cur b1)) (3 * (the (b_cur b1) + ?sz))
       \<and> b_err b1 = snd (env_check_field_name E name (b_err b))
     \<or> r = BSON_ERROR \<and> extends b [] b1 \<and> \<not> (name_passes E name \<and> fits b (int (length name) + 2 + ?sz))"
    using estart_law [OF wf E _ _ nm(1), of ?sz BSON_CODEWSCOPE] sc(2) c(3) by (auto simp: INT_MAX_def)
  have "fits b (int (length name) + 2 + ?sz)" using f by (simp add: fits_def)
  then have ok: "r = BSON_OK" "?sz \<le> room b1" using r nm(2) by auto
  have "mem_get code 0 ?sl = None" by (simp add: mem_get_def)
  then show ?thesis
    using e ok c sc by (auto simp: bson_append_code_w_scope_n_def Let_def split: bind_splits)
qed

theorem code_w_scope_overread_witness:
  "bson_append_code_w_scope_n lib_env fresh_bson [99] [65, 66] 2 (Some bson_shared_empty) = None"
proof -
  have "name_passes lib_env [99]" "bson_size (Some bson_shared_empty) = Some 5"
    "fits fresh_bson (int (length [99 :: byte]) + 2 + (9 + int (length [65 :: byte, 66]) + 5))"
    by (simp_all add: lib_env_def name_passes_def bson_size_def bson_shared_empty_def bson_shared_empty_data_def
        read32_def mem_get_def c_int_def fits_def fresh_bson_def)
  then show ?thesis
    using code_w_scope_overread [OF fresh_wf lib_env_good, of "[99]" bson_shared_empty 5 "[65, 66]"] by (simp add: small_def)
qed

end
