(* ===== verification/Lua_Path.thy ===== *)
theory Lua_Path
  imports Prelude
begin

text \<open>
  \<open>lua_pushluafunction\<close>, the function by which the C code finds a Lua callback by its dotted name;
  \<open>lport.cc\<close>, \<open>ltimer.cc\<close> and \<open>lae.cc\<close> each have a copy of it. It is shown equivalent to a lookup
  along the path.

  A Lua value is as much as the lookup can tell of it; the Lua stack is a list with its top in
  front, and \<open>ctop\<close> is the number of slots it may use. What metatables do is a parameter: \<open>nm_index\<close>
  is what indexing a value gives when it is not a table with an entry for the key. It gives nil for a
  plain table, an entry of the string library for a string, what \<open>__index\<close> says for a value with a
  metatable of its own, and \<open>None\<close> where a Lua error is raised, which leaves the C function.
\<close>

datatype lval = LuaNil | LuaTable "(byte list \<times> lval) list" | LuaFunction nat | LuaString "byte list" | LuaOther nat

record lua_names =
  nm_global :: "byte list \<Rightarrow> lval option"
  nm_index :: "lval \<Rightarrow> byte list \<Rightarrow> lval option"

definition lua_getglobal :: "nat \<Rightarrow> lua_names \<Rightarrow> byte list \<Rightarrow> lval list \<Rightarrow> lval list option" where
  "lua_getglobal ctop G s st = do { v \<leftarrow> nm_global G s; lua_pushed ctop (v # st) }"

definition field :: "lua_names \<Rightarrow> lval \<Rightarrow> byte list \<Rightarrow> lval option" where
  "field G t s =
     (case t of
        LuaTable kvs \<Rightarrow> (case map_of kvs s of None \<Rightarrow> nm_index G t s | Some v \<Rightarrow> if v = LuaNil then nm_index G t s else Some v)
      | _ \<Rightarrow> nm_index G t s)"

text \<open>
  \<open>lua_pushstring\<close> and \<open>lua_gettable(L, -2)\<close>: the value on top of the table; before it is there, the
  key is in its slot.
\<close>

definition lua_getstring :: "nat \<Rightarrow> lua_names \<Rightarrow> byte list \<Rightarrow> lval list \<Rightarrow> lval list option" where
  "lua_getstring ctop G s st =
     (case st of [] \<Rightarrow> None | t # _ \<Rightarrow> do { _ \<leftarrow> lua_pushed ctop (LuaString s # st); v \<leftarrow> field G t s; Some (v # st) })"

definition lua_isnil :: "lval list \<Rightarrow> bool" where
  "lua_isnil st \<longleftrightarrow> (case st of v # _ \<Rightarrow> v = LuaNil | [] \<Rightarrow> False)"

text \<open>\<open>lua_remove(L, -2)\<close>.\<close>

definition lua_remove2 :: "lval list \<Rightarrow> lval list" where
  "lua_remove2 st = (case st of v # _ # r \<Rightarrow> v # r | _ \<Rightarrow> st)"

text \<open>
  The loop over the characters. \<open>first\<close> is the test \<open>class_name == start\<close>; \<open>tok\<close> are the
  characters from \<open>class_name\<close> up to \<open>pfunc\<close>.
\<close>

definition dot :: byte where "dot = 46"

fun path_loop :: "nat \<Rightarrow> lua_names \<Rightarrow> bool \<Rightarrow> byte list \<Rightarrow> byte list \<Rightarrow> lval list \<Rightarrow> (int \<times> lval list) option" where
  "path_loop ctop G first tok [] st =
     (if first
      then do { st \<leftarrow> lua_getglobal ctop G tok st; Some (if lua_isnil st then 0 else 1, st) }
      else do {
        st \<leftarrow> lua_getstring ctop G tok st;
        Some (if lua_isnil st then (0, st) else (1, lua_remove2 st))
      })"
| "path_loop ctop G first tok (c # cs) st =
     (if c = dot \<and> first
      then do {
        st \<leftarrow> lua_getglobal ctop G tok st;
        if lua_isnil st then Some (0, st) else path_loop ctop G False [] cs st
      }
      else if c = dot
      then do {
        st \<leftarrow> lua_getstring ctop G tok st;
        if lua_isnil st then Some (0, st) else path_loop ctop G False [] cs (lua_remove2 st)
      }
      else path_loop ctop G first (tok @ [c]) cs st)"

definition lua_pushluafunction :: "nat \<Rightarrow> lua_names \<Rightarrow> byte list \<Rightarrow> lval list \<Rightarrow> (int \<times> lval list) option" where
  "lua_pushluafunction ctop G func st = path_loop ctop G True [] func st"

text \<open>The copies of \<open>ltimer.cc\<close> and \<open>lae.cc\<close> are the same text.\<close>

definition timer_pushluafunction :: "nat \<Rightarrow> lua_names \<Rightarrow> byte list \<Rightarrow> lval list \<Rightarrow> (int \<times> lval list) option" where
  "timer_pushluafunction ctop G func st = path_loop ctop G True [] func st"

definition ae_pushluafunction :: "nat \<Rightarrow> lua_names \<Rightarrow> byte list \<Rightarrow> lval list \<Rightarrow> (int \<times> lval list) option" where
  "ae_pushluafunction ctop G func st = path_loop ctop G True [] func st"

section \<open>The reference: a lookup along the path\<close>

fun split_dots :: "byte list \<Rightarrow> byte list list" where
  "split_dots [] = [[]]"
| "split_dots (c # cs) =
     (if c = dot then [] # split_dots cs
      else case split_dots cs of [] \<Rightarrow> [[c]] | t # ts \<Rightarrow> (c # t) # ts)"

text \<open>The value at the end of a path of fields, with the value it was looked up in when it is nil.\<close>

fun follow :: "lua_names \<Rightarrow> lval \<Rightarrow> byte list list \<Rightarrow> (lval list) option" where
  "follow G v [] = Some [v]"
| "follow G v (k # ks) =
     do { u \<leftarrow> field G v k; if u = LuaNil then Some [LuaNil, v] else follow G u ks }"

definition resolve :: "lua_names \<Rightarrow> byte list \<Rightarrow> (lval list) option" where
  "resolve G name =
     (case split_dots name of
        [] \<Rightarrow> None
      | k # ks \<Rightarrow> do { v \<leftarrow> nm_global G k; if v = LuaNil then Some [LuaNil] else follow G v ks })"

definition lookup_result :: "lval list \<Rightarrow> lval list \<Rightarrow> int \<times> lval list" where
  "lookup_result st vs = (if hd vs = LuaNil then 0 else 1, vs @ st)"

lemma lookup_result_Cons [simp]: "lookup_result st (v # vs) = (if v = LuaNil then 0 else 1, v # vs @ st)"
  by (simp add: lookup_result_def)

lemma split_nonempty [simp]: "split_dots cs \<noteq> []"
  by (induction cs) (auto split: list.splits)

lemma path_loop_field:
  "length st + 2 \<le> ctop \<Longrightarrow> v \<noteq> LuaNil \<Longrightarrow>
   path_loop ctop G False tok cs (v # st) =
     map_option (lookup_result st) (follow G v (case split_dots cs of t # ts \<Rightarrow> (tok @ t) # ts | [] \<Rightarrow> []))"
proof (induction cs arbitrary: tok v)
  case Nil
  then show ?case
    by (cases "field G v tok") (auto simp: lua_getstring_def lua_isnil_def lua_remove2_def)
next
  case (Cons c cs)
  obtain t ts where s: "split_dots cs = t # ts" by (metis split_nonempty list.exhaust)
  show ?case
  proof (cases "c = dot")
    case True
    then show ?thesis using Cons.IH [OF Cons.prems(1), of _ "[]"] Cons.prems(1) s
      by (cases "field G v tok") (auto simp: lua_getstring_def lua_isnil_def lua_remove2_def)
  next
    case False
    then show ?thesis using Cons.IH [OF Cons.prems, of "tok @ [c]"] s by simp
  qed
qed

lemma path_loop_global:
  "length st + 2 \<le> ctop \<Longrightarrow> path_loop ctop G True tok cs st =
     map_option (lookup_result st)
       (case split_dots cs of
          [] \<Rightarrow> None
        | t # ts \<Rightarrow> do { v \<leftarrow> nm_global G (tok @ t); if v = LuaNil then Some [LuaNil] else follow G v ts })"
proof (induction cs arbitrary: tok)
  case Nil
  then show ?case
    by (cases "nm_global G tok") (auto simp: lua_getglobal_def lua_isnil_def)
next
  case (Cons c cs)
  obtain t ts where s: "split_dots cs = t # ts" by (metis split_nonempty list.exhaust)
  show ?case
  proof (cases "c = dot")
    case True
    then show ?thesis using path_loop_field [OF Cons.prems, of _ G "[]" cs] Cons.prems s
      by (cases "nm_global G tok") (auto simp: lua_getglobal_def lua_isnil_def)
  next
    case False
    then show ?thesis using Cons.IH [OF Cons.prems, of "tok @ [c]"] s by simp
  qed
qed

lemma path_loop_resolves:
  "length st + 2 \<le> ctop \<Longrightarrow> path_loop ctop G True [] name st = map_option (lookup_result st) (resolve G name)"
  unfolding resolve_def using path_loop_global [of st ctop G "[]" name] by (cases "split_dots name") simp_all

text \<open>C9: The scan of a callback name, in each of the three copies, is a lookup along its dotted path, whatever
  metatables do and wherever two slots of the stack are free: it returns 1 and pushes exactly the value at the end of
  the path, or it returns 0 with a nil on top (and, if the nil is not the first component, the value it was looked up
  in left below it); it raises a Lua error exactly when a lookup on the path does.\<close>

theorem push_resolves:
  assumes "length st + 2 \<le> ctop"
  shows "lua_pushluafunction ctop G name st = map_option (lookup_result st) (resolve G name)
    \<and> timer_pushluafunction ctop G name st = map_option (lookup_result st) (resolve G name)
    \<and> ae_pushluafunction ctop G name st = map_option (lookup_result st) (resolve G name)"
  using path_loop_resolves [OF assms]
  by (simp add: lua_pushluafunction_def timer_pushluafunction_def ae_pushluafunction_def)

definition sample_names :: lua_names where
  "sample_names = \<lparr>nm_global = (\<lambda>s. Some (if s = [97] then LuaTable [([98], LuaString [120])] else LuaNil)),
     nm_index = (\<lambda>v s. case v of LuaTable _ \<Rightarrow> Some LuaNil | LuaString _ \<Rightarrow> Some (if s = [99] then LuaFunction 1 else LuaNil) | _ \<Rightarrow> None)\<rparr>"

text \<open>Witness: the path \<open>a.b.c\<close>, where \<open>a.b\<close> is a string and \<open>c\<close> a function of the string library.\<close>

theorem push_resolves_witness:
  "lua_pushluafunction LUA_MINSTACK sample_names [97, 46, 98, 46, 99] [] = Some (1, [LuaFunction 1])
   \<and> ae_pushluafunction LUA_MINSTACK sample_names [97, 46, 98, 46, 120] [] = Some (0, [LuaNil, LuaString [120]])"
  using push_resolves [of "[]" LUA_MINSTACK sample_names "[97, 46, 98, 46, 99]"]
    push_resolves [of "[]" LUA_MINSTACK sample_names "[97, 46, 98, 46, 120]"]
  by (simp add: LUA_MINSTACK_def resolve_def sample_names_def dot_def field_def)

end
