(* ===== verification/Lua_Args.thy ===== *)
theory Lua_Args
  imports Prelude
begin

text \<open>
  What the bindings see of their arguments, and copying strings into arrays of the C structures.
\<close>

section \<open>What the Lua API reports of the arguments\<close>

record lua_slot =
  is_number :: bool
  to_number :: int
  is_string :: bool
  to_cstring :: "byte list option"
  is_userdata :: bool
  to_userdata :: "nat option"

record lua_args =
  gettop :: nat
  arg :: "nat \<Rightarrow> lua_slot"

text \<open>\<open>strcpy\<close> into an array of \<open>n\<close> characters.\<close>

definition strcpy :: "nat \<Rightarrow> byte list option \<Rightarrow> byte list option" where
  "strcpy n s = do { s \<leftarrow> s; if length s < n then Some s else None }"

end
