(* ===== verification/Server.thy ===== *)
theory Server
  imports Ae Lsendbuf Lrecvbuf Lua_Path Lua_Args
begin

text \<open>
  The state the Lua bindings of \<open>src/src/ae\<close> share: the event loops, the socket table and the
  ports of \<open>lport.cc\<close>, the buffers, the timers of \<open>ltimer.cc\<close> and the callback tables of
  \<open>lae.cc\<close>. A Lua callback may call any binding, so it acts on the whole of it.

  Pointers are numbers: a loop, a \<open>Port\<close>, a \<open>TimerData\<close> or a \<open>TimeData\<close> is found in a map, from
  which \<open>free\<close> removes it; following a pointer that is not there is undefined. What the code
  prints to the log is not part of this state.
\<close>

section \<open>Callbacks and their data\<close>

datatype cproc =
    Port_on_read | Port_on_write | Port_on_accept | Port_on_connect_suc | Port_on_connect_err
  | Timer_proc | Self_timer_proc | Timer_finalizer_proc
  | File_proc | Time_proc | Finalizer_proc

datatype cdata = CNull | CPort nat | CTimer nat | CSelf int | CFile int | CTime nat

type_synonym 'a server_loop = "(cproc, cdata, 'a) aeEventLoop"

text \<open>\<open>Port\<close> and \<open>Sock\<close> of \<open>lport.h\<close>; the members that are never used are left out.\<close>

record Port =
  port_loop :: nat
  lua_on_read :: "byte list"
  lua_on_accept :: "byte list"
  lua_on_close :: "byte list"
  lua_on_connect_err :: "byte list"
  lua_on_connect_suc :: "byte list"
  port_name :: "byte list"

record Sock =
  sock_port :: "nat option"
  sock_fd :: int
  sock_shutdown :: int
  sock_uid :: int
  sock_userdata :: int

definition zero_sock :: Sock where
  "zero_sock = \<lparr>sock_port = None, sock_fd = 0, sock_shutdown = 0, sock_uid = 0, sock_userdata = 0\<rparr>"

definition MAX_SOCK :: int where "MAX_SOCK = 10240"

text \<open>\<open>TimerData\<close> of \<open>ltimer.cc\<close>, \<open>FileData\<close> of \<open>lae.cc\<close>. The time data of \<open>lae.cc\<close> is the callback
  name, not written when the caller gives none.\<close>

record TimerData =
  td_callback :: "byte list"
  td_msec :: int
  td_timerid :: int

record FileData =
  file_read_proc :: "byte list"
  file_writ_proc :: "byte list"
  file_L :: bool

definition MAX_FILE_DATA :: int where "MAX_FILE_DATA = 10240"

record 'a server =
  sv_loops :: "nat \<Rightarrow> 'a server_loop option"
  sv_ports :: "nat \<Rightarrow> Port option"
  sv_socks :: "int \<Rightarrow> Sock"
  sv_send :: sendbuf
  sv_recv :: recvbuf
  sv_timers :: "nat \<Rightarrow> TimerData option"
  sv_times :: "nat \<Rightarrow> byte list option option"
  sv_files :: "int \<Rightarrow> FileData"
  sv_brk :: nat
  self_timer_callback :: "byte list option"
  s_timer_counter :: int
  s_min_msec :: int
  s_call_lua_time :: int
  main_loop_ptr :: "nat option"

text \<open>The static data at start: all zero but the smallest interval.\<close>

definition server_init :: "'a server" where
  "server_init =
     \<lparr>sv_loops = (\<lambda>_. None), sv_ports = (\<lambda>_. None), sv_socks = (\<lambda>_. zero_sock),
      sv_send = sendbuf_init, sv_recv = recvbuf_init, sv_timers = (\<lambda>_. None), sv_times = (\<lambda>_. None),
      sv_files = (\<lambda>_. \<lparr>file_read_proc = [], file_writ_proc = [], file_L = False\<rparr>), sv_brk = 0,
      self_timer_callback = None, s_timer_counter = 0, s_min_msec = INT_MAX, s_call_lua_time = 0, main_loop_ptr = None\<rparr>"

section \<open>The system and the scripts\<close>

text \<open>
  The socket calls. \<open>net_send\<close> and \<open>net_connect\<close> return the result and \<open>errno\<close>; \<open>net_recv\<close> also
  the bytes; \<open>net_peer\<close> is \<open>getpeername\<close> with the conversions to text and host order;
  \<open>net_gethostbyname\<close> is \<open>None\<close> for a null pointer and \<open>Some None\<close> for an empty list.
\<close>

record 'w net =
  net_send :: "int \<Rightarrow> byte list \<Rightarrow> 'w \<Rightarrow> (int \<times> int) \<times> 'w"
  net_recv :: "int \<Rightarrow> int \<Rightarrow> 'w \<Rightarrow> (int \<times> int \<times> byte list) \<times> 'w"
  net_accept :: "int \<Rightarrow> 'w \<Rightarrow> int \<times> 'w"
  net_socket :: "'w \<Rightarrow> int \<times> 'w"
  net_reuse :: "int \<Rightarrow> 'w \<Rightarrow> 'w"
  net_bind :: "int \<Rightarrow> int \<Rightarrow> 'w \<Rightarrow> int \<times> 'w"
  net_listen :: "int \<Rightarrow> int \<Rightarrow> 'w \<Rightarrow> int \<times> 'w"
  net_connect :: "int \<Rightarrow> int \<Rightarrow> int \<Rightarrow> 'w \<Rightarrow> (int \<times> int) \<times> 'w"
  net_shutdown :: "int \<Rightarrow> 'w \<Rightarrow> 'w"
  net_nonblock :: "int \<Rightarrow> 'w \<Rightarrow> 'w"
  net_peer :: "int \<Rightarrow> 'w \<Rightarrow> byte list \<times> int"
  net_inet_addr :: "byte list \<Rightarrow> int option"
  net_gethostbyname :: "byte list \<Rightarrow> 'w \<Rightarrow> int option option"
  net_strerror :: "'w \<Rightarrow> byte list"

definition EAGAIN :: int where "EAGAIN = 11"
definition EINPROGRESS :: int where "EINPROGRESS = 115"

text \<open>
  \<open>lua_global\<close> are the globals and what metatables do; \<open>lua_run f args\<close> calls a Lua value: \<open>None\<close> as its first
  result stands for an error caught by \<open>lua_pcall\<close>, otherwise it is the integer the call returned.
\<close>

record ('a, 'w) senv =
  se_os :: "'w os"
  se_api :: "(cproc, cdata, 'a, 'w) ae_api"
  se_net :: "'w net"
  lua_global :: "'w \<Rightarrow> lua_names"
  lua_run :: "lval \<Rightarrow> nat lua_value list \<Rightarrow> 'a server \<Rightarrow> 'w \<Rightarrow> (int option \<times> 'a server \<times> 'w) option"

text \<open>
  \<open>lua_pushluafunction\<close>, the arguments and \<open>lua_pcall\<close>, where the result of the first is not
  looked at: on a name that is not found nil is called, which \<open>lua_pcall\<close> reports as an error.
\<close>

definition call_lua ::
  "('a, 'w) senv \<Rightarrow> byte list \<Rightarrow> nat lua_value list \<Rightarrow> 'a server \<Rightarrow> 'w \<Rightarrow> (int option \<times> 'a server \<times> 'w) option" where
  "call_lua V name args sv w =
     do {
       (r, st) \<leftarrow> lua_pushluafunction LUA_MINSTACK (lua_global V w) name [];
       if r = 0 then Some (None, sv, w) else lua_run V (hd st) args sv w
     }"

section \<open>Loops behind pointers\<close>

definition set_loop :: "'a server \<Rightarrow> nat \<Rightarrow> 'a server_loop \<Rightarrow> 'a server" where
  "set_loop sv p l = sv\<lparr>sv_loops := (sv_loops sv)(p \<mapsto> l)\<rparr>"

definition loop_create_event ::
  "('a, 'w) senv \<Rightarrow> nat \<Rightarrow> int \<Rightarrow> mask \<Rightarrow> cproc \<Rightarrow> cdata \<Rightarrow> 'a server \<Rightarrow> 'w \<Rightarrow> (int \<times> 'a server \<times> 'w) option" where
  "loop_create_event V p fd m proc cd sv w =
     do {
       l \<leftarrow> sv_loops sv p;
       (r, l, w) \<leftarrow> aeCreateFileEvent (se_api V) l fd m proc cd w;
       Some (r, set_loop sv p l, w)
     }"

definition loop_delete_event ::
  "('a, 'w) senv \<Rightarrow> nat \<Rightarrow> int \<Rightarrow> mask \<Rightarrow> 'a server \<Rightarrow> 'w \<Rightarrow> ('a server \<times> 'w) option" where
  "loop_delete_event V p fd m sv w =
     do {
       l \<leftarrow> sv_loops sv p;
       (l, w) \<leftarrow> aeDeleteFileEvent (se_api V) l fd m w;
       Some (set_loop sv p l, w)
     }"

text \<open>Both conditions of a descriptor, as the code removes them.\<close>

definition loop_delete_both ::
  "('a, 'w) senv \<Rightarrow> nat \<Rightarrow> int \<Rightarrow> 'a server \<Rightarrow> 'w \<Rightarrow> ('a server \<times> 'w) option" where
  "loop_delete_both V p fd sv w =
     do {
       (sv, w) \<leftarrow> loop_delete_event V p fd AE_READABLE sv w;
       loop_delete_event V p fd AE_WRITABLE sv w
     }"

end
