(* ===== verification/Lport.thy ===== *)
theory Lport
  imports Server
begin

text \<open>
  The ports, \<open>src/src/ae/lport.cc\<close>: sockets on top of the event loop and the two buffers, and the
  Lua callbacks of accepted, connected, readable, writable and closed sockets.
\<close>

section \<open>The socket table\<close>

definition bad_fd :: "int \<Rightarrow> bool" where
  "bad_fd sockfd \<longleftrightarrow> sockfd \<le> 0 \<or> MAX_SOCK \<le> sockfd"

text \<open>\<open>fd2sock\<close>: undefined outside the table.\<close>

definition fd2sock :: "'a server \<Rightarrow> int \<Rightarrow> Sock option" where
  "fd2sock sv fd = (if 0 \<le> fd \<and> fd < MAX_SOCK then Some (sv_socks sv fd) else None)"

definition set_sock :: "'a server \<Rightarrow> int \<Rightarrow> Sock \<Rightarrow> 'a server" where
  "set_sock sv fd s = sv\<lparr>sv_socks := (sv_socks sv)(fd := s)\<rparr>"

text \<open>\<open>sock->port\<close> and what it points to.\<close>

definition sock_port_at :: "'a server \<Rightarrow> int \<Rightarrow> (nat \<times> Port) option" where
  "sock_port_at sv fd =
     do { s \<leftarrow> fd2sock sv fd; p \<leftarrow> sock_port s; port \<leftarrow> sv_ports sv p; Some (p, port) }"

definition sock_create :: "('a, 'w) senv \<Rightarrow> nat option \<Rightarrow> int \<Rightarrow> 'a server \<Rightarrow> 'w \<Rightarrow> (int \<times> 'a server \<times> 'w) option" where
  "sock_create V port sockfd sv w =
     (if bad_fd sockfd then Some (1, sv, w)
      else do {
        let sv = set_sock sv sockfd (zero_sock\<lparr>sock_port := port, sock_fd := sockfd\<rparr>);
        (r, rb, w) \<leftarrow> recvbuf_create (se_os V) (sv_recv sv) sockfd 1024 w;
        (r, sb) \<leftarrow> sendbuf_create (sv_send sv) sockfd;
        Some (0, sv\<lparr>sv_recv := rb, sv_send := sb\<rparr>, w)
      })"

definition sock_free :: "int \<Rightarrow> 'a server \<Rightarrow> (int \<times> 'a server) option" where
  "sock_free sockfd sv =
     (if bad_fd sockfd then Some (1, sv)
      else do {
        let sv = set_sock sv sockfd zero_sock;
        let (r, rb) = recvbuf_free (sv_recv sv) sockfd;
        (r, sb) \<leftarrow> sendbuf_free (sv_send sv) sockfd;
        Some (0, sv\<lparr>sv_recv := rb, sv_send := sb\<rparr>)
      })"

definition real_close :: "('a, 'w) senv \<Rightarrow> int \<Rightarrow> byte list \<Rightarrow> 'a server \<Rightarrow> 'w \<Rightarrow> (int \<times> 'a server \<times> 'w) option" where
  "real_close V sockfd reason sv w =
     (if bad_fd sockfd then Some (1, sv, w)
      else do {
        (p, port) \<leftarrow> sock_port_at sv sockfd;
        (sv, w) \<leftarrow>
          (if lua_on_close port \<noteq> []
           then do {
             let (ip, pn) = net_peer (se_net V) sockfd w;
             (r, sv, w) \<leftarrow> call_lua V (lua_on_close port) [LInt sockfd, LStr ip, LInt pn, LStr reason] sv w;
             Some (sv, w)
           }
           else Some (sv, w));
        port \<leftarrow> sv_ports sv p;
        (sv, w) \<leftarrow> loop_delete_both V (port_loop port) sockfd sv w;
        let w = os_close (se_os V) sockfd w;
        (r, sv) \<leftarrow> sock_free sockfd sv;
        Some (0, sv, w)
      })"

section \<open>Events\<close>

definition port_on_read :: "('a, 'w) senv \<Rightarrow> int \<Rightarrow> 'a server \<Rightarrow> 'w \<Rightarrow> ('a server \<times> 'w) option" where
  "port_on_read V sockfd sv w =
     do {
       (p, port) \<leftarrow> sock_port_at sv sockfd;
       if lua_on_read port \<noteq> []
       then do { (r, sv, w) \<leftarrow> call_lua V (lua_on_read port) [LInt sockfd] sv w; Some (sv, w) }
       else Some (sv, w)
     }"

text \<open>
  The \<open>while(1)\<close> of \<open>port_on_write\<close>. It goes round again without progress when \<open>send\<close> returns 0,
  and when the length is negative.
\<close>

definition peer_close :: "byte list" where
  "peer_close = [112, 101, 101, 114, 32, 99, 108, 111, 115, 101]"

text \<open>The loop of \<open>port_on_write\<close>. The line it logs between \<open>send\<close> and the tests of \<open>errno\<close> is not modelled: the
  error that is tested is the one of \<open>send\<close>.\<close>

partial_function (option) write_loop :: "('a, 'w) senv \<Rightarrow> int \<Rightarrow> 'a server \<Rightarrow> 'w \<Rightarrow> ('a server \<times> 'w) option" where
  "write_loop V sockfd sv w =
     Option.bind (sendbuf_datalen (sv_send sv) sockfd) (\<lambda>datalen.
     Option.bind (sendbuf_get_read_ptr (sv_send sv) sockfd) (\<lambda>rptr.
       if datalen = 0 then Some (sv, w)
       else if 0 < datalen then
         Option.bind (Option.bind rptr (\<lambda>q. copy_from (sv_send sv) q datalen)) (\<lambda>bs.
           case net_send (se_net V) sockfd bs w of ((ir, err), w) \<Rightarrow>
             if 0 < ir then
               Option.bind (sendbuf_skip_read_ptr (sv_send sv) sockfd ir) (\<lambda>(r, sb).
                 write_loop V sockfd (sv\<lparr>sv_send := sb\<rparr>) w)
             else if ir = - 1 \<and> err = EAGAIN then Some (sv, w)
             else if ir = - 1 then
               Option.bind (real_close V sockfd peer_close sv w) (\<lambda>(r, sv, w). Some (sv, w))
             else write_loop V sockfd sv w)
       else write_loop V sockfd sv w))"

definition port_on_write :: "('a, 'w) senv \<Rightarrow> int \<Rightarrow> 'a server \<Rightarrow> 'w \<Rightarrow> ('a server \<times> 'w) option" where
  "port_on_write V sockfd sv w =
     do {
       s \<leftarrow> fd2sock sv sockfd;
       (sv, w) \<leftarrow> write_loop V sockfd sv w;
       n \<leftarrow> sendbuf_datalen (sv_send sv) sockfd;
       if n \<le> 0
       then do {
         p \<leftarrow> sock_port s;
         port \<leftarrow> sv_ports sv p;
         (sv, w) \<leftarrow> loop_delete_event V (port_loop port) sockfd AE_WRITABLE sv w;
         s \<leftarrow> fd2sock sv sockfd;
         if sock_shutdown s = 1
         then do { (r, sv, w) \<leftarrow> real_close V sockfd (net_strerror (se_net V) w) sv w; Some (sv, w) }
         else Some (sv, w)
       }
       else Some (sv, w)
     }"

text \<open>The callback of a socket with its peer's address.\<close>

definition call_with_peer ::
  "('a, 'w) senv \<Rightarrow> byte list \<Rightarrow> int \<Rightarrow> 'a server \<Rightarrow> 'w \<Rightarrow> ('a server \<times> 'w) option" where
  "call_with_peer V name sockfd sv w =
     do {
       let (ip, pn) = net_peer (se_net V) sockfd w;
       (r, sv, w) \<leftarrow> call_lua V name [LInt sockfd, LStr ip, LInt pn] sv w;
       Some (sv, w)
     }"

definition port_on_accept ::
  "('a, 'w) senv \<Rightarrow> int \<Rightarrow> cdata \<Rightarrow> 'a server \<Rightarrow> 'w \<Rightarrow> ('a server \<times> 'w) option" where
  "port_on_accept V listenfd args sv w =
     (case args of
        CNull \<Rightarrow> Some (sv, w)
      | CPort p \<Rightarrow>
          do {
            port \<leftarrow> sv_ports sv p;
            let (sockfd, w) = net_accept (se_net V) listenfd w;
            if sockfd = - 1 then Some (sv, w)
            else if lua_on_accept port = [] then Some (sv, os_close (se_os V) sockfd w)
            else do {
              (r, sv, w) \<leftarrow> sock_create V (Some p) sockfd sv w;
              if r \<noteq> 0 then Some (sv, os_close (se_os V) sockfd w)
              else do {
                let w = net_nonblock (se_net V) sockfd w;
                (r, sv, w) \<leftarrow> loop_create_event V (port_loop port) sockfd AE_READABLE Port_on_read CNull sv w;
                (r, sv, w) \<leftarrow> loop_create_event V (port_loop port) sockfd AE_WRITABLE Port_on_write CNull sv w;
                call_with_peer V (lua_on_accept port) sockfd sv w
              }
            }
          }
      | _ \<Rightarrow> None)"

definition port_on_connect_suc :: "('a, 'w) senv \<Rightarrow> int \<Rightarrow> 'a server \<Rightarrow> 'w \<Rightarrow> ('a server \<times> 'w) option" where
  "port_on_connect_suc V sockfd sv w =
     do {
       (p, port) \<leftarrow> sock_port_at sv sockfd;
       (sv, w) \<leftarrow> loop_delete_both V (port_loop port) sockfd sv w;
       (r, sv, w) \<leftarrow> loop_create_event V (port_loop port) sockfd AE_READABLE Port_on_read CNull sv w;
       (r, sv, w) \<leftarrow> loop_create_event V (port_loop port) sockfd AE_WRITABLE Port_on_write CNull sv w;
       if lua_on_connect_suc port \<noteq> [] then call_with_peer V (lua_on_connect_suc port) sockfd sv w
       else Some (sv, w)
     }"

definition port_on_connect_err :: "('a, 'w) senv \<Rightarrow> int \<Rightarrow> 'a server \<Rightarrow> 'w \<Rightarrow> ('a server \<times> 'w) option" where
  "port_on_connect_err V sockfd sv w =
     do {
       (p, port) \<leftarrow> sock_port_at sv sockfd;
       (sv, w) \<leftarrow>
         (if lua_on_connect_err port \<noteq> [] then call_with_peer V (lua_on_connect_err port) sockfd sv w
          else Some (sv, w));
       port \<leftarrow> sv_ports sv p;
       (sv, w) \<leftarrow> loop_delete_both V (port_loop port) sockfd sv w;
       let w = os_close (se_os V) sockfd w;
       (r, sv) \<leftarrow> sock_free sockfd sv;
       Some (sv, w)
     }"

section \<open>Bindings: opening sockets\<close>

definition llisten :: "('a, 'w) senv \<Rightarrow> lua_args \<Rightarrow> 'a server \<Rightarrow> 'w \<Rightarrow> (nat lua_out \<times> 'a server \<times> 'w) option" where
  "llisten V a sv w =
     (if is_userdata (arg a 1) \<and> is_number (arg a 2)
      then
        (case to_userdata (arg a 1) of
           None \<Rightarrow> Some (([], 0), sv, w)
         | Some p \<Rightarrow>
             do {
               let listenport = c_ushort (to_number (arg a 2));
               let (sockfd, w) = net_socket (se_net V) w;
               if sockfd < 0 then Some (([], 0), sv, w)
               else do {
                 (r, sv, w) \<leftarrow> sock_create V (Some p) sockfd sv w;
                 if r \<noteq> 0 then Some (([], 0), sv, os_close (se_os V) sockfd w)
                 else do {
                   let w = net_reuse (se_net V) sockfd w;
                   let (r, w) = net_bind (se_net V) sockfd listenport w;
                   if r < 0 then Some (([], 0), sv, w)
                   else do {
                     let (r, w) = net_listen (se_net V) sockfd 5 w;
                     if r < 0 then Some (([], 0), sv, w)
                     else do {
                       port \<leftarrow> sv_ports sv p;
                       (r, sv, w) \<leftarrow> loop_create_event V (port_loop port) sockfd AE_READABLE Port_on_accept (CPort p) sv w;
                       Some (if r = AE_ERR then ([], 0) else ([LBool True], 1), sv, w)
                     }
                   }
                 }
               }
             })
      else Some (([], 0), sv, w))"

text \<open>
  The address of a host: a dotted address, or the first of \<open>gethostbyname\<close>, whose null result is
  not checked. The result \<open>Some None\<close> is the early return of the callers.
\<close>

definition host_addr :: "('a, 'w) senv \<Rightarrow> byte list \<Rightarrow> 'w \<Rightarrow> int option option" where
  "host_addr V ip w =
     (case net_inet_addr (se_net V) ip of
        Some x \<Rightarrow> Some (Some x)
      | None \<Rightarrow> net_gethostbyname (se_net V) ip w)"

definition lsyncconnect :: "('a, 'w) senv \<Rightarrow> lua_args \<Rightarrow> 'a server \<Rightarrow> 'w \<Rightarrow> (nat lua_out \<times> 'a server \<times> 'w) option" where
  "lsyncconnect V a sv w =
     do {
       ip \<leftarrow> to_cstring (arg a 2);
       let portnum = c_ushort (to_number (arg a 3));
       addr \<leftarrow> host_addr V ip w;
       case addr of
         None \<Rightarrow> Some (([], 0), sv, w)
       | Some addr \<Rightarrow> do {
           let (sockfd, w) = net_socket (se_net V) w;
           if sockfd < 0 then Some (([], 0), sv, w)
           else do {
             (r, sv, w) \<leftarrow> sock_create V (to_userdata (arg a 1)) sockfd sv w;
             if r \<noteq> 0 then Some (([], 0), sv, os_close (se_os V) sockfd w)
             else do {
               let ((rt, err), w) = net_connect (se_net V) sockfd addr portnum w;
               if rt < 0 then Some (([], 0), sv, os_close (se_os V) sockfd w)
               else do {
                 let w = net_nonblock (se_net V) sockfd w;
                 p \<leftarrow> to_userdata (arg a 1);
                 port \<leftarrow> sv_ports sv p;
                 (r, sv, w) \<leftarrow> loop_create_event V (port_loop port) sockfd AE_READABLE Port_on_read CNull sv w;
                 (r, sv, w) \<leftarrow> loop_create_event V (port_loop port) sockfd AE_WRITABLE Port_on_write CNull sv w;
                 Some (([LInt sockfd], 1), sv, w)
               }
             }
           }
         }
     }"

definition lconnect :: "('a, 'w) senv \<Rightarrow> lua_args \<Rightarrow> 'a server \<Rightarrow> 'w \<Rightarrow> (nat lua_out \<times> 'a server \<times> 'w) option" where
  "lconnect V a sv w =
     (case to_userdata (arg a 1) of
        None \<Rightarrow> Some (([], 0), sv, w)
      | Some p \<Rightarrow>
          do {
            ip \<leftarrow> to_cstring (arg a 2);
            let portnum = c_ushort (to_number (arg a 3));
            addr \<leftarrow> host_addr V ip w;
            case addr of
              None \<Rightarrow> Some (([], 0), sv, w)
            | Some addr \<Rightarrow> do {
                let (sockfd, w) = net_socket (se_net V) w;
                if sockfd < 0 then Some (([], 0), sv, w)
                else do {
                  (r, sv, w) \<leftarrow> sock_create V (Some p) sockfd sv w;
                  if r \<noteq> 0 then Some (([], 0), sv, os_close (se_os V) sockfd w)
                  else do {
                    let w = net_nonblock (se_net V) sockfd w;
                    port \<leftarrow> sv_ports sv p;
                    (r, sv, w) \<leftarrow> loop_create_event V (port_loop port) sockfd AE_READABLE Port_on_connect_err CNull sv w;
                    (r, sv, w) \<leftarrow> loop_create_event V (port_loop port) sockfd AE_WRITABLE Port_on_connect_suc CNull sv w;
                    let ((rt, err), w) = net_connect (se_net V) sockfd addr portnum w;
                    if rt < 0 \<and> err \<noteq> EINPROGRESS
                    then do {
                      (r, sv) \<leftarrow> sock_free sockfd sv;
                      Some (([], 0), sv, os_close (se_os V) sockfd w)
                    }
                    else Some (([LInt sockfd], 1), sv, w)
                  }
                }
              }
          })"

section \<open>Bindings: ports\<close>

definition port_lcreate :: "('a, 'w) senv \<Rightarrow> lua_args \<Rightarrow> 'a server \<Rightarrow> 'w \<Rightarrow> (nat lua_out \<times> 'a server \<times> 'w) option" where
  "port_lcreate V a sv w =
     (case to_userdata (arg a 1) of
        None \<Rightarrow> Some (([], 0), sv, w)
      | Some loop \<Rightarrow>
          (let (ok, w) = os_malloc (se_os V) 736 w in
           if \<not> ok then None
           else
             let p = sv_brk sv;
                 port = \<lparr>port_loop = loop, lua_on_read = [], lua_on_accept = [], lua_on_close = [],
                         lua_on_connect_err = [], lua_on_connect_suc = [], port_name = []\<rparr>
             in Some (([LPtr p], 1), sv\<lparr>sv_ports := (sv_ports sv)(p \<mapsto> port), sv_brk := Suc p\<rparr>, w)))"

definition port_lfree :: "('a, 'w) senv \<Rightarrow> lua_args \<Rightarrow> 'a server \<Rightarrow> 'w \<Rightarrow> (nat lua_out \<times> 'a server \<times> 'w) option" where
  "port_lfree V a sv w =
     (case to_userdata (arg a 1) of
        None \<Rightarrow> Some (([], 0), sv, w)
      | Some p \<Rightarrow>
          do { port \<leftarrow> sv_ports sv p;
               Some (([LBool True], 1), sv\<lparr>sv_ports := (sv_ports sv)(p := None)\<rparr>, os_free (se_os V) w) })"

text \<open>The setters of the callback names: the same check of the arguments, then \<open>strcpy\<close>.\<close>

definition set_callback ::
  "(byte list \<Rightarrow> Port \<Rightarrow> Port) \<Rightarrow> nat \<Rightarrow> lua_args \<Rightarrow> 'a server \<Rightarrow> (nat lua_out \<times> 'a server) option" where
  "set_callback upd n a sv =
     (if gettop a = 2 \<and> is_userdata (arg a 1) \<and> is_string (arg a 2)
      then do {
        p \<leftarrow> to_userdata (arg a 1);
        port \<leftarrow> sv_ports sv p;
        s \<leftarrow> strcpy n (to_cstring (arg a 2));
        Some (([LBool True], 1), sv\<lparr>sv_ports := (sv_ports sv)(p \<mapsto> upd s port)\<rparr>)
      }
      else Some (([], 0), sv))"

definition lon_read :: "lua_args \<Rightarrow> 'a server \<Rightarrow> (nat lua_out \<times> 'a server) option" where
  "lon_read = set_callback (\<lambda>s port. port\<lparr>lua_on_read := s\<rparr>) 128"

definition lon_connect_err :: "lua_args \<Rightarrow> 'a server \<Rightarrow> (nat lua_out \<times> 'a server) option" where
  "lon_connect_err = set_callback (\<lambda>s port. port\<lparr>lua_on_connect_err := s\<rparr>) 128"

definition lon_connect_suc :: "lua_args \<Rightarrow> 'a server \<Rightarrow> (nat lua_out \<times> 'a server) option" where
  "lon_connect_suc = set_callback (\<lambda>s port. port\<lparr>lua_on_connect_suc := s\<rparr>) 128"

definition lrename :: "lua_args \<Rightarrow> 'a server \<Rightarrow> (nat lua_out \<times> 'a server) option" where
  "lrename = set_callback (\<lambda>s port. port\<lparr>port_name := s\<rparr>) 64"

definition lon_accept :: "lua_args \<Rightarrow> 'a server \<Rightarrow> (nat lua_out \<times> 'a server) option" where
  "lon_accept = set_callback (\<lambda>s port. port\<lparr>lua_on_accept := s\<rparr>) 128"

definition lon_close :: "lua_args \<Rightarrow> 'a server \<Rightarrow> (nat lua_out \<times> 'a server) option" where
  "lon_close = set_callback (\<lambda>s port. port\<lparr>lua_on_close := s\<rparr>) 128"

section \<open>Bindings: sockets\<close>

definition lgetpeerip :: "('a, 'w) senv \<Rightarrow> lua_args \<Rightarrow> 'w \<Rightarrow> nat lua_out" where
  "lgetpeerip V a w =
     (if is_number (arg a 1) \<and> \<not> bad_fd (c_int (to_number (arg a 1)))
      then ([LStr (fst (net_peer (se_net V) (c_int (to_number (arg a 1))) w))], 1) else ([], 0))"

definition lgetpeerport :: "('a, 'w) senv \<Rightarrow> lua_args \<Rightarrow> 'w \<Rightarrow> nat lua_out" where
  "lgetpeerport V a w =
     (if is_number (arg a 1) \<and> \<not> bad_fd (c_int (to_number (arg a 1)))
      then ([LInt (snd (net_peer (se_net V) (c_int (to_number (arg a 1))) w))], 1) else ([], 0))"

definition lgetuserdata :: "lua_args \<Rightarrow> 'a server \<Rightarrow> nat lua_out" where
  "lgetuserdata a sv =
     (if is_number (arg a 1) \<and> \<not> bad_fd (c_int (to_number (arg a 1)))
      then ([LInt (sock_userdata (sv_socks sv (c_int (to_number (arg a 1)))))], 1) else ([], 0))"

definition lsetuserdata :: "lua_args \<Rightarrow> 'a server \<Rightarrow> nat lua_out \<times> 'a server" where
  "lsetuserdata a sv =
     (if is_number (arg a 1) \<and> \<not> bad_fd (c_int (to_number (arg a 1)))
      then
        (let fd = c_int (to_number (arg a 1))
         in (([LBool True], 1), set_sock sv fd (sv_socks sv fd\<lparr>sock_userdata := c_int (to_number (arg a 2))\<rparr>)))
      else (([], 0), sv))"

definition lsetuid :: "lua_args \<Rightarrow> 'a server \<Rightarrow> nat lua_out \<times> 'a server" where
  "lsetuid a sv =
     (let fd = c_int (to_number (arg a 2)) in
      if is_userdata (arg a 1) \<and> is_number (arg a 2) \<and> \<not> bad_fd fd \<and> sock_port (sv_socks sv fd) = to_userdata (arg a 1)
      then (([LBool True], 1), set_sock sv fd (sv_socks sv fd\<lparr>sock_uid := c_int (to_number (arg a 3))\<rparr>))
      else (([], 0), sv))"

definition lclose :: "('a, 'w) senv \<Rightarrow> lua_args \<Rightarrow> 'a server \<Rightarrow> 'w \<Rightarrow> (nat lua_out \<times> 'a server \<times> 'w) option" where
  "lclose V a sv w =
     (if is_userdata (arg a 1) \<and> is_number (arg a 2)
      then
        (let fd = c_int (to_number (arg a 2)) in
         if bad_fd fd then Some (([], 0), sv, w)
         else if sock_port (sv_socks sv fd) \<noteq> to_userdata (arg a 1) then Some (([], 0), sv, w)
         else do {
           reason \<leftarrow> (if is_string (arg a 3) then to_cstring (arg a 3) else Some (net_strerror (se_net V) w));
           (r, sv, w) \<leftarrow> real_close V fd reason sv w;
           Some (([LBool True], 1), sv, w)
         })
      else Some (([], 0), sv, w))"

definition lshutdown :: "('a, 'w) senv \<Rightarrow> lua_args \<Rightarrow> 'a server \<Rightarrow> 'w \<Rightarrow> (nat lua_out \<times> 'a server \<times> 'w) option" where
  "lshutdown V a sv w =
     (if is_userdata (arg a 1) \<and> is_number (arg a 2)
      then
        (let fd = c_int (to_number (arg a 2)) in
         if bad_fd fd then Some (([], 0), sv, w)
         else do {
           p \<leftarrow> to_userdata (arg a 1);
           port \<leftarrow> sv_ports sv p;
           (sv, w) \<leftarrow> loop_delete_event V (port_loop port) fd AE_READABLE sv w;
           let w = net_shutdown (se_net V) fd w;
           let sv = set_sock sv fd (sv_socks sv fd\<lparr>sock_shutdown := 1\<rparr>);
           (r, sv, w) \<leftarrow> loop_create_event V (port_loop port) fd AE_WRITABLE Port_on_write CNull sv w;
           Some (([LBool True], 1), sv, w)
         })
      else Some (([], 0), sv, w))"

text \<open>Both return 1 without pushing anything: Lua gets the argument on top of the stack.\<close>

definition lremove_write_event :: "('a, 'w) senv \<Rightarrow> lua_args \<Rightarrow> 'a server \<Rightarrow> 'w \<Rightarrow> (nat lua_out \<times> 'a server \<times> 'w) option" where
  "lremove_write_event V a sv w =
     (let fd = c_int (to_number (arg a 1)) in
      if bad_fd fd then Some (([], 0), sv, w)
      else do {
        (p, port) \<leftarrow> sock_port_at sv fd;
        (sv, w) \<leftarrow> loop_delete_event V (port_loop port) fd AE_WRITABLE sv w;
        Some (([], 1), sv, w)
      })"

definition ladd_write_event :: "('a, 'w) senv \<Rightarrow> lua_args \<Rightarrow> 'a server \<Rightarrow> 'w \<Rightarrow> (nat lua_out \<times> 'a server \<times> 'w) option" where
  "ladd_write_event V a sv w =
     (let fd = c_int (to_number (arg a 1)) in
      if bad_fd fd then Some (([], 0), sv, w)
      else do {
        (p, port) \<leftarrow> sock_port_at sv fd;
        (r, sv, w) \<leftarrow> loop_create_event V (port_loop port) fd AE_WRITABLE Port_on_write CNull sv w;
        Some (([], 1), sv, w)
      })"

text \<open>\<open>lsend\<close> and \<open>lrecv\<close> with the memory behind the pointer argument: the bytes sent, and the bytes
  \<open>recv\<close> wrote.\<close>

definition lsend :: "('a, 'w) senv \<Rightarrow> lua_args \<Rightarrow> byte list \<Rightarrow> 'w \<Rightarrow> nat lua_out \<times> 'w" where
  "lsend V a bs w =
     (let ((r, err), w) = net_send (se_net V) (c_int (to_number (arg a 1))) (take (nat (c_int (to_number (arg a 3)))) bs) w
      in (([LInt r], 1), w))"

definition lrecv :: "('a, 'w) senv \<Rightarrow> lua_args \<Rightarrow> 'w \<Rightarrow> (nat lua_out \<times> byte list) \<times> 'w" where
  "lrecv V a w =
     (let ((r, err, bs), w) = net_recv (se_net V) (c_int (to_number (arg a 1))) (c_int (to_number (arg a 3))) w
      in if r = 0 then ((([LInt (- 1), LStr (net_strerror (se_net V) w)], 2), bs), w)
         else if r = - 1 \<and> err = EAGAIN then ((([LInt 0], 1), bs), w)
         else if r = - 1 then ((([LInt (- 1), LStr (net_strerror (se_net V) w)], 2), bs), w)
         else ((([LInt r], 1), bs), w))"

end
