(* ===== verification/Ltimer.thy ===== *)
theory Ltimer
  imports Server
begin

text \<open>
  The Lua timers, \<open>src/src/ae/ltimer.cc\<close>: timers with a callback name of their own, and self timers,
  which share one callback and carry a number.
\<close>

section \<open>Callbacks of the loop\<close>

definition timer_finalizer_proc :: "('a, 'w) senv \<Rightarrow> cdata \<Rightarrow> 'a server \<Rightarrow> 'w \<Rightarrow> ('a server \<times> 'w) option" where
  "timer_finalizer_proc V cd sv w =
     do {
       (sv, w) \<leftarrow>
         (case cd of
            CNull \<Rightarrow> Some (sv, w)
          | CTimer t \<Rightarrow> do { _ \<leftarrow> sv_timers sv t; Some (sv\<lparr>sv_timers := (sv_timers sv)(t := None)\<rparr>, os_free (se_os V) w) }
          | _ \<Rightarrow> None);
       Some (sv\<lparr>s_timer_counter := s_timer_counter sv - 1\<rparr>, w)
     }"

definition timer_proc :: "('a, 'w) senv \<Rightarrow> int \<Rightarrow> cdata \<Rightarrow> 'a server \<Rightarrow> 'w \<Rightarrow> (int \<times> 'a server \<times> 'w) option" where
  "timer_proc V i cd sv w =
     (case cd of
        CNull \<Rightarrow> Some (AE_NOMORE, sv, w)
      | CTimer t \<Rightarrow>
          do {
            td \<leftarrow> sv_timers sv t;
            (r, st) \<leftarrow> timer_pushluafunction LUA_MINSTACK (lua_global V w) (td_callback td) [];
            if r = 0 then Some (AE_NOMORE, sv, w)
            else do {
              (res, sv, w) \<leftarrow> lua_run V (hd st) [LInt (td_timerid td)] (sv\<lparr>s_call_lua_time := s_call_lua_time sv + 1\<rparr>) w;
              case res of
                None \<Rightarrow> do { td \<leftarrow> sv_timers sv t; Some (td_msec td, sv, w) }
              | Some ir \<Rightarrow>
                  if c_int ir = 1 then do { td \<leftarrow> sv_timers sv t; Some (td_msec td, sv, w) }
                  else if c_int ir \<noteq> 0 then Some (c_int ir, sv, w)
                  else Some (AE_NOMORE, sv, w)
            }
          }
      | _ \<Rightarrow> None)"

definition self_timer_proc :: "('a, 'w) senv \<Rightarrow> int \<Rightarrow> cdata \<Rightarrow> 'a server \<Rightarrow> 'w \<Rightarrow> (int \<times> 'a server \<times> 'w) option" where
  "self_timer_proc V timerid cd sv w =
     (case self_timer_callback sv of
        None \<Rightarrow> Some (AE_NOMORE, sv\<lparr>s_timer_counter := s_timer_counter sv - 1\<rparr>, w)
      | Some cb \<Rightarrow>
          (case cd of
             CSelf selfid \<Rightarrow>
               do {
                 (r, st) \<leftarrow> timer_pushluafunction LUA_MINSTACK (lua_global V w) cb [];
                 if r = 0 then Some (AE_NOMORE, sv\<lparr>s_timer_counter := s_timer_counter sv - 1\<rparr>, w)
                 else do {
                   (res, sv, w) \<leftarrow> lua_run V (hd st) [LInt timerid, LInt selfid] (sv\<lparr>s_call_lua_time := s_call_lua_time sv + 1\<rparr>) w;
                   case res of
                     None \<Rightarrow> Some (AE_NOMORE, sv\<lparr>s_timer_counter := s_timer_counter sv - 1\<rparr>, w)
                   | Some ir \<Rightarrow>
                       if c_int ir \<noteq> 0 then Some (c_int ir, sv, w)
                       else Some (AE_NOMORE, sv\<lparr>s_timer_counter := s_timer_counter sv - 1\<rparr>, w)
                 }
               }
           | _ \<Rightarrow> None))"

section \<open>Bindings\<close>

definition laddtimer :: "('a, 'w) senv \<Rightarrow> lua_args \<Rightarrow> 'a server \<Rightarrow> 'w \<Rightarrow> (nat lua_out \<times> 'a server \<times> 'w) option" where
  "laddtimer V a sv w =
     (if gettop a = 3 \<and> is_userdata (arg a 1) \<and> is_number (arg a 2) \<and> is_string (arg a 3)
      then
        (let msec = c_int (to_number (arg a 2));
             (ok, w) = os_malloc (se_os V) 96 w
         in if \<not> ok then Some (([], 0), sv, w)
            else do {
              cb \<leftarrow> strcpy 64 (to_cstring (arg a 3));
              let t = sv_brk sv;
              let sv = sv\<lparr>sv_brk := Suc t, s_timer_counter := s_timer_counter sv + 1,
                          s_min_msec := (if msec < s_min_msec sv then msec else s_min_msec sv)\<rparr>;
              p \<leftarrow> to_userdata (arg a 1);
              l \<leftarrow> sv_loops sv p;
              let (i, l, w) = aeCreateTimeEvent (se_os V) l msec Timer_proc (CTimer t) (Some Timer_finalizer_proc) w;
              let td = \<lparr>td_callback = cb, td_msec = msec, td_timerid = c_int i\<rparr>;
              let sv = (set_loop sv p l)\<lparr>sv_timers := (sv_timers sv)(t \<mapsto> td)\<rparr>;
              Some (([LInt (c_int i)], 1), sv, w)
            })
      else Some (([], 0), sv, w))"

definition lsetselftimerloop :: "lua_args \<Rightarrow> 'a server \<Rightarrow> (nat lua_out \<times> 'a server) option" where
  "lsetselftimerloop a sv =
     (if gettop a = 1 \<and> is_string (arg a 1)
      then do { cb \<leftarrow> strcpy 64 (to_cstring (arg a 1)); Some (([LBool True], 1), sv\<lparr>self_timer_callback := Some cb\<rparr>) }
      else Some (([], 0), sv))"

definition laddselftimer :: "('a, 'w) senv \<Rightarrow> lua_args \<Rightarrow> 'a server \<Rightarrow> 'w \<Rightarrow> (nat lua_out \<times> 'a server \<times> 'w) option" where
  "laddselftimer V a sv w =
     (if gettop a = 3 \<and> is_userdata (arg a 1) \<and> is_number (arg a 2) \<and> is_number (arg a 3)
      then
        (let milliseconds = c_int (to_number (arg a 2));
             selfid = c_size (to_number (arg a 3));
             sv = sv\<lparr>s_timer_counter := s_timer_counter sv + 1,
                     s_min_msec := (if milliseconds < s_min_msec sv then milliseconds else s_min_msec sv)\<rparr>
         in do {
              p \<leftarrow> to_userdata (arg a 1);
              l \<leftarrow> sv_loops sv p;
              let (i, l, w) = aeCreateTimeEvent (se_os V) l milliseconds Self_timer_proc (CSelf selfid) None w;
              Some (([LInt (c_int i)], 1), set_loop sv p l, w)
            })
      else Some (([], 0), sv, w))"

end
