(* ===== verification/Lae.thy ===== *)
theory Lae
  imports Lport Ltimer
begin

text \<open>
  The Lua interface of the event loop, \<open>src/src/ae/lae.cc\<close>, and the function pointers the bindings
  register with a loop: \<open>server_procs\<close> says what calling each of them does. The loop calls them
  with itself as argument, which is the loop the pointer \<open>p\<close> of the server state points to; while
  a callback runs, that is where the loop is.
\<close>

section \<open>Callbacks of the loop\<close>

definition file_call ::
  "('a, 'w) senv \<Rightarrow> bool \<Rightarrow> byte list \<Rightarrow> int \<Rightarrow> mask \<Rightarrow> 'a server \<Rightarrow> 'w \<Rightarrow> ('a server \<times> 'w) option" where
  "file_call V hasL name sockfd m sv w =
     do {
       (r, st) \<leftarrow> (if hasL then ae_pushluafunction LUA_MINSTACK (lua_global V w) name [] else None);
       if r = 0 then Some (sv, w)
       else do { (res, sv, w) \<leftarrow> lua_run V (hd st) [LInt sockfd, LInt (sint m)] sv w; Some (sv, w) }
     }"

definition file_proc :: "('a, 'w) senv \<Rightarrow> int \<Rightarrow> cdata \<Rightarrow> mask \<Rightarrow> 'a server \<Rightarrow> 'w \<Rightarrow> ('a server \<times> 'w) option" where
  "file_proc V sockfd cd m sv w =
     (case cd of
        CFile i \<Rightarrow>
          do {
            let hasL = file_L (sv_files sv i);
            (sv, w) \<leftarrow>
              (if has m AE_READABLE \<and> file_read_proc (sv_files sv i) \<noteq> []
               then file_call V hasL (file_read_proc (sv_files sv i)) sockfd m sv w else Some (sv, w));
            if has m AE_WRITABLE \<and> file_writ_proc (sv_files sv i) \<noteq> []
            then file_call V hasL (file_writ_proc (sv_files sv i)) sockfd m sv w else Some (sv, w)
          }
      | _ \<Rightarrow> None)"

definition time_proc :: "('a, 'w) senv \<Rightarrow> int \<Rightarrow> cdata \<Rightarrow> 'a server \<Rightarrow> 'w \<Rightarrow> (int \<times> 'a server \<times> 'w) option" where
  "time_proc V i cd sv w =
     (case cd of
        CTime t \<Rightarrow>
          do {
            name \<leftarrow> sv_times sv t;
            name \<leftarrow> name;
            (r, st) \<leftarrow> ae_pushluafunction LUA_MINSTACK (lua_global V w) name [];
            (res, sv, w) \<leftarrow> (if r = 0 then Some (None, sv, w) else lua_run V (hd st) [LInt i] sv w);
            Some (case res of None \<Rightarrow> AE_NOMORE | Some ir \<Rightarrow> c_int ir, sv, w)
          }
      | _ \<Rightarrow> None)"

definition finalizer_proc :: "('a, 'w) senv \<Rightarrow> cdata \<Rightarrow> 'a server \<Rightarrow> 'w \<Rightarrow> ('a server \<times> 'w) option" where
  "finalizer_proc V cd sv w =
     (case cd of
        CNull \<Rightarrow> Some (sv, w)
      | CTime t \<Rightarrow> do { _ \<leftarrow> sv_times sv t; Some (sv\<lparr>sv_times := (sv_times sv)(t := None)\<rparr>, os_free (se_os V) w) }
      | _ \<Rightarrow> None)"

section \<open>The loop on the server state\<close>

text \<open>The system and the multiplexing layer, on a world that carries the server state along.\<close>

definition carry :: "('w \<Rightarrow> 'x \<times> 'w) \<Rightarrow> 's \<times> 'w \<Rightarrow> 'x \<times> 's \<times> 'w" where
  "carry f sw = (let (x, w) = f (snd sw) in (x, fst sw, w))"

definition server_os :: "'w os \<Rightarrow> ('s \<times> 'w) os" where
  "server_os os =
     \<lparr>os_malloc = (\<lambda>n. carry (os_malloc os n)), os_free = (\<lambda>(s, w). (s, os_free os w)),
      os_junk = (\<lambda>(s, w). os_junk os w), os_time = carry (os_time os),
      os_gettimeofday = carry (os_gettimeofday os), os_select = (\<lambda>n r x tv. carry (os_select os n r x tv)),
      os_epoll_create = carry (os_epoll_create os), os_epoll_ctl = (\<lambda>e op fd m. carry (os_epoll_ctl os e op fd m)),
      os_epoll_wait = (\<lambda>e n t. carry (os_epoll_wait os e n t)), os_poll = (\<lambda>fd m t. carry (os_poll os fd m t)),
      os_close = (\<lambda>fd (s, w). (s, os_close os fd w))\<rparr>"

definition server_api :: "('p, 'c, 'a, 'w) ae_api \<Rightarrow> ('p, 'c, 'a, 's \<times> 'w) ae_api" where
  "server_api api =
     \<lparr>api_create = (\<lambda>l (s, w). let (r, l, w) = api_create api l w in (r, l, s, w)),
      api_free = (\<lambda>l (s, w). map_option (\<lambda>w. (s, w)) (api_free api l w)),
      api_add = (\<lambda>l fd m (s, w). map_option (\<lambda>(r, l, w). (r, l, s, w)) (api_add api l fd m w)),
      api_del = (\<lambda>l fd m (s, w). map_option (\<lambda>(l, w). (l, s, w)) (api_del api l fd m w)),
      api_poll = (\<lambda>l tv (s, w). map_option (\<lambda>(r, l, w). (r, l, s, w)) (api_poll api l tv w)),
      api_name = api_name api\<rparr>"

text \<open>Back from a callback: the loop is the one the pointer points to now.\<close>

definition resume :: "nat \<Rightarrow> 'a server \<times> 'w \<Rightarrow> ('a server_loop \<times> 'a server \<times> 'w) option" where
  "resume p sw = do { l \<leftarrow> sv_loops (fst sw) p; Some (l, sw) }"

definition file_handler ::
  "('a, 'w) senv \<Rightarrow> cproc \<Rightarrow> int \<Rightarrow> cdata \<Rightarrow> mask \<Rightarrow> 'a server \<Rightarrow> 'w \<Rightarrow> ('a server \<times> 'w) option" where
  "file_handler V f fd cd m sv w =
     (case f of
        Port_on_read \<Rightarrow> port_on_read V fd sv w
      | Port_on_write \<Rightarrow> port_on_write V fd sv w
      | Port_on_accept \<Rightarrow> port_on_accept V fd cd sv w
      | Port_on_connect_suc \<Rightarrow> port_on_connect_suc V fd sv w
      | Port_on_connect_err \<Rightarrow> port_on_connect_err V fd sv w
      | File_proc \<Rightarrow> file_proc V fd cd m sv w
      | _ \<Rightarrow> None)"

definition time_handler ::
  "('a, 'w) senv \<Rightarrow> cproc \<Rightarrow> int \<Rightarrow> cdata \<Rightarrow> 'a server \<Rightarrow> 'w \<Rightarrow> (int \<times> 'a server \<times> 'w) option" where
  "time_handler V f i cd sv w =
     (case f of
        Timer_proc \<Rightarrow> timer_proc V i cd sv w
      | Self_timer_proc \<Rightarrow> self_timer_proc V i cd sv w
      | Time_proc \<Rightarrow> time_proc V i cd sv w
      | _ \<Rightarrow> None)"

definition final_handler :: "('a, 'w) senv \<Rightarrow> cproc \<Rightarrow> cdata \<Rightarrow> 'a server \<Rightarrow> 'w \<Rightarrow> ('a server \<times> 'w) option" where
  "final_handler V f cd sv w =
     (case f of
        Timer_finalizer_proc \<Rightarrow> timer_finalizer_proc V cd sv w
      | Finalizer_proc \<Rightarrow> finalizer_proc V cd sv w
      | _ \<Rightarrow> None)"

definition server_procs :: "('a, 'w) senv \<Rightarrow> nat \<Rightarrow> (cproc, cdata, 'a, 'a server \<times> 'w) procs" where
  "server_procs V p =
     \<lparr>call_file = (\<lambda>f l fd cd m (sv, w). do { sw \<leftarrow> file_handler V f fd cd m (set_loop sv p l) w; resume p sw }),
      call_time = (\<lambda>f l i cd (sv, w).
        do { (r, sw) \<leftarrow> time_handler V f i cd (set_loop sv p l) w; (l, sw) \<leftarrow> resume p sw; Some (r, l, sw) }),
      call_final = (\<lambda>f l cd (sv, w). do { sw \<leftarrow> final_handler V f cd (set_loop sv p l) w; resume p sw }),
      call_before = (\<lambda>f l sw. None)\<rparr>"

definition delete_timer ::
  "('a, 'w) senv \<Rightarrow> nat \<Rightarrow> int \<Rightarrow> 'a server \<Rightarrow> 'w \<Rightarrow> (int \<times> 'a server \<times> 'w) option" where
  "delete_timer V p i sv w =
     do {
       l \<leftarrow> sv_loops sv p;
       (r, l, sv, w) \<leftarrow> aeDeleteTimeEvent (server_os (se_os V)) (server_procs V p) l i (sv, w);
       Some (r, set_loop sv p l, w)
     }"

text \<open>\<open>lstopselftimer\<close> of \<open>ltimer.cc\<close>.\<close>

definition lstopselftimer :: "('a, 'w) senv \<Rightarrow> lua_args \<Rightarrow> 'a server \<Rightarrow> 'w \<Rightarrow> (nat lua_out \<times> 'a server \<times> 'w) option" where
  "lstopselftimer V a sv w =
     (if gettop a = 2 \<and> is_userdata (arg a 1) \<and> is_number (arg a 2)
      then do {
        p \<leftarrow> to_userdata (arg a 1);
        (r, sv, w) \<leftarrow> delete_timer V p (c_int (to_number (arg a 2))) sv w;
        let sv = (if r = AE_OK then sv\<lparr>s_timer_counter := s_timer_counter sv - 1\<rparr> else sv);
        Some (([LBool True], 1), sv, w)
      }
      else Some (([], 0), sv, w))"

section \<open>Bindings\<close>

type_synonym ptr_out = "nat option lua_out"

definition ae_lcreate :: "('a, 'w) senv \<Rightarrow> lua_args \<Rightarrow> 'a server \<Rightarrow> 'w \<Rightarrow> ptr_out \<times> 'a server \<times> 'w" where
  "ae_lcreate V a sv w =
     (let (l, w) = aeCreateEventLoop (se_os V) (se_api V) (c_int (to_number (arg a 1))) w;
          p = sv_brk sv;
          (ptr, sv) = (case l of None \<Rightarrow> (None, sv) | Some l \<Rightarrow> (Some p, (set_loop sv p l)\<lparr>sv_brk := Suc p\<rparr>));
          sv = (if main_loop_ptr sv = None then sv\<lparr>main_loop_ptr := ptr\<rparr> else sv)
      in (([LPtr ptr], 1), sv, w))"

definition ae_lfree :: "('a, 'w) senv \<Rightarrow> lua_args \<Rightarrow> 'a server \<Rightarrow> 'w \<Rightarrow> (ptr_out \<times> 'a server \<times> 'w) option" where
  "ae_lfree V a sv w =
     do {
       p \<leftarrow> to_userdata (arg a 1);
       l \<leftarrow> sv_loops sv p;
       w \<leftarrow> aeDeleteEventLoop (se_os V) (se_api V) l w;
       Some (([], 0), sv\<lparr>sv_loops := (sv_loops sv)(p := None)\<rparr>, w)
     }"

definition ae_lstop :: "lua_args \<Rightarrow> 'a server \<Rightarrow> (ptr_out \<times> 'a server) option" where
  "ae_lstop a sv =
     do { p \<leftarrow> to_userdata (arg a 1); l \<leftarrow> sv_loops sv p; Some (([], 0), set_loop sv p (aeStop l)) }"

definition lmain_loop :: "'a server \<Rightarrow> ptr_out" where
  "lmain_loop sv = ([LPtr (main_loop_ptr sv)], 1)"

definition lrun_once :: "('a, 'w) senv \<Rightarrow> lua_args \<Rightarrow> 'a server \<Rightarrow> 'w \<Rightarrow> (ptr_out \<times> 'a server \<times> 'w) option" where
  "lrun_once V a sv w =
     do {
       p \<leftarrow> to_userdata (arg a 1);
       l \<leftarrow> sv_loops sv p;
       (l, sv, w) \<leftarrow> aeOnce (server_os (se_os V)) (server_api (se_api V)) (server_procs V p) l (sv, w);
       Some (([], 0), set_loop sv p l, w)
     }"

definition lmain :: "('a, 'w) senv \<Rightarrow> lua_args \<Rightarrow> 'a server \<Rightarrow> 'w \<Rightarrow> (ptr_out \<times> 'a server \<times> 'w) option" where
  "lmain V a sv w =
     do {
       p \<leftarrow> to_userdata (arg a 1);
       l \<leftarrow> sv_loops sv p;
       (l, sv, w) \<leftarrow> aeMain (server_os (se_os V)) (server_api (se_api V)) (server_procs V p) l (sv, w);
       Some (([], 0), set_loop sv p l, w)
     }"

definition lprocess_events :: "('a, 'w) senv \<Rightarrow> lua_args \<Rightarrow> 'a server \<Rightarrow> 'w \<Rightarrow> (ptr_out \<times> 'a server \<times> 'w) option" where
  "lprocess_events V a sv w =
     do {
       p \<leftarrow> to_userdata (arg a 1);
       l \<leftarrow> sv_loops sv p;
       (r, l, sv, w) \<leftarrow>
         aeProcessEvents (server_os (se_os V)) (server_api (se_api V)) (server_procs V p) l
           (word_of_int (to_number (arg a 2))) (sv, w);
       Some (([LInt r], 1), set_loop sv p l, w)
     }"

definition lget_api_name :: "('a, 'w) senv \<Rightarrow> string" where
  "lget_api_name V = aeGetApiName (se_api V)"

definition lwait :: "('a, 'w) senv \<Rightarrow> lua_args \<Rightarrow> 'w \<Rightarrow> ptr_out \<times> 'w" where
  "lwait V a w =
     (let (r, w) = aeWait (se_os V) (c_int (to_number (arg a 1))) (word_of_int (to_number (arg a 2)))
                     (c_long (to_number (arg a 3))) w
      in (([LInt r], 1), w))"

definition ldelete_time_event :: "('a, 'w) senv \<Rightarrow> lua_args \<Rightarrow> 'a server \<Rightarrow> 'w \<Rightarrow> (ptr_out \<times> 'a server \<times> 'w) option" where
  "ldelete_time_event V a sv w =
     do {
       p \<leftarrow> to_userdata (arg a 1);
       (r, sv, w) \<leftarrow> delete_timer V p (c_long (to_number (arg a 2))) sv w;
       Some (([LInt r], 1), sv, w)
     }"

definition lcreate_time_event :: "('a, 'w) senv \<Rightarrow> lua_args \<Rightarrow> 'a server \<Rightarrow> 'w \<Rightarrow> (ptr_out \<times> 'a server \<times> 'w) option" where
  "lcreate_time_event V a sv w =
     (let (ok, w) = os_malloc (se_os V) 72 w in
      if \<not> ok then Some (([LInt AE_ERR], 1), sv, w)
      else do {
        name \<leftarrow> (case to_cstring (arg a 3) of None \<Rightarrow> Some None | Some s \<Rightarrow> map_option Some (strcpy 64 (Some s)));
        let t = sv_brk sv;
        p \<leftarrow> to_userdata (arg a 1);
        l \<leftarrow> sv_loops sv p;
        let (i, l, w) = aeCreateTimeEvent (se_os V) l (c_long (to_number (arg a 2))) Time_proc (CTime t) (Some Finalizer_proc) w;
        let sv = (set_loop sv p l)\<lparr>sv_brk := Suc t, sv_times := (sv_times sv)(t \<mapsto> name)\<rparr>;
        Some (([LInt (c_int i)], 1), sv, w)
      })"

definition lget_file_events :: "lua_args \<Rightarrow> 'a server \<Rightarrow> ptr_out option" where
  "lget_file_events a sv =
     do {
       p \<leftarrow> to_userdata (arg a 1);
       l \<leftarrow> sv_loops sv p;
       m \<leftarrow> aeGetFileEvents l (c_int (to_number (arg a 2)));
       Some ([LInt (sint m)], 1)
     }"

definition ldelete_file_event :: "('a, 'w) senv \<Rightarrow> lua_args \<Rightarrow> 'a server \<Rightarrow> 'w \<Rightarrow> (ptr_out \<times> 'a server \<times> 'w) option" where
  "ldelete_file_event V a sv w =
     do {
       p \<leftarrow> to_userdata (arg a 1);
       (sv, w) \<leftarrow> loop_delete_event V p (c_int (to_number (arg a 2))) (word_of_int (to_number (arg a 3))) sv w;
       Some (([], 0), sv, w)
     }"

definition lcreate_file_event :: "('a, 'w) senv \<Rightarrow> lua_args \<Rightarrow> 'a server \<Rightarrow> 'w \<Rightarrow> (ptr_out \<times> 'a server \<times> 'w) option" where
  "lcreate_file_event V a sv w =
     (let sockfd = c_int (to_number (arg a 2)); m = word_of_int (to_number (arg a 3)) :: mask in
      if MAX_FILE_DATA \<le> sockfd then Some (([LInt AE_ERR], 1), sv, w)
      else if sockfd < 0 then None
      else do {
        let fd = sv_files sv sockfd;
        fd \<leftarrow> (if has m AE_READABLE
               then map_option (\<lambda>s. fd\<lparr>file_read_proc := s\<rparr>) (strcpy 64 (to_cstring (arg a 4))) else Some fd);
        fd \<leftarrow> (if has m AE_WRITABLE
               then map_option (\<lambda>s. fd\<lparr>file_writ_proc := s\<rparr>) (strcpy 64 (to_cstring (arg a 4))) else Some fd);
        let sv = sv\<lparr>sv_files := (sv_files sv)(sockfd := fd\<lparr>file_L := True\<rparr>)\<rparr>;
        p \<leftarrow> to_userdata (arg a 1);
        (r, sv, w) \<leftarrow> loop_create_event V p sockfd m File_proc (CFile sockfd) sv w;
        Some (([LInt r], 1), sv, w)
      })"

end
