(* ===== verification/Ae_Keeps.thy ===== *)
theory Ae_Keeps
  imports Ae_Timers "HOL-Library.Sublist"
begin

text \<open>
  What the callbacks of a loop keep, processing its events keeps: an invariant of the loop and the
  world that every callback, the poll and the bookkeeping of the timers preserve holds after
  \<open>aeDeleteTimeEvent\<close>, \<open>aeProcessEvents\<close>, \<open>aeOnce\<close> and \<open>aeMain\<close>, whenever they return.
\<close>

lemma subseq_ids: "subseq xs ys \<Longrightarrow> set xs \<subseteq> set ys \<and> (distinct ys \<longrightarrow> distinct xs)"
  by (induction rule: list_emb.induct) auto

lemma unlink_subseq: "unlink i ts = Some (te, rest) \<Longrightarrow> subseq (map te_id rest) (map te_id ts)"
  by (induction ts arbitrary: rest) (auto split: if_splits)

lemma set_when_subseq: "te_set_when ts i sec msec = Some ts' \<Longrightarrow> subseq (map te_id ts') (map te_id ts)"
  by (drule set_when_ids) simp

locale ae_keeps =
  fixes os :: "'w os" and api :: "('p, 'c, 'a, 'w) ae_api" and P :: "('p, 'c, 'a, 'w) procs"
    and J :: "('p, 'c, 'a) aeEventLoop \<Rightarrow> 'w \<Rightarrow> bool"
  assumes poll: "api_poll api l tv w = Some (n, l', w') \<Longrightarrow> J l w \<Longrightarrow> J l' w'"
    and on_file: "call_file P f l fd c m w = Some (l', w') \<Longrightarrow> J l w \<Longrightarrow> J l' w'"
    and on_time: "call_time P f l i c w = Some (r, l', w') \<Longrightarrow> J l w \<Longrightarrow> J l' w'"
    and on_final: "call_final P f l c w = Some (l', w') \<Longrightarrow> J l w \<Longrightarrow> J l' w'"
    and on_before: "call_before P f l w = Some (l', w') \<Longrightarrow> J l w \<Longrightarrow> J l' w'"
    and timer_list: "J l w \<Longrightarrow> subseq (map te_id ts) (map te_id (timeEventHead l)) \<Longrightarrow> J (l\<lparr>timeEventHead := ts\<rparr>) w"
    and last_time: "J l w \<Longrightarrow> J (l\<lparr>lastTime := t\<rparr>) w"
    and stop_flag: "J l w \<Longrightarrow> J (l\<lparr>stop := b\<rparr>) w"
    and freeing: "J l w \<Longrightarrow> J l (os_free os w)"
    and clock: "os_time os w = (t, w') \<Longrightarrow> J l w \<Longrightarrow> J l w'"
    and day: "os_gettimeofday os w = (tod, w') \<Longrightarrow> J l w \<Longrightarrow> J l w'"
begin

lemma get_time: "aeGetTime os w = (t, w') \<Longrightarrow> J l w \<Longrightarrow> J l w'"
  by (auto simp: aeGetTime_def Let_def split: prod.splits dest: day)

lemma add_ms: "aeAddMillisecondsToNow os ms w = (t, w') \<Longrightarrow> J l w \<Longrightarrow> J l w'"
  by (auto simp: aeAddMillisecondsToNow_def Let_def split: prod.splits if_splits dest: get_time)

lemma delete_time_event: "aeDeleteTimeEvent os P l i w = Some (r, l', w') \<Longrightarrow> J l w \<Longrightarrow> J l' w'"
  by (auto simp: aeDeleteTimeEvent_def Let_def split: option.splits bind_splits intro!: freeing)
    (metis on_final timer_list unlink_subseq)+

lemma rearm: "rearm_or_delete os P i retval l w = Some (l', w') \<Longrightarrow> J l w \<Longrightarrow> J l' w'"
  by (auto simp: rearm_or_delete_def Let_def split: if_splits bind_splits prod.splits
      intro!: timer_list intro: add_ms set_when_subseq delete_time_event)

lemma time_loop_keeps:
  assumes "time_loop os P maxId s m ts l w n = Some x" "J l w"
  shows "J (fst (snd x)) (snd (snd x))"
proof -
  let ?Q = "\<lambda>((((((((os', P'), maxId), s), m), ts), l), w), n) x.
    os' = os \<longrightarrow> P' = P \<longrightarrow> J l w \<longrightarrow> J (fst (snd x)) (snd (snd x))"
  have "?Q ((((((((os, P), maxId), s), m), ts), l), w), n) x"
  proof (rule time_loop.raw_induct [where Pa = ?Q, OF _ assms(1)], goal_cases)
    case (1 loop os' P' maxId s m ts l w n x)
    have again: "J (fst (snd y)) (snd (snd y))" if "loop os P a b c ts' l' w' n' = Some y" "J l' w'" for a b c ts' l' w' n' y
      using 1(1) [OF that(1)] that(2) by simp
    show ?case
      using 1(2) by (auto split: list.splits if_splits bind_splits intro: again dest!: on_time rearm)
  qed
  then show ?thesis using assms(2) by simp
qed

lemma time_events: "processTimeEvents os P l w = Some (n, l', w') \<Longrightarrow> J l w \<Longrightarrow> J l' w'"
proof -
  assume run: "processTimeEvents os P l w = Some (n, l', w')" and j: "J l w"
  obtain now w1 where t: "os_time os w = (now, w1)" by fastforce
  obtain s m w2 where g: "aeGetTime os w1 = ((s, m), w2)" by (metis surj_pair)
  define l1 where "l1 = (if now < lastTime l then l\<lparr>timeEventHead := map (\<lambda>te. te\<lparr>when_sec := 0\<rparr>) (timeEventHead l)\<rparr> else l)\<lparr>lastTime := now\<rparr>"
  have "J l1 w2" using get_time [OF g clock [OF t j]] by (auto simp: l1_def o_def intro!: last_time timer_list)
  moreover have "time_loop os P (timeEventNextId l1 - 1) s m (timeEventHead l1) l1 w2 0 = Some (n, l', w')"
    using run by (simp add: processTimeEvents_def t g l1_def Let_def)
  ultimately show "J l' w'" using time_loop_keeps by fastforce
qed

lemma dispatch_keeps: "dispatch P j l w = Some (l', w') \<Longrightarrow> J l w \<Longrightarrow> J l' w'"
  by (auto simp: dispatch_def Let_def split: bind_splits if_splits dest!: on_file)

lemma file_loop_keeps: "file_loop P j k l w = Some (l', w') \<Longrightarrow> J l w \<Longrightarrow> J l' w'"
  by (induction k arbitrary: j l w) (auto split: bind_splits dest!: dispatch_keeps)

lemma timeout_keeps: "poll_timeout os l flags w = (tv, w') \<Longrightarrow> J l w \<Longrightarrow> J l w'"
  by (auto simp: poll_timeout_def Let_def split: if_splits option.splits prod.splits dest: get_time)

lemma process_events: "aeProcessEvents os api P l flags w = Some (n, l', w') \<Longrightarrow> J l w \<Longrightarrow> J l' w'"
  by (auto simp: aeProcessEvents_def Let_def split: if_splits bind_splits prod.splits
      dest!: timeout_keeps poll file_loop_keeps time_events)

lemma once: "aeOnce os api P l w = Some (l', w') \<Longrightarrow> J l w \<Longrightarrow> J l' w'"
  by (auto simp: aeOnce_def split: bind_splits dest: process_events)

lemma main_loop_keeps:
  assumes "main_loop os api P l w = Some x" "J l w"
  shows "J (fst x) (snd x)"
proof -
  let ?Q = "\<lambda>((((os', api'), P'), l), w) x. os' = os \<longrightarrow> api' = api \<longrightarrow> P' = P \<longrightarrow> J l w \<longrightarrow> J (fst x) (snd x)"
  have "?Q ((((os, api), P), l), w) x"
  proof (rule main_loop.raw_induct [where Pa = ?Q, OF _ assms(1)], goal_cases)
    case (1 loop os' api' P' l w x)
    have again: "J (fst y) (snd y)" if "loop os api P l' w' = Some y" "J l' w'" for l' w' y
      using 1(1) [OF that(1)] that(2) by simp
    show ?case
      using 1(2) by (auto split: if_splits option.splits bind_splits intro: again dest!: on_before process_events)
  qed
  then show ?thesis using assms(2) by simp
qed

lemma main: "aeMain os api P l w = Some (l', w') \<Longrightarrow> J l w \<Longrightarrow> J l' w'"
  using main_loop_keeps [of "l\<lparr>stop := False\<rparr>" w "(l', w')"] stop_flag by (simp add: aeMain_def)

end

end
