(* ===== verification/Server_Laws.thy ===== *)
theory Server_Laws
  imports Lae Ae_Keeps Ae_Spec
begin

text \<open>
  An invariant of the event loops is an invariant of the server: what the operations of the loop
  keep, every event handler and every binding of \<open>lport.cc\<close>, \<open>ltimer.cc\<close> and \<open>lae.cc\<close> that
  goes through them keeps for all loops, as long as the scripts do.
\<close>

section \<open>Every loop of the server\<close>

definition all_loops :: "('a server_loop \<Rightarrow> bool) \<Rightarrow> 'a server \<Rightarrow> bool" where
  "all_loops I sv \<longleftrightarrow> (\<forall>p l. sv_loops sv p = Some l \<longrightarrow> I l)"

text \<open>What the scripts leave of it: a callback that returns left every loop as it should be.\<close>

definition scripts_keep :: "('a server_loop \<Rightarrow> bool) \<Rightarrow> ('a, 'w) senv \<Rightarrow> bool" where
  "scripts_keep I V \<longleftrightarrow>
     (\<forall>f args sv w r sv' w'. lua_run V f args sv w = Some (r, sv', w') \<longrightarrow> all_loops I sv \<longrightarrow> all_loops I sv')"

lemma all_loops_at: "all_loops I sv \<Longrightarrow> sv_loops sv p = Some l \<Longrightarrow> I l"
  by (simp add: all_loops_def)

lemma all_loops_same: "sv_loops sv' = sv_loops sv \<Longrightarrow> all_loops I sv \<Longrightarrow> all_loops I sv'"
  by (simp add: all_loops_def)

lemma all_loops_set: "all_loops I sv \<Longrightarrow> I l \<Longrightarrow> all_loops I (set_loop sv p l)"
  by (auto simp: all_loops_def set_loop_def split: if_splits)

lemma all_loops_del: "all_loops I sv \<Longrightarrow> all_loops I (sv\<lparr>sv_loops := (sv_loops sv)(p := None)\<rparr>)"
  by (auto simp: all_loops_def split: if_splits)

lemma all_loops_updates [simp]:
  "all_loops I (sv\<lparr>sv_ports := x1\<rparr>) = all_loops I sv" "all_loops I (sv\<lparr>sv_socks := x2\<rparr>) = all_loops I sv"
  "all_loops I (sv\<lparr>sv_send := x3\<rparr>) = all_loops I sv" "all_loops I (sv\<lparr>sv_recv := x4\<rparr>) = all_loops I sv"
  "all_loops I (sv\<lparr>sv_timers := x5\<rparr>) = all_loops I sv" "all_loops I (sv\<lparr>sv_times := x6\<rparr>) = all_loops I sv"
  "all_loops I (sv\<lparr>sv_files := x7\<rparr>) = all_loops I sv" "all_loops I (sv\<lparr>sv_brk := x8\<rparr>) = all_loops I sv"
  "all_loops I (sv\<lparr>self_timer_callback := y1\<rparr>) = all_loops I sv" "all_loops I (sv\<lparr>s_timer_counter := y2\<rparr>) = all_loops I sv"
  "all_loops I (sv\<lparr>s_min_msec := y3\<rparr>) = all_loops I sv" "all_loops I (sv\<lparr>s_call_lua_time := y4\<rparr>) = all_loops I sv"
  "all_loops I (sv\<lparr>main_loop_ptr := y5\<rparr>) = all_loops I sv" "all_loops I (set_sock sv fd s) = all_loops I sv"
  by (simp_all add: all_loops_def set_sock_def)

lemma call_lua_keeps: "call_lua V f args sv w = Some (r, sv', w') \<Longrightarrow> scripts_keep I V \<Longrightarrow> all_loops I sv \<Longrightarrow> all_loops I sv'"
  unfolding scripts_keep_def call_lua_def by (auto split: bind_splits if_splits) metis

lemma lua_run_keeps: "lua_run V f args sv w = Some (r, sv', w') \<Longrightarrow> scripts_keep I V \<Longrightarrow> all_loops I sv \<Longrightarrow> all_loops I sv'"
  unfolding scripts_keep_def by blast

lemma sock_create_keeps: "sock_create V port fd sv w = Some (r, sv', w') \<Longrightarrow> all_loops I sv \<Longrightarrow> all_loops I sv'"
  by (auto simp: sock_create_def Let_def split: if_splits bind_splits)

lemma sock_free_keeps: "sock_free fd sv = Some (r, sv') \<Longrightarrow> all_loops I sv \<Longrightarrow> all_loops I sv'"
  by (auto simp: sock_free_def Let_def split: if_splits bind_splits prod.splits)

lemma call_with_peer_keeps:
  "call_with_peer V name fd sv w = Some (sv', w') \<Longrightarrow> scripts_keep I V \<Longrightarrow> all_loops I sv \<Longrightarrow> all_loops I sv'"
  by (auto simp: call_with_peer_def dest: call_lua_keeps split: bind_splits prod.splits)

section \<open>The laws of a loop\<close>

text \<open>What the operations of a loop keep, on a system and a multiplexing layer.\<close>

locale loop_laws =
  fixes os :: "'w os" and api :: "(cproc, cdata, 'a, 'w) ae_api" and I :: "'a server_loop \<Rightarrow> bool"
  assumes new_loop: "aeCreateEventLoop os api sz w = (Some l, w') \<Longrightarrow> 0 \<le> sz \<Longrightarrow> I l"
    and create_event: "aeCreateFileEvent api l fd m proc cd w = Some (r, l', w') \<Longrightarrow> I l \<Longrightarrow> rw_mask m \<Longrightarrow> m \<noteq> AE_NONE \<Longrightarrow> I l'"
    and delete_event: "aeDeleteFileEvent api l fd m w = Some (l', w') \<Longrightarrow> I l \<Longrightarrow> I l'"
    and create_timer: "aeCreateTimeEvent os l ms tp cd fin w = (i, l', w') \<Longrightarrow> I l \<Longrightarrow> I l'"
    and poll_loop: "api_poll api l tv w = Some (n, l', w') \<Longrightarrow> I l \<Longrightarrow> I l'"
    and timer_list: "I l \<Longrightarrow> subseq (map te_id ts) (map te_id (timeEventHead l)) \<Longrightarrow> I (l\<lparr>timeEventHead := ts\<rparr>)"
    and last_time: "I l \<Longrightarrow> I (l\<lparr>lastTime := t\<rparr>)"
    and stop_flag: "I l \<Longrightarrow> I (l\<lparr>stop := b\<rparr>)"
begin

lemma loop_create_keeps:
  "loop_create_event V p fd m proc cd sv w = Some (r, sv', w') \<Longrightarrow> se_api V = api \<Longrightarrow> rw_mask m \<Longrightarrow> m \<noteq> AE_NONE
    \<Longrightarrow> all_loops I sv \<Longrightarrow> all_loops I sv'"
  by (auto simp: loop_create_event_def split: bind_splits intro!: all_loops_set) (metis create_event all_loops_at)

lemma loop_read_keeps:
  "loop_create_event V p fd AE_READABLE proc cd sv w = Some (r, sv', w') \<Longrightarrow> se_api V = api \<Longrightarrow> all_loops I sv \<Longrightarrow> all_loops I sv'"
  by (erule loop_create_keeps) (simp_all add: rw_mask_consts AE_READABLE_def AE_NONE_def rw_mask_def)

lemma loop_write_keeps:
  "loop_create_event V p fd AE_WRITABLE proc cd sv w = Some (r, sv', w') \<Longrightarrow> se_api V = api \<Longrightarrow> all_loops I sv \<Longrightarrow> all_loops I sv'"
  by (erule loop_create_keeps) (simp_all add: rw_mask_consts AE_WRITABLE_def AE_NONE_def rw_mask_def)

lemma loop_delete_keeps:
  "loop_delete_event V p fd m sv w = Some (sv', w') \<Longrightarrow> se_api V = api \<Longrightarrow> all_loops I sv \<Longrightarrow> all_loops I sv'"
  by (auto simp: loop_delete_event_def split: bind_splits intro!: all_loops_set) (metis delete_event all_loops_at)

lemma loop_both_keeps:
  "loop_delete_both V p fd sv w = Some (sv', w') \<Longrightarrow> se_api V = api \<Longrightarrow> all_loops I sv \<Longrightarrow> all_loops I sv'"
  by (auto simp: loop_delete_both_def split: bind_splits dest: loop_delete_keeps)

lemmas step_keeps = call_lua_keeps [where I = I] lua_run_keeps [where I = I] sock_create_keeps [where I = I]
  sock_free_keeps [where I = I] call_with_peer_keeps [where I = I]
  loop_read_keeps loop_write_keeps loop_delete_keeps loop_both_keeps

lemma real_close_keeps:
  "real_close V fd reason sv w = Some (r, sv', w') \<Longrightarrow> se_api V = api \<Longrightarrow> scripts_keep I V \<Longrightarrow> all_loops I sv \<Longrightarrow> all_loops I sv'"
  by (auto simp: real_close_def Let_def split: bind_splits if_splits prod.splits dest!: step_keeps)

lemma write_loop_keeps':
  "write_loop V fd sv w = Some x \<Longrightarrow> se_api V = api \<longrightarrow> scripts_keep I V \<longrightarrow> all_loops I sv \<longrightarrow> all_loops I (fst x)"
proof (induction V fd sv w x rule: write_loop.raw_induct [rotated, consumes 1, case_names step])
  case (step loop V fd sv w x)
  show ?case
  proof (intro impI)
    assume V: "se_api V = api" "scripts_keep I V" "all_loops I sv"
    note closed = real_close_keeps [OF _ V(1,2)]
    have again: "all_loops I (fst y)" if "loop V fd' sv' w' = Some y" "all_loops I sv'" for fd' sv' w' y
      using step.IH V(1,2) that by blast
    show "all_loops I (fst x)"
      using step.hyps V(3) by (auto split: bind_splits if_splits prod.splits dest: closed intro: again)
  qed
qed

lemma write_loop_keeps:
  "write_loop V fd sv w = Some (sv', w') \<Longrightarrow> se_api V = api \<Longrightarrow> scripts_keep I V \<Longrightarrow> all_loops I sv \<Longrightarrow> all_loops I sv'"
  using write_loop_keeps' [of V fd sv w "(sv', w')"] by simp

lemmas port_keeps = step_keeps real_close_keeps write_loop_keeps

text \<open>The event handlers of the ports.\<close>

lemma on_read_keeps:
  "port_on_read V fd sv w = Some (sv', w') \<Longrightarrow> se_api V = api \<Longrightarrow> scripts_keep I V \<Longrightarrow> all_loops I sv \<Longrightarrow> all_loops I sv'"
  by (auto simp: port_on_read_def split: bind_splits if_splits dest!: step_keeps)

lemma on_write_keeps:
  "port_on_write V fd sv w = Some (sv', w') \<Longrightarrow> se_api V = api \<Longrightarrow> scripts_keep I V \<Longrightarrow> all_loops I sv \<Longrightarrow> all_loops I sv'"
  by (auto simp: port_on_write_def split: bind_splits if_splits dest!: port_keeps)

lemma on_accept_keeps:
  "port_on_accept V fd cd sv w = Some (sv', w') \<Longrightarrow> se_api V = api \<Longrightarrow> scripts_keep I V \<Longrightarrow> all_loops I sv \<Longrightarrow> all_loops I sv'"
  by (auto simp: port_on_accept_def Let_def split: cdata.splits bind_splits if_splits prod.splits dest!: step_keeps)

lemma on_connect_suc_keeps:
  "port_on_connect_suc V fd sv w = Some (sv', w') \<Longrightarrow> se_api V = api \<Longrightarrow> scripts_keep I V \<Longrightarrow> all_loops I sv \<Longrightarrow> all_loops I sv'"
  by (auto simp: port_on_connect_suc_def split: bind_splits if_splits dest!: step_keeps)

lemma on_connect_err_keeps:
  "port_on_connect_err V fd sv w = Some (sv', w') \<Longrightarrow> se_api V = api \<Longrightarrow> scripts_keep I V \<Longrightarrow> all_loops I sv \<Longrightarrow> all_loops I sv'"
  by (auto simp: port_on_connect_err_def Let_def split: bind_splits if_splits dest!: step_keeps)

lemma file_call_keeps:
  "file_call V hasL name fd m sv w = Some (sv', w') \<Longrightarrow> scripts_keep I V \<Longrightarrow> all_loops I sv \<Longrightarrow> all_loops I sv'"
  by (auto simp: file_call_def split: bind_splits if_splits dest!: step_keeps)

lemma file_proc_keeps:
  "file_proc V fd cd m sv w = Some (sv', w') \<Longrightarrow> scripts_keep I V \<Longrightarrow> all_loops I sv \<Longrightarrow> all_loops I sv'"
  by (auto simp: file_proc_def Let_def split: cdata.splits bind_splits if_splits dest!: file_call_keeps)

lemma file_handler_keeps:
  assumes "file_handler V f fd cd m sv w = Some (sv', w')" "se_api V = api" "scripts_keep I V" "all_loops I sv"
  shows "all_loops I sv'"
  using assms
  by (cases f) (auto simp: file_handler_def dest: on_read_keeps on_write_keeps on_accept_keeps
      on_connect_suc_keeps on_connect_err_keeps file_proc_keeps)

lemma time_handler_keeps:
  assumes "time_handler V f i cd sv w = Some (r, sv', w')" "scripts_keep I V" "all_loops I sv"
  shows "all_loops I sv'"
  using assms
  by (cases f) (auto simp: time_handler_def timer_proc_def self_timer_proc_def time_proc_def
      split: cdata.splits option.splits bind_splits if_splits dest!: lua_run_keeps)

lemma final_handler_keeps:
  assumes "final_handler V f cd sv w = Some (sv', w')" "all_loops I sv"
  shows "all_loops I sv'"
  using assms
  by (cases f) (auto simp: final_handler_def timer_finalizer_proc_def finalizer_proc_def
      split: cdata.splits bind_splits)

text \<open>The bindings.\<close>

lemma listen_keeps: "llisten V a sv w = Some (x, sv', w') \<Longrightarrow> se_api V = api \<Longrightarrow> all_loops I sv \<Longrightarrow> all_loops I sv'"
  by (auto simp: llisten_def Let_def split: option.splits bind_splits if_splits prod.splits dest!: step_keeps)

lemma syncconnect_keeps: "lsyncconnect V a sv w = Some (x, sv', w') \<Longrightarrow> se_api V = api \<Longrightarrow> all_loops I sv \<Longrightarrow> all_loops I sv'"
  by (auto simp: lsyncconnect_def Let_def split: option.splits bind_splits if_splits prod.splits dest!: step_keeps)

lemma connect_keeps: "lconnect V a sv w = Some (x, sv', w') \<Longrightarrow> se_api V = api \<Longrightarrow> all_loops I sv \<Longrightarrow> all_loops I sv'"
  by (auto simp: lconnect_def Let_def split: option.splits bind_splits if_splits prod.splits dest!: step_keeps)

lemma close_keeps:
  "lclose V a sv w = Some (x, sv', w') \<Longrightarrow> se_api V = api \<Longrightarrow> scripts_keep I V \<Longrightarrow> all_loops I sv \<Longrightarrow> all_loops I sv'"
  by (auto simp: lclose_def Let_def split: bind_splits if_splits dest!: real_close_keeps)

lemma shutdown_keeps: "lshutdown V a sv w = Some (x, sv', w') \<Longrightarrow> se_api V = api \<Longrightarrow> all_loops I sv \<Longrightarrow> all_loops I sv'"
  by (auto simp: lshutdown_def Let_def split: bind_splits if_splits dest!: step_keeps)

lemma write_event_keeps:
  "ladd_write_event V a sv w = Some (x, sv', w') \<Longrightarrow> se_api V = api \<Longrightarrow> all_loops I sv \<Longrightarrow> all_loops I sv'"
  "lremove_write_event V a sv w = Some (x, sv', w') \<Longrightarrow> se_api V = api \<Longrightarrow> all_loops I sv \<Longrightarrow> all_loops I sv'"
  by (auto simp: ladd_write_event_def lremove_write_event_def Let_def split: bind_splits if_splits dest!: step_keeps)

lemma addtimer_keeps: "laddtimer V a sv w = Some (x, sv', w') \<Longrightarrow> se_os V = os \<Longrightarrow> all_loops I sv \<Longrightarrow> all_loops I sv'"
  by (auto simp: laddtimer_def Let_def split: bind_splits if_splits prod.splits
      intro!: all_loops_set) (metis create_timer all_loops_at)+

lemma addselftimer_keeps: "laddselftimer V a sv w = Some (x, sv', w') \<Longrightarrow> se_os V = os \<Longrightarrow> all_loops I sv \<Longrightarrow> all_loops I sv'"
  by (auto simp: laddselftimer_def Let_def split: bind_splits if_splits prod.splits
      intro!: all_loops_set) (metis create_timer all_loops_at)+

lemma time_event_keeps: "lcreate_time_event V a sv w = Some (x, sv', w') \<Longrightarrow> se_os V = os \<Longrightarrow> all_loops I sv \<Longrightarrow> all_loops I sv'"
  by (auto simp: lcreate_time_event_def Let_def split: bind_splits if_splits prod.splits
      intro!: all_loops_set) (metis create_timer all_loops_at)+

lemma ae_create_keeps:
  "ae_lcreate V a sv w = (x, sv', w') \<Longrightarrow> se_os V = os \<Longrightarrow> se_api V = api \<Longrightarrow> 0 \<le> c_int (to_number (arg a 1))
    \<Longrightarrow> all_loops I sv \<Longrightarrow> all_loops I sv'"
  by (auto simp: ae_lcreate_def Let_def split: option.splits if_splits prod.splits intro!: all_loops_set) (metis new_loop)+

lemma ae_free_keeps: "ae_lfree V a sv w = Some (x, sv', w') \<Longrightarrow> all_loops I sv \<Longrightarrow> all_loops I sv'"
  by (auto simp: ae_lfree_def split: bind_splits intro!: all_loops_del)

lemma ae_stop_keeps: "ae_lstop a sv = Some (x, sv') \<Longrightarrow> all_loops I sv \<Longrightarrow> all_loops I sv'"
  by (auto simp: ae_lstop_def split: bind_splits intro!: all_loops_set simp: aeStop_def stop_flag dest: all_loops_at)

lemma delete_file_keeps:
  "ldelete_file_event V a sv w = Some (x, sv', w') \<Longrightarrow> se_api V = api \<Longrightarrow> all_loops I sv \<Longrightarrow> all_loops I sv'"
  by (auto simp: ldelete_file_event_def split: bind_splits dest!: loop_delete_keeps)

lemma create_file_keeps:
  "lcreate_file_event V a sv w = Some (x, sv', w') \<Longrightarrow> se_api V = api \<Longrightarrow> rw_mask (word_of_int (to_number (arg a 3)))
    \<Longrightarrow> word_of_int (to_number (arg a 3)) \<noteq> AE_NONE \<Longrightarrow> all_loops I sv \<Longrightarrow> all_loops I sv'"
  by (auto simp: lcreate_file_event_def Let_def split: bind_splits if_splits dest!: loop_create_keeps)

text \<open>The state of a loop that runs: the loop itself, and the others in the server.\<close>

definition running :: "('a, 'w) senv \<Rightarrow> 'a server_loop \<Rightarrow> 'a server \<times> 'w \<Rightarrow> bool" where
  "running V l sw \<longleftrightarrow> (se_os V = os \<and> se_api V = api \<and> scripts_keep I V \<longrightarrow> I l \<and> all_loops I (fst sw))"

lemma resume_keeps: "resume p sw = Some (l, sw') \<Longrightarrow> all_loops I (fst sw) \<Longrightarrow> I l \<and> all_loops I (fst sw')"
  by (auto simp: resume_def split: bind_splits dest: all_loops_at)

lemma call_file_keeps:
  "call_file (server_procs V p) f l fd c m (sv, w) = Some (l', sw') \<Longrightarrow> running V l (sv, w) \<Longrightarrow> running V l' sw'"
  by (auto simp: server_procs_def running_def split: bind_splits dest!: file_handler_keeps resume_keeps intro!: all_loops_set)

lemma call_time_keeps:
  "call_time (server_procs V p) f l i c (sv, w) = Some (r, l', sw') \<Longrightarrow> running V l (sv, w) \<Longrightarrow> running V l' sw'"
  by (auto simp: server_procs_def running_def split: bind_splits dest!: time_handler_keeps resume_keeps intro!: all_loops_set)

lemma call_final_keeps:
  "call_final (server_procs V p) f l c (sv, w) = Some (l', sw') \<Longrightarrow> running V l (sv, w) \<Longrightarrow> running V l' sw'"
  by (auto simp: server_procs_def running_def split: bind_splits dest!: final_handler_keeps resume_keeps intro!: all_loops_set)

end

text \<open>So processing the events of a loop keeps the invariant, with the callbacks the server has.\<close>

sublocale loop_laws \<subseteq> process: ae_keeps "server_os os" "server_api api" "server_procs V p" "running V" for V p
proof
  fix l l' :: "'a server_loop" and w w' :: "'a server \<times> 'w" and tv n f fd c m i r b t tod
    and ts :: "(cproc, cdata) aeTimeEvent list"
  show "running V l' w'" if "api_poll (server_api api) l tv w = Some (n, l', w')" "running V l w"
    using that by (cases w) (auto simp: server_api_def running_def, metis poll_loop)
  show "running V l' w'" if "call_file (server_procs V p) f l fd c m w = Some (l', w')" "running V l w"
    using that call_file_keeps by (cases w) blast
  show "running V l' w'" if "call_time (server_procs V p) f l i c w = Some (r, l', w')" "running V l w"
    using that call_time_keeps by (cases w) blast
  show "running V l' w'" if "call_final (server_procs V p) f l c w = Some (l', w')" "running V l w"
    using that call_final_keeps by (cases w) blast
  show "running V l' w'" if "call_before (server_procs V p) f l w = Some (l', w')" "running V l w"
    using that by (simp add: server_procs_def)
  show "running V (l\<lparr>timeEventHead := ts\<rparr>) w" if "running V l w" "subseq (map te_id ts) (map te_id (timeEventHead l))"
    using that timer_list by (simp add: running_def)
  show "running V l w \<Longrightarrow> running V (l\<lparr>lastTime := t\<rparr>) w" "running V l w \<Longrightarrow> running V (l\<lparr>stop := b\<rparr>) w"
    by (simp_all add: running_def last_time stop_flag)
  show "running V l w \<Longrightarrow> running V l (os_free (server_os os) w)" by (cases w) (simp add: running_def server_os_def)
  show "running V l w'" if "os_time (server_os os) w = (t, w')" "running V l w"
    using that by (auto simp: server_os_def carry_def running_def split: prod.splits)
  show "running V l w'" if "os_gettimeofday (server_os os) w = (tod, w')" "running V l w"
    using that by (auto simp: server_os_def carry_def running_def split: prod.splits)
qed

context loop_laws
begin

lemma run_keeps:
  "running V l' (sv', w') \<Longrightarrow> se_os V = os \<Longrightarrow> se_api V = api \<Longrightarrow> scripts_keep I V \<Longrightarrow> all_loops I (set_loop sv' p l')"
  by (simp add: running_def all_loops_set)

lemma run_start: "sv_loops sv p = Some l \<Longrightarrow> all_loops I sv \<Longrightarrow> running V l (sv, w)"
  by (simp add: running_def all_loops_at)

lemma run_once_keeps:
  assumes "lrun_once V a sv w = Some (x, sv', w')" "se_os V = os" "se_api V = api" "scripts_keep I V" "all_loops I sv"
  shows "all_loops I sv'"
  using assms by (auto simp: lrun_once_def split: bind_splits) (metis process.once run_start run_keeps)

lemma main_keeps:
  assumes "lmain V a sv w = Some (x, sv', w')" "se_os V = os" "se_api V = api" "scripts_keep I V" "all_loops I sv"
  shows "all_loops I sv'"
  using assms by (auto simp: lmain_def split: bind_splits) (metis process.main run_start run_keeps)

lemma process_keeps:
  assumes "lprocess_events V a sv w = Some (x, sv', w')" "se_os V = os" "se_api V = api" "scripts_keep I V" "all_loops I sv"
  shows "all_loops I sv'"
  using assms by (auto simp: lprocess_events_def split: bind_splits) (metis process.process_events run_start run_keeps)

lemma delete_timer_keeps:
  assumes "delete_timer V p i sv w = Some (x, sv', w')" "se_os V = os" "se_api V = api" "scripts_keep I V" "all_loops I sv"
  shows "all_loops I sv'"
  using assms by (auto simp: delete_timer_def split: bind_splits) (metis process.delete_time_event run_start run_keeps)

lemma delete_time_keeps:
  assumes "ldelete_time_event V a sv w = Some (x, sv', w')" "se_os V = os" "se_api V = api" "scripts_keep I V" "all_loops I sv"
  shows "all_loops I sv'"
  using assms by (auto simp: ldelete_time_event_def split: bind_splits dest: delete_timer_keeps)

lemma stop_timer_keeps:
  assumes "lstopselftimer V a sv w = Some (x, sv', w')" "se_os V = os" "se_api V = api" "scripts_keep I V" "all_loops I sv"
  shows "all_loops I sv'"
  using assms by (auto simp: lstopselftimer_def Let_def split: bind_splits if_splits dest: delete_timer_keeps)

end

end
