(* ===== verification/Lport_Spec.thy ===== *)
theory Lport_Spec
  imports Lae Ae_Spec Lsendbuf_Spec
begin

text \<open>
  The properties of the ports. They are about the composition of the parts: the event loop with the
  select layer, the send buffers and the socket calls.
\<close>

section \<open>The buffers of the open sockets\<close>

text \<open>
  \<open>sock_free\<close> leaves the buffer pointers of the socket behind, so the buffers are well-formed only
  for the sockets that are open, those with a port: \<open>forget\<close> drops the pointers of the others. The
  operations on an open socket do not look at them.
\<close>

definition forget :: "(int \<Rightarrow> bool) \<Rightarrow> sendbuf \<Rightarrow> sendbuf" where
  "forget K st = st\<lparr>bbufs := (\<lambda>fd. if K fd then \<lparr>block_head = None, block_tail = None\<rparr> else bbufs st fd)\<rparr>"

lemma forget_fields [simp]:
  "heap (forget K st) = heap st" "block_table (forget K st) = block_table st" "brk (forget K st) = brk st"
  "bbufs (forget K st) fd = (if K fd then \<lparr>block_head = None, block_tail = None\<rparr> else bbufs st fd)"
  by (simp_all add: forget_def)

lemma forget_block: "forget K (set_block st a b) = set_block (forget K st) a b"
  by (cases st) (auto simp: forget_def set_block_def fun_eq_iff)

lemma forget_table: "forget K (st\<lparr>block_table := t\<rparr>) = (forget K st)\<lparr>block_table := t\<rparr>"
  by (cases st) (auto simp: forget_def fun_eq_iff)

lemma forget_bbuf: "\<not> K fd \<Longrightarrow> forget K (set_bbuf st fd b) = set_bbuf (forget K st) fd b"
  by (cases st) (auto simp: forget_def set_bbuf_def fun_eq_iff)

lemma forget_closed: "forget (K(fd := True)) st = set_bbuf (forget (K(fd := False)) st) fd \<lparr>block_head = None, block_tail = None\<rparr>"
  by (cases st) (auto simp: forget_def set_bbuf_def fun_eq_iff)

lemma forget_opened: "forget (K(fd := False)) (set_bbuf st fd \<lparr>block_head = None, block_tail = None\<rparr>) = forget (K(fd := True)) st"
  by (cases st) (auto simp: forget_def set_bbuf_def fun_eq_iff)

lemmas forget_moves = forget_block forget_table forget_bbuf

lemma forget_reads:
  assumes "\<not> K fd"
  shows "sendbuf_datalen (forget K st) fd = sendbuf_datalen st fd"
    and "sendbuf_get_read_ptr (forget K st) fd = sendbuf_get_read_ptr st fd"
    and "copy_from (forget K st) q n = copy_from st q n"
  using assms by (auto simp: sendbuf_datalen_def sendbuf_get_read_ptr_def copy_from_def fd2bbuf_def split: option.split)

lemma free_block_forget: "bbuf_free_block (forget K st) a = map_option (forget K) (bbuf_free_block st a)"
  by (auto simp: bbuf_free_block_def Let_def forget_moves split: option.splits bind_split) (simp_all add: set_block_def)

lemma skip_forget:
  assumes "\<not> K fd"
  shows "sendbuf_skip_read_ptr (forget K st) fd n = map_option (\<lambda>(r, st). (r, forget K st)) (sendbuf_skip_read_ptr st fd n)"
  using assms
  by (auto simp: sendbuf_skip_read_ptr_def fd2bbuf_def Let_def forget_moves [symmetric] free_block_forget
      split: option.splits bind_split)

section \<open>Sending\<close>

text \<open>What the head of a chain offers to \<open>send\<close>.\<close>

lemma head_view:
  assumes o: "owned st L" and fd: "0 \<le> fd" "fd < MAX_SOCKET"
  shows "\<exists>n rptr. sendbuf_datalen st fd = Some n \<and> sendbuf_get_read_ptr st fd = Some rptr \<and> 0 \<le> n
    \<and> (0 < n \<longrightarrow> (\<exists>q bs rest. rptr = Some q \<and> copy_from st q n = Some bs \<and> int (length bs) = n
         \<and> sendbuf_stream st fd = bs @ rest))"
proof (cases "L (Sock fd)")
  case Nil
  then have "block_head (bbufs st fd) = None" using owned_chain [OF o, of "Sock fd"] by simp
  then show ?thesis using fd by (simp add: sendbuf_datalen_def sendbuf_get_read_ptr_def fd2bbuf_def)
next
  case (Cons a as)
  from sock_block [OF o Cons] obtain b where b: "heap st a = Some b" "block_ok b" "block_head (bbufs st fd) = Some a" .
  note bi = block_ints [OF b(2)]
  have ci: "c_int (bb_buf_len b - bb_rptr b) = bb_buf_len b - bb_rptr b" using bi by (intro c_int_1g) simp_all
  have get: "mem_get (bb_buf b) (bb_rptr b) (bb_buf_len b - bb_rptr b) = Some (bytes_of (heap st) a)"
    using bi b(1) mem_get_inside [of "bb_rptr b" "bb_buf_len b - bb_rptr b" "bb_buf b"] by (simp add: bytes_of_def)
  have "length (bytes_of (heap st) a) = nat (bb_buf_len b - bb_rptr b)" using mem_get_length [OF get] .
  moreover have "sendbuf_stream st fd = bytes_of (heap st) a @ concat (map (bytes_of (heap st)) as)"
    by (simp add: owned_stream [OF o] Cons)
  ultimately show ?thesis
    using fd b bi ci get by (simp add: sendbuf_datalen_def sendbuf_get_read_ptr_def fd2bbuf_def copy_from_def)
qed

lemma head_skip:
  assumes o: "owned st L" and fd: "0 \<le> fd" "fd < MAX_SOCKET" and n: "sendbuf_datalen st fd = Some n" "0 < k" "k \<le> n"
  shows "\<exists>st' L'. sendbuf_skip_read_ptr st fd k = Some (0, st') \<and> owned st' L'
    \<and> sendbuf_stream st' fd = drop (nat k) (sendbuf_stream st fd)
    \<and> (\<forall>fd'. fd' \<noteq> fd \<longrightarrow> sendbuf_stream st' fd' = sendbuf_stream st fd')"
proof (cases "L (Sock fd)")
  case Nil
  then have "block_head (bbufs st fd) = None" using owned_chain [OF o, of "Sock fd"] by simp
  then show ?thesis using n fd by (simp add: sendbuf_datalen_def fd2bbuf_def)
next
  case (Cons a as)
  from sock_block [OF o Cons] obtain b where b: "heap st a = Some b" "block_ok b" "block_head (bbufs st fd) = Some a" .
  note bi = block_ints [OF b(2)]
  have "c_int (bb_buf_len b - bb_rptr b) = bb_buf_len b - bb_rptr b" using bi by (intro c_int_1g) simp_all
  then have "n = bb_buf_len b - bb_rptr b" using n fd b by (simp add: sendbuf_datalen_def fd2bbuf_def)
  then show ?thesis using skip_owned [OF o Cons b(1) fd] n by simp
qed

text \<open>
  The documented behaviour of \<open>send\<close> on a non-blocking stream socket, with \<open>sent\<close> the bytes the
  kernel has taken on the socket: it takes a non-empty front part of the data, or it fails, with
  \<open>EAGAIN\<close> or another error, and takes nothing.
\<close>

definition stream_send :: "('a, 'w) senv \<Rightarrow> ('w \<Rightarrow> byte list) \<Rightarrow> int \<Rightarrow> bool" where
  "stream_send V sent fd \<longleftrightarrow>
     (\<forall>bs w ir err w'. bs \<noteq> [] \<and> net_send (se_net V) fd bs w = ((ir, err), w') \<longrightarrow>
        0 < ir \<and> ir \<le> int (length bs) \<and> sent w' = sent w @ take (nat ir) bs
        \<or> ir = - 1 \<and> sent w' = sent w)"

text \<open>The last call of \<open>send\<close> failed.\<close>

definition send_ended :: "('a, 'w) senv \<Rightarrow> int \<Rightarrow> (int \<Rightarrow> bool) \<Rightarrow> 'w \<Rightarrow> bool" where
  "send_ended V fd P w \<longleftrightarrow> (\<exists>bs v err. bs \<noteq> [] \<and> net_send (se_net V) fd bs v = ((- 1, err), w) \<and> P err)"

text \<open>How the loop ends, with the buffers \<open>sb\<close> and the world \<open>w1\<close> of that moment.\<close>

definition loop_ended :: "('a, 'w) senv \<Rightarrow> int \<Rightarrow> 'a server \<Rightarrow> 'w \<Rightarrow> sendbuf \<Rightarrow> 'w \<Rightarrow> bool" where
  "loop_ended V fd sv w sb w1 \<longleftrightarrow>
     write_loop V fd sv w = Some (sv\<lparr>sv_send := sb\<rparr>, w1) \<and> sendbuf_datalen sb fd = Some 0
     \<or> (\<exists>n > 0. sendbuf_datalen sb fd = Some n \<and> send_ended V fd (\<lambda>err. err = EAGAIN) w1
          \<and> write_loop V fd sv w = Some (sv\<lparr>sv_send := sb\<rparr>, w1))
     \<or> (\<exists>n > 0. sendbuf_datalen sb fd = Some n \<and> send_ended V fd (\<lambda>err. err \<noteq> EAGAIN) w1
          \<and> write_loop V fd sv w = Option.bind (real_close V fd peer_close (sv\<lparr>sv_send := sb\<rparr>) w1) (\<lambda>(r, sv, w). Some (sv, w)))"

lemma loop_endedE:
  assumes "loop_ended V fd sv w sb w1"
  obtains (failed) n where "0 < n" "sendbuf_datalen sb fd = Some n" "send_ended V fd (\<lambda>err. err \<noteq> EAGAIN) w1"
      "write_loop V fd sv w = Option.bind (real_close V fd peer_close (sv\<lparr>sv_send := sb\<rparr>) w1) (\<lambda>(r, sv, w). Some (sv, w))"
    | (again) n where "0 < n" "sendbuf_datalen sb fd = Some n" "send_ended V fd (\<lambda>err. err = EAGAIN) w1"
      "write_loop V fd sv w = Some (sv\<lparr>sv_send := sb\<rparr>, w1)"
    | (drained) "sendbuf_datalen sb fd = Some 0" "write_loop V fd sv w = Some (sv\<lparr>sv_send := sb\<rparr>, w1)"
  using assms unfolding loop_ended_def by blast

lemma write_loop_law:
  assumes k: "stream_send V sent fd" and fd: "0 \<le> fd" "fd < MAX_SOCKET" and K: "\<not> K fd"
  shows "owned (forget K (sv_send sv)) L \<Longrightarrow>
    \<exists>sb w' L'. loop_ended V fd sv w sb w' \<and> owned (forget K sb) L'
      \<and> sent w' @ sendbuf_stream (forget K sb) fd = sent w @ sendbuf_stream (forget K (sv_send sv)) fd
      \<and> (\<forall>fd'. fd' \<noteq> fd \<longrightarrow> sendbuf_stream (forget K sb) fd' = sendbuf_stream (forget K (sv_send sv)) fd')"
proof (induction "length (sendbuf_stream (forget K (sv_send sv)) fd)" arbitrary: sv w L rule: less_induct)
  case less
  let ?st = "sv_send sv" and ?fo = "forget K (sv_send sv)"
  note reads = forget_reads [where K = K and fd = fd, OF K]
  have same: "sv\<lparr>sv_send := ?st\<rparr> = sv" by simp
  obtain n rptr where h: "sendbuf_datalen ?st fd = Some n" "sendbuf_get_read_ptr ?st fd = Some rptr" "0 \<le> n"
    and pos: "0 < n \<longrightarrow> (\<exists>q bs rest. rptr = Some q \<and> copy_from ?st q n = Some bs \<and> int (length bs) = n
         \<and> sendbuf_stream ?fo fd = bs @ rest)"
    using head_view [OF less.prems fd] unfolding reads by blast
  show ?case
  proof (cases "n = 0")
    case True
    then have "write_loop V fd sv w = Some (sv\<lparr>sv_send := ?st\<rparr>, w)" using h by (subst write_loop.simps) simp
    then have "loop_ended V fd sv w ?st w" using h(1) True by (simp add: loop_ended_def)
    then show ?thesis using less.prems by blast
  next
    case False
    then obtain q bs rest where q: "rptr = Some q" "copy_from ?st q n = Some bs" "int (length bs) = n"
      "sendbuf_stream ?fo fd = bs @ rest" using pos h(3) by auto
    have n0: "0 < n" and ne: "bs \<noteq> []" using False h(3) q(3) by auto
    obtain ir err w1 where s: "net_send (se_net V) fd bs w = ((ir, err), w1)" by (metis surj_pair)
    have c: "0 < ir \<and> ir \<le> int (length bs) \<and> sent w1 = sent w @ take (nat ir) bs
        \<or> ir = - 1 \<and> sent w1 = sent w"
      using k ne s unfolding stream_send_def by blast
    show ?thesis
    proof (cases "0 < ir")
      case True
      then have ir: "ir \<le> n" "sent w1 = sent w @ take (nat ir) bs" using c q(3) by auto
      have hf: "sendbuf_datalen ?fo fd = Some n" using h(1) by (simp add: reads)
      obtain st1 L1 where s1: "sendbuf_skip_read_ptr ?st fd ir = Some (0, st1)" "owned (forget K st1) L1"
        "sendbuf_stream (forget K st1) fd = drop (nat ir) (sendbuf_stream ?fo fd)"
        "\<forall>fd'. fd' \<noteq> fd \<longrightarrow> sendbuf_stream (forget K st1) fd' = sendbuf_stream ?fo fd'"
        using head_skip [OF less.prems fd hf True ir(1)] unfolding skip_forget [where K = K and fd = fd, OF K] by auto
      have st1: "sendbuf_stream (forget K st1) fd = drop (nat ir) bs @ rest" using s1(3) q(3,4) ir(1) by simp
      have "length (sendbuf_stream (forget K (sv_send (sv\<lparr>sv_send := st1\<rparr>))) fd) < length (sendbuf_stream ?fo fd)"
        using st1 q(4) True ne by simp
      from less.hyps [OF this, of L1 w1] s1(2) obtain sb w' L' where
        r: "loop_ended V fd (sv\<lparr>sv_send := st1\<rparr>) w1 sb w'" "owned (forget K sb) L'"
        "sent w' @ sendbuf_stream (forget K sb) fd = sent w1 @ sendbuf_stream (forget K st1) fd"
        "\<forall>fd'. fd' \<noteq> fd \<longrightarrow> sendbuf_stream (forget K sb) fd' = sendbuf_stream (forget K st1) fd'" by auto
      have "write_loop V fd sv w = write_loop V fd (sv\<lparr>sv_send := st1\<rparr>) w1"
        using h q n0 s True s1(1) by (subst write_loop.simps) simp
      then have "loop_ended V fd sv w sb w'" using r(1) by (simp add: loop_ended_def)
      moreover have "sent w' @ sendbuf_stream (forget K sb) fd = sent w @ sendbuf_stream ?fo fd"
        using r(3) ir(2) st1 q(4) by simp
      ultimately show ?thesis using r(2,4) s1(4) by auto
    next
      case False
      then have e: "ir = - 1" "sent w1 = sent w" using c by auto
      have ended: "send_ended V fd P w1" if "P err" for P using ne s e(1) that unfolding send_ended_def by blast
      have "loop_ended V fd sv w ?st w1"
      proof (cases "err = EAGAIN")
        case True
        have "write_loop V fd sv w = Some (sv\<lparr>sv_send := ?st\<rparr>, w1)"
          using h q n0 s e True by (subst write_loop.simps) simp
        then show ?thesis using ended [of "\<lambda>err. err = EAGAIN"] True h(1) n0 by (auto simp: loop_ended_def)
      next
        case False
        have "write_loop V fd sv w = Option.bind (real_close V fd peer_close (sv\<lparr>sv_send := ?st\<rparr>) w1) (\<lambda>(r, sv, w). Some (sv, w))"
          using h q n0 s e False by (subst write_loop.simps) simp
        then show ?thesis using ended [of "\<lambda>err. err \<noteq> EAGAIN"] False h(1) n0 by (auto simp: loop_ended_def)
      qed
      then show ?thesis using less.prems e(2) by metis
    qed
  qed
qed

section \<open>The loop behind a port\<close>

text \<open>A loop on the select layer in which the descriptor is in range.\<close>

definition loop_ok :: "int \<Rightarrow> (cproc, cdata, select_state) aeEventLoop \<Rightarrow> bool" where
  "loop_ok fd l \<longleftrightarrow> ae_wf l \<and> select_usable l \<and> agrees (select_watching l ()) l
     \<and> 0 < fd \<and> fd < setsize l \<and> fd < FD_SETSIZE"

text \<open>The masks of two loops agree but for the descriptor.\<close>

definition same_masks_but :: "int \<Rightarrow> ('p, 'c, 'a) aeEventLoop \<Rightarrow> ('p, 'c, 'a) aeEventLoop \<Rightarrow> bool" where
  "same_masks_but fd l l' \<longleftrightarrow> setsize l' = setsize l \<and> (\<forall>i < nat (setsize l). int i \<noteq> fd \<longrightarrow> mask_at l' i = mask_at l i)"

lemma same_masks_trans: "same_masks_but fd l l' \<Longrightarrow> same_masks_but fd l' l'' \<Longrightarrow> same_masks_but fd l l''"
  by (simp add: same_masks_but_def)

lemma agrees_world: "agrees (select_watching l w) l \<longleftrightarrow> agrees (select_watching l w') l"
  by (metis select_watching_world)

lemma select_delete_usable:
  "aeDeleteFileEvent (select_api os) l fd m w = Some (l', w') \<Longrightarrow> select_usable l \<Longrightarrow> select_usable l'"
  by (auto simp: aeDeleteFileEvent_def select_api_def select_aeApiDelEvent_def select_usable_def Let_def
      split: if_splits bind_splits)

lemma select_create_usable':
  "aeCreateFileEvent (select_api os) l fd m proc cd w = Some (r, l', w') \<Longrightarrow> select_usable l \<Longrightarrow> select_usable l'"
  by (auto simp: aeCreateFileEvent_def select_api_def select_aeApiAddEvent_def select_usable_def Let_def
      split: if_splits bind_splits)

lemma delete_event_law:
  assumes api: "se_api V = select_api (se_os V)" and l: "sv_loops sv p = Some l" "loop_ok fd l"
  shows "\<exists>l'. loop_delete_event V p fd m sv w = Some (set_loop sv p l', w) \<and> loop_ok fd l'
    \<and> mask_at l' (nat fd) = mask_at l (nat fd) AND NOT m \<and> same_masks_but fd l l'"
proof -
  have wf: "ae_wf l" "select_usable l" "0 \<le> fd" "fd < setsize l" "fd < FD_SETSIZE" "0 < fd"
    using l(2) by (simp_all add: loop_ok_def)
  obtain l' fe' where d: "aeDeleteFileEvent (select_api (se_os V)) l fd m w = Some (l', w)"
    "events l' = (events l)[nat fd := fe']" "fe_mask fe' = mask_at l (nat fd) AND NOT m" "setsize l' = setsize l"
    using select_delete_defined [OF wf(1-5), of "se_os V" m w] by blast
  have sync: "select.synced l w" using l(2) agrees_world [of l w "()"] by (simp add: loop_ok_def select_agrees [symmetric])
  have wf': "ae_wf l'" using wf(1) d(1) by (rule select.delete_file_event_wf)
  have "select.synced l' w" using wf(1) sync d(1) by (rule select.delete_file_event_synced)
  then have "agrees (select_watching l' ()) l'" using agrees_world [of l' w "()"] by (simp add: select_agrees)
  then have ok: "loop_ok fd l'" using wf' wf d(4) select_delete_usable [OF d(1) wf(2)] by (simp add: loop_ok_def)
  have "nat fd < length (events l)" using wf by (auto simp: ae_wf_defs)
  then have "mask_at l' (nat fd) = mask_at l (nat fd) AND NOT m" "same_masks_but fd l l'"
    using d(2-4) wf(3) by (auto simp: mask_at_def same_masks_but_def nth_list_update)
  then show ?thesis using d(1) api l(1) ok by (auto simp: loop_delete_event_def)
qed

lemma create_event_law:
  assumes api: "se_api V = select_api (se_os V)" and l: "sv_loops sv p = Some l" "loop_ok fd l"
    and m: "rw_mask m" "m \<noteq> AE_NONE"
  shows "\<exists>l'. loop_create_event V p fd m proc cd sv w = Some (AE_OK, set_loop sv p l', w) \<and> loop_ok fd l'
    \<and> events l' ! nat fd = registered (events l ! nat fd) m proc cd \<and> same_masks_but fd l l'"
proof -
  have wf: "ae_wf l" "select_usable l" "0 \<le> fd" "fd < setsize l" "fd < FD_SETSIZE" "0 < fd"
    using l(2) by (simp_all add: loop_ok_def)
  obtain l' where d: "aeCreateFileEvent (select_api (se_os V)) l fd m proc cd w = Some (AE_OK, l', w)"
    "events l' = (events l)[nat fd := registered (events l ! nat fd) m proc cd]" "setsize l' = setsize l"
    using select_create_defined [OF wf(1-5), of "se_os V" m proc cd w] by blast
  have sync: "select.synced l w" using l(2) agrees_world [of l w "()"] by (simp add: loop_ok_def select_agrees [symmetric])
  have wf': "ae_wf l'" using wf(1) m d(1) by (rule select.create_file_event_wf)
  have "select.synced l' w" using wf(1) sync m(1) d(1) by (rule select.create_file_event_synced)
  then have "agrees (select_watching l' ()) l'" using agrees_world [of l' w "()"] by (simp add: select_agrees)
  then have ok: "loop_ok fd l'" using wf' wf d(3) select_create_usable' [OF d(1) wf(2)] by (simp add: loop_ok_def)
  have "nat fd < length (events l)" using wf by (auto simp: ae_wf_defs)
  then have "events l' ! nat fd = registered (events l ! nat fd) m proc cd" "same_masks_but fd l l'"
    using d(2,3) wf(3) by (auto simp: mask_at_def same_masks_but_def nth_list_update)
  then show ?thesis using d(1) api l(1) ok by (auto simp: loop_create_event_def)
qed

text \<open>A socket in the table, with its port and the loop of the port.\<close>

definition served :: "select_state server \<Rightarrow> int \<Rightarrow> Port \<Rightarrow> (cproc, cdata, select_state) aeEventLoop \<Rightarrow> bool" where
  "served sv fd port l \<longleftrightarrow> (\<exists>p. sock_port (sv_socks sv fd) = Some p \<and> sv_ports sv p = Some port)
     \<and> sv_loops sv (port_loop port) = Some l \<and> loop_ok fd l \<and> \<not> bad_fd fd"

lemma fd_ranges: "\<not> bad_fd fd \<Longrightarrow> 0 \<le> fd \<and> 0 < fd \<and> fd < MAX_SOCK \<and> fd < MAX_SOCKET \<and> fd < RB_MAX_SOCKET"
  by (simp add: bad_fd_def MAX_SOCK_def MAX_SOCKET_def RB_MAX_SOCKET_def)

text \<open>The buffers of a server: the sockets without a port left out.\<close>

definition closed :: "'a server \<Rightarrow> int \<Rightarrow> bool" where
  "closed sv fd \<longleftrightarrow> sock_port (sv_socks sv fd) = None"

definition send_ok :: "'a server \<Rightarrow> bool" where
  "send_ok sv \<longleftrightarrow> sendbuf_wf (forget (closed sv) (sv_send sv))"

definition to_send :: "'a server \<Rightarrow> int \<Rightarrow> byte list" where
  "to_send sv fd = sendbuf_stream (forget (closed sv) (sv_send sv)) fd"

lemma closed_update [simp]: "closed (sv\<lparr>sv_send := sb\<rparr>) = closed sv" "closed (set_loop sv p l) = closed sv"
  by (simp_all add: closed_def fun_eq_iff set_loop_def)

section \<open>Closing\<close>

lemma free_blocks_bbufs:
  assumes "free_blocks st q = Some st'"
  shows "free_blocks (st\<lparr>bbufs := f\<rparr>) q = Some (st'\<lparr>bbufs := f\<rparr>)"
proof -
  have fb: "bbuf_free_block (st\<lparr>bbufs := f\<rparr>) a = map_option (\<lambda>st'. st'\<lparr>bbufs := f\<rparr>) (bbuf_free_block st a)" for st a
    by (cases st) (auto simp: bbuf_free_block_def Let_def set_block_def split: bind_split)
  show ?thesis
    using assms
  proof (induction st q st' rule: free_blocks.raw_induct [rotated, consumes 1, case_names step])
    case (step loop st q st')
    then show ?case by (subst free_blocks.simps) (auto split: option.splits bind_splits simp: fb)
  qed
qed

lemma free_blocks_lens:
  assumes "free_blocks st q = Some st'"
  shows "map_option (\<lambda>b. bb_buf_len b - bb_rptr b) (heap st' x) = map_option (\<lambda>b. bb_buf_len b - bb_rptr b) (heap st x)"
  using assms
proof (induction st q st' rule: free_blocks.raw_induct [rotated, consumes 1, case_names step])
  case (step loop st q st')
  have "map_option (\<lambda>b. bb_buf_len b - bb_rptr b) (heap st1 x) = map_option (\<lambda>b. bb_buf_len b - bb_rptr b) (heap st x)"
    if "bbuf_free_block st a = Some st1" for a st1
    using that by (auto simp: bbuf_free_block_def Let_def set_block_def split: bind_splits if_splits)
  with step show ?case by (auto split: option.splits bind_splits)
qed

lemma datalen_after_free:
  assumes "free_blocks st q = Some st'" "bbufs st' = bbufs st"
  shows "sendbuf_datalen st' fd = sendbuf_datalen st fd"
proof -
  have "sendbuf_datalen st fd = Option.bind (fd2bbuf st fd) (\<lambda>self. case block_head self of None \<Rightarrow> Some 0
      | Some a \<Rightarrow> map_option c_int (map_option (\<lambda>b. bb_buf_len b - bb_rptr b) (heap st a)))" for st
    by (auto simp: sendbuf_datalen_def split: option.splits bind_splits)
  then show ?thesis using free_blocks_lens [OF assms(1)] assms(2) by (simp add: fd2bbuf_def cong: option.case_cong)
qed

lemma closed_sock [simp]: "closed (set_sock sv fd s) = (closed sv)(fd := (sock_port s = None))"
  by (auto simp: closed_def set_sock_def fun_eq_iff)

lemma set_sock_fields [simp]:
  "sv_send (set_sock sv fd s) = sv_send sv" "sv_recv (set_sock sv fd s) = sv_recv sv" "sv_loops (set_sock sv fd s) = sv_loops sv"
  "sv_ports (set_sock sv fd s) = sv_ports sv" "sv_socks (set_sock sv fd s) = (sv_socks sv)(fd := s)"
  by (simp_all add: set_sock_def)

lemma sock_free_law:
  assumes wf: "send_ok sv" and fd: "\<not> bad_fd fd" and live: "\<not> closed sv fd"
  shows "\<exists>sv'. sock_free fd sv = Some (0, sv') \<and> send_ok sv' \<and> sv_socks sv' = (sv_socks sv)(fd := zero_sock)
    \<and> sv_loops sv' = sv_loops sv \<and> sv_ports sv' = sv_ports sv \<and> sv_recv sv' = sv_recv sv
    \<and> sendbuf_datalen (sv_send sv') fd = sendbuf_datalen (sv_send sv) fd
    \<and> to_send sv' fd = [] \<and> (\<forall>fd'. fd' \<noteq> fd \<longrightarrow> to_send sv' fd' = to_send sv fd')"
proof -
  let ?K = "closed sv" and ?nil = "\<lparr>block_head = None, block_tail = None\<rparr>"
  let ?st = "forget ?K (sv_send sv)"
  have fr: "0 \<le> fd" "fd < MAX_SOCKET" using fd_ranges [OF fd] by auto
  have o: "owned ?st (blocks_of ?st)" using wf by (simp add: send_ok_def sendbuf_wf_def)
  from release_owned [OF o fr] obtain st' L' where r: "sendbuf_free ?st fd = Some (0, st')" "bbufs st' = bbufs ?st"
    and o': "owned (set_bbuf st' fd ?nil) L'" and L': "L' (Sock fd) = []" "\<forall>fd'. fd' \<noteq> fd \<longrightarrow> L' (Sock fd') = blocks_of ?st (Sock fd')"
    and b: "bytes_of (heap st') = bytes_of (heap ?st)" by blast
  let ?sb = "st'\<lparr>bbufs := bbufs (sv_send sv)\<rparr>"
  have "free_blocks ?st (block_head (bbufs (sv_send sv) fd)) = Some st'"
    using r(1) fr live by (auto simp: sendbuf_free_def fd2bbuf_def split: bind_splits)
  from free_blocks_bbufs [OF this, of "bbufs (sv_send sv)"]
  have fb: "free_blocks (sv_send sv) (block_head (bbufs (sv_send sv) fd)) = Some ?sb" by (simp add: forget_def)
  then have free: "sendbuf_free (sv_send sv) fd = Some (0, ?sb)" using fr by (simp add: sendbuf_free_def fd2bbuf_def)
  have fo: "forget (?K(fd := True)) ?sb = set_bbuf st' fd ?nil"
    using r(2) live by (cases st') (auto simp: forget_def set_bbuf_def fun_eq_iff)
  let ?sv = "(set_sock sv fd zero_sock)\<lparr>sv_recv := sv_recv sv, sv_send := ?sb\<rparr>"
  have K': "closed ?sv = ?K(fd := True)" by (auto simp: closed_def zero_sock_def fun_eq_iff)
  have "sock_free fd sv = Some (0, ?sv)"
    using fd free by (simp add: sock_free_def recvbuf_free_def Let_def)
  moreover have "send_ok ?sv" unfolding send_ok_def K' using owned_wf [OF o'] by (simp add: fo)
  moreover have "to_send ?sv fd' = concat (map (bytes_of (heap ?st)) (L' (Sock fd')))" for fd'
    unfolding to_send_def K' by (simp add: fo owned_stream [OF o'] b) (simp add: set_bbuf_def b)
  moreover have "to_send sv fd' = concat (map (bytes_of (heap ?st)) (blocks_of ?st (Sock fd')))" for fd'
    by (simp add: to_send_def owned_stream [OF o])
  moreover have "sendbuf_datalen ?sb fd = sendbuf_datalen (sv_send sv) fd" using datalen_after_free [OF fb] by simp
  ultimately show ?thesis using L' by (intro exI [of _ ?sv]) simp
qed

lemma both_removed: "rw_mask m \<Longrightarrow> (m AND NOT AE_READABLE) AND NOT AE_WRITABLE = AE_NONE"
  by (rule bit_word_eqI) (auto simp: bit_simps bit_ae_consts dest: rw_mask_bit)

lemma delete_both_law:
  assumes api: "se_api V = select_api (se_os V)" and l: "sv_loops sv p = Some l" "loop_ok fd l"
  shows "\<exists>l'. loop_delete_both V p fd sv w = Some (set_loop sv p l', w) \<and> loop_ok fd l'
    \<and> mask_at l' (nat fd) = AE_NONE \<and> same_masks_but fd l l'"
proof -
  obtain l1 where d1: "loop_delete_event V p fd AE_READABLE sv w = Some (set_loop sv p l1, w)" "loop_ok fd l1"
    "mask_at l1 (nat fd) = mask_at l (nat fd) AND NOT AE_READABLE" "same_masks_but fd l l1"
    using delete_event_law [OF api l, of AE_READABLE w] by blast
  have "sv_loops (set_loop sv p l1) p = Some l1" by (simp add: set_loop_def)
  from delete_event_law [OF api this d1(2), of AE_WRITABLE w] obtain l2 where
    d2: "loop_delete_event V p fd AE_WRITABLE (set_loop sv p l1) w = Some (set_loop (set_loop sv p l1) p l2, w)" "loop_ok fd l2"
    "mask_at l2 (nat fd) = mask_at l1 (nat fd) AND NOT AE_WRITABLE" "same_masks_but fd l1 l2" by blast
  have "rw_mask (mask_at l (nat fd))" using l(2) by (auto simp: loop_ok_def ae_wf_defs fe_ok_def)
  moreover have "set_loop (set_loop sv p l1) p l2 = set_loop sv p l2" by (simp add: set_loop_def)
  ultimately show ?thesis
    using d1 d2 same_masks_trans [OF d1(4) d2(4)] both_removed by (intro exI [of _ l2]) (simp add: loop_delete_both_def)
qed

lemma real_close_after:
  assumes api: "se_api V = select_api (se_os V)" and s: "served sv fd port l"
    and cb: "if lua_on_close port = [] then (sv1, w1) = (sv, w)
      else \<exists>r. call_lua V (lua_on_close port) [LInt fd, LStr (fst (net_peer (se_net V) fd w)), LInt (snd (net_peer (se_net V) fd w)), LStr reason] sv w
        = Some (r, sv1, w1)"
    and after: "send_ok sv1" "served sv1 fd port1 l1" "sock_port (sv_socks sv1 fd) = sock_port (sv_socks sv fd)"
  shows "\<exists>sv' l'. real_close V fd reason sv w = Some (0, sv', os_close (se_os V) fd w1) \<and> send_ok sv'
    \<and> sv_socks sv' = (sv_socks sv1)(fd := zero_sock) \<and> sv_ports sv' = sv_ports sv1
    \<and> sv_recv sv' = sv_recv sv1 \<and> sendbuf_datalen (sv_send sv') fd = sendbuf_datalen (sv_send sv1) fd
    \<and> to_send sv' fd = [] \<and> (\<forall>fd'. fd' \<noteq> fd \<longrightarrow> to_send sv' fd' = to_send sv1 fd')
    \<and> sv_loops sv' (port_loop port1) = Some l' \<and> mask_at l' (nat fd) = AE_NONE \<and> same_masks_but fd l1 l'"
proof -
  obtain p where p: "sock_port (sv_socks sv fd) = Some p" "sv_ports sv p = Some port" and fd: "\<not> bad_fd fd"
    using s by (auto simp: served_def)
  have p1: "sock_port (sv_socks sv1 fd) = Some p" "sv_ports sv1 p = Some port1" "sv_loops sv1 (port_loop port1) = Some l1" "loop_ok fd l1"
    using after(2,3) p(1) by (auto simp: served_def)
  obtain l' where d: "loop_delete_both V (port_loop port1) fd sv1 w1 = Some (set_loop sv1 (port_loop port1) l', w1)"
    "mask_at l' (nat fd) = AE_NONE" "same_masks_but fd l1 l'"
    using delete_both_law [OF api p1(3,4), of w1] by blast
  let ?sv = "set_loop sv1 (port_loop port1) l'"
  have live: "\<not> closed ?sv fd" using p1(1) by (simp add: closed_def set_loop_def)
  have same: "send_ok ?sv" "to_send ?sv = to_send sv1"
    using after(1) by (simp_all add: send_ok_def to_send_def fun_eq_iff) (simp_all add: set_loop_def)
  from sock_free_law [OF same(1) fd live] obtain sv' where
    f: "sock_free fd ?sv = Some (0, sv')" "send_ok sv'" "sv_socks sv' = (sv_socks ?sv)(fd := zero_sock)"
    "sv_loops sv' = sv_loops ?sv" "sv_ports sv' = sv_ports ?sv" "sv_recv sv' = sv_recv ?sv"
    "sendbuf_datalen (sv_send sv') fd = sendbuf_datalen (sv_send ?sv) fd"
    "to_send sv' fd = []" "\<forall>fd'. fd' \<noteq> fd \<longrightarrow> to_send sv' fd' = to_send sv1 fd'"
    unfolding same(2) by blast
  have at: "sock_port_at sv fd = Some (p, port)" using p fd_ranges [OF fd] by (simp add: sock_port_at_def fd2sock_def)
  have "real_close V fd reason sv w = Some (0, sv', os_close (se_os V) fd w1)"
  proof (cases "lua_on_close port = []")
    case True
    then show ?thesis using at cb fd p1(2) d(1) f(1) by (simp add: real_close_def)
  next
    case False
    then show ?thesis using at cb fd p1(2) d(1) f(1) by (auto simp: real_close_def split: prod.split)
  qed
  then show ?thesis using f d by (intro exI [of _ sv'] exI [of _ l']) (simp add: set_loop_def)
qed

lemma real_close_law:
  assumes api: "se_api V = select_api (se_os V)" and wf: "send_ok sv" and s: "served sv fd port l"
    and cb: "lua_on_close port = []"
  shows "\<exists>sv' l'. real_close V fd reason sv w = Some (0, sv', os_close (se_os V) fd w) \<and> send_ok sv'
    \<and> sv_socks sv' = (sv_socks sv)(fd := zero_sock) \<and> sv_ports sv' = sv_ports sv
    \<and> sv_recv sv' = sv_recv sv \<and> sendbuf_datalen (sv_send sv') fd = sendbuf_datalen (sv_send sv) fd
    \<and> to_send sv' fd = [] \<and> (\<forall>fd'. fd' \<noteq> fd \<longrightarrow> to_send sv' fd' = to_send sv fd')
    \<and> sv_loops sv' (port_loop port) = Some l' \<and> mask_at l' (nat fd) = AE_NONE \<and> same_masks_but fd l l'"
  using cb by (intro real_close_after [OF api s _ wf s]) simp_all



section \<open>A concrete server\<close>

text \<open>A server with one port and one socket that has five bytes to send, in a world that is the bytes
  the kernel took; \<open>send\<close> takes at most two bytes at a time.\<close>

definition two_net :: "byte list net" where
  "two_net =
     \<lparr>net_send = (\<lambda>fd bs w. ((int (length (take 2 bs)), 0), w @ take 2 bs)), net_recv = (\<lambda>fd n w. ((0, 0, []), w)),
      net_accept = (\<lambda>fd w. (5, w)), net_socket = (\<lambda>w. (5, w)), net_reuse = (\<lambda>fd w. w), net_bind = (\<lambda>fd q w. (0, w)),
      net_listen = (\<lambda>fd n w. (0, w)), net_connect = (\<lambda>fd ad q w. ((- 1, 111), w)), net_shutdown = (\<lambda>fd w. w),
      net_nonblock = (\<lambda>fd w. w), net_peer = (\<lambda>fd w. ([49], 80)), net_inet_addr = (\<lambda>s. Some 1),
      net_gethostbyname = (\<lambda>s w. None), net_strerror = (\<lambda>w. [])\<rparr>"

definition quiet_os :: "'w os" where
  "quiet_os =
     \<lparr>os_malloc = (\<lambda>n w. (True, w)), os_free = (\<lambda>w. w), os_junk = (\<lambda>w i. 7),
      os_time = (\<lambda>w. (0, w)), os_gettimeofday = (\<lambda>w. ((0, 0), w)),
      os_select = (\<lambda>n r s tv w. ((0, {}, {}), w)), os_epoll_create = (\<lambda>w. (4, w)),
      os_epoll_ctl = (\<lambda>ep op fd e w. (0, w)), os_epoll_wait = (\<lambda>ep n t w. ((0, []), w)),
      os_poll = (\<lambda>fd e t w. ((0, e), w)), os_close = (\<lambda>fd w. w)\<rparr>"

definition two_env :: "(select_state, byte list) senv" where
  "two_env = \<lparr>se_os = quiet_os, se_api = select_api quiet_os, se_net = two_net, lua_global = (\<lambda>w. \<lparr>nm_global = (\<lambda>s. Some (LuaFunction 0)), nm_index = (\<lambda>v s. None)\<rparr>),
     lua_run = (\<lambda>f args sv w. Some (Some 0, sv, w))\<rparr>"

definition two_loop :: "select_state server_loop" where
  "two_loop =
     \<lparr>maxfd = 3, setsize = 8, timeEventNextId = 0, lastTime = 0,
      events = (replicate 8 \<lparr>fe_mask = AE_NONE, rfileProc = None, wfileProc = None, fe_clientData = None\<rparr>)
        [3 := \<lparr>fe_mask = 3, rfileProc = Some Port_on_read, wfileProc = Some Port_on_write, fe_clientData = Some CNull\<rparr>],
      fired = replicate 8 None, timeEventHead = [], stop = False,
      apidata = Some \<lparr>rfds = {3}, wfds = {3}, rfds_copy = {}, wfds_copy = {}\<rparr>, beforesleep = None\<rparr>"

definition five_bytes :: sendbuf where
  "five_bytes = sendbuf_init\<lparr>heap := [0 \<mapsto> \<lparr>bb_next = None, bb_buf_size = 4072, bb_buf_len = 5, bb_rptr = 0,
       bb_buf = [1, 2, 3, 4, 5] @ replicate 4067 0\<rparr>],
     bbufs := (\<lambda>fd. if fd = 3 then \<lparr>block_head = Some 0, block_tail = Some 0\<rparr> else \<lparr>block_head = None, block_tail = None\<rparr>),
     brk := 1\<rparr>"

definition two_port :: Port where
  "two_port = \<lparr>port_loop = 0, lua_on_read = [], lua_on_accept = [97], lua_on_close = [], lua_on_connect_err = [],
     lua_on_connect_suc = [], port_name = []\<rparr>"

definition two_server :: "select_state server" where
  "two_server =
     \<lparr>sv_loops = [0 \<mapsto> two_loop], sv_ports = [1 \<mapsto> two_port],
      sv_socks = (\<lambda>fd. if fd = 3 then zero_sock\<lparr>sock_port := Some 1, sock_fd := 3\<rparr> else zero_sock),
      sv_send = five_bytes, sv_recv = recvbuf_init, sv_timers = (\<lambda>_. None), sv_times = (\<lambda>_. None),
      sv_files = (\<lambda>_. \<lparr>file_read_proc = [], file_writ_proc = [], file_L = False\<rparr>), sv_brk = 2,
      self_timer_callback = None, s_timer_counter = 0, s_min_msec = INT_MAX, s_call_lua_time = 0, main_loop_ptr = Some 0\<rparr>"

lemma five_bytes_owned: "owned five_bytes (\<lambda>s. if s = Lsendbuf_Laws.Sock 3 then [0] else [])"
proof -
  have "head_of five_bytes s = (if s = Lsendbuf_Laws.Sock 3 then Some 0 else None)" for s
    by (cases s) (simp_all add: five_bytes_def sendbuf_init_def)
  moreover have "\<exists>i \<in> {12..30}. 4072 = class_size i"
    by (rule bexI [of _ 12]) (simp_all add: class_size_def SIZEOF_BBuf_Block_def)
  ultimately show ?thesis
    by (auto simp: owned_def tail_ok_def) (auto simp: five_bytes_def sendbuf_init_def block_ok_def)
qed

lemma two_server_ok: "send_ok two_server"
proof -
  have "forget (closed two_server) (sv_send two_server) = five_bytes"
    by (auto simp: forget_def closed_def two_server_def five_bytes_def zero_sock_def fun_eq_iff)
  then show ?thesis using owned_wf [OF five_bytes_owned] by (simp add: send_ok_def)
qed

lemma two_loop_ok: "loop_ok fd two_loop \<longleftrightarrow> 0 < fd \<and> fd < 8"
proof -
  have "ae_wf two_loop"
    by (auto simp: ae_wf_defs two_loop_def fe_ok_def rw_mask_def has_def AE_NONE_def AE_READABLE_def AE_WRITABLE_def
        nth_list_update dest!: in_set_conv_nth [THEN iffD1] split: if_splits)
  moreover have "agrees (select_watching two_loop ()) two_loop"
    by (auto simp: agrees_def select_watching_def two_loop_def rw_def mask_at_def AE_NONE_def AE_READABLE_def
        AE_WRITABLE_def nth_list_update)
  moreover have "select_usable two_loop" "setsize two_loop = 8" by (simp_all add: select_usable_def two_loop_def)
  ultimately show ?thesis by (auto simp: loop_ok_def FD_SETSIZE_def)
qed

lemma two_served: "served two_server 3 two_port two_loop"
  by (auto simp: served_def two_server_def two_port_def two_loop_ok bad_fd_def MAX_SOCK_def)


end
