(* ===== verification/Lport_Life.thy ===== *)
theory Lport_Life
  imports Lport_Spec Lrecvbuf_Spec
begin

text \<open>
  The life of a socket of a port: accepted or connecting, with its events registered and its
  buffers empty, then closed, with nothing left of it in the loop and the table.
\<close>

section \<open>Entering the table\<close>

text \<open>
  The receive buffer of a new socket: empty with room for 1024 bytes, or missing because \<open>malloc\<close>
  failed, which \<open>sock_create\<close> does not notice.
\<close>

definition recv_fresh :: "('a, 'w) senv \<Rightarrow> recvbuf \<Rightarrow> int \<Rightarrow> bool" where
  "recv_fresh V st fd \<longleftrightarrow>
     (if rb_buf (rbufs st fd) = None then \<not> (\<forall>n w. fst (os_malloc (se_os V) n w))
      else recvbuf_wf st \<and> recvbuf_stream st fd = [] \<and> 1024 \<le> rb_buf_len (rbufs st fd))"

lemma recvbuf_create_result:
  "recvbuf_create os st fd sz w = Some (r, st', w') \<Longrightarrow> \<forall>n w. fst (os_malloc os n w) \<Longrightarrow> r = 0"
  by (auto simp: recvbuf_create_def Let_def split: bind_splits if_splits prod.splits) (metis fst_conv)+

lemma recvbuf_create_fresh:
  assumes "recvbuf_wf st" "0 \<le> fd" "fd < RB_MAX_SOCKET" "in_int (mem_total st)"
  shows "\<exists>r st' w'. recvbuf_create (se_os V) st fd 1024 w = Some (r, st', w')
    \<and> (\<forall>fd'. fd' \<noteq> fd \<longrightarrow> rbufs st' fd' = rbufs st fd') \<and> recv_fresh V st' fd"
proof -
  obtain r st' w' where c: "recvbuf_create (se_os V) st fd 1024 w = Some (r, st', w')"
    "\<forall>fd'. fd' \<noteq> fd \<longrightarrow> rbufs st' fd' = rbufs st fd'"
    and r: "if r = 0
       then recvbuf_wf st' \<and> recvbuf_stream st' fd = [] \<and> rb_buf_len (rbufs st' fd) = max 1024 (rb_buf_len (rbufs st fd))
         \<and> mem_total st' = (if rb_buf_len (rbufs st fd) < 1024 then c_int (mem_total st + 1024) else mem_total st)
       else r = 1 \<and> rb_buf (rbufs st' fd) = None \<and> rb_buf_len (rbufs st' fd) = 0 \<and> mem_total st' = mem_total st"
    using recvbuf_create_spec [OF assms(1-3) _ _ assms(4), of 1024 "se_os V" w] by (auto simp: INT_MAX_def)
  have "recv_fresh V st' fd"
  proof (cases "r = 0")
    case True
    then have "recvbuf_wf st'" "1024 \<le> rb_buf_len (rbufs st' fd)" "recvbuf_stream st' fd = []" using r by auto
    moreover from this have "rb_buf (rbufs st' fd) \<noteq> None" by (auto simp: recvbuf_wf_def rbuf_ok_def split: option.splits)
    ultimately show ?thesis by (auto simp: recv_fresh_def)
  next
    case False
    then show ?thesis using r recvbuf_create_result [OF c(1)] by (auto simp: recv_fresh_def)
  qed
  with c show ?thesis by blast
qed

lemma sock_create_law:
  assumes wf: "send_ok sv" and fd: "\<not> bad_fd fd" and new: "closed sv fd" and rb: "recvbuf_wf (sv_recv sv)" "in_int (mem_total (sv_recv sv))"
  shows "\<exists>sv' w'. sock_create V (Some p) fd sv w = Some (0, sv', w') \<and> send_ok sv'
    \<and> sv_socks sv' = (sv_socks sv)(fd := zero_sock\<lparr>sock_port := Some p, sock_fd := fd\<rparr>)
    \<and> sv_loops sv' = sv_loops sv \<and> sv_ports sv' = sv_ports sv
    \<and> to_send sv' fd = [] \<and> (\<forall>fd'. fd' \<noteq> fd \<longrightarrow> to_send sv' fd' = to_send sv fd')
    \<and> (\<forall>fd'. fd' \<noteq> fd \<longrightarrow> rbufs (sv_recv sv') fd' = rbufs (sv_recv sv) fd')
    \<and> recv_fresh V (sv_recv sv') fd"
proof -
  let ?s = "zero_sock\<lparr>sock_port := Some p, sock_fd := fd\<rparr>" and ?nil = "\<lparr>block_head = None, block_tail = None\<rparr>"
  have fr: "0 \<le> fd" "fd < MAX_SOCKET" "fd < RB_MAX_SOCKET" using fd_ranges [OF fd] by auto
  obtain r rb' w' where c: "recvbuf_create (se_os V) (sv_recv sv) fd 1024 w = Some (r, rb', w')"
    and others: "\<forall>fd'. fd' \<noteq> fd \<longrightarrow> rbufs rb' fd' = rbufs (sv_recv sv) fd'" and fresh: "recv_fresh V rb' fd"
    using recvbuf_create_fresh [OF rb(1) fr(1,3) rb(2), of V w] by blast
  let ?sb = "set_bbuf (sv_send sv) fd ?nil"
  let ?sv = "(set_sock sv fd ?s)\<lparr>sv_recv := rb', sv_send := ?sb\<rparr>"
  have K': "closed ?sv = (closed sv)(fd := False)" by (auto simp: closed_def fun_eq_iff)
  have same: "forget (closed ?sv) ?sb = forget (closed sv) (sv_send sv)"
    unfolding K' forget_opened using new by (simp add: fun_upd_idem)
  have nil: "to_send sv fd = []"
  proof -
    have o: "owned (forget (closed sv) (sv_send sv)) (blocks_of (forget (closed sv) (sv_send sv)))"
      using wf by (simp add: send_ok_def sendbuf_wf_def)
    have "blocks_of (forget (closed sv) (sv_send sv)) (Sock fd) = []"
      using owned_chain [OF o, of "Sock fd"] new by (cases "blocks_of (forget (closed sv) (sv_send sv)) (Sock fd)") auto
    then show ?thesis by (simp add: to_send_def owned_stream [OF o])
  qed
  have "sock_create V (Some p) fd sv w = Some (0, ?sv, w')"
    using fd c fr by (simp add: sock_create_def sendbuf_create_def fd2bbuf_def Let_def)
  moreover have "send_ok ?sv" "to_send ?sv = to_send sv"
    using wf same by (simp_all add: send_ok_def to_send_def fun_eq_iff)
  ultimately show ?thesis using nil others fresh by (intro exI [of _ ?sv] exI [of _ w']) simp
qed

section \<open>Closing\<close>



section \<open>Accepting\<close>

lemma register_both_law:
  assumes api: "se_api V = select_api (se_os V)" and l: "sv_loops sv p = Some l" "loop_ok fd l"
  shows "\<exists>l'. (do { (r, sv, w) \<leftarrow> loop_create_event V p fd AE_READABLE rd ca sv w;
                 loop_create_event V p fd AE_WRITABLE wr cb sv w }) = Some (AE_OK, set_loop sv p l', w)
    \<and> loop_ok fd l' \<and> same_masks_but fd l l'
    \<and> events l' ! nat fd = registered (registered (events l ! nat fd) AE_READABLE rd ca) AE_WRITABLE wr cb"
proof -
  have ne: "AE_READABLE \<noteq> AE_NONE" "AE_WRITABLE \<noteq> AE_NONE" by (simp_all add: AE_READABLE_def AE_WRITABLE_def AE_NONE_def)
  obtain l1 where d1: "loop_create_event V p fd AE_READABLE rd ca sv w = Some (AE_OK, set_loop sv p l1, w)" "loop_ok fd l1"
    "events l1 ! nat fd = registered (events l ! nat fd) AE_READABLE rd ca" "same_masks_but fd l l1"
    using create_event_law [OF api l rw_mask_consts(2) ne(1)] by blast
  have "sv_loops (set_loop sv p l1) p = Some l1" by (simp add: set_loop_def)
  from create_event_law [OF api this d1(2) rw_mask_consts(3) ne(2), of wr cb w] obtain l2 where
    d2: "loop_create_event V p fd AE_WRITABLE wr cb (set_loop sv p l1) w = Some (AE_OK, set_loop (set_loop sv p l1) p l2, w)"
    "loop_ok fd l2" "events l2 ! nat fd = registered (events l1 ! nat fd) AE_WRITABLE wr cb" "same_masks_but fd l1 l2" by blast
  have "set_loop (set_loop sv p l1) p l2 = set_loop sv p l2" by (simp add: set_loop_def)
  then show ?thesis using d1 d2 same_masks_trans [OF d1(4) d2(4)] by (intro exI [of _ l2]) simp
qed


lemma two_recv_ok: "recvbuf_wf (sv_recv two_server)" "in_int (mem_total (sv_recv two_server))"
  by (simp_all add: two_server_def recvbuf_wf_def recvbuf_init_def rbuf_ok_def in_int_def INT_MAX_def INT_MIN_def)


section \<open>A connection that fails at once\<close>

text \<open>C31: When \<open>connect\<close> fails at once, \<open>lconnect\<close> closes the descriptor and empties the socket's entry
  but leaves both events in the loop, with handlers that follow the port of the entry: if the loop
  reports the descriptor, whatever it is then used for, the handler follows a null pointer.\<close>

theorem failed_connect_dangles:
  assumes api: "se_api V = select_api (se_os V)" and wf: "send_ok sv" "recvbuf_wf (sv_recv sv)" "in_int (mem_total (sv_recv sv))"
    and a: "to_userdata (arg a 1) = Some p" "to_cstring (arg a 2) = Some ip" "host_addr V ip w = Some (Some addr)"
    and p: "sv_ports sv p = Some port" "sv_loops sv (port_loop port) = Some l"
    and s: "net_socket (se_net V) w = (fd, w1)" "\<not> bad_fd fd" "loop_ok fd l" "closed sv fd"
    and fails: "\<forall>w. fst (fst (net_connect (se_net V) fd addr (c_ushort (to_number (arg a 3))) w)) < 0
      \<and> snd (fst (net_connect (se_net V) fd addr (c_ushort (to_number (arg a 3))) w)) \<noteq> EINPROGRESS"
  shows "\<exists>sv' w' l'. lconnect V a sv w = Some (([], 0), sv', w') \<and> closed sv' fd
    \<and> sv_loops sv' (port_loop port) = Some l'
    \<and> events l' ! nat fd = registered (registered (events l ! nat fd) AE_READABLE Port_on_connect_err CNull) AE_WRITABLE Port_on_connect_suc CNull
    \<and> (\<forall>w. port_on_connect_err V fd sv' w = None \<and> port_on_connect_suc V fd sv' w = None)"
proof -
  from sock_create_law [OF wf(1) s(2,4) wf(2,3), of V p w1] obtain sv1 w2 where
    c: "sock_create V (Some p) fd sv w1 = Some (0, sv1, w2)" "send_ok sv1"
    "sv_socks sv1 = (sv_socks sv)(fd := zero_sock\<lparr>sock_port := Some p, sock_fd := fd\<rparr>)"
    "sv_loops sv1 = sv_loops sv" "sv_ports sv1 = sv_ports sv" by blast
  let ?w = "net_nonblock (se_net V) fd w2"
  have "sv_loops sv1 (port_loop port) = Some l" using p(2) c(4) by simp
  from register_both_law [OF api this s(3), where rd = Port_on_connect_err and ca = CNull and wr = Port_on_connect_suc and cb = CNull and w = ?w]
  obtain l' where
    r: "(do { (r, sv, w) \<leftarrow> loop_create_event V (port_loop port) fd AE_READABLE Port_on_connect_err CNull sv1 ?w;
            loop_create_event V (port_loop port) fd AE_WRITABLE Port_on_connect_suc CNull sv w }) = Some (AE_OK, set_loop sv1 (port_loop port) l', ?w)"
    and l': "events l' ! nat fd = registered (registered (events l ! nat fd) AE_READABLE Port_on_connect_err CNull) AE_WRITABLE Port_on_connect_suc CNull"
    by blast
  let ?sv = "set_loop sv1 (port_loop port) l'"
  from r obtain r1 sv2 w3 where
    r1: "loop_create_event V (port_loop port) fd AE_READABLE Port_on_connect_err CNull sv1 ?w = Some (r1, sv2, w3)"
    and r2: "loop_create_event V (port_loop port) fd AE_WRITABLE Port_on_connect_suc CNull sv2 w3 = Some (AE_OK, ?sv, ?w)"
    by (auto split: bind_splits)
  have ok: "send_ok ?sv" using c(2) by (simp add: send_ok_def) (simp add: set_loop_def)
  have live: "\<not> closed ?sv fd" using c(3) by (simp add: closed_def set_loop_def)
  from sock_free_law [OF ok s(2) live] obtain sv' where
    f: "sock_free fd ?sv = Some (0, sv')" "sv_socks sv' = (sv_socks ?sv)(fd := zero_sock)" "sv_loops sv' = sv_loops ?sv" by blast
  obtain rt err w4 where k: "net_connect (se_net V) fd addr (c_ushort (to_number (arg a 3))) ?w = ((rt, err), w4)" by (metis surj_pair)
  then have rt: "rt < 0" "err \<noteq> EINPROGRESS" using fails by (metis fst_conv snd_conv)+
  have "0 \<le> fd" using s(2) by (simp add: bad_fd_def)
  then have "lconnect V a sv w = Some (([], 0), sv', os_close (se_os V) fd w4)"
    using a s(1) c(1,5) p(1) r1 r2 k rt f(1) by (simp add: lconnect_def)
  moreover have "sock_port (sv_socks sv' fd) = None" using f(2) by (simp add: zero_sock_def)
  then have "sock_port_at sv' fd = None" by (simp add: sock_port_at_def fd2sock_def)
  then have "port_on_connect_err V fd sv' w = None \<and> port_on_connect_suc V fd sv' w = None" for w
    by (simp add: port_on_connect_err_def port_on_connect_suc_def)
  ultimately show ?thesis
    using l' f by (intro exI [of _ sv'] exI [of _ "os_close (se_os V) fd w4"] exI [of _ l']) (simp add: set_loop_def closed_def zero_sock_def)
qed

definition call_args :: lua_args where
  "call_args = \<lparr>gettop = 3, arg = (\<lambda>i. \<lparr>is_number = True, to_number = 80, is_string = True, to_cstring = Some [49],
     is_userdata = True, to_userdata = Some 1\<rparr>)\<rparr>"

theorem failed_connect_dangles_witness:
  "\<exists>sv' w' l'. lconnect two_env call_args two_server [] = Some (([], 0), sv', w') \<and> closed sv' 5
    \<and> sv_loops sv' (port_loop two_port) = Some l'
    \<and> events l' ! nat 5 = registered (registered (events two_loop ! nat 5) AE_READABLE Port_on_connect_err CNull) AE_WRITABLE Port_on_connect_suc CNull
    \<and> (\<forall>w. port_on_connect_err two_env 5 sv' w = None \<and> port_on_connect_suc two_env 5 sv' w = None)"
  by (rule failed_connect_dangles [OF _ two_server_ok two_recv_ok, where p = 1 and ip = "[49]" and addr = 1])
    (simp_all add: two_env_def two_net_def two_loop_ok bad_fd_def MAX_SOCK_def closed_def host_addr_def call_args_def EINPROGRESS_def,
     simp_all add: two_server_def two_port_def zero_sock_def)

end
