(* ===== verification/Server_Spec.thy ===== *)
theory Server_Spec
  imports Server_Laws Lport_Life
begin

text \<open>
  The server as a state machine: every event handler and every binding is a step. The laws of the
  loop hold on the select and on the epoll layer, so along any run the loops stay well-formed.
\<close>

section \<open>The laws on the two layers\<close>

definition select_loop :: "select_state server_loop \<Rightarrow> bool" where
  "select_loop l \<longleftrightarrow> ae_wf l \<and> select_usable l \<and> agrees (select_watching l ()) l"

definition epoll_loop :: "epoll_state server_loop \<Rightarrow> bool" where
  "epoll_loop l \<longleftrightarrow> ae_wf l"

lemma ae_wf_timer_list:
  assumes "ae_wf l" "subseq (map te_id ts) (map te_id (timeEventHead l))"
  shows "ae_wf (l\<lparr>timeEventHead := ts\<rparr>)"
proof (rule ae_wf_timers [OF assms(1)])
  have "distinct (map te_id ts)" "te_id ` set ts \<subseteq> te_id ` set (timeEventHead l)"
    using assms(1) subseq_ids [OF assms(2)] by (simp_all add: ae_wf_def timers_ok_def)
  then show "timers_ok (l\<lparr>timeEventHead := ts\<rparr>)" using assms(1) by (auto simp: ae_wf_def timers_ok_def)
qed simp_all

lemma ae_wf_flags: "ae_wf l \<Longrightarrow> ae_wf (l\<lparr>lastTime := t\<rparr>)" "ae_wf l \<Longrightarrow> ae_wf (l\<lparr>stop := b\<rparr>)"
  by (auto intro: ae_wf_cong)

lemma select_loop_same:
  "select_loop l \<Longrightarrow> ae_wf l' \<Longrightarrow> apidata l' = apidata l \<Longrightarrow> events l' = events l \<Longrightarrow> select_loop l'"
  by (simp add: select_loop_def select_usable_def agrees_def select_watching_def mask_at_def)

lemma select_poll_same:
  assumes "api_poll (select_api os) l tv w = Some (n, l', w')"
  shows "events l' = events l \<and> select_watching l' v = select_watching l v \<and> apidata l' \<noteq> None"
proof -
  have p: "select_aeApiPoll os l tv w = Some (n, l', w')" using assms by (simp add: select_api_def)
  then show ?thesis
  proof (rule select_poll_Some)
    fix st rs ws rv l1
    assume st: "apidata l = Some st" and l1: "l1 = l\<lparr>apidata := Some (st\<lparr>rfds_copy := rs, wfds_copy := ws\<rparr>)\<rparr>"
      and c: "if 0 < rv then 0 \<le> n \<and> select_scan rs ws 0 (nat (maxfd l + 1)) 0 l1 = Some (nat n, l') else n = 0 \<and> l' = l1"
    have "events l' = events l1 \<and> apidata l' = apidata l1"
    proof (cases "0 < rv")
      case True
      with c have "select_scan rs ws 0 (nat (maxfd l + 1)) 0 l1 = Some (nat n, l')" by simp
      from select_scan_frame [OF this] show ?thesis by auto
    qed (use c in simp)
    then show ?thesis using st l1 by (auto simp: select_watching_def fun_eq_iff)
  qed
qed

interpretation select_laws: loop_laws "os :: 'w os" "select_api os" select_loop for os :: "'w os"
proof
  fix l l' :: "select_state server_loop" and sz fd m proc cd r ms tp fin i tv n ts t b and w w' :: 'w
  show "select_loop l" if c: "aeCreateEventLoop os (select_api os) sz w = (Some l, w')" "0 \<le> sz"
  proof -
    note sc = select_create_usable [OF c(1)]
    have "select_usable l" using sc [of "()" 0] by blast
    moreover have "select_watching l () i = AE_NONE" for i using sc [of "()" i] by blast
    ultimately show ?thesis using select.create_loop_wf [OF c] by (auto simp: select_loop_def agrees_def ae_wf_def arrays_ok_def)
  qed
  show "select_loop l'" if run: "aeCreateFileEvent (select_api os) l fd m proc cd w = Some (r, l', w')"
    and l: "select_loop l" and m: "rw_mask m" "m \<noteq> AE_NONE"
  proof -
    have wf: "ae_wf l" and s: "select.synced l w" and us: "select_usable l"
      using l agrees_world [of l w "()"] by (simp_all add: select_loop_def select_agrees)
    have "select.synced l' w'" using wf s m(1) run by (rule select.create_file_event_synced)
    then show ?thesis
      using select.create_file_event_wf [OF wf m run] select_create_usable' [OF run us] agrees_world [of l' w' "()"]
      by (simp add: select_loop_def select_agrees)
  qed
  show "select_loop l'" if run: "aeDeleteFileEvent (select_api os) l fd m w = Some (l', w')" and l: "select_loop l"
  proof -
    have wf: "ae_wf l" and s: "select.synced l w" and us: "select_usable l"
      using l agrees_world [of l w "()"] by (simp_all add: select_loop_def select_agrees)
    have "select.synced l' w'" using wf s run by (rule select.delete_file_event_synced)
    then show ?thesis
      using select.delete_file_event_wf [OF wf run] select_delete_usable [OF run us] agrees_world [of l' w' "()"]
      by (simp add: select_loop_def select_agrees)
  qed
  show "select_loop l'" if run: "aeCreateTimeEvent os l ms tp cd fin w = (i, l', w')" and l: "select_loop l"
  proof -
    have "apidata l' = apidata l \<and> events l' = events l"
      by (rule create_time_event_cases [of os l ms tp cd fin w]) (use run in auto)
    then show ?thesis using l create_time_event_wf [OF _ run] by (metis select_loop_same select_loop_def)
  qed
  show "select_loop l'" if run: "api_poll (select_api os) l tv w = Some (n, l', w')" and l: "select_loop l"
    using select_poll_same [OF run, of "()"] select.poll_wf [OF _ run] l
    by (auto simp: select_loop_def select_usable_def agrees_def mask_at_def)
  show "select_loop (l\<lparr>timeEventHead := ts\<rparr>)" if "select_loop l" "subseq (map te_id ts) (map te_id (timeEventHead l))"
    using that ae_wf_timer_list [of l ts] by (intro select_loop_same [OF that(1)]) (simp_all add: select_loop_def)
  show "select_loop l \<Longrightarrow> select_loop (l\<lparr>lastTime := t\<rparr>)" "select_loop l \<Longrightarrow> select_loop (l\<lparr>stop := b\<rparr>)"
    by (simp_all add: select_loop_def select_usable_def agrees_def select_watching_def mask_at_def ae_wf_flags)
qed

interpretation epoll_laws: loop_laws "os :: 'w os" "epoll_api os" epoll_loop for os :: "'w os"
proof
  fix l l' :: "epoll_state server_loop" and sz fd m proc cd r ms tp fin i tv n ts t b and w w' :: 'w
  show "epoll_loop l" if "aeCreateEventLoop os (epoll_api os) sz w = (Some l, w')" "0 \<le> sz"
    using epoll.create_loop_wf [OF that] by (simp add: epoll_loop_def)
  show "epoll_loop l'" if "aeCreateFileEvent (epoll_api os) l fd m proc cd w = Some (r, l', w')" "epoll_loop l" "rw_mask m" "m \<noteq> AE_NONE"
    using that epoll.create_file_event_wf by (auto simp: epoll_loop_def)
  show "epoll_loop l'" if "aeDeleteFileEvent (epoll_api os) l fd m w = Some (l', w')" "epoll_loop l"
    using that epoll.delete_file_event_wf by (auto simp: epoll_loop_def)
  show "epoll_loop l'" if "aeCreateTimeEvent os l ms tp cd fin w = (i, l', w')" "epoll_loop l"
    using that create_time_event_wf by (auto simp: epoll_loop_def)
  show "epoll_loop l'" if "api_poll (epoll_api os) l tv w = Some (n, l', w')" "epoll_loop l"
    using that epoll.poll_wf by (auto simp: epoll_loop_def)
  show "epoll_loop (l\<lparr>timeEventHead := ts\<rparr>)" if "epoll_loop l" "subseq (map te_id ts) (map te_id (timeEventHead l))"
    using that ae_wf_timer_list by (simp add: epoll_loop_def)
  show "epoll_loop l \<Longrightarrow> epoll_loop (l\<lparr>lastTime := t\<rparr>)" "epoll_loop l \<Longrightarrow> epoll_loop (l\<lparr>stop := b\<rparr>)"
    using ae_wf_flags by (auto simp: epoll_loop_def)
qed

section \<open>The steps\<close>

text \<open>
  A step is an event the loop reports, a timer that fires, or a binding that a script calls, the ones
  that run a loop included; besides, the buffers and the world may change. A loop is created with
  a size that is not negative, and file events with some of the two conditions.
\<close>

inductive server_step :: "('a, 'w) senv \<Rightarrow> 'a server \<times> 'w \<Rightarrow> 'a server \<times> 'w \<Rightarrow> bool" for V where
  on_file: "file_handler V f fd cd m sv w = Some (sv', w') \<Longrightarrow> server_step V (sv, w) (sv', w')"
| on_timer: "time_handler V f i cd sv w = Some (r, sv', w') \<Longrightarrow> server_step V (sv, w) (sv', w')"
| on_final: "final_handler V f cd sv w = Some (sv', w') \<Longrightarrow> server_step V (sv, w) (sv', w')"
| new_loop: "ae_lcreate V a sv w = (x, sv', w') \<Longrightarrow> 0 \<le> c_int (to_number (arg a 1)) \<Longrightarrow> server_step V (sv, w) (sv', w')"
| free_loop: "ae_lfree V a sv w = Some (x, sv', w') \<Longrightarrow> server_step V (sv, w) (sv', w')"
| stop_loop: "ae_lstop a sv = Some (x, sv') \<Longrightarrow> server_step V (sv, w) (sv', w)"
| main_l: "lmain V a sv w = Some (x, sv', w') \<Longrightarrow> server_step V (sv, w) (sv', w')"
| once_l: "lrun_once V a sv w = Some (x, sv', w') \<Longrightarrow> server_step V (sv, w) (sv', w')"
| process_l: "lprocess_events V a sv w = Some (x, sv', w') \<Longrightarrow> server_step V (sv, w) (sv', w')"
| create_event: "lcreate_file_event V a sv w = Some (x, sv', w') \<Longrightarrow> rw_mask (word_of_int (to_number (arg a 3))) \<Longrightarrow>
    word_of_int (to_number (arg a 3)) \<noteq> AE_NONE \<Longrightarrow> server_step V (sv, w) (sv', w')"
| delete_event: "ldelete_file_event V a sv w = Some (x, sv', w') \<Longrightarrow> server_step V (sv, w) (sv', w')"
| create_timer: "lcreate_time_event V a sv w = Some (x, sv', w') \<Longrightarrow> server_step V (sv, w) (sv', w')"
| delete_timer: "ldelete_time_event V a sv w = Some (x, sv', w') \<Longrightarrow> server_step V (sv, w) (sv', w')"
| add_timer: "laddtimer V a sv w = Some (x, sv', w') \<Longrightarrow> server_step V (sv, w) (sv', w')"
| add_self: "laddselftimer V a sv w = Some (x, sv', w') \<Longrightarrow> server_step V (sv, w) (sv', w')"
| stop_self: "lstopselftimer V a sv w = Some (x, sv', w') \<Longrightarrow> server_step V (sv, w) (sv', w')"
| self_loop: "lsetselftimerloop a sv = Some (x, sv') \<Longrightarrow> server_step V (sv, w) (sv', w)"
| new_port: "port_lcreate V a sv w = Some (x, sv', w') \<Longrightarrow> server_step V (sv, w) (sv', w')"
| free_port: "port_lfree V a sv w = Some (x, sv', w') \<Longrightarrow> server_step V (sv, w) (sv', w')"
| callback: "set_callback upd n a sv = Some (x, sv') \<Longrightarrow> server_step V (sv, w) (sv', w)"
| listen: "llisten V a sv w = Some (x, sv', w') \<Longrightarrow> server_step V (sv, w) (sv', w')"
| connect: "lconnect V a sv w = Some (x, sv', w') \<Longrightarrow> server_step V (sv, w) (sv', w')"
| syncconnect: "lsyncconnect V a sv w = Some (x, sv', w') \<Longrightarrow> server_step V (sv, w) (sv', w')"
| close: "lclose V a sv w = Some (x, sv', w') \<Longrightarrow> server_step V (sv, w) (sv', w')"
| shut: "lshutdown V a sv w = Some (x, sv', w') \<Longrightarrow> server_step V (sv, w) (sv', w')"
| add_write: "ladd_write_event V a sv w = Some (x, sv', w') \<Longrightarrow> server_step V (sv, w) (sv', w')"
| remove_write: "lremove_write_event V a sv w = Some (x, sv', w') \<Longrightarrow> server_step V (sv, w) (sv', w')"
| set_uid: "lsetuid a sv = (x, sv') \<Longrightarrow> server_step V (sv, w) (sv', w)"
| set_userdata: "lsetuserdata a sv = (x, sv') \<Longrightarrow> server_step V (sv, w) (sv', w)"
| buffers: "server_step V (sv, w) (sv\<lparr>sv_send := sb, sv_recv := rb\<rparr>, w)"
| world: "server_step V (sv, w) (sv, w')"

context loop_laws
begin

text \<open>The bindings that do not touch a loop.\<close>

lemma plain_keeps:
  "port_lcreate V a sv w = Some (x, sv', w') \<Longrightarrow> all_loops I sv \<Longrightarrow> all_loops I sv'"
  "port_lfree V a sv w = Some (x, sv', w') \<Longrightarrow> all_loops I sv \<Longrightarrow> all_loops I sv'"
  "set_callback upd n a sv = Some (x, sv') \<Longrightarrow> all_loops I sv \<Longrightarrow> all_loops I sv'"
  "lsetselftimerloop a sv = Some (x, sv') \<Longrightarrow> all_loops I sv \<Longrightarrow> all_loops I sv'"
  "lsetuid a sv = (x, sv') \<Longrightarrow> all_loops I sv \<Longrightarrow> all_loops I sv'"
  "lsetuserdata a sv = (x, sv') \<Longrightarrow> all_loops I sv \<Longrightarrow> all_loops I sv'"
  by (auto simp: port_lcreate_def port_lfree_def set_callback_def lsetselftimerloop_def lsetuid_def lsetuserdata_def Let_def
      split: option.splits if_splits bind_splits prod.splits)

lemma server_step_keeps:
  assumes "server_step V (sv, w) (sv', w')" "se_os V = os" "se_api V = api" "scripts_keep I V" "all_loops I sv"
  shows "all_loops I sv'"
  using assms(1)
proof (cases rule: server_step.cases)
  case on_file then show ?thesis using assms(2-) by (metis file_handler_keeps)
next
  case on_timer then show ?thesis using assms(2-) by (metis time_handler_keeps)
next
  case on_final then show ?thesis using assms(2-) by (metis final_handler_keeps)
next
  case new_loop then show ?thesis using assms(2-) by (metis ae_create_keeps)
next
  case free_loop then show ?thesis using assms(2-) by (metis ae_free_keeps)
next
  case stop_loop then show ?thesis using assms(2-) by (metis ae_stop_keeps)
next
  case main_l then show ?thesis using assms(2-) by (metis main_keeps)
next
  case once_l then show ?thesis using assms(2-) by (metis run_once_keeps)
next
  case process_l then show ?thesis using assms(2-) by (metis process_keeps)
next
  case create_event then show ?thesis using assms(2-) by (metis create_file_keeps)
next
  case delete_event then show ?thesis using assms(2-) by (metis delete_file_keeps)
next
  case create_timer then show ?thesis using assms(2-) by (metis time_event_keeps)
next
  case delete_timer then show ?thesis using assms(2-) by (metis delete_time_keeps)
next
  case add_timer then show ?thesis using assms(2-) by (metis addtimer_keeps)
next
  case add_self then show ?thesis using assms(2-) by (metis addselftimer_keeps)
next
  case stop_self then show ?thesis using assms(2-) by (metis stop_timer_keeps)
next
  case self_loop then show ?thesis using assms(2-) by (metis plain_keeps(4))
next
  case new_port then show ?thesis using assms(2-) by (metis plain_keeps(1))
next
  case free_port then show ?thesis using assms(2-) by (metis plain_keeps(2))
next
  case callback then show ?thesis using assms(2-) by (metis plain_keeps(3))
next
  case listen then show ?thesis using assms(2-) by (metis listen_keeps)
next
  case connect then show ?thesis using assms(2-) by (metis connect_keeps)
next
  case syncconnect then show ?thesis using assms(2-) by (metis syncconnect_keeps)
next
  case close then show ?thesis using assms(2-) by (metis close_keeps)
next
  case shut then show ?thesis using assms(2-) by (metis shutdown_keeps)
next
  case add_write then show ?thesis using assms(2-) by (metis write_event_keeps(1))
next
  case remove_write then show ?thesis using assms(2-) by (metis write_event_keeps(2))
next
  case set_uid then show ?thesis using assms(2-) by (metis plain_keeps(5))
next
  case set_userdata then show ?thesis using assms(2-) by (metis plain_keeps(6))
qed (use assms(5) in simp_all)

lemma server_run_keeps:
  assumes "(server_step V)\<^sup>*\<^sup>* s s'" "se_os V = os" "se_api V = api" "scripts_keep I V" "all_loops I (fst s)"
  shows "all_loops I (fst s')"
  using assms(1,5)
proof (induction rule: rtranclp_induct)
  case (step y z)
  then show ?case using server_step_keeps [of V "fst y" "snd y" "fst z" "snd z"] assms(2-4) by simp
qed

end

section \<open>Runs of a server\<close>

text \<open>C5: The loops of a server on the select layer stay well-formed: along any sequence of events, timers and
  calls of the bindings, from any state in which they are, every loop has consistent arrays, the
  highest descriptor right, handlers for all the conditions it waits for and distinct timers, and
  its layer watches exactly the registered conditions, as long as the callbacks of the scripts
  leave the loops so themselves.\<close>

theorem server_loops_wf:
  assumes api: "se_api V = select_api (se_os V)" and scripts: "scripts_keep select_loop V"
    and start: "all_loops select_loop sv" and run: "(server_step V)\<^sup>*\<^sup>* (sv, w) (sv', w')"
  shows "all_loops select_loop sv'"
  using select_laws.server_run_keeps [OF run _ api scripts] start by simp

theorem server_loops_wf_witness:
  "\<exists>sv1 sv2 x y. ae_lcreate two_env call_args server_init [] = (x, sv1, []) \<and> sv_loops sv1 0 \<noteq> None
    \<and> ae_lstop (call_args\<lparr>arg := (\<lambda>i. (arg call_args i)\<lparr>to_userdata := Some 0\<rparr>)\<rparr>) sv1 = Some (y, sv2)
    \<and> sv_loops sv2 0 \<noteq> None \<and> all_loops select_loop sv2"
proof -
  let ?a = "call_args\<lparr>arg := (\<lambda>i. (arg call_args i)\<lparr>to_userdata := Some 0\<rparr>)\<rparr>"
  have "\<exists>x sv1. ae_lcreate two_env call_args server_init [] = (x, sv1, []) \<and> sv_loops sv1 0 \<noteq> None"
    by (simp add: ae_lcreate_def two_env_def quiet_os_def aeCreateEventLoop_def select_api_def select_aeApiCreate_def
        call_args_def server_init_def Let_def set_loop_def split: if_splits)
  then obtain x sv1 where c: "ae_lcreate two_env call_args server_init [] = (x, sv1, [])" "sv_loops sv1 0 \<noteq> None" by blast
  then obtain y sv2 where d: "ae_lstop ?a sv1 = Some (y, sv2)" "sv_loops sv2 0 \<noteq> None"
    by (auto simp: ae_lstop_def set_loop_def call_args_def)
  have "0 \<le> c_int (to_number (arg call_args 1))" by (simp add: call_args_def c_int_def signed_take_bit_eq_take_bit_shift take_bit_eq_mod)
  then have "server_step two_env (server_init, []) (sv1, [])" using c(1) by (rule server_step.new_loop [rotated])
  moreover have "server_step two_env (sv1, []) (sv2, [])" using d(1) by (rule server_step.stop_loop)
  ultimately have run: "(server_step two_env)\<^sup>*\<^sup>* (server_init, []) (sv2, [])" by simp
  have "all_loops select_loop sv2"
    by (rule server_loops_wf [OF _ _ _ run])
      (auto simp: two_env_def scripts_keep_def all_loops_def server_init_def)
  with c d show ?thesis by blast
qed

end
