(* ===== verification/Ltimer_Spec.thy ===== *)
theory Ltimer_Spec
  imports Lae Ae_Laws
begin

text \<open>
  Lua timers come and go: what adding one leaves in the loop and in the tables, and what the two
  ways of removing it take away.
\<close>

lemma unlink_new: "te_id te = i \<Longrightarrow> unlink i (te # ts) = Some (te, ts)"
  by simp

text \<open>Removing the timer at the head of the list, with its data.\<close>

lemma delete_head:
  assumes l: "sv_loops sv p = Some l" "timeEventHead l = te # ts" "te_id te = i"
    and te: "finalizerProc te = Some Timer_finalizer_proc" "te_clientData te = CTimer t" and td: "sv_timers sv t = Some td"
  shows "\<exists>w'. delete_timer V p i sv w = Some (AE_OK,
    (set_loop sv p (l\<lparr>timeEventHead := ts\<rparr>))\<lparr>sv_timers := (sv_timers sv)(t := None), s_timer_counter := s_timer_counter sv - 1\<rparr>, w')"
proof -
  let ?l = "l\<lparr>timeEventHead := ts\<rparr>"
  let ?sv = "(set_loop sv p ?l)\<lparr>sv_timers := (sv_timers sv)(t := None), s_timer_counter := s_timer_counter sv - 1\<rparr>"
  have "timer_finalizer_proc V (CTimer t) (set_loop sv p ?l) w = Some (?sv, os_free (se_os V) w)"
    using td by (simp add: timer_finalizer_proc_def set_loop_def)
  then have "call_final (server_procs V p) Timer_finalizer_proc ?l (CTimer t) (sv, w) = Some (?l, ?sv, os_free (se_os V) w)"
    by (simp add: server_procs_def final_handler_def resume_def) (simp add: set_loop_def)
  then have "aeDeleteTimeEvent (server_os (se_os V)) (server_procs V p) l i (sv, w)
      = Some (AE_OK, ?l, ?sv, os_free (se_os V) (os_free (se_os V) w))"
    using l te by (simp add: aeDeleteTimeEvent_def server_os_def)
  moreover have "set_loop ?sv p ?l = ?sv" by (simp add: set_loop_def)
  ultimately show ?thesis using l(1) by (simp add: delete_timer_def)
qed

definition stop_args :: "nat \<Rightarrow> int \<Rightarrow> lua_args" where
  "stop_args p i = \<lparr>gettop = 2, arg = (\<lambda>k. \<lparr>is_number = (k = 2), to_number = i, is_string = False, to_cstring = None,
     is_userdata = (k = 1), to_userdata = Some p\<rparr>)\<rparr>"


definition timer_args :: lua_args where
  "timer_args = \<lparr>gettop = 3, arg = (\<lambda>k. \<lparr>is_number = True, to_number = 50, is_string = True, to_cstring = Some [116],
     is_userdata = True, to_userdata = Some 0\<rparr>)\<rparr>"

definition timer_env :: "(unit, int) senv" where
  "timer_env =
     \<lparr>se_os =
        \<lparr>os_malloc = (\<lambda>n w. (True, w)), os_free = (\<lambda>w. w), os_junk = (\<lambda>w i. 0), os_time = (\<lambda>w. (w, w)),
         os_gettimeofday = (\<lambda>w. ((w, 0), w)), os_select = (\<lambda>n r s tv w. ((0, {}, {}), w)), os_epoll_create = (\<lambda>w. (4, w)),
         os_epoll_ctl = (\<lambda>ep op fd e w. (0, w)), os_epoll_wait = (\<lambda>ep n t w. ((0, []), w)),
         os_poll = (\<lambda>fd e t w. ((0, e), w)), os_close = (\<lambda>fd w. w)\<rparr>,
      se_api =
        \<lparr>api_create = (\<lambda>l w. (0, l, w)), api_free = (\<lambda>l w. Some w), api_add = (\<lambda>l fd m w. Some (0, l, w)),
         api_del = (\<lambda>l fd m w. Some (l, w)), api_poll = (\<lambda>l tv w. Some (0, l, w)), api_name = ''none''\<rparr>,
      se_net =
        \<lparr>net_send = (\<lambda>fd bs w. ((0, 0), w)), net_recv = (\<lambda>fd n w. ((0, 0, []), w)), net_accept = (\<lambda>fd w. (- 1, w)),
         net_socket = (\<lambda>w. (- 1, w)), net_reuse = (\<lambda>fd w. w), net_bind = (\<lambda>fd q w. (0, w)), net_listen = (\<lambda>fd n w. (0, w)),
         net_connect = (\<lambda>fd ad q w. ((0, 0), w)), net_shutdown = (\<lambda>fd w. w), net_nonblock = (\<lambda>fd w. w),
         net_peer = (\<lambda>fd w. ([], 0)), net_inet_addr = (\<lambda>s. None), net_gethostbyname = (\<lambda>s w. None), net_strerror = (\<lambda>w. [])\<rparr>,
      lua_global = (\<lambda>w. \<lparr>nm_global = (\<lambda>s. Some (LuaFunction 0)), nm_index = (\<lambda>v s. None)\<rparr>), lua_run = (\<lambda>f args sv w. Some (Some 0, sv, w))\<rparr>"

definition timer_loop :: "unit server_loop" where
  "timer_loop =
     \<lparr>maxfd = - 1, setsize = 0, timeEventNextId = 7, lastTime = 0, events = [], fired = [], timeEventHead = [],
      stop = False, apidata = None, beforesleep = None\<rparr>"


end
