(* ===== verification/Decimal.thy ===== *)
theory Decimal
  imports Prelude
begin

text \<open>
  Decimal numbers as \<open>printf\<close> writes them and \<open>atoi\<close> reads them.
\<close>

section \<open>Writing\<close>

text \<open>The bytes of a string literal.\<close>

definition ascii :: "string \<Rightarrow> byte list" where
  "ascii s = map (\<lambda>c. of_char c) s"

fun digits :: "nat \<Rightarrow> byte list" where
  "digits n = (if n < 10 then [48 + of_nat n] else digits (n div 10) @ [48 + of_nat (n mod 10)])"

declare digits.simps [simp del]

text \<open>The conversion \<open>%d\<close>.\<close>

definition show_int :: "int \<Rightarrow> byte list" where
  "show_int x = (if x < 0 then 45 # digits (nat (- x)) else digits (nat x))"

text \<open>The conversion \<open>%2.2x\<close>.\<close>

definition hex_digit :: "int \<Rightarrow> byte" where
  "hex_digit n = word_of_int (if n < 10 then 48 + n else 87 + n)"

definition hex2 :: "byte \<Rightarrow> byte list" where
  "hex2 b = [hex_digit (uint b div 16), hex_digit (uint b mod 16)]"

section \<open>Reading\<close>

definition is_dig :: "byte \<Rightarrow> bool" where
  "is_dig c \<longleftrightarrow> 48 \<le> c \<and> c \<le> 57"

definition dig_val :: "byte \<Rightarrow> int" where
  "dig_val c = uint c - 48"

text \<open>The value of a list of digits.\<close>

definition digs_val :: "int \<Rightarrow> byte list \<Rightarrow> int" where
  "digs_val = foldl (\<lambda>n c. n * 10 + dig_val c)"

lemma digit_byte [simp]: "n < 10 \<Longrightarrow> is_dig (48 + of_nat n)" "n < 10 \<Longrightarrow> dig_val (48 + of_nat n) = int n"
proof -
  assume n: "n < 10"
  have "(48 + of_nat n :: byte) = word_of_int (48 + int n)" by simp
  then have "uint (48 + of_nat n :: byte) = 48 + int n" using n by (simp only: uint_word_of_int) simp
  then show "is_dig (48 + of_nat n)" "dig_val (48 + of_nat n) = int n"
    using n by (simp_all add: is_dig_def dig_val_def word_le_def)
qed

lemma digits_not_empty [simp]: "digits n \<noteq> []"
  by (subst digits.simps) simp

lemma digits_are_digits: "list_all is_dig (digits n)"
proof (induction n rule: digits.induct)
  case (1 n)
  then show ?case by (subst digits.simps) simp
qed

lemma digs_val_append [simp]: "digs_val a (xs @ ys) = digs_val (digs_val a xs) ys"
  by (simp add: digs_val_def)

lemma digs_val_simps [simp]: "digs_val a [] = a" "digs_val a (c # cs) = digs_val (a * 10 + dig_val c) cs"
  by (simp_all add: digs_val_def)

lemma digs_val_digits: "digs_val 0 (digits n) = int n"
proof (induction n rule: digits.induct)
  case (1 n)
  then show ?case by (subst digits.simps) (auto simp: zdiv_int zmod_int)
qed

lemma hd_digits: "0 < n \<Longrightarrow> hd (digits n) \<noteq> 48"
proof (induction n rule: digits.induct)
  case (1 n)
  show ?case
  proof (cases "n < 10")
    case True
    have "dig_val (48 + of_nat n) = int n" using True by simp
    then have "(48 + of_nat n :: byte) \<noteq> 48" using 1(2) by (auto simp: dig_val_def)
    then show ?thesis using True by (subst digits.simps) simp
  next
    case False
    then show ?thesis using 1 by (subst digits.simps) (simp add: hd_append)
  qed
qed

lemma digits_zero: "digits 0 = [48]"
  by (subst digits.simps) simp

lemma digits_length: "n < 10 ^ Suc k \<Longrightarrow> length (digits n) \<le> Suc k"
proof (induction k arbitrary: n)
  case 0
  then show ?case by (subst digits.simps) simp
next
  case (Suc k)
  have "n div 10 < 10 ^ Suc k" using Suc.prems by (simp add: less_mult_imp_div_less mult.commute)
  then show ?case using Suc.IH [of "n div 10"] by (subst digits.simps) auto
qed

lemma digits_long: "10 ^ k \<le> n \<Longrightarrow> k < length (digits n)"
proof (induction k arbitrary: n)
  case (Suc k)
  then have "10 ^ k \<le> n div 10" by (simp add: less_eq_div_iff_mult_less_eq mult.commute)
  moreover have "\<not> n < 10" using Suc.prems le_trans [of 10 "10 ^ Suc k" n] by simp
  ultimately show ?case using Suc.IH [of "n div 10"] by (subst digits.simps) simp
qed simp

end
