(* ===== verification/Log.thy ===== *)
theory Log
  imports Decimal Lua_Args "HOL-Library.Monad_Syntax"
begin

text \<open>
  The log, \<open>src/3rd/common/log.c\<close>, and its Lua bindings, \<open>src/src/log/llog.cc\<close>: levels, counters,
  lines on the standard output, and the rotation of the log file and of the statistics file. What
  \<open>printf\<close> makes of a format and its arguments is the text that is passed here.
\<close>

section \<open>Levels and state\<close>

definition ERROR :: int where "ERROR = 0"
definition WARN :: int where "WARN = 1"
definition LOG :: int where "LOG = 2"
definition MSG :: int where "MSG = 3"
definition DEBUG :: int where "DEBUG = 4"
definition STAT :: int where "STAT = 5"

definition s_level_msg :: "byte list list" where
  "s_level_msg = map ascii [''ERROR'', ''WARN'', ''LOG'', ''MSG'', ''DEBUG'', ''STAT'']"

definition FILENAME_MAX :: nat where "FILENAME_MAX = 4096"

record log_state =
  s_log_flag :: "32 word"
  s_error_counter :: int
  s_warn_counter :: int
  s_log_file :: int
  s_log_file_counter :: int
  s_log_file_max_linenum :: int
  s_log_file_name :: "byte list"
  s_log_file_dir :: "byte list"
  s_stat_file :: "nat option"
  s_stat_file_counter :: int
  s_stat_file_max_linenum :: int
  s_stat_file_name :: "byte list"
  s_stat_file_dir :: "byte list"

definition log_init :: log_state where
  "log_init =
     \<lparr>s_log_flag = - 1, s_error_counter = 0, s_warn_counter = 0, s_log_file = 0, s_log_file_counter = 0,
      s_log_file_max_linenum = 10000, s_log_file_name = [], s_log_file_dir = [], s_stat_file = None,
      s_stat_file_counter = 0, s_stat_file_max_linenum = 10000, s_stat_file_name = [], s_stat_file_dir = []\<rparr>"

record tm =
  tm_year :: int
  tm_mon :: int
  tm_mday :: int
  tm_hour :: int
  tm_min :: int
  tm_sec :: int

text \<open>
  The system: the clock, \<open>localtime\<close> (\<open>None\<close> for a null pointer), the standard output, files. The
  second argument of \<open>lo_open\<close> tells \<open>O_TRUNC\<close> from \<open>O_APPEND\<close>. A stream is a number. \<open>lo_here\<close>
  is the text of \<open>__FILE__\<close> and a line number.
\<close>

record 'w log_env =
  lo_time :: "'w \<Rightarrow> int \<times> 'w"
  lo_gettimeofday :: "'w \<Rightarrow> (int \<times> int) \<times> 'w"
  lo_localtime :: "int \<Rightarrow> tm option"
  lo_print :: "byte list \<Rightarrow> 'w \<Rightarrow> 'w"
  lo_flush :: "'w \<Rightarrow> 'w"
  lo_rename :: "byte list \<Rightarrow> byte list \<Rightarrow> 'w \<Rightarrow> 'w"
  lo_open :: "byte list \<Rightarrow> bool \<Rightarrow> 'w \<Rightarrow> int \<times> 'w"
  lo_dup2 :: "int \<Rightarrow> 'w \<Rightarrow> int \<times> 'w"
  lo_close :: "int \<Rightarrow> 'w \<Rightarrow> 'w"
  lo_fopen :: "byte list \<Rightarrow> 'w \<Rightarrow> nat option \<times> 'w"
  lo_fclose :: "nat \<Rightarrow> 'w \<Rightarrow> 'w"
  lo_fprint :: "nat \<Rightarrow> byte list \<Rightarrow> 'w \<Rightarrow> 'w"
  lo_fflush :: "nat \<Rightarrow> 'w \<Rightarrow> 'w"
  lo_strerror :: "'w \<Rightarrow> byte list"
  lo_here :: "nat \<Rightarrow> byte list"

section \<open>Formatting\<close>

text \<open>The conversion \<open>%0nd\<close>: the sign counts towards the width.\<close>

definition zero_pad :: "nat \<Rightarrow> int \<Rightarrow> byte list" where
  "zero_pad n x =
     (let sign = (if x < 0 then [45] else []); ds = digits (nat (abs x))
      in sign @ replicate (n - length sign - length ds) 48 @ ds)"

definition stamp :: "byte list \<Rightarrow> byte list \<Rightarrow> byte list \<Rightarrow> tm \<Rightarrow> byte list" where
  "stamp d s c t =
     zero_pad 4 (tm_year t + 1900) @ d @ zero_pad 2 (tm_mon t + 1) @ d @ zero_pad 2 (tm_mday t) @ s
     @ zero_pad 2 (tm_hour t) @ c @ zero_pad 2 (tm_min t) @ c @ zero_pad 2 (tm_sec t)"

definition newline :: "byte list" where "newline = [10]"

text \<open>The name a full file is moved to; \<open>sprintf\<close> writes it into an array of \<open>FILENAME_MAX\<close> bytes.\<close>

definition rotated_name :: "byte list \<Rightarrow> byte list \<Rightarrow> tm \<Rightarrow> byte list option" where
  "rotated_name dir name t =
     (let us = ascii ''_''; p = dir @ ascii ''/'' @ name @ us @ stamp us us us t
      in if length p < FILENAME_MAX then Some p else None)"

section \<open>Lines\<close>

text \<open>The test of a level: a shift by a negative number or by 32 or more is undefined.\<close>

definition level_on :: "log_state \<Rightarrow> int \<Rightarrow> bool option" where
  "level_on st level =
     (if 0 \<le> level \<and> level < 32 then Some (s_log_flag st AND push_bit (nat level) 1 \<noteq> 0) else None)"

definition level_msg :: "int \<Rightarrow> byte list option" where
  "level_msg level = (if 0 \<le> level \<and> level < 6 then Some (s_level_msg ! nat level) else None)"

text \<open>The part of \<open>log_vprint\<close> and \<open>log_print\<close> after the rotation.\<close>

definition write_line :: "'w log_env \<Rightarrow> int \<Rightarrow> byte list \<Rightarrow> 'w \<Rightarrow> 'w option" where
  "write_line V level text w =
     do {
       let ((sec, usec), w) = lo_gettimeofday V w;
       t \<leftarrow> lo_localtime V sec;
       msg \<leftarrow> level_msg level;
       let w = lo_print V (ascii ''['' @ stamp (ascii ''-'') (ascii '' '') (ascii '':'') t @ ascii ''.'' @ zero_pad 6 usec
                 @ ascii '']['' @ msg @ ascii '']'') w;
       let w = lo_print V text w;
       let w = lo_print V newline w;
       Some (lo_flush V w)
     }"

definition open_fail :: "'w log_env \<Rightarrow> byte list \<Rightarrow> 'w \<Rightarrow> byte list" where
  "open_fail V name w = ascii ''open file fail '' @ name @ ascii '' '' @ lo_strerror V w"

definition bump_error :: "log_state \<Rightarrow> log_state" where
  "bump_error st = st\<lparr>s_error_counter := c_int (s_error_counter st + 1)\<rparr>"

text \<open>
  \<open>rotate_log_file\<close>. When the file cannot be opened it logs two errors, and each of them calls it
  again; the two calls of \<open>log_error\<close> are written out, because the functions are mutually
  recursive. A null pointer from \<open>localtime\<close> is logged and then followed.
\<close>

partial_function (option) rotate_log_file :: "'w log_env \<Rightarrow> bool \<Rightarrow> log_state \<Rightarrow> 'w \<Rightarrow> (log_state \<times> 'w) option" where
  "rotate_log_file V force st w =
     (if s_log_file st = 0 then Some (st, w)
      else if \<not> force \<and> s_log_file_counter st \<le> s_log_file_max_linenum st
      then Some (st\<lparr>s_log_file_counter := c_int (s_log_file_counter st + 1)\<rparr>, w)
      else
        (case lo_time V w of (t, w) \<Rightarrow>
         Option.bind (lo_localtime V t) (\<lambda>t.
         Option.bind (rotated_name (s_log_file_dir st) (s_log_file_name st) t) (\<lambda>path.
           case lo_open V (s_log_file_name st) True (lo_rename V (s_log_file_name st) path w) of (fd, w) \<Rightarrow>
           if fd = - 1
           then
             Option.bind
               (if s_log_flag st AND 1 = 0 then Some (bump_error (st\<lparr>s_log_file_counter := 0\<rparr>), w)
                else
                  Option.bind (rotate_log_file V False (bump_error (st\<lparr>s_log_file_counter := 0\<rparr>)) w) (\<lambda>(st, w).
                    Option.bind (write_line V ERROR (lo_here V 151) w) (\<lambda>w. Some (st, w))))
               (\<lambda>(st', w).
                  if s_log_flag st' AND 1 = 0 then Some (bump_error st', w)
                  else
                    Option.bind (rotate_log_file V False (bump_error st') w) (\<lambda>(st', w').
                      Option.bind (write_line V ERROR (open_fail V (s_log_file_name st) w) w')
                        (\<lambda>w. Some (st', w))))
           else Some (st\<lparr>s_log_file_counter := 0\<rparr>, lo_close V fd (snd (lo_dup2 V fd w)))))))"

definition log_vprint :: "'w log_env \<Rightarrow> int \<Rightarrow> byte list \<Rightarrow> log_state \<Rightarrow> 'w \<Rightarrow> (int \<times> log_state \<times> 'w) option" where
  "log_vprint V level text st w =
     do {
       on \<leftarrow> level_on st level;
       if \<not> on then Some (0, st, w)
       else do {
         (st, w) \<leftarrow> rotate_log_file V False st w;
         w \<leftarrow> write_line V level text w;
         Some (1, st, w)
       }
     }"

definition log_print :: "'w log_env \<Rightarrow> int \<Rightarrow> byte list \<Rightarrow> int \<Rightarrow> log_state \<Rightarrow> 'w \<Rightarrow> (int \<times> log_state \<times> 'w) option" where
  "log_print V level str str_len st w =
     do {
       on \<leftarrow> level_on st level;
       if \<not> on then Some (0, st, w)
       else do {
         (st, w) \<leftarrow> rotate_log_file V False st w;
         text \<leftarrow> mem_get str 0 str_len;
         w \<leftarrow> write_line V level text w;
         Some (1, st, w)
       }
     }"

definition log_msg :: "'w log_env \<Rightarrow> byte list \<Rightarrow> log_state \<Rightarrow> 'w \<Rightarrow> (int \<times> log_state \<times> 'w) option" where
  "log_msg V text st w = do { (r, st, w) \<leftarrow> log_vprint V MSG text st w; Some (1, st, w) }"

definition log_debug :: "'w log_env \<Rightarrow> byte list \<Rightarrow> log_state \<Rightarrow> 'w \<Rightarrow> (int \<times> log_state \<times> 'w) option" where
  "log_debug V text st w = do { (r, st, w) \<leftarrow> log_vprint V DEBUG text st w; Some (1, st, w) }"

definition log_log :: "'w log_env \<Rightarrow> byte list \<Rightarrow> log_state \<Rightarrow> 'w \<Rightarrow> (int \<times> log_state \<times> 'w) option" where
  "log_log V text st w = do { (r, st, w) \<leftarrow> log_vprint V LOG text st w; Some (1, st, w) }"

definition log_warn :: "'w log_env \<Rightarrow> byte list \<Rightarrow> log_state \<Rightarrow> 'w \<Rightarrow> (int \<times> log_state \<times> 'w) option" where
  "log_warn V text st w =
     do {
       let st = st\<lparr>s_warn_counter := c_int (s_warn_counter st + 1)\<rparr>;
       (r, st, w) \<leftarrow> log_vprint V WARN text st w;
       Some (1, st, w)
     }"

definition log_error :: "'w log_env \<Rightarrow> byte list \<Rightarrow> log_state \<Rightarrow> 'w \<Rightarrow> (int \<times> log_state \<times> 'w) option" where
  "log_error V text st w = do { (r, st, w) \<leftarrow> log_vprint V ERROR text (bump_error st) w; Some (1, st, w) }"

text \<open>The macro: its arguments are evaluated after the first line is written.\<close>

definition LOG_ERROR :: "'w log_env \<Rightarrow> nat \<Rightarrow> ('w \<Rightarrow> byte list) \<Rightarrow> log_state \<Rightarrow> 'w \<Rightarrow> (log_state \<times> 'w) option" where
  "LOG_ERROR V line text st w =
     do {
       (r, st, w) \<leftarrow> log_error V (lo_here V line) st w;
       (r, st, w) \<leftarrow> log_error V (text w) st w;
       Some (st, w)
     }"

section \<open>The statistics file\<close>

definition rotate_stat_file :: "'w log_env \<Rightarrow> log_state \<Rightarrow> 'w \<Rightarrow> (log_state \<times> 'w) option" where
  "rotate_stat_file V st w =
     (let full = s_stat_file_max_linenum st < s_stat_file_counter st;
          st = st\<lparr>s_stat_file_counter := c_int (s_stat_file_counter st + 1)\<rparr>
      in if \<not> full then Some (st, w)
         else do {
           let w = (case s_stat_file st of None \<Rightarrow> w | Some f \<Rightarrow> lo_fclose V f w);
           let (t, w) = lo_time V w;
           t \<leftarrow> lo_localtime V t;
           path \<leftarrow> rotated_name (s_stat_file_dir st) (s_stat_file_name st) t;
           let w = lo_rename V (s_stat_file_name st) path w;
           let (f, w) = lo_fopen V (s_stat_file_name st) w;
           let st = st\<lparr>s_stat_file := f\<rparr>;
           if f = None then LOG_ERROR V 184 (open_fail V (s_stat_file_name st)) st w
           else Some (st\<lparr>s_stat_file_counter := 0\<rparr>, w)
         })"

text \<open>The stream is not checked again after the rotation.\<close>

definition stat_vprint :: "'w log_env \<Rightarrow> byte list \<Rightarrow> log_state \<Rightarrow> 'w \<Rightarrow> (int \<times> log_state \<times> 'w) option" where
  "stat_vprint V text st w =
     (if s_stat_file st = None then Some (1, st, w)
      else do {
        (st, w) \<leftarrow> rotate_stat_file V st w;
        let (t, w) = lo_time V w;
        t \<leftarrow> lo_localtime V t;
        f \<leftarrow> s_stat_file st;
        let w = lo_fprint V f (ascii ''['' @ stamp (ascii ''-'') (ascii '' '') (ascii '':'') t @ ascii ''][STAT] '') w;
        let w = lo_fprint V f text w;
        let w = lo_fprint V f newline w;
        Some (1, st, lo_fflush V f w)
      })"

definition log_stat :: "'w log_env \<Rightarrow> byte list \<Rightarrow> log_state \<Rightarrow> 'w \<Rightarrow> (int \<times> log_state \<times> 'w) option" where
  "log_stat V text st w = do { (r, st, w) \<leftarrow> stat_vprint V text st w; Some (1, st, w) }"

section \<open>Settings\<close>

definition log_openlevel :: "int \<Rightarrow> log_state \<Rightarrow> (int \<times> log_state) option" where
  "log_openlevel level st =
     (if 0 \<le> level \<and> level < 32 then Some (0, st\<lparr>s_log_flag := s_log_flag st OR push_bit (nat level) 1\<rparr>) else None)"

definition log_closeall :: "log_state \<Rightarrow> int \<times> log_state" where
  "log_closeall st = (0, st\<lparr>s_log_flag := 0\<rparr>)"

definition log_closelevel :: "int \<Rightarrow> log_state \<Rightarrow> (int \<times> log_state) option" where
  "log_closelevel level st =
     (if 0 \<le> level \<and> level < 32 then Some (0, st\<lparr>s_log_flag := s_log_flag st AND NOT (push_bit (nat level) 1)\<rparr>) else None)"

definition log_logstat ::
  "'w log_env \<Rightarrow> byte list option \<Rightarrow> int \<Rightarrow> byte list option \<Rightarrow> log_state \<Rightarrow> 'w \<Rightarrow> (int \<times> log_state \<times> 'w) option" where
  "log_logstat V file_name file_max_linenum file_dir st w =
     do {
       name \<leftarrow> strcpy FILENAME_MAX file_name;
       dir \<leftarrow> strcpy FILENAME_MAX file_dir;
       let (f, w) = lo_fopen V name w;
       let st = st\<lparr>s_stat_file_name := name, s_stat_file_max_linenum := file_max_linenum, s_stat_file_dir := dir, s_stat_file := f\<rparr>;
       if f = None
       then do { (st, w) \<leftarrow> LOG_ERROR V 212 (open_fail V name) st w; Some (1, st, w) }
       else Some (0, st, w)
     }"

definition log_logfile ::
  "'w log_env \<Rightarrow> byte list option \<Rightarrow> int \<Rightarrow> byte list option \<Rightarrow> log_state \<Rightarrow> 'w \<Rightarrow> (int \<times> log_state \<times> 'w) option" where
  "log_logfile V file_name file_max_linenum file_dir st w =
     do {
       name \<leftarrow> strcpy FILENAME_MAX file_name;
       dir \<leftarrow> strcpy FILENAME_MAX file_dir;
       let st = st\<lparr>s_log_file_name := name, s_log_file_max_linenum := file_max_linenum, s_log_file_dir := dir\<rparr>;
       let (fd, w) = lo_open V name False w;
       if fd = - 1
       then do { (st, w) \<leftarrow> LOG_ERROR V 225 (open_fail V name) st w; Some (1, st, w) }
       else do {
         let (r, w) = lo_dup2 V fd w;
         if r = - 1
         then do { (st, w) \<leftarrow> LOG_ERROR V 229 (\<lambda>w. ascii ''dup2 FAIL '' @ lo_strerror V w) st w; Some (1, st, w) }
         else Some (0, st\<lparr>s_log_file := 1\<rparr>, lo_close V fd w)
       }
     }"

section \<open>Bindings\<close>

text \<open>The string argument is the \<open>str\<close> bytes of \<open>lua_tolstring\<close>, whose length is converted to \<open>int\<close>.\<close>

definition lopenlevel :: "lua_args \<Rightarrow> log_state \<Rightarrow> (nat lua_out \<times> log_state) option" where
  "lopenlevel a st =
     (if gettop a = 1 \<and> is_number (arg a 1)
      then do { (r, st) \<leftarrow> log_openlevel (c_int (to_number (arg a 1))) st; Some (([], 0), st) }
      else Some (([], 0), st))"

definition lcloseall :: "lua_args \<Rightarrow> log_state \<Rightarrow> nat lua_out \<times> log_state" where
  "lcloseall a st = (if gettop a = 0 then (([], 0), snd (log_closeall st)) else (([], 0), st))"

definition lcloselevel :: "lua_args \<Rightarrow> log_state \<Rightarrow> (nat lua_out \<times> log_state) option" where
  "lcloselevel a st =
     (if gettop a = 1 \<and> is_number (arg a 1)
      then do { (r, st) \<leftarrow> log_closelevel (c_int (to_number (arg a 1))) st; Some (([], 0), st) }
      else Some (([], 0), st))"

definition file_args :: "lua_args \<Rightarrow> bool" where
  "file_args a \<longleftrightarrow> gettop a = 3 \<and> is_string (arg a 1) \<and> is_number (arg a 2) \<and> is_string (arg a 3)"

definition llogstat :: "'w log_env \<Rightarrow> lua_args \<Rightarrow> log_state \<Rightarrow> 'w \<Rightarrow> (nat lua_out \<times> log_state \<times> 'w) option" where
  "llogstat V a st w =
     (if file_args a
      then do {
        (r, st, w) \<leftarrow> log_logstat V (to_cstring (arg a 1)) (c_int (to_number (arg a 2))) (to_cstring (arg a 3)) st w;
        Some (([], 0), st, w)
      }
      else Some (([], 0), st, w))"

definition llogfile :: "'w log_env \<Rightarrow> lua_args \<Rightarrow> log_state \<Rightarrow> 'w \<Rightarrow> (nat lua_out \<times> log_state \<times> 'w) option" where
  "llogfile V a st w =
     (if file_args a
      then do {
        (r, st, w) \<leftarrow> log_logfile V (to_cstring (arg a 1)) (c_int (to_number (arg a 2))) (to_cstring (arg a 3)) st w;
        Some (([], 0), st, w)
      }
      else Some (([], 0), st, w))"

definition lprint :: "int \<Rightarrow> 'w log_env \<Rightarrow> lua_args \<Rightarrow> byte list \<Rightarrow> log_state \<Rightarrow> 'w \<Rightarrow> (nat lua_out \<times> log_state \<times> 'w) option" where
  "lprint level V a str st w =
     (if gettop a = 1 \<and> is_string (arg a 1)
      then do { (r, st, w) \<leftarrow> log_print V level str (c_int (int (length str))) st w; Some (([], 0), st, w) }
      else Some (([], 0), st, w))"

definition ldebug :: "'w log_env \<Rightarrow> lua_args \<Rightarrow> byte list \<Rightarrow> log_state \<Rightarrow> 'w \<Rightarrow> (nat lua_out \<times> log_state \<times> 'w) option" where
  "ldebug = lprint DEBUG"

definition llog :: "'w log_env \<Rightarrow> lua_args \<Rightarrow> byte list \<Rightarrow> log_state \<Rightarrow> 'w \<Rightarrow> (nat lua_out \<times> log_state \<times> 'w) option" where
  "llog = lprint LOG"

definition lerror :: "'w log_env \<Rightarrow> lua_args \<Rightarrow> byte list \<Rightarrow> log_state \<Rightarrow> 'w \<Rightarrow> (nat lua_out \<times> log_state \<times> 'w) option" where
  "lerror = lprint ERROR"

definition lwarn :: "'w log_env \<Rightarrow> lua_args \<Rightarrow> byte list \<Rightarrow> log_state \<Rightarrow> 'w \<Rightarrow> (nat lua_out \<times> log_state \<times> 'w) option" where
  "lwarn = lprint WARN"

end
