(* ===== verification/Log_Spec.thy ===== *)
theory Log_Spec
  imports Log
begin

text \<open>
  The rotation of the log file: how many lines a file gets, and when rotating never ends.
\<close>

section \<open>What the lines look like\<close>

lemma digit_range: "n < 10 \<Longrightarrow> (48 + of_nat n :: byte) \<in> {48..57}"
proof -
  assume "n < 10"
  then have "n \<in> {0, 1, 2, 3, 4, 5, 6, 7, 8, 9}" by auto
  then show ?thesis by auto
qed

lemma digits_range: "set (digits n) \<subseteq> {48..57}"
proof (induction n rule: digits.induct)
  case (1 n)
  then show ?case using digit_range [of n] digit_range [of "n mod 10"] by (subst digits.simps) auto
qed

lemma zero_pad_length: "0 \<le> x \<Longrightarrow> x < 10 ^ Suc k \<Longrightarrow> length (zero_pad (Suc k) x) = Suc k"
  using digits_length [of "nat x" k] by (simp add: zero_pad_def Let_def nat_less_iff)

lemma zero_pad_line: "10 \<notin> set (zero_pad n x)"
  using digits_range [of "nat (abs x)"] by (auto simp: zero_pad_def Let_def)

lemma stamp_line: "10 \<notin> set d \<Longrightarrow> 10 \<notin> set s \<Longrightarrow> 10 \<notin> set c \<Longrightarrow> 10 \<notin> set (stamp d s c t)"
  by (simp add: stamp_def zero_pad_line)

text \<open>A broken-down time as \<open>localtime\<close> gives it in the years \<open>0\<close> to \<open>9999\<close>.\<close>

definition tm_ok :: "tm \<Rightarrow> bool" where
  "tm_ok t \<longleftrightarrow> - 1900 \<le> tm_year t \<and> tm_year t \<le> 8099 \<and> 0 \<le> tm_mon t \<and> tm_mon t < 12 \<and> 0 < tm_mday t \<and> tm_mday t < 32
     \<and> 0 \<le> tm_hour t \<and> tm_hour t < 24 \<and> 0 \<le> tm_min t \<and> tm_min t < 60 \<and> 0 \<le> tm_sec t \<and> tm_sec t \<le> 60"

lemma pad_2_4: "0 \<le> x \<Longrightarrow> x < 100 \<Longrightarrow> length (zero_pad 2 x) = 2" "0 \<le> x \<Longrightarrow> x < 10000 \<Longrightarrow> length (zero_pad 4 x) = 4"
  using zero_pad_length [of x 1] zero_pad_length [of x 3] by (simp_all add: numeral_eq_Suc)

lemma rotated_name_defined:
  assumes "tm_ok t" "length dir + length name < 4000"
  shows "\<exists>p. rotated_name dir name t = Some p"
proof -
  have "length (stamp (ascii ''_'') (ascii ''_'') (ascii ''_'') t) = 19"
    using assms(1) by (simp add: tm_ok_def stamp_def pad_2_4 ascii_def)
  then show ?thesis using assms(2) by (simp add: rotated_name_def Let_def FILENAME_MAX_def ascii_def)
qed

section \<open>A file that can be written\<close>

text \<open>
  \<open>lines w\<close> is the number of lines in the file behind the standard output. The system does what it
  documents: \<open>localtime\<close> gives a time, \<open>open\<close> succeeds and \<open>dup2\<close> puts the truncated file there,
  printing adds the newlines of what is printed, and nothing else changes the file.
\<close>

definition log_files :: "'w log_env \<Rightarrow> ('w \<Rightarrow> nat) \<Rightarrow> bool" where
  "log_files V lines \<longleftrightarrow>
     (\<forall>sec. \<exists>t. lo_localtime V sec = Some t \<and> tm_ok t)
     \<and> (\<forall>w. lines (snd (lo_time V w)) = lines w) \<and> (\<forall>w. lines (snd (lo_gettimeofday V w)) = lines w)
     \<and> (\<forall>n trunc w. fst (lo_open V n trunc w) \<noteq> - 1) \<and> (\<forall>fd w. lines (snd (lo_dup2 V fd w)) = 0)
     \<and> (\<forall>bs w. lines (lo_print V bs w) = lines w + count_list bs 10)
     \<and> (\<forall>w. lines (lo_flush V w) = lines w) \<and> (\<forall>fd w. lines (lo_close V fd w) = lines w)"

lemma write_line_law:
  assumes V: "log_files V lines" and level: "0 \<le> level" "level < 6" and tx: "10 \<notin> set text"
  shows "\<exists>w'. write_line V level text w = Some w' \<and> lines w' = Suc (lines w)"
proof -
  obtain sec usec w1 where g: "lo_gettimeofday V w = ((sec, usec), w1)" by (metis surj_pair)
  obtain t where t: "lo_localtime V sec = Some t" using V unfolding log_files_def by blast
  obtain m where m: "level_msg level = Some m" using level by (simp add: level_msg_def)
  have "nat level \<in> {0, 1, 2, 3, 4, 5}" using level by auto
  then have "10 \<notin> set m" using m level by (auto simp: level_msg_def s_level_msg_def ascii_def)
  then have "10 \<notin> set (ascii ''['' @ stamp (ascii ''-'') (ascii '' '') (ascii '':'') t @ ascii ''.'' @ zero_pad 6 usec
      @ ascii ''][''  @ m @ ascii '']'')"
    using zero_pad_line [of 6 usec] stamp_line [of "ascii ''-''" "ascii '' ''" "ascii '':''" t] by (auto simp: ascii_def)
  then show ?thesis
    using V tx g t m unfolding log_files_def write_line_def Let_def newline_def
    by (auto simp: count_list_0_iff) (metis snd_conv)
qed

lemma rotate_law:
  assumes V: "log_files V lines" and st: "s_log_file st \<noteq> 0" "s_log_file_max_linenum st < INT_MAX"
      "0 \<le> s_log_file_counter st" "s_log_file_counter st \<le> s_log_file_max_linenum st + 1"
      "length (s_log_file_dir st) + length (s_log_file_name st) < 4000"
  shows "\<exists>w'. rotate_log_file V False st w =
      Some (st\<lparr>s_log_file_counter := (if s_log_file_counter st \<le> s_log_file_max_linenum st then s_log_file_counter st + 1 else 0)\<rparr>, w')
    \<and> lines w' = (if s_log_file_counter st \<le> s_log_file_max_linenum st then lines w else 0)"
proof (cases "s_log_file_counter st \<le> s_log_file_max_linenum st")
  case True
  then have "c_int (s_log_file_counter st + 1) = s_log_file_counter st + 1"
    using st by (intro c_int_id) (simp add: in_int_def INT_MIN_def INT_MAX_def)
  then show ?thesis using True st by (subst rotate_log_file.simps) simp
next
  case False
  obtain t w1 where w1: "lo_time V w = (t, w1)" by (metis surj_pair)
  obtain tm where tm: "lo_localtime V t = Some tm" "tm_ok tm" using V unfolding log_files_def by blast
  obtain p where p: "rotated_name (s_log_file_dir st) (s_log_file_name st) tm = Some p"
    using rotated_name_defined [OF tm(2) st(5)] by blast
  obtain fd w2 where o: "lo_open V (s_log_file_name st) True (lo_rename V (s_log_file_name st) p w1) = (fd, w2)" by (metis surj_pair)
  have fd: "fd \<noteq> - 1" using V o unfolding log_files_def by (metis fst_conv)
  let ?w = "lo_close V fd (snd (lo_dup2 V fd w2))"
  have "rotate_log_file V False st w = Some (st\<lparr>s_log_file_counter := 0\<rparr>, ?w)"
    using False st(1) w1 tm p o fd by (subst rotate_log_file.simps) simp
  moreover have "lines ?w = 0" using V by (simp add: log_files_def)
  ultimately show ?thesis using False by simp
qed

section \<open>Any number of lines\<close>

text \<open>Messages logged one after the other.\<close>

fun log_all :: "'w log_env \<Rightarrow> (int \<times> byte list) list \<Rightarrow> log_state \<Rightarrow> 'w \<Rightarrow> (log_state \<times> 'w) option" where
  "log_all V [] st w = Some (st, w)"
| "log_all V ((level, str) # ms) st w =
     do { (r, st, w) \<leftarrow> log_print V level str (int (length str)) st w; log_all V ms st w }"

definition loggable :: "log_state \<Rightarrow> (int \<times> byte list) list \<Rightarrow> bool" where
  "loggable st ms \<longleftrightarrow> (\<forall>(level, str) \<in> set ms. 0 \<le> level \<and> level < 6 \<and> level_on st level = Some True \<and> 10 \<notin> set str)"

text \<open>A log file is open, with a maximum that \<open>int\<close> can exceed and names that fit, and the counter is in its range.\<close>

definition file_ready :: "log_state \<Rightarrow> bool" where
  "file_ready st \<longleftrightarrow> s_log_file st \<noteq> 0 \<and> s_log_file_max_linenum st < INT_MAX \<and> 0 \<le> s_log_file_max_linenum st
     \<and> 0 \<le> s_log_file_counter st \<and> s_log_file_counter st \<le> s_log_file_max_linenum st + 1
     \<and> length (s_log_file_dir st) + length (s_log_file_name st) < 4000"

lemma mem_get_all: "mem_get str 0 (int (length str)) = Some str"
  using mem_get_inside [of 0 "int (length str)" str] by (simp add: slice_def)

lemma log_print_law:
  assumes V: "log_files V lines" and st: "file_ready st" and m: "0 \<le> level" "level < 6" "level_on st level = Some True" "10 \<notin> set str"
  shows "\<exists>w'. log_print V level str (int (length str)) st w =
      Some (1, st\<lparr>s_log_file_counter := (if s_log_file_counter st \<le> s_log_file_max_linenum st then s_log_file_counter st + 1 else 0)\<rparr>, w')
    \<and> file_ready (st\<lparr>s_log_file_counter := (if s_log_file_counter st \<le> s_log_file_max_linenum st then s_log_file_counter st + 1 else 0)\<rparr>)
    \<and> lines w' = (if s_log_file_counter st \<le> s_log_file_max_linenum st then Suc (lines w) else 1)"
proof -
  let ?c = "if s_log_file_counter st \<le> s_log_file_max_linenum st then s_log_file_counter st + 1 else 0"
  from st rotate_law [OF V, of st w] obtain w1 where
    r: "rotate_log_file V False st w = Some (st\<lparr>s_log_file_counter := ?c\<rparr>, w1)"
    "lines w1 = (if s_log_file_counter st \<le> s_log_file_max_linenum st then lines w else 0)" by (auto simp: file_ready_def)
  obtain w2 where w2: "write_line V level str w1 = Some w2" "lines w2 = Suc (lines w1)" using write_line_law [OF V m(1,2,4)] by blast
  have "log_print V level str (int (length str)) st w = Some (1, st\<lparr>s_log_file_counter := ?c\<rparr>, w2)"
    using m(3) r(1) w2(1) by (simp add: log_print_def mem_get_all)
  moreover have "file_ready (st\<lparr>s_log_file_counter := ?c\<rparr>)" using st r(2) w2(2) by (auto simp: file_ready_def)
  ultimately show ?thesis using r(2) w2(2) by (intro exI [of _ w2]) simp
qed

text \<open>C33: As long as \<open>localtime\<close> gives times of the years 0 to 9999, every \<open>open\<close> of a rotation succeeds and \<open>dup2\<close>
  puts the truncated file behind the standard output, logging any number of messages that have no newline, at levels
  that are on, comes back; it need not when the file cannot be opened. The file then
  holds at most \<open>max + 1\<close> lines more than it had uncounted, one at least, which for a file opened empty is \<open>max + 2\<close>:
  the line that finds the counter above the maximum starts a new file and is not counted, and the counter is compared
  before it is incremented. A file that was opened for appending keeps its old lines above that bound, and they are gone
  once there were enough messages for one rotation: then the bound is \<open>max + 2\<close> whatever it held.\<close>

theorem log_file_bounded:
  assumes "log_files V lines" "file_ready st" "loggable st ms"
  shows "\<exists>st' w'. log_all V ms st w = Some (st', w') \<and> file_ready st'
    \<and> int (lines w') \<le> s_log_file_max_linenum st + 1 + max 1 (int (lines w) - s_log_file_counter st)
    \<and> (s_log_file_max_linenum st + 1 - s_log_file_counter st < int (length ms) \<longrightarrow>
         int (lines w') \<le> s_log_file_max_linenum st + 2)"
  using assms(2,3)
proof (induction ms arbitrary: st w)
  case Nil
  then show ?case by (auto simp: file_ready_def max_def)
next
  case (Cons m ms)
  obtain level str where m: "m = (level, str)" by (cases m)
  let ?c = "if s_log_file_counter st \<le> s_log_file_max_linenum st then s_log_file_counter st + 1 else 0"
  let ?st = "st\<lparr>s_log_file_counter := ?c\<rparr>"
  from Cons.prems(2) m log_print_law [OF assms(1) Cons.prems(1), of level str w] obtain w1 where
    p: "log_print V level str (int (length str)) st w = Some (1, ?st, w1)" "file_ready ?st"
      "lines w1 = (if s_log_file_counter st \<le> s_log_file_max_linenum st then Suc (lines w) else 1)"
    by (auto simp: loggable_def)
  have "loggable ?st ms" using Cons.prems(2) by (auto simp: loggable_def level_on_def)
  from Cons.IH [OF p(2) this, of w1] obtain st' w' where
    l: "log_all V ms ?st w1 = Some (st', w')" "file_ready st'"
      "int (lines w') \<le> s_log_file_max_linenum st + 1 + max 1 (int (lines w1) - ?c)"
      "s_log_file_max_linenum st + 1 - ?c < int (length ms) \<longrightarrow> int (lines w') \<le> s_log_file_max_linenum st + 2" by auto
  have "log_all V (m # ms) st w = Some (st', w')" using p(1) l(1) m by simp
  then show ?case using l(2-4) p(3) by (auto split: if_splits)
qed

text \<open>A world that is the number of lines, and a file of at most three lines.\<close>

definition line_env :: "nat log_env" where
  "line_env =
     \<lparr>lo_time = (\<lambda>w. (0, w)), lo_gettimeofday = (\<lambda>w. ((0, 0), w)),
      lo_localtime = (\<lambda>t. Some \<lparr>tm_year = 115, tm_mon = 9, tm_mday = 11, tm_hour = 9, tm_min = 5, tm_sec = 48\<rparr>),
      lo_print = (\<lambda>bs w. w + count_list bs 10), lo_flush = (\<lambda>w. w), lo_rename = (\<lambda>a b w. w), lo_open = (\<lambda>n t w. (3, w)),
      lo_dup2 = (\<lambda>fd w. (1, 0)), lo_close = (\<lambda>fd w. w), lo_fopen = (\<lambda>n w. (None, w)), lo_fclose = (\<lambda>f w. w),
      lo_fprint = (\<lambda>f bs w. w), lo_fflush = (\<lambda>f w. w), lo_strerror = (\<lambda>w. []), lo_here = (\<lambda>n. [])\<rparr>"

definition one_line :: log_state where
  "one_line = log_init\<lparr>s_log_file := 1, s_log_file_max_linenum := 1, s_log_file_name := [108]\<rparr>"

theorem log_file_bounded_witness:
  "\<exists>st' w'. log_all line_env [(ERROR, [97]), (LOG, []), (WARN, [98, 99]), (DEBUG, [100]), (MSG, [101])] one_line 7 = Some (st', w')
    \<and> file_ready st' \<and> int w' \<le> s_log_file_max_linenum one_line + 2"
proof -
  have a: "log_files line_env (\<lambda>w. w)" by (simp add: log_files_def line_env_def tm_ok_def)
  have b: "file_ready one_line" by (simp add: file_ready_def one_line_def log_init_def INT_MAX_def)
  have c: "loggable one_line [(ERROR, [97]), (LOG, []), (WARN, [98, 99]), (DEBUG, [100]), (MSG, [101])]"
    by (simp add: loggable_def level_on_def one_line_def log_init_def ERROR_def LOG_def WARN_def DEBUG_def MSG_def)
  have d: "s_log_file_counter one_line = 0" "s_log_file_max_linenum one_line = 1" by (simp_all add: one_line_def log_init_def)
  show ?thesis using log_file_bounded [OF a b c, of 7] by (auto simp: d)
qed

section \<open>A file that cannot be opened\<close>

text \<open>What a rotation that returns has done, when the file cannot be opened and the maximum is not
  positive: it had nothing to do.\<close>

lemma rotate_stuck:
  assumes no: "\<forall>n trunc w. fst (lo_open V n trunc w) = - 1" and run: "rotate_log_file V force st w = Some x"
  shows "s_log_file st \<noteq> 0 \<longrightarrow> s_log_file_max_linenum st \<le> 0 \<longrightarrow> s_log_flag st AND 1 \<noteq> 0 \<longrightarrow>
    \<not> force \<and> s_log_file_counter st \<le> s_log_file_max_linenum st
    \<and> fst x = st\<lparr>s_log_file_counter := c_int (s_log_file_counter st + 1)\<rparr>"
  using run no
proof (induction V force st w x rule: rotate_log_file.raw_induct [rotated, consumes 1, case_names step])
  case (step rotate V force st w x)
  show ?case
  proof (intro impI)
    assume st: "s_log_file st \<noteq> 0" "s_log_file_max_linenum st \<le> 0" "s_log_flag st AND 1 \<noteq> 0"
    show "\<not> force \<and> s_log_file_counter st \<le> s_log_file_max_linenum st \<and> fst x = st\<lparr>s_log_file_counter := c_int (s_log_file_counter st + 1)\<rparr>"
    proof (cases "\<not> force \<and> s_log_file_counter st \<le> s_log_file_max_linenum st")
      case True
      then show ?thesis using step.hyps st(1) by auto
    next
      case False
      let ?st = "bump_error (st\<lparr>s_log_file_counter := 0\<rparr>)"
      obtain t w1 where t: "lo_time V w = (t, w1)" by (metis surj_pair)
      from step.hyps False st(1) t obtain tm path where tm: "lo_localtime V t = Some tm"
        and path: "rotated_name (s_log_file_dir st) (s_log_file_name st) tm = Some path"
        by (auto split: bind_splits)
      obtain fd w2 where o: "lo_open V (s_log_file_name st) True (lo_rename V (s_log_file_name st) path w1) = (fd, w2)" by (metis surj_pair)
      then have fd: "fd = - 1" using step.prems by (metis fst_conv)
      from step.hyps False st t tm path o fd obtain y where y: "rotate V False ?st w2 = Some y"
        and z: "s_log_flag (fst y) AND 1 \<noteq> 0 \<longrightarrow> (\<exists>w3 z. rotate V False (bump_error (fst y)) w3 = Some z)"
        by (auto split: bind_splits prod.splits if_splits)
      have "s_log_file ?st \<noteq> 0" "s_log_file_max_linenum ?st \<le> 0" "s_log_flag ?st AND 1 \<noteq> 0" using st by (simp_all add: bump_error_def)
      with step.IH [OF y step.prems] have max: "s_log_file_max_linenum st = 0"
        and fy: "fst y = ?st\<lparr>s_log_file_counter := c_int (s_log_file_counter ?st + 1)\<rparr>" using st by (auto simp: bump_error_def)
      have one: "c_int 1 = 1" by (intro c_int_id) (simp add: in_int_def INT_MIN_def INT_MAX_def)
      have "s_log_flag (fst y) AND 1 \<noteq> 0" using fy st by (simp add: bump_error_def)
      with z obtain w3 u where "rotate V False (bump_error (fst y)) w3 = Some u" by blast
      from step.IH [OF this step.prems] show ?thesis using fy st max one by (simp add: bump_error_def)
    qed
  qed
qed

text \<open>C34: When the log file cannot be opened again and the maximum number of lines is zero or negative,
  logging never returns once the counter is above the maximum: reporting that the file cannot be
  opened logs two errors, and one of them rotates again.\<close>

theorem log_rotation_diverges:
  assumes "\<forall>n trunc w. fst (lo_open V n trunc w) = - 1"
    and "s_log_file st \<noteq> 0" "s_log_file_max_linenum st \<le> 0" "s_log_file_max_linenum st < s_log_file_counter st"
    and "level_on st ERROR = Some True" "level_on st level = Some True"
  shows "log_print V level str len st w = None"
proof -
  have flag: "s_log_flag st AND 1 \<noteq> 0" using assms(5) by (auto simp: level_on_def ERROR_def split: if_splits)
  have "rotate_log_file V False st w = None"
  proof (rule ccontr)
    assume "rotate_log_file V False st w \<noteq> None"
    then obtain x where "rotate_log_file V False st w = Some x" by blast
    from rotate_stuck [OF assms(1) this] show False using assms(2-4) flag by simp
  qed
  then show ?thesis using assms(6) by (simp add: log_print_def)
qed

theorem log_rotation_diverges_witness:
  "log_print (line_env\<lparr>lo_open := (\<lambda>n t w. (- 1, w))\<rparr>) LOG [97] 1 (one_line\<lparr>s_log_file_max_linenum := 0, s_log_file_counter := 1\<rparr>) 0 = None"
  by (rule log_rotation_diverges) (simp_all add: one_line_def log_init_def level_on_def ERROR_def LOG_def)

end
