(* ===== verification/Ar.thy ===== *)
theory Ar
  imports Lua_Args "HOL-Library.Monad_Syntax"
begin

text \<open>
  The archives, \<open>src/src/ar/ar.cc\<close>: cursors that write numbers and strings into memory a script
  provides and read them back. Pointers are a block and an offset; sizes and positions are
  \<open>size_t\<close>, so the room that is left is a difference modulo \<open>2^64\<close>.
\<close>

type_synonym aptr = "nat \<times> int"

record ar_t =
  ar_buf :: "aptr option"
  ar_buf_len :: int
  ar_rptr :: int
  ar_used :: int

definition MAX_AR :: int where "MAX_AR = 64"

record ars =
  s_ars :: "int \<Rightarrow> ar_t"
  ar_mem :: "nat \<Rightarrow> block option"
  ar_brk :: nat

definition fd2ar :: "ars \<Rightarrow> int \<Rightarrow> ar_t option" where
  "fd2ar st fd = (if 0 \<le> fd \<and> fd < MAX_AR then Some (s_ars st fd) else None)"

definition set_ar :: "ars \<Rightarrow> int \<Rightarrow> ar_t \<Rightarrow> ars" where
  "set_ar st fd a = st\<lparr>s_ars := (s_ars st)(fd := a)\<rparr>"

section \<open>Cursors\<close>

text \<open>The loop of \<open>ar_create\<close> over the entries \<open>i\<close>, \dots, \<open>i + k - 1\<close>; the result 0 is no entry.\<close>

fun ar_find :: "ars \<Rightarrow> int \<Rightarrow> nat \<Rightarrow> int" where
  "ar_find st i 0 = 0"
| "ar_find st i (Suc k) = (if ar_used (s_ars st i) = 0 then i else ar_find st (i + 1) k)"

definition ar_create :: "aptr option \<Rightarrow> int \<Rightarrow> ars \<Rightarrow> int \<times> ars" where
  "ar_create buf buf_len st =
     (let fd = ar_find st 1 63
      in (fd, if fd = 0 then st
              else set_ar st fd \<lparr>ar_buf = buf, ar_buf_len = c_size buf_len, ar_rptr = 0, ar_used = 1\<rparr>))"

definition lrewind :: "int \<Rightarrow> ars \<Rightarrow> (aptr lua_out \<times> ars) option" where
  "lrewind fd st = do { self \<leftarrow> fd2ar st (c_int fd); Some (([], 0), set_ar st (c_int fd) (self\<lparr>ar_rptr := 0\<rparr>)) }"

definition ar_ldatalen :: "int \<Rightarrow> ars \<Rightarrow> aptr lua_out option" where
  "ar_ldatalen fd st = do { self \<leftarrow> fd2ar st (c_int fd); Some ([LInt (c_long (ar_rptr self))], 1) }"

definition ar_left :: "ar_t \<Rightarrow> int" where
  "ar_left self = c_size (ar_buf_len self - ar_rptr self)"

definition lremain :: "int \<Rightarrow> ars \<Rightarrow> aptr lua_out option" where
  "lremain fd st = do { self \<leftarrow> fd2ar st (c_int fd); Some ([LInt (c_long (ar_left self))], 1) }"

definition lgetptr :: "int \<Rightarrow> ars \<Rightarrow> aptr option lua_out option" where
  "lgetptr fd st =
     do { self \<leftarrow> fd2ar st (c_int fd); Some ([LPtr (map_option (\<lambda>(b, off). (b, off + ar_rptr self)) (ar_buf self))], 1) }"

definition ar_lfree :: "int \<Rightarrow> ars \<Rightarrow> (aptr lua_out \<times> ars) option" where
  "ar_lfree fd st = do { self \<leftarrow> fd2ar st (c_int fd); Some (([], 0), set_ar st (c_int fd) (self\<lparr>ar_used := 0\<rparr>)) }"

text \<open>\<open>lcreate\<close>; \<open>buf\<close> is the light userdata.\<close>

definition ar_lcreate :: "lua_args \<Rightarrow> aptr option \<Rightarrow> ars \<Rightarrow> aptr lua_out \<times> ars" where
  "ar_lcreate a buf st =
     (if gettop a = 2 \<and> is_userdata (arg a 1) \<and> is_number (arg a 2)
      then (let (fd, st) = ar_create buf (c_int (to_number (arg a 2))) st in (([LInt fd], 1), st))
      else (([], 0), st))"

text \<open>\<open>lmalloc\<close>; \<open>malloc\<close> gives the block of a size with the contents it happens to have, or fails.\<close>

definition lmalloc :: "(int \<Rightarrow> block option) \<Rightarrow> int \<Rightarrow> ars \<Rightarrow> aptr option lua_out \<times> ars" where
  "lmalloc malloc len st =
     (case malloc (c_size (c_int len)) of
        None \<Rightarrow> (([LPtr None], 1), st)
      | Some b \<Rightarrow> (([LPtr (Some (ar_brk st, 0))], 1), st\<lparr>ar_mem := (ar_mem st)(ar_brk st \<mapsto> b), ar_brk := Suc (ar_brk st)\<rparr>))"

section \<open>Bytes\<close>

definition ar_write :: "int \<Rightarrow> byte list \<Rightarrow> ars \<Rightarrow> (int \<times> ars) option" where
  "ar_write fd bs st =
     do {
       self \<leftarrow> fd2ar st fd;
       if ar_left self < int (length bs) then Some (0, st)
       else do {
         (b, off) \<leftarrow> ar_buf self;
         m \<leftarrow> ar_mem st b;
         m \<leftarrow> mem_put m (off + ar_rptr self) bs;
         Some (c_int (int (length bs)),
               (set_ar st fd (self\<lparr>ar_rptr := c_size (ar_rptr self + int (length bs))\<rparr>))\<lparr>ar_mem := (ar_mem st)(b \<mapsto> m)\<rparr>)
       }
     }"

text \<open>\<open>ar_read\<close> of \<open>n\<close> bytes: nothing is written to the destination when it fails.\<close>

definition ar_read :: "int \<Rightarrow> int \<Rightarrow> ars \<Rightarrow> (byte list option \<times> ars) option" where
  "ar_read fd n st =
     do {
       self \<leftarrow> fd2ar st fd;
       if ar_left self < n then Some (None, st)
       else do {
         (b, off) \<leftarrow> ar_buf self;
         m \<leftarrow> ar_mem st b;
         bs \<leftarrow> mem_get m (off + ar_rptr self) n;
         Some (Some bs, set_ar st fd (self\<lparr>ar_rptr := c_size (ar_rptr self + n)\<rparr>))
       }
     }"

section \<open>Bindings: writing\<close>

definition two_args :: "lua_args \<Rightarrow> bool" where
  "two_args a \<longleftrightarrow> gettop a = 2 \<and> is_number (arg a 1) \<and> is_number (arg a 2)"

definition str_args :: "lua_args \<Rightarrow> bool" where
  "str_args a \<longleftrightarrow> gettop a = 2 \<and> is_number (arg a 1) \<and> is_string (arg a 2)"

definition lwritestr :: "lua_args \<Rightarrow> byte list \<Rightarrow> ars \<Rightarrow> (aptr lua_out \<times> ars) option" where
  "lwritestr a str st =
     (if str_args a
      then do {
        let fd = c_int (to_number (arg a 1));
        self \<leftarrow> fd2ar st fd;
        if ar_left self < int (length str) then Some (([LInt 0], 1), st)
        else do { (r, st) \<leftarrow> ar_write fd str st; Some (([LInt (int (length str))], 1), st) }
      }
      else Some (([], 0), st))"

definition lwritelstr :: "lua_args \<Rightarrow> byte list \<Rightarrow> ars \<Rightarrow> (aptr lua_out \<times> ars) option" where
  "lwritelstr a str st =
     (if str_args a
      then do {
        let fd = c_int (to_number (arg a 1));
        self \<leftarrow> fd2ar st fd;
        if ar_left self < int (length str) + 2 then Some (([LInt 0], 1), st)
        else do {
          let val = c_short (int (length str));
          (r, st) \<leftarrow> ar_write fd (le_bytes 2 val) st;
          (r, st) \<leftarrow> ar_write fd str st;
          Some (([LInt (int (length str))], 1), st)
        }
      }
      else Some (([], 0), st))"

text \<open>The integers: the result of \<open>ar_write\<close> is not looked at.\<close>

definition write_int :: "nat \<Rightarrow> (int \<Rightarrow> int) \<Rightarrow> lua_args \<Rightarrow> ars \<Rightarrow> (aptr lua_out \<times> ars) option" where
  "write_int n conv a st =
     (if two_args a
      then do {
        let val = conv (to_number (arg a 2));
        (r, st) \<leftarrow> ar_write (c_int (to_number (arg a 1))) (le_bytes n val) st;
        Some (([LInt val], 1), st)
      }
      else Some (([], 0), st))"

definition lwriteint8 :: "lua_args \<Rightarrow> ars \<Rightarrow> (aptr lua_out \<times> ars) option" where
  "lwriteint8 = write_int 1 c_char"

definition lwriteint16 :: "lua_args \<Rightarrow> ars \<Rightarrow> (aptr lua_out \<times> ars) option" where
  "lwriteint16 = write_int 2 c_short"

definition lwriteint32 :: "lua_args \<Rightarrow> ars \<Rightarrow> (aptr lua_out \<times> ars) option" where
  "lwriteint32 = write_int 4 c_int"

definition lwriteint64 :: "lua_args \<Rightarrow> ars \<Rightarrow> (aptr lua_out \<times> ars) option" where
  "lwriteint64 = write_int 8 c_long"

section \<open>Bindings: reading\<close>

definition lreadstr :: "lua_args \<Rightarrow> ars \<Rightarrow> (aptr lua_out \<times> ars) option" where
  "lreadstr a st =
     (if two_args a
      then do {
        let fd = c_int (to_number (arg a 1));
        let str_len = c_size (to_number (arg a 2));
        self \<leftarrow> fd2ar st fd;
        if ar_left self < str_len then Some (([], 0), st)
        else do {
          (b, off) \<leftarrow> ar_buf self;
          m \<leftarrow> ar_mem st b;
          bs \<leftarrow> mem_get m (off + ar_rptr self) str_len;
          Some (([LStr bs], 1), set_ar st fd (self\<lparr>ar_rptr := c_size (ar_rptr self + str_len)\<rparr>))
        }
      }
      else Some (([], 0), st))"

text \<open>The length is a signed short that is converted to \<open>size_t\<close> in the test and in the copy.\<close>

definition lreadlstr :: "lua_args \<Rightarrow> ars \<Rightarrow> (aptr lua_out \<times> ars) option" where
  "lreadlstr a st =
     (if gettop a = 1 \<and> is_number (arg a 1)
      then do {
        let fd = c_int (to_number (arg a 1));
        self \<leftarrow> fd2ar st fd;
        if ar_left self < 2 then Some (([], 0), st)
        else do {
          (b, off) \<leftarrow> ar_buf self;
          m \<leftarrow> ar_mem st b;
          bs \<leftarrow> mem_get m (off + ar_rptr self) 2;
          let str_len = c_short (le_val bs);
          if ar_left self < c_size (str_len + 2) then Some (([], 0), st)
          else do {
            s \<leftarrow> mem_get m (off + c_size (ar_rptr self + 2)) (c_size str_len);
            Some (([LStr s], 1), set_ar st fd (self\<lparr>ar_rptr := c_size (ar_rptr self + 2 + str_len)\<rparr>))
          }
        }
      }
      else Some (([], 0), st))"

text \<open>The integers: 0 when there are not enough bytes.\<close>

definition read_int :: "int \<Rightarrow> (int \<Rightarrow> int) \<Rightarrow> lua_args \<Rightarrow> ars \<Rightarrow> (aptr lua_out \<times> ars) option" where
  "read_int n conv a st =
     (if gettop a = 1 \<and> is_number (arg a 1)
      then do {
        (bs, st) \<leftarrow> ar_read (c_int (to_number (arg a 1))) n st;
        Some (([LInt (case bs of None \<Rightarrow> 0 | Some bs \<Rightarrow> conv (le_val bs))], 1), st)
      }
      else Some (([], 0), st))"

definition ar_lreaduint8 :: "lua_args \<Rightarrow> ars \<Rightarrow> (aptr lua_out \<times> ars) option" where
  "ar_lreaduint8 = read_int 1 (take_bit 8)"

definition ar_lreadint8 :: "lua_args \<Rightarrow> ars \<Rightarrow> (aptr lua_out \<times> ars) option" where
  "ar_lreadint8 = read_int 1 c_char"

definition ar_lreadint16 :: "lua_args \<Rightarrow> ars \<Rightarrow> (aptr lua_out \<times> ars) option" where
  "ar_lreadint16 = read_int 2 c_short"

definition ar_lreadint32 :: "lua_args \<Rightarrow> ars \<Rightarrow> (aptr lua_out \<times> ars) option" where
  "ar_lreadint32 = read_int 4 c_int"

definition ar_lreadint64 :: "lua_args \<Rightarrow> ars \<Rightarrow> (aptr lua_out \<times> ars) option" where
  "ar_lreadint64 = read_int 8 c_long"

end
