(* ===== verification/Ar_Spec.thy ===== *)
theory Ar_Spec
  imports Ar
begin

text \<open>
  What an archive holds: the bytes written so far and the bytes still to be read. Every writing
  binding appends the encoding of its argument, every reading binding takes it off again.
\<close>

section \<open>The memory behind a cursor\<close>

text \<open>A cursor on a buffer that lies inside its block.\<close>

definition ar_ok :: "ars \<Rightarrow> int \<Rightarrow> bool" where
  "ar_ok st fd \<longleftrightarrow> 0 \<le> fd \<and> fd < MAX_AR \<and> 0 \<le> ar_rptr (s_ars st fd) \<and> ar_rptr (s_ars st fd) \<le> ar_buf_len (s_ars st fd)
     \<and> ar_buf_len (s_ars st fd) \<le> INT_MAX
     \<and> (case ar_buf (s_ars st fd) of None \<Rightarrow> False
        | Some (b, off) \<Rightarrow> (case ar_mem st b of None \<Rightarrow> False
            | Some m \<Rightarrow> 0 \<le> off \<and> off + ar_buf_len (s_ars st fd) \<le> int (length m)))"

definition ar_all :: "ars \<Rightarrow> int \<Rightarrow> byte list" where
  "ar_all st fd =
     (case ar_buf (s_ars st fd) of None \<Rightarrow> []
      | Some (b, off) \<Rightarrow> (case ar_mem st b of None \<Rightarrow> [] | Some m \<Rightarrow> slice m off (off + ar_buf_len (s_ars st fd))))"

definition ar_done :: "ars \<Rightarrow> int \<Rightarrow> byte list" where
  "ar_done st fd = take (nat (ar_rptr (s_ars st fd))) (ar_all st fd)"

definition ar_todo :: "ars \<Rightarrow> int \<Rightarrow> byte list" where
  "ar_todo st fd = drop (nat (ar_rptr (s_ars st fd))) (ar_all st fd)"

lemma ar_okE:
  assumes "ar_ok st fd"
  obtains b off m where "fd2ar st fd = Some (s_ars st fd)" "ar_buf (s_ars st fd) = Some (b, off)" "ar_mem st b = Some m"
    "0 \<le> off" "off + ar_buf_len (s_ars st fd) \<le> int (length m)"
    "0 \<le> ar_rptr (s_ars st fd)" "ar_rptr (s_ars st fd) \<le> ar_buf_len (s_ars st fd)" "ar_buf_len (s_ars st fd) \<le> INT_MAX"
  using assms by (auto simp: ar_ok_def fd2ar_def split: option.splits prod.splits)

lemma ar_left_todo: "ar_ok st fd \<Longrightarrow> ar_left (s_ars st fd) = int (length (ar_todo st fd))"
  by (erule ar_okE)
    (simp add: ar_left_def ar_todo_def ar_all_def length_slice c_size_id INT_MAX_def)

lemma ar_write_law:
  assumes ok: "ar_ok st fd" and room: "length bs \<le> length (ar_todo st fd)"
  shows "\<exists>st'. ar_write fd bs st = Some (c_int (int (length bs)), st') \<and> ar_ok st' fd
    \<and> ar_done st' fd = ar_done st fd @ bs \<and> ar_todo st' fd = drop (length bs) (ar_todo st fd)"
proof (rule ar_okE [OF ok])
  fix b off m
  let ?a = "s_ars st fd" and ?n = "int (length bs)"
  assume a: "fd2ar st fd = Some ?a" "ar_buf ?a = Some (b, off)" "ar_mem st b = Some m" "0 \<le> off"
    "off + ar_buf_len ?a \<le> int (length m)" "0 \<le> ar_rptr ?a" "ar_rptr ?a \<le> ar_buf_len ?a" "ar_buf_len ?a \<le> INT_MAX"
  have all: "ar_all st fd = slice m off (off + ar_buf_len ?a)" using a by (simp add: ar_all_def)
  have len: "length (ar_all st fd) = nat (ar_buf_len ?a)" using a by (simp add: all length_slice)
  have fits: "ar_rptr ?a + ?n \<le> ar_buf_len ?a" using room len a by (simp add: ar_todo_def)
  obtain m' where m': "mem_put m (off + ar_rptr ?a) bs = Some m'" using fits a mem_put_defined [of m "off + ar_rptr ?a" bs] by auto
  let ?st = "(set_ar st fd (?a\<lparr>ar_rptr := ar_rptr ?a + ?n\<rparr>))\<lparr>ar_mem := (ar_mem st)(b \<mapsto> m')\<rparr>"
  have cs: "c_size (ar_rptr ?a + ?n) = ar_rptr ?a + ?n" using fits a by (intro c_size_id) (simp_all add: INT_MAX_def)
  have run: "ar_write fd bs st = Some (c_int ?n, ?st)"
    using a m' cs room ar_left_todo [OF ok] by (simp add: ar_write_def)
  have len': "length m' = length m" using mem_put_length [OF m'] .
  then have ok': "ar_ok ?st fd" using a fits ok by (simp add: ar_ok_def set_ar_def)
  have all': "ar_all ?st fd = slice m' off (off + ar_buf_len ?a)" using a by (simp add: ar_all_def set_ar_def)
  have "ar_done ?st fd = slice m' off (off + (ar_rptr ?a + ?n))"
    using a fits by (simp add: ar_done_def all') (simp add: set_ar_def slice_take [symmetric])
  also have "\<dots> = slice m' off (off + ar_rptr ?a) @ slice m' (off + ar_rptr ?a) (off + (ar_rptr ?a + ?n))"
    using a by (intro slice_append [symmetric]) simp_all
  also have "\<dots> = ar_done st fd @ bs"
    using a mem_put_below [OF m', of off "off + ar_rptr ?a"] mem_put_same [OF m'] slice_take [of off "ar_rptr ?a" "off + ar_buf_len ?a" m]
    by (simp add: ar_done_def all add.assoc)
  finally have done': "ar_done ?st fd = ar_done st fd @ bs" .
  have "ar_todo ?st fd = slice m' (off + (ar_rptr ?a + ?n)) (off + ar_buf_len ?a)"
    using a slice_drop [of off "ar_rptr ?a + ?n" m' "off + ar_buf_len ?a"] by (simp add: ar_todo_def all') (simp add: set_ar_def)
  then have "ar_todo ?st fd = drop (length bs) (ar_todo st fd)"
    using a mem_put_above [OF m', of "off + (ar_rptr ?a + ?n)" "off + ar_buf_len ?a"]
      slice_drop [of off "ar_rptr ?a + ?n" m "off + ar_buf_len ?a"]
    by (simp add: ar_todo_def all nat_add_distrib add.commute)
  then show ?thesis using run ok' done' by blast
qed

lemma ar_advance:
  assumes ok: "ar_ok st fd" and n: "0 \<le> n" "n \<le> int (length (ar_todo st fd))"
  shows "let st' = set_ar st fd (s_ars st fd\<lparr>ar_rptr := c_size (ar_rptr (s_ars st fd) + n)\<rparr>)
    in ar_ok st' fd \<and> ar_todo st' fd = drop (nat n) (ar_todo st fd)"
proof (rule ar_okE [OF ok])
  fix b off m
  let ?a = "s_ars st fd"
  assume a: "fd2ar st fd = Some ?a" "ar_buf ?a = Some (b, off)" "ar_mem st b = Some m" "0 \<le> off"
    "off + ar_buf_len ?a \<le> int (length m)" "0 \<le> ar_rptr ?a" "ar_rptr ?a \<le> ar_buf_len ?a" "ar_buf_len ?a \<le> INT_MAX"
  have "length (ar_all st fd) = nat (ar_buf_len ?a)" using a by (simp add: ar_all_def length_slice)
  then have fits: "ar_rptr ?a + n \<le> ar_buf_len ?a" using n a by (simp add: ar_todo_def)
  then have "c_size (ar_rptr ?a + n) = ar_rptr ?a + n" using a n by (intro c_size_id) (simp_all add: INT_MAX_def)
  then show ?thesis
    using a fits n ok by (simp add: ar_ok_def set_ar_def ar_todo_def ar_all_def nat_add_distrib add.commute)
qed

lemma ar_peek:
  assumes ok: "ar_ok st fd" and bs: "ar_todo st fd = pre @ bs @ rest"
  obtains b off m where "fd2ar st fd = Some (s_ars st fd)" "ar_buf (s_ars st fd) = Some (b, off)" "ar_mem st b = Some m"
    "mem_get m (off + (ar_rptr (s_ars st fd) + int (length pre))) (int (length bs)) = Some bs"
    "ar_rptr (s_ars st fd) + int (length pre) + int (length bs) \<le> INT_MAX" "0 \<le> ar_rptr (s_ars st fd)"
proof (rule ar_okE [OF ok])
  fix b off m
  let ?a = "s_ars st fd" and ?n = "int (length bs)" and ?k = "int (length pre)"
  assume a: "fd2ar st fd = Some ?a" "ar_buf ?a = Some (b, off)" "ar_mem st b = Some m" "0 \<le> off"
    "off + ar_buf_len ?a \<le> int (length m)" "0 \<le> ar_rptr ?a" "ar_rptr ?a \<le> ar_buf_len ?a" "ar_buf_len ?a \<le> INT_MAX"
  have todo: "ar_todo st fd = slice m (off + ar_rptr ?a) (off + ar_buf_len ?a)"
    using a slice_drop [of off "ar_rptr ?a" m "off + ar_buf_len ?a"] by (simp add: ar_todo_def ar_all_def)
  then have fits: "ar_rptr ?a + ?k + ?n \<le> ar_buf_len ?a"
    using a length_slice [of "off + ar_rptr ?a" "off + ar_buf_len ?a" m] arg_cong [OF bs, of length] by simp
  have "slice m (off + ar_rptr ?a + ?k) (off + ar_buf_len ?a) = bs @ rest"
    using a bs todo slice_drop [of "off + ar_rptr ?a" ?k m "off + ar_buf_len ?a"] by simp
  then have "mem_get m (off + (ar_rptr ?a + ?k)) ?n = Some bs"
    using a fits slice_take [of "off + ar_rptr ?a + ?k" ?n "off + ar_buf_len ?a" m] by (simp add: mem_get_inside add.assoc)
  then show thesis using a fits that by simp
qed

lemma ar_read_law:
  assumes ok: "ar_ok st fd" and bs: "ar_todo st fd = bs @ rest"
  shows "\<exists>st'. ar_read fd (int (length bs)) st = Some (Some bs, st') \<and> ar_ok st' fd \<and> ar_todo st' fd = rest"
  by (rule ar_peek [OF ok, of "[]" bs rest])
    (use bs ar_left_todo [OF ok] ar_advance [OF ok, of "int (length bs)"] in \<open>simp_all add: ar_read_def Let_def\<close>)

section \<open>Items\<close>

text \<open>The values a script writes, the arguments of the calls, and the bytes they become.\<close>

datatype ar_item = Int8 int | Int16 int | Int32 int | Int64 int | Lstr "byte list" | Str "byte list"

definition call_with :: "nat \<Rightarrow> int \<Rightarrow> int \<Rightarrow> lua_args" where
  "call_with n fd x = \<lparr>gettop = n, arg = (\<lambda>k. \<lparr>is_number = True, to_number = (if k = 1 then fd else x), is_string = True,
     to_cstring = None, is_userdata = False, to_userdata = None\<rparr>)\<rparr>"

lemma call_with_simps [simp]:
  "gettop (call_with n fd x) = n" "is_number (arg (call_with n fd x) k)" "is_string (arg (call_with n fd x) k)"
  "to_number (arg (call_with n fd x) (Suc 0)) = fd" "to_number (arg (call_with n fd x) 2) = x"
  by (simp_all add: call_with_def)

fun write_item :: "int \<Rightarrow> ar_item \<Rightarrow> ars \<Rightarrow> (aptr lua_out \<times> ars) option" where
  "write_item fd (Int8 v) = lwriteint8 (call_with 2 fd v)"
| "write_item fd (Int16 v) = lwriteint16 (call_with 2 fd v)"
| "write_item fd (Int32 v) = lwriteint32 (call_with 2 fd v)"
| "write_item fd (Int64 v) = lwriteint64 (call_with 2 fd v)"
| "write_item fd (Lstr s) = lwritelstr (call_with 2 fd 0) s"
| "write_item fd (Str s) = lwritestr (call_with 2 fd 0) s"

fun read_item :: "int \<Rightarrow> ar_item \<Rightarrow> ars \<Rightarrow> (aptr lua_out \<times> ars) option" where
  "read_item fd (Int8 v) = ar_lreadint8 (call_with 1 fd 0)"
| "read_item fd (Int16 v) = ar_lreadint16 (call_with 1 fd 0)"
| "read_item fd (Int32 v) = ar_lreadint32 (call_with 1 fd 0)"
| "read_item fd (Int64 v) = ar_lreadint64 (call_with 1 fd 0)"
| "read_item fd (Lstr s) = lreadlstr (call_with 1 fd 0)"
| "read_item fd (Str s) = lreadstr (call_with 2 fd (int (length s)))"

fun item_bytes :: "ar_item \<Rightarrow> byte list" where
  "item_bytes (Int8 v) = le_bytes 1 (c_char v)"
| "item_bytes (Int16 v) = le_bytes 2 (c_short v)"
| "item_bytes (Int32 v) = le_bytes 4 (c_int v)"
| "item_bytes (Int64 v) = le_bytes 8 (c_long v)"
| "item_bytes (Lstr s) = le_bytes 2 (c_short (int (length s))) @ s"
| "item_bytes (Str s) = s"

text \<open>What is read back: the value as its type holds it.\<close>

fun item_value :: "ar_item \<Rightarrow> aptr lua_out" where
  "item_value (Int8 v) = ([LInt (c_char v)], 1)"
| "item_value (Int16 v) = ([LInt (c_short v)], 1)"
| "item_value (Int32 v) = ([LInt (c_int v)], 1)"
| "item_value (Int64 v) = ([LInt (c_long v)], 1)"
| "item_value (Lstr s) = ([LStr s], 1)"
| "item_value (Str s) = ([LStr s], 1)"

fun item_ok :: "ar_item \<Rightarrow> bool" where
  "item_ok (Lstr s) \<longleftrightarrow> length s < 32768"
| "item_ok _ \<longleftrightarrow> True"

lemma ar_fd: "ar_ok st fd \<Longrightarrow> c_int fd = fd"
  by (rule c_int_id) (simp add: ar_ok_def MAX_AR_def in_int_def INT_MIN_def INT_MAX_def)

lemma signed_idem: "signed_take_bit n (v mod 2 ^ Suc n) = signed_take_bit n (v :: int)"
  using signed_take_bit_take_bit [of n "Suc n" v] by (simp add: take_bit_eq_mod)

lemma int_back:
  "c_char (le_val (le_bytes (Suc 0) (c_char v))) = c_char v" "c_short (le_val (le_bytes 2 (c_short v))) = c_short v"
  "c_int (le_val (le_bytes 4 (c_int v))) = c_int v" "c_long (le_val (le_bytes 8 (c_long v))) = c_long v"
  using signed_idem [of 7 "c_char v"] signed_idem [of 15 "c_short v"] signed_idem [of 31 "c_int v"] signed_idem [of 63 "c_long v"]
  by (simp_all add: le_val_le_bytes c_char_def c_short_def c_int_def c_long_def del: le_bytes.simps)

lemma write_item_law:
  assumes ok: "ar_ok st fd" and room: "length (item_bytes it) \<le> length (ar_todo st fd)"
  shows "\<exists>out st'. write_item fd it st = Some (out, st') \<and> ar_ok st' fd
    \<and> ar_done st' fd = ar_done st fd @ item_bytes it \<and> ar_todo st' fd = drop (length (item_bytes it)) (ar_todo st fd)"
proof -
  note fd = ar_fd [OF ok] and left = ar_left_todo [OF ok]
  have self: "fd2ar st fd = Some (s_ars st fd)" by (rule ar_okE [OF ok])
  have num: "\<exists>out st'. write_int n conv (call_with 2 fd v) st = Some (out, st') \<and> ar_ok st' fd
      \<and> ar_done st' fd = ar_done st fd @ le_bytes n (conv v) \<and> ar_todo st' fd = drop n (ar_todo st fd)"
    if "n \<le> length (ar_todo st fd)" for n conv v
    using ar_write_law [OF ok, of "le_bytes n (conv v)"] that fd by (auto simp: write_int_def two_args_def)
  show ?thesis
  proof (cases it)
    case (Lstr s)
    let ?l = "le_bytes 2 (c_short (int (length s)))"
    from ar_write_law [OF ok, of ?l] room Lstr obtain r st1 where
      w1: "ar_write fd ?l st = Some (r, st1)" "ar_ok st1 fd" "ar_done st1 fd = ar_done st fd @ ?l" "ar_todo st1 fd = drop 2 (ar_todo st fd)"
      by auto
    have "length s \<le> length (ar_todo st1 fd)" using room Lstr w1(4) by simp
    from ar_write_law [OF w1(2) this] obtain r' st2 where
      "ar_write fd s st1 = Some (r', st2)" "ar_ok st2 fd" "ar_done st2 fd = ar_done st1 fd @ s" "ar_todo st2 fd = drop (length s) (ar_todo st1 fd)"
      by auto
    then show ?thesis using w1 Lstr fd self left room by (simp add: lwritelstr_def str_args_def add.commute)
  next
    case (Str s)
    then show ?thesis using ar_write_law [OF ok, of s] fd self left room by (auto simp: lwritestr_def str_args_def)
  qed (use num room in \<open>simp_all add: lwriteint8_def lwriteint16_def lwriteint32_def lwriteint64_def del: le_bytes.simps\<close>)
qed

lemma read_item_law:
  assumes ok: "ar_ok st fd" and it: "item_ok it" and bs: "ar_todo st fd = item_bytes it @ rest"
  shows "\<exists>st'. read_item fd it st = Some (item_value it, st') \<and> ar_ok st' fd \<and> ar_todo st' fd = rest"
proof -
  note fd = ar_fd [OF ok] and left = ar_left_todo [OF ok]
  have num: "\<exists>st'. read_int (int n) conv (call_with 1 fd 0) st = Some (([LInt (conv (le_val (le_bytes n v)))], 1), st')
      \<and> ar_ok st' fd \<and> ar_todo st' fd = rest"
    if "ar_todo st fd = le_bytes n v @ rest" for n conv v
    using ar_read_law [OF ok that] fd by (auto simp: read_int_def)
  show ?thesis
  proof (cases it)
    case (Int8 v) then show ?thesis using num [of 1 "c_char v" c_char] bs int_back(1) [of v] by (simp add: ar_lreadint8_def)
  next
    case (Int16 v) then show ?thesis using num [of 2 "c_short v" c_short] bs int_back(2) [of v] by (simp add: ar_lreadint16_def)
  next
    case (Int32 v) then show ?thesis using num [of 4 "c_int v" c_int] bs int_back(3) [of v] by (simp add: ar_lreadint32_def)
  next
    case (Int64 v) then show ?thesis using num [of 8 "c_long v" c_long] bs int_back(4) [of v] by (simp add: ar_lreadint64_def)
  next
    case (Str s)
    with bs have t: "ar_todo st fd = [] @ s @ rest" by simp
    show ?thesis
    proof (rule ar_peek [OF ok t])
      fix b off m
      assume a: "fd2ar st fd = Some (s_ars st fd)" "ar_buf (s_ars st fd) = Some (b, off)" "ar_mem st b = Some m"
        "mem_get m (off + (ar_rptr (s_ars st fd) + int (length ([] :: byte list)))) (int (length s)) = Some s"
        "ar_rptr (s_ars st fd) + int (length ([] :: byte list)) + int (length s) \<le> INT_MAX" "0 \<le> ar_rptr (s_ars st fd)"
      then have "c_size (int (length s)) = int (length s)" by (intro c_size_id) (simp_all add: INT_MAX_def)
      then show ?thesis
        using a Str t fd left ar_advance [OF ok, of "int (length s)"] by (simp add: lreadstr_def two_args_def Let_def)
    qed
  next
    case (Lstr s)
    let ?l = "le_bytes 2 (c_short (int (length s)))" and ?a = "s_ars st fd"
    have len: "c_short (int (length s)) = int (length s)" using it Lstr by (simp add: c_short_def signed_take_bit_id)
    have "c_short (le_val ?l) = int (length s)" using int_back(2) [of "int (length s)"] len by simp
    moreover have t: "ar_todo st fd = [] @ ?l @ (s @ rest)" "ar_todo st fd = ?l @ s @ rest" using bs Lstr by simp_all
    obtain b off m where a: "fd2ar st fd = Some ?a" "ar_buf ?a = Some (b, off)" "ar_mem st b = Some m"
      "mem_get m (off + (ar_rptr ?a + int (length ([] :: byte list)))) (int (length ?l)) = Some ?l" by (rule ar_peek [OF ok t(1)])
    moreover from ar_peek [OF ok t(2)] a have a': "mem_get m (off + (ar_rptr ?a + int (length ?l))) (int (length s)) = Some s"
      "ar_rptr ?a + int (length ?l) + int (length s) \<le> INT_MAX" "0 \<le> ar_rptr ?a" by (metis option.inject prod.inject)+
    moreover have "c_size (ar_rptr ?a + 2) = ar_rptr ?a + 2" "c_size (int (length s)) = int (length s)" "c_size (int (length s) + 2) = int (length s) + 2"
      using a'(2,3) by (simp_all add: c_size_id INT_MAX_def)
    ultimately show ?thesis
      using Lstr fd left t(2) ar_advance [OF ok, of "int (length s) + 2"]
      by (simp add: lreadlstr_def Let_def add.assoc add.commute [of 2])
  qed
qed

section \<open>Writing and reading back\<close>

fun write_all :: "int \<Rightarrow> ar_item list \<Rightarrow> ars \<Rightarrow> ars option" where
  "write_all fd [] st = Some st"
| "write_all fd (it # its) st = do { (out, st) \<leftarrow> write_item fd it st; write_all fd its st }"

fun read_all :: "int \<Rightarrow> ar_item list \<Rightarrow> ars \<Rightarrow> (aptr lua_out list \<times> ars) option" where
  "read_all fd [] st = Some ([], st)"
| "read_all fd (it # its) st = do { (out, st) \<leftarrow> read_item fd it st; (outs, st) \<leftarrow> read_all fd its st; Some (out # outs, st) }"

definition all_bytes :: "ar_item list \<Rightarrow> byte list" where
  "all_bytes its = concat (map item_bytes its)"

lemma write_all_law:
  assumes "ar_ok st fd" "length (all_bytes its) \<le> length (ar_todo st fd)"
  shows "\<exists>st'. write_all fd its st = Some st' \<and> ar_ok st' fd \<and> ar_done st' fd = ar_done st fd @ all_bytes its"
  using assms
proof (induction its arbitrary: st)
  case (Cons it its)
  from write_item_law [OF Cons.prems(1), of it] Cons.prems(2) obtain out st1 where
    w: "write_item fd it st = Some (out, st1)" "ar_ok st1 fd" "ar_done st1 fd = ar_done st fd @ item_bytes it"
      "ar_todo st1 fd = drop (length (item_bytes it)) (ar_todo st fd)" by (auto simp: all_bytes_def)
  have "length (all_bytes its) \<le> length (ar_todo st1 fd)" using Cons.prems(2) w(4) by (simp add: all_bytes_def)
  from Cons.IH [OF w(2) this] w show ?case by (auto simp: all_bytes_def)
qed (simp add: all_bytes_def)

lemma read_all_law:
  assumes "ar_ok st fd" "\<forall>it \<in> set its. item_ok it" "ar_todo st fd = all_bytes its @ rest"
  shows "\<exists>st'. read_all fd its st = Some (map item_value its, st') \<and> ar_todo st' fd = rest"
  using assms
proof (induction its arbitrary: st)
  case (Cons it its)
  from read_item_law [OF Cons.prems(1), of it "all_bytes its @ rest"] Cons.prems(2,3) obtain st1 where
    r: "read_item fd it st = Some (item_value it, st1)" "ar_ok st1 fd" "ar_todo st1 fd = all_bytes its @ rest" by (auto simp: all_bytes_def)
  from Cons.IH [OF r(2) _ r(3)] r(1) Cons.prems(2) show ?case by auto
qed (simp add: all_bytes_def)

lemma rewind_law:
  assumes ok: "ar_ok st fd"
  shows "\<exists>st'. lrewind fd st = Some (([], 0), st') \<and> ar_ok st' fd \<and> ar_todo st' fd = ar_done st fd @ ar_todo st fd"
  by (rule ar_okE [OF ok])
    (use ok in \<open>simp add: lrewind_def ar_fd [OF ok] set_ar_def ar_todo_def ar_done_def ar_all_def ar_ok_def\<close>)

text \<open>C36: What is written to an archive is read back: any sequence of numbers and strings that fits
  into the rest of the buffer can be written, and after \<open>rewind\<close> the same sequence of reads gives
  the same values, each number as its type holds it, provided that the strings with a length in
  front are shorter than \<open>32768\<close> bytes.\<close>

theorem ar_roundtrip:
  assumes ok: "ar_ok st fd" and start: "ar_rptr (s_ars st fd) = 0" and items: "\<forall>it \<in> set its. item_ok it"
    and room: "length (all_bytes its) \<le> length (ar_todo st fd)"
  shows "\<exists>st1 st2 st3. write_all fd its st = Some st1 \<and> lrewind fd st1 = Some (([], 0), st2)
    \<and> read_all fd its st2 = Some (map item_value its, st3)"
proof -
  from write_all_law [OF ok room] obtain st1 where
    w: "write_all fd its st = Some st1" "ar_ok st1 fd" "ar_done st1 fd = all_bytes its" using start by (auto simp: ar_done_def)
  from rewind_law [OF w(2)] obtain st2 where
    r: "lrewind fd st1 = Some (([], 0), st2)" "ar_ok st2 fd" "ar_todo st2 fd = all_bytes its @ ar_todo st1 fd" using w(3) by auto
  from read_all_law [OF r(2) items r(3)] w(1) r(1) show ?thesis by blast
qed

definition small_ars :: ars where
  "small_ars = \<lparr>s_ars = (\<lambda>i. \<lparr>ar_buf = Some (0, 2), ar_buf_len = 20, ar_rptr = 0, ar_used = 1\<rparr>), ar_mem = [0 \<mapsto> replicate 24 7], ar_brk = 1\<rparr>"

theorem ar_roundtrip_witness:
  "\<exists>st1 st2 st3. write_all 3 [Int16 (- 2), Lstr [104, 105], Int8 300, Int64 5] small_ars = Some st1
    \<and> lrewind 3 st1 = Some (([], 0), st2)
    \<and> read_all 3 [Int16 (- 2), Lstr [104, 105], Int8 300, Int64 5] st2
      = Some (map item_value [Int16 (- 2), Lstr [104, 105], Int8 300, Int64 5], st3)"
  by (rule ar_roundtrip)
    (simp_all add: ar_ok_def small_ars_def MAX_AR_def INT_MAX_def ar_todo_def ar_all_def slice_def all_bytes_def)

end
