(* ===== verification/Lstring.thy ===== *)
theory Lstring
  imports Lrecvbuf Decimal Lua_Args Lua_Path
begin

text \<open>
  The functions added to Lua's string library, \<open>src/src/stringpatch/lstringpatch.cc\<close>, and to its bit
  library, \<open>src/src/bitpatch/lbitpatch.cc\<close>. A Lua string is its bytes, in memory followed by a
  zero; a table that is built or read as a sequence is a list. A result \<open>Some None\<close> is a call that
  returns no value.
\<close>

section \<open>Splitting\<close>

definition lua_block :: "byte list \<Rightarrow> block" where
  "lua_block s = s @ [0]"

text \<open>The string \<open>lua_pushstring\<close> takes from a pointer.\<close>

definition cstr_at :: "block \<Rightarrow> int \<Rightarrow> byte list option" where
  "cstr_at m p = do { n \<leftarrow> strlen m p; mem_get m p n }"

text \<open>
  The loop of \<open>lsplit\<close>; \<open>i\<close> is a \<open>size_t\<close>, \<open>lst\<close> the offset of \<open>last_str\<close>. With an empty token it
  does not get on.
\<close>

partial_function (option) split_loop ::
  "block \<Rightarrow> byte list \<Rightarrow> int \<Rightarrow> int \<Rightarrow> int \<Rightarrow> byte list list \<Rightarrow> (int \<times> byte list list) option" where
  "split_loop m token str_len i lst acc =
     (if i < str_len
      then
        Option.bind (strncmp_eq m i token) (\<lambda>eq.
          if eq
          then
            Option.bind (mem_get m lst (i - lst)) (\<lambda>piece.
              split_loop m token str_len (c_size (c_size (i + int (length token) - 1) + 1))
                (c_size (i + int (length token) - 1) + int (length token)) (acc @ [piece]))
          else split_loop m token str_len (c_size (i + 1)) lst acc)
      else Some (lst, acc))"

definition lsplit :: "lua_args \<Rightarrow> byte list \<Rightarrow> byte list \<Rightarrow> byte list list option option" where
  "lsplit a str token =
     (if is_string (arg a 1) \<and> is_string (arg a 2)
      then do {
        let m = lua_block str;
        (lst, acc) \<leftarrow> split_loop m token (int (length str)) 0 0 [];
        piece \<leftarrow> (if lst = 0 then cstr_at m 0 else cstr_at m lst);
        Some (Some (acc @ [piece]))
      }
      else Some None)"

section \<open>Joining\<close>

text \<open>The static buffer: its size; what matters of its contents is the string in it.\<close>

record join_state =
  s_join_buf :: bool
  s_join_buf_len :: int

definition strcat :: "int \<Rightarrow> byte list \<Rightarrow> byte list \<Rightarrow> byte list option" where
  "strcat cap dst src =
     (let s = takeWhile (\<lambda>c. c \<noteq> 0) src
      in if int (length dst) + int (length s) < cap then Some (dst @ s) else None)"

text \<open>The second loop: the values in the order of \<open>lua_next\<close>, \<open>None\<close> for one without a string.\<close>

fun join_loop :: "int \<Rightarrow> byte list \<Rightarrow> int \<Rightarrow> byte list option list \<Rightarrow> byte list \<Rightarrow> byte list option" where
  "join_loop cap joinstr count [] out = Some out"
| "join_loop cap joinstr count (v # vs) out =
     do {
       s \<leftarrow> v;
       out \<leftarrow> strcat cap out s;
       out \<leftarrow> (if 1 < count then strcat cap out joinstr else Some out);
       join_loop cap joinstr (count - 1) vs out
     }"

definition join_size :: "byte list option list \<Rightarrow> int" where
  "join_size vs = c_size (1 + (\<Sum>v \<leftarrow> vs. (case v of None \<Rightarrow> 0 | Some s \<Rightarrow> int (length s)) + 1))"

text \<open>\<open>ok\<close> is whether \<open>malloc\<close> or \<open>realloc\<close> succeeds.\<close>

definition ljoin ::
  "lua_args \<Rightarrow> bool \<Rightarrow> byte list \<Rightarrow> byte list option list \<Rightarrow> bool \<Rightarrow> join_state \<Rightarrow> (byte list option \<times> join_state) option" where
  "ljoin a is_table joinstr vs ok st =
     (if is_string (arg a 1) \<and> is_table
      then
        (let str_len = join_size vs;
             more = c_size (s_join_buf_len st) < str_len
         in if more \<and> \<not> ok then Some (None, st)
            else do {
              let st = (if more then st\<lparr>s_join_buf := True, s_join_buf_len := c_int str_len\<rparr> else st);
              out \<leftarrow> join_loop (s_join_buf_len st) joinstr (int (length vs)) vs [];
              Some (Some out, st)
            })
      else Some (None, st))"

section \<open>Capitals, digests, tables\<close>

definition toupper :: "byte \<Rightarrow> byte" where
  "toupper c = (if 97 \<le> c \<and> c \<le> 122 then c - 32 else c)"

text \<open>\<open>lcap\<close>: the copy ends at the first zero, the result has the length of the argument; the bytes of
  \<open>dst\<close> behind the copy are indeterminate.\<close>

definition lcap :: "lua_args \<Rightarrow> byte list \<Rightarrow> byte list option option" where
  "lcap a str =
     (if is_string (arg a 1)
      then do {
        s \<leftarrow> strcpy 1024 (Some (takeWhile (\<lambda>c. c \<noteq> 0) str));
        let dst = lua_block s;
        let dst = dst[0 := toupper (dst ! 0)];
        if length str \<le> length dst then Some (Some (take (length str) dst)) else None
      }
      else Some None)"

text \<open>\<open>MD5\<close> of \<open>md5.cc\<close> does nothing: the digest is what the array \<open>md\<close> happens to hold.\<close>

definition MD5 :: "byte list \<Rightarrow> byte list \<Rightarrow> byte list" where
  "MD5 str md = md"

definition lmd5 :: "lua_args \<Rightarrow> byte list \<Rightarrow> byte list \<Rightarrow> byte list" where
  "lmd5 a str md =
     (if gettop a = 1 \<and> is_string (arg a 1) then concat (map hex2 (MD5 str md)) else [])"

text \<open>\<open>lgettable\<close>: the fourth copy of the lookup of \<open>Lua_Path\<close>, above its argument on the stack.\<close>

definition string_lgettable :: "lua_names \<Rightarrow> byte list \<Rightarrow> lval list \<Rightarrow> (int \<times> lval list) option" where
  "string_lgettable G func st = path_loop (frame_top st) G True [] func st"

section \<open>Bits\<close>

definition lbitand :: "int \<Rightarrow> int \<Rightarrow> unit lua_out" where
  "lbitand n1 n2 = ([LInt (sint ((word_of_int n1 :: 32 word) AND word_of_int n2))], 1)"

definition lbitnot :: "int \<Rightarrow> unit lua_out" where
  "lbitnot n1 = ([LInt (sint (NOT (word_of_int n1 :: 32 word)))], 1)"

definition lbitor :: "int \<Rightarrow> int \<Rightarrow> unit lua_out" where
  "lbitor n1 n2 = ([LInt (sint ((word_of_int n1 :: 32 word) OR word_of_int n2))], 1)"

end
