(* ===== verification/Lstring_Spec.thy ===== *)
theory Lstring_Spec
  imports Lstring
begin

text \<open>
  Splitting at a single character is the split of the specification, and joining the pieces gives
  the string back; with a longer token characters are lost.
\<close>

section \<open>The specification\<close>

fun split_on :: "byte \<Rightarrow> byte list \<Rightarrow> byte list list" where
  "split_on c [] = [[]]"
| "split_on c (x # xs) = (if x = c then [] # split_on c xs else (x # hd (split_on c xs)) # tl (split_on c xs))"

fun join_with :: "byte list \<Rightarrow> byte list list \<Rightarrow> byte list" where
  "join_with j [] = []"
| "join_with j [s] = s"
| "join_with j (s # ss) = s @ j @ join_with j ss"

lemma split_on_nonempty [simp]: "split_on c s \<noteq> []"
  by (cases s) auto

lemma join_with_Cons: "join_with j ((x # s) # ss) = x # join_with j (s # ss)"
  by (cases ss) auto

lemma join_split: "join_with [c] (split_on c s) = s"
proof (induction s)
  case (Cons x xs)
  then show ?case by (cases "split_on c xs") (auto simp: join_with_Cons)
qed simp

lemma split_pieces: "p \<in> set (split_on c s) \<Longrightarrow> set p \<subseteq> set s"
proof (induction s arbitrary: p)
  case (Cons x xs)
  have hd: "set (hd (split_on c xs)) \<subseteq> set xs" using Cons.IH by simp
  from Cons.prems consider "p = []" "x = c" | "p \<in> set (split_on c xs)" | "p = x # hd (split_on c xs)"
    by (cases "split_on c xs") (auto split: if_splits)
  then show ?case
  proof cases
    case 2
    then show ?thesis using Cons.IH by fastforce
  next
    case 3
    then show ?thesis using hd by auto
  qed simp
qed simp

section \<open>Splitting at one character\<close>

lemma at_char: "i < length str \<Longrightarrow> c \<noteq> 0 \<Longrightarrow> strncmp_eq (lua_block str) (int i) [c] = Some (str ! i = c)"
  by (simp add: lua_block_def nth_append)

lemma split_loop_law:
  assumes c: "c \<noteq> 0" and len: "length str < 2 ^ 62"
  shows "lst \<le> i \<Longrightarrow> i \<le> length str \<Longrightarrow>
    \<exists>lst'. split_loop (lua_block str) [c] (int (length str)) (int i) (int lst) acc
        = Some (int lst', acc @ butlast ((slice str (int lst) (int i) @ hd (split_on c (drop i str))) # tl (split_on c (drop i str))))
      \<and> lst' \<le> length str
      \<and> drop lst' str = last ((slice str (int lst) (int i) @ hd (split_on c (drop i str))) # tl (split_on c (drop i str)))"
proof (induction "length str - i" arbitrary: i lst acc)
  case 0
  then have "i = length str" by simp
  moreover have "slice str (int lst) (int (length str)) = drop lst str" using 0 by (simp add: slice_def)
  ultimately show ?case using 0 by (intro exI [of _ lst]) (simp add: split_loop.simps)
next
  case (Suc k)
  then have i: "i < length str" by simp
  have dr: "drop i str = str ! i # drop (Suc i) str" using i by (simp add: Cons_nth_drop_Suc)
  have cs: "c_size (int i) = int i" "c_size (int i + 1) = int (Suc i)" using i len by (simp_all add: c_size_id)
  have snoc: "slice str (int lst) (int i) @ [str ! i] = slice str (int lst) (int (Suc i))"
    using Suc.prems i slice_append [of "int lst" "int i" "int (Suc i)" str] by (simp add: slice_def take_Suc_conv_app_nth hd_drop_conv_nth take_Suc)
  have snoc': "slice str (int lst) (1 + int i) = slice str (int lst) (int i) @ [str ! i]" using snoc by simp
  show ?case
  proof (cases "str ! i = c")
    case True
    have get: "mem_get (lua_block str) (int lst) (int i - int lst) = Some (slice str (int lst) (int i))"
      using Suc.prems i by (simp add: mem_get_def lua_block_def slice_def)
    have "split_loop (lua_block str) [c] (int (length str)) (int i) (int lst) acc
        = split_loop (lua_block str) [c] (int (length str)) (int (Suc i)) (int (Suc i)) (acc @ [slice str (int lst) (int i)])"
      using i at_char [OF i c] True get cs by (subst split_loop.simps) (simp add: add.commute)
    with Suc.hyps(1) [of "Suc i" "Suc i" "acc @ [slice str (int lst) (int i)]"] Suc.hyps(2) i show ?thesis
      by (simp add: dr True)
  next
    case False
    have "split_loop (lua_block str) [c] (int (length str)) (int i) (int lst) acc
        = split_loop (lua_block str) [c] (int (length str)) (int (Suc i)) (int lst) acc"
      using i at_char [OF i c] False cs by (subst split_loop.simps) simp
    with Suc.hyps(1) [of "Suc i" lst acc] Suc.hyps(2) Suc.prems i show ?thesis
      by (simp add: dr False snoc' add.commute)
  qed
qed

lemma cstr_at_tail: "0 \<notin> set str \<Longrightarrow> p \<le> length str \<Longrightarrow> cstr_at (lua_block str) (int p) = Some (drop p str)"
proof -
  assume z: "0 \<notin> set str" and p: "p \<le> length str"
  have d: "drop p (lua_block str) = drop p str @ [0]" using p by (simp add: lua_block_def)
  have "\<forall>x \<in> set (drop p str). x \<noteq> 0" using z in_set_dropD by metis
  then have "takeWhile (\<lambda>c. c \<noteq> 0) (drop p str @ [0]) = drop p str" by (simp add: takeWhile_append2)
  then show ?thesis using p by (simp add: cstr_at_def strlen_def d mem_get_def) (simp add: lua_block_def)
qed

lemma split_law:
  assumes a: "is_string (arg a 1)" "is_string (arg a 2)" and c: "c \<noteq> 0" and str: "0 \<notin> set str" "length str < 2 ^ 62"
  shows "lsplit a str [c] = Some (Some (split_on c str))"
proof -
  from split_loop_law [OF c str(2), of 0 0 "[]"] obtain p where
    l: "split_loop (lua_block str) [c] (int (length str)) 0 0 [] = Some (int p, butlast (split_on c str))" "p \<le> length str"
      "drop p str = last (split_on c str)"
    by (cases "split_on c str") auto
  have "(if int p = 0 then cstr_at (lua_block str) 0 else cstr_at (lua_block str) (int p)) = Some (last (split_on c str))"
    using cstr_at_tail [OF str(1) l(2)] l(3) by (cases p) simp_all
  then show ?thesis using a l(1) by (simp add: lsplit_def Let_def del: split_on.simps)
qed

section \<open>Joining\<close>

lemma strcat_law: "0 \<notin> set src \<Longrightarrow> int (length dst) + int (length src) < cap \<Longrightarrow> strcat cap dst src = Some (dst @ src)"
proof -
  assume z: "0 \<notin> set src" and len: "int (length dst) + int (length src) < cap"
  have "takeWhile (\<lambda>c. c \<noteq> 0) src = src" using z by (auto simp: takeWhile_eq_all_conv)
  then show ?thesis using len unfolding strcat_def Let_def by (simp only: if_True)
qed

lemma join_loop_law:
  assumes "\<forall>s \<in> set vs. 0 \<notin> set s" "c \<noteq> 0" "int (length out) + int (length (join_with [c] vs)) < cap"
  shows "join_loop cap [c] (int (length vs)) (map Some vs) out = Some (out @ join_with [c] vs)"
  using assms
proof (induction vs arbitrary: out)
  case (Cons v vs)
  show ?case
  proof (cases vs)
    case Nil
    then show ?thesis using Cons.prems strcat_law [of v out cap] by simp
  next
    case (Cons u us)
    then show ?thesis
      using Cons.prems Cons.IH [of "out @ v @ [c]"] strcat_law [of v out cap] strcat_law [of "[c]" "out @ v" cap] by simp
  qed
qed simp

lemma join_with_length: "vs \<noteq> [] \<Longrightarrow> length (join_with [c] vs) + 1 = (\<Sum>v \<leftarrow> vs. length v + 1)"
  by (induction "[c]" vs rule: join_with.induct) auto

lemma join_size_law: "vs \<noteq> [] \<Longrightarrow> int (length (join_with [c] vs)) + 2 < 2 ^ 64 \<Longrightarrow>
    join_size (map Some vs) = int (length (join_with [c] vs)) + 2"
proof -
  assume vs: "vs \<noteq> []" and len: "int (length (join_with [c] vs)) + 2 < 2 ^ 64"
  have "(\<Sum>v \<leftarrow> map Some vs. (case v of None \<Rightarrow> 0 | Some s \<Rightarrow> int (length s)) + 1) = int (\<Sum>v \<leftarrow> vs. length v + 1)"
    by (induction vs) auto
  then show ?thesis using join_with_length [OF vs, of c] len by (simp add: join_size_def c_size_id)
qed

lemma join_law:
  assumes a: "is_string (arg b 1)" and vs: "vs \<noteq> []" "\<forall>s \<in> set vs. 0 \<notin> set s" and c: "c \<noteq> 0"
    and len: "int (length (join_with [c] vs)) < 2 ^ 30" and cap: "0 \<le> s_join_buf_len st" "s_join_buf_len st < 2 ^ 31"
  shows "\<exists>st'. ljoin b True [c] (map Some vs) True st = Some (Some (join_with [c] vs), st')
      \<and> s_join_buf_len st' = max (s_join_buf_len st) (int (length (join_with [c] vs)) + 2)"
proof -
  let ?n = "int (length (join_with [c] vs)) + 2"
  have size: "join_size (map Some vs) = ?n" using join_size_law [OF vs(1)] len by simp
  have ids: "c_size (s_join_buf_len st) = s_join_buf_len st" "c_int ?n = ?n" using cap len by (simp_all add: c_size_id c_int_id in_int_def INT_MIN_def INT_MAX_def)
  have "join_loop m [c] (int (length vs)) (map Some vs) [] = Some (join_with [c] vs)" if "?n \<le> m" for m
    using join_loop_law [OF vs(2) c, of "[]" m] that by simp
  then show ?thesis using a ids by (simp add: ljoin_def size Let_def)
qed

section \<open>The properties\<close>

text \<open>At a single character other than zero, \<open>lsplit\<close> returns for every string without zero bytes,
  and gives the pieces between the occurrences of the character. Joining them with the same character
  by \<open>ljoin\<close> gives the string back, and the static buffer is large enough.\<close>

theorem split_join:
  assumes "is_string (arg a 1)" "is_string (arg a 2)" "is_string (arg b 1)" and c: "c \<noteq> 0"
    and str: "0 \<notin> set str" "length str < 2 ^ 30" and cap: "0 \<le> s_join_buf_len st" "s_join_buf_len st < 2 ^ 31"
  shows "lsplit a str [c] = Some (Some (split_on c str))
    \<and> (\<exists>st'. ljoin b True [c] (map Some (split_on c str)) True st = Some (Some str, st')
          \<and> s_join_buf_len st' = max (s_join_buf_len st) (int (length str) + 2))"
proof -
  have "\<forall>s \<in> set (split_on c str). 0 \<notin> set s" using split_pieces str(1) by blast
  then show ?thesis
    using split_law [OF assms(1,2) c str(1)] str(2) join_law [OF assms(3) split_on_nonempty [of c str] _ c _ cap] by (simp add: join_split)
qed

definition two_strings :: lua_args where
  "two_strings = \<lparr>gettop = 2, arg = \<lambda>_. \<lparr>is_number = False, to_number = 0, is_string = True, to_cstring = None,
     is_userdata = False, to_userdata = None\<rparr>\<rparr>"

text \<open>Witness: the string "ab,,c".\<close>

theorem split_join_witness:
  "lsplit two_strings [97, 98, 44, 44, 99] [44] = Some (Some [[97, 98], [], [99]])
    \<and> (\<exists>st'. ljoin two_strings True [44] (map Some [[97, 98], [], [99]]) True \<lparr>s_join_buf = False, s_join_buf_len = 0\<rparr>
          = Some (Some [97, 98, 44, 44, 99], st') \<and> s_join_buf_len st' = 7)"
  using split_join [of two_strings two_strings 44 "[97, 98, 44, 44, 99]" "\<lparr>s_join_buf = False, s_join_buf_len = 0\<rparr>"]
  by (simp add: two_strings_def)

end
