(* ===== verification/Dbl.thy ===== *)
theory Dbl
  imports Complex_Main Decimal "HOL-Library.Log_Nat"
begin

text \<open>
  The C type \<open>double\<close>: IEEE binary64 with rounding to nearest, ties to even. A finite double is the
  rational number it stands for, so the two zeros are one; the conversions \<open>%f\<close>, \<open>%.0f\<close> and \<open>%e\<close> of
  \<open>printf\<close> round the exact value. The library function \<open>pow\<close> is not part of it: its results are
  not fixed by a standard, and the functions that use it take it as an argument.
\<close>

datatype dbl = Fin rat | Inf bool | NaN

section \<open>Rounding\<close>

text \<open>The exponent of the leading digit of a positive number in base \<open>b\<close>.\<close>

definition expo :: "nat \<Rightarrow> rat \<Rightarrow> int" where
  "expo b x =
     (if 1 \<le> x then int (floorlog b (nat \<lfloor>x\<rfloor>)) - 1
      else - int (floorlog b (nat (\<lceil>1 / x\<rceil> - 1))))"

definition pow_int :: "rat \<Rightarrow> int \<Rightarrow> rat" where
  "pow_int b e = (if 0 \<le> e then b ^ nat e else 1 / b ^ nat (- e))"

definition half_even :: "rat \<Rightarrow> int" where
  "half_even x =
     (let f = \<lfloor>x\<rfloor>; r = x - of_int f
      in if r < 1 / 2 then f else if 1 / 2 < r then f + 1 else if even f then f else f + 1)"

definition rnd :: "rat \<Rightarrow> dbl" where
  "rnd x =
     (if x = 0 then Fin 0
      else
        (let e = max (expo 2 \<bar>x\<bar> - 52) (- 1074);
             y = of_int (half_even (\<bar>x\<bar> / pow_int 2 e)) * pow_int 2 e
         in if 2 ^ 1024 \<le> y then Inf (x < 0) else Fin (if x < 0 then - y else y)))"

section \<open>Operations\<close>

text \<open>The argument of \<open>Inf\<close> is whether it is negative.\<close>

fun d_add :: "dbl \<Rightarrow> dbl \<Rightarrow> dbl" where
  "d_add (Fin a) (Fin b) = rnd (a + b)"
| "d_add NaN b = NaN"
| "d_add a NaN = NaN"
| "d_add (Inf s) (Inf t) = (if s = t then Inf s else NaN)"
| "d_add (Inf s) (Fin b) = Inf s"
| "d_add (Fin a) (Inf t) = Inf t"

fun d_neg :: "dbl \<Rightarrow> dbl" where
  "d_neg (Fin a) = Fin (- a)"
| "d_neg (Inf s) = Inf (\<not> s)"
| "d_neg NaN = NaN"

definition d_sub :: "dbl \<Rightarrow> dbl \<Rightarrow> dbl" where
  "d_sub a b = d_add a (d_neg b)"

fun d_mul :: "dbl \<Rightarrow> dbl \<Rightarrow> dbl" where
  "d_mul (Fin a) (Fin b) = rnd (a * b)"
| "d_mul NaN b = NaN"
| "d_mul a NaN = NaN"
| "d_mul (Inf s) (Inf t) = Inf (s \<noteq> t)"
| "d_mul (Inf s) (Fin b) = (if b = 0 then NaN else Inf (s \<noteq> (b < 0)))"
| "d_mul (Fin a) (Inf t) = (if a = 0 then NaN else Inf (t \<noteq> (a < 0)))"

fun d_abs :: "dbl \<Rightarrow> dbl" where
  "d_abs (Fin a) = Fin \<bar>a\<bar>"
| "d_abs (Inf s) = Inf False"
| "d_abs NaN = NaN"

fun d_floor :: "dbl \<Rightarrow> dbl" where
  "d_floor (Fin a) = Fin (of_int \<lfloor>a\<rfloor>)"
| "d_floor (Inf s) = Inf s"
| "d_floor NaN = NaN"

fun d_le :: "dbl \<Rightarrow> dbl \<Rightarrow> bool" where
  "d_le (Fin a) (Fin b) \<longleftrightarrow> a \<le> b"
| "d_le NaN b \<longleftrightarrow> False"
| "d_le a NaN \<longleftrightarrow> False"
| "d_le (Inf s) b \<longleftrightarrow> s \<or> b = Inf False"
| "d_le (Fin a) (Inf t) \<longleftrightarrow> \<not> t"

definition d_less :: "dbl \<Rightarrow> dbl \<Rightarrow> bool" where
  "d_less a b \<longleftrightarrow> d_le a b \<and> \<not> d_le b a"

definition d_int :: "int \<Rightarrow> dbl" where
  "d_int n = rnd (of_int n)"

text \<open>The conversion to \<open>int\<close>, which is undefined outside its range.\<close>

fun d_to_int :: "dbl \<Rightarrow> int option" where
  "d_to_int (Fin a) = (let t = (if a < 0 then \<lceil>a\<rceil> else \<lfloor>a\<rfloor>) in if in_int t then Some t else None)"
| "d_to_int _ = None"

definition DBL_EPSILON :: dbl where
  "DBL_EPSILON = Fin (1 / 2 ^ 52)"

section \<open>Formatting\<close>

definition pad_digits :: "nat \<Rightarrow> nat \<Rightarrow> byte list" where
  "pad_digits k n = (let ds = digits n in replicate (k - length ds) 48 @ ds)"

text \<open>\<open>%.kf\<close>.\<close>

fun fmt_f :: "nat \<Rightarrow> dbl \<Rightarrow> byte list" where
  "fmt_f k (Fin a) =
     (let q = nat (half_even (\<bar>a\<bar> * 10 ^ k))
      in (if a < 0 then [45] else []) @ digits (q div 10 ^ k) @ (if k = 0 then [] else 46 # pad_digits k (q mod 10 ^ k)))"
| "fmt_f k (Inf s) = (if s then [45, 105, 110, 102] else [105, 110, 102])"
| "fmt_f k NaN = [110, 97, 110]"

text \<open>\<open>%e\<close>, with six digits after the point.\<close>

fun fmt_e :: "dbl \<Rightarrow> byte list" where
  "fmt_e (Fin a) =
     (if a = 0 then 48 # 46 # replicate 6 48 @ [101, 43, 48, 48]
      else
        (let e = expo 10 \<bar>a\<bar>;
             q = nat (half_even (\<bar>a\<bar> / pow_int 10 e * 10 ^ 6));
             (q, e) = (if q = 10 ^ 7 then (10 ^ 6, e + 1) else (q, e))
         in (if a < 0 then [45] else []) @ digits (q div 10 ^ 6) @ [46] @ pad_digits 6 (q mod 10 ^ 6)
            @ [101, if e < 0 then 45 else 43] @ pad_digits 2 (nat \<bar>e\<bar>)))"
| "fmt_e d = fmt_f 6 d"

section \<open>Integers are exact\<close>

lemma half_even_int [simp]: "half_even (of_int k) = k"
  by (simp add: half_even_def)

lemma pow_int_pos: "0 < b \<Longrightarrow> 0 < pow_int b e"
  by (simp add: pow_int_def)

lemma expo_int: "0 < k \<Longrightarrow> k < 2 ^ 53 \<Longrightarrow> 0 \<le> expo 2 (of_int k) \<and> expo 2 (of_int k) \<le> 52"
proof -
  assume k: "0 < k" "k < 2 ^ 53"
  then have n: "0 < nat k" "nat k < 2 ^ 53" by (simp_all add: nat_less_iff)
  have "0 < floorlog 2 (nat k)" using n(1) by (simp add: floorlog_def)
  moreover have "floorlog 2 (nat k) \<le> 53" using n by (intro floorlog_leI) simp_all
  ultimately show ?thesis using k by (simp add: expo_def)
qed

lemma rnd_int: "\<bar>k\<bar> < 2 ^ 53 \<Longrightarrow> rnd (of_int k) = Fin (of_int k)"
proof (cases "k = 0")
  case False
  assume k: "\<bar>k\<bar> < 2 ^ 53"
  define e where "e = expo 2 (of_int \<bar>k\<bar>) - 52"
  have e: "- 52 \<le> e" "e \<le> 0" using expo_int [of "\<bar>k\<bar>"] False k by (simp_all add: e_def)
  have q: "of_int \<bar>k\<bar> / pow_int 2 e = of_int (\<bar>k\<bar> * 2 ^ nat (- e))" using e by (simp add: pow_int_def)
  have p: "pow_int 2 e \<noteq> 0" using pow_int_pos [of 2 e] by simp
  have "of_int (half_even (of_int \<bar>k\<bar> / pow_int 2 e)) * pow_int 2 e = of_int \<bar>k\<bar> / pow_int 2 e * pow_int 2 e"
    by (simp only: q half_even_int)
  also have "\<dots> = of_int \<bar>k\<bar>" using p by simp
  finally have v: "of_int (half_even (of_int \<bar>k\<bar> / pow_int 2 e)) * pow_int 2 e = of_int \<bar>k\<bar>" .
  have "of_int \<bar>k\<bar> < (of_int (2 ^ 53) :: rat)" using k by (simp only: of_int_less_iff)
  also have "\<dots> \<le> 2 ^ 1024" by simp
  finally have big: "\<not> 2 ^ 1024 \<le> (of_int \<bar>k\<bar> :: rat)" by simp
  have m: "max (expo 2 \<bar>of_int k :: rat\<bar> - 52) (- 1074) = e" using e by (simp add: e_def)
  have a: "\<bar>of_int k :: rat\<bar> = of_int \<bar>k\<bar>" by simp
  show ?thesis
    unfolding rnd_def Let_def m unfolding a v using False big by (cases "k < 0") simp_all
qed (simp add: rnd_def)

lemma d_int_exact: "\<bar>k\<bar> < 2 ^ 53 \<Longrightarrow> d_int k = Fin (of_int k)"
  by (simp add: d_int_def rnd_int)

lemma d_to_int_exact: "in_int k \<Longrightarrow> d_to_int (Fin (of_int k)) = Some k"
  by simp

end
