(* ===== verification/Cjson.thy ===== *)
theory Cjson
  imports Dbl "HOL-Library.Monad_Syntax"
begin

unbundle bit_operations_syntax

text \<open>
  The JSON parser and printer, \<open>src/src/json/cJSON.cc\<close>. An item is a value: its chain of children
  is a list, the links \<open>next\<close> and \<open>prev\<close> are the order of the list. A pointer into a text is the
  rest of its block from there on, with the terminating zero; reading at the end of the block is
  undefined, \<open>None\<close>. \<open>malloc\<close> succeeds or fails by the size of the request.
\<close>

section \<open>Items\<close>

definition cJSON_False :: int where "cJSON_False = 0"
definition cJSON_True :: int where "cJSON_True = 1"
definition cJSON_NULL :: int where "cJSON_NULL = 2"
definition cJSON_Number :: int where "cJSON_Number = 3"
definition cJSON_String :: int where "cJSON_String = 4"
definition cJSON_Array :: int where "cJSON_Array = 5"
definition cJSON_Object :: int where "cJSON_Object = 6"
definition cJSON_IsReference :: int where "cJSON_IsReference = 256"

lemmas cJSON_types = cJSON_False_def cJSON_True_def cJSON_NULL_def cJSON_Number_def cJSON_String_def
  cJSON_Array_def cJSON_Object_def cJSON_IsReference_def

datatype cJSON =
  CJSON (cj_type: int) (cj_valuestring: "byte list option") (cj_valueint: int) (cj_valuedouble: dbl)
    (cj_string: "byte list option") (cj_child: "cJSON list")

definition cJSON_New_Item :: cJSON where
  "cJSON_New_Item = CJSON 0 None 0 (Fin 0) None []"

fun set_type :: "int \<Rightarrow> cJSON \<Rightarrow> cJSON" where
  "set_type t (CJSON _ vs vi vd st ch) = CJSON t vs vi vd st ch"

fun set_valuestring :: "byte list option \<Rightarrow> cJSON \<Rightarrow> cJSON" where
  "set_valuestring vs (CJSON t _ vi vd st ch) = CJSON t vs vi vd st ch"

fun set_valueint :: "int \<Rightarrow> cJSON \<Rightarrow> cJSON" where
  "set_valueint vi (CJSON t vs _ vd st ch) = CJSON t vs vi vd st ch"

fun set_valuedouble :: "dbl \<Rightarrow> cJSON \<Rightarrow> cJSON" where
  "set_valuedouble vd (CJSON t vs vi _ st ch) = CJSON t vs vi vd st ch"

fun set_string :: "byte list option \<Rightarrow> cJSON \<Rightarrow> cJSON" where
  "set_string st (CJSON t vs vi vd _ ch) = CJSON t vs vi vd st ch"

fun set_child :: "cJSON list \<Rightarrow> cJSON \<Rightarrow> cJSON" where
  "set_child ch (CJSON t vs vi vd st _) = CJSON t vs vi vd st ch"

text \<open>What is outside the code: whether a request for memory succeeds, and \<open>pow(10.0, x)\<close>.\<close>

record cj_env =
  ce_malloc :: "int \<Rightarrow> bool"
  ce_pow10 :: "dbl \<Rightarrow> dbl"

definition sizeof_cJSON :: int where "sizeof_cJSON = 64"

section \<open>Text\<close>

type_synonym cptr = "byte list"

definition rd :: "cptr \<Rightarrow> byte option" where
  "rd p = (case p of [] \<Rightarrow> None | c # _ \<Rightarrow> Some c)"

fun strn :: "cptr \<Rightarrow> byte list \<Rightarrow> bool option" where
  "strn s [] = Some True"
| "strn [] (c # cs) = None"
| "strn (x # xs) (c # cs) = (if x \<noteq> c then Some False else strn xs cs)"

fun skip :: "cptr \<Rightarrow> cptr option" where
  "skip [] = None"
| "skip (c # cs) = (if c \<noteq> 0 \<and> c \<le> 32 then skip cs else Some (c # cs))"

text \<open>Writing behind what is already in a buffer of \<open>cap\<close> bytes, without and with a zero behind it.\<close>

definition emit :: "int \<Rightarrow> byte list \<Rightarrow> byte list \<Rightarrow> byte list option" where
  "emit cap bs out = (if int (length out) + int (length bs) \<le> cap then Some (out @ bs) else None)"

definition emit0 :: "int \<Rightarrow> byte list \<Rightarrow> byte list \<Rightarrow> byte list option" where
  "emit0 cap bs out = (if int (length out) + int (length bs) + 1 \<le> cap then Some (out @ bs) else None)"

text \<open>A parsing function fails with the value of \<open>ep\<close>, \<open>None\<close> for a null pointer, or gives the item and
  the pointer behind it.\<close>

datatype pres = PFail "cptr option" | POk cJSON cptr

section \<open>Numbers\<close>

fun int_digits :: "dbl \<Rightarrow> cptr \<Rightarrow> (dbl \<times> cptr) option" where
  "int_digits n [] = None"
| "int_digits n (c # cs) =
     (if is_dig c then int_digits (d_add (d_mul n (Fin 10)) (d_int (dig_val c))) cs else Some (n, c # cs))"

fun frac_digits :: "dbl \<Rightarrow> dbl \<Rightarrow> cptr \<Rightarrow> (dbl \<times> dbl \<times> cptr) option" where
  "frac_digits n scale [] = None"
| "frac_digits n scale (c # cs) =
     (if is_dig c then frac_digits (d_add (d_mul n (Fin 10)) (d_int (dig_val c))) (d_sub scale (Fin 1)) cs
      else Some (n, scale, c # cs))"

fun exp_digits :: "int \<Rightarrow> cptr \<Rightarrow> (int \<times> cptr) option" where
  "exp_digits n [] = None"
| "exp_digits n (c # cs) =
     (if is_dig c
      then (let n = n * 10 + dig_val c in if in_int n then exp_digits n cs else None)
      else Some (n, c # cs))"

text \<open>The lines of \<open>parse_number\<close>: integer part, fraction, exponent.\<close>

definition int_part :: "cptr \<Rightarrow> (dbl \<times> cptr) option" where
  "int_part num =
     do {
       c \<leftarrow> rd num;
       let num = (if c = 48 then tl num else num);
       c \<leftarrow> rd num;
       if 49 \<le> c \<and> c \<le> 57 then int_digits (Fin 0) num else Some (Fin 0, num)
     }"

definition frac_part :: "dbl \<Rightarrow> cptr \<Rightarrow> (dbl \<times> dbl \<times> cptr) option" where
  "frac_part n num =
     do {
       c \<leftarrow> rd num;
       if c = 46
       then do { d \<leftarrow> rd (tl num); if is_dig d then frac_digits n (Fin 0) (tl num) else Some (n, Fin 0, num) }
       else Some (n, Fin 0, num)
     }"

definition exp_part :: "cptr \<Rightarrow> (int \<times> int \<times> cptr) option" where
  "exp_part num =
     do {
       c \<leftarrow> rd num;
       if c = 101 \<or> c = 69
       then do {
         c \<leftarrow> rd (tl num);
         let s = (if c = 45 then - 1 else 1);
         (e, num) \<leftarrow> exp_digits 0 (if c = 43 \<or> c = 45 then tl (tl num) else tl num);
         Some (e, s, num)
       }
       else Some (0, 1, num)
     }"

definition parse_number :: "cj_env \<Rightarrow> cJSON \<Rightarrow> cptr \<Rightarrow> pres option" where
  "parse_number E item num =
     do {
       c \<leftarrow> rd num;
       let sign = (if c = 45 then Fin (- 1) else Fin 1);
       (n, num) \<leftarrow> int_part (if c = 45 then tl num else num);
       (n, scale, num) \<leftarrow> frac_part n num;
       (subscale, signsubscale, num) \<leftarrow> exp_part num;
       let n = d_mul (d_mul sign n) (ce_pow10 E (d_add scale (d_int (subscale * signsubscale))));
       vi \<leftarrow> d_to_int n;
       Some (POk (set_type cJSON_Number (set_valueint vi (set_valuedouble n item))) num)
     }"

text \<open>The result \<open>Some None\<close> of a printing function is a null pointer.\<close>

definition sprintf_to :: "int \<Rightarrow> byte list \<Rightarrow> byte list option" where
  "sprintf_to cap txt = emit0 cap txt []"

definition print_number :: "cj_env \<Rightarrow> cJSON \<Rightarrow> byte list option option" where
  "print_number E item =
     (let d = cj_valuedouble item
      in if d_le (d_abs (d_sub (d_int (cj_valueint item)) d)) DBL_EPSILON \<and> d_le d (d_int INT_MAX) \<and> d_le (d_int INT_MIN) d
         then (if ce_malloc E 21 then map_option Some (sprintf_to 21 (show_int (cj_valueint item))) else Some None)
         else if ce_malloc E 64
         then map_option Some
           (if d_le (d_abs (d_sub (d_floor d) d)) DBL_EPSILON then sprintf_to 64 (fmt_f 0 d)
            else if d_less (d_abs d) (rnd (1 / 10 ^ 6)) \<or> d_less (Fin (10 ^ 9)) (d_abs d) then sprintf_to 64 (fmt_e d)
            else sprintf_to 64 (fmt_f 6 d))
         else Some None)"

section \<open>Strings\<close>

text \<open>The first loop of \<open>parse_string\<close>: a backslash and the character behind it count as one.\<close>

fun str_len :: "cptr \<Rightarrow> int option" where
  "str_len [] = None"
| "str_len (c # cs) =
     (if c = 34 \<or> c = 0 then Some 0
      else map_option (\<lambda>n. n + 1) (str_len (if c = 92 then tl cs else cs)))"

definition is_space :: "byte \<Rightarrow> bool" where
  "is_space c \<longleftrightarrow> c = 32 \<or> 9 \<le> c \<and> c \<le> 13"

definition is_hex :: "byte \<Rightarrow> bool" where
  "is_hex c \<longleftrightarrow> is_dig c \<or> 97 \<le> c \<and> c \<le> 102 \<or> 65 \<le> c \<and> c \<le> 70"

definition hex_val :: "byte \<Rightarrow> int" where
  "hex_val c = (if is_dig c then uint c - 48 else if 97 \<le> c then uint c - 87 else uint c - 55)"

text \<open>\<open>sscanf(s, "%4x", \&v)\<close>: white space, then at most four characters of a number with sign and
  prefix; without a digit \<open>v\<close> keeps its value, \<open>None\<close> as long as none has been assigned.\<close>

definition scan_x4 :: "cptr \<Rightarrow> 32 word option \<Rightarrow> 32 word option option" where
  "scan_x4 s old =
     (if s = [] then None
      else
        (let f = take 4 (dropWhile is_space s);
             neg = (f \<noteq> [] \<and> hd f = 45);
             f = (if f \<noteq> [] \<and> (hd f = 45 \<or> hd f = 43) then tl f else f);
             f = (if 2 \<le> length f \<and> f ! 0 = 48 \<and> (f ! 1 = 120 \<or> f ! 1 = 88) then drop 2 f else f);
             ds = takeWhile is_hex f;
             v = foldl (\<lambda>n c. n * 16 + hex_val c) 0 ds
         in Some (if ds = [] then old else Some (word_of_int (if neg then - v else v)))))"

definition firstByteMark :: "32 word list" where
  "firstByteMark = [0, 0, 0xC0, 0xE0, 0xF0, 0xF8, 0xFC]"

definition utf8_len :: "32 word \<Rightarrow> nat" where
  "utf8_len uc = (if uc < 0x80 then 1 else if uc < 0x800 then 2 else if uc < 0x10000 then 3 else 4)"

text \<open>The switch that writes the bytes from the last to the first; \<open>uc\<close> is shifted on the way.\<close>

fun utf8_put :: "nat \<Rightarrow> nat \<Rightarrow> 32 word \<Rightarrow> byte list \<Rightarrow> byte list \<times> 32 word" where
  "utf8_put len 0 uc acc = (acc, uc)"
| "utf8_put len (Suc 0) uc acc = (ucast (uc OR firstByteMark ! len) # acc, uc)"
| "utf8_put len (Suc k) uc acc = utf8_put len k (drop_bit 6 uc) (ucast ((uc OR 0x80) AND 0xBF) # acc)"

definition unescape :: "byte \<Rightarrow> byte" where
  "unescape c =
     (if c = 98 then 8 else if c = 102 then 12 else if c = 110 then 10 else if c = 114 then 13 else if c = 116 then 9 else c)"

text \<open>The case \<open>u\<close> of the switch, from \<open>ptr\<close> on the \<open>u\<close>: the pointer, the two variables, and the
  bytes to write.\<close>

definition parse_u ::
  "cptr \<Rightarrow> 32 word option \<Rightarrow> 32 word option \<Rightarrow> (cptr \<times> 32 word option \<times> 32 word option \<times> byte list) option" where
  "parse_u ptr uc uc2 =
     do {
       uc \<leftarrow> scan_x4 (tl ptr) uc;
       let ptr = drop 4 ptr;
       u \<leftarrow> uc;
       if 0xDC00 \<le> u \<and> u \<le> 0xDFFF \<or> u = 0 then Some (ptr, uc, uc2, [])
       else if 0xD800 \<le> u \<and> u \<le> 0xDBFF
       then do {
         c1 \<leftarrow> rd (drop 1 ptr);
         esc \<leftarrow> (if c1 \<noteq> 92 then Some False else map_option (\<lambda>c2. c2 = 117) (rd (drop 2 ptr)));
         if \<not> esc then Some (ptr, uc, uc2, [])
         else do {
           uc2 \<leftarrow> scan_x4 (drop 3 ptr) uc2;
           let ptr = drop 6 ptr;
           u2 \<leftarrow> uc2;
           if u2 < 0xDC00 \<or> 0xDFFF < u2 then Some (ptr, uc, uc2, [])
           else (let u = 0x10000 OR push_bit 10 (u AND 0x3FF) OR (u2 AND 0x3FF); len = utf8_len u; (bs, u) = utf8_put len len u []
                 in Some (ptr, Some u, uc2, bs))
         }
       }
       else (let len = utf8_len u; (bs, u) = utf8_put len len u [] in Some (ptr, Some u, uc2, bs))
     }"

lemma parse_u_shorter: "parse_u ptr uc uc2 = Some (ptr', v) \<Longrightarrow> length ptr' \<le> length ptr"
  by (auto simp: parse_u_def Let_def Option.bind_eq_Some_conv case_prod_unfold split: if_splits)

text \<open>The second loop of \<open>parse_string\<close>.\<close>

function unesc_loop ::
  "int \<Rightarrow> cptr \<Rightarrow> 32 word option \<Rightarrow> 32 word option \<Rightarrow> byte list \<Rightarrow> (byte list \<times> cptr) option" where
  "unesc_loop cap [] uc uc2 out = None"
| "unesc_loop cap (c # cs) uc uc2 out =
     (if c = 34 \<or> c = 0 then Some (out, c # cs)
      else if c \<noteq> 92 then Option.bind (emit cap [c] out) (\<lambda>out. unesc_loop cap cs uc uc2 out)
      else
        Option.bind (rd cs) (\<lambda>d.
          if d = 117
          then
            (case parse_u cs uc uc2 of
               None \<Rightarrow> None
             | Some (ptr, uc, uc2, bs) \<Rightarrow> Option.bind (emit cap bs out) (\<lambda>out. unesc_loop cap (tl ptr) uc uc2 out))
          else Option.bind (emit cap [unescape d] out) (\<lambda>out. unesc_loop cap (tl cs) uc uc2 out)))"
  by pat_completeness auto
termination
  by (relation "measure (\<lambda>(cap, p, uc, uc2, out). length p)") (auto dest!: parse_u_shorter)

definition parse_string :: "cj_env \<Rightarrow> cJSON \<Rightarrow> cptr \<Rightarrow> pres option" where
  "parse_string E item str =
     do {
       c \<leftarrow> rd str;
       if c \<noteq> 34 then Some (PFail (Some str))
       else do {
         len \<leftarrow> str_len (tl str);
         if INT_MAX \<le> len then None
         else if \<not> ce_malloc E (len + 1) then Some (PFail None)
         else do {
           (out, ptr) \<leftarrow> unesc_loop (len + 1) (tl str) None None [];
           out \<leftarrow> emit0 (len + 1) [] out;
           c \<leftarrow> rd ptr;
           Some (POk (set_type cJSON_String (set_valuestring (Some out) item)) (if c = 34 then tl ptr else ptr))
         }
       }
     }"

text \<open>\<open>print_string_ptr\<close>: the first loop counts, the second writes.\<close>

definition escapes :: "byte list" where
  "escapes = [34, 92, 8, 12, 10, 13, 9]"

fun print_len :: "byte list \<Rightarrow> int" where
  "print_len [] = 0"
| "print_len (c # cs) = (if c \<in> set escapes then 2 else if c < 32 then 6 else 1) + print_len cs"

definition escape :: "byte \<Rightarrow> byte list" where
  "escape c =
     (if c = 92 then [92] else if c = 34 then [34] else if c = 8 then [98] else if c = 12 then [102] else if c = 10 then [110]
      else if c = 13 then [114] else if c = 9 then [116] else [117, 48, 48] @ hex2 c)"

text \<open>\<open>sprintf\<close> writes a zero behind its text, the other assignments do not.\<close>

fun print_loop :: "int \<Rightarrow> byte list \<Rightarrow> byte list \<Rightarrow> byte list option" where
  "print_loop cap [] out = Some out"
| "print_loop cap (c # cs) out =
     (if 31 < c \<and> c \<noteq> 34 \<and> c \<noteq> 92
      then do { out \<leftarrow> emit cap [c] out; print_loop cap cs out }
      else do {
        out \<leftarrow> emit cap [92] out;
        out \<leftarrow> (if c \<in> set escapes then emit cap (escape c) out else emit0 cap (escape c) out);
        print_loop cap cs out
      })"

definition cJSON_strdup :: "cj_env \<Rightarrow> byte list \<Rightarrow> byte list option" where
  "cJSON_strdup E str = (if ce_malloc E (int (length str) + 1) then Some str else None)"

definition print_string_ptr :: "cj_env \<Rightarrow> byte list option \<Rightarrow> byte list option option" where
  "print_string_ptr E str =
     (case str of
        None \<Rightarrow> Some (cJSON_strdup E [])
      | Some str \<Rightarrow>
          (let len = print_len str
           in if INT_MAX < len + 3 then None
              else if \<not> ce_malloc E (len + 3) then Some None
              else do {
                out \<leftarrow> emit (len + 3) [34] [];
                out \<leftarrow> print_loop (len + 3) str out;
                out \<leftarrow> emit0 (len + 3) [34] out;
                Some (Some out)
              }))"

definition print_string :: "cj_env \<Rightarrow> cJSON \<Rightarrow> byte list option option" where
  "print_string E item = print_string_ptr E (cj_valuestring item)"

section \<open>The parser\<close>

lemma skip_shorter: "skip s = Some s' \<Longrightarrow> length s' \<le> length s"
  by (induction s) (auto split: if_splits)

lemma rd_Some: "rd p = Some c \<longleftrightarrow> p \<noteq> [] \<and> c = hd p"
  by (cases p) (auto simp: rd_def)

lemma int_digits_shorter: "int_digits n s = Some (m, s') \<Longrightarrow> length s' \<le> length s"
  by (induction n s rule: int_digits.induct) (auto split: if_splits)

lemma frac_digits_shorter: "frac_digits n k s = Some (m, l, s') \<Longrightarrow> length s' \<le> length s"
  by (induction n k s rule: frac_digits.induct) (auto split: if_splits)

lemma exp_digits_shorter: "exp_digits n s = Some (m, s') \<Longrightarrow> length s' \<le> length s"
  by (induction n s rule: exp_digits.induct) (auto simp: Let_def split: if_splits)

lemma int_part_shorter: "int_part s = Some (n, s') \<Longrightarrow> length s' \<le> length s"
  by (auto simp: int_part_def Let_def Option.bind_eq_Some_conv dest!: int_digits_shorter split: if_splits)

lemma frac_part_shorter: "frac_part n s = Some (m, k, s') \<Longrightarrow> length s' \<le> length s"
  by (auto simp: frac_part_def Option.bind_eq_Some_conv dest!: frac_digits_shorter split: if_splits)

lemma exp_part_shorter: "exp_part s = Some (m, k, s') \<Longrightarrow> length s' \<le> length s"
  by (auto simp: exp_part_def Let_def Option.bind_eq_Some_conv dest!: exp_digits_shorter split: if_splits)

lemma parse_number_shorter: "parse_number E item s = Some (POk item' s') \<Longrightarrow> length s' \<le> length s"
  by (auto simp: parse_number_def Let_def Option.bind_eq_Some_conv simp del: d_mul.simps
      dest!: int_part_shorter frac_part_shorter exp_part_shorter split: if_splits)

lemma unesc_loop_shorter: "unesc_loop cap s uc uc2 out = Some (r, s') \<Longrightarrow> length s' \<le> length s"
  by (induction cap s uc uc2 out rule: unesc_loop.induct)
    (fastforce simp: Option.bind_eq_Some_conv dest: parse_u_shorter split: if_splits option.splits prod.splits)+

lemma parse_string_shorter: "parse_string E item s = Some (POk item' s') \<Longrightarrow> length s' \<le> length s"
  by (fastforce simp: parse_string_def Option.bind_eq_Some_conv dest: unesc_loop_shorter split: if_splits prod.splits)

declare Option.bind_cong [fundef_cong]

text \<open>In the functions below the loop and the first element, which the code writes twice, are one.\<close>

function parse_value :: "cj_env \<Rightarrow> cJSON \<Rightarrow> cptr \<Rightarrow> pres option"
  and parse_array :: "cj_env \<Rightarrow> cJSON \<Rightarrow> cptr \<Rightarrow> pres option"
  and array_elems :: "cj_env \<Rightarrow> cJSON \<Rightarrow> cJSON list \<Rightarrow> cptr \<Rightarrow> pres option"
  and parse_object :: "cj_env \<Rightarrow> cJSON \<Rightarrow> cptr \<Rightarrow> pres option"
  and object_members :: "cj_env \<Rightarrow> cJSON \<Rightarrow> cJSON list \<Rightarrow> cptr \<Rightarrow> pres option"
where
  "parse_value E item value =
     Option.bind (strn value [110, 117, 108, 108]) (\<lambda>eq.
       if eq then Some (POk (set_type cJSON_NULL item) (drop 4 value))
       else Option.bind (strn value [102, 97, 108, 115, 101]) (\<lambda>eq.
       if eq then Some (POk (set_type cJSON_False item) (drop 5 value))
       else Option.bind (strn value [116, 114, 117, 101]) (\<lambda>eq.
       if eq then Some (POk (set_valueint 1 (set_type cJSON_True item)) (drop 4 value))
       else Option.bind (rd value) (\<lambda>c.
       if c = 34 then parse_string E item value
       else if c = 45 \<or> is_dig c then parse_number E item value
       else if c = 91 then parse_array E item value
       else if c = 123 then parse_object E item value
       else Some (PFail (Some value))))))"
| "parse_array E item value =
     Option.bind (rd value) (\<lambda>c.
       if c \<noteq> 91 then Some (PFail (Some value))
       else Option.bind (skip (tl value)) (\<lambda>value.
       Option.bind (rd value) (\<lambda>c.
       if c = 93 then Some (POk (set_type cJSON_Array item) (tl value))
       else if \<not> ce_malloc E sizeof_cJSON then Some (PFail None)
       else array_elems E (set_type cJSON_Array item) [] value)))"
| "array_elems E item chs value =
     Option.bind (skip value) (\<lambda>value.
     Option.bind (parse_value E cJSON_New_Item value) (\<lambda>r.
       case r of
         PFail ep \<Rightarrow> Some (PFail ep)
       | POk child rest \<Rightarrow>
           Option.bind (skip rest) (\<lambda>value.
           Option.bind (rd value) (\<lambda>c.
             if c = 44
             then (if ce_malloc E sizeof_cJSON then array_elems E item (chs @ [child]) (tl value) else Some (PFail None))
             else if c = 93 then Some (POk (set_child (chs @ [child]) item) (tl value))
             else Some (PFail (Some value))))))"
| "parse_object E item value =
     Option.bind (rd value) (\<lambda>c.
       if c \<noteq> 123 then Some (PFail (Some value))
       else Option.bind (skip (tl value)) (\<lambda>value.
       Option.bind (rd value) (\<lambda>c.
       if c = 125 then Some (POk (set_type cJSON_Object item) (tl value))
       else if \<not> ce_malloc E sizeof_cJSON then Some (PFail None)
       else object_members E (set_type cJSON_Object item) [] value)))"
| "object_members E item chs value =
     Option.bind (skip value) (\<lambda>value.
     Option.bind (parse_string E cJSON_New_Item value) (\<lambda>r.
       case r of
         PFail ep \<Rightarrow> Some (PFail ep)
       | POk child rest \<Rightarrow>
           Option.bind (skip rest) (\<lambda>value.
           Option.bind (rd value) (\<lambda>c.
             if c \<noteq> 58 then Some (PFail (Some value))
             else
               Option.bind (skip (tl value)) (\<lambda>value.
               Option.bind (parse_value E (set_valuestring None (set_string (cj_valuestring child) child)) value) (\<lambda>r.
                 case r of
                   PFail ep \<Rightarrow> Some (PFail ep)
                 | POk child rest \<Rightarrow>
                     Option.bind (skip rest) (\<lambda>value.
                     Option.bind (rd value) (\<lambda>c.
                       if c = 44
                       then (if ce_malloc E sizeof_cJSON then object_members E item (chs @ [child]) (tl value) else Some (PFail None))
                       else if c = 125 then Some (POk (set_child (chs @ [child]) item) (tl value))
                       else Some (PFail (Some value))))))))))"
  by pat_completeness auto

abbreviation (input) parse_dom where "parse_dom \<equiv> parse_value_parse_array_array_elems_parse_object_object_members_dom"

lemma rd_Cons: "rd p = Some c \<longleftrightarrow> (\<exists>q. p = c # q)"
  by (cases p) (auto simp: rd_def)

lemma pres_case_POk:
  "(case r of PFail e \<Rightarrow> Some (PFail e) | POk c p \<Rightarrow> f c p) = Some (POk i q) \<longleftrightarrow> (\<exists>c p. r = POk c p \<and> f c p = Some (POk i q))"
  by (cases r) auto

lemma parse_shorter:
  "parse_dom (Inl (Inl (E, item, s))) \<Longrightarrow> (\<And>i s'. parse_value E item s = Some (POk i s') \<Longrightarrow> length s' \<le> length s)"
  "parse_dom (Inl (Inr (E, item, s))) \<Longrightarrow> (\<And>i s'. parse_array E item s = Some (POk i s') \<Longrightarrow> length s' \<le> length s)"
  "parse_dom (Inr (Inl (E, item, cs, s))) \<Longrightarrow> (\<And>i s'. array_elems E item cs s = Some (POk i s') \<Longrightarrow> length s' \<le> length s)"
  "parse_dom (Inr (Inr (Inl (E, item, s)))) \<Longrightarrow> (\<And>i s'. parse_object E item s = Some (POk i s') \<Longrightarrow> length s' \<le> length s)"
  "parse_dom (Inr (Inr (Inr (E, item, cs, s)))) \<Longrightarrow> (\<And>i s'. object_members E item cs s = Some (POk i s') \<Longrightarrow> length s' \<le> length s)"
proof (induction rule: parse_value_parse_array_array_elems_parse_object_object_members.pinduct)
  case (1 E item v)
  from 1(4) consider (lit) k where "s' = drop k v" | (str) "parse_string E item v = Some (POk i s')"
    | (num) "parse_number E item v = Some (POk i s')"
    | (arr) "strn v [110, 117, 108, 108] = Some False" "strn v [102, 97, 108, 115, 101] = Some False" "strn v [116, 114, 117, 101] = Some False"
        "rd v = Some 91" "parse_array E item v = Some (POk i s')"
    | (obj) "strn v [110, 117, 108, 108] = Some False" "strn v [102, 97, 108, 115, 101] = Some False" "strn v [116, 114, 117, 101] = Some False"
        "rd v = Some 123" "parse_object E item v = Some (POk i s')"
    by (auto simp: parse_value.psimps [OF 1(1)] Option.bind_eq_Some_conv split: if_splits)
  then show ?case
  proof cases
    case arr
    then show ?thesis using 1(2) [OF arr(1) _ arr(2) _ arr(3) _ arr(4)] by (simp add: is_dig_def)
  next
    case obj
    then show ?thesis using 1(3) [OF obj(1) _ obj(2) _ obj(3) _ obj(4)] by (simp add: is_dig_def)
  qed (simp_all add: parse_string_shorter parse_number_shorter)
next
  case (2 E item v)
  from 2(3) obtain a c where a: "rd v = Some 91" "skip (tl v) = Some a" "rd a = Some c"
    and r: "c = 93 \<and> s' = tl a \<or> c \<noteq> 93 \<and> ce_malloc E sizeof_cJSON \<and> array_elems E (set_type cJSON_Array item) [] a = Some (POk i s')"
    by (auto simp: parse_array.psimps [OF 2(1)] Option.bind_eq_Some_conv split: if_splits)
  have "length a \<le> length v" using skip_shorter [OF a(2)] by simp
  then show ?case using r 2(2) [OF a(1) _ a(2) a(3)] by fastforce
next
  case (3 E item chs v)
  from 3(4) obtain a ch b d c where a: "skip v = Some a" "parse_value E cJSON_New_Item a = Some (POk ch b)" "skip b = Some d" "rd d = Some c"
    and r: "s' = tl d \<or> c = 44 \<and> ce_malloc E sizeof_cJSON \<and> array_elems E item (chs @ [ch]) (tl d) = Some (POk i s')"
    by (auto simp: array_elems.psimps [OF 3(1)] Option.bind_eq_Some_conv pres_case_POk split: if_splits)
  have "length d \<le> length v" using skip_shorter [OF a(1)] skip_shorter [OF a(3)] 3(2) [OF a(1,2)] by simp
  then show ?case using r 3(3) [OF a(1,2) refl a(3,4)] by fastforce
next
  case (4 E item v)
  from 4(3) obtain a c where a: "rd v = Some 123" "skip (tl v) = Some a" "rd a = Some c"
    and r: "c = 125 \<and> s' = tl a \<or> c \<noteq> 125 \<and> ce_malloc E sizeof_cJSON \<and> object_members E (set_type cJSON_Object item) [] a = Some (POk i s')"
    by (auto simp: parse_object.psimps [OF 4(1)] Option.bind_eq_Some_conv split: if_splits)
  have "length a \<le> length v" using skip_shorter [OF a(2)] by simp
  then show ?case using r 4(2) [OF a(1) _ a(2) a(3)] by fastforce
next
  case (5 E item chs v)
  from 5(4) obtain a n b d e ch f g c where a: "skip v = Some a" "parse_string E cJSON_New_Item a = Some (POk n b)" "skip b = Some d" "rd d = Some 58"
      "skip (tl d) = Some e" "parse_value E (set_valuestring None (set_string (cj_valuestring n) n)) e = Some (POk ch f)"
      "skip f = Some g" "rd g = Some c"
    and r: "s' = tl g \<or> c = 44 \<and> ce_malloc E sizeof_cJSON \<and> object_members E item (chs @ [ch]) (tl g) = Some (POk i s')"
    by (auto simp: object_members.psimps [OF 5(1)] Option.bind_eq_Some_conv pres_case_POk split: if_splits)
  have "length f \<le> length e" using 5(2) [OF a(1,2) refl a(3,4) _ a(5,6)] by simp
  then have "length g \<le> length v"
    using skip_shorter [OF a(1)] parse_string_shorter [OF a(2)] skip_shorter [OF a(3)] skip_shorter [OF a(5)] skip_shorter [OF a(7)] by simp
  then show ?case using r 5(3) [OF a(1,2) refl a(3,4) _ a(5,6) refl a(7,8)] by fastforce
qed

termination parse_value
proof (relation "measure (\<lambda>x. case x of Inl (Inl (E, i, s)) \<Rightarrow> 3 * length s + 1 | Inl (Inr (E, i, s)) \<Rightarrow> 3 * length s
    | Inr (Inl (E, i, cs, s)) \<Rightarrow> 3 * length s + 2 | Inr (Inr (Inl (E, i, s))) \<Rightarrow> 3 * length s
    | Inr (Inr (Inr (E, i, cs, s))) \<Rightarrow> 3 * length s + 2)", goal_cases)
qed (auto simp: simp: rd_Cons dest!: skip_shorter parse_string_shorter parse_shorter(1))
declare parse_value.simps [simp del] parse_array.simps [simp del] array_elems.simps [simp del]
  parse_object.simps [simp del] object_members.simps [simp del]

text \<open>\<open>cJSON_Parse\<close>: the item, or the failure with the value it leaves in \<open>ep\<close>.\<close>

definition cJSON_Parse :: "cj_env \<Rightarrow> cptr \<Rightarrow> (cptr option + cJSON) option" where
  "cJSON_Parse E text =
     (if \<not> ce_malloc E sizeof_cJSON then Some (Inl None)
      else do {
        p \<leftarrow> skip text;
        r \<leftarrow> parse_value E cJSON_New_Item p;
        Some (case r of PFail ep \<Rightarrow> Inl ep | POk item _ \<Rightarrow> Inr item)
      })"

section \<open>The printer\<close>

text \<open>
  Composing the output of \<open>print_array\<close> from the texts of the elements. \<open>fmt\<close> is whether the output
  is formatted; \<open>len\<close>, an \<open>int\<close>, is the size of the buffer.
\<close>

fun array_out :: "int \<Rightarrow> bool \<Rightarrow> byte list list \<Rightarrow> byte list \<Rightarrow> byte list option" where
  "array_out cap fmt [] out = Some out"
| "array_out cap fmt (e # es) out =
     do {
       out \<leftarrow> emit0 cap e out;
       out \<leftarrow> (if es = [] then Some out else emit0 cap (if fmt then [44, 32] else [44]) out);
       array_out cap fmt es out
     }"

definition array_len :: "bool \<Rightarrow> byte list list \<Rightarrow> int" where
  "array_len fmt es = 5 + (\<Sum>e \<leftarrow> es. int (length e) + 2 + (if fmt then 1 else 0))"

text \<open>The texts of the elements are those up to the first failure, and whether there was none.\<close>

definition print_array :: "cj_env \<Rightarrow> bool \<Rightarrow> nat \<Rightarrow> (byte list list \<times> bool) option \<Rightarrow> byte list option option" where
  "print_array E fmt numentries entries =
     (if \<not> ce_malloc E (int numentries * 8) then Some None
      else do {
        (es, ok) \<leftarrow> entries;
        let len = c_size (c_int (array_len fmt es));
        if \<not> ok \<or> \<not> ce_malloc E len then Some None
        else do {
          out \<leftarrow> emit0 len [91] [];
          out \<leftarrow> array_out len fmt es out;
          out \<leftarrow> emit0 len [93] out;
          Some (Some out)
        }
      })"

text \<open>The same for \<open>print_object\<close>, whose loop does not stop at a failure. Tabs are written without a
  zero behind them.\<close>

fun object_out :: "int \<Rightarrow> bool \<Rightarrow> nat \<Rightarrow> (byte list \<times> byte list) list \<Rightarrow> byte list \<Rightarrow> byte list option" where
  "object_out cap fmt depth [] out = Some out"
| "object_out cap fmt depth ((s, e) # es) out =
     do {
       out \<leftarrow> emit cap (if fmt then replicate depth 9 else []) out;
       out \<leftarrow> emit0 cap s out;
       out \<leftarrow> emit cap (if fmt then [58, 9] else [58]) out;
       out \<leftarrow> emit0 cap e out;
       out \<leftarrow> emit0 cap ((if es = [] then [] else [44]) @ (if fmt then [10] else [])) out;
       object_out cap fmt depth es out
     }"

definition object_len :: "bool \<Rightarrow> nat \<Rightarrow> (byte list \<times> byte list) list \<Rightarrow> int" where
  "object_len fmt depth es =
     7 + (if fmt then int depth else 0) + (\<Sum>(s, e) \<leftarrow> es. int (length e) + int (length s) + 2 + (if fmt then 2 + int depth else 0))"

definition print_object ::
  "cj_env \<Rightarrow> nat \<Rightarrow> bool \<Rightarrow> nat \<Rightarrow> (byte list option \<times> byte list option) list option \<Rightarrow> byte list option option" where
  "print_object E depth fmt numentries entries =
     (if \<not> ce_malloc E (int numentries * 8) then Some None
      else do {
        rs \<leftarrow> entries;
        let es = map (\<lambda>(s, e). (the s, the e)) (filter (\<lambda>(s, e). s \<noteq> None \<and> e \<noteq> None) rs);
        let len = c_size (c_int (object_len fmt depth es));
        if length es < length rs \<or> \<not> ce_malloc E len then Some None
        else do {
          out \<leftarrow> emit0 len (if fmt then [123, 10] else [123]) [];
          out \<leftarrow> object_out len fmt depth es out;
          out \<leftarrow> emit0 len ((if fmt then replicate (depth - 1) 9 else []) @ [125]) out;
          Some (Some out)
        }
      })"

fun print_value :: "cj_env \<Rightarrow> nat \<Rightarrow> bool \<Rightarrow> cJSON \<Rightarrow> byte list option option"
  and array_entries :: "cj_env \<Rightarrow> nat \<Rightarrow> bool \<Rightarrow> cJSON list \<Rightarrow> (byte list list \<times> bool) option"
  and object_entries :: "cj_env \<Rightarrow> nat \<Rightarrow> bool \<Rightarrow> cJSON list \<Rightarrow> (byte list option \<times> byte list option) list option"
where
  "print_value E depth fmt (CJSON type vs vi vd st child) =
     (let t = take_bit 8 type
      in if t = cJSON_NULL then Some (cJSON_strdup E [110, 117, 108, 108])
         else if t = cJSON_False then Some (cJSON_strdup E [102, 97, 108, 115, 101])
         else if t = cJSON_True then Some (cJSON_strdup E [116, 114, 117, 101])
         else if t = cJSON_Number then print_number E (CJSON type vs vi vd st child)
         else if t = cJSON_String then print_string E (CJSON type vs vi vd st child)
         else if t = cJSON_Array then print_array E fmt (length child) (array_entries E (Suc depth) fmt child)
         else if t = cJSON_Object then print_object E (Suc depth) fmt (length child) (object_entries E (Suc depth) fmt child)
         else Some None)"
| "array_entries E depth fmt [] = Some ([], True)"
| "array_entries E depth fmt (c # cs) =
     do {
       ret \<leftarrow> print_value E depth fmt c;
       case ret of
         None \<Rightarrow> Some ([], False)
       | Some e \<Rightarrow> do { (es, ok) \<leftarrow> array_entries E depth fmt cs; Some (e # es, ok) }
     }"
| "object_entries E depth fmt [] = Some []"
| "object_entries E depth fmt (c # cs) =
     do {
       str \<leftarrow> print_string_ptr E (cj_string c);
       ret \<leftarrow> print_value E depth fmt c;
       rs \<leftarrow> object_entries E depth fmt cs;
       Some ((str, ret) # rs)
     }"

definition cJSON_Print :: "cj_env \<Rightarrow> cJSON \<Rightarrow> byte list option option" where
  "cJSON_Print E item = print_value E 0 True item"

definition cJSON_PrintUnformatted :: "cj_env \<Rightarrow> cJSON \<Rightarrow> byte list option option" where
  "cJSON_PrintUnformatted E item = print_value E 0 False item"

section \<open>Access\<close>

definition cJSON_GetArraySize :: "cJSON \<Rightarrow> int" where
  "cJSON_GetArraySize array = c_int (int (length (cj_child array)))"

definition cJSON_GetArrayItem :: "cJSON \<Rightarrow> int \<Rightarrow> cJSON option" where
  "cJSON_GetArrayItem array item =
     (if nat item < length (cj_child array) then Some (cj_child array ! nat item) else None)"

definition tolower :: "byte \<Rightarrow> byte" where
  "tolower c = (if 65 \<le> c \<and> c \<le> 90 then c + 32 else c)"

text \<open>Whether \<open>cJSON_strcasecmp\<close> is 0, with null pointers.\<close>

definition cJSON_strcasecmp_eq :: "byte list option \<Rightarrow> byte list option \<Rightarrow> bool" where
  "cJSON_strcasecmp_eq s1 s2 = (map_option (map tolower) s1 = map_option (map tolower) s2)"

text \<open>The number of items in front of the one with a name, ignoring case.\<close>

fun name_index :: "byte list option \<Rightarrow> cJSON list \<Rightarrow> nat option" where
  "name_index s [] = None"
| "name_index s (c # cs) = (if cJSON_strcasecmp_eq (cj_string c) s then Some 0 else map_option Suc (name_index s cs))"

definition cJSON_GetObjectItem :: "cJSON \<Rightarrow> byte list option \<Rightarrow> cJSON option" where
  "cJSON_GetObjectItem object s = map_option (\<lambda>i. cj_child object ! i) (name_index s (cj_child object))"

section \<open>Building\<close>

definition cJSON_AddItemToArray :: "cJSON \<Rightarrow> cJSON option \<Rightarrow> cJSON" where
  "cJSON_AddItemToArray array item =
     (case item of None \<Rightarrow> array | Some item \<Rightarrow> set_child (cj_child array @ [item]) array)"

definition cJSON_AddItemToObject :: "cj_env \<Rightarrow> cJSON \<Rightarrow> byte list \<Rightarrow> cJSON option \<Rightarrow> cJSON" where
  "cJSON_AddItemToObject E object s item =
     (case item of None \<Rightarrow> object
      | Some item \<Rightarrow> cJSON_AddItemToArray object (Some (set_string (cJSON_strdup E s) item)))"

text \<open>A reference shares its children with the item; as a value it has the same children.\<close>

definition create_reference :: "cj_env \<Rightarrow> cJSON \<Rightarrow> cJSON option" where
  "create_reference E item =
     (if ce_malloc E sizeof_cJSON then Some (set_string None (set_type (or (cj_type item) cJSON_IsReference) item)) else None)"

definition cJSON_AddItemReferenceToArray :: "cj_env \<Rightarrow> cJSON \<Rightarrow> cJSON \<Rightarrow> cJSON" where
  "cJSON_AddItemReferenceToArray E array item = cJSON_AddItemToArray array (create_reference E item)"

definition cJSON_AddItemReferenceToObject :: "cj_env \<Rightarrow> cJSON \<Rightarrow> byte list \<Rightarrow> cJSON \<Rightarrow> cJSON" where
  "cJSON_AddItemReferenceToObject E object s item = cJSON_AddItemToObject E object s (create_reference E item)"

definition cJSON_DetachItemFromArray :: "cJSON \<Rightarrow> int \<Rightarrow> cJSON option \<times> cJSON" where
  "cJSON_DetachItemFromArray array which =
     (let cs = cj_child array; i = nat which
      in if i < length cs then (Some (cs ! i), set_child (take i cs @ drop (Suc i) cs) array) else (None, array))"

definition cJSON_DeleteItemFromArray :: "cJSON \<Rightarrow> int \<Rightarrow> cJSON" where
  "cJSON_DeleteItemFromArray array which = snd (cJSON_DetachItemFromArray array which)"

definition cJSON_DetachItemFromObject :: "cJSON \<Rightarrow> byte list option \<Rightarrow> cJSON option \<times> cJSON" where
  "cJSON_DetachItemFromObject object s =
     (case name_index s (cj_child object) of None \<Rightarrow> (None, object)
      | Some i \<Rightarrow> cJSON_DetachItemFromArray object (int i))"

definition cJSON_DeleteItemFromObject :: "cJSON \<Rightarrow> byte list option \<Rightarrow> cJSON" where
  "cJSON_DeleteItemFromObject object s = snd (cJSON_DetachItemFromObject object s)"

definition cJSON_ReplaceItemInArray :: "cJSON \<Rightarrow> int \<Rightarrow> cJSON \<Rightarrow> cJSON" where
  "cJSON_ReplaceItemInArray array which newitem =
     (let cs = cj_child array; i = nat which in if i < length cs then set_child (cs[i := newitem]) array else array)"

definition cJSON_ReplaceItemInObject :: "cj_env \<Rightarrow> cJSON \<Rightarrow> byte list \<Rightarrow> cJSON \<Rightarrow> cJSON" where
  "cJSON_ReplaceItemInObject E object s newitem =
     (case name_index (Some s) (cj_child object) of None \<Rightarrow> object
      | Some i \<Rightarrow> cJSON_ReplaceItemInArray object (int i) (set_string (cJSON_strdup E s) newitem))"

text \<open>Creating items; \<open>None\<close> is a null pointer.\<close>

definition create :: "cj_env \<Rightarrow> (cJSON \<Rightarrow> cJSON) \<Rightarrow> cJSON option" where
  "create E f = (if ce_malloc E sizeof_cJSON then Some (f cJSON_New_Item) else None)"

definition cJSON_CreateNull :: "cj_env \<Rightarrow> cJSON option" where
  "cJSON_CreateNull E = create E (set_type cJSON_NULL)"

definition cJSON_CreateTrue :: "cj_env \<Rightarrow> cJSON option" where
  "cJSON_CreateTrue E = create E (set_type cJSON_True)"

definition cJSON_CreateFalse :: "cj_env \<Rightarrow> cJSON option" where
  "cJSON_CreateFalse E = create E (set_type cJSON_False)"

definition cJSON_CreateBool :: "cj_env \<Rightarrow> bool \<Rightarrow> cJSON option" where
  "cJSON_CreateBool E b = create E (set_type (if b then cJSON_True else cJSON_False))"

text \<open>The conversion of the number to \<open>int\<close> is undefined for large numbers.\<close>

definition cJSON_CreateNumber :: "cj_env \<Rightarrow> dbl \<Rightarrow> cJSON option option" where
  "cJSON_CreateNumber E num =
     (if ce_malloc E sizeof_cJSON
      then do {
        vi \<leftarrow> d_to_int num;
        Some (Some (set_valueint vi (set_valuedouble num (set_type cJSON_Number cJSON_New_Item))))
      }
      else Some None)"

definition cJSON_CreateString :: "cj_env \<Rightarrow> byte list \<Rightarrow> cJSON option" where
  "cJSON_CreateString E s = create E (\<lambda>item. set_valuestring (cJSON_strdup E s) (set_type cJSON_String item))"

definition cJSON_CreateArray :: "cj_env \<Rightarrow> cJSON option" where
  "cJSON_CreateArray E = create E (set_type cJSON_Array)"

definition cJSON_CreateObject :: "cj_env \<Rightarrow> cJSON option" where
  "cJSON_CreateObject E = create E (set_type cJSON_Object)"

text \<open>The arrays of numbers and of strings. Without memory for an item the code follows a null
  pointer, except for the only item of an array, which stays empty.\<close>

fun create_items :: "('a \<Rightarrow> cJSON option option) \<Rightarrow> 'a list \<Rightarrow> cJSON list option" where
  "create_items f [] = Some []"
| "create_items f (x # xs) = do { n \<leftarrow> f x; n \<leftarrow> n; cs \<leftarrow> create_items f xs; Some (n # cs) }"

definition create_array :: "cj_env \<Rightarrow> ('a \<Rightarrow> cJSON option option) \<Rightarrow> 'a list \<Rightarrow> cJSON option option" where
  "create_array E f xs =
     (case cJSON_CreateArray E of None \<Rightarrow> Some None
      | Some a \<Rightarrow>
          if length xs = 1 \<and> f (hd xs) = Some None then Some (Some a)
          else do { cs \<leftarrow> create_items f xs; Some (Some (set_child cs a)) })"

definition cJSON_CreateIntArray :: "cj_env \<Rightarrow> int list \<Rightarrow> cJSON option option" where
  "cJSON_CreateIntArray E ns = create_array E (\<lambda>n. cJSON_CreateNumber E (d_int n)) ns"

definition cJSON_CreateFloatArray :: "cj_env \<Rightarrow> dbl list \<Rightarrow> cJSON option option" where
  "cJSON_CreateFloatArray E ns = create_array E (cJSON_CreateNumber E) ns"

definition cJSON_CreateDoubleArray :: "cj_env \<Rightarrow> dbl list \<Rightarrow> cJSON option option" where
  "cJSON_CreateDoubleArray E ns = create_array E (cJSON_CreateNumber E) ns"

definition cJSON_CreateStringArray :: "cj_env \<Rightarrow> byte list list \<Rightarrow> cJSON option option" where
  "cJSON_CreateStringArray E ss = create_array E (\<lambda>s. Some (cJSON_CreateString E s)) ss"

end
