(* ===== verification/Lua_Value.thy ===== *)
theory Lua_Value
  imports Dbl "HOL-Library.Monad_Syntax"
begin

text \<open>
  Lua values as the conversions to JSON and BSON see them, and the operations of the Lua API on
  tables. A table is the list of its entries in the order of \<open>lua_next\<close>; Lua does not fix that order,
  here a new entry is the last one. Numbers are doubles. The stack of a C function is a list with its
  ctop in front; \<open>None\<close> is a Lua error or undefined.
\<close>

datatype lua = VNil | VBool bool | VNum dbl | VStr "byte list" | VTable "(lua \<times> lua) list" | VOther nat

type_synonym lua_stack = "lua list"

text \<open>\<open>lua_settable(L, -3)\<close>; assigning nil removes an entry.\<close>

fun set_entry :: "lua \<Rightarrow> lua \<Rightarrow> (lua \<times> lua) list \<Rightarrow> (lua \<times> lua) list" where
  "set_entry k v [] = (if v = VNil then [] else [(k, v)])"
| "set_entry k v ((k', v') # es) =
     (if k = k' then (if v = VNil then es else (k, v) # es) else (k', v') # set_entry k v es)"

fun lua_settable :: "lua_stack \<Rightarrow> lua_stack option" where
  "lua_settable (v # k # VTable es # st) = (if k = VNil then None else Some (VTable (set_entry k v es) # st))"
| "lua_settable st = None"

text \<open>\<open>lua_next(L, -2)\<close>: whether there is another entry, and the stack with it or without the key.\<close>

definition next_entry :: "(lua \<times> lua) list \<Rightarrow> lua \<Rightarrow> (lua \<times> lua) list option" where
  "next_entry es k =
     (if k = VNil then Some es
      else (case dropWhile (\<lambda>e. fst e \<noteq> k) es of [] \<Rightarrow> None | _ # rest \<Rightarrow> Some rest))"

fun lua_next :: "nat \<Rightarrow> lua_stack \<Rightarrow> (bool \<times> lua_stack) option" where
  "lua_next ctop (k # VTable es # st) =
     (case next_entry es k of
        None \<Rightarrow> None
      | Some [] \<Rightarrow> Some (False, VTable es # st)
      | Some ((k, v) # _) \<Rightarrow> map_option (\<lambda>st. (True, st)) (lua_pushed ctop (v # k # VTable es # st)))"
| "lua_next ctop st = None"

definition lua_pop1 :: "lua_stack \<Rightarrow> lua_stack option" where
  "lua_pop1 st = (case st of [] \<Rightarrow> None | _ # st \<Rightarrow> Some st)"

text \<open>The C string of a Lua string ends at its first zero.\<close>

definition c_str :: "byte list \<Rightarrow> byte list" where
  "c_str s = takeWhile (\<lambda>c. c \<noteq> 0) s"

text \<open>The name of an entry; a key that is neither a string nor a number has none. A number is printed as an \<open>int\<close>.\<close>

definition key_name :: "lua \<Rightarrow> byte list option option" where
  "key_name k =
     (case k of
        VStr s \<Rightarrow> Some (Some (c_str s))
      | VNum d \<Rightarrow> map_option (\<lambda>n. Some (show_int n)) (d_to_int d)
      | _ \<Rightarrow> Some None)"

section \<open>Arguments\<close>

text \<open>
  What a Lua value is to C: \<open>cv_userdata n\<close> is the pointer of the object \<open>VOther n\<close> when it is a
  userdata, with \<open>None\<close> inside for a null pointer; \<open>cv_light\<close> is the light userdata of a pointer.
  \<open>cv_numstr\<close> and \<open>cv_strnum\<close> are Lua's conversions between numbers and strings.
\<close>

record lua_conv =
  cv_userdata :: "nat \<Rightarrow> nat option option"
  cv_light :: "nat \<Rightarrow> nat"
  cv_numstr :: "dbl \<Rightarrow> byte list"
  cv_strnum :: "byte list \<Rightarrow> dbl option"

definition arg_at :: "lua list \<Rightarrow> nat \<Rightarrow> lua" where
  "arg_at as i = (if 1 \<le> i \<and> i \<le> length as then as ! (i - 1) else VNil)"

definition lua_isuserdata :: "lua_conv \<Rightarrow> lua \<Rightarrow> bool" where
  "lua_isuserdata C v = (case v of VOther n \<Rightarrow> cv_userdata C n \<noteq> None | _ \<Rightarrow> False)"

definition lua_touserdata :: "lua_conv \<Rightarrow> lua \<Rightarrow> nat option" where
  "lua_touserdata C v = (case v of VOther n \<Rightarrow> Option.bind (cv_userdata C n) (\<lambda>p. p) | _ \<Rightarrow> None)"

definition lua_isstring :: "lua \<Rightarrow> bool" where
  "lua_isstring v = (case v of VStr _ \<Rightarrow> True | VNum _ \<Rightarrow> True | _ \<Rightarrow> False)"

definition lua_tolstring :: "lua_conv \<Rightarrow> lua \<Rightarrow> byte list option" where
  "lua_tolstring C v = (case v of VStr s \<Rightarrow> Some s | VNum d \<Rightarrow> Some (cv_numstr C d) | _ \<Rightarrow> None)"

definition lua_isnumber :: "lua_conv \<Rightarrow> lua \<Rightarrow> bool" where
  "lua_isnumber C v = (case v of VNum _ \<Rightarrow> True | VStr s \<Rightarrow> cv_strnum C s \<noteq> None | _ \<Rightarrow> False)"

definition lua_tonumber :: "lua_conv \<Rightarrow> lua \<Rightarrow> dbl" where
  "lua_tonumber C v =
     (case v of VNum d \<Rightarrow> d | VStr s \<Rightarrow> (case cv_strnum C s of Some d \<Rightarrow> d | None \<Rightarrow> Fin 0) | _ \<Rightarrow> Fin 0)"

section \<open>Laws\<close>

text \<open>The entries of a table: keys are distinct and not nil, values are not nil.\<close>

definition entries_ok :: "(lua \<times> lua) list \<Rightarrow> bool" where
  "entries_ok es \<longleftrightarrow> distinct (map fst es) \<and> VNil \<notin> fst ` set es \<and> VNil \<notin> snd ` set es"

text \<open>How deep the tables of a value are nested.\<close>

fun nesting :: "lua \<Rightarrow> nat" where
  "nesting (VTable es) = Suc (Max (insert 0 ((\<lambda>(k, v). nesting v) ` set es)))"
| "nesting _ = 0"

lemma nesting_entry: "(k, v) \<in> set es \<Longrightarrow> nesting v < nesting (VTable es)"
  by (auto simp: less_Suc_eq_le intro!: Max_ge)

lemma set_entry_new: "k \<notin> fst ` set es \<Longrightarrow> v \<noteq> VNil \<Longrightarrow> set_entry k v es = es @ [(k, v)]"
  by (induction es) auto

lemma next_entry_after:
  "distinct (map fst (pre @ (k, v) # rest)) \<Longrightarrow> k \<noteq> VNil \<Longrightarrow> next_entry (pre @ (k, v) # rest) k = Some rest"
proof -
  assume d: "distinct (map fst (pre @ (k, v) # rest))" and k: "k \<noteq> VNil"
  then have "\<forall>e \<in> set pre. fst e \<noteq> k" by auto
  then have "dropWhile (\<lambda>e. fst e \<noteq> k) (pre @ (k, v) # rest) = (k, v) # rest" by (simp add: dropWhile_append2)
  then show ?thesis using k by (simp add: next_entry_def)
qed

lemma next_entry_first: "next_entry es VNil = Some es"
  by (simp add: next_entry_def)

lemma c_str_id: "0 \<notin> set s \<Longrightarrow> c_str s = s"
  by (auto simp: c_str_def takeWhile_eq_all_conv)

end
