(* ===== verification/Json.thy ===== *)
theory Json
  imports Cjson Lua_Value
begin

text \<open>
  The Lua binding of the JSON library, \<open>src/src/json/json.cc\<close>. The Lua stack is explicit: a table
  with an entry that cannot be encoded is left with its key and value still on the stack, and tables
  that are nested so deep that the \<open>LUA_MINSTACK\<close> slots are used up are undefined; \<open>ctop\<close> is where they
  end.
  Messages to the log are not modelled.
\<close>

section \<open>Encoding\<close>

text \<open>The branches of \<open>json_encode_tree\<close> that do not recurse.\<close>

definition encode_flat :: "cj_env \<Rightarrow> lua \<Rightarrow> cJSON option option" where
  "encode_flat E v =
     (case v of
        VNil \<Rightarrow> Some (cJSON_CreateNull E)
      | VBool b \<Rightarrow> Some (cJSON_CreateBool E b)
      | VNum d \<Rightarrow> cJSON_CreateNumber E d
      | VStr s \<Rightarrow> Some (cJSON_CreateString E (c_str s))
      | _ \<Rightarrow> Some None)"

text \<open>The loop over the table below the top of the stack.\<close>

partial_function (option) encode_loop :: "nat \<Rightarrow> cj_env \<Rightarrow> cJSON \<Rightarrow> lua_stack \<Rightarrow> (cJSON \<times> lua_stack) option" where
  "encode_loop ctop E json st =
     Option.bind (lua_next ctop st) (\<lambda>(more, st).
       if \<not> more then Some (json, st)
       else Option.bind (key_name (st ! 1)) (\<lambda>name.
         case name of
           None \<Rightarrow> Option.bind (lua_pop1 st) (\<lambda>st. encode_loop ctop E json st)
         | Some name \<Rightarrow>
             Option.bind
               (case st ! 0 of
                  VTable es \<Rightarrow>
                    (case cJSON_CreateObject E of
                       None \<Rightarrow> Some (None, st)
                     | Some obj \<Rightarrow> Option.bind (lua_pushed ctop (VNil # st)) (\<lambda>st.
                         Option.bind (encode_loop ctop E obj st) (\<lambda>(obj, st). Some (Some obj, st))))
                | v \<Rightarrow> Option.bind (encode_flat E v) (\<lambda>c. Some (c, st)))
               (\<lambda>(cjson, st).
                  case cjson of
                    None \<Rightarrow> Some (json, st)
                  | Some cjson \<Rightarrow>
                      Option.bind (lua_pop1 st) (\<lambda>st.
                        encode_loop ctop E (cJSON_AddItemToObject E json name (Some cjson)) st))))"

definition json_encode_tree :: "nat \<Rightarrow> cj_env \<Rightarrow> lua_stack \<Rightarrow> (cJSON option \<times> lua_stack) option" where
  "json_encode_tree ctop E st =
     (case st ! 0 of
        VTable es \<Rightarrow>
          (case cJSON_CreateObject E of
             None \<Rightarrow> Some (None, st)
           | Some obj \<Rightarrow> do { st \<leftarrow> lua_pushed ctop (VNil # st); (obj, st) \<leftarrow> encode_loop ctop E obj st; Some (Some obj, st) })
      | v \<Rightarrow> do { c \<leftarrow> encode_flat E v; Some (c, st) })"

definition json_encode :: "nat \<Rightarrow> cj_env \<Rightarrow> lua_stack \<Rightarrow> (byte list option \<times> lua_stack) option" where
  "json_encode ctop E st =
     do {
       (json, st) \<leftarrow> json_encode_tree ctop E st;
       case json of
         None \<Rightarrow> Some (None, st)
       | Some json \<Rightarrow> do { str \<leftarrow> cJSON_Print E json; Some (str, st) }
     }"

text \<open>The bindings give the number of results and the stack; the stack they get is their arguments.\<close>

definition json_lencode :: "cj_env \<Rightarrow> lua_stack \<Rightarrow> (int \<times> lua_stack) option" where
  "json_lencode E st =
     do {
       let ctop = frame_top st;
       (str, st) \<leftarrow> json_encode ctop E st;
       case str of
         None \<Rightarrow> Some (0, st)
       | Some str \<Rightarrow> do { st \<leftarrow> lua_pushed ctop (VStr str # st); Some (1, st) }
     }"

section \<open>Decoding\<close>

text \<open>\<open>atoi\<close> of a string that starts with a digit; too large numbers are undefined.\<close>

definition atoi_digits :: "byte list \<Rightarrow> int option" where
  "atoi_digits s = (let n = digs_val 0 (takeWhile is_dig s) in if in_int n then Some n else None)"

definition decode_key :: "byte list option \<Rightarrow> lua option" where
  "decode_key s =
     do {
       s \<leftarrow> s;
       if s \<noteq> [] \<and> is_dig (hd s) then map_option (\<lambda>n. VNum (d_int n)) (atoi_digits s) else Some (VStr s)
     }"

text \<open>An item of another type pushes nothing.\<close>

fun json_decode_tree :: "nat \<Rightarrow> cJSON \<Rightarrow> lua_stack \<Rightarrow> lua_stack option"
  and decode_elems :: "nat \<Rightarrow> int \<Rightarrow> cJSON list \<Rightarrow> lua_stack \<Rightarrow> lua_stack option"
  and decode_members :: "nat \<Rightarrow> cJSON list \<Rightarrow> lua_stack \<Rightarrow> lua_stack option"
where
  "json_decode_tree ctop (CJSON type vs vi vd st child) L =
     (if type = cJSON_Number then lua_pushed ctop (VNum (if vd \<noteq> Fin 0 then vd else d_int vi) # L)
      else if type = cJSON_String then lua_pushed ctop ((case vs of None \<Rightarrow> VNil | Some s \<Rightarrow> VStr s) # L)
      else if type = cJSON_NULL then lua_pushed ctop (VNil # L)
      else if type = cJSON_True then lua_pushed ctop (VBool True # L)
      else if type = cJSON_False then lua_pushed ctop (VBool False # L)
      else if type = cJSON_Array then Option.bind (lua_pushed ctop (VTable [] # L)) (decode_elems ctop 0 child)
      else if type = cJSON_Object then Option.bind (lua_pushed ctop (VTable [] # L)) (decode_members ctop child)
      else Some L)"
| "decode_elems ctop i [] L = Some L"
| "decode_elems ctop i (c # cs) L =
     Option.bind (lua_pushed ctop (VNum (d_int (i + 1)) # L)) (\<lambda>L. Option.bind (json_decode_tree ctop c L) (\<lambda>L.
       Option.bind (lua_settable L) (\<lambda>L. decode_elems ctop (i + 1) cs L)))"
| "decode_members ctop [] L = Some L"
| "decode_members ctop (c # cs) L =
     Option.bind (decode_key (cj_string c)) (\<lambda>k.
       Option.bind (lua_pushed ctop (k # L)) (\<lambda>L. Option.bind (json_decode_tree ctop c L) (\<lambda>L.
         Option.bind (lua_settable L) (\<lambda>L. decode_members ctop cs L))))"

definition json_decode :: "cj_env \<Rightarrow> byte list \<Rightarrow> lua_stack \<Rightarrow> (int \<times> lua_stack) option" where
  "json_decode E str L =
     do {
       r \<leftarrow> cJSON_Parse E (str @ [0]);
       case r of Inl _ \<Rightarrow> Some (0, L) | Inr json \<Rightarrow> do { L \<leftarrow> json_decode_tree (frame_top L) json L; Some (1, L) }
     }"

text \<open>\<open>str\<close> is the C string of the first argument when it is a string or a number.\<close>

definition json_ldecode :: "cj_env \<Rightarrow> byte list option \<Rightarrow> lua_stack \<Rightarrow> (int \<times> lua_stack) option" where
  "json_ldecode E str L =
     (case str of
        None \<Rightarrow> Some (0, L)
      | Some str \<Rightarrow> do { (ok, L) \<leftarrow> json_decode E str L; Some (if ok = 0 then (0, L) else (1, L)) })"

end
