(* ===== verification/Cjson_Spec.thy ===== *)
theory Cjson_Spec
  imports Cjson
begin

text \<open>
  The printer writes the text of the value an item stands for, inside the buffers it allocates, and
  the parser reads the value back. Numbers are those that fit an \<open>int\<close>.
\<close>

section \<open>Values and their text\<close>

datatype json = JNull | JBool bool | JNum int | JStr "byte list" | JArr "json list" | JObj "(byte list \<times> json) list"

fun reps :: "json \<Rightarrow> cJSON \<Rightarrow> bool"
  and reps_list :: "json list \<Rightarrow> cJSON list \<Rightarrow> bool"
  and reps_obj :: "(byte list \<times> json) list \<Rightarrow> cJSON list \<Rightarrow> bool"
where
  "reps JNull c \<longleftrightarrow> cj_type c = cJSON_NULL"
| "reps (JBool b) c \<longleftrightarrow> cj_type c = (if b then cJSON_True else cJSON_False)"
| "reps (JNum n) c \<longleftrightarrow> cj_type c = cJSON_Number \<and> cj_valueint c = n \<and> cj_valuedouble c = Fin (of_int n)"
| "reps (JStr s) c \<longleftrightarrow> cj_type c = cJSON_String \<and> cj_valuestring c = Some s"
| "reps (JArr js) c \<longleftrightarrow> cj_type c = cJSON_Array \<and> reps_list js (cj_child c)"
| "reps (JObj kvs) c \<longleftrightarrow> cj_type c = cJSON_Object \<and> reps_obj kvs (cj_child c)"
| "reps_list [] cs \<longleftrightarrow> cs = []"
| "reps_list (j # js) cs \<longleftrightarrow> (case cs of [] \<Rightarrow> False | c # cs \<Rightarrow> reps j c \<and> reps_list js cs)"
| "reps_obj [] cs \<longleftrightarrow> cs = []"
| "reps_obj ((k, j) # kvs) cs \<longleftrightarrow> 
     (case cs of [] \<Rightarrow> False | c # cs \<Rightarrow> cj_string c = Some k \<and> reps j c \<and> reps_obj kvs cs)"

text \<open>Values the round trip holds for: strings without zero bytes, numbers of type \<open>int\<close>.\<close>

fun json_ok :: "json \<Rightarrow> bool" where
  "json_ok (JNum n) \<longleftrightarrow> in_int n"
| "json_ok (JStr s) \<longleftrightarrow> 0 \<notin> set s"
| "json_ok (JArr js) \<longleftrightarrow> list_all json_ok js"
| "json_ok (JObj kvs) \<longleftrightarrow> list_all (\<lambda>(k, j). 0 \<notin> set k \<and> json_ok j) kvs"
| "json_ok _ \<longleftrightarrow> True"

definition esc :: "byte \<Rightarrow> byte list" where
  "esc c = (if 31 < c \<and> c \<noteq> 34 \<and> c \<noteq> 92 then [c] else 92 # escape c)"

definition str_text :: "byte list \<Rightarrow> byte list" where
  "str_text s = 34 # concat (map esc s) @ [34]"

fun jtext :: "nat \<Rightarrow> bool \<Rightarrow> json \<Rightarrow> byte list"
  and arr_text :: "nat \<Rightarrow> bool \<Rightarrow> json list \<Rightarrow> byte list"
  and obj_text :: "nat \<Rightarrow> bool \<Rightarrow> (byte list \<times> json) list \<Rightarrow> byte list"
where
  "jtext d fmt JNull = [110, 117, 108, 108]"
| "jtext d fmt (JBool b) = (if b then [116, 114, 117, 101] else [102, 97, 108, 115, 101])"
| "jtext d fmt (JNum n) = show_int n"
| "jtext d fmt (JStr s) = str_text s"
| "jtext d fmt (JArr js) = [91] @ arr_text (Suc d) fmt js @ [93]"
| "jtext d fmt (JObj kvs) =
     (if fmt then [123, 10] else [123]) @ obj_text (Suc d) fmt kvs @ (if fmt then replicate d 9 else []) @ [125]"
| "arr_text d fmt [] = []"
| "arr_text d fmt (j # js) =
     jtext d fmt j @ (if js = [] then [] else if fmt then [44, 32] else [44]) @ arr_text d fmt js"
| "obj_text d fmt [] = []"
| "obj_text d fmt ((k, j) # kvs) =
     (if fmt then replicate d 9 else []) @ str_text k @ (if fmt then [58, 9] else [58]) @ jtext d fmt j
     @ (if kvs = [] then [] else [44]) @ (if fmt then [10] else []) @ obj_text d fmt kvs"

section \<open>Strings\<close>

lemma print_len_esc: "print_len s = int (length (concat (map esc s)))"
proof (induction s)
  case (Cons c s)
  have "int (length (esc c)) = (if c \<in> set escapes then 2 else if c < 32 then 6 else 1)"
  proof (cases "c \<in> set escapes")
    case True
    then show ?thesis by (auto simp: escapes_def esc_def escape_def)
  next
    case False
    then have "c \<noteq> 34" "c \<noteq> 92" and e: "escape c = [117, 48, 48] @ hex2 c" by (auto simp: escapes_def escape_def)
    moreover have "(31 < c) = (\<not> c < 32)" by (simp add: word_less_nat_alt) linarith
    ultimately show ?thesis using False by (simp add: esc_def hex2_def)
  qed
  with Cons show ?case by simp
qed simp

lemma print_loop_law:
  "int (length out) + int (length (concat (map esc s))) + 1 \<le> cap \<Longrightarrow> print_loop cap s out = Some (out @ concat (map esc s))"
  by (induction s arbitrary: out) (auto simp: esc_def emit_def emit0_def)

lemma print_string_law:
  assumes "\<forall>n. ce_malloc E n" "int (length (str_text s)) < INT_MAX"
  shows "print_string_ptr E (Some s) = Some (Some (str_text s))"
  using assms print_loop_law [of "[34]" s "print_len s + 3"]
  by (simp add: print_string_ptr_def print_len_esc str_text_def emit_def emit0_def)

lemma hex_digit_law:
  assumes "0 \<le> n" "n < 16"
  shows "is_hex (hex_digit n)" "hex_val (hex_digit n) = n" "hex_digit n \<noteq> 120" "hex_digit n \<noteq> 88" "hex_digit n \<noteq> 34"
    "hex_digit n \<noteq> 0" "hex_digit n \<noteq> 92"
proof -
  have u: "uint (hex_digit n) = (if n < 10 then 48 + n else 87 + n)"
    using assms by (simp add: hex_digit_def uint_word_of_int)
  show "is_hex (hex_digit n)" "hex_val (hex_digit n) = n"
    using assms u by (simp_all add: is_hex_def is_dig_def hex_val_def word_le_def)
  show "hex_digit n \<noteq> 120" "hex_digit n \<noteq> 88" "hex_digit n \<noteq> 34" "hex_digit n \<noteq> 0" "hex_digit n \<noteq> 92"
    using assms u by (auto simp: word_uint_eq_iff split: if_splits)
qed

lemma scan_byte: "scan_x4 ([48, 48] @ hex2 c @ r) old = Some (Some (ucast c))"
proof -
  have h: "0 \<le> uint c div 16" "uint c div 16 < 16" "0 \<le> uint c mod 16" "uint c mod 16 < 16"
    using uint_lt2p [of c] uint_ge_0 [of c] by (simp_all add: pos_imp_zdiv_nonneg_iff)
  have "word_of_int (uint c div 16 * 16 + uint c mod 16) = (ucast c :: 32 word)" by (simp only: ucast_eq div_mult_mod_eq)
  then show ?thesis
    using hex_digit_law [OF h(1,2)] hex_digit_law [OF h(3,4)]
    by (simp add: scan_x4_def hex2_def is_space_def is_hex_def [of 48] is_dig_def [of 48] hex_val_def [of 48])
qed

lemma parse_u_byte:
  assumes "c \<noteq> 0" "c \<le> 31"
  shows "parse_u ([117, 48, 48] @ hex2 c @ r) uc uc2 = Some (drop 4 ([117, 48, 48] @ hex2 c @ r), Some (ucast c), uc2, [c])"
proof -
  have n: "unat (ucast c :: 32 word) = unat c" using unsigned_less [of c, where 'a = nat] by (simp add: unsigned_ucast_eq take_bit_nat_eq_self)
  have u: "(ucast c :: 32 word) \<noteq> 0" "(ucast c :: 32 word) < 0x80" "\<not> 0xDC00 \<le> (ucast c :: 32 word)" "\<not> 0xD800 \<le> (ucast c :: 32 word)"
    using assms n by (auto simp: word_le_nat_alt word_less_nat_alt unat_eq_0 simp flip: unat_eq_0)
  have b: "ucast (ucast c OR firstByteMark ! 1 :: 32 word) = c"
    using n unsigned_less [of c, where 'a = nat] by (simp add: firstByteMark_def word_unat_eq_iff unsigned_ucast_eq take_bit_nat_eq_self unsigned_take_bit_eq)
  show ?thesis
    using u b scan_byte [of c r uc]
    by (simp add: parse_u_def utf8_len_def Let_def) 
qed

text \<open>The three forms of an escaped character.\<close>

lemma esc_cases:
  assumes "c \<noteq> 0"
  obtains (plain) "esc c = [c]" "c \<noteq> 34" "c \<noteq> 92"
  | (letter) x where "esc c = [92, x]" "x \<noteq> 117" "unescape x = c"
  | (code) "esc c = [92, 117, 48, 48] @ hex2 c" "c \<le> 31"
proof (cases "c \<in> set escapes")
  case True
  then have "\<exists>x. esc c = [92, x] \<and> x \<noteq> 117 \<and> unescape x = c" by (auto simp: escapes_def esc_def escape_def unescape_def)
  then show thesis using letter by blast
next
  case False
  then have n: "c \<noteq> 34" "c \<noteq> 92" and e: "escape c = [117, 48, 48] @ hex2 c" by (auto simp: escapes_def escape_def)
  show thesis
  proof (cases "31 < c")
    case True
    then show thesis using plain n by (simp add: esc_def)
  next
    case False
    then show thesis using code e by (simp add: esc_def)
  qed
qed

lemma hex2_bytes: "x \<in> set (hex2 c) \<Longrightarrow> x \<noteq> 34 \<and> x \<noteq> 0 \<and> x \<noteq> 92"
proof -
  have h: "0 \<le> uint c div 16" "uint c div 16 < 16" "0 \<le> uint c mod 16" "uint c mod 16 < 16"
    using uint_lt2p [of c] uint_ge_0 [of c] by (simp_all add: pos_imp_zdiv_nonneg_iff)
  assume "x \<in> set (hex2 c)"
  then show ?thesis using hex_digit_law [OF h(1,2)] hex_digit_law [OF h(3,4)] by (auto simp: hex2_def)
qed

lemma hex2_eq: "\<exists>h1 h2. hex2 c = [h1, h2] \<and> h1 \<noteq> 34 \<and> h1 \<noteq> 0 \<and> h1 \<noteq> 92 \<and> h2 \<noteq> 34 \<and> h2 \<noteq> 0 \<and> h2 \<noteq> 92"
  using hex2_bytes [of _ c] by (auto simp: hex2_def)

lemma str_len_law:
  "0 \<notin> set s \<Longrightarrow> \<exists>n. str_len (concat (map esc s) @ 34 # r) = Some n \<and> int (length s) \<le> n \<and> n \<le> int (length (concat (map esc s)))"
proof (induction s)
  case (Cons c s)
  then obtain n where n: "str_len (concat (map esc s) @ 34 # r) = Some n" "int (length s) \<le> n" "n \<le> int (length (concat (map esc s)))"
    by auto
  have "c \<noteq> 0" using Cons.prems by auto
  then show ?case
  proof (cases rule: esc_cases)
    case code
    with hex2_eq [of c] n show ?thesis by auto
  qed (use n \<open>c \<noteq> 0\<close> in auto)
qed simp

lemma unesc_loop_law:
  "0 \<notin> set s \<Longrightarrow> int (length out) + int (length s) \<le> cap \<Longrightarrow> unesc_loop cap (concat (map esc s) @ 34 # r) uc uc2 out = Some (out @ s, 34 # r)"
proof (induction s arbitrary: out uc)
  case (Cons c s)
  have c: "c \<noteq> 0" using Cons.prems by auto
  then show ?case
  proof (cases rule: esc_cases)
    case plain
    then show ?thesis using Cons c by (simp add: emit_def)
  next
    case (letter x)
    then show ?thesis using Cons by (simp add: emit_def rd_def)
  next
    case code
    obtain h1 h2 where h: "hex2 c = [h1, h2]" by (simp add: hex2_def)
    have "parse_u (117 # 48 # 48 # h1 # h2 # concat (map esc s) @ 34 # r) uc uc2 = Some (h2 # concat (map esc s) @ 34 # r, Some (ucast c), uc2, [c])"
      using parse_u_byte [OF c code(2)] h by (simp add: numeral_eq_Suc)
    then show ?thesis using Cons code(1) h by (simp add: emit_def rd_def)
  qed
qed simp

lemma parse_string_law:
  assumes E: "\<forall>n. ce_malloc E n" and s: "0 \<notin> set s" "int (length (str_text s)) < INT_MAX" and r: "r \<noteq> []"
  shows "parse_string E item (str_text s @ r) = Some (POk (set_type cJSON_String (set_valuestring (Some s) item)) r)"
proof -
  from str_len_law [OF s(1), of r] obtain n where n: "str_len (concat (map esc s) @ 34 # r) = Some n" "int (length s) \<le> n"
    "n \<le> int (length (concat (map esc s)))" by auto
  have "unesc_loop (n + 1) (concat (map esc s) @ 34 # r) None None [] = Some (s, 34 # r)"
    using unesc_loop_law [OF s(1), of "[]" "n + 1"] n(2) by simp
  then show ?thesis using E n s(2) by (simp add: parse_string_def str_text_def rd_def emit0_def)
qed

section \<open>Numbers\<close>

text \<open>What may follow a value: the end, a comma, a bracket or a line break.\<close>

definition stops :: "cptr \<Rightarrow> bool" where
  "stops r \<longleftrightarrow> r \<noteq> [] \<and> hd r \<in> {0, 44, 93, 10, 125}"

lemma dig_val_range: "is_dig c \<Longrightarrow> 0 \<le> dig_val c \<and> dig_val c \<le> 9"
  by (simp add: is_dig_def dig_val_def word_le_def)

lemma digs_val_ge: "list_all is_dig ds \<Longrightarrow> 0 \<le> a \<Longrightarrow> a \<le> digs_val a ds"
proof (induction ds arbitrary: a)
  case (Cons c ds)
  then have "0 \<le> dig_val c" using dig_val_range by simp
  moreover from this have "a * 10 + dig_val c \<le> digs_val (a * 10 + dig_val c) ds" using Cons by simp
  ultimately show ?case using Cons.prems by simp
qed simp

lemma int_digits_law:
  assumes "list_all is_dig ds" "0 \<le> a" "digs_val a ds < 2 ^ 53" "r \<noteq> []" "\<not> is_dig (hd r)"
  shows "int_digits (Fin (of_int a)) (ds @ r) = Some (Fin (of_int (digs_val a ds)), r)"
  using assms
proof (induction ds arbitrary: a)
  case Nil
  then show ?case by (cases r) auto
next
  case (Cons c ds)
  let ?b = "a * 10 + dig_val c"
  have c: "0 \<le> dig_val c" "dig_val c \<le> 9" using Cons.prems dig_val_range by simp_all
  have b: "0 \<le> ?b" "?b < 2 ^ 53" using Cons.prems c digs_val_ge [of ds ?b] by simp_all
  have "rnd (of_int a * 10) = Fin (of_int (a * 10))" using rnd_int [of "a * 10"] b c Cons.prems(2) by simp
  moreover have "d_int (dig_val c) = Fin (of_int (dig_val c))" using c by (simp add: d_int_exact)
  moreover have "rnd (of_int (a * 10) + of_int (dig_val c)) = Fin (of_int ?b)" using rnd_int [of ?b] b by simp
  ultimately show ?case using Cons.IH [of ?b] Cons.prems b by simp
qed

lemma stops_not: "stops r \<Longrightarrow> r \<noteq> [] \<and> \<not> is_dig (hd r) \<and> hd r \<noteq> 46 \<and> hd r \<noteq> 101 \<and> hd r \<noteq> 69"
  by (auto simp: stops_def is_dig_def)

lemma int_part_law:
  assumes n: "int n < 2 ^ 53" and r: "stops r"
  shows "int_part (digits n @ r) = Some (Fin (of_nat n), r)"
proof (cases "n = 0")
  case True
  with stops_not [OF r] show ?thesis by (cases r) (auto simp: int_part_def rd_def digits_zero is_dig_def word_le_nat_alt)
next
  case False
  obtain c cs where d: "digits n = c # cs" by (cases "digits n") auto
  have c: "is_dig c" "c \<noteq> 48" using digits_are_digits [of n] hd_digits [of n] False by (simp_all add: d)
  have "49 \<le> c" using c by (simp add: is_dig_def word_le_nat_alt word_unat_eq_iff) 
  then show ?thesis
    using int_digits_law [OF digits_are_digits [of n], of 0 r] digs_val_digits [of n] n stops_not [OF r] c
    by (simp add: int_part_def rd_def d is_dig_def)
qed

lemma parse_number_law:
  assumes E: "ce_pow10 E (Fin 0) = Fin 1" and n: "in_int n" and r: "stops r"
  shows "parse_number E item (show_int n @ r)
    = Some (POk (set_type cJSON_Number (set_valueint n (set_valuedouble (Fin (of_int n)) item))) r)"
proof -
  have ex: "rnd 0 = Fin 0" "rnd 1 = Fin 1" "d_int 0 = Fin 0" by (simp_all add: rnd_int [of 0, simplified] rnd_int [of 1, simplified] d_int_exact)
  have parts: "frac_part m r = Some (m, Fin 0, r)" "exp_part r = Some (0, 1, r)" for m
    using stops_not [OF r] by (cases r; simp add: frac_part_def exp_part_def rd_def)+
  have b: "\<bar>n\<bar> < 2 ^ 53" using n by (auto simp: in_int_def INT_MIN_def INT_MAX_def)
  have v: "rnd (of_int n) = Fin (of_int n)" using rnd_int [OF b] .
  have i: "int_part (digits (nat \<bar>n\<bar>) @ r) = Some (Fin (of_int \<bar>n\<bar>), r)" using int_part_law [of "nat \<bar>n\<bar>" r] b r by simp
  show ?thesis
  proof (cases "n < 0")
    case True
    then have "show_int n = 45 # digits (nat \<bar>n\<bar>)" by (simp add: show_int_def)
    then show ?thesis using True i parts v ex E n by (simp add: parse_number_def rd_def)
  next
    case False
    then have s: "show_int n = digits (nat n)" by (simp add: show_int_def)
    obtain c cs where d: "digits (nat n) = c # cs" by (cases "digits (nat n)") auto
    have "c \<noteq> 45" using digits_are_digits [of "nat n"] by (auto simp: d is_dig_def)
    then show ?thesis using False i parts v ex E n by (simp add: parse_number_def rd_def s d)
  qed
qed

lemma print_number_law:
  assumes "\<forall>n. ce_malloc E n" and n: "in_int n" and c: "cj_valueint c = n" "cj_valuedouble c = Fin (of_int n)"
  shows "print_number E c = Some (Some (show_int n))"
proof -
  have b: "\<bar>n\<bar> < 2 ^ 53" "nat \<bar>n\<bar> < 10 ^ Suc 9" using n by (auto simp: in_int_def INT_MIN_def INT_MAX_def)
  have ex: "rnd 0 = Fin 0" "d_int n = Fin (of_int n)" "d_int INT_MAX = Fin (of_int INT_MAX)" "d_int INT_MIN = Fin (of_int INT_MIN)"
    using b(1) by (simp_all add: rnd_int [of 0, simplified] d_int_exact INT_MAX_def INT_MIN_def)
  have "rat_of_int n \<le> of_int INT_MAX" "of_int INT_MIN \<le> rat_of_int n" using n by (simp_all add: in_int_def)
  moreover have "length (show_int n) \<le> 11"
    using digits_length [OF b(2)] by (cases "n < 0") (simp_all add: show_int_def)
  ultimately show ?thesis
    using assms(1) c ex by (simp add: print_number_def Let_def d_sub_def DBL_EPSILON_def sprintf_to_def emit0_def)
qed

section \<open>Printing\<close>

lemma array_out_law:
  "int (length out) + int (length (arr_text d fmt js)) + 1 \<le> cap \<Longrightarrow>
     array_out cap fmt (map (jtext d fmt) js) out = Some (out @ arr_text d fmt js)"
  by (induction js arbitrary: out) (auto simp: emit0_def split: if_splits)

lemma object_out_law:
  "int (length out) + int (length (obj_text d fmt kvs)) + 1 \<le> cap \<Longrightarrow>
     object_out cap fmt d (map (\<lambda>(k, j). (str_text k, jtext d fmt j)) kvs) out = Some (out @ obj_text d fmt kvs)"
  by (induction kvs arbitrary: out) (auto simp: emit_def emit0_def split: if_splits)

lemma jtext_pos: "1 \<le> length (jtext d fmt j)"
  by (cases j) (auto simp: str_text_def show_int_def Suc_le_eq)

lemma array_len_law:
  "int (length (arr_text d fmt js)) + 3 \<le> array_len fmt (map (jtext d fmt) js) \<and> array_len fmt (map (jtext d fmt) js) \<le> 4 * int (length (arr_text d fmt js)) + 5"
proof (induction js)
  case (Cons j js)
  then show ?case using jtext_pos [of d fmt j] by (cases fmt; cases "js = []") (simp_all add: array_len_def o_def)
qed (simp add: array_len_def)

lemma object_len_law:
  "int (length (obj_text d fmt kvs)) + 7 + (if fmt then int d else 0) \<le> object_len fmt d (map (\<lambda>(k, j). (str_text k, jtext d fmt j)) kvs) + (if kvs = [] then 0 else 1)
   \<and> object_len fmt d (map (\<lambda>(k, j). (str_text k, jtext d fmt j)) kvs) \<le> 2 * int (length (obj_text d fmt kvs)) + 7 + (if fmt then int d else 0)"
proof (induction kvs)
  case (Cons kv kvs)
  obtain k j where "kv = (k, j)" by (cases kv)
  with Cons show ?case using jtext_pos [of d fmt j] by (cases fmt; cases "kvs = []") (simp_all add: object_len_def str_text_def)
qed (simp add: object_len_def)

text \<open>The sizes that are computed in \<open>int\<close> stay in its range for texts below \<open>2^29\<close> bytes.\<close>

definition small :: "byte list \<Rightarrow> bool" where
  "small t \<longleftrightarrow> int (length t) < 2 ^ 29"

lemma small_sub: "small (a @ b) \<Longrightarrow> small a \<and> small b" "small (x # b) \<Longrightarrow> small b"
  by (simp_all add: small_def)

lemma size_ids: "0 \<le> n \<Longrightarrow> n \<le> INT_MAX \<Longrightarrow> c_size (c_int n) = n"
  by (simp add: c_int_id c_size_id in_int_def INT_MIN_def INT_MAX_def)

lemma print_array_law:
  assumes E: "\<forall>n. ce_malloc E n" and t: "small (jtext d fmt (JArr js))"
  shows "print_array E fmt n (Some (map (jtext (Suc d) fmt) js, True)) = Some (Some (jtext d fmt (JArr js)))"
proof -
  let ?n = "array_len fmt (map (jtext (Suc d) fmt) js)"
  have n: "int (length (arr_text (Suc d) fmt js)) + 3 \<le> ?n" "?n \<le> INT_MAX"
    using array_len_law [of "Suc d" fmt js] t by (simp_all add: small_def INT_MAX_def)
  then have "c_size (c_int ?n) = ?n" by (intro size_ids) simp_all
  then show ?thesis using E n array_out_law [of "[91]" "Suc d" fmt js ?n] by (simp add: print_array_def emit0_def)
qed

lemma print_object_run:
  assumes "\<forall>n. ce_malloc E n" "filter (\<lambda>(s, e). s \<noteq> None \<and> e \<noteq> None) rs = rs" "map (\<lambda>(s, e). (the s, the e)) rs = es"
    "c_size (c_int (object_len fmt d es)) = m" "int (length t) + (if fmt then int d else 0) + 4 \<le> m"
    "object_out m fmt d es (if fmt then [123, 10] else [123]) = Some ((if fmt then [123, 10] else [123]) @ t)"
  shows "print_object E d fmt n (Some rs) = Some (Some ((if fmt then [123, 10] else [123]) @ t @ (if fmt then replicate (d - 1) 9 else []) @ [125]))"
  using assms by (cases fmt) (simp_all add: print_object_def Let_def emit0_def)

lemma print_object_law:
  assumes E: "\<forall>n. ce_malloc E n" and t: "small (jtext d fmt (JObj kvs))"
  shows "print_object E (Suc d) fmt n (Some (map (\<lambda>(k, j). (Some (str_text k), Some (jtext (Suc d) fmt j))) kvs)) = Some (Some (jtext d fmt (JObj kvs)))"
proof -
  let ?es = "map (\<lambda>(k, j). (str_text k, jtext (Suc d) fmt j)) kvs"
  let ?n = "object_len fmt (Suc d) ?es"
  have l: "int (length (obj_text (Suc d) fmt kvs)) + 6 + (if fmt then int (Suc d) else 0) \<le> ?n" "?n \<le> INT_MAX"
    using object_len_law [of "Suc d" fmt kvs] t by (auto simp: small_def INT_MAX_def split: if_splits)
  then have "c_size (c_int ?n) = ?n" by (intro size_ids) (simp_all split: if_splits)
  moreover have "filter (\<lambda>(s, e). s \<noteq> None \<and> e \<noteq> None) (map (\<lambda>(k, j). (Some (str_text k), Some (jtext (Suc d) fmt j))) kvs)
      = map (\<lambda>(k, j). (Some (str_text k), Some (jtext (Suc d) fmt j))) kvs"
    by (induction kvs) auto
  moreover have "map (\<lambda>(s, e). (the s, the e)) (map (\<lambda>(k, j). (Some (str_text k), Some (jtext (Suc d) fmt j))) kvs) = ?es"
    by (induction kvs) auto
  ultimately show ?thesis
    using l object_out_law [of "if fmt then [123, 10] else [123]" "Suc d" fmt kvs ?n]
      print_object_run [OF E, of "map (\<lambda>(k, j). (Some (str_text k), Some (jtext (Suc d) fmt j))) kvs" ?es fmt "Suc d" ?n "obj_text (Suc d) fmt kvs"]
    by (cases fmt) simp_all
qed

lemma print_value_law:
  assumes E: "\<forall>n. ce_malloc E n"
  shows "reps j c \<Longrightarrow> json_ok j \<Longrightarrow> small (jtext d fmt j) \<Longrightarrow> print_value E d fmt c = Some (Some (jtext d fmt j))"
    and "reps_list js cs \<Longrightarrow> list_all json_ok js \<Longrightarrow> small (arr_text d fmt js) \<Longrightarrow>
      array_entries E d fmt cs = Some (map (jtext d fmt) js, True)"
    and "reps_obj kvs cs \<Longrightarrow> list_all (\<lambda>(k, j). 0 \<notin> set k \<and> json_ok j) kvs \<Longrightarrow> small (obj_text d fmt kvs) \<Longrightarrow>
      object_entries E d fmt cs = Some (map (\<lambda>(k, j). (Some (str_text k), Some (jtext d fmt j))) kvs)"
proof (induction j c and js cs and kvs cs arbitrary: d and d and d rule: reps_reps_list_reps_obj.induct)
  case (1 c) then show ?case using E by (cases c) (simp add: cJSON_types cJSON_strdup_def)
next
  case (2 b c) then show ?case using E by (cases c) (auto simp: cJSON_types cJSON_strdup_def)
next
  case (3 n c) then show ?case using print_number_law [OF E, of n c] by (cases c) (simp add: cJSON_types)
next
  case (4 s c)
  then have "print_string_ptr E (Some s) = Some (Some (str_text s))"
    using print_string_law [OF E, of s] by (simp add: small_def INT_MAX_def)
  with 4 show ?case by (cases c) (simp add: cJSON_types print_string_def)
next
  case (5 js c)
  have "array_entries E (Suc d) fmt (cj_child c) = Some (map (jtext (Suc d) fmt) js, True)"
    using 5 by (intro 5(1)) (simp_all add: small_def)
  with 5 print_array_law [OF E, of d fmt js] show ?case by (cases c) (simp add: cJSON_types)
next
  case (6 kvs c)
  have "object_entries E (Suc d) fmt (cj_child c) = Some (map (\<lambda>(k, j). (Some (str_text k), Some (jtext (Suc d) fmt j))) kvs)"
    using 6 by (intro 6(1)) (simp_all add: small_def)
  with 6 print_object_law [OF E, of d fmt kvs] show ?case by (cases c) (simp add: cJSON_types)
next
  case (8 j js cs)
  then show ?case by (cases cs) (auto simp: small_def)
next
  case (10 k j kvs cs)
  have "print_string_ptr E (Some k) = Some (Some (str_text k))"
    using print_string_law [OF E, of k] 10(5) by (simp add: small_def INT_MAX_def)
  with 10 show ?case by (cases cs) (auto simp: small_def)
qed simp_all

section \<open>Parsing\<close>

lemma skip_tabs [simp]: "skip (replicate k 9 @ s) = skip s"
  by (induction k) auto

lemma skip_indent [simp]: "skip ((if fmt then replicate k 9 else []) @ s) = skip s"
  by simp

lemma skip_stay: "32 < c \<or> c = 0 \<Longrightarrow> skip (c # s) = Some (c # s)"
  by auto

lemma array_elems_skip: "skip s = skip s' \<Longrightarrow> array_elems E item cs s = array_elems E item cs s'"
  by (simp add: array_elems.simps)

lemma object_members_skip: "skip s = skip s' \<Longrightarrow> object_members E item cs s = object_members E item cs s'"
  by (simp add: object_members.simps)

lemma parse_value_first:
  assumes "c \<noteq> 110" "c \<noteq> 102" "c \<noteq> 116"
  shows "parse_value E item (c # s) =
    (if c = 34 then parse_string E item (c # s) else if c = 45 \<or> is_dig c then parse_number E item (c # s)
     else if c = 91 then parse_array E item (c # s) else if c = 123 then parse_object E item (c # s) else Some (PFail (Some (c # s))))"
  using assms by (simp add: parse_value.simps rd_def)

lemma set_simps [simp]:
  "cj_type (set_type t i) = t" "cj_valuestring (set_type t i) = cj_valuestring i" "cj_valueint (set_type t i) = cj_valueint i"
  "cj_valuedouble (set_type t i) = cj_valuedouble i" "cj_string (set_type t i) = cj_string i" "cj_child (set_type t i) = cj_child i"
  "cj_type (set_valuestring vs i) = cj_type i" "cj_valuestring (set_valuestring vs i) = vs" "cj_string (set_valuestring vs i) = cj_string i"
  "cj_child (set_valuestring vs i) = cj_child i" "cj_valueint (set_valueint n i) = n" "cj_valuedouble (set_valueint n i) = cj_valuedouble i"
  "cj_string (set_valueint n i) = cj_string i" "cj_child (set_valueint n i) = cj_child i" "cj_type (set_valueint n i) = cj_type i"
  "cj_type (set_valuedouble x i) = cj_type i" "cj_valuedouble (set_valuedouble x i) = x" "cj_string (set_valuedouble x i) = cj_string i" "cj_child (set_valuedouble x i) = cj_child i"
  "cj_string (set_string st i) = st" "cj_child (set_string st i) = cj_child i" "cj_type (set_child cs i) = cj_type i"
  "cj_child (set_child cs i) = cs" "cj_string (set_child cs i) = cj_string i"
  by (cases i; simp)+

lemma show_int_first: "\<exists>c cs. show_int n = c # cs \<and> (c = 45 \<or> is_dig c) \<and> c \<noteq> 110 \<and> c \<noteq> 102 \<and> c \<noteq> 116 \<and> c \<noteq> 34"
proof -
  obtain c cs where d: "digits (nat \<bar>n\<bar>) = c # cs" by (cases "digits (nat \<bar>n\<bar>)") auto
  have "is_dig c" using digits_are_digits [of "nat \<bar>n\<bar>"] by (simp add: d)
  then show ?thesis using d by (cases "n < 0") (auto simp: show_int_def is_dig_def)
qed

lemma jtext_first: "\<exists>c cs. jtext d fmt j = c # cs \<and> 32 < c \<and> c \<noteq> 93"
proof (cases j)
  case (JNum n)
  with show_int_first [of n] show ?thesis by (auto simp: is_dig_def word_le_nat_alt word_less_nat_alt)
qed (auto simp: str_text_def)

lemma skip_jtext: "skip (jtext d fmt j @ s) = Some (jtext d fmt j @ s)"
  using jtext_first [of d fmt j] by (auto simp: skip_stay)

lemma skip_stops: "stops s \<Longrightarrow> hd s \<noteq> 10 \<Longrightarrow> skip s = Some s"
  by (cases s) (auto simp: stops_def)

text \<open>One element of an array, one member of an object.\<close>

lemma array_step:
  assumes E: "\<forall>n. ce_malloc E n" and s: "skip s = Some (t @ c # r)" and t: "parse_value E cJSON_New_Item (t @ c # r) = Some (POk i (c # r))"
    and c: "c = 44 \<or> c = 93"
  shows "array_elems E item cs s = (if c = 44 then array_elems E item (cs @ [i]) r else Some (POk (set_child (cs @ [i]) item) r))"
  using assms by (subst array_elems.simps) (auto simp: rd_def)

lemma member_step:
  assumes E: "\<forall>n. ce_malloc E n" and k: "0 \<notin> set k" "small (str_text k)" and s: "skip s = Some (str_text k @ 58 # u)"
    and u: "skip u = Some v" and v: "parse_value E (set_string (Some k) (set_type cJSON_String cJSON_New_Item)) v = Some (POk i w)"
    and w: "skip w = Some (c # r)" and c: "c = 44 \<or> c = 125"
  shows "object_members E item cs s = (if c = 44 then object_members E item (cs @ [i]) r else Some (POk (set_child (cs @ [i]) item) r))"
proof -
  have str: "parse_string E cJSON_New_Item (str_text k @ 58 # u) = Some (POk (set_type cJSON_String (set_valuestring (Some k) cJSON_New_Item)) (58 # u))"
    using parse_string_law [OF E k(1), of "58 # u"] k(2) by (simp add: small_def INT_MAX_def)
  have new: "set_valuestring None (set_string (Some k) (set_type cJSON_String (set_valuestring (Some k) cJSON_New_Item)))
      = set_string (Some k) (set_type cJSON_String cJSON_New_Item)" by (simp add: cJSON_New_Item_def)
  show ?thesis
    using E s str u v w c by (subst object_members.simps) (auto simp: rd_def new)
qed

lemma parse_value_law:
  assumes E: "\<forall>n. ce_malloc E n" "ce_pow10 E (Fin 0) = Fin 1"
  shows "json_ok j \<Longrightarrow> small (jtext d fmt j) \<Longrightarrow> stops r \<Longrightarrow> cj_child item = [] \<Longrightarrow>
      \<exists>i. parse_value E item (jtext d fmt j @ r) = Some (POk i r) \<and> reps j i \<and> cj_string i = cj_string item"
    and "list_all json_ok js \<Longrightarrow> small (arr_text d fmt js) \<Longrightarrow> js \<noteq> [] \<Longrightarrow> skip s = skip (arr_text d fmt js @ 93 # r) \<Longrightarrow>
      \<exists>cs'. array_elems E item cs s = Some (POk (set_child (cs @ cs') item) r) \<and> reps_list js cs'"
    and "list_all (\<lambda>(k, j). 0 \<notin> set k \<and> json_ok j) kvs \<Longrightarrow> small (obj_text d fmt kvs) \<Longrightarrow> kvs \<noteq> [] \<Longrightarrow>
      skip s = skip (obj_text d fmt kvs @ (if fmt then replicate n 9 else []) @ 125 # r) \<Longrightarrow>
      \<exists>cs'. object_members E item cs s = Some (POk (set_child (cs @ cs') item) r) \<and> reps_obj kvs cs'"
proof (induction d fmt j and d fmt js and d fmt kvs arbitrary: item r and item cs s r and item cs s r n rule: jtext_arr_text_obj_text.induct)
  case (1 d fmt)
  then show ?case by (simp add: parse_value.simps)
next
  case (2 d fmt b)
  then show ?case by (cases b) (simp_all add: parse_value.simps)
next
  case (3 d fmt n)
  from show_int_first [of n] parse_number_law [OF E(2), of n r item] 3 show ?case by (auto simp: parse_value_first)
next
  case (4 d fmt s)
  then have "r \<noteq> []" by (simp add: stops_def)
  with parse_string_law [OF E(1), of s r item] 4 show ?case by (auto simp: str_text_def parse_value_first small_def INT_MAX_def)
next
  case (5 d fmt js)
  show ?case
  proof (cases "js = []")
    case True
    then show ?thesis using 5 by (simp add: parse_value_first parse_array.simps rd_def is_dig_def)
  next
    case False
    obtain j js' where js: "js = j # js'" using False by (cases js) auto
    obtain c t where t: "arr_text (Suc d) fmt js = c # t" "32 < c" "c \<noteq> 93" using jtext_first [of "Suc d" fmt j] by (auto simp: js)
    have "\<exists>cs'. array_elems E (set_type cJSON_Array item) [] (arr_text (Suc d) fmt js @ 93 # r)
        = Some (POk (set_child ([] @ cs') (set_type cJSON_Array item)) r) \<and> reps_list js cs'"
      using 5 False by (intro 5(1)) (simp_all add: small_def)
    then show ?thesis using t E(1) by (auto simp: parse_value_first parse_array.simps rd_def is_dig_def skip_stay)
  qed
next
  case (6 d fmt kvs)
  show ?case
  proof (cases "kvs = []")
    case True
    then show ?thesis using 6 by (auto simp: parse_value_first parse_object.simps rd_def is_dig_def)
  next
    case False
    obtain k j kvs' where kvs: "kvs = (k, j) # kvs'" using False by (cases kvs) auto
    let ?t = "obj_text (Suc d) fmt kvs @ (if fmt then replicate d 9 else []) @ 125 # r"
    obtain t where t: "skip ?t = Some (34 # t)" by (simp add: kvs str_text_def)
    have "\<exists>cs'. object_members E (set_type cJSON_Object item) [] (34 # t) = Some (POk (set_child ([] @ cs') (set_type cJSON_Object item)) r) \<and> reps_obj kvs cs'"
      using 6 False t by (intro 6(1) [where n = d]) (simp_all add: small_def)
    then show ?thesis using t E(1) by (auto simp: parse_value_first parse_object.simps rd_def is_dig_def)
  qed
next
  case (8 d fmt j js)
  let ?c = "if js = [] then 93 else 44" and ?r = "if js = [] then r else (if fmt then [32] else []) @ arr_text d fmt js @ 93 # r"
  have s: "skip s = Some (jtext d fmt j @ ?c # ?r)" using 8(6) skip_jtext [of d fmt j] by (auto split: if_splits)
  have "\<exists>i. parse_value E cJSON_New_Item (jtext d fmt j @ ?c # ?r) = Some (POk i (?c # ?r)) \<and> reps j i \<and> cj_string i = cj_string cJSON_New_Item"
    using 8 by (intro 8(1)) (simp_all add: small_def stops_def cJSON_New_Item_def)
  then obtain i where i: "parse_value E cJSON_New_Item (jtext d fmt j @ ?c # ?r) = Some (POk i (?c # ?r))" "reps j i" by blast
  show ?case
  proof (cases "js = []")
    case True
    then show ?thesis using array_step [OF E(1) s i(1)] i(2) by auto
  next
    case False
    have "\<exists>cs'. array_elems E item (cs @ [i]) ?r = Some (POk (set_child ((cs @ [i]) @ cs') item) r) \<and> reps_list js cs'"
      using 8 False by (intro 8(2)) (simp_all add: small_def)
    then obtain cs' where "array_elems E item (cs @ [i]) ?r = Some (POk (set_child (cs @ i # cs') item) r)" "reps_list js cs'" by auto
    then show ?thesis using array_step [OF E(1) s i(1)] i(2) False by (intro exI [of _ "i # cs'"]) simp
  qed
next
  case (10 d fmt k j kvs)
  let ?nl = "if fmt then [10] else []" and ?fin = "(if fmt then replicate n 9 else []) @ 125 # r"
  let ?c = "if kvs = [] then 125 else 44" and ?r = "if kvs = [] then r else ?nl @ obj_text d fmt kvs @ ?fin"
  let ?w = "if kvs = [] then ?nl @ ?fin else 44 # ?r"
  let ?u = "(if fmt then [9] else []) @ jtext d fmt j @ ?w"
  have s: "skip s = Some (str_text k @ 58 # ?u)" using 10(6) by (auto simp: str_text_def)
  have u: "skip ?u = Some (jtext d fmt j @ ?w)" by (simp add: skip_jtext)
  have w: "skip ?w = Some (?c # ?r)" "stops ?w" by (auto simp: stops_def)
  have "\<exists>i. parse_value E (set_string (Some k) (set_type cJSON_String cJSON_New_Item)) (jtext d fmt j @ ?w) = Some (POk i ?w) \<and> reps j i
      \<and> cj_string i = cj_string (set_string (Some k) (set_type cJSON_String cJSON_New_Item))"
    using 10 w(2) by (intro 10(1)) (simp_all add: small_def cJSON_New_Item_def)
  then obtain i where i: "parse_value E (set_string (Some k) (set_type cJSON_String cJSON_New_Item)) (jtext d fmt j @ ?w) = Some (POk i ?w)"
      "reps j i" "cj_string i = Some k" by auto
  have k: "0 \<notin> set k" "small (str_text k)" using 10 by (simp_all add: small_def)
  note step = member_step [OF E(1) k s u i(1) w(1)]
  show ?case
  proof (cases "kvs = []")
    case True
    then show ?thesis using step i by auto
  next
    case False
    have "\<exists>cs'. object_members E item (cs @ [i]) ?r = Some (POk (set_child ((cs @ [i]) @ cs') item) r) \<and> reps_obj kvs cs'"
      using 10 False by (intro 10(2) [where n = n]) (simp_all add: small_def)
    then obtain cs' where "object_members E item (cs @ [i]) ?r = Some (POk (set_child (cs @ i # cs') item) r)" "reps_obj kvs cs'" by auto
    then show ?thesis using step i False by (intro exI [of _ "i # cs'"]) simp
  qed
qed simp_all

lemma parse_text_law:
  assumes E: "\<forall>n. ce_malloc E n" "ce_pow10 E (Fin 0) = Fin 1" and j: "json_ok j" "small (jtext d fmt j)"
  shows "\<exists>i. cJSON_Parse E (jtext d fmt j @ [0]) = Some (Inr i) \<and> reps j i"
proof -
  have "stops [0]" by (simp add: stops_def)
  from parse_value_law(1) [OF E j this, of cJSON_New_Item] obtain i where
    "parse_value E cJSON_New_Item (jtext d fmt j @ [0]) = Some (POk i [0])" "reps j i"
    by (auto simp: cJSON_New_Item_def)
  then show ?thesis using E(1) by (simp add: cJSON_Parse_def skip_jtext)
qed

section \<open>Texts the parser cannot bear\<close>

lemma str_len_open: "\<forall>c \<in> set s. c \<noteq> 0 \<and> c \<noteq> 34 \<and> c \<noteq> 92 \<Longrightarrow> str_len (s @ [92, 0]) = None"
  by (induction s) auto

section \<open>The properties\<close>

text \<open>C17: An item that stands for a value of strings without zero bytes and numbers of type \<open>int\<close>, nested
  in any way, is printed as the text of the value, formatted or not; no buffer of the printer
  overflows. Parsing the text returns, without undefined behaviour, an item for the same value.\<close>

theorem json_print_parse:
  assumes E: "\<forall>n. ce_malloc E n" "ce_pow10 E (Fin 0) = Fin 1" and c: "reps j c" "json_ok j"
    and t: "small (jtext 0 True j)" "small (jtext 0 False j)"
  shows "cJSON_Print E c = Some (Some (jtext 0 True j)) \<and> cJSON_PrintUnformatted E c = Some (Some (jtext 0 False j))
    \<and> (\<exists>i. cJSON_Parse E (jtext 0 True j @ [0]) = Some (Inr i) \<and> reps j i)
    \<and> (\<exists>i. cJSON_Parse E (jtext 0 False j @ [0]) = Some (Inr i) \<and> reps j i)"
  using print_value_law(1) [OF E(1) c t(1)] print_value_law(1) [OF E(1) c t(2)] parse_text_law [OF E c(2) t(1)] parse_text_law [OF E c(2) t(2)]
  by (simp add: cJSON_Print_def cJSON_PrintUnformatted_def)

definition easy_env :: cj_env where
  "easy_env = \<lparr>ce_malloc = (\<lambda>_. True), ce_pow10 = (\<lambda>x. if x = Fin 0 then Fin 1 else NaN)\<rparr>"

definition small_item :: cJSON where
  "small_item = CJSON cJSON_Object None 0 (Fin 0) None
     [CJSON cJSON_Array None 0 (Fin 0) (Some [97]) [CJSON cJSON_Number None (- 7) (Fin (- 7)) None [], CJSON cJSON_NULL None 0 (Fin 0) None []]]"

text \<open>Witness: the object with an array of two elements, printed without formatting as
  \<open>{"a":[-7,null]}\<close>.\<close>

theorem json_print_parse_witness:
  "cJSON_PrintUnformatted easy_env small_item = Some (Some [123, 34, 97, 34, 58, 91, 45, 55, 44, 110, 117, 108, 108, 93, 125])
    \<and> (\<exists>i. cJSON_Parse easy_env [123, 34, 97, 34, 58, 91, 45, 55, 44, 110, 117, 108, 108, 93, 125, 0] = Some (Inr i)
          \<and> reps (JObj [([97], JArr [JNum (- 7), JNull])]) i)"
proof -
  let ?j = "JObj [([97], JArr [JNum (- 7), JNull])]"
  have "digits 7 = [55]" by (subst digits.simps) simp
  then have t: "jtext 0 False ?j = [123, 34, 97, 34, 58, 91, 45, 55, 44, 110, 117, 108, 108, 93, 125]" "length (jtext 0 True ?j) = 20"
    by (simp_all add: str_text_def esc_def show_int_def)
  then have "small (jtext 0 True ?j)" "small (jtext 0 False ?j)" unfolding small_def by (simp_all only:) simp_all
  moreover have "reps ?j small_item" "json_ok ?j" by (simp_all add: small_item_def in_int_def INT_MIN_def INT_MAX_def)
  moreover have "\<forall>n. ce_malloc easy_env n" "ce_pow10 easy_env (Fin 0) = Fin 1" by (simp_all add: easy_env_def)
  ultimately show ?thesis using json_print_parse [of easy_env ?j small_item] unfolding t(1) by simp
qed

text \<open>A text that ends in a string with an open backslash is read past its end. Printing a whole
  number of 64 digits or more writes past the end of the 64 bytes allocated for it.\<close>

theorem json_out_of_bounds:
  assumes E: "\<forall>n. ce_malloc E n" and s: "\<forall>c \<in> set s. c \<noteq> 0 \<and> c \<noteq> 34 \<and> c \<noteq> 92"
    and c: "cj_valuedouble c = Fin (of_int n)" "10 ^ 63 \<le> n"
  shows "cJSON_Parse E (34 # s @ [92, 0]) = None \<and> print_number E c = None"
proof
  show "cJSON_Parse E (34 # s @ [92, 0]) = None"
    using E str_len_open [OF s] by (simp add: cJSON_Parse_def parse_value_first parse_string_def rd_def)
  have n: "0 \<le> n" "\<not> rat_of_int n \<le> of_int INT_MAX" using c(2) by (simp_all add: INT_MAX_def)
  have "(10 :: nat) ^ 63 \<le> nat n" using c(2) by (simp add: le_nat_iff)
  then have "64 \<le> length (digits (nat n))" using digits_long by fastforce
  moreover have "rnd 0 = Fin 0" "d_int INT_MAX = Fin (of_int INT_MAX)" by (simp_all add: rnd_int [of 0, simplified] d_int_exact INT_MAX_def)
  moreover have "half_even (rat_of_int n) = n" by simp
  ultimately show "print_number E c = None"
    using E c(1) n by (simp add: print_number_def Let_def d_sub_def DBL_EPSILON_def sprintf_to_def emit0_def)
qed

text \<open>Witness: the text \<open>"a\\<close> and the number \<open>2^210\<close>.\<close>

theorem json_out_of_bounds_witness:
  "cJSON_Parse easy_env [34, 97, 92, 0] = None
    \<and> print_number easy_env (CJSON cJSON_Number None 0 (Fin (2 ^ 210)) None []) = None"
  using json_out_of_bounds [of easy_env "[97]" "CJSON cJSON_Number None 0 (Fin (2 ^ 210)) None []" "2 ^ 210"]
  by (simp add: easy_env_def)

end
