(* ===== verification/Json_Spec.thy ===== *)
theory Json_Spec
  imports Json Cjson_Spec
begin

text \<open>
  A Lua value that is encoded as JSON and decoded again is the same value, tables with their
  order included.
\<close>

section \<open>Values that survive\<close>

fun key_ok :: "lua \<Rightarrow> bool" where
  "key_ok (VStr s) \<longleftrightarrow> 0 \<notin> set s \<and> \<not> (s \<noteq> [] \<and> is_dig (hd s))"
| "key_ok (VNum d) \<longleftrightarrow> (\<exists>n \<in> set_option (d_to_int d). d = Fin (of_int n) \<and> 0 \<le> n)"
| "key_ok _ \<longleftrightarrow> False"

fun lua_ok :: "lua \<Rightarrow> bool" where
  "lua_ok VNil \<longleftrightarrow> True"
| "lua_ok (VBool b) \<longleftrightarrow> True"
| "lua_ok (VNum d) \<longleftrightarrow> (\<exists>n \<in> set_option (d_to_int d). d = Fin (of_int n))"
| "lua_ok (VStr s) \<longleftrightarrow> 0 \<notin> set s"
| "lua_ok (VTable es) \<longleftrightarrow> entries_ok es \<and> (\<forall>(k, v) \<in> set es. key_ok k \<and> lua_ok v)"
| "lua_ok (VOther n) \<longleftrightarrow> False"

text \<open>The JSON value of such a value.\<close>

fun name_of :: "lua \<Rightarrow> byte list" where
  "name_of (VStr s) = s"
| "name_of (VNum d) = (case d_to_int d of Some n \<Rightarrow> show_int n | None \<Rightarrow> [])"
| "name_of _ = []"

fun json_of :: "lua \<Rightarrow> json" where
  "json_of VNil = JNull"
| "json_of (VBool b) = JBool b"
| "json_of (VNum d) = (case d_to_int d of Some n \<Rightarrow> JNum n | None \<Rightarrow> JNull)"
| "json_of (VStr s) = JStr s"
| "json_of (VTable es) = JObj (map (\<lambda>(k, v). (name_of k, json_of v)) es)"
| "json_of (VOther n) = JNull"

lemma d_to_int_range: "d_to_int d = Some n \<Longrightarrow> in_int n"
  by (cases d) (auto simp: Let_def split: if_splits)

lemma show_int_bytes: "0 \<notin> set (show_int n)"
  using digits_are_digits [of "nat (- n)"] digits_are_digits [of "nat n"] by (auto simp: show_int_def list_all_iff is_dig_def)

lemma name_of_ok: "key_ok k \<Longrightarrow> 0 \<notin> set (name_of k)"
  by (cases k) (auto simp: show_int_bytes)

lemma json_of_ok: "lua_ok v \<Longrightarrow> json_ok (json_of v)"
proof (induction v rule: lua_ok.induct)
  case (5 es)
  then show ?case by (auto simp: list_all_iff name_of_ok)
qed (auto dest: d_to_int_range)

section \<open>Encoding\<close>

lemma create_ok: "\<forall>n. ce_malloc E n \<Longrightarrow> create E f = Some (f cJSON_New_Item)"
  by (simp add: create_def)

lemma encode_flat_law:
  assumes E: "\<forall>n. ce_malloc E n" and v: "lua_ok v" "\<And>es. v \<noteq> VTable es"
  shows "\<exists>c. encode_flat E v = Some (Some c) \<and> reps (json_of v) c"
  using assms
  by (cases v) (auto simp: encode_flat_def cJSON_CreateNull_def cJSON_CreateBool_def cJSON_CreateNumber_def cJSON_CreateString_def
      create_ok cJSON_strdup_def c_str_id)

lemma key_name_law: "key_ok k \<Longrightarrow> key_name k = Some (Some (name_of k))"
  by (cases k) (auto simp: key_name_def c_str_id)

lemma encode_step:
  assumes st: "lua_next ctop st = Some (True, v # k # st')" and k: "key_ok k"
    and v: "json_encode_tree ctop E (v # k # st') = Some (Some c, v # k # st')"
  shows "encode_loop ctop E json st = encode_loop ctop E (cJSON_AddItemToObject E json (name_of k) (Some c)) (k # st')"
  using v by (subst encode_loop.simps)
    (auto simp: st key_name_law [OF k] json_encode_tree_def lua_pop1_def split: lua.splits option.splits bind_splits)

lemma reps_set_string: "reps j (set_string s c) = reps j c"
  by (cases j; cases c) auto

lemma add_member:
  assumes "\<forall>n. ce_malloc E n"
  shows "cJSON_AddItemToObject E obj name (Some c) = set_child (cj_child obj @ [set_string (Some name) c]) obj"
  using assms by (simp add: cJSON_AddItemToObject_def cJSON_AddItemToArray_def cJSON_strdup_def)

lemma set_child_again: "set_child cs (set_child ds obj) = set_child cs obj"
  by (cases obj) simp

lemma encode_entries:
  assumes E: "\<forall>n. ce_malloc E n" and es: "entries_ok es" "\<forall>(k, v) \<in> set es. key_ok k"
    and room: "length st + 3 \<le> ctop"
    and enc: "\<And>k v st'. (k, v) \<in> set es \<Longrightarrow> length st' = length st + 2 \<Longrightarrow> \<exists>c. json_encode_tree ctop E (v # st') = Some (Some c, v # st') \<and> reps (json_of v) c"
  shows "es = pre @ rest \<Longrightarrow> next_entry es k = Some rest \<Longrightarrow>
    \<exists>cs. encode_loop ctop E obj (k # VTable es # st) = Some (set_child (cj_child obj @ cs) obj, VTable es # st)
      \<and> reps_obj (map (\<lambda>(k, v). (name_of k, json_of v)) rest) cs"
proof (induction rest arbitrary: pre k obj)
  case Nil
  then show ?case by (subst encode_loop.simps) (cases obj; simp)
next
  case (Cons e rest)
  obtain k' v where e: "e = (k', v)" by (cases e)
  have k': "key_ok k'" "k' \<noteq> VNil" using es(2) Cons.prems(1) e by auto
  from enc [of k' v "k' # VTable es # st"] Cons.prems(1) e obtain c where
    c: "json_encode_tree ctop E (v # k' # VTable es # st) = Some (Some c, v # k' # VTable es # st)" "reps (json_of v) c" by auto
  let ?c = "set_string (Some (name_of k')) c"
  let ?obj = "set_child (cj_child obj @ [?c]) obj"
  have nxt: "lua_next ctop (k # VTable es # st) = Some (True, v # k' # VTable es # st)" using Cons.prems(2) e room by simp
  have "next_entry es k' = Some rest"
    using next_entry_after [of pre k' v rest] es(1) k'(2) Cons.prems(1) e by (simp add: entries_ok_def)
  with Cons.IH [of "pre @ [e]" k' ?obj] Cons.prems(1) obtain cs where
    cs: "encode_loop ctop E ?obj (k' # VTable es # st) = Some (set_child (cj_child obj @ ?c # cs) obj, VTable es # st)"
      "reps_obj (map (\<lambda>(k, v). (name_of k, json_of v)) rest) cs" by (auto simp: set_child_again)
  then show ?case
    using encode_step [OF nxt k'(1) c(1), of obj] add_member [OF E] c(2) e
    by (intro exI [of _ "?c # cs"]) (simp add: reps_set_string)
qed

lemma encode_law:
  assumes E: "\<forall>n. ce_malloc E n"
  shows "lua_ok v \<Longrightarrow> length st + 1 + 2 * nesting v \<le> ctop \<Longrightarrow> \<exists>c. json_encode_tree ctop E (v # st) = Some (Some c, v # st) \<and> reps (json_of v) c"
proof (induction v arbitrary: st rule: lua_ok.induct)
  case (5 es)
  let ?obj = "set_type cJSON_Object cJSON_New_Item"
  have ok: "entries_ok es" "\<forall>(k, v) \<in> set es. key_ok k" using 5(2) by auto
  have ih: "\<exists>c. json_encode_tree ctop E (v # st') = Some (Some c, v # st') \<and> reps (json_of v) c" if "(k, v) \<in> set es" "length st' = length st + 2" for k v st'
    using that 5 nesting_entry [OF that(1)] by auto
  have room: "length st + 3 \<le> ctop" using 5(3) by simp
  have "\<exists>cs. encode_loop ctop E ?obj (VNil # VTable es # st) = Some (set_child (cj_child ?obj @ cs) ?obj, VTable es # st)
      \<and> reps_obj (map (\<lambda>(k, v). (name_of k, json_of v)) es) cs"
    by (rule encode_entries [OF E ok room ih, where pre = "[]"]) (simp_all add: next_entry_first)
  then obtain cs where
    "encode_loop ctop E ?obj (VNil # VTable es # st) = Some (set_child (cj_child ?obj @ cs) ?obj, VTable es # st)"
    "reps_obj (map (\<lambda>(k, v). (name_of k, json_of v)) es) cs" by blast
  then show ?case using E room by (simp add: json_encode_tree_def cJSON_CreateObject_def create_ok cJSON_New_Item_def)
next
  case 1 then show ?case using encode_flat_law [OF E, of VNil] by (auto simp: json_encode_tree_def)
next
  case (2 b) then show ?case using encode_flat_law [OF E, of "VBool b"] by (auto simp: json_encode_tree_def)
next
  case (3 d) then show ?case using encode_flat_law [OF E, of "VNum d"] by (auto simp: json_encode_tree_def)
next
  case (4 s) then show ?case using encode_flat_law [OF E, of "VStr s"] by (auto simp: json_encode_tree_def)
qed simp

section \<open>Decoding\<close>

lemma decode_key_law:
  assumes "key_ok k"
  shows "decode_key (Some (name_of k)) = Some k"
proof (cases k)
  case (VNum d)
  with assms obtain n where n: "d_to_int d = Some n" "d = Fin (of_int n)" "0 \<le> n" by auto
  have range: "in_int n" using d_to_int_range [OF n(1)] .
  then have exact: "d_int n = Fin (of_int n)" by (intro d_int_exact) (auto simp: in_int_def INT_MIN_def INT_MAX_def)
  have s: "show_int n = digits (nat n)" using n(3) by (simp add: show_int_def)
  have t: "takeWhile is_dig (digits (nat n)) = digits (nat n)" using digits_are_digits [of "nat n"] by (simp add: list_all_iff)
  have h: "is_dig (hd (digits (nat n)))" using digits_are_digits [of "nat n"] by (cases "digits (nat n)") auto
  have a: "atoi_digits (digits (nat n)) = Some n" using range digs_val_digits [of "nat n"] n(3) unfolding atoi_digits_def t by simp
  show ?thesis using VNum n(1) s h a exact n(2) by (simp add: decode_key_def)
qed (use assms in \<open>auto simp: decode_key_def\<close>)

lemma decode_members_law:
  assumes es: "entries_ok (pre @ es)" "\<forall>(k, v) \<in> set es. key_ok k"
    and room: "length st + 2 \<le> ctop"
    and dec: "\<And>k v c st'. (k, v) \<in> set es \<Longrightarrow> reps (json_of v) c \<Longrightarrow> length st' = length st + 2
      \<Longrightarrow> json_decode_tree ctop c st' = Some (v # st')"
    and cs: "reps_obj (map (\<lambda>(k, v). (name_of k, json_of v)) es) cs"
  shows "decode_members ctop cs (VTable pre # st) = Some (VTable (pre @ es) # st)"
  using assms
proof (induction es arbitrary: pre cs)
  case (Cons e es)
  obtain k v where e: "e = (k, v)" by (cases e)
  from Cons.prems(5) e obtain c cs' where cs: "cs = c # cs'" "cj_string c = Some (name_of k)" "reps (json_of v) c"
    "reps_obj (map (\<lambda>(k, v). (name_of k, json_of v)) es) cs'" by (auto split: list.splits)
  have k: "key_ok k" "k \<noteq> VNil" using Cons.prems(2) e by auto
  have new: "set_entry k v pre = pre @ [(k, v)]"
    using Cons.prems(1) e by (intro set_entry_new) (auto simp: entries_ok_def)
  have d: "json_decode_tree ctop c (k # VTable pre # st) = Some (v # k # VTable pre # st)" using Cons.prems(4) [of k v c] e cs(3) by simp
  have "decode_members ctop cs' (VTable (pre @ [(k, v)]) # st) = Some (VTable ((pre @ [(k, v)]) @ es) # st)"
    using Cons.prems cs(4) e by (intro Cons.IH) auto
  then show ?case using cs k d new e room by (simp add: decode_key_law)
qed simp

lemma decode_law:
  "lua_ok v \<Longrightarrow> length st + 1 + 2 * nesting v \<le> ctop \<Longrightarrow> reps (json_of v) c \<Longrightarrow> json_decode_tree ctop c st = Some (v # st)"
proof (induction v arbitrary: c st rule: lua_ok.induct)
  case (3 d)
  then obtain n where n: "d_to_int d = Some n" "d = Fin (of_int n)" by auto
  have "d_int n = Fin (of_int n)"
    using d_to_int_range [OF n(1)] by (intro d_int_exact) (auto simp: in_int_def INT_MIN_def INT_MAX_def)
  with 3 n show ?case by (cases c) auto
next
  case (5 es)
  have ih: "json_decode_tree ctop c st' = Some (v # st')"
    if "(k, v) \<in> set es" "reps (json_of v) c" "length st' = length st + 2" for k v c st'
    using that 5 nesting_entry [OF that(1)] by auto
  have room: "length st + 3 \<le> ctop" using 5(3) by simp
  have "decode_members ctop (cj_child c) (VTable [] # st) = Some (VTable ([] @ es) # st)"
    using 5(2,4) ih room by (intro decode_members_law) auto
  with 5(4) room show ?case by (cases c) (simp add: cJSON_types)
next
  case 1 then show ?case by (cases c) (simp add: cJSON_types)
next
  case (2 b) then show ?case by (cases c) (auto simp: cJSON_types)
next
  case (4 s) then show ?case by (cases c) (simp add: cJSON_types)
qed simp

section \<open>The text has no zero byte\<close>

lemma esc_nonzero: "c \<noteq> 0 \<Longrightarrow> 0 \<notin> set (esc c)"
proof -
  assume c: "c \<noteq> 0"
  have "0 \<notin> set (hex2 c)" using hex2_bytes [of 0 c] by auto
  then show ?thesis using c by (auto simp: esc_def escape_def)
qed

lemma str_text_nonzero: "0 \<notin> set s \<Longrightarrow> 0 \<notin> set (str_text s)"
  using esc_nonzero by (auto simp: str_text_def) (metis)

lemma jtext_nonzero:
  "json_ok j \<Longrightarrow> 0 \<notin> set (jtext d fmt j)"
  "list_all json_ok js \<Longrightarrow> 0 \<notin> set (arr_text d fmt js)"
  "list_all (\<lambda>(k, j). 0 \<notin> set k \<and> json_ok j) kvs \<Longrightarrow> 0 \<notin> set (obj_text d fmt kvs)"
  by (induction d fmt j and d fmt js and d fmt kvs rule: jtext_arr_text_obj_text.induct)
    (auto simp: show_int_bytes str_text_nonzero)

section \<open>The properties\<close>

text \<open>C38: A Lua value of booleans, numbers of type \<open>int\<close>, strings without zero bytes and tables nested at most
  nine deep, with keys that are numbers of type \<open>int\<close> from 0 on or strings that do not start with a digit,
  is encoded, the stack stays balanced and within the \<open>LUA_MINSTACK\<close> slots of a C function, and decoding
  the text gives the same value back. Memory can be allocated, and the text has to fit in an \<open>int\<close>.\<close>

theorem json_lua_roundtrip:
  assumes E: "\<forall>n. ce_malloc E n" "ce_pow10 E (Fin 0) = Fin 1" and v: "lua_ok v" "small (jtext 0 True (json_of v))" "nesting v \<le> 9"
  shows "\<exists>txt. json_lencode E (v # st) = Some (1, VStr txt # v # st) \<and> json_ldecode E (Some (c_str txt)) st' = Some (1, v # st')"
proof -
  let ?t = "jtext 0 True (json_of v)"
  from encode_law [OF E(1) v(1), of st "frame_top (v # st)"] v(3) obtain c where
    c: "json_encode_tree (frame_top (v # st)) E (v # st) = Some (Some c, v # st)" "reps (json_of v) c" by (auto simp: frame_top_def LUA_MINSTACK_def)
  have ok: "json_ok (json_of v)" using json_of_ok [OF v(1)] .
  have "cJSON_Print E c = Some (Some ?t)" using print_value_law(1) [OF E(1) c(2) ok v(2)] by (simp add: cJSON_Print_def)
  then have enc: "json_lencode E (v # st) = Some (1, VStr ?t # v # st)" using c(1) by (simp add: json_lencode_def json_encode_def) (simp add: frame_top_def LUA_MINSTACK_def)
  from parse_text_law [OF E ok v(2)] obtain i where i: "cJSON_Parse E (?t @ [0]) = Some (Inr i)" "reps (json_of v) i" by blast
  have "c_str ?t = ?t" using jtext_nonzero(1) [OF ok] by (rule c_str_id)
  then have "json_ldecode E (Some (c_str ?t)) st' = Some (1, v # st')"
    using i(1) v(3) decode_law [OF v(1) _ i(2), of st' "frame_top st'"] by (simp add: json_ldecode_def json_decode_def frame_top_def LUA_MINSTACK_def)
  with enc show ?thesis by blast
qed

definition small_table :: lua where
  "small_table = VTable [(VNum (Fin 1), VBool True), (VStr [107], VTable [(VStr [], VNum (Fin (- 2)))])]"

text \<open>Witness: a table with a number, a string and a table in it.\<close>

theorem json_lua_roundtrip_witness:
  "\<exists>txt. json_lencode easy_env [small_table] = Some (1, [VStr txt, small_table])
    \<and> json_ldecode easy_env (Some (c_str txt)) [] = Some (1, [small_table])"
proof (rule json_lua_roundtrip)
  have "digits (Suc 0) = [49]" "digits 2 = [50]" by (subst digits.simps; simp)+
  then show "small (jtext 0 True (json_of small_table))"
    by (simp add: small_table_def small_def str_text_def esc_def show_int_def in_int_def INT_MIN_def INT_MAX_def)
qed (auto simp: easy_env_def small_table_def entries_ok_def is_dig_def in_int_def INT_MIN_def INT_MAX_def)

text \<open>When an entry of an inner table cannot be encoded, the loop over the inner table leaves its key and
  value on the stack, and the loop over the outer table goes on with the inner one: the entries of
  the outer table behind it are missing in the result, without an error.\<close>

theorem json_encode_drops:
  assumes E: "\<forall>n. ce_malloc E n" and a: "0 \<notin> set a" and room: "length st + 5 \<le> ctop"
  shows "\<exists>c st'. json_encode_tree ctop E (VTable ((VStr a, VTable [(VStr x, VOther f)]) # es) # st) = Some (Some c, st')
    \<and> reps (JObj [(a, JObj [])]) c"
proof -
  let ?inner = "VTable [(VStr x, VOther f)]"
  let ?outer = "VTable ((VStr a, ?inner) # es)"
  let ?obj = "set_type cJSON_Object cJSON_New_Item"
  have obj: "cJSON_CreateObject E = Some ?obj" using E by (simp add: cJSON_CreateObject_def create_def)
  have in1: "encode_loop ctop E ?obj (VNil # ?inner # VStr a # ?outer # st) = Some (?obj, VOther f # VStr x # ?inner # VStr a # ?outer # st)"
    by (subst encode_loop.simps) (use room in \<open>simp add: next_entry_def key_name_def encode_flat_def\<close>)
  have in2: "encode_loop ctop E o' (VStr x # ?inner # VStr a # ?outer # st) = Some (o', ?inner # VStr a # ?outer # st)" for o'
    by (subst encode_loop.simps) (simp add: next_entry_def)
  have "encode_loop ctop E ?obj (VNil # ?outer # st)
      = Some (cJSON_AddItemToObject E ?obj a (Some ?obj), ?inner # VStr a # ?outer # st)"
    using in1 in2 a room by (subst encode_loop.simps) (simp add: next_entry_def key_name_def c_str_id obj lua_pop1_def)
  then show ?thesis using obj room by (simp add: json_encode_tree_def add_member [OF E] cJSON_New_Item_def)
qed

text \<open>Witness: the entry \<open>b\<close> is lost.\<close>

theorem json_encode_drops_witness:
  "\<exists>c st'. json_encode_tree (Suc LUA_MINSTACK) easy_env [VTable [(VStr [97], VTable [(VStr [120], VOther 0)]), (VStr [98], VBool True)]] = Some (Some c, st')
    \<and> reps (JObj [([97], JObj [])]) c"
  by (rule json_encode_drops) (simp_all add: easy_env_def LUA_MINSTACK_def)

end
