(* ===== verification/Actordb.thy ===== *)
theory Actordb
  imports Lua_Args "HOL-Library.Monad_Syntax"
begin

text \<open>
  The records of \<open>src/src/lstrc/actordb.cc\<close>: the C++ classes \<open>Task\<close> and \<open>User\<close>, their packing into
  bytes, and the accessors Lua sees. Objects live on a heap; the userdata a script holds is the
  address of its object, which may have been deleted. \<open>None\<close> is an access outside an object or a buffer.
\<close>

section \<open>Objects\<close>

record Task =
  taskid :: int
  task_uid :: int

record User =
  task_array :: "nat list"
  user_uid :: int
  user_task :: nat
  uname :: "byte list"

text \<open>\<open>tostring_len\<close> is \<open>s_tostring_buf_len\<close>; the buffer has that many bytes.\<close>

record actors =
  tasks :: "nat \<Rightarrow> Task option"
  users :: "nat \<Rightarrow> User option"
  brk :: nat
  tostring_buf :: "block option"
  tostring_len :: int

datatype actor_ref = RTask nat | RUser nat | RFunction string

definition new_Task :: Task where
  "new_Task = \<lparr>taskid = 0, task_uid = 0\<rparr>"

definition alloc_task :: "actors \<Rightarrow> nat \<times> actors" where
  "alloc_task st = (brk st, st\<lparr>tasks := (tasks st)(brk st \<mapsto> new_Task), brk := Suc (brk st)\<rparr>)"

definition alloc_user :: "actors \<Rightarrow> nat \<times> actors" where
  "alloc_user st =
     (let (t, st) = alloc_task st; u = brk st
      in (u, st\<lparr>users := (users st)(u \<mapsto> \<lparr>task_array = [], user_uid = 0, user_task = t, uname = []\<rparr>), brk := Suc u\<rparr>))"

section \<open>Packing\<close>

text \<open>A writing function gets the offset of \<open>buf\<close> and gives the number of bytes written; the remaining
  length it is told is not looked at.\<close>

definition read_varint :: "block \<Rightarrow> int \<Rightarrow> (int \<times> int) option" where
  "read_varint m buf = map_option (\<lambda>bs. (c_long (le_val bs), 8)) (mem_get m buf 8)"

definition len_varint :: "int \<Rightarrow> int" where
  "len_varint val = 8"

definition len_string :: "byte list \<Rightarrow> int" where
  "len_string val = c_int (len_varint (int (length val)) + int (length val))"

definition write_buf :: "byte list \<Rightarrow> int \<Rightarrow> block \<Rightarrow> (int \<times> block) option" where
  "write_buf src buf m = map_option (\<lambda>m. (c_int (int (length src)), m)) (mem_put m buf src)"

definition write_varint :: "int \<Rightarrow> int \<Rightarrow> block \<Rightarrow> (int \<times> block) option" where
  "write_varint val buf m = map_option (\<lambda>m. (8, m)) (mem_put m buf (le_bytes 8 val))"

definition write_string :: "byte list \<Rightarrow> int \<Rightarrow> block \<Rightarrow> (int \<times> block) option" where
  "write_string val buf m =
     do {
       (ir, m) \<leftarrow> write_varint (int (length val)) buf m;
       let totallen = ir;
       (ir, m) \<leftarrow> write_buf val (buf + totallen) m;
       Some (c_int (totallen + ir), m)
     }"

definition Task_packlen :: "Task \<Rightarrow> int" where
  "Task_packlen t = len_varint 2 + len_varint (taskid t) + len_varint 1 + len_varint (task_uid t)"

definition Task_pack :: "Task \<Rightarrow> int \<Rightarrow> block \<Rightarrow> (int \<times> block) option" where
  "Task_pack t buf m =
     do {
       (ir, m) \<leftarrow> write_varint 2 buf m;
       let totallen = ir;
       (ir, m) \<leftarrow> write_varint (taskid t) (buf + totallen) m;
       let totallen = c_int (totallen + ir);
       (ir, m) \<leftarrow> write_varint 1 (buf + totallen) m;
       let totallen = c_int (totallen + ir);
       (ir, m) \<leftarrow> write_varint (task_uid t) (buf + totallen) m;
       Some (c_int (totallen + ir), m)
     }"

text \<open>The tasks of an array.\<close>

fun get_tasks :: "actors \<Rightarrow> nat list \<Rightarrow> Task list option" where
  "get_tasks st [] = Some []"
| "get_tasks st (p # ps) = do { t \<leftarrow> tasks st p; ts \<leftarrow> get_tasks st ps; Some (t # ts) }"

fun packlen_tasks :: "Task list \<Rightarrow> int \<Rightarrow> int" where
  "packlen_tasks [] totallen = totallen"
| "packlen_tasks (t # ts) totallen = packlen_tasks ts (c_int (totallen + Task_packlen t))"

fun pack_tasks :: "Task list \<Rightarrow> int \<Rightarrow> int \<Rightarrow> block \<Rightarrow> (int \<times> block) option" where
  "pack_tasks [] buf totallen m = Some (totallen, m)"
| "pack_tasks (t # ts) buf totallen m =
     do { (ir, m) \<leftarrow> Task_pack t (buf + totallen) m; pack_tasks ts buf (c_int (totallen + ir)) m }"

definition User_packlen :: "actors \<Rightarrow> User \<Rightarrow> int option" where
  "User_packlen st u =
     do {
       ts \<leftarrow> get_tasks st (task_array u);
       t \<leftarrow> tasks st (user_task u);
       let totallen = packlen_tasks ts (len_varint 3);
       let totallen = c_int (totallen + len_varint 1 + len_varint (user_uid u));
       let totallen = c_int (totallen + len_varint 5 + Task_packlen t);
       Some (c_int (totallen + len_varint 2 + len_string (uname u)))
     }"

definition User_pack :: "actors \<Rightarrow> User \<Rightarrow> int \<Rightarrow> block \<Rightarrow> (int \<times> block) option" where
  "User_pack st u buf m =
     do {
       ts \<leftarrow> get_tasks st (task_array u);
       t \<leftarrow> tasks st (user_task u);
       (totallen, m) \<leftarrow> write_varint 3 buf m;
       (totallen, m) \<leftarrow> pack_tasks ts buf totallen m;
       (ir, m) \<leftarrow> write_varint 1 (buf + totallen) m;
       let totallen = c_int (totallen + ir);
       (ir, m) \<leftarrow> write_varint (user_uid u) (buf + totallen) m;
       let totallen = c_int (totallen + ir);
       (ir, m) \<leftarrow> write_varint 5 (buf + totallen) m;
       let totallen = c_int (totallen + ir);
       (ir, m) \<leftarrow> Task_pack t (buf + totallen) m;
       let totallen = c_int (totallen + ir);
       (ir, m) \<leftarrow> write_varint 2 (buf + totallen) m;
       let totallen = c_int (totallen + ir);
       (ir, m) \<leftarrow> write_string (uname u) (buf + totallen) m;
       Some (c_int (totallen + ir), m)
     }"

section \<open>Unpacking\<close>

text \<open>
  The loop of \<open>Task::unpack\<close> and \<open>User::unpack\<close>; \<open>n\<close> is the size of the array of methods. Every method
  that is registered returns 0 and does nothing. The second number of a pair is taken as the
  length of what follows, and the loop moves by it, backwards if it is negative.
\<close>

partial_function (option) unpack_loop :: "int \<Rightarrow> block \<Rightarrow> int \<Rightarrow> int \<Rightarrow> int \<Rightarrow> int option" where
  "unpack_loop n m buf buflen totallen =
     (if 0 < buflen
      then
        Option.bind (read_varint m buf) (\<lambda>(tag, ir).
          Option.bind (read_varint m (buf + ir)) (\<lambda>(varlen, ir').
            if 0 \<le> tag \<and> tag < n
            then unpack_loop n m (buf + ir + ir' + varlen) (c_int (buflen - ir - ir' - varlen)) (c_int (totallen + ir + ir' + varlen))
            else None))
      else Some totallen)"

definition Task_unpack :: "block \<Rightarrow> int \<Rightarrow> int option" where
  "Task_unpack m buflen = unpack_loop 3 m 0 buflen 0"

definition User_unpack :: "block \<Rightarrow> int \<Rightarrow> int option" where
  "User_unpack m buflen = unpack_loop 6 m 0 buflen 0"

section \<open>Accessors of a task\<close>

text \<open>A binding gives the pushed values with the number of results, and the state.\<close>

type_synonym actor_result = "(actor_ref lua_out \<times> actors) option"

definition lactordb_task_new :: "actors \<Rightarrow> actor_result" where
  "lactordb_task_new st = (let (p, st) = alloc_task st in Some (([LPtr (RTask p)], 1), st))"

definition lactordb_task_bytesize :: "nat \<Rightarrow> actors \<Rightarrow> actor_result" where
  "lactordb_task_bytesize self st = do { msg \<leftarrow> tasks st self; Some (([LInt (Task_packlen msg)], 1), st) }"

text \<open>
  The common end of \<open>lactordb_task_tostring\<close> and \<open>lactordb_user_tostring\<close>: a buffer of at least
  \<open>totallen\<close> bytes, then the packed object. \<open>malloc\<close> gives the bytes a new block happens to have.
\<close>

definition tostring_with ::
  "(int \<Rightarrow> block option) \<Rightarrow> int \<Rightarrow> (block \<Rightarrow> (int \<times> block) option) \<Rightarrow> actors \<Rightarrow> actor_result" where
  "tostring_with malloc totallen pack st =
     (let st = (if tostring_len st < totallen
                then
                  (case malloc (c_size totallen) of
                     None \<Rightarrow> st\<lparr>tostring_buf := None, tostring_len := (if tostring_buf st = None then tostring_len st else 0)\<rparr>
                   | Some b \<Rightarrow> st\<lparr>tostring_buf := Some b, tostring_len := totallen\<rparr>)
                else st)
      in if tostring_len st < totallen then Some (([], 0), st)
         else do {
           b \<leftarrow> tostring_buf st;
           (totallen, b) \<leftarrow> pack b;
           bs \<leftarrow> mem_get b 0 (c_size totallen);
           Some (([LStr bs], 1), st\<lparr>tostring_buf := Some b\<rparr>)
         })"

definition lactordb_task_tostring :: "(int \<Rightarrow> block option) \<Rightarrow> nat \<Rightarrow> actors \<Rightarrow> actor_result" where
  "lactordb_task_tostring malloc self st =
     do { msg \<leftarrow> tasks st self; tostring_with malloc (Task_packlen msg) (Task_pack msg 0) st }"

definition lactordb_task_get_taskid :: "nat \<Rightarrow> actors \<Rightarrow> actor_result" where
  "lactordb_task_get_taskid self st = do { msg \<leftarrow> tasks st self; Some (([LInt (taskid msg)], 1), st) }"

definition lactordb_task_set_taskid :: "nat \<Rightarrow> int \<Rightarrow> actors \<Rightarrow> actor_result" where
  "lactordb_task_set_taskid self val st =
     do { msg \<leftarrow> tasks st self; Some (([], 0), st\<lparr>tasks := (tasks st)(self \<mapsto> msg\<lparr>taskid := c_int (c_long val)\<rparr>)\<rparr>) }"

definition lactordb_task_get_uid :: "nat \<Rightarrow> actors \<Rightarrow> actor_result" where
  "lactordb_task_get_uid self st = do { msg \<leftarrow> tasks st self; Some (([LInt (task_uid msg)], 1), st) }"

definition lactordb_task_set_uid :: "nat \<Rightarrow> int \<Rightarrow> actors \<Rightarrow> actor_result" where
  "lactordb_task_set_uid self val st =
     do { msg \<leftarrow> tasks st self; Some (([], 0), st\<lparr>tasks := (tasks st)(self \<mapsto> msg\<lparr>task_uid := c_int (c_long val)\<rparr>)\<rparr>) }"

definition lactordb_task_get :: "nat \<Rightarrow> string \<Rightarrow> actors \<Rightarrow> actor_result" where
  "lactordb_task_get self varname st =
     (if varname = ''taskid'' then lactordb_task_get_taskid self st
      else if varname = ''uid'' then lactordb_task_get_uid self st
      else if varname \<in> set [''totable'', ''tostring'', ''bytesize''] then Some (([LPtr (RFunction varname)], 1), st)
      else Some (([], 0), st))"

definition lactordb_task_set :: "nat \<Rightarrow> string \<Rightarrow> int \<Rightarrow> actors \<Rightarrow> actor_result" where
  "lactordb_task_set self varname val st =
     (if varname = ''taskid'' then lactordb_task_set_taskid self val st
      else if varname = ''uid'' then lactordb_task_set_uid self val st
      else Some (([], 0), st))"

section \<open>Accessors of a user\<close>

definition lactordb_user_new :: "actors \<Rightarrow> actor_result" where
  "lactordb_user_new st = (let (p, st) = alloc_user st in Some (([LPtr (RUser p)], 1), st))"

definition lactordb_new :: "string \<Rightarrow> actors \<Rightarrow> actor_result" where
  "lactordb_new varname st =
     (if varname = ''Task'' then lactordb_task_new st else if varname = ''User'' then lactordb_user_new st else None)"

definition lactordb_user_bytesize :: "nat \<Rightarrow> actors \<Rightarrow> actor_result" where
  "lactordb_user_bytesize self st = do { msg \<leftarrow> users st self; n \<leftarrow> User_packlen st msg; Some (([LInt n], 1), st) }"

definition lactordb_user_tostring :: "(int \<Rightarrow> block option) \<Rightarrow> nat \<Rightarrow> actors \<Rightarrow> actor_result" where
  "lactordb_user_tostring malloc self st =
     do { msg \<leftarrow> users st self; n \<leftarrow> User_packlen st msg; tostring_with malloc n (User_pack st msg 0) st }"

definition lactordb_user_add_task_array :: "nat \<Rightarrow> actors \<Rightarrow> actor_result" where
  "lactordb_user_add_task_array self st =
     do {
       msg \<leftarrow> users st self;
       let (t, st) = alloc_task st;
       Some (([LPtr (RTask t)], 1), st\<lparr>users := (users st)(self \<mapsto> msg\<lparr>task_array := task_array msg @ [t]\<rparr>)\<rparr>)
     }"

definition bad_index :: "int \<Rightarrow> User \<Rightarrow> bool" where
  "bad_index index msg \<longleftrightarrow> index < 0 \<or> int (length (task_array msg)) \<le> index"

definition lactordb_user_get_task_array :: "nat \<Rightarrow> int \<Rightarrow> actors \<Rightarrow> actor_result" where
  "lactordb_user_get_task_array self index st =
     do {
       msg \<leftarrow> users st self;
       let index = c_int index;
       if bad_index index msg then Some (([], 0), st)
       else Some (([LPtr (RTask (task_array msg ! nat index))], 1), st)
     }"

definition lactordb_user_count_task_array :: "nat \<Rightarrow> actors \<Rightarrow> actor_result" where
  "lactordb_user_count_task_array self st =
     do { msg \<leftarrow> users st self; Some (([LInt (c_int (int (length (task_array msg))))], 1), st) }"

definition lactordb_user_del_task_array :: "nat \<Rightarrow> int \<Rightarrow> actors \<Rightarrow> actor_result" where
  "lactordb_user_del_task_array self index st =
     do {
       msg \<leftarrow> users st self;
       let index = c_int index;
       if bad_index index msg then Some (([], 0), st)
       else do {
         let nest_msg = task_array msg ! nat index;
         _ \<leftarrow> tasks st nest_msg;
         let msg = msg\<lparr>task_array := take (nat index) (task_array msg) @ drop (Suc (nat index)) (task_array msg)\<rparr>;
         Some (([LInt index], 1), st\<lparr>users := (users st)(self \<mapsto> msg), tasks := (tasks st)(nest_msg := None)\<rparr>)
       }
     }"

definition lactordb_user_get_uid :: "nat \<Rightarrow> actors \<Rightarrow> actor_result" where
  "lactordb_user_get_uid self st = do { msg \<leftarrow> users st self; Some (([LInt (user_uid msg)], 1), st) }"

definition lactordb_user_set_uid :: "nat \<Rightarrow> int \<Rightarrow> actors \<Rightarrow> actor_result" where
  "lactordb_user_set_uid self val st =
     do { msg \<leftarrow> users st self; Some (([], 0), st\<lparr>users := (users st)(self \<mapsto> msg\<lparr>user_uid := c_int (c_long val)\<rparr>)\<rparr>) }"

definition lactordb_user_get_task :: "nat \<Rightarrow> actors \<Rightarrow> actor_result" where
  "lactordb_user_get_task self st = do { msg \<leftarrow> users st self; Some (([LPtr (RTask (user_task msg))], 1), st) }"

text \<open>\<open>c_str\<close> returns the name up to its first zero, and a name is set from such a string; a value that is not a string gives a null pointer.\<close>

definition lactordb_user_get_uname :: "nat \<Rightarrow> actors \<Rightarrow> actor_result" where
  "lactordb_user_get_uname self st = do { msg \<leftarrow> users st self; Some (([LStr (uname msg)], 1), st) }"

definition lactordb_user_set_uname :: "nat \<Rightarrow> byte list option \<Rightarrow> actors \<Rightarrow> actor_result" where
  "lactordb_user_set_uname self val st =
     do {
       msg \<leftarrow> users st self;
       val \<leftarrow> val;
       Some (([], 0), st\<lparr>users := (users st)(self \<mapsto> msg\<lparr>uname := takeWhile (\<lambda>c. c \<noteq> 0) val\<rparr>)\<rparr>)
     }"

definition lactordb_user_get :: "nat \<Rightarrow> string \<Rightarrow> actors \<Rightarrow> actor_result" where
  "lactordb_user_get self varname st =
     (if varname = ''uid'' then lactordb_user_get_uid self st
      else if varname = ''task'' then lactordb_user_get_task self st
      else if varname = ''uname'' then lactordb_user_get_uname self st
      else if varname \<in> set [''totable'', ''tostring'', ''bytesize'', ''get_task_array'', ''add_task_array'', ''count_task_array'', ''del_task_array'']
      then Some (([LPtr (RFunction varname)], 1), st)
      else Some (([], 0), st))"

text \<open>\<open>num\<close> and \<open>str\<close> are the third argument as a number and as a string.\<close>

definition lactordb_user_set :: "nat \<Rightarrow> string \<Rightarrow> int \<Rightarrow> byte list option \<Rightarrow> actors \<Rightarrow> actor_result" where
  "lactordb_user_set self varname num str st =
     (if varname = ''uid'' then lactordb_user_set_uid self num st
      else if varname = ''uname'' then lactordb_user_set_uname self str st
      else Some (([], 0), st))"

end
