(* ===== verification/Actordb_Spec.thy ===== *)
theory Actordb_Spec
  imports Actordb
begin

text \<open>
  Packing a record writes the bytes of its layout, as many as it announces, inside the buffer.
  Unpacking does not read that layout.
\<close>

section \<open>The layout\<close>

definition task_bytes :: "Task \<Rightarrow> byte list" where
  "task_bytes t = le_bytes 8 2 @ le_bytes 8 (taskid t) @ le_bytes 8 1 @ le_bytes 8 (task_uid t)"

definition user_bytes :: "User \<Rightarrow> Task list \<Rightarrow> Task \<Rightarrow> byte list" where
  "user_bytes u ts t =
     le_bytes 8 3 @ concat (map task_bytes ts) @ le_bytes 8 1 @ le_bytes 8 (user_uid u) @ le_bytes 8 5 @ task_bytes t
     @ le_bytes 8 2 @ le_bytes 8 (int (length (uname u))) @ uname u"

lemma length_task_bytes [simp]: "length (task_bytes t) = 32"
  by (simp add: task_bytes_def)

lemma length_tasks_bytes [simp]: "length (concat (map task_bytes ts)) = 32 * length ts"
  by (induction ts) simp_all

lemma length_user_bytes: "length (user_bytes u ts t) = 32 * length ts + length (uname u) + 80"
  by (simp add: user_bytes_def)

section \<open>Writing pieces one after the other\<close>

lemma mem_put_append:
  "mem_put m off (a @ b) = Some m' \<Longrightarrow> \<exists>m1. mem_put m off a = Some m1 \<and> mem_put m1 (off + int (length a)) b = Some m'"
  by (auto simp: mem_put_def nat_add_distrib min_def ac_simps split: if_splits)

lemma mem_put_appendE:
  assumes "mem_put m off (a @ b) = Some m'"
  obtains m1 where "mem_put m off a = Some m1" "mem_put m1 (off + int (length a)) b = Some m'"
  using mem_put_append [OF assms] by blast

lemma write_varint_law: "mem_put m off (le_bytes 8 v) = Some m' \<Longrightarrow> write_varint v off m = Some (8, m')"
  by (simp add: write_varint_def)

lemma small_int [simp]: "c_int 16 = 16" "c_int 24 = 24" "c_int 32 = 32"
  by (simp_all add: c_int_id in_int_def INT_MIN_def INT_MAX_def)

lemma Task_pack_law: "mem_put m off (task_bytes t) = Some m' \<Longrightarrow> Task_pack t off m = Some (32, m')"
  unfolding task_bytes_def
  by (elim mem_put_appendE) (simp add: Task_pack_def write_varint_law add.assoc)

lemma in_int_small: "0 \<le> n \<Longrightarrow> n \<le> INT_MAX \<Longrightarrow> c_int n = n"
  by (simp add: c_int_id in_int_def INT_MIN_def INT_MAX_def)

lemma pack_tasks_law:
  "mem_put m (off + n) (concat (map task_bytes ts)) = Some m' \<Longrightarrow> 0 \<le> n \<Longrightarrow> n + 32 * int (length ts) \<le> INT_MAX \<Longrightarrow>
     pack_tasks ts off n m = Some (n + 32 * int (length ts), m')"
proof (induction ts arbitrary: n m)
  case Nil
  then show ?case by (auto simp: mem_put_def split: if_splits)
next
  case (Cons t ts)
  from Cons.prems(1) obtain m1 where m1: "mem_put m (off + n) (task_bytes t) = Some m1"
    "mem_put m1 (off + (n + 32)) (concat (map task_bytes ts)) = Some m'"
    by (auto elim!: mem_put_appendE simp: add.assoc)
  have "c_int (n + 32) = n + 32" using Cons.prems by (intro in_int_small) simp_all
  then show ?case using Cons.IH [OF m1(2)] Cons.prems Task_pack_law [OF m1(1)] by simp
qed

lemma write_string_law:
  assumes "mem_put m off (le_bytes 8 (int (length s)) @ s) = Some m'" "int (length s) + 8 \<le> INT_MAX"
  shows "write_string s off m = Some (8 + int (length s), m')"
proof -
  from assms(1) obtain m1 where m1: "mem_put m off (le_bytes 8 (int (length s))) = Some m1" "mem_put m1 (off + 8) s = Some m'"
    by (auto elim!: mem_put_appendE)
  have "c_int (int (length s)) = int (length s)" "c_int (8 + int (length s)) = 8 + int (length s)"
    using assms(2) by (simp_all add: in_int_small)
  then show ?thesis using write_varint_law [OF m1(1)] m1(2) by (simp add: write_string_def write_buf_def)
qed

lemma User_pack_law:
  assumes ts: "get_tasks st (task_array u) = Some ts" "tasks st (user_task u) = Some t"
    and m: "mem_put m off (user_bytes u ts t) = Some m'" and small: "int (length (user_bytes u ts t)) \<le> INT_MAX"
  shows "User_pack st u off m = Some (int (length (user_bytes u ts t)), m')"
proof -
  let ?n = "8 + 32 * int (length ts)"
  have n: "?n + int (length (uname u)) + 72 \<le> INT_MAX" using small by (simp add: length_user_bytes)
  have ids: "c_int (?n + 8) = ?n + 8" "c_int (?n + 16) = ?n + 16" "c_int (?n + 24) = ?n + 24" "c_int (?n + 56) = ?n + 56"
    "c_int (?n + 64) = ?n + 64" "c_int (?n + 72 + int (length (uname u))) = ?n + 72 + int (length (uname u))"
    using n by (intro in_int_small; simp)+
  define sb where "sb = le_bytes 8 (int (length (uname u))) @ uname u"
  have "mem_put m off (le_bytes 8 3 @ concat (map task_bytes ts) @ le_bytes 8 1 @ le_bytes 8 (user_uid u) @ le_bytes 8 5 @ task_bytes t
      @ le_bytes 8 2 @ sb) = Some m'" using m by (simp add: user_bytes_def sb_def)
  then obtain m1 m2 m3 m4 m5 m6 m7 where w:
    "mem_put m off (le_bytes 8 3) = Some m1" "mem_put m1 (off + 8) (concat (map task_bytes ts)) = Some m2"
    "mem_put m2 (off + ?n) (le_bytes 8 1) = Some m3" "mem_put m3 (off + (?n + 8)) (le_bytes 8 (user_uid u)) = Some m4"
    "mem_put m4 (off + (?n + 16)) (le_bytes 8 5) = Some m5" "mem_put m5 (off + (?n + 24)) (task_bytes t) = Some m6"
    "mem_put m6 (off + (?n + 56)) (le_bytes 8 2) = Some m7"
    "mem_put m7 (off + (?n + 64)) sb = Some m'"
    by (elim mem_put_appendE) (simp add: add.assoc)
  show ?thesis
    using ts ids w write_varint_law pack_tasks_law [OF w(2)] Task_pack_law [OF w(6)] write_string_law [OF w(8) [unfolded sb_def]] n
    by (simp add: User_pack_def length_user_bytes add.assoc)
qed

section \<open>Lengths and the buffer\<close>

lemma packlen_tasks_law: "0 \<le> n \<Longrightarrow> n + 32 * int (length ts) \<le> INT_MAX \<Longrightarrow> packlen_tasks ts n = n + 32 * int (length ts)"
proof (induction ts arbitrary: n)
  case (Cons t ts)
  have "c_int (n + 32) = n + 32" using Cons.prems by (intro in_int_small) simp_all
  then show ?case using Cons by (simp add: Task_packlen_def len_varint_def)
qed simp

lemma User_packlen_law:
  assumes "get_tasks st (task_array u) = Some ts" "tasks st (user_task u) = Some t" "int (length (user_bytes u ts t)) \<le> INT_MAX"
  shows "User_packlen st u = Some (int (length (user_bytes u ts t)))"
proof -
  let ?n = "8 + 32 * int (length ts)"
  have n: "?n + 72 + int (length (uname u)) \<le> INT_MAX" using assms(3) by (simp add: length_user_bytes)
  have ids: "c_int (?n + 16) = ?n + 16" "c_int (?n + 56) = ?n + 56" "c_int (8 + int (length (uname u))) = 8 + int (length (uname u))"
    "c_int (?n + 72 + int (length (uname u))) = ?n + 72 + int (length (uname u))"
    using n by (intro in_int_small; simp)+
  show ?thesis
    using assms ids n packlen_tasks_law [of 8 ts]
    by (simp add: User_packlen_def len_varint_def len_string_def Task_packlen_def length_user_bytes add.assoc)
qed

definition buf_ok :: "actors \<Rightarrow> bool" where
  "buf_ok st \<longleftrightarrow> (case tostring_buf st of None \<Rightarrow> tostring_len st = 0 | Some b \<Rightarrow> tostring_len st = int (length b))"

definition malloc_ok :: "(int \<Rightarrow> block option) \<Rightarrow> bool" where
  "malloc_ok malloc \<longleftrightarrow> (\<forall>n. \<exists>b. malloc n = Some b \<and> length b = nat n)"

lemma tostring_law:
  assumes st: "buf_ok st" and n: "0 < length bs" "int (length bs) \<le> INT_MAX" and malloc: "malloc_ok malloc"
    and pack: "\<And>m m'. mem_put m 0 bs = Some m' \<Longrightarrow> pack m = Some (int (length bs), m')"
  shows "\<exists>st'. tostring_with malloc (int (length bs)) pack st = Some (([LStr bs], 1), st') \<and> buf_ok st' \<and> users st' = users st
    \<and> tasks st' = tasks st \<and> tostring_len st' = max (tostring_len st) (int (length bs))"
proof -
  let ?n = "int (length bs)"
  have cs: "c_size ?n = ?n" using n by (intro c_size_id) (simp_all add: INT_MAX_def)
  obtain b where b: "malloc ?n = Some b" "length b = length bs"
    using malloc [unfolded malloc_ok_def, rule_format, of ?n] by auto
  have run: "\<exists>m'. pack m = Some (?n, m') \<and> mem_get m' 0 ?n = Some bs \<and> length m' = length m" if le: "length bs \<le> length m" for m
  proof -
    obtain m' where m': "mem_put m 0 bs = Some m'" using le mem_put_defined [of m 0 bs] by auto
    then show ?thesis using pack [OF m'] mem_put_same [OF m'] mem_put_length [OF m'] le by (simp add: mem_get_inside)
  qed
  show ?thesis
  proof (cases "tostring_len st < ?n")
    case True
    with run [of b] b cs st show ?thesis by (auto simp: tostring_with_def buf_ok_def)
  next
    case False
    then obtain m where m: "tostring_buf st = Some m" "length bs \<le> length m" using st n by (auto simp: buf_ok_def split: option.splits)
    with run [of m] cs st False show ?thesis by (auto simp: tostring_with_def buf_ok_def)
  qed
qed

section \<open>The properties\<close>

text \<open>C37: For a user whose tasks are alive and whose bytes fit an \<open>int\<close>, \<open>tostring\<close> returns exactly the bytes of
  the layout, as many as \<open>bytesize\<close> announces, writes only inside its buffer, and changes no object.\<close>

theorem user_tostring_packs:
  assumes u: "users st self = Some u" "get_tasks st (task_array u) = Some ts" "tasks st (user_task u) = Some t"
    and small: "int (length (user_bytes u ts t)) \<le> INT_MAX" and st: "buf_ok st" "malloc_ok malloc"
  shows "\<exists>st'. lactordb_user_tostring malloc self st = Some (([LStr (user_bytes u ts t)], 1), st') \<and> buf_ok st'
    \<and> users st' = users st \<and> tasks st' = tasks st
    \<and> lactordb_user_bytesize self st = Some (([LInt (int (length (user_bytes u ts t)))], 1), st)"
proof -
  have "0 < length (user_bytes u ts t)" by (simp add: length_user_bytes)
  from tostring_law [OF st(1) this small st(2), of "User_pack st u 0"] User_pack_law [OF u(2,3) _ small]
    User_packlen_law [OF u(2,3) small] u(1)
  show ?thesis by (auto simp: lactordb_user_tostring_def lactordb_user_bytesize_def)
qed

definition one_user :: actors where
  "one_user = \<lparr>tasks = [0 \<mapsto> \<lparr>taskid = 7, task_uid = 1\<rparr>, 2 \<mapsto> new_Task],
     users = [1 \<mapsto> \<lparr>task_array = [2], user_uid = 9, user_task = 0, uname = [65]\<rparr>],
     brk = 3, tostring_buf = None, tostring_len = 0\<rparr>"

text \<open>Witness: a user with one task in the array, a task of its own and a name of one letter: 113 bytes.\<close>

theorem user_tostring_packs_witness:
  "\<exists>st'. lactordb_user_tostring (\<lambda>n. Some (replicate (nat n) 0)) 1 one_user
      = Some (([LStr (user_bytes \<lparr>task_array = [2], user_uid = 9, user_task = 0, uname = [65]\<rparr> [new_Task] \<lparr>taskid = 7, task_uid = 1\<rparr>)], 1), st')
    \<and> lactordb_user_bytesize 1 one_user = Some (([LInt 113], 1), one_user)"
  using user_tostring_packs [of one_user 1 "\<lparr>task_array = [2], user_uid = 9, user_task = 0, uname = [65]\<rparr>" "[new_Task]"
      "\<lparr>taskid = 7, task_uid = 1\<rparr>" "\<lambda>n. Some (replicate (nat n) 0)"]
  by (auto simp: one_user_def length_user_bytes INT_MAX_def buf_ok_def malloc_ok_def)

text \<open>\<open>unpack\<close> takes the second number of every pair for a length, which \<open>pack\<close> does not write. On the packed
  form of a task with the identifier \<open>-16\<close> it never returns.\<close>

theorem task_unpack_stuck:
  assumes t: "taskid t = - 16"
  shows "Task_unpack (task_bytes t) (Task_packlen t) = None"
proof -
  have tag: "read_varint (task_bytes t) 0 = Some (2, 8)"
    using le_int64_roundtrip [of 2] by (simp add: read_varint_def task_bytes_def mem_get_def c_long_id)
  have len: "read_varint (task_bytes t) 8 = Some (- 16, 8)"
    using le_int64_roundtrip [of "- 16"] by (simp add: read_varint_def task_bytes_def mem_get_def c_long_id t)
  have stuck: "n = 3 \<Longrightarrow> m = task_bytes t \<Longrightarrow> buf = 0 \<Longrightarrow> buflen = 32 \<Longrightarrow> False" if "unpack_loop n m buf buflen totallen = Some y" for n m buf buflen totallen y
    using that
  proof (induction n m buf buflen totallen y rule: unpack_loop.raw_induct [rotated, consumes 1, case_names step])
    case (step loop n m buf buflen totallen y)
    from step.hyps step.prems tag len have "\<exists>z. loop 3 (task_bytes t) 0 32 z = Some y" by auto
    then show ?case using step.IH by blast
  qed
  then have "unpack_loop 3 (task_bytes t) 0 32 0 = None" by (metis not_Some_eq)
  then show ?thesis by (simp add: Task_unpack_def Task_packlen_def len_varint_def)
qed

theorem task_unpack_stuck_witness:
  "Task_unpack (task_bytes \<lparr>taskid = - 16, task_uid = 5\<rparr>) 32 = None"
  using task_unpack_stuck [of "\<lparr>taskid = - 16, task_uid = 5\<rparr>"] by (simp add: Task_packlen_def len_varint_def)

text \<open>A task that is deleted from the array is still named by the userdata a script holds.\<close>

theorem deleted_task_dangles:
  assumes u: "users st self = Some u" and i: "0 \<le> i" "i < int (length (task_array u))" "i \<le> INT_MAX"
    and t: "tasks st (task_array u ! nat i) = Some t"
  shows "\<exists>st'. lactordb_user_del_task_array self i st = Some (([LInt i], 1), st')
    \<and> lactordb_task_get_taskid (task_array u ! nat i) st' = None"
  using assms in_int_small [of i] by (simp add: lactordb_user_del_task_array_def lactordb_task_get_taskid_def bad_index_def Let_def)

end
