(* ===== verification/Dbl_Bits.thy ===== *)
theory Dbl_Bits
  imports Dbl
begin

text \<open>
  The eight bytes of a \<open>double\<close> in memory on a little-endian machine: sign, exponent and mantissa of
  IEEE binary64. Every double is read back from its bytes.
\<close>

definition d_bits :: "dbl \<Rightarrow> int" where
  "d_bits d =
     (case d of
        Fin a \<Rightarrow>
          (let e = max (expo 2 \<bar>a\<bar>) (- 1022);
               m = \<lfloor>\<bar>a\<bar> / pow_int 2 (e - 52)\<rfloor>
           in (if a < 0 then 2 ^ 63 else 0) + (if m < 2 ^ 52 then m else (e + 1023) * 2 ^ 52 + (m - 2 ^ 52)))
      | Inf s \<Rightarrow> (if s then 2 ^ 63 else 0) + 2047 * 2 ^ 52
      | NaN \<Rightarrow> 2047 * 2 ^ 52 + 2 ^ 51)"

definition bits_d :: "int \<Rightarrow> dbl" where
  "bits_d w =
     (let neg = (2 ^ 63 \<le> w); b = w div 2 ^ 52 mod 2048; f = w mod 2 ^ 52
      in if b = 2047 then (if f = 0 then Inf neg else NaN)
         else
           (let x = (if b = 0 then of_int f * pow_int 2 (- 1074) else of_int (2 ^ 52 + f) * pow_int 2 (b - 1075))
            in Fin (if neg then - x else x)))"

definition d_bytes :: "dbl \<Rightarrow> byte list" where
  "d_bytes d = le_bytes 8 (d_bits d)"

definition bytes_d :: "byte list \<Rightarrow> dbl" where
  "bytes_d bs = bits_d (le_val bs)"

text \<open>The doubles: a finite one has a mantissa of 53 bits.\<close>

definition dbl_ok :: "dbl \<Rightarrow> bool" where
  "dbl_ok d \<longleftrightarrow>
     (case d of Fin a \<Rightarrow> \<exists>m e. \<bar>m\<bar> < 2 ^ 53 \<and> - 1074 \<le> e \<and> e \<le> 971 \<and> a = of_int m * pow_int 2 e | _ \<Rightarrow> True)"

section \<open>The leading digit\<close>

lemma pow_int_powi: "b \<noteq> 0 \<Longrightarrow> pow_int b e = b powi e"
  by (simp add: pow_int_def power_int_def field_simps)

lemma expo_bounds:
  assumes x: "0 < x" and b: "1 < b"
  shows "rat_of_nat b powi expo b x \<le> x \<and> x < rat_of_nat b powi (expo b x + 1)"
proof (cases "1 \<le> x")
  case True
  let ?n = "nat \<lfloor>x\<rfloor>"
  have n: "0 < ?n" using True by simp
  define l where "l = floorlog b ?n"
  have l: "b ^ (l - 1) \<le> ?n" "?n < b ^ l" "0 < l" using floorlog_bounds [OF n b] n b by (auto simp: l_def floorlog_def)
  have "rat_of_nat (b ^ (l - 1)) \<le> rat_of_nat ?n" "rat_of_nat (Suc ?n) \<le> rat_of_nat (b ^ l)" using l by (simp_all only: of_nat_le_iff Suc_le_eq)
  moreover have "rat_of_nat ?n \<le> x" "x < rat_of_nat (Suc ?n)" using True by (auto simp: of_nat_nat) linarith
  moreover have "expo b x = int (l - 1)" "expo b x + 1 = int l" using True l(3) by (auto simp: expo_def l_def)
  ultimately show ?thesis by (simp only: power_int_of_nat of_nat_power)  linarith
next
  case False
  let ?y = "1 / x" let ?n = "nat (\<lceil>1 / x\<rceil> - 1)"
  have y: "1 < ?y" using False x by simp
  then have n: "0 < ?n" by (simp add: less_ceiling_iff)
  define l where "l = floorlog b ?n"
  have l: "b ^ (l - 1) \<le> ?n" "?n < b ^ l" "0 < l" using floorlog_bounds [OF n b] n b by (auto simp: l_def floorlog_def)
  have "rat_of_nat (b ^ (l - 1)) \<le> rat_of_nat ?n" "rat_of_nat (Suc ?n) \<le> rat_of_nat (b ^ l)" using l by (simp_all only: of_nat_le_iff Suc_le_eq)
  moreover have "rat_of_nat ?n < ?y" "?y \<le> rat_of_nat (Suc ?n)" using y by (auto simp: of_nat_nat) linarith+
  ultimately have "rat_of_nat b ^ (l - 1) < 1 / x" "1 / x \<le> rat_of_nat b ^ l"
    by (simp_all only: of_nat_power)
  moreover have e: "expo b x = - int l" "expo b x + 1 = - int (l - 1)" using False l(3) by (auto simp: expo_def l_def)
  have "rat_of_nat b powi expo b x = 1 / rat_of_nat b ^ l" "rat_of_nat b powi (expo b x + 1) = 1 / rat_of_nat b ^ (l - 1)"
    by (simp_all only: e(1)) (simp_all only: e(2) [unfolded e(1)] power_int_minus power_int_of_nat inverse_eq_divide)
  moreover have "0 < rat_of_nat b ^ l" "0 < rat_of_nat b ^ (l - 1)" using b by simp_all
  ultimately show ?thesis using x by (simp only:) (simp add: field_simps)
qed

section \<open>Round trip\<close>

lemma powi_split: "(2 :: rat) powi (i + j) = 2 powi i * 2 powi j"
  by (simp add: power_int_add)

lemma powi_nat_int: "0 \<le> i \<Longrightarrow> (2 :: rat) powi i = of_int (2 ^ nat i)"
  by (simp add: power_int_def)

text \<open>A finite double over the weight of its last place is an integer.\<close>

lemma mantissa:
  assumes x: "0 < x" "x = of_int m * 2 powi e" and m: "m < 2 ^ 53" and e: "- 1074 \<le> e" "e \<le> 971"
    and k: "k = max (expo 2 x) (- 1022)"
  obtains M where "x = of_int M * 2 powi (k - 52)" "0 \<le> M" "M < 2 ^ 53" "M < 2 ^ 52 \<Longrightarrow> k = - 1022" "k \<le> 1023"
proof -
  have b: "2 powi expo 2 x \<le> x" "x < 2 powi (expo 2 x + 1)" using expo_bounds [OF x(1), of 2] by simp_all
  have up: "x < 2 powi (53 + e)"
  proof -
    have "rat_of_int m < of_int (2 ^ 53)" using m by (simp only: of_int_less_iff)
    then show ?thesis unfolding powi_split x(2) by (simp add: power_int_def)
  qed
  have "\<not> (2 :: rat) powi (53 + e) \<le> 2 powi expo 2 x" using b(1) up by linarith
  then have ke: "expo 2 x < 53 + e" using power_int_increasing [of "53 + e" "expo 2 x" "2 :: rat"] by (cases "53 + e \<le> expo 2 x") simp_all
  have le: "k - 52 \<le> e" using ke e k by simp
  define M where "M = m * 2 ^ nat (e - (k - 52))"
  have "rat_of_int M * 2 powi (k - 52) = of_int m * (2 powi (e - (k - 52)) * 2 powi (k - 52))"
    using le by (simp add: M_def powi_nat_int)
  also have "\<dots> = x" using powi_split [of "e - (k - 52)" "k - 52"] x(2) by simp
  finally have xM: "x = of_int M * 2 powi (k - 52)" by simp
  have p: "0 < (2 :: rat) powi (k - 52)" by simp
  have pos: "0 < M" using x(1) xM p by (simp add: zero_less_mult_iff)
  have "x < 2 powi (53 + (k - 52))"
    using b(2) power_int_increasing [of "expo 2 x + 1" "53 + (k - 52)" "2 :: rat"] k by simp
  then have "rat_of_int M < of_int (2 ^ 53)" unfolding powi_split xM using p by (simp add: power_int_def)
  then have top: "M < 2 ^ 53" by (simp only: of_int_less_iff)
  have norm: "k = - 1022" if "M < 2 ^ 52"
  proof (rule ccontr)
    assume "k \<noteq> - 1022"
    then have "k = expo 2 x" using k by simp
    then have "2 powi (52 + (k - 52)) \<le> of_int M * (2 :: rat) powi (k - 52)" using b(1) xM by simp
    then have "rat_of_int (2 ^ 52) \<le> of_int M" unfolding powi_split using p by (simp add: power_int_def)
    then show False using that by (simp only: of_int_le_iff)
  qed
  have "0 \<le> M" "k \<le> 1023" using pos ke e k by simp_all
  then show ?thesis using that [OF xM] top norm by blast
qed

text \<open>Sign, exponent and mantissa of a number put together from them.\<close>

lemma fields:
  fixes w :: int
  assumes "0 \<le> b" "b < 2048" "0 \<le> f" "f < 2 ^ 52" "w = (if neg then 2 ^ 63 else 0) + (b * 2 ^ 52 + f)"
  shows "w mod 256 ^ 8 = w" "(2 ^ 63 \<le> w) = neg" "w div 2 ^ 52 mod 2048 = b" "w mod 2 ^ 52 = f"
proof -
  define h where "h = (if neg then 2048 else 0) + b"
  have w: "w = f + h * 2 ^ 52" using assms(5) by (simp add: h_def)
  have h: "0 \<le> h" "h < 4096" "h mod 2048 = b" "(2048 \<le> h) = neg" using assms(1,2) by (auto simp: h_def)
  show "w div 2 ^ 52 mod 2048 = b" "w mod 2 ^ 52 = f" using assms(3,4) h(3) unfolding w by simp_all
  show "w mod 256 ^ 8 = w" using assms(3,4) h(1,2) unfolding w by simp
  show "(2 ^ 63 \<le> w) = neg" using assms(3,4) h(4) unfolding w by auto
qed

lemma bits_finite:
  assumes "0 \<le> M" "M < 2 ^ 53" "M < 2 ^ 52 \<Longrightarrow> k = - 1022" "- 1022 \<le> k" "k \<le> 1023"
  shows "bits_d (((if neg then 2 ^ 63 else 0) + (if M < 2 ^ 52 then M else (k + 1023) * 2 ^ 52 + (M - 2 ^ 52))) mod 256 ^ 8)
    = Fin ((if neg then - 1 else 1) * (of_int M * pow_int 2 (k - 52)))"
proof (cases "M < 2 ^ 52")
  case True
  have z: "0 \<le> (0 :: int)" "(0 :: int) < 2048" by simp_all
  note f = fields [of 0 M _ neg, OF z assms(1) True refl]
  have "bits_d ((if neg then 2 ^ 63 else 0) + (0 * 2 ^ 52 + M)) = Fin ((if neg then - 1 else 1) * (of_int M * pow_int 2 (- 1074)))"
    unfolding bits_d_def Let_def f(2-4) by (cases neg) simp_all
  then show ?thesis using f(1) True assms(3) by simp
next
  case False
  have m: "0 \<le> M - 2 ^ 52" "M - 2 ^ 52 < 2 ^ 52" "0 \<le> k + 1023" "k + 1023 < 2048" using False assms by simp_all
  note f = fields [of "k + 1023" "M - 2 ^ 52" _ neg, OF m(3,4,1,2) refl]
  have b: "k + 1023 \<noteq> 2047" "k + 1023 \<noteq> 0" "k + 1023 - 1075 = k - 52" "2 ^ 52 + (M - 2 ^ 52) = M" using assms(4,5) by simp_all
  have "bits_d ((if neg then 2 ^ 63 else 0) + ((k + 1023) * 2 ^ 52 + (M - 2 ^ 52)))
      = Fin ((if neg then - 1 else 1) * (of_int M * pow_int 2 (k - 52)))"
    unfolding bits_d_def Let_def f(2-4) b(3,4) using b(1,2) by simp
  then show ?thesis using f(1) False by simp
qed

lemma bytes_d_bytes: "dbl_ok d \<Longrightarrow> bytes_d (d_bytes d) = d"
proof (cases d)
  case (Fin a)
  assume "dbl_ok d"
  with Fin obtain m e where me: "\<bar>m\<bar> < 2 ^ 53" "- 1074 \<le> e" "e \<le> 971" "a = of_int m * pow_int 2 e" by (auto simp: dbl_ok_def)
  define k where "k = max (expo 2 \<bar>a\<bar>) (- 1022)"
  show ?thesis
  proof (cases "a = 0")
    case True
    then show ?thesis using Fin by (simp add: bytes_d_def d_bytes_def le_val_le_bytes d_bits_def bits_d_def)
  next
    case False
    have "\<bar>a\<bar> = of_int \<bar>m\<bar> * 2 powi e" using me(4) by (simp add: pow_int_powi abs_mult)
    then obtain M where M: "\<bar>a\<bar> = of_int M * 2 powi (k - 52)" "0 \<le> M" "M < 2 ^ 53" "M < 2 ^ 52 \<Longrightarrow> k = - 1022" "k \<le> 1023"
      using mantissa [of "\<bar>a\<bar>" "\<bar>m\<bar>" e k] False me k_def by auto
    have fl: "\<lfloor>\<bar>a\<bar> / pow_int 2 (k - 52)\<rfloor> = M" using M(1) by (simp add: pow_int_powi)
    have bits: "d_bits d = (if a < 0 then 2 ^ 63 else 0) + (if M < 2 ^ 52 then M else (k + 1023) * 2 ^ 52 + (M - 2 ^ 52))"
      by (simp only: Fin d_bits_def dbl.case Let_def k_def [symmetric] fl)
    have k: "- 1022 \<le> k" by (simp add: k_def)
    have "bytes_d (d_bytes d) = Fin ((if a < 0 then - 1 else 1) * (of_int M * pow_int 2 (k - 52)))"
      unfolding bytes_d_def d_bytes_def le_val_le_bytes bits by (rule bits_finite [OF M(2-4) k M(5)])
    also have "of_int M * pow_int 2 (k - 52) = \<bar>a\<bar>" using M(1) by (simp add: pow_int_powi)
    finally show ?thesis using Fin by (auto simp: abs_if)
  qed
next
  case (Inf s)
  then show ?thesis using fields [of 2047 0 _ s] by (simp add: bytes_d_def d_bytes_def le_val_le_bytes d_bits_def bits_d_def)
next
  case NaN
  then show ?thesis using fields [of 2047 "2 ^ 51" _ False] by (simp add: bytes_d_def d_bytes_def le_val_le_bytes d_bits_def bits_d_def)
qed

end
