(* ===== verification/Bson_Lua.thy ===== *)
theory Bson_Lua
  imports Bson_Iter Lua_Value Dbl_Bits
begin

text \<open>
  The Lua binding of the BSON library, \<open>src/src/bson/bson_encode.cpp\<close> with the helpers of
  \<open>cBson.cpp\<close>, and the printer of \<open>bson.c\<close>, which the binding calls. The Lua stack is explicit:
  a table with an entry that cannot be encoded is left with its key and value on the stack. Messages
  to the log are not modelled. A \<open>double\<close> is handed to the library as its eight bytes.
\<close>

section \<open>Printing\<close>

text \<open>The C string at an offset of a block.\<close>

definition str_at :: "block \<Rightarrow> int \<Rightarrow> byte list option" where
  "str_at d p = do { n \<leftarrow> strlen d p; mem_get d p n }"

definition bson_iterator_str :: "bson_iterator \<Rightarrow> byte list option" where
  "bson_iterator_str i =
     do { p \<leftarrow> bson_iterator_string i; case p of None \<Rightarrow> Some [] | Some p \<Rightarrow> str_at (it_buf i) p }"

definition bson_iterator_codestr :: "bson_iterator \<Rightarrow> byte list option" where
  "bson_iterator_codestr i = do { p \<leftarrow> bson_iterator_code i; p \<leftarrow> p; str_at (it_buf i) p }"

text \<open>The branches of \<open>bson_print_raw\<close> that do not recurse; the last one prints to \<open>stderr\<close>.\<close>

definition print_flat :: "bson_env \<Rightarrow> int \<Rightarrow> bson_iterator \<Rightarrow> byte list option" where
  "print_flat E t i =
     (if t = BSON_DOUBLE then map_option (\<lambda>d. fmt_f 6 (bytes_d d)) (bson_iterator_double E i)
      else if t = BSON_STRING then bson_iterator_str i
      else if t = BSON_SYMBOL then map_option ((@) (ascii ''SYMBOL: '')) (bson_iterator_str i)
      else if t = BSON_OID then
        do { p \<leftarrow> bson_iterator_oid i; x \<leftarrow> mem_get (it_buf i) p 12; Some (c_str (bson_oid_to_string x)) }
      else if t = BSON_BOOL then
        map_option (\<lambda>x. if x \<noteq> 0 then ascii ''true'' else ascii ''false'') (bson_iterator_bool E i)
      else if t = BSON_DATE then map_option show_int (bson_iterator_date i)
      else if t = BSON_BINDATA then Some (ascii ''BSON_BINDATA'')
      else if t = BSON_UNDEFINED then Some (ascii ''BSON_UNDEFINED'')
      else if t = BSON_NULL then Some (ascii ''BSON_NULL'')
      else if t = BSON_REGEX then
        do { p \<leftarrow> bson_iterator_regex i; s \<leftarrow> str_at (it_buf i) p; Some (ascii ''BSON_REGEX: '' @ s) }
      else if t = BSON_CODE then map_option ((@) (ascii ''BSON_CODE: '')) (bson_iterator_codestr i)
      else if t = BSON_INT then map_option show_int (bson_iterator_int E i)
      else if t = BSON_LONG then map_option show_int (bson_iterator_long E i)
      else if t = BSON_TIMESTAMP then
        do { (n, s) \<leftarrow> bson_iterator_timestamp i; Some (ascii ''i: '' @ show_int n @ ascii '', t: '' @ show_int s) }
      else Some [])"

text \<open>The loop over the elements from an iterator on; its result is what is printed.\<close>

partial_function (option) print_walk :: "bson_env \<Rightarrow> nat \<Rightarrow> bson_iterator \<Rightarrow> byte list option" where
  "print_walk E depth i =
     Option.bind (bson_iterator_next i) (\<lambda>(more, i).
       if more = 0 then Some []
       else Option.bind (bson_iterator_type i) (\<lambda>t.
         if t = 0 then Some []
         else Option.bind (key_string i) (\<lambda>key.
           Option.bind
             (if t = BSON_CODEWSCOPE then
                Option.bind (bson_iterator_codestr i) (\<lambda>code.
                  Option.bind (bson_iterator_code_scope_init E i False) (\<lambda>(r, scope).
                    Option.bind (b_data scope) (\<lambda>d.
                      Option.bind (print_walk E 0 (bson_iterator_from_buffer d)) (\<lambda>s.
                        Some (ascii ''BSON_CODE_W_SCOPE: '' @ code @ [10, 9] @ ascii '' SCOPE: '' @ s)))))
              else if t = BSON_OBJECT \<or> t = BSON_ARRAY then
                Option.bind (bson_iterator_value i) (\<lambda>v.
                  Option.bind (print_walk E (depth + 1) (bson_iterator_from_buffer (drop (nat v) (it_buf i)))) (\<lambda>s.
                    Some (10 # s)))
              else print_flat E t i)
             (\<lambda>txt. Option.bind (print_walk E depth i) (\<lambda>rest.
                Some (replicate (depth + 1) 9 @ key @ ascii '' : '' @ show_int t @ [32, 9, 32] @ txt @ [10] @ rest))))))"

definition bson_print_raw :: "bson_env \<Rightarrow> block \<Rightarrow> nat \<Rightarrow> byte list option" where
  "bson_print_raw E d depth = print_walk E depth (bson_iterator_from_buffer d)"

definition bson_print :: "bson_env \<Rightarrow> bson \<Rightarrow> byte list option" where
  "bson_print E b = do { d \<leftarrow> b_data b; bson_print_raw E d 0 }"

section \<open>Creating and appending\<close>

text \<open>\<open>sizeof(bson)\<close> is 312; the allocation does not return without memory.\<close>

definition bson_alloc :: "bson_env \<Rightarrow> block option" where
  "bson_alloc E = bson_malloc E 312"

definition cBSON_CreateNull :: "bson_env \<Rightarrow> bson option" where
  "cBSON_CreateNull E =
     do { _ \<leftarrow> bson_alloc E; (_, b) \<leftarrow> bson_init_empty; (_, b) \<leftarrow> bson_finish E b; Some b }"

definition cBSON_CreateBool :: "bson_env \<Rightarrow> bool \<Rightarrow> bson option" where
  "cBSON_CreateBool E x =
     do { _ \<leftarrow> bson_alloc E; (_, b) \<leftarrow> bson_init E; (_, b) \<leftarrow> bson_append_bool E b [48] (if x then 1 else 0);
          (_, b) \<leftarrow> bson_finish E b; Some b }"

definition cBSON_CreateNumber :: "bson_env \<Rightarrow> dbl \<Rightarrow> bson option" where
  "cBSON_CreateNumber E x =
     do { _ \<leftarrow> bson_alloc E; (_, b) \<leftarrow> bson_init E; (_, b) \<leftarrow> bson_append_double E b [48] (d_bytes x);
          (_, b) \<leftarrow> bson_finish E b; Some b }"

definition cBSON_CreateString :: "bson_env \<Rightarrow> byte list \<Rightarrow> bson option" where
  "cBSON_CreateString E s =
     do { _ \<leftarrow> bson_alloc E; (_, b) \<leftarrow> bson_init E; (_, b) \<leftarrow> bson_append_string E b [48] s;
          (_, b) \<leftarrow> bson_finish E b; Some b }"

text \<open>The value is the one on the top of the stack. A number becomes an \<open>int\<close>.\<close>

definition cBSON_AppendBool :: "bson_env \<Rightarrow> bool \<Rightarrow> bson \<Rightarrow> byte list \<Rightarrow> (int \<times> bson) option" where
  "cBSON_AppendBool E x b key = do { (_, b) \<leftarrow> bson_append_bool E b key (if x then 1 else 0); Some (0, b) }"

definition cBSON_AppendNumber :: "bson_env \<Rightarrow> dbl \<Rightarrow> bson \<Rightarrow> byte list \<Rightarrow> (int \<times> bson) option" where
  "cBSON_AppendNumber E x b key = do { n \<leftarrow> d_to_int x; bson_append_int E b key n }"

definition cBSON_AppendString :: "bson_env \<Rightarrow> byte list \<Rightarrow> bson \<Rightarrow> byte list \<Rightarrow> (int \<times> bson) option" where
  "cBSON_AppendString E s b key = bson_append_string E b key (c_str s)"

section \<open>Encoding\<close>

text \<open>The branches of \<open>bson_encode_append\<close> that do not recurse; nil is not supported.\<close>

definition append_flat :: "bson_env \<Rightarrow> lua \<Rightarrow> bson \<Rightarrow> byte list \<Rightarrow> (int \<times> bson) option" where
  "append_flat E v b key =
     (case v of
        VBool x \<Rightarrow> do { (_, b) \<leftarrow> cBSON_AppendBool E x b key; Some (0, b) }
      | VNum x \<Rightarrow> do { (_, b) \<leftarrow> cBSON_AppendNumber E x b key; Some (0, b) }
      | VStr s \<Rightarrow> do { (_, b) \<leftarrow> cBSON_AppendString E s b key; Some (0, b) }
      | _ \<Rightarrow> Some (1, b))"

definition is_vstr :: "lua \<Rightarrow> bool" where
  "is_vstr v = (case v of VStr _ \<Rightarrow> True | _ \<Rightarrow> False)"

text \<open>
  The loop over the table below the top of the stack. The array is always started under the name
  \<open>0\<close>. Only a string key ends the loop when its value cannot be appended.
\<close>

partial_function (option) append_loop :: "nat \<Rightarrow> bson_env \<Rightarrow> bson \<Rightarrow> lua_stack \<Rightarrow> (bson \<times> lua_stack) option" where
  "append_loop ctop E b st =
     Option.bind (lua_next ctop st) (\<lambda>(more, st).
       if \<not> more then Some (b, st)
       else Option.bind (key_name (st ! 1)) (\<lambda>name.
         case name of
           None \<Rightarrow> Option.bind (lua_pop1 st) (\<lambda>st. append_loop ctop E b st)
         | Some name \<Rightarrow>
             Option.bind
               (case st ! 0 of
                  VTable es \<Rightarrow>
                    Option.bind (bson_append_start_array E b [48]) (\<lambda>(_, b).
                      Option.bind (lua_pushed ctop (VNil # st)) (\<lambda>st. Option.bind (append_loop ctop E b st) (\<lambda>(b, st).
                        Option.bind (bson_append_finish_array E b) (\<lambda>(_, b). Some (0, b, st)))))
                | v \<Rightarrow> Option.bind (append_flat E v b name) (\<lambda>(r, b). Some (r, b, st)))
               (\<lambda>(r, b, st').
                  if r \<noteq> 0 \<and> is_vstr (st ! 1) then Some (b, st')
                  else Option.bind (lua_pop1 st') (\<lambda>st. append_loop ctop E b st))))"

definition bson_encode_append :: "nat \<Rightarrow> bson_env \<Rightarrow> bson \<Rightarrow> byte list \<Rightarrow> lua_stack \<Rightarrow> (int \<times> bson \<times> lua_stack) option" where
  "bson_encode_append ctop E b key st =
     (case st ! 0 of
        VTable es \<Rightarrow>
          do {
            (_, b) \<leftarrow> bson_append_start_array E b [48];
            st \<leftarrow> lua_pushed ctop (VNil # st);
            (b, st) \<leftarrow> append_loop ctop E b st;
            (_, b) \<leftarrow> bson_append_finish_array E b;
            Some (0, b, st)
          }
      | v \<Rightarrow> do { (r, b) \<leftarrow> append_flat E v b key; Some (r, b, st) })"

text \<open>The loop of \<open>bson_encode\<close>, which does not look at the result.\<close>

partial_function (option) table_loop :: "nat \<Rightarrow> bson_env \<Rightarrow> bson \<Rightarrow> lua_stack \<Rightarrow> (bson \<times> lua_stack) option" where
  "table_loop ctop E b st =
     Option.bind (lua_next ctop st) (\<lambda>(more, st).
       if \<not> more then Some (b, st)
       else Option.bind (key_name (st ! 1)) (\<lambda>name.
         Option.bind
           (case name of
              None \<Rightarrow> Some (b, st)
            | Some name \<Rightarrow> Option.bind (bson_encode_append ctop E b name st) (\<lambda>(_, b, st). Some (b, st)))
           (\<lambda>(b, st). Option.bind (lua_pop1 st) (\<lambda>st. table_loop ctop E b st))))"

definition bson_encode :: "nat \<Rightarrow> bson_env \<Rightarrow> lua_stack \<Rightarrow> (bson option \<times> lua_stack) option" where
  "bson_encode ctop E st =
     (case st ! 0 of
        VNil \<Rightarrow> do { b \<leftarrow> cBSON_CreateNull E; Some (Some b, st) }
      | VBool x \<Rightarrow> do { b \<leftarrow> cBSON_CreateBool E x; Some (Some b, st) }
      | VNum x \<Rightarrow> do { b \<leftarrow> cBSON_CreateNumber E x; Some (Some b, st) }
      | VStr s \<Rightarrow> do { b \<leftarrow> cBSON_CreateString E (c_str s); Some (Some b, st) }
      | VTable es \<Rightarrow>
          do {
            _ \<leftarrow> bson_alloc E;
            (_, b) \<leftarrow> bson_init E;
            (_, b) \<leftarrow> bson_append_start_array E b [48];
            st \<leftarrow> lua_pushed ctop (VNil # st);
            (b, st) \<leftarrow> table_loop ctop E b st;
            (_, b) \<leftarrow> bson_append_finish_array E b;
            (_, b) \<leftarrow> bson_finish E b;
            Some (Some b, st)
          }
      | VOther n \<Rightarrow> Some (None, st))"

section \<open>Decoding\<close>

definition decode_flat :: "nat \<Rightarrow> bson_env \<Rightarrow> int \<Rightarrow> bson_iterator \<Rightarrow> lua_stack \<Rightarrow> lua_stack option" where
  "decode_flat ctop E t i L =
     (if t = BSON_DOUBLE then do { d \<leftarrow> bson_iterator_double E i; lua_pushed ctop (VNum (bytes_d d) # L) }
      else if t = BSON_STRING then do { s \<leftarrow> bson_iterator_str i; lua_pushed ctop (VStr s # L) }
      else if t = BSON_BOOL then do { x \<leftarrow> bson_iterator_bool E i; lua_pushed ctop (VBool (x \<noteq> 0) # L) }
      else if t = BSON_NULL then lua_pushed ctop (VNil # L)
      else if t = BSON_INT then do { n \<leftarrow> bson_iterator_int E i; lua_pushed ctop (VNum (d_int n) # L) }
      else Some L)"

definition push_key :: "nat \<Rightarrow> bool \<Rightarrow> byte list \<Rightarrow> lua_stack \<Rightarrow> lua_stack option" where
  "push_key ctop set_t key L = (if set_t then lua_pushed ctop (VStr key # L) else Some L)"

partial_function (option) bson_decode_tree :: "nat \<Rightarrow> bson_env \<Rightarrow> bool \<Rightarrow> bson_iterator \<Rightarrow> lua_stack \<Rightarrow> lua_stack option" where
  "bson_decode_tree ctop E set_t i L =
     Option.bind (bson_iterator_next i) (\<lambda>(more, i).
       if more = 0 then Some L
       else Option.bind (bson_iterator_type i) (\<lambda>t.
         if t = 0 then lua_pushed ctop (VNil # L)
         else Option.bind (key_string i) (\<lambda>key. Option.bind (push_key ctop set_t key L) (\<lambda>L.
           Option.bind
             (if t = BSON_OBJECT then
                Option.bind (bson_iterator_subiterator i) (\<lambda>s.
                  Option.bind (bson_decode_tree ctop E False s L) (\<lambda>L. lua_settable L))
              else if t = BSON_ARRAY then
                Option.bind (lua_pushed ctop (VTable [] # L)) (\<lambda>L.
                  Option.bind (bson_iterator_subiterator i) (\<lambda>s. bson_decode_tree ctop E True s L))
              else decode_flat ctop E t i L)
             (\<lambda>L. Option.bind (if set_t then lua_settable L else Some L) (\<lambda>L. bson_decode_tree ctop E set_t i L))))))"

definition bson_decode :: "bson_env \<Rightarrow> bson \<Rightarrow> lua_stack \<Rightarrow> (int \<times> lua_stack) option" where
  "bson_decode E b L = do { i \<leftarrow> bson_iterator_init b; L \<leftarrow> bson_decode_tree (frame_top L) E False i L; Some (1, L) }"

section \<open>The functions of the Lua library\<close>

text \<open>
  They give the number of results and the stack. The userdata is the value \<open>VOther u\<close>; \<open>junk\<close> is
  the memory that \<open>lua_newuserdata\<close> returns, and the second component what the userdata holds. Its
  metatable takes a slot above it. The stack they get is their arguments.
\<close>

definition Encode :: "bson_env \<Rightarrow> bson \<Rightarrow> nat \<Rightarrow> lua_stack \<Rightarrow> (int \<times> bson option \<times> lua_stack) option" where
  "Encode E junk u L =
     do {
       let ctop = frame_top L;
       (b, L) \<leftarrow> bson_encode ctop E L;
       case b of
         None \<Rightarrow> Some (- 1, None, L)
       | Some b \<Rightarrow>
           do {
             _ \<leftarrow> bson_print E b;
             (_, field) \<leftarrow> bson_copy E (Some junk) (Some b);
             _ \<leftarrow> lua_pushed ctop (VTable [] # VOther u # L);
             Some (1, field, VOther u # L)
           }
     }"

text \<open>An argument that is not a bson userdata is a Lua error.\<close>

definition Decode :: "bson_env \<Rightarrow> bson option \<Rightarrow> lua_stack \<Rightarrow> (int \<times> lua_stack) option" where
  "Decode E b_lua L =
     do {
       b \<leftarrow> b_lua;
       (r, L) \<leftarrow> bson_decode E b L;
       if r = 0 then Some (0, L) else Some (1, L)
     }"

end
