(* ===== verification/Bson_Lua_Spec.thy ===== *)
theory Bson_Lua_Spec
  imports Bson_Lua Bson_Spec
begin

text \<open>
  What a Lua value becomes when it is encoded with \<open>BSON.Encode\<close> and decoded with \<open>BSON.Decode\<close>.
\<close>

section \<open>The document of a value\<close>

definition is_vtable :: "lua \<Rightarrow> bool" where
  "is_vtable v = (case v of VTable _ \<Rightarrow> True | _ \<Rightarrow> False)"

text \<open>An entry of a table becomes an element; a table in a table loses its key.\<close>

definition elem_name :: "byte list \<Rightarrow> lua \<Rightarrow> byte list" where
  "elem_name n v = (if is_vtable v then [48] else n)"

fun doc_val :: "lua \<Rightarrow> bval" where
  "doc_val (lua.VBool x) = bval.VBool x"
| "doc_val (VNum d) = VInt (the (d_to_int d))"
| "doc_val (VStr s) = VString (c_str s)"
| "doc_val (VTable es) =
     VArray (concat (map (\<lambda>(k, v). case key_name k of Some (Some n) \<Rightarrow> [(elem_name n v, doc_val v)] | _ \<Rightarrow> []) es))"
| "doc_val VNil = VNull"
| "doc_val (VOther n) = VNull"

definition doc_elem :: "lua \<times> lua \<Rightarrow> (byte list \<times> bval) list" where
  "doc_elem e = (case key_name (fst e) of Some (Some n) \<Rightarrow> [(elem_name n (snd e), doc_val (snd e))] | _ \<Rightarrow> [])"

definition doc_elems :: "(lua \<times> lua) list \<Rightarrow> (byte list \<times> bval) list" where
  "doc_elems es = concat (map doc_elem es)"

lemma doc_table: "doc_val (VTable es) = VArray (doc_elems es)"
proof -
  have "(\<lambda>(k, v). case key_name k of Some (Some n) \<Rightarrow> [(elem_name n v, doc_val v)] | _ \<Rightarrow> []) = doc_elem"
    by (rule ext) (simp add: doc_elem_def split: prod.splits option.splits)
  then show ?thesis by (simp add: doc_elems_def)
qed

text \<open>Values without functions, userdata and numbers outside the range of \<open>int\<close>.\<close>

fun encodable :: "lua \<Rightarrow> bool" where
  "encodable (lua.VBool x) \<longleftrightarrow> True"
| "encodable (VNum d) \<longleftrightarrow> d_to_int d \<noteq> None"
| "encodable (VStr s) \<longleftrightarrow> True"
| "encodable (VTable es) \<longleftrightarrow> entries_ok es \<and> (\<forall>(k, v) \<in> set es. key_name k \<noteq> None \<and> encodable v)"
| "encodable VNil \<longleftrightarrow> False"
| "encodable (VOther n) \<longleftrightarrow> False"

section \<open>Loops over the entries of a table\<close>

text \<open>
  The two loops of the encoder, over the outer table and over a table in it, treat an entry that
  can be appended alike.
\<close>

locale entry_loop =
  fixes loop :: "nat \<Rightarrow> bson_env \<Rightarrow> bson \<Rightarrow> lua_stack \<Rightarrow> (bson \<times> lua_stack) option"
  assumes no_more: "lua_next ctop st = Some (False, st') \<Longrightarrow> loop ctop E b st = Some (b, st')"
    and skips: "lua_next ctop st = Some (True, v # k # st') \<Longrightarrow> key_name k = Some None \<Longrightarrow> loop ctop E b st = loop ctop E b (k # st')"
    and adds: "lua_next ctop st = Some (True, v # k # st') \<Longrightarrow> key_name k = Some (Some n) \<Longrightarrow>
      bson_encode_append ctop E b n (v # k # st') = Some (0, b', v # k # st') \<Longrightarrow> loop ctop E b st = loop ctop E b' (k # st')"
begin

lemma entries_law:
  assumes es: "entries_ok es" "\<forall>(k, v) \<in> set es. key_name k \<noteq> None"
    and room: "length st + 3 \<le> ctop"
    and enc: "\<And>k v n b r b' st'. (k, v) \<in> set es \<Longrightarrow> build_val E b (elem_name n v) (doc_val v) = Some (r, b') \<Longrightarrow>
      r \<noteq> BSON_ERROR \<Longrightarrow> length st' = length st + 2 \<Longrightarrow> bson_encode_append ctop E b n (v # st') = Some (0, b', v # st')"
  shows "es = pre @ rest \<Longrightarrow> next_entry es k = Some rest \<Longrightarrow> build_all E b (doc_elems rest) = Some (r, b') \<Longrightarrow>
    r \<noteq> BSON_ERROR \<Longrightarrow> loop ctop E b (k # VTable es # st) = Some (b', VTable es # st)"
proof (induction rest arbitrary: pre k b)
  case Nil
  then show ?case using no_more [of ctop "k # VTable es # st" "VTable es # st" E b] by (simp add: doc_elems_def)
next
  case (Cons e rest)
  obtain k' v where e: "e = (k', v)" by (cases e)
  have k': "k' \<noteq> VNil" "key_name k' \<noteq> None" using es Cons.prems(1) e by (auto simp: entries_ok_def)
  have nxt: "lua_next ctop (k # VTable es # st) = Some (True, v # k' # VTable es # st)" using Cons.prems(2) e room by simp
  have after: "next_entry es k' = Some rest"
    using next_entry_after [of pre k' v rest] es(1) k'(1) Cons.prems(1) e by (simp add: entries_ok_def)
  have pre: "es = (pre @ [e]) @ rest" using Cons.prems(1) by simp
  show ?case
  proof (cases "key_name k'")
    case (Some n)
    show ?thesis
    proof (cases n)
      case None
      then have "build_all E b (doc_elems rest) = Some (r, b')" using Cons.prems(3) Some e by (simp add: doc_elems_def doc_elem_def)
      then show ?thesis using skips [OF nxt] Some None Cons.IH [OF pre after _ Cons.prems(4)] by simp
    next
      case n: (Some name)
      then have "build_all E b ((elem_name name v, doc_val v) # doc_elems rest) = Some (r, b')"
        using Cons.prems(3) Some e by (simp add: doc_elems_def doc_elem_def)
      with Cons.prems(4) obtain r1 b1 where b1: "build_val E b (elem_name name v) (doc_val v) = Some (r1, b1)" "r1 \<noteq> BSON_ERROR"
        "build_all E b1 (doc_elems rest) = Some (r, b')" by (auto split: bind_splits if_splits)
      have "bson_encode_append ctop E b name (v # k' # VTable es # st) = Some (0, b1, v # k' # VTable es # st)"
        using enc [of k' v] b1(1,2) Cons.prems(1) e by simp
      then show ?thesis using adds [OF nxt] Some n Cons.IH [OF pre after b1(3) Cons.prems(4)] by simp
    qed
  qed (use k' in simp)
qed

end

interpretation inner: entry_loop append_loop
proof
  fix ctop E b st v k st' n b'
  assume "lua_next ctop st = Some (True, v # k # st')" "key_name k = Some (Some n)"
    "bson_encode_append ctop E b n (v # k # st') = Some (0, b', v # k # st')"
  then show "append_loop ctop E b st = append_loop ctop E b' (k # st')"
    by (subst append_loop.simps) (auto simp: bson_encode_append_def lua_pop1_def split: lua.splits bind_splits)
qed (subst append_loop.simps, simp add: lua_pop1_def)+

interpretation outer: entry_loop table_loop
proof
qed (subst table_loop.simps, simp add: lua_pop1_def)+

section \<open>Encoding\<close>

lemma append_flat_law:
  assumes "encodable v" "\<not> is_vtable v" "build_val E b n (doc_val v) = Some (r, b')"
  shows "append_flat E v b n = Some (0, b')"
  using assms
  by (cases v) (auto simp: append_flat_def cBSON_AppendBool_def cBSON_AppendNumber_def cBSON_AppendString_def is_vtable_def)

lemma encode_append_flat:
  "\<not> is_vtable v \<Longrightarrow> bson_encode_append ctop E b n (v # st) = do { (r, b) \<leftarrow> append_flat E v b n; Some (r, b, v # st) }"
  by (cases v) (simp_all add: bson_encode_append_def is_vtable_def)

lemma encode_append_law:
  "encodable v \<Longrightarrow> length st + 1 + 2 * nesting v \<le> ctop \<Longrightarrow> build_val E b (elem_name n v) (doc_val v) = Some (r, b') \<Longrightarrow> r \<noteq> BSON_ERROR \<Longrightarrow>
   bson_encode_append ctop E b n (v # st) = Some (0, b', v # st)"
proof (induction v arbitrary: b n r b' st rule: encodable.induct)
  case (4 es)
  have ok: "entries_ok es" "\<forall>(k, v) \<in> set es. key_name k \<noteq> None" using 4(2) by auto
  have ih: "bson_encode_append ctop E b n (v # st') = Some (0, b', v # st')"
    if "(k, v) \<in> set es" "build_val E b (elem_name n v) (doc_val v) = Some (r, b')" "r \<noteq> BSON_ERROR"
      "length st' = length st + 2" for k v n b r b' st'
    using 4(1) [OF that(1) refl] that 4(2,3) nesting_entry [OF that(1)] by auto
  have room: "length st + 3 \<le> ctop" using 4(3) by simp
  from 4(4,5) obtain r1 b1 r2 b2 where b: "bson_append_start_array E b [48] = Some (r1, b1)"
    "build_all E b1 (doc_elems es) = Some (r2, b2)" "r2 \<noteq> BSON_ERROR" "bson_append_finish_array E b2 = Some (r, b')"
    unfolding doc_table by (auto simp: elem_name_def is_vtable_def split: bind_splits if_splits)
  have "append_loop ctop E b1 (VNil # VTable es # st) = Some (b2, VTable es # st)"
    by (rule inner.entries_law [OF ok room ih, where pre = "[]"]) (use b next_entry_first in simp_all)
  then show ?case using b room by (simp add: bson_encode_append_def)
qed (auto simp: encode_append_flat elem_name_def is_vtable_def append_flat_law)

fun top_val :: "lua \<Rightarrow> bval" where
  "top_val (VNum d) = VDouble (d_bytes d)"
| "top_val v = doc_val v"

definition top_ok :: "lua \<Rightarrow> bool" where
  "top_ok v \<longleftrightarrow> encodable v \<or> (\<exists>d. v = VNum d)"

lemma bson_encode_law:
  assumes E: "env_good E" and v: "top_ok v" "length st + 1 + 2 * nesting v \<le> ctop"
    and d: "build_doc E [([48], top_val v)] = Some (BSON_OK, b)"
  shows "bson_encode ctop E (v # st) = Some (Some b, v # st)"
proof -
  obtain a where a: "bson_alloc E = Some a" using env_goodD [OF E, of 312] by (auto simp: bson_alloc_def bson_malloc_def)
  from d obtain r0 b0 r1 b1 r2 where b: "bson_init E = Some (r0, b0)" "build_val E b0 [48] (top_val v) = Some (r1, b1)" "r1 \<noteq> BSON_ERROR"
    "bson_finish E b1 = Some (BSON_OK, b)" by (auto simp: build_doc_def split: bind_splits if_splits)
  show ?thesis
  proof (cases v)
    case (VTable es)
    then have enc: "encodable (VTable es)" using v(1) by (simp add: top_ok_def)
    then have ok: "entries_ok es" "\<forall>(k, v) \<in> set es. key_name k \<noteq> None" "\<And>k v. (k, v) \<in> set es \<Longrightarrow> encodable v" by auto
    from b(2,3) VTable obtain r3 b3 r4 b4 where t: "bson_append_start_array E b0 [48] = Some (r3, b3)"
      "build_all E b3 (doc_elems es) = Some (r4, b4)" "r4 \<noteq> BSON_ERROR" "bson_append_finish_array E b4 = Some (r1, b1)"
      using doc_table [of es] by (auto simp del: doc_val.simps split: bind_splits if_splits)
    have room: "length st + 3 \<le> ctop" using v(2) VTable by simp
    have len: "length st' + 1 + 2 * nesting v \<le> ctop" if "(k, v) \<in> set es" "length st' = length st + 2" for k v st'
      using \<open>length st + 1 + 2 * nesting _ \<le> ctop\<close> VTable nesting_entry [OF that(1)] that(2) by simp
    have "table_loop ctop E b3 (VNil # VTable es # st) = Some (b4, VTable es # st)"
      by (rule outer.entries_law [OF ok(1,2) room encode_append_law [OF ok(3) len], where pre = "[]"]) (use t next_entry_first in simp_all)
    then show ?thesis using a b t room VTable by (simp add: bson_encode_def)
  qed (use a b v in \<open>simp_all add: bson_encode_def cBSON_CreateBool_def cBSON_CreateNumber_def cBSON_CreateString_def top_ok_def\<close>)
qed

section \<open>Plain documents\<close>

text \<open>The documents the encoder makes.\<close>

fun plain :: "bval \<Rightarrow> bool" where
  "plain (VDouble d) \<longleftrightarrow> length d = 8"
| "plain (VString s) \<longleftrightarrow> cstring_ok s"
| "plain (bval.VBool x) \<longleftrightarrow> True"
| "plain (VInt n) \<longleftrightarrow> in_int n"
| "plain (VArray es) \<longleftrightarrow> (\<forall>(k, v) \<in> set es. cstring_ok k \<and> plain v)"
| "plain _ \<longleftrightarrow> False"

lemma c_str_ok: "cstring_ok (c_str s)"
  by (auto simp: cstring_ok_def c_str_def dest: set_takeWhileD)

lemma name_ok: "key_name k = Some (Some n) \<Longrightarrow> cstring_ok (elem_name n v)"
proof -
  have "cstring_ok (show_int m)" for m
    using digits_are_digits [of "nat (- m)"] digits_are_digits [of "nat m"]
    by (auto simp: cstring_ok_def show_int_def list_all_iff is_dig_def)
  moreover assume "key_name k = Some (Some n)"
  ultimately have "cstring_ok n" by (auto simp: key_name_def c_str_ok split: lua.splits)
  then show ?thesis by (simp add: elem_name_def cstring_ok_def)
qed

lemma doc_plain: "encodable v \<Longrightarrow> plain (doc_val v)"
proof (induction v rule: encodable.induct)
  case (2 d)
  then show ?case by (cases d) (auto simp: Let_def split: if_splits)
next
  case (4 es)
  have "cstring_ok k' \<and> plain v'" if "(k', v') \<in> set (doc_elems es)" for k' v'
  proof -
    from that obtain k v n where "(k, v) \<in> set es" "key_name k = Some (Some n)" "k' = elem_name n v" "v' = doc_val v"
      by (auto simp: doc_elems_def doc_elem_def split: option.splits) metis
    then show ?thesis using 4 name_ok by auto
  qed
  then show ?case unfolding doc_table by auto
qed (auto simp: c_str_ok)

lemma top_plain: "top_ok v \<Longrightarrow> plain (top_val v)"
  using doc_plain [of v] by (cases v) (auto simp: top_ok_def d_bytes_def simp del: doc_val.simps)

lemma elem_length: "(k, v) \<in> set es \<Longrightarrow> length (enc_elem (k, v)) \<le> length (enc_elems es)"
  by (induction es) auto

lemma plain_sized: "plain v \<Longrightarrow> int (length (enc_val v)) \<le> 2 ^ 29 \<Longrightarrow> sized v"
proof (induction v)
  case (VArray es)
  have "small k \<and> sized v" if "(k, v) \<in> set es" for k v
    using VArray.IH [OF that] VArray.prems that elem_length [OF that]
    unfolding enc_object by (auto simp: small_def enc_doc_def enc_elem_pair enc_head_def)
  then show ?case by auto
qed (auto simp: enc_str_def INT_MAX_def small_def)

lemma plain_readable: "plain v \<Longrightarrow> int (length (enc_val v)) \<le> 2 ^ 29 \<Longrightarrow> readable v"
  using plain_sized [of v] by (cases v) (auto simp: INT_MAX_def simp del: enc_val.simps)

lemma plain_in_range: "plain v \<Longrightarrow> in_range v"
  by (cases v) auto

section \<open>Walking over a document\<close>

text \<open>The elements the next steps of the iterator visit.\<close>

definition before :: "bson_iterator \<Rightarrow> (byte list \<times> bval) list \<Rightarrow> byte list \<Rightarrow> bool" where
  "before i es rest \<longleftrightarrow>
     (\<exists>i' pre. bson_iterator_next i = Some (case es of [] \<Rightarrow> BSON_EOO | (k, v) # _ \<Rightarrow> val_type v, i')
        \<and> ahead i' pre es rest \<and> \<not> it_first i')"

lemma before_Nil: "before i [] rest \<Longrightarrow> \<exists>i'. bson_iterator_next i = Some (0, i')"
  by (auto simp: before_def bson_types)

lemma before_Cons:
  assumes "before i ((k, v) # es) rest"
  obtains i' pre where "bson_iterator_next i = Some (val_type v, i')" "stands_on i' pre k v (enc_elems es @ 0 # rest)"
    "readable v" "before i' es rest"
proof -
  from assms obtain i' pre where i': "bson_iterator_next i = Some (val_type v, i')" "ahead i' pre ((k, v) # es) rest" "\<not> it_first i'"
    by (auto simp: before_def)
  have "before i' es rest" using next_step [OF i'(2,3)] unfolding before_def by blast
  with i' ahead_Cons [OF i'(2)] that show ?thesis by blast
qed

lemma before_doc:
  assumes "\<forall>(k, v) \<in> set es. cstring_ok k \<and> readable v"
  shows "before (bson_iterator_from_buffer (enc_doc es @ rest)) es rest"
proof -
  have "ahead (bson_iterator_from_buffer (enc_doc es @ rest)) (le_bytes 4 (int (length (enc_elems es)) + 5)) es rest"
    using assms by (simp add: bson_iterator_from_buffer_def ahead_def enc_doc_def enc_frame_def)
  moreover have "it_first (bson_iterator_from_buffer (enc_doc es @ rest))" by (simp add: bson_iterator_from_buffer_def)
  ultimately show ?thesis using next_first unfolding before_def by fastforce
qed

text \<open>Inside an array.\<close>

lemma array_readable:
  assumes "plain (VArray es)" "int (length (enc_val (VArray es))) \<le> 2 ^ 29"
  shows "\<forall>(k, v) \<in> set es. cstring_ok k \<and> readable v \<and> plain v \<and> int (length (enc_val v)) \<le> 2 ^ 29"
proof -
  have "int (length (enc_val v)) \<le> 2 ^ 29" if "(k, v) \<in> set es" for k v
    using assms(2) elem_length [OF that] unfolding enc_object by (simp add: enc_doc_def enc_elem_pair)
  then show ?thesis using assms(1) plain_readable by auto
qed

lemma on_array:
  assumes "stands_on i pre k (VArray es) rest" "plain (VArray es)" "int (length (enc_val (VArray es))) \<le> 2 ^ 29"
  obtains s where "bson_iterator_subiterator i = Some s" "before s es rest"
  using on_sub [OF assms(1), of es] before_doc [of es rest] array_readable [OF assms(2,3)] that
  by (auto simp: enc_object simp del: enc_val.simps)

lemma str_at_get:
  assumes "cstring_ok s" "mem_get d p (int (length s) + 1) = Some (s @ [0])"
  shows "str_at d p = Some s"
proof -
  have p: "0 \<le> p" "p + (int (length s) + 1) \<le> int (length d)" "slice d p (p + (int (length s) + 1)) = s @ [0]"
    using assms(2) by (simp_all add: mem_get_Some)
  then have "take (length s + 1) (drop (nat p) d) = s @ [0]" by (simp add: slice_def drop_take nat_add_distrib)
  then have "d = take (nat p) d @ s @ 0 # drop (length s + 1) (drop (nat p) d)"
    by (metis append.assoc append_Cons append_Nil append_take_drop_id)
  moreover have "p = int (length (take (nat p) d))" using p by simp
  ultimately have "strlen d p = Some (int (length s))" "mem_get d p (int (length s)) = Some s"
    using strlen_at [OF assms(1)] mem_get_at by metis+
  then show ?thesis by (simp add: str_at_def)
qed

lemma plain_reads:
  "plain v \<Longrightarrow> int (length (enc_val v)) \<le> 2 ^ 29 \<Longrightarrow> stands_on i pre k v rest \<Longrightarrow> reads E i v"
  using on_reads plain_readable plain_in_range by blast

lemma on_str:
  assumes "stands_on i pre k (VString s) rest" "readable (VString s)" "cstring_ok s"
  shows "bson_iterator_str i = Some s"
  using on_reads [OF assms(1,2), of undefined] str_at_get [OF assms(3)] by (auto simp: bson_iterator_str_def)

section \<open>Printing\<close>

definition entry_text :: "bson_env \<Rightarrow> nat \<Rightarrow> int \<Rightarrow> bson_iterator \<Rightarrow> byte list option" where
  "entry_text E depth t i =
     (if t = BSON_ARRAY then do { s \<leftarrow> bson_iterator_subiterator i; s \<leftarrow> print_walk E (depth + 1) s; Some (10 # s) }
      else print_flat E t i)"

lemma print_step:
  assumes "bson_iterator_next i = Some (t, i')" "bson_iterator_type i' = Some t" "t \<noteq> 0" "t \<noteq> BSON_CODEWSCOPE" "t \<noteq> BSON_OBJECT"
    "key_string i' = Some key"
  shows "print_walk E depth i = do { out \<leftarrow> entry_text E depth t i'; rest \<leftarrow> print_walk E depth i';
     Some (replicate (depth + 1) 9 @ key @ ascii '' : '' @ show_int t @ [32, 9, 32] @ out @ [10] @ rest) }"
  using assms by (subst print_walk.simps) (simp add: entry_text_def bson_iterator_subiterator_def)

lemma plain_type: "plain v \<Longrightarrow> val_type v \<noteq> BSON_CODEWSCOPE \<and> val_type v \<noteq> BSON_OBJECT \<and> val_type v \<noteq> 0"
  by (cases v) (simp_all add: bson_types)

lemma print_elems:
  assumes "before i es rest" "\<forall>(k, v) \<in> set es. plain v"
    and "\<And>k v i pre rest. (k, v) \<in> set es \<Longrightarrow> stands_on i pre k v rest \<Longrightarrow> \<exists>out. entry_text E depth (val_type v) i = Some out"
  shows "\<exists>out. print_walk E depth i = Some out"
  using assms
proof (induction es arbitrary: i)
  case Nil
  then show ?case using before_Nil [of i rest] by (subst print_walk.simps) auto
next
  case (Cons e es)
  obtain k v where e: "e = (k, v)" by (cases e)
  from Cons.prems(1) e obtain i' pre where i': "bson_iterator_next i = Some (val_type v, i')"
    "stands_on i' pre k v (enc_elems es @ 0 # rest)" "before i' es rest" using before_Cons by metis
  have t: "val_type v \<noteq> BSON_CODEWSCOPE" "val_type v \<noteq> BSON_OBJECT" "val_type v \<noteq> 0" using plain_type [of v] Cons.prems(2) e by auto
  have "\<exists>r. print_walk E depth i' = Some r"
    by (rule Cons.IH [OF i'(3)]) (use Cons.prems(2) in simp, use Cons.prems(3) in \<open>meson list.set_intros(2)\<close>)
  then obtain r where "print_walk E depth i' = Some r" ..
  moreover obtain out where "entry_text E depth (val_type v) i' = Some out" using Cons.prems(3) [OF _ i'(2)] e by auto
  ultimately show ?case using print_step [OF i'(1) on_type [OF i'(2)] t(3,1,2) on_key [OF i'(2)], of E depth] by simp
qed

lemma print_defined:
  "plain v \<Longrightarrow> int (length (enc_val v)) \<le> 2 ^ 29 \<Longrightarrow> stands_on i pre k v rest \<Longrightarrow>
   \<exists>out. entry_text E depth (val_type v) i = Some out"
proof (induction v arbitrary: i pre k rest depth)
  case (VArray es)
  from VArray.prems obtain s where s: "bson_iterator_subiterator i = Some s" "before s es rest" using on_array by metis
  note r = array_readable [OF VArray.prems(1,2)]
  have "\<exists>out. print_walk E (depth + 1) s = Some out"
    by (rule print_elems [OF s(2)]) (use r VArray.IH in \<open>auto simp del: enc_val.simps\<close>)
  then show ?case using s(1) by (auto simp: entry_text_def)
next
  case (VString s)
  then show ?case using on_str [OF VString.prems(3)] plain_readable [OF VString.prems(1,2)] by (simp add: entry_text_def print_flat_def bson_types)
next
  case (VDouble d)
  then show ?case using plain_reads [OF VDouble.prems, of E] by (simp add: entry_text_def print_flat_def bson_types)
next
  case (VBool x)
  then show ?case using plain_reads [OF VBool.prems, of E] by (simp add: entry_text_def print_flat_def bson_types)
next
  case (VInt n)
  then show ?case using plain_reads [OF VInt.prems, of E] by (simp add: entry_text_def print_flat_def bson_types)
qed simp_all

section \<open>Decoding\<close>

text \<open>What the decoder makes of a value.\<close>

fun lua_of :: "bval \<Rightarrow> lua" where
  "lua_of (VDouble d) = VNum (bytes_d d)"
| "lua_of (VString s) = VStr s"
| "lua_of (bval.VBool x) = lua.VBool x"
| "lua_of (VInt n) = VNum (d_int n)"
| "lua_of (VArray es) = VTable (fold (\<lambda>(k, v). set_entry (VStr k) (lua_of v)) es [])"
| "lua_of _ = VNil"

text \<open>How deep the arrays of a value are nested.\<close>

fun array_nesting :: "bval \<Rightarrow> nat" where
  "array_nesting (VArray es) = Suc (Max (insert 0 ((\<lambda>(k, v). array_nesting v) ` set es)))"
| "array_nesting _ = 0"

lemma array_nesting_elem: "(k, v) \<in> set es \<Longrightarrow> array_nesting v < array_nesting (VArray es)"
  by (auto simp: less_Suc_eq_le intro!: Max_ge)

lemma doc_nesting: "array_nesting (doc_val v) \<le> nesting v"
proof (induction v)
  case (VTable es)
  have "array_nesting v' \<le> Max (insert 0 ((\<lambda>(k, v). nesting v) ` set es))" if elem: "(k', v') \<in> set (doc_elems es)" for k' v'
  proof -
    from elem obtain k v where kv: "(k, v) \<in> set es" "v' = doc_val v"
      by (auto simp: doc_elems_def doc_elem_def split: option.splits)
    then have "array_nesting v' \<le> nesting v" using VTable.IH [of "(k, v)" v] by simp
    also have "\<dots> \<le> Max (insert 0 ((\<lambda>(k, v). nesting v) ` set es))" using kv(1) by (auto intro!: Max_ge)
    finally show ?thesis .
  qed
  then show ?case unfolding doc_table by auto
qed simp_all

definition decode_value :: "nat \<Rightarrow> bson_env \<Rightarrow> int \<Rightarrow> bson_iterator \<Rightarrow> lua_stack \<Rightarrow> lua_stack option" where
  "decode_value ctop E t i L =
     (if t = BSON_ARRAY then do { L \<leftarrow> lua_pushed ctop (VTable [] # L); s \<leftarrow> bson_iterator_subiterator i; bson_decode_tree ctop E True s L }
      else decode_flat ctop E t i L)"

lemma decode_step:
  assumes "bson_iterator_next i = Some (t, i')" "bson_iterator_type i' = Some t" "t \<noteq> 0" "t \<noteq> BSON_OBJECT" "key_string i' = Some key"
  shows "bson_decode_tree ctop E set_t i L = do { L \<leftarrow> push_key ctop set_t key L; L \<leftarrow> decode_value ctop E t i' L;
     L \<leftarrow> (if set_t then lua_settable L else Some L); bson_decode_tree ctop E set_t i' L }"
  using assms by (subst bson_decode_tree.simps) (simp add: decode_value_def)

lemma decode_none: "before i [] rest \<Longrightarrow> bson_decode_tree ctop E set_t i L = Some L"
  using before_Nil [of i rest] by (subst bson_decode_tree.simps) auto

lemma decode_elems:
  assumes "before i es rest" "\<forall>(k, v) \<in> set es. plain v"
    and "\<And>k v i pre rest L'. (k, v) \<in> set es \<Longrightarrow> stands_on i pre k v rest \<Longrightarrow> length L' = length L + 2 \<Longrightarrow>
      decode_value ctop E (val_type v) i L' = Some (lua_of v # L')"
    and room: "length L + 2 \<le> ctop"
  shows "bson_decode_tree ctop E True i (VTable acc # L) = Some (VTable (fold (\<lambda>(k, v). set_entry (VStr k) (lua_of v)) es acc) # L)"
  using assms
proof (induction es arbitrary: i acc)
  case Nil
  then show ?case using decode_none by simp
next
  case (Cons e es)
  obtain k v where e: "e = (k, v)" by (cases e)
  from Cons.prems(1) e obtain i' pre where i': "bson_iterator_next i = Some (val_type v, i')"
    "stands_on i' pre k v (enc_elems es @ 0 # rest)" "before i' es rest" using before_Cons by metis
  have t: "val_type v \<noteq> BSON_OBJECT" "val_type v \<noteq> 0" using plain_type [of v] Cons.prems(2) e by auto
  have "bson_decode_tree ctop E True i' (VTable (set_entry (VStr k) (lua_of v) acc) # L)
      = Some (VTable (fold (\<lambda>(k, v). set_entry (VStr k) (lua_of v)) es (set_entry (VStr k) (lua_of v) acc)) # L)"
    by (rule Cons.IH [OF i'(3)]) (use Cons.prems(2) in simp, use Cons.prems(3) in \<open>meson list.set_intros(2)\<close>, rule room)
  moreover have "decode_value ctop E (val_type v) i' (VStr k # VTable acc # L) = Some (lua_of v # VStr k # VTable acc # L)"
    using Cons.prems(3) [of k v] i'(2) e by simp
  ultimately show ?case
    using decode_step [OF i'(1) on_type [OF i'(2)] t(2,1) on_key [OF i'(2)], of ctop E True] room e by (simp add: push_key_def)
qed

lemma decode_value_law:
  "plain v \<Longrightarrow> int (length (enc_val v)) \<le> 2 ^ 29 \<Longrightarrow> stands_on i pre k v rest \<Longrightarrow> length L + 1 + 2 * array_nesting v \<le> ctop \<Longrightarrow>
   decode_value ctop E (val_type v) i L = Some (lua_of v # L)"
proof (induction v arbitrary: i pre k rest L)
  case (VArray es)
  from VArray.prems obtain s where s: "bson_iterator_subiterator i = Some s" "before s es rest" using on_array by metis
  note r = array_readable [OF VArray.prems(1,2)]
  have len: "length L' + 1 + 2 * array_nesting v \<le> ctop" if "(k, v) \<in> set es" "length L' = length L + 2" for k v L'
    using VArray.prems(4) array_nesting_elem [OF that(1)] that(2) by simp
  have room: "length L + 3 \<le> ctop" using VArray.prems(4) by simp
  have elem: "decode_value ctop E (val_type v) i L' = Some (lua_of v # L')"
    if "(k, v) \<in> set es" "stands_on i pre k v rest" "length L' = length L + 2" for k v i pre rest L'
  proof (rule VArray.IH [OF that(1)])
    show "length L' + 1 + 2 * array_nesting v \<le> ctop" by (rule len) (use that in auto)
  qed (use r that in \<open>auto simp del: enc_val.simps\<close>)
  have "bson_decode_tree ctop E True s (VTable [] # L) = Some (lua_of (VArray es) # L)"
    unfolding lua_of.simps by (rule decode_elems [OF s(2)])
      (use r elem room in \<open>auto simp del: enc_val.simps\<close>)
  then show ?case using s(1) room by (simp add: decode_value_def)
next
  case (VString s)
  then show ?case using on_str [OF VString.prems(3)] plain_readable [OF VString.prems(1,2)] VString.prems(4) by (simp add: decode_value_def decode_flat_def bson_types)
next
  case (VDouble d)
  then show ?case using plain_reads [OF VDouble.prems(1,2,3), of E] VDouble.prems(4) by (simp add: decode_value_def decode_flat_def bson_types)
next
  case (VBool x)
  then show ?case using plain_reads [OF VBool.prems(1,2,3), of E] VBool.prems(4) by (simp add: decode_value_def decode_flat_def bson_types)
next
  case (VInt n)
  then show ?case using plain_reads [OF VInt.prems(1,2,3), of E] VInt.prems(4) by (simp add: decode_value_def decode_flat_def bson_types)
qed simp_all

section \<open>From value to value\<close>

lemma copy_law:
  assumes E: "env_good E" and b: "b_finished b" "b_data b = Some (enc_doc es @ rest)" and n: "length (enc_doc es) \<le> 2 ^ 29"
  shows "\<exists>f. bson_copy E (Some junk) (Some b) = Some (BSON_OK, Some f) \<and> b_data f = Some (enc_doc es)"
proof -
  let ?n = "int (length (enc_doc es))"
  have "?n \<le> 2 ^ 29" using n by (metis of_nat_le_iff of_nat_numeral of_nat_power)
  then have c: "c_int ?n = ?n" "c_size ?n = ?n" by (auto simp: INT_MAX_def intro!: c_int_small c_size_id)
  have d: "enc_doc es @ rest = [] @ le_bytes 4 ?n @ enc_elems es @ [0] @ rest" by (simp add: enc_doc_def enc_frame_def add.commute)
  have "read32 (enc_doc es @ rest) 0 = Some ?n" unfolding d by (subst read32_at) (simp_all add: c)
  moreover obtain m where m: "env_alloc E ?n = Some m" "length m = length (enc_doc es)" using env_goodD [OF E, of ?n] by auto
  moreover have "mem_get (enc_doc es @ rest) 0 ?n = Some (enc_doc es)" by (simp add: mem_get_def)
  moreover have "mem_put m 0 (enc_doc es) = Some (enc_doc es)" using m by (simp add: mem_put_def)
  moreover have "?n \<noteq> 0" by (simp add: enc_doc_def)
  ultimately show ?thesis using b c
    by (simp add: bson_copy_def bson_init_finished_data_with_copy_def bson_finished_data_size_def bson_init_size_def bson_malloc_def)
qed

definition stored :: "lua \<Rightarrow> lua" where
  "stored v = lua_of (top_val v)"

lemma encode_decode_law:
  assumes E: "env_good E" and v: "top_ok v" "nesting v \<le> 9" and d: "doc_passes E [([48], top_val v)]"
  shows "\<exists>f. Encode E junk u (v # L) = Some (1, Some f, VOther u # v # L) \<and> Decode E (Some f) L' = Some (1, stored v # L')"
proof -
  let ?es = "[([48 :: byte], top_val v)]"
  have len: "length (enc_doc ?es) \<le> 2 ^ 29" using d by (simp add: doc_passes_def)
  have "length (enc_val (top_val v)) \<le> length (enc_doc ?es)" by (simp add: enc_doc_def enc_elem_pair)
  with len have "length (enc_val (top_val v)) \<le> 2 ^ 29" by linarith
  then have n: "int (length (enc_val (top_val v))) \<le> 2 ^ 29" by (metis of_nat_le_iff of_nat_numeral of_nat_power)
  note p = top_plain [OF v(1)]
  have "doc_sized ?es" using plain_sized [OF p n] by (simp add: doc_sized_def small_def)
  from build_doc_law [OF E this] d obtain b rest where b: "build_doc E ?es = Some (BSON_OK, b)" "b_finished b"
    "b_data b = Some (enc_doc ?es @ rest)" by auto
  have r: "\<forall>(k, v) \<in> set ?es. cstring_ok k \<and> readable v" using plain_readable [OF p n] by (simp add: cstring_ok_def)
  have "\<exists>out. print_walk E 0 (bson_iterator_from_buffer (enc_doc ?es @ rest)) = Some out"
    by (rule print_elems [OF before_doc [OF r]]) (use p print_defined [OF p n] in auto)
  then obtain out where "bson_print E b = Some out" using b(3) by (auto simp: bson_print_def bson_print_raw_def)
  moreover obtain f where f: "bson_copy E (Some junk) (Some b) = Some (BSON_OK, Some f)" "b_data f = Some (enc_doc ?es)"
    using copy_law [OF E b(2,3) len] by blast
  ultimately have enc: "Encode E junk u (v # L) = Some (1, Some f, VOther u # v # L)"
    using bson_encode_law [OF E v(1) _ b(1), of L "frame_top (v # L)"] v(2) by (simp add: Encode_def frame_top_def LUA_MINSTACK_def)
  have "before (bson_iterator_from_buffer (enc_doc ?es)) ?es []" using before_doc [OF r, of "[]"] by simp
  then obtain i' pre where i': "bson_iterator_next (bson_iterator_from_buffer (enc_doc ?es)) = Some (val_type (top_val v), i')"
    "stands_on i' pre [48] (top_val v) (enc_elems [] @ 0 # [])" "before i' [] []" using before_Cons by metis
  have "array_nesting (top_val v) \<le> nesting v" using doc_nesting [of v] by (cases v) (simp_all del: doc_val.simps)
  then have room: "length L' + 1 + 2 * array_nesting (top_val v) \<le> frame_top L'" using v(2) by (simp add: frame_top_def LUA_MINSTACK_def)
  have "bson_decode_tree (frame_top L') E False (bson_iterator_from_buffer (enc_doc ?es)) L' = Some (stored v # L')"
    using decode_step [OF i'(1) on_type [OF i'(2)] _ _ on_key [OF i'(2)], of "frame_top L'" E False L'] plain_type [OF p]
      decode_value_law [OF p n i'(2) room, of E] decode_none [OF i'(3)] by (simp add: push_key_def stored_def)
  then have "Decode E (Some f) L' = Some (1, stored v # L')" using f(2) by (simp add: Decode_def bson_decode_def bson_iterator_init_def)
  with enc show ?thesis by blast
qed

section \<open>The properties\<close>

text \<open>Tables that come back as they are: string keys without zero bytes, values that are no tables.\<close>

fun flat_value :: "lua \<Rightarrow> bool" where
  "flat_value (lua.VBool x) \<longleftrightarrow> True"
| "flat_value (VNum d) \<longleftrightarrow> (\<exists>n \<in> set_option (d_to_int d). d = Fin (of_int n))"
| "flat_value (VStr s) \<longleftrightarrow> 0 \<notin> set s"
| "flat_value _ \<longleftrightarrow> False"

fun flat_key :: "lua \<Rightarrow> bool" where
  "flat_key (VStr s) \<longleftrightarrow> 0 \<notin> set s"
| "flat_key _ \<longleftrightarrow> False"

definition flat_table :: "(lua \<times> lua) list \<Rightarrow> bool" where
  "flat_table es \<longleftrightarrow> distinct (map fst es) \<and> (\<forall>(k, v) \<in> set es. flat_key k \<and> flat_value v)"

lemma flat_value_law: "flat_value v \<Longrightarrow> encodable v \<and> \<not> is_vtable v \<and> v \<noteq> VNil \<and> lua_of (doc_val v) = v"
proof (cases v)
  case (VNum d)
  assume "flat_value v"
  with VNum obtain n where n: "d_to_int d = Some n" "d = Fin (of_int n)" by auto
  then have "in_int n" by (auto simp: Let_def split: if_splits)
  then have "d_int n = Fin (of_int n)" by (intro d_int_exact) (auto simp: in_int_def INT_MIN_def INT_MAX_def)
  then show ?thesis using VNum n by (simp add: is_vtable_def)
qed (auto simp: is_vtable_def c_str_id)

lemma flat_encodable: "flat_table es \<Longrightarrow> encodable (VTable es)"
proof -
  assume f: "flat_table es"
  have "key_name k \<noteq> None \<and> encodable v \<and> k \<noteq> VNil \<and> v \<noteq> VNil" if "(k, v) \<in> set es" for k v
  proof -
    have "flat_key k" "flat_value v" using f that by (auto simp: flat_table_def)
    then show ?thesis using flat_value_law [of v] by (cases k) (auto simp: key_name_def)
  qed
  then show ?thesis using f by (auto simp: flat_table_def entries_ok_def)
qed

lemma flat_elems:
  assumes "distinct (map fst (pre @ es))" "\<forall>(k, v) \<in> set es. flat_key k \<and> flat_value v"
  shows "fold (\<lambda>(k, v). set_entry (VStr k) (lua_of v)) (doc_elems es) pre = pre @ es"
  using assms
proof (induction es arbitrary: pre)
  case (Cons e es)
  obtain k v where e: "e = (k, v)" by (cases e)
  then have kv: "flat_key k" "flat_value v" using Cons.prems(2) by auto
  from kv(1) obtain s where s: "k = VStr s" "0 \<notin> set s" by (cases k) auto
  note w = flat_value_law [OF kv(2)]
  have "doc_elems (e # es) = (s, doc_val v) # doc_elems es"
    using e s w by (simp add: doc_elems_def doc_elem_def key_name_def c_str_id elem_name_def)
  moreover have "set_entry k v pre = pre @ [(k, v)]" using Cons.prems(1) e w by (intro set_entry_new) auto
  ultimately show ?case using Cons.IH [of "pre @ [e]"] Cons.prems e s w by simp
qed (simp add: doc_elems_def)

lemma flat_nesting: "flat_table es \<Longrightarrow> nesting (VTable es) \<le> 1"
proof -
  assume f: "flat_table es"
  have "nesting v = 0" if "(k, v) \<in> set es" for k v using f that by (cases v) (auto simp: flat_table_def)
  then have "(\<lambda>(k, v). nesting v) ` set es \<subseteq> {0}" by auto
  then have "insert 0 ((\<lambda>(k, v). nesting v) ` set es) = {0}" by blast
  then show ?thesis by (simp only: nesting.simps) simp
qed

lemma flat_stored: "flat_table es \<Longrightarrow> stored (VTable es) = VTable es"
  using flat_elems [of "[]" es] unfolding stored_def top_val.simps doc_table lua_of.simps by (simp add: flat_table_def)

text \<open>C35: A Lua table with string keys whose values are booleans, numbers of type \<open>int\<close> and strings is encoded by
  \<open>BSON.Encode\<close> with the stack kept balanced, and \<open>BSON.Decode\<close> of the userdata gives the same table back, its order
  included. The strings have no zero bytes, the checks of the library accept the names and strings, and the document has
  at most \<open>2^29\<close> bytes.\<close>

theorem bson_lua_roundtrip:
  assumes E: "env_good E" and f: "flat_table es" and d: "doc_passes E [([48], doc_val (VTable es))]"
  shows "\<exists>f. Encode E junk u (VTable es # L) = Some (1, Some f, VOther u # VTable es # L)
    \<and> Decode E (Some f) L' = Some (1, VTable es # L')"
proof -
  have "top_ok (VTable es)" using flat_encodable [OF f] by (simp add: top_ok_def)
  moreover have "nesting (VTable es) \<le> 9" using flat_nesting [OF f] by simp
  ultimately show ?thesis using encode_decode_law [OF E, of "VTable es" junk u L L'] d flat_stored [OF f] by (simp del: nesting.simps)
qed

definition flat_sample :: "(lua \<times> lua) list" where
  "flat_sample = [(VStr [97], lua.VBool True), (VStr [98], VNum (Fin 7)), (VStr [99], VStr [120, 121])]"

text \<open>Witness: a table with one value of each kind.\<close>

theorem bson_lua_roundtrip_witness:
  "\<exists>f. Encode lib_env bson_zero 0 [VTable flat_sample] = Some (1, Some f, [VOther 0, VTable flat_sample])
    \<and> Decode lib_env (Some f) [] = Some (1, [VTable flat_sample])"
proof (rule bson_lua_roundtrip [OF lib_env_good])
  show "flat_table flat_sample" by (simp add: flat_table_def flat_sample_def in_int_def INT_MIN_def INT_MAX_def)
  show "doc_passes lib_env [([48], doc_val (VTable flat_sample))]"
    by (simp add: doc_passes_def flat_sample_def name_passes_def string_passes_def lib_env_def enc_doc_def enc_elem_pair
        enc_str_def enc_frame_def enc_head_def key_name_def c_str_def elem_name_def is_vtable_def in_int_def INT_MIN_def INT_MAX_def)
qed

text \<open>The key of a table inside a table is not encoded, every inner table is stored under the name \<open>0\<close>: when a table
  has two flat tables in it, decoding gives a table with the key \<open>0\<close> and the second inner table only.\<close>

theorem bson_lua_loses_keys:
  assumes E: "env_good E" and f: "flat_table xs" "flat_table ys" and k: "flat_key k" "flat_key l" "k \<noteq> l"
    and d: "doc_passes E [([48], doc_val (VTable [(k, VTable xs), (l, VTable ys)]))]"
  shows "\<exists>f. Encode E junk u (VTable [(k, VTable xs), (l, VTable ys)] # L)
      = Some (1, Some f, VOther u # VTable [(k, VTable xs), (l, VTable ys)] # L)
    \<and> Decode E (Some f) L' = Some (1, VTable [(VStr [48], VTable ys)] # L')"
proof -
  let ?t = "VTable [(k, VTable xs), (l, VTable ys)]"
  obtain s t where s: "k = VStr s" "l = VStr t" using k by (cases k; cases l) auto
  have "encodable ?t" using flat_encodable [OF f(1)] flat_encodable [OF f(2)] k(3) s by (simp add: entries_ok_def key_name_def)
  then have ok: "top_ok ?t" by (simp add: top_ok_def)
  have keep: "lua_of (doc_val (VTable es)) = VTable es" if "flat_table es" for es using flat_stored [OF that] by (simp add: stored_def)
  have "stored ?t = VTable (fold (\<lambda>(k, v). set_entry (VStr k) (lua_of v)) (doc_elems [(k, VTable xs), (l, VTable ys)]) [])"
    by (simp only: stored_def top_val.simps doc_table lua_of.simps)
  then have "stored ?t = VTable [(VStr [48], VTable ys)]"
    using s keep [OF f(1)] keep [OF f(2)]
    by (simp add: doc_elems_def doc_elem_def key_name_def elem_name_def is_vtable_def del: doc_val.simps lua_of.simps)
  moreover have "nesting ?t \<le> 9" using flat_nesting [OF f(1)] flat_nesting [OF f(2)] by simp
  ultimately show ?thesis using encode_decode_law [OF E ok, of junk u L L'] d by simp
qed

text \<open>Witness: the key \<open>a\<close> and its table are lost.\<close>

theorem bson_lua_loses_keys_witness:
  "\<exists>f. Encode lib_env bson_zero 0 [VTable [(VStr [97], VTable [(VStr [120], lua.VBool True)]), (VStr [98], VTable [])]]
      = Some (1, Some f, [VOther 0, VTable [(VStr [97], VTable [(VStr [120], lua.VBool True)]), (VStr [98], VTable [])]])
    \<and> Decode lib_env (Some f) [] = Some (1, [VTable [(VStr [48], VTable [])]])"
  by (rule bson_lua_loses_keys [OF lib_env_good])
    (simp_all add: flat_table_def doc_passes_def name_passes_def string_passes_def lib_env_def enc_doc_def enc_elem_pair
        enc_str_def enc_frame_def enc_head_def key_name_def c_str_def elem_name_def is_vtable_def)

text \<open>\<open>BSON.Encode\<close> does not look at what the library reports: a string that the UTF-8 check rejects leaves an
  unfinished document, which is not copied, and the call returns a userdata whose memory was never written.\<close>

theorem bson_lua_unwritten:
  assumes E: "env_good E" and c: "env_check_string E (c_str s) 0 = (BSON_ERROR, e)" "e AND BSON_NOT_UTF8 \<noteq> 0"
    and n: "int (length (c_str s)) < INT_MAX"
  shows "\<exists>b. bson_encode (frame_top (VStr s # L)) E (VStr s # L) = Some (Some b, VStr s # L) \<and> \<not> b_finished b
    \<and> (bson_print E b \<noteq> None \<longrightarrow> Encode E junk u (VStr s # L) = Some (1, Some junk, VOther u # VStr s # L))"
proof -
  obtain a where a: "bson_alloc E = Some a" using env_goodD [OF E, of 312] by (auto simp: bson_alloc_def bson_malloc_def)
  obtain b where b: "bson_init E = Some (BSON_OK, b)" "bson_wf b" "b_err b = 0" using init_law [OF E] by blast
  have "c_size (int (length (c_str s)) + 1) = int (length (c_str s)) + 1" using n by (intro c_size_id) (auto simp: INT_MAX_def)
  then have "bson_append_string E b [48] (c_str s) = Some (BSON_ERROR, b\<lparr>b_err := e\<rparr>)"
    using n c(1) b(3) by (simp add: bson_append_string_def bson_append_string_base_def mem_get_def)
  then have "bson_encode (frame_top (VStr s # L)) E (VStr s # L) = Some (Some (b\<lparr>b_err := e\<rparr>), VStr s # L)"
    using a b(1) c(2) by (simp add: bson_encode_def cBSON_CreateString_def bson_finish_def)
  moreover have "\<not> b_finished b" using b(2) by (simp add: bson_wf_def)
  ultimately show ?thesis by (auto simp: Encode_def bson_copy_def Let_def) (simp add: frame_top_def LUA_MINSTACK_def)
qed

text \<open>Witness: a check that rejects every string, memory that is zero.\<close>

theorem bson_lua_unwritten_witness:
  "Encode picky_env bson_shared_empty 0 [VStr [255]] = Some (1, Some bson_shared_empty, [VOther 0, VStr [255]])"
proof -
  have "env_good picky_env" by (simp add: picky_env_def lib_env_def env_good_def)
  moreover have "env_check_string picky_env (c_str [255]) 0 = (BSON_ERROR, BSON_NOT_UTF8)" "BSON_NOT_UTF8 AND BSON_NOT_UTF8 \<noteq> 0"
    by (simp_all add: picky_env_def BSON_NOT_UTF8_def)
  moreover have "int (length (c_str [255])) < INT_MAX" by (simp add: c_str_def INT_MAX_def)
  ultimately obtain b where b: "bson_encode (Suc LUA_MINSTACK) picky_env [VStr [255]] = Some (Some b, [VStr [255]])"
    "bson_print picky_env b \<noteq> None \<longrightarrow> Encode picky_env bson_shared_empty 0 [VStr [255]] = Some (1, Some bson_shared_empty, [VOther 0, VStr [255]])"
    using bson_lua_unwritten [of picky_env "[255]" BSON_NOT_UTF8 "[]" bson_shared_empty 0] by (auto simp: frame_top_def)
  have "b_data b = Some (replicate 128 0)" using b(1)
    by (auto simp: bson_encode_def cBSON_CreateString_def bson_alloc_def bson_malloc_def bson_init_def bson_init_size_def
        initialBufferSize_def picky_env_def lib_env_def bson_append_string_def bson_append_string_base_def c_str_def c_size_def
        INT_MAX_def mem_get_def bson_zero_def bson_finish_def BSON_NOT_UTF8_def)
  then have "bson_print picky_env b = Some []"
    by (simp add: bson_print_def bson_print_raw_def) (subst print_walk.simps,
      simp add: bson_iterator_next_def bson_iterator_from_buffer_def bson_iterator_type_def char_at_def c_char_def)
  then show ?thesis using b(2) by simp
qed

end
