(* ===== verification/Ae_Kqueue.thy ===== *)
theory Ae_Kqueue
  imports Ae_Epoll
begin

text \<open>
  The \<open>kqueue(2)\<close> multiplexing layer, \<open>src/src/ae/ae_kqueue.cc\<close>. The filters are kept by the
  kernel; the layer's own state is the descriptor and the array that \<open>kevent\<close> fills. The two uses
  of \<open>kevent\<close> are two functions of the world: one change, and a wait for events.
\<close>

datatype kfilter = EVFILT_READ | EVFILT_WRITE

datatype kaction = EV_ADD | EV_DELETE

record 'w kos = "'w os" +
  os_kqueue :: "'w \<Rightarrow> int \<times> 'w"
  os_kevent_change :: "int \<Rightarrow> int \<Rightarrow> kfilter \<Rightarrow> kaction \<Rightarrow> 'w \<Rightarrow> int \<times> 'w"
  os_kevent_wait :: "int \<Rightarrow> int \<Rightarrow> (int \<times> int) option \<Rightarrow> 'w \<Rightarrow> (int \<times> (int \<times> kfilter) list) \<times> 'w"

record kqueue_state =
  kqfd :: int
  kq_events :: "(int \<times> kfilter) list"

definition SIZEOF_kqueue_state :: int where "SIZEOF_kqueue_state = 16"
definition SIZEOF_kevent :: int where "SIZEOF_kevent = 32"

definition kqueue_aeApiCreate ::
  "'w kos \<Rightarrow> ('p, 'c, kqueue_state) aeEventLoop \<Rightarrow> 'w \<Rightarrow> int \<times> ('p, 'c, kqueue_state) aeEventLoop \<times> 'w" where
  "kqueue_aeApiCreate os l w =
     (let (ok, w) = os_malloc os SIZEOF_kqueue_state w in
      if \<not> ok then (- 1, l, w)
      else
        let (ok, w) = os_malloc os (c_size (SIZEOF_kevent * setsize l)) w in
        if \<not> ok then (- 1, l, os_free os w)
        else
          let (fd, w) = os_kqueue os w in
          if fd = - 1 then (- 1, l, os_free os (os_free os w))
          else (0, l\<lparr>apidata := Some \<lparr>kqfd = fd, kq_events = []\<rparr>\<rparr>, w))"

definition kqueue_aeApiFree :: "'w kos \<Rightarrow> ('p, 'c, kqueue_state) aeEventLoop \<Rightarrow> 'w \<Rightarrow> 'w option" where
  "kqueue_aeApiFree os l w =
     do { st \<leftarrow> apidata l; Some (os_free os (os_free os (os_close os (kqfd st) w))) }"

text \<open>The first failing change ends the function.\<close>

definition kqueue_aeApiAddEvent ::
  "'w kos \<Rightarrow> ('p, 'c, kqueue_state) aeEventLoop \<Rightarrow> int \<Rightarrow> mask \<Rightarrow> 'w
    \<Rightarrow> (int \<times> ('p, 'c, kqueue_state) aeEventLoop \<times> 'w) option" where
  "kqueue_aeApiAddEvent os l fd m w =
     do {
       st \<leftarrow> apidata l;
       let (r, w) = (if has m AE_READABLE then os_kevent_change os (kqfd st) fd EVFILT_READ EV_ADD w else (0, w));
       if r = - 1 then Some (- 1, l, w)
       else
         (let (r, w) = (if has m AE_WRITABLE then os_kevent_change os (kqfd st) fd EVFILT_WRITE EV_ADD w else (0, w))
          in Some (if r = - 1 then - 1 else 0, l, w))
     }"

definition kqueue_aeApiDelEvent ::
  "'w kos \<Rightarrow> ('p, 'c, kqueue_state) aeEventLoop \<Rightarrow> int \<Rightarrow> mask \<Rightarrow> 'w
    \<Rightarrow> (('p, 'c, kqueue_state) aeEventLoop \<times> 'w) option" where
  "kqueue_aeApiDelEvent os l fd m w =
     do {
       st \<leftarrow> apidata l;
       let w = (if has m AE_READABLE then snd (os_kevent_change os (kqfd st) fd EVFILT_READ EV_DELETE w) else w);
       let w = (if has m AE_WRITABLE then snd (os_kevent_change os (kqfd st) fd EVFILT_WRITE EV_DELETE w) else w);
       Some (l, w)
     }"

definition from_kevent :: "kfilter \<Rightarrow> mask" where
  "from_kevent f = (case f of EVFILT_READ \<Rightarrow> AE_READABLE | EVFILT_WRITE \<Rightarrow> AE_WRITABLE)"

fun kqueue_fill :: "nat \<Rightarrow> nat \<Rightarrow> (int \<times> kfilter) list \<Rightarrow> aeFiredEvent option list \<Rightarrow> aeFiredEvent option list option" where
  "kqueue_fill j 0 evs fs = Some fs"
| "kqueue_fill j (Suc k) evs fs =
     (if j < length evs \<and> j < length fs
      then kqueue_fill (Suc j) k evs
             (fs[j := Some \<lparr>fired_fd = fst (evs ! j), fired_mask = from_kevent (snd (evs ! j))\<rparr>])
      else None)"

text \<open>The timeout as seconds and nanoseconds.\<close>

definition kqueue_timeout :: "timeval option \<Rightarrow> (int \<times> int) option" where
  "kqueue_timeout tvp = map_option (\<lambda>tv. (tv_sec tv, tv_usec tv * 1000)) tvp"

definition kqueue_aeApiPoll ::
  "'w kos \<Rightarrow> ('p, 'c, kqueue_state) aeEventLoop \<Rightarrow> timeval option \<Rightarrow> 'w
    \<Rightarrow> (int \<times> ('p, 'c, kqueue_state) aeEventLoop \<times> 'w) option" where
  "kqueue_aeApiPoll os l tvp w =
     do {
       st \<leftarrow> apidata l;
       let ((retval, evs), w) = os_kevent_wait os (kqfd st) (setsize l) (kqueue_timeout tvp) w;
       let l = l\<lparr>apidata := Some (st\<lparr>kq_events := evs\<rparr>)\<rparr>;
       if 0 < retval
       then do { fs \<leftarrow> kqueue_fill 0 (nat retval) evs (fired l);
                 Some (retval, l\<lparr>fired := fs\<rparr>, w) }
       else Some (0, l, w)
     }"

definition kqueue_api :: "'w kos \<Rightarrow> ('p, 'c, kqueue_state, 'w) ae_api" where
  "kqueue_api os =
     \<lparr>api_create = kqueue_aeApiCreate os, api_free = kqueue_aeApiFree os,
      api_add = kqueue_aeApiAddEvent os, api_del = kqueue_aeApiDelEvent os,
      api_poll = kqueue_aeApiPoll os, api_name = ''kqueue''\<rparr>"

section \<open>The layer keeps the loop\<close>

lemma kqueue_fill_length: "kqueue_fill j k evs fs = Some fs' \<Longrightarrow> length fs' = length fs"
  by (induction j k evs fs rule: kqueue_fill.induct) (auto split: if_splits)

lemma kqueue_poll_frame:
  assumes "kqueue_aeApiPoll os l tv w = Some (n, l', w')"
  shows "\<exists>a f. l' = l\<lparr>apidata := a, fired := f\<rparr> \<and> length f = length (fired l)"
proof -
  from assms obtain st where st: "apidata l = Some st"
    by (cases "apidata l") (simp_all add: kqueue_aeApiPoll_def)
  obtain rv evs w1 where o: "os_kevent_wait os (kqfd st) (setsize l) (kqueue_timeout tv) w = ((rv, evs), w1)"
    by (metis surj_pair)
  let ?a = "Some (st\<lparr>kq_events := evs\<rparr>)"
  have "\<exists>f. l' = l\<lparr>apidata := ?a, fired := f\<rparr> \<and> length f = length (fired l)"
  proof (cases "0 < rv")
    case True
    then show ?thesis using assms st o kqueue_fill_length by (auto simp: kqueue_aeApiPoll_def bind_eq_Some_conv)
  next
    case False
    then have "l' = l\<lparr>apidata := ?a\<rparr>" using assms st o by (simp add: kqueue_aeApiPoll_def)
    then have "l' = l\<lparr>apidata := ?a, fired := fired l\<rparr>" by simp
    then show ?thesis by blast
  qed
  then show ?thesis by blast
qed

lemma kqueue_add_same: "kqueue_aeApiAddEvent os l fd m w = Some (r, l', w') \<Longrightarrow> l' = l"
  by (auto simp: kqueue_aeApiAddEvent_def Let_def split: bind_splits prod.splits if_splits)

lemma kqueue_del_same: "kqueue_aeApiDelEvent os l fd m w = Some (l', w') \<Longrightarrow> l' = l"
  by (auto simp: kqueue_aeApiDelEvent_def Let_def split: bind_splits)

interpretation kqueue: ae_frame "kqueue_api os" for os :: "'w kos"
proof
  fix l :: "('p, 'c, kqueue_state) aeEventLoop" and l' fd m w r w' n tv
  show "api_add (kqueue_api os) l fd m w = Some (r, l', w') \<Longrightarrow> \<exists>a. l' = l\<lparr>apidata := a\<rparr>"
    by (auto simp: kqueue_api_def dest!: kqueue_add_same intro: exI [of _ "apidata l"])
  show "api_del (kqueue_api os) l fd m w = Some (l', w') \<Longrightarrow> \<exists>a. l' = l\<lparr>apidata := a\<rparr>"
    by (auto simp: kqueue_api_def dest!: kqueue_del_same intro: exI [of _ "apidata l"])
  show "\<exists>a f. l' = l\<lparr>apidata := a, fired := f\<rparr> \<and> length f = length (fired l)"
    if "api_poll (kqueue_api os) l tv w = Some (n, l', w')"
    using that by (simp add: kqueue_api_def kqueue_poll_frame)
  show "api_create (kqueue_api os) l w = (r, l', w') \<Longrightarrow> \<exists>a. l' = l\<lparr>apidata := a\<rparr>"
    by (auto simp: kqueue_api_def kqueue_aeApiCreate_def Let_def split: prod.splits if_splits
        intro: exI [of _ "apidata l"])
qed

section \<open>The filters in the kernel\<close>

text \<open>
  \<open>filters w kq fd f\<close> tells whether the filter is installed. The documented behaviour of \<open>kevent\<close>:
  a change that fails leaves the filters unchanged, one that succeeds sets or removes exactly the
  one filter, and removing an installed filter succeeds.
\<close>

definition kqueue_kernel :: "'w kos \<Rightarrow> ('w \<Rightarrow> int \<Rightarrow> int \<Rightarrow> kfilter \<Rightarrow> bool) \<Rightarrow> bool" where
  "kqueue_kernel os filters \<longleftrightarrow>
     (\<forall>kq fd f a w r w'. os_kevent_change os kq fd f a w = (r, w') \<longrightarrow>
        filters w' = (if r = - 1 then filters w
                      else (filters w)(kq := (filters w kq)(fd := (filters w kq fd)(f := (a = EV_ADD)))))
        \<and> (a = EV_DELETE \<longrightarrow> filters w kq fd f \<longrightarrow> r \<noteq> - 1))"

definition kqueue_watching ::
  "('w \<Rightarrow> int \<Rightarrow> int \<Rightarrow> kfilter \<Rightarrow> bool) \<Rightarrow> ('p, 'c, kqueue_state) aeEventLoop \<Rightarrow> 'w \<Rightarrow> int \<Rightarrow> mask" where
  "kqueue_watching filters l w fd =
     (case apidata l of
        None \<Rightarrow> 0
      | Some st \<Rightarrow> rw (filters w (kqfd st) fd EVFILT_READ) (filters w (kqfd st) fd EVFILT_WRITE))"

lemma kevent_change:
  assumes "kqueue_kernel os filters" "os_kevent_change os kq fd f a w = (r, w')"
  shows "r = - 1 \<Longrightarrow> filters w' = filters w"
    "r \<noteq> - 1 \<Longrightarrow> filters w' = (filters w)(kq := (filters w kq)(fd := (filters w kq fd)(f := (a = EV_ADD))))"
    "a = EV_DELETE \<Longrightarrow> filters w kq fd f \<Longrightarrow> r \<noteq> - 1"
  using assms unfolding kqueue_kernel_def by (metis (full_types))+

lemma rw_set:
  "rw True q = rw p q OR AE_READABLE" "rw p True = rw p q OR AE_WRITABLE"
  "rw False q = rw p q AND NOT AE_READABLE" "rw p False = rw p q AND NOT AE_WRITABLE"
  by (cases p; cases q; simp add: rw_def ae_consts)+

text \<open>One change, in terms of the watched mask.\<close>

definition changed :: "kaction \<Rightarrow> kfilter \<Rightarrow> mask \<Rightarrow> mask" where
  "changed a f m = (if a = EV_ADD then m OR from_kevent f else m AND NOT (from_kevent f))"

lemma change_watching:
  assumes k: "kqueue_kernel os filters" and st: "apidata l = Some st" and c: "os_kevent_change os (kqfd st) fd f a w = (r, w')"
  shows "r = - 1 \<Longrightarrow> kqueue_watching filters l w' = kqueue_watching filters l w"
    "r \<noteq> - 1 \<Longrightarrow> kqueue_watching filters l w' = (kqueue_watching filters l w)(fd := changed a f (kqueue_watching filters l w fd))"
proof -
  assume "r = - 1"
  then have "filters w' = filters w" using kevent_change(1) [OF k c] by simp
  then show "kqueue_watching filters l w' = kqueue_watching filters l w" by (auto simp: kqueue_watching_def split: option.splits)
next
  assume "r \<noteq> - 1"
  note u = kevent_change(2) [OF k c this]
  show "kqueue_watching filters l w' = (kqueue_watching filters l w)(fd := changed a f (kqueue_watching filters l w fd))"
    using st u by (cases f; cases a) (auto simp: fun_eq_iff kqueue_watching_def changed_def from_kevent_def rw_set [symmetric])
qed

text \<open>A removal that fails had nothing to remove.\<close>

lemma delete_watching:
  assumes k: "kqueue_kernel os filters" and st: "apidata l = Some st" and c: "os_kevent_change os (kqfd st) fd f EV_DELETE w = (r, w')"
  shows "kqueue_watching filters l w' = (kqueue_watching filters l w)(fd := kqueue_watching filters l w fd AND NOT (from_kevent f))"
proof (cases "r = - 1")
  case True
  then have n: "\<not> filters w (kqfd st) fd f" using kevent_change(3) [OF k c] by auto
  have "kqueue_watching filters l w fd AND NOT (from_kevent f) = kqueue_watching filters l w fd"
    using st n by (cases f) (simp_all add: kqueue_watching_def from_kevent_def rw_set [symmetric])
  then show ?thesis using change_watching(1) [OF k st c True] by simp
next
  case False
  then show ?thesis using change_watching(2) [OF k st c] by (simp add: changed_def)
qed

lemma delete_step:
  assumes k: "kqueue_kernel os filters" and st: "apidata l = Some st"
  shows "kqueue_watching filters l (if x then snd (os_kevent_change os (kqfd st) fd f EV_DELETE w) else w)
    = (kqueue_watching filters l w)(fd := kqueue_watching filters l w fd AND NOT (if x then from_kevent f else 0))"
  using delete_watching [OF k st, of fd f w] by (cases x) (auto simp: prod_eq_iff)

lemma mask_parts: "rw_mask m \<Longrightarrow> (if has m AE_READABLE then AE_READABLE else 0) OR (if has m AE_WRITABLE then AE_WRITABLE else 0) = m"
  using rw_has [of m] by (simp only: rw_def)

lemma kqueue_del_watches:
  assumes k: "kqueue_kernel os filters" and d: "kqueue_aeApiDelEvent os l fd m w = Some (l', w')" and m: "rw_mask m"
  shows "kqueue_watching filters l' w' = (kqueue_watching filters l w)(fd := kqueue_watching filters l w fd AND NOT m)"
proof -
  let ?W = "kqueue_watching filters l"
  from d obtain st where st: "apidata l = Some st" by (cases "apidata l") (simp_all add: kqueue_aeApiDelEvent_def)
  define w1 where "w1 = (if has m AE_READABLE then snd (os_kevent_change os (kqfd st) fd EVFILT_READ EV_DELETE w) else w)"
  have l: "l' = l" and w': "w' = (if has m AE_WRITABLE then snd (os_kevent_change os (kqfd st) fd EVFILT_WRITE EV_DELETE w1) else w1)"
    using d st by (auto simp: kqueue_aeApiDelEvent_def Let_def w1_def)
  let ?a = "if has m AE_READABLE then AE_READABLE else 0" and ?b = "if has m AE_WRITABLE then AE_WRITABLE else 0"
  have "?W w1 = (?W w)(fd := ?W w fd AND NOT ?a)"
    using delete_step [OF k st, of "has m AE_READABLE" fd EVFILT_READ w] by (simp add: w1_def from_kevent_def)
  moreover have "?W w' = (?W w1)(fd := ?W w1 fd AND NOT ?b)"
    using delete_step [OF k st, of "has m AE_WRITABLE" fd EVFILT_WRITE w1] by (simp add: w' from_kevent_def)
  ultimately have "?W w' = (?W w)(fd := ?W w fd AND NOT (?a OR ?b))" by (simp only: fun_upd_upd fun_upd_same bit.de_Morgan_disj and.assoc)
  then show ?thesis using l mask_parts [OF m] by simp
qed

lemma add_step:
  assumes k: "kqueue_kernel os filters" and st: "apidata l = Some st"
    and c: "(if x then os_kevent_change os (kqfd st) fd f EV_ADD w else (0, w)) = (r, w')"
  shows "kqueue_watching filters l w' = (if r = - 1 then kqueue_watching filters l w
    else (kqueue_watching filters l w)(fd := kqueue_watching filters l w fd OR (if x then from_kevent f else 0)))"
proof (cases x)
  case True
  then show ?thesis using change_watching [OF k st, of fd f EV_ADD w r w'] c by (cases "r = - 1") (simp_all add: changed_def)
next
  case False
  then show ?thesis using c by simp
qed

lemma kqueue_add_watches:
  assumes k: "kqueue_kernel os filters" and d: "kqueue_aeApiAddEvent os l fd m w = Some (r, l', w')" and m: "rw_mask m"
  shows "r \<noteq> - 1 \<Longrightarrow> kqueue_watching filters l' w' = (kqueue_watching filters l w)(fd := kqueue_watching filters l w fd OR m)"
    "r = - 1 \<Longrightarrow> \<not> (has m AE_READABLE \<and> has m AE_WRITABLE) \<Longrightarrow> kqueue_watching filters l' w' = kqueue_watching filters l w"
proof -
  let ?W = "kqueue_watching filters l"
  from d obtain st where st: "apidata l = Some st" by (cases "apidata l") (simp_all add: kqueue_aeApiAddEvent_def)
  obtain r1 w1 where c1: "(if has m AE_READABLE then os_kevent_change os (kqfd st) fd EVFILT_READ EV_ADD w else (0, w)) = (r1, w1)" by fastforce
  obtain r2 w2 where c2: "(if has m AE_WRITABLE then os_kevent_change os (kqfd st) fd EVFILT_WRITE EV_ADD w1 else (0, w1)) = (r2, w2)" by fastforce
  have res: "l' = l" "r = (if r1 = - 1 \<or> r2 = - 1 then - 1 else 0)" "w' = (if r1 = - 1 then w1 else w2)"
    using d st c1 c2 by (auto simp: kqueue_aeApiAddEvent_def split: if_splits)
  let ?a = "if has m AE_READABLE then AE_READABLE else 0" and ?b = "if has m AE_WRITABLE then AE_WRITABLE else 0"
  have one: "?W w1 = (if r1 = - 1 then ?W w else (?W w)(fd := ?W w fd OR (if has m AE_READABLE then from_kevent EVFILT_READ else 0)))"
    by (rule add_step [OF k st c1])
  have two: "?W w2 = (if r2 = - 1 then ?W w1 else (?W w1)(fd := ?W w1 fd OR (if has m AE_WRITABLE then from_kevent EVFILT_WRITE else 0)))"
    by (rule add_step [OF k st c2])
  show "kqueue_watching filters l' w' = (?W w)(fd := ?W w fd OR m)" if "r \<noteq> - 1"
  proof -
    have "?W w' = (?W w)(fd := ?W w fd OR (?a OR ?b))"
      using that res(2,3) one two unfolding from_kevent_def kfilter.case by (cases "r1 = - 1"; cases "r2 = - 1") (simp_all only: fun_upd_upd fun_upd_same or.assoc if_False if_True simp_thms)
    then show ?thesis using res(1) mask_parts [OF m] by simp
  qed
  show "kqueue_watching filters l' w' = ?W w" if "r = - 1" "\<not> (has m AE_READABLE \<and> has m AE_WRITABLE)"
  proof (cases "r1 = - 1")
    case True
    then show ?thesis using one res(1,3) by (simp only: if_True refl)
  next
    case False
    have r2: "r2 = - 1" using False that(1) res(2) by (cases "r2 = - 1") simp_all
    have "has m AE_WRITABLE"
    proof (rule ccontr)
      assume "\<not> has m AE_WRITABLE"
      then show False using c2 r2 by simp
    qed
    then have "w1 = w" using that(2) c1 by simp
    then show ?thesis using two r2 False res(1,3) by (simp only: if_True if_False refl)
  qed
qed

end
