(* ===== verification/Ae_Kqueue_Spec.thy ===== *)
theory Ae_Kqueue_Spec
  imports Ae_Kqueue Ae_Spec
begin

text \<open>The event loop on the \<open>kqueue\<close> layer: when loop and kernel stay in step.\<close>

lemma kqueue_masks:
  assumes k: "kqueue_kernel os filters" and m: "rw_mask m" and sync: "agrees (kqueue_watching filters l w) l"
    and run: "aeCreateFileEvent (kqueue_api os) l fd m proc cd w = Some (r, l', w')"
    and ok: "r = AE_OK \<or> m = AE_READABLE \<or> m = AE_WRITABLE"
  shows "agrees (kqueue_watching filters l' w') l'"
  using run
proof (cases rule: kqueue.create_file_event_cases)
  case range
  then show ?thesis using sync by simp
next
  case (fail fe a)
  then have run: "kqueue_aeApiAddEvent os l fd m w = Some (- 1, l', w')" by (simp add: kqueue_api_def)
  have "m = AE_READABLE \<or> m = AE_WRITABLE" using ok fail(3) by (auto simp: ae_consts)
  then have "\<not> (has m AE_READABLE \<and> has m AE_WRITABLE)" by (auto simp: has_def ae_consts)
  then show ?thesis using kqueue_add_watches(2) [OF k run m] kqueue_add_same [OF run] sync by simp
next
  case (ok fe q a)
  have run: "kqueue_aeApiAddEvent os l fd m w = Some (q, l\<lparr>apidata := a\<rparr>, w')" using ok(4) by (simp add: kqueue_api_def)
  have a: "l\<lparr>apidata := a\<rparr> = l" using kqueue_add_same [OF run] .
  have "kqueue_watching filters l' w' = kqueue_watching filters (l\<lparr>apidata := a\<rparr>) w'"
    by (rule ext) (simp add: ok(6) kqueue_watching_def)
  then have W: "kqueue_watching filters l' w' = (kqueue_watching filters l w)(fd := kqueue_watching filters l w fd OR m)"
    using kqueue_add_watches(1) [OF k run m ok(5)] by simp
  have fd: "0 \<le> fd" "nat fd < length (events l)" "fe = events l ! nat fd" using ok(2) by (auto simp: event_at_Some)
  have len: "length (events l') = length (events l)" using ok(6) by simp
  have M: "mask_at l' i = (if i = nat fd then mask_at l i OR m else mask_at l i)" if "i < length (events l)" for i
    using that fd by (simp add: ok(6) mask_at_def registered_def nth_list_update)
  show ?thesis unfolding agrees_def len W using sync fd(1) M by (auto simp: agrees_def)
qed

text \<open>C28: On the kqueue layer, given the documented behaviour of \<open>kevent\<close>, registering a descriptor and removing
  conditions from it keep the loop well-formed, and the installed filters stay equal to the masks of the loop, as long
  as the registration succeeds or asks for one condition.\<close>

theorem kqueue_in_step:
  assumes k: "kqueue_kernel os filters" and wf: "ae_wf l" and sync: "agrees (kqueue_watching filters l w) l"
    and m: "rw_mask m" "m \<noteq> AE_NONE"
  shows "(aeCreateFileEvent (kqueue_api os) l fd m proc cd w = Some (r, l', w') \<and> (r = AE_OK \<or> m = AE_READABLE \<or> m = AE_WRITABLE)
      \<longrightarrow> ae_wf l' \<and> agrees (kqueue_watching filters l' w') l')
    \<and> (aeDeleteFileEvent (kqueue_api os) l fd m w = Some (l', w') \<longrightarrow> ae_wf l' \<and> agrees (kqueue_watching filters l' w') l')"
proof (intro conjI impI)
  assume a: "aeCreateFileEvent (kqueue_api os) l fd m proc cd w = Some (r, l', w') \<and> (r = AE_OK \<or> m = AE_READABLE \<or> m = AE_WRITABLE)"
  then have run: "aeCreateFileEvent (kqueue_api os) l fd m proc cd w = Some (r, l', w')" by blast
  show "ae_wf l'" using wf m run by (rule kqueue.create_file_event_wf)
  show "agrees (kqueue_watching filters l' w') l'" using a kqueue_masks [OF k m(1) sync] by blast
next
  assume d: "aeDeleteFileEvent (kqueue_api os) l fd m w = Some (l', w')"
  show "ae_wf l'" using wf d by (rule kqueue.delete_file_event_wf)
  show "agrees (kqueue_watching filters l' w') l'" using d
  proof (cases rule: kqueue.delete_file_event_cases)
    case skip
    then show ?thesis using sync by simp
  next
    case (del fe fe' l1 a)
    have run: "kqueue_aeApiDelEvent os l1 fd m w = Some (l', w')" using del(6) by (simp add: kqueue_api_def)
    have l1: "events l1 = (events l)[nat fd := fe']" "apidata l1 = apidata l" by (simp_all add: del(5) Let_def)
    have l': "l' = l1" using kqueue_del_same [OF run] .
    have "kqueue_watching filters l1 w = kqueue_watching filters l w" by (rule ext) (simp add: kqueue_watching_def l1)
    then have W: "kqueue_watching filters l' w' = (kqueue_watching filters l w)(fd := kqueue_watching filters l w fd AND NOT m)"
      using kqueue_del_watches [OF k run m(1)] by simp
    have fd: "0 \<le> fd" "nat fd < length (events l)" "fe = events l ! nat fd" using del(2) by (auto simp: event_at_Some)
    have len: "length (events l') = length (events l)" using l' l1 by simp
    have M: "mask_at l' i = (if i = nat fd then mask_at l i AND NOT m else mask_at l i)" if "i < length (events l)" for i
      using that fd by (simp add: l' l1 mask_at_def del(4) nth_list_update)
    show ?thesis unfolding agrees_def len W using sync fd(1) M by (auto simp: agrees_def)
  qed
qed

definition kq_kernel_os :: "(int \<Rightarrow> int \<Rightarrow> kfilter \<Rightarrow> bool) kos" where
  "kq_kernel_os =
     \<lparr>os_malloc = (\<lambda>n w. (True, w)), os_free = (\<lambda>w. w), os_junk = (\<lambda>w i. 7),
      os_time = (\<lambda>w. (0, w)), os_gettimeofday = (\<lambda>w. ((0, 0), w)), os_select = (\<lambda>n r s tv w. ((- 1, r, s), w)),
      os_epoll_create = (\<lambda>w. (- 1, w)), os_epoll_ctl = (\<lambda>ep op fd e w. (- 1, w)), os_epoll_wait = (\<lambda>ep n t w. ((- 1, []), w)),
      os_poll = (\<lambda>fd e t w. ((0, e), w)), os_close = (\<lambda>fd w. w), os_kqueue = (\<lambda>w. (5, w)),
      os_kevent_change = (\<lambda>kq fd f a w. if a = EV_ADD \<and> fd = 3 \<and> f = EVFILT_WRITE \<or> a = EV_DELETE \<and> \<not> w kq fd f then (- 1, w)
        else (0, w(kq := (w kq)(fd := (w kq fd)(f := (a = EV_ADD)))))),
      os_kevent_wait = (\<lambda>kq n t w. ((0, []), w))\<rparr>"

lemma kq_kernel_ok: "kqueue_kernel kq_kernel_os (\<lambda>w. w)"
  unfolding kqueue_kernel_def
proof (intro allI impI)
  fix kq fd f a w r w'
  assume "os_kevent_change kq_kernel_os kq fd f a w = (r, w')"
  then show "w' = (if r = - 1 then w else w(kq := (w kq)(fd := (w kq fd)(f := (a = EV_ADD)))))
      \<and> (a = EV_DELETE \<longrightarrow> w kq fd f \<longrightarrow> r \<noteq> - 1)"
    by (simp add: kq_kernel_os_def split: if_splits) auto
qed

definition demo_kqueue :: kqueue_state where
  "demo_kqueue = \<lparr>kqfd = 5, kq_events = []\<rparr>"

lemma demo_kqueue_agrees: "agrees (kqueue_watching (\<lambda>w. w) (demo_loop demo_kqueue) (\<lambda>_ _ _. False)) (demo_loop demo_kqueue)"
  by (auto simp: agrees_def kqueue_watching_def demo_loop_def demo_kqueue_def mask_at_def AE_NONE_def)

text \<open>Witness: both conditions of descriptor 2 in a new loop.\<close>

theorem kqueue_in_step_witness:
  "\<exists>l' w'. aeCreateFileEvent (kqueue_api kq_kernel_os) (demo_loop demo_kqueue) 2 3 1 1 (\<lambda>_ _ _. False) = Some (AE_OK, l', w')
     \<and> ae_wf l' \<and> agrees (kqueue_watching (\<lambda>w. w) l' w') l'"
proof -
  have "\<exists>l' w'. aeCreateFileEvent (kqueue_api kq_kernel_os) (demo_loop demo_kqueue) 2 3 1 1 (\<lambda>_ _ _. False) = Some (AE_OK, l', w')"
    by (simp add: aeCreateFileEvent_def event_at_def demo_loop_def kqueue_api_def kqueue_aeApiAddEvent_def demo_kqueue_def kq_kernel_os_def
        has_def ae_consts)
  then show ?thesis
    using kqueue_in_step [OF kq_kernel_ok demo_wf demo_kqueue_agrees, of 3 2 1 1 AE_OK] by (auto simp: rw_mask_def AE_NONE_def)
qed

text \<open>A registration of both conditions whose second change fails reports an error, and the kernel goes on
  watching for the first one, which the loop does not know.\<close>

theorem kqueue_half_registered:
  assumes k: "kqueue_kernel os filters" and st: "apidata l = Some st" and m: "has m AE_READABLE" "has m AE_WRITABLE"
    and l: "0 \<le> fd" "fd < setsize l" "ae_wf l" "agrees (kqueue_watching filters l w) l" "\<not> has (mask_at l (nat fd)) AE_READABLE"
    and c: "os_kevent_change os (kqfd st) fd EVFILT_READ EV_ADD w = (0, w1)" "os_kevent_change os (kqfd st) fd EVFILT_WRITE EV_ADD w1 = (- 1, w2)"
  shows "aeCreateFileEvent (kqueue_api os) l fd m proc cd w = Some (AE_ERR, l, w2) \<and> \<not> agrees (kqueue_watching filters l w2) l"
proof -
  have add: "kqueue_aeApiAddEvent os l fd m w = Some (- 1, l, w2)" using st m c by (simp add: kqueue_aeApiAddEvent_def)
  have "kqueue_watching filters l w2 fd = kqueue_watching filters l w fd OR AE_READABLE"
    using change_watching [OF k st c(1)] change_watching [OF k st c(2)] by (simp add: changed_def from_kevent_def)
  then have "has (kqueue_watching filters l w2 fd) AE_READABLE" by (simp add: has_readable bit_or_iff bit_ae_consts)
  moreover have fd: "nat fd < length (events l)" using l by (auto simp: ae_wf_defs)
  ultimately have "\<not> agrees (kqueue_watching filters l w2) l"
    using l(1,5) unfolding agrees_def by (metis int_nat_eq)
  moreover have "event_at l fd \<noteq> None" using l fd by (simp add: event_at_defined)
  ultimately show ?thesis using add l(2) by (auto simp: aeCreateFileEvent_def kqueue_api_def)
qed

end
