(* ===== verification/Lredis.thy ===== *)
theory Lredis
  imports Lua_Value Os
begin

text \<open>
  The Lua binding of the redis client, \<open>src/src/redis/lredis.cc\<close>. The hiredis library is a
  parameter: \<open>re_command\<close> is \<open>redisCommand\<close> with its format and arguments, \<open>re_argv\<close> is
  \<open>redisCommandArgv\<close>. The functions take their arguments as a list and give the results they leave on
  the stack. Messages to the log are not modelled.
\<close>

section \<open>Replies and the library\<close>

definition REDIS_REPLY_STRING :: int where "REDIS_REPLY_STRING = 1"
definition REDIS_REPLY_ARRAY :: int where "REDIS_REPLY_ARRAY = 2"
definition REDIS_REPLY_INTEGER :: int where "REDIS_REPLY_INTEGER = 3"
definition REDIS_REPLY_NIL :: int where "REDIS_REPLY_NIL = 4"
definition REDIS_REPLY_STATUS :: int where "REDIS_REPLY_STATUS = 5"
definition REDIS_REPLY_ERROR :: int where "REDIS_REPLY_ERROR = 6"

lemmas redis_types = REDIS_REPLY_STRING_def REDIS_REPLY_ARRAY_def REDIS_REPLY_INTEGER_def REDIS_REPLY_NIL_def
  REDIS_REPLY_STATUS_def REDIS_REPLY_ERROR_def

text \<open>A \<open>redisReply\<close>: the type, the integer, the \<open>len\<close> bytes of the string, the elements.\<close>

datatype reply = Reply int int "byte list" "reply list"

text \<open>The arguments of a format: \<open>%s\<close>, \<open>%b\<close> with its length, \<open>%f\<close>.\<close>

datatype rarg = RS "byte list" | RB "byte list" | RF dbl

text \<open>\<open>re_float\<close> is the conversion to \<open>float\<close> and back.\<close>

record 'w redis_env =
  re_os :: "'w os"
  re_connect :: "byte list \<Rightarrow> int \<Rightarrow> 'w \<Rightarrow> (nat \<times> bool) option \<times> 'w"
  re_free :: "nat option \<Rightarrow> 'w \<Rightarrow> 'w"
  re_command :: "nat \<Rightarrow> byte list \<Rightarrow> rarg list \<Rightarrow> 'w \<Rightarrow> reply option \<times> 'w"
  re_argv :: "nat \<Rightarrow> byte list list \<Rightarrow> 'w \<Rightarrow> reply option \<times> 'w"
  re_conv :: lua_conv
  re_float :: "dbl \<Rightarrow> dbl"

section \<open>Pushing a reply\<close>

definition push_type :: "int \<Rightarrow> lua_stack \<Rightarrow> lua_stack" where
  "push_type t L =
     (if t = REDIS_REPLY_NIL then VStr (ascii ''null'') # L
      else if t = REDIS_REPLY_INTEGER then VStr (ascii ''integer'') # L
      else if t = REDIS_REPLY_STRING then VStr (ascii ''string'') # L
      else if t = REDIS_REPLY_ERROR then VStr (ascii ''error'') # L
      else if t = REDIS_REPLY_STATUS then VStr (ascii ''status'') # L
      else if t = REDIS_REPLY_ARRAY then VStr (ascii ''array'') # L
      else L)"

text \<open>
  The index of the elements is an \<open>unsigned int\<close> that is compared with a \<open>size_t\<close>: with 2 to the power of
  32 elements or more it starts again at 0 and the loop never ends. The stack is the part above the
  arguments, with \<open>ctop\<close> slots; arrays that are nested too deep for them are undefined.
\<close>

fun getCallback_push_reply :: "nat \<Rightarrow> reply \<Rightarrow> lua_stack \<Rightarrow> lua_stack option"
  and push_elements :: "nat \<Rightarrow> 32 word \<Rightarrow> reply list \<Rightarrow> lua_stack \<Rightarrow> lua_stack option"
where
  "getCallback_push_reply ctop (Reply t n s es) L =
     Option.bind (Option.bind (lua_pushed ctop (push_type t (VStr (ascii ''type'') # VTable [] # L))) lua_settable) (\<lambda>L.
       Option.bind
         (if t = REDIS_REPLY_NIL then lua_pushed ctop (VNil # VStr (ascii ''value'') # L)
          else if t = REDIS_REPLY_INTEGER then lua_pushed ctop (VNum (d_int n) # VStr (ascii ''value'') # L)
          else if t = REDIS_REPLY_STRING then lua_pushed ctop (VStr s # VStr (ascii ''value'') # L)
          else if t = REDIS_REPLY_ERROR then lua_pushed ctop (VStr (c_str s) # VStr (ascii ''value'') # L)
          else if t = REDIS_REPLY_STATUS then lua_pushed ctop (VStr (c_str s) # VStr (ascii ''value'') # L)
          else if t = REDIS_REPLY_ARRAY
          then Option.bind (lua_pushed ctop (VTable [] # VStr (ascii ''value'') # L)) (\<lambda>L.
                 if length es < 2 ^ 32 then push_elements ctop 0 es L else None)
          else lua_pushed ctop (VStr (ascii ''value'') # L))
         (\<lambda>L. lua_settable L))"
| "push_elements ctop i [] L = Some L"
| "push_elements ctop i (r # rs) L =
     Option.bind (lua_pushed ctop (VNum (d_int (uint (i + 1))) # L)) (\<lambda>L. Option.bind (getCallback_push_reply ctop r L) (\<lambda>L.
       Option.bind (lua_settable L) (\<lambda>L. push_elements ctop (i + 1) rs L)))"

text \<open>The end of every command: a null reply gives no result.\<close>

definition push_result :: "reply option \<times> 'w \<Rightarrow> (lua list \<times> 'w) option" where
  "push_result rw =
     (case fst rw of
        None \<Rightarrow> Some ([], snd rw)
      | Some r \<Rightarrow> do { L \<leftarrow> getCallback_push_reply LUA_MINSTACK r []; Some (L, snd rw) })"

section \<open>Connections\<close>

text \<open>The port is converted to \<open>unsigned short\<close>.\<close>

definition lredis_connect :: "'w redis_env \<Rightarrow> lua list \<Rightarrow> 'w \<Rightarrow> (lua list \<times> 'w) option" where
  "lredis_connect E as w =
     (if length as = 2 \<and> lua_isstring (arg_at as 1) \<and> lua_isnumber (re_conv E) (arg_at as 2)
      then do {
        ip \<leftarrow> lua_tolstring (re_conv E) (arg_at as 1);
        p \<leftarrow> d_to_int (lua_tonumber (re_conv E) (arg_at as 2));
        let (c, w) = re_connect E (c_str ip) (take_bit 16 p) w;
        case c of
          None \<Rightarrow> Some ([], w)
        | Some (c, up) \<Rightarrow>
            if \<not> up then Some ([], re_free E (Some c) w) else Some ([VOther (cv_light (re_conv E) c)], w)
      }
      else Some ([], w))"

definition lredis_close :: "'w redis_env \<Rightarrow> lua list \<Rightarrow> 'w \<Rightarrow> (lua list \<times> 'w) option" where
  "lredis_close E as w =
     (if length as = 1 \<and> lua_isuserdata (re_conv E) (arg_at as 1)
      then Some ([], re_free E (lua_touserdata (re_conv E) (arg_at as 1)) w) else Some ([], w))"

section \<open>Commands with a format\<close>

text \<open>The functions of a key and a value differ in their format.\<close>

definition key_value :: "'w redis_env \<Rightarrow> byte list \<Rightarrow> lua list \<Rightarrow> 'w \<Rightarrow> (lua list \<times> 'w) option" where
  "key_value E fmt as w =
     (if \<not> lua_isuserdata (re_conv E) (arg_at as 1) \<or> \<not> lua_isstring (arg_at as 2) \<or> \<not> lua_isstring (arg_at as 3) then Some ([], w)
      else
        (case lua_touserdata (re_conv E) (arg_at as 1) of
           None \<Rightarrow> Some ([], w)
         | Some c \<Rightarrow>
             (case (lua_tolstring (re_conv E) (arg_at as 2), lua_tolstring (re_conv E) (arg_at as 3)) of
                (Some key, Some v) \<Rightarrow> push_result (re_command E c fmt [RS (c_str key), RB v] w)
              | _ \<Rightarrow> Some ([], w))))"

definition lzrevrank :: "'w redis_env \<Rightarrow> lua list \<Rightarrow> 'w \<Rightarrow> (lua list \<times> 'w) option" where
  "lzrevrank E = key_value E (ascii ''ZREVRANK %s %b'')"

definition lzrem :: "'w redis_env \<Rightarrow> lua list \<Rightarrow> 'w \<Rightarrow> (lua list \<times> 'w) option" where
  "lzrem E = key_value E (ascii ''ZREM %s %b'')"

definition lzrank :: "'w redis_env \<Rightarrow> lua list \<Rightarrow> 'w \<Rightarrow> (lua list \<times> 'w) option" where
  "lzrank E = key_value E (ascii ''ZRANK %s %b'')"

definition lredis_set :: "'w redis_env \<Rightarrow> lua list \<Rightarrow> 'w \<Rightarrow> (lua list \<times> 'w) option" where
  "lredis_set E = key_value E (ascii ''set %s %b'')"

definition llpush :: "'w redis_env \<Rightarrow> lua list \<Rightarrow> 'w \<Rightarrow> (lua list \<times> 'w) option" where
  "llpush E = key_value E (ascii ''LPUSH %s %b'')"

definition lzadd :: "'w redis_env \<Rightarrow> lua list \<Rightarrow> 'w \<Rightarrow> (lua list \<times> 'w) option" where
  "lzadd E as w =
     (if \<not> lua_isuserdata (re_conv E) (arg_at as 1) \<or> \<not> lua_isstring (arg_at as 2) \<or> \<not> lua_isnumber (re_conv E) (arg_at as 3)
         \<or> \<not> lua_isstring (arg_at as 4)
      then Some ([], w)
      else
        (case lua_touserdata (re_conv E) (arg_at as 1) of
           None \<Rightarrow> Some ([], w)
         | Some c \<Rightarrow>
             (case (lua_tolstring (re_conv E) (arg_at as 2), lua_tolstring (re_conv E) (arg_at as 4)) of
                (Some key, Some v) \<Rightarrow>
                  push_result (re_command E c (ascii ''ZADD %s %f %b'')
                    [RS (c_str key), RF (re_float E (lua_tonumber (re_conv E) (arg_at as 3))), RB v] w)
              | _ \<Rightarrow> Some ([], w))))"

definition lhset :: "'w redis_env \<Rightarrow> lua list \<Rightarrow> 'w \<Rightarrow> (lua list \<times> 'w) option" where
  "lhset E as w =
     (if \<not> lua_isuserdata (re_conv E) (arg_at as 1) \<or> \<not> lua_isstring (arg_at as 2) \<or> \<not> lua_isstring (arg_at as 3)
         \<or> \<not> lua_isstring (arg_at as 4)
      then Some ([], w)
      else
        (case lua_touserdata (re_conv E) (arg_at as 1) of
           None \<Rightarrow> Some ([], w)
         | Some c \<Rightarrow> do {
             table \<leftarrow> lua_tolstring (re_conv E) (arg_at as 2);
             key \<leftarrow> lua_tolstring (re_conv E) (arg_at as 3);
             v \<leftarrow> lua_tolstring (re_conv E) (arg_at as 4);
             push_result (re_command E c (ascii ''hset %s %s %s'') [RS (c_str table), RS (c_str key), RS (c_str v)] w)
           }))"

text \<open>The command of the script is the format; its arguments are missing.\<close>

definition lcommand :: "'w redis_env \<Rightarrow> lua list \<Rightarrow> 'w \<Rightarrow> (lua list \<times> 'w) option" where
  "lcommand E as w =
     (if \<not> lua_isuserdata (re_conv E) (arg_at as 1) \<or> \<not> lua_isstring (arg_at as 2) then Some ([], w)
      else
        (case lua_touserdata (re_conv E) (arg_at as 1) of
           None \<Rightarrow> Some ([], w)
         | Some c \<Rightarrow> do { s \<leftarrow> lua_tolstring (re_conv E) (arg_at as 2); push_result (re_command E c (c_str s) [] w) }))"

section \<open>Commands with a vector\<close>

text \<open>The static variables. A pointer is null, live or left behind after \<open>free\<close>.\<close>

datatype vec_ptr = RNull | RLive | RFreed

record redis_vec =
  redis_argv :: vec_ptr
  redis_argvlen :: vec_ptr
  redis_argc :: nat

definition redis_vec_init :: redis_vec where
  "redis_vec_init = \<lparr>redis_argv = RNull, redis_argvlen = RNull, redis_argc = 0\<rparr>"

text \<open>\<open>free\<close> of a pointer that was freed before is undefined.\<close>

definition free_ptr :: "'w redis_env \<Rightarrow> vec_ptr \<Rightarrow> 'w \<Rightarrow> 'w option" where
  "free_ptr E p w = (if p = RFreed then None else Some (os_free (re_os E) w))"

text \<open>
  The growing of the two arrays; the result is false after a failed allocation. The pointer
  \<open>redis_argv\<close> is set to null before it is looked at, \<open>redis_argvlen\<close> keeps its value after \<open>free\<close>.
\<close>

definition grow_vec :: "'w redis_env \<Rightarrow> nat \<Rightarrow> redis_vec \<Rightarrow> 'w \<Rightarrow> (bool \<times> redis_vec \<times> 'w) option" where
  "grow_vec E argc v w =
     (if redis_argc v < argc
      then do {
        (v, w) \<leftarrow> (if redis_argv v \<noteq> RNull then do { w \<leftarrow> free_ptr E (redis_argv v) w; Some (v\<lparr>redis_argc := 0\<rparr>, w) } else Some (v, w));
        (v, w) \<leftarrow> (if redis_argvlen v \<noteq> RNull then do { w \<leftarrow> free_ptr E (redis_argvlen v) w; Some (v\<lparr>redis_argc := 0\<rparr>, w) } else Some (v, w));
        let (ok1, w) = os_malloc (re_os E) (8 * int argc) w;
        let (ok2, w) = os_malloc (re_os E) (8 * int argc) w;
        if \<not> ok1 \<or> \<not> ok2
        then Some (False, v\<lparr>redis_argv := RNull, redis_argvlen := (if ok2 then RFreed else RNull)\<rparr>,
                   if ok2 then os_free (re_os E) w else w)
        else Some (True, \<lparr>redis_argv = RLive, redis_argvlen = RLive, redis_argc = argc\<rparr>, w)
      }
      else Some (True, v, w))"

text \<open>
  The entries of the vector, \<open>None\<close> where this call has not written: the memory is new, or holds a
  pointer to a string of an earlier call. A null pointer has the length 0.
\<close>

fun put_pairs :: "'w redis_env \<Rightarrow> nat \<Rightarrow> nat \<Rightarrow> nat \<Rightarrow> lua list \<Rightarrow> byte list option list \<Rightarrow> byte list option list option" where
  "put_pairs E i 0 off as argv = Some argv"
| "put_pairs E i (Suc k) off as argv =
     (if 2 * i + off + 1 < length argv
      then put_pairs E (Suc i) k off as
             (argv[2 * i + off := Some (case lua_tolstring (re_conv E) (arg_at as (2 * i + off + 1)) of None \<Rightarrow> [] | Some s \<Rightarrow> s),
                   2 * i + off + 1 := Some (case lua_tolstring (re_conv E) (arg_at as (2 * i + off + 2)) of None \<Rightarrow> [] | Some s \<Rightarrow> s)])
      else None)"

text \<open>\<open>redisCommandArgv\<close> reads the first \<open>argc\<close> entries.\<close>

definition send_argv :: "'w redis_env \<Rightarrow> nat \<Rightarrow> nat \<Rightarrow> byte list option list \<Rightarrow> 'w \<Rightarrow> (lua list \<times> 'w) option" where
  "send_argv E c argc argv w =
     (if argc \<le> length argv \<and> (\<forall>x \<in> set (take argc argv). x \<noteq> None)
      then push_result (re_argv E c (map the (take argc argv)) w) else None)"

definition lmset :: "'w redis_env \<Rightarrow> lua list \<Rightarrow> redis_vec \<Rightarrow> 'w \<Rightarrow> (lua list \<times> redis_vec \<times> 'w) option" where
  "lmset E as v w =
     (case lua_touserdata (re_conv E) (arg_at as 1) of
        None \<Rightarrow> Some ([], v, w)
      | Some c \<Rightarrow>
          do {
            let argc = length as;
            (ok, v, w) \<leftarrow> grow_vec E argc v w;
            if \<not> ok then Some ([], v, w)
            else do {
              argv \<leftarrow> put_pairs E 0 ((argc - 1) div 2) 1 as ((replicate (redis_argc v) None)[0 := Some (ascii ''MSET'')]);
              (L, w) \<leftarrow> send_argv E c argc argv w;
              Some (L, v, w)
            }
          })"

definition lhmset :: "'w redis_env \<Rightarrow> lua list \<Rightarrow> redis_vec \<Rightarrow> 'w \<Rightarrow> (lua list \<times> redis_vec \<times> 'w) option" where
  "lhmset E as v w =
     (case lua_touserdata (re_conv E) (arg_at as 1) of
        None \<Rightarrow> Some ([], v, w)
      | Some c \<Rightarrow>
          do {
            let argc = length as;
            if argc mod 2 \<noteq> 0 then Some ([], v, w)
            else do {
              (ok, v, w) \<leftarrow> grow_vec E argc v w;
              if \<not> ok then Some ([], v, w)
              else
                (case lua_tolstring (re_conv E) (arg_at as 2) of
                   None \<Rightarrow> Some ([], v, w)
                 | Some key \<Rightarrow> do {
                     argv \<leftarrow> put_pairs E 0 ((argc - 1) div 2) 2 as
                       ((replicate (redis_argc v) None)[0 := Some (ascii ''HMSET''), 1 := Some key]);
                     (L, w) \<leftarrow> send_argv E c argc argv w;
                     Some (L, v, w)
                   })
            }
          })"

end
