(* ===== verification/Lredis_Spec.thy ===== *)
theory Lredis_Spec
  imports Lredis
begin

text \<open>What the commands of the redis client send, and what scripts see of the replies.\<close>

section \<open>Replies\<close>

fun reply_ok :: "reply \<Rightarrow> bool" where
  "reply_ok (Reply t n s es) \<longleftrightarrow> 1 \<le> t \<and> t \<le> 6 \<and> length es < 2 ^ 32 \<and> (\<forall>r \<in> set es. reply_ok r)"

text \<open>How deep arrays that have elements are nested in a reply.\<close>

fun arrays :: "reply \<Rightarrow> nat" where
  "arrays (Reply t n s es) = (if t = REDIS_REPLY_ARRAY \<and> es \<noteq> [] then Suc (Max (arrays ` set es)) else 0)"

lemma arrays_element: "r \<in> set es \<Longrightarrow> arrays r < arrays (Reply REDIS_REPLY_ARRAY n s es)"
  by (auto simp: less_Suc_eq_le intro!: Max_ge)

definition type_name :: "int \<Rightarrow> byte list" where
  "type_name t = ascii ([''string'', ''array'', ''integer'', ''null'', ''status'', ''error''] ! nat (t - 1))"

definition number_keys :: "nat \<Rightarrow> nat \<Rightarrow> lua list" where
  "number_keys k n = map (\<lambda>i. VNum (Fin (of_nat i))) [k + 1..<k + n + 1]"

lemma number_keys_Suc: "number_keys k (Suc n) = VNum (Fin (of_nat (k + 1))) # number_keys (k + 1) n"
  by (simp add: number_keys_def upt_conv_Cons del: upt_Suc)

text \<open>The table of a reply: the name of the type, and the value unless it is nil.\<close>

fun reply_table :: "reply \<Rightarrow> lua" where
  "reply_table (Reply t n s es) =
     VTable ((VStr (ascii ''type''), VStr (type_name t)) #
       (if t = REDIS_REPLY_NIL then []
        else [(VStr (ascii ''value''),
               if t = REDIS_REPLY_INTEGER then VNum (d_int n)
               else if t = REDIS_REPLY_ARRAY then VTable (zip (number_keys 0 (length es)) (map reply_table es))
               else if t = REDIS_REPLY_STRING then VStr s
               else VStr (c_str s))]))"

definition numbered :: "nat \<Rightarrow> reply list \<Rightarrow> (lua \<times> lua) list" where
  "numbered k es = zip (number_keys k (length es)) (map reply_table es)"

lemma push_type_law: "1 \<le> t \<Longrightarrow> t \<le> 6 \<Longrightarrow> push_type t L = VStr (type_name t) # L"
proof -
  assume "1 \<le> t" "t \<le> 6"
  then have "t = 1 \<or> t = 2 \<or> t = 3 \<or> t = 4 \<or> t = 5 \<or> t = 6" by linarith
  then show ?thesis by (elim disjE) (simp_all add: push_type_def redis_types type_name_def)
qed

lemma reply_table_not_nil: "reply_table r \<noteq> VNil"
  by (cases r) simp

lemma push_elements_law:
  assumes "\<And>r L'. r \<in> set es \<Longrightarrow> length L' = length L + 2 \<Longrightarrow>
      getCallback_push_reply ctop r L' = (if fits r then Some (reply_table r # L') else None)"
    and "k + length es < 2 ^ 32" "length L + 2 \<le> ctop" "fst ` set pre \<subseteq> (\<lambda>i. VNum (Fin (of_nat i))) ` {..k}"
  shows "push_elements ctop (of_nat k) es (VTable pre # L)
    = (if \<forall>r \<in> set es. fits r then Some (VTable (pre @ numbered k es) # L) else None)"
  using assms
proof (induction es arbitrary: k pre)
  case Nil
  then show ?case by (simp add: numbered_def)
next
  case (Cons r es)
  let ?key = "VNum (Fin (of_nat (k + 1)))"
  have "uint (of_nat (k + 1) :: 32 word) = int (k + 1)"
    using Cons.prems(2) by (simp add: unsigned_of_nat take_bit_nat_eq_self del: of_nat_add of_nat_Suc add: of_nat_add [symmetric])
  then have "uint (of_nat k + 1 :: 32 word) = int (k + 1)" by (simp add: add.commute)
  then have key: "VNum (d_int (uint (of_nat k + 1 :: 32 word))) = ?key"
    using d_int_exact [of "int k + 1"] Cons.prems(2) by (simp add: add.commute)
  have "?key \<notin> fst ` set pre" using Cons.prems(4) by fastforce
  then have new: "set_entry ?key (reply_table r) pre = pre @ [(?key, reply_table r)]"
    by (rule set_entry_new) (rule reply_table_not_nil)
  have "fst ` set (pre @ [(?key, reply_table r)]) \<subseteq> (\<lambda>i. VNum (Fin (of_nat i))) ` {..k + 1}"
    using Cons.prems(4) by (auto simp: atMost_Suc)
  then have "push_elements ctop (of_nat (k + 1)) es (VTable (pre @ [(?key, reply_table r)]) # L)
      = (if \<forall>r \<in> set es. fits r then Some (VTable ((pre @ [(?key, reply_table r)]) @ numbered (k + 1) es) # L) else None)"
    using Cons.prems(1,2,3) by (intro Cons.IH) auto
  moreover have "numbered k (r # es) = (?key, reply_table r) # numbered (k + 1) es"
    by (simp add: numbered_def number_keys_Suc)
  ultimately show ?case using Cons.prems(1) [of r "?key # VTable pre # L"] Cons.prems(3) key new by (simp add: add.commute)
qed

lemma Max_fits:
  fixes A :: "nat set"
  assumes "finite A" "A \<noteq> {}"
  shows "(\<forall>m \<in> A. k + 4 * m + 3 \<le> n) \<longleftrightarrow> k + 4 * Max A + 3 \<le> n"
proof
  assume "k + 4 * Max A + 3 \<le> n"
  moreover have "m \<le> Max A" if "m \<in> A" for m using assms(1) that by simp
  ultimately show "\<forall>m \<in> A. k + 4 * m + 3 \<le> n" by fastforce
qed (use Max_in [OF assms] in blast)

lemma push_reply_law:
  "reply_ok r \<Longrightarrow> getCallback_push_reply ctop r L = (if length L + 4 * arrays r + 3 \<le> ctop then Some (reply_table r # L) else None)"
proof (induction r arbitrary: L)
  case (Reply t n s es)
  have t: "1 \<le> t" "t \<le> 6" "length es < 2 ^ 32" using Reply.prems by auto
  let ?fits = "\<lambda>r. length L + 4 + 4 * arrays r + 3 \<le> ctop"
  have e: "push_elements ctop 0 es (VTable [] # VStr (ascii ''value'') # x # L)
      = (if length L + 4 * arrays (Reply t n s es) + 3 \<le> ctop
         then Some (VTable (numbered 0 es) # VStr (ascii ''value'') # x # L) else None)"
    if a: "t = REDIS_REPLY_ARRAY" and room: "length L + 3 \<le> ctop" for x
  proof (cases es)
    case Nil
    then show ?thesis using room by (simp add: numbered_def number_keys_def)
  next
    case (Cons r rs)
    have "(\<forall>r \<in> set es. ?fits r) \<longleftrightarrow> (\<forall>m \<in> arrays ` set es. length L + 4 + 4 * m + 3 \<le> ctop)" by simp
    also have "\<dots> \<longleftrightarrow> length L + 4 + 4 * Max (arrays ` set es) + 3 \<le> ctop"
      by (rule Max_fits) (use Cons in auto)
    also have "\<dots> \<longleftrightarrow> length L + 4 * arrays (Reply t n s es) + 3 \<le> ctop" using Cons a by simp
    finally have fits: "(\<forall>r \<in> set es. ?fits r) \<longleftrightarrow> length L + 4 * arrays (Reply t n s es) + 3 \<le> ctop" .
    show ?thesis
    proof (cases "length L + 4 \<le> ctop")
      case True
      have "push_elements ctop (of_nat 0) es (VTable [] # VStr (ascii ''value'') # x # L)
        = (if \<forall>r \<in> set es. ?fits r then Some (VTable ([] @ numbered 0 es) # VStr (ascii ''value'') # x # L) else None)"
        by (rule push_elements_law) (use Reply.IH Reply.prems t True in auto)
      then show ?thesis unfolding fits by simp
    next
      case False
      then have "\<not> ?fits r" by simp
      then have "\<not> length L + 4 * arrays (Reply t n s es) + 3 \<le> ctop" using fits Cons by auto
      then show ?thesis using False Cons by (simp add: lua_pushed_def del: arrays.simps)
    qed
  qed
  have ne: "VStr (ascii ''value'') \<noteq> VStr (ascii ''type'')" by (simp add: ascii_def)
  have "t = 1 \<or> t = 2 \<or> t = 3 \<or> t = 4 \<or> t = 5 \<or> t = 6" using t by linarith
  then show ?case
  proof (cases "length L + 3 \<le> ctop")
    case True
    show ?thesis using e [OF _ True] t ne True \<open>t = 1 \<or> _\<close>
      by (elim disjE) (simp_all add: push_type_law redis_types numbered_def ascii_def del: arrays.simps, simp_all add: redis_types)
  next
    case False
    then show ?thesis using t by (simp add: push_type_law lua_pushed_def del: arrays.simps)
  qed
qed

text \<open>C20: Whatever reply of the six types the redis server sends, the script gets one table with the name of the type
  and the value: integers as numbers, strings with all their bytes, status and error texts up to a zero byte, arrays
  as tables numbered from one, and no value for nil. Nothing else stays on the stack. Arrays have fewer than 2 to the
  power of 32 elements, which the index of type \<open>unsigned int\<close> can count. The stack is enough exactly when arrays with
  elements are nested at most four deep: every level takes four of the \<open>LUA_MINSTACK\<close> slots, and
  \<open>getCallback_push_reply\<close> never asks for more, so a deeper reply is undefined.\<close>

theorem redis_reply_pushed:
  assumes "reply_ok r"
  shows "push_result (Some r, w) = (if arrays r \<le> 4 then Some ([reply_table r], w) else None)"
  using push_reply_law [OF assms, of LUA_MINSTACK "[]"] by (simp add: push_result_def LUA_MINSTACK_def)

text \<open>Witness: an array of a string with a zero byte and nil.\<close>

theorem redis_reply_pushed_witness:
  "push_result (Some (Reply 2 0 [] [Reply 1 0 [97, 0] [], Reply 4 0 [] []]), ())
   = Some ([VTable [(VStr (ascii ''type''), VStr (ascii ''array'')),
       (VStr (ascii ''value''),
        VTable [(VNum (Fin 1), VTable [(VStr (ascii ''type''), VStr (ascii ''string'')), (VStr (ascii ''value''), VStr [97, 0])]),
                (VNum (Fin 2), VTable [(VStr (ascii ''type''), VStr (ascii ''null''))])])]], ())"
  using redis_reply_pushed [of "Reply 2 0 [] [Reply 1 0 [97, 0] [], Reply 4 0 [] []]" "()"]
  by (simp add: redis_types type_name_def number_keys_def upt_rec)

section \<open>Commands with a vector\<close>

definition arg_bytes :: "'w redis_env \<Rightarrow> lua list \<Rightarrow> nat \<Rightarrow> byte list" where
  "arg_bytes E as p = (case lua_tolstring (re_conv E) (arg_at as (p + 1)) of None \<Rightarrow> [] | Some s \<Rightarrow> s)"

lemma put_pairs_law:
  "2 * (i + k) + off \<le> length argv \<Longrightarrow>
   put_pairs E i k off as argv = Some (take (2 * i + off) argv @ map (\<lambda>p. Some (arg_bytes E as p)) [2 * i + off..<2 * (i + k) + off]
     @ drop (2 * (i + k) + off) argv)"
proof (induction k arbitrary: i argv)
  case 0
  then show ?case by simp
next
  case (Suc k)
  let ?x = "Some (arg_bytes E as (2 * i + off))" and ?y = "Some (arg_bytes E as (2 * i + off + 1))"
  let ?argv = "argv[2 * i + off := ?x, 2 * i + off + 1 := ?y]"
  have "put_pairs E i (Suc k) off as argv = put_pairs E (Suc i) k off as ?argv"
    using Suc.prems by (simp add: arg_bytes_def)
  also have "\<dots> = Some (take (2 * Suc i + off) ?argv @ map (\<lambda>p. Some (arg_bytes E as p)) [2 * Suc i + off..<2 * (Suc i + k) + off]
     @ drop (2 * (Suc i + k) + off) ?argv)" by (rule Suc.IH) (use Suc.prems in simp)
  also have "take (2 * Suc i + off) ?argv = take (2 * i + off) argv @ [?x, ?y]"
    by (rule nth_equalityI) (use Suc.prems in \<open>auto simp: nth_append nth_list_update nth_Cons' less_Suc_eq\<close>)
  also have "drop (2 * (Suc i + k) + off) ?argv = drop (2 * (i + Suc k) + off) argv" by simp
  also have "[2 * i + off..<2 * (i + Suc k) + off] = (2 * i + off) # (2 * i + off + 1) # [2 * Suc i + off..<2 * (Suc i + k) + off]"
    by (simp add: upt_conv_Cons)
  ultimately show ?case by simp
qed

text \<open>The state between two calls; \<open>redis_argvlen\<close> has not been left behind.\<close>

definition vec_ok :: "redis_vec \<Rightarrow> bool" where
  "vec_ok v \<longleftrightarrow> redis_argv v \<noteq> RFreed \<and> redis_argvlen v \<noteq> RFreed"

lemma grow_law:
  assumes "vec_ok v" "\<forall>n w. fst (os_malloc (re_os E) n w)"
  shows "\<exists>v' w'. grow_vec E argc v w = Some (True, v', w') \<and> argc \<le> redis_argc v' \<and> vec_ok v'"
proof (cases "redis_argc v < argc")
  case True
  have "\<exists>w'. os_malloc (re_os E) n w = (True, w')" for n w using assms(2) by (metis prod.collapse)
  then show ?thesis using True assms(1)
    by (auto simp: grow_vec_def vec_ok_def free_ptr_def split: prod.splits) (metis old.prod.inject)+
next
  case False
  then show ?thesis using assms(1) by (simp add: grow_vec_def)
qed

text \<open>The vector of \<open>lmset\<close> before it is sent.\<close>

lemma mset_vector:
  assumes "n = length as" "odd n" "n \<le> m"
  shows "\<exists>rest. put_pairs E 0 ((n - 1) div 2) 1 as ((replicate m None)[0 := Some cmd])
    = Some (map Some (cmd # map (arg_bytes E as) [1..<n]) @ rest)"
proof -
  have k: "2 * (0 + (n - 1) div 2) + 1 = n" using assms(2) by presburger
  have n: "0 < n" using assms(2) by (cases n) auto
  have "take 1 ((replicate m None)[0 := Some cmd]) = [Some cmd]" using n assms(3) by (cases m) auto
  then show ?thesis
    using put_pairs_law [of 0 "(n - 1) div 2" 1 "(replicate m None)[0 := Some cmd]" E as] k assms(3)
    by (simp del: upt_Suc add: comp_def)
qed

text \<open>\<open>Redis.mset\<close> with pairs of keys and values sends the command \<open>MSET\<close> with exactly these bytes in their order,
  whatever calls came before, after the vectors have grown, when memory can be allocated; the vectors are never
  written past their end and stay usable.\<close>

theorem mset_sends:
  assumes v: "vec_ok v" and mem: "\<forall>n w. fst (os_malloc (re_os E) n w)" and c: "cv_userdata (re_conv E) u = Some (Some c)"
    and kv: "even (length kvs)" and ok: "\<forall>r w w'. re_argv E c (ascii ''MSET'' # kvs) w = (Some r, w') \<longrightarrow> reply_ok r \<and> arrays r \<le> 4"
  shows "\<exists>v' w1. vec_ok v' \<and> grow_vec E (length kvs + 1) v w = Some (True, v', w1) \<and> lmset E (VOther u # map VStr kvs) v w
    = (case re_argv E c (ascii ''MSET'' # kvs) w1 of
         (None, w') \<Rightarrow> Some ([], v', w')
       | (Some r, w') \<Rightarrow> Some ([reply_table r], v', w'))"
proof -
  let ?as = "VOther u # map VStr kvs" and ?cmd = "ascii ''MSET''"
  obtain v' w1 where g: "grow_vec E (length ?as) v w = Some (True, v', w1)" "length ?as \<le> redis_argc v'" "vec_ok v'"
    using grow_law [OF v mem] by blast
  have "odd (length ?as)" using kv by simp
  from mset_vector [OF refl this g(2), of E ?cmd] obtain rest where
    p: "put_pairs E 0 ((length ?as - 1) div 2) 1 ?as ((replicate (redis_argc v') None)[0 := Some ?cmd])
      = Some (map Some (?cmd # map (arg_bytes E ?as) [1..<length ?as]) @ rest)" by blast
  have "[1..<length ?as] = map Suc [0..<length kvs]" by (simp add: map_Suc_upt del: upt_Suc)
  then have b: "map (arg_bytes E ?as) [1..<length ?as] = kvs"
    by (intro nth_equalityI) (simp_all only: length_map length_upt map_map comp_def nth_map, simp_all add: arg_bytes_def arg_at_def lua_tolstring_def)
  have "send_argv E c (length ?as) (map Some (?cmd # kvs) @ rest) w1 = push_result (re_argv E c (?cmd # kvs) w1)"
    by (simp add: send_argv_def comp_def)
  moreover obtain r w' where r: "re_argv E c (?cmd # kvs) w1 = (r, w')" by fastforce
  moreover have "getCallback_push_reply LUA_MINSTACK x [] = Some [reply_table x]" if "r = Some x" for x
  proof -
    have "reply_ok x" "arrays x \<le> 4" using ok r that by blast+
    then show ?thesis using push_reply_law [of x LUA_MINSTACK "[]"] by (simp add: LUA_MINSTACK_def)
  qed
  moreover have "lua_touserdata (re_conv E) (arg_at ?as 1) = Some c" using c by (simp add: arg_at_def lua_touserdata_def)
  ultimately have "lmset E ?as v w = (case re_argv E c (?cmd # kvs) w1 of (None, w') \<Rightarrow> Some ([], v', w')
       | (Some r, w') \<Rightarrow> Some ([reply_table r], v', w'))"
    using g(1) p unfolding b by (cases r) (simp_all add: lmset_def push_result_def)
  then show ?thesis using g(1,3) by (simp add: exI)
qed

definition echo_env :: "byte list list redis_env" where
  "echo_env = \<lparr>re_os = \<lparr>os_malloc = (\<lambda>n w. (True, w)), os_free = (\<lambda>w. w), os_junk = (\<lambda>w i. 7), os_time = (\<lambda>w. (0, w)),
       os_gettimeofday = (\<lambda>w. ((0, 0), w)), os_select = (\<lambda>n r s tv w. ((- 1, r, s), w)), os_epoll_create = (\<lambda>w. (- 1, w)),
       os_epoll_ctl = (\<lambda>ep op fd e w. (- 1, w)), os_epoll_wait = (\<lambda>ep n t w. ((- 1, []), w)), os_poll = (\<lambda>fd e t w. ((0, e), w)),
       os_close = (\<lambda>fd w. w)\<rparr>,
     re_connect = (\<lambda>ip p w. (Some (1, True), w)), re_free = (\<lambda>c w. w), re_command = (\<lambda>c f as w. (Some (Reply 4 0 [] []), w)),
     re_argv = (\<lambda>c as w. (Some (Reply 5 0 [79, 75] []), as)), re_conv = \<lparr>cv_userdata = (\<lambda>n. Some (Some n)),
       cv_light = (\<lambda>n. n), cv_numstr = (\<lambda>d. []), cv_strnum = (\<lambda>s. None)\<rparr>, re_float = (\<lambda>d. d)\<rparr>"

text \<open>Witness: one pair, on a new vector; the world is the command that was sent.\<close>

theorem mset_sends_witness:
  "\<exists>v'. vec_ok v' \<and> lmset echo_env [VOther 3, VStr [107], VStr [118, 0]] redis_vec_init []
    = Some ([reply_table (Reply 5 0 [79, 75] [])], v', [ascii ''MSET'', [107], [118, 0]])"
  using mset_sends [of redis_vec_init echo_env 3 3 "[[107], [118, 0]]" "[]"]
  by (auto simp: vec_ok_def redis_vec_init_def echo_env_def)

text \<open>With a key that has no value the last entry of the vector is not written by the call: what is sent is
  undefined.\<close>

theorem mset_missing_value:
  assumes v: "vec_ok v" and mem: "\<forall>n w. fst (os_malloc (re_os E) n w)" and c: "cv_userdata (re_conv E) u = Some (Some c)"
  shows "lmset E [VOther u, VStr k] v w = None"
proof -
  let ?as = "[VOther u, VStr k]"
  obtain v' w1 where g: "grow_vec E 2 v w = Some (True, v', w1)" "2 \<le> redis_argc v'" using grow_law [OF v mem] by blast
  have "take 2 ((replicate (redis_argc v') None)[0 := Some (ascii ''MSET'')]) ! 1 = None" using g(2) by simp
  moreover have "1 < length (take 2 ((replicate (redis_argc v') None)[0 := Some (ascii ''MSET'')]))" using g(2) by simp
  ultimately have "None \<in> set (take 2 ((replicate (redis_argc v') None)[0 := Some (ascii ''MSET'')]))" by (metis nth_mem)
  moreover have "lua_touserdata (re_conv E) (arg_at ?as 1) = Some c" using c by (simp add: arg_at_def lua_touserdata_def)
  ultimately show ?thesis using g(1) by (auto simp: lmset_def send_argv_def numeral_2_eq_2 split: bind_splits)
qed

text \<open>After a failed allocation of \<open>redis_argv\<close> alone, the next call frees \<open>redis_argvlen\<close> a second time.\<close>

theorem mset_double_free:
  assumes c: "cv_userdata (re_conv E) u = Some (Some c)"
    and m: "os_malloc (re_os E) (8 * int (length as + 1)) w = (False, w1)" "os_malloc (re_os E) (8 * int (length as + 1)) w1 = (True, w2)"
  shows "\<exists>v'. lmset E (VOther u # as) redis_vec_init w = Some ([], v', os_free (re_os E) w2) \<and> lmset E (VOther u # as) v' w3 = None"
proof -
  have ud: "lua_touserdata (re_conv E) (arg_at (VOther u # as) 1) = Some c" using c by (simp add: arg_at_def lua_touserdata_def)
  let ?v = "\<lparr>redis_argv = RNull, redis_argvlen = RFreed, redis_argc = 0\<rparr>"
  have "grow_vec E (length as + 1) redis_vec_init w = Some (False, ?v, os_free (re_os E) w2)"
    using m by (simp add: grow_vec_def redis_vec_init_def)
  moreover have "grow_vec E (length as + 1) ?v w3 = None" by (simp add: grow_vec_def free_ptr_def)
  ultimately show ?thesis using ud by (simp add: lmset_def)
qed

end
