(* ===== verification/Lmysql.thy ===== *)
theory Lmysql
  imports Lua_Value Os
begin

text \<open>
  The Lua binding of the MySQL client, \<open>src/src/mysql/lmysql.cc\<close>. The client library is a parameter;
  a result set is the value of \<open>mysql_store_result\<close>: the fields, or \<open>None\<close> when they cannot be
  fetched, and the rows. Messages to the log are not modelled.
\<close>

datatype field_type = FIELD_TYPE_STRING | FIELD_TYPE_VAR_STRING | FIELD_TYPE_TINY_BLOB | FIELD_TYPE_MEDIUM_BLOB
  | FIELD_TYPE_LONG_BLOB | FIELD_TYPE_BLOB | FIELD_TYPE_FLOAT | FIELD_TYPE_DOUBLE | FIELD_TYPE_OTHER nat

type_synonym row = "byte list option list"

record result_set =
  rs_fields :: "(byte list \<times> field_type) list option"
  rs_rows :: "row list"

text \<open>
  \<open>my_escape\<close> is the text that \<open>mysql_real_escape_string\<close> writes, without the NUL behind it. \<open>my_atof\<close>
  and \<open>my_atoi\<close> are the C library functions. \<open>my_next\<close> is whether \<open>mysql_next_result\<close> returns 0.
\<close>

record 'w mysql_env =
  my_os :: "'w os"
  my_conv :: lua_conv
  my_init :: "'w \<Rightarrow> nat option \<times> 'w"
  my_connect :: "nat option \<Rightarrow> byte list \<Rightarrow> byte list \<Rightarrow> byte list \<Rightarrow> byte list \<Rightarrow> 'w \<Rightarrow> nat option \<times> 'w"
  my_query :: "nat \<Rightarrow> byte list \<Rightarrow> 'w \<Rightarrow> int \<times> 'w"
  my_error :: "nat \<Rightarrow> 'w \<Rightarrow> byte list"
  my_affected :: "nat option \<Rightarrow> 'w \<Rightarrow> int"
  my_store :: "nat \<Rightarrow> 'w \<Rightarrow> result_set option \<times> 'w"
  my_next :: "nat \<Rightarrow> 'w \<Rightarrow> bool \<times> 'w"
  my_escape :: "nat \<Rightarrow> byte list \<Rightarrow> byte list"
  my_close :: "nat \<Rightarrow> 'w \<Rightarrow> 'w"
  my_atof :: "byte list \<Rightarrow> dbl"
  my_atoi :: "byte list \<Rightarrow> int"

definition set_names :: "byte list" where
  "set_names = ascii ''set names utf8''"

section \<open>Connections and commands\<close>

text \<open>After a failure the handle of \<open>mysql_init\<close> is neither kept nor released.\<close>

definition lmysql_connect :: "'w mysql_env \<Rightarrow> lua list \<Rightarrow> 'w \<Rightarrow> (lua list \<times> 'w) option" where
  "lmysql_connect M as w =
     (if length as = 4 \<and> (\<forall>v \<in> set as. lua_isstring v)
      then do {
        host \<leftarrow> lua_tolstring (my_conv M) (arg_at as 1);
        dbname \<leftarrow> lua_tolstring (my_conv M) (arg_at as 2);
        user \<leftarrow> lua_tolstring (my_conv M) (arg_at as 3);
        passwd \<leftarrow> lua_tolstring (my_conv M) (arg_at as 4);
        let (conn, w) = my_init M w;
        let (conn, w) = my_connect M conn (c_str host) (c_str user) (c_str passwd) (c_str dbname) w;
        case conn of
          None \<Rightarrow> Some ([], w)
        | Some c \<Rightarrow> (let (_, w) = my_query M c set_names w in Some ([VOther (cv_light (my_conv M) c)], w))
      }
      else Some ([], w))"

definition lmysql_command :: "'w mysql_env \<Rightarrow> lua list \<Rightarrow> 'w \<Rightarrow> (lua list \<times> 'w) option" where
  "lmysql_command M as w =
     (if length as = 2 \<and> lua_isstring (arg_at as 2)
      then
        (case lua_touserdata (my_conv M) (arg_at as 1) of
           None \<Rightarrow> Some ([VBool False], w)
         | Some c \<Rightarrow> do {
             let (_, w) = my_query M c set_names w;
             s \<leftarrow> lua_tolstring (my_conv M) (arg_at as 2);
             let (r, w) = my_query M c (c_str s) w;
             Some (if r \<noteq> 0 then ([VBool False, VStr (my_error M c w)], w) else ([VBool True], w))
           })
      else Some ([VBool False], w))"

definition laffectedrows :: "'w mysql_env \<Rightarrow> lua list \<Rightarrow> 'w \<Rightarrow> lua list" where
  "laffectedrows M as w =
     (if length as = 1 then [VNum (d_int (my_affected M (lua_touserdata (my_conv M) (arg_at as 1)) w))] else [VNum (Fin 0)])"

definition lmysql_close :: "'w mysql_env \<Rightarrow> lua list \<Rightarrow> 'w \<Rightarrow> lua list \<times> 'w" where
  "lmysql_close M as w =
     (if length as = 1
      then (case lua_touserdata (my_conv M) (arg_at as 1) of None \<Rightarrow> ([], w) | Some c \<Rightarrow> ([VBool True], my_close M c w))
      else ([], w))"

section \<open>Rows\<close>

definition cell :: "'w mysql_env \<Rightarrow> field_type \<Rightarrow> byte list option \<Rightarrow> lua" where
  "cell M t v =
     (case v of
        None \<Rightarrow> VNil
      | Some s \<Rightarrow>
          if t \<in> {FIELD_TYPE_STRING, FIELD_TYPE_VAR_STRING, FIELD_TYPE_TINY_BLOB, FIELD_TYPE_MEDIUM_BLOB, FIELD_TYPE_LONG_BLOB, FIELD_TYPE_BLOB}
          then VStr s
          else if t \<in> {FIELD_TYPE_FLOAT, FIELD_TYPE_DOUBLE} then VNum (my_atof M (c_str s))
          else VNum (d_int (my_atoi M (c_str s))))"

text \<open>
  The loop over the fields; the table of the row is on the top of the stack, which is the part above
  the arguments, with \<open>ctop\<close> slots.
\<close>

fun push_cells :: "nat \<Rightarrow> 'w mysql_env \<Rightarrow> (byte list \<times> field_type) list \<Rightarrow> row \<Rightarrow> lua_stack \<Rightarrow> lua_stack option" where
  "push_cells ctop M [] row L = Some L"
| "push_cells ctop M (f # fs) [] L = None"
| "push_cells ctop M (f # fs) (v # row) L =
     Option.bind (lua_pushed ctop (cell M (snd f) v # VStr (fst f) # L)) (\<lambda>L.
       Option.bind (lua_settable L) (\<lambda>L. push_cells ctop M fs row L))"

text \<open>The index of the rows is an \<open>int\<close>; going past \<open>INT_MAX\<close> is undefined.\<close>

fun push_rows :: "nat \<Rightarrow> 'w mysql_env \<Rightarrow> (byte list \<times> field_type) list \<Rightarrow> int \<Rightarrow> row list \<Rightarrow> lua_stack \<Rightarrow> (int \<times> lua_stack) option" where
  "push_rows ctop M fs index [] L = Some (index, L)"
| "push_rows ctop M fs index (r # rs) L =
     Option.bind (lua_pushed ctop (VTable [] # VNum (d_int index) # L)) (\<lambda>L.
       if \<not> in_int (index + 1) then None
       else Option.bind (push_cells ctop M fs r L) (\<lambda>L.
         Option.bind (lua_settable L) (\<lambda>L. push_rows ctop M fs (index + 1) rs L)))"

text \<open>The loop over the result sets.\<close>

partial_function (option) result_loop ::
  "'w mysql_env \<Rightarrow> nat \<Rightarrow> int \<Rightarrow> result_set option \<Rightarrow> lua_stack \<Rightarrow> 'w \<Rightarrow> (lua_stack \<times> 'w) option" where
  "result_loop M c index res L w =
     (case res of
        None \<Rightarrow> Some (L, w)
      | Some rs \<Rightarrow>
          (case rs_fields rs of
             None \<Rightarrow> Some (L, w)
           | Some fs \<Rightarrow>
               Option.bind (push_rows LUA_MINSTACK M fs index (rs_rows rs) L) (\<lambda>(index, L).
                 let (more, w) = my_next M c w
                 in if more then (let (res, w) = my_store M c w in result_loop M c index res L w)
                    else result_loop M c index None L w)))"

definition lselect :: "'w mysql_env \<Rightarrow> lua list \<Rightarrow> 'w \<Rightarrow> (lua list \<times> 'w) option" where
  "lselect M as w =
     (if length as = 2 \<and> lua_isstring (arg_at as 2)
      then
        (case lua_touserdata (my_conv M) (arg_at as 1) of
           None \<Rightarrow> Some ([], w)
         | Some c \<Rightarrow> do {
             s \<leftarrow> lua_tolstring (my_conv M) (arg_at as 2);
             let (_, w) = my_query M c set_names w;
             let (_, w) = my_query M c (c_str s) w;
             let (res, w) = my_store M c w;
             case res of None \<Rightarrow> Some ([], w) | Some _ \<Rightarrow> result_loop M c 1 res [VTable []] w
           })
      else Some ([], w))"

section \<open>Escaping\<close>

text \<open>The static buffer.\<close>

record escape_state =
  escape_buf :: "block option"
  escape_buf_len :: nat

definition escape_init :: escape_state where
  "escape_init = \<lparr>escape_buf = None, escape_buf_len = 0\<rparr>"

text \<open>
  The buffer has two bytes for each character; the library writes the text and a NUL. A failed
  allocation leaves a null pointer and the length 0, or the old length where there was no buffer.
\<close>

definition lrealescapestring ::
  "'w mysql_env \<Rightarrow> lua list \<Rightarrow> escape_state \<Rightarrow> 'w \<Rightarrow> (lua list \<times> escape_state \<times> 'w) option" where
  "lrealescapestring M as e w =
     (if length as = 2
      then
        (case lua_touserdata (my_conv M) (arg_at as 1) of
           None \<Rightarrow> Some ([], e, w)
         | Some c \<Rightarrow>
             (let str = (case lua_tolstring (my_conv M) (arg_at as 2) of None \<Rightarrow> [] | Some s \<Rightarrow> s)
              in if str = [] then Some ([VStr []], e, w)
                 else do {
                   let (ok, e, w) =
                     (if escape_buf_len e < 2 * length str
                      then
                        (let (e, w) = (if escape_buf e \<noteq> None then (e\<lparr>escape_buf_len := 0\<rparr>, os_free (my_os M) w) else (e, w));
                             (ok, w) = os_malloc (my_os M) (2 * int (length str)) w
                         in if ok then (True, \<lparr>escape_buf = Some (replicate (2 * length str) 0), escape_buf_len = 2 * length str\<rparr>, w)
                            else (False, e\<lparr>escape_buf := None\<rparr>, w))
                      else (True, e, w));
                   if \<not> ok then Some ([], e, w)
                   else do {
                     buf \<leftarrow> escape_buf e;
                     buf \<leftarrow> mem_put buf 0 (my_escape M c str @ [0]);
                     Some ([VStr (my_escape M c str)], e\<lparr>escape_buf := Some buf\<rparr>, w)
                   }
                 }))
      else Some ([], e, w))"

end
