(* ===== verification/Lmysql_Spec.thy ===== *)
theory Lmysql_Spec
  imports Lmysql
begin

text \<open>The properties of the MySQL binding: the tables of a query and the buffer of the escape function.\<close>

section \<open>Queries\<close>

text \<open>The table of a row: a null value has no entry, of two columns with one name the later one counts.\<close>

definition row_table :: "'w mysql_env \<Rightarrow> (byte list \<times> field_type) list \<Rightarrow> row \<Rightarrow> lua" where
  "row_table M fs row = VTable (fold (\<lambda>(f, v). set_entry (VStr (fst f)) (cell M (snd f) v)) (zip fs row) [])"

definition row_entries :: "'w mysql_env \<Rightarrow> (byte list \<times> field_type) list \<Rightarrow> nat \<Rightarrow> row list \<Rightarrow> (lua \<times> lua) list" where
  "row_entries M fs k rs = zip (map (\<lambda>i. VNum (Fin (of_nat i))) [k..<k + length rs]) (map (row_table M fs) rs)"

lemma push_cells_law:
  "length fs \<le> length row \<Longrightarrow> length L + 3 \<le> ctop \<Longrightarrow> push_cells ctop M fs row (VTable acc # L)
     = Some (VTable (fold (\<lambda>(f, v). set_entry (VStr (fst f)) (cell M (snd f) v)) (zip fs row) acc) # L)"
  by (induction ctop M fs row "VTable acc # L" arbitrary: acc rule: push_cells.induct) auto

lemma row_entries_Cons: "row_entries M fs k (r # rs) = (VNum (Fin (of_nat k)), row_table M fs r) # row_entries M fs (Suc k) rs"
  by (simp add: row_entries_def upt_conv_Cons del: upt_Suc)

lemma push_rows_law:
  assumes "\<forall>r \<in> set rs. length fs \<le> length r" "int (k + length rs) < 2 ^ 31" "length L + 5 \<le> ctop" "fst ` set pre \<subseteq> (\<lambda>i. VNum (Fin (of_nat i))) ` {..<k}"
  shows "push_rows ctop M fs (int k) rs (VTable pre # L) = Some (int (k + length rs), VTable (pre @ row_entries M fs k rs) # L)"
  using assms
proof (induction rs arbitrary: k pre)
  case (Cons r rs)
  let ?key = "VNum (Fin (of_nat k))" and ?row = "row_table M fs r"
  have key: "VNum (d_int (int k)) = ?key" using d_int_exact [of "int k"] Cons.prems(2) by simp
  have c: "push_cells ctop M fs r (VTable [] # ?key # VTable pre # L) = Some (?row # ?key # VTable pre # L)"
    using push_cells_law [of fs r "?key # VTable pre # L" ctop M "[]"] Cons.prems(1,3) by (simp add: row_table_def)
  have "?key \<notin> fst ` set pre" using Cons.prems(4) by fastforce
  then have new: "set_entry ?key ?row pre = pre @ [(?key, ?row)]" by (rule set_entry_new) (simp add: row_table_def)
  have "fst ` set (pre @ [(?key, ?row)]) \<subseteq> (\<lambda>i. VNum (Fin (of_nat i))) ` {..<Suc k}"
    using Cons.prems(4) by (auto simp: lessThan_Suc)
  then have "push_rows ctop M fs (int (Suc k)) rs (VTable (pre @ [(?key, ?row)]) # L)
      = Some (int (Suc k + length rs), VTable ((pre @ [(?key, ?row)]) @ row_entries M fs (Suc k) rs) # L)"
    using Cons.prems(1,2,3) by (intro Cons.IH) auto
  moreover have "in_int (int k + 1)" using Cons.prems(2) by (simp add: in_int_def INT_MIN_def INT_MAX_def)
  ultimately show ?case using key c new Cons.prems(3) by (simp add: row_entries_Cons ac_simps)
qed (simp add: row_entries_def)

text \<open>C39: \<open>Mysql.select\<close> with a query that has one result set gives one table, in which the rows are numbered from one
  in their order and every row is a table from the names of the columns to the values: character data with all its
  bytes, other data as numbers, null as no entry. There are fewer than \<open>INT_MAX\<close> rows, which the index of type \<open>int\<close>
  can count.\<close>

theorem select_rows:
  assumes a: "as = [VOther u, VStr s]" "cv_userdata (my_conv M) u = Some (Some c)"
    and q: "my_query M c set_names w = (r1, w1)" "my_query M c (c_str s) w1 = (r2, w2)"
    and res: "my_store M c w2 = (Some \<lparr>rs_fields = Some fs, rs_rows = rs\<rparr>, w3)" "my_next M c w3 = (False, w4)"
    and n: "\<forall>r \<in> set rs. length r = length fs" "int (length rs) < INT_MAX"
  shows "lselect M as w = Some ([VTable (row_entries M fs 1 rs)], w4)"
proof -
  have "push_rows LUA_MINSTACK M fs (int 1) rs [VTable []] = Some (int (1 + length rs), [VTable ([] @ row_entries M fs 1 rs)])"
    by (rule push_rows_law) (use n in \<open>auto simp: LUA_MINSTACK_def INT_MAX_def\<close>)
  then have "result_loop M c 1 (Some \<lparr>rs_fields = Some fs, rs_rows = rs\<rparr>) [VTable []] w3 = Some ([VTable (row_entries M fs 1 rs)], w4)"
    using res(2) by (subst result_loop.simps) (simp, subst result_loop.simps, simp)
  then show ?thesis using a q res(1) by (simp add: lselect_def arg_at_def lua_isstring_def lua_touserdata_def lua_tolstring_def)
qed

definition table_env :: "unit mysql_env" where
  "table_env = \<lparr>my_os = \<lparr>os_malloc = (\<lambda>n w. (True, w)), os_free = (\<lambda>w. w), os_junk = (\<lambda>w i. 7), os_time = (\<lambda>w. (0, w)),
       os_gettimeofday = (\<lambda>w. ((0, 0), w)), os_select = (\<lambda>n r s tv w. ((- 1, r, s), w)), os_epoll_create = (\<lambda>w. (- 1, w)),
       os_epoll_ctl = (\<lambda>ep op fd e w. (- 1, w)), os_epoll_wait = (\<lambda>ep n t w. ((- 1, []), w)), os_poll = (\<lambda>fd e t w. ((0, e), w)),
       os_close = (\<lambda>fd w. w)\<rparr>,
     my_conv = \<lparr>cv_userdata = (\<lambda>n. Some (Some n)), cv_light = (\<lambda>n. n), cv_numstr = (\<lambda>d. []), cv_strnum = (\<lambda>s. None)\<rparr>,
     my_init = (\<lambda>w. (Some 1, w)), my_connect = (\<lambda>c h u p d w. (c, w)), my_query = (\<lambda>c q w. (0, w)), my_error = (\<lambda>c w. []),
     my_affected = (\<lambda>c w. 0),
     my_store = (\<lambda>c w. (Some \<lparr>rs_fields = Some [([105], FIELD_TYPE_OTHER 3), ([110], FIELD_TYPE_STRING)],
                              rs_rows = [[Some [55], Some [120]], [Some [56], None]]\<rparr>, w)),
     my_next = (\<lambda>c w. (False, w)), my_escape = (\<lambda>c s. concat (map (\<lambda>x. if x = 39 then [92, 39] else [x]) s)), my_close = (\<lambda>c w. w),
     my_atof = (\<lambda>s. Fin 0), my_atoi = (\<lambda>s. digs_val 0 s)\<rparr>"

text \<open>Witness: two rows, the second with a null value.\<close>

theorem select_rows_witness:
  "lselect table_env [VOther 1, VStr [113]] () =
     Some ([VTable [(VNum (Fin 1), VTable [(VStr [105], VNum (d_int (digs_val 0 [55]))), (VStr [110], VStr [120])]),
                    (VNum (Fin 2), VTable [(VStr [105], VNum (d_int (digs_val 0 [56])))])]], ())"
  using select_rows [of "[VOther 1, VStr [113]]" 1 "[113]" table_env 1 "()" 0 "()" 0 "()"
      "[([105], FIELD_TYPE_OTHER 3), ([110], FIELD_TYPE_STRING)]" "[[Some [55], Some [120]], [Some [56], None]]" "()" "()"]
  by (simp add: table_env_def row_entries_def row_table_def cell_def c_str_def upt_rec INT_MAX_def)

section \<open>Escaping\<close>

definition escape_ok :: "escape_state \<Rightarrow> bool" where
  "escape_ok e \<longleftrightarrow> (case escape_buf e of None \<Rightarrow> escape_buf_len e = 0 | Some b \<Rightarrow> length b = escape_buf_len e)"

text \<open>\<open>Mysql.escape\<close> returns the escaped text exactly when it is shorter than the buffer, which has twice the length
  of the longest string so far: when every character is escaped, in the first call or in a call that enlarges the
  buffer, the NUL is written behind its end.\<close>

theorem escape_bounds:
  assumes a: "as = [VOther u, VStr s]" "cv_userdata (my_conv M) u = Some (Some c)" "s \<noteq> []" and e: "escape_ok e"
    and mem: "\<forall>n w. fst (os_malloc (my_os M) n w)"
  shows "if length (my_escape M c s) < max (escape_buf_len e) (2 * length s)
    then \<exists>e' w'. lrealescapestring M as e w = Some ([VStr (my_escape M c s)], e', w') \<and> escape_ok e'
           \<and> escape_buf_len e' = max (escape_buf_len e) (2 * length s)
    else lrealescapestring M as e w = None"
proof -
  let ?x = "my_escape M c s"
  have arg: "length as = 2" "lua_touserdata (my_conv M) (arg_at as 1) = Some c" "lua_tolstring (my_conv M) (arg_at as 2) = Some s"
    using a by (simp_all add: arg_at_def lua_touserdata_def lua_tolstring_def)
  have put: "mem_put b 0 (?x @ [0]) = (if length ?x < length b then Some (?x @ 0 # drop (length ?x + 1) b) else None)" for b
    by (auto simp: mem_put_def)
  show ?thesis
  proof (cases "escape_buf_len e < 2 * length s")
    case True
    have "\<exists>w'. os_malloc (my_os M) n v = (True, w')" for n v using mem by (metis prod.collapse)
    then obtain w1 where w1: "os_malloc (my_os M) (2 * int (length s)) (if escape_buf e \<noteq> None then os_free (my_os M) w else w) = (True, w1)" by blast
    have "lrealescapestring M as e w = do { b \<leftarrow> mem_put (replicate (2 * length s) 0) 0 (?x @ [0]);
        Some ([VStr ?x], \<lparr>escape_buf = Some b, escape_buf_len = 2 * length s\<rparr>, w1) }"
      using True arg a(3) w1 by (cases "escape_buf e") (simp_all add: lrealescapestring_def)
    then show ?thesis using True by (simp add: put escape_ok_def max_def) arith
  next
    case False
    then obtain b where b: "escape_buf e = Some b" "length b = escape_buf_len e" using e a(3) by (auto simp: escape_ok_def split: option.splits)
    then have "lrealescapestring M as e w = do { b \<leftarrow> mem_put b 0 (?x @ [0]); Some ([VStr ?x], e\<lparr>escape_buf := Some b\<rparr>, w) }"
      using False arg a(3) by (simp add: lrealescapestring_def)
    then show ?thesis using False b by (simp add: put escape_ok_def max_def)
  qed
qed

text \<open>Witness: one quote, escaped in a new buffer of two bytes.\<close>

theorem escape_bounds_witness: "lrealescapestring table_env [VOther 1, VStr [39]] escape_init () = None"
  using escape_bounds [of "[VOther 1, VStr [39]]" 1 "[39]" table_env 1 escape_init "()"]
  by (simp add: table_env_def escape_init_def escape_ok_def)

end
