(* ===== verification/Lsys.thy ===== *)
theory Lsys
  imports Lua_Value Lua_Args
begin

text \<open>
  The Lua libraries for dates, processes and files: \<open>src/src/date/ldate.cc\<close>,
  \<open>src/src/system/lsystem.cc\<close> and \<open>src/src/file/lfile.cc\<close>. The system calls are functions of the
  world. The functions give the values they push; \<open>None\<close> is undefined behaviour.
\<close>

definition push_int :: "int \<Rightarrow> lua" where
  "push_int n = VNum (d_int n)"

section \<open>Dates\<close>

record dtm =
  dt_year :: int
  dt_mon :: int
  dt_mday :: int
  dt_yday :: int
  dt_wday :: int

text \<open>\<open>de_strftime\<close> gives no text when \<open>strftime\<close> returns 0.\<close>

record 'w date_env =
  de_time :: "'w \<Rightarrow> int \<times> 'w"
  de_gettimeofday :: "'w \<Rightarrow> (int \<times> int) \<times> 'w"
  de_localtime :: "int \<Rightarrow> dtm"
  de_strftime :: "nat \<Rightarrow> byte list \<Rightarrow> dtm \<Rightarrow> byte list option"

definition lmsectime :: "'w date_env \<Rightarrow> 'w \<Rightarrow> lua list \<times> 'w" where
  "lmsectime D w =
     (let ((sec, usec), w) = de_gettimeofday D w in ([push_int (c_long (sec * 1000 + usec sdiv 1000))], w))"

definition lgettimeofday :: "'w date_env \<Rightarrow> 'w \<Rightarrow> lua list \<times> 'w" where
  "lgettimeofday D w = (let ((sec, usec), w) = de_gettimeofday D w in ([push_int sec, push_int usec], w))"

text \<open>The time is converted to \<open>int\<close>.\<close>

definition date_ltime :: "'w date_env \<Rightarrow> 'w \<Rightarrow> lua list \<times> 'w" where
  "date_ltime D w = (let (t, w) = de_time D w in ([push_int (c_int t)], w))"

text \<open>The array of 32 characters is used also when \<open>strftime\<close> has not written to it.\<close>

definition lstrftime :: "'w date_env \<Rightarrow> lua_args \<Rightarrow> lua list option" where
  "lstrftime D a =
     (if gettop a = 2 \<and> is_string (arg a 1) \<and> is_number (arg a 2)
      then do {
        fmt \<leftarrow> to_cstring (arg a 1);
        s \<leftarrow> de_strftime D 32 fmt (de_localtime D (to_number (arg a 2)));
        Some [VStr s]
      }
      else Some [])"

definition date_test :: "(dtm \<Rightarrow> dtm \<Rightarrow> bool) \<Rightarrow> 'w date_env \<Rightarrow> lua_args \<Rightarrow> 'w \<Rightarrow> lua list \<times> 'w" where
  "date_test same D a w =
     (if gettop a = 1 \<and> is_number (arg a 1)
      then (let (t2, w) = de_time D w
            in ([VBool (same (de_localtime D (to_number (arg a 1))) (de_localtime D t2))], w))
      else ([], w))"

definition same_day :: "dtm \<Rightarrow> dtm \<Rightarrow> bool" where
  "same_day tm1 tm2 \<longleftrightarrow> dt_year tm1 = dt_year tm2 \<and> dt_mon tm1 = dt_mon tm2 \<and> dt_mday tm1 = dt_mday tm2"

definition same_month :: "dtm \<Rightarrow> dtm \<Rightarrow> bool" where
  "same_month tm1 tm2 \<longleftrightarrow> dt_year tm1 = dt_year tm2 \<and> dt_mon tm1 = dt_mon tm2"

definition same_week :: "dtm \<Rightarrow> dtm \<Rightarrow> bool" where
  "same_week tm1 tm2 =
     (if dt_year tm1 \<noteq> dt_year tm2 then False
      else if dt_yday tm1 = dt_yday tm2 then True
      else if dt_yday tm2 < dt_yday tm1 \<and> dt_yday tm1 - dt_yday tm2 \<le> dt_wday tm1 then True
      else if dt_yday tm1 < dt_yday tm2 \<and> dt_yday tm2 - dt_yday tm1 \<le> 6 - dt_wday tm1 then True
      else False)"

definition lissameday :: "'w date_env \<Rightarrow> lua_args \<Rightarrow> 'w \<Rightarrow> lua list \<times> 'w" where
  "lissameday = date_test same_day"

definition lissamemonth :: "'w date_env \<Rightarrow> lua_args \<Rightarrow> 'w \<Rightarrow> lua list \<times> 'w" where
  "lissamemonth = date_test same_month"

definition lissameweek :: "'w date_env \<Rightarrow> lua_args \<Rightarrow> 'w \<Rightarrow> lua list \<times> 'w" where
  "lissameweek = date_test same_week"

section \<open>Processes\<close>

text \<open>\<open>sy_waitpid\<close> takes the process, the status before the call and the options.\<close>

record 'w sys_env =
  sy_fork :: "'w \<Rightarrow> int \<times> 'w"
  sy_getpid :: "'w \<Rightarrow> int"
  sy_setsid :: "'w \<Rightarrow> int \<times> 'w"
  sy_time :: "'w \<Rightarrow> int \<times> 'w"
  sy_nanosleep :: "int \<Rightarrow> int \<Rightarrow> 'w \<Rightarrow> 'w"
  sy_sleep :: "int \<Rightarrow> 'w \<Rightarrow> int \<times> 'w"
  sy_waitpid :: "int \<Rightarrow> int \<Rightarrow> int \<Rightarrow> 'w \<Rightarrow> (int \<times> int) \<times> 'w"
  sy_errno :: "'w \<Rightarrow> int"
  sy_strerror :: "int \<Rightarrow> byte list"
  sy_close :: "int \<Rightarrow> 'w \<Rightarrow> int \<times> 'w"

definition lfork :: "'w sys_env \<Rightarrow> 'w \<Rightarrow> lua list \<times> 'w" where
  "lfork Y w = (let (r, w) = sy_fork Y w in ([push_int r], w))"

definition lgetpid :: "'w sys_env \<Rightarrow> 'w \<Rightarrow> lua list \<times> 'w" where
  "lgetpid Y w = ([push_int (sy_getpid Y w)], w)"

definition lsetsid :: "'w sys_env \<Rightarrow> 'w \<Rightarrow> lua list \<times> 'w" where
  "lsetsid Y w = (let (r, w) = sy_setsid Y w in ([push_int r], w))"

definition sys_ltime :: "'w sys_env \<Rightarrow> 'w \<Rightarrow> lua list \<times> 'w" where
  "sys_ltime Y w = (let (t, w) = sy_time Y w in ([push_int (c_int t)], w))"

definition lsleepmsec :: "'w sys_env \<Rightarrow> lua_args \<Rightarrow> 'w \<Rightarrow> lua list \<times> 'w" where
  "lsleepmsec Y a w =
     (if gettop a = 1 \<and> is_number (arg a 1)
      then (let t = c_int (to_number (arg a 1))
            in ([], sy_nanosleep Y (t sdiv 1000) (t smod 1000 * 1000000) w))
      else ([], w))"

definition lsleep :: "'w sys_env \<Rightarrow> lua_args \<Rightarrow> 'w \<Rightarrow> lua list \<times> 'w" where
  "lsleep Y a w = (let (r, w) = sy_sleep Y (c_int (to_number (arg a 1))) w in ([push_int r], w))"

definition lwaitpid :: "'w sys_env \<Rightarrow> lua_args \<Rightarrow> 'w \<Rightarrow> lua list \<times> 'w" where
  "lwaitpid Y a w =
     (let ((pid, status), w) = sy_waitpid Y (c_int (to_number (arg a 1))) (c_int (to_number (arg a 2))) (c_int (to_number (arg a 3))) w
      in ([push_int pid, push_int status], w))"

definition lstrerror :: "'w sys_env \<Rightarrow> 'w \<Rightarrow> lua list" where
  "lstrerror Y w = [VStr (sy_strerror Y (sy_errno Y w))]"

definition lerrno :: "'w sys_env \<Rightarrow> 'w \<Rightarrow> lua list" where
  "lerrno Y w = [push_int (sy_errno Y w)]"

definition sys_lclose :: "'w sys_env \<Rightarrow> lua_args \<Rightarrow> 'w \<Rightarrow> lua list \<times> 'w" where
  "sys_lclose Y a w = (let (r, w) = sy_close Y (c_int (to_number (arg a 1))) w in ([push_int r], w))"

text \<open>
  The loop of \<open>lcmd\<close> that splits the command: \<open>i\<close> is the position, \<open>k\<close> the number of characters left,
  \<open>argv\<close> the offsets written so far. The array has 128 entries.
\<close>

fun split_args :: "nat \<Rightarrow> nat \<Rightarrow> bool \<Rightarrow> block \<Rightarrow> nat list \<Rightarrow> (block \<times> nat list) option" where
  "split_args i 0 need_blank buf argv = Some (buf, argv)"
| "split_args i (Suc k) need_blank buf argv =
     (if \<not> i < length buf then None
      else if \<not> need_blank \<and> buf ! i \<noteq> 32
      then (if length argv < 128 then split_args (Suc i) k True buf (argv @ [i]) else None)
      else if need_blank \<and> buf ! i = 32 then split_args (Suc i) k False (buf[i := 0]) argv
      else split_args (Suc i) k need_blank buf argv)"

definition string_at :: "block \<Rightarrow> nat \<Rightarrow> byte list option" where
  "string_at b p = (if 0 \<in> set (drop p b) then Some (takeWhile (\<lambda>c. c \<noteq> 0) (drop p b)) else None)"

text \<open>The strings \<open>execvp\<close> reads: the file and the vector.\<close>

definition exec_args :: "block \<Rightarrow> nat list \<Rightarrow> (byte list \<times> byte list list) option" where
  "exec_args buf argv =
     do {
       cmd \<leftarrow> string_at buf 0;
       if \<forall>p \<in> set argv. string_at buf p \<noteq> None then Some (cmd, map (\<lambda>p. the (string_at buf p)) argv) else None
     }"

text \<open>
  \<open>Inl\<close>: the child, which does not return, with what it executes. \<open>Inr\<close>: the parent. \<open>junk\<close> is what
  the array of 256 characters holds before.
\<close>

definition lcmd :: "'w sys_env \<Rightarrow> block \<Rightarrow> lua_args \<Rightarrow> 'w \<Rightarrow> ((byte list \<times> byte list list) + (lua list \<times> 'w)) option" where
  "lcmd Y junk a w =
     (if is_string (arg a 1)
      then do {
        str \<leftarrow> to_cstring (arg a 1);
        buf \<leftarrow> mem_put junk 0 (str @ [0]);
        (buf, argv) \<leftarrow> split_args 0 (length str) False buf [];
        if \<not> length argv < 128 then None
        else do {
          let (pid, w) = sy_fork Y w;
          if pid = 0 then do { e \<leftarrow> exec_args buf argv; Some (Inl e) }
          else if pid < 0 then Some (Inr ([VBool True], w))
          else (let (r, w) = sy_waitpid Y pid 0 0 w in Some (Inr ([VBool True], w)))
        }
      }
      else Some (Inr ([], w)))"

section \<open>Files\<close>

text \<open>An entry of a directory is its type and its name.\<close>

record 'w file_env =
  fi_getcwd :: "nat \<Rightarrow> 'w \<Rightarrow> byte list option"
  fi_chdir :: "byte list \<Rightarrow> 'w \<Rightarrow> int \<times> 'w"
  fi_access :: "byte list \<Rightarrow> int \<Rightarrow> 'w \<Rightarrow> int"
  fi_mkdir :: "byte list \<Rightarrow> int \<Rightarrow> 'w \<Rightarrow> int \<times> 'w"
  fi_remove :: "byte list \<Rightarrow> 'w \<Rightarrow> int \<times> 'w"
  fi_rename :: "byte list \<Rightarrow> byte list \<Rightarrow> 'w \<Rightarrow> int \<times> 'w"
  fi_opendir :: "byte list \<Rightarrow> 'w \<Rightarrow> (mask \<times> byte list) list option"

text \<open>A directory with a name of 128 characters or more leaves the empty string.\<close>

definition lgetcwd :: "'w file_env \<Rightarrow> 'w \<Rightarrow> lua list" where
  "lgetcwd F w = [VStr (case fi_getcwd F 128 w of None \<Rightarrow> [] | Some s \<Rightarrow> s)]"

definition lchdir :: "'w file_env \<Rightarrow> lua_args \<Rightarrow> 'w \<Rightarrow> (lua list \<times> 'w) option" where
  "lchdir F a w = do { d \<leftarrow> to_cstring (arg a 1); let (r, w) = fi_chdir F d w; Some ([push_int r], w) }"

definition ensure_dir :: "'w file_env \<Rightarrow> byte list \<Rightarrow> 'w \<Rightarrow> 'w" where
  "ensure_dir F d w = (if fi_access F d 0 w \<noteq> 0 then snd (fi_mkdir F d 511 w) else w)"

fun mkdirs_loop :: "'w file_env \<Rightarrow> byte list \<Rightarrow> nat \<Rightarrow> nat \<Rightarrow> 'w \<Rightarrow> 'w" where
  "mkdirs_loop F dir i 0 w = w"
| "mkdirs_loop F dir i (Suc k) w =
     mkdirs_loop F dir (Suc i) k (if dir ! i = 47 then ensure_dir F (c_str (take i dir)) w else w)"

text \<open>\<open>dir\<close> are the bytes of the argument.\<close>

definition lmkdirs :: "'w file_env \<Rightarrow> lua_args \<Rightarrow> byte list \<Rightarrow> 'w \<Rightarrow> lua list \<times> 'w" where
  "lmkdirs F a dir w =
     (if gettop a = 1 \<and> is_string (arg a 1)
      then ([VBool True], ensure_dir F (c_str dir) (mkdirs_loop F dir 0 (length dir) w))
      else ([], w))"

definition lmkdir :: "'w file_env \<Rightarrow> lua_args \<Rightarrow> 'w \<Rightarrow> (lua list \<times> 'w) option" where
  "lmkdir F a w =
     (if gettop a = 1 \<and> is_string (arg a 1)
      then do { d \<leftarrow> to_cstring (arg a 1); let (r, w) = fi_mkdir F d 511 w; Some (if r = 0 then [VBool True] else [], w) }
      else Some ([], w))"

definition lexists :: "'w file_env \<Rightarrow> lua_args \<Rightarrow> 'w \<Rightarrow> lua list option" where
  "lexists F a w =
     do { d \<leftarrow> to_cstring (arg a 1);
          Some (if fi_access F d (c_int (to_number (arg a 2))) w = 0 then [VBool True] else []) }"

definition lremove :: "'w file_env \<Rightarrow> lua_args \<Rightarrow> 'w \<Rightarrow> (lua list \<times> 'w) option" where
  "lremove F a w =
     do { f \<leftarrow> to_cstring (arg a 1); let (r, w) = fi_remove F f w; Some (if r = 0 then [VBool True] else [], w) }"

definition file_lrename :: "'w file_env \<Rightarrow> lua_args \<Rightarrow> 'w \<Rightarrow> (lua list \<times> 'w) option" where
  "file_lrename F a w =
     do { s \<leftarrow> to_cstring (arg a 1); d \<leftarrow> to_cstring (arg a 2); let (r, w) = fi_rename F s d w; Some ([push_int r], w) }"

text \<open>The last position of a character, searched from the end: the first \<open>k\<close> positions are left.\<close>

fun last_pos :: "byte \<Rightarrow> byte list \<Rightarrow> nat \<Rightarrow> nat option" where
  "last_pos c s 0 = None"
| "last_pos c s (Suc k) = (if s ! k = c then Some k else last_pos c s k)"

definition lbasename :: "byte list \<Rightarrow> lua list" where
  "lbasename name =
     (let startpos = (case last_pos 47 name (length name) of None \<Rightarrow> 0 | Some i \<Rightarrow> int i + 1);
          endpos = (case last_pos 46 name (length name) of None \<Rightarrow> int (length name) - 1 | Some i \<Rightarrow> int i - 1)
      in if endpos < startpos then [VStr []]
         else [VStr (take (nat (endpos - startpos + 1)) (drop (nat startpos) name))])"

definition DT_DIR :: mask where "DT_DIR = 4"
definition DT_REG :: mask where "DT_REG = 8"

text \<open>The loop over the entries; the table is on the top of the stack, which has \<open>ctop\<close> slots above the arguments.\<close>

fun list_loop :: "nat \<Rightarrow> int \<Rightarrow> (mask \<times> byte list) list \<Rightarrow> lua_stack \<Rightarrow> lua_stack option" where
  "list_loop ctop idx [] L = Some L"
| "list_loop ctop idx ((ty, name) # es) L =
     (if ty AND DT_DIR \<noteq> 0 \<or> ty AND DT_REG \<noteq> 0
      then (if name = ascii ''.'' \<or> name = ascii ''..'' then list_loop ctop idx es L
            else if \<not> in_int (idx + 1) then None
            else
              Option.bind (Option.bind (lua_pushed ctop ((if ty AND DT_DIR \<noteq> 0 then VStr (ascii ''dir'') else VStr (ascii ''file''))
                            # VStr (ascii ''type'') # VTable [] # push_int idx # L)) lua_settable) (\<lambda>L.
                Option.bind (Option.bind (lua_pushed ctop (VStr name # VStr (ascii ''name'') # L)) lua_settable) (\<lambda>L.
                  Option.bind (lua_settable L) (\<lambda>L. list_loop ctop (idx + 1) es L))))
      else list_loop ctop idx es L)"

definition llistdir :: "'w file_env \<Rightarrow> lua_args \<Rightarrow> 'w \<Rightarrow> lua list option" where
  "llistdir F a w =
     (if gettop a = 1 \<and> is_string (arg a 1)
      then do {
        d \<leftarrow> to_cstring (arg a 1);
        case fi_opendir F d w of None \<Rightarrow> Some [] | Some es \<Rightarrow> list_loop LUA_MINSTACK 1 es [VTable []]
      }
      else Some [])"

end
