(* ===== verification/Lsys_Spec.thy ===== *)
theory Lsys_Spec
  imports Lsys
begin

text \<open>The properties of the libraries for dates, processes and files.\<close>

section \<open>Weeks\<close>

text \<open>
  The documented relation between the fields of \<open>localtime\<close>: \<open>day\<close> counts the local days from
  1970-01-01, a Thursday, and \<open>first y\<close> is the day on which a year starts.
\<close>

definition calendar :: "(int \<Rightarrow> dtm) \<Rightarrow> (int \<Rightarrow> int) \<Rightarrow> (int \<Rightarrow> int) \<Rightarrow> bool" where
  "calendar local day first \<longleftrightarrow>
     (\<forall>t. dt_wday (local t) = (day t + 4) mod 7 \<and> dt_yday (local t) = day t - first (dt_year (local t)))"

text \<open>The week of a day, from Sunday to Saturday.\<close>

definition week :: "int \<Rightarrow> int" where
  "week d = (d + 4) div 7"

lemma same_week_days:
  assumes "dt_wday a = (d + 4) mod 7" "dt_year a = dt_year b" "dt_yday a = d - f" "dt_yday b = e - f"
  shows "same_week a b \<longleftrightarrow> week d = week e"
proof -
  have "same_week a b \<longleftrightarrow> d = e \<or> e < d \<and> d - e \<le> (d + 4) mod 7 \<or> d < e \<and> e - d \<le> 6 - (d + 4) mod 7"
    using assms by (auto simp: same_week_def)
  also have "\<dots> \<longleftrightarrow> week d = week e"
  proof -
    define q r q' r' where qr: "q = (d + 4) div 7" "r = (d + 4) mod 7" "q' = (e + 4) div 7" "r' = (e + 4) mod 7"
    have "d + 4 = 7 * q + r" "e + 4 = 7 * q' + r'" by (simp_all add: qr)
    moreover have "0 \<le> r" "r < 7" "0 \<le> r'" "r' < 7" by (simp_all add: qr)
    ultimately show ?thesis unfolding week_def qr [symmetric]
      by (cases "q = q'"; cases "q < q'") (auto; linarith)+
  qed
  finally show ?thesis .
qed

text \<open>\<open>Date.issameweek\<close> tells whether the time passed and the current time lie in the same week from Sunday to
  Saturday, and in the same year: in the week of the turn of the year the answer is false on different
  sides of it.\<close>

theorem same_week_exact:
  assumes "calendar (de_localtime D) day first" "gettop a = 1" "is_number (arg a 1)" "de_time D w = (now, w')"
  shows "lissameweek D a w =
    ([VBool (dt_year (de_localtime D (to_number (arg a 1))) = dt_year (de_localtime D now)
             \<and> week (day (to_number (arg a 1))) = week (day now))], w')"
proof -
  let ?a = "de_localtime D (to_number (arg a 1))" and ?b = "de_localtime D now"
  have "same_week ?a ?b \<longleftrightarrow> dt_year ?a = dt_year ?b \<and> week (day (to_number (arg a 1))) = week (day now)"
  proof (cases "dt_year ?a = dt_year ?b")
    case True
    have "same_week ?a ?b \<longleftrightarrow> week (day (to_number (arg a 1))) = week (day now)"
      by (rule same_week_days [where f = "first (dt_year ?a)"]) (use assms(1) True in \<open>auto simp: calendar_def\<close>)
    then show ?thesis using True by simp
  qed (simp add: same_week_def)
  then show ?thesis using assms by (simp add: lissameweek_def date_test_def)
qed

text \<open>A calendar without leap years, for the witness.\<close>

definition plain_local :: "int \<Rightarrow> dtm" where
  "plain_local t = (let d = t div 86400 in
     \<lparr>dt_year = d div 365, dt_mon = 0, dt_mday = 0, dt_yday = d - d div 365 * 365, dt_wday = (d + 4) mod 7\<rparr>)"

definition plain_dates :: "int date_env" where
  "plain_dates = \<lparr>de_time = (\<lambda>w. (w, w)), de_gettimeofday = (\<lambda>w. ((w, 0), w)), de_localtime = plain_local, de_strftime = (\<lambda>n f d. None)\<rparr>"

definition one_number :: "int \<Rightarrow> lua_args" where
  "one_number n = \<lparr>gettop = 1, arg = (\<lambda>_. \<lparr>is_number = True, to_number = n, is_string = True, to_cstring = Some [],
     is_userdata = False, to_userdata = None\<rparr>)\<rparr>"

text \<open>Witness: days 3 and 6 are in one week.\<close>

theorem same_week_exact_witness: "lissameweek plain_dates (one_number 259200) 518400 = ([VBool True], 518400)"
  using same_week_exact [of plain_dates "\<lambda>t. t div 86400" "\<lambda>y. y * 365" "one_number 259200" 518400 518400 518400]
  by (simp add: calendar_def plain_dates_def plain_local_def one_number_def Let_def week_def)

section \<open>Commands\<close>

text \<open>The words of a command.\<close>

function words :: "byte list \<Rightarrow> byte list list" where
  "words s =
     (let t = dropWhile (\<lambda>c. c = 32) s
      in if t = [] then [] else takeWhile (\<lambda>c. c \<noteq> 32) t # words (dropWhile (\<lambda>c. c \<noteq> 32) t))"
  by pat_completeness auto
termination
proof (relation "measure length")
  fix s t :: "byte list"
  assume t: "t = dropWhile (\<lambda>c. c = 32) s" "t \<noteq> []"
  then have "hd t \<noteq> 32" using hd_dropWhile [of "\<lambda>c. c = 32" s] by simp
  then have "length (dropWhile (\<lambda>c. c \<noteq> 32) t) < length t" using t(2) by (cases t) (auto simp: less_Suc_eq_le length_dropWhile_le)
  also have "\<dots> \<le> length s" using t(1) by (simp add: length_dropWhile_le)
  finally show "(dropWhile (\<lambda>c. c \<noteq> 32) t, s) \<in> measure length" by simp
qed simp

declare words.simps [simp del]

lemma words_Nil: "words [] = []"
  by (simp add: words.simps)

lemma words_blank: "words (32 # s) = words s"
  by (subst (1 2) words.simps) simp

lemma words_word: "c \<noteq> 32 \<Longrightarrow> words (c # s) = (c # takeWhile (\<lambda>c. c \<noteq> 32) s) # words (dropWhile (\<lambda>c. c \<noteq> 32) s)"
  by (subst words.simps) simp

lemmas words_simps = words_Nil words_blank words_word

text \<open>What the loop makes of the characters, and where it finds words.\<close>

fun marked :: "bool \<Rightarrow> byte list \<Rightarrow> byte list" where
  "marked b [] = []"
| "marked b (c # s) = (if c = 32 then (if b then 0 else 32) # marked False s else c # marked True s)"

fun starts :: "bool \<Rightarrow> nat \<Rightarrow> byte list \<Rightarrow> nat list" where
  "starts b n [] = []"
| "starts b n (c # s) = (if c = 32 then starts False (Suc n) s else (if b then [] else [n]) @ starts True (Suc n) s)"

lemma split_args_law:
  "length argv + length (starts b (length p) s) \<le> 128 \<Longrightarrow>
   split_args (length p) (length s) b (p @ s @ r) argv = Some (p @ marked b s @ r, argv @ starts b (length p) s)"
proof (induction s arbitrary: p b argv)
  case (Cons c s)
  let ?p = "p @ [if c = 32 \<and> b then 0 else c]"
  have l: "length ?p = Suc (length p)" by simp
  have IH: "split_args (Suc (length p)) (length s) (c \<noteq> 32) (?p @ s @ r) argv'
      = Some (?p @ marked (c \<noteq> 32) s @ r, argv' @ starts (c \<noteq> 32) (Suc (length p)) s)"
    if "length argv' + length (starts (c \<noteq> 32) (Suc (length p)) s) \<le> 128" for argv'
    using Cons.IH [of argv' "c \<noteq> 32" ?p] that unfolding l by simp
  show ?case
    using Cons.prems IH [of argv] IH [of "argv @ [length p]"] by (cases b; cases "c = 32") simp_all
qed simp

lemma starts_shift: "starts b (n + m) s = map (\<lambda>p. p + m) (starts b n s)"
  by (induction b n s rule: starts.induct) (simp_all add: ac_simps)

lemma string_at_shift: "string_at (p @ b) (k + length p) = string_at b k"
  by (simp add: string_at_def)

lemma marked_word:
  "0 \<notin> set s \<Longrightarrow> takeWhile (\<lambda>c. c \<noteq> 0) (marked True s @ 0 # r) = takeWhile (\<lambda>c. c \<noteq> 32) s"
  by (induction s) auto

lemma strings_law:
  "0 \<notin> set s \<Longrightarrow> map (string_at (marked b s @ 0 # r)) (starts b 0 s)
     = map Some (words (if b then dropWhile (\<lambda>c. c \<noteq> 32) s else s))"
proof (induction s arbitrary: b)
  case (Cons c s)
  have z: "0 \<in> set (x @ 0 # r)" for x by simp
  have shift: "map (string_at (x # b)) (starts q (Suc 0) s) = map (string_at b) (starts q 0 s)" for x b q
    using starts_shift [of q 0 1 s] string_at_shift [of "[x]" b] by (simp add: comp_def)
  show ?case
  proof (cases "c = 32")
    case True
    then show ?thesis using Cons by (simp add: shift words_simps)
  next
    case False
    have "string_at (c # marked True s @ 0 # r) 0 = Some (c # takeWhile (\<lambda>c. c \<noteq> 32) s)"
      using Cons.prems marked_word [of s r] by (simp add: string_at_def)
    then show ?thesis using False Cons by (simp add: shift words_simps)
  qed
qed (simp add: words_simps)

lemma length_starts: "0 \<notin> set s \<Longrightarrow> length (starts False 0 s) = length (words s)"
  using arg_cong [OF strings_law [of s False "[]"], of length] by simp

text \<open>\<open>System.cmd\<close> with a command of less than 256 characters and less than 128 words that does not start with a
  blank writes inside its arrays, and the child executes the first word with all the words as its
  arguments; any number of blanks separates words.\<close>

theorem cmd_splits:
  assumes a: "is_string (arg a 1)" "to_cstring (arg a 1) = Some s" and s: "0 \<notin> set s" "s \<noteq> []" "hd s \<noteq> 32"
    and n: "length s < 256" "length (words s) < 128" "length junk = 256" and f: "sy_fork Y w = (0, w')"
  shows "lcmd Y junk a w = Some (Inl (hd (words s), words s))"
proof -
  let ?r = "drop (length s + 1) junk"
  let ?b = "marked False s @ 0 # ?r"
  have put: "mem_put junk 0 (s @ [0]) = Some (s @ 0 # ?r)" using n by (simp add: mem_put_def)
  have len: "length (starts False 0 s) < 128" using n(2) length_starts [OF s(1)] by simp
  have sp: "split_args 0 (length s) False (s @ 0 # ?r) [] = Some (?b, starts False 0 s)"
    using split_args_law [of "[]" False "[]" s "0 # ?r"] len by simp
  have st: "map (string_at ?b) (starts False 0 s) = map Some (words s)" using strings_law [OF s(1), of False ?r] by simp
  have "string_at ?b ` set (starts False 0 s) = Some ` set (words s)" using arg_cong [OF st, of set] by simp
  then have "\<forall>p \<in> set (starts False 0 s). string_at ?b p \<noteq> None" by blast
  moreover have "map (\<lambda>p. the (string_at ?b p)) (starts False 0 s) = words s"
    using arg_cong [OF st, of "map the"] by (simp add: comp_def)
  moreover have "string_at ?b 0 = Some (hd (words s))"
    using st s(2,3) by (cases s) (auto simp: words_simps)
  ultimately have "exec_args ?b (starts False 0 s) = Some (hd (words s), words s)" by (simp add: exec_args_def)
  then show ?thesis using a put sp len f by (simp add: lcmd_def)
qed

definition child_sys :: "nat sys_env" where
  "child_sys = \<lparr>sy_fork = (\<lambda>w. (0, w)), sy_getpid = (\<lambda>w. 2), sy_setsid = (\<lambda>w. (2, w)), sy_time = (\<lambda>w. (0, w)),
     sy_nanosleep = (\<lambda>s n w. w), sy_sleep = (\<lambda>s w. (0, w)), sy_waitpid = (\<lambda>p s opts w. ((p, 0), w)), sy_errno = (\<lambda>w. 0),
     sy_strerror = (\<lambda>n. []), sy_close = (\<lambda>fd w. (0, w))\<rparr>"

definition one_string :: "byte list \<Rightarrow> lua_args" where
  "one_string s = \<lparr>gettop = 1, arg = (\<lambda>_. \<lparr>is_number = False, to_number = 0, is_string = True, to_cstring = Some s,
     is_userdata = False, to_userdata = None\<rparr>)\<rparr>"

text \<open>Witness: two words with two blanks between them and one behind.\<close>

theorem cmd_splits_witness:
  "lcmd child_sys (replicate 256 7) (one_string [108, 115, 32, 32, 120, 32]) 0 = Some (Inl ([108, 115], [[108, 115], [120]]))"
  using cmd_splits [of "one_string [108, 115, 32, 32, 120, 32]" "[108, 115, 32, 32, 120, 32]" "replicate 256 7" child_sys 0 0]
  by (simp add: one_string_def child_sys_def words_simps)

text \<open>With blanks in front the file that is executed is the first word with the blanks.\<close>

theorem cmd_leading_blank:
  assumes a: "is_string (arg a 1)" "to_cstring (arg a 1) = Some (32 # s)" and s: "0 \<notin> set s" "s \<noteq> []" "hd s \<noteq> 32"
    and n: "length s < 255" "length (words s) < 128" "length junk = 256" and f: "sy_fork Y w = (0, w')"
  shows "lcmd Y junk a w = Some (Inl (32 # hd (words s), words s))"
proof -
  let ?s = "32 # s" let ?r = "drop (length ?s + 1) junk"
  let ?b = "marked False ?s @ 0 # ?r"
  have z: "0 \<notin> set ?s" using s(1) by simp
  have put: "mem_put junk 0 (?s @ [0]) = Some (?s @ 0 # ?r)" using n by (simp add: mem_put_def)
  have w: "words ?s = words s" by (simp add: words_simps)
  have len: "length (starts False 0 ?s) < 128" using n(2) length_starts [OF z] w by simp
  have sp: "split_args 0 (length ?s) False (?s @ 0 # ?r) [] = Some (?b, starts False 0 ?s)"
    using split_args_law [of "[]" False "[]" ?s "0 # ?r"] len by simp
  have st: "map (string_at ?b) (starts False 0 ?s) = map Some (words s)" using strings_law [OF z, of False ?r] w by simp
  have "string_at ?b ` set (starts False 0 ?s) = Some ` set (words s)" using arg_cong [OF st, of set] by simp
  then have "\<forall>p \<in> set (starts False 0 ?s). string_at ?b p \<noteq> None" by blast
  moreover have "map (\<lambda>p. the (string_at ?b p)) (starts False 0 ?s) = words s"
    using arg_cong [OF st, of "map the"] by (simp add: comp_def)
  moreover have "string_at ?b 0 = Some (32 # hd (words s))"
    using s marked_word [of "tl s" ?r] by (cases s) (auto simp: words_simps string_at_def)
  ultimately have "exec_args ?b (starts False 0 ?s) = Some (32 # hd (words s), words s)" by (simp add: exec_args_def)
  then show ?thesis using a put sp len f by (simp add: lcmd_def)
qed

section \<open>Directories\<close>

text \<open>The part of a path before its last slash.\<close>

definition parent :: "byte list \<Rightarrow> byte list" where
  "parent d = rev (drop 1 (dropWhile (\<lambda>c. c \<noteq> 47) (rev d)))"

text \<open>
  What is needed of the file system: \<open>access\<close> finds what exists, and \<open>mkdir\<close> adds a directory when
  the one above it exists, and changes nothing else.
\<close>

definition file_system :: "'w file_env \<Rightarrow> ('w \<Rightarrow> byte list \<Rightarrow> bool) \<Rightarrow> bool" where
  "file_system F has \<longleftrightarrow>
     (\<forall>d w. fi_access F d 0 w = 0 \<longleftrightarrow> has w d)
     \<and> (\<forall>d m w q. has (snd (fi_mkdir F d m w)) q \<longleftrightarrow> has w q \<or> q = d \<and> d \<noteq> [] \<and> (parent d = [] \<or> has w (parent d)))"

lemma parent_prefix: "parent d = [] \<or> (\<exists>r. d = parent d @ 47 # r)"
proof (cases "dropWhile (\<lambda>c. c \<noteq> 47) (rev d)")
  case Nil
  then show ?thesis unfolding parent_def Nil by simp
next
  case (Cons c x)
  then have "c = 47" using hd_dropWhile [of "\<lambda>c. c \<noteq> 47" "rev d"] by simp
  moreover have "rev d = takeWhile (\<lambda>c. c \<noteq> 47) (rev d) @ c # x" using takeWhile_dropWhile_id [of "\<lambda>c. c \<noteq> 47" "rev d"] Cons by simp
  then have "d = rev x @ c # rev (takeWhile (\<lambda>c. c \<noteq> 47) (rev d))" by (metis append.assoc append_Cons append_Nil rev.simps(2) rev_append rev_rev_ident)
  ultimately show ?thesis using Cons by (auto simp: parent_def)
qed

lemma ensure_dir_keeps: "file_system F has \<Longrightarrow> has w q \<Longrightarrow> has (ensure_dir F d w) q"
  by (auto simp: file_system_def ensure_dir_def)

lemma ensure_dir_makes:
  "file_system F has \<Longrightarrow> d \<noteq> [] \<Longrightarrow> parent d = [] \<or> has w (parent d) \<Longrightarrow> has (ensure_dir F d w) d"
  by (auto simp: file_system_def ensure_dir_def)

text \<open>The directories above position \<open>i\<close> of a path.\<close>

definition above :: "byte list \<Rightarrow> nat \<Rightarrow> byte list \<Rightarrow> bool" where
  "above dir i q \<longleftrightarrow> q \<noteq> [] \<and> length q < i \<and> (\<exists>r. dir = q @ 47 # r)"

lemma above_Suc: "above dir (Suc i) q \<Longrightarrow> above dir i q \<or> q = take i dir \<and> dir ! i = 47 \<and> 0 < i"
proof -
  assume a: "above dir (Suc i) q"
  then obtain r where r: "dir = q @ 47 # r" "q \<noteq> []" "length q \<le> i" by (auto simp: above_def)
  show ?thesis
  proof (cases "length q = i")
    case True
    then show ?thesis using r by (auto simp: nth_append)
  next
    case False
    then show ?thesis using r by (auto simp: above_def)
  qed
qed

lemma parent_above:
  assumes "dir = q @ r" "q \<noteq> []"
  shows "parent q = [] \<or> above dir (length q) (parent q)"
  using parent_prefix [of q]
proof
  assume "\<exists>x. q = parent q @ 47 # x"
  then obtain x where x: "q = parent q @ 47 # x" ..
  then have "dir = parent q @ 47 # (x @ r)" using assms(1) by (metis append.assoc append_Cons)
  moreover have "length (parent q) < length q" using x by (metis length_append length_Cons less_add_Suc1 add_Suc_right)
  ultimately show ?thesis unfolding above_def by blast
qed simp

lemma mkdirs_loop_law:
  assumes F: "file_system F has" and z: "0 \<notin> set dir"
  shows "i + k = length dir \<Longrightarrow> \<forall>q. above dir i q \<longrightarrow> has w q \<Longrightarrow> \<forall>q. above dir (length dir) q \<longrightarrow> has (mkdirs_loop F dir i k w) q"
proof (induction k arbitrary: i w)
  case (Suc k)
  let ?w = "if dir ! i = 47 then ensure_dir F (c_str (take i dir)) w else w"
  have c: "c_str (take i dir) = take i dir" using z by (intro c_str_id) (meson in_set_takeD)
  have "has ?w q" if "above dir (Suc i) q" for q
  proof -
    from above_Suc [OF that] consider "above dir i q" | "q = take i dir" "dir ! i = 47" "0 < i" by blast
    then show ?thesis
    proof cases
      case 1
      then show ?thesis using Suc.prems(2) ensure_dir_keeps [OF F] by simp
    next
      case 2
      have "parent q = [] \<or> above dir (length q) (parent q)"
        by (rule parent_above [where r = "drop i dir"]) (use 2 Suc.prems(1) in auto)
      then have "parent q = [] \<or> has w (parent q)" using Suc.prems 2 by auto
      moreover have "q \<noteq> []" using 2 Suc.prems(1) by auto
      ultimately show ?thesis using 2 c ensure_dir_makes [OF F, of q w] by simp
    qed
  qed
  then show ?case using Suc.IH [of "Suc i" ?w] Suc.prems(1) by simp
qed simp

text \<open>After \<open>File.mkdirs\<close> the directory and every directory above it on the path exist, whichever of them existed
  before, and nothing that existed is gone, provided \<open>mkdir\<close> succeeds whenever the parent exists.\<close>

theorem mkdirs_makes:
  assumes F: "file_system F has" and a: "gettop a = 1" "is_string (arg a 1)" and d: "0 \<notin> set dir" "dir \<noteq> []"
    and q: "has w q \<or> q = dir \<or> q \<noteq> [] \<and> (\<exists>r. dir = q @ 47 # r)"
  shows "\<exists>w'. lmkdirs F a dir w = ([VBool True], w') \<and> has w' q"
proof -
  let ?w = "mkdirs_loop F dir 0 (length dir) w"
  have keep: "has (mkdirs_loop F dir i k w) q" if "has w q" for i k w q
    using that by (induction k arbitrary: i w) (simp_all add: ensure_dir_keeps [OF F])
  have loop: "\<forall>q. above dir (length dir) q \<longrightarrow> has ?w q" by (rule mkdirs_loop_law [OF F d(1)]) (simp_all add: above_def)
  have "parent dir = [] \<or> has ?w (parent dir)" using parent_above [of dir dir "[]"] d(2) loop by auto
  then have top: "has (ensure_dir F dir ?w) dir" using ensure_dir_makes [OF F d(2)] by blast
  have "has (ensure_dir F dir ?w) q"
    using q
  proof (elim disjE conjE exE)
    fix r
    assume "q \<noteq> []" "dir = q @ 47 # r"
    then have "above dir (length dir) q" by (auto simp: above_def)
    then show ?thesis using loop ensure_dir_keeps [OF F] by blast
  qed (use top keep ensure_dir_keeps [OF F] in blast)+
  then show ?thesis using a c_str_id [OF d(1)] by (simp add: lmkdirs_def)
qed

definition set_fs :: "byte list set file_env" where
  "set_fs = \<lparr>fi_getcwd = (\<lambda>n w. None), fi_chdir = (\<lambda>d w. (0, w)), fi_access = (\<lambda>d m w. if d \<in> w then 0 else - 1),
     fi_mkdir = (\<lambda>d m w. if d \<noteq> [] \<and> (parent d = [] \<or> parent d \<in> w) then (0, insert d w) else (- 1, w)),
     fi_remove = (\<lambda>d w. (0, w - {d})), fi_rename = (\<lambda>s d w. (0, w)), fi_opendir = (\<lambda>d w. None)\<rparr>"

text \<open>Witness: two new directories.\<close>

theorem mkdirs_makes_witness: "\<exists>w'. lmkdirs set_fs (one_string []) [97, 47, 98] {} = ([VBool True], w') \<and> [97] \<in> w'"
proof (rule mkdirs_makes [where has = "\<lambda>w d. d \<in> w"])
  show "file_system set_fs (\<lambda>w d. d \<in> w)" unfolding file_system_def by (auto simp: set_fs_def)
qed (simp_all add: one_string_def)

section \<open>Names\<close>

lemma last_pos_found:
  "c \<notin> set ys \<Longrightarrow> j \<le> length ys \<Longrightarrow> last_pos c (xs @ c # ys) (length xs + 1 + j) = Some (length xs)"
  by (induction j) (auto simp: nth_append)

lemma last_pos_none: "c \<notin> set s \<Longrightarrow> k \<le> length s \<Longrightarrow> last_pos c s k = None"
  by (induction k) auto

text \<open>The name of a file without its directory and its extension.\<close>

theorem basename_exact:
  assumes "47 \<notin> set base" "47 \<notin> set ext" "46 \<notin> set ext"
  shows "lbasename (dir @ 47 # base @ 46 # ext) = [VStr base]"
proof -
  let ?s = "dir @ 47 # base @ 46 # ext"
  have "last_pos 47 ?s (length ?s) = Some (length dir)"
    using last_pos_found [of 47 "base @ 46 # ext" "length (base @ 46 # ext)" dir] assms by simp
  moreover have "last_pos 46 ?s (length ?s) = Some (length dir + 1 + length base)"
    using last_pos_found [of 46 ext "length ext" "dir @ 47 # base"] assms by (simp add: ac_simps)
  ultimately show ?thesis by (cases base) (simp_all add: lbasename_def nat_add_distrib)
qed

text \<open>A dot in the directory is taken for the extension: a name without extension is lost.\<close>

theorem basename_dotted_directory:
  assumes "47 \<notin> set base" "46 \<notin> set base" "46 \<in> set dir"
  shows "lbasename (dir @ 47 # base) = [VStr []]"
proof -
  let ?s = "dir @ 47 # base"
  obtain x y where xy: "dir = x @ 46 # y" "46 \<notin> set y" using split_list_last [OF assms(3)] by blast
  have "last_pos 47 ?s (length ?s) = Some (length dir)" using last_pos_found [of 47 base "length base" dir] assms by simp
  moreover have "last_pos 46 ?s (length ?s) = Some (length x)"
    using last_pos_found [of 46 "y @ 47 # base" "length (y @ 47 # base)" x] xy assms by simp
  ultimately show ?thesis using xy by (simp add: lbasename_def)
qed

end
