(* ===== verification/Lsocket.thy ===== *)
theory Lsocket
  imports Lsys
begin

text \<open>
  The Lua library of sockets, \<open>src/src/socket/socket.cc\<close>, and the start of the server,
  \<open>src/src/srvmain/lsrvmain.cc\<close>. The system calls are functions of the world. An address is the
  number of the host and the port; \<open>None\<close> is undefined behaviour.
\<close>

section \<open>Sockets\<close>

text \<open>
  \<open>so_inet_addr\<close> reads a dotted address, with the value of \<open>INADDR_NONE\<close> for none. \<open>so_hostbyname\<close> is
  the list of addresses of a host, \<open>None\<close> for a null pointer. \<open>so_peername\<close> is the address written by
  \<open>getpeername\<close>, if it succeeds.
\<close>

record 'w sock_env =
  so_peername :: "int \<Rightarrow> 'w \<Rightarrow> int option"
  so_ntoa :: "int \<Rightarrow> byte list"
  so_getfd :: "int \<Rightarrow> 'w \<Rightarrow> int"
  so_setfl :: "int \<Rightarrow> int \<Rightarrow> 'w \<Rightarrow> int \<times> 'w"
  so_close :: "int \<Rightarrow> 'w \<Rightarrow> int \<times> 'w"
  so_socket :: "int \<Rightarrow> int \<Rightarrow> int \<Rightarrow> 'w \<Rightarrow> int \<times> 'w"
  so_accept :: "int \<Rightarrow> 'w \<Rightarrow> int \<times> 'w"
  so_inet_addr :: "byte list \<Rightarrow> int"
  so_hostbyname :: "byte list \<Rightarrow> 'w \<Rightarrow> int list option"
  so_connect :: "int \<Rightarrow> int \<times> int \<Rightarrow> 'w \<Rightarrow> int \<times> 'w"
  so_reuse :: "int \<Rightarrow> 'w \<Rightarrow> 'w"
  so_bind :: "int \<Rightarrow> int \<times> int \<Rightarrow> 'w \<Rightarrow> int \<times> 'w"
  so_listen :: "int \<Rightarrow> int \<Rightarrow> 'w \<Rightarrow> int \<times> 'w"
  so_recv :: "int \<Rightarrow> nat option \<Rightarrow> int \<Rightarrow> 'w \<Rightarrow> int \<times> 'w"
  so_send :: "int \<Rightarrow> nat option \<Rightarrow> int \<Rightarrow> 'w \<Rightarrow> int \<times> 'w"

definition O_NONBLOCK :: int where "O_NONBLOCK = 2048"
definition INADDR_NONE :: int where "INADDR_NONE = 4294967295"
definition INADDR_ANY :: int where "INADDR_ANY = 0"

definition num_arg :: "lua_args \<Rightarrow> nat \<Rightarrow> int" where
  "num_arg a i = c_int (to_number (arg a i))"

text \<open>The result of \<open>getpeername\<close> is not looked at.\<close>

definition sock_lgetpeerip :: "'w sock_env \<Rightarrow> lua_args \<Rightarrow> 'w \<Rightarrow> lua list option" where
  "sock_lgetpeerip S a w = do { h \<leftarrow> so_peername S (num_arg a 1) w; Some [VStr (so_ntoa S h)] }"

definition lsetnonblock :: "'w sock_env \<Rightarrow> lua_args \<Rightarrow> 'w \<Rightarrow> lua list \<times> 'w" where
  "lsetnonblock S a w =
     (let fd = num_arg a 1; (r, w) = so_setfl S fd (so_getfd S fd w OR O_NONBLOCK) w in ([push_int r], w))"

definition sock_lclose :: "'w sock_env \<Rightarrow> lua_args \<Rightarrow> 'w \<Rightarrow> lua list \<times> 'w" where
  "sock_lclose S a w = (let (r, w) = so_close S (num_arg a 1) w in ([push_int r], w))"

definition lsocket :: "'w sock_env \<Rightarrow> lua_args \<Rightarrow> 'w \<Rightarrow> lua list \<times> 'w" where
  "lsocket S a w = (let (r, w) = so_socket S (num_arg a 1) (num_arg a 2) (num_arg a 3) w in ([push_int r], w))"

definition laccept :: "'w sock_env \<Rightarrow> lua_args \<Rightarrow> 'w \<Rightarrow> lua list \<times> 'w" where
  "laccept S a w = (let (r, w) = so_accept S (num_arg a 1) w in ([push_int r], w))"

text \<open>The pointer that \<open>gethostbyname\<close> returns is followed without a check.\<close>

definition sock_lconnect :: "'w sock_env \<Rightarrow> lua_args \<Rightarrow> 'w \<Rightarrow> (lua list \<times> 'w) option" where
  "sock_lconnect S a w =
     (if gettop a \<noteq> 3 \<or> \<not> is_number (arg a 1) \<or> \<not> is_string (arg a 2) \<or> \<not> is_number (arg a 3) then Some ([], w)
      else do {
        host \<leftarrow> to_cstring (arg a 2);
        let port = take_bit 16 (num_arg a 3);
        addr \<leftarrow> (if so_inet_addr S host \<noteq> INADDR_NONE then Some (Some (so_inet_addr S host))
                 else do { hs \<leftarrow> so_hostbyname S host w; Some (case hs of [] \<Rightarrow> None | h # _ \<Rightarrow> Some h) });
        case addr of
          None \<Rightarrow> Some ([], w)
        | Some h \<Rightarrow> (let (r, w) = so_connect S (num_arg a 1) (h, port) w in Some ([push_int r], w))
      })"

text \<open>The host is read and not used.\<close>

definition sock_llisten :: "'w sock_env \<Rightarrow> lua_args \<Rightarrow> 'w \<Rightarrow> lua list \<times> 'w" where
  "sock_llisten S a w =
     (let fd = num_arg a 1;
          port = take_bit 16 (num_arg a 3);
          w = so_reuse S fd w;
          (r, w) = so_bind S fd (INADDR_ANY, port) w
      in if r < 0 then ([push_int r], w)
         else (let (r, w) = so_listen S fd 5 w in ([push_int r], w)))"

definition sock_lrecv :: "'w sock_env \<Rightarrow> lua_args \<Rightarrow> 'w \<Rightarrow> lua list \<times> 'w" where
  "sock_lrecv S a w = (let (r, w) = so_recv S (num_arg a 1) (to_userdata (arg a 2)) (c_size (num_arg a 3)) w in ([push_int r], w))"

definition sock_lsend :: "'w sock_env \<Rightarrow> lua_args \<Rightarrow> 'w \<Rightarrow> lua list \<times> 'w" where
  "sock_lsend S a w = (let (r, w) = so_send S (num_arg a 1) (to_userdata (arg a 2)) (c_size (num_arg a 3)) w in ([push_int r], w))"

section \<open>The server process\<close>

text \<open>
  \<open>ps_global\<close> is whether a global function exists, \<open>ps_pcall\<close> calls it. \<open>ps_signal\<close> sets the handler
  of a signal; the handlers are to ignore it and \<open>sig_int\<close>.
\<close>

datatype sig_handler = SigIgn | SigInt

record 'w proc_env =
  ps_fork :: "'w \<Rightarrow> int \<times> 'w"
  ps_setsid :: "'w \<Rightarrow> 'w"
  ps_atexit :: "'w \<Rightarrow> 'w"
  ps_signal :: "int \<Rightarrow> sig_handler \<Rightarrow> 'w \<Rightarrow> 'w"
  ps_global :: "byte list \<Rightarrow> 'w \<Rightarrow> bool"
  ps_pcall :: "byte list \<Rightarrow> 'w \<Rightarrow> 'w"

text \<open>A process either goes on or ends with a status.\<close>

datatype ('a, 'w) outcome = Exits int 'w | Returns 'a 'w

text \<open>\<open>s_L\<close> is whether the static variable holds a Lua state.\<close>

definition atexit_handler :: "'w proc_env \<Rightarrow> bool \<Rightarrow> 'w \<Rightarrow> 'w" where
  "atexit_handler P s_L w =
     (if s_L \<and> ps_global P (ascii ''_atexit'') w then ps_pcall P (ascii ''_atexit'') w else w)"

definition sig_int :: "'w proc_env \<Rightarrow> bool \<Rightarrow> 'w \<Rightarrow> (unit, 'w) outcome" where
  "sig_int P s_L w =
     (if s_L \<and> ps_global P (ascii ''_atint'') w then Returns () (ps_pcall P (ascii ''_atint'') w) else Exits 0 w)"

text \<open>The numbers of the ignored signals: HUP, QUIT, TTOU, TTIN, CHLD, TERM, HUP, PIPE, ABRT.\<close>

definition ignored :: "int list" where
  "ignored = [1, 3, 22, 21, 17, 15, 1, 13, 6]"

definition srv_lmain :: "'w proc_env \<Rightarrow> 'w \<Rightarrow> lua list \<times> bool \<times> 'w" where
  "srv_lmain P w =
     (let w = ps_atexit P w;
          w = fold (\<lambda>s. ps_signal P s SigIgn) ignored w
      in ([VBool True], True, ps_signal P 2 SigInt w))"

text \<open>The first test holds for every value but 0: a failed \<open>fork\<close> also ends with status 0.\<close>

definition ldaemon :: "'w proc_env \<Rightarrow> 'w \<Rightarrow> (lua list, 'w) outcome" where
  "ldaemon P w =
     (let (pid, w) = ps_fork P w
      in if pid \<noteq> 0 then Exits 0 w
         else if pid < 0 then Exits 1 w
         else
           (let (pid, w) = ps_fork P (ps_setsid P w)
            in if pid \<noteq> 0 then Exits 0 w
               else if pid < 0 then Exits 1 w
               else Returns [VBool True] w))"

section \<open>Laws\<close>

text \<open>
  The flags of a file before and after: \<open>so_setfl\<close> replaces the status flags, which
  \<open>lsetnonblock\<close> computes from the descriptor flags. Every status flag but \<open>O_NONBLOCK\<close> that is not by
  chance a descriptor flag is cleared.
\<close>

theorem setnonblock_clears:
  assumes fs: "\<And>fd v w. so_setfl S fd v w = (0, w(fd := v))" and fd: "to_number (arg a 1) = fd" "in_int fd"
    and bit: "bit (getfl :: int) n" "\<not> bit (so_getfd S fd (\<lambda>_. getfl)) n" "\<not> bit O_NONBLOCK n"
  shows "\<exists>w. lsetnonblock S a (\<lambda>_. getfl) = ([push_int 0], w) \<and> \<not> bit (w fd) n"
  using assms by (auto simp: lsetnonblock_def num_arg_def c_int_id bit_or_iff)

text \<open>A failed \<open>fork\<close> is reported as success to the parent process.\<close>

theorem daemon_hides_failure: "ps_fork P w = (- 1, w') \<Longrightarrow> ldaemon P w = Exits 0 w'"
  by (simp add: ldaemon_def)

end
