(* ===== verification/Pb_Message.thy ===== *)
theory Pb_Message
  imports Lua_Value
begin

text \<open>
  The messages of the protocol buffer library in \<open>src/3rd/protobuf-2.6.0\<close> that the binding
  \<open>pblua.cc\<close> works on, and the functions of its reflection interface: a heap of message objects with
  one pb_slot per field. Fields are those of the message type itself, outside a \<open>oneof\<close>. Reading and
  writing whole messages, and the unknown fields that come with it, are not part of it. \<open>None\<close> is
  undefined behaviour or a failed check of the library, which ends the process.
\<close>

section \<open>Descriptors\<close>

datatype cpp_type =
  CPPTYPE_INT32 | CPPTYPE_INT64 | CPPTYPE_UINT32 | CPPTYPE_UINT64 | CPPTYPE_DOUBLE | CPPTYPE_FLOAT
| CPPTYPE_BOOL | CPPTYPE_ENUM | CPPTYPE_STRING | CPPTYPE_MESSAGE

datatype pb_type =
  TYPE_DOUBLE | TYPE_FLOAT | TYPE_INT64 | TYPE_UINT64 | TYPE_INT32 | TYPE_FIXED64 | TYPE_FIXED32
| TYPE_BOOL | TYPE_STRING | TYPE_GROUP | TYPE_MESSAGE | TYPE_BYTES | TYPE_UINT32 | TYPE_ENUM
| TYPE_SFIXED32 | TYPE_SFIXED64 | TYPE_SINT32 | TYPE_SINT64

datatype pb_label = LABEL_OPTIONAL | LABEL_REQUIRED | LABEL_REPEATED

fun kTypeToCppTypeMap :: "pb_type \<Rightarrow> cpp_type" where
  "kTypeToCppTypeMap TYPE_DOUBLE = CPPTYPE_DOUBLE"
| "kTypeToCppTypeMap TYPE_FLOAT = CPPTYPE_FLOAT"
| "kTypeToCppTypeMap TYPE_INT64 = CPPTYPE_INT64"
| "kTypeToCppTypeMap TYPE_UINT64 = CPPTYPE_UINT64"
| "kTypeToCppTypeMap TYPE_INT32 = CPPTYPE_INT32"
| "kTypeToCppTypeMap TYPE_FIXED64 = CPPTYPE_UINT64"
| "kTypeToCppTypeMap TYPE_FIXED32 = CPPTYPE_UINT32"
| "kTypeToCppTypeMap TYPE_BOOL = CPPTYPE_BOOL"
| "kTypeToCppTypeMap TYPE_STRING = CPPTYPE_STRING"
| "kTypeToCppTypeMap TYPE_GROUP = CPPTYPE_MESSAGE"
| "kTypeToCppTypeMap TYPE_MESSAGE = CPPTYPE_MESSAGE"
| "kTypeToCppTypeMap TYPE_BYTES = CPPTYPE_STRING"
| "kTypeToCppTypeMap TYPE_UINT32 = CPPTYPE_UINT32"
| "kTypeToCppTypeMap TYPE_ENUM = CPPTYPE_ENUM"
| "kTypeToCppTypeMap TYPE_SFIXED32 = CPPTYPE_INT32"
| "kTypeToCppTypeMap TYPE_SFIXED64 = CPPTYPE_INT64"
| "kTypeToCppTypeMap TYPE_SINT32 = CPPTYPE_INT32"
| "kTypeToCppTypeMap TYPE_SINT64 = CPPTYPE_INT64"

text \<open>A value of a field that is not a message; enumerations are numbers.\<close>

datatype scalar = SInt int | SDbl dbl | SBool bool | SStr "byte list"

text \<open>
  \<open>fd_default\<close> is the result of \<open>default_value_int32\<close> and its relatives, which is defined also when
  \<open>has_default_value\<close> does not hold. \<open>fd_message\<close> is the type of a message field.
\<close>

record field_descriptor =
  fd_name :: "byte list"
  fd_number :: int
  fd_type :: pb_type
  fd_label :: pb_label
  fd_has_default :: bool
  fd_default :: scalar
  fd_message :: nat

record pb_descriptor =
  ds_name :: "byte list"
  ds_fields :: "field_descriptor list"

text \<open>Descriptors are identified by numbers, and a field by its type and its index.\<close>

type_synonym pb_types = "nat \<Rightarrow> pb_descriptor"
type_synonym pb_field = "nat \<times> nat"

definition field_of :: "pb_types \<Rightarrow> pb_field \<Rightarrow> field_descriptor" where
  "field_of D f = ds_fields (D (fst f)) ! snd f"

definition field_cpp_type :: "field_descriptor \<Rightarrow> cpp_type" where
  "field_cpp_type fd = kTypeToCppTypeMap (fd_type fd)"

definition is_repeated :: "field_descriptor \<Rightarrow> bool" where
  "is_repeated fd \<longleftrightarrow> fd_label fd = LABEL_REPEATED"

fun find_field :: "byte list \<Rightarrow> field_descriptor list \<Rightarrow> nat \<Rightarrow> nat option" where
  "find_field s [] i = None"
| "find_field s (fd # fds) i = (if fd_name fd = s then Some i else find_field s fds (i + 1))"

definition FindFieldByName :: "pb_types \<Rightarrow> nat \<Rightarrow> byte list \<Rightarrow> pb_field option" where
  "FindFieldByName D d s = map_option (Pair d) (find_field s (ds_fields (D d)) 0)"

section \<open>Messages\<close>

text \<open>
  A slot: a has bit and a value, a has bit and a pointer, an array of values, or an array of pointers
  with the number of those in use. The elements behind these are cleared messages kept for reuse.
\<close>

datatype pb_slot = One bool scalar | OneMsg bool "nat option" | Many "scalar list" | ManyMsg nat "nat list"

record pb_message =
  ms_type :: nat
  ms_slots :: "pb_slot list"

record pb_heap =
  hp_objs :: "nat \<Rightarrow> pb_message option"
  hp_next :: nat

definition new_slot :: "field_descriptor \<Rightarrow> pb_slot" where
  "new_slot fd =
     (if is_repeated fd then (if field_cpp_type fd = CPPTYPE_MESSAGE then ManyMsg 0 [] else Many [])
      else if field_cpp_type fd = CPPTYPE_MESSAGE then OneMsg False None
      else One False (fd_default fd))"

definition New :: "pb_types \<Rightarrow> nat \<Rightarrow> pb_heap \<Rightarrow> nat \<times> pb_heap" where
  "New D d h =
     (hp_next h,
      h\<lparr>hp_objs := (hp_objs h)(hp_next h \<mapsto> \<lparr>ms_type = d, ms_slots = map new_slot (ds_fields (D d))\<rparr>),
        hp_next := hp_next h + 1\<rparr>)"

text \<open>The check that a field belongs to the type of the message is part of every access.\<close>

definition slot_at :: "pb_heap \<Rightarrow> nat \<Rightarrow> pb_field \<Rightarrow> pb_slot option" where
  "slot_at h a f = do {
     m \<leftarrow> hp_objs h a;
     if ms_type m = fst f \<and> snd f < length (ms_slots m) then Some (ms_slots m ! snd f) else None
   }"

definition put_slot :: "nat \<Rightarrow> pb_field \<Rightarrow> pb_slot \<Rightarrow> pb_heap \<Rightarrow> pb_heap option" where
  "put_slot a f s h = do {
     m \<leftarrow> hp_objs h a;
     Some (h\<lparr>hp_objs := (hp_objs h)(a \<mapsto> m\<lparr>ms_slots := (ms_slots m)[snd f := s]\<rparr>)\<rparr>)
   }"

section \<open>Values\<close>

definition FieldSize :: "pb_heap \<Rightarrow> nat \<Rightarrow> pb_field \<Rightarrow> nat option" where
  "FieldSize h a f = do {
     s \<leftarrow> slot_at h a f;
     case s of Many vs \<Rightarrow> Some (length vs) | ManyMsg n ps \<Rightarrow> Some n | _ \<Rightarrow> None
   }"

definition HasField :: "pb_heap \<Rightarrow> nat \<Rightarrow> pb_field \<Rightarrow> bool option" where
  "HasField h a f = do {
     s \<leftarrow> slot_at h a f;
     case s of One b v \<Rightarrow> Some b | OneMsg b p \<Rightarrow> Some b | _ \<Rightarrow> None
   }"

text \<open>
  The accessors of the values, one for every C++ type \<open>t\<close>: \<open>GetInt32\<close> and its relatives. The library
  checks that the field has the type of the accessor.
\<close>

definition GetValue :: "pb_types \<Rightarrow> cpp_type \<Rightarrow> pb_heap \<Rightarrow> nat \<Rightarrow> pb_field \<Rightarrow> scalar option" where
  "GetValue D t h a f = do {
     s \<leftarrow> slot_at h a f;
     case s of One b v \<Rightarrow> if field_cpp_type (field_of D f) = t then Some v else None | _ \<Rightarrow> None
   }"

definition SetValue :: "pb_types \<Rightarrow> cpp_type \<Rightarrow> nat \<Rightarrow> pb_field \<Rightarrow> scalar \<Rightarrow> pb_heap \<Rightarrow> pb_heap option" where
  "SetValue D t a f v h = do {
     s \<leftarrow> slot_at h a f;
     case s of
       One _ _ \<Rightarrow> if field_cpp_type (field_of D f) = t then put_slot a f (One True v) h else None
     | _ \<Rightarrow> None
   }"

definition GetRepeatedValue :: "pb_types \<Rightarrow> cpp_type \<Rightarrow> pb_heap \<Rightarrow> nat \<Rightarrow> pb_field \<Rightarrow> nat \<Rightarrow> scalar option" where
  "GetRepeatedValue D t h a f i = do {
     s \<leftarrow> slot_at h a f;
     case s of
       Many vs \<Rightarrow> if field_cpp_type (field_of D f) = t \<and> i < length vs then Some (vs ! i) else None
     | _ \<Rightarrow> None
   }"

definition SetRepeatedValue :: "pb_types \<Rightarrow> cpp_type \<Rightarrow> nat \<Rightarrow> pb_field \<Rightarrow> nat \<Rightarrow> scalar \<Rightarrow> pb_heap \<Rightarrow> pb_heap option" where
  "SetRepeatedValue D t a f i v h = do {
     s \<leftarrow> slot_at h a f;
     case s of
       Many vs \<Rightarrow> if field_cpp_type (field_of D f) = t \<and> i < length vs then put_slot a f (Many (vs[i := v])) h else None
     | _ \<Rightarrow> None
   }"

definition AddValue :: "pb_types \<Rightarrow> cpp_type \<Rightarrow> nat \<Rightarrow> pb_field \<Rightarrow> scalar \<Rightarrow> pb_heap \<Rightarrow> pb_heap option" where
  "AddValue D t a f v h = do {
     s \<leftarrow> slot_at h a f;
     case s of
       Many vs \<Rightarrow> if field_cpp_type (field_of D f) = t then put_slot a f (Many (vs @ [v])) h else None
     | _ \<Rightarrow> None
   }"

section \<open>Messages in fields\<close>

text \<open>\<open>P\<close> gives the prototypes of the message types, which stand for fields that were never set.\<close>

definition GetMessage :: "pb_types \<Rightarrow> (nat \<Rightarrow> nat) \<Rightarrow> pb_heap \<Rightarrow> nat \<Rightarrow> pb_field \<Rightarrow> nat option" where
  "GetMessage D P h a f = do {
     s \<leftarrow> slot_at h a f;
     case s of
       OneMsg _ (Some q) \<Rightarrow> Some q
     | OneMsg _ None \<Rightarrow> Some (P (fd_message (field_of D f)))
     | _ \<Rightarrow> None
   }"

definition MutableMessage :: "pb_types \<Rightarrow> nat \<Rightarrow> pb_field \<Rightarrow> pb_heap \<Rightarrow> (nat \<times> pb_heap) option" where
  "MutableMessage D a f h = do {
     s \<leftarrow> slot_at h a f;
     case s of
       OneMsg _ (Some q) \<Rightarrow> do { h \<leftarrow> put_slot a f (OneMsg True (Some q)) h; Some (q, h) }
     | OneMsg _ None \<Rightarrow>
         (let (q, h) = New D (fd_message (field_of D f)) h
          in do { h \<leftarrow> put_slot a f (OneMsg True (Some q)) h; Some (q, h) })
     | _ \<Rightarrow> None
   }"

definition GetRepeatedMessage :: "pb_heap \<Rightarrow> nat \<Rightarrow> pb_field \<Rightarrow> nat \<Rightarrow> nat option" where
  "GetRepeatedMessage h a f i = do {
     s \<leftarrow> slot_at h a f;
     case s of ManyMsg n ps \<Rightarrow> if i < n \<and> i < length ps then Some (ps ! i) else None | _ \<Rightarrow> None
   }"

definition AddMessage :: "pb_types \<Rightarrow> nat \<Rightarrow> pb_field \<Rightarrow> pb_heap \<Rightarrow> (nat \<times> pb_heap) option" where
  "AddMessage D a f h = do {
     s \<leftarrow> slot_at h a f;
     case s of
       ManyMsg n ps \<Rightarrow>
         if n < length ps then do { h \<leftarrow> put_slot a f (ManyMsg (n + 1) ps) h; Some (ps ! n, h) }
         else (let (q, h) = New D (fd_message (field_of D f)) h
               in do { h \<leftarrow> put_slot a f (ManyMsg (n + 1) (ps @ [q])) h; Some (q, h) })
     | _ \<Rightarrow> None
   }"

definition swap_at :: "'a list \<Rightarrow> nat \<Rightarrow> nat \<Rightarrow> 'a list" where
  "swap_at xs i j = xs[i := xs ! j, j := xs ! i]"

definition SwapElements :: "nat \<Rightarrow> pb_field \<Rightarrow> nat \<Rightarrow> nat \<Rightarrow> pb_heap \<Rightarrow> pb_heap option" where
  "SwapElements a f i j h = do {
     s \<leftarrow> slot_at h a f;
     case s of
       Many vs \<Rightarrow> if i < length vs \<and> j < length vs then put_slot a f (Many (swap_at vs i j)) h else None
     | ManyMsg n ps \<Rightarrow> if i < length ps \<and> j < length ps then put_slot a f (ManyMsg n (swap_at ps i j)) h else None
     | _ \<Rightarrow> None
   }"

section \<open>Whole messages\<close>

text \<open>A loop over a list that ends the process with its body.\<close>

primrec foldo :: "('a \<Rightarrow> 's \<Rightarrow> 's option) \<Rightarrow> 'a list \<Rightarrow> 's \<Rightarrow> 's option" where
  "foldo f [] s = Some s"
| "foldo f (x # xs) s = Option.bind (f x s) (foldo f xs)"

lemma foldo_mono [partial_function_mono]:
  assumes "\<And>x s. mono_option (\<lambda>f. B f x s)"
  shows "mono_option (\<lambda>f. foldo (\<lambda>x s. B f x s) xs s)"
  by (induction xs arbitrary: s) (auto intro!: partial_function_mono assms)

text \<open>
  \<open>ClearField\<close>, with the function \<open>clr\<close> that clears a message. Clearing keeps the messages of the
  field for reuse. \<open>Clear\<close> clears the fields that are set; for the others this does nothing.
\<close>

definition clear_slot :: "(nat \<Rightarrow> pb_heap \<Rightarrow> pb_heap option) \<Rightarrow> pb_types \<Rightarrow> nat \<Rightarrow> pb_field \<Rightarrow> pb_heap \<Rightarrow> pb_heap option" where
  "clear_slot clr D a f h =
     Option.bind (slot_at h a f) (\<lambda>s.
       case s of
         One b v \<Rightarrow> if b then put_slot a f (One False (fd_default (field_of D f))) h else Some h
       | OneMsg b p \<Rightarrow>
           if b then (case p of None \<Rightarrow> None | Some q \<Rightarrow> Option.bind (put_slot a f (OneMsg False p) h) (clr q))
           else Some h
       | Many vs \<Rightarrow> put_slot a f (Many []) h
       | ManyMsg n ps \<Rightarrow> Option.bind (foldo clr (take n ps) h) (put_slot a f (ManyMsg 0 ps)))"

lemma clear_slot_mono [partial_function_mono]:
  assumes "\<And>q h. mono_option (\<lambda>f. C f q h)"
  shows "mono_option (\<lambda>f. clear_slot (\<lambda>q h. C f q h) D a fl h)"
  unfolding clear_slot_def
proof (rule bind_mono)
  fix s
  show "mono_option (\<lambda>f. case s of
         One b v \<Rightarrow> if b then put_slot a fl (One False (fd_default (field_of D fl))) h else Some h
       | OneMsg b p \<Rightarrow>
           if b then (case p of None \<Rightarrow> None | Some q \<Rightarrow> Option.bind (put_slot a fl (OneMsg False p) h) (C f q))
           else Some h
       | Many vs \<Rightarrow> put_slot a fl (Many []) h
       | ManyMsg n ps \<Rightarrow> Option.bind (foldo (C f) (take n ps) h) (put_slot a fl (ManyMsg 0 ps)))"
  proof (cases s)
    case (OneMsg b p)
    then show ?thesis by (cases p) (auto intro!: partial_function_mono assms option.const_mono)
  qed (auto intro!: partial_function_mono assms option.const_mono)
qed (rule option.const_mono)

partial_function (option) Clear :: "pb_types \<Rightarrow> nat \<Rightarrow> pb_heap \<Rightarrow> pb_heap option" where
  "Clear D a h =
     Option.bind (hp_objs h a) (\<lambda>m.
       foldo (\<lambda>i h. clear_slot (\<lambda>q h. Clear D q h) D a (ms_type m, i) h) [0..<length (ms_slots m)] h)"

definition ClearField :: "pb_types \<Rightarrow> nat \<Rightarrow> pb_field \<Rightarrow> pb_heap \<Rightarrow> pb_heap option" where
  "ClearField D = clear_slot (Clear D) D"

definition RemoveLast :: "pb_types \<Rightarrow> nat \<Rightarrow> pb_field \<Rightarrow> pb_heap \<Rightarrow> pb_heap option" where
  "RemoveLast D a f h = do {
     s \<leftarrow> slot_at h a f;
     case s of
       Many vs \<Rightarrow> if vs = [] then None else put_slot a f (Many (butlast vs)) h
     | ManyMsg n ps \<Rightarrow>
         if 0 < n \<and> n \<le> length ps then do { h \<leftarrow> put_slot a f (ManyMsg (n - 1) ps) h; Clear D (ps ! (n - 1)) h } else None
     | _ \<Rightarrow> None
   }"

text \<open>
  \<open>MergeFrom\<close> adds the elements of repeated fields and sets the other fields that are set in \<open>from\<close>;
  \<open>mrg\<close> merges a message of a field. Merging a message into itself fails a check.
\<close>

definition merge_slot ::
  "(nat \<Rightarrow> nat \<Rightarrow> pb_heap \<Rightarrow> pb_heap option) \<Rightarrow> pb_types \<Rightarrow> (nat \<Rightarrow> nat) \<Rightarrow> nat \<Rightarrow> nat \<Rightarrow> pb_field \<Rightarrow> pb_heap \<Rightarrow> pb_heap option" where
  "merge_slot mrg D P src dst f h =
     Option.bind (slot_at h src f) (\<lambda>s.
       case s of
         One b v \<Rightarrow> if b then SetValue D (field_cpp_type (field_of D f)) dst f v h else Some h
       | OneMsg b p \<Rightarrow>
           if b then Option.bind (MutableMessage D dst f h) (\<lambda>r. Option.bind (GetMessage D P (snd r) src f) (\<lambda>p. mrg p (fst r) (snd r)))
           else Some h
       | Many vs \<Rightarrow>
           foldo (\<lambda>j h. Option.bind (GetRepeatedValue D (field_cpp_type (field_of D f)) h src f j)
                    (\<lambda>v. AddValue D (field_cpp_type (field_of D f)) dst f v h)) [0..<length vs] h
       | ManyMsg n ps \<Rightarrow>
           foldo (\<lambda>j h. Option.bind (AddMessage D dst f h)
                    (\<lambda>r. Option.bind (GetRepeatedMessage (snd r) src f j) (\<lambda>p. mrg p (fst r) (snd r)))) [0..<n] h)"

lemma merge_slot_mono [partial_function_mono]:
  assumes "\<And>p q h. mono_option (\<lambda>f. C f p q h)"
  shows "mono_option (\<lambda>f. merge_slot (\<lambda>p q h. C f p q h) D P src dst fl h)"
  unfolding merge_slot_def
proof (rule bind_mono)
  fix s
  show "mono_option (\<lambda>f. case s of
         One b v \<Rightarrow> if b then SetValue D (field_cpp_type (field_of D fl)) dst fl v h else Some h
       | OneMsg b p \<Rightarrow>
           if b then Option.bind (MutableMessage D dst fl h) (\<lambda>r. Option.bind (GetMessage D P (snd r) src fl) (\<lambda>p. C f p (fst r) (snd r)))
           else Some h
       | Many vs \<Rightarrow>
           foldo (\<lambda>j h. Option.bind (GetRepeatedValue D (field_cpp_type (field_of D fl)) h src fl j)
                    (\<lambda>v. AddValue D (field_cpp_type (field_of D fl)) dst fl v h)) [0..<length vs] h
       | ManyMsg n ps \<Rightarrow>
           foldo (\<lambda>j h. Option.bind (AddMessage D dst fl h)
                    (\<lambda>r. Option.bind (GetRepeatedMessage (snd r) src fl j) (\<lambda>p. C f p (fst r) (snd r)))) [0..<n] h)"
    by (cases s) (auto intro!: partial_function_mono assms option.const_mono)
qed (rule option.const_mono)

partial_function (option) MergeFrom :: "pb_types \<Rightarrow> (nat \<Rightarrow> nat) \<Rightarrow> nat \<Rightarrow> nat \<Rightarrow> pb_heap \<Rightarrow> pb_heap option" where
  "MergeFrom D P src dst h =
     (if src = dst then None
      else
        Option.bind (hp_objs h src) (\<lambda>m. Option.bind (hp_objs h dst) (\<lambda>m'.
          if ms_type m \<noteq> ms_type m' then None
          else foldo (\<lambda>i h. merge_slot (\<lambda>p q h. MergeFrom D P p q h) D P src dst (ms_type m, i) h) [0..<length (ms_slots m)] h)))"

definition CopyFrom :: "pb_types \<Rightarrow> (nat \<Rightarrow> nat) \<Rightarrow> nat \<Rightarrow> nat \<Rightarrow> pb_heap \<Rightarrow> pb_heap option" where
  "CopyFrom D P src dst h = (if src = dst then Some h else Option.bind (Clear D dst h) (MergeFrom D P src dst))"

text \<open>The destructor also deletes the messages kept for reuse.\<close>

fun slot_owned :: "pb_slot \<Rightarrow> nat list" where
  "slot_owned (OneMsg b (Some q)) = [q]"
| "slot_owned (ManyMsg n ps) = ps"
| "slot_owned s = []"

partial_function (option) Delete :: "nat \<Rightarrow> pb_heap \<Rightarrow> pb_heap option" where
  "Delete a h =
     Option.bind (hp_objs h a) (\<lambda>m.
       Option.bind (foldo (\<lambda>q h. Delete q h) (concat (map slot_owned (ms_slots m))) h) (\<lambda>h.
         Some (h\<lparr>hp_objs := (hp_objs h)(a := None)\<rparr>)))"

end
