(* ===== verification/Pblua.thy ===== *)
theory Pblua
  imports Pb_Message
begin

text \<open>
  The Lua binding of protocol buffers, \<open>src/src/pblua/pblua.cc\<close>. Scripts hold userdata of two kinds:
  a message with its root and a dirty flag, and a repeated field of a message. These are numbered like
  every object of Lua; \<open>VOther n\<close> is the value of object \<open>n\<close>. The pointers inside them do not keep
  their targets alive.
\<close>

section \<open>State\<close>

record lua_message =
  lm_message :: "nat option"
  lm_root :: nat
  lm_dirty :: int

record repeated_field =
  rf_message :: nat
  rf_field :: pb_field

datatype pb_userdata = UMsg lua_message | URep repeated_field

text \<open>The pool of the imported types, their source files and raw memory are in the world \<open>'w\<close>.\<close>

record 'w pb_state =
  pb_msgs :: pb_heap
  pb_ud :: "nat \<Rightarrow> pb_userdata option"
  pb_next :: nat
  s_msg_count :: int
  s_msg_new_times :: int
  s_msg_delete_times :: int
  pb_world :: 'w

text \<open>
  The protobuf library: the descriptors, the search for a type by its name, the importer, the wire
  format (\<open>pe_parse\<close> parses bytes into a message), and the prototypes. \<open>pe_float\<close> is the conversion to
  \<open>float\<close>, \<open>pe_func\<close> numbers the C functions by their names in Lua.
\<close>

record 'w pb_env =
  pe_types :: pb_types
  pe_proto :: "nat \<Rightarrow> nat"
  pe_find :: "byte list \<Rightarrow> 'w \<Rightarrow> nat option"
  pe_import :: "byte list \<Rightarrow> 'w \<Rightarrow> bool \<times> 'w"
  pe_mappath :: "byte list \<Rightarrow> byte list \<Rightarrow> 'w \<Rightarrow> 'w"
  pe_clean :: "'w \<Rightarrow> 'w"
  pe_parse :: "nat \<Rightarrow> byte list \<Rightarrow> pb_heap \<Rightarrow> bool \<times> pb_heap"
  pe_serialize :: "pb_heap \<Rightarrow> nat \<Rightarrow> byte list option"
  pe_cached :: "pb_heap \<Rightarrow> nat \<Rightarrow> byte list"
  pe_bytesize :: "pb_heap \<Rightarrow> nat \<Rightarrow> int"
  pe_debug :: "pb_heap \<Rightarrow> nat \<Rightarrow> byte list"
  pe_read :: "nat \<Rightarrow> int \<Rightarrow> 'w \<Rightarrow> byte list"
  pe_write :: "nat option \<Rightarrow> byte list \<Rightarrow> 'w \<Rightarrow> 'w option"
  pe_conv :: lua_conv
  pe_float :: "dbl \<Rightarrow> dbl"
  pe_func :: "byte list \<Rightarrow> nat"

text \<open>A call: the outer \<open>None\<close> is undefined behaviour or the end of the process, the inner one a Lua error.\<close>

type_synonym 'w pb_call = "lua list \<Rightarrow> 'w pb_state \<Rightarrow> (lua list option \<times> 'w pb_state) option"

definition ret :: "lua list \<Rightarrow> 'w pb_state \<Rightarrow> (lua list option \<times> 'w pb_state) option" where
  "ret vs s = Some (Some vs, s)"

definition lua_error :: "'w pb_state \<Rightarrow> (lua list option \<times> 'w pb_state) option" where
  "lua_error s = Some (None, s)"

section \<open>Numbers and strings of Lua\<close>

fun d_trunc :: "dbl \<Rightarrow> int option" where
  "d_trunc (Fin a) = Some (if a < 0 then \<lceil>a\<rceil> else \<lfloor>a\<rfloor>)"
| "d_trunc _ = None"

text \<open>The conversion of a double to an integer type is undefined outside its range.\<close>

definition d_to :: "int \<Rightarrow> int \<Rightarrow> dbl \<Rightarrow> int option" where
  "d_to lo hi d = do { n \<leftarrow> d_trunc d; if lo \<le> n \<and> n < hi then Some n else None }"

definition tonumber_int :: "'w pb_env \<Rightarrow> lua \<Rightarrow> int option" where
  "tonumber_int E v = d_to (- (2 ^ 31)) (2 ^ 31) (lua_tonumber (pe_conv E) v)"

definition tointeger_int :: "'w pb_env \<Rightarrow> lua \<Rightarrow> int option" where
  "tointeger_int E v = map_option c_int (d_to (- (2 ^ 63)) (2 ^ 63) (lua_tonumber (pe_conv E) v))"

definition lua_toboolean :: "lua \<Rightarrow> bool" where
  "lua_toboolean v \<longleftrightarrow> v \<noteq> VNil \<and> v \<noteq> VBool False"

definition lua_tostring :: "'w pb_env \<Rightarrow> lua \<Rightarrow> byte list option" where
  "lua_tostring E v = map_option c_str (lua_tolstring (pe_conv E) v)"

section \<open>Userdata\<close>

definition new_ud :: "pb_userdata \<Rightarrow> 'w pb_state \<Rightarrow> nat \<times> 'w pb_state" where
  "new_ud x s = (pb_next s, s\<lparr>pb_ud := (pb_ud s)(pb_next s \<mapsto> x), pb_next := pb_next s + 1\<rparr>)"

text \<open>\<open>luaL_checkudata\<close> with the name of the message type, and the check for a deleted message.\<close>

definition check_message ::
  "lua \<Rightarrow> 'w pb_state \<Rightarrow> (nat \<Rightarrow> lua_message \<Rightarrow> (lua list option \<times> 'w pb_state) option) \<Rightarrow> (lua list option \<times> 'w pb_state) option" where
  "check_message v s k =
     (case v of
        VOther u \<Rightarrow> (case pb_ud s u of Some (UMsg m) \<Rightarrow> k u m | _ \<Rightarrow> lua_error s)
      | _ \<Rightarrow> lua_error s)"

definition with_message ::
  "lua \<Rightarrow> 'w pb_state \<Rightarrow> (lua_message \<Rightarrow> nat \<Rightarrow> (lua list option \<times> 'w pb_state) option) \<Rightarrow> (lua list option \<times> 'w pb_state) option" where
  "with_message v s k = check_message v s (\<lambda>u m. case lm_message m of None \<Rightarrow> ret [] s | Some a \<Rightarrow> k m a)"

definition check_repeated ::
  "lua \<Rightarrow> 'w pb_state \<Rightarrow> (repeated_field \<Rightarrow> (lua list option \<times> 'w pb_state) option) \<Rightarrow> (lua list option \<times> 'w pb_state) option" where
  "check_repeated v s k =
     (case v of
        VOther u \<Rightarrow> (case pb_ud s u of Some (URep r) \<Rightarrow> k r | _ \<Rightarrow> lua_error s)
      | _ \<Rightarrow> lua_error s)"

text \<open>The userdata of the message, which a repeated field or a part of a message points to, may have been collected.\<close>

definition ud_message :: "'w pb_state \<Rightarrow> nat \<Rightarrow> lua_message option" where
  "ud_message s u = (case pb_ud s u of Some (UMsg m) \<Rightarrow> Some m | _ \<Rightarrow> None)"

definition with_repeated ::
  "lua \<Rightarrow> 'w pb_state \<Rightarrow> (lua_message \<Rightarrow> nat \<Rightarrow> pb_field \<Rightarrow> (lua list option \<times> 'w pb_state) option) \<Rightarrow> (lua list option \<times> 'w pb_state) option" where
  "with_repeated v s k =
     check_repeated v s (\<lambda>r. do {
       m \<leftarrow> ud_message s (rf_message r);
       case lm_message m of None \<Rightarrow> ret [] s | Some a \<Rightarrow> k m a (rf_field r)
     })"

definition set_dirty :: "nat \<Rightarrow> 'w pb_state \<Rightarrow> 'w pb_state option" where
  "set_dirty u s = do { m \<leftarrow> ud_message s u; Some (s\<lparr>pb_ud := (pb_ud s)(u \<mapsto> UMsg (m\<lparr>lm_dirty := 1\<rparr>))\<rparr>) }"

definition on_heap :: "(pb_heap \<Rightarrow> pb_heap option) \<Rightarrow> 'w pb_state \<Rightarrow> 'w pb_state option" where
  "on_heap f s = do { h \<leftarrow> f (pb_msgs s); Some (s\<lparr>pb_msgs := h\<rparr>) }"

definition push_one :: "lua list" where "push_one = [VNum (d_int 1)]"

section \<open>The library\<close>

definition pblua_load_msg :: "'w pb_env \<Rightarrow> byte list \<Rightarrow> 'w pb_state \<Rightarrow> nat option \<times> 'w pb_state" where
  "pblua_load_msg E name s =
     (case pe_find E name (pb_world s) of
        None \<Rightarrow> (None, s)
      | Some d \<Rightarrow>
          (let (a, h) = New (pe_types E) d (pb_msgs s)
           in (Some a, s\<lparr>pb_msgs := h, s_msg_count := c_int (s_msg_count s + 1),
                         s_msg_new_times := c_int (s_msg_new_times s + 1)\<rparr>)))"

text \<open>The code behind the first \<open>return 1\<close> is never reached, and with it \<open>import_enum\<close>.\<close>

definition limport :: "'w pb_env \<Rightarrow> 'w pb_call" where
  "limport E as s =
     (if lua_isstring (arg_at as 1)
      then do {
        name \<leftarrow> lua_tostring E (arg_at as 1);
        let (ok, w) = pe_import E name (pb_world s);
        ret (if ok then [VBool True] else []) (s\<lparr>pb_world := w\<rparr>)
      }
      else ret [] s)"

definition lmappath :: "'w pb_env \<Rightarrow> 'w pb_call" where
  "lmappath E as s =
     (if lua_isstring (arg_at as 1) \<and> lua_isstring (arg_at as 2)
      then do {
        name \<leftarrow> lua_tostring E (arg_at as 1);
        dir \<leftarrow> lua_tostring E (arg_at as 2);
        ret [VBool True] (s\<lparr>pb_world := pe_mappath E name dir (pe_mappath E name dir (pb_world s))\<rparr>)
      }
      else ret [] s)"

definition lmsgclean :: "'w pb_env \<Rightarrow> 'w pb_call" where
  "lmsgclean E as s = ret [VBool True] (s\<lparr>pb_world := pe_clean E (pb_world s)\<rparr>)"

definition lmsgnew :: "'w pb_env \<Rightarrow> 'w pb_call" where
  "lmsgnew E as s =
     (if lua_isstring (arg_at as 1)
      then do {
        name \<leftarrow> lua_tostring E (arg_at as 1);
        case pblua_load_msg E name s of
          (None, s) \<Rightarrow> ret [] s
        | (Some a, s) \<Rightarrow>
            (let (u, s) = new_ud (UMsg \<lparr>lm_message = Some a, lm_root = pb_next s, lm_dirty = 0\<rparr>) s in ret [VOther u] s)
      }
      else ret [] s)"

text \<open>The description of a type: a table of the fields by name.\<close>

definition field_type_name :: "field_descriptor \<Rightarrow> byte list" where
  "field_type_name fd =
     (case field_cpp_type fd of
        CPPTYPE_INT32 \<Rightarrow> ascii ''int''
      | CPPTYPE_UINT32 \<Rightarrow> ascii ''int''
      | CPPTYPE_STRING \<Rightarrow> ascii ''string''
      | CPPTYPE_MESSAGE \<Rightarrow> ascii ''message''
      | _ \<Rightarrow> ascii ''unknown'')"

definition default_lua :: "field_descriptor \<Rightarrow> lua" where
  "default_lua fd =
     (case (field_cpp_type fd, fd_default fd) of
        (CPPTYPE_INT32, SInt n) \<Rightarrow> VNum (d_int n)
      | (CPPTYPE_UINT32, SInt n) \<Rightarrow> VNum (d_int n)
      | (CPPTYPE_STRING, SStr s) \<Rightarrow> VStr (c_str s)
      | _ \<Rightarrow> VNil)"

fun push_fields :: "nat \<Rightarrow> field_descriptor list \<Rightarrow> lua_stack \<Rightarrow> lua_stack option" where
  "push_fields ctop [] L = Some L"
| "push_fields ctop (fd # fds) L =
     Option.bind (Option.bind (lua_pushed ctop (VStr (field_type_name fd) # VStr (ascii ''type'') # VTable [] # VStr (c_str (fd_name fd)) # L))
       lua_settable) (\<lambda>L.
     Option.bind (Option.bind (lua_pushed ctop (VNum (d_int (fd_number fd)) # VStr (ascii ''number'') # L)) lua_settable) (\<lambda>L.
     Option.bind (if fd_has_default fd then Option.bind (lua_pushed ctop (default_lua fd # VStr (ascii ''default'') # L)) lua_settable
                  else Some L) (\<lambda>L.
     Option.bind (lua_settable L) (push_fields ctop fds))))"

definition lget_descriptor :: "'w pb_env \<Rightarrow> 'w pb_call" where
  "lget_descriptor E as s =
     (if lua_isstring (arg_at as 1)
      then do {
        name \<leftarrow> lua_tostring E (arg_at as 1);
        case pe_find E name (pb_world s) of
          None \<Rightarrow> ret [] s
        | Some d \<Rightarrow> do { L \<leftarrow> push_fields LUA_MINSTACK (ds_fields (pe_types E d)) [VTable []]; ret L s }
      }
      else ret [] s)"

section \<open>Messages\<close>

definition lmsg_parse_from_buf :: "'w pb_env \<Rightarrow> 'w pb_call" where
  "lmsg_parse_from_buf E as s =
     with_message (arg_at as 1) s (\<lambda>m a.
       case lua_touserdata (pe_conv E) (arg_at as 2) of
         None \<Rightarrow> ret [] s
       | Some buf \<Rightarrow> do {
           n \<leftarrow> tointeger_int E (arg_at as 3);
           let (ok, h) = pe_parse E a (pe_read E buf n (pb_world s)) (pb_msgs s);
           ret [VBool ok] (s\<lparr>pb_msgs := h\<rparr>)
         })"

definition lmsg_parse_from_string :: "'w pb_env \<Rightarrow> 'w pb_call" where
  "lmsg_parse_from_string E as s =
     with_message (arg_at as 1) s (\<lambda>m a.
       case lua_tolstring (pe_conv E) (arg_at as 2) of
         None \<Rightarrow> ret [] s
       | Some str \<Rightarrow> (let (ok, h) = pe_parse E a str (pb_msgs s) in ret [VBool ok] (s\<lparr>pb_msgs := h\<rparr>)))"

definition lmsg_serialize :: "'w pb_env \<Rightarrow> 'w pb_call" where
  "lmsg_serialize E as s =
     with_message (arg_at as 1) s (\<lambda>m a.
       let bs = pe_cached E (pb_msgs s) a
       in do {
         w \<leftarrow> pe_write E (lua_touserdata (pe_conv E) (arg_at as 2)) bs (pb_world s);
         ret [VNum (d_int (int (length bs)))] (s\<lparr>pb_world := w\<rparr>)
       })"

definition lmsg_bytesize :: "'w pb_env \<Rightarrow> 'w pb_call" where
  "lmsg_bytesize E as s = with_message (arg_at as 1) s (\<lambda>m a. ret [VNum (d_int (pe_bytesize E (pb_msgs s) a))] s)"

definition lmsg_isdirty :: "'w pb_env \<Rightarrow> 'w pb_call" where
  "lmsg_isdirty E as s = check_message (arg_at as 1) s (\<lambda>u m. ret [VBool (lm_dirty m = 1)] s)"

definition lmsg_setdirty :: "'w pb_env \<Rightarrow> 'w pb_call" where
  "lmsg_setdirty E as s =
     check_message (arg_at as 1) s (\<lambda>u m. do {
       flag \<leftarrow> tonumber_int E (arg_at as 2);
       ret [VBool True] (s\<lparr>pb_ud := (pb_ud s)(u \<mapsto> UMsg (m\<lparr>lm_dirty := flag\<rparr>))\<rparr>)
     })"

definition lmsg_debug_string :: "'w pb_env \<Rightarrow> 'w pb_call" where
  "lmsg_debug_string E as s = with_message (arg_at as 1) s (\<lambda>m a. ret [VStr (c_str (pe_debug E (pb_msgs s) a))] s)"

definition lmsg_msgname :: "'w pb_env \<Rightarrow> 'w pb_call" where
  "lmsg_msgname E as s =
     with_message (arg_at as 1) s (\<lambda>m a. do {
       x \<leftarrow> hp_objs (pb_msgs s) a;
       ret [VStr (c_str (ds_name (pe_types E (ms_type x))))] s
     })"

definition lmsg_tostring :: "'w pb_env \<Rightarrow> 'w pb_call" where
  "lmsg_tostring E as s =
     with_message (arg_at as 1) s (\<lambda>m a.
       ret [case pe_serialize E (pb_msgs s) a of None \<Rightarrow> VNil | Some str \<Rightarrow> VStr str] s)"

text \<open>Both messages must have the same type; the root of the first one becomes dirty.\<close>

definition two_messages ::
  "(nat \<Rightarrow> nat \<Rightarrow> pb_heap \<Rightarrow> pb_heap option) \<Rightarrow> 'w pb_call" where
  "two_messages f as s =
     with_message (arg_at as 1) s (\<lambda>m1 a1. with_message (arg_at as 2) s (\<lambda>m2 a2. do {
       x1 \<leftarrow> hp_objs (pb_msgs s) a1;
       x2 \<leftarrow> hp_objs (pb_msgs s) a2;
       if ms_type x1 \<noteq> ms_type x2 then ret [] s
       else do { s \<leftarrow> set_dirty (lm_root m1) s; s \<leftarrow> on_heap (f a2 a1) s; ret [VBool True] s }
     }))"

definition lmsg_mergefrom :: "'w pb_env \<Rightarrow> 'w pb_call" where
  "lmsg_mergefrom E = two_messages (MergeFrom (pe_types E) (pe_proto E))"

definition lmsg_copyfrom :: "'w pb_env \<Rightarrow> 'w pb_call" where
  "lmsg_copyfrom E = two_messages (CopyFrom (pe_types E) (pe_proto E))"

text \<open>A message is deleted by the collector, through its root.\<close>

definition lmsg_delete :: "'w pb_env \<Rightarrow> 'w pb_call" where
  "lmsg_delete E as s =
     check_message (arg_at as 1) s (\<lambda>u m.
       if lm_root m \<noteq> u then ret [] s
       else
         (case lm_message m of
            None \<Rightarrow> ret [] s
          | Some a \<Rightarrow> do {
              s \<leftarrow> on_heap (Delete a)
                    (s\<lparr>pb_ud := (pb_ud s)(u \<mapsto> UMsg (m\<lparr>lm_message := None\<rparr>)), s_msg_count := c_int (s_msg_count s - 1),
                       s_msg_delete_times := c_int (s_msg_delete_times s + 1)\<rparr>);
              ret [] s
            }))"

section \<open>A message as a table\<close>

text \<open>
  Only these types are converted; a field of another type is left out. The stack is the part above
  the arguments, with \<open>ctop\<close> slots; messages that are nested too deep for them are undefined.
\<close>

definition in_table :: "pb_type \<Rightarrow> bool" where
  "in_table t \<longleftrightarrow> t \<in> {TYPE_STRING, TYPE_INT32, TYPE_UINT32, TYPE_FLOAT, TYPE_DOUBLE, TYPE_BOOL}"

fun table_value :: "scalar \<Rightarrow> lua" where
  "table_value (SStr s) = VStr (c_str s)"
| "table_value (SInt n) = VNum (d_int n)"
| "table_value (SDbl d) = VNum d"
| "table_value (SBool b) = VBool b"

definition load_element ::
  "nat \<Rightarrow> (nat \<Rightarrow> lua_stack \<Rightarrow> lua_stack option) \<Rightarrow> pb_types \<Rightarrow> pb_heap \<Rightarrow> nat \<Rightarrow> pb_field \<Rightarrow> nat \<Rightarrow> lua_stack \<Rightarrow> lua_stack option" where
  "load_element ctop load D h a f i L =
     (if fd_type (field_of D f) = TYPE_MESSAGE
      then Option.bind (GetRepeatedMessage h a f i) (\<lambda>q.
             Option.bind (Option.bind (lua_pushed ctop (VNum (d_int (int i + 1)) # L)) (load q)) lua_settable)
      else if in_table (fd_type (field_of D f))
      then Option.bind (GetRepeatedValue D (field_cpp_type (field_of D f)) h a f i) (\<lambda>v.
             Option.bind (lua_pushed ctop (table_value v # VNum (d_int (int i + 1)) # L)) lua_settable)
      else Some L)"

definition load_field ::
  "nat \<Rightarrow> (nat \<Rightarrow> lua_stack \<Rightarrow> lua_stack option) \<Rightarrow> pb_types \<Rightarrow> (nat \<Rightarrow> nat) \<Rightarrow> pb_heap \<Rightarrow> nat \<Rightarrow> pb_field \<Rightarrow> lua_stack \<Rightarrow> lua_stack option" where
  "load_field ctop load D P h a f L =
     (let fd = field_of D f; k = VStr (c_str (fd_name fd))
      in if is_repeated fd
         then Option.bind (FieldSize h a f) (\<lambda>n.
                Option.bind (lua_pushed ctop (VTable [] # k # L)) (\<lambda>L.
                  Option.bind (foldo (\<lambda>i L. load_element ctop load D h a f i L) [0..<n] L) lua_settable))
         else
           Option.bind (HasField h a f) (\<lambda>b.
             if \<not> b then Some L
             else if fd_type fd = TYPE_MESSAGE
             then Option.bind (GetMessage D P h a f) (\<lambda>q. Option.bind (Option.bind (lua_pushed ctop (k # L)) (load q)) lua_settable)
             else if in_table (fd_type fd)
             then Option.bind (GetValue D (field_cpp_type fd) h a f) (\<lambda>v. Option.bind (lua_pushed ctop (table_value v # k # L)) lua_settable)
             else Some L))"

lemma load_element_mono [partial_function_mono]:
  assumes "\<And>q L. mono_option (\<lambda>f. C f q L)"
  shows "mono_option (\<lambda>f. load_element ctop (\<lambda>q L. C f q L) D h a fl i L)"
  unfolding load_element_def by (auto intro!: partial_function_mono assms option.const_mono)

lemma load_field_mono [partial_function_mono]:
  assumes "\<And>q L. mono_option (\<lambda>f. C f q L)"
  shows "mono_option (\<lambda>f. load_field ctop (\<lambda>q L. C f q L) D P h a fl L)"
  unfolding load_field_def Let_def by (auto intro!: partial_function_mono assms option.const_mono)

partial_function (option) pb_load_tree :: "nat \<Rightarrow> pb_types \<Rightarrow> (nat \<Rightarrow> nat) \<Rightarrow> pb_heap \<Rightarrow> nat \<Rightarrow> lua_stack \<Rightarrow> lua_stack option" where
  "pb_load_tree ctop D P h a L =
     Option.bind (hp_objs h a) (\<lambda>m.
       Option.bind (lua_pushed ctop (VTable [] # L))
         (foldo (\<lambda>i L. load_field ctop (\<lambda>q L. pb_load_tree ctop D P h q L) D P h a (ms_type m, i) L)
           [0..<length (ds_fields (D (ms_type m)))]))"

definition lmsg_totable :: "'w pb_env \<Rightarrow> 'w pb_call" where
  "lmsg_totable E as s =
     with_message (arg_at as 1) s (\<lambda>m a. do { L \<leftarrow> pb_load_tree LUA_MINSTACK (pe_types E) (pe_proto E) (pb_msgs s) a []; ret L s })"

section \<open>Fields\<close>

text \<open>A name that is not a field can be a method.\<close>

definition msg_methods :: "byte list list" where
  "msg_methods = map ascii
     [''tostring'', ''msgname'', ''parse_from_string'', ''parse_from_buf'', ''debug_string'', ''bytesize'', ''totable'',
      ''serialize'', ''isdirty'', ''setdirty'', ''copyfrom'']"

fun lua_value :: "scalar \<Rightarrow> lua" where
  "lua_value (SStr s) = VStr s"
| "lua_value (SInt n) = VNum (d_int n)"
| "lua_value (SDbl d) = VNum d"
| "lua_value (SBool b) = VBool b"

definition lmsg_get :: "'w pb_env \<Rightarrow> 'w pb_call" where
  "lmsg_get E as s =
     check_message (arg_at as 1) s (\<lambda>u m.
       case lm_message m of
         None \<Rightarrow> ret [] s
       | Some a \<Rightarrow> do {
           x \<leftarrow> hp_objs (pb_msgs s) a;
           name \<leftarrow> lua_tostring E (arg_at as 2);
           case FindFieldByName (pe_types E) (ms_type x) name of
             None \<Rightarrow> ret (if name \<in> set msg_methods then [VOther (pe_func E name)] else []) s
           | Some f \<Rightarrow>
               (let fd = field_of (pe_types E) f; t = field_cpp_type fd
                in if is_repeated fd
                   then (let (v, s) = new_ud (URep \<lparr>rf_message = u, rf_field = f\<rparr>) s in ret [VOther v] s)
                   else if t = CPPTYPE_MESSAGE
                   then do {
                     (q, h) \<leftarrow> MutableMessage (pe_types E) a f (pb_msgs s);
                     let (v, s) = new_ud (UMsg \<lparr>lm_message = Some q, lm_root = lm_root m, lm_dirty = 0\<rparr>) (s\<lparr>pb_msgs := h\<rparr>);
                     ret [VOther v] s
                   }
                   else if t = CPPTYPE_ENUM then ret [] s
                   else do { v \<leftarrow> GetValue (pe_types E) t (pb_msgs s) a f; ret [lua_value v] s })
         })"

text \<open>
  The value a Lua value is converted to for a field of type \<open>t\<close>: the outer option is undefined
  behaviour of the conversion, the inner one a value of the wrong type.
\<close>

definition from_lua :: "'w pb_env \<Rightarrow> cpp_type \<Rightarrow> lua \<Rightarrow> scalar option option" where
  "from_lua E t v =
     (if t = CPPTYPE_STRING then Some (map_option SStr (lua_tolstring (pe_conv E) v))
      else if t = CPPTYPE_BOOL then Some (case v of VBool b \<Rightarrow> Some (SBool b) | _ \<Rightarrow> None)
      else if \<not> lua_isnumber (pe_conv E) v then Some None
      else
        (let d = lua_tonumber (pe_conv E) v
         in case t of
              CPPTYPE_INT32 \<Rightarrow> map_option (\<lambda>n. Some (SInt n)) (d_to (- (2 ^ 31)) (2 ^ 31) d)
            | CPPTYPE_UINT32 \<Rightarrow> map_option (\<lambda>n. Some (SInt n)) (d_to 0 (2 ^ 32) d)
            | CPPTYPE_INT64 \<Rightarrow> map_option (\<lambda>n. Some (SInt n)) (d_to (- (2 ^ 63)) (2 ^ 63) d)
            | CPPTYPE_UINT64 \<Rightarrow> map_option (\<lambda>n. Some (SInt n)) (d_to 0 (2 ^ 64) d)
            | CPPTYPE_FLOAT \<Rightarrow> Some (Some (SDbl (pe_float E d)))
            | CPPTYPE_DOUBLE \<Rightarrow> Some (Some (SDbl d))
            | _ \<Rightarrow> Some None))"

definition is_ud :: "'w pb_env \<Rightarrow> 'w pb_state \<Rightarrow> lua \<Rightarrow> bool" where
  "is_ud E s v \<longleftrightarrow> lua_isuserdata (pe_conv E) v \<or> (case v of VOther u \<Rightarrow> pb_ud s u \<noteq> None | _ \<Rightarrow> False)"

text \<open>A string assigned to a message field is parsed, a message is copied.\<close>

definition set_message :: "'w pb_env \<Rightarrow> nat \<Rightarrow> pb_field \<Rightarrow> lua \<Rightarrow> 'w pb_state \<Rightarrow> (lua list option \<times> 'w pb_state) option" where
  "set_message E a f v s =
     (if lua_isstring v
      then do {
        str \<leftarrow> lua_tolstring (pe_conv E) v;
        (q, h) \<leftarrow> MutableMessage (pe_types E) a f (pb_msgs s);
        let (ok, h) = pe_parse E q str h;
        ret [VBool ok] (s\<lparr>pb_msgs := h\<rparr>)
      }
      else if is_ud E s v
      then do {
        (q, h) \<leftarrow> MutableMessage (pe_types E) a f (pb_msgs s);
        let s = s\<lparr>pb_msgs := h\<rparr>;
        with_message v s (\<lambda>m2 a2. do {
          x \<leftarrow> hp_objs h q;
          x2 \<leftarrow> hp_objs h a2;
          if ms_type x \<noteq> ms_type x2 then ret [] s
          else do { s \<leftarrow> on_heap (CopyFrom (pe_types E) (pe_proto E) a2 q) s; ret [VBool True] s }
        })
      }
      else ret [] s)"

text \<open>An \<open>int32\<close> that is the declared default is not stored: the field is cleared.\<close>

definition set_scalar :: "'w pb_env \<Rightarrow> nat \<Rightarrow> pb_field \<Rightarrow> lua \<Rightarrow> 'w pb_state \<Rightarrow> (lua list option \<times> 'w pb_state) option" where
  "set_scalar E a f v s =
     (let fd = field_of (pe_types E) f; t = field_cpp_type fd
      in do {
        x \<leftarrow> from_lua E t v;
        case x of
          None \<Rightarrow> ret [] s
        | Some x \<Rightarrow>
            if t = CPPTYPE_INT32 \<and> fd_has_default fd \<and> fd_default fd = x
            then do { s \<leftarrow> on_heap (ClearField (pe_types E) a f) s; ret push_one s }
            else do { s \<leftarrow> on_heap (SetValue (pe_types E) t a f x) s; ret push_one s }
      })"

definition lmsg_set :: "'w pb_env \<Rightarrow> 'w pb_call" where
  "lmsg_set E as s =
     with_message (arg_at as 1) s (\<lambda>m a. do {
       x \<leftarrow> hp_objs (pb_msgs s) a;
       name \<leftarrow> lua_tostring E (arg_at as 2);
       case FindFieldByName (pe_types E) (ms_type x) name of
         None \<Rightarrow> ret [] s
       | Some f \<Rightarrow>
           (let fd = field_of (pe_types E) f; v = arg_at as 3
            in if is_repeated fd then ret [] s
               else do {
                 s \<leftarrow> set_dirty (lm_root m) s;
                 if v = VNil \<and> fd_label fd = LABEL_REQUIRED then ret [] s
                 else if v = VNil then do { s \<leftarrow> on_heap (ClearField (pe_types E) a f) s; ret push_one s }
                 else if field_cpp_type fd = CPPTYPE_MESSAGE then set_message E a f v s
                 else set_scalar E a f v s
               })
     })"

section \<open>Repeated fields\<close>

text \<open>The types of elements the functions know; a message is pushed as a new userdata.\<close>

definition known_element :: "cpp_type \<Rightarrow> bool" where
  "known_element t \<longleftrightarrow> t \<in> {CPPTYPE_STRING, CPPTYPE_INT32, CPPTYPE_UINT32, CPPTYPE_FLOAT, CPPTYPE_DOUBLE, CPPTYPE_BOOL}"

definition push_element ::
  "'w pb_env \<Rightarrow> lua_message \<Rightarrow> nat \<Rightarrow> pb_field \<Rightarrow> nat \<Rightarrow> 'w pb_state \<Rightarrow> (lua option \<times> 'w pb_state) option" where
  "push_element E m a f i s =
     (let t = field_cpp_type (field_of (pe_types E) f)
      in if t = CPPTYPE_MESSAGE
         then do {
           q \<leftarrow> GetRepeatedMessage (pb_msgs s) a f i;
           let (v, s) = new_ud (UMsg \<lparr>lm_message = Some q, lm_root = lm_root m, lm_dirty = 0\<rparr>) s;
           Some (Some (VOther v), s)
         }
         else if known_element t
         then do { v \<leftarrow> GetRepeatedValue (pe_types E) t (pb_msgs s) a f i; Some (Some (table_value v), s) }
         else Some (None, s))"

definition lmsg_repeated_iter :: "'w pb_env \<Rightarrow> 'w pb_call" where
  "lmsg_repeated_iter E as s =
     with_repeated (arg_at as 1) s (\<lambda>m a f. do {
       n \<leftarrow> tonumber_int E (arg_at as 2);
       let index = n + 1;
       size \<leftarrow> FieldSize (pb_msgs s) a f;
       if index \<le> 0 \<or> int size < index then ret [VNil] s
       else do {
         (v, s) \<leftarrow> push_element E m a f (nat (index - 1)) s;
         ret (case v of None \<Rightarrow> [] | Some v \<Rightarrow> [VNum (d_int index), v]) s
       }
     })"

definition lmsg_repeated_pairs :: "'w pb_env \<Rightarrow> 'w pb_call" where
  "lmsg_repeated_pairs E as s =
     check_repeated (arg_at as 1) s (\<lambda>r. ret [VOther (pe_func E (ascii ''repeated_iter'')), last as, VNum (d_int 0)] s)"

text \<open>For the other types the last argument stays on the top of the stack and is the result.\<close>

definition lmsg_repeated_get :: "'w pb_env \<Rightarrow> 'w pb_call" where
  "lmsg_repeated_get E as s =
     with_repeated (arg_at as 1) s (\<lambda>m a f. do {
       n \<leftarrow> tonumber_int E (arg_at as 2);
       let index = n - 1;
       size \<leftarrow> FieldSize (pb_msgs s) a f;
       if index < 0 \<or> int size \<le> index then ret [VNil] s
       else do {
         (v, s) \<leftarrow> push_element E m a f (nat index) s;
         ret [case v of None \<Rightarrow> last as | Some v \<Rightarrow> v] s
       }
     })"

definition lmsg_repeated_count :: "'w pb_env \<Rightarrow> 'w pb_call" where
  "lmsg_repeated_count E as s =
     with_repeated (arg_at as 1) s (\<lambda>m a f. do { n \<leftarrow> FieldSize (pb_msgs s) a f; ret [VNum (d_int (int n))] s })"

text \<open>What is added is converted without a check of its type.\<close>

definition add_value :: "'w pb_env \<Rightarrow> cpp_type \<Rightarrow> lua \<Rightarrow> scalar option" where
  "add_value E t v =
     (case t of
        CPPTYPE_STRING \<Rightarrow> map_option SStr (lua_tostring E v)
      | CPPTYPE_INT32 \<Rightarrow> map_option SInt (tointeger_int E v)
      | CPPTYPE_UINT32 \<Rightarrow> map_option SInt (d_to 0 (2 ^ 32) (lua_tonumber (pe_conv E) v))
      | CPPTYPE_FLOAT \<Rightarrow> Some (SDbl (pe_float E (lua_tonumber (pe_conv E) v)))
      | CPPTYPE_DOUBLE \<Rightarrow> Some (SDbl (lua_tonumber (pe_conv E) v))
      | _ \<Rightarrow> Some (SBool (lua_toboolean v)))"

definition lmsg_repeated_add :: "'w pb_env \<Rightarrow> 'w pb_call" where
  "lmsg_repeated_add E as s =
     with_repeated (arg_at as 1) s (\<lambda>m a f. do {
       s \<leftarrow> set_dirty (lm_root m) s;
       let t = field_cpp_type (field_of (pe_types E) f);
       if t = CPPTYPE_MESSAGE
       then do {
         (q, h) \<leftarrow> AddMessage (pe_types E) a f (pb_msgs s);
         let (v, s) = new_ud (UMsg \<lparr>lm_message = Some q, lm_root = lm_root m, lm_dirty = 0\<rparr>) (s\<lparr>pb_msgs := h\<rparr>);
         ret [VOther v] s
       }
       else if known_element t
       then do {
         x \<leftarrow> add_value E t (arg_at as 2);
         s \<leftarrow> on_heap (AddValue (pe_types E) t a f x) s;
         ret [VBool True] s
       }
       else ret [] s
     })"

text \<open>Here the type of the Lua value itself must fit.\<close>

definition exact_value :: "'w pb_env \<Rightarrow> cpp_type \<Rightarrow> lua \<Rightarrow> scalar option option" where
  "exact_value E t v =
     (case (t, v) of
        (CPPTYPE_STRING, VStr str) \<Rightarrow> Some (Some (SStr (c_str str)))
      | (CPPTYPE_INT32, VNum d) \<Rightarrow> map_option (\<lambda>n. Some (SInt n)) (d_to (- (2 ^ 31)) (2 ^ 31) d)
      | (CPPTYPE_UINT32, VNum d) \<Rightarrow> map_option (\<lambda>n. Some (SInt n)) (d_to 0 (2 ^ 32) d)
      | (CPPTYPE_FLOAT, VNum d) \<Rightarrow> Some (Some (SDbl (pe_float E d)))
      | (CPPTYPE_DOUBLE, VNum d) \<Rightarrow> Some (Some (SDbl d))
      | (CPPTYPE_BOOL, VBool b) \<Rightarrow> Some (Some (SBool b))
      | _ \<Rightarrow> Some None)"

text \<open>The element of an index in the range, counted from one; otherwise the call returns nothing.\<close>

definition with_index ::
  "'w pb_env \<Rightarrow> lua list \<Rightarrow> 'w pb_state \<Rightarrow>
   (lua_message \<Rightarrow> nat \<Rightarrow> pb_field \<Rightarrow> nat \<Rightarrow> nat \<Rightarrow> (lua list option \<times> 'w pb_state) option) \<Rightarrow> (lua list option \<times> 'w pb_state) option" where
  "with_index E as s k =
     with_repeated (arg_at as 1) s (\<lambda>m a f. do {
       n \<leftarrow> tonumber_int E (arg_at as 2);
       let index = n - 1;
       size \<leftarrow> FieldSize (pb_msgs s) a f;
       if index < 0 \<or> int size \<le> index then ret [] s else k m a f (nat index) size
     })"

definition lmsg_repeated_set :: "'w pb_env \<Rightarrow> 'w pb_call" where
  "lmsg_repeated_set E as s =
     with_index E as s (\<lambda>m a f i size. do {
       s \<leftarrow> set_dirty (lm_root m) s;
       let t = field_cpp_type (field_of (pe_types E) f);
       x \<leftarrow> exact_value E t (arg_at as 3);
       case x of
         None \<Rightarrow> ret [] s
       | Some x \<Rightarrow> do { s \<leftarrow> on_heap (SetRepeatedValue (pe_types E) t a f i x) s; ret push_one s }
     })"

definition lmsg_repeated_remove_last :: "'w pb_env \<Rightarrow> 'w pb_call" where
  "lmsg_repeated_remove_last E as s =
     with_repeated (arg_at as 1) s (\<lambda>m a f. do {
       size \<leftarrow> FieldSize (pb_msgs s) a f;
       if size = 0 then ret push_one s
       else do {
         s \<leftarrow> set_dirty (lm_root m) s;
         s \<leftarrow> on_heap (RemoveLast (pe_types E) a f) s;
         ret push_one s
       }
     })"

definition lmsg_repeated_remove_at :: "'w pb_env \<Rightarrow> 'w pb_call" where
  "lmsg_repeated_remove_at E as s =
     with_index E as s (\<lambda>m a f i size. do {
       s \<leftarrow> set_dirty (lm_root m) s;
       s \<leftarrow> on_heap (foldo (\<lambda>j. SwapElements a f (j + i) (j + i + 1)) [0..<size - i - 1]) s;
       s \<leftarrow> on_heap (RemoveLast (pe_types E) a f) s;
       ret push_one s
     })"

definition lmsg_repeated_remove :: "'w pb_env \<Rightarrow> 'w pb_call" where
  "lmsg_repeated_remove E as s =
     with_index E as s (\<lambda>m a f i size. do {
       s \<leftarrow> set_dirty (lm_root m) s;
       s \<leftarrow> on_heap (SwapElements a f i (size - 1)) s;
       s \<leftarrow> on_heap (RemoveLast (pe_types E) a f) s;
       ret push_one s
     })"

definition lmsg_repeated_clear :: "'w pb_env \<Rightarrow> 'w pb_call" where
  "lmsg_repeated_clear E as s =
     with_repeated (arg_at as 1) s (\<lambda>m a f. do {
       s \<leftarrow> set_dirty (lm_root m) s;
       s \<leftarrow> on_heap (ClearField (pe_types E) a f) s;
       ret push_one s
     })"

definition merge_element :: "'w pb_env \<Rightarrow> nat \<Rightarrow> pb_field \<Rightarrow> nat \<Rightarrow> pb_field \<Rightarrow> nat \<Rightarrow> pb_heap \<Rightarrow> pb_heap option" where
  "merge_element E a1 f1 a2 f2 i h =
     (let t = field_cpp_type (field_of (pe_types E) f1)
      in if t = CPPTYPE_MESSAGE
         then do {
           (q, h) \<leftarrow> AddMessage (pe_types E) a1 f1 h;
           p \<leftarrow> GetRepeatedMessage h a2 f2 i;
           CopyFrom (pe_types E) (pe_proto E) p q h
         }
         else if known_element t
         then do { v \<leftarrow> GetRepeatedValue (pe_types E) t h a2 f2 i; AddValue (pe_types E) t a1 f1 v h }
         else Some h)"

definition lmsg_repeated_merge_from :: "'w pb_env \<Rightarrow> 'w pb_call" where
  "lmsg_repeated_merge_from E as s =
     with_repeated (arg_at as 1) s (\<lambda>m1 a1 f1. with_repeated (arg_at as 2) s (\<lambda>m2 a2 f2. do {
       s \<leftarrow> set_dirty (lm_root m1) s;
       count \<leftarrow> FieldSize (pb_msgs s) a2 f2;
       s \<leftarrow> on_heap (foldo (merge_element E a1 f1 a2 f2) [0..<count]) s;
       ret [VBool True] s
     }))"

section \<open>Searching\<close>

text \<open>
  The conditions are read into arrays of 50 entries. \<open>lua_tostring\<close> on a number changes the key itself
  into a string, with which \<open>lua_next\<close> goes on. A key that is no string has a null pointer as its name.
\<close>

partial_function (option) find_query ::
  "lua_conv \<Rightarrow> (lua \<times> lua) list \<Rightarrow> lua \<Rightarrow> (byte list option \<times> lua) list \<Rightarrow> (byte list option \<times> lua) list option option" where
  "find_query C es k acc =
     (case next_entry es k of
        None \<Rightarrow> Some None
      | Some [] \<Rightarrow> Some (Some acc)
      | Some ((k, v) # _) \<Rightarrow>
          if 50 \<le> length acc then None
          else find_query C es (case k of VNum d \<Rightarrow> VStr (cv_numstr C d) | _ \<Rightarrow> k)
                 (acc @ [(map_option c_str (lua_tolstring C k), v)]))"

text \<open>
  The comparison of one condition: whether the loop goes on. A number or a flag that is equal ends the
  loop, as a string that is different does. For a flag the value compared with was never written.
\<close>

fun dbl_equal :: "scalar \<Rightarrow> dbl \<Rightarrow> bool" where
  "dbl_equal (SDbl x) y \<longleftrightarrow> d_le x y \<and> d_le y x"
| "dbl_equal _ y \<longleftrightarrow> False"

definition find_test :: "'w pb_env \<Rightarrow> pb_heap \<Rightarrow> nat \<Rightarrow> pb_field \<Rightarrow> lua \<Rightarrow> bool option" where
  "find_test E h a f v =
     (let t = field_cpp_type (field_of (pe_types E) f)
      in case v of
           VStr str \<Rightarrow>
             if t = CPPTYPE_STRING
             then do { x \<leftarrow> GetValue (pe_types E) t h a f; Some (case x of SStr y \<Rightarrow> c_str y = c_str str | _ \<Rightarrow> False) }
             else Some True
         | VNum d \<Rightarrow>
             if t = CPPTYPE_INT32
             then do { x \<leftarrow> GetValue (pe_types E) t h a f; n \<leftarrow> d_to (- (2 ^ 31)) (2 ^ 31) d; Some (x \<noteq> SInt n) }
             else if t = CPPTYPE_UINT32
             then do { x \<leftarrow> GetValue (pe_types E) t h a f; n \<leftarrow> d_to 0 (2 ^ 32) d; Some (x \<noteq> SInt n) }
             else if t = CPPTYPE_FLOAT
             then do { x \<leftarrow> GetValue (pe_types E) t h a f; Some (\<not> dbl_equal x (pe_float E d)) }
             else if t = CPPTYPE_DOUBLE
             then do { x \<leftarrow> GetValue (pe_types E) t h a f; Some (\<not> dbl_equal x d) }
             else if t = CPPTYPE_BOOL then None
             else Some True
         | _ \<Rightarrow> Some True)"

fun find_conditions :: "'w pb_env \<Rightarrow> pb_heap \<Rightarrow> nat \<Rightarrow> nat \<Rightarrow> (byte list option \<times> lua) list \<Rightarrow> unit option" where
  "find_conditions E h d a [] = Some ()"
| "find_conditions E h d a ((None, v) # qs) = None"
| "find_conditions E h d a ((Some name, v) # qs) =
     (case FindFieldByName (pe_types E) d name of
        None \<Rightarrow> Some ()
      | Some f \<Rightarrow> do { more \<leftarrow> find_test E h a f v; if more then find_conditions E h d a qs else Some () })"

text \<open>Nothing is done with what was found.\<close>

definition lmsg_repeated_find :: "'w pb_env \<Rightarrow> 'w pb_call" where
  "lmsg_repeated_find E as s =
     check_repeated (arg_at as 1) s (\<lambda>r. do {
       m \<leftarrow> ud_message s (rf_message r);
       a \<leftarrow> lm_message m;
       let f = rf_field r;
       if field_cpp_type (field_of (pe_types E) f) \<noteq> CPPTYPE_MESSAGE then ret [] s
       else
         (case arg_at as 2 of
            VTable es \<Rightarrow> do {
              qs \<leftarrow> find_query (pe_conv E) es VNil [];
              case qs of
                None \<Rightarrow> lua_error s
              | Some qs \<Rightarrow> do {
                  size \<leftarrow> FieldSize (pb_msgs s) a f;
                  _ \<leftarrow> foldo (\<lambda>i _. do {
                         q \<leftarrow> GetRepeatedMessage (pb_msgs s) a f i;
                         x \<leftarrow> hp_objs (pb_msgs s) q;
                         find_conditions E (pb_msgs s) (ms_type x) q qs
                       }) [0..<size] ();
                  ret [] s
                }
            }
          | _ \<Rightarrow> None)
     })"

section \<open>The collector\<close>

text \<open>Lua calls the finalizer of a message that no script can reach, and then frees the userdata.\<close>

definition pb_collect :: "'w pb_env \<Rightarrow> nat \<Rightarrow> 'w pb_state \<Rightarrow> 'w pb_state option" where
  "pb_collect E u s =
     (case pb_ud s u of
        Some (UMsg m) \<Rightarrow> do { (_, s) \<leftarrow> lmsg_delete E [VOther u] s; Some (s\<lparr>pb_ud := (pb_ud s)(u := None)\<rparr>) }
      | _ \<Rightarrow> Some (s\<lparr>pb_ud := (pb_ud s)(u := None)\<rparr>))"

end
