(* ===== verification/Pblua_Spec.thy ===== *)
theory Pblua_Spec
  imports Pblua
begin

text \<open>
  The protobuf binding: the table of a message, setting and reading fields, removing elements of
  repeated fields, and the messages that are used after their root was collected.
\<close>

section \<open>The value of a message\<close>

text \<open>A message as a value, without addresses: what is set, and the elements in use.\<close>

datatype pb_value = PB nat "pb_entry list"
  and pb_entry = EOne "scalar option" | ESub "pb_value option" | EMany "scalar list" | ESubs "pb_value list"

text \<open>A slot holds an entry, with the relation \<open>R\<close> between messages and their values.\<close>

fun slot_entry :: "(nat \<Rightarrow> pb_value \<Rightarrow> bool) \<Rightarrow> pb_slot \<Rightarrow> pb_entry \<Rightarrow> bool" where
  "slot_entry R (One b x) (EOne y) \<longleftrightarrow> y = (if b then Some x else None)"
| "slot_entry R (OneMsg b p) (ESub y) \<longleftrightarrow> (case y of None \<Rightarrow> \<not> b | Some v \<Rightarrow> b \<and> (\<exists>q. p = Some q \<and> R q v))"
| "slot_entry R (Many xs) (EMany ys) \<longleftrightarrow> xs = ys"
| "slot_entry R (ManyMsg n ps) (ESubs vs) \<longleftrightarrow> n \<le> length ps \<and> list_all2 R (take n ps) vs"
| "slot_entry R _ _ \<longleftrightarrow> False"

lemma slot_entry_mono [mono]: "R \<le> S \<Longrightarrow> slot_entry R s e \<longrightarrow> slot_entry S s e"
  by (cases "(R, s, e)" rule: slot_entry.cases) (auto split: option.splits elim!: list_all2_mono)

inductive has_value :: "pb_heap \<Rightarrow> nat \<Rightarrow> pb_value \<Rightarrow> bool" for h where
  has_valueI: "hp_objs h a = Some m \<Longrightarrow> list_all2 (slot_entry (has_value h)) (ms_slots m) es \<Longrightarrow> has_value h a (PB (ms_type m) es)"

text \<open>The table of a value.\<close>

definition number_values :: "lua list \<Rightarrow> lua" where
  "number_values vs = VTable (map (\<lambda>i. (VNum (Fin (of_nat (i + 1))), vs ! i)) [0..<length vs])"

lemma zip_size [termination_simp]: "(x, y) \<in> set (zip xs ys) \<Longrightarrow> size y \<le> size_list size ys"
  by (meson set_zip_rightD size_list_estimation' le_refl)

fun value_table :: "pb_types \<Rightarrow> pb_value \<Rightarrow> lua"
  and entry_table :: "pb_types \<Rightarrow> pb_type \<Rightarrow> pb_entry \<Rightarrow> lua option"
where
  "value_table D (PB d es) =
     VTable (concat (map (\<lambda>(fd, e).
        case entry_table D (fd_type fd) e of None \<Rightarrow> [] | Some v \<Rightarrow> [(VStr (c_str (fd_name fd)), v)])
       (zip (ds_fields (D d)) es)))"
| "entry_table D t (EOne x) = (case x of None \<Rightarrow> None | Some v \<Rightarrow> if in_table t then Some (table_value v) else None)"
| "entry_table D t (ESub x) = (case x of None \<Rightarrow> None | Some v \<Rightarrow> if t = TYPE_MESSAGE then Some (value_table D v) else None)"
| "entry_table D t (EMany xs) = Some (number_values (if in_table t then map table_value xs else []))"
| "entry_table D t (ESubs vs) = Some (number_values (if t = TYPE_MESSAGE then map (value_table D) vs else []))"

text \<open>
  The stack slots that a value needs: one for its table, one for the name of a field and one for its
  value; a repeated field has its own table, and a number for each element.
\<close>

fun pb_room :: "pb_value \<Rightarrow> nat" and entry_room :: "pb_entry \<Rightarrow> nat" where
  "pb_room (PB d es) = 1 + Max (insert 0 (entry_room ` set es))"
| "entry_room (EOne x) = (case x of None \<Rightarrow> 0 | Some v \<Rightarrow> 2)"
| "entry_room (ESub x) = (case x of None \<Rightarrow> 0 | Some v \<Rightarrow> 1 + pb_room v)"
| "entry_room (EMany xs) = (if xs = [] then 2 else 4)"
| "entry_room (ESubs vs) = (if vs = [] then 2 else 3 + Max (pb_room ` set vs))"

lemma entry_room_le: "e \<in> set es \<Longrightarrow> 1 + entry_room e \<le> pb_room (PB d es)"
  by (auto intro!: Max_ge)

lemma subs_room_le: "v \<in> set vs \<Longrightarrow> 3 + pb_room v \<le> entry_room (ESubs vs)"
  by (auto intro!: Max_ge)

text \<open>What the conversion of a message in a field does, when it has the slots it needs.\<close>

definition loads :: "nat \<Rightarrow> (nat \<Rightarrow> lua_stack \<Rightarrow> lua_stack option) \<Rightarrow> pb_types \<Rightarrow> nat \<Rightarrow> pb_value \<Rightarrow> bool" where
  "loads ctop load D q v \<longleftrightarrow> (\<forall>L. length L + pb_room v \<le> ctop \<longrightarrow> load q L = Some (value_table D v # L))"

text \<open>Slots that fit their fields: the kind of the slot, and the default value where the has bit is off.\<close>

fun slot_fits :: "field_descriptor \<Rightarrow> pb_slot \<Rightarrow> bool" where
  "slot_fits fd (One b v) \<longleftrightarrow> \<not> is_repeated fd \<and> field_cpp_type fd \<noteq> CPPTYPE_MESSAGE \<and> (b \<or> v = fd_default fd)"
| "slot_fits fd (OneMsg b p) \<longleftrightarrow> \<not> is_repeated fd \<and> field_cpp_type fd = CPPTYPE_MESSAGE \<and> (b \<longrightarrow> p \<noteq> None)"
| "slot_fits fd (Many vs) \<longleftrightarrow> is_repeated fd \<and> field_cpp_type fd \<noteq> CPPTYPE_MESSAGE \<and> int (length vs) < 2 ^ 31"
| "slot_fits fd (ManyMsg n ps) \<longleftrightarrow> is_repeated fd \<and> field_cpp_type fd = CPPTYPE_MESSAGE \<and> n \<le> length ps \<and> int (length ps) < 2 ^ 31"

definition heap_fits :: "pb_types \<Rightarrow> pb_heap \<Rightarrow> bool" where
  "heap_fits D h \<longleftrightarrow> (\<forall>a m. hp_objs h a = Some m \<longrightarrow> list_all2 slot_fits (ds_fields (D (ms_type m))) (ms_slots m))"

text \<open>The names of the fields of a type are different.\<close>

definition types_ok :: "pb_types \<Rightarrow> bool" where
  "types_ok D \<longleftrightarrow> (\<forall>d. distinct (map (\<lambda>fd. c_str (fd_name fd)) (ds_fields (D d))))"

section \<open>Loops that fill a table\<close>

lemma foldo_append: "foldo f (xs @ ys) s = Option.bind (foldo f xs s) (foldo f ys)"
  by (induction xs arbitrary: s) (auto split: bind_splits)

lemma foldo_entries:
  assumes "\<And>i es. i < n \<Longrightarrow> step i (VTable es # L) = Some (VTable (case val i of None \<Rightarrow> es | Some v \<Rightarrow> set_entry (key i) v es) # L)"
    and "inj_on key {..<n}" and "\<And>i. i < n \<Longrightarrow> val i \<noteq> Some VNil"
  shows "foldo step [0..<n] (VTable [] # L)
    = Some (VTable (concat (map (\<lambda>i. case val i of None \<Rightarrow> [] | Some v \<Rightarrow> [(key i, v)]) [0..<n])) # L)"
  using assms
proof (induction n)
  case (Suc n)
  let ?es = "concat (map (\<lambda>i. case val i of None \<Rightarrow> [] | Some v \<Rightarrow> [(key i, v)]) [0..<n])"
  have "fst ` set ?es \<subseteq> key ` {..<n}" by (auto split: option.splits)
  moreover have "key n \<notin> key ` {..<n}" using Suc.prems(2) by (auto dest!: inj_onD)
  ultimately have "key n \<notin> fst ` set ?es" by blast
  then have "set_entry (key n) v ?es = ?es @ [(key n, v)]" if "val n = Some v" for v
    using that Suc.prems(3) [of n] by (intro set_entry_new) auto
  moreover have "foldo step [0..<n] (VTable [] # L) = Some (VTable ?es # L)"
    by (rule Suc.IH) (use Suc.prems in \<open>auto simp: inj_on_def\<close>)
  ultimately show ?case using Suc.prems(1) [of n ?es] by (auto simp: foldo_append split: option.splits)
qed simp

lemma foldo_numbers:
  assumes "\<And>i es. i < length vs \<Longrightarrow>
      step i (VTable es # L) = Some (VTable (set_entry (VNum (d_int (int i + 1))) (vs ! i) es) # L)"
    and "int (length vs) < 2 ^ 52" "VNil \<notin> set vs"
  shows "foldo step [0..<length vs] (VTable [] # L) = Some (number_values vs # L)"
proof -
  let ?key = "\<lambda>i. VNum (Fin (of_nat (i + 1)))"
  have d: "d_int (int i + 1) = Fin (of_nat (i + 1))" if "i < length vs" for i
    using d_int_exact [of "int i + 1"] that assms(2) by simp
  have "foldo step [0..<length vs] (VTable [] # L)
      = Some (VTable (concat (map (\<lambda>i. case Some (vs ! i) of None \<Rightarrow> [] | Some v \<Rightarrow> [(?key i, v)]) [0..<length vs])) # L)"
  proof (rule foldo_entries)
    fix i es assume "i < length vs"
    then show "step i (VTable es # L) = Some (VTable (case Some (vs ! i) of None \<Rightarrow> es | Some v \<Rightarrow> set_entry (?key i) v es) # L)"
      using assms(1) d by simp
  next
    fix i assume "i < length vs"
    then show "Some (vs ! i) \<noteq> Some VNil" using assms(3) by (metis nth_mem option.inject)
  qed (simp add: inj_on_def)
  moreover have "concat (map (\<lambda>i. [f i]) xs) = map f xs" for f :: "nat \<Rightarrow> lua \<times> lua" and xs by (induction xs) auto
  ultimately show ?thesis by (simp add: number_values_def)
qed

section \<open>The table of a message\<close>

lemma table_value_not_nil: "table_value v \<noteq> VNil"
  by (cases v) auto

lemma value_table_not_nil: "value_table D v \<noteq> VNil"
  by (cases v) simp

lemma entry_table_not_nil: "entry_table D t e \<noteq> Some VNil"
  by (cases e) (auto simp: table_value_not_nil value_table_not_nil number_values_def split: option.splits)

lemma in_table_scalar: "in_table t \<Longrightarrow> t \<noteq> TYPE_MESSAGE \<and> kTypeToCppTypeMap t \<noteq> CPPTYPE_MESSAGE"
  by (auto simp: in_table_def)

lemma foldo_skip: "(\<And>x. x \<in> set xs \<Longrightarrow> f x s = Some s) \<Longrightarrow> foldo f xs s = Some s"
  by (induction xs) auto

text \<open>The elements of a repeated field, when the messages among them are converted.\<close>

lemma load_values_law:
  assumes "slot_at h a f = Some (Many xs)" "slot_fits (field_of D f) (Many xs)" "length L + entry_room (EMany xs) \<le> ctop + 1"
  shows "foldo (load_element ctop load D h a f) [0..<length xs] (VTable [] # L)
    = Some (number_values (if in_table (fd_type (field_of D f)) then map table_value xs else []) # L)"
proof (cases "in_table (fd_type (field_of D f))")
  case True
  have step: "load_element ctop load D h a f i (VTable es # L)
      = Some (VTable (set_entry (VNum (d_int (int i + 1))) (map table_value xs ! i) es) # L)" if "i < length xs" for i es
  proof -
    have "Suc (Suc (Suc (length L))) \<le> ctop" using that assms(3) by (cases xs) auto
    then show ?thesis using True assms(1,2) in_table_scalar that
      by (simp add: load_element_def GetRepeatedValue_def field_cpp_type_def table_value_not_nil [symmetric])
  qed
  have "foldo (load_element ctop load D h a f) [0..<length (map table_value xs)] (VTable [] # L) = Some (number_values (map table_value xs) # L)"
    by (rule foldo_numbers)
      (use assms(2) step in \<open>auto simp: table_value_not_nil [symmetric]\<close>)
  then show ?thesis using True by simp
next
  case False
  then have "foldo (load_element ctop load D h a f) [0..<length xs] (VTable [] # L) = Some (VTable [] # L)"
    using assms by (intro foldo_skip) (auto simp: load_element_def field_cpp_type_def)
  then show ?thesis using False by (simp add: number_values_def)
qed

lemma load_messages_law:
  assumes "slot_at h a f = Some (ManyMsg n ps)" "slot_fits (field_of D f) (ManyMsg n ps)"
    and vs: "list_all2 (loads ctop load D) (take n ps) vs" and room: "length L + entry_room (ESubs vs) \<le> ctop + 1"
  shows "foldo (load_element ctop load D h a f) [0..<n] (VTable [] # L)
    = Some (number_values (if fd_type (field_of D f) = TYPE_MESSAGE then map (value_table D) vs else []) # L)"
proof (cases "fd_type (field_of D f) = TYPE_MESSAGE")
  case True
  have n: "length vs = n" using vs assms(2) by (auto dest: list_all2_lengthD)
  have step: "load_element ctop load D h a f i (VTable es # L)
      = Some (VTable (set_entry (VNum (d_int (int i + 1))) (map (value_table D) vs ! i) es) # L)" if "i < n" for i es
  proof -
    have "loads ctop load D (ps ! i) (vs ! i)" using list_all2_nthD [OF vs, of i] that n assms(2) by simp
    moreover have r: "length L + 2 + pb_room (vs ! i) \<le> ctop" using room subs_room_le [of "vs ! i" vs] that n by simp
    ultimately have "load (ps ! i) (VNum k # VTable es # L) = Some (value_table D (vs ! i) # VNum k # VTable es # L)" for k
      by (simp add: loads_def)
    then show ?thesis using True assms(1,2) r that n by (simp add: load_element_def GetRepeatedMessage_def)
  qed
  have "foldo (load_element ctop load D h a f) [0..<length (map (value_table D) vs)] (VTable [] # L) = Some (number_values (map (value_table D) vs) # L)"
    by (rule foldo_numbers)
      (use step assms(2) n in \<open>auto simp: value_table_not_nil [symmetric]\<close>)
  then show ?thesis using True n by simp
next
  case False
  then have "foldo (load_element ctop load D h a f) [0..<n] (VTable [] # L) = Some (VTable [] # L)"
    using assms in_table_scalar by (intro foldo_skip) (auto simp: load_element_def field_cpp_type_def)
  then show ?thesis using False by (simp add: number_values_def)
qed

text \<open>One field: its entry of the table.\<close>

lemma load_field_law:
  assumes at: "slot_at h a f = Some sl" and fit: "slot_fits (field_of D f) sl"
    and e: "slot_entry (loads ctop load D) sl e" and room: "length L + 1 + entry_room e \<le> ctop"
  shows "load_field ctop load D P h a f (VTable es # L)
    = Some (VTable (case entry_table D (fd_type (field_of D f)) e of None \<Rightarrow> es
        | Some v \<Rightarrow> set_entry (VStr (c_str (fd_name (field_of D f)))) v es) # L)"
proof (cases sl)
  case (One b x)
  then show ?thesis using assms
    by (cases e) (auto simp: load_field_def HasField_def GetValue_def Let_def field_cpp_type_def)
next
  case (OneMsg b p)
  then show ?thesis using assms in_table_scalar
    by (cases e) (auto simp: loads_def load_field_def HasField_def GetMessage_def Let_def field_cpp_type_def split: option.splits)
next
  case (Many xs)
  then have "e = EMany xs" using e by (cases e) auto
  moreover from this have "Suc (Suc (Suc (length L))) \<le> ctop" using room by (auto split: if_splits)
  ultimately show ?thesis using load_values_law [of h a f xs D "VStr (c_str (fd_name (field_of D f))) # VTable es # L" ctop load] assms Many
    by (simp add: load_field_def FieldSize_def Let_def number_values_def)
next
  case (ManyMsg n ps)
  then obtain vs where "e = ESubs vs" "list_all2 (loads ctop load D) (take n ps) vs"
    using e by (cases e) auto
  moreover from this have "Suc (Suc (Suc (length L))) \<le> ctop" using room by (auto split: if_splits)
  ultimately show ?thesis using load_messages_law [of h a f n ps D ctop load vs "VStr (c_str (fd_name (field_of D f))) # VTable es # L"] assms ManyMsg
    by (simp add: load_field_def FieldSize_def Let_def number_values_def)
qed

lemma map2_upt: "length xs = length ys \<Longrightarrow> map (\<lambda>(x, y). f x y) (zip xs ys) = map (\<lambda>i. f (xs ! i) (ys ! i)) [0..<length xs]"
  by (rule nth_equalityI) simp_all

lemma load_tree_law:
  assumes D: "types_ok D" "heap_fits D h"
  shows "has_value h a v \<Longrightarrow> length L + pb_room v \<le> ctop \<Longrightarrow> pb_load_tree ctop D P h a L = Some (value_table D v # L)"
proof (induction arbitrary: L rule: has_value.induct)
  case (has_valueI a m es)
  let ?fds = "ds_fields (D (ms_type m))" and ?load = "\<lambda>q L. pb_load_tree ctop D P h q L"
  have fits: "list_all2 slot_fits ?fds (ms_slots m)" using D(2) has_valueI.hyps(1) by (simp add: heap_fits_def)
  then have len: "length ?fds = length (ms_slots m)" "length es = length (ms_slots m)"
    using has_valueI.IH by (auto dest: list_all2_lengthD)
  let ?val = "\<lambda>i. entry_table D (fd_type (?fds ! i)) (es ! i)" and ?key = "\<lambda>i. VStr (c_str (fd_name (?fds ! i)))"
  have "foldo (\<lambda>i L. load_field ctop ?load D P h a (ms_type m, i) L) [0..<length ?fds] (VTable [] # L)
      = Some (VTable (concat (map (\<lambda>i. case ?val i of None \<Rightarrow> [] | Some v \<Rightarrow> [(?key i, v)]) [0..<length ?fds])) # L)"
  proof (rule foldo_entries)
    fix i acc assume i: "i < length ?fds"
    have at: "slot_at h a (ms_type m, i) = Some (ms_slots m ! i)" using i len has_valueI.hyps(1) by (simp add: slot_at_def)
    have fit: "slot_fits (field_of D (ms_type m, i)) (ms_slots m ! i)" using fits i by (simp add: field_of_def list_all2_conv_all_nth)
    have "slot_entry (\<lambda>q v. has_value h q v \<and> (\<forall>L. length L + pb_room v \<le> ctop \<longrightarrow> ?load q L = Some (value_table D v # L))) (ms_slots m ! i) (es ! i)"
      using has_valueI.IH i len by (simp add: list_all2_conv_all_nth)
    then have "slot_entry (loads ctop ?load D) (ms_slots m ! i) (es ! i)"
      unfolding loads_def using slot_entry_mono by (metis (mono_tags, lifting) predicate2I)
    moreover have "length L + 1 + entry_room (es ! i) \<le> ctop"
      using has_valueI.prems entry_room_le [of "es ! i" es "ms_type m"] i len by (simp del: pb_room.simps)
    ultimately have "load_field ctop ?load D P h a (ms_type m, i) (VTable acc # L)
        = Some (VTable (case entry_table D (fd_type (field_of D (ms_type m, i))) (es ! i) of None \<Rightarrow> acc
          | Some v \<Rightarrow> set_entry (VStr (c_str (fd_name (field_of D (ms_type m, i))))) v acc) # L)"
      by (rule load_field_law [OF at fit])
    then
    show "load_field ctop ?load D P h a (ms_type m, i) (VTable acc # L)
        = Some (VTable (case ?val i of None \<Rightarrow> acc | Some v \<Rightarrow> set_entry (?key i) v acc) # L)"
      unfolding field_of_def fst_conv snd_conv .
  next
    show "inj_on ?key {..<length ?fds}"
      using D(1) by (auto simp: types_ok_def inj_on_def distinct_conv_nth)
  qed (simp add: entry_table_not_nil)
  moreover have "map (\<lambda>(fd, e). case entry_table D (fd_type fd) e of None \<Rightarrow> [] | Some v \<Rightarrow> [(VStr (c_str (fd_name fd)), v)]) (zip ?fds es)
      = map (\<lambda>i. case ?val i of None \<Rightarrow> [] | Some v \<Rightarrow> [(?key i, v)]) [0..<length ?fds]"
    using len by (subst map2_upt) simp_all
  ultimately show ?case using has_valueI.hyps(1) has_valueI.prems by (subst pb_load_tree.simps) simp
qed

text \<open>C19: \<open>totable\<close> turns a message, with the messages inside it, into one table: every field that is set and
  every repeated field is an entry under its name, repeated fields as tables numbered from one. Fields of the types
  it does not know (64-bit integers, bytes, enumerations and others) are left out. The message is not changed. The
  messages may be nested as deep as the \<open>LUA_MINSTACK\<close> slots of the C function allow, since \<open>pb_load_tree\<close> never
  asks for more: a message in a field takes two slots more than its own, a message in a repeated field four.\<close>

theorem totable_value:
  assumes "types_ok (pe_types E)" "heap_fits (pe_types E) (pb_msgs s)" "pb_ud s u = Some (UMsg m)" "lm_message m = Some a"
    "has_value (pb_msgs s) a v" "pb_room v \<le> LUA_MINSTACK"
  shows "lmsg_totable E [VOther u] s = Some (Some [value_table (pe_types E) v], s)"
  using load_tree_law [OF assms(1,2,5), of "[]" LUA_MINSTACK "pe_proto E"] assms(3,4,6)
  by (simp add: lmsg_totable_def with_message_def check_message_def arg_at_def ret_def)

text \<open>
  A type with a number (default 7), a repeated text and a list of messages of the same type, and a heap
  with a message that has one text and one message inside it.
\<close>

definition demo_field :: "nat \<Rightarrow> pb_type \<Rightarrow> pb_label \<Rightarrow> bool \<Rightarrow> scalar \<Rightarrow> field_descriptor" where
  "demo_field c t l b v = \<lparr>fd_name = [of_nat c], fd_number = int c - 96, fd_type = t, fd_label = l, fd_has_default = b, fd_default = v, fd_message = 0\<rparr>"

definition demo_types :: pb_types where
  "demo_types d = \<lparr>ds_name = [84], ds_fields = [demo_field 97 TYPE_INT32 LABEL_OPTIONAL True (SInt 7),
     demo_field 98 TYPE_STRING LABEL_REPEATED False (SStr []), demo_field 99 TYPE_MESSAGE LABEL_REPEATED False (SInt 0)]\<rparr>"

definition demo_heap :: pb_heap where
  "demo_heap = \<lparr>hp_objs = [0 \<mapsto> \<lparr>ms_type = 0, ms_slots = [One True (SInt 5), Many [SStr [120]], ManyMsg 1 [1]]\<rparr>,
     1 \<mapsto> \<lparr>ms_type = 0, ms_slots = [One False (SInt 7), Many [], ManyMsg 0 []]\<rparr>], hp_next = 2\<rparr>"

definition demo_state :: "unit pb_state" where
  "demo_state = \<lparr>pb_msgs = demo_heap, pb_ud = [10 \<mapsto> UMsg \<lparr>lm_message = Some 0, lm_root = 10, lm_dirty = 0\<rparr>,
       11 \<mapsto> UMsg \<lparr>lm_message = Some 1, lm_root = 10, lm_dirty = 0\<rparr>, 12 \<mapsto> URep \<lparr>rf_message = 10, rf_field = (0, 2)\<rparr>,
       13 \<mapsto> URep \<lparr>rf_message = 10, rf_field = (0, 1)\<rparr>],
     pb_next = 14, s_msg_count = 1, s_msg_new_times = 1, s_msg_delete_times = 0, pb_world = ()\<rparr>"

definition demo_env :: "unit pb_env" where
  "demo_env = \<lparr>pe_types = demo_types, pe_proto = (\<lambda>d. 99), pe_find = (\<lambda>s w. Some 0), pe_import = (\<lambda>s w. (True, w)),
     pe_mappath = (\<lambda>a b w. w), pe_clean = (\<lambda>w. w), pe_parse = (\<lambda>a s h. (False, h)), pe_serialize = (\<lambda>h a. None), pe_cached = (\<lambda>h a. []),
     pe_bytesize = (\<lambda>h a. 0), pe_debug = (\<lambda>h a. []), pe_read = (\<lambda>p n w. []), pe_write = (\<lambda>p s w. Some w),
     pe_conv = \<lparr>cv_userdata = (\<lambda>n. None), cv_light = (\<lambda>n. n), cv_numstr = (\<lambda>d. []), cv_strnum = (\<lambda>s. None)\<rparr>,
     pe_float = (\<lambda>d. d), pe_func = (\<lambda>s. 50)\<rparr>"

lemmas demo_defs = demo_field_def demo_types_def demo_heap_def demo_state_def demo_env_def

lemma demo_msgs: "pb_msgs demo_state = demo_heap" "pe_types demo_env = demo_types"
  by (simp_all add: demo_state_def demo_env_def)

lemma demo_ud:
  "pb_ud demo_state 10 = Some (UMsg \<lparr>lm_message = Some 0, lm_root = 10, lm_dirty = 0\<rparr>)"
  "pb_ud demo_state 11 = Some (UMsg \<lparr>lm_message = Some 1, lm_root = 10, lm_dirty = 0\<rparr>)"
  "pb_ud demo_state 12 = Some (URep \<lparr>rf_message = 10, rf_field = (0, 2)\<rparr>)"
  "pb_ud demo_state 13 = Some (URep \<lparr>rf_message = 10, rf_field = (0, 1)\<rparr>)"
  by (simp_all add: demo_state_def)

lemma demo_objs:
  "hp_objs demo_heap 0 = Some \<lparr>ms_type = 0, ms_slots = [One True (SInt 5), Many [SStr [120]], ManyMsg 1 [1]]\<rparr>"
  "hp_objs demo_heap 1 = Some \<lparr>ms_type = 0, ms_slots = [One False (SInt 7), Many [], ManyMsg 0 []]\<rparr>"
  by (simp_all add: demo_heap_def)

lemma demo_number:
  "FindFieldByName demo_types 0 (c_str [97]) = Some (0, 0)" "\<not> is_repeated (field_of demo_types (0, 0))"
  "field_cpp_type (field_of demo_types (0, 0)) = CPPTYPE_INT32"
  "from_lua demo_env CPPTYPE_INT32 (VNum (Fin 7)) = Some (Some (SInt 7))"
  by (simp_all add: demo_defs FindFieldByName_def c_str_def field_of_def is_repeated_def field_cpp_type_def from_lua_def
      lua_isnumber_def lua_tonumber_def d_to_def)

lemma demo_types_ok: "types_ok demo_types"
  by (simp add: types_ok_def demo_defs c_str_def)

lemma demo_fits: "heap_fits demo_types demo_heap"
  by (auto simp: heap_fits_def demo_defs is_repeated_def field_cpp_type_def)

lemma demo_value:
  "has_value demo_heap 0 (PB 0 [EOne (Some (SInt 5)), EMany [SStr [120]], ESubs [PB 0 [EOne None, EMany [], ESubs []]]])"
proof -
  have "has_value demo_heap 1 (PB (ms_type \<lparr>ms_type = 0, ms_slots = [One False (SInt 7), Many [], ManyMsg 0 []]\<rparr>) [EOne None, EMany [], ESubs []])"
    by (rule has_valueI) (simp_all add: demo_heap_def)
  then have "has_value demo_heap 0 (PB (ms_type \<lparr>ms_type = 0, ms_slots = [One True (SInt 5), Many [SStr [120]], ManyMsg 1 [1]]\<rparr>)
      [EOne (Some (SInt 5)), EMany [SStr [120]], ESubs [PB 0 [EOne None, EMany [], ESubs []]]])"
    by (intro has_valueI) (simp_all add: demo_heap_def)
  then show ?thesis by simp
qed

theorem totable_value_witness:
  "lmsg_totable demo_env [VOther 10] demo_state
   = Some (Some [VTable [(VStr [97], VNum (d_int 5)), (VStr [98], VTable [(VNum (Fin 1), VStr [120])]),
       (VStr [99], VTable [(VNum (Fin 1), VTable [(VStr [98], VTable []), (VStr [99], VTable [])])])]], demo_state)"
  using totable_value [of demo_env demo_state 10, OF _ _ _ _ demo_value [folded demo_msgs]] demo_types_ok demo_fits
  by (simp add: demo_env_def demo_state_def LUA_MINSTACK_def) (simp add: demo_defs in_table_def number_values_def c_str_def)

section \<open>Setting and reading a field\<close>

lemma find_field_some: "find_field n fds k = Some i \<Longrightarrow> k \<le> i \<and> i - k < length fds \<and> fd_name (fds ! (i - k)) = n"
proof (induction fds arbitrary: k)
  case (Cons fd fds)
  show ?case
  proof (cases "fd_name fd = n")
    case False
    then have "Suc k \<le> i \<and> i - Suc k < length fds \<and> fd_name (fds ! (i - Suc k)) = n" using Cons by simp
    then show ?thesis by (auto simp: Suc_diff_Suc nth_Cons')
  qed (use Cons.prems in auto)
qed simp

lemma FindFieldByName_some:
  "FindFieldByName D d n = Some f \<Longrightarrow> fst f = d \<and> snd f < length (ds_fields (D d)) \<and> fd_name (field_of D f) = n"
  by (auto simp: FindFieldByName_def field_of_def dest: find_field_some)

lemma heap_fitsD:
  assumes "heap_fits D h" "hp_objs h a = Some m" "ms_type m = d"
  shows "length (ms_slots m) = length (ds_fields (D d))" "\<And>i. i < length (ms_slots m) \<Longrightarrow> slot_fits (ds_fields (D d) ! i) (ms_slots m ! i)"
  using assms by (auto simp: heap_fits_def list_all2_conv_all_nth)

lemma slot_at_fits:
  assumes "heap_fits D h" "slot_at h a f = Some sl"
  shows "slot_fits (field_of D f) sl"
proof -
  obtain m where m: "hp_objs h a = Some m" "ms_type m = fst f" "snd f < length (ms_slots m)" "sl = ms_slots m ! snd f"
    using assms(2) by (auto simp: slot_at_def split: bind_splits if_splits)
  then show ?thesis using heap_fitsD [OF assms(1) m(1,2)] by (simp add: field_of_def)
qed

lemma heap_fits_slot:
  assumes "heap_fits D h" "hp_objs h a = Some m" "fst f = ms_type m" "snd f < length (ds_fields (D (ms_type m)))"
  shows "\<exists>sl. slot_at h a f = Some sl"
  using heap_fitsD(1) [OF assms(1,2) refl] assms by (simp add: slot_at_def)

text \<open>Writing a slot changes nothing else.\<close>

definition only_slot :: "pb_heap \<Rightarrow> pb_heap \<Rightarrow> nat \<Rightarrow> pb_field \<Rightarrow> pb_slot \<Rightarrow> bool" where
  "only_slot h h' a f sl \<longleftrightarrow> slot_at h' a f = Some sl \<and> (\<forall>b g. (b, g) \<noteq> (a, f) \<longrightarrow> slot_at h' b g = slot_at h b g)
     \<and> (\<forall>b. b \<noteq> a \<longrightarrow> hp_objs h' b = hp_objs h b) \<and> map_option ms_type (hp_objs h' a) = map_option ms_type (hp_objs h a)
     \<and> hp_next h' = hp_next h"

lemma put_slot_law:
  assumes "slot_at h a f = Some old"
  obtains h' where "put_slot a f sl h = Some h'" "only_slot h h' a f sl"
    "heap_fits D h \<Longrightarrow> slot_fits (field_of D f) sl \<Longrightarrow> heap_fits D h'"
proof -
  obtain m where m: "hp_objs h a = Some m" "ms_type m = fst f" "snd f < length (ms_slots m)"
    using assms by (auto simp: slot_at_def split: bind_splits if_splits)
  let ?m = "m\<lparr>ms_slots := (ms_slots m)[snd f := sl]\<rparr>" let ?h = "h\<lparr>hp_objs := (hp_objs h)(a \<mapsto> ?m)\<rparr>"
  have "slot_at ?h b g = slot_at h b g" if "(b, g) \<noteq> (a, f)" for b g
    using that m by (cases "b = a") (auto simp: slot_at_def prod_eq_iff nth_list_update_neq)
  then have "only_slot h ?h a f sl" using m by (auto simp: only_slot_def slot_at_def)
  moreover have "heap_fits D ?h" if "heap_fits D h" "slot_fits (field_of D f) sl"
  proof -
    have "list_all2 slot_fits (ds_fields (D (ms_type m))) ((ms_slots m)[snd f := sl])"
      using that heap_fitsD [OF that(1) m(1,2)] m by (auto simp: field_of_def list_all2_conv_all_nth nth_list_update)
    then show ?thesis using that m by (auto simp: heap_fits_def)
  qed
  moreover have "put_slot a f sl h = Some ?h" using m by (simp add: put_slot_def)
  ultimately show ?thesis using that by blast
qed

lemma put_slot_self: "slot_at h a f = Some sl \<Longrightarrow> only_slot h h a f sl"
  by (simp add: only_slot_def)

lemma set_dirty_law:
  assumes "pb_ud s r = Some (UMsg m)"
  obtains s' where "set_dirty r s = Some s'" "pb_msgs s' = pb_msgs s" "pb_ud s' r = Some (UMsg (m\<lparr>lm_dirty := 1\<rparr>))"
    "\<And>u. u \<noteq> r \<Longrightarrow> pb_ud s' u = pb_ud s u" "pb_world s' = pb_world s" "pb_next s' = pb_next s"
  using assms that by (simp add: set_dirty_def ud_message_def)

text \<open>Storing a value: the slot holds it, or the field is cleared when it is the default.\<close>

lemma set_scalar_law:
  assumes fits: "heap_fits (pe_types E) (pb_msgs s)" and at: "slot_at (pb_msgs s) a f = Some old"
    and fd: "\<not> is_repeated (field_of (pe_types E) f)" "field_cpp_type (field_of (pe_types E) f) \<noteq> CPPTYPE_MESSAGE"
    and v: "from_lua E (field_cpp_type (field_of (pe_types E) f)) v = Some (Some y)"
  shows "\<exists>h' b. set_scalar E a f v s = Some (Some push_one, s\<lparr>pb_msgs := h'\<rparr>) \<and> only_slot (pb_msgs s) h' a f (One b y)
    \<and> heap_fits (pe_types E) h'"
proof -
  let ?fd = "field_of (pe_types E) f"
  have of: "slot_fits ?fd old" using slot_at_fits [OF fits at] .
  then obtain b x where old: "old = One b x" "b \<or> x = fd_default ?fd" using fd by (cases old) auto
  show ?thesis
  proof (cases "field_cpp_type ?fd = CPPTYPE_INT32 \<and> fd_has_default ?fd \<and> fd_default ?fd = y")
    case clear: True
    obtain h' where h': "put_slot a f (One False y) (pb_msgs s) = Some h'" "only_slot (pb_msgs s) h' a f (One False y)" "heap_fits (pe_types E) h'"
      using put_slot_law [OF at, of "One False y" "pe_types E"] fits fd clear by auto
    show ?thesis
    proof (cases b)
      case True
      then show ?thesis using clear h' at old v
        by (auto simp: set_scalar_def Let_def on_heap_def ClearField_def clear_slot_def ret_def)
    next
      case False
      then have "only_slot (pb_msgs s) (pb_msgs s) a f (One False y)" using old at clear put_slot_self by metis
      then show ?thesis using clear at old v False fits
        by (intro exI [of _ "pb_msgs s"] exI [of _ False]) (auto simp: set_scalar_def Let_def on_heap_def ClearField_def clear_slot_def ret_def)
    qed
  next
    case store: False
    obtain h' where "put_slot a f (One True y) (pb_msgs s) = Some h'" "only_slot (pb_msgs s) h' a f (One True y)" "heap_fits (pe_types E) h'"
      using put_slot_law [OF at, of "One True y" "pe_types E"] fits fd by auto
    then show ?thesis using store at old v by (auto simp: set_scalar_def Let_def on_heap_def SetValue_def ret_def)
  qed
qed

text \<open>C15: A value assigned to a field of a message, a number, a text or a flag that can be converted to the type of the field,
  is what reading the field gives back, also when it is the default of the field and is not stored. The root of the
  message is dirty, no other field of any message changes, and the messages still fit their types.\<close>

theorem set_get:
  assumes fits: "heap_fits (pe_types E) (pb_msgs s)" and u: "pb_ud s u = Some (UMsg m)" "lm_message m = Some a"
    and x: "hp_objs (pb_msgs s) a = Some x" "FindFieldByName (pe_types E) (ms_type x) (c_str n) = Some f"
    and fd: "\<not> is_repeated (field_of (pe_types E) f)" "field_cpp_type (field_of (pe_types E) f) \<notin> {CPPTYPE_MESSAGE, CPPTYPE_ENUM}"
    and v: "v \<noteq> VNil" "from_lua E (field_cpp_type (field_of (pe_types E) f)) v = Some (Some y)"
    and r: "pb_ud s (lm_root m) = Some (UMsg r)"
  shows "\<exists>s'. lmsg_set E [VOther u, VStr n, v] s = Some (Some push_one, s')
    \<and> lmsg_get E [VOther u, VStr n] s' = Some (Some [lua_value y], s')
    \<and> map_option lm_dirty (ud_message s' (lm_root m)) = Some 1
    \<and> heap_fits (pe_types E) (pb_msgs s')
    \<and> (\<forall>b g. (b, g) \<noteq> (a, f) \<longrightarrow> slot_at (pb_msgs s') b g = slot_at (pb_msgs s) b g)"
proof -
  have f: "fst f = ms_type x" "snd f < length (ds_fields (pe_types E (ms_type x)))" using FindFieldByName_some [OF x(2)] by auto
  obtain old where at: "slot_at (pb_msgs s) a f = Some old" using heap_fits_slot [OF fits x(1) f] by blast
  obtain s1 where d: "set_dirty (lm_root m) s = Some s1" and s1: "pb_msgs s1 = pb_msgs s"
      "pb_ud s1 (lm_root m) = Some (UMsg (r\<lparr>lm_dirty := 1\<rparr>))" "\<And>u. u \<noteq> lm_root m \<Longrightarrow> pb_ud s1 u = pb_ud s u"
    using set_dirty_law [OF r] by metis
  have "heap_fits (pe_types E) (pb_msgs s1)" "slot_at (pb_msgs s1) a f = Some old" "field_cpp_type (field_of (pe_types E) f) \<noteq> CPPTYPE_MESSAGE"
    using fits at s1(1) fd(2) by auto
  from set_scalar_law [OF this(1,2) fd(1) this(3) v(2)] obtain h' b where
    h': "set_scalar E a f v s1 = Some (Some push_one, s1\<lparr>pb_msgs := h'\<rparr>)" "only_slot (pb_msgs s) h' a f (One b y)" "heap_fits (pe_types E) h'"
    using s1(1) by auto
  let ?s = "s1\<lparr>pb_msgs := h'\<rparr>"
  have "lmsg_set E [VOther u, VStr n, v] s = Some (Some push_one, ?s)"
    using u x d fd v h'(1)
    by (simp add: lmsg_set_def with_message_def check_message_def arg_at_def lua_tostring_def lua_tolstring_def Let_def)
  moreover obtain m' where m': "pb_ud s1 u = Some (UMsg m')" "lm_message m' = Some a"
    using u r s1(2,3) by (cases "u = lm_root m") auto
  moreover obtain x' where "hp_objs h' a = Some x'" "ms_type x' = ms_type x" using h'(2) x(1) by (auto simp: only_slot_def)
  moreover have "slot_at h' a f = Some (One b y)" using h'(2) by (simp add: only_slot_def)
  ultimately have "lmsg_get E [VOther u, VStr n] ?s = Some (Some [lua_value y], ?s)"
    using x(2) fd by (simp add: lmsg_get_def check_message_def arg_at_def lua_tostring_def lua_tolstring_def Let_def GetValue_def ret_def)
  then show ?thesis using \<open>lmsg_set E [VOther u, VStr n, v] s = Some (Some push_one, ?s)\<close> h'(2,3) s1(2)
    by (intro exI [of _ ?s]) (simp add: only_slot_def ud_message_def)
qed

text \<open>Witness: the number of the inner message is set to its default, 7, which reading gives back.\<close>

theorem set_get_witness:
  "\<exists>s'. lmsg_set demo_env [VOther 11, VStr [97], VNum (Fin 7)] demo_state = Some (Some push_one, s')
    \<and> lmsg_get demo_env [VOther 11, VStr [97]] s' = Some (Some [VNum (d_int 7)], s')
    \<and> map_option lm_dirty (ud_message s' 10) = Some 1"
  using set_get [of demo_env demo_state 11 "\<lparr>lm_message = Some 1, lm_root = 10, lm_dirty = 0\<rparr>" 1
      "\<lparr>ms_type = 0, ms_slots = [One False (SInt 7), Many [], ManyMsg 0 []]\<rparr>" "[97]" "(0, 0)" "VNum (Fin 7)" "SInt 7"
      "\<lparr>lm_message = Some 0, lm_root = 10, lm_dirty = 0\<rparr>"] demo_fits
  by (auto simp: demo_msgs demo_ud demo_objs demo_objs [unfolded One_nat_def] demo_number)

section \<open>Ownership\<close>

text \<open>The messages a message owns, including those kept for reuse, and the messages whose parts are all there.\<close>

definition owns :: "pb_heap \<Rightarrow> nat \<Rightarrow> nat \<Rightarrow> bool" where
  "owns h p q \<longleftrightarrow> (\<exists>m. hp_objs h p = Some m \<and> q \<in> set (concat (map slot_owned (ms_slots m))))"

inductive whole :: "pb_heap \<Rightarrow> nat \<Rightarrow> bool" for h where
  wholeI: "hp_objs h a \<noteq> None \<Longrightarrow> (\<And>q. owns h a q \<Longrightarrow> whole h q) \<Longrightarrow> whole h a"

abbreviation inside :: "pb_heap \<Rightarrow> nat \<Rightarrow> nat \<Rightarrow> bool" where
  "inside h \<equiv> (owns h)\<^sup>*\<^sup>*"

lemma whole_frame:
  "whole h q \<Longrightarrow> (\<And>x. inside h q x \<Longrightarrow> hp_objs h' x = hp_objs h x) \<Longrightarrow> whole h' q \<and> (\<forall>x. inside h' q x \<longrightarrow> inside h q x)"
proof (induction rule: whole.induct)
  case (wholeI a)
  have a: "hp_objs h' a = hp_objs h a" using wholeI.prems [of a] by simp
  then have o: "owns h' a = owns h a" by (simp add: owns_def fun_eq_iff)
  have IH: "whole h' q \<and> (\<forall>x. inside h' q x \<longrightarrow> inside h q x)" if "owns h a q" for q
  proof (rule wholeI.IH [OF that])
    fix x assume "inside h q x"
    with that have "inside h a x" by (rule converse_rtranclp_into_rtranclp)
    then show "hp_objs h' x = hp_objs h x" by (rule wholeI.prems)
  qed
  have "whole h' a" by (rule whole.wholeI) (use wholeI.hyps(1) a o IH in auto)
  moreover have "inside h a x" if "inside h' a x" for x
    using that
  proof (cases rule: converse_rtranclpE)
    case (step y)
    then have "owns h a y" "inside h y x" using IH [of y] o by simp_all
    then show ?thesis by (rule converse_rtranclp_into_rtranclp)
  qed simp
  ultimately show ?case by blast
qed

text \<open>Clearing keeps who owns whom.\<close>

definition owner_view :: "pb_heap \<Rightarrow> nat \<Rightarrow> (nat \<times> nat list list) option" where
  "owner_view h x = map_option (\<lambda>m. (ms_type m, map slot_owned (ms_slots m))) (hp_objs h x)"

lemma owns_view: "owns h p q \<longleftrightarrow> (\<exists>t os. owner_view h p = Some (t, os) \<and> q \<in> set (concat os))"
  by (auto simp: owns_def owner_view_def)

lemma same_owns: "owner_view h' = owner_view h \<Longrightarrow> owns h' = owns h"
  by (simp add: owns_view fun_eq_iff)

lemma owner_view_put:
  assumes "slot_at h a f = Some sl" "put_slot a f sl' h = Some h'" "slot_owned sl' = slot_owned sl"
  shows "owner_view h' = owner_view h"
proof -
  obtain m where m: "hp_objs h a = Some m" "snd f < length (ms_slots m)" "sl = ms_slots m ! snd f"
    using assms(1) by (auto simp: slot_at_def split: bind_splits if_splits)
  then have "hp_objs h' = (hp_objs h)(a \<mapsto> m\<lparr>ms_slots := (ms_slots m)[snd f := sl']\<rparr>)"
    using assms(2) by (auto simp: put_slot_def)
  moreover have "map slot_owned ((ms_slots m)[snd f := sl']) = map slot_owned (ms_slots m)"
    using assms(3) m by (simp add: map_update list_update_same_conv)
  ultimately show ?thesis using m by (auto simp: owner_view_def)
qed

lemma foldo_inv:
  assumes "\<And>x s. x \<in> set xs \<Longrightarrow> I s \<Longrightarrow> \<exists>s'. f x s = Some s' \<and> I s'" and "I s"
  shows "\<exists>s'. foldo f xs s = Some s' \<and> I s'"
  using assms
proof (induction xs arbitrary: s)
  case (Cons x xs)
  then obtain s' where "f x s = Some s'" "I s'" by (meson list.set_intros(1))
  then show ?case using Cons by auto
qed simp

section \<open>Clearing\<close>

text \<open>What clearing a message may change: the messages inside it, but not what they own.\<close>

definition cleared :: "pb_types \<Rightarrow> pb_heap \<Rightarrow> nat \<Rightarrow> pb_heap \<Rightarrow> bool" where
  "cleared D h a h' \<longleftrightarrow> heap_fits D h' \<and> owner_view h' = owner_view h \<and> (\<forall>x. \<not> inside h a x \<longrightarrow> hp_objs h' x = hp_objs h x)"

lemma cleared_refl: "heap_fits D h \<Longrightarrow> cleared D h a h"
  by (simp add: cleared_def)

lemma cleared_trans:
  assumes "cleared D h a h1" "cleared D h1 q h2" "inside h a q"
  shows "cleared D h a h2"
proof -
  have "owns h1 = owns h" using assms(1) by (intro same_owns) (simp add: cleared_def)
  then have "\<forall>x. inside h1 q x \<longrightarrow> inside h a x" using assms(3) by (metis rtranclp_trans)
  then have "\<forall>x. \<not> inside h a x \<longrightarrow> hp_objs h2 x = hp_objs h x" using assms(1,2) unfolding cleared_def by metis
  then show ?thesis using assms(1,2) by (simp add: cleared_def)
qed

lemma cleared_put:
  assumes "heap_fits D h" "slot_at h a f = Some sl" "slot_fits (field_of D f) sl'" "slot_owned sl' = slot_owned sl"
  shows "\<exists>h'. put_slot a f sl' h = Some h' \<and> cleared D h a h'"
proof -
  obtain h' where h': "put_slot a f sl' h = Some h'" "only_slot h h' a f sl'" "heap_fits D h'"
    using put_slot_law [OF assms(2), of sl' D] assms(1,3) by metis
  then have "cleared D h a h'" using owner_view_put [OF assms(2) h'(1) assms(4)] by (auto simp: cleared_def only_slot_def)
  then show ?thesis using h'(1) by blast
qed

lemma owned_inside: "slot_at h a f = Some sl \<Longrightarrow> q \<in> set (slot_owned sl) \<Longrightarrow> owns h a q"
  by (auto simp: slot_at_def owns_def split: bind_splits if_splits)

lemma owner_view_slot:
  assumes "owner_view h' = owner_view h" "slot_at h a f = Some sl"
  shows "\<exists>sl'. slot_at h' a f = Some sl' \<and> slot_owned sl' = slot_owned sl"
proof -
  obtain m where m: "hp_objs h a = Some m" "ms_type m = fst f" "snd f < length (ms_slots m)" "sl = ms_slots m ! snd f"
    using assms(2) by (auto simp: slot_at_def split: bind_splits if_splits)
  have "owner_view h' a = owner_view h a" using assms(1) by simp
  then obtain m' where m': "hp_objs h' a = Some m'" "ms_type m' = ms_type m" "map slot_owned (ms_slots m') = map slot_owned (ms_slots m)"
    using m(1) by (auto simp: owner_view_def)
  then have "length (ms_slots m') = length (ms_slots m)" by (metis length_map)
  then show ?thesis using m m' by (auto simp: slot_at_def) (metis nth_map)
qed

lemma clear_slot_law:
  assumes fits: "heap_fits D h" and at: "slot_at h a f = Some sl"
    and clr: "\<And>q hh. q \<in> set (slot_owned sl) \<Longrightarrow> heap_fits D hh \<Longrightarrow> owner_view hh = owner_view h \<Longrightarrow> \<exists>h'. clr q hh = Some h' \<and> cleared D hh q h'"
  shows "\<exists>h'. clear_slot clr D a f h = Some h' \<and> cleared D h a h'"
proof (cases sl)
  case (One b v)
  then show ?thesis using at slot_at_fits [OF fits at] cleared_put [OF fits at, of "One False (fd_default (field_of D f))"] cleared_refl [OF fits]
    by (auto simp: clear_slot_def)
next
  case (OneMsg b p)
  show ?thesis
  proof (cases b)
    case True
    then obtain q where q: "p = Some q" using slot_at_fits [OF fits at] OneMsg by auto
    obtain h1 where h1: "put_slot a f (OneMsg False p) h = Some h1" "cleared D h a h1"
      using cleared_put [OF fits at, of "OneMsg False p"] slot_at_fits [OF fits at] OneMsg q by auto
    then obtain h2 where h2: "clr q h1 = Some h2" "cleared D h1 q h2" using clr [of q h1] OneMsg q by (auto simp: cleared_def)
    have "inside h a q" using owned_inside [OF at, of q] OneMsg q by auto
    from cleared_trans [OF h1(2) h2(2) this] show ?thesis using at OneMsg True q h1(1) h2(1) by (simp add: clear_slot_def)
  next
    case False
    then show ?thesis using at OneMsg cleared_refl [OF fits] by (auto simp: clear_slot_def)
  qed
next
  case (Many vs)
  then show ?thesis using at slot_at_fits [OF fits at] cleared_put [OF fits at, of "Many []"] by (auto simp: clear_slot_def)
next
  case (ManyMsg n ps)
  have "\<exists>h'. foldo clr (take n ps) h = Some h' \<and> cleared D h a h'"
  proof (rule foldo_inv)
    fix q hh assume q: "q \<in> set (take n ps)" and hh: "cleared D h a hh"
    then have q: "q \<in> set (slot_owned sl)" using ManyMsg by (auto dest: in_set_takeD)
    then obtain h' where "clr q hh = Some h'" "cleared D hh q h'" using clr [of q hh] hh by (auto simp: cleared_def)
    then show "\<exists>h'. clr q hh = Some h' \<and> cleared D h a h'"
      using cleared_trans [OF hh] owned_inside [OF at q] by blast
  qed (rule cleared_refl [OF fits])
  then obtain h1 where h1: "foldo clr (take n ps) h = Some h1" "cleared D h a h1" by blast
  then obtain sl' where sl': "slot_at h1 a f = Some sl'" "slot_owned sl' = slot_owned sl" using owner_view_slot [OF _ at] by (auto simp: cleared_def)
  obtain h2 where "put_slot a f (ManyMsg 0 ps) h1 = Some h2" "cleared D h1 a h2"
    using cleared_put [OF _ sl'(1), of D "ManyMsg 0 ps"] sl'(2) h1(2) slot_at_fits [OF fits at] ManyMsg by (auto simp: cleared_def)
  then show ?thesis using cleared_trans [OF h1(2)] h1(1) at ManyMsg by (auto simp: clear_slot_def)
qed

lemma Clear_law:
  "whole h a \<Longrightarrow> heap_fits D h1 \<Longrightarrow> owner_view h1 = owner_view h \<Longrightarrow> \<exists>h'. Clear D a h1 = Some h' \<and> cleared D h1 a h'"
proof (induction arbitrary: h1 rule: whole.induct)
  case (wholeI a)
  have "owner_view h1 a = owner_view h a" using wholeI.prems(2) by simp
  then obtain m where m: "hp_objs h1 a = Some m" using wholeI.hyps(1) by (cases "hp_objs h1 a") (auto simp: owner_view_def)
  have o: "owns h1 = owns h" using wholeI.prems(2) by (rule same_owns)
  have "\<exists>h'. foldo (\<lambda>i hh. clear_slot (Clear D) D a (ms_type m, i) hh) [0..<length (ms_slots m)] h1 = Some h' \<and> cleared D h1 a h'"
  proof (rule foldo_inv)
    fix i hh assume i: "i \<in> set [0..<length (ms_slots m)]" and hh: "cleared D h1 a hh"
    have at: "slot_at h1 a (ms_type m, i) = Some (ms_slots m ! i)" using i m by (simp add: slot_at_def)
    have "owner_view hh = owner_view h1" using hh by (simp add: cleared_def)
    then obtain sl where sl: "slot_at hh a (ms_type m, i) = Some sl" "slot_owned sl = slot_owned (ms_slots m ! i)"
      using owner_view_slot at by blast
    have own: "owns h a q" if "q \<in> set (slot_owned sl)" for q using owned_inside [OF at] that sl(2) o by simp
    have "\<exists>h'. clear_slot (Clear D) D a (ms_type m, i) hh = Some h' \<and> cleared D hh a h'"
    proof (rule clear_slot_law [OF _ sl(1)])
      fix q g assume q: "q \<in> set (slot_owned sl)" and g: "heap_fits D g" "owner_view g = owner_view hh"
      have "owns h a q" using q by (rule own)
      moreover have "owner_view g = owner_view h" using g(2) hh wholeI.prems(2) by (simp add: cleared_def)
      ultimately show "\<exists>h'. Clear D q g = Some h' \<and> cleared D g q h'" using wholeI.IH g(1) by blast
    qed (use hh in \<open>simp add: cleared_def\<close>)
    then show "\<exists>h'. clear_slot (Clear D) D a (ms_type m, i) hh = Some h' \<and> cleared D h1 a h'"
      using cleared_trans [OF hh] by blast
  qed (rule cleared_refl [OF wholeI.prems(1)])
  then show ?case using m by (subst Clear.simps) simp
qed

end
