(* ===== verification/Pblua_Repeated.thy ===== *)
theory Pblua_Repeated
  imports Pblua_Spec
begin

text \<open>
  The repeated fields of the protobuf binding as lists: removing elements, and what a script that holds
  a removed or a collected message sees.
\<close>

section \<open>Elements\<close>

text \<open>The elements of a repeated field: values, or the addresses of messages.\<close>

fun slot_elements :: "pb_slot \<Rightarrow> (scalar + nat) list option" where
  "slot_elements (Many vs) = Some (map Inl vs)"
| "slot_elements (ManyMsg n ps) = Some (map Inr (take n ps))"
| "slot_elements _ = None"

definition elements :: "pb_heap \<Rightarrow> nat \<Rightarrow> pb_field \<Rightarrow> (scalar + nat) list option" where
  "elements h a f = Option.bind (slot_at h a f) slot_elements"

lemma elements_size: "heap_fits D h \<Longrightarrow> elements h a f = Some xs \<Longrightarrow> FieldSize h a f = Some (length xs)"
proof -
  assume fits: "heap_fits D h" and xs: "elements h a f = Some xs"
  then obtain sl where sl: "slot_at h a f = Some sl" "slot_elements sl = Some xs" by (auto simp: elements_def split: bind_splits)
  then show ?thesis using slot_at_fits [OF fits sl(1)] by (cases sl) (auto simp: FieldSize_def)
qed

lemma only_slot_other: "only_slot h h' a f sl \<Longrightarrow> (b, k) \<noteq> (a, f) \<Longrightarrow> slot_at h' b k = slot_at h b k"
  unfolding only_slot_def by blast

lemma only_slot_trans: "only_slot h h1 a f s1 \<Longrightarrow> only_slot h1 h2 a f s2 \<Longrightarrow> only_slot h h2 a f s2"
  by (simp add: only_slot_def)

section \<open>Swapping\<close>

definition bubble :: "nat \<Rightarrow> nat \<Rightarrow> 'a list \<Rightarrow> 'a list" where
  "bubble i k xs = fold (\<lambda>j xs. swap_at xs (j + i) (j + i + 1)) [0..<k] xs"

lemma bubble_nth:
  "i + k < length xs \<Longrightarrow> length (bubble i k xs) = length xs \<and>
   (\<forall>p < length xs. bubble i k xs ! p = (if p < i then xs ! p else if p < i + k then xs ! (p + 1) else if p = i + k then xs ! i else xs ! p))"
proof (induction k)
  case (Suc k)
  have b: "bubble i (Suc k) xs = swap_at (bubble i k xs) (k + i) (k + i + 1)" by (simp add: bubble_def)
  show ?case using Suc by (auto simp: b swap_at_def nth_list_update)
qed (simp add: bubble_def)

lemma bubble_last:
  assumes "i < length xs"
  shows "bubble i (length xs - i - 1) xs = take i xs @ drop (Suc i) xs @ [xs ! i]"
proof (rule nth_equalityI)
  show "length (bubble i (length xs - i - 1) xs) = length (take i xs @ drop (Suc i) xs @ [xs ! i])"
    using bubble_nth [of i "length xs - i - 1" xs] assms by simp
  fix p assume "p < length (bubble i (length xs - i - 1) xs)"
  then have "p < length xs" using bubble_nth [of i "length xs - i - 1" xs] assms by simp
  then show "bubble i (length xs - i - 1) xs ! p = (take i xs @ drop (Suc i) xs @ [xs ! i]) ! p"
    using bubble_nth [of i "length xs - i - 1" xs] assms by (auto simp: nth_append)
qed

text \<open>A swap of two elements in use swaps them in the list.\<close>

lemma swap_at_take: "i < n \<Longrightarrow> j < n \<Longrightarrow> n \<le> length ps \<Longrightarrow> take n (swap_at ps i j) = swap_at (take n ps) i j"
  by (simp add: swap_at_def take_update_swap)

lemma map_swap_at: "i < length xs \<Longrightarrow> j < length xs \<Longrightarrow> map g (swap_at xs i j) = swap_at (map g xs) i j"
  by (simp add: swap_at_def map_update)

lemma put_elements:
  assumes "heap_fits D h" "slot_at h a f = Some sl" "slot_fits (field_of D f) sl'"
  shows "\<exists>h' sl. put_slot a f sl' h = Some h' \<and> only_slot h h' a f sl \<and> heap_fits D h' \<and> elements h' a f = slot_elements sl'"
proof -
  obtain h' where "put_slot a f sl' h = Some h'" "only_slot h h' a f sl'" "heap_fits D h'"
    using put_slot_law [OF assms(2), of sl' D] assms(1,3) by metis
  then show ?thesis by (auto simp: elements_def only_slot_def)
qed

lemma swap_law:
  assumes fits: "heap_fits D h" and xs: "elements h a f = Some xs" "i < length xs" "j < length xs"
  shows "\<exists>h' sl. SwapElements a f i j h = Some h' \<and> only_slot h h' a f sl \<and> heap_fits D h' \<and> elements h' a f = Some (swap_at xs i j)"
proof -
  obtain sl where sl: "slot_at h a f = Some sl" "slot_elements sl = Some xs" using xs(1) by (auto simp: elements_def split: bind_splits)
  note fit = slot_at_fits [OF fits sl(1)]
  note put = put_elements [OF fits sl(1)]
  show ?thesis
  proof (cases sl)
    case (Many vs)
    then show ?thesis using sl fit xs put [of "Many (swap_at vs i j)"]
      by (auto simp: SwapElements_def swap_at_def map_update)
  next
    case (ManyMsg n ps)
    then have "length xs = n" using sl(2) fit by auto
    then show ?thesis using ManyMsg sl fit xs put [of "ManyMsg n (swap_at ps i j)"]
      by (auto simp: SwapElements_def swap_at_take map_swap_at) (auto simp: swap_at_def)
  qed (use sl in auto)
qed

lemma bubble_law:
  assumes fits: "heap_fits D h" and xs: "elements h a f = Some xs"
  shows "i + k < length xs \<Longrightarrow> \<exists>h' sl. foldo (\<lambda>j. SwapElements a f (j + i) (j + i + 1)) [0..<k] h = Some h' \<and> only_slot h h' a f sl
    \<and> heap_fits D h' \<and> elements h' a f = Some (bubble i k xs)"
proof (induction k)
  case 0
  obtain sl where "slot_at h a f = Some sl" using xs by (auto simp: elements_def split: bind_splits)
  then have "only_slot h h a f sl" by (rule put_slot_self)
  then show ?case using fits xs by (auto simp: bubble_def)
next
  case (Suc k)
  then obtain h1 sl1 where h1: "foldo (\<lambda>j. SwapElements a f (j + i) (j + i + 1)) [0..<k] h = Some h1" "only_slot h h1 a f sl1"
      "heap_fits D h1" "elements h1 a f = Some (bubble i k xs)" by auto
  have "length (bubble i k xs) = length xs" using bubble_nth [of i k xs] Suc.prems by simp
  then obtain h2 sl2 where h2: "SwapElements a f (k + i) (k + i + 1) h1 = Some h2" "only_slot h1 h2 a f sl2" "heap_fits D h2"
      "elements h2 a f = Some (swap_at (bubble i k xs) (k + i) (k + i + 1))"
    using swap_law [OF h1(3,4), of "k + i" "k + i + 1"] Suc.prems by auto
  moreover have "bubble i (Suc k) xs = swap_at (bubble i k xs) (k + i) (k + i + 1)" by (simp add: bubble_def)
  ultimately show ?case using h1(1) only_slot_trans [OF h1(2) h2(2)] by (auto simp: foldo_append)
qed

section \<open>Removing\<close>

text \<open>A message among the elements can be cleared when its parts are there and the owner is not one of them.\<close>

definition removable :: "pb_heap \<Rightarrow> nat \<Rightarrow> scalar + nat \<Rightarrow> bool" where
  "removable h a e \<longleftrightarrow> (case e of Inl v \<Rightarrow> True | Inr q \<Rightarrow> whole h q \<and> \<not> inside h q a)"

definition part_of :: "pb_heap \<Rightarrow> scalar + nat \<Rightarrow> nat \<Rightarrow> bool" where
  "part_of h e b \<longleftrightarrow> (case e of Inl v \<Rightarrow> False | Inr q \<Rightarrow> inside h q b)"

lemma removable_frame:
  assumes "removable h a e" "only_slot h h' a f sl"
  shows "removable h' a e" "part_of h' e b \<Longrightarrow> part_of h e b"
proof -
  have "whole h' q \<and> (\<forall>x. inside h' q x \<longrightarrow> inside h q x)" if q: "e = Inr q" for q
  proof (rule whole_frame)
    show "whole h q" using assms(1) q by (simp add: removable_def)
    fix x assume "inside h q x"
    then show "hp_objs h' x = hp_objs h x" using assms q by (auto simp: removable_def only_slot_def)
  qed
  then show "removable h' a e" "part_of h' e b \<Longrightarrow> part_of h e b"
    using assms(1) by (auto simp: removable_def part_of_def split: sum.splits)
qed

lemma remove_last_law:
  assumes fits: "heap_fits D h" and xs: "elements h a f = Some xs" "xs \<noteq> []" and rm: "removable h a (last xs)"
  shows "\<exists>h'. RemoveLast D a f h = Some h' \<and> heap_fits D h' \<and> elements h' a f = Some (butlast xs)
    \<and> (\<forall>b g. (b, g) \<noteq> (a, f) \<longrightarrow> \<not> part_of h (last xs) b \<longrightarrow> slot_at h' b g = slot_at h b g)"
proof -
  obtain sl where sl: "slot_at h a f = Some sl" "slot_elements sl = Some xs" using xs(1) by (auto simp: elements_def split: bind_splits)
  note fit = slot_at_fits [OF fits sl(1)]
  show ?thesis
  proof (cases sl)
    case (Many vs)
    then have "slot_fits (field_of D f) (Many (butlast vs))" using fit by auto
    then obtain h' where "put_slot a f (Many (butlast vs)) h = Some h'" "only_slot h h' a f (Many (butlast vs))" "heap_fits D h'"
      using put_slot_law [OF sl(1), of "Many (butlast vs)" D] fits by metis
    then show ?thesis using Many sl xs(2) by (auto simp: RemoveLast_def elements_def only_slot_def map_butlast)
  next
    case (ManyMsg n ps)
    let ?q = "ps ! (n - 1)" and ?sl = "ManyMsg (n - 1) ps"
    have n: "0 < n" "n \<le> length ps" "xs = map Inr (take n ps)" using ManyMsg sl fit xs(2) by auto
    then have last: "last xs = Inr ?q" using xs(2) by (subst last_conv_nth) (auto simp: min_def)
    have "slot_fits (field_of D f) ?sl" using fit ManyMsg by auto
    then obtain h1 where h1: "put_slot a f ?sl h = Some h1" "only_slot h h1 a f ?sl" "heap_fits D h1"
      using put_slot_law [OF sl(1), of ?sl D] fits by metis
    have rm1: "whole h1 ?q" "\<not> inside h1 ?q a" using removable_frame(1) [OF rm h1(2)] last by (auto simp: removable_def)
    obtain h2 where h2: "Clear D ?q h1 = Some h2" "cleared D h1 ?q h2" using Clear_law [OF rm1(1) h1(3) refl] by blast
    have "hp_objs h2 a = hp_objs h1 a" using h2(2) rm1(2) by (simp add: cleared_def)
    then have at: "slot_at h2 a g = slot_at h1 a g" for g by (simp add: slot_at_def)
    have "butlast xs = map Inr (take (n - 1) ps)" using n by (simp add: map_butlast [symmetric] butlast_take)
    then have "elements h2 a f = Some (butlast xs)" using at h1(2) by (simp add: elements_def only_slot_def)
    moreover have "slot_at h2 b g = slot_at h b g" if "(b, g) \<noteq> (a, f)" "\<not> part_of h (last xs) b" for b g
    proof -
      have "\<not> inside h1 ?q b" using removable_frame(2) [OF rm h1(2), of b] that(2) last by (auto simp: part_of_def)
      then have "slot_at h2 b g = slot_at h1 b g" using h2(2) by (simp add: cleared_def slot_at_def)
      then show ?thesis using only_slot_other [OF h1(2) that(1)] by simp
    qed
    ultimately show ?thesis using ManyMsg sl n h1(1) h2 by (auto simp: RemoveLast_def cleared_def)
  qed (use sl in auto)
qed

text \<open>Removing after a rearrangement of the elements that puts the chosen one last.\<close>

lemma rearrange_remove:
  assumes fits: "heap_fits D h" and h1: "r = Some h1" "only_slot h h1 a f sl" "heap_fits D h1" "elements h1 a f = Some (ys @ [e])"
    and rm: "removable h a e"
  shows "\<exists>h'. Option.bind r (RemoveLast D a f) = Some h' \<and> heap_fits D h' \<and> elements h' a f = Some ys
    \<and> (\<forall>b k. (b, k) \<noteq> (a, f) \<longrightarrow> \<not> part_of h e b \<longrightarrow> slot_at h' b k = slot_at h b k)"
proof -
  have "removable h1 a e" using removable_frame(1) [OF rm h1(2)] .
  then obtain h' where h': "RemoveLast D a f h1 = Some h'" "heap_fits D h'" "elements h' a f = Some ys"
      "\<forall>b k. (b, k) \<noteq> (a, f) \<longrightarrow> \<not> part_of h1 e b \<longrightarrow> slot_at h' b k = slot_at h1 b k"
    using remove_last_law [OF h1(3,4)] by auto
  have "slot_at h' b k = slot_at h b k" if "(b, k) \<noteq> (a, f)" "\<not> part_of h e b" for b k
  proof -
    have "\<not> part_of h1 e b" using that(2) removable_frame(2) [OF rm h1(2), of b] by blast
    then have "slot_at h' b k = slot_at h1 b k" using h'(4) that(1) by blast
    then show ?thesis using only_slot_other [OF h1(2) that(1)] by simp
  qed
  then show ?thesis using h1(1) h' by auto
qed

lemma remove_at_heap:
  assumes "heap_fits D h" "elements h a f = Some xs" "i < length xs" "removable h a (xs ! i)"
  shows "\<exists>h'. Option.bind (foldo (\<lambda>j. SwapElements a f (j + i) (j + i + 1)) [0..<length xs - i - 1] h) (RemoveLast D a f) = Some h'
    \<and> heap_fits D h' \<and> elements h' a f = Some (take i xs @ drop (Suc i) xs)
    \<and> (\<forall>b k. (b, k) \<noteq> (a, f) \<longrightarrow> \<not> part_of h (xs ! i) b \<longrightarrow> slot_at h' b k = slot_at h b k)"
proof -
  have "i + (length xs - i - 1) < length xs" using assms(3) by simp
  from bubble_law [OF assms(1,2) this] obtain h1 sl where
    h1: "foldo (\<lambda>j. SwapElements a f (j + i) (j + i + 1)) [0..<length xs - i - 1] h = Some h1" "only_slot h h1 a f sl" "heap_fits D h1"
      "elements h1 a f = Some (bubble i (length xs - i - 1) xs)" by blast
  have "elements h1 a f = Some ((take i xs @ drop (Suc i) xs) @ [xs ! i])" using h1(4) bubble_last [OF assms(3)] by simp
  from rearrange_remove [OF assms(1) h1(1-3) this assms(4)] show ?thesis .
qed

lemma remove_heap:
  assumes "heap_fits D h" "elements h a f = Some xs" "i < length xs" "removable h a (xs ! i)"
  shows "\<exists>h'. Option.bind (SwapElements a f i (length xs - 1) h) (RemoveLast D a f) = Some h'
    \<and> heap_fits D h' \<and> elements h' a f = Some (butlast (xs[i := last xs]))
    \<and> (\<forall>b k. (b, k) \<noteq> (a, f) \<longrightarrow> \<not> part_of h (xs ! i) b \<longrightarrow> slot_at h' b k = slot_at h b k)"
proof -
  obtain h1 sl where h1: "SwapElements a f i (length xs - 1) h = Some h1" "only_slot h h1 a f sl" "heap_fits D h1"
      "elements h1 a f = Some (swap_at xs i (length xs - 1))"
    using swap_law [OF assms(1,2,3), of "length xs - 1"] assms(3) by force
  have ne: "xs \<noteq> []" using assms(3) by auto
  have "swap_at xs i (length xs - 1) = (xs[i := last xs])[length xs - 1 := xs ! i]" using ne by (simp add: swap_at_def last_conv_nth)
  also have "\<dots> = butlast (xs[i := last xs]) @ [xs ! i]"
    using ne by (metis append_butlast_last_id length_list_update list_update_nonempty list_update_length length_butlast)
  finally have "elements h1 a f = Some (butlast (xs[i := last xs]) @ [xs ! i])" using h1(4) by simp
  from rearrange_remove [OF assms(1) h1(1-3) this assms(4)] show ?thesis .
qed

lemma index_number:
  assumes "i < 2 ^ 31"
  shows "tonumber_int E (VNum (Fin (of_nat (i + 1)))) = (if i + 1 < 2 ^ 31 then Some (int i + 1) else None)"
  using assms by (auto simp: tonumber_int_def lua_tonumber_def d_to_def)

text \<open>A call through a repeated field whose message and root are alive.\<close>

definition holds_repeated :: "'w pb_state \<Rightarrow> nat \<Rightarrow> nat \<Rightarrow> nat \<Rightarrow> pb_field \<Rightarrow> bool" where
  "holds_repeated s v r a f \<longleftrightarrow> (\<exists>u m m'. pb_ud s v = Some (URep \<lparr>rf_message = u, rf_field = f\<rparr>) \<and> pb_ud s u = Some (UMsg m)
     \<and> lm_message m = Some a \<and> lm_root m = r \<and> pb_ud s r = Some (UMsg m'))"

lemma with_index_law:
  assumes fits: "heap_fits (pe_types E) (pb_msgs s)" and v: "holds_repeated s v r a f"
    and xs: "elements (pb_msgs s) a f = Some xs" "i < length xs" "length xs < 2 ^ 31"
  obtains m where "\<And>k. with_index E [VOther v, VNum (Fin (of_nat (i + 1)))] s k = k m a f i (length xs)" "lm_root m = r"
proof -
  obtain u m where "pb_ud s v = Some (URep \<lparr>rf_message = u, rf_field = f\<rparr>)" "pb_ud s u = Some (UMsg m)" "lm_message m = Some a" "lm_root m = r"
    using v by (auto simp: holds_repeated_def)
  moreover have "i + 1 < 2 ^ 31" "i < 2 ^ 31" using xs(2,3) by linarith+
  ultimately have "with_index E [VOther v, VNum (Fin (of_nat (i + 1)))] s k = k m a f i (length xs)" for k
    using index_number [of i E] elements_size [OF fits xs(1)] xs(2)
    by (simp add: with_index_def with_repeated_def check_repeated_def ud_message_def arg_at_def del: of_nat_add)
  then show ?thesis using that \<open>lm_root m = r\<close> by blast
qed

lemma dirty_law:
  assumes "holds_repeated s v r a f"
  obtains s' where "set_dirty r s = Some s'" "pb_msgs s' = pb_msgs s" "map_option lm_dirty (ud_message s' r) = Some 1"
proof -
  obtain m' where "pb_ud s r = Some (UMsg m')" using assms by (auto simp: holds_repeated_def)
  then show ?thesis using that by (simp add: set_dirty_def ud_message_def)
qed

text \<open>C16: On a repeated field of values or of messages, \<open>remove_at\<close> removes exactly the element of the index and keeps the order of
  the others, and \<open>remove\<close> puts the last element into its place. The root becomes dirty; apart from the field itself only
  the removed message and the messages inside it change, which are cleared.\<close>

theorem remove_list:
  assumes fits: "heap_fits (pe_types E) (pb_msgs s)" and v: "holds_repeated s v r a f"
    and xs: "elements (pb_msgs s) a f = Some xs" "i < length xs" "length xs < 2 ^ 31" and rm: "removable (pb_msgs s) a (xs ! i)"
    and call: "(op, ys) \<in> {(lmsg_repeated_remove_at E, take i xs @ drop (Suc i) xs), (lmsg_repeated_remove E, butlast (xs[i := last xs]))}"
  shows "\<exists>s'. op [VOther v, VNum (Fin (of_nat (i + 1)))] s = Some (Some push_one, s')
    \<and> elements (pb_msgs s') a f = Some ys \<and> heap_fits (pe_types E) (pb_msgs s')
    \<and> map_option lm_dirty (ud_message s' r) = Some 1
    \<and> (\<forall>b k. (b, k) \<noteq> (a, f) \<longrightarrow> \<not> part_of (pb_msgs s) (xs ! i) b \<longrightarrow> slot_at (pb_msgs s') b k = slot_at (pb_msgs s) b k)"
proof -
  let ?D = "pe_types E" and ?h = "pb_msgs s"
  obtain s1 where s1: "set_dirty r s = Some s1" "pb_msgs s1 = ?h" "map_option lm_dirty (ud_message s1 r) = Some 1" using dirty_law [OF v] .
  obtain m where m: "\<And>k. with_index E [VOther v, VNum (Fin (of_nat (i + 1)))] s k = k m a f i (length xs)" "lm_root m = r"
    using with_index_law [OF fits v xs, of thesis] by blast
  have main: "\<exists>h'. op [VOther v, VNum (Fin (of_nat (i + 1)))] s = Some (Some push_one, s1\<lparr>pb_msgs := h'\<rparr>) \<and> heap_fits ?D h'
      \<and> elements h' a f = Some ys \<and> (\<forall>b k. (b, k) \<noteq> (a, f) \<longrightarrow> \<not> part_of ?h (xs ! i) b \<longrightarrow> slot_at h' b k = slot_at ?h b k)"
    using call
  proof (elim insertE emptyE)
    assume c: "(op, ys) = (lmsg_repeated_remove_at E, take i xs @ drop (Suc i) xs)"
    show ?thesis using s1 c m remove_at_heap [OF fits xs(1,2) rm]
      by (auto simp: lmsg_repeated_remove_at_def on_heap_def ret_def split: bind_splits)
  next
    assume c: "(op, ys) = (lmsg_repeated_remove E, butlast (xs[i := last xs]))"
    show ?thesis using s1 c m remove_heap [OF fits xs(1,2) rm]
      by (auto simp: lmsg_repeated_remove_def on_heap_def ret_def split: bind_splits)
  qed
  then obtain h' where h': "op [VOther v, VNum (Fin (of_nat (i + 1)))] s = Some (Some push_one, s1\<lparr>pb_msgs := h'\<rparr>)" "heap_fits ?D h'"
      "elements h' a f = Some ys" "\<forall>b k. (b, k) \<noteq> (a, f) \<longrightarrow> \<not> part_of ?h (xs ! i) b \<longrightarrow> slot_at h' b k = slot_at ?h b k" by blast
  moreover have "map_option lm_dirty (ud_message (s1\<lparr>pb_msgs := h'\<rparr>) r) = Some 1" using s1(3) by (simp add: ud_message_def)
  ultimately show ?thesis by (intro exI [of _ "s1\<lparr>pb_msgs := h'\<rparr>"]) simp
qed

lemma demo_owns: "owns demo_heap p q \<longleftrightarrow> p = 0 \<and> q = 1"
  by (auto simp: owns_def demo_heap_def)

lemma demo_inside: "inside demo_heap 1 x \<longleftrightarrow> x = 1"
proof
  show "inside demo_heap 1 x \<Longrightarrow> x = 1" by (induction rule: rtranclp_induct) (simp_all add: demo_owns)
qed simp

lemma demo_whole: "whole demo_heap 1"
  by (rule wholeI) (auto simp: demo_owns demo_objs [unfolded One_nat_def])

text \<open>Witness: the inner message of the example is removed.\<close>

theorem remove_list_witness:
  "\<exists>s'. lmsg_repeated_remove_at demo_env [VOther 12, VNum (Fin (of_nat (0 + 1)))] demo_state = Some (Some push_one, s')
    \<and> elements (pb_msgs s') 0 (0, 2) = Some []"
proof -
  have e: "elements demo_heap 0 (0, 2) = Some [Inr 1]" by (simp add: elements_def slot_at_def demo_objs)
  have "removable demo_heap 0 (Inr 1)" using demo_whole demo_inside by (simp add: removable_def)
  moreover have "holds_repeated demo_state 12 10 0 (0, 2)" by (simp add: holds_repeated_def demo_ud)
  ultimately show ?thesis
    using remove_list [of demo_env demo_state 12 10 0 "(0, 2)" "[Inr 1]" 0 "lmsg_repeated_remove_at demo_env" "[]"] e demo_fits
    by (auto simp: demo_msgs)
qed

section \<open>Deleting\<close>

text \<open>What is deleted takes everything inside it along.\<close>

definition freed :: "pb_heap \<Rightarrow> pb_heap \<Rightarrow> bool" where
  "freed h h' \<longleftrightarrow> hp_objs h' \<subseteq>\<^sub>m hp_objs h
     \<and> (\<forall>y x. hp_objs h y \<noteq> None \<longrightarrow> hp_objs h' y = None \<longrightarrow> inside h y x \<longrightarrow> hp_objs h' x = None)"

lemma freed_le: "freed h h' \<Longrightarrow> hp_objs h' x \<noteq> None \<Longrightarrow> hp_objs h' x = hp_objs h x"
  unfolding freed_def map_le_def by auto

lemma freed_closed: "freed h h' \<Longrightarrow> hp_objs h y \<noteq> None \<Longrightarrow> hp_objs h' y = None \<Longrightarrow> inside h y x \<Longrightarrow> hp_objs h' x = None"
  unfolding freed_def by simp

lemma freed_inside:
  assumes f: "freed h h1" and p: "inside h y x" "hp_objs h1 y \<noteq> None"
  shows "inside h1 y x \<or> hp_objs h1 x = None"
  using p
proof (induction rule: rtranclp_induct)
  case (step z x)
  show ?case
  proof (cases "hp_objs h1 z")
    case None
    moreover have "hp_objs h z \<noteq> None" using step.hyps(2) by (auto simp: owns_def)
    moreover have "inside h z x" using step.hyps(2) by blast
    ultimately show ?thesis using freed_closed [OF f] by simp
  next
    case (Some m)
    have "hp_objs h z = Some m" using freed_le [OF f, of z] Some by simp
    then have "owns h1 z x" using step.hyps(2) Some by (simp add: owns_def)
    moreover have "inside h1 y z" using step.IH step.prems Some by simp
    ultimately show ?thesis by (simp add: rtranclp.rtrancl_into_rtrancl)
  qed
qed simp

lemma freed_trans:
  assumes "freed h h1" "freed h1 h2"
  shows "freed h h2"
proof -
  have "hp_objs h2 x = None" if y: "hp_objs h y \<noteq> None" "hp_objs h2 y = None" and x: "inside h y x" for y x
  proof (cases "hp_objs h1 y")
    case None
    then have "hp_objs h1 x = None" by (rule freed_closed [OF assms(1) y(1) _ x])
    then show ?thesis using freed_le [OF assms(2), of x] by fastforce
  next
    case (Some m)
    then consider "inside h1 y x" | "hp_objs h1 x = None" using freed_inside [OF assms(1) x] by auto
    then show ?thesis
    proof cases
      case 1
      then show ?thesis using freed_closed [OF assms(2) _ y(2)] Some by simp
    next
      case 2
      then show ?thesis using freed_le [OF assms(2), of x] by fastforce
    qed
  qed
  moreover have "hp_objs h2 \<subseteq>\<^sub>m hp_objs h" using assms unfolding freed_def by (meson map_le_trans)
  ultimately show ?thesis unfolding freed_def by blast
qed

lemma foldo_freed:
  assumes "\<And>q g g'. del q g = Some g' \<Longrightarrow> freed g g' \<and> hp_objs g' q = None"
  shows "foldo del qs h = Some h' \<Longrightarrow> freed h h' \<and> (\<forall>q \<in> set qs. hp_objs h' q = None)"
proof (induction qs arbitrary: h)
  case (Cons q qs)
  then obtain g where g: "del q h = Some g" "foldo del qs g = Some h'" by (auto split: bind_splits)
  have 1: "freed h g" "hp_objs g q = None" and 2: "freed g h'" "\<forall>q \<in> set qs. hp_objs h' q = None"
    using assms [OF g(1)] Cons.IH [OF g(2)] by auto
  have "hp_objs h' q = None" using freed_le [OF 2(1), of q] 1(2) by fastforce
  then show ?case using freed_trans [OF 1(1) 2(1)] 2(2) by simp
qed (auto simp: freed_def)

lemma Delete_freed:
  assumes "Delete a h = Some h'"
  shows "freed h h' \<and> hp_objs h' a = None"
proof (rule Delete.raw_induct [OF _ assms, of "\<lambda>a h h'. freed h h' \<and> hp_objs h' a = None"])
  fix del a h h'
  assume IH: "\<And>q g g'. del q g = Some g' \<Longrightarrow> freed g g' \<and> hp_objs g' q = None"
    and "Option.bind (hp_objs h a) (\<lambda>m. Option.bind (foldo (\<lambda>q h. del q h) (concat (map slot_owned (ms_slots m))) h)
      (\<lambda>h. Some (h\<lparr>hp_objs := (hp_objs h)(a := None)\<rparr>))) = Some h'"
  then obtain m g where m: "hp_objs h a = Some m" and g: "foldo del (concat (map slot_owned (ms_slots m))) h = Some g"
    and h': "h' = g\<lparr>hp_objs := (hp_objs g)(a := None)\<rparr>" by (auto split: bind_splits)
  have f: "freed h g" "\<forall>q \<in> set (concat (map slot_owned (ms_slots m))). hp_objs g q = None"
    using foldo_freed [of del, OF IH g] by auto
  have "freed g h'"
    unfolding freed_def
  proof (intro conjI allI impI)
    show "hp_objs h' \<subseteq>\<^sub>m hp_objs g" by (simp add: h' map_le_def)
    fix y x assume y: "hp_objs g y \<noteq> None" "hp_objs h' y = None" and x: "inside g y x"
    then have a: "y = a" by (auto simp: h' split: if_splits)
    show "hp_objs h' x = None"
      using x
    proof (cases rule: converse_rtranclpE)
      case (step q)
      have "hp_objs g a = Some m" using freed_le [OF f(1), of a] y(1) a m by simp
      then have "hp_objs g q = None" using step(1) a f(2) by (auto simp: owns_def)
      then have "x = q" using step(2) by (auto simp: owns_def elim: converse_rtranclpE)
      then show ?thesis using \<open>hp_objs g q = None\<close> by (simp add: h')
    qed (use a in \<open>simp add: h'\<close>)
  qed
  then show "freed h h' \<and> hp_objs h' a = None" using freed_trans [OF f(1)] by (simp add: h')
qed

lemma load_nothing: "hp_objs h a = None \<Longrightarrow> pb_load_tree ctop D P h a L = None"
  by (subst pb_load_tree.simps) simp

text \<open>C40: Userdata of a message inside another one does not keep its root alive. When the collector takes the root, whose message
  is deleted with everything inside it, the userdata of the inner message is still there for the script, and every use of
  it is undefined: reading a field, setting a field and the conversion to a table.\<close>

theorem collect_dangles:
  assumes u: "pb_ud s u = Some (UMsg m)" "lm_root m = u" "lm_message m = Some a"
    and v: "pb_ud s v = Some (UMsg c)" "v \<noteq> u" "lm_message c = Some q" "inside (pb_msgs s) a q"
    and run: "pb_collect E u s = Some s'"
  shows "pb_ud s' v = Some (UMsg c) \<and> lmsg_get E [VOther v, VStr n] s' = None \<and> lmsg_set E [VOther v, VStr n, x] s' = None
    \<and> lmsg_totable E [VOther v] s' = None"
proof -
  obtain h' where h': "Delete a (pb_msgs s) = Some h'" "pb_msgs s' = h'" "pb_ud s' = (pb_ud s)(u := None)"
    using run u by (auto simp: pb_collect_def lmsg_delete_def check_message_def arg_at_def on_heap_def ret_def split: bind_splits)
  have "hp_objs (pb_msgs s) a \<noteq> None" using h'(1) by (subst (asm) Delete.simps) (auto split: bind_splits)
  then have "hp_objs (pb_msgs s') q = None" using Delete_freed [OF h'(1)] freed_closed v(4) h'(2) by blast
  then show ?thesis using h' v
    by (simp add: lmsg_get_def lmsg_set_def lmsg_totable_def with_message_def check_message_def arg_at_def load_nothing)
qed

lemma demo_delete: "\<exists>h'. Delete 0 demo_heap = Some h'"
  by (subst Delete.simps, simp add: demo_objs, subst Delete.simps) (simp add: demo_objs [unfolded One_nat_def])

text \<open>Witness: the inner message of the example, after its root was collected.\<close>

theorem collect_dangles_witness:
  "\<exists>s'. pb_collect demo_env 10 demo_state = Some s' \<and> lmsg_get demo_env [VOther 11, VStr [97]] s' = None"
proof -
  have "inside demo_heap 0 1" by (rule r_into_rtranclp) (simp add: demo_owns)
  moreover have "\<exists>s'. pb_collect demo_env 10 demo_state = Some s'"
    using demo_delete by (auto simp: pb_collect_def lmsg_delete_def check_message_def arg_at_def on_heap_def ret_def demo_ud demo_msgs)
  ultimately show ?thesis
    using collect_dangles [of demo_state 10 "\<lparr>lm_message = Some 0, lm_root = 10, lm_dirty = 0\<rparr>" 0 11
        "\<lparr>lm_message = Some 1, lm_root = 10, lm_dirty = 0\<rparr>" 1 demo_env _ "[97]" VNil]
    by (auto simp: demo_ud demo_msgs)
qed

text \<open>A removed message is the next one that \<open>add\<close> returns: a script that still holds it has two names for one message.\<close>

theorem removed_is_reused:
  assumes v: "holds_repeated s v r a f" and at: "slot_at (pb_msgs s) a f = Some (ManyMsg n ps)" "n < length ps"
    and t: "field_cpp_type (field_of (pe_types E) f) = CPPTYPE_MESSAGE"
  shows "\<exists>w s'. lmsg_repeated_add E [VOther v] s = Some (Some [VOther w], s') \<and> map_option lm_message (ud_message s' w) = Some (Some (ps ! n))"
proof -
  obtain u m m' where u: "pb_ud s v = Some (URep \<lparr>rf_message = u, rf_field = f\<rparr>)" "pb_ud s u = Some (UMsg m)" "lm_message m = Some a"
      "lm_root m = r" "pb_ud s r = Some (UMsg m')" using v by (auto simp: holds_repeated_def)
  obtain s1 where s1: "set_dirty r s = Some s1" "pb_msgs s1 = pb_msgs s" using dirty_law [OF v] .
  obtain h' where "put_slot a f (ManyMsg (n + 1) ps) (pb_msgs s) = Some h'" using put_slot_law [OF at(1)] by metis
  then have "AddMessage (pe_types E) a f (pb_msgs s1) = Some (ps ! n, h')" using at s1(2) by (simp add: AddMessage_def)
  then show ?thesis using u s1 t
    by (simp add: lmsg_repeated_add_def with_repeated_def check_repeated_def arg_at_def ud_message_def new_ud_def ret_def)
qed

end
