(* ===== verification/Luaexe.thy ===== *)
theory Luaexe
  imports Lua_Value
begin

text \<open>
  The stand-alone interpreter, \<open>src/src/luaexe/luaexe.c\<close>. The Lua library, the standard streams and the
  signals are a parameter, a record of functions on the state of the world; the stack of the running C
  function is explicit, with its top in front. \<open>None\<close> is undefined behaviour, a misuse of the Lua API or
  a call that does not return. A Lua error that a call raises is the left side of a sum; it leaves every
  function up to \<open>lua_cpcall\<close> or \<open>lua_pcall\<close>. Running out of memory inside the Lua API is not modelled,
  apart from what \<open>lua_load\<close> and \<open>lua_pcall\<close> report. Neither is the number of slots of the stack: \<open>getargs\<close> asks for
  those it needs, the results of a chunk make room for themselves, and the other functions push few values; but
  \<open>print\<close> is pushed above the results of a line without asking for its slot.
\<close>

section \<open>The Lua library\<close>

datatype lua_error = LUA_ERRRUN | LUA_ERRSYNTAX | LUA_ERRMEM | LUA_ERRERR | LUA_ERRFILE

definition err_code :: "lua_error \<Rightarrow> int" where
  "err_code e = (case e of LUA_ERRRUN \<Rightarrow> 2 | LUA_ERRSYNTAX \<Rightarrow> 3 | LUA_ERRMEM \<Rightarrow> 4 | LUA_ERRERR \<Rightarrow> 5 | LUA_ERRFILE \<Rightarrow> 6)"

datatype gc_op = LUA_GCSTOP | LUA_GCRESTART | LUA_GCCOLLECT

datatype sigaction = SIG_DFL | Laction

text \<open>
  \<^item> \<open>le_loadbuffer\<close>, \<open>le_loadfile\<close>: the error and its message, or the compiled function.
  \<^item> \<open>le_pcall E h f as\<close> calls \<open>f\<close> with the handler \<open>h\<close>; \<open>le_call\<close> calls for one result.
  \<^item> \<open>le_getglobal\<close>, \<open>le_setglobal\<close>, \<open>le_getfield\<close>: access with metamethods, which may raise an error.
  \<^item> \<open>le_traceback\<close>: the Lua value of the C function \<open>traceback\<close>; \<open>le_smain\<close>: that of the argument of \<open>pmain\<close>.
  \<^item> \<open>le_where\<close>: the position that \<open>luaL_error\<close> puts in front of a message.
  \<^item> \<open>le_fgets E n\<close> reads at most \<open>n - 1\<close> bytes of a line of the standard input.
\<close>

record 'w lua_env =
  le_conv :: lua_conv
  le_loadbuffer :: "byte list \<Rightarrow> byte list \<Rightarrow> 'w \<Rightarrow> (lua_error \<times> lua + lua) \<times> 'w"
  le_loadfile :: "byte list option \<Rightarrow> 'w \<Rightarrow> (lua_error \<times> lua + lua) \<times> 'w"
  le_pcall :: "(lua \<Rightarrow> 'w \<Rightarrow> (lua + lua) \<times> 'w) option \<Rightarrow> lua \<Rightarrow> lua list \<Rightarrow> 'w \<Rightarrow> ((lua_error \<times> lua + lua list) \<times> 'w) option"
  le_call :: "lua \<Rightarrow> lua list \<Rightarrow> 'w \<Rightarrow> (lua + lua) \<times> 'w"
  le_getglobal :: "byte list \<Rightarrow> 'w \<Rightarrow> (lua + lua) \<times> 'w"
  le_setglobal :: "byte list \<Rightarrow> lua \<Rightarrow> 'w \<Rightarrow> (lua + unit) \<times> 'w"
  le_getfield :: "lua \<Rightarrow> byte list \<Rightarrow> 'w \<Rightarrow> (lua + lua) \<times> 'w"
  le_isfunction :: "lua \<Rightarrow> bool"
  le_traceback :: nat
  le_smain :: nat
  le_checkstack :: "nat \<Rightarrow> 'w \<Rightarrow> bool"
  le_where :: "'w \<Rightarrow> byte list"
  le_openlibs :: "'w \<Rightarrow> (lua + unit) \<times> 'w"
  le_gc :: "gc_op \<Rightarrow> 'w \<Rightarrow> 'w"
  le_sethook :: "bool \<Rightarrow> 'w \<Rightarrow> 'w"
  le_signal :: "sigaction \<Rightarrow> 'w \<Rightarrow> 'w"
  le_open :: "'w \<Rightarrow> bool \<times> 'w"
  le_close :: "'w \<Rightarrow> 'w"
  le_fgets :: "nat \<Rightarrow> 'w \<Rightarrow> byte list option \<times> 'w"
  le_stdout :: "byte list \<Rightarrow> 'w \<Rightarrow> 'w"
  le_stderr :: "byte list \<Rightarrow> 'w \<Rightarrow> 'w"
  le_getenv :: "byte list \<Rightarrow> 'w \<Rightarrow> byte list option"

text \<open>The static variables, the stack and the world. \<open>globalL\<close> is whether the pointer is set.\<close>

record 'w exe =
  globalL :: bool
  progname :: "byte list option"
  ex_stack :: lua_stack
  ex_world :: 'w

type_synonym ('a, 'w) res = "((lua + 'a) \<times> 'w exe) option"

text \<open>Sequencing: a raised error skips what follows.\<close>

definition and_then :: "('a, 'w) res \<Rightarrow> ('a \<Rightarrow> 'w exe \<Rightarrow> ('b, 'w) res) \<Rightarrow> ('b, 'w) res" where
  "and_then m k = Option.bind m (\<lambda>(r, s). case r of Inl e \<Rightarrow> Some (Inl e, s) | Inr a \<Rightarrow> k a s)"

lemma and_then_mono [partial_function_mono]:
  assumes "mono_option B" and "\<And>a s. mono_option (\<lambda>f. C a s f)"
  shows "mono_option (\<lambda>f. and_then (B f) (\<lambda>a s. C a s f))"
  unfolding and_then_def
  apply (rule bind_mono [OF assms(1)])
  subgoal for y by (cases y; cases "fst y") (auto intro: option.const_mono assms(2))
  done

section \<open>The stack\<close>

definition on_world :: "('w \<Rightarrow> 'w) \<Rightarrow> 'w exe \<Rightarrow> 'w exe" where
  "on_world f s = s\<lparr>ex_world := f (ex_world s)\<rparr>"

definition push :: "lua \<Rightarrow> 'w exe \<Rightarrow> 'w exe" where
  "push v s = s\<lparr>ex_stack := v # ex_stack s\<rparr>"

definition lua_pop :: "nat \<Rightarrow> 'w exe \<Rightarrow> 'w exe option" where
  "lua_pop n s = (if n \<le> length (ex_stack s) then Some (s\<lparr>ex_stack := drop n (ex_stack s)\<rparr>) else None)"

definition lua_top :: "'w exe \<Rightarrow> lua option" where
  "lua_top s = (case ex_stack s of [] \<Rightarrow> None | v # _ \<Rightarrow> Some v)"

text \<open>The depth below the top of an index, which counts from the bottom, or from the top when negative.\<close>

definition depth :: "int \<Rightarrow> lua_stack \<Rightarrow> nat option" where
  "depth i st =
     (if 1 \<le> i \<and> i \<le> int (length st) then Some (nat (int (length st) - i))
      else if - int (length st) \<le> i \<and> i \<le> -1 then Some (nat (- i - 1)) else None)"

definition lua_insert :: "int \<Rightarrow> 'w exe \<Rightarrow> 'w exe option" where
  "lua_insert i s = do {
     d \<leftarrow> depth i (ex_stack s);
     let (v, r) = (hd (ex_stack s), tl (ex_stack s));
     Some (s\<lparr>ex_stack := take d r @ v # drop d r\<rparr>)
   }"

definition lua_remove :: "int \<Rightarrow> 'w exe \<Rightarrow> 'w exe option" where
  "lua_remove i s = do {
     d \<leftarrow> depth i (ex_stack s);
     Some (s\<lparr>ex_stack := take d (ex_stack s) @ drop (Suc d) (ex_stack s)\<rparr>)
   }"

definition lua_index :: "int \<Rightarrow> 'w exe \<Rightarrow> lua option" where
  "lua_index i s = do { d \<leftarrow> depth i (ex_stack s); Some (ex_stack s ! d) }"

text \<open>\<open>lua_concat(L, 3)\<close>.\<close>

definition lua_concat3 :: "'w lua_env \<Rightarrow> 'w exe \<Rightarrow> 'w exe option" where
  "lua_concat3 E s =
     (case ex_stack s of
        c # b # a # r \<Rightarrow> do {
          x \<leftarrow> lua_tolstring (le_conv E) a; y \<leftarrow> lua_tolstring (le_conv E) b; z \<leftarrow> lua_tolstring (le_conv E) c;
          Some (s\<lparr>ex_stack := VStr (x @ y @ z) # r\<rparr>)
        }
      | _ \<Rightarrow> None)"

text \<open>Pushing what a call gives, or raising its error.\<close>

definition push_or_raise :: "('w \<Rightarrow> (lua + lua) \<times> 'w) \<Rightarrow> 'w exe \<Rightarrow> (unit, 'w) res" where
  "push_or_raise f s =
     (case f (ex_world s) of
        (Inl e, w) \<Rightarrow> Some (Inl e, s\<lparr>ex_world := w\<rparr>)
      | (Inr v, w) \<Rightarrow> Some (Inr (), push v (s\<lparr>ex_world := w\<rparr>)))"

definition load_result :: "('w \<Rightarrow> (lua_error \<times> lua + lua) \<times> 'w) \<Rightarrow> 'w exe \<Rightarrow> int \<times> 'w exe" where
  "load_result f s =
     (case f (ex_world s) of
        (Inl (e, m), w) \<Rightarrow> (err_code e, push m (s\<lparr>ex_world := w\<rparr>))
      | (Inr v, w) \<Rightarrow> (0, push v (s\<lparr>ex_world := w\<rparr>)))"

section \<open>Interrupts and messages\<close>

text \<open>\<open>lstop\<close> raises the error that is its result.\<close>

definition lstop :: "'w lua_env \<Rightarrow> 'w \<Rightarrow> lua \<times> 'w" where
  "lstop E w = (let w = le_sethook E False w in (VStr (le_where E w @ ascii ''interrupted!''), w))"

definition laction :: "'w lua_env \<Rightarrow> 'w exe \<Rightarrow> 'w exe option" where
  "laction E s =
     (let s = on_world (le_signal E SIG_DFL) s in
      if globalL s then Some (on_world (le_sethook E True) s) else None)"

definition print_usage :: "'w lua_env \<Rightarrow> 'w exe \<Rightarrow> 'w exe option" where
  "print_usage E s = do {
     p \<leftarrow> progname s;
     Some (on_world (le_stderr E
       (ascii ''usage: '' @ c_str p @ ascii '' [options] [script [args]].'' @ [10] @
        ascii ''Available options are:'' @ [10] @
        ascii ''  -e stat  execute string '' @ [39] @ ascii ''stat'' @ [39, 10] @
        ascii ''  -l name  require library '' @ [39] @ ascii ''name'' @ [39, 10] @
        ascii ''  -i       enter interactive mode after executing '' @ [39] @ ascii ''script'' @ [39, 10] @
        ascii ''  -v       show version information'' @ [10] @
        ascii ''  --       stop handling options'' @ [10] @
        ascii ''  -        execute stdin and stop handling options'' @ [10])) s)
   }"

definition l_message :: "'w lua_env \<Rightarrow> byte list option \<Rightarrow> byte list \<Rightarrow> 'w exe \<Rightarrow> 'w exe" where
  "l_message E pname msg s =
     (let s = (case pname of None \<Rightarrow> s | Some p \<Rightarrow> on_world (le_stderr E (c_str p @ ascii '': '')) s) in
      on_world (le_stderr E (c_str msg @ [10])) s)"

definition report :: "'w lua_env \<Rightarrow> int \<Rightarrow> 'w exe \<Rightarrow> (int \<times> 'w exe) option" where
  "report E status s =
     (if status = 0 then Some (status, s)
      else do {
        v \<leftarrow> lua_top s;
        if v = VNil then Some (status, s)
        else do {
          let msg = (case lua_tolstring (le_conv E) v of None \<Rightarrow> ascii ''(error object is not a string)'' | Some m \<Rightarrow> m);
          s \<leftarrow> lua_pop 1 (l_message E (progname s) msg s);
          Some (status, s)
        }
      })"

text \<open>The handler of errors; it gives the error object that the protected call reports.\<close>

definition traceback :: "'w lua_env \<Rightarrow> lua \<Rightarrow> 'w \<Rightarrow> (lua + lua) \<times> 'w" where
  "traceback E msg w =
     (if \<not> lua_isstring msg then (Inr msg, w)
      else
        (case le_getglobal E (ascii ''debug'') w of
           (Inl e, w) \<Rightarrow> (Inl e, w)
         | (Inr (VTable t), w) \<Rightarrow>
             (case le_getfield E (VTable t) (ascii ''traceback'') w of
                (Inl e, w) \<Rightarrow> (Inl e, w)
              | (Inr f, w) \<Rightarrow> if \<not> le_isfunction E f then (Inr msg, w) else le_call E f [msg, VNum (d_int 2)] w)
         | (Inr _, w) \<Rightarrow> (Inr msg, w)))"

section \<open>Protected calls\<close>

text \<open>The handler is found by its index below the function; \<open>0\<close> is none.\<close>

definition handler_at :: "'w lua_env \<Rightarrow> int \<Rightarrow> lua_stack \<Rightarrow> (lua \<Rightarrow> 'w \<Rightarrow> (lua + lua) \<times> 'w) option option" where
  "handler_at E i st =
     (if i = 0 then Some None
      else do {
        d \<leftarrow> depth i st;
        if st ! d = VOther (le_traceback E) then Some (Some (traceback E)) else None
      })"

definition lua_pcall :: "'w lua_env \<Rightarrow> nat \<Rightarrow> bool \<Rightarrow> int \<Rightarrow> 'w exe \<Rightarrow> (int \<times> 'w exe) option" where
  "lua_pcall E nargs multret errfunc s =
     (if length (ex_stack s) \<le> nargs then None
      else do {
        let st = drop (Suc nargs) (ex_stack s);
        h \<leftarrow> handler_at E errfunc st;
        (r, w) \<leftarrow> le_pcall E h (ex_stack s ! nargs) (rev (take nargs (ex_stack s))) (ex_world s);
        case r of
          Inl (e, m) \<Rightarrow> Some (err_code e, s\<lparr>ex_stack := m # st, ex_world := w\<rparr>)
        | Inr rs \<Rightarrow> Some (0, s\<lparr>ex_stack := (if multret then rev rs else []) @ st, ex_world := w\<rparr>)
      })"

definition docall :: "'w lua_env \<Rightarrow> nat \<Rightarrow> bool \<Rightarrow> 'w exe \<Rightarrow> (int \<times> 'w exe) option" where
  "docall E narg clear s = do {
     let base = int (length (ex_stack s)) - int narg;
     s \<leftarrow> lua_insert base (push (VOther (le_traceback E)) s);
     let s = on_world (le_signal E Laction) s;
     (status, s) \<leftarrow> lua_pcall E narg (\<not> clear) base s;
     let s = on_world (le_signal E SIG_DFL) s;
     s \<leftarrow> lua_remove base s;
     Some (status, if status \<noteq> 0 then on_world (le_gc E LUA_GCCOLLECT) s else s)
   }"

definition print_version :: "'w lua_env \<Rightarrow> 'w exe \<Rightarrow> 'w exe" where
  "print_version E s = l_message E None (ascii ''Lua 5.1.5  Copyright (C) 1994-2012 Lua.org, PUC-Rio'') s"

section \<open>Arguments, files, strings and libraries\<close>

text \<open>
  \<open>argv\<close> is the list of the arguments; the null pointer behind the last one can be read, nothing after it.
\<close>

definition argv_at :: "byte list list \<Rightarrow> nat \<Rightarrow> byte list option option" where
  "argv_at argv i =
     (if i < length argv then Some (Some (argv ! i)) else if i = length argv then Some None else None)"

text \<open>The character at a position of a C string.\<close>

definition chr_at :: "byte list \<Rightarrow> nat \<Rightarrow> byte option" where
  "chr_at s i = (if i < length s then Some (s ! i) else if i = length s then Some 0 else None)"

text \<open>The table of all the arguments, the script at index \<open>0\<close>.\<close>

fun arg_entries :: "int \<Rightarrow> byte list list \<Rightarrow> (lua \<times> lua) list \<Rightarrow> (lua \<times> lua) list" where
  "arg_entries i [] es = es"
| "arg_entries i (a # as) es = arg_entries (i + 1) as (set_entry (VNum (d_int i)) (VStr a) es)"

definition getargs :: "'w lua_env \<Rightarrow> byte list list \<Rightarrow> nat \<Rightarrow> 'w exe \<Rightarrow> (nat, 'w) res" where
  "getargs E argv n s =
     (let narg = length argv - (n + 1) in
      if \<not> le_checkstack E (narg + 3) (ex_world s)
      then Some (Inl (VStr (le_where E (ex_world s) @ ascii ''stack overflow (too many arguments to script)'')), s)
      else
        (let s = fold push (map VStr (drop (n + 1) argv)) s in
         Some (Inr narg, push (VTable (arg_entries (- int n) argv [])) s)))"

definition dofile :: "'w lua_env \<Rightarrow> byte list option \<Rightarrow> 'w exe \<Rightarrow> (int \<times> 'w exe) option" where
  "dofile E name s = do {
     let (status, s) = load_result (le_loadfile E name) s;
     (status, s) \<leftarrow> (if status \<noteq> 0 then Some (1, s)
                     else do { (status, s) \<leftarrow> docall E 0 True s; Some (if status \<noteq> 0 then 1 else 0, s) });
     report E status s
   }"

definition dostring :: "'w lua_env \<Rightarrow> byte list \<Rightarrow> byte list \<Rightarrow> 'w exe \<Rightarrow> (int \<times> 'w exe) option" where
  "dostring E str name s = do {
     let (status, s) = load_result (le_loadbuffer E str name) s;
     (status, s) \<leftarrow> (if status \<noteq> 0 then Some (1, s)
                     else do { (status, s) \<leftarrow> docall E 0 True s; Some (if status \<noteq> 0 then 1 else 0, s) });
     report E status s
   }"

definition dolibrary :: "'w lua_env \<Rightarrow> byte list \<Rightarrow> 'w exe \<Rightarrow> (int, 'w) res" where
  "dolibrary E name s =
     and_then (push_or_raise (le_getglobal E (ascii ''require'')) s) (\<lambda>_ s. do {
       (status, s) \<leftarrow> docall E 1 True (push (VStr name) s);
       (status, s) \<leftarrow> report E status s;
       Some (Inr status, s)
     })"

section \<open>Interactive mode\<close>

definition LUA_PROMPT :: "byte list" where "LUA_PROMPT = ascii ''> ''"
definition LUA_PROMPT2 :: "byte list" where "LUA_PROMPT2 = ascii ''>> ''"
definition LUA_MAXINPUT :: nat where "LUA_MAXINPUT = 512"

definition get_prompt :: "'w lua_env \<Rightarrow> bool \<Rightarrow> 'w exe \<Rightarrow> (byte list, 'w) res" where
  "get_prompt E firstline s =
     and_then (push_or_raise (le_getglobal E (if firstline then ascii ''_PROMPT'' else ascii ''_PROMPT2'')) s) (\<lambda>_ s. do {
       v \<leftarrow> lua_top s;
       let p = (case lua_tolstring (le_conv E) v of
                  None \<Rightarrow> if firstline then LUA_PROMPT else LUA_PROMPT2 | Some p \<Rightarrow> c_str p);
       s \<leftarrow> lua_pop 1 s;
       Some (Inr p, s)
     })"

text \<open>\<open>strstr\<close>: the position of the first occurrence.\<close>

fun strstr :: "byte list \<Rightarrow> byte list \<Rightarrow> nat option" where
  "strstr h pat =
     (if take (length pat) h = pat then Some 0
      else (case h of [] \<Rightarrow> None | _ # h \<Rightarrow> map_option Suc (strstr h pat)))"

declare strstr.simps [simp del]

text \<open>The text \<open>'<eof>'\<close> at the end of a message of the compiler.\<close>

definition eof_mark :: "byte list" where "eof_mark = [39] @ ascii ''<eof>'' @ [39]"

definition incomplete :: "'w lua_env \<Rightarrow> int \<Rightarrow> 'w exe \<Rightarrow> (bool \<times> 'w exe) option" where
  "incomplete E status s =
     (if status = err_code LUA_ERRSYNTAX
      then do {
        v \<leftarrow> lua_top s;
        msg \<leftarrow> lua_tolstring (le_conv E) v;
        if map_option int (strstr (c_str msg) eof_mark) = Some (int (length msg) - int (length eof_mark))
        then do { s \<leftarrow> lua_pop 1 s; Some (True, s) }
        else Some (False, s)
      }
      else Some (False, s))"

text \<open>The line that \<open>fgets\<close> left in the buffer, without its newline; a leading \<open>=\<close> becomes \<open>return\<close>.\<close>

definition chop_newline :: "byte list \<Rightarrow> byte list" where
  "chop_newline b = (if b \<noteq> [] \<and> last b = 10 then butlast b else b)"

definition pushline :: "'w lua_env \<Rightarrow> bool \<Rightarrow> 'w exe \<Rightarrow> (bool, 'w) res" where
  "pushline E firstline s =
     and_then (get_prompt E firstline s) (\<lambda>prmt s.
       (let s = on_world (le_stdout E prmt) s;
            (l, w) = le_fgets E LUA_MAXINPUT (ex_world s);
            s = s\<lparr>ex_world := w\<rparr> in
        case l of
          None \<Rightarrow> Some (Inr False, s)
        | Some b \<Rightarrow>
            (let b = chop_newline (c_str b) in
             Some (Inr True,
               push (VStr (if firstline \<and> b \<noteq> [] \<and> hd b = 61 then ascii ''return '' @ tl b else b)) s))))"

partial_function (option) load_loop :: "'w lua_env \<Rightarrow> 'w exe \<Rightarrow> (int, 'w) res" where
  "load_loop E s =
     Option.bind (lua_index 1 s) (\<lambda>v.
     Option.bind (lua_tolstring (le_conv E) v) (\<lambda>line.
     Option.bind (Some (load_result (le_loadbuffer E line (ascii ''=stdin'')) s)) (\<lambda>(status, s).
     Option.bind (incomplete E status s) (\<lambda>(again, s).
       if \<not> again then Some (Inr status, s)
       else
         and_then (pushline E False s) (\<lambda>more s.
           if \<not> more then Some (Inr (-1), s)
           else
             Option.bind (lua_insert (-2) (push (VStr [10]) s)) (\<lambda>s.
             Option.bind (lua_concat3 E s) (\<lambda>s. load_loop E s)))))))"

definition loadline :: "'w lua_env \<Rightarrow> 'w exe \<Rightarrow> (int, 'w) res" where
  "loadline E s =
     and_then (pushline E True (s\<lparr>ex_stack := []\<rparr>)) (\<lambda>more s.
       if \<not> more then Some (Inr (-1), s)
       else
         and_then (load_loop E s) (\<lambda>status s.
           if status = -1 then Some (Inr (-1), s)
           else do { s \<leftarrow> lua_remove 1 s; Some (Inr status, s) }))"

text \<open>Printing the results of a line.\<close>

definition print_results :: "'w lua_env \<Rightarrow> 'w exe \<Rightarrow> (unit, 'w) res" where
  "print_results E s =
     and_then (push_or_raise (le_getglobal E (ascii ''print'')) s) (\<lambda>_ s. do {
       s \<leftarrow> lua_insert 1 s;
       (status, s) \<leftarrow> lua_pcall E (length (ex_stack s) - 1) False 0 s;
       if status = 0 then Some (Inr (), s)
       else do {
         v \<leftarrow> lua_top s;
         let m = (case lua_tolstring (le_conv E) v of None \<Rightarrow> ascii ''(null)'' | Some m \<Rightarrow> c_str m);
         let msg = ascii ''error calling '' @ [39] @ ascii ''print'' @ [39] @ ascii '' ('' @ m @ ascii '')'';
         Some (Inr (), l_message E (progname s) msg (push (VStr msg) s))
       }
     })"

partial_function (option) dotty_loop :: "'w lua_env \<Rightarrow> 'w exe \<Rightarrow> (unit, 'w) res" where
  "dotty_loop E s =
     and_then (loadline E s) (\<lambda>status s.
       if status = -1 then Some (Inr (), s)
       else
         Option.bind (if status = 0 then docall E 0 False s else Some (status, s)) (\<lambda>(status, s).
         Option.bind (report E status s) (\<lambda>(status, s).
           if status = 0 \<and> ex_stack s \<noteq> []
           then and_then (print_results E s) (\<lambda>_ s. dotty_loop E s)
           else dotty_loop E s)))"

definition dotty :: "'w lua_env \<Rightarrow> 'w exe \<Rightarrow> (unit, 'w) res" where
  "dotty E s =
     (let oldprogname = progname s in
      and_then (dotty_loop E (s\<lparr>progname := None\<rparr>)) (\<lambda>_ s.
        Some (Inr (), (on_world (le_stdout E [10]) (s\<lparr>ex_stack := []\<rparr>))\<lparr>progname := oldprogname\<rparr>)))"

section \<open>The command line\<close>

text \<open>The end of \<open>handle_script\<close>: the script is loaded, moved below its arguments and called.\<close>

definition start_script :: "'w lua_env \<Rightarrow> byte list option \<Rightarrow> nat \<Rightarrow> 'w exe \<Rightarrow> (int \<times> 'w exe) option" where
  "start_script E fname narg s = do {
     let (status, s) = load_result (le_loadfile E fname) s;
     s \<leftarrow> lua_insert (- (int narg + 1)) s;
     (status, s) \<leftarrow> (if status = 0 then docall E narg False s
                     else do { s \<leftarrow> lua_pop narg s; Some (status, s) });
     report E status s
   }"

definition handle_script :: "'w lua_env \<Rightarrow> byte list list \<Rightarrow> nat \<Rightarrow> 'w exe \<Rightarrow> (int, 'w) res" where
  "handle_script E argv n s =
     and_then (getargs E argv n s) (\<lambda>narg s.
     Option.bind (lua_top s) (\<lambda>t.
     Option.bind (lua_pop 1 s) (\<lambda>s.
     (case le_setglobal E (ascii ''arg'') t (ex_world s) of
        (Inl e, w) \<Rightarrow> Some (Inl e, s\<lparr>ex_world := w\<rparr>)
      | (Inr _, w) \<Rightarrow> do {
          let s = s\<lparr>ex_world := w\<rparr>;
          fname \<leftarrow> Option.bind (argv_at argv n) (\<lambda>a. a);
          prev \<leftarrow> Option.bind (argv_at argv (n - 1)) (\<lambda>a. a);
          let fname = (if fname = ascii ''-'' \<and> prev \<noteq> ascii ''--'' then None else Some fname);
          (status, s) \<leftarrow> start_script E fname narg s;
          Some (Inr status, s)
        }))))"

text \<open>The flags \<open>*pi\<close>, \<open>*pv\<close> and \<open>*pe\<close>.\<close>

record flags =
  has_i :: bool
  has_v :: bool
  has_e :: bool

text \<open>The macro \<open>notail\<close>: nothing may follow the letter of an option.\<close>

definition tail_free :: "byte list \<Rightarrow> bool option" where
  "tail_free a = map_option (\<lambda>c. c = 0) (chr_at a 2)"

text \<open>The cases \<open>'e'\<close> and \<open>'l'\<close>: \<open>None\<close> when a value is needed and missing, otherwise whether it is the next argument.\<close>

definition skip_value :: "byte list list \<Rightarrow> nat \<Rightarrow> byte list \<Rightarrow> bool option option" where
  "skip_value argv i a = do {
     c \<leftarrow> chr_at a 2;
     if c = 0 then map_option (map_option (\<lambda>_. True)) (argv_at argv (Suc i)) else Some (Some False)
   }"

text \<open>
  The letters are compared by their codes: \<open>-\<close> is 45, \<open>e\<close> 101, \<open>i\<close> 105, \<open>l\<close> 108 and \<open>v\<close> 118. The loop ends
  because \<open>i\<close> grows and nothing behind the null pointer can be read.
\<close>

function collect_loop :: "byte list list \<Rightarrow> nat \<Rightarrow> flags \<Rightarrow> (int \<times> flags) option" where
  "collect_loop argv i f =
     (case argv_at argv i of
        None \<Rightarrow> None
      | Some None \<Rightarrow> Some (0, f)
      | Some (Some a) \<Rightarrow> do {
          c \<leftarrow> chr_at a 0;
          if c \<noteq> 45 then Some (int i, f)
          else do {
            opt \<leftarrow> chr_at a 1;
            if opt = 45 then do {
              t \<leftarrow> tail_free a;
              if \<not> t then Some (-1, f)
              else do { n \<leftarrow> argv_at argv (Suc i); Some (if n = None then 0 else int (Suc i), f) }
            }
            else if opt = 0 then Some (int i, f)
            else if opt = 105 \<or> opt = 118 then do {
              t \<leftarrow> tail_free a;
              if \<not> t then Some (-1, f)
              else collect_loop argv (Suc i) (f\<lparr>has_i := has_i f \<or> opt = 105, has_v := True\<rparr>)
            }
            else if opt = 101 \<or> opt = 108 then do {
              let f = f\<lparr>has_e := has_e f \<or> opt = 101\<rparr>;
              sep \<leftarrow> skip_value argv i a;
              case sep of None \<Rightarrow> Some (-1, f) | Some b \<Rightarrow> collect_loop argv (if b then Suc (Suc i) else Suc i) f
            }
            else Some (-1, f)
          }
        })"
  by pat_completeness auto

termination collect_loop
  by (relation "measure (\<lambda>(argv, i, f). Suc (length argv) - i)") (auto simp: argv_at_def split: if_splits)

declare collect_loop.simps [simp del]

definition collectargs :: "byte list list \<Rightarrow> (int \<times> flags) option" where
  "collectargs argv = collect_loop argv 1 \<lparr>has_i = False, has_v = False, has_e = False\<rparr>"

text \<open>The text behind the letter of an option or, when there is none, the next argument; and which it is.\<close>

definition option_value :: "byte list list \<Rightarrow> nat \<Rightarrow> byte list \<Rightarrow> (byte list \<times> bool) option" where
  "option_value argv i a = do {
     c \<leftarrow> chr_at a 2;
     if c = 0 then do { v \<leftarrow> argv_at argv (Suc i); v \<leftarrow> v; Some (v, True) } else Some (drop 2 a, False)
   }"

function run_loop :: "'w lua_env \<Rightarrow> byte list list \<Rightarrow> nat \<Rightarrow> nat \<Rightarrow> 'w exe \<Rightarrow> (int, 'w) res" where
  "run_loop E argv n i s =
     (if n \<le> i then Some (Inr 0, s)
      else do {
        a \<leftarrow> argv_at argv i;
        case a of
          None \<Rightarrow> run_loop E argv n (Suc i) s
        | Some a \<Rightarrow> do {
            opt \<leftarrow> chr_at a 1;
            if opt = 101 then do {
              (chunk, b) \<leftarrow> option_value argv i a;
              (status, s) \<leftarrow> dostring E chunk (ascii ''=(command line)'') s;
              if status \<noteq> 0 then Some (Inr 1, s) else run_loop E argv n (if b then Suc (Suc i) else Suc i) s
            }
            else if opt = 108 then do {
              (filename, b) \<leftarrow> option_value argv i a;
              and_then (dolibrary E filename s) (\<lambda>status s.
                if status \<noteq> 0 then Some (Inr 1, s) else run_loop E argv n (if b then Suc (Suc i) else Suc i) s)
            }
            else run_loop E argv n (Suc i) s
          }
      })"
  by pat_completeness auto

termination run_loop
  by (relation "measure (\<lambda>(E, argv, n, i, s). n - i)") auto

declare run_loop.simps [simp del]

definition runargs :: "'w lua_env \<Rightarrow> byte list list \<Rightarrow> nat \<Rightarrow> 'w exe \<Rightarrow> (int, 'w) res" where
  "runargs E argv n s = run_loop E argv n 1 s"

definition handle_luainit :: "'w lua_env \<Rightarrow> 'w exe \<Rightarrow> (int \<times> 'w exe) option" where
  "handle_luainit E s =
     (case le_getenv E (ascii ''LUA_INIT'') (ex_world s) of
        None \<Rightarrow> Some (0, s)
      | Some init \<Rightarrow>
          if init \<noteq> [] \<and> hd init = 64 then dofile E (Some (tl init)) s
          else dostring E init (ascii ''=LUA_INIT'') s)"

text \<open>The makefile sets none of the macros by which \<open>luaconf.h\<close> asks the system.\<close>

definition lua_stdin_is_tty :: bool where "lua_stdin_is_tty = True"

text \<open>The end of \<open>pmain\<close>: the interactive mode, or the standard input as a file.\<close>

definition interact :: "'w lua_env \<Rightarrow> int \<Rightarrow> flags \<Rightarrow> 'w exe \<Rightarrow> (unit, 'w) res" where
  "interact E script f s =
     (if has_i f then dotty E s
      else if script = 0 \<and> \<not> has_e f \<and> \<not> has_v f
      then (if lua_stdin_is_tty then dotty E (print_version E s)
            else do { (_, s) \<leftarrow> dofile E None s; Some (Inr (), s) })
      else Some (Inr (), s))"

text \<open>What \<open>pmain\<close> does after the initialization, with the results of \<open>collectargs\<close>.\<close>

definition line_part :: "'w lua_env \<Rightarrow> byte list list \<Rightarrow> int \<times> flags \<Rightarrow> 'w exe \<Rightarrow> (int, 'w) res" where
  "line_part E argv = (\<lambda>(script, f) s.
     if script < 0 then do { s \<leftarrow> print_usage E s; Some (Inr 1, s) }
     else
       (let s = (if has_v f then print_version E s else s) in
        and_then (runargs E argv (if 0 < script then nat script else length argv) s) (\<lambda>status s.
          if status \<noteq> 0 then Some (Inr status, s)
          else
            and_then (if script \<noteq> 0 then handle_script E argv (nat script) s else Some (Inr 0, s)) (\<lambda>status s.
              if status \<noteq> 0 then Some (Inr status, s)
              else and_then (interact E script f s) (\<lambda>_ s. Some (Inr 0, s))))))"

text \<open>\<open>pmain\<close> gives the \<open>status\<close> of its \<open>Smain\<close>; \<open>argc\<close> is the length of \<open>argv\<close>.\<close>

definition pmain :: "'w lua_env \<Rightarrow> byte list list \<Rightarrow> 'w exe \<Rightarrow> (int, 'w) res" where
  "pmain E argv s =
     (let s = s\<lparr>globalL := True\<rparr>;
          s = (if argv \<noteq> [] \<and> hd argv \<noteq> [] then s\<lparr>progname := Some (hd argv)\<rparr> else s);
          s = on_world (le_gc E LUA_GCSTOP) s;
          (r, w) = le_openlibs E (ex_world s);
          s = s\<lparr>ex_world := w\<rparr> in
      case r of
        Inl e \<Rightarrow> Some (Inl e, s)
      | Inr _ \<Rightarrow>
          Option.bind (handle_luainit E (on_world (le_gc E LUA_GCRESTART) s)) (\<lambda>(status, s).
            if status \<noteq> 0 then Some (Inr status, s)
            else
              Option.bind (collectargs argv) (\<lambda>sf. line_part E argv sf s)))"

definition LUA_PROGNAME :: "byte list" where "LUA_PROGNAME = ascii ''lua''"

text \<open>The static variables before \<open>main\<close>.\<close>

definition exe_init :: "'w \<Rightarrow> 'w exe" where
  "exe_init w = \<lparr>globalL = False, progname = Some LUA_PROGNAME, ex_stack = [], ex_world = w\<rparr>"

definition EXIT_FAILURE :: int where "EXIT_FAILURE = 1"
definition EXIT_SUCCESS :: int where "EXIT_SUCCESS = 0"

text \<open>\<open>lua_cpcall\<close> runs \<open>pmain\<close> on a stack of its own; an error it raises is left on the stack of \<open>main\<close>.\<close>

definition main :: "'w lua_env \<Rightarrow> byte list list \<Rightarrow> 'w exe \<Rightarrow> (int \<times> 'w exe) option" where
  "main E argv s =
     (let (ok, w) = le_open E (ex_world s); s = s\<lparr>ex_world := w\<rparr> in
      if \<not> ok
      then do {
        name \<leftarrow> argv_at argv 0;
        Some (EXIT_FAILURE, l_message E name (ascii ''cannot create state: not enough memory'') s)
      }
      else do {
        (r, s) \<leftarrow> pmain E argv (s\<lparr>ex_stack := [VOther (le_smain E)]\<rparr>);
        let (status, s) = (case r of
              Inl e \<Rightarrow> (err_code LUA_ERRRUN, s\<lparr>ex_stack := [e]\<rparr>)
            | Inr _ \<Rightarrow> (0, s\<lparr>ex_stack := []\<rparr>));
        (_, s) \<leftarrow> report E status s;
        let s = on_world (le_close E) s;
        Some (if status \<noteq> 0 \<or> r \<noteq> Inr 0 then EXIT_FAILURE else EXIT_SUCCESS, s)
      })"

end
