(* ===== verification/Luaexe_Spec.thy ===== *)
theory Luaexe_Spec
  imports Luaexe
begin

text \<open>
  The stand-alone interpreter against a description of its command line that has neither a stack nor
  indices: the options are read off the list of arguments and carried out in order. \<open>unstack\<close> forgets the
  stack. The laws of the single functions are stated as simulations, \<open>agrees\<close> for the functions that
  cannot raise a Lua error and \<open>agreesE\<close> for the others.
\<close>

section \<open>The description\<close>

datatype opt = Opt_i | Opt_v | Opt_e "byte list" | Opt_l "byte list"

text \<open>
  What follows the options: an error, nothing, or the script with its arguments; the flag is whether
  \<open>--\<close> ended the options.
\<close>

datatype rest = Bad | Done | Script bool "byte list list"

definition with_opt :: "opt \<Rightarrow> opt list \<times> rest \<Rightarrow> opt list \<times> rest" where
  "with_opt x r = (x # fst r, snd r)"

fun read_opts :: "byte list list \<Rightarrow> opt list \<times> rest" where
  "read_opts [] = ([], Done)"
| "read_opts (a # as) =
     (if a = [] \<or> hd a \<noteq> 45 \<or> a = [45] then ([], Script False (a # as))
      else if a = [45, 45] then ([], if as = [] then Done else Script True as)
      else if a = [45, 105] then with_opt Opt_i (read_opts as)
      else if a = [45, 118] then with_opt Opt_v (read_opts as)
      else if a = [45, 101] then (case as of [] \<Rightarrow> ([], Bad) | v # as \<Rightarrow> with_opt (Opt_e v) (read_opts as))
      else if a = [45, 108] then (case as of [] \<Rightarrow> ([], Bad) | v # as \<Rightarrow> with_opt (Opt_l v) (read_opts as))
      else if hd (tl a) = 101 then with_opt (Opt_e (drop 2 a)) (read_opts as)
      else if hd (tl a) = 108 then with_opt (Opt_l (drop 2 a)) (read_opts as)
      else ([], Bad))"

text \<open>A protected call, and the message for an error that is not nil.\<close>

definition ref_call :: "'w lua_env \<Rightarrow> lua \<Rightarrow> lua list \<Rightarrow> 'w exe \<Rightarrow> ((lua_error \<times> lua + lua list) \<times> 'w exe) option" where
  "ref_call E f as s = do {
     (r, w) \<leftarrow> le_pcall E (Some (traceback E)) f as (le_signal E Laction (ex_world s));
     let w = le_signal E SIG_DFL w;
     Some (r, s\<lparr>ex_world := case r of Inl _ \<Rightarrow> le_gc E LUA_GCCOLLECT w | Inr _ \<Rightarrow> w\<rparr>)
   }"

definition error_text :: "'w lua_env \<Rightarrow> lua \<Rightarrow> byte list" where
  "error_text E m =
     (case lua_tolstring (le_conv E) m of None \<Rightarrow> ascii ''(error object is not a string)'' | Some t \<Rightarrow> t)"

definition ref_report :: "'w lua_env \<Rightarrow> lua \<Rightarrow> 'w exe \<Rightarrow> 'w exe" where
  "ref_report E m s = (if m = VNil then s else l_message E (progname s) (error_text E m) s)"

definition ref_checked :: "'w lua_env \<Rightarrow> lua \<Rightarrow> lua list \<Rightarrow> 'w exe \<Rightarrow> (bool \<times> 'w exe) option" where
  "ref_checked E f as s = do {
     (r, s) \<leftarrow> ref_call E f as s;
     Some (case r of Inl (e, m) \<Rightarrow> (False, ref_report E m s) | Inr rs \<Rightarrow> (True, s))
   }"

text \<open>Loading a chunk and running it.\<close>

definition ref_run :: "'w lua_env \<Rightarrow> ('w \<Rightarrow> (lua_error \<times> lua + lua) \<times> 'w) \<Rightarrow> lua list \<Rightarrow> 'w exe \<Rightarrow> (bool \<times> 'w exe) option" where
  "ref_run E ld as s =
     (case ld (ex_world s) of
        (Inl (e, m), w) \<Rightarrow> Some (False, ref_report E m (s\<lparr>ex_world := w\<rparr>))
      | (Inr f, w) \<Rightarrow> ref_checked E f as (s\<lparr>ex_world := w\<rparr>))"

text \<open>The options, carried out until one fails.\<close>

fun ref_opts :: "'w lua_env \<Rightarrow> opt list \<Rightarrow> 'w exe \<Rightarrow> (bool, 'w) res" where
  "ref_opts E [] s = Some (Inr True, s)"
| "ref_opts E (Opt_e chunk # xs) s = do {
     (ok, s) \<leftarrow> ref_run E (le_loadbuffer E chunk (ascii ''=(command line)'')) [] s;
     if ok then ref_opts E xs s else Some (Inr False, s)
   }"
| "ref_opts E (Opt_l name # xs) s =
     (case le_getglobal E (ascii ''require'') (ex_world s) of
        (Inl e, w) \<Rightarrow> Some (Inl e, s\<lparr>ex_world := w\<rparr>)
      | (Inr f, w) \<Rightarrow> do {
          (ok, s) \<leftarrow> ref_checked E f [VStr name] (s\<lparr>ex_world := w\<rparr>);
          if ok then ref_opts E xs s else Some (Inr False, s)
        })"
| "ref_opts E (_ # xs) s = ref_opts E xs s"

text \<open>The table \<open>arg\<close>: every argument of the process, counted from the script.\<close>

definition arg_table :: "byte list list \<Rightarrow> nat \<Rightarrow> lua" where
  "arg_table argv n = VTable (map (\<lambda>i. (VNum (d_int (int i - int n)), VStr (argv ! i))) [0..<length argv])"

definition ref_script :: "'w lua_env \<Rightarrow> byte list list \<Rightarrow> bool \<Rightarrow> byte list \<Rightarrow> byte list list \<Rightarrow> 'w exe \<Rightarrow> (bool, 'w) res" where
  "ref_script E argv dashes script as s =
     (if \<not> le_checkstack E (length as + 3) (ex_world s)
      then Some (Inl (VStr (le_where E (ex_world s) @ ascii ''stack overflow (too many arguments to script)'')), s)
      else
        (case le_setglobal E (ascii ''arg'') (arg_table argv (length argv - length as - 1)) (ex_world s) of
           (Inl e, w) \<Rightarrow> Some (Inl e, s\<lparr>ex_world := w\<rparr>)
         | (Inr _, w) \<Rightarrow> do {
             (ok, s) \<leftarrow> ref_run E (le_loadfile E (if script = [45] \<and> \<not> dashes then None else Some script)) (map VStr as)
               (s\<lparr>ex_world := w\<rparr>);
             Some (Inr ok, s)
           }))"

definition ref_init :: "'w lua_env \<Rightarrow> 'w exe \<Rightarrow> (bool \<times> 'w exe) option" where
  "ref_init E s =
     (case le_getenv E (ascii ''LUA_INIT'') (ex_world s) of
        None \<Rightarrow> Some (True, s)
      | Some init \<Rightarrow>
          if init \<noteq> [] \<and> hd init = 64 then ref_run E (le_loadfile E (Some (tl init))) [] s
          else ref_run E (le_loadbuffer E init (ascii ''=LUA_INIT'')) [] s)"

text \<open>The state without the stack.\<close>

definition unstack :: "'w exe \<Rightarrow> 'w exe" where
  "unstack s = s\<lparr>ex_stack := []\<rparr>"

text \<open>Interactive mode is entered with \<open>-i\<close>, and when there is nothing else to do.\<close>

definition ref_interact :: "'w lua_env \<Rightarrow> opt list \<Rightarrow> rest \<Rightarrow> 'w exe \<Rightarrow> (unit, 'w) res" where
  "ref_interact E xs r s =
     map_option (apsnd unstack)
     (if Opt_i \<in> set xs then dotty E s
      else if r = Done \<and> Opt_v \<notin> set xs \<and> (\<forall>x \<in> set xs. case x of Opt_e _ \<Rightarrow> False | _ \<Rightarrow> True)
      then dotty E (print_version E s)
      else Some (Inr (), s))"

definition ref_line :: "'w lua_env \<Rightarrow> byte list list \<Rightarrow> 'w exe \<Rightarrow> (bool, 'w) res" where
  "ref_line E argv s =
     (let (xs, r) = read_opts (tl argv) in
      if r = Bad then do { s \<leftarrow> print_usage E s; Some (Inr False, s) }
      else
          and_then (ref_opts E xs (if Opt_i \<in> set xs \<or> Opt_v \<in> set xs then print_version E s else s)) (\<lambda>ok s.
            if \<not> ok then Some (Inr False, s)
            else
              and_then (case r of Script d (a # as) \<Rightarrow> ref_script E argv d a as s | _ \<Rightarrow> Some (Inr True, s)) (\<lambda>ok s.
                if \<not> ok then Some (Inr False, s)
                else and_then (ref_interact E xs r s) (\<lambda>_ s. Some (Inr True, s)))))"

definition ref_pmain :: "'w lua_env \<Rightarrow> byte list list \<Rightarrow> 'w exe \<Rightarrow> (bool, 'w) res" where
  "ref_pmain E argv s =
     (let s = s\<lparr>globalL := True, progname := if hd argv \<noteq> [] then Some (hd argv) else progname s\<rparr> in
      case le_openlibs E (le_gc E LUA_GCSTOP (ex_world s)) of
        (Inl e, w) \<Rightarrow> Some (Inl e, s\<lparr>ex_world := w\<rparr>)
      | (Inr _, w) \<Rightarrow> do {
          (ok, s) \<leftarrow> ref_init E (s\<lparr>ex_world := le_gc E LUA_GCRESTART w\<rparr>);
          if ok then ref_line E argv s else Some (Inr False, s)
        })"

definition ref_main :: "'w lua_env \<Rightarrow> byte list list \<Rightarrow> 'w exe \<Rightarrow> (int \<times> 'w exe) option" where
  "ref_main E argv s =
     (case le_open E (ex_world s) of
        (False, w) \<Rightarrow>
          Some (1, l_message E (Some (hd argv)) (ascii ''cannot create state: not enough memory'') (s\<lparr>ex_world := w\<rparr>))
      | (True, w) \<Rightarrow> do {
          (r, s) \<leftarrow> ref_pmain E argv (s\<lparr>ex_world := w\<rparr>);
          Some (case r of
                  Inl e \<Rightarrow> (1, on_world (le_close E) (ref_report E e s))
                | Inr ok \<Rightarrow> (if ok then 0 else 1, on_world (le_close E) s))
        })"

section \<open>Forgetting the stack\<close>

definition agrees :: "int \<times> 'w exe \<Rightarrow> bool \<times> 'w exe \<Rightarrow> bool" where
  "agrees x y \<longleftrightarrow> (fst x = 0) = fst y \<and> unstack (snd x) = snd y"

definition agreesE :: "(lua + int) \<times> 'w exe \<Rightarrow> (lua + bool) \<times> 'w exe \<Rightarrow> bool" where
  "agreesE x y \<longleftrightarrow> rel_sum (=) (\<lambda>st ok. (st = 0) = ok) (fst x) (fst y) \<and> unstack (snd x) = snd y"

lemma agrees_pair [simp]: "agrees (st, s) (ok, t) \<longleftrightarrow> (st = 0) = ok \<and> unstack s = t"
  by (simp add: agrees_def)

lemma agreesE_simps [simp]:
  "agreesE (Inl e, s) (r, t) \<longleftrightarrow> r = Inl e \<and> unstack s = t"
  "agreesE (Inr st, s) (Inr ok, t) \<longleftrightarrow> (st = 0) = ok \<and> unstack s = t"
  "agreesE (Inr st, s) (Inl e, t) \<longleftrightarrow> False"
  by (cases r; auto simp: agreesE_def)+

lemma sim_bind:
  "rel_option R m m' \<Longrightarrow> (\<And>x y. R x y \<Longrightarrow> rel_option S (k x) (k' y)) \<Longrightarrow>
   rel_option S (Option.bind m k) (Option.bind m' k')"
  by (cases m; cases m') auto

lemma sim_and_then:
  assumes "rel_option agreesE m m'"
    and "\<And>st ok s. (st = 0) = ok \<Longrightarrow> rel_option agreesE (k st s) (k' ok (unstack s))"
  shows "rel_option agreesE (and_then m k) (and_then m' k')"
  unfolding and_then_def using assms(1)
proof (rule sim_bind)
  fix x :: "(lua + int) \<times> 'a exe" and y :: "(lua + bool) \<times> 'a exe"
  assume "agreesE x y"
  then show "rel_option agreesE (case x of (Inl e, s) \<Rightarrow> Some (Inl e, s) | (Inr a, s) \<Rightarrow> k a s)
      (case y of (Inl e, s) \<Rightarrow> Some (Inl e, s) | (Inr a, s) \<Rightarrow> k' a s)"
    using assms(2) by (cases x; cases y; cases "fst x"; cases "fst y") auto
qed

lemma sim_continue:
  assumes "rel_option agreesE m m'" and "\<And>s. rel_option agreesE (k s) (k' (unstack s))"
  shows "rel_option agreesE (and_then m (\<lambda>st s. if st \<noteq> 0 then Some (Inr st, s) else k s))
    (and_then m' (\<lambda>ok s. if \<not> ok then Some (Inr False, s) else k' s))"
  by (rule sim_and_then [OF assms(1)]) (simp add: assms(2))

lemma unstack_simps [simp]:
  "ex_world (unstack s) = ex_world s" "progname (unstack s) = progname s" "ex_stack (unstack s) = []"
  "unstack (push v s) = unstack s" "unstack (s\<lparr>ex_stack := st\<rparr>) = unstack s"
  "unstack (s\<lparr>ex_world := w\<rparr>) = (unstack s)\<lparr>ex_world := w\<rparr>"
  "unstack (s\<lparr>progname := p\<rparr>) = (unstack s)\<lparr>progname := p\<rparr>"
  "unstack (s\<lparr>globalL := g\<rparr>) = (unstack s)\<lparr>globalL := g\<rparr>"
  "unstack (on_world f s) = on_world f (unstack s)" "unstack (unstack s) = unstack s"
  by (simp_all add: unstack_def push_def on_world_def)

lemma unstack_message [simp]: "unstack (l_message E p m s) = l_message E p m (unstack s)"
  by (cases p) (simp_all add: l_message_def Let_def)

lemma unstack_report [simp]: "unstack (ref_report E m s) = ref_report E m (unstack s)"
  by (simp add: ref_report_def)

lemma unstack_version [simp]: "unstack (print_version E s) = print_version E (unstack s)"
  by (simp add: print_version_def)

section \<open>Calls\<close>

lemma err_code_pos [simp]: "err_code e \<noteq> 0" "err_code e \<noteq> - 1"
  by (cases e; simp add: err_code_def)+

lemma depth_of_length [simp]: "depth (int (length st) + 1) (xs @ v # st) = Some (length xs)"
  by (simp add: depth_def)

text \<open>The stack discipline of \<open>docall\<close>: the function and its arguments are replaced by the results.\<close>

lemma docall_law:
  assumes "ex_stack s = rev as @ f # st"
  shows "docall E (length as) clear s =
    Option.bind (ref_call E f as s) (\<lambda>(r, s). Some (case r of
        Inl (e, m) \<Rightarrow> (err_code e, s\<lparr>ex_stack := m # st\<rparr>)
      | Inr rs \<Rightarrow> (0, s\<lparr>ex_stack := (if clear then [] else rev rs) @ st\<rparr>)))"
proof -
  define t where "t = VOther (le_traceback E)"
  define b where "b = int (length st) + 1"
  have base: "int (length (ex_stack s)) - int (length as) = b" using assms by (simp add: b_def)
  have ins: "lua_insert b (push t s) = Some (s\<lparr>ex_stack := rev as @ f # t # st\<rparr>)"
    using assms by (simp add: lua_insert_def push_def depth_def b_def nat_add_distrib)
  have handler: "handler_at E b (t # st) = Some (Some (traceback E))"
    by (simp add: handler_at_def depth_def t_def b_def)
  have rem: "lua_remove b (s'\<lparr>ex_stack := xs @ t # st\<rparr>) = Some (s'\<lparr>ex_stack := xs @ st\<rparr>)" for s' :: "'a exe" and xs
    by (simp add: lua_remove_def b_def)
  have rem1: "lua_remove b (s'\<lparr>ex_stack := m # t # st\<rparr>) = Some (s'\<lparr>ex_stack := m # st\<rparr>)" for s' :: "'a exe" and m
    using rem [where s' = s' and xs = "[m]"] by simp
  have swap: "s'\<lparr>ex_stack := x, ex_world := w\<rparr> = s'\<lparr>ex_world := w, ex_stack := x\<rparr>" for s' :: "'a exe" and x w
    by simp
  show ?thesis
    unfolding docall_def ref_call_def lua_pcall_def Let_def base ins [unfolded t_def]
    by (auto simp: nth_append handler [unfolded t_def] on_world_def swap rem [unfolded t_def] rem1 [unfolded t_def]
        rem [where xs = "[]", unfolded t_def, simplified]
        split: option.split sum.split prod.split intro!: bind_option_cong)
qed

lemma report_law:
  "ex_stack s = m # st \<Longrightarrow> status \<noteq> 0 \<Longrightarrow>
   report E status s = Some (status, (ref_report E m s)\<lparr>ex_stack := if m = VNil then m # st else st\<rparr>)"
  by (cases "progname s")
    (auto simp: report_def lua_top_def lua_pop_def ref_report_def error_text_def l_message_def on_world_def Let_def
      split: option.split)

lemma report_ok [simp]: "report E 0 s = Some (0, s)"
  by (simp add: report_def)

lemma ref_call_abs: "ref_call E f as (unstack s) = map_option (\<lambda>(r, s). (r, unstack s)) (ref_call E f as s)"
  unfolding ref_call_def by (cases "le_pcall E (Some (traceback E)) f as (le_signal E Laction (ex_world s))") (auto simp: Let_def)

lemma ref_report_stack: "(ref_report E m (s\<lparr>ex_stack := x\<rparr>))\<lparr>ex_stack := y\<rparr> = (ref_report E m s)\<lparr>ex_stack := y\<rparr>"
  by (cases "progname s") (simp_all add: ref_report_def l_message_def on_world_def)

text \<open>A call and its report, from any stack that ends in the function and its arguments.\<close>

lemma checked_call:
  assumes "ex_stack s = rev as @ f # st"
  shows "rel_option agrees (Option.bind (docall E (length as) clear s) (\<lambda>(status, s). report E status s))
    (ref_checked E f as (unstack s))"
proof (cases "ref_call E f as s")
  case (Some y)
  obtain r s' where "y = (r, s')" by fastforce
  then show ?thesis unfolding docall_law [OF assms] ref_checked_def ref_call_abs Some
    by (cases r) (auto simp: report_law ref_report_def)
qed (simp add: docall_law [OF assms] ref_checked_def ref_call_abs)

text \<open>The common part of \<open>dofile\<close> and \<open>dostring\<close>.\<close>

definition load_and_call :: "'w lua_env \<Rightarrow> ('w \<Rightarrow> (lua_error \<times> lua + lua) \<times> 'w) \<Rightarrow> 'w exe \<Rightarrow> (int \<times> 'w exe) option" where
  "load_and_call E ld s = do {
     let (status, s) = load_result ld s;
     (status, s) \<leftarrow> (if status \<noteq> 0 then Some (1, s)
                     else do { (status, s) \<leftarrow> docall E 0 True s; Some (if status \<noteq> 0 then 1 else 0, s) });
     report E status s
   }"

lemma report_status: "report E st s = Some (st', s') \<Longrightarrow> st' = st"
  by (auto simp: report_def Let_def split: if_splits bind_splits option.splits)

lemma report_one: "report E (if st \<noteq> 0 then 1 else 0) s = map_option (\<lambda>(st, s). (if st \<noteq> 0 then 1 else 0, s)) (report E st s)"
  by (auto simp: report_def Let_def split: bind_splits)

lemma load_and_call_law: "rel_option agrees (load_and_call E ld s) (ref_run E ld [] (unstack s))"
proof (cases "ld (ex_world s)")
  case (Pair r w)
  show ?thesis
  proof (cases r)
    case (Inl em)
    then show ?thesis using Pair
      by (cases em) (simp add: load_and_call_def load_result_def ref_run_def report_law push_def)
  next
    case (Inr f)
    define s' where "s' = push f (s\<lparr>ex_world := w\<rparr>)"
    have "rel_option agrees (Option.bind (docall E 0 True s') (\<lambda>(status, s). report E status s)) (ref_checked E f [] (unstack s'))"
      using checked_call [of s' "[]"] by (simp add: s'_def push_def)
    moreover have "load_and_call E ld s =
        map_option (\<lambda>(st, s). (if st \<noteq> 0 then 1 else 0, s)) (Option.bind (docall E 0 True s') (\<lambda>(status, s). report E status s))"
      using Pair Inr by (cases "docall E 0 True s'") (auto simp: load_and_call_def load_result_def s'_def report_one split: prod.split)
    ultimately show ?thesis using Pair Inr
      by (auto simp: ref_run_def s'_def option.rel_map agrees_def case_prod_beta intro: option.rel_mono_strong)
  qed
qed

lemma dofile_law: "rel_option agrees (dofile E name s) (ref_run E (le_loadfile E name) [] (unstack s))"
  using load_and_call_law by (simp only: dofile_def load_and_call_def)

lemma dostring_law: "rel_option agrees (dostring E str name s) (ref_run E (le_loadbuffer E str name) [] (unstack s))"
  using load_and_call_law by (simp only: dostring_def load_and_call_def)

lemma luainit_law: "rel_option agrees (handle_luainit E s) (ref_init E (unstack s))"
  by (auto simp: handle_luainit_def ref_init_def dofile_law dostring_law split: option.split)

lemma dolibrary_law:
  "rel_option agreesE (dolibrary E name s)
     (case le_getglobal E (ascii ''require'') (ex_world s) of
        (Inl e, w) \<Rightarrow> Some (Inl e, (unstack s)\<lparr>ex_world := w\<rparr>)
      | (Inr f, w) \<Rightarrow> Option.bind (ref_checked E f [VStr name] ((unstack s)\<lparr>ex_world := w\<rparr>)) (\<lambda>(ok, s). Some (Inr ok, s)))"
proof (cases "le_getglobal E (ascii ''require'') (ex_world s)")
  case (Pair r w)
  show ?thesis
  proof (cases r)
    case (Inr f)
    define s' where "s' = push (VStr name) (push f (s\<lparr>ex_world := w\<rparr>))"
    have "rel_option agrees (Option.bind (docall E 1 True s') (\<lambda>(status, s). report E status s)) (ref_checked E f [VStr name] (unstack s'))"
      using checked_call [of s' "[VStr name]"] by (simp add: s'_def push_def)
    then have "rel_option agreesE (Option.bind (Option.bind (docall E 1 True s') (\<lambda>(status, s). report E status s)) (\<lambda>(status, s). Some (Inr status, s)))
        (Option.bind (ref_checked E f [VStr name] (unstack s')) (\<lambda>(ok, s). Some (Inr ok, s)))"
      by (rule sim_bind) auto
    then show ?thesis using Pair Inr
      by (simp add: dolibrary_def push_or_raise_def and_then_def s'_def case_prod_unfold)
  qed (use Pair in \<open>simp add: dolibrary_def push_or_raise_def and_then_def\<close>)
qed

section \<open>The script\<close>

lemma arg_entries_law:
  assumes "\<forall>e \<in> set es. \<exists>j. fst e = VNum (d_int j) \<and> - (2 ^ 53) < j \<and> j < i" "- (2 ^ 53) < i" "i + int (length as) < 2 ^ 53"
  shows "arg_entries i as es = es @ map (\<lambda>k. (VNum (d_int (i + int k)), VStr (as ! k))) [0..<length as]"
  using assms
proof (induction as arbitrary: i es)
  case (Cons a as)
  have new: "VNum (d_int i) \<notin> fst ` set es"
  proof
    assume "VNum (d_int i) \<in> fst ` set es"
    then obtain j where "d_int i = d_int j" "- (2 ^ 53) < j" "j < i" using Cons.prems(1) by fastforce
    then show False using Cons.prems(2,3) by (simp add: d_int_exact)
  qed
  have "arg_entries i (a # as) es = arg_entries (i + 1) as (es @ [(VNum (d_int i), VStr a)])"
    by (simp add: set_entry_new [OF new])
  also have "\<dots> = (es @ [(VNum (d_int i), VStr a)]) @ map (\<lambda>k. (VNum (d_int (i + 1 + int k)), VStr (as ! k))) [0..<length as]"
    using Cons.prems by (intro Cons.IH) force+
  finally show ?case by (simp add: upt_conv_Cons map_Suc_upt [symmetric] ac_simps del: upt_Suc map_Suc_upt)
qed simp

lemma arg_table_law:
  assumes "n \<le> length argv" "int (length argv) \<le> INT_MAX"
  shows "VTable (arg_entries (- int n) argv []) = arg_table argv n"
  using assms arg_entries_law [of "[]" "- int n" argv] by (simp add: arg_table_def INT_MAX_def algebra_simps)

lemma fold_push: "fold push vs s = s\<lparr>ex_stack := rev vs @ ex_stack s\<rparr>"
  by (induction vs arbitrary: s) (simp_all add: push_def)

lemma getargs_law:
  assumes "argv = pre @ script # as" "int (length argv) \<le> INT_MAX"
  shows "getargs E argv (length pre) s =
    (if \<not> le_checkstack E (length as + 3) (ex_world s)
     then Some (Inl (VStr (le_where E (ex_world s) @ ascii ''stack overflow (too many arguments to script)'')), s)
     else Some (Inr (length as), s\<lparr>ex_stack := arg_table argv (length pre) # rev (map VStr as) @ ex_stack s\<rparr>))"
  using assms arg_table_law [of "length pre" argv] by (simp add: getargs_def fold_push push_def Let_def)

lemma dash_codes [simp]: "ascii ''-'' = [45]" "ascii ''--'' = [45, 45]"
  by (simp_all add: ascii_def)

text \<open>The loaded chunk is moved below its arguments.\<close>

lemma insert_below:
  "ex_stack s = v # xs @ st \<Longrightarrow> lua_insert (- (int (length xs) + 1)) s = Some (s\<lparr>ex_stack := xs @ v # st\<rparr>)"
  by (simp add: lua_insert_def depth_def nat_add_distrib)

lemma start_script_law:
  assumes "ex_stack s = rev as @ st" "n = length as"
  shows "rel_option agrees (start_script E fname n s) (ref_run E (le_loadfile E fname) as (unstack s))"
proof (cases "le_loadfile E fname (ex_world s)")
  case (Pair r w)
  have ins: "lua_insert (- (int n + 1)) (push v (s\<lparr>ex_world := w\<rparr>)) =
      Some (s\<lparr>ex_world := w, ex_stack := rev as @ v # st\<rparr>)" for v
    using insert_below [of "push v (s\<lparr>ex_world := w\<rparr>)" v "rev as" st] assms by (simp add: push_def)
  show ?thesis
  proof (cases r)
    case (Inl em)
    obtain e m where "em = (e, m)" by fastforce
    then show ?thesis using Pair Inl ins [of m] assms(2)
      by (simp add: start_script_def load_result_def ref_run_def lua_pop_def report_law)
  next
    case (Inr f)
    then show ?thesis using Pair ins [of f] assms(2) checked_call [of "s\<lparr>ex_world := w, ex_stack := rev as @ f # st\<rparr>" as f st E False]
      by (simp add: start_script_def load_result_def ref_run_def)
  qed
qed

lemma handle_script_law:
  assumes "argv = pre @ script # as" "pre \<noteq> []" "int (length argv) \<le> INT_MAX"
  shows "rel_option agreesE (handle_script E argv (length pre) s)
    (ref_script E argv (last pre = [45, 45]) script as (unstack s))"
proof (cases "le_checkstack E (length as + 3) (ex_world s)")
  case True
  define s1 where "s1 = s\<lparr>ex_stack := rev (map VStr as) @ ex_stack s\<rparr>"
  define fname where "fname = (if script = [45] \<and> last pre \<noteq> [45, 45] then None else Some script)"
  have n: "length argv - length as - 1 = length pre" using assms(1) by simp
  have at: "argv_at argv (length pre) = Some (Some script)" "argv_at argv (length pre - 1) = Some (Some (last pre))"
    using assms(1,2) by (auto simp: argv_at_def nth_append last_conv_nth)
  obtain r w where g: "le_setglobal E (ascii ''arg'') (arg_table argv (length pre)) (ex_world s) = (r, w)" by fastforce
  show ?thesis
  proof (cases r)
    case (Inr u)
    have "rel_option agrees (start_script E fname (length as) (s1\<lparr>ex_world := w\<rparr>))
        (ref_run E (le_loadfile E fname) (map VStr as) (unstack (s1\<lparr>ex_world := w\<rparr>)))"
      by (rule start_script_law) (simp_all add: s1_def)
    then have "rel_option agreesE (Option.bind (start_script E fname (length as) (s1\<lparr>ex_world := w\<rparr>)) (\<lambda>(st, s). Some (Inr st, s)))
        (Option.bind (ref_run E (le_loadfile E fname) (map VStr as) (unstack (s1\<lparr>ex_world := w\<rparr>))) (\<lambda>(ok, s). Some (Inr ok, s)))"
      by (rule sim_bind) auto
    then show ?thesis using True g Inr at n
      by (simp add: handle_script_def getargs_law [OF assms(1,3)] and_then_def lua_top_def lua_pop_def ref_script_def
          s1_def fname_def)
  qed (use True g n in \<open>simp add: handle_script_def getargs_law [OF assms(1,3)] and_then_def lua_top_def lua_pop_def ref_script_def\<close>)
qed (simp add: handle_script_def getargs_law [OF assms(1,3)] and_then_def ref_script_def)

section \<open>The options\<close>

definition add_flags :: "flags \<Rightarrow> opt list \<Rightarrow> flags" where
  "add_flags f xs =
     \<lparr>has_i = has_i f \<or> Opt_i \<in> set xs, has_v = has_v f \<or> Opt_i \<in> set xs \<or> Opt_v \<in> set xs,
      has_e = has_e f \<or> (\<exists>x \<in> set xs. case x of Opt_e _ \<Rightarrow> True | _ \<Rightarrow> False)\<rparr>"

text \<open>The index of the script, or of the null pointer behind the arguments.\<close>

definition stop_at :: "byte list list \<Rightarrow> rest \<Rightarrow> nat" where
  "stop_at argv r = (case r of Script d bs \<Rightarrow> length argv - length bs | _ \<Rightarrow> length argv)"

definition script_index :: "byte list list \<Rightarrow> rest \<Rightarrow> int" where
  "script_index argv r = (case r of Script d bs \<Rightarrow> int (length argv - length bs) | Done \<Rightarrow> 0 | Bad \<Rightarrow> -1)"

text \<open>The arguments are C strings.\<close>

definition c_strings :: "byte list list \<Rightarrow> bool" where
  "c_strings as \<longleftrightarrow> (\<forall>a \<in> set as. 0 \<notin> set a)"

lemma c_strings_simps [simp]:
  "c_strings []" "c_strings (a # as) \<longleftrightarrow> 0 \<notin> set a \<and> c_strings as" "c_strings (as @ bs) \<longleftrightarrow> c_strings as \<and> c_strings bs"
  by (auto simp: c_strings_def)

lemma chr_at_simps [simp]:
  "chr_at [] 0 = Some 0" "chr_at (c # s) 0 = Some c" "chr_at (c # s) (Suc n) = chr_at s n" "chr_at (c # d # s) 2 = chr_at s 0"
  by (auto simp: chr_at_def)

lemma argv_at_simps [simp]:
  "argv_at (pre @ a # as) (length pre) = Some (Some a)" "argv_at pre (length pre) = Some None"
  "argv_at (pre @ a # as) (Suc (length pre)) = Some (case as of [] \<Rightarrow> None | b # _ \<Rightarrow> Some b)"
  by (auto simp: argv_at_def nth_append split: list.split)

text \<open>The reading of the options as rules, for inductions over the command line.\<close>

inductive reads :: "byte list list \<Rightarrow> opt list \<Rightarrow> rest \<Rightarrow> bool" where
  nothing: "reads [] [] Done"
| script: "a = [] \<or> hd a \<noteq> 45 \<or> a = [45] \<Longrightarrow> reads (a # as) [] (Script False (a # as))"
| dashes: "reads ([45, 45] # a # as) [] (Script True (a # as))"
| dashes_last: "reads [[45, 45]] [] Done"
| opt_i: "reads as xs r \<Longrightarrow> reads ([45, 105] # as) (Opt_i # xs) r"
| opt_v: "reads as xs r \<Longrightarrow> reads ([45, 118] # as) (Opt_v # xs) r"
| opt_e: "reads as xs r \<Longrightarrow> reads ([45, 101] # v # as) (Opt_e v # xs) r"
| opt_e': "reads as xs r \<Longrightarrow> v \<noteq> [] \<Longrightarrow> reads ((45 # 101 # v) # as) (Opt_e v # xs) r"
| opt_l: "reads as xs r \<Longrightarrow> reads ([45, 108] # v # as) (Opt_l v # xs) r"
| opt_l': "reads as xs r \<Longrightarrow> v \<noteq> [] \<Longrightarrow> reads ((45 # 108 # v) # as) (Opt_l v # xs) r"
| no_value: "c = 101 \<or> c = 108 \<Longrightarrow> reads [[45, c]] [] Bad"
| unknown: "c \<noteq> 101 \<Longrightarrow> c \<noteq> 108 \<Longrightarrow> v \<noteq> [] \<or> c \<noteq> 45 \<and> c \<noteq> 105 \<and> c \<noteq> 118 \<Longrightarrow> reads ((45 # c # v) # as) [] Bad"

lemma read_opts_reads: "reads as (fst (read_opts as)) (snd (read_opts as))"
proof (induction "length as" arbitrary: as rule: less_induct)
  case less
  have IH: "reads bs (fst (read_opts bs)) (snd (read_opts bs))" if "length bs < length as" for bs using less that .
  consider "as = []" | a bs where "as = a # bs" "a = [] \<or> hd a \<noteq> 45 \<or> a = [45]" | c v bs where "as = (45 # c # v) # bs"
    by (metis list.collapse)
  then show ?case
  proof cases
    case (3 c v bs)
    have tail: "reads bs (fst (read_opts bs)) (snd (read_opts bs))" using IH 3 by simp
    consider (d) "v = []" "c = 45" | (i) "v = []" "c = 105" | (v) "v = []" "c = 118"
      | (sep) "v = []" "c = 101 \<or> c = 108" | (att) "v \<noteq> []" "c = 101 \<or> c = 108"
      | (bad) "c \<noteq> 101" "c \<noteq> 108" "v \<noteq> [] \<or> c \<noteq> 45 \<and> c \<noteq> 105 \<and> c \<noteq> 118" by blast
    then show ?thesis
    proof cases
      case d
      then show ?thesis using 3 by (cases bs) (simp_all add: reads.dashes reads.dashes_last)
    next
      case i
      then show ?thesis using 3 tail by (simp add: with_opt_def reads.opt_i)
    next
      case v
      then show ?thesis using 3 tail by (simp add: with_opt_def reads.opt_v)
    next
      case att
      then show ?thesis using 3 tail by (elim disjE) (simp_all add: with_opt_def reads.opt_e' reads.opt_l')
    next
      case bad
      then have "read_opts as = ([], Bad)" unfolding 3 by (cases "v = []") simp_all
      then show ?thesis using reads.unknown [OF bad, of bs] by (simp add: 3)
    next
      case sep
      then show ?thesis
      proof (cases bs)
        case (Cons w bs)
        then have "reads bs (fst (read_opts bs)) (snd (read_opts bs))" using IH 3 by simp
        then show ?thesis using sep(2) by (elim disjE) (simp_all add: 3 sep(1) Cons with_opt_def reads.opt_e reads.opt_l)
      qed (use sep(2) in \<open>elim disjE; simp add: 3 sep(1) reads.no_value\<close>)
    qed
  next
    case (2 a bs)
    then show ?thesis using reads.script [of a bs] by auto
  qed (simp add: reads.nothing)
qed

text \<open>The script and its arguments are the last arguments.\<close>

definition ends_in :: "byte list list \<Rightarrow> opt list \<Rightarrow> bool \<Rightarrow> byte list list \<Rightarrow> bool" where
  "ends_in as xs d bs \<longleftrightarrow>
     bs \<noteq> [] \<and> (\<exists>pre. as = pre @ bs \<and> (xs \<noteq> [] \<longrightarrow> pre \<noteq> []) \<and> (d \<longrightarrow> pre \<noteq> [] \<and> last pre = [45, 45]))"

lemma ends_in_Cons: "ends_in as ys d bs \<Longrightarrow> ends_in (a # as) xs d bs"
  unfolding ends_in_def by (metis append_Cons last_ConsR list.distinct(1))

lemma reads_suffix: "reads as xs (Script d bs) \<Longrightarrow> ends_in as xs d bs"
proof (induction as xs "Script d bs" rule: reads.induct)
  case (dashes a as)
  have "[45, 45] # a # as = [[45, 45]] @ (a # as)" by simp
  then show ?case using dashes unfolding ends_in_def by fastforce
qed (auto intro: ends_in_Cons simp: ends_in_def)

lemma reads_length:
  assumes "reads as xs r"
  shows "stop_at (pre @ as) r \<le> length pre + length as"
    and "xs \<noteq> [] \<Longrightarrow> length pre < stop_at (pre @ as) r"
proof -
  show "stop_at (pre @ as) r \<le> length pre + length as" by (cases r) (simp_all add: stop_at_def)
  assume "xs \<noteq> []"
  moreover have "as \<noteq> []" using assms \<open>xs \<noteq> []\<close> by (cases rule: reads.cases) auto
  ultimately show "length pre < stop_at (pre @ as) r"
    using assms reads_suffix [of as xs] by (cases r) (fastforce simp: stop_at_def ends_in_def)+
qed

lemma add_flags_simps [simp]:
  "add_flags f [] = f"
  "add_flags f (Opt_i # xs) = add_flags (f\<lparr>has_i := True, has_v := True\<rparr>) xs"
  "add_flags f (Opt_v # xs) = add_flags (f\<lparr>has_v := True\<rparr>) xs"
  "add_flags f (Opt_e c # xs) = add_flags (f\<lparr>has_e := True\<rparr>) xs"
  "add_flags f (Opt_l c # xs) = add_flags f xs"
  by (auto simp: add_flags_def)

lemmas option_tests = tail_free_def skip_value_def option_value_def

text \<open>One option of \<open>collectargs\<close>.\<close>

lemma collect_end:
  "collect_loop pre (length pre) f = Some (0, f)"
  "a = [] \<or> hd a \<noteq> 45 \<or> a = [45] \<Longrightarrow> collect_loop (pre @ a # as) (length pre) f = Some (int (length pre), f)"
  "collect_loop (pre @ [45, 45] # as) (length pre) f = Some (if as = [] then 0 else int (Suc (length pre)), f)"
  by (subst collect_loop.simps, cases a; cases as; auto simp: option_tests)+

lemma collect_flag:
  "collect_loop (pre @ [45, 105] # as) (length pre) f =
     collect_loop (pre @ [45, 105] # as) (Suc (length pre)) (f\<lparr>has_i := True, has_v := True\<rparr>)"
  "collect_loop (pre @ [45, 118] # as) (length pre) f =
     collect_loop (pre @ [45, 118] # as) (Suc (length pre)) (f\<lparr>has_v := True\<rparr>)"
  by (subst collect_loop.simps, simp add: option_tests)+

lemma collect_value:
  "c = 101 \<or> c = 108 \<Longrightarrow> collect_loop (pre @ [45, c] # v # as) (length pre) f =
     collect_loop (pre @ [45, c] # v # as) (Suc (Suc (length pre))) (if c = 101 then f\<lparr>has_e := True\<rparr> else f)"
  "c = 101 \<or> c = 108 \<Longrightarrow> v \<noteq> [] \<Longrightarrow> 0 \<notin> set v \<Longrightarrow> collect_loop (pre @ (45 # c # v) # as) (length pre) f =
     collect_loop (pre @ (45 # c # v) # as) (Suc (length pre)) (if c = 101 then f\<lparr>has_e := True\<rparr> else f)"
  by (subst collect_loop.simps, cases v; auto simp: option_tests)+

lemma collect_bad:
  "c = 101 \<or> c = 108 \<Longrightarrow> \<exists>f'. collect_loop (pre @ [[45, c]]) (length pre) f = Some (-1, f')"
  "c \<noteq> 101 \<Longrightarrow> c \<noteq> 108 \<Longrightarrow> v \<noteq> [] \<or> c \<noteq> 45 \<and> c \<noteq> 105 \<and> c \<noteq> 118 \<Longrightarrow> 0 \<notin> set (c # v) \<Longrightarrow>
   \<exists>f'. collect_loop (pre @ (45 # c # v) # as) (length pre) f = Some (-1, f')"
  by (subst collect_loop.simps, cases v; auto simp: option_tests)+

lemma collect_law:
  "reads as xs r \<Longrightarrow> c_strings as \<Longrightarrow>
   \<exists>f'. collect_loop (pre @ as) (length pre) f = Some (script_index (pre @ as) r, f') \<and> (r \<noteq> Bad \<longrightarrow> f' = add_flags f xs)"
proof (induction arbitrary: pre f rule: reads.induct)
  case (opt_i as xs r)
  then show ?case using opt_i.IH [of "pre @ [[45, 105]]" "f\<lparr>has_i := True, has_v := True\<rparr>"] by (simp add: collect_flag)
next
  case (opt_v as xs r)
  then show ?case using opt_v.IH [of "pre @ [[45, 118]]" "f\<lparr>has_v := True\<rparr>"] by (simp add: collect_flag)
next
  case (opt_e as xs r v)
  then show ?case using opt_e.IH [of "pre @ [[45, 101], v]" "f\<lparr>has_e := True\<rparr>"] by (simp add: collect_value)
next
  case (opt_e' as xs r v)
  then show ?case using opt_e'.IH [of "pre @ [45 # 101 # v]" "f\<lparr>has_e := True\<rparr>"] by (simp add: collect_value)
next
  case (opt_l as xs r v)
  then show ?case using opt_l.IH [of "pre @ [[45, 108], v]" f] by (simp add: collect_value)
next
  case (opt_l' as xs r v)
  then show ?case using opt_l'.IH [of "pre @ [45 # 108 # v]" f] by (simp add: collect_value)
next
  case (no_value c)
  then show ?case using collect_bad(1) [of c pre f] by (simp add: script_index_def)
next
  case (unknown c v as)
  then show ?case using collect_bad(2) [of c v pre as f] by (simp add: script_index_def)
qed (simp_all add: collect_end script_index_def)

text \<open>One option of \<open>runargs\<close>.\<close>

lemma run_end:
  "n = length pre \<Longrightarrow> run_loop E (pre @ as) n (length pre) s = Some (Inr 0, s)"
  "n = Suc (length pre) \<Longrightarrow> run_loop E (pre @ [45, 45] # as) n (length pre) s = Some (Inr 0, s)"
  by (subst run_loop.simps, simp; subst run_loop.simps, simp)+

lemma run_flag:
  "length pre < n \<Longrightarrow> c = 105 \<or> c = 118 \<Longrightarrow>
   run_loop E (pre @ [45, c] # as) n (length pre) s = run_loop E (pre @ [45, c] # as) n (Suc (length pre)) s"
  by (subst run_loop.simps) auto

lemma run_value_e:
  "length pre < n \<Longrightarrow> run_loop E (pre @ [45, 101] # v # as) n (length pre) s =
     Option.bind (dostring E v (ascii ''=(command line)'') s) (\<lambda>(status, s).
       if status \<noteq> 0 then Some (Inr 1, s) else run_loop E (pre @ [45, 101] # v # as) n (Suc (Suc (length pre))) s)"
  "length pre < n \<Longrightarrow> v \<noteq> [] \<Longrightarrow> 0 \<notin> set v \<Longrightarrow> run_loop E (pre @ (45 # 101 # v) # as) n (length pre) s =
     Option.bind (dostring E v (ascii ''=(command line)'') s) (\<lambda>(status, s).
       if status \<noteq> 0 then Some (Inr 1, s) else run_loop E (pre @ (45 # 101 # v) # as) n (Suc (length pre)) s)"
  by (subst run_loop.simps, cases v; auto simp: option_tests)+

lemma run_value_l:
  "length pre < n \<Longrightarrow> run_loop E (pre @ [45, 108] # v # as) n (length pre) s =
     and_then (dolibrary E v s) (\<lambda>status s.
       if status \<noteq> 0 then Some (Inr 1, s) else run_loop E (pre @ [45, 108] # v # as) n (Suc (Suc (length pre))) s)"
  "length pre < n \<Longrightarrow> v \<noteq> [] \<Longrightarrow> 0 \<notin> set v \<Longrightarrow> run_loop E (pre @ (45 # 108 # v) # as) n (length pre) s =
     and_then (dolibrary E v s) (\<lambda>status s.
       if status \<noteq> 0 then Some (Inr 1, s) else run_loop E (pre @ (45 # 108 # v) # as) n (Suc (length pre)) s)"
  by (subst run_loop.simps, cases v; auto simp: option_tests)+

text \<open>An option and the options after it.\<close>

lemma then_opts_e:
  assumes "\<And>s. rel_option agreesE (k s) (ref_opts E xs (unstack s))"
  shows "rel_option agreesE
    (Option.bind (dostring E v (ascii ''=(command line)'') s) (\<lambda>(status, s). if status \<noteq> 0 then Some (Inr 1, s) else k s))
    (ref_opts E (Opt_e v # xs) (unstack s))"
  unfolding ref_opts.simps by (rule sim_bind [OF dostring_law]) (auto simp: agrees_def assms)

lemma then_opts_l:
  assumes "\<And>s. rel_option agreesE (k s) (ref_opts E xs (unstack s))"
  shows "rel_option agreesE
    (and_then (dolibrary E v s) (\<lambda>status s. if status \<noteq> 0 then Some (Inr 1, s) else k s))
    (ref_opts E (Opt_l v # xs) (unstack s))"
proof -
  have "ref_opts E (Opt_l v # xs) (unstack s) =
    and_then (case le_getglobal E (ascii ''require'') (ex_world s) of
        (Inl e, w) \<Rightarrow> Some (Inl e, (unstack s)\<lparr>ex_world := w\<rparr>)
      | (Inr f, w) \<Rightarrow> Option.bind (ref_checked E f [VStr v] ((unstack s)\<lparr>ex_world := w\<rparr>)) (\<lambda>(ok, s). Some (Inr ok, s)))
      (\<lambda>ok s. if ok then ref_opts E xs s else Some (Inr False, s))"
    by (auto simp: and_then_def intro!: arg_cong2 [where f = Option.bind] ext split: prod.split sum.split)
  then show ?thesis by (simp only:) (rule sim_and_then [OF dolibrary_law], auto simp: assms)
qed

lemma run_law:
  "reads as xs r \<Longrightarrow> c_strings as \<Longrightarrow> r \<noteq> Bad \<Longrightarrow> n = stop_at (pre @ as) r \<Longrightarrow>
   rel_option agreesE (run_loop E (pre @ as) n (length pre) s) (ref_opts E xs (unstack s))"
proof (induction arbitrary: pre s rule: reads.induct)
  case (opt_i as xs r)
  then show ?case using opt_i.IH [of "pre @ [[45, 105]]" s] reads_length(2) [OF reads.opt_i [OF opt_i.hyps], of pre] by (simp add: run_flag)
next
  case (opt_v as xs r)
  then show ?case using opt_v.IH [of "pre @ [[45, 118]]" s] reads_length(2) [OF reads.opt_v [OF opt_v.hyps], of pre] by (simp add: run_flag)
next
  case (opt_e as xs r v)
  then show ?case using opt_e.IH [of "pre @ [[45, 101], v]"] reads_length(2) [OF reads.opt_e [OF opt_e.hyps, of v], of pre]
    by (auto simp: run_value_e(1) simp del: ref_opts.simps intro: then_opts_e)
next
  case (opt_e' as xs r v)
  then show ?case using opt_e'.IH [of "pre @ [45 # 101 # v]"] reads_length(2) [OF reads.opt_e' [OF opt_e'.hyps], of pre]
    by (auto simp: run_value_e(2) simp del: ref_opts.simps intro: then_opts_e)
next
  case (opt_l as xs r v)
  then show ?case using opt_l.IH [of "pre @ [[45, 108], v]"] reads_length(2) [OF reads.opt_l [OF opt_l.hyps, of v], of pre]
    by (auto simp: run_value_l(1) simp del: ref_opts.simps intro: then_opts_l)
next
  case (opt_l' as xs r v)
  then show ?case using opt_l'.IH [of "pre @ [45 # 108 # v]"] reads_length(2) [OF reads.opt_l' [OF opt_l'.hyps], of pre]
    by (auto simp: run_value_l(2) simp del: ref_opts.simps intro: then_opts_l)
qed (simp_all add: run_end run_end(1) [where as = "[]", simplified] stop_at_def)

section \<open>The whole interpreter\<close>

lemma loadline_unstack: "loadline E (unstack s) = loadline E s"
  by (simp add: loadline_def unstack_def)

lemma dotty_loop_unstack: "dotty_loop E (unstack s) = dotty_loop E s"
  by (subst (1 2) dotty_loop.simps) (simp add: loadline_unstack)

lemma dotty_unstack: "dotty E (unstack s) = dotty E s"
  using dotty_loop_unstack [of E "s\<lparr>progname := None\<rparr>"] by (simp add: dotty_def)

lemma interact_law:
  assumes "r \<noteq> Bad" "\<And>d bs. r = Script d bs \<Longrightarrow> length bs < length argv"
  shows "ref_interact E xs r (unstack s) =
    map_option (apsnd unstack) (interact E (script_index argv r) (add_flags \<lparr>has_i = False, has_v = False, has_e = False\<rparr> xs) s)"
proof -
  have "script_index argv r = 0 \<longleftrightarrow> r = Done" using assms by (cases r) (auto simp: script_index_def)
  moreover have "(\<forall>x \<in> set xs. case x of Opt_e _ \<Rightarrow> False | _ \<Rightarrow> True) \<longleftrightarrow>
      \<not> (\<exists>x \<in> set xs. case x of Opt_e _ \<Rightarrow> True | _ \<Rightarrow> False)" by (auto split: opt.splits)
  moreover have "dotty E (print_version E (unstack s)) = dotty E (print_version E s)"
    using dotty_unstack [of E "print_version E s"] by simp
  ultimately show ?thesis
    by (auto simp: ref_interact_def interact_def add_flags_def lua_stdin_is_tty_def dotty_unstack)
qed

text \<open>The case in which the argument before a script named \<open>-\<close> is \<open>--\<close>, but as the value of an option.\<close>

definition clear_dash :: "byte list list \<Rightarrow> bool" where
  "clear_dash argv =
     (case read_opts (tl argv) of
        (_, Script False (a # as)) \<Rightarrow> a = [45] \<longrightarrow> argv ! (length argv - length as - 2) \<noteq> [45, 45]
      | _ \<Rightarrow> True)"

lemma script_law:
  assumes "read_opts (tl argv) = (xs, Script d (a # as))" "argv \<noteq> []" "int (length argv) \<le> INT_MAX" "clear_dash argv"
  shows "rel_option agreesE (handle_script E argv (length argv - length (a # as)) s) (ref_script E argv d a as (unstack s))"
proof -
  obtain pre where pre: "tl argv = pre @ a # as" "d \<longrightarrow> pre \<noteq> [] \<and> last pre = [45, 45]"
    using reads_suffix [of "tl argv" xs d "a # as"] read_opts_reads [of "tl argv"] assms(1) by (auto simp: ends_in_def)
  have argv: "argv = (hd argv # pre) @ a # as" using pre(1) assms(2) by (cases argv) auto
  have at: "argv ! (length argv - length as - 2) = last (hd argv # pre)"
    by (subst argv, subst (2) argv) (simp add: nth_append last_conv_nth)
  have n: "length argv - length (a # as) = length (hd argv # pre)" by (subst argv) simp
  have "ref_script E argv (last (hd argv # pre) = [45, 45]) a as (unstack s) = ref_script E argv d a as (unstack s)"
    using assms(1,4) pre(2) at by (cases d) (auto simp: ref_script_def clear_dash_def)
  then show ?thesis unfolding n using handle_script_law [OF argv _ assms(3), of E s] by simp
qed

lemma usage_law:
  "rel_option agreesE (Option.bind (print_usage E s) (\<lambda>s. Some (Inr 1, s)))
     (Option.bind (print_usage E (unstack s)) (\<lambda>s. Some (Inr False, s)))"
  by (cases "progname s") (simp_all add: print_usage_def)

lemma script_short:
  assumes "reads (tl argv) xs (Script d bs)" "argv \<noteq> []"
  shows "bs \<noteq> []" "length bs < length argv"
proof -
  obtain pre where "bs \<noteq> []" "tl argv = pre @ bs" using reads_suffix [OF assms(1)] by (auto simp: ends_in_def)
  then have "length bs \<le> length (tl argv)" by simp
  then show "length bs < length argv" using assms(2) by (cases argv) auto
  show "bs \<noteq> []" by fact
qed

lemma script_part_law:
  assumes "read_opts (tl argv) = (xs, r)" "r \<noteq> Bad" "argv \<noteq> []" "int (length argv) \<le> INT_MAX" "clear_dash argv"
  shows "rel_option agreesE
    (if script_index argv r \<noteq> 0 then handle_script E argv (nat (script_index argv r)) s else Some (Inr 0, s))
    (case r of Script d (a # as) \<Rightarrow> ref_script E argv d a as (unstack s) | _ \<Rightarrow> Some (Inr True, unstack s))"
proof (cases r)
  case (Script d bs)
  have rd: "reads (tl argv) xs (Script d bs)" using read_opts_reads [of "tl argv"] assms(1) Script by simp
  then obtain a as where bs: "bs = a # as" using script_short(1) [OF _ assms(3)] by (cases bs) auto
  have "script_index argv r \<noteq> 0" "nat (script_index argv r) = length argv - length (a # as)"
    using script_short(2) [OF rd assms(3)] Script bs by (simp_all add: script_index_def)
  then show ?thesis using script_law [of argv xs d a as E s] assms Script bs by simp
qed (use assms(2) in \<open>simp_all add: script_index_def\<close>)

lemma interact_part_law:
  assumes "ref_interact E xs r (unstack s) = map_option (apsnd unstack) (interact E script f s)"
  shows "rel_option agreesE (and_then (interact E script f s) (\<lambda>_ s. Some (Inr 0, s)))
    (and_then (ref_interact E xs r (unstack s)) (\<lambda>_ s. Some (Inr True, s)))"
  unfolding assms by (cases "interact E script f s") (auto simp: and_then_def split: sum.split)

lemma line_law:
  assumes "argv \<noteq> []" "c_strings argv" "int (length argv) \<le> INT_MAX" "clear_dash argv"
  shows "rel_option agreesE (Option.bind (collectargs argv) (\<lambda>sf. line_part E argv sf s)) (ref_line E argv (unstack s))"
proof -
  obtain xs r where ro: "read_opts (tl argv) = (xs, r)" by fastforce
  then have rd: "reads (tl argv) xs r" using read_opts_reads [of "tl argv"] by simp
  define f0 where "f0 = \<lparr>has_i = False, has_v = False, has_e = False\<rparr>"
  have argv: "[hd argv] @ tl argv = argv" using assms(1) by simp
  have strs: "c_strings (tl argv)" using assms(2) argv by (metis c_strings_simps(3))
  then obtain f where f: "collectargs argv = Some (script_index argv r, f)" "r \<noteq> Bad \<longrightarrow> f = add_flags f0 xs"
    using collect_law [OF rd, of "[hd argv]" f0] argv by (auto simp: collectargs_def f0_def)
  show ?thesis
  proof (cases "r = Bad")
    case True
    then show ?thesis using f(1) ro usage_law by (simp add: line_part_def ref_line_def script_index_def)
  next
    case False
    define s1 where "s1 = (if has_v f then print_version E s else s)"
    have v: "has_v f \<longleftrightarrow> Opt_i \<in> set xs \<or> Opt_v \<in> set xs" using f(2) False by (simp add: add_flags_def f0_def)
    have pos: "\<not> script_index argv r < 0" using False by (cases r) (simp_all add: script_index_def)
    have n: "(if 0 < script_index argv r then nat (script_index argv r) else length argv) = stop_at argv r"
      using script_short(2) [OF _ assms(1), of xs] rd False by (cases r) (auto simp: script_index_def stop_at_def)
    have run: "rel_option agreesE (runargs E argv (stop_at argv r) s1) (ref_opts E xs (unstack s1))"
      using run_law [OF rd strs False, of "stop_at argv r" "[hd argv]" E s1] argv by (simp add: runargs_def)
    have inter: "ref_interact E xs r (unstack t) = map_option (apsnd unstack) (interact E (script_index argv r) f t)" for t
      using interact_law [OF False, of argv E xs t] f(2) False script_short(2) [OF _ assms(1), of xs] rd by (auto simp: f0_def)
    have ref: "ref_line E argv (unstack s) = and_then (ref_opts E xs (unstack s1)) (\<lambda>ok s.
        if \<not> ok then Some (Inr False, s)
        else
          and_then (case r of Script d (a # as) \<Rightarrow> ref_script E argv d a as s | _ \<Rightarrow> Some (Inr True, s)) (\<lambda>ok s.
            if \<not> ok then Some (Inr False, s) else and_then (ref_interact E xs r s) (\<lambda>_ s. Some (Inr True, s))))"
      using ro False v by (simp add: ref_line_def s1_def)
    show ?thesis unfolding f(1) ref
      by (simp only: bind.bind_lunit line_part_def case_prod_conv pos if_False n s1_def [symmetric] Let_def)
        (intro sim_continue run script_part_law [OF ro False assms(1,3,4)] interact_part_law inter)
  qed
qed

lemma pmain_law:
  assumes "argv \<noteq> []" "c_strings argv" "int (length argv) \<le> INT_MAX" "clear_dash argv"
  shows "rel_option agreesE (pmain E argv s) (ref_pmain E argv (unstack s))"
proof -
  define s1 where "s1 = s\<lparr>globalL := True, progname := if hd argv \<noteq> [] then Some (hd argv) else progname s\<rparr>"
  obtain r w where o: "le_openlibs E (le_gc E LUA_GCSTOP (ex_world s)) = (r, w)" by fastforce
  define s2 where "s2 = s1\<lparr>ex_world := w\<rparr>"
  have start: "pmain E argv s =
    (case r of
       Inl e \<Rightarrow> Some (Inl e, s2)
     | Inr _ \<Rightarrow> Option.bind (handle_luainit E (on_world (le_gc E LUA_GCRESTART) s2)) (\<lambda>(status, s).
         if status \<noteq> 0 then Some (Inr status, s) else Option.bind (collectargs argv) (\<lambda>sf. line_part E argv sf s)))"
    using o assms(1) by (cases r) (simp_all add: pmain_def on_world_def s1_def s2_def)
  have ref: "ref_pmain E argv (unstack s) =
    (case r of
       Inl e \<Rightarrow> Some (Inl e, unstack s2)
     | Inr _ \<Rightarrow> Option.bind (ref_init E (unstack (on_world (le_gc E LUA_GCRESTART) s2))) (\<lambda>(ok, s).
         if \<not> ok then Some (Inr False, s) else ref_line E argv s))"
    using o by (cases r) (auto simp: ref_pmain_def s1_def s2_def on_world_def Let_def intro!: arg_cong2 [where f = Option.bind] ext)
  show ?thesis
  proof (cases r)
    case (Inr u)
    then show ?thesis unfolding start ref
      by (simp only: sum.case) (rule sim_bind [OF luainit_law], auto simp: agrees_def line_law [OF assms])
  qed (simp add: start ref)
qed

text \<open>A small Lua: the world is the input to come, a chunk that ends in \<open>+\<close> is incomplete, every other one runs.\<close>

definition sample_env :: "byte list list lua_env" where
  "sample_env =
     \<lparr>le_conv = \<lparr>cv_userdata = \<lambda>_. None, cv_light = \<lambda>n. n, cv_numstr = \<lambda>_. [], cv_strnum = \<lambda>_. None\<rparr>,
      le_loadbuffer = \<lambda>s n w. (if s \<noteq> [] \<and> last s = 43 then Inl (LUA_ERRSYNTAX, VStr eof_mark) else Inr (VOther 1), w),
      le_loadfile = \<lambda>f w. (Inr (VOther 1), w),
      le_pcall = \<lambda>h f as w. Some (Inr [], w), le_call = \<lambda>f as w. (Inr VNil, w),
      le_getglobal = \<lambda>n w. (Inr VNil, w), le_setglobal = \<lambda>n v w. (Inr (), w), le_getfield = \<lambda>t n w. (Inr VNil, w),
      le_isfunction = \<lambda>_. False, le_traceback = 2, le_smain = 3, le_checkstack = \<lambda>n w. True, le_where = \<lambda>w. [],
      le_openlibs = \<lambda>w. (Inr (), w), le_gc = \<lambda>g w. w, le_sethook = \<lambda>b w. w, le_signal = \<lambda>a w. w,
      le_open = \<lambda>w. (True, w), le_close = \<lambda>w. w,
      le_fgets = \<lambda>n w. (case w of [] \<Rightarrow> (None, []) | l # w \<Rightarrow> (Some l, w)),
      le_stdout = \<lambda>t w. w, le_stderr = \<lambda>t w. w, le_getenv = \<lambda>n w. None\<rparr>"

text \<open>C18: The stand-alone interpreter carries out its command line: \<open>LUA_INIT\<close>, then the options \<open>-e\<close> and
  \<open>-l\<close> in their order until one fails, then the script with its arguments and the table \<open>arg\<close>, then the
  interactive mode, with the messages, the handling of signals and the exit status of a description that
  reads the options off the list of arguments, without a stack and without indices; the inside of the interactive
  mode is the same \<open>dotty\<close> in both. Undefined behaviour
  and calls that do not return agree too. The argument before a script \<open>-\<close> must not be \<open>--\<close> as the value of an option.\<close>

theorem main_carries_out:
  assumes "argv \<noteq> []" "c_strings argv" "int (length argv) \<le> INT_MAX" "clear_dash argv"
  shows "map_option (apsnd unstack) (main E argv (exe_init w)) = ref_main E argv (exe_init w)"
proof (cases "le_open E w")
  case (Pair ok w')
  define s where "s = (exe_init w)\<lparr>ex_world := w'\<rparr>"
  have s: "unstack (s\<lparr>ex_stack := st\<rparr>) = s" for st by (simp add: s_def exe_init_def unstack_def)
  have sim: "rel_option agreesE (pmain E argv (s\<lparr>ex_stack := [VOther (le_smain E)]\<rparr>)) (ref_pmain E argv s)"
    using pmain_law [OF assms, of E "s\<lparr>ex_stack := [VOther (le_smain E)]\<rparr>"] by (simp only: s)
  show ?thesis
  proof (cases ok)
    case True
    have "ref_main E argv (exe_init w) = Option.bind (ref_pmain E argv s) (\<lambda>(r, s). Some (case r of
        Inl e \<Rightarrow> (1, on_world (le_close E) (ref_report E e s)) | Inr ok \<Rightarrow> (if ok then 0 else 1, on_world (le_close E) s)))"
      using Pair True by (simp add: ref_main_def s_def exe_init_def)
    moreover have "main E argv (exe_init w) = Option.bind (pmain E argv (s\<lparr>ex_stack := [VOther (le_smain E)]\<rparr>)) (\<lambda>(r, s).
        case r of
          Inl e \<Rightarrow> Some (1, on_world (le_close E) ((ref_report E e s)\<lparr>ex_stack := if e = VNil then [e] else []\<rparr>))
        | Inr n \<Rightarrow> Some (if n = 0 then 0 else 1, on_world (le_close E) (s\<lparr>ex_stack := []\<rparr>)))"
      using Pair True by (auto simp: main_def s_def exe_init_def EXIT_FAILURE_def EXIT_SUCCESS_def report_law ref_report_stack
          intro!: arg_cong2 [where f = Option.bind] ext split: sum.split)
    ultimately show ?thesis using sim
      by (cases "pmain E argv (s\<lparr>ex_stack := [VOther (le_smain E)]\<rparr>)"; cases "ref_pmain E argv s")
        (auto simp: agreesE_def split: sum.splits)
  next
    case False
    then show ?thesis using Pair assms(1)
      by (cases argv) (auto simp: main_def ref_main_def argv_at_def EXIT_FAILURE_def exe_init_def unstack_def l_message_def on_world_def)
  qed
qed

theorem main_carries_out_witness:
  "let argv = [[108], [45, 101], [120], [45, 45], [45], [121]] in
     map_option (apsnd unstack) (main sample_env argv (exe_init [])) = ref_main sample_env argv (exe_init [])
     \<and> clear_dash argv \<and> read_opts (tl argv) = ([Opt_e [120]], Script True [[45], [121]])"
  using main_carries_out [of "[[108], [45, 101], [120], [45, 45], [45], [121]]" sample_env "[]"]
  by (simp add: INT_MAX_def clear_dash_def with_opt_def)

text \<open>
  After the option \<open>-e --\<close> the script \<open>-\<close> is not the standard input but a file of this name, as if \<open>--\<close> had
  ended the options.
\<close>

lemma dash_as_value:
  "read_opts [[45, 101], [45, 45], [45]] = ([Opt_e [45, 45]], Script False [[45]])"
  "rel_option agreesE (handle_script E [[108], [45, 101], [45, 45], [45]] 3 s)
     (ref_script E [[108], [45, 101], [45, 45], [45]] True [45] [] (unstack s))"
  using handle_script_law [of "[[108], [45, 101], [45, 45], [45]]" "[[108], [45, 101], [45, 45]]" "[45]" "[]" E s]
  by (simp_all add: with_opt_def INT_MAX_def numeral_3_eq_3)

text \<open>Without any argument, not even a program name, the options are read past the end of \<open>argv\<close>.\<close>

lemma collectargs_empty: "collectargs [] = None"
  by (subst collectargs_def, subst collect_loop.simps) (simp add: argv_at_def)

end
