(* ===== verification/Luaexe_Loop.thy ===== *)
theory Luaexe_Loop
  imports Luaexe_Spec
begin

text \<open>
  The interactive mode of the stand-alone interpreter returns when its input ends. \<open>input_bounded E m\<close> is
  what that needs of the Lua library and the standard input: \<open>m\<close> bounds the lines that can still be read,
  reading a line lowers it, nothing raises it, and the calls of Lua functions return.
\<close>

definition input_bounded :: "'w lua_env \<Rightarrow> ('w \<Rightarrow> nat) \<Rightarrow> bool" where
  "input_bounded E m \<longleftrightarrow>
     (\<forall>n w. m (snd (le_fgets E n w)) \<le> m w) \<and>
     (\<forall>n w. fst (le_fgets E n w) \<noteq> None \<longrightarrow> m (snd (le_fgets E n w)) < m w) \<and>
     (\<forall>h f as w. \<exists>r w'. le_pcall E h f as w = Some (r, w') \<and> m w' \<le> m w) \<and>
     (\<forall>s name w. m (snd (le_loadbuffer E s name w)) \<le> m w) \<and>
     (\<forall>s name w msg w'. le_loadbuffer E s name w = (Inl (LUA_ERRSYNTAX, msg), w') \<longrightarrow> lua_isstring msg) \<and>
     (\<forall>n w. m (snd (le_getglobal E n w)) \<le> m w) \<and>
     (\<forall>t w. m (le_stdout E t w) \<le> m w) \<and> (\<forall>t w. m (le_stderr E t w) \<le> m w) \<and>
     (\<forall>a w. m (le_signal E a w) \<le> m w) \<and> (\<forall>g w. m (le_gc E g w) \<le> m w)"

text \<open>\<open>ends_by m n Q r\<close>: the computation returns, with at most \<open>n\<close> lines left, and its result satisfies \<open>Q\<close>.\<close>

definition ends_by :: "('w \<Rightarrow> nat) \<Rightarrow> nat \<Rightarrow> ('a \<Rightarrow> 'w exe \<Rightarrow> bool) \<Rightarrow> ('a \<times> 'w exe) option \<Rightarrow> bool" where
  "ends_by m n Q r \<longleftrightarrow> (\<exists>x s. r = Some (x, s) \<and> m (ex_world s) \<le> n \<and> Q x s)"

text \<open>For a computation that may raise an error, \<open>Q\<close> is asked of the results only.\<close>

abbreviation on_result :: "('a \<Rightarrow> 'w exe \<Rightarrow> bool) \<Rightarrow> lua + 'a \<Rightarrow> 'w exe \<Rightarrow> bool" where
  "on_result Q x s \<equiv> (case x of Inl _ \<Rightarrow> True | Inr a \<Rightarrow> Q a s)"

lemma ends_by_bind:
  "ends_by m n Q r \<Longrightarrow> (\<And>x s. m (ex_world s) \<le> n \<Longrightarrow> Q x s \<Longrightarrow> ends_by m n' P (k (x, s))) \<Longrightarrow>
   ends_by m n' P (Option.bind r k)"
  by (auto simp: ends_by_def)

lemma ends_by_and_then:
  assumes "ends_by m n (on_result Q) r" "n \<le> n'"
    and "\<And>x s. m (ex_world s) \<le> n \<Longrightarrow> Q x s \<Longrightarrow> ends_by m n' (on_result P) (k x s)"
  shows "ends_by m n' (on_result P) (and_then r k)"
proof -
  obtain x s where r: "r = Some (x, s)" "m (ex_world s) \<le> n" "on_result Q x s" using assms(1) by (auto simp: ends_by_def)
  then show ?thesis using assms(2,3) by (cases x) (auto simp: and_then_def ends_by_def)
qed

lemma ends_by_Some [simp]: "ends_by m n Q (Some (x, s)) \<longleftrightarrow> m (ex_world s) \<le> n \<and> Q x s"
  by (simp add: ends_by_def)

lemma ends_by_weaken: "ends_by m n Q r \<Longrightarrow> n \<le> n' \<Longrightarrow> (\<And>x s. Q x s \<Longrightarrow> P x s) \<Longrightarrow> ends_by m n' P r"
  by (auto simp: ends_by_def)

section \<open>The functions\<close>

lemma bounded:
  assumes "input_bounded E m"
  shows "le_fgets E n w = (l, w') \<Longrightarrow> m w' \<le> m w" "le_fgets E n w = (Some t, w') \<Longrightarrow> m w' < m w"
    "\<exists>r w'. le_pcall E h f as w = Some (r, w') \<and> m w' \<le> m w"
    "le_loadbuffer E t name w = (r, w') \<Longrightarrow> m w' \<le> m w"
    "le_loadbuffer E t name w = (Inl (LUA_ERRSYNTAX, v), w') \<Longrightarrow> lua_isstring v"
    "le_getglobal E name w = (r', w') \<Longrightarrow> m w' \<le> m w"
    "m (le_stdout E t w) \<le> m w" "m (le_stderr E t w) \<le> m w" "m (le_signal E a w) \<le> m w" "m (le_gc E g w) \<le> m w"
  using assms unfolding input_bounded_def by (metis fst_conv snd_conv option.distinct(1))+

lemma message_ends: "input_bounded E m \<Longrightarrow> m (ex_world (l_message E p t s)) \<le> m (ex_world s)"
  by (cases p) (auto simp: l_message_def on_world_def bounded(8) intro: order_trans [OF bounded(8) bounded(8)])

lemma message_stack [simp]:
  "ex_stack (l_message E p t s) = ex_stack s" "progname (l_message E p t s) = progname s"
  by (cases p; simp add: l_message_def on_world_def)+

lemma report_ends:
  assumes "input_bounded E m" "st \<noteq> 0 \<Longrightarrow> ex_stack s \<noteq> []"
  shows "ends_by m (m (ex_world s)) (\<lambda>x s'. x = st \<and> (st = 0 \<longrightarrow> s' = s)) (report E st s)"
proof (cases "st = 0")
  case False
  then obtain v st' where "ex_stack s = v # st'" using assms(2) by (cases "ex_stack s") auto
  then show ?thesis using False message_ends [OF assms(1)]
    by (auto simp: report_def lua_top_def lua_pop_def Let_def)
qed simp

lemma getglobal_ends:
  "input_bounded E m \<Longrightarrow>
   ends_by m (m (ex_world s)) (on_result (\<lambda>_ s'. \<exists>v. ex_stack s' = v # ex_stack s)) (push_or_raise (le_getglobal E n) s)"
  by (auto simp: push_or_raise_def push_def bounded(6) split: prod.split sum.split)

lemma pushline_ends:
  assumes "input_bounded E m"
  shows "ends_by m (m (ex_world s))
    (on_result (\<lambda>b s'. (b \<longrightarrow> m (ex_world s') < m (ex_world s)) \<and>
       (if b then \<exists>l. ex_stack s' = VStr l # ex_stack s else ex_stack s' = ex_stack s))) (pushline E first s)"
proof -
  have prompt: "ends_by m (m (ex_world s)) (on_result (\<lambda>_ s'. ex_stack s' = ex_stack s)) (get_prompt E first s)"
    unfolding get_prompt_def
    by (rule ends_by_and_then [OF getglobal_ends [OF assms]]) (auto simp: lua_top_def lua_pop_def)
  show ?thesis unfolding pushline_def
  proof (rule ends_by_and_then [OF prompt order_refl])
    fix p and s1 :: "'a exe" assume "m (ex_world s1) \<le> m (ex_world s)" "ex_stack s1 = ex_stack s"
    then show "ends_by m (m (ex_world s)) (on_result (\<lambda>b s'. (b \<longrightarrow> m (ex_world s') < m (ex_world s)) \<and>
       (if b then \<exists>l. ex_stack s' = VStr l # ex_stack s else ex_stack s' = ex_stack s)))
       (let s = on_world (le_stdout E p) s1; (l, w) = le_fgets E LUA_MAXINPUT (ex_world s); s = s\<lparr>ex_world := w\<rparr> in
        case l of
          None \<Rightarrow> Some (Inr False, s)
        | Some b \<Rightarrow>
            (let b = chop_newline (c_str b) in
             Some (Inr True, push (VStr (if first \<and> b \<noteq> [] \<and> hd b = 61 then ascii ''return '' @ tl b else b)) s)))"
      using bounded(7) [OF assms, of p "ex_world s1"] bounded(1,2) [OF assms]
      by (fastforce simp: on_world_def push_def Let_def split: prod.split option.split)
  qed
qed

lemma load_ends:
  assumes "input_bounded E m" "load_result (le_loadbuffer E t name) s = (st, s1)"
  obtains v where "ex_stack s1 = v # ex_stack s" "m (ex_world s1) \<le> m (ex_world s)" "st \<noteq> -1"
    "st = err_code LUA_ERRSYNTAX \<longrightarrow> lua_isstring v"
proof -
  obtain r w where r: "le_loadbuffer E t name (ex_world s) = (r, w)" by fastforce
  have code: "err_code e = err_code LUA_ERRSYNTAX \<longleftrightarrow> e = LUA_ERRSYNTAX" "err_code LUA_ERRSYNTAX \<noteq> 0" for e
    by (cases e; simp add: err_code_def)+
  show thesis using that assms(2) r bounded(4,5) [OF assms(1)] r
    by (cases r) (fastforce simp: load_result_def push_def code code(2) [symmetric] split: prod.splits)+
qed

lemma incomplete_ends:
  assumes "ex_stack s = v # st" "status = err_code LUA_ERRSYNTAX \<longrightarrow> lua_isstring v"
  shows "incomplete E status s = Some (False, s) \<or> incomplete E status s = Some (True, s\<lparr>ex_stack := st\<rparr>)"
proof -
  have "status = err_code LUA_ERRSYNTAX \<longrightarrow> (\<exists>msg. lua_tolstring (le_conv E) v = Some msg)"
    using assms(2) by (cases v) (auto simp: lua_isstring_def lua_tolstring_def)
  then show ?thesis using assms(1) by (auto simp: incomplete_def lua_top_def lua_pop_def)
qed

text \<open>The two lines on the stack are joined.\<close>

lemma join_lines:
  assumes "ex_stack s = [VStr b, VStr a]"
  shows "Option.bind (lua_insert (-2) (push (VStr [10]) s)) (\<lambda>s. Option.bind (lua_concat3 E s) k) = k (s\<lparr>ex_stack := [VStr (a @ [10] @ b)]\<rparr>)"
  using assms by (simp add: lua_insert_def push_def depth_def lua_concat3_def lua_tolstring_def)

abbreviation loaded :: "int \<Rightarrow> 'w exe \<Rightarrow> bool" where
  "loaded st s \<equiv> st = -1 \<or> (\<exists>v l. ex_stack s = [v, VStr l])"

lemma load_loop_ends:
  assumes "input_bounded E m" "ex_stack s = [VStr l]"
  shows "ends_by m (m (ex_world s)) (on_result loaded) (load_loop E s)"
  using assms(2)
proof (induction "m (ex_world s)" arbitrary: s l rule: less_induct)
  case less
  obtain st s1 where ld: "load_result (le_loadbuffer E l (ascii ''=stdin'')) s = (st, s1)" by fastforce
  then obtain v where v: "ex_stack s1 = [v, VStr l]" "m (ex_world s1) \<le> m (ex_world s)" "st = err_code LUA_ERRSYNTAX \<longrightarrow> lua_isstring v"
    by (rule load_ends [OF assms(1)]) (simp add: less.prems)
  have first: "lua_index 1 s = Some (VStr l)" "lua_tolstring (le_conv E) (VStr l) = Some l"
    using less.prems by (simp_all add: lua_index_def depth_def lua_tolstring_def)
  consider "incomplete E st s1 = Some (False, s1)" | "incomplete E st s1 = Some (True, s1\<lparr>ex_stack := [VStr l]\<rparr>)"
    using incomplete_ends [of s1 v "[VStr l]" st E] v by auto
  then show ?case
  proof cases
    case 1
    then show ?thesis using v by (subst load_loop.simps) (simp add: first ld)
  next
    case 2
    have "ends_by m (m (ex_world s)) (on_result loaded)
        (and_then (pushline E False (s1\<lparr>ex_stack := [VStr l]\<rparr>)) (\<lambda>more s.
          if \<not> more then Some (Inr (-1), s)
          else Option.bind (lua_insert (-2) (push (VStr [10]) s)) (\<lambda>s. Option.bind (lua_concat3 E s) (\<lambda>s. load_loop E s))))"
    proof (rule ends_by_and_then [OF pushline_ends [OF assms(1)]])
      show "m (ex_world (s1\<lparr>ex_stack := [VStr l]\<rparr>)) \<le> m (ex_world s)" using v by simp
      fix b and s2 :: "'a exe"
      assume le: "m (ex_world s2) \<le> m (ex_world (s1\<lparr>ex_stack := [VStr l]\<rparr>))"
        and b: "(b \<longrightarrow> m (ex_world s2) < m (ex_world (s1\<lparr>ex_stack := [VStr l]\<rparr>))) \<and>
          (if b then \<exists>l'. ex_stack s2 = VStr l' # ex_stack (s1\<lparr>ex_stack := [VStr l]\<rparr>) else ex_stack s2 = ex_stack (s1\<lparr>ex_stack := [VStr l]\<rparr>))"
      show "ends_by m (m (ex_world s)) (on_result loaded) (if \<not> b then Some (Inr (-1), s2)
          else Option.bind (lua_insert (-2) (push (VStr [10]) s2)) (\<lambda>s. Option.bind (lua_concat3 E s) (\<lambda>s. load_loop E s)))"
      proof (cases b)
        case True
        then obtain l' where "ex_stack s2 = [VStr l', VStr l]" using b by auto
        then show ?thesis using True b v le ends_by_weaken [OF less.hyps [of "s2\<lparr>ex_stack := [VStr (l @ [10] @ l')]\<rparr>"], of _ "m (ex_world s)"]
          by (simp add: join_lines)
      qed (use le v in simp)
    qed
    then show ?thesis using 2 by (subst load_loop.simps) (simp add: first ld)
  qed
qed

lemma loadline_ends:
  assumes "input_bounded E m"
  shows "ends_by m (m (ex_world s))
    (on_result (\<lambda>st s'. st = -1 \<or> m (ex_world s') < m (ex_world s) \<and> (\<exists>v. ex_stack s' = [v]))) (loadline E s)"
  unfolding loadline_def
proof (rule ends_by_and_then [OF pushline_ends [OF assms]])
  fix b and s1 :: "'a exe"
  assume b: "(b \<longrightarrow> m (ex_world s1) < m (ex_world (s\<lparr>ex_stack := []\<rparr>))) \<and>
    (if b then \<exists>l. ex_stack s1 = VStr l # ex_stack (s\<lparr>ex_stack := []\<rparr>) else ex_stack s1 = ex_stack (s\<lparr>ex_stack := []\<rparr>))"
    and le: "m (ex_world s1) \<le> m (ex_world (s\<lparr>ex_stack := []\<rparr>))"
  show "ends_by m (m (ex_world s)) (on_result (\<lambda>st s'. st = -1 \<or> m (ex_world s') < m (ex_world s) \<and> (\<exists>v. ex_stack s' = [v])))
     (if \<not> b then Some (Inr (-1), s1)
      else and_then (load_loop E s1) (\<lambda>status s. if status = -1 then Some (Inr (-1), s)
        else Option.bind (lua_remove 1 s) (\<lambda>s. Some (Inr status, s))))"
  proof (cases b)
    case True
    then obtain l where l: "ex_stack s1 = [VStr l]" "m (ex_world s1) < m (ex_world s)" using b by auto
    have "ends_by m (m (ex_world s)) (on_result (\<lambda>st s'. st = -1 \<or> m (ex_world s') < m (ex_world s) \<and> (\<exists>v. ex_stack s' = [v])))
        (and_then (load_loop E s1) (\<lambda>status s. if status = -1 then Some (Inr (-1), s)
          else Option.bind (lua_remove 1 s) (\<lambda>s. Some (Inr status, s))))"
      by (rule ends_by_and_then [OF load_loop_ends [OF assms l(1)]]) (use l(2) in \<open>auto simp: lua_remove_def depth_def\<close>)
    then show ?thesis using True by simp
  qed (use le in simp)
qed simp

lemma docall_ends:
  assumes "input_bounded E m" "ex_stack s = [f]"
  shows "ends_by m (m (ex_world s)) (\<lambda>st s'. st \<noteq> 0 \<longrightarrow> ex_stack s' \<noteq> []) (docall E 0 False s)"
proof -
  obtain r w where r: "le_pcall E (Some (traceback E)) f [] (le_signal E Laction (ex_world s)) = Some (r, w)"
      "m w \<le> m (le_signal E Laction (ex_world s))" using bounded(3) [OF assms(1)] by blast
  note sig = bounded(9) [OF assms(1)]
  have "m w \<le> m (ex_world s)" using r(2) sig [of Laction "ex_world s"] by simp
  then have "m (le_signal E SIG_DFL w) \<le> m (ex_world s)" "m (le_gc E LUA_GCCOLLECT (le_signal E SIG_DFL w)) \<le> m (ex_world s)"
    using sig [of SIG_DFL w] bounded(10) [OF assms(1), of LUA_GCCOLLECT "le_signal E SIG_DFL w"] by linarith+
  then show ?thesis using docall_law [of s "[]" f "[]" E False] assms(2) r(1)
    by (cases r) (auto simp: ref_call_def)
qed

lemma print_results_ends:
  assumes "input_bounded E m"
  shows "ends_by m (m (ex_world s)) (on_result (\<lambda>_ _. True)) (print_results E s)"
  unfolding print_results_def
proof (rule ends_by_and_then [OF getglobal_ends [OF assms] order_refl])
  fix x and s1 :: "'a exe"
  assume le: "m (ex_world s1) \<le> m (ex_world s)" and "\<exists>v. ex_stack s1 = v # ex_stack s"
  then obtain v where v: "ex_stack s1 = v # ex_stack s" by blast
  have ins: "lua_insert 1 s1 = Some (s1\<lparr>ex_stack := ex_stack s @ [v]\<rparr>)" using v by (simp add: lua_insert_def depth_def)
  obtain r w where r: "le_pcall E None v (rev (ex_stack s)) (ex_world s1) = Some (r, w)" "m w \<le> m (ex_world s1)"
    using bounded(3) [OF assms] by blast
  have pc: "lua_pcall E (length (ex_stack s)) False 0 (s1\<lparr>ex_stack := ex_stack s @ [v]\<rparr>) =
    Some (case r of Inl (e, t) \<Rightarrow> (err_code e, s1\<lparr>ex_stack := [t], ex_world := w\<rparr>) | Inr rs \<Rightarrow> (0, s1\<lparr>ex_stack := [], ex_world := w\<rparr>))"
    using r(1) by (cases r) (auto simp: lua_pcall_def handler_at_def nth_append)
  show "ends_by m (m (ex_world s)) (on_result (\<lambda>_ _. True)) (do {
       s \<leftarrow> lua_insert 1 s1;
       (status, s) \<leftarrow> lua_pcall E (length (ex_stack s) - 1) False 0 s;
       if status = 0 then Some (Inr (), s)
       else do {
         v \<leftarrow> lua_top s;
         let m = (case lua_tolstring (le_conv E) v of None \<Rightarrow> ascii ''(null)'' | Some m \<Rightarrow> c_str m);
         let msg = ascii ''error calling '' @ [39] @ ascii ''print'' @ [39] @ ascii '' ('' @ m @ ascii '')'';
         Some (Inr (), l_message E (progname s) msg (push (VStr msg) s))
       }
     })"
    using r(2) le order_trans [OF message_ends [OF assms]]
    by (cases r) (auto simp: ins pc lua_top_def Let_def push_def)
qed

lemma dotty_loop_ends:
  assumes "input_bounded E m"
  shows "ends_by m (m (ex_world s)) (on_result (\<lambda>_ _. True)) (dotty_loop E s)"
proof (induction "m (ex_world s)" arbitrary: s rule: less_induct)
  case less
  have again: "ends_by m (m (ex_world s)) (on_result (\<lambda>_ _. True)) (dotty_loop E s')" if "m (ex_world s') < m (ex_world s)" for s'
    using ends_by_weaken [OF less.hyps [OF that], of "m (ex_world s)"] that by simp
  have printed: "ends_by m (m (ex_world s)) (on_result (\<lambda>_ _. True))
      (Option.bind (report E st s1) (\<lambda>(status, s).
        if status = 0 \<and> ex_stack s \<noteq> [] then and_then (print_results E s) (\<lambda>_ s. dotty_loop E s) else dotty_loop E s))"
    if lt: "m (ex_world s1) < m (ex_world s)" and "st \<noteq> 0 \<longrightarrow> ex_stack s1 \<noteq> []" for st s1
  proof (rule ends_by_bind [OF report_ends [OF assms]])
    fix x and s2 :: "'a exe" assume le: "m (ex_world s2) \<le> m (ex_world s1)"
    have "ends_by m (m (ex_world s)) (on_result (\<lambda>_ _. True)) (and_then (print_results E s2) (\<lambda>_ s. dotty_loop E s))"
      by (rule ends_by_and_then [OF print_results_ends [OF assms]]) (use le lt again in auto)
    then show "ends_by m (m (ex_world s)) (on_result (\<lambda>_ _. True)) (case (x, s2) of (status, s) \<Rightarrow>
        if status = 0 \<and> ex_stack s \<noteq> [] then and_then (print_results E s) (\<lambda>_ s. dotty_loop E s) else dotty_loop E s)"
      using again le lt by auto
  qed (use that in simp)
  have called: "ends_by m (m (ex_world s)) (on_result (\<lambda>_ _. True))
      (Option.bind (if st = 0 then docall E 0 False s1 else Some (st, s1)) (\<lambda>(status, s). Option.bind (report E status s) (\<lambda>(status, s).
        if status = 0 \<and> ex_stack s \<noteq> [] then and_then (print_results E s) (\<lambda>_ s. dotty_loop E s) else dotty_loop E s)))"
    if lt: "m (ex_world s1) < m (ex_world s)" and v: "ex_stack s1 = [v]" for st s1 v
  proof (rule ends_by_bind [where n = "m (ex_world s1)" and Q = "\<lambda>st s'. st \<noteq> 0 \<longrightarrow> ex_stack s' \<noteq> []"])
    show "ends_by m (m (ex_world s1)) (\<lambda>st s'. st \<noteq> 0 \<longrightarrow> ex_stack s' \<noteq> []) (if st = 0 then docall E 0 False s1 else Some (st, s1))"
      using docall_ends [OF assms v] v by simp
  qed (use printed lt in auto)
  show ?case
    by (subst dotty_loop.simps, rule ends_by_and_then [OF loadline_ends [OF assms] order_refl]) (use called in fastforce)
qed

text \<open>C21: The interactive mode returns when the standard input ends: if every line read lowers a bound on the lines to
  come, nothing else raises it and the calls of Lua functions return, then \<open>dotty\<close> returns, and unless a
  Lua error leaves it the program name is back and the stack is empty.\<close>

theorem dotty_returns:
  assumes "input_bounded E m"
  shows "\<exists>r s'. dotty E s = Some (r, s') \<and> m (ex_world s') \<le> m (ex_world s) \<and>
    (r = Inr () \<longrightarrow> progname s' = progname s \<and> ex_stack s' = [])"
proof -
  obtain r s1 where r: "dotty_loop E (s\<lparr>progname := None\<rparr>) = Some (r, s1)" "m (ex_world s1) \<le> m (ex_world s)"
    using dotty_loop_ends [OF assms, of "s\<lparr>progname := None\<rparr>"] by (auto simp: ends_by_def)
  then show ?thesis using bounded(7) [OF assms, of "[10]" "ex_world s1"]
    by (cases r) (auto simp: dotty_def and_then_def on_world_def)
qed

theorem dotty_returns_witness:
  "\<exists>r s'. dotty sample_env (exe_init [[43], [61, 120, 10]]) = Some (r, s') \<and> length (ex_world s') \<le> 2 \<and>
    (r = Inr () \<longrightarrow> progname s' = Some LUA_PROGNAME \<and> ex_stack s' = [])"
proof -
  have "input_bounded sample_env length"
    by (auto simp: input_bounded_def sample_env_def lua_isstring_def split: list.split)
  from dotty_returns [OF this, of "exe_init [[43], [61, 120, 10]]"] show ?thesis by (simp add: exe_init_def numeral_2_eq_2)
qed

end
