(* ===== verification/Pb_Coded.thy ===== *)
theory Pb_Coded
  imports Prelude
begin

text \<open>
  The coded streams of the protobuf library, \<open>io/coded_stream.cc\<close> and \<open>io/coded_stream.h\<close> in
  \<open>src/3rd/protobuf-2.6.0/src/google/protobuf\<close>: writing numbers, with the sizes computed for them, and
  reading from a flat array, as \<open>ParseFromArray\<close> and \<open>ParseFromString\<close> do. A pointer into the array is a
  position; reading outside the array is \<open>None\<close>, and so is the use of the input stream, which a flat
  array does not have. Writers give the bytes they write; \<open>room\<close> is the space left in the buffer.
\<close>

type_synonym uint32 = "32 word"
type_synonym uint64 = "64 word"

section \<open>Writing\<close>

definition kMaxVarintBytes :: nat where "kMaxVarintBytes = 10"
definition kMaxVarint32Bytes :: nat where "kMaxVarint32Bytes = 5"

text \<open>The byte at a position of a number with the bit that announces another byte.\<close>

definition more_byte :: "nat \<Rightarrow> uint32 \<Rightarrow> byte" where
  "more_byte j v = ucast (drop_bit j v OR 0x80)"

definition WriteVarint32FallbackToArrayInline :: "uint32 \<Rightarrow> byte list" where
  "WriteVarint32FallbackToArrayInline v =
     (if 2 ^ 7 \<le> v then
        if 2 ^ 14 \<le> v then
          if 2 ^ 21 \<le> v then
            if 2 ^ 28 \<le> v
            then [more_byte 0 v, more_byte 7 v, more_byte 14 v, more_byte 21 v, ucast (drop_bit 28 v)]
            else [more_byte 0 v, more_byte 7 v, more_byte 14 v, more_byte 21 v AND 0x7F]
          else [more_byte 0 v, more_byte 7 v, more_byte 14 v AND 0x7F]
        else [more_byte 0 v, more_byte 7 v AND 0x7F]
      else [more_byte 0 v AND 0x7F])"

lemma uint_drop: "uint (drop_bit n v) = uint v div 2 ^ n"
proof -
  have "uint (drop_bit n v) = drop_bit n (take_bit LENGTH('a) (uint v))" for v :: "'a::len word" by (rule unsigned_drop_bit_eq)
  moreover have "take_bit LENGTH('a) (uint v) = uint v" for v :: "'a::len word"
    by (rule take_bit_int_eq_self) (simp_all add: uint_lt2p)
  ultimately show ?thesis by (simp only: drop_bit_eq_div)
qed

text \<open>The loop that composes the bytes of a number before they are written.\<close>

function compose :: "'a::len word \<Rightarrow> byte list" where
  "compose v =
     (if uint v > 0x7F then ((ucast v AND 0x7F) OR 0x80) # compose (drop_bit 7 v) else [ucast v AND 0x7F])"
  by pat_completeness auto

termination compose
proof (relation "measure unat")
  fix v :: "'a word" assume "uint v > 0x7F"
  moreover have "uint (drop_bit 7 v) = uint v div 2 ^ 7" by (rule uint_drop)
  ultimately have "drop_bit 7 v < v" by (simp only: word_less_def) simp
  then show "(drop_bit 7 v, v) \<in> measure unat" by (simp only: in_measure word_less_nat_alt)
qed simp

declare compose.simps [simp del]

definition WriteVarint32 :: "nat \<Rightarrow> uint32 \<Rightarrow> byte list" where
  "WriteVarint32 room v = (if kMaxVarint32Bytes \<le> room then WriteVarint32FallbackToArrayInline v else compose v)"

definition WriteVarint32ToArray :: "uint32 \<Rightarrow> byte list" where
  "WriteVarint32ToArray v = (if v < 0x80 then [ucast v] else WriteVarint32FallbackToArrayInline v)"

definition WriteTagToArray :: "uint32 \<Rightarrow> byte list" where
  "WriteTagToArray v =
     (if v < 2 ^ 7 then [ucast v]
      else if v < 2 ^ 14 then [ucast (v OR 0x80), ucast (drop_bit 7 v)]
      else WriteVarint32FallbackToArrayInline v)"

text \<open>A number of 64 bits in three parts; the size is found in a tree of comparisons.\<close>

definition varint64_size :: "uint32 \<Rightarrow> uint32 \<Rightarrow> uint32 \<Rightarrow> nat" where
  "varint64_size part0 part1 part2 =
     (if part2 = 0 then
        if part1 = 0 then
          if part0 < 2 ^ 14 then (if part0 < 2 ^ 7 then 1 else 2) else (if part0 < 2 ^ 21 then 3 else 4)
        else
          if part1 < 2 ^ 14 then (if part1 < 2 ^ 7 then 5 else 6) else (if part1 < 2 ^ 21 then 7 else 8)
      else if part2 < 2 ^ 7 then 9 else 10)"

definition WriteVarint64ToArrayInline :: "uint64 \<Rightarrow> byte list" where
  "WriteVarint64ToArrayInline v =
     (let part0 = ucast v :: uint32; part1 = ucast (drop_bit 28 v); part2 = ucast (drop_bit 56 v);
          size = varint64_size part0 part1 part2;
          target = take size
            [more_byte 0 part0, more_byte 7 part0, more_byte 14 part0, more_byte 21 part0,
             more_byte 0 part1, more_byte 7 part1, more_byte 14 part1, more_byte 21 part1,
             more_byte 0 part2, more_byte 7 part2]
      in target[size - 1 := target ! (size - 1) AND 0x7F])"

definition WriteVarint64 :: "nat \<Rightarrow> uint64 \<Rightarrow> byte list" where
  "WriteVarint64 room v = (if kMaxVarintBytes \<le> room then WriteVarint64ToArrayInline v else compose v)"

text \<open>A signed number of 32 bits is extended to 64 bits when it is negative.\<close>

definition WriteVarint32SignExtended :: "nat \<Rightarrow> uint32 \<Rightarrow> byte list" where
  "WriteVarint32SignExtended room v =
     (if sint v < 0 then WriteVarint64 room (scast v) else WriteVarint32 room v)"

definition WriteVarint64ToArray :: "uint64 \<Rightarrow> byte list" where
  "WriteVarint64ToArray v = WriteVarint64ToArrayInline v"

definition WriteVarint32SignExtendedToArray :: "uint32 \<Rightarrow> byte list" where
  "WriteVarint32SignExtendedToArray v =
     (if sint v < 0 then WriteVarint64ToArray (scast v) else WriteVarint32ToArray v)"

text \<open>A string with its size in front; the size is cut to 32 bits.\<close>

definition WriteStringWithSizeToArray :: "byte list \<Rightarrow> byte list" where
  "WriteStringWithSizeToArray str = WriteVarint32ToArray (of_nat (length str)) @ str"

definition VarintSize32 :: "uint32 \<Rightarrow> int" where
  "VarintSize32 v =
     (if v < 2 ^ 7 then 1 else if v < 2 ^ 14 then 2 else if v < 2 ^ 21 then 3 else if v < 2 ^ 28 then 4 else 5)"

definition VarintSize64 :: "uint64 \<Rightarrow> int" where
  "VarintSize64 v =
     (if v < 2 ^ 35 then
        if v < 2 ^ 7 then 1 else if v < 2 ^ 14 then 2 else if v < 2 ^ 21 then 3 else if v < 2 ^ 28 then 4 else 5
      else
        if v < 2 ^ 42 then 6 else if v < 2 ^ 49 then 7 else if v < 2 ^ 56 then 8 else if v < 2 ^ 63 then 9 else 10)"

definition VarintSize32SignExtended :: "uint32 \<Rightarrow> int" where
  "VarintSize32SignExtended v = (if sint v < 0 then 10 else VarintSize32 v)"

definition WriteLittleEndian32 :: "uint32 \<Rightarrow> byte list" where
  "WriteLittleEndian32 v = le_bytes 4 (uint v)"

definition WriteLittleEndian64 :: "uint64 \<Rightarrow> byte list" where
  "WriteLittleEndian64 v = le_bytes 8 (uint v)"

section \<open>The input stream\<close>

text \<open>The members of a \<open>CodedInputStream\<close> without \<open>input_\<close>, \<open>overflow_bytes_\<close>, which stays \<open>0\<close>, and the warnings.\<close>

record coded_input =
  ci_data :: "byte list"
  buffer :: nat
  buffer_end :: nat
  total_bytes_read :: int
  last_tag :: uint32
  legitimate_message_end :: bool
  current_limit :: int
  buffer_size_after_limit :: int
  total_bytes_limit :: int
  recursion_depth :: int
  recursion_limit :: int

definition kDefaultTotalBytesLimit :: int where "kDefaultTotalBytesLimit = 64 * 2 ^ 20"

definition CodedInputStream :: "byte list \<Rightarrow> coded_input" where
  "CodedInputStream data =
     \<lparr>ci_data = data, buffer = 0, buffer_end = length data, total_bytes_read = int (length data), last_tag = 0,
      legitimate_message_end = False, current_limit = int (length data), buffer_size_after_limit = 0,
      total_bytes_limit = kDefaultTotalBytesLimit, recursion_depth = 0, recursion_limit = 100\<rparr>"

definition BufferSize :: "coded_input \<Rightarrow> int" where
  "BufferSize st = int (buffer_end st) - int (buffer st)"

definition Advance :: "nat \<Rightarrow> coded_input \<Rightarrow> coded_input" where
  "Advance n st = st\<lparr>buffer := buffer st + n\<rparr>"

definition byte_at :: "coded_input \<Rightarrow> nat \<Rightarrow> byte option" where
  "byte_at st i = (if i < length (ci_data st) then Some (ci_data st ! i) else None)"

text \<open>\<open>Refresh\<close> stops at a limit; otherwise it would use the missing input stream.\<close>

definition Refresh :: "coded_input \<Rightarrow> bool option" where
  "Refresh st = (if 0 < buffer_size_after_limit st \<or> total_bytes_read st = current_limit st then Some False else None)"

definition CurrentPosition :: "coded_input \<Rightarrow> int" where
  "CurrentPosition st = total_bytes_read st - (BufferSize st + buffer_size_after_limit st)"

definition RecomputeBufferLimits :: "coded_input \<Rightarrow> coded_input" where
  "RecomputeBufferLimits st =
     (let e = int (buffer_end st) + buffer_size_after_limit st;
          closest_limit = min (current_limit st) (total_bytes_limit st) in
      if closest_limit < total_bytes_read st
      then (let a = total_bytes_read st - closest_limit in st\<lparr>buffer_size_after_limit := a, buffer_end := nat (e - a)\<rparr>)
      else st\<lparr>buffer_size_after_limit := 0, buffer_end := nat e\<rparr>)"

definition PushLimit :: "int \<Rightarrow> coded_input \<Rightarrow> int \<times> coded_input" where
  "PushLimit byte_limit st =
     (let current_position = CurrentPosition st;
          old_limit = current_limit st;
          l = (if 0 \<le> byte_limit \<and> byte_limit \<le> INT_MAX - current_position then current_position + byte_limit else INT_MAX) in
      (old_limit, RecomputeBufferLimits (st\<lparr>current_limit := min l old_limit\<rparr>)))"

definition PopLimit :: "int \<Rightarrow> coded_input \<Rightarrow> coded_input" where
  "PopLimit limit st = (RecomputeBufferLimits (st\<lparr>current_limit := limit\<rparr>))\<lparr>legitimate_message_end := False\<rparr>"

definition BytesUntilLimit :: "coded_input \<Rightarrow> int" where
  "BytesUntilLimit st = (if current_limit st = INT_MAX then -1 else current_limit st - CurrentPosition st)"

definition BytesUntilTotalBytesLimit :: "coded_input \<Rightarrow> int" where
  "BytesUntilTotalBytesLimit st = (if total_bytes_limit st = INT_MAX then -1 else total_bytes_limit st - CurrentPosition st)"

section \<open>Reading\<close>

text \<open>
  \<open>ReadVarint32FromArray\<close> reads without checking the end of the buffer: five bytes with their shifts, then
  five more whose bits are lost. The result is wrapped to 32 bits. \<open>Some None\<close> is the null pointer.
\<close>

fun skip_bytes :: "nat \<Rightarrow> coded_input \<Rightarrow> nat \<Rightarrow> nat option option" where
  "skip_bytes 0 st ptr = Some None"
| "skip_bytes (Suc n) st ptr =
     Option.bind (byte_at st ptr) (\<lambda>b. if b AND 0x80 = 0 then Some (Some (ptr + 1)) else skip_bytes n st (ptr + 1))"

fun read_parts :: "nat list \<Rightarrow> coded_input \<Rightarrow> nat \<Rightarrow> uint32 \<Rightarrow> (bool \<times> uint32 \<times> nat) option" where
  "read_parts [] st ptr result = Some (False, result, ptr)"
| "read_parts (j # js) st ptr result =
     Option.bind (byte_at st ptr) (\<lambda>b.
       let result = result + push_bit j (ucast b) in
       if b AND 0x80 = 0 then Some (True, result, ptr + 1)
       else read_parts js st (ptr + 1) (result - push_bit j 0x80))"

definition ReadVarint32FromArray :: "coded_input \<Rightarrow> (uint32 \<times> nat) option option" where
  "ReadVarint32FromArray st =
     Option.bind (read_parts [0, 7, 14, 21, 28] st (buffer st) 0) (\<lambda>(stop, result, ptr).
       if stop then Some (Some (result, ptr))
       else map_option (map_option (Pair result)) (skip_bytes (kMaxVarintBytes - kMaxVarint32Bytes) st ptr))"

text \<open>The test by which the unchecked reading is chosen.\<close>

definition can_read_ahead :: "coded_input \<Rightarrow> bool option" where
  "can_read_ahead st =
     (if int kMaxVarintBytes \<le> BufferSize st then Some True
      else if buffer st < buffer_end st then map_option (\<lambda>b. b AND 0x80 = 0) (byte_at st (buffer_end st - 1))
      else Some False)"

text \<open>
  \<open>ReadVarint64Fallback\<close> without checks, in three parts of 32 bits. The last part has two bytes. The bytes
  after the last shift of a part are in the next one.
\<close>

definition join_parts :: "uint32 \<Rightarrow> uint32 \<Rightarrow> uint32 \<Rightarrow> uint64" where
  "join_parts part0 part1 part2 = ucast part0 OR push_bit 28 (ucast part1) OR push_bit 56 (ucast part2)"

definition ReadVarint64Fast :: "coded_input \<Rightarrow> (bool \<times> uint64 \<times> coded_input) option" where
  "ReadVarint64Fast st =
     Option.bind (read_parts [0, 7, 14, 21] st (buffer st) 0) (\<lambda>(stop, part0, ptr).
       if stop then Some (True, join_parts part0 0 0, st\<lparr>buffer := ptr\<rparr>)
       else
         Option.bind (read_parts [0, 7, 14, 21] st ptr 0) (\<lambda>(stop, part1, ptr).
           if stop then Some (True, join_parts part0 part1 0, st\<lparr>buffer := ptr\<rparr>)
           else
             Option.bind (read_parts [0, 7] st ptr 0) (\<lambda>(stop, part2, ptr).
               if stop then Some (True, join_parts part0 part1 part2, st\<lparr>buffer := ptr\<rparr>) else Some (False, 0, st))))"

text \<open>The loop with checks; \<open>count\<close> goes up to ten.\<close>

function slow_loop :: "nat \<Rightarrow> uint64 \<Rightarrow> coded_input \<Rightarrow> (bool \<times> uint64 \<times> coded_input) option" where
  "slow_loop count result st =
     (if kMaxVarintBytes \<le> count then Some (False, 0, st)
      else if buffer st = buffer_end st then map_option (\<lambda>r. (r, 0, st)) (Refresh st)
      else
        Option.bind (byte_at st (buffer st)) (\<lambda>b.
          let result = result OR push_bit (7 * count) (ucast (b AND 0x7F)) in
          if b AND 0x80 = 0 then Some (True, result, Advance 1 st) else slow_loop (count + 1) result (Advance 1 st)))"
  by pat_completeness auto

termination slow_loop
  by (relation "measure (\<lambda>(count, result, st). kMaxVarintBytes - count)") auto

declare slow_loop.simps [simp del]

definition ReadVarint64Slow :: "coded_input \<Rightarrow> (bool \<times> uint64 \<times> coded_input) option" where
  "ReadVarint64Slow st = slow_loop 0 0 st"

definition ReadVarint64Fallback :: "coded_input \<Rightarrow> (bool \<times> uint64 \<times> coded_input) option" where
  "ReadVarint64Fallback st = do { ahead \<leftarrow> can_read_ahead st; if ahead then ReadVarint64Fast st else ReadVarint64Slow st }"

definition ReadVarint64 :: "coded_input \<Rightarrow> (bool \<times> uint64 \<times> coded_input) option" where
  "ReadVarint64 st =
     (if buffer st < buffer_end st
      then do {
        b \<leftarrow> byte_at st (buffer st);
        if b < 0x80 then Some (True, ucast b, Advance 1 st) else ReadVarint64Fallback st
      }
      else ReadVarint64Fallback st)"

definition ReadVarint32Slow :: "coded_input \<Rightarrow> (bool \<times> uint32 \<times> coded_input) option" where
  "ReadVarint32Slow st = map_option (\<lambda>(ok, v, st). (ok, ucast v, st)) (ReadVarint64Fallback st)"

definition ReadVarint32Fallback :: "coded_input \<Rightarrow> (bool \<times> uint32 \<times> coded_input) option" where
  "ReadVarint32Fallback st = do {
     ahead \<leftarrow> can_read_ahead st;
     if ahead then do {
       r \<leftarrow> ReadVarint32FromArray st;
       case r of None \<Rightarrow> Some (False, 0, st) | Some (v, ptr) \<Rightarrow> Some (True, v, st\<lparr>buffer := ptr\<rparr>)
     }
     else ReadVarint32Slow st
   }"

definition ReadVarint32 :: "coded_input \<Rightarrow> (bool \<times> uint32 \<times> coded_input) option" where
  "ReadVarint32 st =
     (if buffer st < buffer_end st
      then do {
        b \<leftarrow> byte_at st (buffer st);
        if b < 0x80 then Some (True, ucast b, Advance 1 st) else ReadVarint32Fallback st
      }
      else ReadVarint32Fallback st)"

section \<open>Tags, fixed sizes and strings\<close>

definition ReadTagSlow :: "coded_input \<Rightarrow> (uint32 \<times> coded_input) option" where
  "ReadTagSlow st =
     (if buffer st = buffer_end st
      then do {
        more \<leftarrow> Refresh st;
        if more then None
        else
          (let current_position = total_bytes_read st - buffer_size_after_limit st in
           Some (0, st\<lparr>legitimate_message_end :=
             (if total_bytes_limit st \<le> current_position then current_limit st = total_bytes_limit st else True)\<rparr>))
      }
      else do { (ok, v, st) \<leftarrow> ReadVarint64 st; Some (if ok then ucast v else 0, st) })"

definition ReadTagFallback :: "coded_input \<Rightarrow> (uint32 \<times> coded_input) option" where
  "ReadTagFallback st = do {
     ahead \<leftarrow> can_read_ahead st;
     if ahead then do {
       r \<leftarrow> ReadVarint32FromArray st;
       case r of None \<Rightarrow> Some (0, st) | Some (v, ptr) \<Rightarrow> Some (v, st\<lparr>buffer := ptr\<rparr>)
     }
     else if BufferSize st = 0 \<and> (0 < buffer_size_after_limit st \<or> total_bytes_read st = current_limit st) \<and>
        total_bytes_read st - buffer_size_after_limit st < total_bytes_limit st
     then Some (0, st\<lparr>legitimate_message_end := True\<rparr>)
     else ReadTagSlow st
   }"

definition ReadTag :: "coded_input \<Rightarrow> (uint32 \<times> coded_input) option" where
  "ReadTag st = do {
     (tag, st) \<leftarrow>
       (if buffer st < buffer_end st
        then do {
          b \<leftarrow> byte_at st (buffer st);
          if b < 0x80 then Some (ucast b, Advance 1 st) else ReadTagFallback st
        }
        else ReadTagFallback st);
     Some (tag, st\<lparr>last_tag := tag\<rparr>)
   }"

definition LastTagWas :: "uint32 \<Rightarrow> coded_input \<Rightarrow> bool" where
  "LastTagWas expected st \<longleftrightarrow> last_tag st = expected"

definition ConsumedEntireMessage :: "coded_input \<Rightarrow> bool" where
  "ConsumedEntireMessage st = legitimate_message_end st"

text \<open>
  The quicker readers of generated code. A tag of one byte, or of two, is recognised in place; the second
  result of \<open>ReadTagWithCutoff\<close> says whether the tag is at most \<open>cutoff\<close>.
\<close>

definition ReadTagWithCutoff :: "uint32 \<Rightarrow> coded_input \<Rightarrow> (uint32 \<times> bool \<times> coded_input) option" where
  "ReadTagWithCutoff cutoff st =
     (let slow_path = do {
            (tag, st) \<leftarrow> ReadTagFallback st;
            Some (tag, tag - 1 < cutoff, st\<lparr>last_tag := tag\<rparr>)
          } in
      if buffer st < buffer_end st
      then do {
        b0 \<leftarrow> byte_at st (buffer st);
        if 0 < sint b0
        then (let tag = ucast b0 in
              Some (tag, 0x7F \<le> cutoff \<or> tag \<le> cutoff, (Advance 1 st)\<lparr>last_tag := tag\<rparr>))
        else if 0x80 \<le> cutoff \<and> buffer st + 1 < buffer_end st
        then do {
          b1 \<leftarrow> byte_at st (buffer st + 1);
          if 0x80 \<le> b0 AND NOT b1
          then (let tag = 2 ^ 7 * ucast b1 + (ucast b0 - 0x80) in
                Some (tag, 0x3FFF \<le> cutoff \<or> tag \<le> cutoff, (Advance 2 st)\<lparr>last_tag := tag\<rparr>))
          else slow_path
        }
        else slow_path
      }
      else slow_path)"

definition ExpectTag :: "uint32 \<Rightarrow> coded_input \<Rightarrow> (bool \<times> coded_input) option" where
  "ExpectTag expected st =
     (if expected < 2 ^ 7 then
        if buffer st < buffer_end st
        then do {
          b0 \<leftarrow> byte_at st (buffer st);
          Some (if ucast b0 = expected then (True, Advance 1 st) else (False, st))
        }
        else Some (False, st)
      else if expected < 2 ^ 14 then
        if 2 \<le> BufferSize st
        then do {
          b0 \<leftarrow> byte_at st (buffer st);
          b1 \<leftarrow> byte_at st (buffer st + 1);
          Some (if b0 = ucast (expected OR 0x80) \<and> b1 = ucast (drop_bit 7 expected) then (True, Advance 2 st) else (False, st))
        }
        else Some (False, st)
      else Some (False, st))"

definition ExpectAtEnd :: "coded_input \<Rightarrow> bool \<times> coded_input" where
  "ExpectAtEnd st =
     (if buffer st = buffer_end st \<and> (buffer_size_after_limit st \<noteq> 0 \<or> total_bytes_read st = current_limit st)
      then (True, st\<lparr>last_tag := 0, legitimate_message_end := True\<rparr>)
      else (False, st))"

definition IncrementRecursionDepth :: "coded_input \<Rightarrow> bool \<times> coded_input" where
  "IncrementRecursionDepth st =
     (recursion_depth st + 1 \<le> recursion_limit st, st\<lparr>recursion_depth := recursion_depth st + 1\<rparr>)"

definition DecrementRecursionDepth :: "coded_input \<Rightarrow> coded_input" where
  "DecrementRecursionDepth st = (if 0 < recursion_depth st then st\<lparr>recursion_depth := recursion_depth st - 1\<rparr> else st)"

text \<open>The bytes \<open>memcpy\<close> reads at the position.\<close>

definition copy_bytes :: "nat \<Rightarrow> coded_input \<Rightarrow> byte list option" where
  "copy_bytes n st =
     (if buffer st + n \<le> length (ci_data st) then Some (take n (drop (buffer st) (ci_data st))) else None)"

text \<open>
  \<open>ReadRaw\<close> and the loop of \<open>ReadStringFallback\<close>: what is left in the buffer is taken when it is too short,
  and then \<open>Refresh\<close> fails.
\<close>

definition ReadRaw :: "nat \<Rightarrow> coded_input \<Rightarrow> (bool \<times> byte list \<times> coded_input) option" where
  "ReadRaw sz st =
     (if BufferSize st < int sz
      then do {
        bs \<leftarrow> copy_bytes (nat (BufferSize st)) st;
        let st = Advance (nat (BufferSize st)) st;
        more \<leftarrow> Refresh st;
        if more then None else Some (False, bs, st)
      }
      else do { bs \<leftarrow> copy_bytes sz st; Some (True, bs, Advance sz st) })"

definition ReadStringFallback :: "nat \<Rightarrow> coded_input \<Rightarrow> (bool \<times> byte list \<times> coded_input) option" where
  "ReadStringFallback sz st = ReadRaw sz st"

definition ReadString :: "int \<Rightarrow> coded_input \<Rightarrow> (bool \<times> byte list \<times> coded_input) option" where
  "ReadString sz st =
     (if sz < 0 then Some (False, [], st)
      else if sz \<le> BufferSize st
      then do { bs \<leftarrow> copy_bytes (nat sz) st; Some (True, bs, Advance (nat sz) st) }
      else ReadStringFallback (nat sz) st)"

definition ReadLittleEndian32 :: "coded_input \<Rightarrow> (bool \<times> uint32 \<times> coded_input) option" where
  "ReadLittleEndian32 st =
     (if 4 \<le> BufferSize st
      then do { bs \<leftarrow> copy_bytes 4 st; Some (True, word_of_int (le_val bs), Advance 4 st) }
      else do {
        (ok, bs, st) \<leftarrow> ReadRaw 4 st;
        Some (if ok then (True, word_of_int (le_val bs), st) else (False, 0, st))
      })"

definition ReadLittleEndian64 :: "coded_input \<Rightarrow> (bool \<times> uint64 \<times> coded_input) option" where
  "ReadLittleEndian64 st =
     (if 8 \<le> BufferSize st
      then do { bs \<leftarrow> copy_bytes 8 st; Some (True, word_of_int (le_val bs), Advance 8 st) }
      else do {
        (ok, bs, st) \<leftarrow> ReadRaw 8 st;
        Some (if ok then (True, word_of_int (le_val bs), st) else (False, 0, st))
      })"

text \<open>
  \<open>Skip\<close>. Past the end of the array the pointers are set to null; both are the end of the array here,
  since nothing is read through an empty buffer.
\<close>

definition Skip :: "int \<Rightarrow> coded_input \<Rightarrow> (bool \<times> coded_input) option" where
  "Skip count st =
     (if count < 0 then Some (False, st)
      else if count \<le> BufferSize st then Some (True, Advance (nat count) st)
      else if 0 < buffer_size_after_limit st then Some (False, Advance (nat (BufferSize st)) st)
      else
        (let count = count - BufferSize st;
             st = st\<lparr>buffer := length (ci_data st), buffer_end := length (ci_data st)\<rparr>;
             bytes_until_limit = min (current_limit st) (total_bytes_limit st) - total_bytes_read st in
         if bytes_until_limit < count \<and> bytes_until_limit \<le> 0 then Some (False, st) else None))"

end
