(* ===== verification/Pb_Wire.thy ===== *)
theory Pb_Wire
  imports Pb_Coded Pb_Message
begin

text \<open>
  The wire format of the protobuf library without reflection, \<open>wire_format_lite.cc\<close>, \<open>wire_format_lite.h\<close> and
  \<open>wire_format_lite_inl.h\<close> in \<open>src/3rd/protobuf-2.6.0/src/google/protobuf\<close>: tags, the encodings of the types
  of fields, their sizes, packed fields, and skipping what is not known, with and without recording it.
  Nested messages are read by generated code and by reflection, which are not part of it. A \<open>float\<close> and a
  \<open>double\<close> are their bits, and an \<open>int32\<close> is a word read with \<open>sint\<close>.
\<close>

section \<open>Types and tags\<close>

datatype wire_type =
  WIRETYPE_VARINT | WIRETYPE_FIXED64 | WIRETYPE_LENGTH_DELIMITED | WIRETYPE_START_GROUP | WIRETYPE_END_GROUP | WIRETYPE_FIXED32

fun wire_code :: "wire_type \<Rightarrow> uint32" where
  "wire_code WIRETYPE_VARINT = 0"
| "wire_code WIRETYPE_FIXED64 = 1"
| "wire_code WIRETYPE_LENGTH_DELIMITED = 2"
| "wire_code WIRETYPE_START_GROUP = 3"
| "wire_code WIRETYPE_END_GROUP = 4"
| "wire_code WIRETYPE_FIXED32 = 5"

fun kWireTypeForFieldType :: "pb_type \<Rightarrow> wire_type" where
  "kWireTypeForFieldType TYPE_DOUBLE = WIRETYPE_FIXED64"
| "kWireTypeForFieldType TYPE_FLOAT = WIRETYPE_FIXED32"
| "kWireTypeForFieldType TYPE_INT64 = WIRETYPE_VARINT"
| "kWireTypeForFieldType TYPE_UINT64 = WIRETYPE_VARINT"
| "kWireTypeForFieldType TYPE_INT32 = WIRETYPE_VARINT"
| "kWireTypeForFieldType TYPE_FIXED64 = WIRETYPE_FIXED64"
| "kWireTypeForFieldType TYPE_FIXED32 = WIRETYPE_FIXED32"
| "kWireTypeForFieldType TYPE_BOOL = WIRETYPE_VARINT"
| "kWireTypeForFieldType TYPE_STRING = WIRETYPE_LENGTH_DELIMITED"
| "kWireTypeForFieldType TYPE_GROUP = WIRETYPE_START_GROUP"
| "kWireTypeForFieldType TYPE_MESSAGE = WIRETYPE_LENGTH_DELIMITED"
| "kWireTypeForFieldType TYPE_BYTES = WIRETYPE_LENGTH_DELIMITED"
| "kWireTypeForFieldType TYPE_UINT32 = WIRETYPE_VARINT"
| "kWireTypeForFieldType TYPE_ENUM = WIRETYPE_VARINT"
| "kWireTypeForFieldType TYPE_SFIXED32 = WIRETYPE_FIXED32"
| "kWireTypeForFieldType TYPE_SFIXED64 = WIRETYPE_FIXED64"
| "kWireTypeForFieldType TYPE_SINT32 = WIRETYPE_VARINT"
| "kWireTypeForFieldType TYPE_SINT64 = WIRETYPE_VARINT"

definition kTagTypeBits :: nat where "kTagTypeBits = 3"
definition kTagTypeMask :: uint32 where "kTagTypeMask = push_bit kTagTypeBits 1 - 1"

definition MakeTag :: "int \<Rightarrow> wire_type \<Rightarrow> uint32" where
  "MakeTag field_number type = push_bit kTagTypeBits (word_of_int field_number) OR wire_code type"

text \<open>The wire type of a tag; \<open>None\<close> are the two numbers that are no wire type.\<close>

definition GetTagWireType :: "uint32 \<Rightarrow> wire_type option" where
  "GetTagWireType tag =
     find (\<lambda>t. wire_code t = tag AND kTagTypeMask)
       [WIRETYPE_VARINT, WIRETYPE_FIXED64, WIRETYPE_LENGTH_DELIMITED, WIRETYPE_START_GROUP, WIRETYPE_END_GROUP, WIRETYPE_FIXED32]"

definition GetTagFieldNumber :: "uint32 \<Rightarrow> int" where
  "GetTagFieldNumber tag = sint (drop_bit kTagTypeBits tag)"

definition TagSize :: "int \<Rightarrow> pb_type \<Rightarrow> int" where
  "TagSize field_number type =
     (let result = VarintSize32 (push_bit kTagTypeBits (word_of_int field_number)) in
      if type = TYPE_GROUP then result * 2 else result)"

definition ZigZagEncode32 :: "uint32 \<Rightarrow> uint32" where
  "ZigZagEncode32 n = push_bit 1 n XOR signed_drop_bit 31 n"

definition ZigZagDecode32 :: "uint32 \<Rightarrow> uint32" where
  "ZigZagDecode32 n = drop_bit 1 n XOR - (n AND 1)"

definition ZigZagEncode64 :: "uint64 \<Rightarrow> uint64" where
  "ZigZagEncode64 n = push_bit 1 n XOR signed_drop_bit 63 n"

definition ZigZagDecode64 :: "uint64 \<Rightarrow> uint64" where
  "ZigZagDecode64 n = drop_bit 1 n XOR - (n AND 1)"

section \<open>Values\<close>

text \<open>The value of a field with the type it is declared with.\<close>

datatype field_value =
  VDouble uint64 | VFloat uint32 | VInt64 uint64 | VUInt64 uint64 | VInt32 uint32 | VFixed64 uint64 | VFixed32 uint32
| VBool bool | VString "byte list" | VBytes "byte list" | VUInt32 uint32 | VEnum uint32 | VSFixed32 uint32 | VSFixed64 uint64
| VSInt32 uint32 | VSInt64 uint64

fun value_type :: "field_value \<Rightarrow> pb_type" where
  "value_type (VDouble v) = TYPE_DOUBLE"
| "value_type (VFloat v) = TYPE_FLOAT"
| "value_type (VInt64 v) = TYPE_INT64"
| "value_type (VUInt64 v) = TYPE_UINT64"
| "value_type (VInt32 v) = TYPE_INT32"
| "value_type (VFixed64 v) = TYPE_FIXED64"
| "value_type (VFixed32 v) = TYPE_FIXED32"
| "value_type (VBool b) = TYPE_BOOL"
| "value_type (VString s) = TYPE_STRING"
| "value_type (VBytes s) = TYPE_BYTES"
| "value_type (VUInt32 v) = TYPE_UINT32"
| "value_type (VEnum v) = TYPE_ENUM"
| "value_type (VSFixed32 v) = TYPE_SFIXED32"
| "value_type (VSFixed64 v) = TYPE_SFIXED64"
| "value_type (VSInt32 v) = TYPE_SINT32"
| "value_type (VSInt64 v) = TYPE_SINT64"

text \<open>
  \<open>WriteInt32NoTag\<close> and its relatives to a stream with \<open>room\<close> bytes left in its buffer, and the bytes after
  the tag of \<open>WriteString\<close> and \<open>WriteBytes\<close>. These check that a string has at most \<open>kint32max\<close> bytes, and the
  process ends where it has more.
\<close>

fun WriteNoTag :: "nat \<Rightarrow> field_value \<Rightarrow> byte list" where
  "WriteNoTag room (VInt32 v) = WriteVarint32SignExtended room v"
| "WriteNoTag room (VInt64 v) = WriteVarint64 room v"
| "WriteNoTag room (VUInt32 v) = WriteVarint32 room v"
| "WriteNoTag room (VUInt64 v) = WriteVarint64 room v"
| "WriteNoTag room (VSInt32 v) = WriteVarint32 room (ZigZagEncode32 v)"
| "WriteNoTag room (VSInt64 v) = WriteVarint64 room (ZigZagEncode64 v)"
| "WriteNoTag room (VFixed32 v) = WriteLittleEndian32 v"
| "WriteNoTag room (VFixed64 v) = WriteLittleEndian64 v"
| "WriteNoTag room (VSFixed32 v) = WriteLittleEndian32 v"
| "WriteNoTag room (VSFixed64 v) = WriteLittleEndian64 v"
| "WriteNoTag room (VFloat v) = WriteLittleEndian32 v"
| "WriteNoTag room (VDouble v) = WriteLittleEndian64 v"
| "WriteNoTag room (VBool b) = WriteVarint32 room (if b then 1 else 0)"
| "WriteNoTag room (VEnum v) = WriteVarint32SignExtended room v"
| "WriteNoTag room (VString s) = WriteVarint32 room (of_nat (length s)) @ s"
| "WriteNoTag room (VBytes s) = WriteVarint32 room (of_nat (length s)) @ s"

text \<open>The same to an array.\<close>

fun WriteNoTagToArray :: "field_value \<Rightarrow> byte list" where
  "WriteNoTagToArray (VInt32 v) = WriteVarint32SignExtendedToArray v"
| "WriteNoTagToArray (VInt64 v) = WriteVarint64ToArray v"
| "WriteNoTagToArray (VUInt32 v) = WriteVarint32ToArray v"
| "WriteNoTagToArray (VUInt64 v) = WriteVarint64ToArray v"
| "WriteNoTagToArray (VSInt32 v) = WriteVarint32ToArray (ZigZagEncode32 v)"
| "WriteNoTagToArray (VSInt64 v) = WriteVarint64ToArray (ZigZagEncode64 v)"
| "WriteNoTagToArray (VFixed32 v) = WriteLittleEndian32 v"
| "WriteNoTagToArray (VFixed64 v) = WriteLittleEndian64 v"
| "WriteNoTagToArray (VSFixed32 v) = WriteLittleEndian32 v"
| "WriteNoTagToArray (VSFixed64 v) = WriteLittleEndian64 v"
| "WriteNoTagToArray (VFloat v) = WriteLittleEndian32 v"
| "WriteNoTagToArray (VDouble v) = WriteLittleEndian64 v"
| "WriteNoTagToArray (VBool b) = WriteVarint32ToArray (if b then 1 else 0)"
| "WriteNoTagToArray (VEnum v) = WriteVarint32SignExtendedToArray v"
| "WriteNoTagToArray (VString s) = WriteStringWithSizeToArray s"
| "WriteNoTagToArray (VBytes s) = WriteStringWithSizeToArray s"

text \<open>\<open>WriteTag\<close> goes through \<open>WriteVarint32\<close>; a field is its tag and its value.\<close>

definition WriteTag :: "nat \<Rightarrow> int \<Rightarrow> wire_type \<Rightarrow> byte list" where
  "WriteTag room field_number type = WriteVarint32 room (MakeTag field_number type)"

definition WriteField :: "nat \<times> nat \<Rightarrow> int \<Rightarrow> field_value \<Rightarrow> byte list" where
  "WriteField rooms field_number v =
     WriteTag (fst rooms) field_number (kWireTypeForFieldType (value_type v)) @ WriteNoTag (snd rooms) v"

definition WriteFieldToArray :: "int \<Rightarrow> field_value \<Rightarrow> byte list" where
  "WriteFieldToArray field_number v =
     WriteTagToArray (MakeTag field_number (kWireTypeForFieldType (value_type v))) @ WriteNoTagToArray v"

text \<open>A group around the bytes of the message that is its value.\<close>

definition WriteGroupToArray :: "int \<Rightarrow> byte list \<Rightarrow> byte list" where
  "WriteGroupToArray field_number message =
     WriteTagToArray (MakeTag field_number WIRETYPE_START_GROUP) @ message @ WriteTagToArray (MakeTag field_number WIRETYPE_END_GROUP)"

text \<open>\<open>Int32Size\<close> and its relatives; the sizes of the types of a fixed size are constants.\<close>

definition LengthDelimitedSize :: "nat \<Rightarrow> int" where
  "LengthDelimitedSize n = VarintSize32 (of_nat n) + int n"

fun value_size :: "field_value \<Rightarrow> int" where
  "value_size (VInt32 v) = VarintSize32SignExtended v"
| "value_size (VInt64 v) = VarintSize64 v"
| "value_size (VUInt32 v) = VarintSize32 v"
| "value_size (VUInt64 v) = VarintSize64 v"
| "value_size (VSInt32 v) = VarintSize32 (ZigZagEncode32 v)"
| "value_size (VSInt64 v) = VarintSize64 (ZigZagEncode64 v)"
| "value_size (VFixed32 v) = 4"
| "value_size (VFixed64 v) = 8"
| "value_size (VSFixed32 v) = 4"
| "value_size (VSFixed64 v) = 8"
| "value_size (VFloat v) = 4"
| "value_size (VDouble v) = 8"
| "value_size (VBool b) = 1"
| "value_size (VEnum v) = VarintSize32SignExtended v"
| "value_size (VString s) = LengthDelimitedSize (length s)"
| "value_size (VBytes s) = LengthDelimitedSize (length s)"

section \<open>Reading values\<close>

text \<open>The specialisations of \<open>ReadPrimitive\<close>; the value is absent when the read fails. Other types have none.\<close>

definition read_as :: "('a \<Rightarrow> field_value) \<Rightarrow> (bool \<times> 'a \<times> coded_input) option \<Rightarrow> (field_value option \<times> coded_input) option" where
  "read_as f r = map_option (\<lambda>(ok, v, st). (if ok then Some (f v) else None, st)) r"

fun ReadPrimitive :: "pb_type \<Rightarrow> coded_input \<Rightarrow> (field_value option \<times> coded_input) option" where
  "ReadPrimitive TYPE_INT32 st = read_as VInt32 (ReadVarint32 st)"
| "ReadPrimitive TYPE_INT64 st = read_as VInt64 (ReadVarint64 st)"
| "ReadPrimitive TYPE_UINT32 st = read_as VUInt32 (ReadVarint32 st)"
| "ReadPrimitive TYPE_UINT64 st = read_as VUInt64 (ReadVarint64 st)"
| "ReadPrimitive TYPE_SINT32 st = read_as (\<lambda>v. VSInt32 (ZigZagDecode32 v)) (ReadVarint32 st)"
| "ReadPrimitive TYPE_SINT64 st = read_as (\<lambda>v. VSInt64 (ZigZagDecode64 v)) (ReadVarint64 st)"
| "ReadPrimitive TYPE_FIXED32 st = read_as VFixed32 (ReadLittleEndian32 st)"
| "ReadPrimitive TYPE_FIXED64 st = read_as VFixed64 (ReadLittleEndian64 st)"
| "ReadPrimitive TYPE_SFIXED32 st = read_as VSFixed32 (ReadLittleEndian32 st)"
| "ReadPrimitive TYPE_SFIXED64 st = read_as VSFixed64 (ReadLittleEndian64 st)"
| "ReadPrimitive TYPE_FLOAT st = read_as VFloat (ReadLittleEndian32 st)"
| "ReadPrimitive TYPE_DOUBLE st = read_as VDouble (ReadLittleEndian64 st)"
| "ReadPrimitive TYPE_BOOL st = read_as (\<lambda>v. VBool (v \<noteq> 0)) (ReadVarint64 st)"
| "ReadPrimitive TYPE_ENUM st = read_as VEnum (ReadVarint32 st)"
| "ReadPrimitive TYPE_STRING st = None"
| "ReadPrimitive TYPE_BYTES st = None"
| "ReadPrimitive TYPE_GROUP st = None"
| "ReadPrimitive TYPE_MESSAGE st = None"

text \<open>\<open>ReadString\<close> and \<open>ReadBytes\<close>: the length is converted to \<open>int\<close>.\<close>

definition ReadBytes :: "(byte list \<Rightarrow> field_value) \<Rightarrow> coded_input \<Rightarrow> (field_value option \<times> coded_input) option" where
  "ReadBytes f st = do {
     (ok, n, st) \<leftarrow> ReadVarint32 st;
     if ok then read_as f (ReadString (sint n) st) else Some (None, st)
   }"

text \<open>
  \<open>ReadPackedPrimitive\<close>: values up to a limit. Its loop is \<open>None\<close> also if it never ends. The values
  go to the end of the repeated field.
\<close>

partial_function (option) packed_loop ::
  "pb_type \<Rightarrow> coded_input \<Rightarrow> field_value list \<Rightarrow> (bool \<times> field_value list \<times> coded_input) option" where
  "packed_loop t st vs =
     (if 0 < BytesUntilLimit st
      then do {
        (v, st) \<leftarrow> ReadPrimitive t st;
        case v of None \<Rightarrow> Some (False, vs, st) | Some v \<Rightarrow> packed_loop t st (vs @ [v])
      }
      else Some (True, vs, st))"

definition ReadPackedPrimitive ::
  "pb_type \<Rightarrow> coded_input \<Rightarrow> field_value list \<Rightarrow> (bool \<times> field_value list \<times> coded_input) option" where
  "ReadPackedPrimitive t st vs = do {
     (ok, n, st) \<leftarrow> ReadVarint32 st;
     if ok then do {
       let (limit, st) = PushLimit (sint n) st;
       (ok, vs, st) \<leftarrow> packed_loop t st vs;
       Some (ok, vs, if ok then PopLimit limit st else st)
     }
     else Some (False, vs, st)
   }"

text \<open>\<open>ReadPackedEnumNoInline\<close>, which drops the values that are not valid.\<close>

partial_function (option) packed_enum_loop ::
  "(uint32 \<Rightarrow> bool) \<Rightarrow> coded_input \<Rightarrow> uint32 list \<Rightarrow> (bool \<times> uint32 list \<times> coded_input) option" where
  "packed_enum_loop is_valid st vs =
     (if 0 < BytesUntilLimit st
      then do {
        (ok, v, st) \<leftarrow> ReadVarint32 st;
        if ok then packed_enum_loop is_valid st (if is_valid v then vs @ [v] else vs) else Some (False, vs, st)
      }
      else Some (True, vs, st))"

definition ReadPackedEnumNoInline ::
  "(uint32 \<Rightarrow> bool) \<Rightarrow> coded_input \<Rightarrow> uint32 list \<Rightarrow> (bool \<times> uint32 list \<times> coded_input) option" where
  "ReadPackedEnumNoInline is_valid st vs = do {
     (ok, n, st) \<leftarrow> ReadVarint32 st;
     if ok then do {
       let (limit, st) = PushLimit (sint n) st;
       (ok, vs, st) \<leftarrow> packed_enum_loop is_valid st vs;
       Some (ok, vs, if ok then PopLimit limit st else st)
     }
     else Some (False, vs, st)
   }"

section \<open>Skipping\<close>

text \<open>
  \<open>SkipField\<close> with the function that skips the fields of a group, and \<open>SkipMessage\<close>, which it stands for.
  A group that fails leaves the recursion depth as it is.
\<close>

definition succeeds :: "(bool \<times> 'a \<times> coded_input) option \<Rightarrow> (bool \<times> coded_input) option" where
  "succeeds r = map_option (\<lambda>(ok, v, st). (ok, st)) r"

definition skip_field ::
  "(coded_input \<Rightarrow> (bool \<times> coded_input) option) \<Rightarrow> uint32 \<Rightarrow> coded_input \<Rightarrow> (bool \<times> coded_input) option" where
  "skip_field skip_message tag st =
     (case GetTagWireType tag of
        Some WIRETYPE_VARINT \<Rightarrow> succeeds (ReadVarint64 st)
      | Some WIRETYPE_FIXED64 \<Rightarrow> succeeds (ReadLittleEndian64 st)
      | Some WIRETYPE_LENGTH_DELIMITED \<Rightarrow> do {
          (ok, n, st) \<leftarrow> ReadVarint32 st;
          if ok then Skip (sint n) st else Some (False, st)
        }
      | Some WIRETYPE_START_GROUP \<Rightarrow>
          (let (ok, st) = IncrementRecursionDepth st in
           if ok then do {
             (ok, st) \<leftarrow> skip_message st;
             if ok
             then (let st = DecrementRecursionDepth st in
                   Some (LastTagWas (MakeTag (GetTagFieldNumber tag) WIRETYPE_END_GROUP) st, st))
             else Some (False, st)
           }
           else Some (False, st))
      | Some WIRETYPE_END_GROUP \<Rightarrow> Some (False, st)
      | Some WIRETYPE_FIXED32 \<Rightarrow> succeeds (ReadLittleEndian32 st)
      | None \<Rightarrow> Some (False, st))"

lemma skip_field_mono [partial_function_mono]:
  "monotone (fun_ord option_ord) option_ord (\<lambda>f. skip_field (\<lambda>st. B f st) tag st)"
  if "\<And>st. monotone (fun_ord option_ord) option_ord (\<lambda>f. B f st)"
  unfolding skip_field_def
  by (cases "GetTagWireType tag"; cases "the (GetTagWireType tag)"; cases "IncrementRecursionDepth st"; cases "fst (IncrementRecursionDepth st)")
    (auto intro!: bind_mono option.const_mono that)

partial_function (option) SkipMessage :: "coded_input \<Rightarrow> (bool \<times> coded_input) option" where
  "SkipMessage st = do {
     (tag, st) \<leftarrow> ReadTag st;
     if tag = 0 then Some (True, st)
     else if GetTagWireType tag = Some WIRETYPE_END_GROUP then Some (True, st)
     else do {
       (ok, st) \<leftarrow> skip_field SkipMessage tag st;
       if ok then SkipMessage st else Some (False, st)
     }
   }"

definition SkipField :: "uint32 \<Rightarrow> coded_input \<Rightarrow> (bool \<times> coded_input) option" where
  "SkipField = skip_field SkipMessage"

text \<open>
  The versions that record what they skip: \<open>out\<close> is what has been written, and \<open>room\<close> tells how much space
  the output stream has in its buffer after so many bytes.
\<close>

definition emit32 :: "(nat \<Rightarrow> nat) \<Rightarrow> uint32 \<Rightarrow> byte list \<Rightarrow> byte list" where
  "emit32 room v out = out @ WriteVarint32 (room (length out)) v"

definition emit64 :: "(nat \<Rightarrow> nat) \<Rightarrow> uint64 \<Rightarrow> byte list \<Rightarrow> byte list" where
  "emit64 room v out = out @ WriteVarint64 (room (length out)) v"

definition skip_field_to ::
  "(byte list \<Rightarrow> coded_input \<Rightarrow> (bool \<times> byte list \<times> coded_input) option) \<Rightarrow> (nat \<Rightarrow> nat) \<Rightarrow> uint32 \<Rightarrow> byte list \<Rightarrow> coded_input \<Rightarrow>
   (bool \<times> byte list \<times> coded_input) option" where
  "skip_field_to skip_message room tag out st =
     (case GetTagWireType tag of
        Some WIRETYPE_VARINT \<Rightarrow> do {
          (ok, v, st) \<leftarrow> ReadVarint64 st;
          Some (ok, if ok then emit64 room v (emit32 room tag out) else out, st)
        }
      | Some WIRETYPE_FIXED64 \<Rightarrow> do {
          (ok, v, st) \<leftarrow> ReadLittleEndian64 st;
          Some (ok, if ok then emit32 room tag out @ WriteLittleEndian64 v else out, st)
        }
      | Some WIRETYPE_LENGTH_DELIMITED \<Rightarrow> do {
          (ok, n, st) \<leftarrow> ReadVarint32 st;
          if ok then do {
            let out = emit32 room n (emit32 room tag out);
            (ok, temp, st) \<leftarrow> ReadString (sint n) st;
            Some (ok, if ok then out @ temp else out, st)
          }
          else Some (False, out, st)
        }
      | Some WIRETYPE_START_GROUP \<Rightarrow>
          (let out = emit32 room tag out; (ok, st) = IncrementRecursionDepth st in
           if ok then do {
             (ok, out, st) \<leftarrow> skip_message out st;
             if ok
             then (let st = DecrementRecursionDepth st in
                   Some (LastTagWas (MakeTag (GetTagFieldNumber tag) WIRETYPE_END_GROUP) st, out, st))
             else Some (False, out, st)
           }
           else Some (False, out, st))
      | Some WIRETYPE_END_GROUP \<Rightarrow> Some (False, out, st)
      | Some WIRETYPE_FIXED32 \<Rightarrow> do {
          (ok, v, st) \<leftarrow> ReadLittleEndian32 st;
          Some (ok, if ok then emit32 room tag out @ WriteLittleEndian32 v else out, st)
        }
      | None \<Rightarrow> Some (False, out, st))"

lemma skip_field_to_mono [partial_function_mono]:
  "monotone (fun_ord option_ord) option_ord (\<lambda>f. skip_field_to (\<lambda>out st. B f out st) room tag out st)"
  if "\<And>out st. monotone (fun_ord option_ord) option_ord (\<lambda>f. B f out st)"
  unfolding skip_field_to_def
  by (cases "GetTagWireType tag"; cases "the (GetTagWireType tag)"; cases "IncrementRecursionDepth st"; cases "fst (IncrementRecursionDepth st)")
    (auto intro!: bind_mono option.const_mono that)

partial_function (option) SkipMessageTo ::
  "(nat \<Rightarrow> nat) \<Rightarrow> byte list \<Rightarrow> coded_input \<Rightarrow> (bool \<times> byte list \<times> coded_input) option" where
  "SkipMessageTo room out st = do {
     (tag, st) \<leftarrow> ReadTag st;
     if tag = 0 then Some (True, out, st)
     else if GetTagWireType tag = Some WIRETYPE_END_GROUP then Some (True, emit32 room tag out, st)
     else do {
       (ok, out, st) \<leftarrow> skip_field_to (SkipMessageTo room) room tag out st;
       if ok then SkipMessageTo room out st else Some (False, out, st)
     }
   }"

definition SkipFieldTo :: "(nat \<Rightarrow> nat) \<Rightarrow> uint32 \<Rightarrow> byte list \<Rightarrow> coded_input \<Rightarrow> (bool \<times> byte list \<times> coded_input) option" where
  "SkipFieldTo room = skip_field_to (SkipMessageTo room) room"

text \<open>\<open>CodedOutputStreamFieldSkipper::SkipUnknownEnum\<close>; the value is extended to 64 bits.\<close>

definition SkipUnknownEnum :: "(nat \<Rightarrow> nat) \<Rightarrow> int \<Rightarrow> uint32 \<Rightarrow> byte list \<Rightarrow> byte list" where
  "SkipUnknownEnum room field_number value out = emit64 room (scast value) (emit32 room (word_of_int field_number) out)"

section \<open>Packed fields of a fixed size\<close>

text \<open>
  \<open>ReadPackedFixedSizePrimitive\<close>: the bytes are copied into the repeated field at once when the limits allow
  so many, and read one value after the other otherwise. \<open>sizeof\<close> is the size of a value.
\<close>

definition sizeof :: "pb_type \<Rightarrow> nat" where
  "sizeof t = (if t \<in> {TYPE_FIXED64, TYPE_SFIXED64, TYPE_DOUBLE} then 8 else 4)"

fun fixed_value :: "pb_type \<Rightarrow> byte list \<Rightarrow> field_value" where
  "fixed_value TYPE_FIXED32 bs = VFixed32 (word_of_int (le_val bs))"
| "fixed_value TYPE_SFIXED32 bs = VSFixed32 (word_of_int (le_val bs))"
| "fixed_value TYPE_FLOAT bs = VFloat (word_of_int (le_val bs))"
| "fixed_value TYPE_FIXED64 bs = VFixed64 (word_of_int (le_val bs))"
| "fixed_value TYPE_SFIXED64 bs = VSFixed64 (word_of_int (le_val bs))"
| "fixed_value _ bs = VDouble (word_of_int (le_val bs))"

fun packed_elements :: "pb_type \<Rightarrow> nat \<Rightarrow> byte list \<Rightarrow> field_value list" where
  "packed_elements t 0 bs = []"
| "packed_elements t (Suc n) bs = fixed_value t (take (sizeof t) bs) # packed_elements t n (drop (sizeof t) bs)"

fun read_each :: "pb_type \<Rightarrow> nat \<Rightarrow> coded_input \<Rightarrow> field_value list \<Rightarrow> (bool \<times> field_value list \<times> coded_input) option" where
  "read_each t 0 st vs = Some (True, vs, st)"
| "read_each t (Suc n) st vs = do {
     (v, st) \<leftarrow> ReadPrimitive t st;
     case v of None \<Rightarrow> Some (False, vs, st) | Some v \<Rightarrow> read_each t n st (vs @ [v])
   }"

definition ReadPackedFixedSizePrimitive ::
  "pb_type \<Rightarrow> coded_input \<Rightarrow> field_value list \<Rightarrow> (bool \<times> field_value list \<times> coded_input) option" where
  "ReadPackedFixedSizePrimitive t st vs = do {
     (ok, n, st) \<leftarrow> ReadVarint32 st;
     if ok then
       (let new_entries = unat n div sizeof t; new_bytes = new_entries * sizeof t in
        if new_bytes \<noteq> unat n then Some (False, vs, st)
        else
          (let total = BytesUntilTotalBytesLimit st;
               bytes_limit = (if total = -1 then BytesUntilLimit st else min total (BytesUntilLimit st)) in
           if int new_bytes \<le> bytes_limit
           then do {
             (ok, bs, st) \<leftarrow> ReadRaw new_bytes st;
             Some (ok, if ok then vs @ packed_elements t new_entries bs else vs, st)
           }
           else read_each t new_entries st vs))
     else Some (False, vs, st)
   }"

text \<open>The specialisations of \<open>ReadPackedPrimitive\<close> for the types of a fixed size.\<close>

definition fixed_type :: "pb_type \<Rightarrow> bool" where
  "fixed_type t \<longleftrightarrow> t \<in> {TYPE_FIXED32, TYPE_FIXED64, TYPE_SFIXED32, TYPE_SFIXED64, TYPE_FLOAT, TYPE_DOUBLE}"

definition read_packed :: "pb_type \<Rightarrow> coded_input \<Rightarrow> field_value list \<Rightarrow> (bool \<times> field_value list \<times> coded_input) option" where
  "read_packed t st vs = (if fixed_type t then ReadPackedFixedSizePrimitive t st vs else ReadPackedPrimitive t st vs)"

end
