(* ===== verification/Pb_Coded_Spec.thy ===== *)
theory Pb_Coded_Spec
  imports Pb_Coded
begin

text \<open>
  The coded streams against a reference: \<open>varint\<close> and \<open>unvarint\<close> are the variable-length encoding of
  a number and its reading. Every optimised writer writes \<open>varint\<close>, every size is its length, and every
  reader, with and without checks, reads \<open>unvarint\<close> of the bytes up to the limit, whatever they are.
\<close>

section \<open>The encoding\<close>

fun varint :: "nat \<Rightarrow> byte list" where
  "varint n = (if n < 128 then [of_nat n] else of_nat (n mod 128 + 128) # varint (n div 128))"

declare varint.simps [simp del]

text \<open>The number and the bytes it takes, of at most so many.\<close>

fun unvarint :: "nat \<Rightarrow> byte list \<Rightarrow> (nat \<times> nat) option" where
  "unvarint 0 bs = None"
| "unvarint (Suc m) [] = None"
| "unvarint (Suc m) (b # bs) =
     (if unat b < 128 then Some (unat b, 1)
      else map_option (\<lambda>(n, k). (unat b - 128 + 128 * n, Suc k)) (unvarint m bs))"

lemma varint_digits:
  "n < 128 ^ Suc k \<Longrightarrow> k = 0 \<or> 128 ^ k \<le> n \<Longrightarrow>
   varint n = map (\<lambda>i. of_nat (n div 128 ^ i mod 128 + 128)) [0..<k] @ [of_nat (n div 128 ^ k)]"
proof (induction k arbitrary: n)
  case (Suc k)
  have "n div 128 < 128 ^ Suc k" "k = 0 \<or> 128 ^ k \<le> n div 128"
    using Suc.prems by (auto simp: less_eq_div_iff_mult_less_eq div_less_iff_less_mult algebra_simps)
  then have "varint (n div 128) = map (\<lambda>i. of_nat (n div 128 div 128 ^ i mod 128 + 128)) [0..<k] @ [of_nat (n div 128 div 128 ^ k)]"
    by (rule Suc.IH)
  moreover have "128 \<le> n" using Suc.prems order_trans [of 128 "128 ^ Suc k" n] by simp
  ultimately show ?case
    by (subst varint.simps) (simp add: upt_conv_Cons map_Suc_upt [symmetric] div_mult2_eq [symmetric] del: upt_Suc map_Suc_upt)
qed (simp add: varint.simps)

lemma length_varint: "n < 128 ^ Suc k \<Longrightarrow> k = 0 \<or> 128 ^ k \<le> n \<Longrightarrow> length (varint n) = Suc k"
  by (simp add: varint_digits)

lemma unat_byte: "n < 256 \<Longrightarrow> unat (of_nat n :: byte) = n"
  by (simp add: unat_of_nat)

lemma unvarint_varint: "n < 128 ^ m \<Longrightarrow> 0 < m \<Longrightarrow> unvarint m (varint n @ rest) = Some (n, length (varint n))"
proof (induction m arbitrary: n)
  case (Suc m)
  show ?case
  proof (cases "n < 128")
    case False
    have "n div 128 < 128 ^ m" "0 < m" using Suc.prems False by (cases m; simp add: div_less_iff_less_mult algebra_simps)+
    then have "unvarint m (varint (n div 128) @ rest) = Some (n div 128, length (varint (n div 128)))" by (rule Suc.IH)
    moreover have "unat (of_nat (n mod 128 + 128) :: byte) = n mod 128 + 128" by (rule unat_byte) simp
    ultimately show ?thesis using False by (subst (1 2) varint.simps) (simp add: mult.commute)
  qed (subst (1 2) varint.simps, simp add: unat_byte)
qed simp

section \<open>Bytes\<close>

lemma take_seven: "of_nat (unat w mod 128) = take_bit 7 (ucast w :: byte)" for w :: "'a::len word"
proof -
  have "unat w mod 128 = take_bit 7 (unat w)" by (simp add: take_bit_eq_mod)
  then show ?thesis by (simp only:) (rule bit_word_eqI, auto simp: bit_simps)
qed

lemma low_seven: "(ucast w AND 0x7F :: byte) = of_nat (unat w mod 128)" for w :: "'a::len word"
proof -
  have "(0x7F :: byte) = mask 7" by (simp add: mask_eq_exp_minus_1)
  then show ?thesis by (simp only: take_seven take_bit_eq_mask)
qed

lemma high_bit: "x OR 0x80 = take_bit 7 x + 128" for x :: byte
proof -
  have "x OR 0x80 = take_bit 7 x OR 0x80"
    by (rule bit_word_eqI) (auto simp: bit_simps bit_numeral_rec less_Suc_eq numeral_eq_Suc)
  also have "\<dots> = take_bit 7 x + 0x80"
    by (rule disjunctive_add_eq_or [symmetric]) (rule bit_word_eqI, auto simp: bit_simps bit_numeral_rec numeral_eq_Suc less_Suc_eq)
  finally show ?thesis by simp
qed

lemma unat_drop: "unat (drop_bit j v) = unat v div 2 ^ j"
  by (simp add: unat_eq_nat_uint uint_drop nat_div_distrib nat_power_eq del: nat_uint_eq)

lemma more_byte_law: "more_byte j v = of_nat (unat v div 2 ^ j mod 128 + 128)"
  unfolding more_byte_def unsigned_or_eq
  by (simp add: high_bit take_seven [symmetric] unat_drop)

lemma last_byte_law: "more_byte j v AND 0x7F = of_nat (unat v div 2 ^ j mod 128)"
proof -
  have "unat (more_byte j v) = unat v div 2 ^ j mod 128 + 128" unfolding more_byte_law by (rule unat_byte) simp
  then show ?thesis using low_seven [of "more_byte j v"] by (simp only: ucast_id) simp
qed

section \<open>Writing\<close>

lemma compose_law: "compose v = varint (unat v)"
proof (induction v rule: compose.induct)
  case (1 v)
  have "uint v > 0x7F \<longleftrightarrow> \<not> unat v < 128" by (simp only: uint_nat) linarith
  then show ?case using 1
    by (subst compose.simps, subst varint.simps)
      (auto simp: low_seven take_seven high_bit unat_drop)
qed

lemma small_byte: "(ucast v :: byte) = of_nat (unat v)" for v :: "'a::len word"
  by (simp only: of_nat_unat)

lemma word_bounds:
  "v < 2 ^ k \<longleftrightarrow> unat v < 2 ^ k" "2 ^ k \<le> v \<longleftrightarrow> 2 ^ k \<le> unat v" if "k < LENGTH('a)" for v :: "'a::len word"
proof -
  have "unat (of_nat (2 ^ k) :: 'a word) = 2 ^ k" using that by (simp only: unat_of_nat) simp
  then show "v < 2 ^ k \<longleftrightarrow> unat v < 2 ^ k" "2 ^ k \<le> v \<longleftrightarrow> 2 ^ k \<le> unat v"
    by (simp_all add: word_less_nat_alt word_le_nat_alt)
qed

text \<open>How many bytes a number takes.\<close>

lemma varint_one: "n < 128 \<Longrightarrow> varint n = [of_nat n]"
  by (simp add: varint.simps)

lemma Fallback32_law: "WriteVarint32FallbackToArrayInline v = varint (unat v)"
proof -
  define n where "n = unat v"
  have top: "n < 2 ^ 32" using unsigned_less [of v] by (simp add: n_def)
  have b: "2 ^ 7 \<le> v \<longleftrightarrow> 128 \<le> n" "2 ^ 14 \<le> v \<longleftrightarrow> 128 ^ 2 \<le> n" "2 ^ 21 \<le> v \<longleftrightarrow> 128 ^ 3 \<le> n" "2 ^ 28 \<le> v \<longleftrightarrow> 128 ^ 4 \<le> n"
    using word_bounds(2) [of 7 v] word_bounds(2) [of 14 v] word_bounds(2) [of 21 v] word_bounds(2) [of 28 v] by (simp_all add: n_def)
  have last: "(ucast (drop_bit 28 v) :: byte) = of_nat (n div 128 ^ 4)" by (simp only: small_byte unat_drop n_def) simp
  consider "n < 128" | "128 \<le> n" "n < 128 ^ 2" | "128 ^ 2 \<le> n" "n < 128 ^ 3" | "128 ^ 3 \<le> n" "n < 128 ^ 4" | "128 ^ 4 \<le> n"
    by linarith
  then show ?thesis
  proof cases
    case 1
    then have "WriteVarint32FallbackToArrayInline v = [more_byte 0 v AND 0x7F]"
      using b by (simp add: WriteVarint32FallbackToArrayInline_def)
    then show ?thesis using 1 unfolding last_byte_law by (simp add: varint_one n_def)
  next
    case 2
    then have "WriteVarint32FallbackToArrayInline v = [more_byte 0 v, more_byte 7 v AND 0x7F]"
      using b by (simp add: WriteVarint32FallbackToArrayInline_def)
    then show ?thesis using varint_digits [of n 1] 2 unfolding last_byte_law unfolding more_byte_law by (simp add: n_def)
  next
    case 3
    then have "WriteVarint32FallbackToArrayInline v = [more_byte 0 v, more_byte 7 v, more_byte 14 v AND 0x7F]"
      using b by (simp add: WriteVarint32FallbackToArrayInline_def)
    then show ?thesis using varint_digits [of n 2] 3 unfolding last_byte_law unfolding more_byte_law
      by (simp add: n_def upt_rec)
  next
    case 4
    then have "WriteVarint32FallbackToArrayInline v = [more_byte 0 v, more_byte 7 v, more_byte 14 v, more_byte 21 v AND 0x7F]"
      using b by (simp add: WriteVarint32FallbackToArrayInline_def)
    then show ?thesis using varint_digits [of n 3] 4 unfolding last_byte_law unfolding more_byte_law
      by (simp add: n_def upt_rec)
  next
    case 5
    then have "WriteVarint32FallbackToArrayInline v = [more_byte 0 v, more_byte 7 v, more_byte 14 v, more_byte 21 v, of_nat (n div 128 ^ 4)]"
      using b last by (simp add: WriteVarint32FallbackToArrayInline_def)
    then show ?thesis using varint_digits [of n 4] 5 top unfolding more_byte_law
      by (simp add: n_def upt_rec)
  qed
qed

lemma mod_div_mod: "j + 7 \<le> k \<Longrightarrow> n mod 2 ^ k div 2 ^ j mod 128 = n div 2 ^ j mod (128 :: nat)"
proof -
  assume "j + 7 \<le> k"
  then have "take_bit 7 (drop_bit j (take_bit k n)) = take_bit 7 (drop_bit j n)"
    by (auto simp: bit_eq_iff bit_simps)
  then show ?thesis by (simp add: take_bit_eq_mod drop_bit_eq_div)
qed

lemma unat_part: "unat (ucast v :: uint32) = unat v mod 2 ^ 32" for v :: uint64
  by (simp add: unsigned_ucast_eq take_bit_eq_mod)

text \<open>The size found in the tree of comparisons.\<close>

lemma varint64_size_law:
  fixes v :: uint64
  defines "n \<equiv> unat v" and "k \<equiv> varint64_size (ucast v) (ucast (drop_bit 28 v)) (ucast (drop_bit 56 v))"
  shows "1 \<le> k" "k \<le> 10" "n < 128 ^ k" "k = 1 \<or> 128 ^ (k - 1) \<le> n"
proof -
  have top: "n < 2 ^ 64" using unsigned_less [of v] by (simp add: n_def)
  have part2: "unat (ucast (drop_bit 56 v) :: uint32) = n div 2 ^ 56"
    using top by (simp add: unat_part unat_drop n_def)
  have part1: "unat (ucast (drop_bit 28 v) :: uint32) = n div 2 ^ 28 mod 2 ^ 32" by (simp add: unat_part unat_drop n_def)
  have part0: "unat (ucast v :: uint32) = n mod 2 ^ 32" by (simp add: unat_part n_def)
  have lt: "x < 2 ^ j \<longleftrightarrow> unat x < 2 ^ j" if "j < 32" for x :: uint32 and j using word_bounds(1) [of j x] that by simp
  have k: "k =
     (if n div 2 ^ 56 = 0 then
        if n div 2 ^ 28 mod 2 ^ 32 = 0 then
          if n mod 2 ^ 32 < 2 ^ 14 then (if n mod 2 ^ 32 < 2 ^ 7 then 1 else 2) else (if n mod 2 ^ 32 < 2 ^ 21 then 3 else 4)
        else
          if n div 2 ^ 28 mod 2 ^ 32 < 2 ^ 14 then (if n div 2 ^ 28 mod 2 ^ 32 < 2 ^ 7 then 5 else 6)
          else (if n div 2 ^ 28 mod 2 ^ 32 < 2 ^ 21 then 7 else 8)
      else if n div 2 ^ 56 < 2 ^ 7 then 9 else 10)"
    unfolding k_def varint64_size_def unat_eq_zero [symmetric] by (simp only: lt part0 part1 part2)
  have chain: "k = (if n < 128 ^ 1 then 1 else if n < 128 ^ 2 then 2 else if n < 128 ^ 3 then 3 else if n < 128 ^ 4 then 4
      else if n < 128 ^ 5 then 5 else if n < 128 ^ 6 then 6 else if n < 128 ^ 7 then 7 else if n < 128 ^ 8 then 8
      else if n < 128 ^ 9 then 9 else 10)"
  proof (cases "n < 2 ^ 28")
    case True
    then have "n div 2 ^ 56 = 0" "n div 2 ^ 28 mod 2 ^ 32 = 0" "n mod 2 ^ 32 = n" by simp_all
    then show ?thesis using True unfolding k by simp
  next
    case False
    show ?thesis
    proof (cases "n < 2 ^ 56")
      case True
      then have "n div 2 ^ 56 = 0" "n div 2 ^ 28 mod 2 ^ 32 = n div 2 ^ 28" by (simp_all add: div_less_iff_less_mult)
      then show ?thesis using True False unfolding k by (simp add: div_less_iff_less_mult)
    next
      case False
      then show ?thesis unfolding k by (simp add: div_less_iff_less_mult)
    qed
  qed
  show "1 \<le> k" "k \<le> 10" "n < 128 ^ k" "k = 1 \<or> 128 ^ (k - 1) \<le> n" unfolding chain using top by simp_all
qed

lemma Inline64_law: "WriteVarint64ToArrayInline v = varint (unat v)"
proof -
  define n where "n = unat v"
  define k where "k = varint64_size (ucast v) (ucast (drop_bit 28 v)) (ucast (drop_bit 56 v))"
  define D where "D = (\<lambda>i. of_nat (n div 128 ^ i mod 128 + 128) :: byte)"
  note size = varint64_size_law [of v, folded n_def k_def]
  have p0: "unat (ucast v :: uint32) div 2 ^ j mod 128 = n div 2 ^ j mod 128" if "j \<le> 21" for j
    using that mod_div_mod [of j 32 n] by (simp add: unat_part n_def)
  have p1: "unat (ucast (drop_bit 28 v) :: uint32) div 2 ^ j mod 128 = n div 2 ^ (28 + j) mod 128" if "j \<le> 21" for j
    using that mod_div_mod [of j 32 "n div 2 ^ 28"] by (simp add: unat_part unat_drop n_def power_add div_mult2_eq)
  have p2: "unat (ucast (drop_bit 56 v) :: uint32) div 2 ^ j mod 128 = n div 2 ^ (56 + j) mod 128" if "j \<le> 21" for j
    using that mod_div_mod [of j 32 "n div 2 ^ 56"] by (simp add: unat_part unat_drop n_def power_add div_mult2_eq)
  have bytes: "[more_byte 0 (ucast v), more_byte 7 (ucast v), more_byte 14 (ucast v), more_byte 21 (ucast v),
      more_byte 0 (ucast (drop_bit 28 v)), more_byte 7 (ucast (drop_bit 28 v)), more_byte 14 (ucast (drop_bit 28 v)),
      more_byte 21 (ucast (drop_bit 28 v)), more_byte 0 (ucast (drop_bit 56 v)), more_byte 7 (ucast (drop_bit 56 v))] =
    map D [0..<10]"
  proof -
    have "[0..<10] = [0, 1, 2, 3, 4, 5, 6, 7, 8, 9]" by (simp add: upt_rec)
    moreover note p0 [of 0] p0 [of 7] p0 [of 14] p0 [of 21] p1 [of 0] p1 [of 7] p1 [of 14] p1 [of 21] p2 [of 0] p2 [of 7]
    ultimately show ?thesis unfolding more_byte_law by (simp add: D_def)
  qed
  have low: "D i AND 0x7F = of_nat (n div 128 ^ i mod 128)" for i
    using low_seven [of "D i"] unat_byte [of "n div 128 ^ i mod 128 + 128"] unfolding D_def by simp
  obtain m where m: "k = Suc m" using size(1) by (cases k) auto
  have "take k (map D [0..<10]) = map D [0..<k]" using size(2) by (simp add: take_map take_upt)
  then have "WriteVarint64ToArrayInline v = (map D [0..<k]) [k - 1 := D (k - 1) AND 0x7F]"
    using size(1) unfolding WriteVarint64ToArrayInline_def Let_def bytes k_def [symmetric] by simp
  also have "\<dots> = map D [0..<m] @ [of_nat (n div 128 ^ m mod 128)]" unfolding low by (simp add: m list_update_append)
  also have "n div 128 ^ m mod 128 = n div 128 ^ m" using size(3) by (simp add: m div_less_iff_less_mult mult.commute)
  also have "map D [0..<m] @ [of_nat (n div 128 ^ m)] = varint n"
    using varint_digits [of n m] size(3,4) by (simp add: m D_def)
  finally show ?thesis by (simp add: n_def)
qed

lemma writers_varint:
  "WriteVarint32 room v = varint (unat v)" "WriteVarint32ToArray v = varint (unat v)" "WriteTagToArray v = varint (unat v)"
  "WriteVarint64 room u = varint (unat u)"
proof -
  show "WriteVarint32 room v = varint (unat v)" "WriteVarint64 room u = varint (unat u)"
    by (simp_all add: WriteVarint32_def WriteVarint64_def Fallback32_law Inline64_law compose_law)
  have small: "v < 2 ^ 7 \<longleftrightarrow> unat v < 128" using word_bounds(1) [of 7 v] by simp
  show "WriteVarint32ToArray v = varint (unat v)"
    using small by (simp add: WriteVarint32ToArray_def Fallback32_law varint_one)
  have mid: "v < 2 ^ 14 \<longleftrightarrow> unat v < 16384" using word_bounds(1) [of 14 v] by simp
  have "[ucast (v OR 0x80) :: byte, ucast (drop_bit 7 v)] = varint (unat v)" if "unat v < 16384" "\<not> unat v < 128"
  proof -
    have "(ucast (v OR 0x80) :: byte) = of_nat (unat v mod 128 + 128)" using more_byte_law [of 0 v] by (simp add: more_byte_def)
    moreover have "(ucast (drop_bit 7 v) :: byte) = of_nat (unat v div 128)" by (simp only: small_byte unat_drop) simp
    ultimately show ?thesis using that varint_digits [of "unat v" 1] by simp
  qed
  then show "WriteTagToArray v = varint (unat v)"
    using small mid by (simp add: WriteTagToArray_def Fallback32_law varint_one)
qed

lemma sizes_varint: "VarintSize32 v = int (length (varint (unat v)))" "VarintSize64 u = int (length (varint (unat u)))"
proof -
  have l: "length (varint n) =
    (if n < 128 ^ 1 then 1 else if n < 128 ^ 2 then 2 else if n < 128 ^ 3 then 3 else if n < 128 ^ 4 then 4
      else if n < 128 ^ 5 then 5 else if n < 128 ^ 6 then 6 else if n < 128 ^ 7 then 7 else if n < 128 ^ 8 then 8
      else if n < 128 ^ 9 then 9 else 10)" if "n < 2 ^ 64" for n
    using that length_varint [of n 0] length_varint [of n 1] length_varint [of n 2] length_varint [of n 3] length_varint [of n 4]
      length_varint [of n 5] length_varint [of n 6] length_varint [of n 7] length_varint [of n 8] length_varint [of n 9]
    by (simp split: if_splits)
  have "unat v < 2 ^ 32" "unat u < 2 ^ 64" using unsigned_less [of v] unsigned_less [of u] by simp_all
  note lengths = this l [of "unat v"] l [of "unat u"]
  have bv: "v < 2 ^ j \<longleftrightarrow> unat v < 2 ^ j" if "j < 32" for j using word_bounds(1) [of j v] that by simp
  have bu: "u < 2 ^ j \<longleftrightarrow> unat u < 2 ^ j" if "j < 64" for j using word_bounds(1) [of j u] that by simp
  have "VarintSize32 v =
    (if unat v < 2 ^ 7 then 1 else if unat v < 2 ^ 14 then 2 else if unat v < 2 ^ 21 then 3 else if unat v < 2 ^ 28 then 4 else 5)"
    unfolding VarintSize32_def by (simp only: bv)
  then show "VarintSize32 v = int (length (varint (unat v)))" using lengths by simp
  have "VarintSize64 u =
     (if unat u < 2 ^ 35 then
        if unat u < 2 ^ 7 then 1 else if unat u < 2 ^ 14 then 2 else if unat u < 2 ^ 21 then 3 else if unat u < 2 ^ 28 then 4 else 5
      else
        if unat u < 2 ^ 42 then 6 else if unat u < 2 ^ 49 then 7 else if unat u < 2 ^ 56 then 8 else if unat u < 2 ^ 63 then 9 else 10)"
    unfolding VarintSize64_def by (simp only: bu)
  then show "VarintSize64 u = int (length (varint (unat u)))" using lengths by simp
qed

section \<open>Reading\<close>

text \<open>The invariant of a flat stream; the array is not longer than the limit of the library.\<close>

definition stream_ok :: "coded_input \<Rightarrow> bool" where
  "stream_ok st \<longleftrightarrow>
     buffer st \<le> buffer_end st \<and> buffer_end st \<le> length (ci_data st) \<and> int (buffer_end st) = current_limit st \<and>
     buffer_size_after_limit st = int (length (ci_data st)) - current_limit st \<and>
     total_bytes_read st = int (length (ci_data st)) \<and> total_bytes_read st \<le> total_bytes_limit st \<and>
     total_bytes_limit st \<le> INT_MAX"

text \<open>The bytes up to the limit.\<close>

definition window :: "coded_input \<Rightarrow> byte list" where
  "window st = take (buffer_end st - buffer st) (drop (buffer st) (ci_data st))"

lemma length_window: "stream_ok st \<Longrightarrow> length (window st) = buffer_end st - buffer st"
  by (auto simp: stream_ok_def window_def)

lemma byte_less: "unat b < 256" for b :: byte
proof -
  have "unat b < 2 ^ LENGTH(8)" by (rule unsigned_less)
  then show ?thesis by simp
qed

lemma window_data: "stream_ok st \<Longrightarrow> \<exists>tail. drop (buffer st) (ci_data st) = window st @ tail"
  unfolding window_def by (metis append_take_drop_id)

lemma msb_bit: "unat b < 128 \<longleftrightarrow> \<not> bit b 7" for b :: byte
proof -
  have "bit b 7 \<longleftrightarrow> bit (unat b) 7" by (simp add: bit_simps)
  also have "\<dots> \<longleftrightarrow> odd (unat b div 128)" by (simp add: bit_iff_odd)
  also have "\<dots> \<longleftrightarrow> 128 \<le> unat b"
  proof -
    have "unat b div 128 < 2" using byte_less [of b] by (simp add: div_less_iff_less_mult)
    then show ?thesis by (cases "unat b < 128") (auto simp: less_2_cases_iff div_eq_0_iff)
  qed
  finally show ?thesis by (simp add: not_le)
qed

lemma msb_clear: "b AND 0x80 = 0 \<longleftrightarrow> unat b < 128" "b < 0x80 \<longleftrightarrow> unat b < 128" for b :: byte
proof -
  show "b AND 0x80 = 0 \<longleftrightarrow> unat b < 128" unfolding msb_bit
  proof
    assume "b AND 0x80 = 0"
    then have "\<not> bit (b AND 0x80) 7" by simp
    then show "\<not> bit b 7" by (simp add: bit_simps bit_numeral_rec numeral_eq_Suc)
  next
    assume "\<not> bit b 7"
    then show "b AND 0x80 = 0"
      by (intro bit_word_eqI) (auto simp: bit_simps bit_numeral_rec numeral_eq_Suc less_Suc_eq)
  qed
  show "b < 0x80 \<longleftrightarrow> unat b < 128" by (simp add: word_less_nat_alt)
qed

text \<open>The number in the first bytes, all of which announce another one.\<close>

fun cont_val :: "nat \<Rightarrow> byte list \<Rightarrow> nat" where
  "cont_val (Suc m) (b # bs) = unat b - 128 + 128 * cont_val m bs"
| "cont_val _ _ = 0"

text \<open>Enough bytes to decide whether a number is there.\<close>

definition decided :: "nat \<Rightarrow> byte list \<Rightarrow> bool" where
  "decided m bs \<longleftrightarrow> unvarint m bs \<noteq> None \<or> m \<le> length bs"

lemma unvarint_append: "decided m bs \<Longrightarrow> unvarint m (bs @ cs) = unvarint m bs"
  by (induction m bs rule: unvarint.induct) (auto simp: decided_def split: if_splits)

lemma unvarint_bounds: "unvarint m bs = Some (n, k) \<Longrightarrow> n < 128 ^ k \<and> 1 \<le> k \<and> k \<le> m \<and> k \<le> length bs"
proof (induction m bs arbitrary: n k rule: unvarint.induct)
  case (3 m b bs)
  show ?case
  proof (cases "unat b < 128")
    case False
    then obtain n' k' where r: "unvarint m bs = Some (n', k')" "n = unat b - 128 + 128 * n'" "k = Suc k'" using 3 by auto
    have "unat b - 128 < 128" using byte_less [of b] by simp
    then show ?thesis using 3(1) [OF False r(1)] r by auto
  qed (use 3 in auto)
qed simp_all

lemma cont_val_bound: "cont_val m bs < 128 ^ m"
proof (induction m bs rule: cont_val.induct)
  case (1 m b bs)
  have "unat b - 128 < 128" using byte_less [of b] by simp
  then show ?case using 1 by simp
qed simp_all

lemma unvarint_more: "unvarint m bs = Some nk \<Longrightarrow> unvarint (m + j) bs = Some nk"
  by (induction m bs arbitrary: nk rule: unvarint.induct) (auto split: if_splits)

lemma unvarint_split:
  "unvarint m bs = None \<Longrightarrow> m \<le> length bs \<Longrightarrow>
   unvarint (m + j) bs = map_option (\<lambda>(n, k). (cont_val m bs + 128 ^ m * n, m + k)) (unvarint j (drop m bs))"
proof (induction m bs rule: unvarint.induct)
  case (3 m b bs)
  then show ?case by (cases "unvarint j (drop m bs)") (auto simp: algebra_simps split: if_splits)
qed (auto simp: option.map_id0)

lemma unvarint_short: "unvarint m bs = None \<Longrightarrow> length bs < m \<Longrightarrow> unvarint (m + j) bs = None"
  by (induction m bs rule: unvarint.induct) (auto split: if_splits)

lemma decided_split:
  assumes "decided (m + j) bs"
  shows "decided m bs" "unvarint m bs = None \<Longrightarrow> decided j (drop m bs)"
proof -
  show m: "decided m bs" using assms unvarint_short [of m bs j] by (fastforce simp: decided_def)
  assume "unvarint m bs = None"
  moreover from this m have "m \<le> length bs" by (simp add: decided_def)
  ultimately show "decided j (drop m bs)" using assms unvarint_split [of m bs j] by (auto simp: decided_def)
qed

fun shifts :: "nat \<Rightarrow> nat \<Rightarrow> nat list" where
  "shifts 0 j = []"
| "shifts (Suc m) j = j # shifts m (j + 7)"

lemma byte_at_drop: "drop ptr (ci_data st) = b # bs \<Longrightarrow> byte_at st ptr = Some b \<and> drop (Suc ptr) (ci_data st) = bs"
  using Cons_nth_drop_Suc [of ptr "ci_data st"] by (cases "ptr < length (ci_data st)") (auto simp: byte_at_def)

lemma read_parts_law:
  "drop ptr (ci_data st) = bs \<Longrightarrow> decided m bs \<Longrightarrow>
   read_parts (shifts m j) st ptr r =
     Some (case unvarint m bs of
         Some (n, k) \<Rightarrow> (True, r + of_nat (2 ^ j * n), ptr + k)
       | None \<Rightarrow> (False, r + of_nat (2 ^ j * cont_val m bs), ptr + m))"
proof (induction m arbitrary: ptr bs j r)
  case (Suc m)
  obtain b cs where bs: "bs = b # cs" using Suc.prems(2) by (cases bs) (auto simp: decided_def)
  note at = byte_at_drop [OF Suc.prems(1) [unfolded bs]]
  have push: "push_bit j (ucast b :: uint32) = of_nat (2 ^ j * unat b)" "push_bit j (0x80 :: uint32) = of_nat (2 ^ j * 128)"
    by (simp_all add: push_bit_eq_mult mult.commute)
  show ?case
  proof (cases "unat b < 128")
    case True
    then show ?thesis using at by (simp add: bs msb_clear push)
  next
    case False
    have dec: "decided m cs" using Suc.prems(2) False by (auto simp: decided_def bs)
    have val: "r + of_nat (2 ^ j * unat b) - of_nat (2 ^ j * 128) + of_nat (2 ^ (j + 7) * n) =
        r + of_nat (2 ^ j * (unat b - 128 + 128 * n))" for n
    proof -
      obtain c where "unat b = 128 + c" using False by (metis le_Suc_ex not_less)
      then show ?thesis by (simp add: power_add algebra_simps)
    qed
    show ?thesis using at False Suc.IH [of "Suc ptr" cs "j + 7" "r + of_nat (2 ^ j * unat b) - of_nat (2 ^ j * 128)", OF _ dec]
      by (cases "unvarint m cs") (auto simp: bs msb_clear push val simp del: of_nat_mult of_nat_add of_nat_power)
  qed
qed simp

lemma skip_bytes_law:
  "drop ptr (ci_data st) = bs \<Longrightarrow> decided m bs \<Longrightarrow>
   skip_bytes m st ptr = Some (map_option (\<lambda>(n, k). ptr + k) (unvarint m bs))"
proof (induction m arbitrary: ptr bs)
  case (Suc m)
  obtain b cs where bs: "bs = b # cs" using Suc.prems(2) by (cases bs) (auto simp: decided_def)
  note at = byte_at_drop [OF Suc.prems(1) [unfolded bs]]
  show ?case
  proof (cases "unat b < 128")
    case False
    have "decided m cs" using Suc.prems(2) False by (auto simp: decided_def bs)
    then show ?thesis using at False Suc.IH [of "Suc ptr" cs] by (cases "unvarint m cs") (auto simp: bs msb_clear)
  qed (use at in \<open>simp add: bs msb_clear\<close>)
qed simp

lemma lost_bits: "(34359738368 :: uint32) * x = 0"
proof -
  have "(34359738368 :: uint32) = 0" by simp
  then show ?thesis by (simp only: mult_zero_left)
qed

lemma FromArray32_law:
  assumes "drop (buffer st) (ci_data st) = bs" "decided 10 bs"
  shows "ReadVarint32FromArray st = Some (map_option (\<lambda>(n, k). (of_nat n, buffer st + k)) (unvarint 10 bs))"
proof -
  have dec: "decided 5 bs" "unvarint 5 bs = None \<Longrightarrow> decided 5 (drop 5 bs)" using decided_split [of 5 5 bs] assms(2) by simp_all
  have sh: "[0, 7, 14, 21, 28] = shifts 5 0" by (simp add: numeral_eq_Suc)
  have parts: "read_parts [0, 7, 14, 21, 28] st (buffer st) 0 =
     Some (case unvarint 5 bs of
         Some (n, k) \<Rightarrow> (True, of_nat n, buffer st + k)
       | None \<Rightarrow> (False, of_nat (cont_val 5 bs), buffer st + 5))"
    unfolding sh read_parts_law [OF assms(1) dec(1)] by (simp split: option.split)
  show ?thesis
  proof (cases "unvarint 5 bs")
    case None
    have "5 \<le> length bs" using None dec(1) by (simp add: decided_def)
    then have ten: "unvarint 10 bs = map_option (\<lambda>(n, k). (cont_val 5 bs + 128 ^ 5 * n, 5 + k)) (unvarint 5 (drop 5 bs))"
      using unvarint_split [OF None, of 5] by simp
    have "skip_bytes 5 st (buffer st + 5) = Some (map_option (\<lambda>(n, k). buffer st + 5 + k) (unvarint 5 (drop 5 bs)))"
      by (rule skip_bytes_law) (use dec(2) [OF None] in \<open>simp_all add: assms(1) [symmetric] add.commute\<close>)
    then show ?thesis using parts None ten
      by (cases "unvarint 5 (drop 5 bs)") (auto simp: lost_bits ReadVarint32FromArray_def kMaxVarintBytes_def kMaxVarint32Bytes_def)
  next
    case (Some nk)
    then have "unvarint 10 bs = Some nk" using unvarint_more [of 5 bs nk 5] by simp
    then show ?thesis using parts Some by (cases nk) (simp add: ReadVarint32FromArray_def)
  qed
qed

text \<open>A part below a power of two and a multiple of it are joined by \<open>OR\<close> as by addition.\<close>

lemma or_shift: "a < 2 ^ i \<Longrightarrow> (of_nat a OR push_bit i w :: 'a::len word) = of_nat a + push_bit i w"
proof -
  assume a: "a < 2 ^ i"
  have "of_nat a AND push_bit i w = (0 :: 'a word)"
  proof (rule bit_word_eqI)
    fix k assume "k < LENGTH('a)"
    have "\<not> bit a k" if "i \<le> k" using that a by (metis bit_take_bit_iff linorder_not_le take_bit_nat_eq_self)
    then show "bit (of_nat a AND push_bit i w :: 'a word) k = bit 0 k" by (auto simp: bit_simps)
  qed
  then show ?thesis by (simp add: disjunctive_add_eq_or)
qed

lemma unat_part32: "a < 2 ^ 28 \<Longrightarrow> (ucast (of_nat a :: uint32) :: uint64) = of_nat a"
proof -
  assume "a < 2 ^ 28"
  then have "unat (of_nat a :: uint32) = a" by (simp only: unat_of_nat) simp
  then show ?thesis by (metis of_nat_unat)
qed

lemma join_parts_law:
  assumes "a < 2 ^ 28" "b < 2 ^ 28" "c < 2 ^ 28"
  shows "join_parts (of_nat a) (of_nat b) (of_nat c) = of_nat (a + 2 ^ 28 * b + 2 ^ 56 * c)"
proof -
  have "(ucast (of_nat a :: uint32) OR push_bit 28 (ucast (of_nat b :: uint32)) :: uint64) = of_nat (a + 2 ^ 28 * b)"
    using assms or_shift [of a 28 "of_nat b :: uint64"] by (simp add: unat_part32 push_bit_eq_mult mult.commute)
  moreover have "a + 2 ^ 28 * b < 2 ^ 56" using assms by simp
  then have "(of_nat (a + 2 ^ 28 * b) OR push_bit 56 (of_nat c) :: uint64) = of_nat (a + 2 ^ 28 * b) + push_bit 56 (of_nat c)"
    by (rule or_shift)
  ultimately show ?thesis using assms
    by (simp add: join_parts_def unat_part32 or.assoc [symmetric] push_bit_eq_mult mult.commute)
qed

lemma Fast64_law:
  assumes "drop (buffer st) (ci_data st) = bs" "decided 10 bs"
  shows "ReadVarint64Fast st =
    Some (case unvarint 10 bs of None \<Rightarrow> (False, 0, st) | Some (n, k) \<Rightarrow> (True, of_nat n, Advance k st))"
proof -
  have sh: "[0, 7, 14, 21] = shifts 4 0" "[0, 7] = shifts 2 0" by (simp_all add: numeral_eq_Suc)
  have d4: "decided 4 bs" "unvarint 4 bs = None \<Longrightarrow> decided 6 (drop 4 bs)" using decided_split [of 4 6 bs] assms(2) by simp_all
  have part: "unvarint m cs = Some (n, k) \<Longrightarrow> m \<le> 4 \<Longrightarrow> n < 2 ^ 28" "m \<le> 4 \<Longrightarrow> cont_val m cs < 2 ^ 28" for m cs n k
  proof -
    have "128 ^ i \<le> (2 :: nat) ^ 28" if "i \<le> 4" for i using power_increasing [OF that, of "128 :: nat"] by simp
    then show "unvarint m cs = Some (n, k) \<Longrightarrow> m \<le> 4 \<Longrightarrow> n < 2 ^ 28" "m \<le> 4 \<Longrightarrow> cont_val m cs < 2 ^ 28"
      using unvarint_bounds [of m cs n k] cont_val_bound [of m cs] by (meson less_le_trans order_trans)+
  qed
  have read: "read_parts (shifts m 0) st ptr 0 =
     Some (case unvarint m cs of Some (n, k) \<Rightarrow> (True, of_nat n, ptr + k) | None \<Rightarrow> (False, of_nat (cont_val m cs), ptr + m))"
    if "drop ptr (ci_data st) = cs" "decided m cs" for m ptr cs
    unfolding read_parts_law [OF that] by (simp split: option.split)
  show ?thesis
  proof (cases "unvarint 4 bs")
    case (Some nk)
    then obtain n k where nk: "unvarint 4 bs = Some (n, k)" by (cases nk) simp
    then have "unvarint 10 bs = Some (n, k)" using unvarint_more [of 4 bs _ 6] by simp
    then show ?thesis using nk read [OF assms(1) d4(1)] join_parts_law [of n 0 0] part(1) [OF nk]
      by (simp add: ReadVarint64Fast_def sh(1) Advance_def del: shifts.simps read_parts.simps)
  next
    case None
    define cs where "cs = drop 4 bs"
    have l4: "4 \<le> length bs" using None d4(1) by (simp add: decided_def)
    have cs: "drop (buffer st + 4) (ci_data st) = cs" by (simp add: cs_def assms(1) [symmetric] add.commute)
    have d8: "decided 4 cs" "unvarint 4 cs = None \<Longrightarrow> decided 2 (drop 4 cs)"
      using decided_split [of 4 2 cs] d4(2) [OF None] by (simp_all add: cs_def)
    have ten: "unvarint 10 bs = map_option (\<lambda>(n, k). (cont_val 4 bs + 2 ^ 28 * n, 4 + k)) (unvarint 6 cs)"
      using unvarint_split [OF None l4, of 6] by (simp add: cs_def)
    show ?thesis
    proof (cases "unvarint 4 cs")
      case (Some nk)
      then obtain n k where nk: "unvarint 4 cs = Some (n, k)" by (cases nk) simp
      then have "unvarint 6 cs = Some (n, k)" using unvarint_more [of 4 cs _ 2] by simp
      then show ?thesis using nk ten None read [OF assms(1) d4(1)] read [OF cs d8(1)]
          join_parts_law [of "cont_val 4 bs" n 0] part(1) [OF nk] part(2) [of 4 bs]
        by (simp add: ReadVarint64Fast_def sh(1) Advance_def del: shifts.simps read_parts.simps)
    next
      case None': None
      define ds where "ds = drop 4 cs"
      have l8: "4 \<le> length cs" using None' d8(1) by (simp add: decided_def)
      have ds: "drop (buffer st + 8) (ci_data st) = ds" by (simp add: ds_def cs [symmetric] add.commute)
      have six: "unvarint 6 cs = map_option (\<lambda>(n, k). (cont_val 4 cs + 2 ^ 28 * n, 4 + k)) (unvarint 2 ds)"
        using unvarint_split [OF None' l8, of 2] by (simp add: ds_def)
      have "decided 2 ds" using d8(2) [OF None'] by (simp add: ds_def)
      then show ?thesis
        using ten six None None' read [OF assms(1) d4(1)] read [OF cs d8(1)] read [OF ds]
          part(2) [of 4 bs] part(2) [of 4 cs] part(1) [of 2 ds]
        by (cases "unvarint 2 ds")
          (auto simp: ReadVarint64Fast_def sh Advance_def join_parts_law algebra_simps simp del: shifts.simps read_parts.simps)
    qed
  qed
qed

lemma Advance_ok: "stream_ok st \<Longrightarrow> k \<le> length (window st) \<Longrightarrow> stream_ok (Advance k st)"
  unfolding length_window by (auto simp: stream_ok_def Advance_def length_window)

lemma Advance_window: "window (Advance k st) = drop k (window st)"
  by (simp add: window_def Advance_def drop_take add.commute)

lemma Advance_Advance [simp]: "Advance k (Advance j st) = Advance (j + k) st"
  by (simp add: Advance_def)

lemma window_Cons:
  assumes "stream_ok st" "window st = b # bs"
  shows "buffer st < buffer_end st" "byte_at st (buffer st) = Some b" "stream_ok (Advance 1 st)" "window (Advance 1 st) = bs"
proof -
  obtain tail where "drop (buffer st) (ci_data st) = b # bs @ tail" using window_data [OF assms(1)] assms(2) by auto
  then show "byte_at st (buffer st) = Some b" using byte_at_drop by blast
  show "buffer st < buffer_end st" using length_window [OF assms(1)] assms(2) by simp
  show "stream_ok (Advance 1 st)" using Advance_ok [OF assms(1), of 1] assms(2) by simp
  show "window (Advance 1 st) = bs" by (simp add: Advance_window assms(2))
qed

lemma window_Nil: "stream_ok st \<Longrightarrow> window st = [] \<longleftrightarrow> buffer st = buffer_end st"
  using length_window [of st] by (auto simp: stream_ok_def)

lemma Refresh_stops: "stream_ok st \<Longrightarrow> Refresh st = Some False"
  by (auto simp: stream_ok_def Refresh_def)

lemma Advance_0 [simp]: "Advance 0 st = st"
  by (simp add: Advance_def)

lemma slow_loop_law:
  "stream_ok st \<Longrightarrow> count + m = 10 \<Longrightarrow> acc < 2 ^ (7 * count) \<Longrightarrow>
   slow_loop count (of_nat acc) st =
     Some (case unvarint m (window st) of
         Some (n, k) \<Rightarrow> (True, of_nat (acc + 2 ^ (7 * count) * n), Advance k st)
       | None \<Rightarrow> (False, 0, Advance (min m (length (window st))) st))"
proof (induction m arbitrary: count acc st)
  case 0
  then show ?case by (subst slow_loop.simps) (simp add: kMaxVarintBytes_def)
next
  case (Suc m)
  have count: "\<not> kMaxVarintBytes \<le> count" using Suc.prems(2) by (simp add: kMaxVarintBytes_def)
  show ?case
  proof (cases "window st")
    case Nil
    then show ?thesis using Suc.prems(1) count window_Nil [OF Suc.prems(1)] Refresh_stops [OF Suc.prems(1)]
      by (subst slow_loop.simps) simp
  next
    case (Cons b bs)
    note w = window_Cons [OF Suc.prems(1) Cons]
    have low: "(ucast (b AND 0x7F) :: uint64) = of_nat (unat b mod 128)"
    proof -
      have "b AND 0x7F = of_nat (unat b mod 128)" using low_seven [of b] by (simp only: ucast_id)
      then have "unat (b AND 0x7F) = unat b mod 128" by (simp only: unat_byte [of "unat b mod 128"])
      then show ?thesis by (metis of_nat_unat)
    qed
    have step: "(of_nat acc OR push_bit (7 * count) (ucast (b AND 0x7F)) :: uint64) = of_nat (acc + 2 ^ (7 * count) * (unat b mod 128))"
      unfolding low or_shift [OF Suc.prems(3)] by (simp add: push_bit_eq_mult mult.commute)
    show ?thesis
    proof (cases "unat b < 128")
      case True
      then show ?thesis using count w step Cons by (subst slow_loop.simps) (simp add: msb_clear)
    next
      case False
      obtain c where c: "unat b = 128 + c" using False by (metis le_Suc_ex not_less)
      have c_mod: "c mod 128 = c" using byte_less [of b] by (simp add: c)
      then have mod: "unat b mod 128 = c" by (simp add: c)
      have "unat b mod 128 \<le> 127" using mod_less_divisor [of 128 "unat b"] by simp
      then have "acc + 2 ^ (7 * count) * (unat b mod 128) < 2 ^ (7 * count) + 2 ^ (7 * count) * 127"
        using Suc.prems(3) by (intro add_less_le_mono mult_le_mono2)
      then have lt: "acc + 2 ^ (7 * count) * (unat b mod 128) < 2 ^ (7 * (count + 1))" by (simp add: power_add)
      have "count + 1 + m = 10" using Suc.prems(2) by simp
      note IH = Suc.IH [OF w(3) this lt]
      show ?thesis
        using count w(1,2,4) step Cons False IH
        by (subst slow_loop.simps, cases "unvarint m bs") (auto simp: msb_clear mod c c_mod power_add algebra_simps)
    qed
  qed
qed

lemma last_decides: "bs \<noteq> [] \<Longrightarrow> unat (last bs) < 128 \<Longrightarrow> decided m bs"
proof (induction m bs rule: unvarint.induct)
  case (3 m b bs)
  then show ?case by (cases "bs = []") (auto simp: decided_def)
qed (auto simp: decided_def)

lemma read_ahead:
  assumes "stream_ok st"
  shows "\<exists>a. can_read_ahead st = Some a \<and> (a \<longrightarrow> decided 10 (window st))"
proof (cases "window st = []")
  case True
  then show ?thesis using window_Nil [OF assms] by (auto simp: can_read_ahead_def BufferSize_def kMaxVarintBytes_def)
next
  case False
  have lt: "buffer st < buffer_end st" using False window_Nil [OF assms] assms by (auto simp: stream_ok_def)
  have "last (window st) = ci_data st ! (buffer_end st - 1)"
    using False lt assms length_window [OF assms] by (simp add: last_conv_nth window_def stream_ok_def)
  moreover have "byte_at st (buffer_end st - 1) = Some (ci_data st ! (buffer_end st - 1))"
    using lt assms by (auto simp: byte_at_def stream_ok_def)
  ultimately have bit: "map_option (\<lambda>b. b AND 0x80 = 0) (byte_at st (buffer_end st - 1)) = Some (unat (last (window st)) < 128)"
    by (simp add: msb_clear)
  show ?thesis
  proof (cases "int kMaxVarintBytes \<le> BufferSize st")
    case True
    then have "10 \<le> length (window st)" using length_window [OF assms] lt by (simp add: BufferSize_def kMaxVarintBytes_def)
    then show ?thesis using True by (auto simp: can_read_ahead_def decided_def)
  next
    case False
    then show ?thesis using lt bit last_decides [OF \<open>window st \<noteq> []\<close>, of 10]
      by (intro exI [of _ "unat (last (window st)) < 128"]) (simp add: can_read_ahead_def)
  qed
qed

lemma read_window:
  assumes "stream_ok st" "decided 10 (window st)"
  obtains bs where "drop (buffer st) (ci_data st) = bs" "decided 10 bs" "unvarint 10 bs = unvarint 10 (window st)"
proof -
  obtain tail where "drop (buffer st) (ci_data st) = window st @ tail" using window_data [OF assms(1)] by blast
  moreover have "unvarint 10 (window st @ tail) = unvarint 10 (window st)" using assms(2) by (rule unvarint_append)
  moreover from this have "decided 10 (window st @ tail)" using assms(2) by (auto simp: decided_def)
  ultimately show thesis using that by simp
qed

text \<open>What a read of a number gives: the number and the stream behind it, or a failure.\<close>

definition reads_varint :: "coded_input \<Rightarrow> (bool \<times> 'a::len word \<times> coded_input) option \<Rightarrow> bool" where
  "reads_varint st r \<longleftrightarrow>
     (case unvarint 10 (window st) of
        Some (n, k) \<Rightarrow> r = Some (True, of_nat n, Advance k st)
      | None \<Rightarrow> \<exists>k \<le> length (window st). r = Some (False, 0, Advance k st))"

lemma Fallback64_law: "stream_ok st \<Longrightarrow> reads_varint st (ReadVarint64Fallback st)"
proof -
  assume ok: "stream_ok st"
  obtain a where a: "can_read_ahead st = Some a" "a \<longrightarrow> decided 10 (window st)" using read_ahead [OF ok] by blast
  show ?thesis
  proof (cases a)
    case True
    then obtain bs where "drop (buffer st) (ci_data st) = bs" "decided 10 bs" "unvarint 10 bs = unvarint 10 (window st)"
      using a(2) read_window [OF ok] by blast
    then show ?thesis using True a(1) Fast64_law [of st bs]
      by (auto simp: reads_varint_def ReadVarint64Fallback_def split: option.split intro: exI [of _ 0])
  next
    case False
    then show ?thesis using a(1) slow_loop_law [OF ok, of 0 10 0]
      by (auto simp: reads_varint_def ReadVarint64Fallback_def ReadVarint64Slow_def split: option.split
          intro!: exI [of _ "min 10 (length (window st))"])
  qed
qed

lemma one_byte: "window st = b # bs \<Longrightarrow> unat b < 128 \<Longrightarrow> unvarint 10 (window st) = Some (unat b, 1)"
  by (simp add: numeral_eq_Suc)

lemma Varint64_law: "stream_ok st \<Longrightarrow> reads_varint st (ReadVarint64 st)"
proof -
  assume ok: "stream_ok st"
  show ?thesis
  proof (cases "window st")
    case Nil
    then show ?thesis using ok window_Nil [OF ok] Fallback64_law [OF ok] by (simp add: ReadVarint64_def)
  next
    case (Cons b bs)
    note w = window_Cons [OF ok Cons]
    show ?thesis
    proof (cases "unat b < 128")
      case True
      then show ?thesis using w one_byte [OF Cons] by (simp add: ReadVarint64_def msb_clear reads_varint_def)
    qed (use w Fallback64_law [OF ok] in \<open>simp add: ReadVarint64_def msb_clear\<close>)
  qed
qed

lemma ucast_of_nat: "(ucast (of_nat n :: uint64) :: uint32) = of_nat n"
  by (rule bit_word_eqI) (simp add: bit_simps)

lemma reads_ucast:
  fixes r :: "(bool \<times> uint64 \<times> coded_input) option"
  assumes "reads_varint st r"
  shows "reads_varint st (map_option (\<lambda>(ok, v, st). (ok, ucast v :: uint32, st)) r)"
proof (cases "unvarint 10 (window st)")
  case None
  then obtain k where "k \<le> length (window st)" "r = Some (False, 0, Advance k st)" using assms by (auto simp: reads_varint_def)
  then show ?thesis using None by (auto simp: reads_varint_def)
next
  case (Some nk)
  then show ?thesis using assms by (cases nk) (simp add: reads_varint_def ucast_of_nat)
qed

lemma Varint32_law: "stream_ok st \<Longrightarrow> reads_varint st (ReadVarint32 st)"
proof -
  assume ok: "stream_ok st"
  obtain a where a: "can_read_ahead st = Some a" "a \<longrightarrow> decided 10 (window st)" using read_ahead [OF ok] by blast
  have fb: "reads_varint st (ReadVarint32Fallback st)"
  proof (cases a)
    case True
    then obtain bs where "drop (buffer st) (ci_data st) = bs" "decided 10 bs" "unvarint 10 bs = unvarint 10 (window st)"
      using a(2) read_window [OF ok] by blast
    then show ?thesis using True a(1) FromArray32_law [of st bs]
      by (auto simp: reads_varint_def ReadVarint32Fallback_def Advance_def split: option.split intro: exI [of _ 0])
  next
    case False
    then show ?thesis using a(1) reads_ucast [OF Fallback64_law [OF ok]]
      by (simp add: ReadVarint32Fallback_def ReadVarint32Slow_def)
  qed
  show ?thesis
  proof (cases "window st")
    case Nil
    then show ?thesis using ok window_Nil [OF ok] fb by (simp add: ReadVarint32_def)
  next
    case (Cons b bs)
    note w = window_Cons [OF ok Cons]
    show ?thesis
    proof (cases "unat b < 128")
      case True
      then show ?thesis using w one_byte [OF Cons] by (simp add: ReadVarint32_def msb_clear reads_varint_def)
    qed (use w fb in \<open>simp add: ReadVarint32_def msb_clear\<close>)
  qed
qed

section \<open>Every reading operation\<close>

lemma stream_ok_update [simp]:
  "stream_ok (st\<lparr>last_tag := t\<rparr>) = stream_ok st" "stream_ok (st\<lparr>legitimate_message_end := b\<rparr>) = stream_ok st"
  "stream_ok (st\<lparr>recursion_depth := d\<rparr>) = stream_ok st"
  by (simp_all add: stream_ok_def)

text \<open>A stream that has moved within its window; the limits are the same.\<close>

definition moved :: "coded_input \<Rightarrow> coded_input \<Rightarrow> bool" where
  "moved st st' \<longleftrightarrow>
     stream_ok st' \<and> current_limit st' = current_limit st \<and> ci_data st' = ci_data st \<and> buffer st \<le> buffer st'"

lemma moved_Advance: "stream_ok st \<Longrightarrow> k \<le> length (window st) \<Longrightarrow> moved st (Advance k st)"
  using Advance_ok [of st k] by (simp add: moved_def Advance_def)

lemma moved_update [simp]:
  "moved st (st'\<lparr>last_tag := t\<rparr>) = moved st st'" "moved st (st'\<lparr>legitimate_message_end := b\<rparr>) = moved st st'"
  by (simp_all add: moved_def)

lemma moved_refl: "stream_ok st \<Longrightarrow> moved st st"
  by (simp add: moved_def)

lemma moved_trans: "moved st st' \<Longrightarrow> moved st' st'' \<Longrightarrow> moved st st''"
  by (simp add: moved_def)

lemma varint_moves:
  assumes "stream_ok st" "reads_varint st r"
  shows "\<exists>ok v st'. r = Some (ok, v, st') \<and> moved st st'"
  using assms unvarint_bounds [of 10 "window st"] by (auto simp: reads_varint_def split: option.splits intro: moved_Advance)

lemma copy_window:
  assumes "stream_ok st" "n \<le> length (window st)"
  shows "copy_bytes n st = Some (take n (window st))"
proof -
  have "n \<le> buffer_end st - buffer st" "buffer st \<le> buffer_end st" "buffer_end st \<le> length (ci_data st)"
    using assms length_window [OF assms(1)] by (auto simp: stream_ok_def)
  then show ?thesis by (auto simp: copy_bytes_def window_def min_def)
qed

lemma BufferSize_window: "stream_ok st \<Longrightarrow> BufferSize st = int (length (window st))"
  by (subst length_window) (auto simp: BufferSize_def stream_ok_def)

lemma ReadRaw_law:
  assumes "stream_ok st"
  shows "ReadRaw n st =
    Some (n \<le> length (window st), take n (window st), Advance (min n (length (window st))) st)"
proof (cases "n \<le> length (window st)")
  case True
  then show ?thesis using copy_window [OF assms True] by (simp add: ReadRaw_def BufferSize_window [OF assms])
next
  case False
  have "stream_ok (Advance (length (window st)) st)" by (rule Advance_ok [OF assms]) simp
  then show ?thesis using False copy_window [OF assms, of "length (window st)"] Refresh_stops
    by (simp add: ReadRaw_def BufferSize_window [OF assms])
qed

lemma ReadString_law:
  assumes "stream_ok st"
  shows "ReadString n st =
    (if n < 0 then Some (False, [], st)
     else Some (nat n \<le> length (window st), take (nat n) (window st), Advance (min (nat n) (length (window st))) st))"
  using copy_window [OF assms, of "nat n"] ReadRaw_law [OF assms, of "nat n"]
  by (auto simp: ReadString_def ReadStringFallback_def BufferSize_window [OF assms] nat_le_iff min_def)

lemma LittleEndian_law:
  assumes "stream_ok st"
  shows "ReadLittleEndian32 st =
      Some (if 4 \<le> length (window st) then (True, word_of_int (le_val (take 4 (window st))), Advance 4 st)
            else (False, 0, Advance (length (window st)) st))"
    and "ReadLittleEndian64 st =
      Some (if 8 \<le> length (window st) then (True, word_of_int (le_val (take 8 (window st))), Advance 8 st)
            else (False, 0, Advance (length (window st)) st))"
  using copy_window [OF assms, of 4] copy_window [OF assms, of 8] ReadRaw_law [OF assms, of 4] ReadRaw_law [OF assms, of 8]
  by (auto simp: ReadLittleEndian32_def ReadLittleEndian64_def BufferSize_window [OF assms])

text \<open>A tag is the number at the position; \<open>0\<close> stands for a failure and for the end.\<close>

lemma ReadTagFallback_law:
  assumes ok: "stream_ok st"
  shows "\<exists>tag st'. ReadTagFallback st = Some (tag, st') \<and> moved st st' \<and>
    (case unvarint 10 (window st) of
       Some (n, k) \<Rightarrow> tag = of_nat n \<and> st' = Advance k st
     | None \<Rightarrow> tag = 0 \<and> (window st = [] \<longrightarrow> st' = st\<lparr>legitimate_message_end := True\<rparr>))"
proof -
  obtain a where a: "can_read_ahead st = Some a" "a \<longrightarrow> decided 10 (window st)" using read_ahead [OF ok] by blast
  show ?thesis
  proof (cases a)
    case True
    then obtain ds where ds: "drop (buffer st) (ci_data st) = ds" "decided 10 ds" "unvarint 10 ds = unvarint 10 (window st)"
      using a(2) read_window [OF ok] by blast
    have full: "window st \<noteq> []" using True a(2) by (auto simp: decided_def numeral_eq_Suc)
    show ?thesis
    proof (cases "unvarint 10 (window st)")
      case None
      then show ?thesis using True a(1) FromArray32_law [OF ds(1,2)] ds(3) moved_refl [OF ok] full by (simp add: ReadTagFallback_def)
    next
      case (Some nk)
      obtain n k where nk: "nk = (n, k)" by fastforce
      then show ?thesis using True a(1) FromArray32_law [OF ds(1,2)] ds(3) Some moved_Advance [OF ok, of k]
          unvarint_bounds [of 10 "window st" n k]
        by (simp add: ReadTagFallback_def Advance_def)
    qed
  next
    case False
    show ?thesis
    proof (cases "window st")
      case Nil
      then have e: "buffer st = buffer_end st" using window_Nil [OF ok] by simp
      have "total_bytes_read st - buffer_size_after_limit st \<le> total_bytes_limit st" using ok by (auto simp: stream_ok_def)
      moreover have "0 < buffer_size_after_limit st \<or> total_bytes_read st = current_limit st" using ok by (auto simp: stream_ok_def)
      moreover have "total_bytes_read st - buffer_size_after_limit st = total_bytes_limit st \<Longrightarrow> current_limit st = total_bytes_limit st"
        using ok by (auto simp: stream_ok_def)
      ultimately show ?thesis using Nil e a(1) False moved_refl [OF ok] Refresh_stops [OF ok]
        by (auto simp: ReadTagFallback_def ReadTagSlow_def BufferSize_def numeral_eq_Suc)
    next
      case (Cons b bs)
      obtain okay v st' where v: "ReadVarint64 st = Some (okay, v, st')" "moved st st'"
        using varint_moves [OF ok Varint64_law [OF ok]] by blast
      then show ?thesis using False a(1) window_Cons(1) [OF ok Cons] Varint64_law [OF ok] Cons
        by (auto simp: ReadTagFallback_def ReadTagSlow_def BufferSize_def reads_varint_def ucast_of_nat split: option.splits)
    qed
  qed
qed

lemma ReadTag_law:
  assumes ok: "stream_ok st"
  shows "\<exists>tag st'. ReadTag st = Some (tag, st') \<and> moved st st' \<and> last_tag st' = tag \<and>
    (case unvarint 10 (window st) of
       Some (n, k) \<Rightarrow> tag = of_nat n \<and> st' = (Advance k st)\<lparr>last_tag := tag\<rparr>
     | None \<Rightarrow> tag = 0 \<and> (window st = [] \<longrightarrow> st' = st\<lparr>last_tag := 0, legitimate_message_end := True\<rparr>))"
proof -
  obtain tag st' where t: "ReadTagFallback st = Some (tag, st')" "moved st st'"
      "case unvarint 10 (window st) of Some (n, k) \<Rightarrow> tag = of_nat n \<and> st' = Advance k st
       | None \<Rightarrow> tag = 0 \<and> (window st = [] \<longrightarrow> st' = st\<lparr>legitimate_message_end := True\<rparr>)"
    using ReadTagFallback_law [OF ok] by blast
  have fb: ?thesis if "ReadTag st = Some (tag, st'\<lparr>last_tag := tag\<rparr>)"
    using that t(2,3) by (cases "unvarint 10 (window st)") auto
  show ?thesis
  proof (cases "window st")
    case Nil
    then show ?thesis using window_Nil [OF ok] t(1) by (intro fb) (simp add: ReadTag_def)
  next
    case (Cons b bs)
    note w = window_Cons [OF ok Cons]
    show ?thesis
    proof (cases "unat b < 128")
      case True
      then show ?thesis using w one_byte [OF Cons True] moved_Advance [OF ok, of 1] Cons
        by (simp add: ReadTag_def msb_clear)
    qed (intro fb, use t(1) w in \<open>simp add: ReadTag_def msb_clear\<close>)
  qed
qed

lemma Skip_law:
  assumes "stream_ok st"
  shows "\<exists>ok st'. Skip n st = Some (ok, st') \<and> moved st st'"
proof -
  have "moved st (st\<lparr>buffer := length (ci_data st), buffer_end := length (ci_data st)\<rparr>)" if "buffer_size_after_limit st \<le> 0"
    using assms that by (auto simp: moved_def stream_ok_def)
  moreover have "min (current_limit st) (total_bytes_limit st) - total_bytes_read st \<le> 0" using assms by (auto simp: stream_ok_def)
  ultimately show ?thesis
    using moved_refl [OF assms] moved_Advance [OF assms, of "nat n"] moved_Advance [OF assms, of "length (window st)"]
    by (auto simp: Skip_def BufferSize_window [OF assms] Let_def nat_le_iff)
qed

text \<open>A limit between the position and the current one is set; an old one is restored.\<close>

lemma set_limit_law:
  assumes "stream_ok st" "int (buffer st) \<le> l" "l \<le> int (length (ci_data st))"
  shows "stream_ok (RecomputeBufferLimits (st\<lparr>current_limit := l\<rparr>))"
    "current_limit (RecomputeBufferLimits (st\<lparr>current_limit := l\<rparr>)) = l"
    "ci_data (RecomputeBufferLimits (st\<lparr>current_limit := l\<rparr>)) = ci_data st"
    "buffer (RecomputeBufferLimits (st\<lparr>current_limit := l\<rparr>)) = buffer st"
  using assms by (auto simp: stream_ok_def RecomputeBufferLimits_def Let_def min_def split: if_splits)

lemma PushLimit_law:
  assumes "stream_ok st"
  shows "stream_ok (snd (PushLimit n st))" "fst (PushLimit n st) = current_limit st"
    "current_limit (snd (PushLimit n st)) =
       (if 0 \<le> n then min (int (buffer st) + n) (current_limit st) else current_limit st)"
    "ci_data (snd (PushLimit n st)) = ci_data st" "buffer (snd (PushLimit n st)) = buffer st"
proof -
  have pos: "CurrentPosition st = int (buffer st)" using assms by (auto simp: CurrentPosition_def BufferSize_def stream_ok_def)
  define l where "l = (if 0 \<le> n then min (int (buffer st) + n) (current_limit st) else current_limit st)"
  have cur: "current_limit st \<le> INT_MAX" using assms by (auto simp: stream_ok_def)
  have push: "PushLimit n st = (current_limit st, RecomputeBufferLimits (st\<lparr>current_limit := l\<rparr>))"
  proof -
    have "min (if 0 \<le> n \<and> n \<le> INT_MAX - int (buffer st) then int (buffer st) + n else INT_MAX) (current_limit st) = l"
      using cur by (auto simp: l_def)
    then show ?thesis by (simp only: PushLimit_def pos Let_def)
  qed
  have "int (buffer st) \<le> l" "l \<le> int (length (ci_data st))" using assms by (auto simp: l_def stream_ok_def min_def)
  note set_limit_law [OF assms this]
  then show "stream_ok (snd (PushLimit n st))" "fst (PushLimit n st) = current_limit st"
    "current_limit (snd (PushLimit n st)) = (if 0 \<le> n then min (int (buffer st) + n) (current_limit st) else current_limit st)"
    "ci_data (snd (PushLimit n st)) = ci_data st" "buffer (snd (PushLimit n st)) = buffer st"
    by (simp_all add: push l_def)
qed

lemma PopLimit_law:
  assumes "stream_ok st" "int (buffer st) \<le> l" "l \<le> int (length (ci_data st))"
  shows "stream_ok (PopLimit l st)" "current_limit (PopLimit l st) = l" "ci_data (PopLimit l st) = ci_data st"
    "buffer (PopLimit l st) = buffer st"
  using set_limit_law [OF assms] by (simp_all add: PopLimit_def)

end
