(* ===== verification/Pb_Coded_Ops.thy ===== *)
theory Pb_Coded_Ops
  imports Pb_Coded_Spec
begin

text \<open>
  What the readers and writers of the coded streams do together: signed numbers, the quicker readers of
  tags against \<open>ReadTag\<close>, and arbitrary sequences of reads and limits on arbitrary bytes.
\<close>

section \<open>Signed numbers\<close>

lemma scast_nonneg: "0 \<le> sint v \<Longrightarrow> unat (scast v :: uint64) = unat v" for v :: uint32
proof -
  assume "0 \<le> sint v"
  moreover have "sint v < 2 ^ (LENGTH(32) - Suc 0)" by (rule sint_less)
  then have s: "take_bit n (sint v) = sint v" if "31 \<le> n" for n
  proof -
    have "(2 :: int) ^ 31 \<le> 2 ^ n" using that by (rule power_increasing) simp
    then show ?thesis using \<open>0 \<le> sint v\<close> \<open>sint v < 2 ^ (LENGTH(32) - Suc 0)\<close> by (intro take_bit_int_eq_self) simp_all
  qed
  have "uint (scast v :: uint64) = take_bit 64 (sint v)" by (simp only: scast_eq unsigned_of_int) simp
  moreover have "uint v = take_bit 32 (sint v)" using uint_sint [of v] by simp
  ultimately show ?thesis by (simp only: unat_eq_nat_uint s)
qed

lemma scast_neg: "sint v < 0 \<Longrightarrow> 128 ^ 9 \<le> unat (scast v :: uint64)" for v :: uint32
proof -
  assume "sint v < 0"
  then have "bit v 31" using bit_last_iff [of v] by simp
  then have "bit (scast v :: uint64) 63" by (simp add: bit_simps)
  then have "bit (unat (scast v :: uint64)) 63" by (simp add: bit_simps)
  then have "0 < unat (scast v :: uint64) div 2 ^ 63" unfolding bit_iff_odd by (rule odd_pos)
  then show ?thesis by (simp add: div_greater_zero_iff)
qed

lemma signed_varint:
  "WriteVarint32SignExtended room v = varint (unat (scast v :: uint64))"
  "WriteVarint32SignExtendedToArray v = varint (unat (scast v :: uint64))"
  "VarintSize32SignExtended v = int (length (varint (unat (scast v :: uint64))))"
proof -
  show "WriteVarint32SignExtended room v = varint (unat (scast v :: uint64))"
    "WriteVarint32SignExtendedToArray v = varint (unat (scast v :: uint64))"
    using scast_nonneg [of v]
    by (simp_all add: WriteVarint32SignExtended_def WriteVarint32SignExtendedToArray_def WriteVarint64ToArray_def
        writers_varint Inline64_law)
  have "length (varint (unat (scast v :: uint64))) = 10" if "sint v < 0"
  proof -
    have "unat (scast v :: uint64) < 2 ^ LENGTH(64)" by (rule unsigned_less)
    then have "unat (scast v :: uint64) < 128 ^ Suc 9" by simp
    then show ?thesis using length_varint [of _ 9] scast_neg [OF that] by simp
  qed
  then show "VarintSize32SignExtended v = int (length (varint (unat (scast v :: uint64))))"
    using scast_nonneg [of v] by (simp add: VarintSize32SignExtended_def sizes_varint)
qed

lemma of_nat_scast: "of_nat (unat (scast v :: uint64)) = v" for v :: uint32
proof -
  have "of_nat (unat (scast v :: uint64)) = (ucast (scast v :: uint64) :: uint32)" by (simp only: of_nat_unat)
  also have "\<dots> = v" by (rule bit_word_eqI) (simp add: bit_simps)
  finally show ?thesis .
qed

section \<open>Numbers that are there\<close>

lemma varint_there:
  assumes "window st = varint n @ rest" "n < 2 ^ 64"
  shows "unvarint 10 (window st) = Some (n, length (varint n))"
  using unvarint_varint [of n 10 rest] assms by simp

lemma reads_there:
  fixes r :: "(bool \<times> 'a::len word \<times> coded_input) option"
  assumes "reads_varint st r" "window st = varint n @ rest" "n < 2 ^ 64"
  shows "r = Some (True, of_nat n, Advance (length (varint n)) st)"
  using assms varint_there [OF assms(2,3)] by (simp add: reads_varint_def)

lemma window_Advance:
  assumes "stream_ok st" "window st = bs @ rest"
  shows "stream_ok (Advance (length bs) st)" "window (Advance (length bs) st) = rest"
proof -
  show "stream_ok (Advance (length bs) st)" using assms by (intro Advance_ok) simp_all
  have "drop (length bs) (window st) = rest" using assms(2) by simp
  then show "window (Advance (length bs) st) = rest"
    unfolding window_def Advance_def by (simp add: drop_take add.commute)
qed

section \<open>Quicker readers\<close>

lemma window_Cons2:
  assumes "stream_ok st" "window st = b0 # b1 # bs"
  shows "byte_at st (buffer st) = Some b0" "byte_at st (buffer st + 1) = Some b1" "buffer st + 1 < buffer_end st"
proof -
  obtain tail where "drop (buffer st) (ci_data st) = b0 # b1 # bs @ tail" using window_data [OF assms(1)] assms(2) by auto
  then show "byte_at st (buffer st) = Some b0" "byte_at st (buffer st + 1) = Some b1"
    using byte_at_drop [of "buffer st" st b0] byte_at_drop [of "buffer st + 1" st b1] by simp_all
  have "length (window st) = Suc (Suc (length bs))" using assms(2) by simp
  then show "buffer st + 1 < buffer_end st" unfolding length_window [OF assms(1)] by simp
qed

lemma two_bytes: "\<not> unat b0 < 128 \<Longrightarrow> unat b1 < 128 \<Longrightarrow> unvarint 10 (b0 # b1 # bs) = Some (unat b0 - 128 + 128 * unat b1, 2)"
  by (simp add: numeral_eq_Suc)

lemma sint_pos: "0 < sint b \<longleftrightarrow> 0 < unat b \<and> unat b < 128" for b :: byte
proof (cases "unat b < 128")
  case True
  then have "\<not> bit b 7" by (simp add: msb_bit)
  then have "0 \<le> sint b" using bit_last_iff [of b] by simp
  moreover have "sint b = 0 \<longleftrightarrow> unat b = 0" by (simp add: signed_eq_0_iff unsigned_eq_0_iff)
  ultimately show ?thesis using True by linarith
next
  case False
  then have "sint b < 0" using bit_last_iff [of b] by (simp add: msb_bit)
  then show ?thesis using False by simp
qed

lemma two_byte_test: "0x80 \<le> b0 AND NOT b1 \<longleftrightarrow> \<not> unat b0 < 128 \<and> unat b1 < 128" for b0 b1 :: byte
proof -
  have "0x80 \<le> b0 AND NOT b1 \<longleftrightarrow> bit (b0 AND NOT b1) 7" using msb_clear(2) [of "b0 AND NOT b1"] by (simp add: msb_bit not_less [symmetric])
  then show ?thesis by (simp add: msb_bit bit_simps)
qed

lemma two_byte_tag:
  assumes "\<not> unat b0 < 128"
  shows "2 ^ 7 * ucast b1 + (ucast b0 - 0x80) = (of_nat (unat b0 - 128 + 128 * unat b1) :: uint32)"
proof -
  have "(ucast b1 :: uint32) = of_nat (unat b1)" "(ucast b0 :: uint32) = of_nat (unat b0)" by (simp_all only: of_nat_unat)
  then show ?thesis using assms by (simp add: of_nat_diff not_less)
qed

text \<open>Tags are not above a cutoff: the tests of the short paths.\<close>

lemma cutoff_one: "0x7F \<le> c \<or> ucast b \<le> c \<longleftrightarrow> ucast b \<le> (c :: uint32)" if "unat b < 128" for b :: byte
proof -
  have "unat (ucast b :: uint32) = unat b" using byte_less [of b] by (simp add: unsigned_ucast_eq take_bit_eq_mod)
  then show ?thesis using that by (auto simp: word_le_nat_alt)
qed

lemma cutoff_two: "0x3FFF \<le> c \<or> of_nat n \<le> c \<longleftrightarrow> of_nat n \<le> (c :: uint32)" if "n < 16384"
proof -
  have "unat (of_nat n :: uint32) = n" using that by (simp add: unat_of_nat)
  then show ?thesis using that by (auto simp: word_le_nat_alt)
qed

lemma cutoff_slow: "t \<noteq> 0 \<Longrightarrow> t - 1 < c \<longleftrightarrow> t \<le> c" for t c :: uint32
proof -
  assume "t \<noteq> 0"
  then have "1 \<le> t" by (simp add: word_le_nat_alt unat_gt_0 Suc_le_eq)
  then have "unat (t - 1) = unat t - 1" by (simp add: unat_sub)
  moreover have "0 < unat t" using \<open>t \<noteq> 0\<close> by (simp add: unat_gt_0)
  ultimately show ?thesis unfolding word_le_nat_alt word_less_nat_alt by linarith
qed

lemma cutoff_paths:
  assumes "stream_ok st" "window st = b0 # bs" "ReadTagFallback st = Some (tag, st')"
  shows "0 < unat b0 \<Longrightarrow> unat b0 < 128 \<Longrightarrow>
      ReadTagWithCutoff c st = Some (ucast b0, ucast b0 \<le> c, (Advance 1 st)\<lparr>last_tag := ucast b0\<rparr>)"
    and "\<not> unat b0 < 128 \<Longrightarrow> 0x80 \<le> c \<Longrightarrow> bs = b1 # ds \<Longrightarrow> unat b1 < 128 \<Longrightarrow> n = unat b0 - 128 + 128 * unat b1 \<Longrightarrow>
      ReadTagWithCutoff c st = Some (of_nat n, of_nat n \<le> c, (Advance 2 st)\<lparr>last_tag := of_nat n\<rparr>)"
    and "\<not> (0 < unat b0 \<and> unat b0 < 128) \<Longrightarrow>
      \<not> (\<not> unat b0 < 128 \<and> 0x80 \<le> c \<and> (\<exists>b1 ds. bs = b1 # ds \<and> unat b1 < 128)) \<Longrightarrow>
      ReadTagWithCutoff c st = Some (tag, tag - 1 < c, st'\<lparr>last_tag := tag\<rparr>)"
proof -
  note w = window_Cons [OF assms(1,2)]
  show "ReadTagWithCutoff c st = Some (ucast b0, ucast b0 \<le> c, (Advance 1 st)\<lparr>last_tag := ucast b0\<rparr>)"
    if "0 < unat b0" "unat b0 < 128"
    using that w cutoff_one [of b0 c] by (simp add: ReadTagWithCutoff_def sint_pos Let_def)
  show "ReadTagWithCutoff c st = Some (of_nat n, of_nat n \<le> c, (Advance 2 st)\<lparr>last_tag := of_nat n\<rparr>)"
    if "\<not> unat b0 < 128" "0x80 \<le> c" "bs = b1 # ds" "unat b1 < 128" and n: "n = unat b0 - 128 + 128 * unat b1" for b1 ds n
  proof -
    have "n < 16384" using that byte_less [of b0] by simp
    moreover have "2 ^ 7 * ucast b1 + (ucast b0 - 0x80) = (of_nat n :: uint32)" unfolding n by (rule two_byte_tag) (rule that(1))
    ultimately show ?thesis using that(1-4) w(1) window_Cons2 [of st b0 b1 ds] assms(1,2) cutoff_two [of n c]
      by (simp add: ReadTagWithCutoff_def sint_pos two_byte_test Let_def)
  qed
  show "ReadTagWithCutoff c st = Some (tag, tag - 1 < c, st'\<lparr>last_tag := tag\<rparr>)"
    if short: "\<not> (0 < unat b0 \<and> unat b0 < 128)" "\<not> (\<not> unat b0 < 128 \<and> 0x80 \<le> c \<and> (\<exists>b1 ds. bs = b1 # ds \<and> unat b1 < 128))"
  proof (cases bs)
    case Nil
    then have "buffer_end st \<le> buffer st + 1" using length_window [OF assms(1)] assms(2) by simp
    then show ?thesis using short w assms(3) by (auto simp: ReadTagWithCutoff_def sint_pos Let_def)
  next
    case (Cons b1 ds)
    then show ?thesis using short w(1) window_Cons2 [of st b0 b1 ds] assms
      by (auto simp: ReadTagWithCutoff_def sint_pos two_byte_test Let_def)
  qed
qed

text \<open>
  The reader of tags with a cutoff agrees with the plain one in each of its three paths, and for a tag
  other than \<open>0\<close> its second result tells whether the tag is at most the cutoff.
\<close>

lemma cutoff_tag:
  assumes "stream_ok st"
  shows "\<exists>tag below st'. ReadTagWithCutoff cutoff st = Some (tag, below, st') \<and> ReadTag st = Some (tag, st') \<and>
    (tag \<noteq> 0 \<longrightarrow> below = (tag \<le> cutoff))"
proof -
  obtain tag st' where fb: "ReadTagFallback st = Some (tag, st')" 
      "case unvarint 10 (window st) of Some (n, k) \<Rightarrow> tag = of_nat n \<and> st' = Advance k st
       | None \<Rightarrow> tag = 0 \<and> (window st = [] \<longrightarrow> st' = st\<lparr>legitimate_message_end := True\<rparr>)"
    using ReadTagFallback_law [OF assms] by blast
  show ?thesis
  proof (cases "window st")
    case Nil
    then show ?thesis using window_Nil [OF assms] fb by (simp add: ReadTagWithCutoff_def ReadTag_def cutoff_slow)
  next
    case (Cons b0 bs)
    note w = window_Cons [OF assms Cons]
    have plain: "ReadTag st = Some (of_nat n, (Advance k st)\<lparr>last_tag := of_nat n\<rparr>)" if "unvarint 10 (window st) = Some (n, k)" for n k
      using ReadTag_law [OF assms] that by auto
    consider (one) "0 < unat b0" "unat b0 < 128"
      | (two) b1 ds where "\<not> unat b0 < 128" "0x80 \<le> cutoff" "bs = b1 # ds" "unat b1 < 128"
      | (slow) "\<not> (0 < unat b0 \<and> unat b0 < 128)" "\<not> (\<not> unat b0 < 128 \<and> 0x80 \<le> cutoff \<and> (\<exists>b1 ds. bs = b1 # ds \<and> unat b1 < 128))"
      by (cases "0 < unat b0 \<and> unat b0 < 128";
          cases "\<not> unat b0 < 128 \<and> 0x80 \<le> cutoff \<and> (\<exists>b1 ds. bs = b1 # ds \<and> unat b1 < 128)") auto
    then show ?thesis
    proof cases
      case one
      have "(of_nat (unat b0) :: uint32) = ucast b0" by (simp only: of_nat_unat)
      then show ?thesis using cutoff_paths(1) [OF assms Cons fb(1) one] plain [OF one_byte [OF Cons one(2)]] by simp
    next
      case two
      have "unvarint 10 (window st) = Some (unat b0 - 128 + 128 * unat b1, 2)" using two_bytes [OF two(1,4)] Cons two(3) by simp
      then show ?thesis using cutoff_paths(2) [OF assms Cons fb(1) two refl] plain by blast
    next
      case slow
      have "ReadTag st = Some (tag, st'\<lparr>last_tag := tag\<rparr>)"
      proof (cases "unat b0 < 128")
        case True
        then show ?thesis using plain [OF one_byte [OF Cons True]] fb(2) one_byte [OF Cons True] by simp
      qed (use w fb(1) in \<open>simp add: ReadTag_def msb_clear\<close>)
      then show ?thesis using cutoff_paths(3) [OF assms Cons fb(1) slow] cutoff_slow [of tag cutoff] by simp
    qed
  qed
qed

lemma varint_two: "128 \<le> n \<Longrightarrow> n < 16384 \<Longrightarrow> varint n = [of_nat (n mod 128 + 128), of_nat (n div 128)]"
  using varint_digits [of n 1] by simp

lemma ExpectTag_law:
  assumes "stream_ok st"
  shows "ExpectTag e st =
    Some (if unat e < 16384 \<and> take (length (varint (unat e))) (window st) = varint (unat e)
          then (True, Advance (length (varint (unat e))) st) else (False, st))"
proof -
  define n where "n = unat e"
  have small: "e < 2 ^ 7 \<longleftrightarrow> n < 128" "e < 2 ^ 14 \<longleftrightarrow> n < 16384" using word_bounds(1) [of 7 e] word_bounds(1) [of 14 e] by (simp_all add: n_def)
  have len: "2 \<le> BufferSize st \<longleftrightarrow> 2 \<le> length (window st)" by (simp add: BufferSize_window [OF assms])
  consider "n < 128" | "128 \<le> n" "n < 16384" | "16384 \<le> n" by linarith
  then show ?thesis
  proof cases
    case 1
    have "(ucast b = e) = (b = of_nat n)" for b :: byte
    proof -
      have "unat (ucast b :: uint32) = unat b" "unat (of_nat n :: byte) = n"
        using byte_less [of b] unat_byte [of n] 1 by (simp_all add: unsigned_ucast_eq take_bit_eq_mod)
      then show ?thesis unfolding word_unat_eq_iff n_def by simp
    qed
    then show ?thesis using 1 small window_Cons [OF assms] window_Nil [OF assms]
      by (cases "window st") (auto simp: ExpectTag_def varint_one n_def [symmetric])
  next
    case 2
    have bytes: "(ucast (e OR 0x80) :: byte) = of_nat (n mod 128 + 128)" "(ucast (drop_bit 7 e) :: byte) = of_nat (n div 128)"
      using more_byte_law [of 0 e] by (simp_all add: more_byte_def n_def small_byte unat_drop del: of_nat_unat)
    show ?thesis
    proof (cases "2 \<le> length (window st)")
      case True
      then obtain b0 b1 bs where w: "window st = b0 # b1 # bs" by (metis length_Cons length_greater_0_conv list.exhaust not_numeral_le_zero list.size(3) Suc_le_length_iff numeral_2_eq_2)
      show ?thesis using 2 small len True window_Cons2 [OF assms w] w bytes
        by (auto simp: ExpectTag_def varint_two n_def [symmetric] numeral_2_eq_2)
    next
      case False
      then show ?thesis using 2 small len
        by (auto simp: ExpectTag_def varint_two n_def [symmetric] dest: arg_cong [of _ _ length])
    qed
  next
    case 3
    then show ?thesis using small by (simp add: ExpectTag_def n_def [symmetric])
  qed
qed

lemma ExpectAtEnd_law:
  assumes "stream_ok st"
  shows "ExpectAtEnd st =
    (if window st = [] then (True, st\<lparr>last_tag := 0, legitimate_message_end := True\<rparr>) else (False, st))"
  using assms window_Nil [OF assms] by (auto simp: ExpectAtEnd_def stream_ok_def)

section \<open>Sequences of reads\<close>

text \<open>What a client does with a stream; the old limits are kept on a stack, as the nested calls keep them.\<close>

datatype read_op =
  RTag | RTagCutoff uint32 | RExpectTag uint32 | RExpectAtEnd | RVarint32 | RVarint64 | RLittleEndian32 | RLittleEndian64
| RString int | RSkip int | RPushLimit int | RPopLimit

fun run_read :: "read_op \<Rightarrow> coded_input \<times> int list \<Rightarrow> (coded_input \<times> int list) option" where
  "run_read RTag (st, ls) = map_option (\<lambda>(tag, st). (st, ls)) (ReadTag st)"
| "run_read (RTagCutoff c) (st, ls) = map_option (\<lambda>(tag, below, st). (st, ls)) (ReadTagWithCutoff c st)"
| "run_read (RExpectTag e) (st, ls) = map_option (\<lambda>(ok, st). (st, ls)) (ExpectTag e st)"
| "run_read RExpectAtEnd (st, ls) = Some (snd (ExpectAtEnd st), ls)"
| "run_read RVarint32 (st, ls) = map_option (\<lambda>(ok, v, st). (st, ls)) (ReadVarint32 st)"
| "run_read RVarint64 (st, ls) = map_option (\<lambda>(ok, v, st). (st, ls)) (ReadVarint64 st)"
| "run_read RLittleEndian32 (st, ls) = map_option (\<lambda>(ok, v, st). (st, ls)) (ReadLittleEndian32 st)"
| "run_read RLittleEndian64 (st, ls) = map_option (\<lambda>(ok, v, st). (st, ls)) (ReadLittleEndian64 st)"
| "run_read (RString n) (st, ls) = map_option (\<lambda>(ok, bs, st). (st, ls)) (ReadString n st)"
| "run_read (RSkip n) (st, ls) = map_option (\<lambda>(ok, st). (st, ls)) (Skip n st)"
| "run_read (RPushLimit n) (st, ls) = (let (old, st) = PushLimit n st in Some (st, old # ls))"
| "run_read RPopLimit (st, ls) = (case ls of [] \<Rightarrow> Some (st, []) | l # ls \<Rightarrow> Some (PopLimit l st, ls))"

fun run_reads :: "read_op list \<Rightarrow> coded_input \<times> int list \<Rightarrow> (coded_input \<times> int list) option" where
  "run_reads [] s = Some s"
| "run_reads (p # ps) s = Option.bind (run_read p s) (run_reads ps)"

definition limits_ok :: "byte list \<Rightarrow> coded_input \<times> int list \<Rightarrow> bool" where
  "limits_ok data s \<longleftrightarrow>
     stream_ok (fst s) \<and> ci_data (fst s) = data \<and> sorted (current_limit (fst s) # snd s) \<and>
     (\<forall>l \<in> set (snd s). l \<le> int (length data))"

lemma limits_moved: "limits_ok data (st, ls) \<Longrightarrow> moved st st' \<Longrightarrow> limits_ok data (st', ls)"
  by (simp add: limits_ok_def moved_def)

lemma reads_move:
  assumes "stream_ok st"
  shows "\<exists>t st'. ReadTag st = Some (t, st') \<and> moved st st'"
    "\<exists>t b st'. ReadTagWithCutoff c st = Some (t, b, st') \<and> moved st st'"
    "\<exists>b st'. ExpectTag e st = Some (b, st') \<and> moved st st'"
    "moved st (snd (ExpectAtEnd st))"
    "\<exists>b v st'. ReadLittleEndian32 st = Some (b, v, st') \<and> moved st st'"
    "\<exists>b v st'. ReadLittleEndian64 st = Some (b, v, st') \<and> moved st st'"
    "\<exists>b bs st'. ReadString n st = Some (b, bs, st') \<and> moved st st'"
proof -
  show t: "\<exists>t st'. ReadTag st = Some (t, st') \<and> moved st st'" using ReadTag_law [OF assms] by blast
  show "\<exists>t b st'. ReadTagWithCutoff c st = Some (t, b, st') \<and> moved st st'"
    using t cutoff_tag [OF assms, of c] by auto
  have adv: "moved st (Advance (length v) st)" if "take (length v) (window st) = v" for v
  proof -
    have "min (length (window st)) (length v) = length v" using arg_cong [OF that, of length] by (simp only: length_take)
    then show ?thesis by (intro moved_Advance [OF assms]) linarith
  qed
  then show "\<exists>b st'. ExpectTag e st = Some (b, st') \<and> moved st st'"
    unfolding ExpectTag_law [OF assms] using moved_refl [OF assms] by auto
  show "moved st (snd (ExpectAtEnd st))" unfolding ExpectAtEnd_law [OF assms] using moved_refl [OF assms] by simp
  note m = moved_refl [OF assms] moved_Advance [OF assms]
  show "\<exists>b v st'. ReadLittleEndian32 st = Some (b, v, st') \<and> moved st st'"
    "\<exists>b v st'. ReadLittleEndian64 st = Some (b, v, st') \<and> moved st st'"
    unfolding LittleEndian_law [OF assms] using m by auto
  show "\<exists>b bs st'. ReadString n st = Some (b, bs, st') \<and> moved st st'"
    unfolding ReadString_law [OF assms] using m by auto
qed

lemma run_op_ok:
  assumes "limits_ok data (st, ls)"
  shows "\<exists>st' ls'. run_read p (st, ls) = Some (st', ls') \<and> limits_ok data (st', ls')"
proof -
  have ok: "stream_ok st" using assms by (simp add: limits_ok_def)
  note keep = limits_moved [OF assms]
  have cur: "int (buffer st) \<le> current_limit st" "current_limit st \<le> int (length (ci_data st))" using ok by (auto simp: stream_ok_def)
  show ?thesis
  proof (cases p)
    case (RPushLimit n)
    then show ?thesis using assms cur PushLimit_law [OF ok, of n]
      by (cases "PushLimit n st") (auto simp: limits_ok_def)
  next
    case RPopLimit
    show ?thesis
    proof (cases ls)
      case (Cons l ls')
      then have "int (buffer st) \<le> l" "l \<le> int (length (ci_data st))" using assms cur by (auto simp: limits_ok_def)
      then show ?thesis using assms Cons RPopLimit PopLimit_law [OF ok, of l] by (auto simp: limits_ok_def)
    qed (use RPopLimit assms in simp)
  next
    case (RSkip n)
    then show ?thesis using Skip_law [OF ok, of n] keep by auto
  next
    case RVarint32
    then show ?thesis using varint_moves [OF ok Varint32_law [OF ok]] keep by auto
  next
    case RVarint64
    then show ?thesis using varint_moves [OF ok Varint64_law [OF ok]] keep by auto
  next
    case (RString n)
    then show ?thesis using reads_move(7) [OF ok, of n] keep by auto
  qed (use reads_move(1-6) [OF ok] keep in fastforce)+
qed

lemma run_reads_ok:
  "limits_ok data s \<Longrightarrow> \<exists>s'. run_reads ps s = Some s' \<and> limits_ok data s'"
proof (induction ps arbitrary: s)
  case (Cons p ps)
  obtain st ls where "s = (st, ls)" by fastforce
  then obtain s' where "run_read p s = Some s'" "limits_ok data s'" using run_op_ok [of data st ls p] Cons.prems by auto
  then show ?case using Cons.IH by simp
qed simp

lemma CodedInputStream_ok: "int (length data) \<le> kDefaultTotalBytesLimit \<Longrightarrow> stream_ok (CodedInputStream data)"
  by (simp add: stream_ok_def CodedInputStream_def kDefaultTotalBytesLimit_def INT_MAX_def)

text \<open>C23: on any bytes, as many as the library admits, any sequence of reads, skips and limits, with
  arguments of any size and sign, stays inside the array and never needs the input stream that a flat
  array does not have: the readers that do not check for the end are chosen only where they cannot pass
  it. At the end the position is before the current limit, and the limits on the stack are nested.\<close>

theorem reads_stay_inside:
  assumes "int (length data) \<le> kDefaultTotalBytesLimit"
  shows "\<exists>st ls. run_reads ps (CodedInputStream data, []) = Some (st, ls) \<and> ci_data st = data \<and>
    sorted (int (buffer st) # current_limit st # ls) \<and> (\<forall>l \<in> set (current_limit st # ls). l \<le> int (length data))"
proof -
  have "limits_ok data (CodedInputStream data, [])"
    using CodedInputStream_ok [OF assms] by (simp add: limits_ok_def CodedInputStream_def)
  then obtain st ls where "run_reads ps (CodedInputStream data, []) = Some (st, ls)" and ok: "limits_ok data (st, ls)"
    using run_reads_ok by fastforce
  moreover have "int (buffer st) \<le> current_limit st" "current_limit st \<le> int (length data)"
    using ok by (auto simp: limits_ok_def stream_ok_def)
  ultimately show ?thesis by (fastforce simp: limits_ok_def)
qed

text \<open>Two bytes that announce more, behind a limit of one byte: the number cannot be read.\<close>

theorem reads_stay_inside_witness:
  "int (length [0x80, 0x80 :: byte]) \<le> kDefaultTotalBytesLimit \<and>
   (\<exists>st ls. run_reads [RPushLimit 1, RVarint64, RPopLimit, RTag] (CodedInputStream [0x80, 0x80], []) = Some (st, ls) \<and>
     ci_data st = [0x80, 0x80] \<and> sorted (int (buffer st) # current_limit st # ls))"
proof -
  have "int (length [0x80, 0x80 :: byte]) \<le> kDefaultTotalBytesLimit" by (simp add: kDefaultTotalBytesLimit_def)
  then show ?thesis using reads_stay_inside [of "[0x80, 0x80]" "[RPushLimit 1, RVarint64, RPopLimit, RTag]"] by blast
qed

end
