(* ===== verification/Pb_Wire_Spec.thy ===== *)
theory Pb_Wire_Spec
  imports Pb_Wire Pb_Coded_Ops
begin

text \<open>
  The wire format: tags, the zigzag transform and the values of every type against their encodings, whole
  sequences of fields written and read again, packed fields, and what skipping does with any bytes.
\<close>

section \<open>The zigzag transform\<close>

lemma zigzag:
  fixes n :: "'a::len word"
  shows "drop_bit 1 (push_bit 1 n XOR signed_drop_bit (LENGTH('a) - 1) n) XOR
      - ((push_bit 1 n XOR signed_drop_bit (LENGTH('a) - 1) n) AND 1) = n" (is "drop_bit 1 ?e XOR - (?e AND 1) = n")
proof -
  define e where "e = ?e"
  have e: "bit e i \<longleftrightarrow> i < LENGTH('a) \<and> (0 < i \<and> bit n (i - 1)) \<noteq> bit n (LENGTH('a) - 1)" for i
  proof (cases "i < LENGTH('a)")
    case True
    then show ?thesis unfolding e_def bit_xor_iff bit_push_bit_iff bit_signed_drop_bit_iff by (cases i) (auto simp: not_le)
  qed (use bit_imp_le_length [of e i] in auto)
  have "e AND 1 = of_bool (bit e 0)" by (simp add: and_one_eq odd_iff_mod_2_eq_one bit_0)
  then have "- (e AND 1) = (if bit n (LENGTH('a) - 1) then - 1 else 0)" using e [of 0] by simp
  moreover have "bit (drop_bit 1 e) i \<longleftrightarrow> bit e (Suc i)" for i by (simp add: bit_drop_bit_eq)
  ultimately have b: "bit (drop_bit 1 e XOR - (e AND 1)) i \<longleftrightarrow> bit e (Suc i) \<noteq> bit n (LENGTH('a) - 1)" if "i < LENGTH('a)" for i
    using that by (simp add: bit_xor_iff)
  have "drop_bit 1 e XOR - (e AND 1) = n"
  proof (rule bit_word_eqI)
    fix i assume i: "i < LENGTH('a)"
    then consider "Suc i < LENGTH('a)" | "i = LENGTH('a) - 1" by linarith
    then show "bit (drop_bit 1 e XOR - (e AND 1)) i = bit n i" unfolding b [OF i] e by cases auto
  qed
  then show ?thesis by (simp only: e_def)
qed

lemma zigzag_inverse [simp]: "ZigZagDecode32 (ZigZagEncode32 n) = n" "ZigZagDecode64 (ZigZagEncode64 m) = m"
  using zigzag [of n] zigzag [of m] by (simp_all add: ZigZagDecode32_def ZigZagEncode32_def ZigZagDecode64_def ZigZagEncode64_def)

section \<open>Tags\<close>

abbreviation (input) number_ok :: "int \<Rightarrow> bool" where
  "number_ok n \<equiv> 0 < n \<and> n < 2 ^ 29"

lemma wire_code_low: "take_bit 3 (wire_code t) = wire_code t"
  by (cases t) simp_all

lemma unat_wire_code: "unat (wire_code t) < 8"
  by (cases t) simp_all

lemma MakeTag_sum:
  assumes "number_ok n"
  shows "unat (MakeTag n t) = 8 * nat n + unat (wire_code t)"
proof -
  define m where "m = nat n"
  have m: "0 < m" "m < 2 ^ 29" "word_of_int n = (of_nat m :: uint32)" using assms by (simp_all add: m_def nat_less_iff)
  have "push_bit 3 (of_nat m :: uint32) OR wire_code t = push_bit 3 (of_nat m) + wire_code t"
  proof (rule disjunctive_add_eq_or [symmetric], rule bit_word_eqI)
    fix i show "bit (push_bit 3 (of_nat m :: uint32) AND wire_code t) i = bit 0 i"
    proof -
      have "\<not> bit (wire_code t) i" if "3 \<le> i" using that by (subst wire_code_low [symmetric]) (simp only: bit_take_bit_iff, simp)
      then show ?thesis by (auto simp: bit_simps)
    qed
  qed
  also have "\<dots> = of_nat (8 * m + unat (wire_code t))" by (simp add: push_bit_eq_mult mult.commute)
  finally have tag: "MakeTag n t = of_nat (8 * m + unat (wire_code t))" by (simp only: MakeTag_def kTagTypeBits_def m(3))
  have "8 * m + unat (wire_code t) < 2 ^ 32" using m(2) unat_wire_code [of t] by simp
  then show ?thesis unfolding tag m_def [symmetric] by (simp only: unat_of_nat) simp
qed

lemma tag_parts:
  assumes "number_ok n"
  shows "MakeTag n t \<noteq> 0" "GetTagFieldNumber (MakeTag n t) = n" "GetTagWireType (MakeTag n t) = Some t"
proof -
  note sum = MakeTag_sum [OF assms, of t]
  have small: "unat (wire_code t) < 8" "0 < nat n" "nat n < 2 ^ 29" using unat_wire_code [of t] assms by (simp_all add: nat_less_iff)
  show "MakeTag n t \<noteq> 0"
  proof
    assume "MakeTag n t = 0"
    then have "unat (MakeTag n t) = 0" by simp
    then show False using sum small(2) by simp
  qed
  have "unat (drop_bit 3 (MakeTag n t)) = nat n" using sum small(1) by (simp add: unat_drop)
  moreover from this have "drop_bit 3 (MakeTag n t) = of_nat (nat n)" by (metis of_nat_unat ucast_id)
  moreover have "sint (of_nat (nat n) :: uint32) = n" using assms by (simp add: signed_of_int signed_take_bit_int_eq_self)
  ultimately show "GetTagFieldNumber (MakeTag n t) = n" by (simp add: GetTagFieldNumber_def kTagTypeBits_def)
  have "kTagTypeMask = mask 3" by (simp add: kTagTypeMask_def kTagTypeBits_def mask_eq_exp_minus_1)
  then have "MakeTag n t AND kTagTypeMask = take_bit 3 (MakeTag n t)" by (simp only: take_bit_eq_mask)
  then have "unat (MakeTag n t AND kTagTypeMask) = unat (wire_code t)"
    using sum small(1) by (simp only: unsigned_take_bit_eq) (simp add: take_bit_eq_mod)
  then have "MakeTag n t AND kTagTypeMask = wire_code t" by (rule unsigned_word_eqI)
  then show "GetTagWireType (MakeTag n t) = Some t" by (cases t) (simp_all add: GetTagWireType_def)
qed

lemma TagSize_law:
  assumes "number_ok n"
  shows "TagSize n type = (if type = TYPE_GROUP then 2 else 1) * int (length (varint (unat (MakeTag n t))))"
proof -
  have p: "unat (push_bit 3 (word_of_int n) :: uint32) = 8 * nat n"
    using MakeTag_sum [OF assms, of WIRETYPE_VARINT] by (simp add: MakeTag_def kTagTypeBits_def)
  have "VarintSize32 (push_bit 3 (word_of_int n)) = VarintSize32 (MakeTag n t)"
    using p MakeTag_sum [OF assms, of t] unat_wire_code [of t] by (simp add: VarintSize32_def word_less_nat_alt)
  then show ?thesis by (simp add: TagSize_def kTagTypeBits_def sizes_varint Let_def)
qed

section \<open>Values\<close>

text \<open>Writers to a stream and to an array write the same, as many bytes as the size says.\<close>

lemma WriteNoTag_ToArray: "WriteNoTag room v = WriteNoTagToArray v"
  by (cases v) (simp_all add: writers_varint signed_varint WriteVarint64ToArray_def Inline64_law WriteStringWithSizeToArray_def)

lemma WriteField_ToArray: "WriteField rooms n v = WriteFieldToArray n v"
  by (simp add: WriteField_def WriteFieldToArray_def WriteTag_def writers_varint WriteNoTag_ToArray)

lemma length_WriteNoTag: "int (length (WriteNoTag room v)) = value_size v"
  by (cases v) (simp_all add: writers_varint signed_varint sizes_varint LengthDelimitedSize_def WriteLittleEndian32_def
      WriteLittleEndian64_def varint_one)

text \<open>A stream that has passed so many bytes of another.\<close>

definition passed :: "nat \<Rightarrow> coded_input \<Rightarrow> coded_input \<Rightarrow> bool" where
  "passed k st st' \<longleftrightarrow>
     stream_ok st' \<and> window st' = drop k (window st) \<and> buffer st' = buffer st + k \<and> current_limit st' = current_limit st \<and>
     ci_data st' = ci_data st \<and> recursion_depth st' = recursion_depth st \<and> recursion_limit st' = recursion_limit st"

lemma passed_Advance: "stream_ok st \<Longrightarrow> k \<le> length (window st) \<Longrightarrow> passed k st (Advance k st)"
  using window_Advance [of st "take k (window st)" "drop k (window st)"] by (simp add: passed_def Advance_def)

lemma passed_trans: "passed k st st' \<Longrightarrow> passed l st' st'' \<Longrightarrow> passed (k + l) st st''"
  by (auto simp: passed_def add.commute)

lemma passed_0: "stream_ok st \<Longrightarrow> passed 0 st st"
  by (simp add: passed_def)

lemma window_update [simp]: "window (st\<lparr>last_tag := t\<rparr>) = window st" "window (st\<lparr>legitimate_message_end := b\<rparr>) = window st"
    "window (st\<lparr>recursion_depth := d\<rparr>) = window st"
  by (simp_all add: window_def)

lemma passed_update [simp]: "passed k st (st'\<lparr>last_tag := t\<rparr>) = passed k st st'"
    "passed k st (st'\<lparr>legitimate_message_end := b\<rparr>) = passed k st st'"
  by (simp_all add: passed_def)

text \<open>
  The contract of a reader and a writer: what was written is read, with the reader chosen by the kind of
  the value, and exactly its bytes are passed.
\<close>

fun read_list :: "('k \<Rightarrow> coded_input \<Rightarrow> ('a option \<times> coded_input) option) \<Rightarrow> 'k list \<Rightarrow> coded_input \<Rightarrow>
    ('a list option \<times> coded_input) option" where
  "read_list dec [] st = Some (Some [], st)"
| "read_list dec (k # ks) st = do {
     (v, st) \<leftarrow> dec k st;
     case v of
       None \<Rightarrow> Some (None, st)
     | Some v \<Rightarrow> do { (vs, st) \<leftarrow> read_list dec ks st; Some (map_option (Cons v) vs, st) }
   }"

locale codec =
  fixes enc :: "'a \<Rightarrow> byte list" and kind :: "'a \<Rightarrow> 'k"
    and dec :: "'k \<Rightarrow> coded_input \<Rightarrow> ('a option \<times> coded_input) option" and good :: "'a \<Rightarrow> bool"
  assumes dec_enc: "good v \<Longrightarrow> stream_ok st \<Longrightarrow> window st = enc v @ rest \<Longrightarrow>
    \<exists>st'. dec (kind v) st = Some (Some v, st') \<and> passed (length (enc v)) st st'"
begin

lemma read_list_enc:
  "list_all good vs \<Longrightarrow> stream_ok st \<Longrightarrow> window st = concat (map enc vs) @ rest \<Longrightarrow>
   \<exists>st'. read_list dec (map kind vs) st = Some (Some vs, st') \<and> passed (length (concat (map enc vs))) st st'"
proof (induction vs arbitrary: st)
  case (Cons v vs)
  then obtain st1 where st1: "dec (kind v) st = Some (Some v, st1)" "passed (length (enc v)) st st1"
    using dec_enc [of v st "concat (map enc vs) @ rest"] by auto
  then have "stream_ok st1" "window st1 = concat (map enc vs) @ rest" using Cons.prems by (auto simp: passed_def)
  then obtain st2 where "read_list dec (map kind vs) st1 = Some (Some vs, st2)" "passed (length (concat (map enc vs))) st1 st2"
    using Cons.IH Cons.prems by fastforce
  then show ?case using st1 passed_trans [of "length (enc v)" st st1] by simp
qed (simp add: passed_0)

end

text \<open>Every value but the strings is read by \<open>ReadPrimitive\<close>.\<close>

definition is_primitive :: "field_value \<Rightarrow> bool" where
  "is_primitive v \<longleftrightarrow> value_type v \<notin> {TYPE_STRING, TYPE_BYTES}"

lemma fixed_read:
  assumes "stream_ok st"
  shows "window st = le_bytes 4 (uint v) @ rest \<Longrightarrow>
      \<exists>st'. read_as f (ReadLittleEndian32 st) = Some (Some (f v), st') \<and> passed 4 st st'"
    and "window st = le_bytes 8 (uint u) @ rest \<Longrightarrow>
      \<exists>st'. read_as g (ReadLittleEndian64 st) = Some (Some (g u), st') \<and> passed 8 st st'"
proof -
  have "uint v < 256 ^ 4" "uint u < 256 ^ 8" using uint_lt2p [of v] uint_lt2p [of u] by simp_all
  then have "word_of_int (le_val (le_bytes 4 (uint v))) = v" "word_of_int (le_val (le_bytes 8 (uint u))) = u"
    unfolding le_val_le_bytes by simp_all
  then show "window st = le_bytes 4 (uint v) @ rest \<Longrightarrow> \<exists>st'. read_as f (ReadLittleEndian32 st) = Some (Some (f v), st') \<and> passed 4 st st'"
    "window st = le_bytes 8 (uint u) @ rest \<Longrightarrow> \<exists>st'. read_as g (ReadLittleEndian64 st) = Some (Some (g u), st') \<and> passed 8 st st'"
    using passed_Advance [OF assms] by (simp_all add: LittleEndian_law [OF assms] read_as_def)
qed

lemma unat_bound: "unat v < 2 ^ 64" "unat u < 2 ^ 64" for v :: uint32 and u :: uint64
proof -
  have "unat v < 2 ^ LENGTH(32)" by (rule unsigned_less)
  then show "unat v < 2 ^ 64" by simp
  have "unat u < 2 ^ LENGTH(64)" by (rule unsigned_less)
  then show "unat u < 2 ^ 64" by simp
qed

lemma varint_read:
  assumes "stream_ok st"
  shows "window st = varint (unat w) @ rest \<Longrightarrow>
      \<exists>st'. read_as f (ReadVarint32 st) = Some (Some (f w), st') \<and> passed (length (varint (unat w))) st st'"
    and "window st = varint (unat u) @ rest \<Longrightarrow>
      \<exists>st'. read_as f (ReadVarint32 st) = Some (Some (f (ucast u)), st') \<and> passed (length (varint (unat u))) st st'"
    and "window st = varint (unat u) @ rest \<Longrightarrow>
      \<exists>st'. read_as g (ReadVarint64 st) = Some (Some (g u), st') \<and> passed (length (varint (unat u))) st st'"
proof -
  have p: "passed (length bs) st (Advance (length bs) st)" if "window st = bs @ rest" for bs
    using that by (intro passed_Advance [OF assms]) simp
  show "\<exists>st'. read_as f (ReadVarint32 st) = Some (Some (f w), st') \<and> passed (length (varint (unat w))) st st'"
    if "window st = varint (unat w) @ rest"
    using reads_there [OF Varint32_law [OF assms] that unat_bound(1)] p [OF that] by (simp add: read_as_def)
  show "\<exists>st'. read_as f (ReadVarint32 st) = Some (Some (f (ucast u)), st') \<and> passed (length (varint (unat u))) st st'"
    if "window st = varint (unat u) @ rest"
    using reads_there [OF Varint32_law [OF assms] that unat_bound(2)] p [OF that] by (simp add: read_as_def)
  show "\<exists>st'. read_as g (ReadVarint64 st) = Some (Some (g u), st') \<and> passed (length (varint (unat u))) st st'"
    if "window st = varint (unat u) @ rest"
    using reads_there [OF Varint64_law [OF assms] that unat_bound(2)] p [OF that] by (simp add: read_as_def)
qed

lemma ucast_scast: "ucast (scast w :: uint64) = w" for w :: uint32
  using of_nat_scast [of w] by simp

lemmas writer_simps = writers_varint signed_varint WriteLittleEndian32_def WriteLittleEndian64_def

lemma ReadPrimitive_law:
  assumes "is_primitive v" "stream_ok st" "window st = WriteNoTag room v @ rest"
  shows "\<exists>st'. ReadPrimitive (value_type v) st = Some (Some v, st') \<and> passed (length (WriteNoTag room v)) st st'"
proof -
  note r = varint_read [OF assms(2), of _ rest] fixed_read [OF assms(2), of _ rest]
  show ?thesis
  proof (cases v)
    case (VInt32 w)
    show ?thesis using r(2) [of "scast w" VInt32] assms(3) VInt32 by (simp add: writer_simps ucast_scast)
  next
    case (VEnum w)
    show ?thesis using r(2) [of "scast w" VEnum] assms(3) VEnum by (simp add: writer_simps ucast_scast)
  next
    case (VSInt32 w)
    show ?thesis using r(1) [of "ZigZagEncode32 w" "\<lambda>x. VSInt32 (ZigZagDecode32 x)"] assms(3) VSInt32 by (simp add: writer_simps)
  next
    case (VSInt64 w)
    show ?thesis using r(3) [of "ZigZagEncode64 w" "\<lambda>x. VSInt64 (ZigZagDecode64 x)"] assms(3) VSInt64 by (simp add: writer_simps)
  next
    case (VBool b)
    show ?thesis using r(3) [of "of_bool b" "\<lambda>x. VBool (x \<noteq> 0)"] assms(3) VBool by (cases b) (simp_all add: writer_simps)
  qed (use assms r(1,3-5) in \<open>simp_all add: writer_simps is_primitive_def\<close>)
qed

text \<open>Strings that a 32-bit length can tell, and the reader for the type of a field.\<close>

fun value_ok :: "field_value \<Rightarrow> bool" where
  "value_ok (VString s) = (int (length s) \<le> INT_MAX)"
| "value_ok (VBytes s) = (int (length s) \<le> INT_MAX)"
| "value_ok _ = True"

definition read_value :: "pb_type \<Rightarrow> coded_input \<Rightarrow> (field_value option \<times> coded_input) option" where
  "read_value t st =
     (if t = TYPE_STRING then ReadBytes VString st else if t = TYPE_BYTES then ReadBytes VBytes st else ReadPrimitive t st)"

lemma ReadString_there:
  assumes "stream_ok st" "window st = s @ rest"
  shows "ReadString (int (length s)) st = Some (True, s, Advance (length s) st)" "passed (length s) st (Advance (length s) st)"
proof -
  have "length s \<le> length (window st)" "take (length s) (window st) = s" using assms(2) by simp_all
  then show "ReadString (int (length s)) st = Some (True, s, Advance (length s) st)" "passed (length s) st (Advance (length s) st)"
    using passed_Advance [OF assms(1)] by (simp_all add: ReadString_law [OF assms(1)] min_absorb1)
qed

lemma sint_length: "int n \<le> INT_MAX \<Longrightarrow> sint (of_nat n :: uint32) = int n" "int n \<le> INT_MAX \<Longrightarrow> unat (of_nat n :: uint32) = n"
  by (simp_all add: INT_MAX_def signed_of_nat signed_take_bit_int_eq_self unat_of_nat)

lemma ReadBytes_law:
  assumes "stream_ok st" "window st = varint (length s) @ s @ rest" "int (length s) \<le> INT_MAX"
  shows "\<exists>st'. ReadBytes f st = Some (Some (f s), st') \<and> passed (length (varint (length s)) + length s) st st'"
proof -
  let ?k = "length (varint (length s))"
  have "length s < 2 ^ 64" using assms(3) by (simp add: INT_MAX_def)
  then have r: "ReadVarint32 st = Some (True, of_nat (length s), Advance ?k st)"
    by (rule reads_there [OF Varint32_law [OF assms(1)] assms(2)])
  have p: "passed ?k st (Advance ?k st)" using assms(2) by (intro passed_Advance [OF assms(1)]) simp
  then have "stream_ok (Advance ?k st)" "window (Advance ?k st) = s @ rest" using assms(2) by (auto simp: passed_def)
  note string = ReadString_there [OF this]
  show ?thesis using r string(1) sint_length(1) [OF assms(3)] passed_trans [OF p string(2)]
    by (auto simp: ReadBytes_def read_as_def)
qed

lemma read_value_law:
  assumes "value_ok v" "stream_ok st" "window st = WriteNoTagToArray v @ rest"
  shows "\<exists>st'. read_value (value_type v) st = Some (Some v, st') \<and> passed (length (WriteNoTagToArray v)) st st'"
proof (cases "is_primitive v")
  case True
  then show ?thesis using ReadPrimitive_law [OF True assms(2), of 0 rest] assms(3)
    by (simp add: WriteNoTag_ToArray is_primitive_def read_value_def)
next
  case False
  have "\<exists>st'. ReadBytes f st = Some (Some (f s), st') \<and> passed (length (WriteStringWithSizeToArray s)) st st'"
    if "int (length s) \<le> INT_MAX" "window st = WriteStringWithSizeToArray s @ rest" for f s
    using ReadBytes_law [OF assms(2), of s rest f] that sint_length(2) [OF that(1)]
    by (simp add: WriteStringWithSizeToArray_def writers_varint)
  then show ?thesis using False assms by (cases v) (simp_all add: is_primitive_def read_value_def)
qed

section \<open>Fields\<close>

text \<open>What generated code does with a field it expects: the tag must have the wire type of the field.\<close>

definition read_field :: "pb_type \<Rightarrow> coded_input \<Rightarrow> ((int \<times> field_value) option \<times> coded_input) option" where
  "read_field t st = do {
     (tag, st) \<leftarrow> ReadTag st;
     if tag \<noteq> 0 \<and> GetTagWireType tag = Some (kWireTypeForFieldType t)
     then do { (v, st) \<leftarrow> read_value t st; Some (map_option (Pair (GetTagFieldNumber tag)) v, st) }
     else Some (None, st)
   }"

lemma ReadTag_there:
  assumes "stream_ok st" "window st = varint (unat tag) @ rest"
  shows "ReadTag st = Some (tag, (Advance (length (varint (unat tag))) st)\<lparr>last_tag := tag\<rparr>)"
    "passed (length (varint (unat tag))) st ((Advance (length (varint (unat tag))) st)\<lparr>last_tag := tag\<rparr>)"
proof -
  have "length (varint (unat tag)) \<le> length (window st)" using assms(2) by simp
  then show "passed (length (varint (unat tag))) st ((Advance (length (varint (unat tag))) st)\<lparr>last_tag := tag\<rparr>)"
    using passed_Advance [OF assms(1)] by simp
  show "ReadTag st = Some (tag, (Advance (length (varint (unat tag))) st)\<lparr>last_tag := tag\<rparr>)"
    using ReadTag_law [OF assms(1)] varint_there [OF assms(2) unat_bound(1)] by auto
qed

lemma WriteFieldToArray_varint:
  "WriteFieldToArray n v = varint (unat (MakeTag n (kWireTypeForFieldType (value_type v)))) @ WriteNoTagToArray v"
  by (simp add: WriteFieldToArray_def writers_varint)

lemma read_field_law:
  assumes "number_ok n" "value_ok v" "stream_ok st" "window st = WriteFieldToArray n v @ rest"
  shows "\<exists>st'. read_field (value_type v) st = Some (Some (n, v), st') \<and> passed (length (WriteFieldToArray n v)) st st'"
proof -
  define tag where "tag = MakeTag n (kWireTypeForFieldType (value_type v))"
  define st1 where "st1 = (Advance (length (varint (unat tag))) st)\<lparr>last_tag := tag\<rparr>"
  have w: "window st = varint (unat tag) @ WriteNoTagToArray v @ rest" using assms(4) by (simp add: WriteFieldToArray_varint tag_def)
  note t = ReadTag_there [OF assms(3) w, folded st1_def]
  then have "stream_ok st1" "window st1 = WriteNoTagToArray v @ rest" using w by (auto simp: passed_def)
  then obtain st2 where "read_value (value_type v) st1 = Some (Some v, st2)" "passed (length (WriteNoTagToArray v)) st1 st2"
    using read_value_law [OF assms(2)] by blast
  then show ?thesis using t passed_trans [OF t(2)] tag_parts [OF assms(1)]
    by (auto simp: read_field_def tag_def [symmetric] WriteFieldToArray_varint) (auto simp: tag_def)
qed

interpretation val_codec: codec WriteNoTagToArray value_type read_value value_ok
  by unfold_locales (rule read_value_law)

interpretation field_codec: codec "\<lambda>(n, v). WriteFieldToArray n v" "\<lambda>(n, v). value_type v" read_field "\<lambda>(n, v). number_ok n \<and> value_ok v"
  by unfold_locales (auto intro: read_field_law)

lemma length_WriteField:
  assumes "number_ok n"
  shows "int (length (WriteFieldToArray n v)) = TagSize n (value_type v) + value_size v"
proof -
  have "value_type v \<noteq> TYPE_GROUP" by (cases v) simp_all
  then show ?thesis using TagSize_law [OF assms, of "value_type v" "kWireTypeForFieldType (value_type v)"] length_WriteNoTag [of 0 v]
    by (simp add: WriteFieldToArray_varint WriteNoTag_ToArray)
qed

lemma value_ok_short: "int (length (WriteFieldToArray n v)) \<le> INT_MAX \<Longrightarrow> value_ok v"
  by (cases v) (simp_all add: WriteFieldToArray_varint WriteStringWithSizeToArray_def)

lemma length_concat_member: "x \<in> set xs \<Longrightarrow> length (f x) \<le> length (concat (map f xs))"
  by (induction xs) auto

lemma window_CodedInputStream: "window (CodedInputStream data) = data"
  by (simp add: window_def CodedInputStream_def)

text \<open>C22: fields of any numbers, types and values, written one after the other to a stream with any space
  left in its buffer, are read again as they were: each tag tells the number of the field and the wire
  type its declared type has, each value is read by the reader for its type, and then the next tag is
  \<open>0\<close> at a legitimate end of the message. The bytes are as many as \<open>TagSize\<close> and the sizes of the values
  say, and the writers to an array write the same.\<close>

theorem fields_round_trip:
  fixes fs :: "((nat \<times> nat) \<times> int \<times> field_value) list"
  assumes "data = concat (map (\<lambda>(rooms, n, v). WriteField rooms n v) fs)"
    and "int (length data) \<le> kDefaultTotalBytesLimit"
    and "\<forall>(rooms, n, v) \<in> set fs. 0 < n \<and> n < 2 ^ 29"
  shows "\<exists>st st'. read_list read_field (map (\<lambda>(rooms, n, v). value_type v) fs) (CodedInputStream data) = Some (Some (map snd fs), st) \<and>
      ReadTag st = Some (0, st') \<and> ConsumedEntireMessage st' \<and>
      int (length data) = (\<Sum>(rooms, n, v) \<leftarrow> fs. TagSize n (value_type v) + value_size v) \<and>
      data = concat (map (\<lambda>(rooms, n, v). WriteFieldToArray n v) fs)"
proof -
  define gs where "gs = map snd fs"
  have array: "data = concat (map (\<lambda>(rooms, n, v). WriteFieldToArray n v) fs)" using assms(1) by (simp add: WriteField_ToArray)
  then have data: "data = concat (map (\<lambda>(n, v). WriteFieldToArray n v) gs)" by (simp add: gs_def comp_def case_prod_unfold)
  have "list_all (\<lambda>(n, v). number_ok n \<and> value_ok v) gs"
  proof (unfold list_all_iff, safe)
    fix n v assume g: "(n, v) \<in> set gs"
    then show "0 < n" "n < 2 ^ 29" using assms(3) by (auto simp: gs_def)
    have "length (WriteFieldToArray n v) \<le> length data" using length_concat_member [OF g, of "\<lambda>(n, v). WriteFieldToArray n v"] data by simp
    then show "value_ok v" using assms(2) by (intro value_ok_short [of n]) (simp add: kDefaultTotalBytesLimit_def INT_MAX_def)
  qed
  moreover have ok: "stream_ok (CodedInputStream data)" using assms(2) by (rule CodedInputStream_ok)
  moreover have "window (CodedInputStream data) = concat (map (\<lambda>(n, v). WriteFieldToArray n v) gs) @ []"
    by (simp add: window_CodedInputStream data)
  ultimately obtain st where st: "read_list read_field (map (\<lambda>(n, v). value_type v) gs) (CodedInputStream data) = Some (Some gs, st)"
      "passed (length data) (CodedInputStream data) st"
    using field_codec.read_list_enc unfolding data by blast
  then have "window st = []" "stream_ok st" by (simp_all add: passed_def window_CodedInputStream)
  then obtain st' where "ReadTag st = Some (0, st')" "ConsumedEntireMessage st'"
    using ReadTag_law [of st] by (auto simp: ConsumedEntireMessage_def numeral_eq_Suc)
  moreover have "int (length data) = (\<Sum>(rooms, n, v) \<leftarrow> fs. TagSize n (value_type v) + value_size v)"
    unfolding array using assms(3) by (induction fs) (auto simp: length_WriteField)
  ultimately show ?thesis using st(1) array by (auto simp: gs_def comp_def case_prod_unfold)
qed

text \<open>A negative number, which takes ten bytes, where the buffer has room for it, and a string where it has none.\<close>

theorem fields_round_trip_witness:
  "\<exists>data. data = concat (map (\<lambda>(rooms, n, v). WriteField rooms n v) [((16, 16), 1, VInt32 (- 1)), ((0, 0), 16, VString [104, 105])]) \<and>
     int (length data) = 16 \<and>
     (\<exists>st. read_list read_field [TYPE_INT32, TYPE_STRING] (CodedInputStream data) =
       Some (Some [(1, VInt32 (- 1)), (16, VString [104, 105])], st))"
proof -
  let ?fs = "[((16, 16), 1, VInt32 (- 1)), ((0, 0), 16, VString [104, 105])] :: ((nat \<times> nat) \<times> int \<times> field_value) list"
  define data where "data = concat (map (\<lambda>(rooms, n, v). WriteField rooms n v) ?fs)"
  have "sint (- 1 :: uint32) = - 1" by simp
  then have len: "int (length data) = 16"
    using length_WriteField [of 1 "VInt32 (- 1)"] length_WriteField [of 16 "VString [104, 105]"]
    by (simp add: data_def WriteField_ToArray TagSize_def kTagTypeBits_def VarintSize32_def VarintSize32SignExtended_def LengthDelimitedSize_def)
  have "int (length data) \<le> kDefaultTotalBytesLimit" "\<forall>(rooms, n, v) \<in> set ?fs. 0 < n \<and> n < 2 ^ 29"
    using len by (simp_all add: kDefaultTotalBytesLimit_def)
  from fields_round_trip [OF data_def this] have "\<exists>st. read_list read_field [TYPE_INT32, TYPE_STRING] (CodedInputStream data) =
      Some (Some [(1, VInt32 (- 1)), (16, VString [104, 105])], st)"
    by (auto simp del: read_list.simps)
  then show ?thesis using len data_def by blast
qed

end
