(* ===== verification/Pb_Wire_Skip.thy ===== *)
theory Pb_Wire_Skip
  imports Pb_Wire_Spec
begin

text \<open>
  Skipping fields that are not known: both versions return on any bytes and agree, and the one that
  records writes what it read. Packed fields are read up to their limit.
\<close>

section \<open>Both versions agree\<close>

lemma moved_depth [simp]: "moved st (st'\<lparr>recursion_depth := d\<rparr>) = moved st st'"
    "moved (st\<lparr>recursion_depth := d\<rparr>) st' = moved st st'"
  by (simp_all add: moved_def)

lemma moved_ok: "moved st st' \<Longrightarrow> stream_ok st'"
  by (simp add: moved_def)

lemma window_shrinks: "stream_ok st \<Longrightarrow> moved st st' \<Longrightarrow> length (window st') \<le> length (window st)"
  by (auto simp: moved_def length_window stream_ok_def)

lemma ReadTag_progress:
  assumes "stream_ok st" "ReadTag st = Some (tag, st')" "tag \<noteq> 0"
  shows "length (window st') < length (window st)" "moved st st'"
proof -
  show "moved st st'" using ReadTag_law [OF assms(1)] assms(2) by auto
  obtain n k where u: "unvarint 10 (window st) = Some (n, k)" and st': "st' = (Advance k st)\<lparr>last_tag := tag\<rparr>"
    using ReadTag_law [OF assms(1)] assms(2,3) by (auto split: option.splits)
  have "1 \<le> k" "k \<le> length (window st)" using unvarint_bounds [OF u] by simp_all
  then show "length (window st') < length (window st)" using passed_Advance [OF assms(1), of k] st' by (simp add: passed_def)
qed

text \<open>\<open>Skip\<close> and \<open>ReadString\<close> succeed for the same sizes, and then leave the same stream.\<close>

lemma Skip_ReadString:
  assumes "stream_ok st"
  obtains ok st1 s st2 where "Skip n st = Some (ok, st1)" "ReadString n st = Some (ok, s, st2)" "moved st st1" "moved st st2"
    "ok \<Longrightarrow> st2 = st1"
proof -
  obtain ok st1 where s: "Skip n st = Some (ok, st1)" "moved st st1" using Skip_law [OF assms, of n] by blast
  obtain ok' bs st2 where r: "ReadString n st = Some (ok', bs, st2)" "moved st st2" using reads_move(7) [OF assms, of n] by blast
  have "ok \<longleftrightarrow> 0 \<le> n \<and> n \<le> int (length (window st))" "ok \<Longrightarrow> st1 = Advance (nat n) st"
    using s(1) by (auto simp: Skip_def BufferSize_window [OF assms] Let_def split: if_splits)
  moreover have "ok' \<longleftrightarrow> 0 \<le> n \<and> n \<le> int (length (window st))" "ok' \<Longrightarrow> st2 = Advance (nat n) st"
    using r(1) by (auto simp: ReadString_law [OF assms] nat_le_iff min_absorb1 split: if_splits)
  ultimately show thesis using that s r by blast
qed

definition agree :: "coded_input \<Rightarrow> (bool \<times> coded_input) option \<Rightarrow> (bool \<times> byte list \<times> coded_input) option \<Rightarrow> bool" where
  "agree st r r' \<longleftrightarrow>
     (\<exists>ok st1 out st2. r = Some (ok, st1) \<and> r' = Some (ok, out, st2) \<and> moved st st1 \<and> moved st st2 \<and> (ok \<longrightarrow> st2 = st1))"

lemma agree_Some [simp]:
  "agree st (Some (ok, st1)) (Some (ok', out, st2)) \<longleftrightarrow> ok' = ok \<and> moved st st1 \<and> moved st st2 \<and> (ok \<longrightarrow> st2 = st1)"
  unfolding agree_def by auto

lemma agree_cases:
  assumes "agree st r r'"
  obtains ok st1 out st2 where "r = Some (ok, st1)" "r' = Some (ok, out, st2)" "moved st st1" "moved st st2" "ok \<longrightarrow> st2 = st1"
  using assms unfolding agree_def by blast

lemma agree_moved: "moved st st' \<Longrightarrow> agree st' r r' \<Longrightarrow> agree st r r'"
  by (erule agree_cases) (auto intro: moved_trans)

lemma agree_value: "moved st st' \<Longrightarrow> r = Some (ok, v, st') \<Longrightarrow> agree st (succeeds r) (Some (ok, out, st'))"
  by (simp add: succeeds_def)

lemma skip_field_agree:
  assumes ok: "stream_ok st"
    and inner: "\<And>st' out. stream_ok st' \<Longrightarrow> length (window st') \<le> length (window st) \<Longrightarrow> agree st' (f st') (g out st')"
  shows "agree st (skip_field f tag st) (skip_field_to g room tag out st)"
proof -
  note refl = moved_refl [OF ok]
  have fail: "agree st (Some (False, st)) (Some (False, out, st))" for out using refl by simp
  show ?thesis
  proof (cases "GetTagWireType tag")
    case None
    then show ?thesis using fail by (simp add: skip_field_def skip_field_to_def)
  next
    case (Some t)
    show ?thesis
    proof (cases t)
      case WIRETYPE_VARINT
      obtain b v st' where "ReadVarint64 st = Some (b, v, st')" "moved st st'" using varint_moves [OF ok Varint64_law [OF ok]] by blast
      then show ?thesis using Some WIRETYPE_VARINT by (simp add: skip_field_def skip_field_to_def agree_value)
    next
      case WIRETYPE_FIXED64
      obtain b v st' where "ReadLittleEndian64 st = Some (b, v, st')" "moved st st'" using reads_move(6) [OF ok] by blast
      then show ?thesis using Some WIRETYPE_FIXED64 by (simp add: skip_field_def skip_field_to_def agree_value)
    next
      case WIRETYPE_FIXED32
      obtain b v st' where "ReadLittleEndian32 st = Some (b, v, st')" "moved st st'" using reads_move(5) [OF ok] by blast
      then show ?thesis using Some WIRETYPE_FIXED32 by (simp add: skip_field_def skip_field_to_def agree_value)
    next
      case WIRETYPE_LENGTH_DELIMITED
      obtain b n st' where r: "ReadVarint32 st = Some (b, n, st')" "moved st st'" using varint_moves [OF ok Varint32_law [OF ok]] by blast
      obtain okay st1 s st2 where "Skip (sint n) st' = Some (okay, st1)" "ReadString (sint n) st' = Some (okay, s, st2)"
          "moved st' st1" "moved st' st2" "okay \<Longrightarrow> st2 = st1"
        using Skip_ReadString [OF moved_ok [OF r(2)]] by blast
      then show ?thesis using Some WIRETYPE_LENGTH_DELIMITED r
        by (auto simp: skip_field_def skip_field_to_def Let_def intro: moved_trans)
    next
      case WIRETYPE_START_GROUP
      let ?st = "st\<lparr>recursion_depth := recursion_depth st + 1\<rparr>"
      have "agree ?st (f ?st) (g (emit32 room tag out) ?st)" using ok by (intro inner) simp_all
      then obtain okay st1 out' st2 where "f ?st = Some (okay, st1)" "g (emit32 room tag out) ?st = Some (okay, out', st2)"
          "moved st st1" "moved st st2" "okay \<longrightarrow> st2 = st1"
        by (rule agree_cases) simp
      then show ?thesis using Some WIRETYPE_START_GROUP refl
        by (auto simp: skip_field_def skip_field_to_def IncrementRecursionDepth_def DecrementRecursionDepth_def Let_def)
    qed (use Some fail in \<open>simp add: skip_field_def skip_field_to_def\<close>)
  qed
qed

lemma SkipMessage_agree: "stream_ok st \<Longrightarrow> agree st (SkipMessage st) (SkipMessageTo room out st)"
proof (induction "length (window st)" arbitrary: st out rule: less_induct)
  case less
  obtain tag st1 where t: "ReadTag st = Some (tag, st1)" "moved st st1" using reads_move(1) [OF less.prems] by blast
  show ?case
  proof (cases "tag = 0 \<or> GetTagWireType tag = Some WIRETYPE_END_GROUP")
    case True
    then show ?thesis using t by (subst SkipMessage.simps, subst SkipMessageTo.simps) auto
  next
    case False
    then have short: "length (window st1) < length (window st)" using ReadTag_progress [OF less.prems t(1)] by blast
    have "agree st1 (skip_field SkipMessage tag st1) (skip_field_to (SkipMessageTo room) room tag out st1)"
      using short by (intro skip_field_agree moved_ok [OF t(2)] less.hyps) auto
    then obtain ok st2 out' st3 where f: "skip_field SkipMessage tag st1 = Some (ok, st2)"
        "skip_field_to (SkipMessageTo room) room tag out st1 = Some (ok, out', st3)" "moved st1 st2" "moved st1 st3" "ok \<longrightarrow> st3 = st2"
      by (rule agree_cases)
    show ?thesis
    proof (cases ok)
      case True
      have "agree st2 (SkipMessage st2) (SkipMessageTo room out' st2)"
        using short window_shrinks [OF moved_ok [OF t(2)] f(3)] moved_ok [OF f(3)] by (intro less.hyps) auto
      then show ?thesis using t f True False
        by (subst SkipMessage.simps, subst SkipMessageTo.simps) (auto intro: agree_moved moved_trans)
    next
      case not: False
      then show ?thesis using t f False
        by (subst SkipMessage.simps, subst SkipMessageTo.simps) (auto intro: moved_trans)
    qed
  qed
qed

text \<open>C24: on any bytes behind any tag, a field that is not known is skipped in a finite number of steps, inside
  the array and before the current limit, however the groups are nested; the version that records what
  it skips succeeds exactly where the other does, and then leaves the stream in the same state.\<close>

theorem skipping_returns:
  assumes "stream_ok st"
  shows "\<exists>ok st1 out' st2. SkipField tag st = Some (ok, st1) \<and> SkipFieldTo room tag out st = Some (ok, out', st2) \<and>
      (ok \<longrightarrow> st2 = st1) \<and> (\<forall>st' \<in> {st1, st2}. stream_ok st' \<and> buffer st \<le> buffer st' \<and>
        int (buffer st') \<le> current_limit st \<and> current_limit st' = current_limit st \<and> ci_data st' = ci_data st)"
proof -
  have "agree st (SkipField tag st) (SkipFieldTo room tag out st)"
    unfolding SkipField_def SkipFieldTo_def by (intro skip_field_agree [OF assms] SkipMessage_agree)
  then obtain ok st1 out' st2 where r: "SkipField tag st = Some (ok, st1)" "SkipFieldTo room tag out st = Some (ok, out', st2)"
      "moved st st1" "moved st st2" "ok \<longrightarrow> st2 = st1"
    by (rule agree_cases)
  have "stream_ok st' \<and> buffer st \<le> buffer st' \<and> int (buffer st') \<le> current_limit st \<and> current_limit st' = current_limit st \<and>
      ci_data st' = ci_data st" if "moved st st'" for st'
    using that by (auto simp: moved_def stream_ok_def)
  then show ?thesis using r by auto
qed

theorem skipping_returns_witness:
  "stream_ok (CodedInputStream [0x0B, 0x08, 0x80, 0x0C]) \<and>
   (\<exists>ok st1 out' st2. SkipField 0x0B (CodedInputStream [0x0B, 0x08, 0x80, 0x0C]) = Some (ok, st1) \<and>
     SkipFieldTo (\<lambda>n. 4) 0x0B [] (CodedInputStream [0x0B, 0x08, 0x80, 0x0C]) = Some (ok, out', st2) \<and> (ok \<longrightarrow> st2 = st1))"
proof -
  have "stream_ok (CodedInputStream [0x0B, 0x08, 0x80, 0x0C])" by (rule CodedInputStream_ok) (simp add: kDefaultTotalBytesLimit_def)
  then show ?thesis using skipping_returns [of "CodedInputStream [0x0B, 0x08, 0x80, 0x0C]" "0x0B" "\<lambda>n. 4" "[]"] by blast
qed

section \<open>What is recorded\<close>

text \<open>The fields of a message of a type that is not known here, with its groups.\<close>

datatype wire_field = Leaf int field_value | Group int "wire_field list"

fun put_field :: "wire_field \<Rightarrow> byte list" where
  "put_field (Leaf n v) = WriteFieldToArray n v"
| "put_field (Group n fs) = WriteGroupToArray n (concat (map put_field fs))"

fun nesting :: "wire_field \<Rightarrow> nat" where
  "nesting (Leaf n v) = 0"
| "nesting (Group n fs) = Suc (foldr max (map nesting fs) 0)"

fun well_numbered :: "wire_field \<Rightarrow> bool" where
  "well_numbered (Leaf n v) \<longleftrightarrow> 0 < n \<and> n < 2 ^ 29"
| "well_numbered (Group n fs) \<longleftrightarrow> 0 < n \<and> n < 2 ^ 29 \<and> list_all well_numbered fs"

fun values_ok :: "wire_field \<Rightarrow> bool" where
  "values_ok (Leaf n v) = value_ok v"
| "values_ok (Group n fs) = list_all values_ok fs"

lemma nesting_member: "f \<in> set fs \<Longrightarrow> nesting f \<le> foldr max (map nesting fs) 0"
  by (induction fs) (auto simp: max_def intro: le_trans)

lemma values_ok_short: "int (length (put_field f)) \<le> INT_MAX \<Longrightarrow> values_ok f"
proof (induction f)
  case (Group n fs)
  have "int (length (put_field f)) \<le> INT_MAX" if "f \<in> set fs" for f
    using length_concat_member [OF that, of put_field] Group.prems by (simp add: WriteGroupToArray_def)
  then show ?case using Group.IH by (simp add: list_all_iff)
qed (auto intro: value_ok_short)

lemma varint_bytes:
  assumes "kWireTypeForFieldType (value_type v) = WIRETYPE_VARINT"
  obtains u :: uint64 where "WriteNoTagToArray v = varint (unat u)"
proof -
  have up: "unat (ucast w :: uint64) = unat w" for w :: uint32
    using unsigned_less [of w, where 'a = nat] by (simp add: unsigned_ucast_eq take_bit_eq_mod)
  have "\<exists>u :: uint64. WriteNoTagToArray v = varint (unat u)"
    using assms by (cases v) (auto simp: writer_simps WriteVarint64ToArray_def Inline64_law simp flip: up intro: exI [of _ 1] exI [of _ 0])
  then show thesis using that by blast
qed

lemma fixed_bytes:
  "kWireTypeForFieldType (value_type v) = WIRETYPE_FIXED32 \<Longrightarrow> \<exists>w. WriteNoTagToArray v = le_bytes 4 (uint (w :: uint32))"
  "kWireTypeForFieldType (value_type v) = WIRETYPE_FIXED64 \<Longrightarrow> \<exists>u. WriteNoTagToArray v = le_bytes 8 (uint (u :: uint64))"
  by (cases v; auto simp: writer_simps)+

lemma length_bytes:
  "value_ok v \<Longrightarrow> kWireTypeForFieldType (value_type v) = WIRETYPE_LENGTH_DELIMITED \<Longrightarrow>
   \<exists>s. WriteNoTagToArray v = varint (length s) @ s \<and> int (length s) \<le> INT_MAX"
  by (cases v) (auto simp: WriteStringWithSizeToArray_def writers_varint sint_length(2))

lemma wire_type_value:
  "kWireTypeForFieldType (value_type v) \<in> {WIRETYPE_VARINT, WIRETYPE_FIXED64, WIRETYPE_LENGTH_DELIMITED, WIRETYPE_FIXED32}"
  by (cases v) simp_all

lemma emit_simps: "emit32 room w out = out @ varint (unat w)" "emit64 room u out = out @ varint (unat u)"
  by (simp_all add: emit32_def emit64_def writers_varint)

text \<open>The value of a field is recorded behind its tag as it is.\<close>

lemma skip_leaf:
  assumes "value_ok v" "stream_ok st" "window st = WriteNoTagToArray v @ rest" "GetTagWireType tag = Some (kWireTypeForFieldType (value_type v))"
  shows "\<exists>st'. skip_field_to g room tag out st = Some (True, out @ varint (unat tag) @ WriteNoTagToArray v, st') \<and>
    passed (length (WriteNoTagToArray v)) st st'"
proof -
  have p: "passed (length (WriteNoTagToArray v)) st (Advance (length (WriteNoTagToArray v)) st)"
    using assms(3) by (intro passed_Advance [OF assms(2)]) simp
  consider "kWireTypeForFieldType (value_type v) = WIRETYPE_VARINT" | "kWireTypeForFieldType (value_type v) = WIRETYPE_FIXED64"
    | "kWireTypeForFieldType (value_type v) = WIRETYPE_LENGTH_DELIMITED" | "kWireTypeForFieldType (value_type v) = WIRETYPE_FIXED32"
    using wire_type_value [of v] by auto
  then show ?thesis
  proof cases
    case 1
    then obtain u :: uint64 where u: "WriteNoTagToArray v = varint (unat u)" by (rule varint_bytes)
    have "ReadVarint64 st = Some (True, u, Advance (length (varint (unat u))) st)"
      using reads_there [OF Varint64_law [OF assms(2)] _ unat_bound(2)] assms(3) unfolding u by simp
    then show ?thesis using 1 p u assms(4) by (auto simp: skip_field_to_def emit_simps)
  next
    case 2
    then obtain u where u: "WriteNoTagToArray v = le_bytes 8 (uint (u :: uint64))" using fixed_bytes by blast
    then have "ReadLittleEndian64 st = Some (True, u, Advance 8 st)"
      using fixed_read(2) [OF assms(2), of u rest VFixed64] assms(3) LittleEndian_law(2) [OF assms(2)] by (auto simp: read_as_def)
    then show ?thesis using 2 p u assms(4) by (auto simp: skip_field_to_def emit_simps WriteLittleEndian64_def)
  next
    case 3
    then obtain s where s: "WriteNoTagToArray v = varint (length s) @ s" "int (length s) \<le> INT_MAX" using length_bytes assms(1) by blast
    let ?k = "length (varint (length s))"
    have w: "window st = varint (length s) @ s @ rest" using assms(3) s(1) by simp
    have "length s < 2 ^ 64" using s(2) by (simp add: INT_MAX_def)
    then have r: "ReadVarint32 st = Some (True, of_nat (length s), Advance ?k st)" by (rule reads_there [OF Varint32_law [OF assms(2)] w])
    have "stream_ok (Advance ?k st)" "window (Advance ?k st) = s @ rest" using window_Advance [OF assms(2) w] by simp_all
    note str = ReadString_there [OF this]
    have "passed ?k st (Advance ?k st)" using w by (intro passed_Advance [OF assms(2)]) simp
    then have "passed (?k + length s) st (Advance (length s) (Advance ?k st))" using str(2) by (rule passed_trans)
    then show ?thesis using 3 r s str(1) sint_length [OF s(2)] assms(4) by (auto simp: skip_field_to_def emit_simps Let_def)
  next
    case 4
    then obtain w where w: "WriteNoTagToArray v = le_bytes 4 (uint (w :: uint32))" using fixed_bytes by blast
    then have "ReadLittleEndian32 st = Some (True, w, Advance 4 st)"
      using fixed_read(1) [OF assms(2), of w rest VFixed32] assms(3) LittleEndian_law(1) [OF assms(2)] by (auto simp: read_as_def)
    then show ?thesis using 4 p w assms(4) by (auto simp: skip_field_to_def emit_simps WriteLittleEndian32_def)
  qed
qed

text \<open>\<open>SkipMessageTo\<close> goes past a field and records it.\<close>

definition goes_past :: "(nat \<Rightarrow> nat) \<Rightarrow> nat \<Rightarrow> byte list \<Rightarrow> bool" where
  "goes_past room d bs \<longleftrightarrow>
     (\<forall>st out rest. stream_ok st \<longrightarrow> window st = bs @ rest \<longrightarrow> 0 \<le> recursion_depth st \<longrightarrow> recursion_depth st + int d \<le> recursion_limit st \<longrightarrow>
       (\<exists>st'. SkipMessageTo room out st = SkipMessageTo room (out @ bs) st' \<and> passed (length bs) st st'))"

lemma goes_past_list:
  "list_all (\<lambda>f. goes_past room d (put_field f)) fs \<Longrightarrow> goes_past room d (concat (map put_field fs))"
proof (induction fs)
  case (Cons f fs)
  have f: "goes_past room d (put_field f)" and fs: "goes_past room d (concat (map put_field fs))" using Cons by simp_all
  show ?case unfolding goes_past_def
  proof (intro allI impI)
    fix st out rest
    assume st: "stream_ok st" "window st = concat (map put_field (f # fs)) @ rest" "0 \<le> recursion_depth st"
      "recursion_depth st + int d \<le> recursion_limit st"
    then obtain st1 where st1: "SkipMessageTo room out st = SkipMessageTo room (out @ put_field f) st1" "passed (length (put_field f)) st st1"
      using f unfolding goes_past_def by fastforce
    then have "stream_ok st1" "window st1 = concat (map put_field fs) @ rest" "0 \<le> recursion_depth st1"
        "recursion_depth st1 + int d \<le> recursion_limit st1"
      using st by (auto simp: passed_def)
    then obtain st2 where "SkipMessageTo room (out @ put_field f) st1 = SkipMessageTo room ((out @ put_field f) @ concat (map put_field fs)) st2"
        "passed (length (concat (map put_field fs))) st1 st2"
      using fs unfolding goes_past_def by blast
    then show "\<exists>st'. SkipMessageTo room out st = SkipMessageTo room (out @ concat (map put_field (f # fs))) st' \<and>
        passed (length (concat (map put_field (f # fs)))) st st'"
      using st1 passed_trans [OF st1(2)] by auto
  qed
qed (auto simp: goes_past_def intro: passed_0)

lemma goes_past_mono: "goes_past room d bs \<Longrightarrow> d \<le> d' \<Longrightarrow> goes_past room d' bs"
  unfolding goes_past_def by (meson add_left_mono of_nat_le_iff order_trans)

lemma skip_step:
  assumes "ReadTag st = Some (tag, st1)" "tag \<noteq> 0" "GetTagWireType tag \<noteq> Some WIRETYPE_END_GROUP"
    and "skip_field_to (SkipMessageTo room) room tag out st1 = Some (True, out', st2)"
  shows "SkipMessageTo room out st = SkipMessageTo room out' st2"
  using assms by (subst SkipMessageTo.simps) simp

lemma goes_past_leaf:
  assumes "number_ok n" "value_ok v"
  shows "goes_past room d (WriteFieldToArray n v)"
  unfolding goes_past_def
proof (intro allI impI)
  fix st out rest assume st: "stream_ok st" "window st = WriteFieldToArray n v @ rest"
  define tag where "tag = MakeTag n (kWireTypeForFieldType (value_type v))"
  define st1 where "st1 = (Advance (length (varint (unat tag))) st)\<lparr>last_tag := tag\<rparr>"
  have w: "window st = varint (unat tag) @ WriteNoTagToArray v @ rest" using st(2) by (simp add: WriteFieldToArray_varint tag_def)
  note t = ReadTag_there [OF st(1) w, folded st1_def] tag_parts [OF assms(1), of "kWireTypeForFieldType (value_type v)", folded tag_def]
  have "stream_ok st1" "window st1 = WriteNoTagToArray v @ rest" using t(2) w by (auto simp: passed_def)
  then obtain st2 where st2: "skip_field_to (SkipMessageTo room) room tag out st1 = Some (True, out @ varint (unat tag) @ WriteNoTagToArray v, st2)"
      "passed (length (WriteNoTagToArray v)) st1 st2"
    using skip_leaf [OF assms(2) _ _ t(5)] by blast
  have "GetTagWireType tag \<noteq> Some WIRETYPE_END_GROUP" using t(5) wire_type_value [of v] by auto
  then have "SkipMessageTo room out st = SkipMessageTo room (out @ WriteFieldToArray n v) st2"
    using skip_step [OF t(1,3) _ st2(1)] by (simp add: WriteFieldToArray_varint tag_def)
  then show "\<exists>st'. SkipMessageTo room out st = SkipMessageTo room (out @ WriteFieldToArray n v) st' \<and> passed (length (WriteFieldToArray n v)) st st'"
    using passed_trans [OF t(2) st2(2)] by (auto simp: WriteFieldToArray_varint tag_def)
qed

text \<open>The fields of a group up to its end tag, one level deeper.\<close>

lemma skip_group:
  assumes "number_ok n" "goes_past room d bs" "stream_ok st" "0 \<le> recursion_depth st" "recursion_depth st + int (Suc d) \<le> recursion_limit st"
    and "window st = bs @ varint (unat (MakeTag n WIRETYPE_END_GROUP)) @ rest"
  shows "\<exists>st'. skip_field_to (SkipMessageTo room) room (MakeTag n WIRETYPE_START_GROUP) out st =
      Some (True, out @ WriteGroupToArray n bs, st') \<and> passed (length bs + length (varint (unat (MakeTag n WIRETYPE_END_GROUP)))) st st'"
proof -
  define stop where "stop = MakeTag n WIRETYPE_END_GROUP"
  define out1 where "out1 = out @ varint (unat (MakeTag n WIRETYPE_START_GROUP))"
  let ?st = "st\<lparr>recursion_depth := recursion_depth st + 1\<rparr>"
  note start = tag_parts [OF assms(1), of WIRETYPE_START_GROUP]
  note ends = tag_parts [OF assms(1), of WIRETYPE_END_GROUP, folded stop_def]
  obtain st2 where st2: "SkipMessageTo room out1 ?st = SkipMessageTo room (out1 @ bs) st2" "passed (length bs) ?st st2"
  proof -
    have "stream_ok ?st" "window ?st = bs @ varint (unat stop) @ rest" "0 \<le> recursion_depth ?st" "recursion_depth ?st + int d \<le> recursion_limit ?st"
      using assms(3-6) by (simp_all add: stop_def)
    then show thesis using assms(2) that unfolding goes_past_def by blast
  qed
  then have w2: "stream_ok st2" "window st2 = varint (unat stop) @ rest" using assms(6) by (auto simp: passed_def stop_def)
  define st3 where "st3 = (Advance (length (varint (unat stop))) st2)\<lparr>last_tag := stop\<rparr>"
  note t = ReadTag_there [OF w2, folded st3_def]
  have "SkipMessageTo room (out1 @ bs) st2 = Some (True, (out1 @ bs) @ varint (unat stop), st3)"
    using t(1) ends by (subst SkipMessageTo.simps) (simp add: emit_simps)
  then have inner: "SkipMessageTo room out1 ?st = Some (True, out @ WriteGroupToArray n bs, st3)"
    using st2(1) by (simp add: out1_def WriteGroupToArray_def writers_varint stop_def)
  have p: "passed (length bs + length (varint (unat stop))) ?st st3" using st2(2) t(2) by (rule passed_trans)
  then have d: "recursion_depth st3 = recursion_depth st + 1" by (simp add: passed_def)
  have "skip_field_to (SkipMessageTo room) room (MakeTag n WIRETYPE_START_GROUP) out st =
      Some (True, out @ WriteGroupToArray n bs, st3\<lparr>recursion_depth := recursion_depth st\<rparr>)"
    using start inner d assms(4,5)
    by (simp add: skip_field_to_def emit_simps out1_def [symmetric] IncrementRecursionDepth_def DecrementRecursionDepth_def Let_def LastTagWas_def)
      (simp add: st3_def stop_def)
  moreover have "passed (length bs + length (varint (unat stop))) st (st3\<lparr>recursion_depth := recursion_depth st\<rparr>)"
    using p by (simp add: passed_def)
  ultimately show ?thesis by (auto simp: stop_def)
qed

lemma goes_past_group:
  assumes "number_ok n" "goes_past room d bs"
  shows "goes_past room (Suc d) (WriteGroupToArray n bs)"
  unfolding goes_past_def
proof (intro allI impI)
  fix st out rest assume st: "stream_ok st" "window st = WriteGroupToArray n bs @ rest" "0 \<le> recursion_depth st"
    "recursion_depth st + int (Suc d) \<le> recursion_limit st"
  let ?start = "MakeTag n WIRETYPE_START_GROUP" and ?stop = "varint (unat (MakeTag n WIRETYPE_END_GROUP))"
  define st1 where "st1 = (Advance (length (varint (unat ?start))) st)\<lparr>last_tag := ?start\<rparr>"
  have bytes: "WriteGroupToArray n bs = varint (unat ?start) @ bs @ ?stop" by (simp add: WriteGroupToArray_def writers_varint)
  then have w: "window st = varint (unat ?start) @ bs @ ?stop @ rest" using st(2) by simp
  note t = ReadTag_there [OF st(1) w, folded st1_def] tag_parts [OF assms(1), of WIRETYPE_START_GROUP]
  have "stream_ok st1" "0 \<le> recursion_depth st1" "recursion_depth st1 + int (Suc d) \<le> recursion_limit st1" "window st1 = bs @ ?stop @ rest"
    using t(2) w st by (auto simp: passed_def)
  from skip_group [OF assms this] obtain st2 where st2:
      "skip_field_to (SkipMessageTo room) room ?start out st1 = Some (True, out @ WriteGroupToArray n bs, st2)"
      "passed (length bs + length ?stop) st1 st2"
    by blast
  then show "\<exists>st'. SkipMessageTo room out st = SkipMessageTo room (out @ WriteGroupToArray n bs) st' \<and> passed (length (WriteGroupToArray n bs)) st st'"
    using skip_step [OF t(1,3) _ st2(1)] t(5) passed_trans [OF t(2) st2(2)] by (auto simp: bytes add.assoc)
qed

lemma goes_past_field: "well_numbered f \<Longrightarrow> values_ok f \<Longrightarrow> goes_past room (nesting f) (put_field f)"
proof (induction f)
  case (Group n fs)
  have "list_all (\<lambda>f. goes_past room (foldr max (map nesting fs) 0) (put_field f)) fs"
    using Group nesting_member by (fastforce simp: list_all_iff intro: goes_past_mono)
  then show ?case using goes_past_group [OF _ goes_past_list] Group.prems by simp
qed (simp add: goes_past_leaf)

text \<open>C25: the fields of a message whose type is not known, of any types and with groups nested at most as deep as
  the library admits, are recorded byte for byte when they are skipped, whatever space the output has
  left in its buffer at any time, and the message is consumed to its end.\<close>

theorem unknown_fields_kept:
  assumes "data = concat (map put_field fs)" "int (length data) \<le> kDefaultTotalBytesLimit"
    and "list_all well_numbered fs" "list_all (\<lambda>f. nesting f \<le> 100) fs"
  shows "\<exists>st. SkipMessageTo room [] (CodedInputStream data) = Some (True, data, st) \<and> ConsumedEntireMessage st"
proof -
  have "values_ok f" if "f \<in> set fs" for f
    using length_concat_member [OF that, of put_field] assms(1,2)
    by (intro values_ok_short) (simp add: kDefaultTotalBytesLimit_def INT_MAX_def)
  then have "goes_past room 100 (concat (map put_field fs))"
    using assms(3,4) by (intro goes_past_list) (auto simp: list_all_iff intro: goes_past_mono [OF goes_past_field])
  moreover have "stream_ok (CodedInputStream data)" using assms(2) by (rule CodedInputStream_ok)
  moreover have "window (CodedInputStream data) = concat (map put_field fs) @ []" using assms(1) by (simp add: window_CodedInputStream)
  moreover have "recursion_depth (CodedInputStream data) = 0" "recursion_limit (CodedInputStream data) = 100"
    by (simp_all add: CodedInputStream_def)
  ultimately obtain st where st: "SkipMessageTo room [] (CodedInputStream data) = SkipMessageTo room ([] @ data) st"
      "passed (length data) (CodedInputStream data) st"
  proof -
    assume past: "goes_past room 100 (concat (map put_field fs))" "stream_ok (CodedInputStream data)"
      "window (CodedInputStream data) = concat (map put_field fs) @ []"
      "recursion_depth (CodedInputStream data) = 0" "recursion_limit (CodedInputStream data) = 100"
    then have "0 \<le> recursion_depth (CodedInputStream data)" "recursion_depth (CodedInputStream data) + int 100 \<le> recursion_limit (CodedInputStream data)"
      by simp_all
    then show thesis using past(1-3) that assms(1) unfolding goes_past_def by blast
  qed
  then have "stream_ok st" "window st = []" by (simp_all add: passed_def window_CodedInputStream)
  then obtain st' where t: "ReadTag st = Some (0, st')" "ConsumedEntireMessage st'"
    using ReadTag_law [of st] by (auto simp: ConsumedEntireMessage_def numeral_eq_Suc)
  have "SkipMessageTo room data st = Some (True, data, st')" using t(1) by (subst SkipMessageTo.simps) simp
  then show ?thesis using st(1) t(2) by simp
qed

text \<open>A group with a string in it, recorded to a stream that has no room.\<close>

theorem unknown_fields_kept_witness:
  "int (length (concat (map put_field [Group 1 [Leaf 2 (VString [104, 105])]]))) \<le> kDefaultTotalBytesLimit \<and>
   (\<exists>st. SkipMessageTo (\<lambda>n. 0) [] (CodedInputStream (concat (map put_field [Group 1 [Leaf 2 (VString [104, 105])]]))) =
     Some (True, concat (map put_field [Group 1 [Leaf 2 (VString [104, 105])]]), st))"
proof -
  have "int (length (concat (map put_field [Group 1 [Leaf 2 (VString [104, 105])]]))) \<le> kDefaultTotalBytesLimit"
    using length_WriteField [of 2 "VString [104, 105]"] TagSize_law [of 1 TYPE_INT32 WIRETYPE_START_GROUP] TagSize_law [of 1 TYPE_INT32 WIRETYPE_END_GROUP]
    by (simp add: WriteGroupToArray_def writers_varint TagSize_def kTagTypeBits_def VarintSize32_def LengthDelimitedSize_def kDefaultTotalBytesLimit_def)
  then show ?thesis using unknown_fields_kept [OF refl, of "[Group 1 [Leaf 2 (VString [104, 105])]]" "\<lambda>n. 0"] by (auto simp del: put_field.simps map_concat)
qed

text \<open>
  The skipper for values that are not in an enumeration writes the number of the field where its tag
  belongs, so that the value is found under the number divided by eight.
\<close>

lemma unknown_enum_lost:
  assumes "number_ok n" "stream_ok st" "window st = SkipUnknownEnum room n v [] @ rest"
  shows "\<exists>st'. ReadTag st = Some (word_of_int n, st') \<and> GetTagFieldNumber (word_of_int n) = n div 8 \<and> n div 8 \<noteq> n"
proof -
  have n: "unat (word_of_int n :: uint32) = nat n" using assms(1) by (simp add: unsigned_of_int take_bit_int_eq_self unat_eq_nat_uint)
  have "window st = varint (unat (word_of_int n :: uint32)) @ varint (unat (scast v :: uint64)) @ rest"
    using assms(3) by (simp add: SkipUnknownEnum_def emit_simps)
  from ReadTag_there(1) [OF assms(2) this] have "\<exists>st'. ReadTag st = Some (word_of_int n, st')" by blast
  moreover have "GetTagFieldNumber (word_of_int n) = n div 8"
  proof -
    have "unat (drop_bit 3 (word_of_int n :: uint32)) = nat n div 8" using n by (simp add: unat_drop)
    then have "drop_bit 3 (word_of_int n :: uint32) = of_nat (nat n div 8)" by (metis of_nat_unat ucast_id)
    moreover have "int (nat n div 8) = n div 8" using assms(1) by (simp add: zdiv_int)
    moreover have "n div 8 \<le> INT_MAX" using assms(1) zdiv_mono1 [of n "2 ^ 29" 8] by (simp add: INT_MAX_def)
    ultimately show ?thesis using sint_length(1) [of "nat n div 8"] by (simp add: GetTagFieldNumber_def kTagTypeBits_def)
  qed
  moreover have "n div 8 \<noteq> n" using assms(1) by linarith
  ultimately show ?thesis by blast
qed

end
