(* ===== verification/Pb_Wire_Packed.thy ===== *)
theory Pb_Wire_Packed
  imports Pb_Wire_Spec
begin

text \<open>
  Packed fields: the readers return on any bytes, the quicker one for values of a fixed size agrees with
  reading one value after the other, and packed values that were written are read again.
\<close>

section \<open>Limits\<close>

lemma window_eq: "stream_ok st \<Longrightarrow> window st = take (nat (current_limit st) - buffer st) (drop (buffer st) (ci_data st))"
proof -
  assume "stream_ok st"
  then have "nat (current_limit st) = buffer_end st" by (metis stream_ok_def nat_int)
  then show ?thesis by (simp add: window_def)
qed

lemma position_law: "stream_ok st \<Longrightarrow> CurrentPosition st = int (buffer st)"
  by (auto simp: CurrentPosition_def BufferSize_def stream_ok_def)

text \<open>The array is shorter than the greatest \<open>int\<close>, which stands for no limit.\<close>

abbreviation (input) bounded :: "coded_input \<Rightarrow> bool" where
  "bounded st \<equiv> int (length (ci_data st)) < INT_MAX"

lemma until_limit: "stream_ok st \<Longrightarrow> bounded st \<Longrightarrow> BytesUntilLimit st = int (length (window st))"
  by (subst length_window) (auto simp: BytesUntilLimit_def position_law stream_ok_def)

lemma limits_keep [simp]:
  "recursion_depth (RecomputeBufferLimits st) = recursion_depth st" "recursion_limit (RecomputeBufferLimits st) = recursion_limit st"
  by (simp_all add: RecomputeBufferLimits_def Let_def)

lemma PushLimit_window:
  assumes "stream_ok st" "n \<le> length (window st)"
  shows "window (snd (PushLimit (int n) st)) = take n (window st)"
proof -
  have l: "current_limit (snd (PushLimit (int n) st)) = int (buffer st) + int n"
    using PushLimit_law(3) [OF assms(1), of "int n"] assms length_window [OF assms(1)] by (auto simp: stream_ok_def)
  have "window (snd (PushLimit (int n) st)) = take n (drop (buffer st) (ci_data st))"
    using window_eq [OF PushLimit_law(1) [OF assms(1), of "int n"]] PushLimit_law(4,5) [OF assms(1), of "int n"]
    unfolding l by (simp add: nat_add_distrib)
  also have "\<dots> = take n (window st)" using assms(2) length_window [OF assms(1)] by (simp add: window_def)
  finally show ?thesis .
qed

text \<open>Behind a limit that was set and restored.\<close>

lemma PopLimit_passed:
  assumes "stream_ok st" "n \<le> length (window st)" "passed n (snd (PushLimit (int n) st)) st'"
  shows "passed n st (PopLimit (fst (PushLimit (int n) st)) st')"
proof -
  note push = PushLimit_law [OF assms(1), of "int n"]
  have st': "stream_ok st'" "buffer st' = buffer st + n" "ci_data st' = ci_data st" using assms(3) push by (auto simp: passed_def)
  have "int (buffer st') \<le> current_limit st" "current_limit st \<le> int (length (ci_data st'))"
    using assms(1,2) st' length_window [OF assms(1)] by (auto simp: stream_ok_def)
  note pop = PopLimit_law [OF st'(1) this]
  have "window (PopLimit (current_limit st) st') = drop n (window st)"
    using window_eq [OF pop(1)] window_eq [OF assms(1)] pop st' by (simp add: drop_take add.commute)
  moreover have "recursion_depth st' = recursion_depth st" "recursion_limit st' = recursion_limit st"
    using assms(3) by (simp_all add: passed_def PushLimit_def Let_def)
  ultimately show ?thesis using pop st' push(2) by (simp add: passed_def) (simp add: PopLimit_def)
qed

section \<open>Values of a fixed size\<close>

lemma take_packed: "n * sizeof t \<le> k \<Longrightarrow> packed_elements t n (take k bs) = packed_elements t n bs"
proof (induction n arbitrary: k bs)
  case (Suc n)
  then have "n * sizeof t \<le> k - sizeof t" "sizeof t \<le> k" by simp_all
  then show ?case using Suc.IH [of "k - sizeof t" "drop (sizeof t) bs"] by (simp add: drop_take min_absorb1)
qed simp

lemma read_fixed_element:
  assumes "fixed_type t" "stream_ok st"
  shows "ReadPrimitive t st =
    Some (if sizeof t \<le> length (window st) then (Some (fixed_value t (take (sizeof t) (window st))), Advance (sizeof t) st)
          else (None, Advance (length (window st)) st))"
  using assms(1) by (auto simp: fixed_type_def LittleEndian_law [OF assms(2)] read_as_def sizeof_def)

lemma read_each_law:
  "fixed_type t \<Longrightarrow> stream_ok st \<Longrightarrow> n * sizeof t \<le> length (window st) \<Longrightarrow>
   read_each t n st vs = Some (True, vs @ packed_elements t n (window st), Advance (n * sizeof t) st)"
proof (induction n arbitrary: st vs)
  case (Suc n)
  have le: "sizeof t \<le> length (window st)" using Suc.prems by simp
  have p: "passed (sizeof t) st (Advance (sizeof t) st)" using Suc.prems(2) le by (rule passed_Advance)
  then have "read_each t n (Advance (sizeof t) st) ws =
      Some (True, ws @ packed_elements t n (drop (sizeof t) (window st)), Advance (n * sizeof t) (Advance (sizeof t) st))" for ws
    using Suc.IH [of "Advance (sizeof t) st" ws] Suc.prems by (simp add: passed_def)
  then show ?case using read_fixed_element [OF Suc.prems(1,2)] le by (simp add: Advance_def add.assoc add.commute)
qed (simp add: Advance_def)

lemma packed_fixed_eq:
  assumes "fixed_type t" "stream_ok st" "int (length (ci_data st)) < INT_MAX"
  shows "ReadPackedFixedSizePrimitive t st vs = do {
      (ok, n, st) \<leftarrow> ReadVarint32 st;
      if ok \<and> sizeof t dvd unat n then read_each t (unat n div sizeof t) st vs else Some (False, vs, st)
    }"
proof -
  obtain ok n st' where r: "ReadVarint32 st = Some (ok, n, st')" "moved st st'" using varint_moves [OF assms(2) Varint32_law [OF assms(2)]] by blast
  then have st': "stream_ok st'" "bounded st'" using assms(3) by (simp_all add: moved_def)
  define k where "k = unat n div sizeof t"
  have dvd: "k * sizeof t = unat n \<longleftrightarrow> sizeof t dvd unat n" unfolding k_def by (metis dvd_div_mult_self dvd_triv_right)
  have limit: "(if BytesUntilTotalBytesLimit st' = -1 then BytesUntilLimit st' else min (BytesUntilTotalBytesLimit st') (BytesUntilLimit st')) =
      int (length (window st'))"
    using st' length_window [OF st'(1)] until_limit [OF st'] by (auto simp: BytesUntilTotalBytesLimit_def position_law stream_ok_def)
  have fast: "ReadRaw (k * sizeof t) st' = Some (True, take (k * sizeof t) (window st'), Advance (k * sizeof t) st')"
      "read_each t k st' vs = Some (True, vs @ packed_elements t k (window st'), Advance (k * sizeof t) st')"
    if "k * sizeof t \<le> length (window st')"
    using that read_each_law [OF assms(1) st'(1) that, of vs] ReadRaw_law [OF st'(1), of "k * sizeof t"] by (simp_all add: min_absorb1)
  have "packed_elements t (unat n div sizeof t) (take (k * sizeof t) (window st')) = packed_elements t k (window st')"
    unfolding k_def by (rule take_packed) simp
  then show ?thesis using r(1)
    by (cases ok) (auto simp: ReadPackedFixedSizePrimitive_def Let_def k_def [symmetric] limit dvd fast simp del: of_nat_mult)
qed

text \<open>C27: on any bytes the quicker reader of packed values of a fixed size, which copies the whole array of
  values at once where the limits allow it, does what reading one value after the other does, with
  the same values added, the same result and the same state of the stream; a length that is no
  multiple of the size is refused.\<close>

theorem packed_fixed_agrees:
  assumes "fixed_type t" "stream_ok st" "int (length (ci_data st)) < INT_MAX"
  shows "ReadPackedFixedSizePrimitive t st vs = do {
      (ok, n, st) \<leftarrow> ReadVarint32 st;
      if ok \<and> sizeof t dvd unat n then read_each t (unat n div sizeof t) st vs else Some (False, vs, st)
    }"
  using assms by (rule packed_fixed_eq)

theorem packed_fixed_agrees_witness:
  "stream_ok (CodedInputStream [0x04, 1, 0, 0, 0]) \<and>
   ReadPackedFixedSizePrimitive TYPE_FIXED32 (CodedInputStream [0x04, 1, 0, 0, 0]) [] = do {
      (ok, n, st) \<leftarrow> ReadVarint32 (CodedInputStream [0x04, 1, 0, 0, 0]);
      if ok \<and> sizeof TYPE_FIXED32 dvd unat n then read_each TYPE_FIXED32 (unat n div sizeof TYPE_FIXED32) st [] else Some (False, [], st)
    }"
proof -
  have ok: "stream_ok (CodedInputStream [0x04, 1, 0, 0, 0])" by (rule CodedInputStream_ok) (simp add: kDefaultTotalBytesLimit_def)
  have "int (length (ci_data (CodedInputStream [0x04, 1, 0, 0, 0]))) < INT_MAX" by (simp add: CodedInputStream_def INT_MAX_def)
  then show ?thesis using packed_fixed_agrees [OF _ ok, of TYPE_FIXED32 "[]"] ok by (simp add: fixed_type_def)
qed

section \<open>Round trip\<close>

lemma fixed_value_law:
  assumes "fixed_type (value_type v)"
  shows "fixed_value (value_type v) (WriteNoTagToArray v) = v" "length (WriteNoTagToArray v) = sizeof (value_type v)"
proof -
  have "word_of_int (le_val (le_bytes 4 (uint w))) = w" for w :: uint32
    unfolding le_val_le_bytes using uint_lt2p [of w] by simp
  moreover have "word_of_int (le_val (le_bytes 8 (uint u))) = u" for u :: uint64
    unfolding le_val_le_bytes using uint_lt2p [of u] by simp
  ultimately show "fixed_value (value_type v) (WriteNoTagToArray v) = v" "length (WriteNoTagToArray v) = sizeof (value_type v)"
    using assms by (cases v; simp add: fixed_type_def writer_simps sizeof_def)+
qed

lemma packed_elements_law:
  "list_all (\<lambda>v. value_type v = t) vs \<Longrightarrow> fixed_type t \<Longrightarrow>
   packed_elements t (length vs) (concat (map WriteNoTagToArray vs) @ rest) = vs \<and> length (concat (map WriteNoTagToArray vs)) = length vs * sizeof t"
proof (induction vs)
  case (Cons v vs)
  then show ?case using fixed_value_law [of v] by simp
qed simp

lemma WriteNoTag_nonempty: "WriteNoTagToArray v \<noteq> []"
proof -
  have "varint n \<noteq> []" for n by (subst varint.simps) simp
  then show ?thesis
    by (cases v) (simp_all add: writer_simps WriteVarint64ToArray_def Inline64_law WriteStringWithSizeToArray_def le_bytes_numeral)
qed

lemma packed_loop_law:
  "list_all (\<lambda>v. is_primitive v \<and> value_type v = t) vs \<Longrightarrow> stream_ok st \<Longrightarrow> bounded st \<Longrightarrow> window st = concat (map WriteNoTagToArray vs) \<Longrightarrow>
   \<exists>st'. packed_loop t st acc = Some (True, acc @ vs, st') \<and> passed (length (window st)) st st'"
proof (induction vs arbitrary: st acc)
  case Nil
  then show ?case using until_limit [of st] passed_0 [of st] by (subst packed_loop.simps) simp
next
  case (Cons v vs)
  then obtain st1 where st1: "ReadPrimitive t st = Some (Some v, st1)" "passed (length (WriteNoTagToArray v)) st st1"
    using ReadPrimitive_law [of v st 0 "concat (map WriteNoTagToArray vs)"] by (auto simp: WriteNoTag_ToArray)
  then have w: "stream_ok st1" "bounded st1" "window st1 = concat (map WriteNoTagToArray vs)" using Cons.prems by (auto simp: passed_def)
  then obtain st2 where st2: "packed_loop t st1 (acc @ [v]) = Some (True, (acc @ [v]) @ vs, st2)" "passed (length (window st1)) st1 st2"
    using Cons.IH [of st1 "acc @ [v]"] Cons.prems(1) by auto
  have "0 < BytesUntilLimit st" using until_limit [OF Cons.prems(2,3)] Cons.prems(4) WriteNoTag_nonempty [of v] by (cases "WriteNoTagToArray v") simp_all
  then have "packed_loop t st acc = Some (True, acc @ v # vs, st2)" using st1(1) st2(1) by (subst packed_loop.simps) simp
  moreover have "passed (length (window st)) st st2" using passed_trans [OF st1(2) st2(2)] Cons.prems(4) w(3) by simp
  ultimately show ?case by blast
qed

text \<open>C26: values of one type, written one after the other behind their total length, are read again by the reader
  for packed values of that type, whether it goes by a limit or copies an array, and exactly
  these bytes are passed.\<close>

theorem packed_round_trip:
  assumes "list_all (\<lambda>v. is_primitive v \<and> value_type v = t) vs" "stream_ok st" "int (length (ci_data st)) < INT_MAX"
    and "bytes = concat (map (WriteNoTag room) vs)" "window st = WriteVarint32 room (of_nat (length bytes)) @ bytes @ rest"
  shows "\<exists>st'. read_packed t st acc = Some (True, acc @ vs, st') \<and> window st' = rest \<and> current_limit st' = current_limit st"
proof -
  have bytes: "bytes = concat (map WriteNoTagToArray vs)" by (simp add: assms(4) WriteNoTag_ToArray cong: map_cong)
  have "int (length (window st)) < INT_MAX" using assms(2,3) by (subst length_window) (auto simp: stream_ok_def)
  then have small: "int (length bytes) \<le> INT_MAX" using assms(5) by simp
  let ?k = "length (varint (length bytes))"
  have w: "window st = varint (length bytes) @ bytes @ rest" using assms(5) sint_length(2) [OF small] by (simp add: writers_varint)
  have "length bytes < 2 ^ 64" using small by (simp add: INT_MAX_def)
  then have r: "ReadVarint32 st = Some (True, of_nat (length bytes), Advance ?k st)" by (rule reads_there [OF Varint32_law [OF assms(2)] w])
  have "passed ?k st (Advance ?k st)" using w by (intro passed_Advance [OF assms(2)]) simp
  then have st1: "stream_ok (Advance ?k st)" "window (Advance ?k st) = bytes @ rest" "bounded (Advance ?k st)"
      "current_limit (Advance ?k st) = current_limit st"
    using w assms(3) by (auto simp: passed_def)
  show ?thesis
  proof (cases "fixed_type t")
    case True
    have vs: "list_all (\<lambda>v. value_type v = t) vs" using assms(1) by (simp add: list_all_iff)
    have e: "packed_elements t (length vs) (bytes @ rest) = vs" "length bytes = length vs * sizeof t"
      using packed_elements_law [OF vs True] unfolding bytes by blast+
    have pos: "0 < sizeof t" by (simp add: sizeof_def)
    have "read_each t (length vs) (Advance ?k st) acc = Some (True, acc @ vs, Advance (length bytes) (Advance ?k st))"
      using read_each_law [OF True st1(1), of "length vs" acc] e st1(2) by simp
    then have "read_packed t st acc = Some (True, acc @ vs, Advance (length bytes) (Advance ?k st))"
      using packed_fixed_eq [OF True assms(2,3), of acc] r True sint_length(2) [OF small] e(2) pos by (simp add: read_packed_def)
    moreover have "passed (length bytes) (Advance ?k st) (Advance (length bytes) (Advance ?k st))"
      using st1(2) by (intro passed_Advance [OF st1(1)]) simp
    ultimately show ?thesis using st1 by (auto simp: passed_def)
  next
    case False
    let ?push = "PushLimit (int (length bytes)) (Advance ?k st)"
    have le: "length bytes \<le> length (window (Advance ?k st))" using st1(2) by simp
    have "window (snd ?push) = bytes" using PushLimit_window [OF st1(1) le] st1(2) by simp
    moreover have "stream_ok (snd ?push)" "bounded (snd ?push)" using PushLimit_law [OF st1(1), of "int (length bytes)"] st1(3) by simp_all
    ultimately obtain st2 where st2: "packed_loop t (snd ?push) acc = Some (True, acc @ vs, st2)" "passed (length bytes) (snd ?push) st2"
      using packed_loop_law [OF assms(1), of "snd ?push" acc] bytes by auto
    then have "read_packed t st acc = Some (True, acc @ vs, PopLimit (fst ?push) st2)"
      using r False sint_length(1) [OF small] by (simp add: read_packed_def ReadPackedPrimitive_def case_prod_unfold)
    then show ?thesis using PopLimit_passed [OF st1(1) le st2(2)] st1 by (auto simp: passed_def)
  qed
qed

text \<open>Three numbers of different lengths, with another byte behind them.\<close>

theorem packed_round_trip_witness:
  "\<exists>st st'. stream_ok st \<and> window st = WriteVarint32 9 (of_nat (length (concat (map (WriteNoTag 9) [VUInt32 0, VUInt32 1, VUInt32 128])))) @
      concat (map (WriteNoTag 9) [VUInt32 0, VUInt32 1, VUInt32 128]) @ [7] \<and>
    read_packed TYPE_UINT32 st [] = Some (True, [VUInt32 0, VUInt32 1, VUInt32 128], st') \<and> window st' = [7]"
proof -
  let ?vs = "[VUInt32 0, VUInt32 1, VUInt32 128]"
  define bytes where "bytes = concat (map (WriteNoTag 9) ?vs)"
  define data where "data = WriteVarint32 9 (of_nat (length bytes)) @ bytes @ [7]"
  have "varint 0 = [0]" "varint 1 = [1]" "varint 128 = [128, 1]" "varint 4 = [4]" by (simp_all add: varint.simps)
  then have b: "bytes = [0, 1, 128, 1]" by (simp add: bytes_def writers_varint)
  have len: "length data = 6" using \<open>varint 4 = [4]\<close> by (simp add: data_def b writers_varint)
  then have ok: "stream_ok (CodedInputStream data)" by (intro CodedInputStream_ok) (simp add: kDefaultTotalBytesLimit_def)
  have "list_all (\<lambda>v. is_primitive v \<and> value_type v = TYPE_UINT32) ?vs" by (simp add: is_primitive_def)
  moreover have "int (length (ci_data (CodedInputStream data))) < INT_MAX" using len by (simp add: CodedInputStream_def INT_MAX_def)
  moreover have w: "window (CodedInputStream data) = WriteVarint32 9 (of_nat (length bytes)) @ bytes @ [7]"
    by (simp only: window_CodedInputStream data_def)
  ultimately obtain st' where "read_packed TYPE_UINT32 (CodedInputStream data) [] = Some (True, [] @ ?vs, st')" "window st' = [7]"
    using packed_round_trip [OF _ ok _ bytes_def] by blast
  then show ?thesis using ok w unfolding bytes_def append_Nil by blast
qed

section \<open>Any bytes\<close>

lemma varint_progress:
  assumes "stream_ok st" "reads_varint st r"
  shows "\<exists>ok v st'. r = Some (ok, v, st') \<and> moved st st' \<and> (ok \<longrightarrow> length (window st') < length (window st))"
proof (cases "unvarint 10 (window st)")
  case None
  then show ?thesis using assms by (auto simp: reads_varint_def intro: moved_Advance)
next
  case (Some nk)
  obtain n k where nk: "nk = (n, k)" by fastforce
  have k: "1 \<le> k" "k \<le> length (window st)" using unvarint_bounds [of 10 "window st" n k] Some nk by simp_all
  then have "length (window (Advance k st)) < length (window st)" using passed_Advance [OF assms(1), of k] by (simp add: passed_def)
  moreover have "r = Some (True, of_nat n, Advance k st)" using assms(2) Some nk by (simp add: reads_varint_def)
  ultimately show ?thesis using moved_Advance [OF assms(1) k(2)] by blast
qed

lemma read_as_progress:
  assumes "stream_ok st" "reads_varint st r"
  shows "\<exists>v st'. read_as f r = Some (v, st') \<and> moved st st' \<and> (v \<noteq> None \<longrightarrow> length (window st') < length (window st))"
proof -
  obtain ok v st' where "r = Some (ok, v, st')" "moved st st'" "ok \<longrightarrow> length (window st') < length (window st)"
    using varint_progress [OF assms] by blast
  then show ?thesis by (cases ok) (simp_all add: read_as_def)
qed

definition has_reader :: "pb_type \<Rightarrow> bool" where
  "has_reader t \<longleftrightarrow> t \<notin> {TYPE_STRING, TYPE_BYTES, TYPE_GROUP, TYPE_MESSAGE}"

lemma ReadPrimitive_progress:
  assumes "has_reader t" "stream_ok st"
  shows "\<exists>v st'. ReadPrimitive t st = Some (v, st') \<and> moved st st' \<and> (v \<noteq> None \<longrightarrow> length (window st') < length (window st))"
proof (cases "fixed_type t")
  case True
  have "length (window (Advance (sizeof t) st)) < length (window st)" if "sizeof t \<le> length (window st)"
  proof -
    have "0 < sizeof t" by (simp add: sizeof_def)
    then show ?thesis using passed_Advance [OF assms(2) that] that by (simp add: passed_def)
  qed
  then show ?thesis using read_fixed_element [OF True assms(2)] moved_Advance [OF assms(2)] by simp
next
  case False
  note read = read_as_progress [OF assms(2) Varint32_law [OF assms(2)]] read_as_progress [OF assms(2) Varint64_law [OF assms(2)]]
  show ?thesis using False assms(1) read
    by (cases t) (simp_all add: has_reader_def fixed_type_def)
qed

lemma packed_loop_returns:
  "has_reader t \<Longrightarrow> stream_ok st \<Longrightarrow> bounded st \<Longrightarrow> \<exists>ok ws st'. packed_loop t st vs = Some (ok, vs @ ws, st') \<and> moved st st'"
proof (induction "length (window st)" arbitrary: st vs rule: less_induct)
  case less
  obtain v st1 where r: "ReadPrimitive t st = Some (v, st1)" "moved st st1" "v \<noteq> None \<longrightarrow> length (window st1) < length (window st)"
    using ReadPrimitive_progress [OF less.prems(1,2)] by blast
  show ?case
  proof (cases "0 < BytesUntilLimit st \<and> v \<noteq> None")
    case True
    then obtain x where x: "v = Some x" by blast
    have "stream_ok st1" "bounded st1" using r(2) less.prems(3) by (simp_all add: moved_def)
    then obtain ok ws st2 where "packed_loop t st1 (vs @ [x]) = Some (ok, (vs @ [x]) @ ws, st2)" "moved st1 st2"
      using less.hyps [of st1 "vs @ [x]"] r(3) x less.prems(1) by blast
    then show ?thesis using True r(1,2) x by (subst packed_loop.simps) (auto intro: moved_trans)
  next
    case False
    then show ?thesis using r(1,2) moved_refl [OF less.prems(2)] by (subst packed_loop.simps) auto
  qed
qed

lemma read_each_returns:
  "fixed_type t \<Longrightarrow> stream_ok st \<Longrightarrow> \<exists>ok ws st'. read_each t n st vs = Some (ok, vs @ ws, st') \<and> moved st st'"
proof (induction n arbitrary: st vs)
  case 0
  have "read_each t 0 st vs = Some (True, vs @ [], st)" by simp
  then show ?case using moved_refl [OF 0(2)] by blast
next
  case (Suc n)
  have "has_reader t" using Suc.prems(1) by (auto simp: fixed_type_def has_reader_def)
  then obtain v st1 where r: "ReadPrimitive t st = Some (v, st1)" "moved st st1" using ReadPrimitive_progress Suc.prems(2) by blast
  have "stream_ok st1" using r(2) by (simp add: moved_def)
  then have "\<exists>ok ws st'. read_each t n st1 (vs @ [x]) = Some (ok, (vs @ [x]) @ ws, st') \<and> moved st1 st'" for x
    using Suc.IH Suc.prems(1) by blast
  then show ?case using r by (cases v) (fastforce intro: moved_trans)+
qed

text \<open>The reader of packed values returns on any bytes and any length before them: it adds values at the
  end of the field and stays inside the array, and when it succeeds the limit is the old one.\<close>

lemma packed_reads_return:
  assumes "has_reader t" "stream_ok st" "int (length (ci_data st)) < INT_MAX"
  shows "\<exists>ok ws st'. read_packed t st vs = Some (ok, vs @ ws, st') \<and> stream_ok st' \<and> ci_data st' = ci_data st \<and> buffer st \<le> buffer st' \<and>
    int (buffer st') \<le> current_limit st \<and> (ok \<longrightarrow> current_limit st' = current_limit st)"
proof -
  obtain ok n st1 where r: "ReadVarint32 st = Some (ok, n, st1)" "moved st st1" using varint_moves [OF assms(2) Varint32_law [OF assms(2)]] by blast
  have st1: "stream_ok st1" "bounded st1" "current_limit st1 = current_limit st" "ci_data st1 = ci_data st" "buffer st \<le> buffer st1"
    using r(2) assms(3) by (simp_all add: moved_def)
  have within: "int (buffer st') \<le> current_limit st'" "current_limit st' \<le> int (length (ci_data st'))" if "stream_ok st'" for st'
    using that by (auto simp: stream_ok_def)
  have fail: "stream_ok st1 \<and> ci_data st1 = ci_data st \<and> buffer st \<le> buffer st1 \<and> int (buffer st1) \<le> current_limit st"
    using st1 within(1) [OF st1(1)] by simp
  show ?thesis
  proof (cases "fixed_type t")
    case True
    obtain ok' ws st2 where "read_each t (unat n div sizeof t) st1 vs = Some (ok', vs @ ws, st2)" "moved st1 st2"
      using read_each_returns [OF True st1(1)] by blast
    then show ?thesis using packed_fixed_eq [OF True assms(2,3), of vs] r(1) True st1 fail within(1) [of st2]
      by (auto simp: read_packed_def moved_def)
  next
    case False
    let ?push = "PushLimit (sint n) st1"
    note push = PushLimit_law [OF st1(1), of "sint n"]
    obtain ok' ws st2 where loop: "packed_loop t (snd ?push) vs = Some (ok', vs @ ws, st2)" "moved (snd ?push) st2"
      using packed_loop_returns [OF assms(1) push(1), of vs] push(4) st1(2) by auto
    have st2: "stream_ok st2" "ci_data st2 = ci_data st" "buffer st \<le> buffer st2" "int (buffer st2) \<le> current_limit st"
      using loop(2) push st1 within(1) [of st2] by (auto simp: moved_def split: if_splits)
    moreover note PopLimit_law [OF st2(1), of "current_limit st"]
    ultimately show ?thesis using r(1) False loop(1) fail push(2) st1(3) within(2) [OF assms(2)]
      by (auto simp: read_packed_def ReadPackedPrimitive_def case_prod_unfold)
  qed
qed

text \<open>The reader of packed enumerations keeps the valid ones of the values that the general reader reads.\<close>

lemma packed_enum_filters:
  "stream_ok st \<Longrightarrow> bounded st \<Longrightarrow>
   \<exists>ok ws st'. packed_loop TYPE_ENUM st vs = Some (ok, vs @ map VEnum ws, st') \<and>
     packed_enum_loop is_valid st us = Some (ok, us @ filter is_valid ws, st')"
proof (induction "length (window st)" arbitrary: st vs us rule: less_induct)
  case less
  obtain ok v st1 where r: "ReadVarint32 st = Some (ok, v, st1)" "moved st st1" "ok \<longrightarrow> length (window st1) < length (window st)"
    using varint_progress [OF less.prems(1) Varint32_law [OF less.prems(1)]] by blast
  consider (more) "0 < BytesUntilLimit st" ok | (bad) "0 < BytesUntilLimit st" "\<not> ok" | (stop) "\<not> 0 < BytesUntilLimit st" by blast
  then show ?case
  proof cases
    case more
    have "stream_ok st1" "bounded st1" using r(2) less.prems(2) by (simp_all add: moved_def)
    then obtain ok' ws st2 where "packed_loop TYPE_ENUM st1 (vs @ [VEnum v]) = Some (ok', (vs @ [VEnum v]) @ map VEnum ws, st2)"
        "packed_enum_loop is_valid st1 (if is_valid v then us @ [v] else us) =
          Some (ok', (if is_valid v then us @ [v] else us) @ filter is_valid ws, st2)"
      using less.hyps [of st1] r(3) more(2) by blast
    then have "packed_loop TYPE_ENUM st vs = Some (ok', vs @ map VEnum (v # ws), st2)"
        "packed_enum_loop is_valid st us = Some (ok', us @ filter is_valid (v # ws), st2)"
      using r(1) more by (simp_all add: packed_loop.simps [of TYPE_ENUM st] packed_enum_loop.simps [of is_valid st] read_as_def)
    then show ?thesis by blast
  next
    case bad
    then have "packed_loop TYPE_ENUM st vs = Some (False, vs @ map VEnum [], st1)"
        "packed_enum_loop is_valid st us = Some (False, us @ filter is_valid [], st1)"
      using r(1) by (simp_all add: packed_loop.simps [of TYPE_ENUM st] packed_enum_loop.simps [of is_valid st] read_as_def)
    then show ?thesis by blast
  next
    case stop
    then have "packed_loop TYPE_ENUM st vs = Some (True, vs @ map VEnum [], st)"
        "packed_enum_loop is_valid st us = Some (True, us @ filter is_valid [], st)"
      by (simp_all add: packed_loop.simps [of TYPE_ENUM st] packed_enum_loop.simps [of is_valid st])
    then show ?thesis by blast
  qed
qed

lemma packed_enum_law:
  assumes "stream_ok st" "bounded st"
  shows "\<exists>ok ws st'. ReadPackedPrimitive TYPE_ENUM st vs = Some (ok, vs @ map VEnum ws, st') \<and>
    ReadPackedEnumNoInline is_valid st us = Some (ok, us @ filter is_valid ws, st')"
proof -
  obtain ok n st1 where r: "ReadVarint32 st = Some (ok, n, st1)" "moved st st1" using varint_moves [OF assms(1) Varint32_law [OF assms(1)]] by blast
  have st1: "stream_ok st1" "bounded st1" using r(2) assms(2) by (simp_all add: moved_def)
  show ?thesis
  proof (cases ok)
    case True
    obtain ok' ws st2 where "packed_loop TYPE_ENUM (snd (PushLimit (sint n) st1)) vs = Some (ok', vs @ map VEnum ws, st2)"
        "packed_enum_loop is_valid (snd (PushLimit (sint n) st1)) us = Some (ok', us @ filter is_valid ws, st2)"
      using packed_enum_filters [of "snd (PushLimit (sint n) st1)" vs is_valid us] PushLimit_law [OF st1(1), of "sint n"] st1(2) by auto
    then have "ReadPackedPrimitive TYPE_ENUM st vs =
          Some (ok', vs @ map VEnum ws, if ok' then PopLimit (fst (PushLimit (sint n) st1)) st2 else st2)"
        "ReadPackedEnumNoInline is_valid st us =
          Some (ok', us @ filter is_valid ws, if ok' then PopLimit (fst (PushLimit (sint n) st1)) st2 else st2)"
      using r(1) True by (simp_all add: ReadPackedPrimitive_def ReadPackedEnumNoInline_def case_prod_unfold)
    then show ?thesis by blast
  next
    case False
    then have "ReadPackedPrimitive TYPE_ENUM st vs = Some (False, vs @ map VEnum [], st1)"
        "ReadPackedEnumNoInline is_valid st us = Some (False, us @ filter is_valid [], st1)"
      using r(1) by (simp_all add: ReadPackedPrimitive_def ReadPackedEnumNoInline_def)
    then show ?thesis by blast
  qed
qed

end
