(* ===== verification/Spec2Isabelle.thy ===== *)
theory Spec2Isabelle
  imports Ae_Spec Lsendbuf_Spec Lrecvbuf_Spec Bson_Spec Server_Spec Ltimer_Spec Log_Spec
    Ar_Spec Lstring_Spec Json_Spec Actordb_Spec Bson_Lua_Spec
    Ae_Kqueue_Spec Lredis_Spec Lmysql_Spec Lsys_Spec Lsocket
    Pblua_Repeated Luaexe_Loop Pb_Wire_Skip Pb_Wire_Packed
begin

text \<open>
  A verification library for the C and C++ core of a Lua game server: the event loop with its ports
  and timers, the socket buffers, the log, and the formats in which data leaves the process.

  \<^bold>\<open>The program.\<close> A server process runs event loops (\<open>src/src/ae/ae.cc\<close>), which wait on descriptors
  through a multiplexing layer (\<open>ae_select.cc\<close>, \<open>ae_epoll.c\<close>, \<open>ae_kqueue.cc\<close>), call the registered callbacks and run
  the due timers. Lua code drives it through bindings: \<open>lport.cc\<close> for sockets that listen, connect,
  send and receive, \<open>ltimer.cc\<close> for timers, \<open>lae.cc\<close> for the loop itself. Data of a socket passes
  through a send buffer (\<open>lsendbuf.cc\<close>), a chain of blocks from free lists by size class, and a receive
  buffer (\<open>lrecvbuf.cc\<close>), one block with a read and a write position. Everything writes to a log
  (\<open>src/3rd/common/log.c\<close>, \<open>llog.cc\<close>) whose files are rotated. Data is exchanged as BSON
  (\<open>src/src/bson\<close>), as JSON (\<open>src/src/json\<close>), as protocol buffers (\<open>src/src/pblua\<close>), in archives (\<open>src/src/ar/ar.cc\<close>) and in packed records
  (\<open>src/src/lstrc/actordb.cc\<close>). Lua's string and bit libraries are extended (\<open>lstringpatch.cc\<close>,
  \<open>lbitpatch.cc\<close>). Scripts reach databases through \<open>lredis.cc\<close> and \<open>lmysql.cc\<close>, the system through
  \<open>ldate.cc\<close>, \<open>lfile.cc\<close>, \<open>lsystem.cc\<close> and \<open>socket.cc\<close>; \<open>lsrvmain.cc\<close> starts the process; \<open>luaexe.c\<close> is the
  interpreter that runs scripts from the command line.

  \<^bold>\<open>Theories and sources.\<close>
  \<^item> \<open>Prelude\<close>: C integer conversions, byte blocks with checked access, little-endian encodings,
    strings. \<open>Os\<close>: the system calls the code uses, as a record of functions on the state of the world.
    \<open>Decimal\<close>: decimal and hexadecimal numbers as text. \<open>Dbl\<close>: IEEE doubles with their rounding and the
    formats of \<open>printf\<close>; \<open>Dbl_Bits\<close>: their eight bytes. \<open>Lua_Args\<close>, \<open>Lua_Path\<close>, \<open>Lua_Value\<close>: what the bindings see of their arguments,
    the lookup of a function by its dotted name (what metatables do is a parameter), Lua values with tables.
  \<^item> \<open>Ae\<close>: the structures of \<open>ae.h\<close> as records and every function of \<open>ae.cc\<close>. The layer is a record
    of functions (\<open>ae_api\<close>), the callbacks another (\<open>procs\<close>). \<open>Ae_Laws\<close>, \<open>Ae_Timers\<close>, \<open>Ae_Dispatch\<close> and
    \<open>Ae_Keeps\<close> hold the invariant and the laws of the operations; the locales \<open>ae_frame\<close>,
    \<open>ae_multiplexer\<close>, \<open>ae_poller\<close> and \<open>ae_keeps\<close> state what the loop needs of a layer and of callbacks.
    \<open>Ae_Select\<close>, \<open>Ae_Epoll\<close> and \<open>Ae_Kqueue\<close> are the three layers and their interpretations. \<open>Ae_Spec\<close> and
    \<open>Ae_Kqueue_Spec\<close> hold the properties.
  \<^item> \<open>Lsendbuf\<close>: \<open>lsendbuf.cc\<close> with an explicit heap of blocks; \<open>Lsendbuf_Laws\<close> its invariant;
    \<open>Lsendbuf_Spec\<close> the properties. \<open>Lrecvbuf\<close> and \<open>Lrecvbuf_Spec\<close>: the same for \<open>lrecvbuf.cc\<close>.
    Both implement the locale \<open>byte_queues\<close> of \<open>Byte_Queues\<close>, one FIFO queue of bytes per socket.
  \<^item> \<open>Server\<close>: the static state of \<open>lport.cc\<close>, \<open>ltimer.cc\<close> and \<open>lae.cc\<close> with the loops and the buffers,
    and the scripts as functions on it. \<open>Lport\<close>, \<open>Ltimer\<close>, \<open>Lae\<close>: the functions of these files.
    \<open>Server_Laws\<close> (locale \<open>loop_laws\<close>, a sublocale of \<open>ae_keeps\<close>) and \<open>Server_Spec\<close>: the invariant of the
    whole server along any run of events and calls; \<open>Lport_Spec\<close>, \<open>Lport_Life\<close>, \<open>Ltimer_Spec\<close>: sending,
    accepting, closing, connecting, timers.
  \<^item> \<open>Log\<close>, \<open>Log_Spec\<close>: the log with its rotation. \<open>Ar\<close>, \<open>Ar_Spec\<close>: archives. \<open>Lstring\<close>,
    \<open>Lstring_Spec\<close>: the string and bit functions. \<open>Actordb\<close>, \<open>Actordb_Spec\<close>: the packed records, with a
    heap of objects.
  \<^item> \<open>Bson\<close> and \<open>Bson_Iter\<close>: the building and the reading half of \<open>bson.c\<close>. \<open>Bson_Laws\<close> and
    \<open>Bson_Build\<close>: the encoding of a document by the BSON format, the invariant of a builder, and the
    contract of every appending function. \<open>Bson_Walk\<close>: iterators on an encoded document.
    \<open>Bson_Spec\<close>: the properties. \<open>Bson_Lua\<close>: the Lua binding \<open>bson_encode.cpp\<close> and \<open>cBson.cpp\<close> with the
    printer of \<open>bson.c\<close>, on an explicit Lua stack; \<open>Bson_Lua_Spec\<close> (locale \<open>entry_loop\<close>, for the loops over the
    entries of a table): its round trip.
  \<^item> \<open>Cjson\<close>: the parser, the printer and the item functions of \<open>cJSON.cc\<close>; a pointer into a text is the
    rest of its block. \<open>Json\<close>: the Lua binding \<open>json.cc\<close> with an explicit Lua stack. \<open>Cjson_Spec\<close> and
    \<open>Json_Spec\<close>: the text of a value, and the round trips.
  \<^item> \<open>Pb_Message\<close>: the messages of the protobuf library in \<open>src/3rd/protobuf-2.6.0\<close>, a heap of objects
    with one slot per field, and its reflection functions. \<open>Pblua\<close>: the Lua binding \<open>pblua.cc\<close> with its
    userdata. \<open>Pblua_Spec\<close> and \<open>Pblua_Repeated\<close>: the value of a message, ownership, and the properties.
  \<^item> \<open>Pb_Coded\<close>: the coded streams of the same library, \<open>io/coded_stream.cc\<close> and its headers, reading from a flat
    array and writing numbers. \<open>Pb_Coded_Spec\<close>: the variable-length encoding as a reference, and the law of every
    operation on the bytes up to the limit; \<open>Pb_Coded_Ops\<close>: sequences of operations on any bytes. \<open>Pb_Wire\<close>: the wire
    format, \<open>wire_format_lite.cc\<close> and its headers. \<open>Pb_Wire_Spec\<close> (locale \<open>codec\<close>, a writer and a reader that
    fit, for values and for fields), \<open>Pb_Wire_Skip\<close> and \<open>Pb_Wire_Packed\<close>: its properties.
  \<^item> \<open>Lredis\<close>, \<open>Lredis_Spec\<close>, \<open>Lmysql\<close>, \<open>Lmysql_Spec\<close>: the database bindings, over records of the functions of
    the client libraries. \<open>Lsys\<close>, \<open>Lsys_Spec\<close>: \<open>ldate.cc\<close>, \<open>lsystem.cc\<close> and \<open>lfile.cc\<close>. \<open>Lsocket\<close>: \<open>socket.cc\<close>
    and \<open>lsrvmain.cc\<close>.
  \<^item> \<open>Luaexe\<close>: \<open>luaexe.c\<close> with its Lua stack, and the stack operations of \<open>src/3rd/lua/src/lapi.c\<close> it uses; the Lua
    library is a record of functions. \<open>Luaexe_Spec\<close>: a description of the command line without stack and indices, and
    the simulation. \<open>Luaexe_Loop\<close>: the interactive mode.

  \<^bold>\<open>What is shown.\<close>
  \<^item> Event loop: registration and removal of descriptors are exact and keep the layer in step with the
    masks of the loop, for every layer (on kqueue up to a failed registration of two conditions); a pass over the events has no undefined behaviour as long
    as the descriptors fit in an \<open>fd_set\<close>; the callbacks a pass over the timers calls are those of the due timers, each
    once and in order; the timeout of the poll is the time to the nearest timer; Lua timers are counted wrongly when
    they are stopped as self timers.
  \<^item> Buffers: any sequence of operations on either buffer is a sequence of operations on one FIFO queue
    of bytes per socket; allocation gives the room asked for; the places where the code breaks this
    (overflow of a size, unchecked reads, pointers left after a release) are theorems too.
  \<^item> Server: every loop stays well-formed along any run of events, timers and calls of the bindings; the
    buffered bytes reach the kernel in order, whatever errors \<open>send\<close> has; accepting and closing a socket keep loop, table and
    buffers in step; a failed connect does not.
  \<^item> Log: as long as the files of a rotation can be opened, logging lines returns and the files stay bounded, up to what
    a file that is appended to held before; with a maximum of zero or less and a file that cannot be opened it never
    returns.
  \<^item> Formats: building a BSON document gives its encoding, and searching and reading it give the values
    back; JSON text is printed inside its buffers and parsed to the same value, and a Lua value
    that is not nested too deep survives the way through JSON, and a flat table the way through BSON; archives and split strings can
    be read back; records are packed by their layout, but not unpacked by it.
  \<^item> Protocol buffers: a message that is not nested too deep becomes the table of its value; a field that is set is read back and
    nothing else changes; elements are removed from repeated fields as from lists; a part of a message
    cannot be used after its root was collected.
  \<^item> Wire format: the coded streams stay inside their array for any sequence of reads and limits on any
    bytes, although some readers do not check for the end; fields of every type are read back as they
    were written, and so are packed fields; the optimised writers and readers agree with the plain ones;
    unknown fields are skipped in finitely many steps and recorded byte for byte.
  \<^item> Databases and system: every reply of redis, with arrays at most four deep, and every result set of MySQL arrives in Lua as a whole;
    the vectors of a command and the escape buffer are used inside their bounds, or exactly when not; a
    command line is split into its words; directories are made along a path; two dates are compared by
    the week.
  \<^item> Command line: the interpreter carries out its options, script and interactive mode as described, with
    the exit status; the interactive mode returns when its input ends.

  \<^bold>\<open>Bounds and fuel.\<close> \<open>time_loop\<close>, \<open>main_loop\<close>, \<open>find_key\<close>, \<open>write_loop\<close>, \<open>rotate_log_file\<close>, \<open>split_loop\<close>,
  \<open>encode_loop\<close>, \<open>unpack_loop\<close>, \<open>append_loop\<close>, \<open>table_loop\<close>, \<open>print_walk\<close>, \<open>bson_decode_tree\<close>, \<open>result_loop\<close>,
  \<open>Clear\<close>, \<open>MergeFrom\<close>, \<open>Delete\<close>, \<open>pb_load_tree\<close>, \<open>find_query\<close>, \<open>load_loop\<close>, \<open>dotty_loop\<close>,
  \<open>packed_loop\<close>, \<open>packed_enum_loop\<close>, \<open>SkipMessage\<close> and \<open>SkipMessageTo\<close> are \<^theory_text>\<open>partial_function\<close>s in the option
  type: not returning is \<open>None\<close>, and the properties show when they return. The recursion of the JSON parser is proved to end. The
  other loops are structural. No fuel is used. The BSON properties assume documents of at most \<open>2^29\<close>
  bytes where they claim success: the buffer grows to about three times its content, which then stays
  below \<open>INT_MAX\<close>. The JSON properties assume texts below \<open>2^29\<close> bytes: the sizes the printer computes
  are at most four times as large. Coded streams are on arrays of at most \<open>kDefaultTotalBytesLimit\<close>, the limit
  the library sets itself, and field numbers below \<open>2^29\<close>, the greatest the format has room for.

  \<^bold>\<open>The Lua stack.\<close> A C function may use \<open>LUA_MINSTACK\<close> slots above its arguments, and the bindings never ask for more.
  Where they push for every level of nested data (\<open>Json\<close>, \<open>Bson_Lua\<close>, \<open>Lredis\<close>, \<open>Pblua\<close>), in loops (\<open>Lmysql\<close>, the
  directories of \<open>Lsys\<close>) and in the lookup of a callback (\<open>Lua_Path\<close>), every push is \<open>lua_pushed\<close>, which is undefined
  when no slot is left, and the properties state how deep the data may be. The callbacks of events start from an empty
  stack; slots that a lookup left behind in an earlier event are not modelled. The stack of \<open>Luaexe\<close> has no limit:
  \<open>getargs\<close>, which pushes many values, asks for the slots; a line of the interactive mode with many results is printed
  without asking for the slot of \<open>print\<close>, which the model does not see.

  \<^bold>\<open>Outside the model.\<close> The kernel, \<open>malloc\<close>, the clock and the Lua state are parameters, and so is the
  library function \<open>pow\<close>. The checks of \<open>encoding.h\<close>, which is not in the repository, are parameters of
  the BSON model; so are conversions of floating-point numbers there. hiredis and the MySQL connector
  are parameters with the documented results of their functions. In the JSON library items are values:
  releasing them is not modelled. Of protobuf extensions, \<open>oneof\<close> fields, the compiler of
  the type definitions, streams that are not flat arrays, and the code that reads and writes whole messages by
  reflection (\<open>wire_format.cc\<close>) are parameters or left out. \<open>lmongodb.c\<close> is empty.
\<close>

end
